(* ===== verification/Prelude.thy ===== *)
theory Prelude
  imports Main "HOL-Library.AList" "HOL-Library.Word"
begin

text \<open>
  Shared vocabulary of the development.
  \<^item> Rust's unsigned integers are natural numbers; the width is explicit in the operations
    (\<open>checked_add\<close>, \<open>saturating_add\<close>, \<open>wrapping_add\<close>, ...), each of which takes the
    largest value of the type as its first argument.  Order flags, where single bits matter,
    are 8-bit words.
  \<^item> \<open>Result\<close> is the sum type with the error on the left; \<open>and_then\<close> is the \<open>?\<close> operator.
  \<^item> A \<open>HashMap\<close> is an association list: the list order is the (unspecified) iteration
    order, and the locale \<open>hash_map\<close> states what its clients rely on.
\<close>

unbundle bit_operations_syntax

named_theorems result_simps \<open>success of a composed fallible computation\<close>
named_theorems checked_simps \<open>success of checked machine arithmetic\<close>
named_theorems hm_simps \<open>lookups in updated hash maps\<close>


section \<open>Fallible computations\<close>

type_synonym ('a, 'e) result = "'e + 'a"

definition and_then :: "('a, 'e) result \<Rightarrow> ('a \<Rightarrow> ('b, 'e) result) \<Rightarrow> ('b, 'e) result" where
  "and_then m f = (case m of Inl e \<Rightarrow> Inl e | Inr x \<Rightarrow> f x)"

definition ok_or :: "'a option \<Rightarrow> 'e \<Rightarrow> ('a, 'e) result" where
  "ok_or v e = (case v of None \<Rightarrow> Inl e | Some x \<Rightarrow> Inr x)"

definition ensure :: "bool \<Rightarrow> 'e \<Rightarrow> (unit, 'e) result" where
  "ensure b e = (if b then Inr () else Inl e)"

definition map_err :: "('e \<Rightarrow> 'f) \<Rightarrow> ('a, 'e) result \<Rightarrow> ('a, 'f) result" where
  "map_err f m = (case m of Inl e \<Rightarrow> Inl (f e) | Inr x \<Rightarrow> Inr x)"

definition is_ok :: "('a, 'e) result \<Rightarrow> bool" where
  "is_ok m = (case m of Inl _ \<Rightarrow> False | Inr _ \<Rightarrow> True)"

text \<open>The first failing check of a list of items, or success.\<close>

fun for_all :: "('a \<Rightarrow> (unit, 'e) result) \<Rightarrow> 'a list \<Rightarrow> (unit, 'e) result" where
  "for_all f [] = Inr ()"
| "for_all f (x # xs) = and_then (f x) (\<lambda>_. for_all f xs)"

lemma and_then_Inl [simp]: "and_then (Inl e) f = Inl e"
  and and_then_Inr [simp]: "and_then (Inr x) f = f x"
  by (simp_all add: and_then_def)

lemma ok_or_None [simp]: "ok_or None e = Inl e"
  and ok_or_Some [simp]: "ok_or (Some x) e = Inr x"
  by (simp_all add: ok_or_def)

lemma ensure_True [simp]: "ensure True e = Inr ()"
  and ensure_False [simp]: "ensure False e = Inl e"
  by (simp_all add: ensure_def)

lemma map_err_Inl [simp]: "map_err f (Inl e) = Inl (f e)"
  and map_err_Inr [simp]: "map_err f (Inr x) = Inr x"
  by (simp_all add: map_err_def)

lemma is_ok_Inl [simp]: "\<not> is_ok (Inl e)"
  and is_ok_Inr [simp]: "is_ok (Inr x)"
  by (simp_all add: is_ok_def)

lemma is_ok_iff: "is_ok m \<longleftrightarrow> (\<exists>x. m = Inr x)"
  by (cases m) simp_all

lemma and_then_eq_Inr [result_simps]:
  "and_then m f = Inr y \<longleftrightarrow> (\<exists>x. m = Inr x \<and> f x = Inr y)"
  by (cases m) simp_all

lemma and_then_eq_Inl [result_simps]:
  "and_then m f = Inl e \<longleftrightarrow> m = Inl e \<or> (\<exists>x. m = Inr x \<and> f x = Inl e)"
  by (cases m) simp_all

lemma ok_or_eq_Inr [result_simps]: "ok_or v e = Inr x \<longleftrightarrow> v = Some x"
  by (cases v) simp_all

lemma ok_or_eq_Inl [result_simps]: "ok_or v e = Inl e' \<longleftrightarrow> v = None \<and> e' = e"
  by (cases v) auto

lemma ensure_eq_Inr [result_simps]: "ensure b e = Inr u \<longleftrightarrow> b"
  by (cases b) simp_all

lemma ensure_eq_Inl [result_simps]: "ensure b e = Inl e' \<longleftrightarrow> \<not> b \<and> e' = e"
  by (cases b) auto

lemma map_err_eq_Inr [result_simps]: "map_err f m = Inr x \<longleftrightarrow> m = Inr x"
  by (cases m) simp_all

lemma map_err_eq_Inl [result_simps]: "map_err f m = Inl e \<longleftrightarrow> (\<exists>e'. m = Inl e' \<and> e = f e')"
  by (cases m) auto

lemma if_eq_Inr [result_simps]:
  "(if b then Inl e else m) = Inr x \<longleftrightarrow> \<not> b \<and> m = Inr x"
  by simp

lemma for_all_eq_Inr [result_simps]: "for_all f xs = Inr u \<longleftrightarrow> (\<forall>x\<in>set xs. f x = Inr ())"
  by (induction xs) (auto simp: and_then_eq_Inr)


section \<open>Machine integers\<close>

type_synonym u8 = "8 word"

definition u8_max :: nat where "u8_max = 2 ^ 8 - 1"
definition u32_max :: nat where "u32_max = 2 ^ 32 - 1"
definition u64_max :: nat where "u64_max = 2 ^ 64 - 1"
definition u128_max :: nat where "u128_max = 2 ^ 128 - 1"

definition checked_add :: "nat \<Rightarrow> nat \<Rightarrow> nat \<Rightarrow> nat option" where
  "checked_add m a b = (if a + b \<le> m then Some (a + b) else None)"

definition checked_mul :: "nat \<Rightarrow> nat \<Rightarrow> nat \<Rightarrow> nat option" where
  "checked_mul m a b = (if a * b \<le> m then Some (a * b) else None)"

definition checked_sub :: "nat \<Rightarrow> nat \<Rightarrow> nat option" where
  "checked_sub a b = (if b \<le> a then Some (a - b) else None)"

definition saturating_add :: "nat \<Rightarrow> nat \<Rightarrow> nat \<Rightarrow> nat" where
  "saturating_add m a b = min (a + b) m"

definition saturating_mul :: "nat \<Rightarrow> nat \<Rightarrow> nat \<Rightarrow> nat" where
  "saturating_mul m a b = min (a * b) m"

definition saturating_sub :: "nat \<Rightarrow> nat \<Rightarrow> nat" where
  "saturating_sub a b = (if b \<le> a then a - b else 0)"

text \<open>Unchecked \<open>+\<close> and \<open>*\<close> of a release build wrap around.\<close>

definition wrapping_add :: "nat \<Rightarrow> nat \<Rightarrow> nat \<Rightarrow> nat" where
  "wrapping_add m a b = (a + b) mod (m + 1)"

definition wrapping_mul :: "nat \<Rightarrow> nat \<Rightarrow> nat \<Rightarrow> nat" where
  "wrapping_mul m a b = (a * b) mod (m + 1)"

text \<open>\<open>T::try_from\<close> on a wider unsigned integer, and \<open>as\<close>, which truncates.\<close>

definition try_from :: "nat \<Rightarrow> nat \<Rightarrow> nat option" where
  "try_from m a = (if a \<le> m then Some a else None)"

definition as_width :: "nat \<Rightarrow> nat \<Rightarrow> nat" where
  "as_width m a = a mod (m + 1)"

definition div_ceil :: "nat \<Rightarrow> nat \<Rightarrow> nat" where
  "div_ceil a b = a div b + (if a mod b = 0 then 0 else 1)"

lemma checked_add_Some [checked_simps]:
  "checked_add m a b = Some c \<longleftrightarrow> c = a + b \<and> a + b \<le> m"
  by (auto simp: checked_add_def)

lemma checked_add_None [checked_simps]: "checked_add m a b = None \<longleftrightarrow> m < a + b"
  by (auto simp: checked_add_def)

lemma checked_mul_Some [checked_simps]:
  "checked_mul m a b = Some c \<longleftrightarrow> c = a * b \<and> a * b \<le> m"
  by (auto simp: checked_mul_def)

lemma checked_mul_None [checked_simps]: "checked_mul m a b = None \<longleftrightarrow> m < a * b"
  by (auto simp: checked_mul_def)

lemma checked_sub_Some [checked_simps]:
  "checked_sub a b = Some c \<longleftrightarrow> b \<le> a \<and> c = a - b"
  by (auto simp: checked_sub_def)

lemma checked_sub_None [checked_simps]: "checked_sub a b = None \<longleftrightarrow> a < b"
  by (auto simp: checked_sub_def)

lemma try_from_Some [checked_simps]: "try_from m a = Some b \<longleftrightarrow> b = a \<and> a \<le> m"
  by (auto simp: try_from_def)

lemma try_from_None [checked_simps]: "try_from m a = None \<longleftrightarrow> m < a"
  by (auto simp: try_from_def)

lemma saturating_sub_eq [simp]: "saturating_sub a b = a - b"
  by (simp add: saturating_sub_def)

lemma saturating_add_exact: "a + b \<le> m \<Longrightarrow> saturating_add m a b = a + b"
  by (simp add: saturating_add_def)

lemma saturating_add_le: "saturating_add m a b \<le> m"
  by (simp add: saturating_add_def)

lemma as_width_id: "a \<le> m \<Longrightarrow> as_width m a = a"
  by (simp add: as_width_def)

lemma as_width_le: "as_width m a \<le> m"
  unfolding as_width_def by (metis Suc_eq_plus1 less_Suc_eq_le mod_less_divisor zero_less_Suc)

lemma wrapping_add_exact: "a + b \<le> m \<Longrightarrow> wrapping_add m a b = a + b"
  by (simp add: wrapping_add_def)

lemma wrapping_mul_exact: "a * b \<le> m \<Longrightarrow> wrapping_mul m a b = a * b"
  by (simp add: wrapping_mul_def)

lemma div_ceil_le_iff: "0 < b \<Longrightarrow> div_ceil a b \<le> n \<longleftrightarrow> a \<le> n * b"
proof -
  assume b: "0 < b"
  have split: "a = a div b * b + a mod b" by simp
  show ?thesis
  proof (cases "a mod b = 0")
    case True
    then have a: "a = a div b * b" using split by simp
    have "a div b \<le> n \<longleftrightarrow> a div b * b \<le> n * b" using b by simp
    then show ?thesis using True a by (simp add: div_ceil_def)
  next
    case False
    have "a div b < n \<longleftrightarrow> a \<le> n * b"
    proof
      assume "a div b < n"
      then have "Suc (a div b) * b \<le> n * b" by (intro mult_le_mono1) simp
      moreover have "a \<le> Suc (a div b) * b"
        unfolding mult_Suc using split mod_less_divisor [OF b, of a] by linarith
      ultimately show "a \<le> n * b" by linarith
    next
      assume le: "a \<le> n * b"
      have "a \<noteq> n * b" using False by auto
      then have "a < n * b" using le by simp
      then show "a div b < n" using b by (simp add: div_less_iff_less_mult)
    qed
    then show ?thesis using False by (simp add: div_ceil_def Suc_le_eq)
  qed
qed

lemma div_ceil_mono: "0 < b \<Longrightarrow> a \<le> a' \<Longrightarrow> div_ceil a b \<le> div_ceil a' b"
  by (metis div_ceil_le_iff order_refl order_trans)

lemma div_ceil_self_mult [simp]: "0 < b \<Longrightarrow> div_ceil (k * b) b = k"
  by (simp add: div_ceil_def)


section \<open>Hash maps\<close>

type_synonym ('k, 'v) hmap = "('k \<times> 'v) list"

definition hm_get :: "('k, 'v) hmap \<Rightarrow> 'k \<Rightarrow> 'v option" where
  "hm_get m k = map_of m k"

definition hm_insert :: "'k \<Rightarrow> 'v \<Rightarrow> ('k, 'v) hmap \<Rightarrow> ('k, 'v) hmap" where
  "hm_insert k v m = AList.update k v m"

definition hm_remove :: "'k \<Rightarrow> ('k, 'v) hmap \<Rightarrow> ('k, 'v) hmap" where
  "hm_remove k m = AList.delete k m"

definition hm_keys :: "('k, 'v) hmap \<Rightarrow> 'k list" where
  "hm_keys m = map fst m"

definition hm_contains :: "('k, 'v) hmap \<Rightarrow> 'k \<Rightarrow> bool" where
  "hm_contains m k = (hm_get m k \<noteq> None)"

text \<open>\<open>entry(k).or_insert(v)\<close>: keep what is there.\<close>

definition hm_or_insert :: "'k \<Rightarrow> 'v \<Rightarrow> ('k, 'v) hmap \<Rightarrow> ('k, 'v) hmap" where
  "hm_or_insert k v m = (if hm_contains m k then m else hm_insert k v m)"

definition hm_wf :: "('k, 'v) hmap \<Rightarrow> bool" where
  "hm_wf m = distinct (hm_keys m)"

locale hash_map =
  fixes empty :: "'m"
    and get :: "'m \<Rightarrow> 'k \<Rightarrow> 'v option"
    and insert_at :: "'k \<Rightarrow> 'v \<Rightarrow> 'm \<Rightarrow> 'm"
    and remove_at :: "'k \<Rightarrow> 'm \<Rightarrow> 'm"
    and keys :: "'m \<Rightarrow> 'k list"
    and wf :: "'m \<Rightarrow> bool"
  assumes get_empty: "get empty k = None"
    and get_insert: "get (insert_at k v m) k' = (if k' = k then Some v else get m k')"
    and get_remove: "wf m \<Longrightarrow> get (remove_at k m) k' = (if k' = k then None else get m k')"
    and keys_get: "k \<in> set (keys m) \<longleftrightarrow> get m k \<noteq> None"
    and wf_empty: "wf empty"
    and wf_insert: "wf m \<Longrightarrow> wf (insert_at k v m)"
    and wf_remove: "wf m \<Longrightarrow> wf (remove_at k m)"
begin

lemma remove_absent: "wf m \<Longrightarrow> get m k = None \<Longrightarrow> get (remove_at k m) = get m"
  by (auto simp: get_remove)

lemma remove_insert: "wf m \<Longrightarrow> get (remove_at k (insert_at k v m)) = get (remove_at k m)"
  by (auto simp: get_remove get_insert wf_insert)

lemma insert_twice: "get (insert_at k v (insert_at k u m)) = get (insert_at k v m)"
  by (auto simp: get_insert)

lemma insert_commutes:
  "k \<noteq> l \<Longrightarrow> get (insert_at k v (insert_at l u m)) = get (insert_at l u (insert_at k v m))"
  by (auto simp: get_insert)

lemma keys_insert: "set (keys (insert_at k v m)) = insert k (set (keys m))"
  by (auto simp: keys_get get_insert split: if_splits)

lemma keys_remove: "wf m \<Longrightarrow> set (keys (remove_at k m)) = set (keys m) - {k}"
  by (auto simp: keys_get get_remove split: if_splits)

end

lemma map_of_update: "map_of (AList.update k v m) k' = (if k' = k then Some v else map_of m k')"
  by (simp add: update_conv')

lemma map_of_delete: "map_of (AList.delete k m) k' = (if k' = k then None else map_of m k')"
  by (simp add: delete_conv')

interpretation hm: hash_map "[] :: ('k, 'v) hmap" hm_get hm_insert hm_remove hm_keys hm_wf
proof unfold_locales
  fix m :: "('k, 'v) hmap" and k k' :: 'k and v :: 'v
  show "hm_get [] k = (None :: 'v option)" by (simp add: hm_get_def)
  show "hm_get (hm_insert k v m) k' = (if k' = k then Some v else hm_get m k')"
    by (simp add: hm_get_def hm_insert_def map_of_update)
  show "hm_get (hm_remove k m) k' = (if k' = k then None else hm_get m k')"
    by (simp add: hm_get_def hm_remove_def map_of_delete)
  show "k \<in> set (hm_keys m) \<longleftrightarrow> hm_get m k \<noteq> None"
    by (simp add: hm_keys_def hm_get_def map_of_eq_None_iff)
  show "hm_wf ([] :: ('k, 'v) hmap)" by (simp add: hm_wf_def hm_keys_def)
  show "hm_wf m \<Longrightarrow> hm_wf (hm_insert k v m)"
    unfolding hm_wf_def hm_keys_def hm_insert_def by (rule distinct_update)
  show "hm_wf m \<Longrightarrow> hm_wf (hm_remove k m)"
    unfolding hm_wf_def hm_keys_def hm_remove_def by (rule distinct_delete)
qed

text \<open>On association lists removal needs no distinctness, so it can be a plain rewrite rule.\<close>

lemma hm_get_remove: "hm_get (hm_remove k m) k' = (if k' = k then None else hm_get m k')"
  by (simp add: hm_get_def hm_remove_def map_of_delete)

lemma hm_get_or_insert:
  "hm_get (hm_or_insert k v m) k' =
     (if k' = k then Some (case hm_get m k of None \<Rightarrow> v | Some u \<Rightarrow> u) else hm_get m k')"
  by (auto simp: hm_or_insert_def hm_contains_def hm.get_insert split: option.splits)

lemma hm_contains_iff: "hm_contains m k \<longleftrightarrow> (\<exists>v. hm_get m k = Some v)"
  by (simp add: hm_contains_def)

lemma hm_keys_contains: "k \<in> set (hm_keys m) \<longleftrightarrow> hm_contains m k"
  by (simp add: hm.keys_get hm_contains_def)

lemma hm_wf_or_insert: "hm_wf m \<Longrightarrow> hm_wf (hm_or_insert k v m)"
  by (simp add: hm_or_insert_def hm.wf_insert)

lemma hm_get_in_set: "hm_get m k = Some v \<Longrightarrow> (k, v) \<in> set m"
  by (simp add: hm_get_def map_of_SomeD)

lemma hm_in_set_get: "hm_wf m \<Longrightarrow> (k, v) \<in> set m \<Longrightarrow> hm_get m k = Some v"
  by (simp add: hm_get_def hm_wf_def hm_keys_def)

lemmas hm_get_simps [hm_simps] =
  hm.get_empty hm.get_insert hm_get_remove hm_get_or_insert

lemmas hm_wf_intros =
  hm.wf_empty hm.wf_insert hm.wf_remove hm_wf_or_insert


section \<open>Loops that stop at the first error\<close>

text \<open>\<open>for x in xs { state.step(x)?; }\<close>\<close>

fun try_fold :: "('s \<Rightarrow> 'x \<Rightarrow> ('s, 'e) result) \<Rightarrow> 's \<Rightarrow> 'x list \<Rightarrow> ('s, 'e) result" where
  "try_fold step s [] = Inr s"
| "try_fold step s (x # xs) = and_then (step s x) (\<lambda>s'. try_fold step s' xs)"

lemma try_fold_append:
  "try_fold step s (xs @ ys) = and_then (try_fold step s xs) (\<lambda>s'. try_fold step s' ys)"
proof (induction xs arbitrary: s)
  case (Cons x xs)
  then show ?case by (cases "step s x") simp_all
qed simp

text \<open>
  What every successful step keeps, every successful loop keeps.  The relation may depend on the
  items consumed so far, so that totals over them can be tracked.
\<close>

locale fold_invariant =
  fixes step :: "'s \<Rightarrow> 'x \<Rightarrow> ('s, 'e) result"
    and inv :: "'x list \<Rightarrow> 's \<Rightarrow> bool"
  assumes step_inv: "inv done s \<Longrightarrow> step s x = Inr s' \<Longrightarrow> inv (done @ [x]) s'"
begin

lemma fold_inv: "inv done s \<Longrightarrow> try_fold step s xs = Inr s' \<Longrightarrow> inv (done @ xs) s'"
proof (induction xs arbitrary: "done" s)
  case (Cons x xs)
  then obtain s1 where "step s x = Inr s1" "try_fold step s1 xs = Inr s'"
    by (auto simp: result_simps)
  then show ?case using Cons.IH [of "done @ [x]" s1] step_inv Cons.prems(1) by simp
qed simp

lemma fold_inv_Nil: "inv [] s \<Longrightarrow> try_fold step s xs = Inr s' \<Longrightarrow> inv xs s'"
  using fold_inv [of "[]"] by simp

end


section \<open>Calls that change state and may fail\<close>

text \<open>
  A method on shared state that returns a \<open>Result\<close>: what it did to the state before it failed
  stays done.  \<open>run_then\<close> is the question mark operator; \<open>wp\<close> is the weakest precondition of a
  call for a condition on its result and the state it leaves.
\<close>

type_synonym ('a, 'e, 'w) run = "'w \<Rightarrow> ('a, 'e) result \<times> 'w"

definition run_then :: "('a, 'e, 'w) run \<Rightarrow> ('a \<Rightarrow> ('b, 'e, 'w) run) \<Rightarrow> ('b, 'e, 'w) run" where
  "run_then m f w = (case m w of (Inl e, w') \<Rightarrow> (Inl e, w') | (Inr x, w') \<Rightarrow> f x w')"

definition run_pure :: "('a, 'e) result \<Rightarrow> ('a, 'e, 'w) run" where
  "run_pure r w = (r, w)"

text \<open>Read the state, then go on.\<close>

definition run_get :: "('w \<Rightarrow> ('a, 'e, 'w) run) \<Rightarrow> ('a, 'e, 'w) run" where
  "run_get f w = f w w"

definition run_modify :: "('w \<Rightarrow> 'w) \<Rightarrow> (unit, 'e, 'w) run" where
  "run_modify f w = (Inr (), f w)"

definition wp :: "('a, 'e, 'w) run \<Rightarrow> (('a, 'e) result \<Rightarrow> 'w \<Rightarrow> bool) \<Rightarrow> 'w \<Rightarrow> bool" where
  "wp m q w = (case m w of (r, w') \<Rightarrow> q r w')"

named_theorems wp_simps \<open>weakest preconditions of calls\<close>

lemma wp_then [wp_simps]:
  "wp (run_then m f) q w = wp m (\<lambda>r w'. case r of Inl e \<Rightarrow> q (Inl e) w' | Inr x \<Rightarrow> wp (f x) q w') w"
  by (auto simp: wp_def run_then_def split: prod.splits sum.splits)

lemma wp_pure [wp_simps]: "wp (run_pure r) q w = q r w"
  by (simp add: wp_def run_pure_def)

lemma wp_modify [wp_simps]: "wp (run_modify f) q w = q (Inr ()) (f w)"
  by (simp add: wp_def run_modify_def)

lemma wp_if [wp_simps]: "wp (if b then m else m') q w = (if b then wp m q w else wp m' q w)"
  by simp

lemma wp_get [wp_simps]: "wp (run_get f) q w = wp (f w) q w"
  by (simp add: wp_def run_get_def)

lemma wp_mono: "wp m q w \<Longrightarrow> (\<And>r w'. q r w' \<Longrightarrow> q' r w') \<Longrightarrow> wp m q' w"
  by (auto simp: wp_def split: prod.splits)

lemma wp_thenI:
  assumes "wp m p w" and "\<And>e w'. p (Inl e) w' \<Longrightarrow> q (Inl e) w'" and "\<And>x w'. p (Inr x) w' \<Longrightarrow> wp (f x) q w'"
  shows "wp (run_then m f) q w"
  unfolding wp_then using assms(1) by (rule wp_mono) (auto intro: assms(2,3) split: sum.split)

lemma wp_modify_then: "wp (run_then (run_modify f) m) q w = wp (m ()) q (f w)"
  by (simp add: wp_simps)

lemma wp_pure_then: "wp (run_then (run_pure r) m) q w = (case r of Inl e \<Rightarrow> q (Inl e) w | Inr x \<Rightarrow> wp (m x) q w)"
  by (simp add: wp_simps)

lemma wpD: "wp m q w \<Longrightarrow> m w = (r, w') \<Longrightarrow> q r w'"
  by (simp add: wp_def)

end
