(* ===== verification/Params.thy ===== *)
theory Params
  imports Prelude
begin

text \<open>
  Protocol constants and pure parameter functions of \<open>crates/core/src/params.rs\<close>: the fixed
  market constants, the protocol constants record, the claim allowance, prices and deadlines,
  and the one renderer and the one parser of SHELL amounts.  Durations are whole seconds, the
  only resolution the source reads.
\<close>

section \<open>Constants\<close>

definition MIN_NOTE_TRANSFER_SHELL_RAW :: nat where "MIN_NOTE_TRANSFER_SHELL_RAW = 10000000"
definition ROOT_PN_GAS_DEPOSIT_RAW :: nat where "ROOT_PN_GAS_DEPOSIT_RAW = 250000000000"
definition PRICE_STEP :: nat where "PRICE_STEP = 1000000000"
definition MAX_NOTE_NOMINAL_SHELL :: nat where "MAX_NOTE_NOMINAL_SHELL = 1000000"
definition SHELL_UNIT :: nat where "SHELL_UNIT = 1000000000"
definition MIN_STREAM_BUY_TICKS :: nat where "MIN_STREAM_BUY_TICKS = 2"
definition TICK_SIZE :: nat where "TICK_SIZE = 1000000"
definition PROBE_SEED_TOKENS :: nat where "PROBE_SEED_TOKENS = TICK_SIZE"
definition PLATFORM_FEE_BPS :: nat where "PLATFORM_FEE_BPS = 250"
definition MAX_CLAIM_DELTA :: nat where "MAX_CLAIM_DELTA = TICK_SIZE"
definition SUB_WEEK_LEN :: nat where "SUB_WEEK_LEN = 604800"
definition SUBSCRIPTION_WEEKS :: nat where "SUBSCRIPTION_WEEKS = 4"
definition SUB_TICKS_PER_WEEK :: nat where "SUB_TICKS_PER_WEEK = 10080"
definition SUBSCRIPTION_MAX_TICKS :: nat where
  "SUBSCRIPTION_MAX_TICKS = SUB_TICKS_PER_WEEK * SUBSCRIPTION_WEEKS"
definition SUBSCRIPTION_BUYER_BOND_TICKS :: nat where "SUBSCRIPTION_BUYER_BOND_TICKS = 2"
definition MATCH_OPEN_TIMEOUT_SECS :: nat where "MATCH_OPEN_TIMEOUT_SECS = 600"
definition PROBE_WINDOW :: nat where "PROBE_WINDOW = 180"
definition DEFAULT_BUY_TTL :: nat where "DEFAULT_BUY_TTL = 3600"
definition MAX_SELL_TTL :: nat where "MAX_SELL_TTL = 3600"

lemmas param_defs =
  MIN_NOTE_TRANSFER_SHELL_RAW_def ROOT_PN_GAS_DEPOSIT_RAW_def PRICE_STEP_def
  MAX_NOTE_NOMINAL_SHELL_def SHELL_UNIT_def MIN_STREAM_BUY_TICKS_def TICK_SIZE_def
  PROBE_SEED_TOKENS_def PLATFORM_FEE_BPS_def MAX_CLAIM_DELTA_def SUB_WEEK_LEN_def
  SUBSCRIPTION_WEEKS_def SUB_TICKS_PER_WEEK_def SUBSCRIPTION_MAX_TICKS_def
  SUBSCRIPTION_BUYER_BOND_TICKS_def MATCH_OPEN_TIMEOUT_SECS_def PROBE_WINDOW_def
  DEFAULT_BUY_TTL_def MAX_SELL_TTL_def

lemma TICK_SIZE_pos [simp]: "0 < TICK_SIZE"
  by (simp add: TICK_SIZE_def)

record protocol_consts =
  platform_fee_bps :: nat
  min_claim_interval :: nat
  min_seconds_per_tick :: nat
  claim_promote_window :: nat
  probe_window :: nat
  dispute_window :: nat
  rebate_max_bps :: nat
  rebate_slope_bps :: nat

definition canonical_consts :: protocol_consts where
  "canonical_consts =
     \<lparr>platform_fee_bps = PLATFORM_FEE_BPS, min_claim_interval = 60, min_seconds_per_tick = 60,
      claim_promote_window = 60, probe_window = PROBE_WINDOW, dispute_window = 600,
      rebate_max_bps = 200, rebate_slope_bps = 4\<rparr>"

text \<open>The widths of the record's fields: \<open>u32\<close> rates, \<open>u64\<close> seconds.\<close>

definition consts_typed :: "protocol_consts \<Rightarrow> bool" where
  "consts_typed c \<longleftrightarrow>
     platform_fee_bps c \<le> u32_max \<and> rebate_max_bps c \<le> u32_max \<and> rebate_slope_bps c \<le> u32_max \<and>
     min_claim_interval c \<le> u64_max \<and> min_seconds_per_tick c \<le> u64_max \<and>
     claim_promote_window c \<le> u64_max \<and> probe_window c \<le> u64_max \<and> dispute_window c \<le> u64_max"

lemma canonical_consts_typed: "consts_typed canonical_consts"
  by (simp add: consts_typed_def canonical_consts_def param_defs u32_max_def u64_max_def)


section \<open>Claim allowance\<close>

definition claim_delta_limit :: "nat \<Rightarrow> nat \<Rightarrow> nat" where
  "claim_delta_limit elapsed min_seconds =
     (let rate_limit = (if min_seconds = 0 then MAX_CLAIM_DELTA
                        else wrapping_mul u128_max elapsed TICK_SIZE div min_seconds)
      in if rate_limit < MAX_CLAIM_DELTA then rate_limit else MAX_CLAIM_DELTA)"

definition max_claim_delta :: "protocol_consts \<Rightarrow> nat \<Rightarrow> nat" where
  "max_claim_delta c elapsed = claim_delta_limit elapsed (min_seconds_per_tick c)"

lemma elapsed_ticks_fit: "elapsed \<le> u64_max \<Longrightarrow> elapsed * TICK_SIZE \<le> u128_max"
proof -
  assume "elapsed \<le> u64_max"
  then have "elapsed * TICK_SIZE \<le> u64_max * TICK_SIZE" by (rule mult_le_mono1)
  also have "\<dots> \<le> u128_max" by (simp add: u64_max_def u128_max_def TICK_SIZE_def)
  finally show ?thesis .
qed

text \<open>
  Within the width of the clock the allowance is exactly the set of increments that satisfy
  both inequalities of the claim operation: the per-call cap and the physical rate.
\<close>

lemma claim_delta_limit_iff:
  assumes "elapsed \<le> u64_max" and "0 < min_seconds"
  shows "delta \<le> claim_delta_limit elapsed min_seconds \<longleftrightarrow>
         delta \<le> MAX_CLAIM_DELTA \<and> delta * min_seconds \<le> elapsed * TICK_SIZE"
proof -
  have "wrapping_mul u128_max elapsed TICK_SIZE = elapsed * TICK_SIZE"
    using elapsed_ticks_fit [OF assms(1)] by (rule wrapping_mul_exact)
  moreover have "delta \<le> elapsed * TICK_SIZE div min_seconds \<longleftrightarrow>
      delta * min_seconds \<le> elapsed * TICK_SIZE"
    using assms(2) by (simp add: less_eq_div_iff_mult_less_eq)
  ultimately show ?thesis
    using assms(2) unfolding claim_delta_limit_def Let_def by auto
qed


section \<open>Prices, deadlines and funding\<close>

definition note_deploy_wallet_funding_raw :: "nat \<Rightarrow> nat" where
  "note_deploy_wallet_funding_raw nominal_raw = nominal_raw + ROOT_PN_GAS_DEPOSIT_RAW"

definition price_ceiling_shell :: "nat \<Rightarrow> nat" where
  "price_ceiling_shell raw = div_ceil raw PRICE_STEP"

definition price_raw_from_shell :: "nat \<Rightarrow> nat option" where
  "price_raw_from_shell shell = checked_mul u128_max shell PRICE_STEP"

datatype price_error = NotWholeShell | AboveLargestNote | BeyondRange

definition serialize_price_shell :: "nat \<Rightarrow> (nat, price_error) result" where
  "serialize_price_shell raw =
     (if raw mod PRICE_STEP \<noteq> 0 then Inl NotWholeShell else Inr (raw div PRICE_STEP))"

definition deserialize_price_shell :: "nat \<Rightarrow> (nat, price_error) result" where
  "deserialize_price_shell shell =
     (if shell > MAX_NOTE_NOMINAL_SHELL then Inl AboveLargestNote
      else ok_or (price_raw_from_shell shell) BeyondRange)"

definition probe_seed_owed :: "bool \<Rightarrow> nat \<Rightarrow> nat" where
  "probe_seed_owed probe_accepted price_per_tick = (if probe_accepted then price_per_tick else 0)"

definition default_buy_deadline :: "nat \<Rightarrow> nat option" where
  "default_buy_deadline now = checked_add u64_max now DEFAULT_BUY_TTL"

definition cli_buy_deadline_is_valid :: "nat \<Rightarrow> nat \<Rightarrow> bool" where
  "cli_buy_deadline_is_valid deadline now \<longleftrightarrow> deadline \<noteq> 0 \<and> deadline > now"

lemma default_buy_deadline_valid:
  "default_buy_deadline now = Some d \<Longrightarrow> cli_buy_deadline_is_valid d now"
  by (auto simp: default_buy_deadline_def cli_buy_deadline_is_valid_def checked_simps
      DEFAULT_BUY_TTL_def)

text \<open>
  Whole-SHELL prices in a configuration file round trip.  A price read from the file is
  written back as the number that was read, a price that can be written as a number within the
  largest note reads back unchanged, and a number above the largest note is refused.
\<close>

theorem price_shell_round_trip:
  "(deserialize_price_shell shell = Inr raw \<longleftrightarrow>
      serialize_price_shell raw = Inr shell \<and> shell \<le> MAX_NOTE_NOMINAL_SHELL)
   \<and> (is_ok (deserialize_price_shell shell) \<longleftrightarrow> shell \<le> MAX_NOTE_NOMINAL_SHELL)"
proof -
  have fits: "price_raw_from_shell shell = Some (shell * PRICE_STEP)" if "shell \<le> MAX_NOTE_NOMINAL_SHELL"
    using that by (simp add: price_raw_from_shell_def checked_simps param_defs u128_max_def)
  have "serialize_price_shell raw = Inr shell \<longleftrightarrow> raw = shell * PRICE_STEP"
    by (auto simp: serialize_price_shell_def PRICE_STEP_def)
  then show ?thesis
    using fits by (auto simp: deserialize_price_shell_def is_ok_iff)
qed

text \<open>
  The whole-SHELL ceiling shown for an ask is the least limit that reaches it: a limit
  price typed in whole SHELL covers the ask exactly when it is at least the ceiling.
\<close>

theorem price_ceiling_least:
  "price_raw_from_shell s = Some limit \<Longrightarrow> raw \<le> limit \<longleftrightarrow> price_ceiling_shell raw \<le> s"
  by (auto simp: price_raw_from_shell_def price_ceiling_shell_def checked_simps div_ceil_le_iff
      PRICE_STEP_def)

theorem price_ceiling_least_witness:
  "price_ceiling_shell 2500000001 \<le> 3 \<and> \<not> price_ceiling_shell 2500000001 \<le> 2"
  using price_ceiling_least [of 3 3000000000 2500000001] price_ceiling_least [of 2 2000000000 2500000001]
  by (simp add: price_raw_from_shell_def checked_mul_def PRICE_STEP_def u128_max_def)

end
