(* ===== verification/Settle.thy ===== *)
theory Settle
  imports Params
begin

text \<open>
  Settlement formulas of \<open>crates/core/src/settle.rs\<close>: platform fee, seller rebate, net burn and
  the two burn shapes (a lost dispute, an abandoned probe).  The products are \<open>u128\<close> and the
  final cast to \<open>u64\<close> truncates, as in the source.
\<close>

definition mul_bps :: "nat \<Rightarrow> nat \<Rightarrow> nat \<Rightarrow> nat" where
  "mul_bps bps n v =
     as_width u64_max (wrapping_mul u128_max (wrapping_mul u128_max bps n) v div 10000)"

definition settle_fee :: "nat \<Rightarrow> nat \<Rightarrow> protocol_consts \<Rightarrow> nat" where
  "settle_fee delivered_ticks p c = mul_bps (platform_fee_bps c) delivered_ticks p"

definition rebate_rate_bps :: "nat \<Rightarrow> protocol_consts \<Rightarrow> nat" where
  "rebate_rate_bps n_clean_ticks c =
     (let slope = saturating_mul u64_max (rebate_slope_bps c) n_clean_ticks
      in as_width u32_max (min slope (rebate_max_bps c)))"

definition settle_rebate :: "nat \<Rightarrow> nat \<Rightarrow> protocol_consts \<Rightarrow> nat" where
  "settle_rebate n_clean_ticks p c = mul_bps (rebate_rate_bps n_clean_ticks c) n_clean_ticks p"

definition net_burn :: "nat \<Rightarrow> nat \<Rightarrow> protocol_consts \<Rightarrow> nat" where
  "net_burn n_clean_ticks p c =
     (let rate = saturating_sub (platform_fee_bps c) (rebate_rate_bps n_clean_ticks c)
      in mul_bps rate n_clean_ticks p)"

record contested_burn_t =
  cb_buyer :: nat
  cb_buyer_refund :: nat
  cb_seller :: nat
  cb_seller_refund :: nat

definition burn_total :: "contested_burn_t \<Rightarrow> nat" where
  "burn_total b = cb_buyer b + cb_seller b"

definition contested_burn :: "nat \<Rightarrow> nat \<Rightarrow> contested_burn_t" where
  "contested_burn deposit seller_bond =
     \<lparr>cb_buyer = min seller_bond deposit, cb_buyer_refund = 0,
      cb_seller = seller_bond, cb_seller_refund = 0\<rparr>"

definition probe_burn :: "nat \<Rightarrow> nat \<Rightarrow> contested_burn_t" where
  "probe_burn probe_tick seller_bond =
     (let seller = min probe_tick seller_bond
      in \<lparr>cb_buyer = probe_tick, cb_buyer_refund = 0,
          cb_seller = seller, cb_seller_refund = seller_bond - seller\<rparr>)"

section \<open>Properties\<close>

text \<open>A volume for which no product or cast of \<open>mul_bps\<close> loses a digit.\<close>

definition bps_volume_fits :: "nat \<Rightarrow> nat \<Rightarrow> nat \<Rightarrow> bool" where
  "bps_volume_fits bps n v \<longleftrightarrow> bps * n * v \<le> u128_max \<and> bps * n * v div 10000 \<le> u64_max \<and> (v = 0 \<longrightarrow> bps * n \<le> u128_max)"

lemma mul_bps_exact:
  assumes "bps_volume_fits bps n v"
  shows "mul_bps bps n v = bps * n * v div 10000"
proof (cases "v = 0")
  case True
  then show ?thesis by (simp add: mul_bps_def wrapping_mul_def as_width_def)
next
  case False
  then have "bps * n \<le> bps * n * v" by simp
  then have "bps * n \<le> u128_max"
    using assms unfolding bps_volume_fits_def by linarith
  then show ?thesis
    using assms by (simp add: mul_bps_def bps_volume_fits_def wrapping_mul_exact as_width_id)
qed

lemma bps_volume_fits_mono:
  "bps_volume_fits b n v \<Longrightarrow> a \<le> b \<Longrightarrow> bps_volume_fits a n v"
proof -
  assume fits: "bps_volume_fits b n v" and "a \<le> b"
  then have "a * n * v \<le> b * n * v" and "a * n \<le> b * n" by (simp_all add: mult_le_mono1)
  then show ?thesis
    using fits div_le_mono unfolding bps_volume_fits_def
    by (metis (no_types, lifting) order_trans)
qed

lemma rebate_rate_le_max: "consts_typed c \<Longrightarrow> rebate_rate_bps n c \<le> rebate_max_bps c"
  by (auto simp: rebate_rate_bps_def Let_def as_width_id consts_typed_def min_def)

lemma rebate_rate_eq:
  assumes "consts_typed c"
  shows "rebate_rate_bps n c = min (rebate_slope_bps c * n) (rebate_max_bps c)"
proof -
  have "rebate_max_bps c \<le> u64_max" and "rebate_max_bps c \<le> u32_max"
    using assms by (auto simp: consts_typed_def u32_max_def u64_max_def)
  then show ?thesis
    by (auto simp: rebate_rate_bps_def Let_def saturating_mul_def as_width_id min_def)
qed

text \<open>
  Rounding down twice can only lose.  With a rebate cap within the platform fee and a
  volume whose products fit, the rebate and the net burn together never exceed the fee charged on
  the same ticks, and miss it by at most one unit.
\<close>

theorem rebate_burn_within_fee:
  assumes typed: "consts_typed c" and max: "rebate_max_bps c \<le> platform_fee_bps c"
    and fits: "bps_volume_fits (platform_fee_bps c) n p"
  shows "settle_rebate n p c + net_burn n p c \<le> settle_fee n p c
     \<and> settle_fee n p c \<le> settle_rebate n p c + net_burn n p c + 1"
proof -
  define r where "r = rebate_rate_bps n c"
  define b where "b = platform_fee_bps c - r"
  have r: "r \<le> platform_fee_bps c"
    using rebate_rate_le_max [OF typed] max r_def by (meson order_trans)
  then have sum: "platform_fee_bps c = r + b" by (simp add: b_def)
  have "bps_volume_fits r n p" and "bps_volume_fits b n p"
    using fits sum by (auto intro: bps_volume_fits_mono)
  then have eqs: "settle_rebate n p c = r * n * p div 10000"
    "net_burn n p c = b * n * p div 10000"
    "settle_fee n p c = (r * n * p + b * n * p) div 10000"
    using fits
    by (simp_all add: settle_rebate_def net_burn_def settle_fee_def Let_def mul_bps_exact
        sum add_mult_distrib flip: r_def b_def)
  show ?thesis unfolding eqs by linarith
qed

theorem rebate_burn_within_fee_witness:
  "settle_rebate 30 8 canonical_consts + net_burn 30 8 canonical_consts + 1 = settle_fee 30 8 canonical_consts
   \<and> settle_rebate 30 8 canonical_consts + net_burn 30 8 canonical_consts \<le> settle_fee 30 8 canonical_consts"
  using rebate_burn_within_fee [OF canonical_consts_typed, of 30 8]
  by (simp add: canonical_consts_def PLATFORM_FEE_BPS_def bps_volume_fits_def settle_rebate_def
      net_burn_def settle_fee_def rebate_rate_bps_def mul_bps_def wrapping_mul_def as_width_def
      saturating_mul_def u32_max_def u64_max_def u128_max_def)

lemma probe_burn_returns_bond:
  "cb_seller (probe_burn probe bond) + cb_seller_refund (probe_burn probe bond) = bond"
  by (simp add: probe_burn_def Let_def)

lemma contested_burn_bounds:
  "cb_buyer (contested_burn deposit bond) \<le> deposit"
  "cb_buyer (contested_burn deposit bond) \<le> cb_seller (contested_burn deposit bond)"
  by (simp_all add: contested_burn_def)

end
