(* ===== verification/Machine.thy ===== *)
theory Machine
  imports Settle
begin

text \<open>
  The stream state machine of \<open>crates/core/src/machine.rs\<close>.  A transition that the source
  refuses with \<open>Result\<close> is an error value; one that it refuses by panicking
  (\<open>refuse_when_not_live\<close>) is \<open>None\<close>.  The two settlement variants that carry chain receipts
  are opaque here: the machine never builds them, the backends do.
\<close>

record tick =
  tk_index :: nat
  tk_price :: nat

datatype stream_state =
    Opening
  | Probe tick
  | Streaming (trusted: nat) (pending: nat)
  | Stopping
  | Disputed (trusted: nat) (contested: nat)
  | Closed

datatype 'r settlement =
    AuthoritativeReceipt 'r
  | BuyerStopTerminal 'r
  | BurnBoth contested_burn_t
  | AmicableSplit (to_seller_ticks: nat) (to_buyer_refund: nat)
  | SellerNoShow (to_buyer_refund: nat) (seller_bond_returned: nat)

datatype invariant_error =
    RequiresProbe
  | ClaimsCannotDecrease
  | RequiresOpenStream
  | PendingBelowTrusted

record stream_machine =
  sm_state :: stream_state
  sm_price :: nat
  sm_seller_bond :: nat

definition machine_open :: "nat \<Rightarrow> stream_machine" where
  "machine_open price =
     \<lparr>sm_state = Probe \<lparr>tk_index = 0, tk_price = price\<rparr>, sm_price = price,
      sm_seller_bond = price * 2\<rparr>"

definition on_probe_accepted :: "stream_machine \<Rightarrow> (stream_machine, invariant_error) result" where
  "on_probe_accepted m =
     (case sm_state m of
        Probe _ \<Rightarrow> Inr (m\<lparr>sm_state := Streaming 1 1\<rparr>)
      | _ \<Rightarrow> Inl RequiresProbe)"

definition on_probe :: "stream_machine \<Rightarrow> bool" where
  "on_probe m = (case sm_state m of Probe _ \<Rightarrow> True | _ \<Rightarrow> False)"

definition trusted_ticks :: "stream_machine \<Rightarrow> nat" where
  "trusted_ticks m =
     (case sm_state m of Streaming t _ \<Rightarrow> t | Disputed t _ \<Rightarrow> t | _ \<Rightarrow> 0)"

definition check_invariant :: "stream_machine \<Rightarrow> (unit, invariant_error) result" where
  "check_invariant m =
     (case sm_state m of
        Streaming t p \<Rightarrow> if p < t then Inl PendingBelowTrusted else Inr ()
      | _ \<Rightarrow> Inr ())"

definition on_claim :: "stream_machine \<Rightarrow> nat \<Rightarrow> (stream_machine, invariant_error) result" where
  "on_claim m cumulative =
     (case sm_state m of
        Streaming _ p \<Rightarrow>
          if cumulative < p then Inl ClaimsCannotDecrease
          else let m' = m\<lparr>sm_state := Streaming p cumulative\<rparr>
               in and_then (check_invariant m') (\<lambda>_. Inr m')
      | _ \<Rightarrow> Inl RequiresOpenStream)"

definition on_promote :: "stream_machine \<Rightarrow> (stream_machine, invariant_error) result" where
  "on_promote m =
     (case sm_state m of
        Streaming _ p \<Rightarrow>
          let m' = m\<lparr>sm_state := Streaming p p\<rparr>
          in and_then (check_invariant m') (\<lambda>_. Inr m')
      | _ \<Rightarrow> Inl RequiresOpenStream)"

text \<open>\<open>Shell::try_from(self.seller_bond).unwrap_or(Shell::MAX)\<close>\<close>

definition bond_shell :: "stream_machine \<Rightarrow> nat" where
  "bond_shell m = (case try_from u64_max (sm_seller_bond m) of Some b \<Rightarrow> b | None \<Rightarrow> u64_max)"

definition machine_buyer_stop :: "stream_machine \<Rightarrow> (stream_machine \<times> 'r settlement) option" where
  "machine_buyer_stop m =
     (let stopped = m\<lparr>sm_state := Stopping\<rparr> in
      case sm_state m of
        Probe t \<Rightarrow> Some (stopped, BurnBoth (probe_burn (tk_price t) (bond_shell m)))
      | Streaming _ _ \<Rightarrow> Some (stopped, AmicableSplit (trusted_ticks m) 0)
      | Disputed _ _ \<Rightarrow> Some (stopped, AmicableSplit (trusted_ticks m) 0)
      | _ \<Rightarrow> None)"

definition machine_seller_stop :: "stream_machine \<Rightarrow> (stream_machine \<times> 'r settlement) option" where
  "machine_seller_stop m =
     (let stopped = m\<lparr>sm_state := Stopping\<rparr> in
      case sm_state m of
        Probe _ \<Rightarrow> Some (stopped, AmicableSplit (trusted_ticks m) 0)
      | Streaming _ _ \<Rightarrow> Some (stopped, AmicableSplit (trusted_ticks m) 0)
      | Disputed _ _ \<Rightarrow> Some (stopped, AmicableSplit (trusted_ticks m) 0)
      | _ \<Rightarrow> None)"

definition machine_seller_no_show :: "stream_machine \<Rightarrow> stream_machine \<times> 'r settlement" where
  "machine_seller_no_show m = (m\<lparr>sm_state := Closed\<rparr>, SellerNoShow 0 (sm_seller_bond m))"

definition machine_buyer_dispute :: "stream_machine \<Rightarrow> stream_machine" where
  "machine_buyer_dispute m =
     (let (t, p) = (case sm_state m of
                      Streaming t p \<Rightarrow> (t, p)
                    | Disputed t c \<Rightarrow> (t, wrapping_add u64_max t c)
                    | _ \<Rightarrow> (0, 0))
      in m\<lparr>sm_state := Disputed t (saturating_sub p t)\<rparr>)"

definition machine_release_dispute :: "stream_machine \<Rightarrow> (stream_machine \<times> 'r settlement) option" where
  "machine_release_dispute m =
     (let closed = m\<lparr>sm_state := Closed\<rparr> in
      case sm_state m of
        Probe _ \<Rightarrow> Some (closed, AmicableSplit (trusted_ticks m) 0)
      | Streaming _ _ \<Rightarrow> Some (closed, AmicableSplit (trusted_ticks m) 0)
      | Disputed _ _ \<Rightarrow> Some (closed, AmicableSplit (trusted_ticks m) 0)
      | _ \<Rightarrow> None)"

definition machine_resolve_dispute_timeout :: "stream_machine \<Rightarrow> stream_machine \<times> 'r settlement" where
  "machine_resolve_dispute_timeout m =
     (m\<lparr>sm_state := Closed\<rparr>, BurnBoth (contested_burn (bond_shell m) (bond_shell m)))"

definition machine_close :: "stream_machine \<Rightarrow> stream_machine" where
  "machine_close m = m\<lparr>sm_state := Closed\<rparr>"

definition max_buyer_loss :: "stream_machine \<Rightarrow> nat" where
  "max_buyer_loss m =
     (let tail = (case sm_state m of
                    Opening \<Rightarrow> 0 | Closed \<Rightarrow> 0 | Probe _ \<Rightarrow> 1
                  | Streaming t p \<Rightarrow> saturating_sub p t
                  | Disputed _ c \<Rightarrow> c | Stopping \<Rightarrow> 0)
      in saturating_mul u128_max tail (sm_price m))"


section \<open>The machine as a transition system\<close>

text \<open>Every public transition, with the refusals (an error or a panic) left out.\<close>

datatype machine_event =
    ProbeAccepted | Claim nat | Promote | BuyerStop | SellerStop | NoShow
  | Dispute | ReleaseDispute | DisputeTimeout | Close

fun machine_step :: "stream_machine \<Rightarrow> machine_event \<Rightarrow> stream_machine option" where
  "machine_step m ProbeAccepted = (case on_probe_accepted m of Inl _ \<Rightarrow> None | Inr m' \<Rightarrow> Some m')"
| "machine_step m (Claim n) = (case on_claim m n of Inl _ \<Rightarrow> None | Inr m' \<Rightarrow> Some m')"
| "machine_step m Promote = (case on_promote m of Inl _ \<Rightarrow> None | Inr m' \<Rightarrow> Some m')"
| "machine_step m BuyerStop = map_option fst (machine_buyer_stop m :: (_ \<times> unit settlement) option)"
| "machine_step m SellerStop = map_option fst (machine_seller_stop m :: (_ \<times> unit settlement) option)"
| "machine_step m NoShow = Some (fst (machine_seller_no_show m :: _ \<times> unit settlement))"
| "machine_step m Dispute = Some (machine_buyer_dispute m)"
| "machine_step m ReleaseDispute =
     map_option fst (machine_release_dispute m :: (_ \<times> unit settlement) option)"
| "machine_step m DisputeTimeout =
     Some (fst (machine_resolve_dispute_timeout m :: _ \<times> unit settlement))"
| "machine_step m Close = Some (machine_close m)"

fun machine_run :: "stream_machine \<Rightarrow> machine_event list \<Rightarrow> stream_machine option" where
  "machine_run m [] = Some m"
| "machine_run m (e # es) = (case machine_step m e of None \<Rightarrow> None | Some m' \<Rightarrow> machine_run m' es)"

definition claim_ordered :: "stream_machine \<Rightarrow> bool" where
  "claim_ordered m = (case sm_state m of Streaming t p \<Rightarrow> t \<le> p | _ \<Rightarrow> True)"

definition live :: "stream_machine \<Rightarrow> bool" where
  "live m = (case sm_state m of Probe _ \<Rightarrow> True | Streaming _ _ \<Rightarrow> True | Disputed _ _ \<Rightarrow> True | _ \<Rightarrow> False)"

lemmas machine_defs =
  machine_open_def on_probe_accepted_def on_probe_def trusted_ticks_def check_invariant_def
  on_claim_def on_promote_def machine_buyer_stop_def machine_seller_stop_def
  machine_seller_no_show_def machine_buyer_dispute_def machine_release_dispute_def
  machine_resolve_dispute_timeout_def machine_close_def

lemma on_claim_Inr:
  "on_claim m n = Inr m' \<longleftrightarrow>
     (\<exists>t p. sm_state m = Streaming t p \<and> p \<le> n \<and> m' = m\<lparr>sm_state := Streaming p n\<rparr>)"
  by (auto simp: on_claim_def check_invariant_def Let_def split: stream_state.splits if_splits)

lemma on_promote_Inr:
  "on_promote m = Inr m' \<longleftrightarrow>
     (\<exists>t p. sm_state m = Streaming t p \<and> m' = m\<lparr>sm_state := Streaming p p\<rparr>)"
  by (auto simp: on_promote_def check_invariant_def Let_def split: stream_state.splits)

lemma on_probe_accepted_Inr:
  "on_probe_accepted m = Inr m' \<longleftrightarrow>
     (\<exists>t. sm_state m = Probe t \<and> m' = m\<lparr>sm_state := Streaming 1 1\<rparr>)"
  by (auto simp: on_probe_accepted_def split: stream_state.splits)

lemma machine_buyer_stop_None: "machine_buyer_stop m = None \<longleftrightarrow> \<not> live m"
  by (auto simp: machine_buyer_stop_def live_def Let_def split: stream_state.splits)

lemma machine_seller_stop_None: "machine_seller_stop m = None \<longleftrightarrow> \<not> live m"
  by (auto simp: machine_seller_stop_def live_def Let_def split: stream_state.splits)

lemma machine_release_dispute_None: "machine_release_dispute m = None \<longleftrightarrow> \<not> live m"
  by (auto simp: machine_release_dispute_def live_def Let_def split: stream_state.splits)

lemma machine_step_frame:
  "machine_step m e = Some m' \<Longrightarrow> sm_price m' = sm_price m \<and> sm_seller_bond m' = sm_seller_bond m"
  by (cases e)
    (auto simp: machine_defs Let_def split: stream_state.splits sum.splits if_splits prod.splits)

lemma machine_step_claim_ordered:
  "claim_ordered m \<Longrightarrow> machine_step m e = Some m' \<Longrightarrow> claim_ordered m'"
  by (cases e)
    (auto simp: claim_ordered_def machine_defs Let_def
      split: stream_state.splits sum.splits if_splits prod.splits)

lemma machine_run_claim_ordered:
  "claim_ordered m \<Longrightarrow> machine_run m es = Some m' \<Longrightarrow> claim_ordered m'"
  by (induction es arbitrary: m) (auto split: option.splits dest: machine_step_claim_ordered)

lemma machine_run_frame:
  "machine_run m es = Some m' \<Longrightarrow> sm_price m' = sm_price m \<and> sm_seller_bond m' = sm_seller_bond m"
proof (induction es arbitrary: m)
  case (Cons e es)
  then show ?case using machine_step_frame by (fastforce split: option.splits)
qed simp

text \<open>
  Between two states of one open stream the trusted total only grows, and what becomes trusted
  was claimed before.
\<close>

lemma machine_step_trusted_mono:
  assumes "claim_ordered m" and "machine_step m e = Some m'"
    and "sm_state m = Streaming t p" and "sm_state m' = Streaming t' p'"
  shows "t \<le> t' \<and> t' \<le> p \<and> p \<le> p'"
  using assms
  by (cases e)
    (auto simp: claim_ordered_def machine_defs Let_def split: sum.splits if_splits)

text \<open>
  On every run of the machine the trusted total of an open stream stays within its
  pending total, the price and the bond are those of the opening, and the next step that leaves
  the stream open can only trust what had been claimed before and only raise both totals.
\<close>

theorem machine_claims_ordered:
  assumes "machine_run (machine_open price) es = Some m"
    and "sm_state m = Streaming t p"
    and "machine_step m e = Some m'" and "sm_state m' = Streaming t' p'"
  shows "t \<le> t' \<and> t' \<le> p \<and> p \<le> p' \<and> sm_price m = price \<and> sm_seller_bond m = price * 2"
proof -
  have "claim_ordered (machine_open price)" by (simp add: claim_ordered_def machine_open_def)
  then have "claim_ordered m" using machine_run_claim_ordered assms(1) by blast
  then show ?thesis
    using machine_step_trusted_mono assms(2-) machine_run_frame [OF assms(1)]
    by (simp add: machine_open_def)
qed

theorem machine_claims_ordered_witness:
  "\<exists>m m' t p t' p'. machine_run (machine_open 5) [ProbeAccepted, Claim 2, Claim 4] = Some m
     \<and> sm_state m = Streaming t p \<and> machine_step m Promote = Some m' \<and> sm_state m' = Streaming t' p'
     \<and> t < p \<and> t \<le> t' \<and> t' \<le> p \<and> sm_seller_bond m = 5 * 2"
proof -
  have run: "machine_run (machine_open 5) [ProbeAccepted, Claim 2, Claim 4] =
      Some \<lparr>sm_state = Streaming 2 4, sm_price = 5, sm_seller_bond = 10\<rparr>"
    and step: "machine_step \<lparr>sm_state = Streaming 2 4, sm_price = 5, sm_seller_bond = 10\<rparr> Promote =
      Some \<lparr>sm_state = Streaming 4 4, sm_price = 5, sm_seller_bond = 10\<rparr>"
    by (simp_all add: machine_defs)
  show ?thesis
    using machine_claims_ordered [OF run _ step, of 2 4 4 4] run step by simp
qed

text \<open>
  Claim C40: the refusal of \<open>refuse_when_not_live\<close> covers only the three terminal transitions that
  carry it.  A stop or a release of a stopped or closed deal panics; but \<open>buyer_dispute\<close> has no
  guard, so a dispute raised on such a deal makes it live again, and the release that follows
  mints a second settlement, one of zero ticks.
\<close>

theorem dispute_revives_ended_deal:
  assumes "sm_state m \<in> {Stopping, Closed}"
  shows "machine_buyer_stop m = (None :: (_ \<times> 'r settlement) option)
     \<and> machine_release_dispute m = (None :: (_ \<times> 'r settlement) option)
     \<and> machine_release_dispute (machine_buyer_dispute m) =
         Some (m\<lparr>sm_state := Closed\<rparr>, AmicableSplit 0 0 :: 'r settlement)"
  using assms by (auto simp: machine_defs Let_def)

theorem dispute_revives_ended_deal_witness:
  "\<exists>m s. machine_run (machine_open 5) [ProbeAccepted, Claim 4, BuyerStop, Close] = Some m
     \<and> machine_release_dispute (machine_buyer_dispute m) = Some s \<and> snd s = (AmicableSplit 0 0 :: unit settlement)"
proof -
  have run: "machine_run (machine_open 5) [ProbeAccepted, Claim 4, BuyerStop, Close] =
      Some \<lparr>sm_state = Closed, sm_price = 5, sm_seller_bond = 10\<rparr>"
    by (simp add: machine_defs)
  show ?thesis
    using dispute_revives_ended_deal [of "\<lparr>sm_state = Closed, sm_price = 5, sm_seller_bond = 10\<rparr>"] run
    by auto
qed

end
