(* ===== verification/MarketTypes.thy ===== *)
theory MarketTypes
  imports Machine "HOL-Library.List_Lexorder" "HOL-Library.Char_ord"
begin

text \<open>
  The market's data types and the pure functions on them, from
  \<open>crates/core/src/market/types.rs\<close> and \<open>crates/core/src/note.rs\<close>: offers and order-book rows
  with their liveness predicates, order flags, the subscription shape of a deal with its weekly
  claim ceiling, the by-fact state and snapshot of a deal contract, and the cursor of the
  seller's match watcher.  Chain addresses are strings; timestamps of events are integers.
\<close>

type_synonym token_contract = string

section \<open>Errors\<close>

text \<open>
  \<open>ChainError\<close>.  The free text of a message is an enumeration value \<open>'r\<close> naming the message;
  interpolated figures are not kept.
\<close>

datatype 'r chain_error =
    OrderUnavailable
  | NoMatch token_contract
  | NoStream token_contract
  | EndpointsFile 'r
  | Chain 'r
  | Transport 'r
  | OpenUnconfirmed token_contract
  | Contract 'r
  | DuplicateSell 'r
  | AmbiguousSubmit 'r
  | MoneySubmitPreparation 'r
  | MoneySubmitRejected 'r
  | Limit 'r
  | ClaimHighWaterResync (attempted: nat) (on_chain: nat)


section \<open>Order flags\<close>

definition IOC :: u8 where "IOC = 0x01"
definition FOK :: u8 where "FOK = 0x02"
definition MARKET :: u8 where "MARKET = 0x04"
definition POST_ONLY :: u8 where "POST_ONLY = 0x08"
definition TEE :: u8 where "TEE = 0x10"
definition AON :: u8 where "AON = 0x20"
definition SUBSCRIPTION :: u8 where "SUBSCRIPTION = 0x40"
definition DEAL_MASK :: u8 where "DEAL_MASK = TEE OR SUBSCRIPTION"

lemmas flag_defs = IOC_def FOK_def MARKET_def POST_ONLY_def TEE_def AON_def SUBSCRIPTION_def
  DEAL_MASK_def

text \<open>\<open>flags & bit != 0\<close>\<close>

definition has_flag :: "u8 \<Rightarrow> u8 \<Rightarrow> bool" where
  "has_flag fl b \<longleftrightarrow> fl AND b \<noteq> 0"


section \<open>Notes and offers\<close>

record note_pubkey =
  pk_x :: "u8 list"
  pk_ed :: "u8 list"

record sell_offer =
  so_price_per_tick :: nat
  so_max_ticks :: nat
  so_token_contract :: token_contract
  so_flags :: u8

record offer_listing =
  ol_seller_id :: string
  ol_token_contract :: token_contract
  ol_price_per_tick :: nat
  ol_max_ticks :: nat

datatype sell_offer_outcome = Rested (rested_order_id: nat) | Matched

record order_book_order =
  ob_order_id :: nat
  ob_owner_note :: string
  ob_token_contract :: "token_contract option"
  ob_is_buy :: bool
  ob_price_per_tick :: nat
  ob_ticks :: nat
  ob_escrow :: nat
  ob_deadline :: nat
  ob_flags :: u8
  ob_timestamp :: nat

definition order_deadline_is_live :: "bool \<Rightarrow> nat \<Rightarrow> nat \<Rightarrow> bool" where
  "order_deadline_is_live is_buy deadline now_unix =
     (if deadline = 0 then is_buy else now_unix < deadline)"

definition is_resting_ask :: "order_book_order \<Rightarrow> bool" where
  "is_resting_ask o1 \<longleftrightarrow> \<not> ob_is_buy o1 \<and> ob_token_contract o1 \<noteq> None \<and> ob_ticks o1 > 0"

definition is_live_resting_ask_at :: "order_book_order \<Rightarrow> nat \<Rightarrow> bool" where
  "is_live_resting_ask_at o1 now_unix \<longleftrightarrow>
     is_resting_ask o1 \<and> order_deadline_is_live (ob_is_buy o1) (ob_deadline o1) now_unix"

definition ensure_pre_submit_quote_unchanged ::
    "order_book_order option \<Rightarrow> order_book_order \<Rightarrow> (unit, 'r chain_error) result" where
  "ensure_pre_submit_quote_unchanged quoted_order selected =
     (if (case quoted_order of
            None \<Rightarrow> False
          | Some quoted \<Rightarrow>
              ob_order_id quoted = ob_order_id selected
              \<and> ob_token_contract quoted = ob_token_contract selected
              \<and> ob_price_per_tick quoted = ob_price_per_tick selected
              \<and> ob_ticks quoted = ob_ticks selected
              \<and> ob_deadline quoted = ob_deadline selected
              \<and> ob_flags quoted = ob_flags selected)
      then Inr () else Inl OrderUnavailable)"

record order_book_stats =
  obs_next_order_id :: nat
  obs_order_count :: nat
  obs_executed_notional :: nat
  obs_executed_ticks :: nat

record order_book_snapshot =
  bk_frame_model :: string
  bk_model_hash :: string
  bk_order_book :: string
  bk_stats :: "order_book_stats option"
  bk_orders :: "order_book_order list"

definition book_active :: "order_book_snapshot \<Rightarrow> bool" where
  "book_active b \<longleftrightarrow> bk_stats b \<noteq> None"

definition resting_asks :: "order_book_snapshot \<Rightarrow> order_book_order list" where
  "resting_asks b = filter is_resting_ask (bk_orders b)"

definition live_resting_asks_at :: "order_book_snapshot \<Rightarrow> nat \<Rightarrow> order_book_order list" where
  "live_resting_asks_at b now_unix = filter (\<lambda>o1. is_live_resting_ask_at o1 now_unix) (bk_orders b)"

text \<open>An ask that is live stays live at every earlier time, and no ask is live at its deadline.\<close>

lemma live_ask_deadline:
  "is_live_resting_ask_at o1 now \<longleftrightarrow> is_resting_ask o1 \<and> now < ob_deadline o1"
  by (auto simp: is_live_resting_ask_at_def order_deadline_is_live_def is_resting_ask_def)


section \<open>Deal shape and weekly accounting\<close>

record deal_subscription =
  ds_deal_flags :: u8
  ds_sub_weeks :: nat
  ds_week_index :: nat
  ds_tokens_per_week :: nat
  ds_funded_tokens :: nat
  ds_tokens_paid :: nat
  ds_period_start :: nat
  ds_week_base_tokens :: nat

record deal_chain_state =
  dc_funded :: bool
  dc_opened :: bool
  dc_probe_accepted :: bool
  dc_disputed :: bool
  dc_deposit :: nat
  dc_finalized_owed :: nat
  dc_tokens_final :: nat
  dc_tokens_pending :: nat
  dc_probe_tick :: nat
  dc_funded_time :: "nat option"
  dc_probe_time :: nat
  dc_last_claim_time :: nat
  dc_dispute_time :: nat

definition is_subscription :: "deal_subscription \<Rightarrow> bool" where
  "is_subscription s \<longleftrightarrow> ds_sub_weeks s \<noteq> 0"

definition is_tee :: "deal_subscription \<Rightarrow> bool" where
  "is_tee s \<longleftrightarrow> has_flag (ds_deal_flags s) TEE"

definition weeks_remaining :: "deal_subscription \<Rightarrow> nat" where
  "weeks_remaining s = saturating_sub (ds_sub_weeks s) (ds_week_index s)"

definition recorded_week_expires_at :: "deal_subscription \<Rightarrow> nat" where
  "recorded_week_expires_at s =
     (if \<not> is_subscription s \<or> ds_week_index s \<ge> ds_sub_weeks s then u64_max
      else saturating_add u64_max (ds_period_start s)
             (wrapping_mul u64_max (saturating_add u64_max (ds_week_index s) 1) SUB_WEEK_LEN))"

definition term_is_over :: "deal_subscription \<Rightarrow> bool" where
  "term_is_over s \<longleftrightarrow> is_subscription s \<and> ds_week_index s \<ge> ds_sub_weeks s"

datatype claim_cap_error = NotASubscription | WeeklyCapOverflow | ClaimAboveCeiling

definition subscription_claim_cap_at ::
    "deal_chain_state \<Rightarrow> deal_subscription \<Rightarrow> (nat, claim_cap_error) result" where
  "subscription_claim_cap_at st s =
     (if \<not> is_subscription s then Inl NotASubscription
      else if term_is_over s then Inr (dc_tokens_pending st)
      else ok_or
             (map_option (\<lambda>cap. min cap (ds_funded_tokens s))
               (checked_add u128_max (ds_week_base_tokens s) (ds_tokens_per_week s)))
             WeeklyCapOverflow)"

definition subscription_current_week_headroom ::
    "deal_chain_state \<Rightarrow> deal_subscription \<Rightarrow> (nat, claim_cap_error) result" where
  "subscription_current_week_headroom st s =
     and_then (subscription_claim_cap_at st s) (\<lambda>cap.
       ok_or (checked_sub cap (dc_tokens_pending st)) ClaimAboveCeiling)"

text \<open>Past its final week a subscription has no headroom left, whatever the quota says.\<close>

lemma term_over_no_headroom:
  "term_is_over s \<Longrightarrow> subscription_current_week_headroom st s = Inr 0"
  by (simp add: subscription_current_week_headroom_def subscription_claim_cap_at_def
      term_is_over_def checked_sub_def)


section \<open>By-fact state of a deal contract\<close>

definition contested_tokens :: "deal_chain_state \<Rightarrow> nat" where
  "contested_tokens st = saturating_sub (dc_tokens_pending st) (dc_tokens_final st)"

definition state_on_probe :: "deal_chain_state \<Rightarrow> bool" where
  "state_on_probe st \<longleftrightarrow> dc_opened st \<and> \<not> dc_probe_accepted st"

definition is_stopped :: "deal_chain_state \<Rightarrow> bool" where
  "is_stopped st \<longleftrightarrow>
     dc_funded st \<and> \<not> dc_opened st \<and> \<not> dc_disputed st \<and> dc_deposit st = 0 \<and> dc_probe_tick st = 0"

text \<open>The reasons a contract counts as used, in the order the source lists them.\<close>

definition used_reasons :: "deal_chain_state \<Rightarrow> string list" where
  "used_reasons st =
     (if dc_opened st then [''opened''] else [])
     @ (if dc_funded st then [''funded''] else [])
     @ (if dc_disputed st then [''disputed''] else [])
     @ (if dc_probe_accepted st then [''probeAccepted''] else [])
     @ map fst (filter (\<lambda>(f, v). v > 0)
         [(''deposit'', dc_deposit st), (''probeTick'', dc_probe_tick st),
          (''finalizedOwed'', dc_finalized_owed st), (''tokensFinal'', dc_tokens_final st),
          (''tokensPending'', dc_tokens_pending st)])
     @ (case dc_funded_time st of None \<Rightarrow> [] | Some _ \<Rightarrow> [''fundedTime''])
     @ map fst (filter (\<lambda>(f, v). v > 0)
         [(''probeTime'', dc_probe_time st), (''lastClaimTime'', dc_last_claim_time st),
          (''disputeTime'', dc_dispute_time st)])"

definition used_reason :: "deal_chain_state \<Rightarrow> string list option" where
  "used_reason st = (if used_reasons st = [] then None else Some (used_reasons st))"

text \<open>The state every field has at construction.\<close>

definition fresh_state :: deal_chain_state where
  "fresh_state =
     \<lparr>dc_funded = False, dc_opened = False, dc_probe_accepted = False, dc_disputed = False,
      dc_deposit = 0, dc_finalized_owed = 0, dc_tokens_final = 0, dc_tokens_pending = 0,
      dc_probe_tick = 0, dc_funded_time = None, dc_probe_time = 0, dc_last_claim_time = 0,
      dc_dispute_time = 0\<rparr>"

lemma used_reason_None: "used_reason st = None \<longleftrightarrow> st = fresh_state"
  by (cases st)
    (auto simp: used_reason_def used_reasons_def fresh_state_def split: if_splits option.splits)

record deal_seller_bond =
  sb_bond_funded :: bool
  sb_bond_held :: nat
  sb_bond_required :: nat

record deal_buyer_bond =
  bb_bond_held :: nat
  bb_bond_required :: nat

record deal_chain_snapshot =
  cs_account_code_hash :: string
  cs_account_boc_hash :: string
  cs_state :: deal_chain_state
  cs_subscription :: deal_subscription
  cs_seller_bond :: deal_seller_bond
  cs_buyer_bond :: deal_buyer_bond

datatype snapshot_error =
    FundedBelowTwoTicks
  | SellerBondAboveRequired
  | SellerBondHeldUnfunded
  | OpenedNotFunded
  | OpenedWithoutFullBond
  | BuyerBondRequiredShape
  | BuyerBondAboveBondSize
  | LiveSubscriptionWithoutBond

definition validate_cross_getter_invariants ::
    "deal_chain_snapshot \<Rightarrow> (unit, snapshot_error) result" where
  "validate_cross_getter_invariants sn =
     (let st = cs_state sn; sub = cs_subscription sn;
          seller = cs_seller_bond sn; buyer = cs_buyer_bond sn;
          expected_buyer_required = (if is_subscription sub then sb_bond_required seller else 0);
          live_funded = (dc_funded st \<and> \<not> is_stopped st)
      in
      and_then (ensure (\<not> (dc_funded st \<and> ds_funded_tokens sub < TICK_SIZE * 2)) FundedBelowTwoTicks) (\<lambda>_.
      and_then (ensure (\<not> sb_bond_held seller > sb_bond_required seller) SellerBondAboveRequired) (\<lambda>_.
      and_then (ensure (\<not> (\<not> sb_bond_funded seller \<and> sb_bond_held seller \<noteq> 0)) SellerBondHeldUnfunded) (\<lambda>_.
      and_then (ensure (\<not> (dc_opened st \<and> \<not> dc_funded st)) OpenedNotFunded) (\<lambda>_.
      and_then (ensure (\<not> (dc_opened st \<and> (\<not> sb_bond_funded seller \<or> sb_bond_required seller = 0
                   \<or> sb_bond_held seller \<noteq> sb_bond_required seller))) OpenedWithoutFullBond) (\<lambda>_.
      and_then (ensure (bb_bond_required buyer = expected_buyer_required) BuyerBondRequiredShape) (\<lambda>_.
      and_then (ensure (\<not> bb_bond_held buyer > sb_bond_required seller) BuyerBondAboveBondSize) (\<lambda>_.
      if \<not> is_subscription sub then Inr ()
      else ensure (\<not> (live_funded \<and> (bb_bond_required buyer = 0
                       \<or> bb_bond_held buyer \<noteq> bb_bond_required buyer)))
             LiveSubscriptionWithoutBond))))))))"

definition snapshot_buyer_locked :: "deal_chain_snapshot \<Rightarrow> nat option" where
  "snapshot_buyer_locked sn =
     Option.bind (checked_add u128_max (dc_deposit (cs_state sn)) (dc_probe_tick (cs_state sn)))
       (\<lambda>total. checked_add u128_max total (bb_bond_held (cs_buyer_bond sn)))"

record stream_snapshot =
  ss_seller_locked :: nat
  ss_buyer_locked :: nat
  ss_buyer_lead :: nat
  ss_tokens_final :: nat
  ss_seller_received :: nat
  ss_buyer_refunded :: nat
  ss_burned :: nat
  ss_closed :: bool


section \<open>Matches and fills\<close>

record match_t =
  mt_token_contract :: token_contract
  mt_buyer_pubkey :: note_pubkey
  mt_price_per_tick :: nat

record matched_fill =
  mf_order_id :: nat
  mf_token_contract :: token_contract
  mf_ticks :: nat
  mf_price_per_tick :: nat

datatype buyer_order_fact_kind =
    Placed (fact_order_id: nat) (fact_price_per_tick: nat) (fact_ticks: nat) (fact_deadline: nat)
  | Cancelled (fact_order_id: nat) (fact_refunded: nat)
  | Expired (fact_order_id: nat)
  | Refunded (fact_order_id: nat) (fact_amount: nat)
  | Rejected (fact_reason: u8) (fact_refund: nat)

record buyer_order_fact =
  bf_created_at :: int
  bf_note :: string
  bf_kind :: buyer_order_fact_kind

definition fact_id :: "buyer_order_fact \<Rightarrow> nat option" where
  "fact_id f =
     (case bf_kind f of
        Placed i _ _ _ \<Rightarrow> Some i | Cancelled i _ \<Rightarrow> Some i | Expired i \<Rightarrow> Some i
      | Refunded i _ \<Rightarrow> Some i | Rejected _ _ \<Rightarrow> None)"

record quote_fill =
  qf_order_id :: nat
  qf_token_contract :: token_contract
  qf_ticks :: nat
  qf_price_per_tick :: nat
  qf_cost_with_fee :: nat

record executable_quote_t =
  eq_filled_ticks :: nat
  eq_total_with_fee :: nat
  eq_complete :: bool
  eq_fills :: "quote_fill list"


section \<open>ASCII case\<close>

definition to_ascii_lowercase_char :: "char \<Rightarrow> char" where
  "to_ascii_lowercase_char c =
     (if 65 \<le> (of_char c :: nat) \<and> (of_char c :: nat) \<le> 90 then char_of (of_char c + 32 :: nat) else c)"

definition to_ascii_lowercase :: "string \<Rightarrow> string" where
  "to_ascii_lowercase s = map to_ascii_lowercase_char s"

definition eq_ignore_ascii_case :: "string \<Rightarrow> string \<Rightarrow> bool" where
  "eq_ignore_ascii_case a b \<longleftrightarrow> to_ascii_lowercase a = to_ascii_lowercase b"


section \<open>Match watcher cursor\<close>

record match_watch_cursor =
  mc_since_unix :: int
  mc_last_seen_created_at :: "int option"
  mc_seen_at_last :: "token_contract list"

definition cursor_new :: "int \<Rightarrow> match_watch_cursor" where
  "cursor_new since_unix =
     \<lparr>mc_since_unix = since_unix, mc_last_seen_created_at = None, mc_seen_at_last = []\<rparr>"

definition has_seen :: "match_watch_cursor \<Rightarrow> int \<Rightarrow> token_contract \<Rightarrow> bool" where
  "has_seen cur created_at tc =
     (if created_at < mc_since_unix cur then True
      else case mc_last_seen_created_at cur of
             None \<Rightarrow> False
           | Some last_at \<Rightarrow>
               if created_at < last_at then True
               else if created_at = last_at
                    then list_ex (\<lambda>t. eq_ignore_ascii_case t tc) (mc_seen_at_last cur)
               else False)"

text \<open>\<open>Vec::dedup_by\<close>: drop an element equal to the last one kept.\<close>

fun dedup_by :: "('a \<Rightarrow> 'a \<Rightarrow> bool) \<Rightarrow> 'a list \<Rightarrow> 'a list" where
  "dedup_by eq [] = []"
| "dedup_by eq [x] = [x]"
| "dedup_by eq (x # y # ys) = (if eq y x then dedup_by eq (x # ys) else x # dedup_by eq (y # ys))"

fun record_seen_events ::
    "int \<Rightarrow> int option \<times> token_contract list \<Rightarrow> (int \<times> token_contract) list
     \<Rightarrow> int option \<times> token_contract list" where
  "record_seen_events since acc [] = acc"
| "record_seen_events since (max_seen, at_max) ((created_at, tc) # events) =
     record_seen_events since
       (if created_at < since then (max_seen, at_max)
        else case max_seen of
               Some mx \<Rightarrow>
                 if created_at < mx then (max_seen, at_max)
                 else if created_at = mx
                      then (max_seen, if list_ex (\<lambda>t. eq_ignore_ascii_case t tc) at_max
                                      then at_max else at_max @ [tc])
                 else (Some created_at, [tc])
             | None \<Rightarrow> (Some created_at, [tc])) events"

definition record_seen_batch ::
    "match_watch_cursor \<Rightarrow> (int \<times> token_contract) list \<Rightarrow> match_watch_cursor" where
  "record_seen_batch cur events =
     (let start = (mc_last_seen_created_at cur,
                   if mc_last_seen_created_at cur \<noteq> None then mc_seen_at_last cur else []);
          (max_seen, at_max) = record_seen_events (mc_since_unix cur) start events
      in case max_seen of
           None \<Rightarrow> cur
         | Some mx \<Rightarrow> cur\<lparr>mc_last_seen_created_at := Some mx,
                           mc_seen_at_last := dedup_by eq_ignore_ascii_case (sort at_max)\<rparr>)"

end
