(* ===== verification/MatchCursor.thy ===== *)
theory MatchCursor
  imports MarketTypes
begin

text \<open>
  Delivery guarantees of the seller's match watcher cursor
  (\<open>MatchWatchCursor\<close> in \<open>crates/core/src/market/types.rs\<close>): what was recorded counts as seen,
  what was seen stays seen, and nothing at or after the recorded second is swallowed.
\<close>

text \<open>\<open>has_seen\<close> on the pair the recording loop works with.\<close>

definition seen_pair ::
    "int \<Rightarrow> int option \<times> token_contract list \<Rightarrow> int \<Rightarrow> token_contract \<Rightarrow> bool" where
  "seen_pair since acc t tc =
     (t < since \<or>
      (case fst acc of None \<Rightarrow> False
       | Some mx \<Rightarrow> t < mx \<or> (t = mx \<and> (\<exists>u\<in>set (snd acc). eq_ignore_ascii_case u tc))))"

lemma has_seen_pair:
  "has_seen cur t tc =
     seen_pair (mc_since_unix cur) (mc_last_seen_created_at cur, mc_seen_at_last cur) t tc"
  by (auto simp: has_seen_def seen_pair_def list_ex_iff split: option.splits)

lemma eq_ignore_refl [simp]: "eq_ignore_ascii_case a a"
  and eq_ignore_sym: "eq_ignore_ascii_case a b \<Longrightarrow> eq_ignore_ascii_case b a"
  and eq_ignore_trans: "eq_ignore_ascii_case a b \<Longrightarrow> eq_ignore_ascii_case b c \<Longrightarrow> eq_ignore_ascii_case a c"
  by (simp_all add: eq_ignore_ascii_case_def)

lemma record_one_seen:
  "seen_pair since (record_seen_events since acc [(t, tc)]) t tc"
  by (cases acc) (auto simp: seen_pair_def list_ex_iff split: option.splits)

lemma record_one_mono:
  "seen_pair since acc t tc \<Longrightarrow> seen_pair since (record_seen_events since acc [e]) t tc"
  by (cases acc; cases e) (auto simp: seen_pair_def split: option.splits)

lemma record_one_justified:
  "seen_pair since (record_seen_events since acc [(t', tc')]) t tc \<Longrightarrow>
   seen_pair since acc t tc \<or> since \<le> t' \<and> (t < t' \<or> t = t' \<and> eq_ignore_ascii_case tc' tc)"
  by (cases acc)
    (auto simp: seen_pair_def list_ex_iff split: option.splits if_splits)

lemma record_Cons:
  "record_seen_events since acc (e # es) =
     record_seen_events since (record_seen_events since acc [e]) es"
  by (cases acc; cases e) simp

lemma record_mono:
  "seen_pair since acc t tc \<Longrightarrow> seen_pair since (record_seen_events since acc es) t tc"
proof (induction es arbitrary: acc)
  case (Cons e es)
  then show ?case by (subst record_Cons) (blast intro: record_one_mono)
qed simp

lemma record_all_seen:
  "(t, tc) \<in> set es \<Longrightarrow> seen_pair since (record_seen_events since acc es) t tc"
proof (induction es arbitrary: acc)
  case (Cons e es)
  show ?case
  proof (cases "(t, tc) = e")
    case True
    then show ?thesis
      by (subst record_Cons) (metis record_mono record_one_seen)
  next
    case False
    then show ?thesis using Cons by (subst record_Cons) simp
  qed
qed simp

lemma record_justified:
  "seen_pair since (record_seen_events since acc es) t tc \<Longrightarrow>
   seen_pair since acc t tc
   \<or> (\<exists>(t', tc')\<in>set es. since \<le> t' \<and> (t < t' \<or> t = t' \<and> eq_ignore_ascii_case tc' tc))"
proof (induction es arbitrary: acc)
  case (Cons e es)
  obtain t' tc' where e: "e = (t', tc')" by (cases e)
  from Cons.prems have
    "seen_pair since (record_seen_events since (record_seen_events since acc [e]) es) t tc"
    by (subst (asm) record_Cons)
  from Cons.IH [OF this] show ?case
    using record_one_justified [of since acc t' tc' t tc] by (auto simp: e)
qed simp

text \<open>Sorting and removing adjacent duplicates keep the set up to letter case.\<close>

lemma dedup_subset: "set (dedup_by eq xs) \<subseteq> set xs"
  by (induction eq xs rule: dedup_by.induct) auto

lemma dedup_covers:
  "x \<in> set xs \<Longrightarrow> \<exists>y\<in>set (dedup_by eq_ignore_ascii_case xs). eq_ignore_ascii_case y x"
proof (induction "eq_ignore_ascii_case" xs arbitrary: x rule: dedup_by.induct)
  case (3 u v ys)
  show ?case
  proof (cases "eq_ignore_ascii_case v u")
    case True
    have "x \<in> set (u # ys) \<or> x = v" using 3(3) by auto
    then obtain z where "z \<in> set (u # ys)" "eq_ignore_ascii_case z x"
      using True by (metis eq_ignore_refl eq_ignore_sym list.set_intros(1))
    then show ?thesis
      using 3(1) [OF True] True by (metis dedup_by.simps(3) eq_ignore_trans)
  next
    case False
    then have "x = u \<or> x \<in> set (v # ys)" using 3(3) by auto
    then show ?thesis
      using 3(2) [OF False] False by (metis dedup_by.simps(3) eq_ignore_refl list.set_intros)
  qed
qed auto

lemma dedup_sort_ex:
  "(\<exists>u\<in>set (dedup_by eq_ignore_ascii_case (sort xs)). eq_ignore_ascii_case u tc)
     \<longleftrightarrow> (\<exists>u\<in>set xs. eq_ignore_ascii_case u tc)"
proof
  assume "\<exists>u\<in>set xs. eq_ignore_ascii_case u tc"
  then obtain u where u: "u \<in> set (sort xs)" "eq_ignore_ascii_case u tc" by auto
  then show "\<exists>u\<in>set (dedup_by eq_ignore_ascii_case (sort xs)). eq_ignore_ascii_case u tc"
    using dedup_covers [OF u(1)] by (blast intro: eq_ignore_trans)
next
  assume "\<exists>u\<in>set (dedup_by eq_ignore_ascii_case (sort xs)). eq_ignore_ascii_case u tc"
  then show "\<exists>u\<in>set xs. eq_ignore_ascii_case u tc"
    using dedup_subset [of eq_ignore_ascii_case "sort xs"] by auto
qed

lemma record_keeps_Some: "fst (record_seen_events since (Some mx, l) es) \<noteq> None"
  by (induction es arbitrary: mx l) auto

lemma has_seen_batch:
  "has_seen (record_seen_batch cur es) t tc =
     seen_pair (mc_since_unix cur)
       (record_seen_events (mc_since_unix cur)
          (mc_last_seen_created_at cur,
           if mc_last_seen_created_at cur \<noteq> None then mc_seen_at_last cur else []) es) t tc"
proof -
  define acc where "acc = record_seen_events (mc_since_unix cur)
    (mc_last_seen_created_at cur,
     if mc_last_seen_created_at cur \<noteq> None then mc_seen_at_last cur else []) es"
  show ?thesis
  proof (cases "fst acc")
    case (Some mx)
    then show ?thesis
      unfolding has_seen_pair record_seen_batch_def Let_def acc_def [symmetric]
      by (cases acc) (auto simp: seen_pair_def dedup_sort_ex)
  next
    case None
    then have "mc_last_seen_created_at cur = None"
      unfolding acc_def by (cases "mc_last_seen_created_at cur") (simp_all add: record_keeps_Some)
    then show ?thesis
      using None unfolding has_seen_pair record_seen_batch_def Let_def acc_def [symmetric]
      by (cases acc) (simp add: seen_pair_def)
  qed
qed

text \<open>
  Recording a batch of match events makes every event of the batch count as seen and
  keeps everything seen before; and an event counts as seen afterwards only if it did before,
  or the batch holds it (up to letter case) or an event of a later second.  So the seller never
  handles one fill twice, and no fill of the newest second is swallowed.
\<close>

theorem cursor_records_exactly:
  "has_seen (record_seen_batch cur es) t tc \<longleftrightarrow>
     has_seen cur t tc
     \<or> (\<exists>(t', tc')\<in>set es.
          mc_since_unix cur \<le> t' \<and> (t < t' \<or> t = t' \<and> eq_ignore_ascii_case tc' tc))"
proof -
  let ?since = "mc_since_unix cur"
  let ?acc = "(mc_last_seen_created_at cur,
    if mc_last_seen_created_at cur \<noteq> None then mc_seen_at_last cur else [])"
  let ?res = "record_seen_events ?since ?acc es"
  have before: "has_seen cur t tc = seen_pair ?since ?acc t tc"
    unfolding has_seen_pair by (auto simp: seen_pair_def)
  have "seen_pair ?since ?res t tc"
    if "(t', tc') \<in> set es" "?since \<le> t'" "t < t' \<or> t = t' \<and> eq_ignore_ascii_case tc' tc" for t' tc'
    using record_all_seen [OF that(1), of ?since ?acc] that(2,3)
    by (auto simp: seen_pair_def split: option.splits dest: eq_ignore_trans)
  then show ?thesis
    unfolding has_seen_batch before
    using record_mono [of ?since ?acc t tc es] record_justified [of ?since ?acc es t tc] by blast
qed

end
