(* ===== verification/Decimal.thy ===== *)
theory Decimal
  imports Params
begin

text \<open>
  Decimal text.  The first part is what the code uses of Rust's standard library: rendering an
  unsigned integer, parsing one with a width, trimming, splitting at the first point.  The
  second part is \<open>shell_amount\<close>, \<open>shell_amount_of_text\<close> and \<open>shell_amount_raw\<close> of
  \<open>crates/core/src/params.rs\<close>: the one renderer and the one parser of SHELL amounts.
\<close>

section \<open>Standard-library text operations\<close>

definition digit_char :: "nat \<Rightarrow> char" where
  "digit_char d = char_of (48 + d)"

definition is_ascii_digit :: "char \<Rightarrow> bool" where
  "is_ascii_digit c \<longleftrightarrow> 48 \<le> (of_char c :: nat) \<and> (of_char c :: nat) \<le> 57"

definition digit_val :: "char \<Rightarrow> nat" where
  "digit_val c = of_char c - 48"

fun show_nat :: "nat \<Rightarrow> string" where
  "show_nat n = (if n < 10 then [digit_char n] else show_nat (n div 10) @ [digit_char (n mod 10)])"

declare show_nat.simps [simp del]

definition digits_value :: "string \<Rightarrow> nat" where
  "digits_value s = foldl (\<lambda>acc c. acc * 10 + digit_val c) 0 s"

text \<open>
  \<open>str::parse\<close> into an unsigned type with largest value \<open>m\<close>: a single leading plus sign is
  allowed, at least one digit is required, and a value beyond the width is an error.
\<close>

definition parse_uint :: "nat \<Rightarrow> string \<Rightarrow> nat option" where
  "parse_uint m s =
     (let ds = (case s of c # cs \<Rightarrow> if c = CHR ''+'' then cs else s | [] \<Rightarrow> s)
      in if ds = [] \<or> \<not> list_all is_ascii_digit ds then None
         else if digits_value ds \<le> m then Some (digits_value ds) else None)"

definition is_ascii_whitespace :: "char \<Rightarrow> bool" where
  "is_ascii_whitespace c \<longleftrightarrow> (of_char c :: nat) \<in> {9, 10, 11, 12, 13, 32}"

definition str_trim :: "string \<Rightarrow> string" where
  "str_trim s = rev (dropWhile is_ascii_whitespace (rev (dropWhile is_ascii_whitespace s)))"

fun split_once :: "char \<Rightarrow> string \<Rightarrow> (string \<times> string) option" where
  "split_once c [] = None"
| "split_once c (x # xs) =
     (if x = c then Some ([], xs)
      else map_option (\<lambda>(a, b). (x # a, b)) (split_once c xs))"

text \<open>\<open>format!("{n:0w}")\<close> and the loop that pops trailing zeros.\<close>

definition pad_zeros :: "nat \<Rightarrow> string \<Rightarrow> string" where
  "pad_zeros w s = replicate (w - length s) (CHR ''0'') @ s"

definition strip_trailing_zeros :: "string \<Rightarrow> string" where
  "strip_trailing_zeros s = rev (dropWhile (\<lambda>c. c = CHR ''0'') (rev s))"


section \<open>SHELL amounts\<close>

datatype amount_error =
    AmountEmpty
  | FinerThanRawUnit
  | NotANumber
  | AmountBeyondRange

definition shell_amount :: "nat \<Rightarrow> string" where
  "shell_amount raw =
     (let whole = raw div SHELL_UNIT; rest = raw mod SHELL_UNIT
      in if rest = 0 then show_nat whole
         else show_nat whole @ CHR ''.'' # strip_trailing_zeros (pad_zeros 9 (show_nat rest)))"

definition shell_amount_of_text :: "string \<Rightarrow> string" where
  "shell_amount_of_text raw =
     (case parse_uint u128_max (str_trim raw) of
        Some v \<Rightarrow> shell_amount v
      | None \<Rightarrow> raw)"

definition shell_amount_raw :: "string \<Rightarrow> (nat, amount_error) result" where
  "shell_amount_raw text0 =
     (let text = str_trim text0 in
      if text = [] then Inl AmountEmpty
      else
        let (whole_text, decimals_text) =
          (case split_once (CHR ''.'') text of Some wd \<Rightarrow> wd | None \<Rightarrow> (text, []))
        in if length decimals_text > 9 then Inl FinerThanRawUnit
           else if CHR ''+'' \<in> set text then Inl NotANumber
           else
             and_then (if whole_text = [] then Inr 0
                       else ok_or (parse_uint u128_max whole_text) NotANumber) (\<lambda>whole.
             and_then (if decimals_text = [] then Inr 0
                       else ok_or (parse_uint u128_max decimals_text) NotANumber) (\<lambda>decimals.
             let scale = 10 ^ (9 - length decimals_text)
             in ok_or
                  (Option.bind (checked_mul u128_max whole SHELL_UNIT) (\<lambda>raw.
                   Option.bind (checked_mul u128_max decimals scale) (\<lambda>part.
                   checked_add u128_max raw part)))
                  AmountBeyondRange)))"


section \<open>Rendering and parsing agree\<close>

lemma of_char_digit: "d < 10 \<Longrightarrow> of_char (digit_char d) = (48 + d :: nat)"
  by (simp add: digit_char_def)

lemma digit_char_digit: "d < 10 \<Longrightarrow> is_ascii_digit (digit_char d)"
  by (simp add: is_ascii_digit_def of_char_digit)

lemma digit_val_char: "d < 10 \<Longrightarrow> digit_val (digit_char d) = d"
  by (simp add: digit_val_def of_char_digit)

lemma zero_char: "digit_char 0 = CHR ''0''"
  by code_simp

lemma digit_val_zero [simp]: "digit_val (CHR ''0'') = 0"
  using digit_val_char [of 0] by (simp add: zero_char)

lemma is_ascii_digit_zero [simp]: "is_ascii_digit (CHR ''0'')"
  using digit_char_digit [of 0] by (simp add: zero_char)

lemma digits_value_snoc [simp]: "digits_value (s @ [c]) = digits_value s * 10 + digit_val c"
  by (simp add: digits_value_def)

lemma digits_value_Nil [simp]: "digits_value [] = 0"
  by (simp add: digits_value_def)

lemma digits_value_show: "digits_value (show_nat n) = n"
proof (induction n rule: show_nat.induct)
  case (1 n)
  show ?case
  proof (cases "n < 10")
    case True
    then show ?thesis
      by (simp add: show_nat.simps [of n] digits_value_def digit_val_char)
  next
    case False
    with 1 have "digits_value (show_nat (n div 10)) = n div 10" by simp
    with False show ?thesis
      by (simp add: show_nat.simps [of n] digit_val_char)
  qed
qed

lemma show_nat_digits: "list_all is_ascii_digit (show_nat n)"
proof (induction n rule: show_nat.induct)
  case (1 n)
  then show ?case
    by (cases "n < 10") (simp_all add: show_nat.simps [of n] digit_char_digit)
qed

lemma show_nat_nonempty [simp]: "show_nat n \<noteq> []"
  by (subst show_nat.simps) simp

lemma show_nat_length: "n < 10 ^ k \<Longrightarrow> 0 < k \<Longrightarrow> length (show_nat n) \<le> k"
proof (induction k arbitrary: n)
  case 0
  then show ?case by simp
next
  case (Suc k)
  show ?case
  proof (cases "n < 10")
    case True
    then show ?thesis by (simp add: show_nat.simps [of n])
  next
    case False
    then have "0 < k" using Suc.prems by (cases k) auto
    moreover have "n div 10 < 10 ^ k" using Suc.prems by auto
    ultimately have "length (show_nat (n div 10)) \<le> k" by (rule Suc.IH [rotated])
    then show ?thesis using False by (simp add: show_nat.simps [of n])
  qed
qed

lemma digits_value_zeros: "digits_value (replicate k (CHR ''0'') @ s) = digits_value s"
  by (induction s rule: rev_induct)
    (simp_all add: digits_value_def foldl_append flip: append_assoc,
     induction k, simp_all add: digits_value_def)

lemma digits_value_append_zeros:
  "digits_value (s @ replicate k (CHR ''0'')) = digits_value s * 10 ^ k"
proof (induction k)
  case (Suc k)
  have "s @ replicate (Suc k) (CHR ''0'') = (s @ replicate k (CHR ''0'')) @ [CHR ''0'']"
    by (simp add: replicate_append_same)
  then have "digits_value (s @ replicate (Suc k) (CHR ''0''))
      = digits_value (s @ replicate k (CHR ''0'')) * 10"
    by (simp only: digits_value_snoc digit_val_zero add_0_right)
  then show ?case using Suc by simp
qed simp

lemma strip_trailing_zeros_append:
  "s = strip_trailing_zeros s @ replicate (length s - length (strip_trailing_zeros s)) (CHR ''0'')"
proof (induction s rule: rev_induct)
  case (snoc c s)
  show ?case
  proof (cases "c = CHR ''0''")
    case True
    have strip: "strip_trailing_zeros (s @ [c]) = strip_trailing_zeros s"
      using True by (simp add: strip_trailing_zeros_def)
    have le: "length (strip_trailing_zeros s) \<le> length s"
      unfolding strip_trailing_zeros_def using length_dropWhile_le [of _ "rev s"] by simp
    have "s @ [c] = strip_trailing_zeros s
        @ replicate (length s - length (strip_trailing_zeros s)) (CHR ''0'') @ [CHR ''0'']"
      using snoc True by (metis append_assoc)
    also have "\<dots> = strip_trailing_zeros s
        @ replicate (Suc (length s) - length (strip_trailing_zeros s)) (CHR ''0'')"
      using le by (simp add: Suc_diff_le replicate_append_same)
    finally show ?thesis unfolding strip by simp
  next
    case False
    then show ?thesis by (simp add: strip_trailing_zeros_def)
  qed
qed (simp add: strip_trailing_zeros_def)

lemma strip_trailing_zeros_subset: "set (strip_trailing_zeros s) \<subseteq> set s"
  unfolding strip_trailing_zeros_def by (auto dest: set_dropWhileD)

lemma parse_uint_digits:
  assumes "list_all is_ascii_digit ds" and "ds \<noteq> []"
  shows "parse_uint m ds = (if digits_value ds \<le> m then Some (digits_value ds) else None)"
proof -
  have "hd ds \<noteq> CHR ''+''" using assms by (cases ds) (auto simp: is_ascii_digit_def)
  then show ?thesis using assms by (cases ds) (simp_all add: parse_uint_def)
qed

lemma parse_show: "n \<le> m \<Longrightarrow> parse_uint m (show_nat n) = Some n"
  by (simp add: parse_uint_digits show_nat_digits digits_value_show)

lemma digit_not_space: "is_ascii_digit c \<Longrightarrow> \<not> is_ascii_whitespace c"
  by (auto simp: is_ascii_digit_def is_ascii_whitespace_def)

lemma str_trim_id:
  assumes "s \<noteq> []" "\<not> is_ascii_whitespace (hd s)" "\<not> is_ascii_whitespace (last s)"
  shows "str_trim s = s"
proof -
  have "dropWhile is_ascii_whitespace s = s" using assms by (cases s) auto
  moreover have "dropWhile is_ascii_whitespace (rev s) = rev s"
    using assms by (cases s rule: rev_cases) auto
  ultimately show ?thesis by (simp add: str_trim_def)
qed

lemma split_once_digits:
  "list_all is_ascii_digit w \<Longrightarrow> split_once (CHR ''.'') (w @ CHR ''.'' # d) = Some (w, d)"
  by (induction w) (auto simp: is_ascii_digit_def)

lemma split_once_none: "list_all is_ascii_digit w \<Longrightarrow> split_once (CHR ''.'') w = None"
  by (induction w) (auto simp: is_ascii_digit_def)

text \<open>The decimals of a fractional amount: at most nine digits that scale back to the rest.\<close>

lemma fraction_text:
  assumes "0 < rest" and "rest < SHELL_UNIT"
  defines "d \<equiv> strip_trailing_zeros (pad_zeros 9 (show_nat rest))"
  shows "d \<noteq> []" and "length d \<le> 9" and "list_all is_ascii_digit d"
    and "digits_value d * 10 ^ (9 - length d) = rest"
proof -
  let ?p = "pad_zeros 9 (show_nat rest)"
  have len: "length (show_nat rest) \<le> 9"
    by (rule show_nat_length) (use assms in \<open>simp_all add: SHELL_UNIT_def\<close>)
  then have plen: "length ?p = 9" by (simp add: pad_zeros_def)
  have pval: "digits_value ?p = rest"
    by (simp add: pad_zeros_def digits_value_zeros digits_value_show)
  have split: "?p = d @ replicate (9 - length d) (CHR ''0'')"
    using strip_trailing_zeros_append [of ?p] by (simp add: plen d_def)
  show val: "digits_value d * 10 ^ (9 - length d) = rest"
    using pval split digits_value_append_zeros [of d "9 - length d"] by simp
  show "length d \<le> 9"
    using arg_cong [OF split, of length] plen by simp
  show "d \<noteq> []" using val \<open>0 < rest\<close> by (cases d) auto
  have "list_all is_ascii_digit ?p"
    using show_nat_digits [of rest] by (auto simp: pad_zeros_def list_all_iff)
  then show "list_all is_ascii_digit d"
    using strip_trailing_zeros_subset [of ?p] by (auto simp: d_def list_all_iff)
qed

lemma no_plus: "list_all is_ascii_digit s \<Longrightarrow> CHR ''+'' \<notin> set s"
  by (auto simp: list_all_iff is_ascii_digit_def)

lemma digits_edges:
  assumes "list_all is_ascii_digit s" and "s \<noteq> []"
  shows "\<not> is_ascii_whitespace (hd s)" and "\<not> is_ascii_whitespace (last s)"
  using assms by (auto simp: list_all_iff intro!: digit_not_space)

lemma str_trim_digits: "list_all is_ascii_digit s \<Longrightarrow> s \<noteq> [] \<Longrightarrow> str_trim s = s"
  by (simp add: str_trim_id digits_edges)

lemma shell_amount_raw_whole:
  assumes "w * SHELL_UNIT \<le> u128_max"
  shows "shell_amount_raw (show_nat w) = Inr (w * SHELL_UNIT)"
proof -
  have "w \<le> u128_max"
    using assms by (simp add: SHELL_UNIT_def)
  then show ?thesis
    using assms
    by (simp add: shell_amount_raw_def str_trim_digits show_nat_digits split_once_none no_plus
        parse_show checked_mul_def checked_add_def)
qed

lemma shell_amount_raw_fraction:
  assumes d: "d \<noteq> []" "length d \<le> 9" "list_all is_ascii_digit d"
    and fits: "w * SHELL_UNIT + digits_value d * 10 ^ (9 - length d) \<le> u128_max"
  shows "shell_amount_raw (show_nat w @ CHR ''.'' # d) =
         Inr (w * SHELL_UNIT + digits_value d * 10 ^ (9 - length d))"
proof -
  let ?t = "show_nat w @ CHR ''.'' # d"
  have w: "w \<le> u128_max"
    using fits by (simp add: SHELL_UNIT_def)
  have "digits_value d * 1 \<le> digits_value d * 10 ^ (9 - length d)"
    by (intro mult_le_mono2) simp
  then have dv: "digits_value d \<le> u128_max" using fits by linarith
  have "str_trim ?t = ?t"
    using d digits_edges [OF show_nat_digits show_nat_nonempty] digits_edges [of d]
    by (intro str_trim_id) simp_all
  moreover have "CHR ''+'' \<notin> set ?t"
    using d no_plus [of d] no_plus [OF show_nat_digits] by simp
  ultimately show ?thesis
    using d fits w dv
    by (simp add: shell_amount_raw_def Let_def split_once_digits show_nat_digits digits_value_show
        parse_uint_digits checked_mul_def checked_add_def)
qed

text \<open>
  Claim C36: every amount the client prints parses back to exactly the same raw figure, for the
  whole range of a \<open>u128\<close>.
\<close>

theorem shell_amount_round_trip:
  assumes "raw \<le> u128_max"
  shows "shell_amount_raw (shell_amount raw) = Inr raw"
proof -
  let ?w = "raw div SHELL_UNIT" and ?r = "raw mod SHELL_UNIT"
  have raw: "?w * SHELL_UNIT + ?r = raw" by simp
  show ?thesis
  proof (cases "?r = 0")
    case True
    then show ?thesis
      using raw assms by (simp add: shell_amount_def shell_amount_raw_whole)
  next
    case False
    then have "0 < ?r" "?r < SHELL_UNIT" by (simp_all add: SHELL_UNIT_def)
    note frac = fraction_text [OF this]
    then show ?thesis
      using False raw assms shell_amount_raw_fraction [OF frac(1-3), of ?w]
      by (simp add: shell_amount_def Let_def)
  qed
qed

theorem shell_amount_round_trip_witness:
  "shell_amount_raw (shell_amount 6150000000) = Inr 6150000000"
  by (rule shell_amount_round_trip) (simp add: u128_max_def)

text \<open>
  The parser accepts a lone decimal point as the amount zero, although its contract
  refuses a value that is not a decimal number.
\<close>

theorem shell_amount_raw_lone_point: "shell_amount_raw ''.'' = Inr 0"
  by (simp add: shell_amount_raw_def str_trim_def is_ascii_whitespace_def checked_mul_def
      checked_add_def)

end
