(* ===== verification/Escrow.thy ===== *)
theory Escrow
  imports MarketTypes "HOL-Library.Multiset"
begin

text \<open>
  Buyer money before a deal: the escrow, reserve and quote half of
  \<open>crates/core/src/market/accounting.rs\<close>.  Error messages are enumeration values.
\<close>

section \<open>Reserves\<close>

definition checked_required_escrow_for_buy :: "nat \<Rightarrow> nat \<Rightarrow> nat option" where
  "checked_required_escrow_for_buy ticks max_price_per_tick =
     Option.bind (checked_mul u128_max max_price_per_tick PLATFORM_FEE_BPS) (\<lambda>prod.
     let fee = prod div 10000 in
     Option.bind (checked_add u128_max max_price_per_tick fee) (\<lambda>unit.
     checked_mul u128_max ticks unit))"

definition required_escrow_for_buy :: "nat \<Rightarrow> nat \<Rightarrow> nat" where
  "required_escrow_for_buy ticks max_price_per_tick =
     (case checked_required_escrow_for_buy ticks max_price_per_tick of
        Some e \<Rightarrow> e | None \<Rightarrow> u128_max)"

record subscription_buy_reserve_t =
  br_deposit :: nat
  br_buyer_bond :: nat
  br_total_escrow :: nat

datatype reserve_error =
    DepositOverflow
  | BondOverflow
  | TotalOverflow
  | Underfunded
  | Overfunded
  | ClearingAboveLimit
  | ClearingRefundUnderflow

definition subscription_buy_reserve ::
    "nat \<Rightarrow> nat \<Rightarrow> (subscription_buy_reserve_t, reserve_error) result" where
  "subscription_buy_reserve ticks price_per_tick =
     and_then (ok_or (checked_required_escrow_for_buy ticks price_per_tick) DepositOverflow) (\<lambda>deposit.
     and_then (ok_or (checked_mul u128_max price_per_tick SUBSCRIPTION_BUYER_BOND_TICKS) BondOverflow) (\<lambda>buyer_bond.
     and_then (ok_or (checked_add u128_max deposit buyer_bond) TotalOverflow) (\<lambda>total_escrow.
     Inr \<lparr>br_deposit = deposit, br_buyer_bond = buyer_bond, br_total_escrow = total_escrow\<rparr>)))"

definition ordinary_buy_reserve ::
    "nat \<Rightarrow> nat \<Rightarrow> (subscription_buy_reserve_t, reserve_error) result" where
  "ordinary_buy_reserve ticks max_price_per_tick = subscription_buy_reserve ticks max_price_per_tick"

definition check_subscription_buy_reserve ::
    "nat \<Rightarrow> nat \<Rightarrow> nat \<Rightarrow> (subscription_buy_reserve_t, reserve_error) result" where
  "check_subscription_buy_reserve escrow ticks max_price_per_tick =
     and_then (subscription_buy_reserve ticks max_price_per_tick) (\<lambda>required.
     if escrow < br_total_escrow required then Inl Underfunded
     else if escrow > br_total_escrow required then Inl Overfunded
     else Inr required)"

definition subscription_buy_clearing_refund ::
    "nat \<Rightarrow> nat \<Rightarrow> nat \<Rightarrow> (nat, reserve_error) result" where
  "subscription_buy_clearing_refund ticks limit_price_per_tick clearing_price_per_tick =
     (if clearing_price_per_tick > limit_price_per_tick then Inl ClearingAboveLimit
      else and_then (subscription_buy_reserve ticks limit_price_per_tick) (\<lambda>reserved.
           and_then (subscription_buy_reserve ticks clearing_price_per_tick) (\<lambda>forwarded.
           ok_or (checked_sub (br_total_escrow reserved) (br_total_escrow forwarded))
             ClearingRefundUnderflow)))"

definition check_buy_deposit_headroom :: "nat \<Rightarrow> nat \<Rightarrow> nat \<Rightarrow> (unit, reserve_error) result" where
  "check_buy_deposit_headroom escrow ticks max_price_per_tick =
     and_then (ok_or (checked_required_escrow_for_buy ticks max_price_per_tick) DepositOverflow) (\<lambda>required.
     if escrow < required then Inl Underfunded
     else if escrow > required then Inl Overfunded
     else Inr ())"


section \<open>Coalescing resting asks\<close>

definition equivalent_resting_ask :: "order_book_order \<Rightarrow> order_book_order \<Rightarrow> bool" where
  "equivalent_resting_ask a b \<longleftrightarrow>
     ob_owner_note a = ob_owner_note b \<and> ob_price_per_tick a = ob_price_per_tick b
     \<and> ob_ticks a = ob_ticks b \<and> ob_escrow a = ob_escrow b
     \<and> ob_deadline a = ob_deadline b \<and> ob_flags a = ob_flags b"

datatype quote_error = ExactlyOneSelector | ConflictingDuplicates

text \<open>The key of the \<open>BTreeMap\<close> that groups the rows of one deal contract.\<close>

definition ask_key :: "order_book_order \<Rightarrow> string" where
  "ask_key o1 = (case ob_token_contract o1 of Some tc \<Rightarrow> to_ascii_lowercase tc | None \<Rightarrow> [])"

definition ask_group :: "order_book_order list \<Rightarrow> string \<Rightarrow> order_book_order list" where
  "ask_group asks k = sort_key ob_order_id (filter (\<lambda>o1. ask_key o1 = k) asks)"

definition coalesce_group ::
    "order_book_order list \<Rightarrow> (order_book_order, quote_error) result" where
  "coalesce_group grp =
     (let representative = hd grp
      in if list_all (equivalent_resting_ask representative) (tl grp)
         then Inr representative else Inl ConflictingDuplicates)"

fun coalesce_groups ::
    "order_book_order list \<Rightarrow> string list \<Rightarrow> (order_book_order list, quote_error) result" where
  "coalesce_groups asks [] = Inr []"
| "coalesce_groups asks (k # ks) =
     and_then (coalesce_group (ask_group asks k)) (\<lambda>r.
     and_then (coalesce_groups asks ks) (\<lambda>rs. Inr (r # rs)))"

definition coalesce_equivalent_resting_asks ::
    "order_book_order list \<Rightarrow> (order_book_order list, quote_error) result" where
  "coalesce_equivalent_resting_asks orders =
     (let asks = filter is_resting_ask orders;
          keys = sort (remdups (map ask_key asks))
      in and_then (coalesce_groups asks keys) (\<lambda>coalesced.
         Inr (sort_key ob_price_per_tick (sort_key ob_order_id coalesced))))"


section \<open>Executable quotes\<close>

text \<open>The loop of \<open>executable_quote\<close>: remaining ticks and budget, then the running result.\<close>

fun quote_loop ::
    "order_book_order list \<Rightarrow> nat \<Rightarrow> nat \<Rightarrow> nat \<Rightarrow> nat \<Rightarrow> quote_fill list
     \<Rightarrow> nat \<times> nat \<times> quote_fill list" where
  "quote_loop [] rem_ticks rem_budget filled total_c fills = (filled, total_c, fills)"
| "quote_loop (ask # asks) rem_ticks rem_budget filled total_c fills =
     (if rem_ticks = 0 \<or> rem_budget = 0 then (filled, total_c, fills)
      else let unit = required_escrow_for_buy 1 (ob_price_per_tick ask) in
           if unit = 0 \<or> unit = u128_max
           then quote_loop asks rem_ticks rem_budget filled total_c fills
           else let by_budget = rem_budget div unit;
                    fill_ticks = min (min (ob_ticks ask) rem_ticks) by_budget in
                if fill_ticks = 0 then (filled, total_c, fills)
                else let cost = required_escrow_for_buy fill_ticks (ob_price_per_tick ask) in
                     case ob_token_contract ask of
                       None \<Rightarrow> quote_loop asks rem_ticks rem_budget filled total_c fills
                     | Some tc \<Rightarrow>
                         quote_loop asks (saturating_sub rem_ticks fill_ticks)
                           (saturating_sub rem_budget cost)
                           (saturating_add u128_max filled fill_ticks)
                           (saturating_add u128_max total_c cost)
                           (fills @ [\<lparr>qf_order_id = ob_order_id ask, qf_token_contract = tc,
                                      qf_ticks = fill_ticks,
                                      qf_price_per_tick = ob_price_per_tick ask,
                                      qf_cost_with_fee = cost\<rparr>]))"

definition executable_quote ::
    "order_book_order list \<Rightarrow> nat option \<Rightarrow> nat option \<Rightarrow> (executable_quote_t, quote_error) result" where
  "executable_quote asks wanted_ticks budget =
     (if (wanted_ticks \<noteq> None) = (budget \<noteq> None) then Inl ExactlyOneSelector
      else and_then (coalesce_equivalent_resting_asks asks) (\<lambda>coalesced.
        let (filled, total_c, fills) =
              quote_loop coalesced
                (case wanted_ticks of Some n \<Rightarrow> n | None \<Rightarrow> u128_max)
                (case budget of Some b \<Rightarrow> b | None \<Rightarrow> u128_max) 0 0 [];
            complete = (case wanted_ticks of Some want \<Rightarrow> filled \<ge> want | None \<Rightarrow> filled > 0)
        in Inr \<lparr>eq_filled_ticks = filled, eq_total_with_fee = total_c, eq_complete = complete,
                eq_fills = fills\<rparr>))"

definition submit_safe_single_ask_quote ::
    "order_book_order list \<Rightarrow> nat option \<Rightarrow> nat option \<Rightarrow> (executable_quote_t, quote_error) result" where
  "submit_safe_single_ask_quote asks wanted_ticks budget = executable_quote asks wanted_ticks budget"


section \<open>Exact escrow arithmetic\<close>

text \<open>The book's price of one tick, fee included, and of a volume.\<close>

definition tick_unit :: "nat \<Rightarrow> nat" where
  "tick_unit p = p + p * PLATFORM_FEE_BPS div 10000"

lemma checked_required_escrow_Some:
  "checked_required_escrow_for_buy ticks p = Some e \<longleftrightarrow>
     p * PLATFORM_FEE_BPS \<le> u128_max \<and> tick_unit p \<le> u128_max
     \<and> ticks * tick_unit p \<le> u128_max \<and> e = ticks * tick_unit p"
  by (auto simp: checked_required_escrow_for_buy_def tick_unit_def Let_def bind_eq_Some_conv
      checked_simps)

text \<open>For a positive number of ticks the bound on the fee product decides the intermediate sums.\<close>

lemma required_escrow_exact:
  "checked_required_escrow_for_buy ticks p = Some e \<Longrightarrow> required_escrow_for_buy ticks p = ticks * tick_unit p"
  using checked_required_escrow_Some [of ticks p e] by (simp add: required_escrow_for_buy_def)

lemma required_escrow_unit:
  "required_escrow_for_buy 1 p \<noteq> u128_max \<Longrightarrow>
     required_escrow_for_buy 1 p = tick_unit p \<and> p * PLATFORM_FEE_BPS \<le> u128_max \<and> tick_unit p \<le> u128_max"
  by (auto simp: required_escrow_for_buy_def checked_required_escrow_Some split: option.splits)

lemma required_escrow_volume:
  "p * PLATFORM_FEE_BPS \<le> u128_max \<Longrightarrow> tick_unit p \<le> u128_max \<Longrightarrow> n * tick_unit p \<le> u128_max
     \<Longrightarrow> required_escrow_for_buy n p = n * tick_unit p"
  using checked_required_escrow_Some [of n p "n * tick_unit p"]
  by (simp add: required_escrow_for_buy_def)

lemma tick_unit_mono: "p \<le> q \<Longrightarrow> tick_unit p \<le> tick_unit q"
  by (simp add: tick_unit_def add_mono div_le_mono)

lemma subscription_buy_reserve_Inr:
  "subscription_buy_reserve n p = Inr r \<longleftrightarrow>
     p * PLATFORM_FEE_BPS \<le> u128_max \<and> tick_unit p \<le> u128_max \<and> p * 2 \<le> u128_max
     \<and> n * tick_unit p + p * 2 \<le> u128_max
     \<and> r = \<lparr>br_deposit = n * tick_unit p, br_buyer_bond = p * 2,
            br_total_escrow = n * tick_unit p + p * 2\<rparr>"
  by (auto simp: subscription_buy_reserve_def result_simps checked_required_escrow_Some
      checked_simps SUBSCRIPTION_BUYER_BOND_TICKS_def)

text \<open>
  The deposit preflight accepts an escrow if and only if no step of the fee
  arithmetic leaves \<open>u128\<close> and the escrow is exactly ticks times the fee-inclusive tick price;
  a shortage, a surplus and any overflow are refused.
\<close>

theorem deposit_headroom_exact:
  "check_buy_deposit_headroom escrow ticks p = Inr () \<longleftrightarrow>
     p * PLATFORM_FEE_BPS \<le> u128_max \<and> tick_unit p \<le> u128_max
     \<and> ticks * tick_unit p \<le> u128_max \<and> escrow = ticks * (p + p * PLATFORM_FEE_BPS div 10000)"
  by (auto simp: check_buy_deposit_headroom_def result_simps checked_required_escrow_Some
      tick_unit_def)

text \<open>
  Whenever a subscription reserve at the limit price is representable and the deal
  clears at or below that limit, the refund computation succeeds (it cannot underflow), and the
  refund together with what is forwarded at the clearing price is exactly what was reserved.
\<close>

theorem clearing_refund_conserves:
  assumes "subscription_buy_reserve ticks limit = Inr reserved" and "clearing \<le> limit"
  shows "\<exists>forwarded refund.
           subscription_buy_reserve ticks clearing = Inr forwarded
           \<and> subscription_buy_clearing_refund ticks limit clearing = Inr refund
           \<and> br_total_escrow forwarded + refund = br_total_escrow reserved"
proof -
  let ?fwd = "ticks * tick_unit clearing + clearing * 2"
  have u: "tick_unit clearing \<le> tick_unit limit" using assms(2) by (rule tick_unit_mono)
  then have m: "ticks * tick_unit clearing \<le> ticks * tick_unit limit" by simp
  have l: "limit * PLATFORM_FEE_BPS \<le> u128_max" "tick_unit limit \<le> u128_max"
    "ticks * tick_unit limit + limit * 2 \<le> u128_max"
    "reserved = \<lparr>br_deposit = ticks * tick_unit limit, br_buyer_bond = limit * 2,
       br_total_escrow = ticks * tick_unit limit + limit * 2\<rparr>"
    using assms(1) by (auto simp: subscription_buy_reserve_Inr)
  have "clearing * PLATFORM_FEE_BPS \<le> limit * PLATFORM_FEE_BPS"
    using assms(2) by (rule mult_le_mono1)
  then have fwd: "subscription_buy_reserve ticks clearing =
      Inr \<lparr>br_deposit = ticks * tick_unit clearing, br_buyer_bond = clearing * 2,
           br_total_escrow = ?fwd\<rparr>"
    using l(1-3) u m assms(2) unfolding subscription_buy_reserve_Inr
    by (intro conjI refl) linarith+
  have "?fwd \<le> ticks * tick_unit limit + limit * 2"
    using m assms(2) by (intro add_mono mult_le_mono1)
  then have "?fwd \<le> br_total_escrow reserved" using l(4) by simp
  then show ?thesis
    using assms fwd by (simp add: subscription_buy_clearing_refund_def checked_sub_def)
qed

theorem clearing_refund_conserves_witness:
  "\<exists>forwarded refund.
     subscription_buy_reserve 4 2000000000 = Inr forwarded
     \<and> subscription_buy_clearing_refund 4 3000000000 2000000000 = Inr refund
     \<and> br_total_escrow forwarded + refund = 18300000000"
  using clearing_refund_conserves [of 4 3000000000
      "\<lparr>br_deposit = 12300000000, br_buyer_bond = 6000000000, br_total_escrow = 18300000000\<rparr>"
      2000000000]
  by (simp add: subscription_buy_reserve_Inr tick_unit_def PLATFORM_FEE_BPS_def u128_max_def)

section \<open>Quotes\<close>

text \<open>What one fill of a quote is worth: its own ticks at its own fee-inclusive price.\<close>

definition fill_exact :: "quote_fill \<Rightarrow> bool" where
  "fill_exact f \<longleftrightarrow> 0 < qf_ticks f \<and> qf_cost_with_fee f = qf_ticks f * tick_unit (qf_price_per_tick f)"

definition fill_of_ask :: "order_book_order \<Rightarrow> quote_fill \<Rightarrow> bool" where
  "fill_of_ask a f \<longleftrightarrow>
     qf_order_id f = ob_order_id a \<and> Some (qf_token_contract f) = ob_token_contract a
     \<and> qf_ticks f \<le> ob_ticks a \<and> qf_price_per_tick f = ob_price_per_tick a"

text \<open>
  The fills without the running sums: what remains of the request and of the budget is all the
  loop has to carry.
\<close>

definition ask_fill_ticks :: "order_book_order \<Rightarrow> nat \<Rightarrow> nat \<Rightarrow> nat" where
  "ask_fill_ticks ask rt rb = min (min (ob_ticks ask) rt) (rb div required_escrow_for_buy 1 (ob_price_per_tick ask))"

definition ask_priced :: "order_book_order \<Rightarrow> bool" where
  "ask_priced ask \<longleftrightarrow> required_escrow_for_buy 1 (ob_price_per_tick ask) \<notin> {0, u128_max}"

definition ask_fill :: "order_book_order \<Rightarrow> string \<Rightarrow> nat \<Rightarrow> quote_fill" where
  "ask_fill ask tc n =
     \<lparr>qf_order_id = ob_order_id ask, qf_token_contract = tc, qf_ticks = n,
      qf_price_per_tick = ob_price_per_tick ask,
      qf_cost_with_fee = n * tick_unit (ob_price_per_tick ask)\<rparr>"

fun quote_fills :: "order_book_order list \<Rightarrow> nat \<Rightarrow> nat \<Rightarrow> quote_fill list" where
  "quote_fills [] rt rb = []"
| "quote_fills (ask # asks) rt rb =
     (if rt = 0 \<or> rb = 0 then []
      else if \<not> ask_priced ask then quote_fills asks rt rb
      else let n = ask_fill_ticks ask rt rb in
           if n = 0 then []
           else case ob_token_contract ask of
                  None \<Rightarrow> quote_fills asks rt rb
                | Some tc \<Rightarrow> ask_fill ask tc n #
                    quote_fills asks (rt - n) (rb - n * tick_unit (ob_price_per_tick ask)))"

lemma ask_fill_cost:
  fixes ask :: order_book_order and rt rb :: nat
  assumes "ask_priced ask"
  defines "n \<equiv> ask_fill_ticks ask rt rb" and "p \<equiv> ob_price_per_tick ask"
  shows "n * tick_unit p \<le> rb" and "rb \<le> u128_max \<Longrightarrow> required_escrow_for_buy n p = n * tick_unit p"
proof -
  have u: "required_escrow_for_buy 1 p = tick_unit p" "p * PLATFORM_FEE_BPS \<le> u128_max"
    "tick_unit p \<le> u128_max"
    using required_escrow_unit [of p] assms(1) by (simp_all add: ask_priced_def p_def)
  have "n * tick_unit p \<le> (rb div tick_unit p) * tick_unit p"
    unfolding n_def ask_fill_ticks_def using u(1) by (intro mult_le_mono1) (simp add: p_def)
  also have "\<dots> \<le> rb" by simp
  finally show le: "n * tick_unit p \<le> rb" .
  show "required_escrow_for_buy n p = n * tick_unit p" if "rb \<le> u128_max"
    using le that u by (intro required_escrow_volume) linarith+
qed

lemma ask_fill_ticks_le: "ask_fill_ticks ask rt rb \<le> rt" "ask_fill_ticks ask rt rb \<le> ob_ticks ask"
  by (simp_all add: ask_fill_ticks_def)

text \<open>
  The loop invariant: what is filled and what remains stay within the request, what is spent and
  what remains within the budget, so no saturating operation ever saturates.
\<close>

lemma quote_loop_eq:
  assumes "filled + rt \<le> u128_max" and "spent + rb \<le> u128_max"
  shows "quote_loop asks rt rb filled spent fills =
     (filled + sum_list (map qf_ticks (quote_fills asks rt rb)),
      spent + sum_list (map qf_cost_with_fee (quote_fills asks rt rb)),
      fills @ quote_fills asks rt rb)"
  using assms
proof (induction asks arbitrary: rt rb filled spent fills)
  case (Cons ask asks)
  define n where "n = ask_fill_ticks ask rt rb"
  define c where "c = n * tick_unit (ob_price_per_tick ask)"
  have n: "n \<le> rt" by (simp add: n_def ask_fill_ticks_le)
  have c: "ask_priced ask \<Longrightarrow> c \<le> rb"
    "ask_priced ask \<Longrightarrow> required_escrow_for_buy n (ob_price_per_tick ask) = c"
    using ask_fill_cost [where ask = ask and rt = rt and rb = rb] Cons.prems by (simp_all add: c_def n_def)
  have n_eq: "min (min (ob_ticks ask) rt)
      (rb div required_escrow_for_buy (Suc 0) (ob_price_per_tick ask)) = n"
    by (simp add: n_def ask_fill_ticks_def)
  have unfold: "quote_loop (ask # asks) rt rb filled spent fills =
      (if rt = 0 \<or> rb = 0 then (filled, spent, fills)
       else if \<not> ask_priced ask then quote_loop asks rt rb filled spent fills
       else if n = 0 then (filled, spent, fills)
       else case ob_token_contract ask of
              None \<Rightarrow> quote_loop asks rt rb filled spent fills
            | Some tc \<Rightarrow> quote_loop asks (rt - n) (rb - c) (filled + n) (spent + c)
                (fills @ [ask_fill ask tc n]))"
    using n c Cons.prems
    by (auto simp: Let_def ask_priced_def ask_fill_def saturating_add_exact n_eq c_def
        split: option.splits)
  have rec: "ask_priced ask \<Longrightarrow> quote_loop asks (rt - n) (rb - c) (filled + n) (spent + c) fs =
     (filled + n + sum_list (map qf_ticks (quote_fills asks (rt - n) (rb - c))),
      spent + c + sum_list (map qf_cost_with_fee (quote_fills asks (rt - n) (rb - c))),
      fs @ quote_fills asks (rt - n) (rb - c))" for fs
    using n c Cons.prems by (intro Cons.IH) simp_all
  show ?case
    unfolding unfold using rec Cons.IH [OF Cons.prems]
    by (auto simp: Let_def ask_fill_def c_def n_def split: option.splits)
qed simp

lemma quote_fills_within:
  "sum_list (map qf_ticks (quote_fills asks rt rb)) \<le> rt
   \<and> sum_list (map qf_cost_with_fee (quote_fills asks rt rb)) \<le> rb"
proof (induction asks arbitrary: rt rb)
  case (Cons ask asks)
  define n where "n = ask_fill_ticks ask rt rb"
  define c where "c = n * tick_unit (ob_price_per_tick ask)"
  have n: "n \<le> rt" by (simp add: n_def ask_fill_ticks_le)
  have c: "ask_priced ask \<Longrightarrow> c \<le> rb"
    using ask_fill_cost(1) [where ask = ask and rt = rt and rb = rb] by (simp add: c_def n_def)
  show ?case
    using Cons.IH [of rt rb] Cons.IH [of "rt - n" "rb - c"] n c
    by (auto simp: Let_def ask_fill_def n_def c_def split: option.splits)
qed simp

lemma quote_fills_exact: "f \<in> set (quote_fills asks rt rb) \<Longrightarrow> fill_exact f"
  by (induction asks rt rb rule: quote_fills.induct)
    (auto simp: Let_def fill_exact_def ask_fill_def split: if_splits option.splits)

text \<open>Every fill takes part of one ask, and the fills keep the order of the asks.\<close>

lemma quote_fills_of_ask:
  "f \<in> set (quote_fills asks rt rb) \<Longrightarrow> \<exists>a\<in>set asks. fill_of_ask a f"
  by (induction asks rt rb rule: quote_fills.induct)
    (auto simp: Let_def fill_of_ask_def ask_fill_def ask_fill_ticks_le split: if_splits option.splits)

lemma quote_fills_sorted:
  "sorted (map ob_price_per_tick asks) \<Longrightarrow> sorted (map qf_price_per_tick (quote_fills asks rt rb))"
proof (induction asks rt rb rule: quote_fills.induct)
  case (2 ask asks rt rb)
  have "ob_price_per_tick ask \<le> qf_price_per_tick f" if "f \<in> set (quote_fills asks t b)" for f t b
    using quote_fills_of_ask [OF that] 2(4) by (auto simp: fill_of_ask_def)
  then show ?case
    using 2 by (auto simp: Let_def ask_fill_def split: option.splits)
qed simp

definition fill_key :: "quote_fill \<Rightarrow> string" where
  "fill_key f = to_ascii_lowercase (qf_token_contract f)"

lemma quote_fills_distinct:
  "distinct (map ask_key asks) \<Longrightarrow> distinct (map fill_key (quote_fills asks rt rb))"
proof (induction asks rt rb rule: quote_fills.induct)
  case (2 ask asks rt rb)
  have "fill_key f \<in> ask_key ` set asks" if "f \<in> set (quote_fills asks t b)" for f t b
    using quote_fills_of_ask [OF that]
    by (force simp: fill_of_ask_def ask_key_def fill_key_def split: option.splits)
  then have *: "fill_key f \<noteq> ask_key ask" if "f \<in> set (quote_fills asks t b)" for f t b
    using that 2(4) by (metis distinct.simps(2) image_set list.simps(9))
  have "fill_key (ask_fill ask tc n) = ask_key ask" if "ob_token_contract ask = Some tc" for tc n
    using that by (simp add: fill_key_def ask_key_def ask_fill_def)
  then show ?case
    using 2 * by (force simp: Let_def split: option.splits)
qed simp

text \<open>Coalescing keeps one resting ask per deal contract, in price order.\<close>

lemma ask_group_member: "a \<in> set (ask_group asks k) \<longleftrightarrow> a \<in> set asks \<and> ask_key a = k"
  by (auto simp: ask_group_def)

lemma coalesce_groups_Inr:
  assumes "coalesce_groups asks ks = Inr out" and "set ks \<subseteq> ask_key ` set asks"
  shows "map ask_key out = ks \<and> set out \<subseteq> set asks"
  using assms
proof (induction ks arbitrary: out)
  case (Cons k ks)
  then obtain r rs where out: "out = r # rs" "coalesce_groups asks ks = Inr rs"
      "coalesce_group (ask_group asks k) = Inr r"
    by (auto simp: result_simps)
  have "ask_group asks k \<noteq> []"
    using Cons.prems(2) ask_group_member [of _ asks k] by (metis (no_types, lifting) empty_iff
        empty_set image_iff insert_subset list.simps(15))
  then have "r \<in> set (ask_group asks k)"
    using out(3) by (auto simp: coalesce_group_def Let_def split: if_splits)
  then show ?case
    using Cons.IH [OF out(2)] Cons.prems(2) out(1) by (simp add: ask_group_member)
qed simp

lemma coalesce_Inr:
  assumes "coalesce_equivalent_resting_asks orders = Inr out"
  shows "distinct (map ask_key out)" and "sorted (map ob_price_per_tick out)"
    and "set out \<subseteq> set orders" and "\<forall>a\<in>set out. is_resting_ask a"
proof -
  let ?asks = "filter is_resting_ask orders"
  let ?keys = "sort (remdups (map ask_key ?asks))"
  obtain c where c: "coalesce_groups ?asks ?keys = Inr c"
      and out: "out = sort_key ob_price_per_tick (sort_key ob_order_id c)"
    using assms by (auto simp: coalesce_equivalent_resting_asks_def Let_def result_simps)
  have m: "map ask_key c = ?keys" "set c \<subseteq> set ?asks"
    using coalesce_groups_Inr [OF c] by auto
  have "mset out = mset c" by (simp add: out)
  then have ms: "mset (map ask_key out) = mset (map ask_key c)" by (simp add: mset_map)
  show "distinct (map ask_key out)"
    using mset_eq_imp_distinct_iff [OF ms] m(1) by (simp add: distinct_sort)
  show "sorted (map ob_price_per_tick out)" by (simp add: out)
  show "set out \<subseteq> set orders" "\<forall>a\<in>set out. is_resting_ask a" using m(2) by (auto simp: out)
qed

text \<open>
  Claim C33: a quote promises only what the book holds.  Every fill takes a positive number of
  ticks, no more than offered, from a resting ask of the book at that ask's own price and costs
  exactly its ticks at the fee-inclusive price; no deal contract is used twice; fills come
  cheapest first; the totals are the exact sums of the fills, never saturated; and the request
  is respected, in ticks or in budget.
\<close>

theorem executable_quote_sound:
  assumes "executable_quote book wanted budget = Inr q"
    and "\<forall>w. wanted = Some w \<longrightarrow> w \<le> u128_max" and "\<forall>b. budget = Some b \<longrightarrow> b \<le> u128_max"
  shows "eq_filled_ticks q = sum_list (map qf_ticks (eq_fills q))
    \<and> eq_total_with_fee q = sum_list (map qf_cost_with_fee (eq_fills q))
    \<and> (\<forall>w. wanted = Some w \<longrightarrow> eq_filled_ticks q \<le> w \<and> (eq_complete q \<longleftrightarrow> eq_filled_ticks q = w))
    \<and> (\<forall>b. budget = Some b \<longrightarrow> eq_total_with_fee q \<le> b)
    \<and> sorted (map qf_price_per_tick (eq_fills q)) \<and> distinct (map fill_key (eq_fills q))
    \<and> (\<forall>f\<in>set (eq_fills q). fill_exact f
          \<and> (\<exists>a\<in>set book. is_resting_ask a \<and> fill_of_ask a f))"
proof -
  let ?w = "case wanted of Some n \<Rightarrow> n | None \<Rightarrow> u128_max"
  let ?b = "case budget of Some b \<Rightarrow> b | None \<Rightarrow> u128_max"
  obtain asks where asks: "coalesce_equivalent_resting_asks book = Inr asks"
    using assms(1) by (auto simp: executable_quote_def result_simps split: if_splits)
  define fills where "fills = quote_fills asks ?w ?b"
  have "quote_loop asks ?w ?b 0 0 [] =
      (sum_list (map qf_ticks fills), sum_list (map qf_cost_with_fee fills), fills)"
    using quote_loop_eq [of 0 ?w 0 ?b asks "[]"] assms(2,3) by (auto simp: fills_def split: option.splits)
  then have q: "q = \<lparr>eq_filled_ticks = sum_list (map qf_ticks fills),
      eq_total_with_fee = sum_list (map qf_cost_with_fee fills),
      eq_complete = (case wanted of Some want \<Rightarrow> sum_list (map qf_ticks fills) \<ge> want
                     | None \<Rightarrow> sum_list (map qf_ticks fills) > 0), eq_fills = fills\<rparr>"
    using assms(1) asks by (simp add: executable_quote_def split: if_splits)
  have within: "sum_list (map qf_ticks fills) \<le> ?w" "sum_list (map qf_cost_with_fee fills) \<le> ?b"
    unfolding fills_def using quote_fills_within by blast+
  have "\<forall>f\<in>set fills. fill_exact f \<and> (\<exists>a\<in>set book. is_resting_ask a \<and> fill_of_ask a f)"
    using quote_fills_exact quote_fills_of_ask coalesce_Inr(3,4) [OF asks]
    unfolding fills_def by (meson subsetD)
  moreover have "sorted (map qf_price_per_tick fills)" "distinct (map fill_key fills)"
    unfolding fills_def using coalesce_Inr(1,2) [OF asks] quote_fills_sorted quote_fills_distinct
    by blast+
  ultimately show ?thesis using within by (auto simp: q)
qed

theorem executable_quote_sound_witness:
  "let a = \<lparr>ob_order_id = 7, ob_owner_note = ''n'', ob_token_contract = Some ''0:ab'',
            ob_is_buy = False, ob_price_per_tick = 1000, ob_ticks = 5, ob_escrow = 0,
            ob_deadline = 100, ob_flags = 0, ob_timestamp = 0\<rparr>;
       q = \<lparr>eq_filled_ticks = 3, eq_total_with_fee = 3075, eq_complete = True,
            eq_fills = [\<lparr>qf_order_id = 7, qf_token_contract = ''0:ab'', qf_ticks = 3,
                         qf_price_per_tick = 1000, qf_cost_with_fee = 3075\<rparr>]\<rparr>
   in executable_quote [a] (Some 3) None = Inr q
      \<and> (\<forall>f\<in>set (eq_fills q). fill_exact f \<and> (\<exists>a'\<in>set [a]. is_resting_ask a' \<and> fill_of_ask a' f))"
proof -
  define a where "a = \<lparr>ob_order_id = 7, ob_owner_note = ''n'', ob_token_contract = Some ''0:ab'',
            ob_is_buy = False, ob_price_per_tick = 1000, ob_ticks = 5, ob_escrow = 0,
            ob_deadline = 100, ob_flags = 0, ob_timestamp = 0\<rparr>"
  define q where "q = \<lparr>eq_filled_ticks = 3, eq_total_with_fee = 3075, eq_complete = True,
            eq_fills = [\<lparr>qf_order_id = 7, qf_token_contract = ''0:ab'', qf_ticks = 3,
                         qf_price_per_tick = 1000, qf_cost_with_fee = 3075\<rparr>]\<rparr>"
  have unit: "required_escrow_for_buy n 1000 = n * 1025" if "n \<le> 1000000" for n
    using that required_escrow_volume [of 1000 n]
    by (simp add: tick_unit_def PLATFORM_FEE_BPS_def u128_max_def)
  have "executable_quote [a] (Some 3) None = Inr q"
    by (simp add: executable_quote_def coalesce_equivalent_resting_asks_def is_resting_ask_def
        ask_group_def ask_key_def coalesce_group_def unit a_def q_def u128_max_def
        saturating_add_def)
  moreover from this have "\<forall>f\<in>set (eq_fills q). fill_exact f
      \<and> (\<exists>a'\<in>set [a]. is_resting_ask a' \<and> fill_of_ask a' f)"
    using executable_quote_sound [of "[a]" "Some 3" None q] by (simp add: u128_max_def)
  ultimately show ?thesis unfolding Let_def a_def q_def by blast
qed

end
