(* ===== verification/Monitor.thy ===== *)
theory Monitor
  imports Escrow
begin

text \<open>
  The accounting view of the monitor: note and tree snapshots, the per-model breakdown and the
  anomaly report of \<open>crates/core/src/market/accounting.rs\<close>, on the view types of
  \<open>crates/core/src/market/types.rs\<close>.  All sums saturate at \<open>u64\<close>, as in the source.
\<close>

section \<open>Views\<close>

datatype deal_role = BuyerRole | SellerRole

record deal_view =
  dv_token_contract :: token_contract
  dv_role :: deal_role
  dv_counterparty :: "string option"
  dv_price_per_tick :: nat
  dv_model :: "string option"
  dv_snapshot :: "stream_snapshot option"

record note_snapshot_t =
  ns_note_id :: string
  ns_offers :: "offer_listing list"
  ns_deals :: "deal_view list"
  ns_exposure :: nat

record tree_snapshot =
  ts_note_ids :: "string list"
  ts_offers :: "offer_listing list"
  ts_deals :: "deal_view list"
  ts_exposure :: nat

definition UNKNOWN_MODEL :: string where "UNKNOWN_MODEL = ''(unknown)''"

record figures =
  fg_tokens :: nat
  fg_money :: nat
  fg_locked :: nat
  fg_burned :: nat

record counterparty_tally = figures +
  ct_counterparty :: "string option"

record model_breakdown = figures +
  mb_model :: string
  mb_role :: deal_role
  mb_counterparties :: "counterparty_tally list"

datatype deal_anomaly =
    LockedNoMatch (locked: nat)
  | LockedAfterClose (locked: nat)
  | BuyerLockExceedsTwoTicks (buyer_lead: nat) (ceiling: nat)


section \<open>Aggregation\<close>

definition aggregate_tree :: "note_snapshot_t list \<Rightarrow> tree_snapshot" where
  "aggregate_tree snaps =
     foldl (\<lambda>t s. \<lparr>ts_note_ids = ts_note_ids t @ [ns_note_id s], ts_offers = ts_offers t @ ns_offers s,
                    ts_deals = ts_deals t @ ns_deals s,
                    ts_exposure = saturating_add u64_max (ts_exposure t) (ns_exposure s)\<rparr>)
       \<lparr>ts_note_ids = [], ts_offers = [], ts_deals = [], ts_exposure = 0\<rparr> snaps"

definition view_finalized_ticks :: "stream_snapshot option \<Rightarrow> nat" where
  "view_finalized_ticks sn =
     (case sn of
        None \<Rightarrow> 0
      | Some s \<Rightarrow> (case try_from u64_max (ss_tokens_final s div TICK_SIZE) of Some n \<Rightarrow> n | None \<Rightarrow> u64_max))"

definition summary_shell :: "nat \<Rightarrow> nat" where
  "summary_shell amount = (case try_from u64_max amount of Some n \<Rightarrow> n | None \<Rightarrow> u64_max)"

text \<open>The four figures one deal contributes to its role's view.\<close>

definition deal_figures :: "deal_role \<Rightarrow> deal_view \<Rightarrow> figures" where
  "deal_figures role d =
     (case dv_snapshot d of
        Some s \<Rightarrow>
          \<lparr>fg_tokens = view_finalized_ticks (dv_snapshot d),
           fg_money = summary_shell (ss_seller_received s),
           fg_locked = summary_shell (case role of SellerRole \<Rightarrow> ss_seller_locked s
                                      | BuyerRole \<Rightarrow> ss_buyer_locked s),
           fg_burned = summary_shell (ss_burned s)\<rparr>
      | None \<Rightarrow> \<lparr>fg_tokens = 0, fg_money = 0, fg_locked = 0, fg_burned = 0\<rparr>)"

text \<open>The saturating update shared by a model's roll-up and a counterparty's tally.\<close>

definition add_figures :: "figures \<Rightarrow> 'a figures_scheme \<Rightarrow> 'a figures_scheme" where
  "add_figures f x =
     x\<lparr>fg_tokens := saturating_add u64_max (fg_tokens x) (fg_tokens f),
       fg_money := saturating_add u64_max (fg_money x) (fg_money f),
       fg_locked := saturating_add u64_max (fg_locked x) (fg_locked f),
       fg_burned := saturating_add u64_max (fg_burned x) (fg_burned f)\<rparr>"

text \<open>
  \<open>position\<close> and the \<open>push\<close> of a fresh entry, then the update of the entry found: the first
  entry with the key, or a new last one.
\<close>

fun upsert :: "('a \<Rightarrow> bool) \<Rightarrow> 'a \<Rightarrow> ('a \<Rightarrow> 'a) \<Rightarrow> 'a list \<Rightarrow> 'a list" where
  "upsert p fresh f [] = [f fresh]"
| "upsert p fresh f (x # xs) = (if p x then f x # xs else x # upsert p fresh f xs)"

definition fresh_tally :: "string option \<Rightarrow> counterparty_tally" where
  "fresh_tally who =
     \<lparr>fg_tokens = 0, fg_money = 0, fg_locked = 0, fg_burned = 0, ct_counterparty = who\<rparr>"

definition fresh_breakdown :: "string \<Rightarrow> deal_role \<Rightarrow> model_breakdown" where
  "fresh_breakdown model role =
     \<lparr>fg_tokens = 0, fg_money = 0, fg_locked = 0, fg_burned = 0, mb_model = model, mb_role = role,
      mb_counterparties = []\<rparr>"

definition deal_model :: "deal_view \<Rightarrow> string" where
  "deal_model d = (case dv_model d of Some m \<Rightarrow> m | None \<Rightarrow> UNKNOWN_MODEL)"

definition add_deal :: "deal_role \<Rightarrow> model_breakdown list \<Rightarrow> deal_view \<Rightarrow> model_breakdown list" where
  "add_deal role models d =
     (let f = deal_figures role d; model_id = deal_model d in
      upsert (\<lambda>m. mb_model m = model_id) (fresh_breakdown model_id role)
        (\<lambda>m. (add_figures f m)\<lparr>mb_counterparties :=
           upsert (\<lambda>t. ct_counterparty t = dv_counterparty d) (fresh_tally (dv_counterparty d))
             (add_figures f) (mb_counterparties m)\<rparr>) models)"

definition per_model_breakdown :: "deal_view list \<Rightarrow> deal_role \<Rightarrow> model_breakdown list" where
  "per_model_breakdown deals role = foldl (add_deal role) [] (filter (\<lambda>d. dv_role d = role) deals)"

definition deal_anomalies :: "deal_view \<Rightarrow> deal_anomaly list" where
  "deal_anomalies d =
     (case dv_snapshot d of
        None \<Rightarrow> []
      | Some snap \<Rightarrow>
          (let lck = summary_shell (saturating_add u128_max (ss_seller_locked snap) (ss_buyer_locked snap)) in
           (if lck > 0 \<and> dv_counterparty d = None then [LockedNoMatch lck] else [])
           @ (if ss_closed snap \<and> lck > 0 then [LockedAfterClose lck] else [])
           @ (if dv_price_per_tick d > 0
              then let ceil = as_width u64_max (min (required_escrow_for_buy 2 (dv_price_per_tick d)) u64_max);
                       lead = summary_shell (ss_buyer_lead snap)
                   in if lead > ceil then [BuyerLockExceedsTwoTicks lead ceil] else []
              else [])))"


section \<open>The breakdown is a partition\<close>

text \<open>
  Both levels of the breakdown are the same construction: entries under distinct keys, in
  first-seen order, each holding the saturated sum of what was added under its key.
\<close>

definition keyed_sum :: "('d \<Rightarrow> 'k) \<Rightarrow> ('d \<Rightarrow> nat) \<Rightarrow> 'k \<Rightarrow> 'd list \<Rightarrow> nat" where
  "keyed_sum key_of w k ds = sum_list (map w (filter (\<lambda>d. key_of d = k) ds))"

definition saturated :: "nat \<Rightarrow> nat" where
  "saturated n = min n u64_max"

lemma saturated_add: "saturating_add u64_max (saturated a) b = saturated (a + b)"
  by (simp add: saturating_add_def saturated_def)

lemma keyed_sum_snoc:
  "keyed_sum key_of w k (ds @ [d]) = keyed_sum key_of w k ds + (if key_of d = k then w d else 0)"
  by (simp add: keyed_sum_def)

lemma keyed_sum_absent: "k \<notin> key_of ` set ds \<Longrightarrow> keyed_sum key_of w k ds = 0"
  by (induction ds) (auto simp: keyed_sum_def)

locale tally =
  fixes key :: "'x \<Rightarrow> 'k" and fresh :: "'k \<Rightarrow> 'x" and key_of :: "'d \<Rightarrow> 'k"
    and bump :: "'d \<Rightarrow> 'x \<Rightarrow> 'x" and figs :: "(('x \<Rightarrow> nat) \<times> ('d \<Rightarrow> nat)) set"
  assumes key_bump: "key (bump d x) = key x" and key_fresh: "key (fresh k) = k"
    and bump_adds: "(val, w) \<in> figs \<Longrightarrow> val (bump d x) = saturating_add u64_max (val x) (w d)"
    and fresh_zero: "(val, w) \<in> figs \<Longrightarrow> val (fresh k) = 0"
begin

definition tallied :: "'d list \<Rightarrow> 'x list \<Rightarrow> bool" where
  "tallied ds xs \<longleftrightarrow>
     distinct (map key xs) \<and> key ` set xs = key_of ` set ds
     \<and> (\<forall>x\<in>set xs. \<forall>(val, w)\<in>figs. val x = saturated (keyed_sum key_of w (key x) ds))"

definition put :: "'d \<Rightarrow> 'x list \<Rightarrow> 'x list" where
  "put d xs = upsert (\<lambda>x. key x = key_of d) (fresh (key_of d)) (bump d) xs"

lemma tallied_Nil: "tallied [] []"
  by (simp add: tallied_def)

lemma upsert_keys:
  "map key (upsert (\<lambda>x. key x = k) (fresh k) (bump d) xs) =
     (if k \<in> key ` set xs then map key xs else map key xs @ [k])"
  by (induction xs) (auto simp: key_bump key_fresh)

lemma upsert_cases:
  assumes "x \<in> set (upsert (\<lambda>x. key x = k) (fresh k) (bump d) xs)" and "distinct (map key xs)"
  shows "(x \<in> set xs \<and> key x \<noteq> k) \<or> (\<exists>y\<in>set xs. key y = k \<and> x = bump d y)
     \<or> (x = bump d (fresh k) \<and> k \<notin> key ` set xs)"
  using assms
proof (induction xs)
  case (Cons a xs)
  show ?case
  proof (cases "key a = k")
    case True
    then have "x = bump d a \<or> x \<in> set xs" using Cons.prems(1) by auto
    moreover have "key x \<noteq> k" if "x \<in> set xs" using that Cons.prems(2) True by (metis distinct.simps(2) image_eqI list.simps(9) set_map)
    ultimately show ?thesis using True by auto
  next
    case False
    then show ?thesis using Cons by auto
  qed
qed simp

lemma tallied_put:
  assumes ok: "tallied ds xs"
  shows "tallied (ds @ [d]) (put d xs)"
proof -
  let ?k = "key_of d"
  have dist: "distinct (map key xs)" and keys: "key ` set xs = key_of ` set ds"
    and vals: "\<And>x val w. x \<in> set xs \<Longrightarrow> (val, w) \<in> figs \<Longrightarrow> val x = saturated (keyed_sum key_of w (key x) ds)"
    using ok by (auto simp: tallied_def)
  have km: "map key (put d xs) = (if ?k \<in> key ` set xs then map key xs else map key xs @ [?k])"
    unfolding put_def by (rule upsert_keys)
  then have "distinct (map key (put d xs))" using dist by auto
  moreover have "key ` set (put d xs) = set (map key (put d xs))" by simp
  then have "key ` set (put d xs) = key_of ` set (ds @ [d])"
    unfolding km using keys by auto
  moreover have "val x = saturated (keyed_sum key_of w (key x) (ds @ [d]))"
    if x: "x \<in> set (put d xs)" and f: "(val, w) \<in> figs" for x val w
    using upsert_cases [OF x [unfolded put_def] dist]
  proof (elim disjE bexE conjE)
    assume "x \<in> set xs" "key x \<noteq> ?k"
    then show ?thesis using vals f by (simp add: keyed_sum_snoc)
  next
    fix y assume "y \<in> set xs" "key y = ?k" "x = bump d y"
    then show ?thesis
      using vals [OF _ f, of y] bump_adds [OF f] by (simp add: key_bump keyed_sum_snoc saturated_add)
  next
    assume "x = bump d (fresh ?k)" "?k \<notin> key ` set xs"
    then show ?thesis
      using keyed_sum_absent [of ?k key_of ds w] keys bump_adds [OF f] fresh_zero [OF f]
        saturated_add [of 0 "w d"]
      by (simp add: key_bump key_fresh keyed_sum_snoc saturated_def)
  qed
  ultimately show ?thesis by (auto simp: tallied_def)
qed

end

definition with_party :: "deal_role \<Rightarrow> deal_view \<Rightarrow> counterparty_tally \<Rightarrow> counterparty_tally" where
  "with_party role d = add_figures (deal_figures role d)"

definition with_deal :: "deal_role \<Rightarrow> deal_view \<Rightarrow> model_breakdown \<Rightarrow> model_breakdown" where
  "with_deal role d m =
     (add_figures (deal_figures role d) m)\<lparr>mb_counterparties :=
        upsert (\<lambda>t. ct_counterparty t = dv_counterparty d) (fresh_tally (dv_counterparty d))
          (with_party role d) (mb_counterparties m)\<rparr>"

definition figure_pairs :: "deal_role \<Rightarrow> (('a figures_scheme \<Rightarrow> nat) \<times> (deal_view \<Rightarrow> nat)) set" where
  "figure_pairs role =
     {(fg_tokens, \<lambda>d. fg_tokens (deal_figures role d)), (fg_money, \<lambda>d. fg_money (deal_figures role d)),
      (fg_locked, \<lambda>d. fg_locked (deal_figures role d)), (fg_burned, \<lambda>d. fg_burned (deal_figures role d))}"

interpretation parties: tally ct_counterparty fresh_tally dv_counterparty "with_party role"
  "figure_pairs role" for role
  by unfold_locales (auto simp: with_party_def add_figures_def fresh_tally_def figure_pairs_def)

interpretation models: tally mb_model "\<lambda>k. fresh_breakdown k role" deal_model "with_deal role"
  "figure_pairs role" for role
  by unfold_locales (auto simp: with_deal_def add_figures_def fresh_breakdown_def figure_pairs_def)

lemma add_deal_put: "add_deal role xs d = models.put role d xs"
  unfolding models.put_def unfolding add_deal_def with_deal_def [abs_def] with_party_def Let_def ..

lemma breakdown_tallied:
  "models.tallied role (filter (\<lambda>d. dv_role d = role) deals) (per_model_breakdown deals role)"
proof -
  have "models.tallied role ds (foldl (add_deal role) [] ds)" for ds
    by (induction ds rule: rev_induct)
      (simp_all add: models.tallied_Nil add_deal_put models.tallied_put)
  then show ?thesis by (simp add: per_model_breakdown_def)
qed

text \<open>Inside one model the counterparties are tallied the same way.\<close>

lemma breakdown_parties:
  assumes "m \<in> set (per_model_breakdown deals role)"
  shows "parties.tallied role (filter (\<lambda>d. dv_role d = role \<and> deal_model d = mb_model m) deals)
           (mb_counterparties m)"
proof -
  have "\<forall>m\<in>set (foldl (add_deal role) [] ds).
      parties.tallied role (filter (\<lambda>d. deal_model d = mb_model m) ds) (mb_counterparties m)" for ds
  proof (induction ds rule: rev_induct)
    case (snoc d ds)
    let ?xs = "foldl (add_deal role) [] ds"
    have tl: "models.tallied role ds ?xs"
      by (induction ds rule: rev_induct)
        (simp_all add: models.tallied_Nil add_deal_put models.tallied_put)
    have dist: "distinct (map mb_model ?xs)" and keys: "mb_model ` set ?xs = deal_model ` set ds"
      using tl by (auto simp: models.tallied_def)
    show ?case
    proof
      fix m assume "m \<in> set (foldl (add_deal role) [] (ds @ [d]))"
      then have "m \<in> set (models.put role d ?xs)" by (simp add: add_deal_put)
      from models.upsert_cases [OF this [unfolded models.put_def] dist]
      show "parties.tallied role (filter (\<lambda>d. deal_model d = mb_model m) (ds @ [d])) (mb_counterparties m)"
      proof (elim disjE bexE conjE)
        assume "m \<in> set ?xs" "mb_model m \<noteq> deal_model d"
        then show ?thesis using snoc by simp
      next
        fix y assume y: "y \<in> set ?xs" "mb_model y = deal_model d" "m = with_deal role d y"
        then have "mb_model m = deal_model d" "mb_counterparties m = parties.put role d (mb_counterparties y)"
          by (simp_all add: with_deal_def add_figures_def parties.put_def)
        then show ?thesis using snoc y parties.tallied_put by auto
      next
        assume m: "m = with_deal role d (fresh_breakdown (deal_model d) role)"
          and "deal_model d \<notin> mb_model ` set ?xs"
        then have none: "filter (\<lambda>x. deal_model x = deal_model d) ds = []"
          using keys unfolding filter_empty_conv by (metis imageI)
        have "mb_model m = deal_model d" "mb_counterparties m = parties.put role d []"
          by (simp_all add: m with_deal_def add_figures_def fresh_breakdown_def parties.put_def)
        then show ?thesis using none parties.tallied_put [OF parties.tallied_Nil, where d = d and role = role] by simp
      qed
    qed
  qed simp
  from this [of "filter (\<lambda>d. dv_role d = role) deals"] assms
  show ?thesis by (auto simp: per_model_breakdown_def conj_commute)
qed

text \<open>
  The accounting view loses nothing and counts nothing twice.  In the breakdown of
  one role every served model of that role has exactly one entry, each of its figures is the
  sum of that figure over the model's deals, capped at the largest \<open>u64\<close>, and the same holds
  for the counterparties inside the entry.
\<close>

theorem breakdown_partitions_deals:
  "distinct (map mb_model (per_model_breakdown deals role))
   \<and> mb_model ` set (per_model_breakdown deals role) = deal_model ` {d \<in> set deals. dv_role d = role}
   \<and> (\<forall>m\<in>set (per_model_breakdown deals role).
        let ds = filter (\<lambda>d. dv_role d = role \<and> deal_model d = mb_model m) deals in
        fg_money m = saturated (sum_list (map (\<lambda>d. fg_money (deal_figures role d)) ds))
        \<and> fg_locked m = saturated (sum_list (map (\<lambda>d. fg_locked (deal_figures role d)) ds))
        \<and> fg_tokens m = saturated (sum_list (map (\<lambda>d. fg_tokens (deal_figures role d)) ds))
        \<and> fg_burned m = saturated (sum_list (map (\<lambda>d. fg_burned (deal_figures role d)) ds))
        \<and> distinct (map ct_counterparty (mb_counterparties m))
        \<and> ct_counterparty ` set (mb_counterparties m) = dv_counterparty ` set ds
        \<and> (\<forall>t\<in>set (mb_counterparties m). fg_money t = saturated (sum_list
             (map (\<lambda>d. fg_money (deal_figures role d))
               (filter (\<lambda>d. dv_counterparty d = ct_counterparty t) ds)))))"
proof (intro conjI ballI)
  note tl = breakdown_tallied [of role deals]
  show "distinct (map mb_model (per_model_breakdown deals role))"
    using tl by (simp add: models.tallied_def)
  show "mb_model ` set (per_model_breakdown deals role) = deal_model ` {d \<in> set deals. dv_role d = role}"
    using tl by (simp add: models.tallied_def)
  fix m assume m: "m \<in> set (per_model_breakdown deals role)"
  define ds where "ds = filter (\<lambda>d. dv_role d = role \<and> deal_model d = mb_model m) deals"
  have "fg_money m = saturated (sum_list (map (\<lambda>d. fg_money (deal_figures role d)) ds))"
    "fg_locked m = saturated (sum_list (map (\<lambda>d. fg_locked (deal_figures role d)) ds))"
    "fg_tokens m = saturated (sum_list (map (\<lambda>d. fg_tokens (deal_figures role d)) ds))"
    "fg_burned m = saturated (sum_list (map (\<lambda>d. fg_burned (deal_figures role d)) ds))"
    using tl m unfolding models.tallied_def
    by (auto simp: figure_pairs_def keyed_sum_def ds_def)
  then show "let ds = filter (\<lambda>d. dv_role d = role \<and> deal_model d = mb_model m) deals in
        fg_money m = saturated (sum_list (map (\<lambda>d. fg_money (deal_figures role d)) ds))
        \<and> fg_locked m = saturated (sum_list (map (\<lambda>d. fg_locked (deal_figures role d)) ds))
        \<and> fg_tokens m = saturated (sum_list (map (\<lambda>d. fg_tokens (deal_figures role d)) ds))
        \<and> fg_burned m = saturated (sum_list (map (\<lambda>d. fg_burned (deal_figures role d)) ds))
        \<and> distinct (map ct_counterparty (mb_counterparties m))
        \<and> ct_counterparty ` set (mb_counterparties m) = dv_counterparty ` set ds
        \<and> (\<forall>t\<in>set (mb_counterparties m). fg_money t = saturated (sum_list
             (map (\<lambda>d. fg_money (deal_figures role d))
               (filter (\<lambda>d. dv_counterparty d = ct_counterparty t) ds))))"
    using breakdown_parties [OF m] unfolding parties.tallied_def
    by (auto simp: figure_pairs_def keyed_sum_def Let_def simp flip: ds_def)
qed

text \<open>Two deals of one served model with two counterparties, and one of another model.\<close>

definition sample_view :: "string \<Rightarrow> string \<Rightarrow> nat \<Rightarrow> deal_view" where
  "sample_view model who paid =
     \<lparr>dv_token_contract = ''tc'', dv_role = SellerRole, dv_counterparty = Some who,
      dv_price_per_tick = 5, dv_model = Some model,
      dv_snapshot = Some \<lparr>ss_seller_locked = 7, ss_buyer_locked = 3, ss_buyer_lead = 0,
        ss_tokens_final = 0, ss_seller_received = paid, ss_buyer_refunded = 0, ss_burned = 0,
        ss_closed = False\<rparr>\<rparr>"

lemmas breakdown_eval =
  per_model_breakdown_def add_deal_def deal_model_def deal_figures_def sample_view_def
  fresh_breakdown_def fresh_tally_def add_figures_def saturating_add_def summary_shell_def
  view_finalized_ticks_def try_from_def u64_max_def

theorem breakdown_partitions_deals_witness:
  "let deals = [sample_view ''a'' ''x'' 2, sample_view ''b'' ''x'' 4, sample_view ''a'' ''y'' 8];
       m = per_model_breakdown deals SellerRole ! 0
   in m \<in> set (per_model_breakdown deals SellerRole) \<and> mb_model m = ''a'' \<and> fg_money m = saturated (2 + 8)
      \<and> map fg_money (mb_counterparties m) = [2, 8]"
proof -
  define deals where
    "deals = [sample_view ''a'' ''x'' 2, sample_view ''b'' ''x'' 4, sample_view ''a'' ''y'' 8]"
  define m where "m = per_model_breakdown deals SellerRole ! 0"
  have m: "m \<in> set (per_model_breakdown deals SellerRole)" "mb_model m = ''a''"
    "map fg_money (mb_counterparties m) = [2, 8]"
    by (simp_all add: m_def deals_def breakdown_eval)
  have "filter (\<lambda>d. dv_role d = SellerRole \<and> deal_model d = ''a'') deals =
      [sample_view ''a'' ''x'' 2, sample_view ''a'' ''y'' 8]"
    by (simp add: deals_def sample_view_def deal_model_def)
  then have "fg_money m = saturated (2 + 8)"
    using breakdown_partitions_deals [of deals SellerRole] m(1,2)
    by (simp add: Let_def) (simp add: sample_view_def deal_figures_def summary_shell_def try_from_def u64_max_def)
  then show ?thesis using m by (simp add: Let_def flip: m_def deals_def)
qed

end
