(* ===== verification/MockTypes.thy ===== *)
theory MockTypes
  imports MarketTypes
begin

text \<open>
  The state of the mock chain backend, \<open>crates/core/src/market/mock.rs\<close>, and the receipts its
  settlement operations return (\<open>crates/core/src/market/types.rs\<close>): the cell of one open stream,
  the sidecar state with its maps, the rows of the subscription book, and the identity of a note
  (\<open>note_id_hex\<close> of \<open>crates/core/src/market/mod.rs\<close>).

  Every message the backend can refuse with is a value of \<open>mock_msg\<close>.  A refusal is
  \<open>Refused\<close> with the \<open>ChainError\<close>; a panic of the state machine is the separate value
  \<open>Panicked\<close>, so that the absence of panics can be stated.
\<close>

section \<open>Receipts\<close>

datatype settlement_action =
    ActBuyerStop | ActSellerStop | ActDispute | ActReleaseDispute | ActResolveDisputeTimeout

datatype settlement_action_event =
    EvProbeBurned (ev_buyer: string) (ev_burned_probe: nat) (ev_burned_bond: nat) (ev_refund_to_buyer: nat)
  | EvStreamStopped (ev_buyer: string) (ev_to_seller: nat) (ev_refund_to_buyer: nat)
  | EvStreamDisputed (ev_buyer: string) (ev_at: nat)
  | EvDisputeResolved (ev_to_seller: nat) (ev_refund_to_buyer: nat) (ev_released: bool)

record settlement_action_bond_state =
  ab_seller_bond_held :: nat
  ab_seller_bond_required :: nat
  ab_buyer_bond_held :: nat
  ab_buyer_bond_required :: nat

record settlement_action_post_state =
  ap_tokens_final :: nat
  ap_tokens_pending :: nat
  ap_seller_bond_held :: nat
  ap_seller_bond_required :: nat
  ap_buyer_bond_held :: nat
  ap_buyer_bond_required :: nat
  ap_opened :: bool
  ap_disputed :: bool

text \<open>The message id is text made of the contract and the time; it is not kept.\<close>

record settlement_action_receipt =
  ar_token_contract :: token_contract
  ar_action :: settlement_action
  ar_created_at :: nat
  ar_event :: settlement_action_event
  ar_pre_bonds :: settlement_action_bond_state
  ar_post_state :: "settlement_action_post_state option"

type_synonym mock_settlement = "settlement_action_receipt settlement"


section \<open>Refusals\<close>

datatype action_name =
    DoOpen | DoFinalize | DoAcceptProbe | DoClaim | DoSettleWeek | DoStop | DoDispute
  | DoRelease | DoResolveTimeout | DoSellerStop | DoCleanup

datatype (plugins only:) overflow_site =
    OfferVolume | OfferValue | TokenPayment | PlatformFee | PaymentPlusFee | SellerProceeds
  | AccruedFee | WeeklyPayment | WeekCount | RebateVolume | SellerRebate | FeeBurn | BuyerRefund
  | CumulativeRefund | FinalizedSeller | DisputeStake | StakeBurn | SellerStakeBurn

datatype (plugins only:) overflow_site2 =
    RemainingDeposit | FutureTokens | FutureRefund | UnearnedBurn | ProbeBurnSum | SellerBurn
  | PromotionDeadline | ProbeDeadline | DisputeDeadline | CleanupDeadline | TickCounter
  | MaxTokenVolume | WeeklyCap | RateNumerator | RateAllowance | BondSize | BuyerDeposit
  | BuyerLock | BuyerExposure | SubscriptionOrderId

text \<open>A persisted deal shape, stream cell or binding that does not validate.\<close>

datatype (plugins only:) shape_msg =
    UnknownDealFlags | ContradictoryShape | WeekIndexAboveWeeks | PaidAboveFunded
  | WeekBaseAboveFunded | PeriodStartInFuture | NonCanonicalTerm | QuotaOverflow | QuotaMismatch
  | OrdinaryWeeklyState

datatype (plugins only:) stream_msg =
    ProbeTimeInvalid | PipelineNotMonotonic | ClaimTimeInFuture
  | PipelineWithoutTime | DisputeTimeInFuture | DisputedWithoutTime | OpenWithDisputeTime
  | ClaimAfterDispute | UnacceptedPipeline | AcceptedWithoutSeed | AcceptedProbeLocked
  | LifecycleIncoherent | TickCounterDoesNotFit | PendingTicksDisagree | TrustedTicksDisagree
  | DisputedTotalOverflow

datatype (plugins only:) binding_msg =
    NoPersistedMatch | MatchKeyDisagrees | NoFilledOffer
  | OfferKeyDisagrees | NoPersistedSeller | SellerNotCanonical | MatchPriceDisagrees
  | MatchedTicksOutside | MatchedVolumeOverflow | FundedTokensDisagree | DealFlagsDisagree
  | StreamBuyerDisagrees | MachinePriceDisagrees | MaxTicksDisagree | PendingAboveFunded

datatype (plugins only:) state_msg =
    NoDealShape | FundedTimeInvalid | OrphanMatchTime | UnsupportedSchema | NoMatchTime
  | NegativeMatchTime | StreamWithoutMatch | SnapshotInvalid snapshot_error | NoFundedTime
  | Undecodable | MachineRefused invariant_error

text \<open>Refusals of the book's operations and of the deal's operations.\<close>

datatype (plugins only:) book_msg =
    TooFewTicks | PriceNotOnStep | UnsupportedFlags | MarketSellOffer | PostOnlyTaker | IocAndFok
  | SubscriptionWithoutAon | SubscriptionTicksInvalid | SubscriptionNotDivisible
  | DuplicateSellOrder | AlreadyFilled | BoundToOriginalSeller | RestingSellAbsent | AlreadyMatched
  | BuyTicksOutside | AonPartial | SubscriptionFlags | SubscriptionOrderExists
  | SubscriptionOrderAbsent | ReserveRefused

datatype (plugins only:) deal_msg =
    EscrowExceeded | PaymentRegresses | PaymentAboveFunded
  | SellerPaymentRegresses | FeeRegresses | ClockBeforePeriodStart
  | NotOpenAcceptedSubscription | NotInDispute | NotProbeBurned | NotOpenable
  | StreamExists | NoDueClaim | NotOpenProbe | ProbeWindowOpen
  | ProbeDeposit | ProbeFeeExceedsEscrow | LifecycleDisagrees

datatype (plugins only:) claim_msg =
    ClaimRegresses | AboveMaxTokens | AboveWeeklyCap | ClaimClockRegresses | ClaimIntervalOpen
  | AboveMaxClaimDelta | AbovePhysicalRate | PendingSlotOccupied | OrdinaryDeal
  | NoCrossedBoundary | NotUndisputedOpen | NotTimedDispute | DisputeWindowOpen | AlreadyOpened
  | MatchTimeoutOpen | NoDealTerms | NoConsumedOffer | PendingBelowFinal

datatype (plugins only:) mock_msg =
    Shape shape_msg | Stream stream_msg | Binding binding_msg | State state_msg
  | Book book_msg | Deal deal_msg | Claims claim_msg
  | Overflows overflow_site | Overflows2 overflow_site2
  | NoActor action_name | WrongActor action_name | NoShapeFor action_name
  | AlreadyClosed action_name | IsDisputed action_name | NotOpenAccepted action_name

datatype fault = Refused "mock_msg chain_error" | Panicked

type_synonym 'a outcome = "('a, fault) result"

definition chain_err :: "mock_msg \<Rightarrow> fault" where
  "chain_err m = Refused (Chain m)"

definition limit_err :: "mock_msg \<Rightarrow> fault" where
  "limit_err m = Refused (Limit m)"

definition invalid_persisted_state :: "mock_msg \<Rightarrow> fault" where
  "invalid_persisted_state m = Refused (EndpointsFile m)"

lemma fault_neq_Panicked [simp]:
  "chain_err m \<noteq> Panicked" "limit_err m \<noteq> Panicked" "invalid_persisted_state m \<noteq> Panicked"
  by (simp_all add: chain_err_def limit_err_def invalid_persisted_state_def)


section \<open>Note identity\<close>

definition hex_digit :: "nat \<Rightarrow> char" where
  "hex_digit n = char_of (if n < 10 then 48 + n else 87 + n)"

text \<open>\<open>format!("{b:02x}")\<close>\<close>

definition byte_hex :: "u8 \<Rightarrow> string" where
  "byte_hex b = [hex_digit (unat b div 16), hex_digit (unat b mod 16)]"

definition note_id_hex :: "note_pubkey \<Rightarrow> string" where
  "note_id_hex pk = concat (map byte_hex (pk_ed pk))"

definition is_lower_hex :: "char \<Rightarrow> bool" where
  "is_lower_hex c \<longleftrightarrow>
     (48 \<le> (of_char c :: nat) \<and> (of_char c :: nat) \<le> 57)
     \<or> (97 \<le> (of_char c :: nat) \<and> (of_char c :: nat) \<le> 102)"

text \<open>The two 32-byte arrays of \<open>NotePubkey\<close>.\<close>

definition pubkey_typed :: "note_pubkey \<Rightarrow> bool" where
  "pubkey_typed pk \<longleftrightarrow> length (pk_ed pk) = 32 \<and> length (pk_x pk) = 32"

lemma of_char_hex_digit: "n < 16 \<Longrightarrow> (of_char (hex_digit n) :: nat) = (if n < 10 then 48 + n else 87 + n)"
  by (simp add: hex_digit_def)

lemma hex_digit_inj: "m < 16 \<Longrightarrow> n < 16 \<Longrightarrow> hex_digit m = hex_digit n \<longleftrightarrow> m = n"
proof
  assume lt: "m < 16" "n < 16" and "hex_digit m = hex_digit n"
  then have "(of_char (hex_digit m) :: nat) = of_char (hex_digit n)" by simp
  then show "m = n" using lt by (simp add: of_char_hex_digit split: if_splits)
qed simp

lemma unat_u8: "unat (b :: u8) < 256"
  using unsigned_less [of b, where 'a = nat] by simp

lemma byte_hex_length [simp]: "length (byte_hex b) = 2"
  by (simp add: byte_hex_def)

lemma byte_hex_inj: "byte_hex a = byte_hex b \<longleftrightarrow> a = b"
proof
  assume eq: "byte_hex a = byte_hex b"
  have lt: "unat a div 16 < 16" "unat b div 16 < 16"
    using unat_u8 [of a] unat_u8 [of b] by (simp_all add: less_mult_imp_div_less)
  have "unat a div 16 = unat b div 16" "unat a mod 16 = unat b mod 16"
    using eq hex_digit_inj lt by (auto simp: byte_hex_def hex_digit_inj)
  then have "unat a = unat b" by (metis div_mult_mod_eq)
  then show "a = b" by (simp add: word_unat_eq_iff)
qed simp

lemma concat_byte_hex_inj: "concat (map byte_hex xs) = concat (map byte_hex ys) \<Longrightarrow> xs = ys"
proof (induction xs arbitrary: ys)
  case Nil
  then show ?case by (cases ys) (simp_all add: byte_hex_def)
next
  case (Cons x xs)
  then obtain y ys' where "ys = y # ys'" by (cases ys) (simp_all add: byte_hex_def)
  moreover from this have "byte_hex x = byte_hex y" "concat (map byte_hex xs) = concat (map byte_hex ys')"
    using Cons.prems by simp_all
  ultimately show ?case using Cons.IH by (simp add: byte_hex_inj)
qed

lemma note_id_hex_inj: "note_id_hex a = note_id_hex b \<longleftrightarrow> pk_ed a = pk_ed b"
  unfolding note_id_hex_def using concat_byte_hex_inj by auto

lemma hex_digit_lower: "n < 16 \<Longrightarrow> is_lower_hex (hex_digit n)"
  by (simp add: is_lower_hex_def of_char_hex_digit)

lemma note_id_hex_canonical:
  assumes "pubkey_typed pk"
  shows "length (note_id_hex pk) = 64" and "list_all is_lower_hex (note_id_hex pk)"
proof -
  have "length (concat (map byte_hex bs)) = 2 * length bs" for bs
    by (induction bs) (simp_all add: byte_hex_def)
  then show "length (note_id_hex pk) = 64"
    using assms by (simp add: note_id_hex_def pubkey_typed_def)
  have "unat b div 16 < 16" for b :: u8
    using unat_u8 [of b] by (simp add: less_mult_imp_div_less)
  then have "list_all is_lower_hex (byte_hex b)" for b
    by (simp add: byte_hex_def hex_digit_lower)
  then have "list_all is_lower_hex (concat (map byte_hex bs))" for bs
    by (induction bs) simp_all
  then show "list_all is_lower_hex (note_id_hex pk)" by (simp add: note_id_hex_def)
qed


section \<open>State\<close>

record stream_cell =
  sc_schema_version :: nat
  sc_machine :: stream_machine
  sc_probe_accepted :: bool
  sc_buyer_pubkey :: note_pubkey
  sc_seller_locked :: nat
  sc_buyer_locked :: nat
  sc_probe_locked :: nat
  sc_probe_time :: nat
  sc_buyer_bond :: nat
  sc_fee_accrued :: nat
  sc_tokens_final :: nat
  sc_tokens_pending :: nat
  sc_last_claim_time :: nat
  sc_seller_received :: nat
  sc_buyer_refunded :: nat
  sc_burned :: nat
  sc_closed :: bool
  sc_max_ticks :: nat
  sc_disputed :: bool
  sc_dispute_time :: nat
  sc_buyer_stop_settlement :: "(nat \<times> nat) option"

definition STREAM_CELL_SCHEMA_VERSION :: nat where "STREAM_CELL_SCHEMA_VERSION = 3"

datatype mock_subscription_exit = ExitCancelled | ExitExpired

record mock_subscription_terminal =
  st_order :: order_book_order
  st_order_book :: string
  st_reason :: mock_subscription_exit
  st_refunded :: nat

record mock_state =
  ms_offers :: "(token_contract, sell_offer) hmap"
  ms_matched_offers :: "(token_contract, sell_offer) hmap"
  ms_matched_ticks :: "(token_contract, nat) hmap"
  ms_deal_subscriptions :: "(token_contract, deal_subscription) hmap"
  ms_offer_sellers :: "(token_contract, string) hmap"
  ms_offer_deadlines :: "(token_contract, nat) hmap"
  ms_deal_terms :: "(token_contract, nat \<times> nat) hmap"
  ms_expired_generations :: "(token_contract, nat) hmap"
  ms_matches :: "(token_contract, match_t) hmap"
  ms_match_created_at :: "(token_contract, int) hmap"
  ms_streams :: "(token_contract, stream_cell) hmap"
  ms_subscription_orders :: "(nat, order_book_order) hmap"
  ms_subscription_order_books :: "(nat, string) hmap"
  ms_subscription_terminal_orders :: "(nat, mock_subscription_terminal) hmap"
  ms_next_subscription_order_id :: nat

definition mock_state_default :: mock_state where
  "mock_state_default =
     \<lparr>ms_offers = [], ms_matched_offers = [], ms_matched_ticks = [], ms_deal_subscriptions = [],
      ms_offer_sellers = [], ms_offer_deadlines = [], ms_deal_terms = [],
      ms_expired_generations = [], ms_matches = [], ms_match_created_at = [], ms_streams = [],
      ms_subscription_orders = [], ms_subscription_order_books = [],
      ms_subscription_terminal_orders = [], ms_next_subscription_order_id = 0\<rparr>"

abbreviation sc_price :: "stream_cell \<Rightarrow> nat" where
  "sc_price cell \<equiv> sm_price (sc_machine cell)"

end
