(* ===== verification/MockEngine.thy ===== *)
theory MockEngine
  imports MockTypes
begin

text \<open>
  The accounting engine of the mock chain, \<open>crates/core/src/market/mock.rs\<close> from
  \<open>validate_mock_sell_offer\<close> to \<open>stop_mock_stream\<close>: the claim pipeline, token payments and fees,
  weekly subscription charges, clean closes, dispute resolution and the buyer's STOP, on one
  stream cell and its deal shape.

  The Rust functions mutate the cell and the shape they are given; here they return the new
  values, and a failure returns none, as the callers drop their copy of the state on an error.
  Each read of the clock is an argument.  Arithmetic is checked at the width the source uses.
\<close>

section \<open>Claim pipeline\<close>

definition claim_deadline_reached :: "nat \<Rightarrow> nat \<Rightarrow> nat \<Rightarrow> bool outcome" where
  "claim_deadline_reached landed_at window now =
     and_then (ok_or (checked_add u64_max landed_at window) (chain_err (Overflows2 PromotionDeadline)))
       (\<lambda>due. Inr (due \<le> now))"

definition promote_once :: "stream_cell \<Rightarrow> stream_cell" where
  "promote_once cell =
     (if sc_tokens_pending cell > sc_tokens_final cell
      then cell\<lparr>sc_tokens_final := sc_tokens_pending cell\<rparr> else cell)"

definition promote_due :: "stream_cell \<Rightarrow> nat \<Rightarrow> protocol_consts \<Rightarrow> stream_cell outcome" where
  "promote_due cell now c =
     and_then (claim_deadline_reached (sc_last_claim_time cell) (claim_promote_window c) now)
       (\<lambda>due. Inr (if due then promote_once cell else cell))"

definition has_due_claim :: "stream_cell \<Rightarrow> nat \<Rightarrow> protocol_consts \<Rightarrow> bool outcome" where
  "has_due_claim cell now c =
     (if sc_tokens_pending cell > sc_tokens_final cell
      then claim_deadline_reached (sc_last_claim_time cell) (claim_promote_window c) now
      else Inr False)"

definition void_claims_at :: "stream_cell \<Rightarrow> nat \<Rightarrow> protocol_consts \<Rightarrow> stream_cell outcome" where
  "void_claims_at cell at_time c =
     and_then (if sc_tokens_pending cell > sc_tokens_final cell
               then claim_deadline_reached (sc_last_claim_time cell) (claim_promote_window c) at_time
               else Inr False)
       (\<lambda>due. let cell1 = (if due then cell\<lparr>sc_tokens_final := sc_tokens_pending cell\<rparr> else cell)
              in Inr (cell1\<lparr>sc_tokens_pending := sc_tokens_final cell1\<rparr>))"


section \<open>Payments\<close>

definition mock_finalized_ticks :: "nat \<Rightarrow> nat outcome" where
  "mock_finalized_ticks tokens =
     ok_or (try_from u64_max (tokens div TICK_SIZE)) (chain_err (Overflows2 TickCounter))"

definition checked_mul_div_floor :: "nat \<Rightarrow> nat \<Rightarrow> nat \<Rightarrow> mock_msg \<Rightarrow> nat outcome" where
  "checked_mul_div_floor v multiplier denominator context =
     (let whole = v div denominator; remainder = v mod denominator in
      ok_or
        (Option.bind (checked_mul u128_max whole multiplier) (\<lambda>amount.
         Option.bind (map_option (\<lambda>tail. tail div denominator)
                        (checked_mul u128_max remainder multiplier)) (\<lambda>tail.
         checked_add u128_max amount tail)))
        (chain_err context))"

definition token_pay_and_fee :: "nat \<Rightarrow> nat \<Rightarrow> protocol_consts \<Rightarrow> (nat \<times> nat) outcome" where
  "token_pay_and_fee tokens price c =
     and_then (checked_mul_div_floor tokens price TICK_SIZE (Overflows TokenPayment)) (\<lambda>pay.
     and_then (checked_mul_div_floor pay (platform_fee_bps c) 10000 (Overflows PlatformFee)) (\<lambda>fee.
     Inr (pay, fee)))"

text \<open>A checked addition at \<open>u128\<close> with the message it fails with.\<close>

definition add_u128 :: "nat \<Rightarrow> nat \<Rightarrow> mock_msg \<Rightarrow> nat outcome" where
  "add_u128 a b context = ok_or (checked_add u128_max a b) (chain_err context)"

text \<open>
  The tail \<open>credit_token_delta\<close> and \<open>credit_tokens_through\<close> share: take the payment and its fee
  out of the buyer's escrow.
\<close>

definition debit_escrow :: "stream_cell \<Rightarrow> nat \<Rightarrow> nat \<Rightarrow> stream_cell outcome" where
  "debit_escrow cell pay fee =
     and_then (add_u128 pay fee (Overflows PaymentPlusFee)) (\<lambda>debit.
     if debit > sc_buyer_locked cell then Inl (chain_err (Deal EscrowExceeded))
     else
       and_then (add_u128 (sc_seller_received cell) pay (Overflows SellerProceeds)) (\<lambda>received.
       and_then (add_u128 (sc_fee_accrued cell) fee (Overflows AccruedFee)) (\<lambda>accrued.
       Inr (cell\<lparr>sc_buyer_locked := sc_buyer_locked cell - debit,
                 sc_seller_received := received, sc_fee_accrued := accrued\<rparr>))))"

definition credit_token_delta ::
    "stream_cell \<Rightarrow> nat \<Rightarrow> protocol_consts \<Rightarrow> stream_cell outcome" where
  "credit_token_delta cell tokens c =
     and_then (token_pay_and_fee tokens (sc_price cell) c) (\<lambda>(pay, fee). debit_escrow cell pay fee)"

definition credit_tokens_through ::
    "stream_cell \<Rightarrow> deal_subscription \<Rightarrow> nat \<Rightarrow> protocol_consts
     \<Rightarrow> (stream_cell \<times> deal_subscription) outcome" where
  "credit_tokens_through cell sub target_tokens_paid c =
     (if target_tokens_paid < ds_tokens_paid sub then Inl (chain_err (Deal PaymentRegresses))
      else if target_tokens_paid > ds_funded_tokens sub then Inl (chain_err (Deal PaymentAboveFunded))
      else
        and_then (token_pay_and_fee (ds_tokens_paid sub) (sc_price cell) c) (\<lambda>(paid_value, paid_fee).
        and_then (token_pay_and_fee target_tokens_paid (sc_price cell) c) (\<lambda>(target_value, target_fee).
        and_then (ok_or (checked_sub target_value paid_value) (chain_err (Deal SellerPaymentRegresses))) (\<lambda>pay.
        and_then (ok_or (checked_sub target_fee paid_fee) (chain_err (Deal FeeRegresses))) (\<lambda>fee.
        and_then (debit_escrow cell pay fee) (\<lambda>cell'.
        Inr (cell', sub\<lparr>ds_tokens_paid := target_tokens_paid\<rparr>)))))))"


section \<open>Subscription weeks\<close>

definition subscription_weeks_at :: "deal_subscription \<Rightarrow> nat \<Rightarrow> bool \<Rightarrow> nat outcome" where
  "subscription_weeks_at sub now include_started =
     and_then (ok_or (checked_sub now (ds_period_start sub)) (chain_err (Deal ClockBeforePeriodStart)))
       (\<lambda>elapsed.
         let elapsed_weeks = min (elapsed div SUB_WEEK_LEN) (ds_sub_weeks sub);
             target = (if include_started \<and> elapsed_weeks < ds_sub_weeks sub
                       then elapsed_weeks + 1 else elapsed_weeks)
         in ok_or (try_from u8_max target) (chain_err (Overflows WeekCount)))"

definition charge_subscription_through ::
    "stream_cell \<Rightarrow> deal_subscription \<Rightarrow> nat \<Rightarrow> protocol_consts
     \<Rightarrow> (stream_cell \<times> deal_subscription \<times> bool) outcome" where
  "charge_subscription_through cell sub target_week c =
     (if target_week \<le> ds_week_index sub then Inr (cell, sub, False)
      else
        and_then (ok_or (checked_mul u128_max target_week (ds_tokens_per_week sub))
                   (chain_err (Overflows WeeklyPayment))) (\<lambda>target_tokens_paid.
        and_then (credit_tokens_through cell sub target_tokens_paid c) (\<lambda>(cell', sub').
        Inr (cell', sub'\<lparr>ds_week_index := target_week,
                         ds_week_base_tokens := sc_tokens_pending cell'\<rparr>, True))))"

definition charge_elapsed_subscription_weeks ::
    "stream_cell \<Rightarrow> deal_subscription \<Rightarrow> nat \<Rightarrow> protocol_consts
     \<Rightarrow> (stream_cell \<times> deal_subscription \<times> bool) outcome" where
  "charge_elapsed_subscription_weeks cell sub now c =
     (if \<not> is_subscription sub then Inr (cell, sub, False)
      else if \<not> sc_probe_accepted cell \<or> sc_closed cell \<or> sc_disputed cell
      then Inl (chain_err (Deal NotOpenAcceptedSubscription))
      else and_then (subscription_weeks_at sub now False) (\<lambda>due.
           charge_subscription_through cell sub due c))"


section \<open>Closing\<close>

definition delivered_ticks :: "stream_cell \<Rightarrow> nat outcome" where
  "delivered_ticks cell =
     and_then (mock_finalized_ticks (sc_tokens_final cell)) (\<lambda>n.
     Inr (max n (if sc_probe_accepted cell then 1 else 0)))"

definition mock_rebate :: "stream_cell \<Rightarrow> nat \<Rightarrow> protocol_consts \<Rightarrow> bool \<Rightarrow> nat outcome" where
  "mock_rebate cell delivered c clean =
     (if clean then
        and_then (ok_or (checked_mul u128_max delivered (sc_price cell))
                   (chain_err (Overflows RebateVolume))) (\<lambda>gross.
        let rate = min (saturating_mul u128_max (rebate_slope_bps c) delivered) (rebate_max_bps c) in
        and_then (checked_mul_div_floor gross rate 10000 (Overflows SellerRebate)) (\<lambda>amount.
        Inr (min amount (sc_fee_accrued cell))))
      else Inr 0)"

definition settle_mock_fees ::
    "stream_cell \<Rightarrow> nat \<Rightarrow> protocol_consts \<Rightarrow> bool \<Rightarrow> stream_cell outcome" where
  "settle_mock_fees cell delivered c clean =
     and_then (mock_rebate cell delivered c clean) (\<lambda>rebate.
     and_then (add_u128 (sc_seller_received cell) rebate (Overflows SellerRebate)) (\<lambda>received.
     and_then (add_u128 (sc_burned cell) (sc_fee_accrued cell - rebate) (Overflows FeeBurn)) (\<lambda>burned.
     Inr (cell\<lparr>sc_seller_received := received, sc_burned := burned, sc_fee_accrued := 0\<rparr>))))"

text \<open>What every terminal path leaves behind: nothing locked.\<close>

definition drained :: "stream_cell \<Rightarrow> stream_cell" where
  "drained cell =
     cell\<lparr>sc_buyer_locked := 0, sc_probe_locked := 0, sc_buyer_bond := 0, sc_seller_locked := 0\<rparr>"

definition close_mock_clean ::
    "stream_cell \<Rightarrow> nat \<Rightarrow> protocol_consts \<Rightarrow> (stream_cell \<times> nat) outcome" where
  "close_mock_clean cell delivered c =
     and_then (settle_mock_fees cell delivered c True) (\<lambda>cell1.
     and_then (add_u128 (sc_buyer_locked cell1) (sc_probe_locked cell1) (Overflows BuyerRefund)) (\<lambda>r0.
     and_then (add_u128 r0 (sc_buyer_bond cell1) (Overflows BuyerRefund)) (\<lambda>refund.
     and_then (add_u128 (sc_buyer_refunded cell1) refund (Overflows CumulativeRefund)) (\<lambda>refunded.
     and_then (add_u128 (sc_seller_received cell1) (sc_seller_locked cell1) (Overflows FinalizedSeller)) (\<lambda>received.
     Inr ((drained cell1)\<lparr>sc_buyer_refunded := refunded, sc_seller_received := received,
            sc_machine := machine_close (sc_machine cell1), sc_closed := True\<rparr>, refund))))))"


section \<open>Disputes\<close>

text \<open>What the current week's claims are counted from.\<close>

definition claim_base :: "deal_subscription \<Rightarrow> nat" where
  "claim_base sub =
     (if is_subscription sub \<and> ds_week_index sub > 0 then ds_week_base_tokens sub
      else ds_tokens_paid sub)"

definition dispute_stake ::
    "stream_cell \<Rightarrow> deal_subscription \<Rightarrow> protocol_consts \<Rightarrow> nat outcome" where
  "dispute_stake cell sub c =
     and_then (token_pay_and_fee (saturating_sub (sc_tokens_pending cell) (claim_base sub))
                 (sc_price cell) c) (\<lambda>(claimed_pay, claimed_fee).
     and_then (add_u128 claimed_pay claimed_fee (Overflows DisputeStake)) (\<lambda>claimed_value.
     let price = sc_price cell;
         stake = min (min (max claimed_value price) (2 * price)) (sc_seller_locked cell)
     in Inr (if is_subscription sub then min stake (sc_buyer_bond cell)
             else min stake (sc_buyer_locked cell))))"

definition refundable_deposit ::
    "stream_cell \<Rightarrow> deal_subscription \<Rightarrow> nat \<Rightarrow> protocol_consts \<Rightarrow> nat outcome" where
  "refundable_deposit cell sub remaining_deposit c =
     (if is_subscription sub \<and> sc_probe_accepted cell then
        and_then (subscription_weeks_at sub (sc_dispute_time cell) True) (\<lambda>started.
        let unstarted = saturating_sub (ds_sub_weeks sub) started in
        and_then (ok_or (checked_mul u128_max unstarted (ds_tokens_per_week sub))
                   (chain_err (Overflows2 FutureTokens))) (\<lambda>future_tokens.
        and_then (token_pay_and_fee future_tokens (sc_price cell) c) (\<lambda>(future_pay, future_fee).
        and_then (add_u128 future_pay future_fee (Overflows2 FutureRefund)) (\<lambda>future.
        Inr (min future remaining_deposit)))))
      else Inr remaining_deposit)"

text \<open>Weeks completed before the dispute are charged before anything is resolved.\<close>

definition charge_completed_weeks ::
    "stream_cell \<Rightarrow> deal_subscription \<Rightarrow> protocol_consts
     \<Rightarrow> (stream_cell \<times> deal_subscription) outcome" where
  "charge_completed_weeks cell sub c =
     (if is_subscription sub \<and> sc_probe_accepted cell then
        and_then (subscription_weeks_at sub (sc_dispute_time cell) False) (\<lambda>completed.
        and_then (charge_subscription_through cell sub completed c) (\<lambda>(cell', sub', _).
        Inr (cell', sub')))
      else Inr (cell, sub))"

text \<open>Burn the stake: the buyer's side always, the seller's mirror only after a timeout.\<close>

definition burn_stakes ::
    "stream_cell \<Rightarrow> deal_subscription \<Rightarrow> nat \<Rightarrow> bool \<Rightarrow> stream_cell outcome" where
  "burn_stakes cell sub stake0 timed_out =
     (let stake = (if is_subscription sub then stake0 else min stake0 (sc_buyer_locked cell));
          cell1 = (if is_subscription sub
                   then cell\<lparr>sc_buyer_bond := sc_buyer_bond cell - stake\<rparr>
                   else cell\<lparr>sc_buyer_locked := sc_buyer_locked cell - stake\<rparr>) in
      and_then (add_u128 (sc_burned cell1) stake (Overflows StakeBurn)) (\<lambda>burned.
      let seller_burn = (if timed_out then min stake (sc_seller_locked cell1) else 0) in
      and_then (add_u128 burned seller_burn (Overflows SellerStakeBurn)) (\<lambda>burned'.
      Inr (cell1\<lparr>sc_seller_locked := sc_seller_locked cell1 - seller_burn, sc_burned := burned'\<rparr>))))"

text \<open>
  \<open>let _ = cell.machine.resolve_dispute_timeout()\<close> or \<open>release_dispute()\<close>; the latter panics
  when the machine is not live.
\<close>

definition resolve_machine :: "stream_machine \<Rightarrow> bool \<Rightarrow> stream_machine outcome" where
  "resolve_machine m timed_out =
     (if timed_out then Inr (fst (machine_resolve_dispute_timeout m :: _ \<times> mock_settlement))
      else case machine_release_dispute m :: (_ \<times> mock_settlement) option of
             None \<Rightarrow> Inl Panicked
           | Some (m', _) \<Rightarrow> Inr m')"

definition resolve_mock_dispute ::
    "stream_cell \<Rightarrow> deal_subscription \<Rightarrow> protocol_consts \<Rightarrow> bool
     \<Rightarrow> (stream_cell \<times> deal_subscription \<times> nat \<times> nat) outcome" where
  "resolve_mock_dispute cell sub c timed_out =
     (if \<not> sc_disputed cell then Inl (chain_err (Deal NotInDispute))
      else
        and_then (charge_completed_weeks cell sub c) (\<lambda>(cell1, sub1).
        and_then (dispute_stake cell1 sub1 c) (\<lambda>stake.
        and_then (void_claims_at cell1 (sc_dispute_time cell1) c) (\<lambda>cell2.
        let trusted_tokens = sc_tokens_final cell2;
            trusted_owed = saturating_sub trusted_tokens (claim_base sub1) in
        and_then (credit_token_delta cell2 trusted_owed c) (\<lambda>cell3.
        let sub2 = sub1\<lparr>ds_tokens_paid := max (ds_tokens_paid sub1) trusted_tokens\<rparr> in
        and_then (burn_stakes cell3 sub2 stake timed_out) (\<lambda>cell4.
        and_then (delivered_ticks cell4) (\<lambda>delivered.
        and_then (settle_mock_fees cell4 delivered c False) (\<lambda>cell5.
        and_then (add_u128 (sc_buyer_locked cell5) (sc_probe_locked cell5) (Overflows2 RemainingDeposit)) (\<lambda>remaining_deposit.
        and_then (refundable_deposit cell5 sub2 remaining_deposit c) (\<lambda>refundable.
        and_then (add_u128 (sc_burned cell5) (remaining_deposit - refundable) (Overflows2 UnearnedBurn)) (\<lambda>burned.
        and_then (add_u128 refundable (sc_buyer_bond cell5) (Overflows BuyerRefund)) (\<lambda>refund.
        and_then (add_u128 (sc_buyer_refunded cell5) refund (Overflows CumulativeRefund)) (\<lambda>refunded.
        and_then (add_u128 (sc_seller_received cell5) (sc_seller_locked cell5) (Overflows FinalizedSeller)) (\<lambda>received.
        and_then (resolve_machine (sc_machine cell5) timed_out) (\<lambda>machine.
        Inr ((drained cell5)\<lparr>sc_burned := burned, sc_buyer_refunded := refunded,
               sc_seller_received := received, sc_disputed := False, sc_machine := machine,
               sc_closed := True\<rparr>,
             sub2, refund, sc_seller_locked cell5))))))))))))))))"


section \<open>Stopping\<close>

text \<open>
  The buyer walks away from the trial tick: it burns with a mirror tick of the seller's bond.
\<close>

definition stop_on_probe :: "stream_cell \<Rightarrow> (stream_cell \<times> mock_settlement) outcome" where
  "stop_on_probe cell =
     (case machine_buyer_stop (sc_machine cell) :: (_ \<times> mock_settlement) option of
        None \<Rightarrow> Inl Panicked
      | Some (machine, settlement) \<Rightarrow>
          (case settlement of
             BurnBoth burn \<Rightarrow>
               (let probe = sc_probe_locked cell;
                    seller_burn = min probe (sc_seller_locked cell) in
                and_then (add_u128 (sc_buyer_locked cell) (sc_buyer_bond cell) (Overflows BuyerRefund)) (\<lambda>refund.
                and_then (add_u128 (sc_burned cell) probe (Overflows2 ProbeBurnSum)) (\<lambda>b0.
                and_then (add_u128 b0 seller_burn (Overflows2 ProbeBurnSum)) (\<lambda>burned.
                and_then (add_u128 (sc_buyer_refunded cell) refund (Overflows CumulativeRefund)) (\<lambda>refunded.
                and_then (add_u128 (sc_seller_received cell) (sc_seller_locked cell - seller_burn)
                            (Overflows FinalizedSeller)) (\<lambda>received.
                Inr ((drained cell)\<lparr>sc_burned := burned, sc_buyer_refunded := refunded,
                       sc_seller_received := received, sc_machine := machine_close machine,
                       sc_closed := True\<rparr>,
                     BurnBoth (burn\<lparr>cb_buyer_refund := refund\<rparr>))))))))
           | _ \<Rightarrow> Inl (chain_err (Deal NotProbeBurned))))"

text \<open>
  Stop after acceptance: promote what is due, charge the started week, pay the trusted tokens,
  close.  The two clock reads are separate.
\<close>

definition stop_accepted ::
    "stream_cell \<Rightarrow> deal_subscription \<Rightarrow> nat \<Rightarrow> nat \<Rightarrow> protocol_consts
     \<Rightarrow> (stream_cell \<times> deal_subscription \<times> mock_settlement) outcome" where
  "stop_accepted cell sub now1 now2 c =
     and_then (promote_due cell now1 c) (\<lambda>cell1.
     and_then (if is_subscription sub then
                 and_then (subscription_weeks_at sub now2 True) (\<lambda>started.
                 charge_subscription_through cell1 sub started c)
               else Inr (cell1, sub, False)) (\<lambda>(cell2, sub2, _).
     and_then (if sc_tokens_final cell2 > ds_tokens_paid sub2
               then credit_tokens_through cell2 sub2 (sc_tokens_final cell2) c
               else Inr (cell2, sub2)) (\<lambda>(cell3, sub3).
     and_then (delivered_ticks cell3) (\<lambda>delivered.
     case machine_buyer_stop (sc_machine cell3) :: (_ \<times> mock_settlement) option of
       None \<Rightarrow> Inl Panicked
     | Some (machine, _) \<Rightarrow>
         and_then (close_mock_clean (cell3\<lparr>sc_machine := machine\<rparr>) delivered c) (\<lambda>(cell4, refund).
         and_then (mock_finalized_ticks (ds_tokens_paid sub3)) (\<lambda>paid_ticks.
         Inr (cell4\<lparr>sc_buyer_stop_settlement := Some (sc_seller_received cell4, refund)\<rparr>, sub3,
              AmicableSplit paid_ticks refund)))))))"

definition stop_mock_stream ::
    "stream_cell \<Rightarrow> deal_subscription \<Rightarrow> nat \<Rightarrow> nat \<Rightarrow> protocol_consts
     \<Rightarrow> (stream_cell \<times> deal_subscription \<times> mock_settlement) outcome" where
  "stop_mock_stream cell sub now1 now2 c =
     (if sc_closed cell then Inl (chain_err (AlreadyClosed DoStop))
      else if sc_disputed cell then Inl (chain_err (IsDisputed DoStop))
      else if \<not> sc_probe_accepted cell
      then and_then (stop_on_probe cell) (\<lambda>(cell', settlement). Inr (cell', sub, settlement))
      else stop_accepted cell sub now1 now2 c)"

end
