(* ===== verification/MockDeal.thy ===== *)
theory MockDeal
  imports MockEngine
begin

text \<open>
  The operations of an open deal of the mock chain, one by one, on its stream cell and its deal
  shape: the bodies of \<open>open_stream\<close>, \<open>finalize\<close>, \<open>accept_probe\<close>, \<open>claim_tokens\<close>,
  \<open>settle_week\<close>, \<open>dispute\<close>, \<open>release_dispute\<close>, \<open>resolve_dispute_timeout\<close> and \<open>seller_stop\<close>
  of \<open>impl ChainBackend for MockChainBackend\<close> (\<open>crates/core/src/market/mock.rs\<close>) between the
  lookup of the cell and the write of the state.
\<close>

section \<open>Opening\<close>

definition gross_deposit_of :: "nat \<Rightarrow> nat \<Rightarrow> protocol_consts \<Rightarrow> nat outcome" where
  "gross_deposit_of funded_tokens price c =
     and_then (token_pay_and_fee funded_tokens price c) (\<lambda>(pay, fee).
     add_u128 pay fee (Overflows2 BuyerDeposit))"

definition open_cell ::
    "match_t \<Rightarrow> nat \<Rightarrow> deal_subscription \<Rightarrow> nat \<Rightarrow> protocol_consts \<Rightarrow> stream_cell outcome" where
  "open_cell m max_ticks sub opened_at c =
     and_then (gross_deposit_of (ds_funded_tokens sub) (mt_price_per_tick m) c) (\<lambda>gross_deposit.
     let probe = mt_price_per_tick m in
     and_then (ok_or (checked_sub gross_deposit probe) (chain_err (Deal ProbeDeposit))) (\<lambda>buyer_locked.
     Inr \<lparr>sc_schema_version = STREAM_CELL_SCHEMA_VERSION,
          sc_machine = machine_open (mt_price_per_tick m),
          sc_probe_accepted = False,
          sc_buyer_pubkey = mt_buyer_pubkey m,
          sc_seller_locked = 2 * mt_price_per_tick m,
          sc_buyer_locked = buyer_locked,
          sc_probe_locked = probe,
          sc_probe_time = opened_at,
          sc_buyer_bond = (if is_subscription sub then 2 * probe else 0),
          sc_fee_accrued = 0,
          sc_tokens_final = 0,
          sc_tokens_pending = 0,
          sc_last_claim_time = opened_at,
          sc_seller_received = 0,
          sc_buyer_refunded = 0,
          sc_burned = 0,
          sc_closed = False,
          sc_max_ticks = max_ticks,
          sc_disputed = False,
          sc_dispute_time = 0,
          sc_buyer_stop_settlement = None\<rparr>))"


section \<open>Probe, claims and promotion\<close>

definition lift_machine :: "('a, invariant_error) result \<Rightarrow> 'a outcome" where
  "lift_machine r = map_err (\<lambda>e. invalid_persisted_state (State (MachineRefused e))) r"

definition accept_probe_deal ::
    "stream_cell \<Rightarrow> deal_subscription \<Rightarrow> nat \<Rightarrow> protocol_consts
     \<Rightarrow> (stream_cell \<times> deal_subscription) outcome" where
  "accept_probe_deal cell sub now c =
     (if sc_closed cell \<or> sc_disputed cell \<or> sc_probe_accepted cell
      then Inl (chain_err (Deal NotOpenProbe))
      else
        and_then (ok_or (checked_add u64_max (sc_probe_time cell) (probe_window c))
                   (chain_err (Overflows2 ProbeDeadline))) (\<lambda>deadline.
        if now < deadline then Inl (chain_err (Deal ProbeWindowOpen))
        else
          and_then (lift_machine (on_probe_accepted (sc_machine cell))) (\<lambda>machine.
          let probe = sc_probe_locked cell in
          and_then (token_pay_and_fee TICK_SIZE (sm_price machine) c) (\<lambda>(_, fee).
          if fee > sc_buyer_locked cell then Inl (chain_err (Deal ProbeFeeExceedsEscrow))
          else
            and_then (add_u128 (sc_seller_received cell) probe (Overflows SellerProceeds)) (\<lambda>received.
            and_then (add_u128 (sc_fee_accrued cell) fee (Overflows AccruedFee)) (\<lambda>accrued.
            Inr (cell\<lparr>sc_machine := machine, sc_probe_accepted := True,
                      sc_buyer_locked := sc_buyer_locked cell - fee, sc_probe_locked := 0,
                      sc_seller_received := received, sc_fee_accrued := accrued,
                      sc_tokens_final := TICK_SIZE, sc_tokens_pending := TICK_SIZE,
                      sc_last_claim_time := now\<rparr>,
                 sub\<lparr>ds_tokens_paid := TICK_SIZE, ds_period_start := now,
                     ds_week_base_tokens := 0\<rparr>)))))))"

text \<open>The ceiling of the current week, as \<open>claim_tokens\<close> computes it after crossing boundaries.\<close>

definition weekly_cap :: "stream_cell \<Rightarrow> deal_subscription \<Rightarrow> nat outcome" where
  "weekly_cap cell sub =
     (if ds_week_index sub \<ge> ds_sub_weeks sub then Inr (sc_tokens_pending cell)
      else and_then (ok_or (checked_add u128_max (ds_week_base_tokens sub) (ds_tokens_per_week sub))
                      (chain_err (Overflows2 WeeklyCap))) (\<lambda>cap.
           Inr (min cap (ds_funded_tokens sub))))"

text \<open>The landing of a claim that passed every volume limit: rate, promotion, pipeline.\<close>

definition land_claim ::
    "stream_cell \<Rightarrow> nat \<Rightarrow> nat \<Rightarrow> protocol_consts \<Rightarrow> stream_cell outcome" where
  "land_claim cell cumulative_tokens claim_time c =
     and_then (ok_or (checked_sub claim_time (sc_last_claim_time cell))
                (chain_err (Claims ClaimClockRegresses))) (\<lambda>elapsed.
     if elapsed < min_claim_interval c then Inl (chain_err (Claims ClaimIntervalOpen))
     else let delta = cumulative_tokens - sc_tokens_pending cell in
       if delta > MAX_CLAIM_DELTA then Inl (limit_err (Claims AboveMaxClaimDelta))
       else
         and_then (ok_or (checked_mul u128_max delta (min_seconds_per_tick c))
                    (chain_err (Overflows2 RateNumerator))) (\<lambda>produced_time.
         and_then (ok_or (checked_mul u128_max elapsed TICK_SIZE)
                    (chain_err (Overflows2 RateAllowance))) (\<lambda>allowed_time.
         if produced_time > allowed_time then Inl (limit_err (Claims AbovePhysicalRate))
         else
           and_then (promote_due cell claim_time c) (\<lambda>cell1.
           if sc_tokens_pending cell1 \<noteq> sc_tokens_final cell1
           then Inl (chain_err (Claims PendingSlotOccupied))
           else
             and_then (ok_or (try_from u64_max (div_ceil cumulative_tokens TICK_SIZE))
                        (chain_err (Overflows2 TickCounter))) (\<lambda>machine_ticks.
             and_then (lift_machine (on_claim (sc_machine cell1) machine_ticks)) (\<lambda>machine.
             Inr (cell1\<lparr>sc_machine := machine, sc_tokens_pending := cumulative_tokens,
                        sc_last_claim_time := claim_time\<rparr>)))))))"

definition claim_tokens_deal ::
    "stream_cell \<Rightarrow> deal_subscription \<Rightarrow> nat \<Rightarrow> nat \<Rightarrow> nat \<Rightarrow> protocol_consts
     \<Rightarrow> (stream_cell \<times> deal_subscription) outcome" where
  "claim_tokens_deal cell sub cumulative_tokens now1 now2 c =
     (if sc_closed cell \<or> sc_disputed cell \<or> \<not> sc_probe_accepted cell
      then Inl (chain_err (NotOpenAccepted DoClaim))
      else if on_probe (sc_machine cell) then Inl (chain_err (Deal LifecycleDisagrees))
      else if cumulative_tokens < sc_tokens_pending cell then Inl (chain_err (Claims ClaimRegresses))
      else if cumulative_tokens = sc_tokens_pending cell then Inr (cell, sub)
      else
        and_then (if is_subscription sub then charge_elapsed_subscription_weeks cell sub now1 c
                  else Inr (cell, sub, False)) (\<lambda>(cell1, sub1, _).
        and_then (ok_or (checked_mul u128_max (sc_max_ticks cell1) TICK_SIZE)
                   (chain_err (Overflows2 MaxTokenVolume))) (\<lambda>max_tokens.
        if cumulative_tokens > max_tokens then Inl (limit_err (Claims AboveMaxTokens))
        else
          and_then (if is_subscription sub1
                    then and_then (weekly_cap cell1 sub1) (\<lambda>cap.
                         ensure (\<not> cumulative_tokens > cap) (limit_err (Claims AboveWeeklyCap)))
                    else Inr ()) (\<lambda>_.
          and_then (land_claim cell1 cumulative_tokens now2 c) (\<lambda>cell2.
          Inr (cell2, sub1))))))"

text \<open>The state-machine half of a promotion: mirrored only once the pipeline is level.\<close>

definition mirror_promotion :: "stream_cell \<Rightarrow> stream_cell outcome" where
  "mirror_promotion cell =
     (if sc_tokens_final cell = sc_tokens_pending cell
      then and_then (lift_machine (on_promote (sc_machine cell))) (\<lambda>machine.
           Inr (cell\<lparr>sc_machine := machine\<rparr>))
      else Inr cell)"

text \<open>An ordinary deal delivered in full: pay everything and close.\<close>

definition close_delivered ::
    "stream_cell \<Rightarrow> deal_subscription \<Rightarrow> protocol_consts
     \<Rightarrow> (stream_cell \<times> deal_subscription) outcome" where
  "close_delivered cell sub c =
     and_then (credit_tokens_through cell sub (sc_tokens_final cell) c) (\<lambda>(cell1, sub1).
     and_then (delivered_ticks cell1) (\<lambda>delivered.
     and_then (close_mock_clean cell1 delivered c) (\<lambda>(cell2, _).
     Inr (cell2, sub1))))"

definition finalize_deal ::
    "stream_cell \<Rightarrow> deal_subscription \<Rightarrow> nat \<Rightarrow> protocol_consts
     \<Rightarrow> (stream_cell \<times> deal_subscription) outcome" where
  "finalize_deal cell sub now c =
     (if sc_closed cell \<or> sc_disputed cell \<or> \<not> sc_probe_accepted cell
      then Inl (chain_err (NotOpenAccepted DoFinalize))
      else
        and_then (has_due_claim cell now c) (\<lambda>due.
        if \<not> due then Inl (chain_err (Deal NoDueClaim))
        else
          and_then (promote_due cell now c) (\<lambda>cell1.
          and_then (mirror_promotion cell1) (\<lambda>cell2.
          if \<not> is_subscription sub \<and> sc_tokens_final cell2 \<ge> ds_funded_tokens sub
          then close_delivered cell2 sub c
          else Inr (cell2, sub)))))"

text \<open>The end of a subscription's term: promote, pay what is trusted and unpaid, close.\<close>

definition close_final_week ::
    "stream_cell \<Rightarrow> deal_subscription \<Rightarrow> nat \<Rightarrow> protocol_consts
     \<Rightarrow> (stream_cell \<times> deal_subscription) outcome" where
  "close_final_week cell sub now c =
     and_then (promote_due cell now c) (\<lambda>cell1.
     and_then (mirror_promotion cell1) (\<lambda>cell2.
     and_then (if sc_tokens_final cell2 > ds_tokens_paid sub
               then credit_tokens_through cell2 sub (sc_tokens_final cell2) c
               else Inr (cell2, sub)) (\<lambda>(cell3, sub3).
     and_then (delivered_ticks cell3) (\<lambda>delivered.
     and_then (close_mock_clean cell3 delivered c) (\<lambda>(cell4, _).
     Inr (cell4, sub3))))))"

definition settle_week_deal ::
    "stream_cell \<Rightarrow> deal_subscription \<Rightarrow> nat \<Rightarrow> protocol_consts
     \<Rightarrow> (stream_cell \<times> deal_subscription) outcome" where
  "settle_week_deal cell sub now c =
     (if \<not> is_subscription sub then Inl (chain_err (Claims OrdinaryDeal))
      else
        and_then (charge_elapsed_subscription_weeks cell sub now c) (\<lambda>(cell1, sub1, crossed).
        if \<not> crossed \<and> ds_week_index sub1 < ds_sub_weeks sub1
        then Inl (chain_err (Claims NoCrossedBoundary))
        else
          and_then (if ds_week_index sub1 \<ge> ds_sub_weeks sub1
                    then claim_deadline_reached (sc_last_claim_time cell1) (claim_promote_window c) now
                    else Inr False) (\<lambda>final_week.
          if final_week then close_final_week cell1 sub1 now c
          else Inr (cell1, sub1))))"


section \<open>Disputes and stops\<close>

definition dispute_deal ::
    "token_contract \<Rightarrow> stream_cell \<Rightarrow> bool \<Rightarrow> nat \<Rightarrow> (stream_cell \<times> mock_settlement) outcome" where
  "dispute_deal tc cell is_sub at_time =
     (if sc_closed cell \<or> sc_disputed cell then Inl (chain_err (Claims NotUndisputedOpen))
      else
        and_then (ok_or (checked_mul u128_max (sc_price cell) 2) (chain_err (Overflows2 BondSize))) (\<lambda>bond_required.
        let buyer_bond_required = (if is_sub then bond_required else 0);
            buyer = ''mock:'' @ note_id_hex (sc_buyer_pubkey cell);
            pre_bonds = \<lparr>ab_seller_bond_held = sc_seller_locked cell,
                         ab_seller_bond_required = bond_required,
                         ab_buyer_bond_held = sc_buyer_bond cell,
                         ab_buyer_bond_required = buyer_bond_required\<rparr>;
            cell' = cell\<lparr>sc_machine := machine_buyer_dispute (sc_machine cell),
                         sc_disputed := True, sc_dispute_time := at_time\<rparr>
        in Inr (cell', AuthoritativeReceipt
             \<lparr>ar_token_contract = tc, ar_action = ActDispute, ar_created_at = at_time,
              ar_event = EvStreamDisputed buyer at_time, ar_pre_bonds = pre_bonds,
              ar_post_state = Some
                \<lparr>ap_tokens_final = sc_tokens_final cell', ap_tokens_pending = sc_tokens_pending cell',
                 ap_seller_bond_held = sc_seller_locked cell', ap_seller_bond_required = bond_required,
                 ap_buyer_bond_held = sc_buyer_bond cell', ap_buyer_bond_required = buyer_bond_required,
                 ap_opened = True, ap_disputed = True\<rparr>\<rparr>)))"

definition release_dispute_deal ::
    "stream_cell \<Rightarrow> deal_subscription \<Rightarrow> protocol_consts
     \<Rightarrow> (stream_cell \<times> deal_subscription \<times> mock_settlement) outcome" where
  "release_dispute_deal cell sub c =
     and_then (resolve_mock_dispute cell sub c False) (\<lambda>(cell', sub', to_buyer, seller_bond).
     Inr (cell', sub', SellerNoShow to_buyer seller_bond))"

definition dispute_timeout_reached :: "stream_cell \<Rightarrow> nat \<Rightarrow> protocol_consts \<Rightarrow> unit outcome" where
  "dispute_timeout_reached cell now c =
     (if \<not> sc_disputed cell \<or> sc_dispute_time cell = 0 then Inl (chain_err (Claims NotTimedDispute))
      else
        and_then (ok_or (checked_add u64_max (sc_dispute_time cell) (dispute_window c))
                   (chain_err (Overflows2 DisputeDeadline))) (\<lambda>deadline.
        ensure (\<not> now < deadline) (chain_err (Claims DisputeWindowOpen))))"

definition resolve_timeout_deal ::
    "stream_cell \<Rightarrow> deal_subscription \<Rightarrow> protocol_consts
     \<Rightarrow> (stream_cell \<times> deal_subscription \<times> mock_settlement) outcome" where
  "resolve_timeout_deal cell sub c =
     and_then (resolve_mock_dispute cell sub c True) (\<lambda>(cell', sub', to_buyer, seller_bond).
     Inr (cell', sub', SellerNoShow to_buyer seller_bond))"

definition seller_stop_on_probe :: "stream_cell \<Rightarrow> (stream_cell \<times> mock_settlement) outcome" where
  "seller_stop_on_probe cell =
     (let seller_burn = min (sc_price cell) (sc_seller_locked cell) in
      and_then (add_u128 (sc_buyer_locked cell) (sc_probe_locked cell) (Overflows BuyerRefund)) (\<lambda>r0.
      and_then (add_u128 r0 (sc_buyer_bond cell) (Overflows BuyerRefund)) (\<lambda>refund.
      and_then (add_u128 (sc_burned cell) seller_burn (Overflows2 SellerBurn)) (\<lambda>burned.
      and_then (add_u128 (sc_buyer_refunded cell) refund (Overflows CumulativeRefund)) (\<lambda>refunded.
      and_then (add_u128 (sc_seller_received cell) (sc_seller_locked cell - seller_burn)
                  (Overflows FinalizedSeller)) (\<lambda>received.
      Inr ((drained cell)\<lparr>sc_burned := burned, sc_buyer_refunded := refunded,
             sc_seller_received := received, sc_machine := machine_close (sc_machine cell),
             sc_closed := True\<rparr>,
           AmicableSplit 0 refund)))))))"

definition seller_stop_accepted ::
    "stream_cell \<Rightarrow> deal_subscription \<Rightarrow> nat \<Rightarrow> nat \<Rightarrow> protocol_consts
     \<Rightarrow> (stream_cell \<times> deal_subscription \<times> mock_settlement) outcome" where
  "seller_stop_accepted cell sub now1 now2 c =
     and_then (promote_due cell now1 c) (\<lambda>cell1.
     and_then (if is_subscription sub then
                 and_then (subscription_weeks_at sub now2 False) (\<lambda>elapsed.
                 charge_subscription_through cell1 sub elapsed c)
               else Inr (cell1, sub, False)) (\<lambda>(cell2, sub2, _).
     and_then (if \<not> is_subscription sub2 \<and> sc_tokens_final cell2 > ds_tokens_paid sub2
               then credit_tokens_through cell2 sub2 (sc_tokens_final cell2) c
               else Inr (cell2, sub2)) (\<lambda>(cell3, sub3).
     and_then (delivered_ticks cell3) (\<lambda>delivered.
     case machine_seller_stop (sc_machine cell3) :: (_ \<times> mock_settlement) option of
       None \<Rightarrow> Inl Panicked
     | Some (machine, _) \<Rightarrow>
         and_then (close_mock_clean (cell3\<lparr>sc_machine := machine\<rparr>) delivered c) (\<lambda>(cell4, refund).
         and_then (mock_finalized_ticks (ds_tokens_paid sub3)) (\<lambda>paid_ticks.
         Inr (cell4, sub3, AmicableSplit paid_ticks refund)))))))"

definition seller_stop_deal ::
    "stream_cell \<Rightarrow> deal_subscription \<Rightarrow> nat \<Rightarrow> nat \<Rightarrow> protocol_consts
     \<Rightarrow> (stream_cell \<times> deal_subscription \<times> mock_settlement) outcome" where
  "seller_stop_deal cell sub now1 now2 c =
     (if sc_closed cell then Inl (chain_err (AlreadyClosed DoSellerStop))
      else if sc_disputed cell then Inl (chain_err (IsDisputed DoSellerStop))
      else if \<not> sc_probe_accepted cell
      then and_then (seller_stop_on_probe cell) (\<lambda>(cell', settlement). Inr (cell', sub, settlement))
      else seller_stop_accepted cell sub now1 now2 c)"

text \<open>
  The operations as one step function: what a deal does next.  Each event carries the clock
  readings of its call, in order.
\<close>

datatype deal_event =
    AcceptProbe nat
  | ClaimTokens nat nat nat
  | Finalize nat
  | SettleWeek nat
  | Stop nat nat
  | SellerStops nat nat
  | OpenDispute nat
  | ReleasesDispute
  | DisputeTimesOut nat

fun deal_step ::
    "protocol_consts \<Rightarrow> stream_cell \<times> deal_subscription \<Rightarrow> deal_event
     \<Rightarrow> (stream_cell \<times> deal_subscription) outcome" where
  "deal_step c (cell, sub) (AcceptProbe now) = accept_probe_deal cell sub now c"
| "deal_step c (cell, sub) (ClaimTokens n now1 now2) = claim_tokens_deal cell sub n now1 now2 c"
| "deal_step c (cell, sub) (Finalize now) = finalize_deal cell sub now c"
| "deal_step c (cell, sub) (SettleWeek now) = settle_week_deal cell sub now c"
| "deal_step c (cell, sub) (Stop now1 now2) =
     and_then (stop_mock_stream cell sub now1 now2 c) (\<lambda>(cell', sub', _). Inr (cell', sub'))"
| "deal_step c (cell, sub) (SellerStops now1 now2) =
     and_then (seller_stop_deal cell sub now1 now2 c) (\<lambda>(cell', sub', _). Inr (cell', sub'))"
| "deal_step c (cell, sub) (OpenDispute now) =
     and_then (dispute_deal [] cell (is_subscription sub) now) (\<lambda>(cell', _). Inr (cell', sub))"
| "deal_step c (cell, sub) ReleasesDispute =
     and_then (release_dispute_deal cell sub c) (\<lambda>(cell', sub', _). Inr (cell', sub'))"
| "deal_step c (cell, sub) (DisputeTimesOut now) =
     and_then (dispute_timeout_reached cell now c) (\<lambda>_.
     and_then (resolve_timeout_deal cell sub c) (\<lambda>(cell', sub', _). Inr (cell', sub')))"

fun event_times :: "deal_event \<Rightarrow> nat list" where
  "event_times (AcceptProbe t) = [t]"
| "event_times (ClaimTokens _ t1 t2) = [t1, t2]"
| "event_times (Finalize t) = [t]"
| "event_times (SettleWeek t) = [t]"
| "event_times (Stop t1 t2) = [t1, t2]"
| "event_times (SellerStops t1 t2) = [t1, t2]"
| "event_times (OpenDispute t) = [t]"
| "event_times ReleasesDispute = []"
| "event_times (DisputeTimesOut t) = [t]"

end
