(* ===== verification/MockMoney.thy ===== *)
theory MockMoney
  imports MockDeal
begin

text \<open>
  Where the money of one deal is.  \<open>cell_money\<close> adds up everything a stream cell accounts for:
  what is locked on either side, the fees accrued, and what has been paid, refunded and burned.
  Every operation of the engine moves value between these and neither creates nor loses any; a
  closed deal has nothing locked.
\<close>

definition cell_money :: "stream_cell \<Rightarrow> nat" where
  "cell_money cell =
     sc_seller_locked cell + sc_buyer_locked cell + sc_probe_locked cell + sc_buyer_bond cell
     + sc_fee_accrued cell + sc_seller_received cell + sc_buyer_refunded cell + sc_burned cell"

definition cell_empty :: "stream_cell \<Rightarrow> bool" where
  "cell_empty cell \<longleftrightarrow>
     sc_seller_locked cell = 0 \<and> sc_buyer_locked cell = 0 \<and> sc_probe_locked cell = 0
     \<and> sc_buyer_bond cell = 0 \<and> sc_fee_accrued cell = 0"

named_theorems step_simps \<open>success of an engine step\<close>
named_theorems money_simps \<open>an engine step keeps the money\<close>

lemma add_u128_Inr [step_simps]: "add_u128 a b e = Inr s \<longleftrightarrow> s = a + b \<and> a + b \<le> u128_max"
  by (auto simp: add_u128_def result_simps checked_simps)

lemma debit_escrow_Inr [step_simps]:
  "debit_escrow cell pay fee = Inr cell' \<longleftrightarrow>
     pay + fee \<le> sc_buyer_locked cell \<and> pay + fee \<le> u128_max
     \<and> sc_seller_received cell + pay \<le> u128_max \<and> sc_fee_accrued cell + fee \<le> u128_max
     \<and> cell' = cell\<lparr>sc_buyer_locked := sc_buyer_locked cell - (pay + fee),
                    sc_seller_received := sc_seller_received cell + pay,
                    sc_fee_accrued := sc_fee_accrued cell + fee\<rparr>"
  by (auto simp: debit_escrow_def result_simps add_u128_Inr)

lemma debit_escrow_money: "debit_escrow cell pay fee = Inr cell' \<Longrightarrow> cell_money cell' = cell_money cell"
  by (auto simp: debit_escrow_Inr cell_money_def)

lemma credit_token_delta_money:
  "credit_token_delta cell n c = Inr cell' \<Longrightarrow> cell_money cell' = cell_money cell"
  by (auto simp: credit_token_delta_def result_simps dest: debit_escrow_money)

lemma credit_tokens_through_money:
  "credit_tokens_through cell sub n c = Inr (cell', sub') \<Longrightarrow> cell_money cell' = cell_money cell"
  by (auto simp: credit_tokens_through_def result_simps dest: debit_escrow_money)

lemma charge_subscription_through_money:
  "charge_subscription_through cell sub w c = Inr (cell', sub', b) \<Longrightarrow> cell_money cell' = cell_money cell"
  by (auto simp: charge_subscription_through_def result_simps dest: credit_tokens_through_money
      split: if_splits)

lemma charge_elapsed_money:
  "charge_elapsed_subscription_weeks cell sub now c = Inr (cell', sub', b) \<Longrightarrow>
     cell_money cell' = cell_money cell"
  by (auto simp: charge_elapsed_subscription_weeks_def result_simps
      dest: charge_subscription_through_money split: if_splits)

lemma promote_due_money: "promote_due cell now c = Inr cell' \<Longrightarrow> cell_money cell' = cell_money cell"
  by (auto simp: promote_due_def promote_once_def result_simps cell_money_def)

lemma void_claims_money: "void_claims_at cell t c = Inr cell' \<Longrightarrow> cell_money cell' = cell_money cell"
  by (auto simp: void_claims_at_def result_simps cell_money_def Let_def)

lemma mirror_promotion_money: "mirror_promotion cell = Inr cell' \<Longrightarrow> cell_money cell' = cell_money cell"
  by (auto simp: mirror_promotion_def result_simps cell_money_def split: if_splits)

lemma mock_rebate_le: "mock_rebate cell n c clean = Inr r \<Longrightarrow> r \<le> sc_fee_accrued cell"
  by (auto simp: mock_rebate_def result_simps Let_def split: if_splits)

lemma settle_mock_fees_money:
  assumes "settle_mock_fees cell n c clean = Inr cell'"
  shows "cell_money cell' = cell_money cell" and "sc_fee_accrued cell' = 0"
proof -
  obtain r where "mock_rebate cell n c clean = Inr r" and
    cell': "cell' = cell\<lparr>sc_seller_received := sc_seller_received cell + r,
       sc_burned := sc_burned cell + (sc_fee_accrued cell - r), sc_fee_accrued := 0\<rparr>"
    using assms by (auto simp: settle_mock_fees_def result_simps add_u128_Inr)
  then show "cell_money cell' = cell_money cell" and "sc_fee_accrued cell' = 0"
    using mock_rebate_le by (fastforce simp: cell_money_def)+
qed

lemma close_mock_clean_money:
  assumes "close_mock_clean cell n c = Inr (cell', refund)"
  shows "cell_money cell' = cell_money cell" and "cell_empty cell'" and "sc_closed cell'"
proof -
  obtain cell1 where fees: "settle_mock_fees cell n c True = Inr cell1" and
    cell': "cell' = (drained cell1)\<lparr>sc_buyer_refunded := sc_buyer_refunded cell1 + refund,
      sc_seller_received := sc_seller_received cell1 + sc_seller_locked cell1,
      sc_machine := machine_close (sc_machine cell1), sc_closed := True\<rparr>"
    and refund: "refund = sc_buyer_locked cell1 + sc_probe_locked cell1 + sc_buyer_bond cell1"
    using assms by (auto simp: close_mock_clean_def result_simps add_u128_Inr)
  show "cell_money cell' = cell_money cell"
    using settle_mock_fees_money(1) [OF fees] by (simp add: cell' refund cell_money_def drained_def)
  show "cell_empty cell'" "sc_closed cell'"
    using settle_mock_fees_money(2) [OF fees] by (simp_all add: cell' cell_empty_def drained_def)
qed

lemma dispute_stake_le:
  "dispute_stake cell sub c = Inr stake \<Longrightarrow>
     stake \<le> (if is_subscription sub then sc_buyer_bond cell else sc_buyer_locked cell)"
  by (auto simp: dispute_stake_def result_simps Let_def)

lemma burn_stakes_money:
  assumes "burn_stakes cell sub stake timed_out = Inr cell'"
    and "is_subscription sub \<Longrightarrow> stake \<le> sc_buyer_bond cell"
  shows "cell_money cell' = cell_money cell"
  using assms
  by (auto simp: burn_stakes_def result_simps add_u128_Inr Let_def cell_money_def split: if_splits)

lemma refundable_le: "refundable_deposit cell sub r c = Inr x \<Longrightarrow> x \<le> r"
  by (auto simp: refundable_deposit_def result_simps Let_def split: if_splits)

text \<open>The pipeline and the escrow debit leave the bonds alone.\<close>

lemma void_claims_bond: "void_claims_at cell t c = Inr cell' \<Longrightarrow> sc_buyer_bond cell' = sc_buyer_bond cell"
  by (auto simp: void_claims_at_def result_simps Let_def)

lemma credit_delta_bond:
  "credit_token_delta cell n c = Inr cell' \<Longrightarrow> sc_buyer_bond cell' = sc_buyer_bond cell"
  by (auto simp: credit_token_delta_def result_simps debit_escrow_Inr)

lemma charge_completed_weeks_money:
  "charge_completed_weeks cell sub c = Inr (cell', sub') \<Longrightarrow> cell_money cell' = cell_money cell"
  by (auto simp: charge_completed_weeks_def result_simps dest: charge_subscription_through_money
      split: if_splits)

lemma resolve_mock_dispute_money:
  assumes "resolve_mock_dispute cell sub c timed_out = Inr (cell', sub', refund, bond)"
  shows "cell_money cell' = cell_money cell \<and> cell_empty cell' \<and> sc_closed cell' \<and> \<not> sc_disputed cell'"
proof -
  obtain cell1 sub1 stake cell2 cell3 cell4 n cell5 refundable where
    s1: "charge_completed_weeks cell sub c = Inr (cell1, sub1)" and
    s2: "dispute_stake cell1 sub1 c = Inr stake" and
    s3: "void_claims_at cell1 (sc_dispute_time cell1) c = Inr cell2" and
    s4: "credit_token_delta cell2 (saturating_sub (sc_tokens_final cell2) (claim_base sub1)) c = Inr cell3" and
    s5: "burn_stakes cell3 (sub1\<lparr>ds_tokens_paid := max (ds_tokens_paid sub1) (sc_tokens_final cell2)\<rparr>)
           stake timed_out = Inr cell4" and
    s6: "settle_mock_fees cell4 n c False = Inr cell5" and
    s7: "refundable_deposit cell5 sub' (sc_buyer_locked cell5 + sc_probe_locked cell5) c = Inr refundable" and
    out: "sc_burned cell' = sc_burned cell5 + (sc_buyer_locked cell5 + sc_probe_locked cell5 - refundable)"
      "sc_buyer_refunded cell' = sc_buyer_refunded cell5 + (refundable + sc_buyer_bond cell5)"
      "sc_seller_received cell' = sc_seller_received cell5 + sc_seller_locked cell5"
      "sc_fee_accrued cell' = sc_fee_accrued cell5"
      "sc_buyer_locked cell' = 0" "sc_probe_locked cell' = 0" "sc_buyer_bond cell' = 0"
      "sc_seller_locked cell' = 0" "sc_closed cell'" "\<not> sc_disputed cell'"
    using assms
    by (fastforce simp: resolve_mock_dispute_def result_simps add_u128_Inr Let_def drained_def
        split: if_splits)
  have sub_shape: "is_subscription (sub1\<lparr>ds_tokens_paid := k\<rparr>) = is_subscription sub1" for k
    by (simp add: is_subscription_def)
  have "cell_money cell4 = cell_money cell3"
    using dispute_stake_le [OF s2] void_claims_bond [OF s3] credit_delta_bond [OF s4]
    by (intro burn_stakes_money [OF s5]) (simp add: sub_shape)
  then have "cell_money cell5 = cell_money cell"
    using settle_mock_fees_money(1) [OF s6] credit_token_delta_money [OF s4]
      void_claims_money [OF s3] charge_completed_weeks_money [OF s1] by simp
  moreover have "cell_money cell' = cell_money cell5"
    using out refundable_le [OF s7] by (simp add: cell_money_def)
  ultimately show ?thesis
    using out settle_mock_fees_money(2) [OF s6] by (simp add: cell_empty_def)
qed

lemma stop_on_probe_money:
  assumes "stop_on_probe cell = Inr (cell', s)"
  shows "cell_money cell' = cell_money cell"
    and "sc_fee_accrued cell = 0 \<Longrightarrow> cell_empty cell'" and "sc_closed cell'"
proof -
  have *: "\<exists>refund. refund = sc_buyer_locked cell + sc_buyer_bond cell
      \<and> sc_burned cell' = sc_burned cell + sc_probe_locked cell + min (sc_probe_locked cell) (sc_seller_locked cell)
      \<and> sc_buyer_refunded cell' = sc_buyer_refunded cell + refund
      \<and> sc_seller_received cell' = sc_seller_received cell
          + (sc_seller_locked cell - min (sc_probe_locked cell) (sc_seller_locked cell))
      \<and> sc_fee_accrued cell' = sc_fee_accrued cell
      \<and> sc_buyer_locked cell' = 0 \<and> sc_probe_locked cell' = 0 \<and> sc_buyer_bond cell' = 0
      \<and> sc_seller_locked cell' = 0 \<and> sc_closed cell'"
    using assms
    by (auto simp: stop_on_probe_def result_simps add_u128_Inr Let_def drained_def
        split: option.splits settlement.splits)
  then show "cell_money cell' = cell_money cell" "sc_closed cell'"
    "sc_fee_accrued cell = 0 \<Longrightarrow> cell_empty cell'"
    by (auto simp: cell_money_def cell_empty_def)
qed

lemma seller_stop_on_probe_money:
  assumes "seller_stop_on_probe cell = Inr (cell', s)"
  shows "cell_money cell' = cell_money cell"
    and "sc_fee_accrued cell = 0 \<Longrightarrow> cell_empty cell'" and "sc_closed cell'"
  using assms
  by (auto simp: seller_stop_on_probe_def result_simps add_u128_Inr Let_def drained_def
      cell_money_def cell_empty_def)

lemma cell_money_machine [simp]: "cell_money (cell\<lparr>sc_machine := m\<rparr>) = cell_money cell"
  by (simp add: cell_money_def)

lemma stop_accepted_money:
  assumes "stop_accepted cell sub now1 now2 c = Inr (cell', sub', s)"
  shows "cell_money cell' = cell_money cell \<and> cell_empty cell' \<and> sc_closed cell'"
proof -
  obtain cell1 cell2 sub2 b cell3 n m cell4 refund where
    s1: "promote_due cell now1 c = Inr cell1" and
    s2: "(if is_subscription sub then and_then (subscription_weeks_at sub now2 True) (\<lambda>started.
            charge_subscription_through cell1 sub started c) else Inr (cell1, sub, False))
          = Inr (cell2, sub2, b)" and
    s3: "(if sc_tokens_final cell2 > ds_tokens_paid sub2
          then credit_tokens_through cell2 sub2 (sc_tokens_final cell2) c else Inr (cell2, sub2))
          = Inr (cell3, sub')" and
    s4: "close_mock_clean (cell3\<lparr>sc_machine := m\<rparr>) n c = Inr (cell4, refund)" and
    out: "cell' = cell4\<lparr>sc_buyer_stop_settlement := Some (sc_seller_received cell4, refund)\<rparr>"
    using assms by (fastforce simp: stop_accepted_def result_simps split: option.splits)
  have "cell_money cell2 = cell_money cell1"
    using s2 by (auto simp: result_simps dest: charge_subscription_through_money split: if_splits)
  moreover have "cell_money cell3 = cell_money cell2"
    using s3 by (auto dest: credit_tokens_through_money split: if_splits)
  ultimately show ?thesis
    using close_mock_clean_money [OF s4] promote_due_money [OF s1]
    by (auto simp: out cell_money_def cell_empty_def)
qed

lemma seller_stop_accepted_money:
  assumes "seller_stop_accepted cell sub now1 now2 c = Inr (cell', sub', s)"
  shows "cell_money cell' = cell_money cell \<and> cell_empty cell' \<and> sc_closed cell'"
proof -
  obtain cell1 cell2 sub2 b cell3 n m refund where
    s1: "promote_due cell now1 c = Inr cell1" and
    s2: "(if is_subscription sub then and_then (subscription_weeks_at sub now2 False) (\<lambda>started.
            charge_subscription_through cell1 sub started c) else Inr (cell1, sub, False))
          = Inr (cell2, sub2, b)" and
    s3: "(if \<not> is_subscription sub2 \<and> sc_tokens_final cell2 > ds_tokens_paid sub2
          then credit_tokens_through cell2 sub2 (sc_tokens_final cell2) c else Inr (cell2, sub2))
          = Inr (cell3, sub')" and
    s4: "close_mock_clean (cell3\<lparr>sc_machine := m\<rparr>) n c = Inr (cell', refund)"
    using assms by (fastforce simp: seller_stop_accepted_def result_simps split: option.splits)
  have "cell_money cell2 = cell_money cell1"
    using s2 by (auto simp: result_simps dest: charge_subscription_through_money split: if_splits)
  moreover have "cell_money cell3 = cell_money cell2"
    using s3 by (auto dest: credit_tokens_through_money split: if_splits)
  ultimately show ?thesis
    using close_mock_clean_money [OF s4] promote_due_money [OF s1] by auto
qed

lemma accept_probe_money:
  "accept_probe_deal cell sub now c = Inr (cell', sub') \<Longrightarrow> cell_money cell' = cell_money cell"
  by (auto simp: accept_probe_deal_def result_simps add_u128_Inr Let_def cell_money_def split: if_splits)

lemma land_claim_money: "land_claim cell n now c = Inr cell' \<Longrightarrow> cell_money cell' = cell_money cell"
  by (auto simp: land_claim_def result_simps Let_def dest!: promote_due_money)
    (auto simp: cell_money_def)

lemma claim_tokens_money:
  "claim_tokens_deal cell sub n now1 now2 c = Inr (cell', sub') \<Longrightarrow> cell_money cell' = cell_money cell"
  by (auto simp: claim_tokens_deal_def result_simps dest!: land_claim_money charge_elapsed_money
      split: if_splits)

lemma close_delivered_money:
  assumes "close_delivered cell sub c = Inr (cell', sub')"
  shows "cell_money cell' = cell_money cell \<and> cell_empty cell' \<and> sc_closed cell'"
proof -
  obtain cell1 n r where s: "credit_tokens_through cell sub (sc_tokens_final cell) c = Inr (cell1, sub')"
    "close_mock_clean cell1 n c = Inr (cell', r)"
    using assms by (auto simp: close_delivered_def result_simps)
  show ?thesis
    using close_mock_clean_money [OF s(2)] credit_tokens_through_money [OF s(1)] by simp
qed

lemma close_final_week_money:
  assumes "close_final_week cell sub now c = Inr (cell', sub')"
  shows "cell_money cell' = cell_money cell \<and> cell_empty cell' \<and> sc_closed cell'"
proof -
  obtain cell1 cell2 cell3 n r where s: "promote_due cell now c = Inr cell1"
    "mirror_promotion cell1 = Inr cell2" "close_mock_clean cell3 n c = Inr (cell', r)"
    "(if sc_tokens_final cell2 > ds_tokens_paid sub
      then credit_tokens_through cell2 sub (sc_tokens_final cell2) c
      else Inr (cell2, sub)) = Inr (cell3, sub')"
    using assms unfolding close_final_week_def by (fastforce simp: result_simps)
  have "cell_money cell3 = cell_money cell2"
    using s(4) by (auto dest: credit_tokens_through_money split: if_splits)
  then show ?thesis
    using close_mock_clean_money [OF s(3)] mirror_promotion_money [OF s(2)] promote_due_money [OF s(1)]
    by simp
qed

lemma finalize_money:
  assumes "finalize_deal cell sub now c = Inr (cell', sub')"
  shows "cell_money cell' = cell_money cell \<and> (sc_closed cell' \<longrightarrow> cell_empty cell' \<or> sc_closed cell)"
proof -
  obtain cell1 cell2 where s: "promote_due cell now c = Inr cell1" "mirror_promotion cell1 = Inr cell2"
    "close_delivered cell2 sub c = Inr (cell', sub') \<or> cell' = cell2"
    using assms unfolding finalize_deal_def by (fastforce simp: result_simps split: if_splits)
  then have "cell_money cell2 = cell_money cell" "sc_closed cell2 = sc_closed cell"
    using mirror_promotion_money [OF s(2)] promote_due_money [OF s(1)]
    by (auto simp: promote_due_def promote_once_def mirror_promotion_def result_simps split: if_splits)
  then show ?thesis using s(3) close_delivered_money by metis
qed

lemma charge_elapsed_closed:
  "charge_elapsed_subscription_weeks cell sub now c = Inr (cell', sub', b) \<Longrightarrow>
     sc_closed cell' = sc_closed cell"
  by (auto simp: charge_elapsed_subscription_weeks_def charge_subscription_through_def
      credit_tokens_through_def debit_escrow_Inr result_simps split: if_splits)

lemma settle_week_money:
  assumes "settle_week_deal cell sub now c = Inr (cell', sub')"
  shows "cell_money cell' = cell_money cell \<and> (sc_closed cell' \<longrightarrow> cell_empty cell' \<or> sc_closed cell)"
proof -
  obtain cell1 sub1 b where
    s: "charge_elapsed_subscription_weeks cell sub now c = Inr (cell1, sub1, b)"
    "close_final_week cell1 sub1 now c = Inr (cell', sub') \<or> cell' = cell1"
    using assms unfolding settle_week_deal_def by (fastforce simp: result_simps split: if_splits)
  then show ?thesis
    using charge_elapsed_money [OF s(1)] charge_elapsed_closed [OF s(1)] close_final_week_money by metis
qed

lemma cell_money_dispute:
  "cell_money (cell\<lparr>sc_machine := m, sc_disputed := d, sc_dispute_time := t\<rparr>) = cell_money cell"
  by (simp add: cell_money_def)

lemma deal_step_money:
  "deal_step c (cell, sub) e = Inr (cell', sub') \<Longrightarrow> cell_money cell' = cell_money cell"
  by (cases e)
    (auto simp: result_simps stop_mock_stream_def seller_stop_deal_def release_dispute_deal_def
      resolve_timeout_deal_def dispute_deal_def Let_def cell_money_dispute
      dest: accept_probe_money claim_tokens_money finalize_money settle_week_money
        stop_on_probe_money(1) stop_accepted_money seller_stop_on_probe_money(1)
        seller_stop_accepted_money resolve_mock_dispute_money split: if_splits)

end
