(* ===== verification/MockPay.thy ===== *)
theory MockPay
  imports MockMoney
begin

text \<open>
  Cumulative prices.  \<open>pay_for\<close>, \<open>fee_on\<close> and \<open>cost_of\<close> are the exact functions behind
  \<open>token_pay_and_fee\<close>: floor division twice.  They are monotone and superadditive, which is why
  paying in instalments can never exceed the escrow of the whole volume; the overflow checks of
  the engine are exact for \<open>u64\<close> prices and \<open>u32\<close> rates.
\<close>

definition pay_for :: "nat \<Rightarrow> nat \<Rightarrow> nat" where
  "pay_for p n = n * p div TICK_SIZE"

definition fee_on :: "protocol_consts \<Rightarrow> nat \<Rightarrow> nat" where
  "fee_on c v = v * platform_fee_bps c div 10000"

definition cost_of :: "protocol_consts \<Rightarrow> nat \<Rightarrow> nat \<Rightarrow> nat" where
  "cost_of c p n = pay_for p n + fee_on c (pay_for p n)"

lemma pay_for_tick [simp]: "pay_for p TICK_SIZE = p"
  by (simp add: pay_for_def TICK_SIZE_def)

lemma pay_for_ticks: "pay_for p (k * TICK_SIZE) = k * p"
  by (simp add: pay_for_def TICK_SIZE_def)

lemma pay_for_0 [simp]: "pay_for p 0 = 0"
  and fee_on_0 [simp]: "fee_on c 0 = 0"
  and cost_of_0 [simp]: "cost_of c p 0 = 0"
  by (simp_all add: pay_for_def fee_on_def cost_of_def)

lemma pay_for_mono: "m \<le> n \<Longrightarrow> pay_for p m \<le> pay_for p n"
  by (simp add: pay_for_def div_le_mono)

lemma fee_on_mono: "v \<le> w \<Longrightarrow> fee_on c v \<le> fee_on c w"
  by (simp add: fee_on_def div_le_mono)

lemma cost_of_mono: "m \<le> n \<Longrightarrow> cost_of c p m \<le> cost_of c p n"
  unfolding cost_of_def by (intro add_mono pay_for_mono fee_on_mono)

lemma pay_le_cost: "pay_for p n \<le> cost_of c p n"
  by (simp add: cost_of_def)

lemma div_superadditive: "a div d + b div d \<le> (a + b) div (d :: nat)"
proof (cases "d = 0")
  case False
  have "a div d * d + b div d * d \<le> a + b" by (intro add_mono) simp_all
  then have "(a div d + b div d) * d \<le> a + b" by (simp add: add_mult_distrib)
  then show ?thesis using False by (simp add: less_eq_div_iff_mult_less_eq)
qed simp

lemma pay_for_superadditive: "pay_for p m + pay_for p n \<le> pay_for p (m + n)"
  using div_superadditive [of "m * p" TICK_SIZE "n * p"] by (simp add: pay_for_def add_mult_distrib)

lemma fee_on_superadditive: "fee_on c v + fee_on c w \<le> fee_on c (v + w)"
  using div_superadditive [of "v * platform_fee_bps c" 10000 "w * platform_fee_bps c"]
  by (simp add: fee_on_def add_mult_distrib)

lemma cost_of_superadditive: "cost_of c p m + cost_of c p n \<le> cost_of c p (m + n)"
proof -
  have "fee_on c (pay_for p m) + fee_on c (pay_for p n) \<le> fee_on c (pay_for p m + pay_for p n)"
    by (rule fee_on_superadditive)
  also have "\<dots> \<le> fee_on c (pay_for p (m + n))" by (intro fee_on_mono pay_for_superadditive)
  finally show ?thesis using pay_for_superadditive [of p m n] by (simp add: cost_of_def)
qed


section \<open>The checked engine computes the exact prices\<close>

lemma mul_div_split:
  fixes d m v :: nat
  assumes "0 < d"
  shows "v div d * m + v mod d * m div d = v * m div d"
proof -
  have "v * m = v div d * m * d + v mod d * m"
    by (metis (no_types, lifting) add_mult_distrib div_mult_mod_eq mult.assoc mult.commute)
  then have "v * m div d = (v mod d * m + v div d * m * d) div d" by (simp add: add.commute)
  also have "\<dots> = v div d * m + v mod d * m div d"
    using assms by (simp add: div_mult_self1)
  finally show ?thesis by simp
qed

lemma checked_mul_div_floor_eq:
  assumes "0 < d" and "(d - 1) * m \<le> u128_max"
  shows "checked_mul_div_floor v m d e =
     (if v * m div d \<le> u128_max then Inr (v * m div d) else Inl (chain_err e))"
proof -
  have "v mod d * m \<le> (d - 1) * m"
    using assms(1) by (intro mult_le_mono1) (metis One_nat_def Suc_pred less_Suc_eq_le mod_less_divisor)
  then have tail: "v mod d * m \<le> u128_max" using assms(2) by linarith
  have split: "v div d * m + v mod d * m div d = v * m div d" using assms(1) by (rule mul_div_split)
  then show ?thesis
    using tail by (auto simp: checked_mul_div_floor_def Let_def checked_mul_def checked_add_def)
qed

lemma u64_tick_fits: "p \<le> u64_max \<Longrightarrow> (TICK_SIZE - 1) * p \<le> u128_max"
proof -
  assume "p \<le> u64_max"
  then have "(TICK_SIZE - 1) * p \<le> (TICK_SIZE - 1) * u64_max" by (rule mult_le_mono2)
  also have "\<dots> \<le> u128_max" by (simp add: TICK_SIZE_def u64_max_def u128_max_def)
  finally show ?thesis .
qed

lemma u32_bps_fits: "r \<le> u32_max \<Longrightarrow> (10000 - 1) * r \<le> u128_max"
proof -
  assume "r \<le> u32_max"
  then have "(10000 - 1) * r \<le> (10000 - 1) * u32_max" by (rule mult_le_mono2)
  also have "\<dots> \<le> u128_max" by (simp add: u32_max_def u128_max_def)
  finally show ?thesis .
qed

lemma token_pay_and_fee_eq:
  assumes "p \<le> u64_max" and "consts_typed c" and "cost_of c p n \<le> u128_max"
  shows "token_pay_and_fee n p c = Inr (pay_for p n, fee_on c (pay_for p n))"
proof -
  have "platform_fee_bps c \<le> u32_max" using assms(2) by (simp add: consts_typed_def)
  moreover have "pay_for p n \<le> u128_max" "fee_on c (pay_for p n) \<le> u128_max"
    using assms(3) by (simp_all add: cost_of_def)
  ultimately show ?thesis
    using checked_mul_div_floor_eq [OF TICK_SIZE_pos u64_tick_fits [OF assms(1)], of n]
      checked_mul_div_floor_eq [of 10000 "platform_fee_bps c" "pay_for p n"] u32_bps_fits
    by (simp add: token_pay_and_fee_def pay_for_def fee_on_def)
qed

lemma token_pay_and_fee_Inr:
  assumes "p \<le> u64_max" and "consts_typed c" and "token_pay_and_fee n p c = Inr (pay, fee)"
  shows "pay = pay_for p n" and "fee = fee_on c (pay_for p n)"
proof -
  have "platform_fee_bps c \<le> u32_max" using assms(2) by (simp add: consts_typed_def)
  then show "pay = pay_for p n" and "fee = fee_on c (pay_for p n)"
    using assms(3) checked_mul_div_floor_eq [OF TICK_SIZE_pos u64_tick_fits [OF assms(1)], of n]
      checked_mul_div_floor_eq [of 10000 "platform_fee_bps c" "pay_for p n"] u32_bps_fits
    by (auto simp: token_pay_and_fee_def pay_for_def fee_on_def result_simps split: if_splits)
qed

text \<open>
  The books of a deal paid up to \<open>n\<close> tokens out of a funded volume \<open>f\<close>: the escrow still holds
  exactly the cost of the rest, and payment and fee are those of \<open>n\<close> tokens.
\<close>

definition paid_up :: "protocol_consts \<Rightarrow> nat \<Rightarrow> stream_cell \<Rightarrow> nat \<Rightarrow> bool" where
  "paid_up c f cell n \<longleftrightarrow>
     sc_buyer_locked cell + cost_of c (sc_price cell) n = cost_of c (sc_price cell) f
     \<and> sc_seller_received cell = pay_for (sc_price cell) n
     \<and> sc_fee_accrued cell = fee_on c (pay_for (sc_price cell) n)"

definition pay_cell :: "protocol_consts \<Rightarrow> nat \<Rightarrow> nat \<Rightarrow> stream_cell \<Rightarrow> stream_cell" where
  "pay_cell c f n cell =
     cell\<lparr>sc_buyer_locked := cost_of c (sc_price cell) f - cost_of c (sc_price cell) n,
          sc_seller_received := pay_for (sc_price cell) n,
          sc_fee_accrued := fee_on c (pay_for (sc_price cell) n)\<rparr>"

lemma pay_cell_paid_up: "n \<le> f \<Longrightarrow> paid_up c f (pay_cell c f n cell) n"
  by (simp add: paid_up_def pay_cell_def cost_of_mono)

text \<open>What a payment never touches.\<close>

lemma pay_cell_frame [simp]:
  "sc_machine (pay_cell c f n cell) = sc_machine cell"
  "sc_tokens_final (pay_cell c f n cell) = sc_tokens_final cell"
  "sc_tokens_pending (pay_cell c f n cell) = sc_tokens_pending cell"
  "sc_seller_locked (pay_cell c f n cell) = sc_seller_locked cell"
  "sc_probe_locked (pay_cell c f n cell) = sc_probe_locked cell"
  "sc_buyer_bond (pay_cell c f n cell) = sc_buyer_bond cell"
  "sc_buyer_refunded (pay_cell c f n cell) = sc_buyer_refunded cell"
  "sc_burned (pay_cell c f n cell) = sc_burned cell"
  "sc_closed (pay_cell c f n cell) = sc_closed cell"
  "sc_disputed (pay_cell c f n cell) = sc_disputed cell"
  "sc_probe_accepted (pay_cell c f n cell) = sc_probe_accepted cell"
  "sc_last_claim_time (pay_cell c f n cell) = sc_last_claim_time cell"
  "sc_dispute_time (pay_cell c f n cell) = sc_dispute_time cell"
  "sc_probe_time (pay_cell c f n cell) = sc_probe_time cell"
  "sc_max_ticks (pay_cell c f n cell) = sc_max_ticks cell"
  "sc_buyer_pubkey (pay_cell c f n cell) = sc_buyer_pubkey cell"
  "sc_schema_version (pay_cell c f n cell) = sc_schema_version cell"
  by (simp_all add: pay_cell_def)

lemma credit_tokens_through_eq:
  assumes "sc_price cell \<le> u64_max" and "consts_typed c"
    and "cost_of c (sc_price cell) (ds_funded_tokens sub) \<le> u128_max"
    and paid: "paid_up c (ds_funded_tokens sub) cell (ds_tokens_paid sub)"
    and range: "ds_tokens_paid sub \<le> n" "n \<le> ds_funded_tokens sub"
  shows "credit_tokens_through cell sub n c =
     Inr (pay_cell c (ds_funded_tokens sub) n cell, sub\<lparr>ds_tokens_paid := n\<rparr>)"
proof -
  let ?p = "sc_price cell" and ?m = "ds_tokens_paid sub" and ?f = "ds_funded_tokens sub"
  have le: "cost_of c ?p ?m \<le> cost_of c ?p n" "cost_of c ?p n \<le> cost_of c ?p ?f"
    using range by (simp_all add: cost_of_mono)
  have tp: "token_pay_and_fee ?m ?p c = Inr (pay_for ?p ?m, fee_on c (pay_for ?p ?m))"
    "token_pay_and_fee n ?p c = Inr (pay_for ?p n, fee_on c (pay_for ?p n))"
    using assms(1-3) le by (auto intro!: token_pay_and_fee_eq)
  have mono: "pay_for ?p ?m \<le> pay_for ?p n" "fee_on c (pay_for ?p ?m) \<le> fee_on c (pay_for ?p n)"
    using range by (simp_all add: pay_for_mono fee_on_mono)
  have debit: "pay_for ?p n - pay_for ?p ?m + (fee_on c (pay_for ?p n) - fee_on c (pay_for ?p ?m))
      = cost_of c ?p n - cost_of c ?p ?m"
    using mono by (simp add: cost_of_def)
  have locked: "sc_buyer_locked cell = cost_of c ?p ?f - cost_of c ?p ?m"
    using paid unfolding paid_up_def by linarith
  have fits: "pay_for ?p n \<le> u128_max" "fee_on c (pay_for ?p n) \<le> u128_max"
    "cost_of c ?p n \<le> u128_max"
    using le(2) assms(3) by (simp_all add: cost_of_def)
  have "debit_escrow cell (pay_for ?p n - pay_for ?p ?m)
      (fee_on c (pay_for ?p n) - fee_on c (pay_for ?p ?m)) = Inr (pay_cell c ?f n cell)"
    using paid mono fits le unfolding debit_escrow_Inr debit pay_cell_def
    by (auto simp: paid_up_def locked)
  then show ?thesis
    using range tp mono by (simp add: credit_tokens_through_def checked_sub_def)
qed

end
