(* ===== verification/MockInvariant.thy ===== *)
theory MockInvariant
  imports MockPay
begin

text \<open>
  The invariant of one deal of the mock chain, from the opening of its stream to after its end:
  its fixed terms, its clock readings, the claim pipeline, the books, and the mirror of all of
  this in the state machine.  \<open>deal_inv c now cell sub\<close> is the invariant at time \<open>now\<close>; the
  theory shows that opening a stream establishes it and every operation keeps it.
\<close>

section \<open>The invariant\<close>

definition shape_inv :: "deal_subscription \<Rightarrow> bool" where
  "shape_inv sub \<longleftrightarrow>
     TICK_SIZE dvd ds_funded_tokens sub \<and> 2 * TICK_SIZE \<le> ds_funded_tokens sub
     \<and> ds_deal_flags sub AND NOT DEAL_MASK = 0
     \<and> (has_flag (ds_deal_flags sub) SUBSCRIPTION \<longleftrightarrow> is_subscription sub)
     \<and> (if is_subscription sub
        then ds_sub_weeks sub = SUBSCRIPTION_WEEKS \<and> TICK_SIZE \<le> ds_tokens_per_week sub
             \<and> ds_tokens_per_week sub * SUBSCRIPTION_WEEKS = ds_funded_tokens sub
        else ds_tokens_per_week sub = ds_funded_tokens sub)
     \<and> ds_week_index sub \<le> ds_sub_weeks sub \<and> ds_tokens_paid sub \<le> ds_funded_tokens sub
     \<and> ds_week_base_tokens sub \<le> ds_funded_tokens sub
     \<and> (\<not> is_subscription sub \<longrightarrow> ds_week_base_tokens sub = 0)"

definition terms_inv :: "protocol_consts \<Rightarrow> stream_cell \<Rightarrow> deal_subscription \<Rightarrow> bool" where
  "terms_inv c cell sub \<longleftrightarrow>
     shape_inv sub \<and> sc_schema_version cell = STREAM_CELL_SCHEMA_VERSION
     \<and> 0 < sc_price cell \<and> sc_price cell \<le> u64_max
     \<and> sc_max_ticks cell * TICK_SIZE = ds_funded_tokens sub \<and> sc_max_ticks cell \<le> u64_max
     \<and> cost_of c (sc_price cell) (ds_funded_tokens sub) \<le> u128_max"

definition times_inv :: "nat \<Rightarrow> stream_cell \<Rightarrow> deal_subscription \<Rightarrow> bool" where
  "times_inv now cell sub \<longleftrightarrow>
     0 < sc_probe_time cell \<and> sc_probe_time cell \<le> sc_last_claim_time cell
     \<and> sc_last_claim_time cell \<le> now \<and> ds_period_start sub \<le> sc_last_claim_time cell
     \<and> sc_dispute_time cell \<le> now
     \<and> (sc_disputed cell \<longrightarrow> sc_dispute_time cell \<noteq> 0)
     \<and> (\<not> sc_disputed cell \<and> \<not> sc_closed cell \<longrightarrow> sc_dispute_time cell = 0)
     \<and> (sc_dispute_time cell \<noteq> 0 \<longrightarrow> sc_last_claim_time cell \<le> sc_dispute_time cell)"

definition pipe_inv :: "stream_cell \<Rightarrow> deal_subscription \<Rightarrow> bool" where
  "pipe_inv cell sub \<longleftrightarrow>
     sc_tokens_final cell \<le> sc_tokens_pending cell \<and> sc_tokens_pending cell \<le> ds_funded_tokens sub
     \<and> sc_tokens_pending cell \<le> sc_tokens_final cell + MAX_CLAIM_DELTA
     \<and> (if sc_probe_accepted cell then TICK_SIZE \<le> sc_tokens_final cell else sc_tokens_pending cell = 0)"

text \<open>What an open accepted deal has paid: the probe, or every week charged.\<close>

definition paid_target :: "deal_subscription \<Rightarrow> nat" where
  "paid_target sub =
     (if ds_week_index sub = 0 then TICK_SIZE else ds_week_index sub * ds_tokens_per_week sub)"

text \<open>The current week's claims fit its quota; past the last week there are none.\<close>

definition weekly_room :: "stream_cell \<Rightarrow> deal_subscription \<Rightarrow> bool" where
  "weekly_room cell sub \<longleftrightarrow>
     ds_week_base_tokens sub \<le> sc_tokens_pending cell
     \<and> ds_week_base_tokens sub \<le> ds_week_index sub * ds_tokens_per_week sub
     \<and> (if ds_week_index sub < ds_sub_weeks sub
        then sc_tokens_pending cell \<le> ds_week_base_tokens sub + ds_tokens_per_week sub
        else is_subscription sub \<longrightarrow> sc_tokens_pending cell = ds_week_base_tokens sub)"

definition books_inv :: "protocol_consts \<Rightarrow> stream_cell \<Rightarrow> deal_subscription \<Rightarrow> bool" where
  "books_inv c cell sub \<longleftrightarrow>
     sc_seller_locked cell = 2 * sc_price cell
     \<and> sc_buyer_bond cell = (if is_subscription sub then 2 * sc_price cell else 0)
     \<and> sc_buyer_refunded cell = 0 \<and> sc_burned cell = 0
     \<and> (if sc_probe_accepted cell
        then ds_tokens_paid sub = paid_target sub
             \<and> paid_up c (ds_funded_tokens sub) cell (ds_tokens_paid sub) \<and> weekly_room cell sub
        else sc_probe_locked cell = sc_price cell
             \<and> sc_buyer_locked cell + sc_price cell = cost_of c (sc_price cell) (ds_funded_tokens sub)
             \<and> sc_seller_received cell = 0 \<and> sc_fee_accrued cell = 0
             \<and> ds_tokens_paid sub = 0 \<and> ds_week_index sub = 0 \<and> ds_week_base_tokens sub = 0)"

definition machine_inv :: "stream_cell \<Rightarrow> bool" where
  "machine_inv cell \<longleftrightarrow>
     sm_state (sc_machine cell) =
       (let trusted = div_ceil (sc_tokens_final cell) TICK_SIZE;
            pending = div_ceil (sc_tokens_pending cell) TICK_SIZE in
        if sc_closed cell then Closed
        else if sc_disputed cell then Disputed trusted (pending - trusted)
        else if sc_probe_accepted cell then Streaming trusted pending
        else Probe \<lparr>tk_index = 0, tk_price = sc_price cell\<rparr>)"

text \<open>What the two sides put into the deal.\<close>

definition deal_funding :: "protocol_consts \<Rightarrow> stream_cell \<Rightarrow> deal_subscription \<Rightarrow> nat" where
  "deal_funding c cell sub =
     cost_of c (sc_price cell) (ds_funded_tokens sub) + 2 * sc_price cell
     + (if is_subscription sub then 2 * sc_price cell else 0)"

definition deal_inv :: "protocol_consts \<Rightarrow> nat \<Rightarrow> stream_cell \<Rightarrow> deal_subscription \<Rightarrow> bool" where
  "deal_inv c now cell sub \<longleftrightarrow>
     terms_inv c cell sub \<and> times_inv now cell sub \<and> pipe_inv cell sub \<and> machine_inv cell
     \<and> (sc_probe_accepted cell \<longrightarrow> sc_probe_locked cell = 0)
     \<and> cell_money cell = deal_funding c cell sub
     \<and> (if sc_closed cell then cell_empty cell \<and> \<not> sc_disputed cell else books_inv c cell sub)"

lemma deal_inv_later: "deal_inv c now cell sub \<Longrightarrow> now \<le> later \<Longrightarrow> deal_inv c later cell sub"
  by (auto simp: deal_inv_def times_inv_def)


section \<open>Terms never change\<close>

text \<open>What no operation changes once the stream is open.\<close>

definition same_terms :: "stream_cell \<times> deal_subscription \<Rightarrow> stream_cell \<times> deal_subscription \<Rightarrow> bool" where
  "same_terms x y \<longleftrightarrow>
     (case (x, y) of ((cell, sub), (cell', sub')) \<Rightarrow>
        sc_schema_version cell' = sc_schema_version cell \<and> sc_price cell' = sc_price cell
        \<and> sc_max_ticks cell' = sc_max_ticks cell \<and> sc_buyer_pubkey cell' = sc_buyer_pubkey cell
        \<and> sc_probe_time cell' = sc_probe_time cell
        \<and> ds_deal_flags sub' = ds_deal_flags sub \<and> ds_sub_weeks sub' = ds_sub_weeks sub
        \<and> ds_tokens_per_week sub' = ds_tokens_per_week sub
        \<and> ds_funded_tokens sub' = ds_funded_tokens sub)"

lemma same_terms_funding:
  "same_terms (cell, sub) (cell', sub') \<Longrightarrow> deal_funding c cell' sub' = deal_funding c cell sub"
  by (simp add: same_terms_def deal_funding_def is_subscription_def)

lemma same_terms_terms:
  assumes "same_terms (cell, sub) (cell', sub')" and "terms_inv c cell sub"
    and "ds_week_index sub' \<le> ds_sub_weeks sub'" "ds_tokens_paid sub' \<le> ds_funded_tokens sub'"
    "ds_week_base_tokens sub' \<le> ds_funded_tokens sub'"
    "\<not> is_subscription sub \<Longrightarrow> ds_week_base_tokens sub' = 0"
  shows "terms_inv c cell' sub'"
  using assms by (simp add: same_terms_def terms_inv_def shape_inv_def is_subscription_def)


section \<open>Engine steps under the invariant\<close>

text \<open>
  An open accepted deal at time \<open>now\<close>, disputed or not, without its mirror in the state machine,
  which lags behind inside an operation.
\<close>

definition running :: "protocol_consts \<Rightarrow> nat \<Rightarrow> stream_cell \<Rightarrow> deal_subscription \<Rightarrow> bool" where
  "running c now cell sub \<longleftrightarrow>
     terms_inv c cell sub \<and> times_inv now cell sub \<and> pipe_inv cell sub \<and> books_inv c cell sub
     \<and> sc_probe_locked cell = 0 \<and> \<not> sc_closed cell \<and> sc_probe_accepted cell"

lemma running_books:
  assumes "running c now cell sub"
  shows "ds_tokens_paid sub = paid_target sub" "weekly_room cell sub"
    "paid_up c (ds_funded_tokens sub) cell (ds_tokens_paid sub)"
    "sc_seller_locked cell = 2 * sc_price cell" "sc_buyer_refunded cell = 0" "sc_burned cell = 0"
    "sc_buyer_bond cell = (if is_subscription sub then 2 * sc_price cell else 0)"
  using assms by (auto simp: running_def books_inv_def)

lemma running_money:
  assumes run: "running c now cell sub"
  shows "cell_money cell = deal_funding c cell sub"
proof -
  have "sc_probe_locked cell = 0" using run by (simp add: running_def)
  moreover have "sc_buyer_locked cell + (sc_seller_received cell + sc_fee_accrued cell)
      = cost_of c (sc_price cell) (ds_funded_tokens sub)"
    using running_books(3) [OF run] by (simp add: paid_up_def cost_of_def)
  ultimately show ?thesis
    using running_books [OF run] by (simp add: cell_money_def deal_funding_def)
qed

lemma running_iff:
  "running c now cell sub \<and> machine_inv cell \<longleftrightarrow>
     deal_inv c now cell sub \<and> \<not> sc_closed cell \<and> sc_probe_accepted cell"
  using running_money by (auto simp: running_def deal_inv_def)

lemma sub_weeks_4: "shape_inv sub \<Longrightarrow> ds_sub_weeks sub \<in> {0, 4}"
  by (auto simp: shape_inv_def is_subscription_def SUBSCRIPTION_WEEKS_def split: if_splits)

definition weeks_at :: "deal_subscription \<Rightarrow> nat \<Rightarrow> bool \<Rightarrow> nat" where
  "weeks_at sub now started =
     (let w = min ((now - ds_period_start sub) div SUB_WEEK_LEN) (ds_sub_weeks sub)
      in if started \<and> w < ds_sub_weeks sub then w + 1 else w)"

lemma weeks_at_le: "weeks_at sub now started \<le> ds_sub_weeks sub"
  by (simp add: weeks_at_def Let_def)

lemma subscription_weeks_at_eq:
  assumes "shape_inv sub" and "ds_period_start sub \<le> now"
  shows "subscription_weeks_at sub now started = Inr (weeks_at sub now started)"
proof -
  have "ds_sub_weeks sub \<le> 4" using sub_weeks_4 [OF assms(1)] by auto
  then have "weeks_at sub now started \<le> u8_max"
    using weeks_at_le [of sub now started] by (simp add: u8_max_def)
  then show ?thesis
    using assms(2) by (simp add: subscription_weeks_at_def checked_sub_def weeks_at_def Let_def
        try_from_def split: if_splits)
qed

lemma subscription_weeks_at_Inr:
  assumes "shape_inv sub" and "subscription_weeks_at sub now started = Inr w"
  shows "w = weeks_at sub now started"
proof -
  have "ds_period_start sub \<le> now"
    using assms(2) by (auto simp: subscription_weeks_at_def result_simps checked_simps)
  then show ?thesis using subscription_weeks_at_eq [OF assms(1)] assms(2) by simp
qed

text \<open>The shape after the weeks up to \<open>w\<close> have been charged.\<close>

definition charged :: "protocol_consts \<Rightarrow> nat \<Rightarrow> stream_cell \<Rightarrow> deal_subscription \<Rightarrow> stream_cell \<times> deal_subscription" where
  "charged c w cell sub =
     (if w \<le> ds_week_index sub then (cell, sub)
      else (pay_cell c (ds_funded_tokens sub) (w * ds_tokens_per_week sub) cell,
            sub\<lparr>ds_tokens_paid := w * ds_tokens_per_week sub, ds_week_index := w,
                ds_week_base_tokens := sc_tokens_pending cell\<rparr>))"

lemma week_target_le_funded:
  "shape_inv sub \<Longrightarrow> is_subscription sub \<Longrightarrow> w \<le> ds_sub_weeks sub \<Longrightarrow>
     w * ds_tokens_per_week sub \<le> ds_funded_tokens sub"
  by (metis mult.commute mult_le_mono1 shape_inv_def)

lemma paid_target_mono:
  assumes "shape_inv sub" and "is_subscription sub" and "ds_week_index sub < w"
  shows "paid_target sub \<le> w * ds_tokens_per_week sub"
proof (cases "ds_week_index sub = 0")
  case True
  have "TICK_SIZE \<le> 1 * ds_tokens_per_week sub" using assms by (simp add: shape_inv_def)
  also have "\<dots> \<le> w * ds_tokens_per_week sub" using assms(3) by (intro mult_le_mono1) simp
  finally show ?thesis using True by (simp add: paid_target_def)
qed (use assms(3) in \<open>simp add: paid_target_def mult_le_mono1\<close>)

lemma funded_fits: "terms_inv c cell sub \<Longrightarrow> ds_funded_tokens sub \<le> u128_max"
proof -
  assume inv: "terms_inv c cell sub"
  then have "sc_max_ticks cell * TICK_SIZE \<le> u64_max * TICK_SIZE"
    by (intro mult_le_mono1) (simp add: terms_inv_def)
  also have "\<dots> \<le> u128_max" by (simp add: TICK_SIZE_def u64_max_def u128_max_def)
  finally show ?thesis using inv by (simp add: terms_inv_def)
qed

lemma charge_through_eq:
  assumes run: "running c now cell sub" and typed: "consts_typed c" and sub: "is_subscription sub"
    and w: "w \<le> ds_sub_weeks sub"
  shows "charge_subscription_through cell sub w c =
     Inr (fst (charged c w cell sub), snd (charged c w cell sub), ds_week_index sub < w)"
proof (cases "w \<le> ds_week_index sub")
  case False
  let ?n = "w * ds_tokens_per_week sub"
  have inv: "terms_inv c cell sub" "shape_inv sub" "books_inv c cell sub"
    using run by (auto simp: running_def terms_inv_def)
  have n: "?n \<le> ds_funded_tokens sub" using inv(2) sub w by (rule week_target_le_funded)
  then have "?n \<le> u128_max" using funded_fits [OF inv(1)] by simp
  moreover have "credit_tokens_through cell sub ?n c =
      Inr (pay_cell c (ds_funded_tokens sub) ?n cell, sub\<lparr>ds_tokens_paid := ?n\<rparr>)"
    using inv run typed n False paid_target_mono [OF inv(2) sub, of w]
    by (intro credit_tokens_through_eq) (auto simp: terms_inv_def books_inv_def running_def)
  ultimately show ?thesis
    using False by (simp add: charge_subscription_through_def charged_def checked_mul_def)
qed (simp add: charge_subscription_through_def charged_def)

lemma charged_same_terms: "same_terms (cell, sub) (charged c w cell sub)"
  by (simp add: charged_def same_terms_def)

text \<open>Charging weeks keeps the invariant of a running deal.\<close>

lemma charged_running:
  assumes run: "running c now cell sub" and sub: "is_subscription sub" and w: "w \<le> ds_sub_weeks sub"
  shows "running c now (fst (charged c w cell sub)) (snd (charged c w cell sub))"
proof (cases "w \<le> ds_week_index sub")
  case False
  let ?n = "w * ds_tokens_per_week sub" and ?f = "ds_funded_tokens sub"
  define cell' where "cell' = pay_cell c ?f ?n cell"
  define sub' where "sub' = sub\<lparr>ds_tokens_paid := ?n, ds_week_index := w,
                ds_week_base_tokens := sc_tokens_pending cell\<rparr>"
  have inv: "terms_inv c cell sub" "times_inv now cell sub" "pipe_inv cell sub" "books_inv c cell sub"
    and op: "\<not> sc_closed cell" "sc_probe_accepted cell" "sc_probe_locked cell = 0"
    using run by (simp_all add: running_def)
  have n: "?n \<le> ?f" using inv(1) sub w by (auto simp: terms_inv_def intro: week_target_le_funded)
  have terms: "terms_inv c cell' sub'"
    using inv n w sub by (auto simp: terms_inv_def shape_inv_def cell'_def sub'_def
        is_subscription_def pipe_inv_def)
  have times: "times_inv now cell' sub'" "pipe_inv cell' sub'"
    using inv by (simp_all add: times_inv_def pipe_inv_def cell'_def sub'_def)
  have paid: "paid_up c ?f cell' ?n" unfolding cell'_def using n by (rule pay_cell_paid_up)
  have "(ds_week_index sub + 1) * ds_tokens_per_week sub \<le> ?n" using False by (intro mult_le_mono1) simp
  then have "sc_tokens_pending cell \<le> ?n"
    using running_books(2) [OF run] False w by (simp add: weekly_room_def)
  then have "books_inv c cell' sub'"
    using inv(4) paid op False sub
    by (auto simp: books_inv_def cell'_def sub'_def paid_target_def weekly_room_def is_subscription_def)
  then show ?thesis
    using terms times op False
    by (simp add: running_def charged_def flip: cell'_def sub'_def) (simp add: cell'_def)
qed (use run in \<open>simp add: charged_def\<close>)

lemma charge_through_running:
  assumes "running c now cell sub" and "consts_typed c" and "is_subscription sub"
    and "w \<le> ds_sub_weeks sub" and "charge_subscription_through cell sub w c = Inr (cell', sub', b)"
  shows "running c now cell' sub'" and "(cell', sub') = charged c w cell sub"
    and "b \<longleftrightarrow> ds_week_index sub < w"
  using charge_through_eq [OF assms(1-4)] charged_running [OF assms(1,3,4)] assms(5) by auto


section \<open>Closing\<close>

text \<open>What an operation may change of a deal before it closes it.\<close>

definition evolves :: "stream_cell \<times> deal_subscription \<Rightarrow> stream_cell \<times> deal_subscription \<Rightarrow> bool" where
  "evolves x y \<longleftrightarrow>
     same_terms x y
     \<and> (case (x, y) of ((cell, sub), (cell', sub')) \<Rightarrow>
          sc_probe_accepted cell' = sc_probe_accepted cell
          \<and> sc_last_claim_time cell' = sc_last_claim_time cell
          \<and> sc_dispute_time cell' = sc_dispute_time cell
          \<and> ds_period_start sub' = ds_period_start sub
          \<and> sc_tokens_final cell \<le> sc_tokens_final cell'
          \<and> sc_tokens_final cell' \<le> sc_tokens_pending cell'
          \<and> sc_tokens_pending cell' \<le> sc_tokens_pending cell
          \<and> ds_week_index sub' \<le> ds_sub_weeks sub
          \<and> ds_tokens_paid sub' \<le> ds_funded_tokens sub
          \<and> ds_week_base_tokens sub' \<le> ds_funded_tokens sub
          \<and> (\<not> is_subscription sub \<longrightarrow> ds_week_base_tokens sub' = 0))"

definition closes :: "stream_cell \<times> deal_subscription \<Rightarrow> stream_cell \<times> deal_subscription \<Rightarrow> bool" where
  "closes x y \<longleftrightarrow>
     evolves x y
     \<and> (case y of (cell', sub') \<Rightarrow>
          sc_closed cell' \<and> cell_empty cell' \<and> \<not> sc_disputed cell'
          \<and> sm_state (sc_machine cell') = Closed)"

lemma evolves_trans: "evolves x y \<Longrightarrow> evolves y z \<Longrightarrow> evolves x z"
  by (cases x; cases y; cases z)
    (auto simp: evolves_def same_terms_def is_subscription_def)

lemma evolves_closes: "evolves x y \<Longrightarrow> closes y z \<Longrightarrow> closes x z"
  using evolves_trans by (auto simp: closes_def)

lemma closes_inv:
  assumes inv: "deal_inv c now cell sub" and cl: "closes (cell, sub) (cell', sub')"
    and money: "cell_money cell' = cell_money cell"
  shows "deal_inv c now cell' sub'"
proof -
  have ev: "evolves (cell, sub) (cell', sub')" and same: "same_terms (cell, sub) (cell', sub')"
    using cl by (auto simp: closes_def evolves_def)
  have "terms_inv c cell' sub'"
    using same_terms_terms [OF same, of c] inv ev
    by (auto simp: deal_inv_def evolves_def same_terms_def)
  moreover have "times_inv now cell' sub'"
    using inv cl by (auto simp: deal_inv_def times_inv_def closes_def evolves_def same_terms_def)
  moreover have "pipe_inv cell' sub'"
    using inv ev by (auto simp: deal_inv_def pipe_inv_def evolves_def same_terms_def split: if_splits)
  moreover have "machine_inv cell'" using cl by (simp add: closes_def machine_inv_def)
  ultimately show ?thesis
    using cl inv money same_terms_funding [OF same]
    by (auto simp: deal_inv_def closes_def cell_empty_def)
qed

lemma promote_due_Inr:
  "promote_due cell now c = Inr cell' \<Longrightarrow>
     cell' = cell \<or> cell' = cell\<lparr>sc_tokens_final := sc_tokens_pending cell\<rparr>"
  by (auto simp: promote_due_def promote_once_def result_simps)

lemma inv_final_frame [simp]:
  "terms_inv c (cell\<lparr>sc_tokens_final := n\<rparr>) sub = terms_inv c cell sub"
  "times_inv t (cell\<lparr>sc_tokens_final := n\<rparr>) sub = times_inv t cell sub"
  "books_inv c (cell\<lparr>sc_tokens_final := n\<rparr>) sub = books_inv c cell sub"
  by (simp_all add: terms_inv_def times_inv_def books_inv_def paid_up_def weekly_room_def)

lemma promoted_running:
  assumes run: "running c now cell sub" and "promote_due cell t c = Inr cell'"
  shows "running c now cell' sub" and "evolves (cell, sub) (cell', sub)"
proof -
  have pipe: "pipe_inv cell sub" and shape: "shape_inv sub"
    using run by (simp_all add: running_def terms_inv_def)
  have "pipe_inv (cell\<lparr>sc_tokens_final := sc_tokens_pending cell\<rparr>) sub"
    using pipe by (auto simp: pipe_inv_def split: if_splits)
  then show "running c now cell' sub"
    using promote_due_Inr [OF assms(2)] run by (auto simp: running_def)
  show "evolves (cell, sub) (cell', sub)"
    using promote_due_Inr [OF assms(2)] pipe shape
    by (elim disjE) (auto simp: evolves_def same_terms_def pipe_inv_def shape_inv_def)
qed

lemma charged_evolves:
  assumes "running c now cell sub" and "is_subscription sub" and "w \<le> ds_sub_weeks sub"
  shows "evolves (cell, sub) (charged c w cell sub)"
  using assms week_target_le_funded [of sub w]
  by (auto simp: charged_def evolves_def same_terms_def running_def terms_inv_def shape_inv_def
      pipe_inv_def)

lemma close_mock_clean_frame:
  assumes "close_mock_clean cell n c = Inr (cell', r)"
  shows "sc_tokens_final cell' = sc_tokens_final cell" "sc_tokens_pending cell' = sc_tokens_pending cell"
    "sc_probe_accepted cell' = sc_probe_accepted cell" "sc_disputed cell' = sc_disputed cell"
    "sc_last_claim_time cell' = sc_last_claim_time cell" "sc_dispute_time cell' = sc_dispute_time cell"
    "sc_probe_time cell' = sc_probe_time cell" "sc_max_ticks cell' = sc_max_ticks cell"
    "sc_buyer_pubkey cell' = sc_buyer_pubkey cell" "sc_schema_version cell' = sc_schema_version cell"
    "sc_machine cell' = machine_close (sc_machine cell)"
  using assms
  by (auto simp: close_mock_clean_def settle_mock_fees_def result_simps add_u128_Inr drained_def)

text \<open>
  The common end of a running deal: pay up to some number of tokens, or not, and close cleanly.
\<close>

definition pay_through :: "protocol_consts \<Rightarrow> nat option \<Rightarrow> stream_cell \<times> deal_subscription \<Rightarrow> stream_cell \<times> deal_subscription" where
  "pay_through c n x =
     (case (n, x) of (None, _) \<Rightarrow> x
      | (Some k, (cell, sub)) \<Rightarrow>
          (pay_cell c (ds_funded_tokens sub) k cell, sub\<lparr>ds_tokens_paid := k\<rparr>))"

lemma close_running:
  assumes run: "running c now cell sub" and nd: "\<not> sc_disputed cell"
    and pay: "(cell1, sub1) = pay_through c n (cell, sub)" and n: "\<And>k. n = Some k \<Longrightarrow> k \<le> ds_funded_tokens sub"
    and m: "sm_price m = sc_price cell"
    and cl: "close_mock_clean (cell1\<lparr>sc_machine := m\<rparr>) d c = Inr (cell2, r)"
  shows "closes (cell, sub) (cell2, sub1)"
proof -
  have "machine_close m = m\<lparr>sm_state := Closed\<rparr>" by (simp add: machine_close_def)
  moreover have "cell_empty cell2" "sc_closed cell2" using close_mock_clean_money [OF cl] by auto
  moreover have "evolves (cell, sub) (cell1, sub1)"
    using run pay n by (cases n)
      (auto simp: evolves_def same_terms_def pay_through_def running_def terms_inv_def shape_inv_def
        pipe_inv_def)
  ultimately show ?thesis
    using close_mock_clean_frame [OF cl] nd m pay
    by (cases n) (auto simp: closes_def evolves_def same_terms_def pay_through_def)
qed

text \<open>Paying what is trusted and not yet paid.\<close>

lemma credit_running:
  assumes run: "running c now cell sub" and "consts_typed c" and le: "ds_tokens_paid sub \<le> n"
    and "n \<le> ds_funded_tokens sub"
  shows "credit_tokens_through cell sub n c = Inr (pay_through c (Some n) (cell, sub))"
  using credit_tokens_through_eq [of cell c sub n] running_books(3) [OF run] assms
  by (simp add: running_def terms_inv_def pay_through_def)

end
