(* ===== verification/MockSteps.thy ===== *)
theory MockSteps
  imports MockInvariant
begin

text \<open>
  Every operation of a deal keeps the deal invariant, and the deals the invariant speaks about
  are exactly those a sequence of operations with a clock that never runs backwards can reach
  from an opened stream.
\<close>

section \<open>Opening\<close>

definition fresh_shape :: "deal_subscription \<Rightarrow> bool" where
  "fresh_shape sub \<longleftrightarrow>
     shape_inv sub \<and> ds_tokens_paid sub = 0 \<and> ds_week_index sub = 0 \<and> ds_week_base_tokens sub = 0"

lemma gross_deposit_Inr:
  assumes "p \<le> u64_max" and "consts_typed c" and "gross_deposit_of n p c = Inr g"
  shows "g = cost_of c p n" and "cost_of c p n \<le> u128_max"
  using assms(3) token_pay_and_fee_Inr [OF assms(1,2)]
  by (auto simp: gross_deposit_of_def result_simps add_u128_Inr cost_of_def)

lemma gross_deposit_eq:
  assumes "p \<le> u64_max" and "consts_typed c" and "cost_of c p n \<le> u128_max"
  shows "gross_deposit_of n p c = Inr (cost_of c p n)"
  using token_pay_and_fee_eq [OF assms] assms(3)
  by (simp add: gross_deposit_of_def add_u128_def cost_of_def checked_add_def)

lemma price_le_cost: "shape_inv sub \<Longrightarrow> p \<le> cost_of c p (ds_funded_tokens sub)"
  using pay_for_mono [of TICK_SIZE "ds_funded_tokens sub" p] pay_le_cost [of p "ds_funded_tokens sub" c]
  by (simp add: shape_inv_def)

lemma open_cell_eq:
  assumes "mt_price_per_tick m \<le> u64_max" and "consts_typed c" and "shape_inv sub"
    and "cost_of c (mt_price_per_tick m) (ds_funded_tokens sub) \<le> u128_max"
  shows "is_ok (open_cell m k sub t c)"
  using gross_deposit_eq [OF assms(1,2,4)] price_le_cost [OF assms(3)]
  by (simp add: open_cell_def Let_def checked_sub_def)

lemma open_cell_inv:
  assumes ok: "open_cell m k sub t c = Inr cell" and fresh: "fresh_shape sub"
    and price: "0 < mt_price_per_tick m" "mt_price_per_tick m \<le> u64_max" and "consts_typed c"
    and k: "k * TICK_SIZE = ds_funded_tokens sub" "k \<le> u64_max"
    and t: "0 < t" "ds_period_start sub \<le> t"
  shows "deal_inv c t cell sub" and "\<not> sc_closed cell" and "\<not> sc_probe_accepted cell"
    and "sc_buyer_pubkey cell = mt_buyer_pubkey m" and "sc_price cell = mt_price_per_tick m"
    and "sc_max_ticks cell = k"
proof -
  let ?p = "mt_price_per_tick m" and ?f = "ds_funded_tokens sub"
  obtain g where g: "gross_deposit_of ?f ?p c = Inr g" and le: "?p \<le> g"
    using ok by (auto simp: open_cell_def result_simps checked_simps Let_def)
  have cost: "g = cost_of c ?p ?f" "cost_of c ?p ?f \<le> u128_max"
    using gross_deposit_Inr [OF price(2) \<open>consts_typed c\<close> g] by auto
  have cell: "sc_schema_version cell = STREAM_CELL_SCHEMA_VERSION" "sc_machine cell = machine_open ?p"
    "\<not> sc_probe_accepted cell" "sc_buyer_pubkey cell = mt_buyer_pubkey m"
    "sc_seller_locked cell = 2 * ?p" "sc_buyer_locked cell = g - ?p" "sc_probe_locked cell = ?p"
    "sc_probe_time cell = t" "sc_buyer_bond cell = (if is_subscription sub then 2 * ?p else 0)"
    "sc_fee_accrued cell = 0" "sc_tokens_final cell = 0" "sc_tokens_pending cell = 0"
    "sc_last_claim_time cell = t" "sc_seller_received cell = 0" "sc_buyer_refunded cell = 0"
    "sc_burned cell = 0" "\<not> sc_closed cell" "sc_max_ticks cell = k" "\<not> sc_disputed cell"
    "sc_dispute_time cell = 0"
    using ok g le by (auto simp: open_cell_def result_simps checked_simps Let_def)
  have p: "sc_price cell = ?p" by (simp add: cell machine_open_def)
  have "terms_inv c cell sub" using fresh price k cost p by (simp add: terms_inv_def fresh_shape_def cell)
  moreover have "times_inv t cell sub" using t by (simp add: times_inv_def cell)
  moreover have "pipe_inv cell sub" by (simp add: pipe_inv_def cell)
  moreover have "machine_inv cell" by (simp add: machine_inv_def cell machine_open_def)
  moreover have "books_inv c cell sub"
    using fresh le cost p by (simp add: books_inv_def cell fresh_shape_def)
  moreover have "cell_money cell = deal_funding c cell sub"
    using le cost p by (simp add: cell_money_def cell deal_funding_def)
  ultimately show "deal_inv c t cell sub" using cell by (simp add: deal_inv_def)
qed (use ok in \<open>auto simp: open_cell_def result_simps checked_simps Let_def machine_open_def\<close>)


section \<open>Accepting the probe\<close>

lemma accept_probe_inv:
  assumes ok: "accept_probe_deal cell sub t c = Inr (cell', sub')" and inv: "deal_inv c now cell sub"
    and "consts_typed c" and "now \<le> t"
  shows "running c t cell' sub'" and "machine_inv cell'" and "\<not> sc_disputed cell'"
    and "same_terms (cell, sub) (cell', sub')"
proof -
  let ?p = "sc_price cell" and ?f = "ds_funded_tokens sub"
  have op: "\<not> sc_closed cell" "\<not> sc_disputed cell" "\<not> sc_probe_accepted cell"
    using ok by (auto simp: accept_probe_deal_def split: if_splits)
  have invs: "terms_inv c cell sub" "times_inv now cell sub" "books_inv c cell sub" "machine_inv cell"
    using inv op by (simp_all add: deal_inv_def)
  have books: "sc_probe_locked cell = ?p" "sc_buyer_locked cell + ?p = cost_of c ?p ?f"
    "sc_seller_received cell = 0" "sc_fee_accrued cell = 0" "ds_week_index sub = 0"
    "sc_buyer_refunded cell = 0" "sc_burned cell = 0" "sc_seller_locked cell = 2 * ?p"
    "sc_buyer_bond cell = (if is_subscription sub then 2 * ?p else 0)"
    using invs(3) op by (simp_all add: books_inv_def)
  define fee where "fee = fee_on c ?p"
  have tp: "token_pay_and_fee TICK_SIZE ?p c = Inr (a, b) \<Longrightarrow> b = fee" for a b
    using token_pay_and_fee_Inr [of ?p c TICK_SIZE a b] invs(1) assms(3)
    by (simp add: terms_inv_def fee_def)
  have res: "fee \<le> sc_buyer_locked cell"
      "cell' = cell\<lparr>sc_machine := (sc_machine cell)\<lparr>sm_state := Streaming 1 1\<rparr>, sc_probe_accepted := True,
                      sc_buyer_locked := sc_buyer_locked cell - fee, sc_probe_locked := 0,
                      sc_seller_received := ?p, sc_fee_accrued := fee,
                      sc_tokens_final := TICK_SIZE, sc_tokens_pending := TICK_SIZE,
                      sc_last_claim_time := t\<rparr>"
      "sub' = sub\<lparr>ds_tokens_paid := TICK_SIZE, ds_period_start := t, ds_week_base_tokens := 0\<rparr>"
    using ok books
    by (auto simp: accept_probe_deal_def result_simps Let_def add_u128_Inr lift_machine_def
        on_probe_accepted_Inr dest!: tp split: if_splits)
  have shape: "shape_inv sub" using invs(1) by (simp add: terms_inv_def)
  have "terms_inv c cell' sub'"
    using invs(1) by (auto simp: res terms_inv_def shape_inv_def is_subscription_def)
  moreover have "times_inv t cell' sub'"
    using invs(2) \<open>now \<le> t\<close> op by (auto simp: res times_inv_def)
  moreover have "pipe_inv cell' sub'" using shape by (simp add: res pipe_inv_def shape_inv_def)
  moreover have "books_inv c cell' sub'"
    using books res(1) shape
    by (auto simp: books_inv_def res paid_target_def paid_up_def cost_of_def fee_def weekly_room_def
        is_subscription_def shape_inv_def split: if_splits)
  ultimately show "running c t cell' sub'" using op by (simp add: running_def res)
  show "machine_inv cell'" using op by (simp add: machine_inv_def res div_ceil_def TICK_SIZE_def)
  show "\<not> sc_disputed cell'" using op by (simp add: res)
  show "same_terms (cell, sub) (cell', sub')" by (simp add: same_terms_def res)
qed


section \<open>Claims and promotion\<close>

lemma land_claim_Inr:
  assumes "land_claim cell n t c = Inr cell'"
  shows "\<exists>cell1 m. promote_due cell t c = Inr cell1 \<and> sc_tokens_pending cell1 = sc_tokens_final cell1
     \<and> div_ceil n TICK_SIZE \<le> u64_max \<and> on_claim (sc_machine cell1) (div_ceil n TICK_SIZE) = Inr m
     \<and> sc_last_claim_time cell \<le> t \<and> n \<le> sc_tokens_pending cell + MAX_CLAIM_DELTA
     \<and> cell' = cell1\<lparr>sc_machine := m, sc_tokens_pending := n, sc_last_claim_time := t\<rparr>"
  using assms
  by (auto simp: land_claim_def result_simps checked_simps Let_def lift_machine_def)

text \<open>A claim within the week's quota and the funded volume keeps the deal running.\<close>

lemma land_claim_running:
  assumes run: "running c now cell sub" and mach: "machine_inv cell" and nd: "\<not> sc_disputed cell"
    and land: "land_claim cell n t c = Inr cell'" and "now \<le> t"
    and n: "sc_tokens_pending cell \<le> n" "n \<le> ds_funded_tokens sub"
    and quota: "is_subscription sub \<Longrightarrow> weekly_cap cell sub = Inr cap \<and> n \<le> cap"
  shows "running c t cell' sub" and "machine_inv cell'" and "\<not> sc_disputed cell'"
proof -
  obtain cell1 m where p: "promote_due cell t c = Inr cell1"
    and level: "sc_tokens_pending cell1 = sc_tokens_final cell1"
    and m: "on_claim (sc_machine cell1) (div_ceil n TICK_SIZE) = Inr m"
    and last: "sc_last_claim_time cell \<le> t" and delta: "n \<le> sc_tokens_pending cell + MAX_CLAIM_DELTA"
    and cell': "cell' = cell1\<lparr>sc_machine := m, sc_tokens_pending := n, sc_last_claim_time := t\<rparr>"
    using land_claim_Inr [OF land] by auto
  have run1: "running c now cell1 sub" using promoted_running(1) [OF run p] .
  have same: "sc_tokens_pending cell1 = sc_tokens_pending cell" "sc_machine cell1 = sc_machine cell"
    "sc_disputed cell1 = sc_disputed cell" "sc_last_claim_time cell1 = sc_last_claim_time cell"
    "sc_closed cell1 = sc_closed cell" "sc_probe_accepted cell1 = sc_probe_accepted cell"
    using promote_due_Inr [OF p] by auto
  have open_acc: "\<not> sc_closed cell" "sc_probe_accepted cell" using run by (simp_all add: running_def)
  have m': "m = (sc_machine cell)\<lparr>sm_state :=
      Streaming (div_ceil (sc_tokens_pending cell) TICK_SIZE) (div_ceil n TICK_SIZE)\<rparr>"
    using m mach nd open_acc by (auto simp: on_claim_Inr machine_inv_def Let_def same)
  have price: "sm_price m = sc_price cell1" by (simp add: m' same)
  have room: "weekly_room cell1 sub" using running_books(2) [OF run1] .
  have "weekly_room cell' sub"
  proof (cases "is_subscription sub")
    case True
    then have "ds_week_index sub < ds_sub_weeks sub \<Longrightarrow> n \<le> ds_week_base_tokens sub + ds_tokens_per_week sub"
      "\<not> ds_week_index sub < ds_sub_weeks sub \<Longrightarrow> n \<le> sc_tokens_pending cell"
      using quota by (auto simp: weekly_cap_def result_simps checked_simps split: if_splits)
    then show ?thesis using room n(1) same by (auto simp: weekly_room_def cell' split: if_splits)
  qed (use room n(1) same in \<open>auto simp: weekly_room_def cell' is_subscription_def split: if_splits\<close>)
  then have "books_inv c cell' sub"
    using run1 price by (auto simp: running_def books_inv_def cell' paid_up_def)
  moreover have "times_inv t cell' sub"
    using run1 last \<open>now \<le> t\<close> nd by (auto simp: running_def times_inv_def cell' same)
  moreover have "pipe_inv cell' sub"
    using run1 n level same delta by (auto simp: running_def pipe_inv_def cell')
  moreover have "terms_inv c cell' sub" using run1 price by (auto simp: running_def terms_inv_def cell')
  ultimately show "running c t cell' sub" using run1 by (simp add: running_def cell')
  show "\<not> sc_disputed cell'" using nd by (simp add: cell' same)
  show "machine_inv cell'"
    using nd open_acc level same by (simp add: machine_inv_def cell' m' Let_def)
qed

lemma machine_inv_pay [simp]: "machine_inv (pay_cell c f n cell) = machine_inv cell"
  by (simp add: machine_inv_def Let_def)

lemma charged_machine: "machine_inv (fst (charged c w cell sub)) = machine_inv cell"
  and charged_disputed: "sc_disputed (fst (charged c w cell sub)) = sc_disputed cell"
  and charged_pending: "sc_tokens_pending (fst (charged c w cell sub)) = sc_tokens_pending cell"
  by (simp_all add: charged_def)

text \<open>The weekly charge at the start of a claim and of a settlement.\<close>

lemma charge_elapsed_running:
  assumes run: "running c now cell sub" and typed: "consts_typed c" and sub: "is_subscription sub"
    and ch: "charge_elapsed_subscription_weeks cell sub t c = Inr (cell', sub', b)"
  shows "running c now cell' sub'" and "machine_inv cell' = machine_inv cell"
    and "sc_disputed cell' = sc_disputed cell" and "sc_tokens_pending cell' = sc_tokens_pending cell"
    and "same_terms (cell, sub) (cell', sub')" and "evolves (cell, sub) (cell', sub')"
    and "ds_period_start sub' = ds_period_start sub"
    and "sc_last_claim_time cell' = sc_last_claim_time cell"
proof -
  have shape: "shape_inv sub" using run by (simp add: running_def terms_inv_def)
  obtain w where w: "subscription_weeks_at sub t False = Inr w"
    and thr: "charge_subscription_through cell sub w c = Inr (cell', sub', b)"
    using ch sub by (auto simp: charge_elapsed_subscription_weeks_def result_simps split: if_splits)
  have le: "w \<le> ds_sub_weeks sub"
    using subscription_weeks_at_Inr [OF shape w] weeks_at_le by simp
  have *: "(cell', sub') = charged c w cell sub" "running c now cell' sub'"
    using charge_through_running [OF run typed sub le thr] by auto
  then have fs: "cell' = fst (charged c w cell sub)" "sub' = snd (charged c w cell sub)"
    by (metis fst_conv, metis snd_conv)
  show "running c now cell' sub'" using *(2) .
  show "machine_inv cell' = machine_inv cell" "sc_disputed cell' = sc_disputed cell"
    "sc_tokens_pending cell' = sc_tokens_pending cell"
    unfolding fs by (rule charged_machine charged_disputed charged_pending)+
  show "same_terms (cell, sub) (cell', sub')" using charged_same_terms [of cell sub c w] *(1) by simp
  show ev: "evolves (cell, sub) (cell', sub')" using charged_evolves [OF run sub le] *(1) by simp
  then show "ds_period_start sub' = ds_period_start sub"
    "sc_last_claim_time cell' = sc_last_claim_time cell" by (simp_all add: evolves_def)
qed

lemma claim_tokens_inv:
  assumes ok: "claim_tokens_deal cell sub n t1 t2 c = Inr (cell', sub')"
    and inv: "deal_inv c now cell sub" and typed: "consts_typed c" and t: "now \<le> t1" "t1 \<le> t2"
  shows "deal_inv c t2 cell' sub'" and "same_terms (cell, sub) (cell', sub')"
proof -
  have op: "\<not> sc_closed cell" "\<not> sc_disputed cell" "sc_probe_accepted cell"
    and ge: "sc_tokens_pending cell \<le> n"
    using ok by (auto simp: claim_tokens_deal_def split: if_splits)
  have run: "running c now cell sub" "machine_inv cell" using inv op running_iff by auto
  have now2: "now \<le> t2" using t by simp
  show "deal_inv c t2 cell' sub'" "same_terms (cell, sub) (cell', sub')"
  proof (atomize (full), cases "n = sc_tokens_pending cell")
    case True
    then have "cell' = cell" "sub' = sub"
      using ok by (auto simp: claim_tokens_deal_def split: if_splits)
    then show "deal_inv c t2 cell' sub' \<and> same_terms (cell, sub) (cell', sub')"
      using deal_inv_later [OF inv now2] by (simp add: same_terms_def)
  next
    case False
    then obtain cell1 b where
      ch: "(if is_subscription sub then charge_elapsed_subscription_weeks cell sub t1 c
            else Inr (cell, sub, False)) = Inr (cell1, sub', b)"
      and mx: "n \<le> sc_max_ticks cell1 * TICK_SIZE"
      and cap: "(if is_subscription sub'
                 then and_then (weekly_cap cell1 sub') (\<lambda>cap.
                         ensure (\<not> n > cap) (limit_err (Claims AboveWeeklyCap)))
                 else Inr ()) = Inr ()"
      and land: "land_claim cell1 n t2 c = Inr cell'"
      using ok by (auto simp: claim_tokens_deal_def result_simps checked_simps split: if_splits)
    have "running c now cell1 sub' \<and> machine_inv cell1 \<and> \<not> sc_disputed cell1
        \<and> sc_tokens_pending cell1 = sc_tokens_pending cell \<and> same_terms (cell, sub) (cell1, sub')"
    proof (cases "is_subscription sub")
      case True
      then show ?thesis
        using charge_elapsed_running [OF run(1) typed True, of t1 cell1 sub' b] ch run op by simp
    next
      case False
      then show ?thesis using ch run op by (simp add: same_terms_def)
    qed
    then have c1: "running c now cell1 sub'" "machine_inv cell1" "\<not> sc_disputed cell1"
      "sc_tokens_pending cell1 = sc_tokens_pending cell" "same_terms (cell, sub) (cell1, sub')"
      by auto
    have "n \<le> ds_funded_tokens sub'" using mx c1(1) by (simp add: running_def terms_inv_def)
    moreover obtain k where "is_subscription sub' \<Longrightarrow> weekly_cap cell1 sub' = Inr k \<and> n \<le> k"
      using cap by (auto simp: result_simps split: if_splits)
    ultimately have "running c t2 cell' sub'" "machine_inv cell'"
      using land_claim_running [OF c1(1-3) land now2] ge c1(4) by auto
    moreover have "same_terms (cell1, sub') (cell', sub')"
      using land_claim_Inr [OF land] promote_due_Inr
      by (fastforce simp: same_terms_def on_claim_Inr)
    ultimately show "deal_inv c t2 cell' sub' \<and> same_terms (cell, sub) (cell', sub')"
      using running_iff c1(5) by (auto simp: same_terms_def)
  qed
qed

lemma running_machine:
  assumes "sm_price m = sc_price cell"
  shows "running c now (cell\<lparr>sc_machine := m\<rparr>) sub = running c now cell sub"
proof -
  have "terms_inv c (cell\<lparr>sc_machine := m\<rparr>) sub = terms_inv c cell sub"
    "times_inv now (cell\<lparr>sc_machine := m\<rparr>) sub = times_inv now cell sub"
    "pipe_inv (cell\<lparr>sc_machine := m\<rparr>) sub = pipe_inv cell sub"
    "weekly_room (cell\<lparr>sc_machine := m\<rparr>) sub = weekly_room cell sub"
    "paid_up c f (cell\<lparr>sc_machine := m\<rparr>) n = paid_up c f cell n" for f n
    using assms by (simp_all add: terms_inv_def times_inv_def pipe_inv_def weekly_room_def paid_up_def)
  then show ?thesis using assms by (simp add: running_def books_inv_def)
qed

text \<open>After a promotion the state machine is brought level with the pipeline.\<close>

lemma mirror_promotion_inv:
  assumes run: "running c now cell sub" and mach: "machine_inv cell" and nd: "\<not> sc_disputed cell"
    and p: "promote_due cell t c = Inr cell1" and mp: "mirror_promotion cell1 = Inr cell2"
  shows "running c now cell2 sub" and "machine_inv cell2" and "\<not> sc_disputed cell2"
    and "evolves (cell, sub) (cell2, sub)"
proof -
  have run1: "running c now cell1 sub" and ev: "evolves (cell, sub) (cell1, sub)"
    using promoted_running [OF run p] by auto
  have c1: "cell1 = cell \<or> cell1 = cell\<lparr>sc_tokens_final := sc_tokens_pending cell\<rparr>"
    using promote_due_Inr [OF p] .
  have op: "\<not> sc_closed cell" "sc_probe_accepted cell" using run by (simp_all add: running_def)
  have st: "sm_state (sc_machine cell1) = Streaming (div_ceil (sc_tokens_final cell) TICK_SIZE)
      (div_ceil (sc_tokens_pending cell) TICK_SIZE)"
    using mach nd op c1 by (auto simp: machine_inv_def Let_def)
  have "cell2 = cell1 \<and> cell1 = cell \<or> (sc_tokens_final cell1 = sc_tokens_pending cell1
      \<and> cell2 = cell1\<lparr>sc_machine := (sc_machine cell1)\<lparr>sm_state := Streaming
          (div_ceil (sc_tokens_pending cell) TICK_SIZE) (div_ceil (sc_tokens_pending cell) TICK_SIZE)\<rparr>\<rparr>)"
    using mp st c1
    by (auto simp: mirror_promotion_def result_simps lift_machine_def on_promote_Inr split: if_splits)
  then consider "cell2 = cell" | (level) "sc_tokens_final cell1 = sc_tokens_pending cell"
      "cell2 = cell1\<lparr>sc_machine := (sc_machine cell1)\<lparr>sm_state := Streaming
          (div_ceil (sc_tokens_pending cell) TICK_SIZE) (div_ceil (sc_tokens_pending cell) TICK_SIZE)\<rparr>\<rparr>"
    using c1 by auto
  then have "running c now cell2 sub \<and> machine_inv cell2 \<and> \<not> sc_disputed cell2
      \<and> evolves (cell, sub) (cell2, sub)"
  proof cases
    case 1
    then show ?thesis
      using run mach nd op by (auto simp: running_def evolves_def same_terms_def pipe_inv_def
          terms_inv_def shape_inv_def)
  next
    case level
    have "running c now cell2 sub"
      using run1 by (simp add: level(2) running_machine)
    moreover have "machine_inv cell2"
      using nd op c1 level(1) by (auto simp: machine_inv_def level(2) Let_def)
    moreover have "evolves (cell, sub) (cell2, sub)"
      using ev by (simp add: level(2) evolves_def same_terms_def)
    ultimately show ?thesis using nd c1 by (auto simp: level(2))
  qed
  then show "running c now cell2 sub" "machine_inv cell2" "\<not> sc_disputed cell2"
    "evolves (cell, sub) (cell2, sub)" by auto
qed

lemma running_pending_funded:
  "running c now cell sub \<Longrightarrow> sc_tokens_final cell \<le> ds_funded_tokens sub"
  by (auto simp: running_def pipe_inv_def)

lemma pay_cell_machine [simp]:
  "(pay_cell c f n cell)\<lparr>sc_machine := sc_machine cell\<rparr> = pay_cell c f n cell"
  by (cases cell) (simp add: pay_cell_def)

lemma close_delivered_closes:
  assumes run: "running c now cell sub" and "consts_typed c" and nd: "\<not> sc_disputed cell"
    and cl: "close_delivered cell sub c = Inr (cell', sub')"
    and full: "ds_tokens_paid sub \<le> sc_tokens_final cell"
  shows "closes (cell, sub) (cell', sub')"
proof -
  have credit: "credit_tokens_through cell sub (sc_tokens_final cell) c
      = Inr (pay_through c (Some (sc_tokens_final cell)) (cell, sub))"
    using credit_running [OF run assms(2) full running_pending_funded [OF run]] .
  obtain cell1 n r where s: "(cell1, sub') = pay_through c (Some (sc_tokens_final cell)) (cell, sub)"
    "close_mock_clean (cell1\<lparr>sc_machine := sc_machine cell1\<rparr>) n c = Inr (cell', r)"
    using cl credit by (auto simp: close_delivered_def result_simps pay_through_def)
  show ?thesis
    using running_pending_funded [OF run] s(1)
    by (intro close_running [OF run nd s(1) _ _ s(2)]) (auto simp: pay_through_def)
qed

lemma finalize_inv:
  assumes ok: "finalize_deal cell sub t c = Inr (cell', sub')"
    and inv: "deal_inv c now cell sub" and typed: "consts_typed c" and t: "now \<le> t"
  shows "deal_inv c t cell' sub'" and "same_terms (cell, sub) (cell', sub')"
proof -
  have op: "\<not> sc_closed cell" "\<not> sc_disputed cell" "sc_probe_accepted cell"
    using ok by (auto simp: finalize_deal_def split: if_splits)
  have run: "running c now cell sub" "machine_inv cell" using inv op running_iff by auto
  obtain cell1 cell2 where s: "promote_due cell t c = Inr cell1" "mirror_promotion cell1 = Inr cell2"
    and out: "(if \<not> is_subscription sub \<and> sc_tokens_final cell2 \<ge> ds_funded_tokens sub
        then close_delivered cell2 sub c else Inr (cell2, sub)) = Inr (cell', sub')"
    using ok op by (auto simp: finalize_deal_def result_simps split: if_splits)
  have r2: "running c now cell2 sub" "machine_inv cell2" "\<not> sc_disputed cell2"
    "evolves (cell, sub) (cell2, sub)"
    using mirror_promotion_inv [OF run op(2) s] by auto
  have "deal_inv c now cell' sub' \<and> same_terms (cell, sub) (cell', sub')"
  proof (cases "\<not> is_subscription sub \<and> sc_tokens_final cell2 \<ge> ds_funded_tokens sub")
    case True
    then have cl: "close_delivered cell2 sub c = Inr (cell', sub')" using out by simp
    have "ds_tokens_paid sub \<le> sc_tokens_final cell2"
      using True r2(1) by (auto simp: running_def terms_inv_def shape_inv_def)
    then have "closes (cell2, sub) (cell', sub')"
      using close_delivered_closes [OF r2(1) typed r2(3) cl] by simp
    then have "closes (cell, sub) (cell', sub')" using evolves_closes r2(4) by blast
    then show ?thesis
      using closes_inv [OF inv] finalize_money [OF ok] by (auto simp: closes_def evolves_def)
  next
    case False
    then have "cell' = cell2" "sub' = sub" using out by auto
    then show ?thesis using r2 running_iff by (auto simp: evolves_def)
  qed
  then show "deal_inv c t cell' sub'" "same_terms (cell, sub) (cell', sub')"
    using deal_inv_later t by auto
qed

text \<open>Paying the trusted tokens when they exceed what is paid, then closing.\<close>

lemma close_trusted_closes:
  assumes run: "running c now cell sub" and typed: "consts_typed c" and nd: "\<not> sc_disputed cell"
    and credit: "(if b \<and> sc_tokens_final cell > ds_tokens_paid sub
      then credit_tokens_through cell sub (sc_tokens_final cell) c else Inr (cell, sub)) = Inr (cell1, sub1)"
    and m: "sm_price m = sc_price cell"
    and cl: "close_mock_clean (cell1\<lparr>sc_machine := m\<rparr>) n c = Inr (cell2, r)"
  shows "closes (cell, sub) (cell2, sub1)"
proof (cases "b \<and> sc_tokens_final cell > ds_tokens_paid sub")
  case True
  then have "(cell1, sub1) = pay_through c (Some (sc_tokens_final cell)) (cell, sub)"
    using credit credit_running [OF run typed _ running_pending_funded [OF run]] by simp
  then show ?thesis
    using running_pending_funded [OF run] by (intro close_running [OF run nd _ _ m cl]) auto
next
  case False
  then have "(cell1, sub1) = pay_through c None (cell, sub)" using credit by (auto simp: pay_through_def)
  then show ?thesis by (intro close_running [OF run nd _ _ m cl]) auto
qed

lemma close_final_week_closes:
  assumes run: "running c now cell sub" and typed: "consts_typed c" and nd: "\<not> sc_disputed cell"
    and mach: "machine_inv cell" and cl: "close_final_week cell sub t c = Inr (cell', sub')"
  shows "closes (cell, sub) (cell', sub')"
proof -
  obtain cell1 cell2 cell3 n r where s: "promote_due cell t c = Inr cell1"
    "mirror_promotion cell1 = Inr cell2" "close_mock_clean (cell3\<lparr>sc_machine := sc_machine cell3\<rparr>) n c = Inr (cell', r)"
    "(if True \<and> sc_tokens_final cell2 > ds_tokens_paid sub
      then credit_tokens_through cell2 sub (sc_tokens_final cell2) c
      else Inr (cell2, sub)) = Inr (cell3, sub')"
    using cl unfolding close_final_week_def by (fastforce simp: result_simps)
  have r2: "running c now cell2 sub" "\<not> sc_disputed cell2" "evolves (cell, sub) (cell2, sub)"
    using mirror_promotion_inv [OF run mach nd s(1,2)] by auto
  have "sc_price cell3 = sc_price cell2"
    using s(4) by (auto simp: credit_tokens_through_def debit_escrow_Inr result_simps split: if_splits)
  then have "closes (cell2, sub) (cell', sub')"
    by (intro close_trusted_closes [OF r2(1) typed r2(2) s(4) _ s(3)]) simp
  then show ?thesis using evolves_closes r2(3) by blast
qed

lemma settle_week_inv:
  assumes ok: "settle_week_deal cell sub t c = Inr (cell', sub')"
    and inv: "deal_inv c now cell sub" and typed: "consts_typed c" and t: "now \<le> t"
  shows "deal_inv c t cell' sub'" and "same_terms (cell, sub) (cell', sub')"
proof -
  obtain cell1 sub1 b where sub: "is_subscription sub"
    and ch: "charge_elapsed_subscription_weeks cell sub t c = Inr (cell1, sub1, b)"
    and out: "close_final_week cell1 sub1 t c = Inr (cell', sub') \<or> (cell', sub') = (cell1, sub1)"
    using ok unfolding settle_week_deal_def by (fastforce simp: result_simps split: if_splits)
  have op: "\<not> sc_closed cell" "\<not> sc_disputed cell" "sc_probe_accepted cell"
    using ch sub by (auto simp: charge_elapsed_subscription_weeks_def split: if_splits)
  have run: "running c now cell sub" "machine_inv cell" using inv op running_iff by auto
  note r1 = charge_elapsed_running [OF run(1) typed sub ch]
  from out have "deal_inv c now cell' sub' \<and> same_terms (cell, sub) (cell', sub')"
  proof
    assume "close_final_week cell1 sub1 t c = Inr (cell', sub')"
    then have "closes (cell1, sub1) (cell', sub')"
      using close_final_week_closes [OF r1(1) typed] r1(2,3) run(2) op(2) by simp
    then have "closes (cell, sub) (cell', sub')" using evolves_closes r1(6) by blast
    then show ?thesis
      using closes_inv [OF inv] settle_week_money [OF ok] by (auto simp: closes_def evolves_def)
  next
    assume "(cell', sub') = (cell1, sub1)"
    then show ?thesis using r1 run(2) running_iff by auto
  qed
  then show "deal_inv c t cell' sub'" "same_terms (cell, sub) (cell', sub')"
    using deal_inv_later t by auto
qed


section \<open>Stops\<close>

text \<open>A stop before the probe is accepted, from either side.\<close>

definition stop_frame :: "stream_cell \<Rightarrow> stream_cell \<Rightarrow> bool" where
  "stop_frame cell cell' \<longleftrightarrow>
     sc_tokens_final cell' = sc_tokens_final cell \<and> sc_tokens_pending cell' = sc_tokens_pending cell
     \<and> sc_probe_accepted cell' = sc_probe_accepted cell \<and> sc_disputed cell' = sc_disputed cell
     \<and> sc_last_claim_time cell' = sc_last_claim_time cell \<and> sc_dispute_time cell' = sc_dispute_time cell
     \<and> sc_probe_time cell' = sc_probe_time cell \<and> sc_max_ticks cell' = sc_max_ticks cell
     \<and> sc_buyer_pubkey cell' = sc_buyer_pubkey cell \<and> sc_schema_version cell' = sc_schema_version cell
     \<and> sc_machine cell' = (sc_machine cell)\<lparr>sm_state := Closed\<rparr>"

lemma stop_on_probe_frame: "stop_on_probe cell = Inr (cell', s) \<Longrightarrow> stop_frame cell cell'"
  by (auto simp: stop_on_probe_def machine_buyer_stop_def machine_close_def Let_def drained_def
      result_simps add_u128_Inr stop_frame_def
      split: stream_state.splits option.splits settlement.splits)

lemma seller_stop_on_probe_frame: "seller_stop_on_probe cell = Inr (cell', s) \<Longrightarrow> stop_frame cell cell'"
  by (auto simp: seller_stop_on_probe_def machine_close_def Let_def drained_def
      result_simps add_u128_Inr stop_frame_def)

lemma stop_frame_evolves:
  "stop_frame cell cell' \<Longrightarrow> shape_inv sub \<Longrightarrow> pipe_inv cell sub \<Longrightarrow> evolves (cell, sub) (cell', sub)"
  by (auto simp: stop_frame_def evolves_def same_terms_def shape_inv_def pipe_inv_def)

lemma probe_stop_closes:
  assumes inv: "deal_inv c now cell sub" and op: "\<not> sc_closed cell" "\<not> sc_disputed cell" "\<not> sc_probe_accepted cell"
    and ok: "stop_on_probe cell = Inr (cell', s) \<or> seller_stop_on_probe cell = Inr (cell', s)"
  shows "closes (cell, sub) (cell', sub)"
proof -
  have fee: "sc_fee_accrued cell = 0" and inv': "shape_inv sub" "pipe_inv cell sub"
    using inv op by (auto simp: deal_inv_def books_inv_def terms_inv_def)
  have frame: "stop_frame cell cell'"
    using ok stop_on_probe_frame seller_stop_on_probe_frame by blast
  moreover have "cell_empty cell'" "sc_closed cell'"
    using ok fee stop_on_probe_money seller_stop_on_probe_money by blast+
  ultimately show ?thesis
    using stop_frame_evolves [OF frame inv'] op by (simp add: closes_def stop_frame_def)
qed

text \<open>The weekly charge of a stop, to the started or to the elapsed week.\<close>

lemma stop_charge_running:
  assumes run: "running c now cell sub" and typed: "consts_typed c"
    and ch: "(if is_subscription sub then and_then (subscription_weeks_at sub t started) (\<lambda>w.
            charge_subscription_through cell sub w c) else Inr (cell, sub, False))
          = Inr (cell', sub', b)"
  shows "running c now cell' sub'" and "evolves (cell, sub) (cell', sub')"
    and "sc_disputed cell' = sc_disputed cell" and "sc_machine cell' = sc_machine cell"
proof -
  have shape: "shape_inv sub" and pipe: "pipe_inv cell sub"
    using run by (simp_all add: running_def terms_inv_def)
  have "running c now cell' sub' \<and> evolves (cell, sub) (cell', sub') \<and> sc_disputed cell' = sc_disputed cell
      \<and> sc_machine cell' = sc_machine cell"
  proof (cases "is_subscription sub")
    case True
    then obtain w where w: "subscription_weeks_at sub t started = Inr w"
      and thr: "charge_subscription_through cell sub w c = Inr (cell', sub', b)"
      using ch by (auto simp: result_simps)
    have le: "w \<le> ds_sub_weeks sub"
      using subscription_weeks_at_Inr [OF shape w] weeks_at_le by simp
    have eq: "(cell', sub') = charged c w cell sub" "running c now cell' sub'"
      using charge_through_running [OF run typed True le thr] by auto
    have "evolves (cell, sub) (cell', sub')" using charged_evolves [OF run True le] eq(1) by simp
    moreover have "sc_disputed cell' = sc_disputed cell" "sc_machine cell' = sc_machine cell"
      using eq(1) by (auto simp: charged_def split: if_splits)
    ultimately show ?thesis using eq(2) by simp
  next
    case False
    then show ?thesis
      using ch run shape pipe by (auto simp: evolves_def same_terms_def shape_inv_def pipe_inv_def)
  qed
  then show "running c now cell' sub'" "evolves (cell, sub) (cell', sub')"
    "sc_disputed cell' = sc_disputed cell" "sc_machine cell' = sc_machine cell" by auto
qed

lemma accepted_stop_closes:
  assumes inv: "deal_inv c now cell sub" and typed: "consts_typed c"
    and op: "\<not> sc_closed cell" "\<not> sc_disputed cell" "sc_probe_accepted cell"
    and p: "promote_due cell t1 c = Inr cell1"
    and ch: "(if is_subscription sub then and_then (subscription_weeks_at sub t2 started) (\<lambda>w.
            charge_subscription_through cell1 sub w c) else Inr (cell1, sub, False))
          = Inr (cell2, sub2, b)"
    and credit: "(if e \<and> sc_tokens_final cell2 > ds_tokens_paid sub2
          then credit_tokens_through cell2 sub2 (sc_tokens_final cell2) c else Inr (cell2, sub2))
          = Inr (cell3, sub3)"
    and m: "sm_price m = sc_price cell3"
    and cl: "close_mock_clean (cell3\<lparr>sc_machine := m\<rparr>) n c = Inr (cell4, r)"
  shows "closes (cell, sub) (cell4, sub3)"
proof -
  have run: "running c now cell sub" using inv op running_iff by auto
  note r1 = promoted_running [OF run p]
  have nd1: "\<not> sc_disputed cell1" using promote_due_Inr [OF p] op(2) by auto
  note r2 = stop_charge_running [OF r1(1) typed ch]
  have "sc_price cell3 = sc_price cell2"
    using credit by (auto simp: credit_tokens_through_def debit_escrow_Inr result_simps split: if_splits)
  then have "closes (cell2, sub2) (cell4, sub3)"
    using close_trusted_closes [OF r2(1) typed _ credit _ cl] m r2(3) nd1 by simp
  then show ?thesis using evolves_closes evolves_trans r1(2) r2(2) by blast
qed

lemma stop_closes:
  assumes ok: "stop_mock_stream cell sub t1 t2 c = Inr (cell', sub', s)"
    and inv: "deal_inv c now cell sub" and typed: "consts_typed c"
  shows "closes (cell, sub) (cell', sub')"
proof -
  have op: "\<not> sc_closed cell" "\<not> sc_disputed cell"
    using ok by (auto simp: stop_mock_stream_def split: if_splits)
  show ?thesis
  proof (cases "sc_probe_accepted cell")
    case False
    then obtain s' where "stop_on_probe cell = Inr (cell', s')" and [simp]: "sub' = sub"
      using ok op by (auto simp: stop_mock_stream_def result_simps)
    then show ?thesis using probe_stop_closes [OF inv op False] by auto
  next
    case True
    then have "stop_accepted cell sub t1 t2 c = Inr (cell', sub', s)"
      using ok op by (simp add: stop_mock_stream_def)
    then obtain cell1 cell2 sub2 b cell3 n m x cell4 r where
      s: "promote_due cell t1 c = Inr cell1"
      "(if is_subscription sub then and_then (subscription_weeks_at sub t2 True) (\<lambda>started.
            charge_subscription_through cell1 sub started c) else Inr (cell1, sub, False))
          = Inr (cell2, sub2, b)"
      "(if True \<and> sc_tokens_final cell2 > ds_tokens_paid sub2
          then credit_tokens_through cell2 sub2 (sc_tokens_final cell2) c else Inr (cell2, sub2))
          = Inr (cell3, sub')"
      "machine_buyer_stop (sc_machine cell3) = Some (m, x :: mock_settlement)"
      "close_mock_clean (cell3\<lparr>sc_machine := m\<rparr>) n c = Inr (cell4, r)"
      "cell' = cell4\<lparr>sc_buyer_stop_settlement := Some (sc_seller_received cell4, r)\<rparr>"
      by (fastforce simp: stop_accepted_def result_simps split: option.splits)
    have "sm_price m = sc_price cell3"
      using s(4) by (auto simp: machine_buyer_stop_def Let_def split: stream_state.splits)
    then have "closes (cell, sub) (cell4, sub')"
      using accepted_stop_closes [OF inv typed op True s(1-3) _ s(5)] by simp
    then show ?thesis by (simp add: s(6) closes_def evolves_def same_terms_def cell_empty_def)
  qed
qed

lemma seller_stop_closes:
  assumes ok: "seller_stop_deal cell sub t1 t2 c = Inr (cell', sub', s)"
    and inv: "deal_inv c now cell sub" and typed: "consts_typed c"
  shows "closes (cell, sub) (cell', sub')"
proof -
  have op: "\<not> sc_closed cell" "\<not> sc_disputed cell"
    using ok by (auto simp: seller_stop_deal_def split: if_splits)
  show ?thesis
  proof (cases "sc_probe_accepted cell")
    case False
    then obtain s' where "seller_stop_on_probe cell = Inr (cell', s')" and [simp]: "sub' = sub"
      using ok op by (auto simp: seller_stop_deal_def result_simps)
    then show ?thesis using probe_stop_closes [OF inv op False] by auto
  next
    case True
    then have "seller_stop_accepted cell sub t1 t2 c = Inr (cell', sub', s)"
      using ok op by (simp add: seller_stop_deal_def)
    then obtain cell1 cell2 sub2 b cell3 n m x r where
      s: "promote_due cell t1 c = Inr cell1"
      "(if is_subscription sub then and_then (subscription_weeks_at sub t2 False) (\<lambda>started.
            charge_subscription_through cell1 sub started c) else Inr (cell1, sub, False))
          = Inr (cell2, sub2, b)"
      "(if \<not> is_subscription sub2 \<and> sc_tokens_final cell2 > ds_tokens_paid sub2
          then credit_tokens_through cell2 sub2 (sc_tokens_final cell2) c else Inr (cell2, sub2))
          = Inr (cell3, sub')"
      "machine_seller_stop (sc_machine cell3) = Some (m, x :: mock_settlement)"
      "close_mock_clean (cell3\<lparr>sc_machine := m\<rparr>) n c = Inr (cell', r)"
      by (fastforce simp: seller_stop_accepted_def result_simps split: option.splits)
    have "sm_price m = sc_price cell3"
      using s(4) by (auto simp: machine_seller_stop_def Let_def split: stream_state.splits)
    then show ?thesis using accepted_stop_closes [OF inv typed op True s(1-3) _ s(5)] by simp
  qed
qed


section \<open>Disputes\<close>

lemma dispute_inv:
  assumes ok: "dispute_deal tc cell is_sub t = Inr (cell', s)" and inv: "deal_inv c now cell sub"
    and t: "now \<le> t"
  shows "deal_inv c t cell' sub" and "same_terms (cell, sub) (cell', sub)"
proof -
  have op: "\<not> sc_closed cell" "\<not> sc_disputed cell"
    and cell': "cell' = cell\<lparr>sc_machine := machine_buyer_dispute (sc_machine cell),
                         sc_disputed := True, sc_dispute_time := t\<rparr>"
    using ok by (auto simp: dispute_deal_def result_simps Let_def split: if_splits)
  define m where "m = machine_buyer_dispute (sc_machine cell)"
  have price: "sm_price m = sc_price cell"
    by (simp add: m_def machine_buyer_dispute_def Let_def split: prod.splits)
  have "terms_inv c cell' sub = terms_inv c cell sub" "books_inv c cell' sub = books_inv c cell sub"
    "pipe_inv cell' sub = pipe_inv cell sub" "cell_money cell' = cell_money cell"
    "deal_funding c cell' sub = deal_funding c cell sub"
    using price by (simp_all add: cell' terms_inv_def books_inv_def pipe_inv_def cell_money_def
        deal_funding_def paid_up_def weekly_room_def flip: m_def)
  moreover have "times_inv t cell' sub"
    using inv t op by (auto simp: deal_inv_def times_inv_def cell')
  moreover have "machine_inv cell'"
    using inv op
    by (auto simp: deal_inv_def machine_inv_def cell' machine_buyer_dispute_def Let_def div_ceil_def
        pipe_inv_def split: if_splits)
  ultimately show "deal_inv c t cell' sub" using inv op by (simp add: deal_inv_def cell')
  show "same_terms (cell, sub) (cell', sub)"
    using price by (simp add: cell' same_terms_def flip: m_def)
qed

lemma void_claims_Inr:
  "void_claims_at cell t c = Inr cell' \<Longrightarrow>
     (\<exists>n. n \<in> {sc_tokens_final cell, sc_tokens_pending cell}
          \<and> cell' = cell\<lparr>sc_tokens_final := n, sc_tokens_pending := n\<rparr>)"
proof -
  assume "void_claims_at cell t c = Inr cell'"
  then obtain due where due: "cell' = (let cell1 = (if due then cell\<lparr>sc_tokens_final := sc_tokens_pending cell\<rparr> else cell)
              in cell1\<lparr>sc_tokens_pending := sc_tokens_final cell1\<rparr>)"
    by (auto simp: void_claims_at_def result_simps Let_def)
  then have "cell' = cell\<lparr>sc_tokens_final := (if due then sc_tokens_pending cell else sc_tokens_final cell),
      sc_tokens_pending := (if due then sc_tokens_pending cell else sc_tokens_final cell)\<rparr>"
    by (cases cell) (simp add: Let_def)
  then show ?thesis by (intro exI [of _ "if due then sc_tokens_pending cell else sc_tokens_final cell"]) simp
qed

text \<open>The weeks charged before a dispute is resolved.\<close>

lemma charge_completed_evolves:
  assumes inv: "deal_inv c now cell sub" and op: "\<not> sc_closed cell" and typed: "consts_typed c"
    and ch: "charge_completed_weeks cell sub c = Inr (cell', sub')"
  shows "evolves (cell, sub) (cell', sub')" and "sc_machine cell' = sc_machine cell"
    and "sc_probe_accepted cell \<Longrightarrow> running c now cell' sub'"
proof -
  have pipe: "pipe_inv cell sub" "shape_inv sub" using inv by (simp_all add: deal_inv_def terms_inv_def)
  have "evolves (cell, sub) (cell', sub') \<and> sc_machine cell' = sc_machine cell
      \<and> (sc_probe_accepted cell \<longrightarrow> running c now cell' sub')"
  proof (cases "is_subscription sub \<and> sc_probe_accepted cell")
    case True
    then have run: "running c now cell sub" using inv op running_iff by auto
    obtain w b where w: "subscription_weeks_at sub (sc_dispute_time cell) False = Inr w"
      and thr: "charge_subscription_through cell sub w c = Inr (cell', sub', b)"
      using ch True by (auto simp: charge_completed_weeks_def result_simps)
    then have "(if is_subscription sub then and_then (subscription_weeks_at sub (sc_dispute_time cell) False) (\<lambda>w.
            charge_subscription_through cell sub w c) else Inr (cell, sub, False)) = Inr (cell', sub', b)"
      using True by simp
    then show ?thesis using stop_charge_running [OF run typed] by auto
  next
    case False
    then have "cell' = cell" "sub' = sub" using ch by (auto simp: charge_completed_weeks_def)
    moreover have "sc_probe_accepted cell \<Longrightarrow> running c now cell sub" using inv op running_iff by auto
    ultimately show ?thesis
      using pipe by (auto simp: evolves_def same_terms_def pipe_inv_def shape_inv_def)
  qed
  then show "evolves (cell, sub) (cell', sub')" "sc_machine cell' = sc_machine cell"
    "sc_probe_accepted cell \<Longrightarrow> running c now cell' sub'" by auto
qed

text \<open>What resolving leaves of the pipeline and the clock once the claims are void.\<close>

definition tail_frame :: "stream_cell \<Rightarrow> stream_cell \<Rightarrow> bool" where
  "tail_frame cell cell' \<longleftrightarrow>
     sc_tokens_final cell' = sc_tokens_final cell \<and> sc_tokens_pending cell' = sc_tokens_pending cell
     \<and> sc_probe_accepted cell' = sc_probe_accepted cell \<and> sc_machine cell' = sc_machine cell
     \<and> sc_last_claim_time cell' = sc_last_claim_time cell \<and> sc_dispute_time cell' = sc_dispute_time cell
     \<and> sc_probe_time cell' = sc_probe_time cell \<and> sc_max_ticks cell' = sc_max_ticks cell
     \<and> sc_buyer_pubkey cell' = sc_buyer_pubkey cell \<and> sc_schema_version cell' = sc_schema_version cell"

lemma credit_delta_frame: "credit_token_delta cell n c = Inr cell' \<Longrightarrow> tail_frame cell cell'"
  by (auto simp: credit_token_delta_def result_simps debit_escrow_Inr tail_frame_def)

lemma burn_stakes_frame: "burn_stakes cell sub k b = Inr cell' \<Longrightarrow> tail_frame cell cell'"
  by (auto simp: burn_stakes_def result_simps add_u128_Inr Let_def tail_frame_def split: if_splits)

lemma settle_fees_frame: "settle_mock_fees cell d c b = Inr cell' \<Longrightarrow> tail_frame cell cell'"
  by (auto simp: settle_mock_fees_def result_simps add_u128_Inr tail_frame_def)

lemma tail_frame_trans: "tail_frame x y \<Longrightarrow> tail_frame y z \<Longrightarrow> tail_frame x z"
  by (simp add: tail_frame_def)

lemma resolve_closes:
  assumes ok: "resolve_mock_dispute cell sub c timed_out = Inr (cell', sub', r, s)"
    and inv: "deal_inv c now cell sub" and op: "\<not> sc_closed cell" and typed: "consts_typed c"
  shows "closes (cell, sub) (cell', sub')"
proof -
  obtain cell1 sub1 stake cell2 cell3 cell4 n cell5 m b rf rc where
    s1: "charge_completed_weeks cell sub c = Inr (cell1, sub1)" and
    s3: "void_claims_at cell1 (sc_dispute_time cell1) c = Inr cell2" and
    s4: "credit_token_delta cell2 (saturating_sub (sc_tokens_final cell2) (claim_base sub1)) c = Inr cell3" and
    s5: "burn_stakes cell3 sub' stake timed_out = Inr cell4" and
    s6: "settle_mock_fees cell4 n c False = Inr cell5" and
    s7: "resolve_machine (sc_machine cell5) timed_out = Inr m" and
    sub': "sub' = sub1\<lparr>ds_tokens_paid := max (ds_tokens_paid sub1) (sc_tokens_final cell2)\<rparr>" and
    out: "cell' = (drained cell5)\<lparr>sc_burned := b, sc_buyer_refunded := rf,
      sc_seller_received := rc, sc_disputed := False, sc_machine := m, sc_closed := True\<rparr>"
    using ok by (fastforce simp: resolve_mock_dispute_def result_simps Let_def split: if_splits)
  have ev1: "evolves (cell, sub) (cell1, sub1)" using charge_completed_evolves(1) [OF inv op typed s1] .
  have fin: "sc_tokens_final cell1 \<le> sc_tokens_pending cell1"
    "sc_tokens_pending cell1 \<le> ds_funded_tokens sub1"
    using ev1 inv by (auto simp: evolves_def same_terms_def deal_inv_def pipe_inv_def)
  obtain k where "k = sc_tokens_final cell1 \<or> k = sc_tokens_pending cell1"
    and cell2: "cell2 = cell1\<lparr>sc_tokens_final := k, sc_tokens_pending := k\<rparr>"
    using void_claims_Inr [OF s3] by auto
  then have k: "sc_tokens_final cell1 \<le> k" "k \<le> sc_tokens_pending cell1" using fin by auto
  have m: "sm_state m = Closed" "sm_price m = sc_price cell5"
    using s7 by (auto simp: resolve_machine_def machine_resolve_dispute_timeout_def
        machine_release_dispute_def Let_def split: if_splits option.splits stream_state.splits)
  have "tail_frame cell2 cell5"
    using credit_delta_frame [OF s4] burn_stakes_frame [OF s5] settle_fees_frame [OF s6] tail_frame_trans
    by blast
  then have "evolves (cell1, sub1) (cell', sub')"
    using k fin m ev1
    by (auto simp: evolves_def same_terms_def sub' cell2 out drained_def is_subscription_def tail_frame_def)
  moreover have "cell_empty cell'" "sc_closed cell'" "\<not> sc_disputed cell'"
    using resolve_mock_dispute_money [OF ok] by auto
  moreover have "sm_state (sc_machine cell') = Closed" using out m by auto
  ultimately show ?thesis using evolves_closes [OF ev1] by (simp add: closes_def)
qed


section \<open>Reachable deals\<close>

text \<open>The time after an event: its last clock reading.\<close>

definition event_time :: "nat \<Rightarrow> deal_event \<Rightarrow> nat" where
  "event_time now e = last (now # event_times e)"

definition event_ordered :: "nat \<Rightarrow> deal_event \<Rightarrow> bool" where
  "event_ordered now e \<longleftrightarrow> sorted (now # event_times e)"

lemma event_time_ge: "event_ordered now e \<Longrightarrow> now \<le> event_time now e"
  by (cases e) (auto simp: event_ordered_def event_time_def)

lemma deal_step_inv:
  assumes ok: "deal_step c (cell, sub) e = Inr (cell', sub')" and inv: "deal_inv c now cell sub"
    and typed: "consts_typed c" and ord: "event_ordered now e"
  shows "deal_inv c (event_time now e) cell' sub'" and "same_terms (cell, sub) (cell', sub')"
proof -
  have money: "cell_money cell' = cell_money cell" using deal_step_money [OF ok] .
  have closing: "deal_inv c (event_time now e) cell' sub' \<and> same_terms (cell, sub) (cell', sub')"
    if "closes (cell, sub) (cell', sub')"
    using that closes_inv [OF inv that money] event_time_ge [OF ord] deal_inv_later
    by (auto simp: closes_def evolves_def)
  have "deal_inv c (event_time now e) cell' sub' \<and> same_terms (cell, sub) (cell', sub')"
  proof (cases e)
    case (AcceptProbe t)
    then have t: "now \<le> t" and acc: "accept_probe_deal cell sub t c = Inr (cell', sub')"
      using ord ok by (simp_all add: event_ordered_def)
    then show ?thesis
      using accept_probe_inv [OF acc inv typed t] running_iff AcceptProbe by (auto simp: event_time_def)
  next
    case (ClaimTokens n t1 t2)
    then show ?thesis
      using claim_tokens_inv [OF _ inv typed] ok ord by (auto simp: event_time_def event_ordered_def)
  next
    case (Finalize t)
    then show ?thesis
      using finalize_inv [OF _ inv typed] ok ord by (auto simp: event_time_def event_ordered_def)
  next
    case (SettleWeek t)
    then show ?thesis
      using settle_week_inv [OF _ inv typed] ok ord by (auto simp: event_time_def event_ordered_def)
  next
    case (Stop t1 t2)
    then show ?thesis using stop_closes [OF _ inv typed] ok closing by (auto simp: result_simps)
  next
    case (SellerStops t1 t2)
    then show ?thesis using seller_stop_closes [OF _ inv typed] ok closing by (auto simp: result_simps)
  next
    case (OpenDispute t)
    then show ?thesis
      using dispute_inv [OF _ inv] ok ord by (auto simp: event_time_def event_ordered_def result_simps)
  next
    case ReleasesDispute
    then obtain r s where r: "resolve_mock_dispute cell sub c False = Inr (cell', sub', r, s)"
      using ok by (auto simp: release_dispute_deal_def result_simps)
    then have "\<not> sc_closed cell"
      using inv by (auto simp: resolve_mock_dispute_def deal_inv_def split: if_splits)
    then show ?thesis using resolve_closes [OF r inv _ typed] closing by simp
  next
    case (DisputeTimesOut t)
    then obtain r s where r: "resolve_mock_dispute cell sub c True = Inr (cell', sub', r, s)"
      using ok by (auto simp: resolve_timeout_deal_def result_simps)
    then have "\<not> sc_closed cell"
      using inv by (auto simp: resolve_mock_dispute_def deal_inv_def split: if_splits)
    then show ?thesis using resolve_closes [OF r inv _ typed] closing by simp
  qed
  then show "deal_inv c (event_time now e) cell' sub'" "same_terms (cell, sub) (cell', sub')" by auto
qed

text \<open>
  A deal is reachable at a time if its stream was opened on a valid match and every operation
  since succeeded, with a clock that never ran backwards.  Refused operations leave no trace.
\<close>

inductive deal_reach :: "protocol_consts \<Rightarrow> nat \<Rightarrow> stream_cell \<Rightarrow> deal_subscription \<Rightarrow> bool"
  for c :: protocol_consts where
  opened: "open_cell m k sub t c = Inr cell \<Longrightarrow> fresh_shape sub \<Longrightarrow> 0 < mt_price_per_tick m \<Longrightarrow>
     mt_price_per_tick m \<le> u64_max \<Longrightarrow> k * TICK_SIZE = ds_funded_tokens sub \<Longrightarrow> k \<le> u64_max \<Longrightarrow>
     0 < t \<Longrightarrow> ds_period_start sub \<le> t \<Longrightarrow> deal_reach c t cell sub"
| stepped: "deal_reach c now cell sub \<Longrightarrow> event_ordered now e \<Longrightarrow>
     deal_step c (cell, sub) e = Inr (cell', sub') \<Longrightarrow> deal_reach c (event_time now e) cell' sub'"

inductive_cases deal_reach_cases: "deal_reach c now cell sub"

lemma deal_reach_inv: "deal_reach c now cell sub \<Longrightarrow> consts_typed c \<Longrightarrow> deal_inv c now cell sub"
proof (induction rule: deal_reach.induct)
  case (opened m k sub t cell)
  then show ?case using open_cell_inv(1) by blast
next
  case (stepped now cell sub e cell' sub')
  then show ?case using deal_step_inv(1) by blast
qed

end
