(* ===== verification/MockLiveness.thy ===== *)
theory MockLiveness
  imports MockSteps
begin

text \<open>
  No deal of the mock chain can be stuck.  While the clock and the money stay within the machine
  widths, a buyer's STOP of an open undisputed deal succeeds, and so does the release of an open
  dispute; no operation panics.  The exact settlement of a STOP follows from the same equations.
\<close>

section \<open>Ranges\<close>

text \<open>The constants the closing formulas rely on: rates of the documented widths, no rebate above the volume.\<close>

definition consts_ok :: "protocol_consts \<Rightarrow> bool" where
  "consts_ok c \<longleftrightarrow> consts_typed c \<and> rebate_max_bps c \<le> 10000"

lemma canonical_consts_ok: "consts_ok canonical_consts"
  using canonical_consts_typed by (simp add: consts_ok_def canonical_consts_def)

text \<open>Everything in the deal fits \<open>u128\<close>, and the claim window can still be added to the clock.\<close>

definition in_range :: "protocol_consts \<Rightarrow> nat \<Rightarrow> stream_cell \<Rightarrow> deal_subscription \<Rightarrow> bool" where
  "in_range c now cell sub \<longleftrightarrow>
     deal_funding c cell sub \<le> u128_max \<and> now + claim_promote_window c \<le> u64_max"

lemma add_u128_ok: "a + b \<le> u128_max \<Longrightarrow> add_u128 a b e = Inr (a + b)"
  by (simp add: add_u128_def checked_add_def)

lemma claim_deadline_ok:
  "landed + w \<le> u64_max \<Longrightarrow> claim_deadline_reached landed w now = Inr (landed + w \<le> now)"
  by (simp add: claim_deadline_reached_def checked_add_def)

lemma promote_due_ok:
  assumes "sc_last_claim_time cell + claim_promote_window c \<le> u64_max"
    and "sc_tokens_final cell \<le> sc_tokens_pending cell"
  shows "promote_due cell t c = Inr (if sc_last_claim_time cell + claim_promote_window c \<le> t
     then cell\<lparr>sc_tokens_final := sc_tokens_pending cell\<rparr> else cell)"
  using assms
  by (cases cell) (auto simp: promote_due_def claim_deadline_ok promote_once_def)

lemma void_claims_ok:
  "sc_last_claim_time cell + claim_promote_window c \<le> u64_max \<Longrightarrow> \<exists>cell'. void_claims_at cell t c = Inr cell'"
  by (auto simp: void_claims_at_def claim_deadline_ok Let_def)

lemma finalized_ticks_ok:
  assumes "terms_inv c cell sub" and "n \<le> ds_funded_tokens sub"
  shows "mock_finalized_ticks n = Inr (n div TICK_SIZE)"
proof -
  have "n div TICK_SIZE \<le> ds_funded_tokens sub div TICK_SIZE" using assms(2) by (rule div_le_mono)
  also have "\<dots> = sc_max_ticks cell" using assms(1)
    by (metis TICK_SIZE_pos div_mult_self_is_m terms_inv_def)
  finally show ?thesis using assms(1) by (simp add: mock_finalized_ticks_def try_from_def terms_inv_def)
qed

section \<open>Closing succeeds\<close>

definition rebate_of :: "protocol_consts \<Rightarrow> nat \<Rightarrow> nat \<Rightarrow> nat" where
  "rebate_of c p n = n * p * min (rebate_slope_bps c * n) (rebate_max_bps c) div 10000"

lemma u64_product_fits: "a \<le> u64_max \<Longrightarrow> b \<le> u64_max \<Longrightarrow> a * b \<le> u128_max"
proof -
  assume "a \<le> u64_max" "b \<le> u64_max"
  then have "a * b \<le> u64_max * u64_max" by (rule mult_le_mono)
  also have "\<dots> \<le> u128_max" by (simp add: u64_max_def u128_max_def)
  finally show ?thesis .
qed

lemma mock_rebate_ok:
  assumes "consts_ok c" and "n \<le> u64_max" and "sc_price cell \<le> u64_max"
  shows "mock_rebate cell n c True = Inr (min (rebate_of c (sc_price cell) n) (sc_fee_accrued cell))"
proof -
  define rate where "rate = min (rebate_slope_bps c * n) (rebate_max_bps c)"
  have gross: "n * sc_price cell \<le> u128_max" using assms(2,3) by (rule u64_product_fits)
  have slope: "rebate_slope_bps c \<le> u64_max"
    using assms(1) by (simp add: consts_ok_def consts_typed_def u32_max_def u64_max_def)
  have sat: "min (saturating_mul u128_max (rebate_slope_bps c) n) (rebate_max_bps c) = rate"
    using u64_product_fits [OF slope assms(2)] by (simp add: saturating_mul_def rate_def)
  have rate: "rate \<le> 10000" using assms(1) by (auto simp: rate_def consts_ok_def min_def)
  have "n * sc_price cell * rate \<le> n * sc_price cell * 10000" using rate by (rule mult_le_mono2)
  then have le: "n * sc_price cell * rate div 10000 \<le> u128_max"
    using gross by (metis div_le_mono div_mult_self_is_m le_trans zero_less_numeral)
  have "(10000 - 1) * rate \<le> u128_max"
    using rate u32_bps_fits [of rate] by (simp add: u32_max_def)
  then have "checked_mul_div_floor (n * sc_price cell) rate 10000 e =
      Inr (n * sc_price cell * rate div 10000)" for e
    using checked_mul_div_floor_eq [of 10000 rate "n * sc_price cell" e] le by simp
  then show ?thesis
    using gross sat by (simp add: mock_rebate_def checked_mul_def rebate_of_def rate_def)
qed

text \<open>
  What a clean close leaves: the rebate and the bond to the seller, what is unspent and the bond
  to the buyer, the rest of the fee burned.
\<close>

lemma close_mock_clean_ok:
  assumes "consts_ok c" and "n \<le> u64_max" and "sc_price cell \<le> u64_max" and "cell_money cell \<le> u128_max"
  defines "rebate \<equiv> min (rebate_of c (sc_price cell) n) (sc_fee_accrued cell)"
  defines "refund \<equiv> sc_buyer_locked cell + sc_probe_locked cell + sc_buyer_bond cell"
  shows "\<exists>cell'. close_mock_clean cell n c = Inr (cell', refund)
     \<and> sc_seller_received cell' = sc_seller_received cell + rebate + sc_seller_locked cell
     \<and> sc_buyer_refunded cell' = sc_buyer_refunded cell + refund
     \<and> sc_burned cell' = sc_burned cell + (sc_fee_accrued cell - rebate)"
proof -
  have reb: "mock_rebate cell n c True = Inr rebate"
    unfolding rebate_def using assms(1-3) by (rule mock_rebate_ok)
  have le: "rebate \<le> sc_fee_accrued cell" by (simp add: rebate_def)
  have fees: "settle_mock_fees cell n c True = Inr (cell\<lparr>sc_seller_received := sc_seller_received cell + rebate,
      sc_burned := sc_burned cell + (sc_fee_accrued cell - rebate), sc_fee_accrued := 0\<rparr>)"
    using reb le assms(4) by (simp add: settle_mock_fees_def add_u128_ok cell_money_def)
  show ?thesis
    using fees le assms(4)
    by (simp add: close_mock_clean_def add_u128_ok cell_money_def refund_def drained_def)
qed


section \<open>The buyer's STOP\<close>

text \<open>The tokens trusted at time \<open>t\<close>: the pending claim too once its window has passed.\<close>

definition trusted_at :: "protocol_consts \<Rightarrow> stream_cell \<Rightarrow> nat \<Rightarrow> nat" where
  "trusted_at c cell t =
     (if sc_last_claim_time cell + claim_promote_window c \<le> t then sc_tokens_pending cell
      else sc_tokens_final cell)"

text \<open>What a STOP pays for: the trusted tokens, and on a subscription every week that has started.\<close>

definition stop_pays :: "protocol_consts \<Rightarrow> stream_cell \<Rightarrow> deal_subscription \<Rightarrow> nat \<Rightarrow> nat \<Rightarrow> nat" where
  "stop_pays c cell sub t1 t2 =
     max (trusted_at c cell t1)
       (if is_subscription sub \<and> ds_week_index sub < weeks_at sub t2 True
        then weeks_at sub t2 True * ds_tokens_per_week sub else ds_tokens_paid sub)"

lemma running_widths:
  assumes "running c now cell sub" and "in_range c now cell sub"
  shows "sc_price cell \<le> u64_max" and "cell_money cell \<le> u128_max" and "shape_inv sub"
    and "sc_last_claim_time cell + claim_promote_window c \<le> u64_max"
    and "sc_tokens_final cell \<le> sc_tokens_pending cell"
    and "sc_tokens_pending cell \<le> ds_funded_tokens sub"
    and "ds_period_start sub \<le> now"
  using assms running_money [OF assms(1)]
  by (auto simp: running_def terms_inv_def in_range_def times_inv_def pipe_inv_def)

lemma promoted_trusted:
  assumes run: "running c now cell sub" and rng: "in_range c now cell sub"
  shows "promote_due cell t c = Inr (cell\<lparr>sc_tokens_final := trusted_at c cell t\<rparr>)"
    and "running c now (cell\<lparr>sc_tokens_final := trusted_at c cell t\<rparr>) sub"
proof -
  have "promote_due cell t c = Inr (cell\<lparr>sc_tokens_final := trusted_at c cell t\<rparr>)"
    using promote_due_ok [OF running_widths(4,5) [OF run rng], of t]
    by (cases cell) (simp add: trusted_at_def)
  then show "promote_due cell t c = Inr (cell\<lparr>sc_tokens_final := trusted_at c cell t\<rparr>)"
    "running c now (cell\<lparr>sc_tokens_final := trusted_at c cell t\<rparr>) sub"
    using promoted_running(1) [OF run] by auto
qed

text \<open>The weekly charge of a STOP succeeds.\<close>

lemma stop_charge_ok:
  assumes run: "running c now cell sub" and typed: "consts_typed c" and t: "ds_period_start sub \<le> t"
  shows "(if is_subscription sub then and_then (subscription_weeks_at sub t b) (\<lambda>w.
            charge_subscription_through cell sub w c) else Inr (cell, sub, False)) =
     (if is_subscription sub
      then Inr (fst (charged c (weeks_at sub t b) cell sub), snd (charged c (weeks_at sub t b) cell sub),
                ds_week_index sub < weeks_at sub t b)
      else Inr (cell, sub, False))"
proof -
  have "shape_inv sub" using run by (simp add: running_def terms_inv_def)
  then show ?thesis
    using charge_through_eq [OF run typed _ weeks_at_le] subscription_weeks_at_eq t by simp
qed

lemma close_paid_ok:
  assumes run: "running c now cell sub" and ok: "consts_ok c" and rng: "in_range c now cell sub"
    and n: "n \<le> ds_funded_tokens sub" and cell1: "paid_up c (ds_funded_tokens sub) cell1 n"
    and same: "sc_price cell1 = sc_price cell" "sc_seller_locked cell1 = sc_seller_locked cell"
      "sc_probe_locked cell1 = 0" "sc_buyer_bond cell1 = sc_buyer_bond cell"
      "sc_buyer_refunded cell1 = 0" "sc_burned cell1 = 0"
    and d: "d \<le> u64_max"
  defines "p \<equiv> sc_price cell"
  defines "rebate \<equiv> min (rebate_of c p d) (fee_on c (pay_for p n))"
  shows "\<exists>cell' refund. close_mock_clean cell1 d c = Inr (cell', refund)
     \<and> refund + cost_of c p n = cost_of c p (ds_funded_tokens sub) + sc_buyer_bond cell
     \<and> sc_seller_received cell' = pay_for p n + rebate + 2 * p
     \<and> sc_buyer_refunded cell' = refund \<and> sc_burned cell' = fee_on c (pay_for p n) - rebate"
proof -
  have paid: "sc_buyer_locked cell1 + cost_of c p n = cost_of c p (ds_funded_tokens sub)"
    "sc_seller_received cell1 = pay_for p n" "sc_fee_accrued cell1 = fee_on c (pay_for p n)"
    using cell1 by (simp_all add: paid_up_def same p_def)
  have locked: "sc_seller_locked cell1 = 2 * p" using running_books(4) [OF run] by (simp add: same p_def)
  have "cell_money cell1 = deal_funding c cell sub"
    using paid locked running_books(7) [OF run] same
    by (simp add: cell_money_def deal_funding_def cost_of_def p_def)
  then have "cell_money cell1 \<le> u128_max" using rng by (simp add: in_range_def)
  then show ?thesis
    using close_mock_clean_ok [OF ok d, of cell1] running_widths(1) [OF run rng] paid locked same
    by (auto simp: rebate_def p_def)
qed

text \<open>The cell and shape of a stopping deal after its weeks and its trusted tokens are paid.\<close>

lemma stop_paid_ok:
  assumes run: "running c now cell sub" and typed: "consts_typed c"
    and q: "n = max (sc_tokens_final cell) (ds_tokens_paid sub)"
  shows "\<exists>cell' sub'. (if sc_tokens_final cell > ds_tokens_paid sub
       then credit_tokens_through cell sub (sc_tokens_final cell) c else Inr (cell, sub)) = Inr (cell', sub')
     \<and> paid_up c (ds_funded_tokens sub) cell' n \<and> ds_tokens_paid sub' = n
     \<and> n \<le> ds_funded_tokens sub
     \<and> sc_price cell' = sc_price cell \<and> sc_seller_locked cell' = sc_seller_locked cell
     \<and> sc_probe_locked cell' = 0 \<and> sc_buyer_bond cell' = sc_buyer_bond cell
     \<and> sc_buyer_refunded cell' = 0 \<and> sc_burned cell' = 0 \<and> sc_machine cell' = sc_machine cell
     \<and> sc_tokens_final cell' = sc_tokens_final cell \<and> sc_probe_accepted cell'"
proof -
  have fin: "sc_tokens_final cell \<le> ds_funded_tokens sub" using run by (rule running_pending_funded)
  have paid: "ds_tokens_paid sub \<le> ds_funded_tokens sub"
    and fixed: "sc_probe_locked cell = 0" "sc_buyer_refunded cell = 0" "sc_burned cell = 0" "sc_probe_accepted cell"
    using run running_books [OF run] by (auto simp: running_def terms_inv_def shape_inv_def)
  show ?thesis
  proof (cases "sc_tokens_final cell > ds_tokens_paid sub")
    case True
    then have "credit_tokens_through cell sub (sc_tokens_final cell) c
        = Inr (pay_through c (Some (sc_tokens_final cell)) (cell, sub))"
      using credit_running [OF run typed _ fin] by simp
    then show ?thesis
      using True q fixed fin pay_cell_paid_up [OF fin] by (simp add: pay_through_def max_def)
  next
    case False
    then show ?thesis using q fixed paid running_books(3) [OF run] by (simp add: max_def)
  qed
qed

lemma trusted_at_le: "pipe_inv cell sub \<Longrightarrow> trusted_at c cell t \<le> ds_funded_tokens sub"
  by (auto simp: trusted_at_def pipe_inv_def)

lemma stop_accepted_settles:
  assumes run: "running c now cell sub" and mach: "machine_inv cell" and nd: "\<not> sc_disputed cell"
    and ok: "consts_ok c" and rng: "in_range c now cell sub" and t: "now \<le> t1" "t1 \<le> t2"
  defines "p \<equiv> sc_price cell"
  defines "n \<equiv> stop_pays c cell sub t1 t2"
  defines "rebate \<equiv> min (rebate_of c p (max (trusted_at c cell t1 div TICK_SIZE) 1)) (fee_on c (pay_for p n))"
  shows "\<exists>cell' sub' refund.
     stop_accepted cell sub t1 t2 c = Inr (cell', sub', AmicableSplit (n div TICK_SIZE) refund)
     \<and> ds_tokens_paid sub' = n
     \<and> refund + cost_of c p n = cost_of c p (ds_funded_tokens sub) + sc_buyer_bond cell
     \<and> sc_seller_received cell' = pay_for p n + rebate + 2 * p
     \<and> sc_buyer_refunded cell' = refund \<and> sc_burned cell' = fee_on c (pay_for p n) - rebate"
proof -
  have typed: "consts_typed c" using ok by (simp add: consts_ok_def)
  define cell1 where "cell1 = cell\<lparr>sc_tokens_final := trusted_at c cell t1\<rparr>"
  have p1: "promote_due cell t1 c = Inr cell1" and run1: "running c now cell1 sub"
    using promoted_trusted [OF run rng] by (simp_all add: cell1_def)
  have ps: "ds_period_start sub \<le> t2" using running_widths(7) [OF run rng] t by simp
  define w where "w = weeks_at sub t2 True"
  define x where "x = (if is_subscription sub then charged c w cell1 sub else (cell1, sub))"
  obtain cell2 sub2 where x: "x = (cell2, sub2)" by (cases x)
  have ch: "(if is_subscription sub then and_then (subscription_weeks_at sub t2 True) (\<lambda>w.
            charge_subscription_through cell1 sub w c) else Inr (cell1, sub, False))
      = Inr (cell2, sub2, is_subscription sub \<and> ds_week_index sub < w)"
    using stop_charge_ok [OF run1 typed ps, of True] x by (simp add: x_def w_def split: if_splits)
  note r2 = stop_charge_running [OF run1 typed ch]
  have fin2: "sc_tokens_final cell2 = trusted_at c cell t1"
    and bond2: "sc_buyer_bond cell2 = sc_buyer_bond cell" "sc_price cell2 = p"
    and paid2: "ds_tokens_paid sub2 = (if is_subscription sub \<and> ds_week_index sub < w
        then w * ds_tokens_per_week sub else ds_tokens_paid sub)"
    and funded2: "ds_funded_tokens sub2 = ds_funded_tokens sub" "is_subscription sub2 = is_subscription sub"
    using x by (auto simp: x_def charged_def cell1_def p_def is_subscription_def split: if_splits)
  have n: "n = max (sc_tokens_final cell2) (ds_tokens_paid sub2)"
    by (simp add: n_def stop_pays_def fin2 paid2 w_def)
  obtain cell3 sub3 where
    cr: "(if sc_tokens_final cell2 > ds_tokens_paid sub2
       then credit_tokens_through cell2 sub2 (sc_tokens_final cell2) c else Inr (cell2, sub2)) = Inr (cell3, sub3)"
    and c3: "paid_up c (ds_funded_tokens sub2) cell3 n" "ds_tokens_paid sub3 = n"
     "n \<le> ds_funded_tokens sub2"
     "sc_price cell3 = sc_price cell2" "sc_seller_locked cell3 = sc_seller_locked cell2"
     "sc_probe_locked cell3 = 0" "sc_buyer_bond cell3 = sc_buyer_bond cell2"
     "sc_buyer_refunded cell3 = 0" "sc_burned cell3 = 0" "sc_machine cell3 = sc_machine cell2"
     "sc_tokens_final cell3 = sc_tokens_final cell2" "sc_probe_accepted cell3"
    using stop_paid_ok [OF r2(1) typed n] by blast
  have terms: "terms_inv c cell sub" "pipe_inv cell sub" using run by (simp_all add: running_def)
  define d where "d = max (trusted_at c cell t1 div TICK_SIZE) 1"
  have ft: "mock_finalized_ticks (trusted_at c cell t1) = Inr (trusted_at c cell t1 div TICK_SIZE)"
    using finalized_ticks_ok [OF terms(1) trusted_at_le [OF terms(2)]] .
  then have dl: "delivered_ticks cell3 = Inr d"
    using c3(11,12) fin2 by (simp add: delivered_ticks_def d_def)
  have d64: "d \<le> u64_max"
    using ft by (auto simp: mock_finalized_ticks_def result_simps checked_simps d_def u64_max_def)
  have op: "\<not> sc_closed cell" "sc_probe_accepted cell" using run by (simp_all add: running_def)
  have "sc_machine cell3 = sc_machine cell" using c3(10) r2(4) by (simp add: cell1_def)
  then obtain m s where m: "machine_buyer_stop (sc_machine cell3) = Some (m, s :: mock_settlement)"
      "sm_price m = sc_price cell3"
    using mach nd op by (auto simp: machine_inv_def machine_buyer_stop_def Let_def)
  have rng2: "in_range c now cell2 sub2"
    using rng by (auto simp: in_range_def deal_funding_def funded2 bond2 p_def split: if_splits)
  define cell3m where "cell3m = cell3\<lparr>sc_machine := m\<rparr>"
  have "paid_up c (ds_funded_tokens sub2) cell3m n"
    using c3(1) m(2) by (simp add: paid_up_def cell3m_def)
  then obtain cell4 refund where cl: "close_mock_clean cell3m d c = Inr (cell4, refund)"
     "refund + cost_of c p n = cost_of c p (ds_funded_tokens sub) + sc_buyer_bond cell"
     "sc_seller_received cell4 = pay_for p n + rebate + 2 * p"
     "sc_buyer_refunded cell4 = refund" "sc_burned cell4 = fee_on c (pay_for p n) - rebate"
    using close_paid_ok [OF r2(1) ok rng2 c3(3), of cell3m d] d64 c3 m(2) bond2 funded2
    by (auto simp: cell3m_def rebate_def d_def)
  have "mock_finalized_ticks n = Inr (n div TICK_SIZE)"
    using finalized_ticks_ok [OF terms(1)] c3(3) funded2 by simp
  then have "stop_accepted cell sub t1 t2 c =
      Inr (cell4\<lparr>sc_buyer_stop_settlement := Some (sc_seller_received cell4, refund)\<rparr>, sub3,
           AmicableSplit (n div TICK_SIZE) refund)"
    unfolding stop_accepted_def using p1 ch cr dl m(1) cl(1) c3(2)
    by (simp add: cell3m_def)
  then show ?thesis using cl c3(2) by simp
qed

end
