(* ===== verification/MockResolve.thy ===== *)
theory MockResolve
  imports MockLiveness
begin

text \<open>
  Resolving a dispute always succeeds: the trusted but unpaid tokens are affordable out of what
  the escrow still holds, and no sum leaves \<open>u128\<close>.  The second half says what it leaves in the
  books, as functions of the disputed deal.
\<close>

lemma dispute_stake_ok:
  assumes "sc_price cell \<le> u64_max" and "consts_typed c"
    and "cost_of c (sc_price cell) f \<le> u128_max" and "sc_tokens_pending cell \<le> f"
  shows "\<exists>stake. dispute_stake cell sub c = Inr stake"
proof -
  let ?n = "sc_tokens_pending cell - claim_base sub"
  have "cost_of c (sc_price cell) ?n \<le> u128_max"
    using cost_of_mono [of ?n f c "sc_price cell"] assms(3,4) by linarith
  then show ?thesis
    using token_pay_and_fee_eq [OF assms(1,2), of ?n]
    by (simp add: dispute_stake_def add_u128_ok cost_of_def Let_def)
qed

lemma credit_delta_ok:
  assumes "sc_price cell \<le> u64_max" and "consts_typed c" and "cell_money cell \<le> u128_max"
    and "cost_of c (sc_price cell) n \<le> sc_buyer_locked cell"
  shows "\<exists>cell'. credit_token_delta cell n c = Inr cell'"
proof -
  have "sc_buyer_locked cell \<le> u128_max" using assms(3) by (simp add: cell_money_def)
  then have "token_pay_and_fee n (sc_price cell) c
      = Inr (pay_for (sc_price cell) n, fee_on c (pay_for (sc_price cell) n))"
    using token_pay_and_fee_eq [OF assms(1,2)] assms(4) by simp
  then show ?thesis
    using assms(3,4)
    by (simp add: credit_token_delta_def debit_escrow_def cell_money_def cost_of_def add_u128_ok)
qed

lemma burn_stakes_ok:
  assumes "cell_money cell \<le> u128_max" and "is_subscription sub \<Longrightarrow> stake \<le> sc_buyer_bond cell"
  shows "\<exists>cell'. burn_stakes cell sub stake b = Inr cell'"
  using assms by (auto simp: burn_stakes_def Let_def cell_money_def add_u128_ok)

lemma settle_fees_dirty_ok:
  "cell_money cell \<le> u128_max \<Longrightarrow> \<exists>cell'. settle_mock_fees cell d c False = Inr cell'"
  by (simp add: settle_mock_fees_def mock_rebate_def add_u128_ok cell_money_def)

text \<open>The trusted tokens not yet paid still fit the funded volume next to those already paid.\<close>

lemma owed_within_funded:
  assumes run: "running c now cell sub" and k: "k \<le> sc_tokens_pending cell"
  shows "ds_tokens_paid sub + (k - claim_base sub) \<le> ds_funded_tokens sub"
proof -
  have terms: "shape_inv sub" and pend: "sc_tokens_pending cell \<le> ds_funded_tokens sub"
    using run by (simp_all add: running_def terms_inv_def pipe_inv_def)
  have paid: "ds_tokens_paid sub \<le> ds_funded_tokens sub" "ds_tokens_paid sub = paid_target sub"
    and room: "weekly_room cell sub"
    using running_books [OF run] terms by (auto simp: shape_inv_def)
  show ?thesis
  proof (cases "is_subscription sub \<and> ds_week_index sub > 0")
    case False
    then show ?thesis using k pend paid(1) by (auto simp: claim_base_def)
  next
    case True
    then have base: "claim_base sub = ds_week_base_tokens sub" by (simp add: claim_base_def)
    show ?thesis
    proof (cases "ds_week_index sub < ds_sub_weeks sub")
      case less: True
      have "k - claim_base sub \<le> ds_tokens_per_week sub"
        using room less k unfolding base weekly_room_def by (simp add: le_diff_conv)
      moreover have "(ds_week_index sub + 1) * ds_tokens_per_week sub \<le> ds_funded_tokens sub"
        using week_target_le_funded [OF terms, of "ds_week_index sub + 1"] True less by simp
      ultimately show ?thesis using paid(2) True by (simp add: paid_target_def)
    next
      case False
      then have "k \<le> claim_base sub" using room k base True by (simp add: weekly_room_def)
      then show ?thesis using paid(1) by simp
    qed
  qed
qed

lemma owed_affordable:
  assumes run: "running c now cell sub" and k: "k \<le> sc_tokens_pending cell"
  shows "cost_of c (sc_price cell) (k - claim_base sub) \<le> sc_buyer_locked cell"
proof -
  have "cost_of c (sc_price cell) (ds_tokens_paid sub) + cost_of c (sc_price cell) (k - claim_base sub)
      \<le> cost_of c (sc_price cell) (ds_tokens_paid sub + (k - claim_base sub))"
    by (rule cost_of_superadditive)
  also have "\<dots> \<le> cost_of c (sc_price cell) (ds_funded_tokens sub)"
    by (intro cost_of_mono owed_within_funded [OF run k])
  finally show ?thesis using running_books(3) [OF run] by (simp add: paid_up_def)
qed

text \<open>
  The state a dispute is resolved from, once the completed weeks are charged: either a running
  deal, or one whose probe was never accepted and which therefore owes nothing.
\<close>

lemma resolve_charge_ok:
  assumes inv: "deal_inv c now cell sub" and op: "\<not> sc_closed cell" "sc_disputed cell" and typed: "consts_typed c"
  shows "\<exists>cell' sub'. charge_completed_weeks cell sub c = Inr (cell', sub')
     \<and> sc_dispute_time cell' = sc_dispute_time cell \<and> ds_period_start sub' = ds_period_start sub
     \<and> sc_tokens_pending cell' = sc_tokens_pending cell
     \<and> sc_last_claim_time cell' = sc_last_claim_time cell
     \<and> same_terms (cell, sub) (cell', sub') \<and> shape_inv sub'
     \<and> (\<forall>k \<le> sc_tokens_pending cell'.
          cost_of c (sc_price cell') (k - claim_base sub') \<le> sc_buyer_locked cell')"
proof -
  have inv': "shape_inv sub" "times_inv now cell sub" "pipe_inv cell sub"
    using inv by (simp_all add: deal_inv_def terms_inv_def)
  have ps: "ds_period_start sub \<le> sc_dispute_time cell" using inv'(2) op by (auto simp: times_inv_def)
  show ?thesis
  proof (cases "is_subscription sub \<and> sc_probe_accepted cell")
    case True
    then have run: "running c now cell sub" using inv op running_iff by auto
    define w where "w = weeks_at sub (sc_dispute_time cell) False"
    obtain cell1 sub1 where x: "charged c w cell sub = (cell1, sub1)" by (cases "charged c w cell sub")
    have ch: "charge_completed_weeks cell sub c = Inr (cell1, sub1)"
      using True subscription_weeks_at_eq [OF inv'(1) ps] x
        charge_through_eq [OF run typed _ weeks_at_le, of "sc_dispute_time cell" False]
      by (simp add: charge_completed_weeks_def w_def)
    have run1: "running c now cell1 sub1"
      using charged_running [OF run _ weeks_at_le, of "sc_dispute_time cell" False] True x
      by (simp add: w_def)
    have "sc_dispute_time cell1 = sc_dispute_time cell" "ds_period_start sub1 = ds_period_start sub"
      "sc_tokens_pending cell1 = sc_tokens_pending cell" "same_terms (cell, sub) (cell1, sub1)"
      "sc_last_claim_time cell1 = sc_last_claim_time cell"
      using x charged_same_terms [of cell sub c w] by (auto simp: charged_def split: if_splits)
    then show ?thesis using ch owed_affordable [OF run1] run1
      by (auto simp: running_def terms_inv_def)
  next
    case False
    have "cost_of c (sc_price cell) (k - claim_base sub) \<le> sc_buyer_locked cell"
      if "k \<le> sc_tokens_pending cell" for k
    proof (cases "sc_probe_accepted cell")
      case True
      then have "running c now cell sub" using inv op running_iff by auto
      then show ?thesis using owed_affordable that by blast
    qed (use that inv'(3) in \<open>simp add: pipe_inv_def\<close>)
    then show ?thesis using False inv' by (auto simp: charge_completed_weeks_def same_terms_def)
  qed
qed

lemma refundable_ok:
  assumes "shape_inv sub" and "ds_period_start sub \<le> sc_dispute_time cell" and "consts_typed c"
    and "sc_price cell \<le> u64_max" and "cost_of c (sc_price cell) (ds_funded_tokens sub) \<le> u128_max"
    and "ds_funded_tokens sub \<le> u128_max"
  shows "\<exists>x. refundable_deposit cell sub r c = Inr x"
proof (cases "is_subscription sub \<and> sc_probe_accepted cell")
  case True
  let ?w = "weeks_at sub (sc_dispute_time cell) True"
  let ?n = "(ds_sub_weeks sub - ?w) * ds_tokens_per_week sub"
  have le: "?n \<le> ds_funded_tokens sub" using week_target_le_funded [OF assms(1)] True by simp
  then have "cost_of c (sc_price cell) ?n \<le> u128_max" using cost_of_mono [OF le] assms(5) by (meson le_trans)
  moreover from this have "token_pay_and_fee ?n (sc_price cell) c
      = Inr (pay_for (sc_price cell) ?n, fee_on c (pay_for (sc_price cell) ?n))"
    using token_pay_and_fee_eq [OF assms(4,3)] by simp
  ultimately show ?thesis
    using True le assms(6) subscription_weeks_at_eq [OF assms(1,2)]
    by (simp add: refundable_deposit_def checked_mul_def add_u128_ok cost_of_def Let_def)
qed (auto simp: refundable_deposit_def)

lemma resolve_machine_ok:
  "(\<exists>t p. sm_state m = Disputed t p) \<Longrightarrow> \<exists>m'. resolve_machine m b = Inr m'"
  by (auto simp: resolve_machine_def machine_release_dispute_def Let_def)

lemma resolve_mock_dispute_ok:
  assumes inv: "deal_inv c now cell sub" and op: "\<not> sc_closed cell" "sc_disputed cell"
    and ok: "consts_ok c" and rng: "in_range c now cell sub"
  shows "\<exists>cell' sub' r s. resolve_mock_dispute cell sub c timed_out = Inr (cell', sub', r, s)"
proof -
  have typed: "consts_typed c" using ok by (simp add: consts_ok_def)
  have terms: "terms_inv c cell sub" and times: "times_inv now cell sub" and pipe: "pipe_inv cell sub"
    and mach: "machine_inv cell" and money: "cell_money cell \<le> u128_max"
    using inv rng by (auto simp: deal_inv_def in_range_def)
  obtain cell1 sub1 where s1: "charge_completed_weeks cell sub c = Inr (cell1, sub1)"
    and c1: "sc_dispute_time cell1 = sc_dispute_time cell" "ds_period_start sub1 = ds_period_start sub"
     "sc_tokens_pending cell1 = sc_tokens_pending cell"
     "sc_last_claim_time cell1 = sc_last_claim_time cell"
     "same_terms (cell, sub) (cell1, sub1)" "shape_inv sub1"
     "\<And>k. k \<le> sc_tokens_pending cell1 \<Longrightarrow>
          cost_of c (sc_price cell1) (k - claim_base sub1) \<le> sc_buyer_locked cell1"
    using resolve_charge_ok [OF inv op typed] by blast
  have eq: "sc_price cell1 = sc_price cell" "ds_funded_tokens sub1 = ds_funded_tokens sub"
    using c1(5) by (simp_all add: same_terms_def)
  have price: "sc_price cell \<le> u64_max" "cost_of c (sc_price cell) (ds_funded_tokens sub) \<le> u128_max"
    using terms by (simp_all add: terms_inv_def)
  obtain stake where s2: "dispute_stake cell1 sub1 c = Inr stake"
    using dispute_stake_ok [of cell1 c "ds_funded_tokens sub" sub1] price typed pipe c1(3) eq
    by (auto simp: pipe_inv_def)
  have "sc_last_claim_time cell1 + claim_promote_window c \<le> u64_max"
    using c1(4) times rng by (simp add: times_inv_def in_range_def)
  then obtain cell2 where s3: "void_claims_at cell1 (sc_dispute_time cell1) c = Inr cell2"
    using void_claims_ok by blast
  have fin1: "sc_tokens_final cell1 \<le> sc_tokens_pending cell1"
    using charge_completed_evolves(1) [OF inv op(1) typed s1] by (auto simp: evolves_def)
  have c2: "sc_tokens_final cell2 \<le> sc_tokens_pending cell1" "sc_price cell2 = sc_price cell"
    "sc_buyer_locked cell2 = sc_buyer_locked cell1"
    using void_claims_Inr [OF s3] fin1 eq by auto
  have money2: "cell_money cell2 \<le> u128_max"
    using void_claims_money [OF s3] charge_completed_weeks_money [OF s1] money by simp
  obtain cell3 where s4: "credit_token_delta cell2 (saturating_sub (sc_tokens_final cell2) (claim_base sub1)) c = Inr cell3"
    using credit_delta_ok [of cell2 c "sc_tokens_final cell2 - claim_base sub1"] price typed money2 c2
      c1(7) [OF c2(1)] eq by auto
  define sub2 where "sub2 = sub1\<lparr>ds_tokens_paid := max (ds_tokens_paid sub1) (sc_tokens_final cell2)\<rparr>"
  have sub2: "is_subscription sub2 = is_subscription sub1" by (simp add: sub2_def is_subscription_def)
  have money3: "cell_money cell3 \<le> u128_max" using credit_token_delta_money [OF s4] money2 by simp
  have stake: "is_subscription sub2 \<Longrightarrow> stake \<le> sc_buyer_bond cell3"
    using dispute_stake_le [OF s2] void_claims_bond [OF s3] credit_delta_bond [OF s4] sub2 by simp
  obtain cell4 where s5: "burn_stakes cell3 sub2 stake timed_out = Inr cell4"
    using burn_stakes_ok [OF money3 stake] by blast
  have money4: "cell_money cell4 \<le> u128_max" using burn_stakes_money [OF s5 stake] money3 by simp
  have f4: "tail_frame cell2 cell4"
    using credit_delta_frame [OF s4] burn_stakes_frame [OF s5] tail_frame_trans by blast
  have fin4: "sc_tokens_final cell4 \<le> ds_funded_tokens sub"
    using f4 c2(1) c1(3) pipe by (auto simp: tail_frame_def pipe_inv_def)
  obtain d where s6: "delivered_ticks cell4 = Inr d"
    using finalized_ticks_ok [OF terms fin4] by (simp add: delivered_ticks_def)
  obtain cell5 where s7: "settle_mock_fees cell4 d c False = Inr cell5"
    using settle_fees_dirty_ok [OF money4] by blast
  have money5: "cell_money cell5 \<le> u128_max" using settle_mock_fees_money(1) [OF s7] money4 by simp
  have f5: "tail_frame cell2 cell5" using f4 settle_fees_frame [OF s7] tail_frame_trans by blast
  have c5: "sc_price cell5 = sc_price cell" "sc_dispute_time cell5 = sc_dispute_time cell"
    "sc_machine cell5 = sc_machine cell"
    using f5 void_claims_Inr [OF s3] c1(1) eq charge_completed_evolves(2) [OF inv op(1) typed s1]
    by (auto simp: tail_frame_def)
  have shape2: "shape_inv sub2"
    using c1(6) c2(1) c1(3) pipe eq by (auto simp: shape_inv_def sub2_def is_subscription_def pipe_inv_def)
  have ps: "ds_period_start sub2 \<le> sc_dispute_time cell5"
    using times op c5(2) c1(2) by (auto simp: sub2_def times_inv_def)
  obtain x where s8: "refundable_deposit cell5 sub2 (sc_buyer_locked cell5 + sc_probe_locked cell5) c = Inr x"
    using refundable_ok [OF shape2 ps typed] price c5(1) funded_fits [OF terms] eq
    by (auto simp: sub2_def)
  have "\<exists>t p. sm_state (sc_machine cell5) = Disputed t p"
    using mach op c5(3) by (simp add: machine_inv_def Let_def)
  then obtain m where s9: "resolve_machine (sc_machine cell5) timed_out = Inr m"
    using resolve_machine_ok by blast
  have x: "x \<le> sc_buyer_locked cell5 + sc_probe_locked cell5" using refundable_le [OF s8] .
  show ?thesis
    unfolding resolve_mock_dispute_def
    using op s1 s2 s3 s4 s5 s6 s7 s8 s9 x money5
    by (simp add: add_u128_ok cell_money_def flip: sub2_def)
qed


section \<open>What a resolution pays, refunds and burns\<close>

text \<open>The tokens paid once the weeks completed before the dispute are charged, and what the open claims count from.\<close>

definition week_due :: "stream_cell \<Rightarrow> deal_subscription \<Rightarrow> bool" where
  "week_due cell sub \<longleftrightarrow> is_subscription sub \<and> sc_probe_accepted cell
     \<and> ds_week_index sub < weeks_at sub (sc_dispute_time cell) False"

definition dispute_paid :: "stream_cell \<Rightarrow> deal_subscription \<Rightarrow> nat" where
  "dispute_paid cell sub =
     (if week_due cell sub then weeks_at sub (sc_dispute_time cell) False * ds_tokens_per_week sub
      else ds_tokens_paid sub)"

definition dispute_base :: "stream_cell \<Rightarrow> deal_subscription \<Rightarrow> nat" where
  "dispute_base cell sub = (if week_due cell sub then sc_tokens_pending cell else claim_base sub)"

text \<open>The tokens trusted when the dispute was opened and not yet paid.\<close>

definition dispute_owed :: "protocol_consts \<Rightarrow> stream_cell \<Rightarrow> deal_subscription \<Rightarrow> nat" where
  "dispute_owed c cell sub = trusted_at c cell (sc_dispute_time cell) - dispute_base cell sub"

text \<open>The escrow left when all that is owed has been paid; before the probe is accepted one tick of it is held apart.\<close>

definition dispute_left :: "protocol_consts \<Rightarrow> stream_cell \<Rightarrow> deal_subscription \<Rightarrow> nat" where
  "dispute_left c cell sub =
     cost_of c (sc_price cell) (ds_funded_tokens sub)
     - (if sc_probe_accepted cell then cost_of c (sc_price cell) (dispute_paid cell sub) else sc_price cell)
     - cost_of c (sc_price cell) (dispute_owed c cell sub)"

text \<open>The stake of either side: the contested claims, at least one tick and at most two.\<close>

definition stake_at_risk :: "protocol_consts \<Rightarrow> stream_cell \<Rightarrow> deal_subscription \<Rightarrow> nat" where
  "stake_at_risk c cell sub =
     min (min (max (cost_of c (sc_price cell) (sc_tokens_pending cell - dispute_base cell sub)) (sc_price cell))
              (2 * sc_price cell))
         (if is_subscription sub then 2 * sc_price cell else dispute_left c cell sub)"

text \<open>What is left of the deposit once the stake of an ordinary deal is taken, and the part of it that is refunded.\<close>

definition dispute_deposit :: "protocol_consts \<Rightarrow> stream_cell \<Rightarrow> deal_subscription \<Rightarrow> nat" where
  "dispute_deposit c cell sub =
     dispute_left c cell sub - (if is_subscription sub then 0 else stake_at_risk c cell sub)
     + (if sc_probe_accepted cell then 0 else sc_price cell)"

definition deposit_refund :: "protocol_consts \<Rightarrow> stream_cell \<Rightarrow> deal_subscription \<Rightarrow> nat" where
  "deposit_refund c cell sub =
     (if is_subscription sub \<and> sc_probe_accepted cell
      then min (cost_of c (sc_price cell)
                  ((ds_sub_weeks sub - weeks_at sub (sc_dispute_time cell) True) * ds_tokens_per_week sub))
             (dispute_deposit c cell sub)
      else dispute_deposit c cell sub)"

definition dispute_refund :: "protocol_consts \<Rightarrow> stream_cell \<Rightarrow> deal_subscription \<Rightarrow> nat" where
  "dispute_refund c cell sub =
     deposit_refund c cell sub + (if is_subscription sub then 2 * sc_price cell - stake_at_risk c cell sub else 0)"

definition dispute_proceeds :: "protocol_consts \<Rightarrow> stream_cell \<Rightarrow> deal_subscription \<Rightarrow> nat" where
  "dispute_proceeds c cell sub =
     pay_for (sc_price cell) (dispute_paid cell sub) + pay_for (sc_price cell) (dispute_owed c cell sub)"

text \<open>What burns when the seller concedes: every fee, the buyer's stake, and the weeks that had started.\<close>

definition dispute_burn :: "protocol_consts \<Rightarrow> stream_cell \<Rightarrow> deal_subscription \<Rightarrow> nat" where
  "dispute_burn c cell sub =
     fee_on c (pay_for (sc_price cell) (dispute_paid cell sub))
     + fee_on c (pay_for (sc_price cell) (dispute_owed c cell sub))
     + stake_at_risk c cell sub + (dispute_deposit c cell sub - deposit_refund c cell sub)"

text \<open>The books of a deal that is over.\<close>

definition settled_books :: "stream_cell \<Rightarrow> nat \<Rightarrow> nat \<Rightarrow> nat \<Rightarrow> bool" where
  "settled_books cell received refunded burned \<longleftrightarrow>
     sc_closed cell \<and> \<not> sc_disputed cell \<and> cell_empty cell
     \<and> sc_seller_received cell = received \<and> sc_buyer_refunded cell = refunded \<and> sc_burned cell = burned"

lemma charged_dispute:
  assumes inv: "deal_inv c now cell sub" and op: "\<not> sc_closed cell" "sc_disputed cell" and typed: "consts_typed c"
    and ch: "charge_completed_weeks cell sub c = Inr (cell1, sub1)"
  shows "(cell1, sub1) =
     (if week_due cell sub then charged c (weeks_at sub (sc_dispute_time cell) False) cell sub else (cell, sub))"
proof (cases "is_subscription sub \<and> sc_probe_accepted cell")
  case True
  then have run: "running c now cell sub" using inv op running_iff by auto
  have "shape_inv sub" "ds_period_start sub \<le> sc_dispute_time cell"
    using inv op by (auto simp: deal_inv_def terms_inv_def times_inv_def)
  then show ?thesis
    using True ch subscription_weeks_at_eq charge_through_eq [OF run typed _ weeks_at_le]
    by (auto simp: charge_completed_weeks_def week_due_def charged_def)
qed (use ch in \<open>auto simp: charge_completed_weeks_def week_due_def\<close>)

text \<open>The books a resolution starts from.\<close>

lemma charged_dispute_books:
  assumes inv: "deal_inv c now cell sub" and op: "\<not> sc_closed cell" "sc_disputed cell" and typed: "consts_typed c"
    and ch: "charge_completed_weeks cell sub c = Inr (cell1, sub1)"
  shows "claim_base sub1 = dispute_base cell sub" "ds_tokens_paid sub1 = dispute_paid cell sub"
    "sc_seller_received cell1 = pay_for (sc_price cell) (dispute_paid cell sub)"
    "sc_fee_accrued cell1 = fee_on c (pay_for (sc_price cell) (dispute_paid cell sub))"
    "sc_buyer_locked cell1 = cost_of c (sc_price cell) (ds_funded_tokens sub)
       - (if sc_probe_accepted cell then cost_of c (sc_price cell) (dispute_paid cell sub) else sc_price cell)"
    "sc_price cell1 = sc_price cell" "sc_seller_locked cell1 = 2 * sc_price cell"
    "sc_probe_locked cell1 = (if sc_probe_accepted cell then 0 else sc_price cell)"
    "sc_buyer_bond cell1 = (if is_subscription sub then 2 * sc_price cell else 0)"
    "sc_buyer_refunded cell1 = 0" "sc_burned cell1 = 0"
    "trusted_at c cell1 (sc_dispute_time cell1) = trusted_at c cell (sc_dispute_time cell)"
    "sc_tokens_pending cell1 = sc_tokens_pending cell" "sc_tokens_final cell1 = sc_tokens_final cell"
    "sc_dispute_time cell1 = sc_dispute_time cell" "sc_probe_accepted cell1 = sc_probe_accepted cell"
    "is_subscription sub1 = is_subscription sub" "ds_sub_weeks sub1 = ds_sub_weeks sub"
    "ds_tokens_per_week sub1 = ds_tokens_per_week sub" "ds_period_start sub1 = ds_period_start sub"
proof -
  let ?w = "weeks_at sub (sc_dispute_time cell) False"
  note eq = charged_dispute [OF assms]
  have books: "books_inv c cell sub" using inv op by (simp add: deal_inv_def)
  have probe: "sc_probe_accepted cell \<Longrightarrow> sc_probe_locked cell = 0" using inv by (simp add: deal_inv_def)
  show "claim_base sub1 = dispute_base cell sub" "ds_tokens_paid sub1 = dispute_paid cell sub"
    using eq by (auto simp: dispute_base_def dispute_paid_def charged_def claim_base_def week_due_def is_subscription_def
        split: if_splits)
  show "sc_price cell1 = sc_price cell" "sc_seller_locked cell1 = 2 * sc_price cell"
    "sc_probe_locked cell1 = (if sc_probe_accepted cell then 0 else sc_price cell)"
    "sc_buyer_bond cell1 = (if is_subscription sub then 2 * sc_price cell else 0)"
    "sc_buyer_refunded cell1 = 0" "sc_burned cell1 = 0"
    "trusted_at c cell1 (sc_dispute_time cell1) = trusted_at c cell (sc_dispute_time cell)"
    "sc_tokens_pending cell1 = sc_tokens_pending cell" "sc_tokens_final cell1 = sc_tokens_final cell"
    "sc_dispute_time cell1 = sc_dispute_time cell" "sc_probe_accepted cell1 = sc_probe_accepted cell"
    "is_subscription sub1 = is_subscription sub" "ds_sub_weeks sub1 = ds_sub_weeks sub"
    "ds_tokens_per_week sub1 = ds_tokens_per_week sub" "ds_period_start sub1 = ds_period_start sub"
    using eq books probe
    by (auto simp: charged_def books_inv_def trusted_at_def is_subscription_def split: if_splits)
  show "sc_seller_received cell1 = pay_for (sc_price cell) (dispute_paid cell sub)"
    "sc_fee_accrued cell1 = fee_on c (pay_for (sc_price cell) (dispute_paid cell sub))"
    "sc_buyer_locked cell1 = cost_of c (sc_price cell) (ds_funded_tokens sub)
       - (if sc_probe_accepted cell then cost_of c (sc_price cell) (dispute_paid cell sub) else sc_price cell)"
    using eq books
    by (auto simp: charged_def books_inv_def dispute_paid_def pay_cell_def paid_up_def week_due_def pay_for_def fee_on_def
        split: if_splits)
qed

lemma dispute_stake_Inr:
  assumes "dispute_stake cell sub c = Inr stake" and "sc_price cell \<le> u64_max" and "consts_typed c"
  shows "stake = min (min (min (max (cost_of c (sc_price cell) (sc_tokens_pending cell - claim_base sub)) (sc_price cell))
      (2 * sc_price cell)) (sc_seller_locked cell)) (if is_subscription sub then sc_buyer_bond cell else sc_buyer_locked cell)"
  using assms(1) token_pay_and_fee_Inr [OF assms(2,3)]
  by (force simp: dispute_stake_def result_simps add_u128_Inr Let_def cost_of_def)

lemma void_claims_trusted:
  assumes "void_claims_at cell t c = Inr cell'" and "sc_tokens_final cell \<le> sc_tokens_pending cell"
  shows "cell' = cell\<lparr>sc_tokens_final := trusted_at c cell t, sc_tokens_pending := trusted_at c cell t\<rparr>"
  using assms
  by (cases cell) (auto simp: void_claims_at_def result_simps Let_def trusted_at_def claim_deadline_reached_def checked_simps
      split: if_splits)

lemma credit_delta_Inr:
  assumes "credit_token_delta cell n c = Inr cell'" and "sc_price cell \<le> u64_max" and "consts_typed c"
  shows "cell' = cell\<lparr>sc_buyer_locked := sc_buyer_locked cell - cost_of c (sc_price cell) n,
     sc_seller_received := sc_seller_received cell + pay_for (sc_price cell) n,
     sc_fee_accrued := sc_fee_accrued cell + fee_on c (pay_for (sc_price cell) n)\<rparr>"
  using assms(1) token_pay_and_fee_Inr [OF assms(2,3)]
  by (force simp: credit_token_delta_def result_simps debit_escrow_Inr cost_of_def)

lemma burn_stakes_Inr:
  assumes "burn_stakes cell sub stake0 b = Inr cell'" and "stake0 \<le> sc_seller_locked cell"
  defines "stake \<equiv> (if is_subscription sub then stake0 else min stake0 (sc_buyer_locked cell))"
  shows "sc_buyer_bond cell' = sc_buyer_bond cell - (if is_subscription sub then stake else 0)"
    "sc_buyer_locked cell' = sc_buyer_locked cell - (if is_subscription sub then 0 else stake)"
    "sc_seller_locked cell' = sc_seller_locked cell - (if b then stake else 0)"
    "sc_burned cell' = sc_burned cell + stake + (if b then stake else 0)"
    "sc_seller_received cell' = sc_seller_received cell" "sc_fee_accrued cell' = sc_fee_accrued cell"
    "sc_probe_locked cell' = sc_probe_locked cell" "sc_buyer_refunded cell' = sc_buyer_refunded cell"
  using assms by (auto simp: burn_stakes_def result_simps add_u128_Inr Let_def min_def split: if_splits)

lemma settle_fees_dirty_Inr:
  assumes "settle_mock_fees cell d c False = Inr cell'"
  shows "cell' = cell\<lparr>sc_burned := sc_burned cell + sc_fee_accrued cell, sc_fee_accrued := 0\<rparr>"
  using assms by (cases cell) (auto simp: settle_mock_fees_def mock_rebate_def result_simps add_u128_Inr)

lemma refundable_Inr:
  assumes "refundable_deposit cell sub r c = Inr x" and "shape_inv sub" and "sc_price cell \<le> u64_max"
    and "consts_typed c"
  shows "x = (if is_subscription sub \<and> sc_probe_accepted cell
      then min (cost_of c (sc_price cell)
        ((ds_sub_weeks sub - weeks_at sub (sc_dispute_time cell) True) * ds_tokens_per_week sub)) r else r)"
  using assms(1) token_pay_and_fee_Inr [OF assms(3,4)] subscription_weeks_at_Inr [OF assms(2)]
  by (force simp: refundable_deposit_def result_simps add_u128_Inr checked_simps Let_def cost_of_def split: if_splits)

text \<open>The exact books a resolution leaves.\<close>

lemma resolve_books:
  assumes ok: "resolve_mock_dispute cell sub c b = Inr (cell', sub', refund, bond)"
    and inv: "deal_inv c now cell sub" and op: "\<not> sc_closed cell" "sc_disputed cell" and typed: "consts_typed c"
  defines "lost \<equiv> (if b then stake_at_risk c cell sub else 0)"
  shows "refund = dispute_refund c cell sub \<and> bond = 2 * sc_price cell - lost
     \<and> settled_books cell' (dispute_proceeds c cell sub + bond) refund (dispute_burn c cell sub + lost)
     \<and> ds_tokens_paid sub' = max (dispute_paid cell sub) (trusted_at c cell (sc_dispute_time cell))"
proof -
  obtain cell1 sub1 stake cell2 cell3 cell4 n cell5 x m where
    s1: "charge_completed_weeks cell sub c = Inr (cell1, sub1)" and
    s2: "dispute_stake cell1 sub1 c = Inr stake" and
    s3: "void_claims_at cell1 (sc_dispute_time cell1) c = Inr cell2" and
    s4: "credit_token_delta cell2 (saturating_sub (sc_tokens_final cell2) (claim_base sub1)) c = Inr cell3" and
    s5: "burn_stakes cell3 sub' stake b = Inr cell4" and
    s6: "settle_mock_fees cell4 n c False = Inr cell5" and
    s7: "refundable_deposit cell5 sub' (sc_buyer_locked cell5 + sc_probe_locked cell5) c = Inr x" and
    sub': "sub' = sub1\<lparr>ds_tokens_paid := max (ds_tokens_paid sub1) (sc_tokens_final cell2)\<rparr>" and
    refund: "refund = x + sc_buyer_bond cell5" and bond: "bond = sc_seller_locked cell5" and
    out: "cell' = (drained cell5)\<lparr>
      sc_burned := sc_burned cell5 + (sc_buyer_locked cell5 + sc_probe_locked cell5 - x),
      sc_buyer_refunded := sc_buyer_refunded cell5 + refund,
      sc_seller_received := sc_seller_received cell5 + sc_seller_locked cell5,
      sc_disputed := False, sc_machine := m, sc_closed := True\<rparr>"
    using ok by (fastforce simp: resolve_mock_dispute_def result_simps add_u128_Inr Let_def split: if_splits)
  note k = charged_dispute_books [OF inv op typed s1]
  have p: "sc_price cell \<le> u64_max" and shape: "shape_inv sub" and pipe: "pipe_inv cell sub"
    using inv by (simp_all add: deal_inv_def terms_inv_def)
  have fin: "sc_tokens_final cell1 \<le> sc_tokens_pending cell1" using pipe k by (simp add: pipe_inv_def)
  have cell2: "cell2 = cell1\<lparr>sc_tokens_final := trusted_at c cell (sc_dispute_time cell),
      sc_tokens_pending := trusted_at c cell (sc_dispute_time cell)\<rparr>"
    using void_claims_trusted [OF s3 fin] k by simp
  have owed: "saturating_sub (sc_tokens_final cell2) (claim_base sub1) = dispute_owed c cell sub"
    by (simp add: cell2 k dispute_owed_def)
  have "sc_price cell2 = sc_price cell" by (simp add: cell2 k)
  then have cr: "cell3 = cell2\<lparr>sc_buyer_locked := sc_buyer_locked cell2 - cost_of c (sc_price cell) (dispute_owed c cell sub),
     sc_seller_received := sc_seller_received cell2 + pay_for (sc_price cell) (dispute_owed c cell sub),
     sc_fee_accrued := sc_fee_accrued cell2 + fee_on c (pay_for (sc_price cell) (dispute_owed c cell sub))\<rparr>"
    using credit_delta_Inr [OF s4 _ typed] p by (simp only: owed)
  have cell3: "sc_buyer_locked cell3 = dispute_left c cell sub" "sc_seller_received cell3 = dispute_proceeds c cell sub"
    "sc_fee_accrued cell3 = fee_on c (pay_for (sc_price cell) (dispute_paid cell sub))
       + fee_on c (pay_for (sc_price cell) (dispute_owed c cell sub))"
    "sc_seller_locked cell3 = 2 * sc_price cell" "sc_probe_locked cell3 = sc_probe_locked cell1"
    "sc_buyer_bond cell3 = sc_buyer_bond cell1" "sc_buyer_refunded cell3 = 0" "sc_burned cell3 = 0"
    by (simp_all add: cr cell2 k dispute_left_def dispute_proceeds_def)
  have sub2: "is_subscription sub' = is_subscription sub" using k(17) by (simp add: sub' is_subscription_def)
  have stake0: "stake = min (min (max (cost_of c (sc_price cell) (sc_tokens_pending cell - dispute_base cell sub)) (sc_price cell))
      (2 * sc_price cell)) (if is_subscription sub then 2 * sc_price cell else sc_buyer_locked cell1)"
    using dispute_stake_Inr [OF s2 _ typed] p by (simp only: k) (simp add: min.assoc)
  have "dispute_left c cell sub \<le> sc_buyer_locked cell1" by (simp add: dispute_left_def k)
  then have stake: "(if is_subscription sub' then stake else min stake (sc_buyer_locked cell3)) = stake_at_risk c cell sub"
    by (simp add: stake0 sub2 cell3 stake_at_risk_def min_def)
  have "stake \<le> sc_seller_locked cell3" by (simp add: stake0 cell3)
  note cell4 = burn_stakes_Inr [OF s5 this, unfolded stake, unfolded sub2]
  note cell5 = settle_fees_dirty_Inr [OF s6]
  have frame: "tail_frame cell2 cell5"
    using credit_delta_frame [OF s4] burn_stakes_frame [OF s5] settle_fees_frame [OF s6] tail_frame_trans by blast
  have dep: "sc_buyer_locked cell5 + sc_probe_locked cell5 = dispute_deposit c cell sub"
    by (simp add: cell5 cell4 cell3 k dispute_deposit_def)
  have shape': "shape_inv sub'" using resolve_closes [OF ok inv op(1) typed] shape
    by (auto simp: closes_def evolves_def same_terms_def shape_inv_def is_subscription_def)
  have same: "sc_price cell5 = sc_price cell" "sc_probe_accepted cell5 = sc_probe_accepted cell"
    "sc_dispute_time cell5 = sc_dispute_time cell" "ds_sub_weeks sub' = ds_sub_weeks sub"
    "ds_tokens_per_week sub' = ds_tokens_per_week sub" "weeks_at sub' = weeks_at sub"
    using frame by (simp_all add: tail_frame_def cell2 k sub' weeks_at_def fun_eq_iff)
  have "x = deposit_refund c cell sub"
    using refundable_Inr [OF s7 shape' _ typed] p by (simp add: dep same sub2 deposit_refund_def)
  moreover have "sc_buyer_bond cell5 = (if is_subscription sub then 2 * sc_price cell - stake_at_risk c cell sub else 0)"
    "sc_seller_locked cell5 = 2 * sc_price cell - lost" "sc_buyer_refunded cell5 = 0"
    "sc_seller_received cell5 = dispute_proceeds c cell sub" "sc_fee_accrued cell5 = 0"
    "sc_burned cell5 = fee_on c (pay_for (sc_price cell) (dispute_paid cell sub))
       + fee_on c (pay_for (sc_price cell) (dispute_owed c cell sub)) + stake_at_risk c cell sub + lost"
    by (simp_all add: cell5 cell4 cell3 k lost_def)
  moreover have "ds_tokens_paid sub' = max (dispute_paid cell sub) (trusted_at c cell (sc_dispute_time cell))"
    by (simp add: sub' k cell2)
  ultimately show ?thesis
    unfolding settled_books_def
    by (simp add: refund bond out dep dispute_refund_def dispute_burn_def cell_empty_def drained_def)
qed

end
