(* ===== verification/MockNoPanic.thy ===== *)
theory MockNoPanic
  imports MockSteps
begin

text \<open>
  The state machine's terminal transitions panic when the deal is not live.  Under the deal
  invariant no operation of the mock chain ever takes one of them in such a state: every failure
  is an error value.
\<close>

definition no_panic :: "'a outcome \<Rightarrow> bool" where
  "no_panic r \<longleftrightarrow> r \<noteq> Inl Panicked"

named_theorems no_panic_intros \<open>computations that cannot panic\<close>

lemma no_panic_Inr [simp]: "no_panic (Inr x)"
  and no_panic_Inl [simp]: "no_panic (Inl f) \<longleftrightarrow> f \<noteq> Panicked"
  by (simp_all add: no_panic_def)

lemma no_panic_and_then:
  "no_panic m \<Longrightarrow> (\<And>x. m = Inr x \<Longrightarrow> no_panic (f x)) \<Longrightarrow> no_panic (and_then m f)"
  by (cases m) simp_all

lemma no_panic_ok_or [no_panic_intros]: "e \<noteq> Panicked \<Longrightarrow> no_panic (ok_or v e)"
  by (cases v) simp_all

lemma no_panic_ensure [no_panic_intros]: "e \<noteq> Panicked \<Longrightarrow> no_panic (ensure b e)"
  by (cases b) simp_all

lemma no_panic_add [no_panic_intros]: "no_panic (add_u128 a b e)"
  by (simp add: add_u128_def no_panic_ok_or)

lemma no_panic_mul_div [no_panic_intros]: "no_panic (checked_mul_div_floor v m d e)"
  by (simp add: checked_mul_div_floor_def Let_def no_panic_ok_or)

lemma no_panic_lift_machine [no_panic_intros]: "no_panic (lift_machine r)"
  by (cases r) (simp_all add: lift_machine_def)

lemma no_panic_pay [no_panic_intros]: "no_panic (token_pay_and_fee n p c)"
  unfolding token_pay_and_fee_def by (intro no_panic_and_then no_panic_intros) simp

lemma no_panic_deadline [no_panic_intros]: "no_panic (claim_deadline_reached a w t)"
  unfolding claim_deadline_reached_def by (intro no_panic_and_then no_panic_intros) simp_all

lemma no_panic_promote [no_panic_intros]: "no_panic (promote_due cell t c)"
  unfolding promote_due_def by (intro no_panic_and_then no_panic_intros) simp

lemma no_panic_due [no_panic_intros]: "no_panic (has_due_claim cell t c)"
  by (simp add: has_due_claim_def no_panic_intros)

lemma no_panic_void [no_panic_intros]: "no_panic (void_claims_at cell t c)"
  unfolding void_claims_at_def by (intro no_panic_and_then) (simp_all add: no_panic_intros Let_def)

lemma no_panic_ticks [no_panic_intros]: "no_panic (mock_finalized_ticks n)"
  by (simp add: mock_finalized_ticks_def no_panic_intros)

lemma no_panic_debit [no_panic_intros]: "no_panic (debit_escrow cell pay fee)"
  by (simp add: debit_escrow_def no_panic_and_then no_panic_intros)

lemma no_panic_delta [no_panic_intros]: "no_panic (credit_token_delta cell n c)"
  by (auto simp: credit_token_delta_def intro!: no_panic_and_then no_panic_intros)

lemma no_panic_credit [no_panic_intros]: "no_panic (credit_tokens_through cell sub n c)"
  by (auto simp: credit_tokens_through_def intro!: no_panic_and_then no_panic_intros)

lemma no_panic_weeks [no_panic_intros]: "no_panic (subscription_weeks_at sub t b)"
  by (auto simp: subscription_weeks_at_def Let_def intro!: no_panic_and_then no_panic_intros)

lemma no_panic_charge [no_panic_intros]: "no_panic (charge_subscription_through cell sub w c)"
  by (auto simp: charge_subscription_through_def intro!: no_panic_and_then no_panic_intros)

lemma no_panic_elapsed [no_panic_intros]: "no_panic (charge_elapsed_subscription_weeks cell sub t c)"
  by (auto simp: charge_elapsed_subscription_weeks_def intro!: no_panic_and_then no_panic_intros)

lemma no_panic_delivered [no_panic_intros]: "no_panic (delivered_ticks cell)"
  by (auto simp: delivered_ticks_def intro!: no_panic_and_then no_panic_intros)

lemma no_panic_rebate [no_panic_intros]: "no_panic (mock_rebate cell n c b)"
  by (auto simp: mock_rebate_def Let_def intro!: no_panic_and_then no_panic_intros)

lemma no_panic_fees [no_panic_intros]: "no_panic (settle_mock_fees cell n c b)"
  by (auto simp: settle_mock_fees_def intro!: no_panic_and_then no_panic_intros)

lemma no_panic_close [no_panic_intros]: "no_panic (close_mock_clean cell n c)"
  by (auto simp: close_mock_clean_def intro!: no_panic_and_then no_panic_intros)

lemma no_panic_mirror [no_panic_intros]: "no_panic (mirror_promotion cell)"
  by (auto simp: mirror_promotion_def intro!: no_panic_and_then no_panic_intros)

lemma no_panic_land [no_panic_intros]: "no_panic (land_claim cell n t c)"
  by (auto simp: land_claim_def Let_def intro!: no_panic_and_then no_panic_intros)

lemma no_panic_cap [no_panic_intros]: "no_panic (weekly_cap cell sub)"
  by (auto simp: weekly_cap_def intro!: no_panic_and_then no_panic_intros)

lemma no_panic_stake [no_panic_intros]: "no_panic (dispute_stake cell sub c)"
  by (auto simp: dispute_stake_def Let_def intro!: no_panic_and_then no_panic_intros)

lemma no_panic_refundable [no_panic_intros]: "no_panic (refundable_deposit cell sub r c)"
  by (auto simp: refundable_deposit_def Let_def intro!: no_panic_and_then no_panic_intros)

lemma no_panic_completed [no_panic_intros]: "no_panic (charge_completed_weeks cell sub c)"
  by (auto simp: charge_completed_weeks_def intro!: no_panic_and_then no_panic_intros)

lemma no_panic_burn [no_panic_intros]: "no_panic (burn_stakes cell sub k b)"
  unfolding burn_stakes_def Let_def
  by (intro no_panic_and_then no_panic_intros) simp

section \<open>Operations\<close>

lemma no_panic_accept: "no_panic (accept_probe_deal cell sub t c)"
  by (auto simp: accept_probe_deal_def Let_def intro!: no_panic_and_then no_panic_intros)

lemma no_panic_claim: "no_panic (claim_tokens_deal cell sub n t1 t2 c)"
  by (auto simp: claim_tokens_deal_def intro!: no_panic_and_then no_panic_intros)

lemma no_panic_finalize: "no_panic (finalize_deal cell sub t c)"
  by (auto simp: finalize_deal_def close_delivered_def intro!: no_panic_and_then no_panic_intros)

lemma no_panic_settle: "no_panic (settle_week_deal cell sub t c)"
  by (auto simp: settle_week_deal_def close_final_week_def intro!: no_panic_and_then no_panic_intros)

lemma no_panic_dispute: "no_panic (dispute_deal tc cell b t)"
  by (auto simp: dispute_deal_def Let_def intro!: no_panic_and_then no_panic_intros)

lemma no_panic_timeout: "no_panic (dispute_timeout_reached cell t c)"
  by (auto simp: dispute_timeout_reached_def intro!: no_panic_and_then no_panic_intros)

lemma no_panic_stop_probe: "live (sc_machine cell) \<Longrightarrow> no_panic (stop_on_probe cell)"
  using machine_buyer_stop_None [of "sc_machine cell"]
  by (auto simp: stop_on_probe_def Let_def intro!: no_panic_and_then no_panic_intros
      split: option.splits settlement.splits)

lemma no_panic_seller_probe: "no_panic (seller_stop_on_probe cell)"
  by (auto simp: seller_stop_on_probe_def Let_def intro!: no_panic_and_then no_panic_intros)

text \<open>Nothing that happens before the machine stops touches the machine.\<close>

lemma credit_machine:
  "credit_tokens_through cell sub n c = Inr (cell', sub') \<Longrightarrow> sc_machine cell' = sc_machine cell"
  by (auto simp: credit_tokens_through_def debit_escrow_Inr result_simps split: if_splits)

lemma charge_machine:
  "charge_subscription_through cell sub w c = Inr (cell', sub', b) \<Longrightarrow> sc_machine cell' = sc_machine cell"
  by (auto simp: charge_subscription_through_def result_simps dest: credit_machine split: if_splits)

lemma promote_machine: "promote_due cell t c = Inr cell' \<Longrightarrow> sc_machine cell' = sc_machine cell"
  using promote_due_Inr by fastforce

lemma void_machine: "void_claims_at cell t c = Inr cell' \<Longrightarrow> sc_machine cell' = sc_machine cell"
  by (auto dest: void_claims_Inr)

lemma completed_machine:
  "charge_completed_weeks cell sub c = Inr (cell', sub') \<Longrightarrow> sc_machine cell' = sc_machine cell"
  by (auto simp: charge_completed_weeks_def result_simps dest: charge_machine split: if_splits)

lemma no_panic_stop_accepted:
  assumes "live (sc_machine cell)"
  shows "no_panic (stop_accepted cell sub t1 t2 c)" and "no_panic (seller_stop_accepted cell sub t1 t2 c)"
proof -
  have stop: "\<exists>x. machine_buyer_stop m = Some x" "\<exists>x. machine_seller_stop m = Some x" if "live m" for m
    using that machine_buyer_stop_None machine_seller_stop_None by blast+
  have case_ok: "no_panic (case v of None \<Rightarrow> Inl Panicked | Some x \<Rightarrow> g x)"
    if "\<exists>x. v = Some x" "\<And>x. no_panic (g x)" for v g
    using that by auto
  show "no_panic (stop_accepted cell sub t1 t2 c)"
    unfolding stop_accepted_def
    using assms
    by (auto intro!: no_panic_and_then no_panic_intros case_ok stop split: if_splits
        simp: result_simps)
      (auto dest!: promote_machine charge_machine credit_machine)
  show "no_panic (seller_stop_accepted cell sub t1 t2 c)"
    unfolding seller_stop_accepted_def
    using assms
    by (auto intro!: no_panic_and_then no_panic_intros case_ok stop split: if_splits
        simp: result_simps)
      (auto dest!: promote_machine charge_machine credit_machine)
qed

lemma no_panic_resolve_machine: "live m \<Longrightarrow> no_panic (resolve_machine m b)"
  by (auto simp: resolve_machine_def machine_release_dispute_def live_def Let_def
      split: stream_state.splits)

lemma no_panic_resolve:
  assumes "live (sc_machine cell)"
  shows "no_panic (resolve_mock_dispute cell sub c b)"
proof -
  have "live (sc_machine cell5)" if "charge_completed_weeks cell sub c = Inr (cell1, sub1)"
      "void_claims_at cell1 t c = Inr cell2" "credit_token_delta cell2 n c = Inr cell3"
      "burn_stakes cell3 sub2 k b = Inr cell4" "settle_mock_fees cell4 d c False = Inr cell5"
    for cell1 sub1 t cell2 n cell3 sub2 k cell4 d cell5
    using that assms completed_machine void_machine credit_delta_frame burn_stakes_frame settle_fees_frame
    by (metis tail_frame_def)
  then show ?thesis
    unfolding resolve_mock_dispute_def Let_def
    by (auto intro!: no_panic_and_then no_panic_intros no_panic_resolve_machine)
qed

lemma inv_live: "deal_inv c now cell sub \<Longrightarrow> \<not> sc_closed cell \<Longrightarrow> live (sc_machine cell)"
  by (auto simp: deal_inv_def machine_inv_def live_def Let_def split: if_splits)

lemma deal_step_no_panic:
  assumes inv: "deal_inv c now cell sub"
  shows "no_panic (deal_step c (cell, sub) e)"
proof -
  have open_live: "\<not> sc_closed cell \<Longrightarrow> live (sc_machine cell)" using inv_live [OF inv] .
  have dis: "sc_disputed cell \<Longrightarrow> \<not> sc_closed cell" using inv by (auto simp: deal_inv_def)
  have res: "no_panic (resolve_mock_dispute cell sub c b)" for b
  proof (cases "sc_disputed cell")
    case True
    then show ?thesis using no_panic_resolve open_live dis by blast
  qed (simp add: resolve_mock_dispute_def)
  show ?thesis
  proof (cases e)
    case (Stop t1 t2)
    then show ?thesis
      using open_live no_panic_stop_probe no_panic_stop_accepted(1)
      by (auto simp: stop_mock_stream_def intro!: no_panic_and_then)
  next
    case (SellerStops t1 t2)
    then show ?thesis
      using open_live no_panic_seller_probe no_panic_stop_accepted(2)
      by (auto simp: seller_stop_deal_def intro!: no_panic_and_then)
  qed (auto simp: release_dispute_deal_def resolve_timeout_deal_def res no_panic_accept no_panic_claim
      no_panic_finalize no_panic_settle intro!: no_panic_and_then no_panic_dispute no_panic_timeout)
qed

end
