(* ===== verification/DealProps.thy ===== *)
theory DealProps
  imports MockResolve MockNoPanic
begin

text \<open>
  What the deals of the mock chain guarantee, stated on the deals that can arise: every deal
  reachable from the opening of a stream by operations that succeeded.  The properties rest on
  the invariant of \<open>MockInvariant\<close> and \<open>MockSteps\<close>, the conservation of money of \<open>MockMoney\<close>,
  and the success of STOP and of dispute resolution of \<open>MockLiveness\<close> and \<open>MockResolve\<close>.
\<close>

section \<open>Runs\<close>

text \<open>A sequence of operations, all of which succeed.\<close>

fun deal_run ::
    "protocol_consts \<Rightarrow> stream_cell \<times> deal_subscription \<Rightarrow> deal_event list
     \<Rightarrow> (stream_cell \<times> deal_subscription) outcome" where
  "deal_run c s [] = Inr s"
| "deal_run c s (e # es) = and_then (deal_step c s e) (\<lambda>s'. deal_run c s' es)"

fun run_times :: "nat \<Rightarrow> deal_event list \<Rightarrow> nat list" where
  "run_times now [] = [now]"
| "run_times now (e # es) = now # event_times e @ run_times (event_time now e) es"

definition run_time :: "nat \<Rightarrow> deal_event list \<Rightarrow> nat" where
  "run_time now es = last (run_times now es)"

lemma run_times_not_Nil [simp]: "run_times now es \<noteq> []"
  by (cases es) simp_all

lemma run_time_Cons [simp]: "run_time now (e # es) = run_time (event_time now e) es"
  by (simp add: run_time_def)

lemma deal_run_reach:
  "deal_reach c now cell sub \<Longrightarrow> sorted (run_times now es) \<Longrightarrow>
     deal_run c (cell, sub) es = Inr (cell', sub') \<Longrightarrow> deal_reach c (run_time now es) cell' sub'"
proof (induction es arbitrary: now cell sub)
  case Nil
  then show ?case by (simp add: run_time_def)
next
  case (Cons e es)
  then obtain cell1 sub1 where s: "deal_step c (cell, sub) e = Inr (cell1, sub1)"
    and r: "deal_run c (cell1, sub1) es = Inr (cell', sub')"
    by (auto simp: result_simps)
  have ord: "event_ordered now e" "sorted (run_times (event_time now e) es)"
    using Cons.prems(2) by (auto simp: event_ordered_def sorted_append)
  then have "deal_reach c (event_time now e) cell1 sub1"
    using deal_reach.stepped [OF Cons.prems(1) _ s] by simp
  then show ?case using Cons.IH [OF _ ord(2) r] by simp
qed

lemma deal_run_inv:
  assumes "deal_reach c now cell sub" and "consts_typed c" and "sorted (run_times now es)"
    and "deal_run c (cell, sub) es = Inr (cell', sub')"
  shows "deal_inv c (run_time now es) cell' sub'"
  using deal_reach_inv [OF deal_run_reach [OF assms(1,3,4)] assms(2)] .

lemma deal_run_terms:
  "deal_reach c now cell sub \<Longrightarrow> consts_typed c \<Longrightarrow> sorted (run_times now es) \<Longrightarrow>
     deal_run c (cell, sub) es = Inr (cell', sub') \<Longrightarrow> same_terms (cell, sub) (cell', sub')"
proof (induction es arbitrary: now cell sub)
  case Nil
  then show ?case by (simp add: same_terms_def)
next
  case (Cons e es)
  then obtain cell1 sub1 where s: "deal_step c (cell, sub) e = Inr (cell1, sub1)"
    and r: "deal_run c (cell1, sub1) es = Inr (cell', sub')"
    by (auto simp: result_simps)
  have ord: "event_ordered now e" "sorted (run_times (event_time now e) es)"
    using Cons.prems(3) by (auto simp: event_ordered_def sorted_append)
  then have "deal_reach c (event_time now e) cell1 sub1"
    using deal_reach.stepped [OF Cons.prems(1) _ s] by simp
  then have "same_terms (cell1, sub1) (cell', sub')" using Cons.IH Cons.prems(2) ord(2) r by blast
  moreover have "same_terms (cell, sub) (cell1, sub1)"
    using deal_step_inv(2) [OF s deal_reach_inv [OF Cons.prems(1,2)] Cons.prems(2) ord(1)] .
  ultimately show ?case by (simp add: same_terms_def)
qed


section \<open>Two concrete deals\<close>

text \<open>
  An ordinary deal of three ticks at one SHELL and a subscription of eight ticks, both opened at
  second 1000 under the canonical constants; they instantiate the properties below.
\<close>

definition sample_key :: note_pubkey where
  "sample_key = \<lparr>pk_x = replicate 32 9, pk_ed = replicate 32 7\<rparr>"

definition sample_match :: match_t where
  "sample_match = \<lparr>mt_token_contract = ''0:ab'', mt_buyer_pubkey = sample_key, mt_price_per_tick = 1000000000\<rparr>"

definition plain_shape :: deal_subscription where
  "plain_shape = \<lparr>ds_deal_flags = 0, ds_sub_weeks = 0, ds_week_index = 0, ds_tokens_per_week = 3000000,
     ds_funded_tokens = 3000000, ds_tokens_paid = 0, ds_period_start = 900, ds_week_base_tokens = 0\<rparr>"

definition weekly_shape :: deal_subscription where
  "weekly_shape = \<lparr>ds_deal_flags = SUBSCRIPTION, ds_sub_weeks = 4, ds_week_index = 0,
     ds_tokens_per_week = 2000000, ds_funded_tokens = 8000000, ds_tokens_paid = 0,
     ds_period_start = 900, ds_week_base_tokens = 0\<rparr>"

definition sample_cell :: "nat \<Rightarrow> nat \<Rightarrow> nat \<Rightarrow> stream_cell" where
  "sample_cell k locked bond =
     \<lparr>sc_schema_version = STREAM_CELL_SCHEMA_VERSION, sc_machine = machine_open 1000000000,
      sc_probe_accepted = False, sc_buyer_pubkey = sample_key, sc_seller_locked = 2000000000,
      sc_buyer_locked = locked, sc_probe_locked = 1000000000, sc_probe_time = 1000,
      sc_buyer_bond = bond, sc_fee_accrued = 0, sc_tokens_final = 0, sc_tokens_pending = 0,
      sc_last_claim_time = 1000, sc_seller_received = 0, sc_buyer_refunded = 0, sc_burned = 0,
      sc_closed = False, sc_max_ticks = k, sc_disputed = False, sc_dispute_time = 0,
      sc_buyer_stop_settlement = None\<rparr>"

abbreviation plain_cell :: stream_cell where "plain_cell \<equiv> sample_cell 3 2075000000 0"

abbreviation weekly_cell :: stream_cell where "weekly_cell \<equiv> sample_cell 8 7200000000 2000000000"

lemma canonical_fields [simp]:
  "platform_fee_bps canonical_consts = 250" "min_claim_interval canonical_consts = 60"
  "min_seconds_per_tick canonical_consts = 60" "claim_promote_window canonical_consts = 60"
  "probe_window canonical_consts = PROBE_WINDOW" "dispute_window canonical_consts = 600"
  "rebate_max_bps canonical_consts = 200" "rebate_slope_bps canonical_consts = 4"
  by (simp_all add: canonical_consts_def PLATFORM_FEE_BPS_def)

lemma sample_cost: "cost_of canonical_consts 1000000000 n = n * 1000 + n * 1000 * 250 div 10000"
  by (simp add: cost_of_def pay_for_def fee_on_def TICK_SIZE_def)

lemma plain_fresh: "fresh_shape plain_shape" and weekly_fresh: "fresh_shape weekly_shape"
  by (simp_all add: fresh_shape_def shape_inv_def plain_shape_def weekly_shape_def TICK_SIZE_def
      is_subscription_def has_flag_def SUBSCRIPTION_def DEAL_MASK_def TEE_def SUBSCRIPTION_WEEKS_def)

lemma plain_opens: "open_cell sample_match 3 plain_shape 1000 canonical_consts = Inr plain_cell"
  and weekly_opens: "open_cell sample_match 8 weekly_shape 1000 canonical_consts = Inr weekly_cell"
  using canonical_consts_typed
  by (simp_all add: open_cell_def gross_deposit_eq sample_cost sample_match_def plain_shape_def
      weekly_shape_def u64_max_def u128_max_def checked_sub_def sample_cell_def is_subscription_def)

lemma plain_reach: "deal_reach canonical_consts 1000 plain_cell plain_shape"
  by (rule deal_reach.opened [OF plain_opens plain_fresh])
    (simp_all add: sample_match_def TICK_SIZE_def plain_shape_def u64_max_def)

lemma weekly_reach: "deal_reach canonical_consts 1000 weekly_cell weekly_shape"
  by (rule deal_reach.opened [OF weekly_opens weekly_fresh])
    (simp_all add: sample_match_def TICK_SIZE_def weekly_shape_def u64_max_def)

lemmas sample_defs = sample_cell_def plain_shape_def weekly_shape_def machine_open_def
  is_subscription_def PROBE_WINDOW_def TICK_SIZE_def MAX_CLAIM_DELTA_def u64_max_def u128_max_def
  SUB_WEEK_LEN_def

lemmas deal_eval = accept_probe_deal_def claim_tokens_deal_def land_claim_def weekly_cap_def
  finalize_deal_def mirror_promotion_def close_delivered_def promote_due_def promote_once_def
  has_due_claim_def claim_deadline_reached_def dispute_deal_def stop_mock_stream_def
  lift_machine_def on_probe_accepted_def on_claim_def on_promote_def on_probe_def
  machine_buyer_dispute_def charge_elapsed_subscription_weeks_def charge_subscription_through_def
  subscription_weeks_at_def credit_tokens_through_def debit_escrow_def add_u128_def
  checked_add_def checked_sub_def checked_mul_def try_from_def div_ceil_def saturating_sub_def
  event_time_def run_time_def check_invariant_def

text \<open>The two deals after the probe is accepted and a second tick claimed, then disputed.\<close>

abbreviation sample_events :: "deal_event list" where
  "sample_events \<equiv> [AcceptProbe 2000, ClaimTokens 2000000 2100 2100]"

definition claimed_cell :: "stream_cell \<Rightarrow> stream_cell" where
  "claimed_cell cell = cell\<lparr>
     sc_machine := \<lparr>sm_state = Streaming 1 2, sm_price = 1000000000, sm_seller_bond = 2000000000\<rparr>,
     sc_probe_accepted := True, sc_buyer_locked := sc_buyer_locked cell - 25000000,
     sc_probe_locked := 0, sc_fee_accrued := 25000000, sc_tokens_final := 1000000,
     sc_tokens_pending := 2000000, sc_last_claim_time := 2100, sc_seller_received := 1000000000\<rparr>"

definition claimed_shape :: "deal_subscription \<Rightarrow> deal_subscription" where
  "claimed_shape sub = sub\<lparr>ds_tokens_paid := 1000000, ds_period_start := 2000\<rparr>"

definition disputed_cell :: "stream_cell \<Rightarrow> stream_cell" where
  "disputed_cell cell = (claimed_cell cell)\<lparr>
     sc_machine := \<lparr>sm_state = Disputed 1 1, sm_price = 1000000000, sm_seller_bond = 2000000000\<rparr>,
     sc_disputed := True, sc_dispute_time := 2120\<rparr>"

lemmas sample_states = claimed_cell_def claimed_shape_def disputed_cell_def

lemma plain_claims:
  "deal_run canonical_consts (plain_cell, plain_shape) sample_events
     = Inr (claimed_cell plain_cell, claimed_shape plain_shape)"
  by (simp add: deal_eval sample_defs sample_states Let_def token_pay_and_fee_eq canonical_consts_typed
      sample_cost pay_for_def fee_on_def)

lemma weekly_claims:
  "deal_run canonical_consts (weekly_cell, weekly_shape) sample_events
     = Inr (claimed_cell weekly_cell, claimed_shape weekly_shape)"
  by (simp add: deal_eval sample_defs sample_states Let_def token_pay_and_fee_eq canonical_consts_typed
      sample_cost pay_for_def fee_on_def)

lemma sample_times: "sorted (run_times 1000 sample_events)" "run_time 1000 sample_events = 2100"
  by (simp_all add: run_time_def event_time_def)

lemma plain_claimed: "deal_reach canonical_consts 2100 (claimed_cell plain_cell) (claimed_shape plain_shape)"
  using deal_run_reach [OF plain_reach sample_times(1) plain_claims] sample_times(2) by simp

lemma weekly_claimed: "deal_reach canonical_consts 2100 (claimed_cell weekly_cell) (claimed_shape weekly_shape)"
  using deal_run_reach [OF weekly_reach sample_times(1) weekly_claims] sample_times(2) by simp

lemma sample_disputes:
  "deal_step canonical_consts (claimed_cell plain_cell, sub) (OpenDispute 2120) = Inr (disputed_cell plain_cell, sub)"
  "deal_step canonical_consts (claimed_cell weekly_cell, sub) (OpenDispute 2120) = Inr (disputed_cell weekly_cell, sub)"
  by (simp_all add: deal_eval sample_defs sample_states Let_def)

lemma plain_disputed: "deal_reach canonical_consts 2120 (disputed_cell plain_cell) (claimed_shape plain_shape)"
  using deal_reach.stepped [OF plain_claimed _ sample_disputes(1)]
  by (simp add: event_ordered_def event_time_def)

lemma weekly_disputed: "deal_reach canonical_consts 2120 (disputed_cell weekly_cell) (claimed_shape weekly_shape)"
  using deal_reach.stepped [OF weekly_claimed _ sample_disputes(2)]
  by (simp add: event_ordered_def event_time_def)

lemma sample_in_range:
  "in_range canonical_consts 2100 (claimed_cell plain_cell) (claimed_shape plain_shape)"
  "in_range canonical_consts 2100 (claimed_cell weekly_cell) (claimed_shape weekly_shape)"
  "in_range canonical_consts 2120 (disputed_cell weekly_cell) (claimed_shape weekly_shape)"
  "in_range canonical_consts 1000 plain_cell plain_shape"
  by (simp_all add: in_range_def deal_funding_def sample_defs sample_states sample_cost)


lemma plain_stops:
  "\<exists>cell sub. deal_step canonical_consts (claimed_cell plain_cell, claimed_shape plain_shape) (Stop 2200 2200)
       = Inr (cell, sub)
     \<and> sc_closed cell \<and> deal_funding canonical_consts cell sub = 5075000000"
  by (simp add: deal_eval stop_accepted_def delivered_ticks_def mock_finalized_ticks_def
      machine_buyer_stop_def close_mock_clean_def settle_mock_fees_def drained_def mock_rebate_def
      saturating_mul_def checked_mul_div_floor_eq machine_close_def deal_funding_def
      sample_defs sample_states Let_def token_pay_and_fee_eq canonical_consts_typed
      sample_cost pay_for_def fee_on_def)


section \<open>Money\<close>

text \<open>
  Claim C1: what is locked, accrued, paid, refunded and burned in a deal always adds up to what
  the two sides put in: the buyer's deposit with the platform fee, the seller's bond of two
  ticks, and the buyer's bond of two ticks on a subscription.  Once the deal is closed nothing
  is left inside: payout, refund and burn alone add up to that funding.
\<close>

theorem deal_money_conserved:
  assumes "deal_reach c now cell sub" and "consts_typed c"
  shows "cell_money cell = deal_funding c cell sub
     \<and> (sc_closed cell \<longrightarrow>
          sc_seller_received cell + sc_buyer_refunded cell + sc_burned cell = deal_funding c cell sub)"
  using deal_reach_inv [OF assms] by (auto simp: deal_inv_def cell_money_def cell_empty_def)

theorem deal_money_conserved_witness:
  "\<exists>cell sub. deal_step canonical_consts (claimed_cell plain_cell, claimed_shape plain_shape) (Stop 2200 2200)
       = Inr (cell, sub)
     \<and> sc_closed cell \<and> sc_seller_received cell + sc_buyer_refunded cell + sc_burned cell = 5075000000"
proof -
  obtain cell sub where s: "deal_step canonical_consts (claimed_cell plain_cell, claimed_shape plain_shape)
      (Stop 2200 2200) = Inr (cell, sub)"
    and closed: "sc_closed cell" "deal_funding canonical_consts cell sub = 5075000000"
    using plain_stops by blast
  have "deal_reach canonical_consts 2200 cell sub"
    using deal_reach.stepped [OF plain_claimed _ s] by (simp add: event_ordered_def event_time_def)
  then show ?thesis
    using deal_money_conserved [OF _ canonical_consts_typed] s closed by auto
qed


section \<open>Stopping\<close>

text \<open>
  Claim C2: a buyer's STOP of an open, accepted and undisputed deal always succeeds while the
  amounts fit \<open>u128\<close> and the clock \<open>u64\<close>, and it settles exactly by fact.  It pays for the
  tokens trusted at that moment (the pending claim counts once its window has passed) and, on
  a subscription, for every week that has started; the seller gets that pay, the volume rebate
  and the whole bond, the buyer everything else of the deposit and the bond, and only the fee
  less the rebate is burned.
\<close>

theorem stop_settles_by_fact:
  assumes reach: "deal_reach c now cell sub" and "consts_ok c" and "in_range c now cell sub"
    and "\<not> sc_closed cell" "\<not> sc_disputed cell" "sc_probe_accepted cell" and "now \<le> t1" "t1 \<le> t2"
  shows "let p = sc_price cell; n = stop_pays c cell sub t1 t2;
             rebate = min (rebate_of c p (max (trusted_at c cell t1 div TICK_SIZE) 1)) (fee_on c (pay_for p n)) in
     \<exists>cell' sub' refund.
       stop_mock_stream cell sub t1 t2 c = Inr (cell', sub', AmicableSplit (n div TICK_SIZE) refund)
       \<and> ds_tokens_paid sub' = n \<and> sc_closed cell'
       \<and> refund + cost_of c p n = cost_of c p (ds_funded_tokens sub) + sc_buyer_bond cell
       \<and> sc_seller_received cell' = pay_for p n + rebate + 2 * p
       \<and> sc_buyer_refunded cell' = refund \<and> sc_burned cell' = fee_on c (pay_for p n) - rebate"
proof -
  have inv: "deal_inv c now cell sub" and typed: "consts_typed c"
    using deal_reach_inv [OF reach] assms(2) by (simp_all add: consts_ok_def)
  then have run: "running c now cell sub" "machine_inv cell" using running_iff assms(4,6) by auto
  have eq: "stop_mock_stream cell sub t1 t2 c = stop_accepted cell sub t1 t2 c"
    using assms(4-6) by (simp add: stop_mock_stream_def)
  have "sc_closed cell'" if "stop_accepted cell sub t1 t2 c = Inr (cell', x)" for cell' x
    using stop_closes [OF _ inv typed, of t1 t2 cell' "fst x" "snd x"] that eq
    by (auto simp: closes_def)
  then show ?thesis
    using stop_accepted_settles [OF run assms(5,2,3,7,8)] unfolding eq Let_def by blast
qed

theorem stop_settles_by_fact_witness:
  "\<exists>cell' sub' refund.
     stop_mock_stream (claimed_cell weekly_cell) (claimed_shape weekly_shape) 2130 2130 canonical_consts
       = Inr (cell', sub', AmicableSplit 2 refund)
     \<and> sc_seller_received cell' = 4000400000 \<and> refund = 8150000000"
  using stop_settles_by_fact [OF weekly_claimed canonical_consts_ok sample_in_range(2), of 2130 2130]
  by (force simp: sample_defs sample_states stop_pays_def trusted_at_def weeks_at_def rebate_of_def Let_def
      sample_cost pay_for_def fee_on_def)

text \<open>
  A STOP during the trial never fails either.  It burns the trial tick and an equal
  part of the seller's bond, leaves the seller the other tick of the bond and no payment, and
  returns the rest of the deposit and the buyer's bond.
\<close>

theorem probe_stop_burns_both:
  assumes reach: "deal_reach c now cell sub" and "consts_typed c" and "in_range c now cell sub"
    and "\<not> sc_closed cell" "\<not> sc_disputed cell" "\<not> sc_probe_accepted cell"
  shows "\<exists>cell' burn. stop_mock_stream cell sub t1 t2 c = Inr (cell', sub, BurnBoth burn)
     \<and> sc_closed cell' \<and> sc_burned cell' = 2 * sc_price cell \<and> sc_seller_received cell' = sc_price cell
     \<and> sc_buyer_refunded cell' = sc_buyer_locked cell + sc_buyer_bond cell
     \<and> cb_buyer_refund burn = sc_buyer_refunded cell'"
proof -
  have inv: "deal_inv c now cell sub" using deal_reach_inv [OF reach assms(2)] .
  then have books: "sc_probe_locked cell = sc_price cell" "sc_seller_locked cell = 2 * sc_price cell"
    "sc_buyer_refunded cell = 0" "sc_burned cell = 0" "sc_seller_received cell = 0"
    and money: "cell_money cell \<le> u128_max"
    using assms(3-) by (auto simp: deal_inv_def books_inv_def in_range_def)
  have mach: "sm_state (sc_machine cell) = Probe \<lparr>tk_index = 0, tk_price = sc_price cell\<rparr>"
    using inv assms(4-) by (simp add: deal_inv_def machine_inv_def)
  show ?thesis
    using assms(4-) books money mach
    by (simp add: stop_mock_stream_def stop_on_probe_def machine_buyer_stop_def Let_def add_u128_ok
        cell_money_def drained_def)
qed

theorem probe_stop_burns_both_witness:
  "\<exists>cell' burn. stop_mock_stream plain_cell plain_shape 1100 1100 canonical_consts
       = Inr (cell', plain_shape, BurnBoth burn) \<and> sc_burned cell' = 2000000000"
  using probe_stop_burns_both [OF plain_reach canonical_consts_typed sample_in_range(4), of 1100 1100]
  by (auto simp: sample_defs)


section \<open>Disputes\<close>

text \<open>
  Claim C3: an open dispute can be ended in either way, with exact books.  On every reachable disputed deal whose
  amounts fit \<open>u128\<close> and whose clock fits \<open>u64\<close>, the seller's release succeeds at once, and the timeout as soon as the
  dispute window has passed and not before.  Both pay the seller the completed weeks and the tokens trusted when the
  dispute was opened, burn all fees, the buyer's stake and the deposit of started weeks, and refund the rest; the seller
  gets its whole bond back on a release and loses the same stake from it on a timeout.  The deal is closed, nothing stays
  locked, and in both cases the reported outcome is \<open>SellerNoShow\<close> with that refund and that bond.
\<close>

theorem dispute_always_resolvable:
  assumes reach: "deal_reach c now cell sub" and ok: "consts_ok c" and rng: "in_range c now cell sub"
    and dis: "sc_disputed cell"
  defines "bond \<equiv> 2 * sc_price cell" and "stake \<equiv> stake_at_risk c cell sub"
    and "pay \<equiv> dispute_proceeds c cell sub" and "refund \<equiv> dispute_refund c cell sub"
    and "burn \<equiv> dispute_burn c cell sub"
  shows "(\<exists>cell' sub'. release_dispute_deal cell sub c = Inr (cell', sub', SellerNoShow refund bond)
            \<and> settled_books cell' (pay + bond) refund burn)
     \<and> (\<exists>cell' sub'. resolve_timeout_deal cell sub c = Inr (cell', sub', SellerNoShow refund (bond - stake))
            \<and> settled_books cell' (pay + (bond - stake)) refund (burn + stake))
     \<and> stake \<le> bond
     \<and> (sc_dispute_time cell + dispute_window c \<le> u64_max \<longrightarrow>
          dispute_timeout_reached cell t c = Inr () \<longleftrightarrow> sc_dispute_time cell + dispute_window c \<le> t)"
proof -
  have inv: "deal_inv c now cell sub" and typed: "consts_typed c"
    using deal_reach_inv [OF reach] ok by (simp_all add: consts_ok_def)
  have op: "\<not> sc_closed cell" "sc_dispute_time cell \<noteq> 0"
    using inv dis by (auto simp: deal_inv_def times_inv_def)
  have res: "\<exists>cell' sub'. resolve_mock_dispute cell sub c b = Inr (cell', sub', refund, bond - (if b then stake else 0))
      \<and> settled_books cell' (pay + (bond - (if b then stake else 0))) refund (burn + (if b then stake else 0))" for b
  proof -
    obtain cell' sub' r s where out: "resolve_mock_dispute cell sub c b = Inr (cell', sub', r, s)"
      using resolve_mock_dispute_ok [OF inv op(1) dis ok rng, of b] by blast
    show ?thesis
      using out resolve_books [OF out inv op(1) dis typed]
      by (auto simp: bond_def stake_def pay_def refund_def burn_def)
  qed
  have "stake \<le> bond" by (simp add: stake_def bond_def stake_at_risk_def)
  moreover have "dispute_timeout_reached cell t c = Inr () \<longleftrightarrow> sc_dispute_time cell + dispute_window c \<le> t"
    if "sc_dispute_time cell + dispute_window c \<le> u64_max"
    using that dis op by (auto simp: dispute_timeout_reached_def checked_add_def ensure_def chain_err_def)
  ultimately show ?thesis
    using res [of False] res [of True] by (auto simp: release_dispute_deal_def resolve_timeout_deal_def)
qed

theorem dispute_always_resolvable_witness:
  "let cell = disputed_cell weekly_cell; sub = claimed_shape weekly_shape in
   (\<exists>cell' sub'. release_dispute_deal cell sub canonical_consts = Inr (cell', sub', SellerNoShow 7125000000 2000000000)
      \<and> settled_books cell' 3000000000 7125000000 2075000000)
   \<and> (\<exists>cell' sub'. resolve_timeout_deal cell sub canonical_consts = Inr (cell', sub', SellerNoShow 7125000000 975000000)
      \<and> settled_books cell' 1975000000 7125000000 3100000000)
   \<and> dispute_timeout_reached cell 2121 canonical_consts \<noteq> Inr ()"
proof -
  let ?cell = "disputed_cell weekly_cell" and ?sub = "claimed_shape weekly_shape"
  have dis: "sc_disputed ?cell" by (simp add: disputed_cell_def)
  note paid = week_due_def dispute_paid_def dispute_base_def dispute_owed_def trusted_at_def weeks_at_def claim_base_def
    sample_defs sample_states canonical_consts_def sample_cost cost_of_def pay_for_def fee_on_def PLATFORM_FEE_BPS_def Let_def
  have owed: "dispute_paid ?cell ?sub = 1000000" "dispute_base ?cell ?sub = 1000000"
    "dispute_owed canonical_consts ?cell ?sub = 0"
    by (simp_all add: paid)
  have left: "dispute_left canonical_consts ?cell ?sub = 7175000000"
    by (simp add: dispute_left_def owed) (simp add: paid)
  have stake: "stake_at_risk canonical_consts ?cell ?sub = 1025000000"
    by (simp add: stake_at_risk_def owed) (simp add: paid)
  have dep: "dispute_deposit canonical_consts ?cell ?sub = 7175000000"
    by (simp add: dispute_deposit_def left stake) (simp add: paid)
  have refd: "deposit_refund canonical_consts ?cell ?sub = 6150000000"
    by (simp add: deposit_refund_def dep) (simp add: paid)
  have sums: "dispute_refund canonical_consts ?cell ?sub = 7125000000" "dispute_proceeds canonical_consts ?cell ?sub = 1000000000"
    "dispute_burn canonical_consts ?cell ?sub = 2075000000"
    by (simp_all add: dispute_refund_def dispute_proceeds_def dispute_burn_def owed stake dep refd) (simp_all add: paid)
  have "sc_price ?cell = 1000000000" "sc_dispute_time ?cell + dispute_window canonical_consts \<le> u64_max"
    "2121 < sc_dispute_time ?cell + dispute_window canonical_consts"
    by (simp_all add: sample_defs sample_states canonical_consts_def)
  then show ?thesis
    using dispute_always_resolvable [OF weekly_disputed canonical_consts_ok sample_in_range(3) dis, of 2121]
    by (simp add: sums stake Let_def)
qed


section \<open>Safety\<close>

text \<open>
  Claim C8: no operation of a deal panics.  The state machine's methods panic when they are
  called on a stream that is not live; on every deal that can arise, every operation with every
  argument either succeeds or returns an error.
\<close>

theorem deal_never_panics:
  assumes "deal_reach c now cell sub" and "consts_typed c"
  shows "deal_step c (cell, sub) e \<noteq> Inl Panicked"
  using deal_step_no_panic [OF deal_reach_inv [OF assms]] by (simp add: no_panic_def)

theorem deal_never_panics_witness:
  "deal_step canonical_consts (claimed_cell plain_cell, claimed_shape plain_shape) ReleasesDispute \<noteq> Inl Panicked"
  using deal_never_panics [OF plain_claimed canonical_consts_typed] .

text \<open>
  Claim C7: a closed deal is final.  Whatever is called on it, at whatever time, is refused, so
  no party is paid, refunded or burned twice.
\<close>

theorem closed_deal_is_final:
  assumes reach: "deal_reach c now cell sub" and "consts_typed c" and closed: "sc_closed cell"
  shows "\<exists>err. deal_step c (cell, sub) e = Inl (Refused err)"
proof -
  have nd: "\<not> sc_disputed cell" using deal_reach_inv [OF assms(1,2)] closed by (simp add: deal_inv_def)
  show ?thesis
    using closed nd
    by (cases e) (auto simp: accept_probe_deal_def claim_tokens_deal_def finalize_deal_def
        settle_week_deal_def charge_elapsed_subscription_weeks_def stop_mock_stream_def seller_stop_deal_def
        dispute_deal_def release_dispute_deal_def dispute_timeout_reached_def resolve_mock_dispute_def
        chain_err_def)
qed

theorem closed_deal_is_final_witness:
  "\<exists>cell sub err. deal_step canonical_consts (claimed_cell plain_cell, claimed_shape plain_shape) (Stop 2200 2200)
       = Inr (cell, sub)
     \<and> deal_step canonical_consts (cell, sub) (OpenDispute 2300) = Inl (Refused err)"
proof -
  obtain cell sub where s: "deal_step canonical_consts (claimed_cell plain_cell, claimed_shape plain_shape)
      (Stop 2200 2200) = Inr (cell, sub)" and closed: "sc_closed cell"
    using plain_stops by blast
  have "deal_reach canonical_consts 2200 cell sub"
    using deal_reach.stepped [OF plain_claimed _ s] by (simp add: event_ordered_def event_time_def)
  then show ?thesis using closed_deal_is_final [OF _ canonical_consts_typed closed] s by blast
qed

text \<open>
  The terms of a deal never change.  Price, volume, buyer, flags, number of weeks,
  weekly quota and the time of the probe are the same after any sequence of operations.
\<close>

theorem deal_terms_fixed:
  assumes "deal_reach c now cell sub" and "consts_typed c" and "sorted (run_times now es)"
    and "deal_run c (cell, sub) es = Inr (cell', sub')"
  shows "sc_price cell' = sc_price cell \<and> sc_max_ticks cell' = sc_max_ticks cell
     \<and> sc_buyer_pubkey cell' = sc_buyer_pubkey cell \<and> sc_probe_time cell' = sc_probe_time cell
     \<and> ds_deal_flags sub' = ds_deal_flags sub \<and> ds_sub_weeks sub' = ds_sub_weeks sub
     \<and> ds_tokens_per_week sub' = ds_tokens_per_week sub \<and> ds_funded_tokens sub' = ds_funded_tokens sub"
  using deal_run_terms [OF assms] by (simp add: same_terms_def)

theorem deal_terms_fixed_witness:
  "sc_price (claimed_cell plain_cell) = sc_price plain_cell
   \<and> ds_funded_tokens (claimed_shape plain_shape) = ds_funded_tokens plain_shape"
  using deal_terms_fixed [OF plain_reach canonical_consts_typed sample_times(1) plain_claims] by simp

text \<open>
  Claim C5: what the seller can have claimed beyond what is trusted is never more than one claim
  step of \<open>MAX_CLAIM_DELTA\<close> tokens; nothing is claimed beyond the funded volume; and during week
  \<open>i\<close> of a subscription, counted from zero, never more than the quotas of \<open>i + 1\<close> weeks.
\<close>

theorem claims_stay_within_quota:
  assumes reach: "deal_reach c now cell sub" and "consts_typed c"
  shows "sc_tokens_final cell \<le> sc_tokens_pending cell
     \<and> sc_tokens_pending cell \<le> sc_tokens_final cell + MAX_CLAIM_DELTA
     \<and> sc_tokens_pending cell \<le> ds_funded_tokens sub
     \<and> (\<not> sc_closed cell \<and> sc_probe_accepted cell \<and> is_subscription sub \<longrightarrow>
          sc_tokens_pending cell \<le> (ds_week_index sub + 1) * ds_tokens_per_week sub)"
proof -
  have inv: "deal_inv c now cell sub" using deal_reach_inv [OF assms] .
  have "sc_tokens_pending cell \<le> (ds_week_index sub + 1) * ds_tokens_per_week sub"
    if "\<not> sc_closed cell" "sc_probe_accepted cell" "is_subscription sub"
    using inv that by (auto simp: deal_inv_def books_inv_def weekly_room_def split: if_splits)
  then show ?thesis using inv by (simp add: deal_inv_def pipe_inv_def)
qed

theorem claims_stay_within_quota_witness:
  "sc_tokens_pending (claimed_cell weekly_cell) \<le> 1 * ds_tokens_per_week (claimed_shape weekly_shape)"
  using claims_stay_within_quota [OF weekly_claimed canonical_consts_typed]
  by (simp add: sample_defs sample_states)


section \<open>Claims\<close>

lemma land_claim_limits:
  assumes "land_claim cell n t c = Inr cell'" and "t \<le> u64_max"
  shows "sc_last_claim_time cell + min_claim_interval c \<le> t"
    and "n - sc_tokens_pending cell \<le> max_claim_delta c (t - sc_last_claim_time cell)"
proof -
  define d where "d = n - sc_tokens_pending cell"
  define e where "e = t - sc_last_claim_time cell"
  have *: "sc_last_claim_time cell + min_claim_interval c \<le> t" "d \<le> MAX_CLAIM_DELTA"
    "d * min_seconds_per_tick c \<le> e * TICK_SIZE"
    using assms by (auto simp: land_claim_def result_simps checked_simps Let_def d_def e_def)
  then show "sc_last_claim_time cell + min_claim_interval c \<le> t" by simp
  have "e \<le> u64_max" using assms(2) by (simp add: e_def)
  then have "d \<le> max_claim_delta c e"
    using * claim_delta_limit_iff [of e "min_seconds_per_tick c" d]
    by (cases "min_seconds_per_tick c = 0") (simp_all add: max_claim_delta_def claim_delta_limit_def)
  then show "n - sc_tokens_pending cell \<le> max_claim_delta c (t - sc_last_claim_time cell)"
    by (simp add: d_def e_def)
qed

text \<open>
  Claim C4: a claim that moves the pipeline obeys every limit.  It comes at least the minimum
  interval after the last one; its increment is at most \<open>max_claim_delta\<close> of the seconds in
  between, the per-call cap and the physical rate together; the claim before it has been promoted
  first; and it lands as the one pending claim, at the time of the call.
\<close>

theorem claim_obeys_limits:
  assumes reach: "deal_reach c now cell sub" and "consts_typed c"
    and t: "now \<le> t1" "t1 \<le> t2" "t2 \<le> u64_max"
    and ok: "claim_tokens_deal cell sub n t1 t2 c = Inr (cell', sub')" and n: "n \<noteq> sc_tokens_pending cell"
  shows "sc_last_claim_time cell + min_claim_interval c \<le> t2
     \<and> sc_tokens_pending cell < n
     \<and> n - sc_tokens_pending cell \<le> max_claim_delta c (t2 - sc_last_claim_time cell)
     \<and> n \<le> ds_funded_tokens sub
     \<and> sc_tokens_final cell' = sc_tokens_pending cell \<and> sc_tokens_pending cell' = n
     \<and> sc_last_claim_time cell' = t2"
proof -
  have inv: "deal_inv c now cell sub" using deal_reach_inv [OF assms(1,2)] .
  obtain cell1 sub1 b where ch: "(if is_subscription sub then charge_elapsed_subscription_weeks cell sub t1 c
       else Inr (cell, sub, False)) = Inr (cell1, sub1, b)"
    and land: "land_claim cell1 n t2 c = Inr cell'" and gt: "sc_tokens_pending cell < n"
    using ok n by (auto simp: claim_tokens_deal_def result_simps split: if_splits)
  have op: "\<not> sc_closed cell" "sc_probe_accepted cell"
    using ok by (auto simp: claim_tokens_deal_def split: if_splits)
  then have run: "running c now cell sub" using inv running_iff by auto
  have same: "sc_tokens_pending cell1 = sc_tokens_pending cell" "sc_last_claim_time cell1 = sc_last_claim_time cell"
    using ch charge_elapsed_running(4,8) [OF run \<open>consts_typed c\<close>] by (auto split: if_splits)
  obtain cell2 m where p: "promote_due cell1 t2 c = Inr cell2" "sc_tokens_pending cell2 = sc_tokens_final cell2"
    and cell': "cell' = cell2\<lparr>sc_machine := m, sc_tokens_pending := n, sc_last_claim_time := t2\<rparr>"
    using land_claim_Inr [OF land] by auto
  have "sc_tokens_pending cell2 = sc_tokens_pending cell1" using promote_due_Inr [OF p(1)] by auto
  moreover have "n \<le> ds_funded_tokens sub"
    using claim_tokens_inv [OF ok inv \<open>consts_typed c\<close> t(1,2)]
    by (simp add: deal_inv_def pipe_inv_def same_terms_def cell')
  ultimately show ?thesis using land_claim_limits [OF land t(3)] same p(2) gt by (simp add: cell')
qed

theorem claim_obeys_limits_witness:
  "\<exists>cell'. claim_tokens_deal (claimed_cell plain_cell) (claimed_shape plain_shape) 3000000 2200 2200
       canonical_consts = Inr (cell', claimed_shape plain_shape)
     \<and> sc_tokens_pending (claimed_cell plain_cell) < 3000000
     \<and> sc_tokens_final cell' = sc_tokens_pending (claimed_cell plain_cell)
     \<and> sc_tokens_pending cell' = 3000000 \<and> sc_last_claim_time cell' = 2200"
proof -
  let ?cell = "claimed_cell plain_cell" and ?sub = "claimed_shape plain_shape"
  obtain cell' where ok: "claim_tokens_deal ?cell ?sub 3000000 2200 2200 canonical_consts = Inr (cell', ?sub)"
    by (simp add: deal_eval sample_defs sample_states Let_def)
  have "3000000 \<noteq> sc_tokens_pending ?cell" by (simp add: claimed_cell_def)
  then show ?thesis
    using claim_obeys_limits [OF plain_claimed canonical_consts_typed _ _ _ ok] ok
    by (simp add: u64_max_def)
qed

end
