(* ===== verification/MockPersist.thy ===== *)
theory MockPersist
  imports MockSteps
begin

text \<open>
  Validation of the persisted mock state, \<open>validate_persisted_subscription\<close>,
  \<open>validate_persisted_stream\<close>, \<open>validate_persisted_deal_binding\<close> and
  \<open>validate_persisted_state\<close> of \<open>crates/core/src/market/mock.rs\<close>, with the projections
  \<open>mock_funded_time\<close>, \<open>mock_deal_shape\<close>, \<open>mock_deal_subscription\<close> and \<open>mock_deal_state\<close>.
  Every load of the sidecar file runs this validation at the current time.
\<close>

section \<open>Deal shape\<close>

abbreviation invalid :: "mock_msg \<Rightarrow> 'a outcome" where
  "invalid m \<equiv> Inl (invalid_persisted_state m)"

definition validate_persisted_subscription :: "deal_subscription \<Rightarrow> nat \<Rightarrow> unit outcome" where
  "validate_persisted_subscription sub now =
     (let unknown = ds_deal_flags sub AND NOT DEAL_MASK;
          subscription_flag = has_flag (ds_deal_flags sub) SUBSCRIPTION in
      if unknown \<noteq> 0 then invalid (Shape UnknownDealFlags)
      else if subscription_flag \<noteq> (ds_sub_weeks sub \<noteq> 0) then invalid (Shape ContradictoryShape)
      else if ds_week_index sub > ds_sub_weeks sub then invalid (Shape WeekIndexAboveWeeks)
      else if ds_tokens_paid sub > ds_funded_tokens sub then invalid (Shape PaidAboveFunded)
      else if ds_week_base_tokens sub > ds_funded_tokens sub then invalid (Shape WeekBaseAboveFunded)
      else if ds_period_start sub > now then invalid (Shape PeriodStartInFuture)
      else if subscription_flag then
        (if ds_sub_weeks sub \<noteq> SUBSCRIPTION_WEEKS then invalid (Shape NonCanonicalTerm)
         else
           and_then (ok_or (checked_mul u128_max (ds_tokens_per_week sub) (ds_sub_weeks sub))
                      (invalid_persisted_state (Shape QuotaOverflow))) (\<lambda>expected_funded.
           if expected_funded \<noteq> ds_funded_tokens sub then invalid (Shape QuotaMismatch) else Inr ()))
      else if ds_week_index sub \<noteq> 0 \<or> ds_tokens_per_week sub \<noteq> ds_funded_tokens sub
              \<or> ds_week_base_tokens sub \<noteq> 0
      then invalid (Shape OrdinaryWeeklyState)
      else Inr ())"


section \<open>Stream cell\<close>

definition lifecycle_coherent :: "stream_cell \<Rightarrow> bool" where
  "lifecycle_coherent cell =
     (case sm_state (sc_machine cell) of
        Probe tick \<Rightarrow> \<not> sc_closed cell \<and> \<not> sc_disputed cell \<and> \<not> sc_probe_accepted cell
                      \<and> tk_price tick = sc_price cell
      | Streaming t p \<Rightarrow> \<not> sc_closed cell \<and> \<not> sc_disputed cell \<and> sc_probe_accepted cell \<and> p \<ge> t
      | Disputed t k \<Rightarrow> \<not> sc_closed cell \<and> sc_disputed cell \<and> checked_add u64_max t k \<noteq> None
      | Closed \<Rightarrow> sc_closed cell \<and> \<not> sc_disputed cell
      | Opening \<Rightarrow> False
      | Stopping \<Rightarrow> False)"

definition raw_ticks :: "nat \<Rightarrow> nat outcome" where
  "raw_ticks tokens =
     ok_or (try_from u64_max (div_ceil tokens TICK_SIZE))
       (invalid_persisted_state (Stream TickCounterDoesNotFit))"

definition validate_tick_mirror :: "stream_cell \<Rightarrow> unit outcome" where
  "validate_tick_mirror cell =
     (case sm_state (sc_machine cell) of
        Streaming t p \<Rightarrow>
          and_then (raw_ticks (sc_tokens_final cell)) (\<lambda>raw_final.
          and_then (raw_ticks (sc_tokens_pending cell)) (\<lambda>raw_pending.
          if p \<noteq> raw_pending then invalid (Stream PendingTicksDisagree)
          else if t \<noteq> raw_final then invalid (Stream TrustedTicksDisagree)
          else Inr ()))
      | Disputed t k \<Rightarrow>
          and_then (raw_ticks (sc_tokens_final cell)) (\<lambda>raw_final.
          and_then (raw_ticks (sc_tokens_pending cell)) (\<lambda>raw_pending.
          and_then (ok_or (checked_add u64_max t k)
                     (invalid_persisted_state (Stream DisputedTotalOverflow))) (\<lambda>machine_pending.
          if machine_pending \<noteq> raw_pending then invalid (Stream PendingTicksDisagree)
          else if t \<noteq> raw_final then invalid (Stream TrustedTicksDisagree)
          else Inr ())))
      | _ \<Rightarrow> Inr ())"

definition validate_persisted_stream :: "stream_cell \<Rightarrow> nat \<Rightarrow> unit outcome" where
  "validate_persisted_stream cell now =
     (if sc_probe_time cell = 0 \<or> sc_probe_time cell > now then invalid (Stream ProbeTimeInvalid)
      else if sc_tokens_final cell > sc_tokens_pending cell then invalid (Stream PipelineNotMonotonic)
      else if sc_last_claim_time cell > now then invalid (Stream ClaimTimeInFuture)
      else if sc_tokens_pending cell \<noteq> 0 \<and> sc_last_claim_time cell = 0
      then invalid (Stream PipelineWithoutTime)
      else if sc_dispute_time cell > now then invalid (Stream DisputeTimeInFuture)
      else if sc_disputed cell \<and> sc_dispute_time cell = 0 then invalid (Stream DisputedWithoutTime)
      else if \<not> sc_disputed cell \<and> \<not> sc_closed cell \<and> sc_dispute_time cell \<noteq> 0
      then invalid (Stream OpenWithDisputeTime)
      else if sc_dispute_time cell \<noteq> 0 \<and> sc_last_claim_time cell > sc_dispute_time cell
      then invalid (Stream ClaimAfterDispute)
      else if \<not> sc_probe_accepted cell \<and> sc_tokens_pending cell \<noteq> 0
      then invalid (Stream UnacceptedPipeline)
      else if sc_probe_accepted cell \<and> sc_tokens_final cell < TICK_SIZE
      then invalid (Stream AcceptedWithoutSeed)
      else if sc_probe_accepted cell \<and> sc_probe_locked cell \<noteq> 0
      then invalid (Stream AcceptedProbeLocked)
      else if \<not> lifecycle_coherent cell then invalid (Stream LifecycleIncoherent)
      else validate_tick_mirror cell)"


section \<open>Binding of a deal to its match and offer\<close>

definition mock_funded_time :: "mock_state \<Rightarrow> token_contract \<Rightarrow> nat outcome" where
  "mock_funded_time st tc =
     and_then (ok_or (hm_get (ms_match_created_at st) tc)
                (invalid_persisted_state (State NoMatchTime))) (\<lambda>created_at.
     if created_at < 0 then invalid (State NegativeMatchTime) else Inr (nat created_at))"

text \<open>The offer a deal was filled from: the consumed one, else one still resting.\<close>

definition filled_offer :: "mock_state \<Rightarrow> token_contract \<Rightarrow> sell_offer option" where
  "filled_offer st tc =
     (case hm_get (ms_matched_offers st) tc of Some o1 \<Rightarrow> Some o1 | None \<Rightarrow> hm_get (ms_offers st) tc)"

definition filled_ticks :: "mock_state \<Rightarrow> token_contract \<Rightarrow> sell_offer \<Rightarrow> nat" where
  "filled_ticks st tc offer =
     (case hm_get (ms_matched_ticks st) tc of Some n \<Rightarrow> n | None \<Rightarrow> so_max_ticks offer)"

definition canonical_actor :: "string \<Rightarrow> bool" where
  "canonical_actor s \<longleftrightarrow> length s = 64 \<and> list_all is_lower_hex s"

definition validate_cell_binding :: "match_t \<Rightarrow> nat \<Rightarrow> nat \<Rightarrow> stream_cell \<Rightarrow> unit outcome" where
  "validate_cell_binding m matched_ticks funded_tokens cell =
     (if sc_buyer_pubkey cell \<noteq> mt_buyer_pubkey m then invalid (Binding StreamBuyerDisagrees)
      else if sc_price cell \<noteq> mt_price_per_tick m then invalid (Binding MachinePriceDisagrees)
      else if sc_max_ticks cell \<noteq> matched_ticks then invalid (Binding MaxTicksDisagree)
      else if sc_tokens_pending cell > funded_tokens then invalid (Binding PendingAboveFunded)
      else Inr ())"

definition validate_persisted_deal_binding ::
    "mock_state \<Rightarrow> token_contract \<Rightarrow> deal_subscription \<Rightarrow> stream_cell option \<Rightarrow> unit outcome" where
  "validate_persisted_deal_binding st tc sub cell =
     and_then (ok_or (hm_get (ms_matches st) tc) (invalid_persisted_state (Binding NoPersistedMatch))) (\<lambda>m.
     if mt_token_contract m \<noteq> tc then invalid (Binding MatchKeyDisagrees)
     else
       and_then (ok_or (filled_offer st tc) (invalid_persisted_state (Binding NoFilledOffer))) (\<lambda>offer.
       if so_token_contract offer \<noteq> tc then invalid (Binding OfferKeyDisagrees)
       else
         and_then (ok_or (hm_get (ms_offer_sellers st) tc)
                    (invalid_persisted_state (Binding NoPersistedSeller))) (\<lambda>seller.
         if \<not> canonical_actor seller then invalid (Binding SellerNotCanonical)
         else if mt_price_per_tick m \<noteq> so_price_per_tick offer
         then invalid (Binding MatchPriceDisagrees)
         else let matched_ticks = filled_ticks st tc offer in
           if matched_ticks < MIN_STREAM_BUY_TICKS \<or> matched_ticks > so_max_ticks offer
           then invalid (Binding MatchedTicksOutside)
           else
             and_then (ok_or (checked_mul u128_max matched_ticks TICK_SIZE)
                        (invalid_persisted_state (Binding MatchedVolumeOverflow))) (\<lambda>funded_tokens.
             if ds_funded_tokens sub \<noteq> funded_tokens then invalid (Binding FundedTokensDisagree)
             else if ds_deal_flags sub \<noteq> so_flags offer AND DEAL_MASK
             then invalid (Binding DealFlagsDisagree)
             else case cell of
                    None \<Rightarrow> Inr ()
                  | Some cl \<Rightarrow> validate_cell_binding m matched_ticks funded_tokens cl))))"


section \<open>Whole state\<close>

definition validate_match :: "mock_state \<Rightarrow> nat \<Rightarrow> token_contract \<Rightarrow> unit outcome" where
  "validate_match st now tc =
     (if \<not> hm_contains (ms_deal_subscriptions st) tc then invalid (State NoDealShape)
      else and_then (mock_funded_time st tc) (\<lambda>funded_time.
           if funded_time = 0 \<or> funded_time > now then invalid (State FundedTimeInvalid)
           else Inr ()))"

definition validate_match_time :: "mock_state \<Rightarrow> token_contract \<Rightarrow> unit outcome" where
  "validate_match_time st tc =
     (if \<not> hm_contains (ms_matches st) tc then invalid (State OrphanMatchTime) else Inr ())"

definition validate_shape_entry ::
    "mock_state \<Rightarrow> nat \<Rightarrow> token_contract \<times> deal_subscription \<Rightarrow> unit outcome" where
  "validate_shape_entry st now =
     (\<lambda>(tc, sub). and_then (validate_persisted_subscription sub now) (\<lambda>_.
        validate_persisted_deal_binding st tc sub (hm_get (ms_streams st) tc)))"

definition validate_stream_entry ::
    "mock_state \<Rightarrow> nat \<Rightarrow> token_contract \<times> stream_cell \<Rightarrow> unit outcome" where
  "validate_stream_entry st now =
     (\<lambda>(tc, cell).
        if sc_schema_version cell \<noteq> STREAM_CELL_SCHEMA_VERSION then invalid (State UnsupportedSchema)
        else if \<not> hm_contains (ms_deal_subscriptions st) tc then invalid (State NoDealShape)
        else validate_persisted_stream cell now)"

definition validate_persisted_state :: "mock_state \<Rightarrow> nat \<Rightarrow> unit outcome" where
  "validate_persisted_state st now =
     and_then (for_all (validate_match st now) (hm_keys (ms_matches st))) (\<lambda>_.
     and_then (for_all (validate_match_time st) (hm_keys (ms_match_created_at st))) (\<lambda>_.
     and_then (for_all (validate_shape_entry st now) (ms_deal_subscriptions st)) (\<lambda>_.
     for_all (validate_stream_entry st now) (ms_streams st))))"


section \<open>Projections\<close>

definition mock_deal_shape :: "sell_offer \<Rightarrow> nat \<Rightarrow> nat \<Rightarrow> deal_subscription outcome" where
  "mock_deal_shape offer funded_ticks period_start =
     and_then (ok_or (checked_mul u128_max funded_ticks TICK_SIZE)
                (chain_err (Overflows OfferVolume))) (\<lambda>funded_tokens.
     let deal_flags = so_flags offer AND DEAL_MASK in
     if has_flag deal_flags SUBSCRIPTION then
       (if \<not> SUBSCRIPTION_WEEKS dvd funded_ticks then Inl (chain_err (Book SubscriptionNotDivisible))
        else Inr \<lparr>ds_deal_flags = deal_flags, ds_sub_weeks = SUBSCRIPTION_WEEKS, ds_week_index = 0,
                  ds_tokens_per_week = funded_tokens div SUBSCRIPTION_WEEKS,
                  ds_funded_tokens = funded_tokens, ds_tokens_paid = 0,
                  ds_period_start = period_start, ds_week_base_tokens = 0\<rparr>)
     else Inr \<lparr>ds_deal_flags = deal_flags, ds_sub_weeks = 0, ds_week_index = 0,
               ds_tokens_per_week = funded_tokens, ds_funded_tokens = funded_tokens,
               ds_tokens_paid = 0, ds_period_start = period_start, ds_week_base_tokens = 0\<rparr>)"

definition mock_deal_subscription ::
    "mock_state \<Rightarrow> token_contract \<Rightarrow> deal_subscription option outcome" where
  "mock_deal_subscription st tc =
     (case hm_get (ms_deal_subscriptions st) tc of
        Some sub \<Rightarrow> Inr (Some sub)
      | None \<Rightarrow>
          (case filled_offer st tc of
             None \<Rightarrow> Inr None
           | Some offer \<Rightarrow>
               and_then (mock_deal_shape offer (filled_ticks st tc offer) 0) (\<lambda>sub. Inr (Some sub))))"

definition mock_deal_state ::
    "mock_state \<Rightarrow> token_contract \<Rightarrow> protocol_consts \<Rightarrow> deal_chain_state option outcome" where
  "mock_deal_state st tc c =
     and_then (if hm_contains (ms_matches st) tc
               then and_then (mock_funded_time st tc) (\<lambda>t. Inr (Some t)) else Inr None) (\<lambda>funded_time.
     case hm_get (ms_streams st) tc of
       Some cell \<Rightarrow>
         and_then (ok_or funded_time (invalid_persisted_state (State StreamWithoutMatch))) (\<lambda>t.
         Inr (Some \<lparr>dc_funded = True, dc_opened = (\<not> sc_closed cell),
                    dc_probe_accepted = sc_probe_accepted cell, dc_disputed = sc_disputed cell,
                    dc_deposit = (if sc_closed cell then 0 else sc_buyer_locked cell),
                    dc_finalized_owed = sc_seller_received cell,
                    dc_tokens_final = sc_tokens_final cell, dc_tokens_pending = sc_tokens_pending cell,
                    dc_probe_tick = sc_probe_locked cell, dc_funded_time = Some t,
                    dc_probe_time = sc_probe_time cell, dc_last_claim_time = sc_last_claim_time cell,
                    dc_dispute_time = sc_dispute_time cell\<rparr>))
     | None \<Rightarrow>
         (case funded_time of
            None \<Rightarrow> Inr None
          | Some t \<Rightarrow>
              and_then (ok_or (hm_get (ms_deal_subscriptions st) tc)
                         (invalid_persisted_state (State NoDealShape))) (\<lambda>sub.
              and_then (ok_or (hm_get (ms_matches st) tc)
                         (invalid_persisted_state (Binding NoPersistedMatch))) (\<lambda>m.
              and_then (token_pay_and_fee (ds_funded_tokens sub) (mt_price_per_tick m) c) (\<lambda>(pay, fee).
              and_then (add_u128 pay fee (Overflows2 BuyerDeposit)) (\<lambda>deposit.
              Inr (Some \<lparr>dc_funded = True, dc_opened = False, dc_probe_accepted = False,
                         dc_disputed = False, dc_deposit = deposit, dc_finalized_owed = 0,
                         dc_tokens_final = 0, dc_tokens_pending = 0, dc_probe_tick = 0,
                         dc_funded_time = Some t, dc_probe_time = 0, dc_last_claim_time = t,
                         dc_dispute_time = 0\<rparr>)))))))"

end
