(* ===== verification/MockBook.thy ===== *)
theory MockBook
  imports MockPersist Escrow Decimal
begin

text \<open>
  The state transformations of the mock backend, \<open>impl ChainBackend for MockChainBackend\<close> and
  the inherent methods of \<open>MockChainBackend\<close> (\<open>crates/core/src/market/mock.rs\<close>): posting,
  expiring and cancelling offers, filling them, opening and driving streams, and the book of
  resting subscription orders.  Each definition is the body of a method between the load of the
  sidecar state and its store.  It returns the result together with the state to store, or
  \<open>None\<close> when the method returns without storing.  \<open>order_hash\<close> is the 16-byte SHA-256 prefix of
  a contract's name.
\<close>

type_synonym 'a step = "('a \<times> mock_state option) outcome"

section \<open>Offers\<close>

definition SUPPORTED_FLAGS :: u8 where
  "SUPPORTED_FLAGS = IOC OR FOK OR MARKET OR POST_ONLY OR TEE OR AON OR SUBSCRIPTION"

definition TAKER_FLAGS :: u8 where "TAKER_FLAGS = IOC OR FOK OR MARKET"

definition validate_mock_sell_offer :: "sell_offer \<Rightarrow> protocol_consts \<Rightarrow> unit outcome" where
  "validate_mock_sell_offer offer c =
     (let ticks = so_max_ticks offer; price = so_price_per_tick offer; fl = so_flags offer in
      if ticks < MIN_STREAM_BUY_TICKS then Inl (chain_err (Book TooFewTicks))
      else if price = 0 \<or> \<not> PRICE_STEP dvd price then Inl (chain_err (Book PriceNotOnStep))
      else if fl AND NOT SUPPORTED_FLAGS \<noteq> 0 then Inl (chain_err (Book UnsupportedFlags))
      else if has_flag fl MARKET then Inl (chain_err (Book MarketSellOffer))
      else if has_flag fl POST_ONLY \<and> has_flag fl TAKER_FLAGS then Inl (chain_err (Book PostOnlyTaker))
      else if has_flag fl IOC \<and> has_flag fl FOK then Inl (chain_err (Book IocAndFok))
      else if has_flag fl SUBSCRIPTION \<and> \<not> has_flag fl AON
      then Inl (chain_err (Book SubscriptionWithoutAon))
      else if has_flag fl SUBSCRIPTION
              \<and> (\<not> SUBSCRIPTION_WEEKS dvd ticks \<or> ticks > SUBSCRIPTION_MAX_TICKS)
      then Inl (chain_err (Book SubscriptionTicksInvalid))
      else
        and_then (ok_or (checked_mul u128_max ticks TICK_SIZE) (chain_err (Overflows OfferVolume))) (\<lambda>funded_tokens.
        and_then (token_pay_and_fee funded_tokens price c) (\<lambda>(pay, fee).
        and_then (add_u128 pay fee (Overflows OfferValue)) (\<lambda>_. Inr ()))))"

definition mock_current_order_id :: "(token_contract \<Rightarrow> nat) \<Rightarrow> mock_state \<Rightarrow> token_contract \<Rightarrow> nat" where
  "mock_current_order_id order_hash st tc =
     wrapping_add u128_max (order_hash tc)
       (case hm_get (ms_expired_generations st) tc of Some n \<Rightarrow> n | None \<Rightarrow> 0)"

definition discover_offers :: "mock_state \<Rightarrow> offer_listing list" where
  "discover_offers st =
     map (\<lambda>(_, o1). \<lparr>ol_seller_id = (case hm_get (ms_offer_sellers st) (so_token_contract o1) of
                                      Some s \<Rightarrow> s | None \<Rightarrow> []),
                    ol_token_contract = so_token_contract o1,
                    ol_price_per_tick = so_price_per_tick o1, ol_max_ticks = so_max_ticks o1\<rparr>)
       (ms_offers st)"

definition post_offer :: "sell_offer \<Rightarrow> note_pubkey \<Rightarrow> nat \<Rightarrow> mock_state \<Rightarrow> unit step" where
  "post_offer offer note now st =
     (let tc = so_token_contract offer; seller_id = note_id_hex note in
      if hm_contains (ms_offers st) tc then Inl (chain_err (Book DuplicateSellOrder))
      else if hm_contains (ms_matches st) tc \<or> hm_contains (ms_matched_offers st) tc
              \<or> hm_contains (ms_matched_ticks st) tc \<or> hm_contains (ms_deal_subscriptions st) tc
              \<or> hm_contains (ms_streams st) tc
      then Inl (chain_err (Book AlreadyFilled))
      else if (case hm_get (ms_offer_sellers st) tc of Some s \<Rightarrow> s \<noteq> seller_id | None \<Rightarrow> False)
      then Inl (chain_err (Book BoundToOriginalSeller))
      else Inr ((), Some (st\<lparr>
             ms_offer_sellers := hm_or_insert tc seller_id (ms_offer_sellers st),
             ms_offer_deadlines := hm_insert tc (wrapping_add u64_max now MAX_SELL_TTL) (ms_offer_deadlines st),
             ms_deal_terms := hm_or_insert tc (so_price_per_tick offer, so_max_ticks offer) (ms_deal_terms st),
             ms_offers := hm_insert tc offer (ms_offers st)\<rparr>)))"

definition expire_resting_sell_order ::
    "(token_contract \<Rightarrow> nat) \<Rightarrow> token_contract \<Rightarrow> nat \<Rightarrow> nat \<Rightarrow> mock_state \<Rightarrow> unit step" where
  "expire_resting_sell_order order_hash tc order_id now st =
     (if \<not> hm_contains (ms_offers st) tc \<or> mock_current_order_id order_hash st tc \<noteq> order_id
      then Inr ((), None)
      else if (case hm_get (ms_offer_deadlines st) tc of None \<Rightarrow> True | Some d \<Rightarrow> now < d)
      then Inr ((), None)
      else Inr ((), Some (st\<lparr>
             ms_offers := hm_remove tc (ms_offers st),
             ms_expired_generations := hm_insert tc
               (wrapping_add u128_max
                 (case hm_get (ms_expired_generations st) tc of Some n \<Rightarrow> n | None \<Rightarrow> 0) 1)
               (ms_expired_generations st)\<rparr>)))"

text \<open>\<open>DealOfferLatch\<close> carries one flag: whether the ask is posted.\<close>

definition token_contract_offer_latch :: "token_contract \<Rightarrow> mock_state \<Rightarrow> bool option" where
  "token_contract_offer_latch tc st =
     (if \<not> hm_contains (ms_deal_terms st) tc \<and> \<not> hm_contains (ms_offers st) tc then None
      else Some (hm_contains (ms_offers st) tc))"

definition confirm_offer_outcome ::
    "(token_contract \<Rightarrow> nat) \<Rightarrow> token_contract \<Rightarrow> mock_state \<Rightarrow> sell_offer_outcome option" where
  "confirm_offer_outcome order_hash tc st =
     (if hm_contains (ms_matches st) tc then Some Matched
      else if hm_contains (ms_offers st) tc
      then Some (Rested (mock_current_order_id order_hash st tc)) else None)"

definition raw_resting_sell_orders_for_tc ::
    "(token_contract \<Rightarrow> nat) \<Rightarrow> token_contract \<Rightarrow> nat \<Rightarrow> mock_state \<Rightarrow> order_book_order list" where
  "raw_resting_sell_orders_for_tc order_hash tc now st =
     (case hm_get (ms_offers st) tc of
        None \<Rightarrow> []
      | Some offer \<Rightarrow>
          [\<lparr>ob_order_id = mock_current_order_id order_hash st tc,
            ob_owner_note = (case hm_get (ms_offer_sellers st) tc of
                               Some seller \<Rightarrow> ''0:'' @ seller | None \<Rightarrow> []),
            ob_token_contract = Some tc, ob_is_buy = False,
            ob_price_per_tick = so_price_per_tick offer, ob_ticks = so_max_ticks offer,
            ob_escrow = 0,
            ob_deadline = (case hm_get (ms_offer_deadlines st) tc of
                             Some d \<Rightarrow> d | None \<Rightarrow> wrapping_add u64_max now MAX_SELL_TTL),
            ob_flags = so_flags offer, ob_timestamp = 0\<rparr>])"

definition cancel_resting_sell_order ::
    "(token_contract \<Rightarrow> nat) \<Rightarrow> token_contract \<Rightarrow> nat \<Rightarrow> mock_state \<Rightarrow> unit step" where
  "cancel_resting_sell_order order_hash tc order_id st =
     (if order_id \<noteq> mock_current_order_id order_hash st tc \<or> \<not> hm_contains (ms_offers st) tc
      then Inl (chain_err (Book RestingSellAbsent))
      else Inr ((), Some (st\<lparr>ms_offers := hm_remove tc (ms_offers st)\<rparr>)))"


section \<open>Matching\<close>

text \<open>\<open>duration.as_secs() as i64\<close>\<close>

definition mock_now_unix :: "nat \<Rightarrow> int" where
  "mock_now_unix secs = (if secs < 2 ^ 63 then int secs else int secs - 2 ^ 64)"

definition place_buy_ticks_inner ::
    "token_contract \<Rightarrow> note_pubkey \<Rightarrow> nat option \<Rightarrow> nat \<Rightarrow> nat \<Rightarrow> mock_state \<Rightarrow> unit step" where
  "place_buy_ticks_inner tc note ticks now1 now2 st =
     (if hm_contains (ms_matches st) tc then Inl (chain_err (Book AlreadyMatched))
      else
        and_then (ok_or (hm_get (ms_offers st) tc) (Refused (NoMatch tc))) (\<lambda>offer.
        let matched_ticks = (case ticks of Some n \<Rightarrow> n | None \<Rightarrow> so_max_ticks offer) in
        if matched_ticks < MIN_STREAM_BUY_TICKS \<or> matched_ticks > so_max_ticks offer
        then Inl (chain_err (Book BuyTicksOutside))
        else if has_flag (so_flags offer) AON \<and> matched_ticks \<noteq> so_max_ticks offer
        then Inl (chain_err (Book AonPartial))
        else
          and_then (mock_deal_shape offer matched_ticks now1) (\<lambda>sub.
          Inr ((), Some (st\<lparr>
            ms_offers := hm_remove tc (ms_offers st),
            ms_matched_offers := hm_insert tc offer (ms_matched_offers st),
            ms_matched_ticks := hm_insert tc matched_ticks (ms_matched_ticks st),
            ms_deal_subscriptions := hm_insert tc sub (ms_deal_subscriptions st),
            ms_matches := hm_insert tc
              \<lparr>mt_token_contract = tc, mt_buyer_pubkey = note,
               mt_price_per_tick = so_price_per_tick offer\<rparr> (ms_matches st),
            ms_match_created_at := hm_insert tc (mock_now_unix now2) (ms_match_created_at st)\<rparr>)))))"

definition read_match :: "token_contract \<Rightarrow> mock_state \<Rightarrow> match_t outcome" where
  "read_match tc st = ok_or (hm_get (ms_matches st) tc) (Refused (NoMatch tc))"

definition read_openable_match_now :: "token_contract \<Rightarrow> mock_state \<Rightarrow> match_t option outcome" where
  "read_openable_match_now tc st =
     (case hm_get (ms_streams st) tc of
        Some _ \<Rightarrow> Inl (chain_err (Deal NotOpenable))
      | None \<Rightarrow> Inr (hm_get (ms_matches st) tc))"

definition sell_offer_terms :: "token_contract \<Rightarrow> mock_state \<Rightarrow> (nat \<times> nat) option" where
  "sell_offer_terms tc st =
     (case hm_get (ms_deal_terms st) tc of
        Some t \<Rightarrow> Some t
      | None \<Rightarrow>
          map_option (\<lambda>offer. (so_price_per_tick offer, so_max_ticks offer))
            (case hm_get (ms_offers st) tc of
               Some offer \<Rightarrow> Some offer | None \<Rightarrow> hm_get (ms_matched_offers st) tc))"

definition deal_purchase_terms :: "token_contract \<Rightarrow> mock_state \<Rightarrow> (nat \<times> nat) option" where
  "deal_purchase_terms tc st =
     (case hm_get (ms_matched_offers st) tc of
        None \<Rightarrow> None
      | Some offer \<Rightarrow>
          map_option (\<lambda>ticks. (ticks, so_price_per_tick offer)) (hm_get (ms_matched_ticks st) tc))"

text \<open>One poll of the seller's watcher: the fills not yet seen, oldest first, and the new cursor.\<close>

definition seller_fill ::
    "(token_contract \<Rightarrow> nat) \<Rightarrow> mock_state \<Rightarrow> string \<Rightarrow> match_watch_cursor \<Rightarrow> token_contract
     \<Rightarrow> (int \<times> matched_fill) option" where
  "seller_fill order_hash st seller_id cursor tc =
     (if hm_get (ms_offer_sellers st) tc \<noteq> Some seller_id then None
      else case hm_get (ms_matched_offers st) tc of
             None \<Rightarrow> None
           | Some offer \<Rightarrow>
               let created_at = (case hm_get (ms_match_created_at st) tc of
                                   Some t \<Rightarrow> t | None \<Rightarrow> mc_since_unix cursor) in
               if has_seen cursor created_at tc then None
               else Some (created_at,
                 \<lparr>mf_order_id = mock_current_order_id order_hash st tc, mf_token_contract = tc,
                  mf_ticks = filled_ticks st tc offer,
                  mf_price_per_tick = so_price_per_tick offer\<rparr>))"

definition poll_seller_fills ::
    "(token_contract \<Rightarrow> nat) \<Rightarrow> note_pubkey \<Rightarrow> match_watch_cursor \<Rightarrow> mock_state
     \<Rightarrow> matched_fill list \<times> match_watch_cursor" where
  "poll_seller_fills order_hash note cursor st =
     (let batch = List.map_filter (seller_fill order_hash st (note_id_hex note) cursor)
                    (hm_keys (ms_matches st));
          sorted_batch = sort_key fst (sort_key (\<lambda>e. mf_token_contract (snd e)) batch)
      in (map snd sorted_batch,
          record_seen_batch cursor (map (\<lambda>(t, f). (t, mf_token_contract f)) sorted_batch)))"


section \<open>Actors\<close>

definition require_mock_seller_actor ::
    "mock_state \<Rightarrow> token_contract \<Rightarrow> note_pubkey \<Rightarrow> action_name \<Rightarrow> unit outcome" where
  "require_mock_seller_actor st tc note action =
     and_then (ok_or (hm_get (ms_offer_sellers st) tc) (chain_err (NoActor action))) (\<lambda>expected.
     ensure (note_id_hex note = expected) (chain_err (WrongActor action)))"

definition require_mock_buyer_actor ::
    "mock_state \<Rightarrow> token_contract \<Rightarrow> note_pubkey \<Rightarrow> action_name \<Rightarrow> unit outcome" where
  "require_mock_buyer_actor st tc note action =
     and_then (ok_or (hm_get (ms_streams st) tc) (Refused (NoStream tc))) (\<lambda>cell.
     ensure (note_id_hex note = note_id_hex (sc_buyer_pubkey cell)) (chain_err (WrongActor action)))"

definition require_mock_buyer_note_addr ::
    "mock_state \<Rightarrow> token_contract \<Rightarrow> string \<Rightarrow> action_name \<Rightarrow> unit outcome" where
  "require_mock_buyer_note_addr st tc buyer_note_addr action =
     and_then (ok_or (hm_get (ms_streams st) tc) (Refused (NoStream tc))) (\<lambda>cell.
     ensure (to_ascii_lowercase (str_trim buyer_note_addr)
               = ''mock:'' @ note_id_hex (sc_buyer_pubkey cell))
       (chain_err (WrongActor action)))"


section \<open>Streams\<close>

definition deal_of :: "action_name \<Rightarrow> mock_state \<Rightarrow> token_contract \<Rightarrow> (stream_cell \<times> deal_subscription) outcome" where
  "deal_of action st tc =
     and_then (ok_or (hm_get (ms_streams st) tc) (Refused (NoStream tc))) (\<lambda>cell.
     and_then (ok_or (hm_get (ms_deal_subscriptions st) tc) (chain_err (NoShapeFor action))) (\<lambda>sub.
     Inr (cell, sub)))"

definition put_deal :: "token_contract \<Rightarrow> stream_cell \<Rightarrow> deal_subscription \<Rightarrow> mock_state \<Rightarrow> mock_state" where
  "put_deal tc cell sub st =
     st\<lparr>ms_streams := hm_insert tc cell (ms_streams st),
        ms_deal_subscriptions := hm_insert tc sub (ms_deal_subscriptions st)\<rparr>"

definition open_stream :: "token_contract \<Rightarrow> note_pubkey \<Rightarrow> nat \<Rightarrow> protocol_consts \<Rightarrow> mock_state \<Rightarrow> unit step" where
  "open_stream tc note now c st =
     and_then (require_mock_seller_actor st tc note DoOpen) (\<lambda>_.
     if hm_contains (ms_streams st) tc then Inl (chain_err (Deal StreamExists))
     else
       and_then (read_match tc st) (\<lambda>m.
       let max_ticks = (case hm_get (ms_matched_ticks st) tc of
                          Some n \<Rightarrow> n
                        | None \<Rightarrow> (case filled_offer st tc of
                                     Some offer \<Rightarrow> so_max_ticks offer | None \<Rightarrow> u64_max)) in
       and_then (ok_or (hm_get (ms_deal_subscriptions st) tc) (chain_err (NoShapeFor DoOpen))) (\<lambda>sub.
       and_then (open_cell m max_ticks sub now c) (\<lambda>cell.
       Inr ((), Some (st\<lparr>ms_streams := hm_insert tc cell (ms_streams st)\<rparr>))))))"

text \<open>Run a deal operation on the stored deal and put the result back.\<close>

definition update_deal ::
    "action_name \<Rightarrow> token_contract \<Rightarrow> mock_state
     \<Rightarrow> (stream_cell \<Rightarrow> deal_subscription \<Rightarrow> ('a \<times> stream_cell \<times> deal_subscription) outcome) \<Rightarrow> 'a step" where
  "update_deal action tc st f =
     and_then (deal_of action st tc) (\<lambda>(cell, sub).
     and_then (f cell sub) (\<lambda>(a, cell', sub').
     Inr (a, Some (put_deal tc cell' sub' st))))"

definition finalize :: "token_contract \<Rightarrow> nat \<Rightarrow> protocol_consts \<Rightarrow> mock_state \<Rightarrow> unit step" where
  "finalize tc now c st =
     update_deal DoFinalize tc st (\<lambda>cell sub.
       and_then (finalize_deal cell sub now c) (\<lambda>(cell', sub'). Inr ((), cell', sub')))"

definition accept_probe :: "token_contract \<Rightarrow> nat \<Rightarrow> protocol_consts \<Rightarrow> mock_state \<Rightarrow> unit step" where
  "accept_probe tc now c st =
     update_deal DoAcceptProbe tc st (\<lambda>cell sub.
       and_then (accept_probe_deal cell sub now c) (\<lambda>(cell', sub'). Inr ((), cell', sub')))"

text \<open>Repeating the pending total is accepted without storing.\<close>

definition claim_tokens ::
    "token_contract \<Rightarrow> note_pubkey \<Rightarrow> nat \<Rightarrow> nat \<Rightarrow> nat \<Rightarrow> protocol_consts \<Rightarrow> mock_state \<Rightarrow> unit step" where
  "claim_tokens tc note cumulative_tokens now1 now2 c st =
     and_then (require_mock_seller_actor st tc note DoClaim) (\<lambda>_.
     and_then (deal_of DoClaim st tc) (\<lambda>(cell, sub).
     and_then (claim_tokens_deal cell sub cumulative_tokens now1 now2 c) (\<lambda>(cell', sub').
     Inr ((), if cumulative_tokens = sc_tokens_pending cell then None
              else Some (put_deal tc cell' sub' st)))))"

definition settle_week :: "token_contract \<Rightarrow> nat \<Rightarrow> protocol_consts \<Rightarrow> mock_state \<Rightarrow> unit step" where
  "settle_week tc now c st =
     update_deal DoSettleWeek tc st (\<lambda>cell sub.
       and_then (settle_week_deal cell sub now c) (\<lambda>(cell', sub'). Inr ((), cell', sub')))"

definition stop_stream :: "token_contract \<Rightarrow> nat \<Rightarrow> nat \<Rightarrow> protocol_consts \<Rightarrow> mock_state \<Rightarrow> mock_settlement step" where
  "stop_stream tc now1 now2 c st =
     update_deal DoStop tc st (\<lambda>cell sub.
       and_then (stop_mock_stream cell sub now1 now2 c) (\<lambda>(cell', sub', s). Inr (s, cell', sub')))"

definition stop ::
    "token_contract \<Rightarrow> note_pubkey \<Rightarrow> nat \<Rightarrow> nat \<Rightarrow> protocol_consts \<Rightarrow> mock_state \<Rightarrow> mock_settlement step" where
  "stop tc note now1 now2 c st =
     and_then (require_mock_buyer_actor st tc note DoStop) (\<lambda>_. stop_stream tc now1 now2 c st)"

definition stop_by_buyer_note_addr ::
    "token_contract \<Rightarrow> string \<Rightarrow> nat \<Rightarrow> nat \<Rightarrow> protocol_consts \<Rightarrow> mock_state \<Rightarrow> mock_settlement step" where
  "stop_by_buyer_note_addr tc addr now1 now2 c st =
     and_then (require_mock_buyer_note_addr st tc addr DoStop) (\<lambda>_. stop_stream tc now1 now2 c st)"

definition dispute :: "token_contract \<Rightarrow> note_pubkey \<Rightarrow> nat \<Rightarrow> mock_state \<Rightarrow> mock_settlement step" where
  "dispute tc note now st =
     and_then (require_mock_buyer_actor st tc note DoDispute) (\<lambda>_.
     update_deal DoDispute tc st (\<lambda>cell sub.
       and_then (dispute_deal tc cell (is_subscription sub) now) (\<lambda>(cell', s). Inr (s, cell', sub))))"

definition release_dispute :: "token_contract \<Rightarrow> protocol_consts \<Rightarrow> mock_state \<Rightarrow> mock_settlement step" where
  "release_dispute tc c st =
     update_deal DoRelease tc st (\<lambda>cell sub.
       and_then (release_dispute_deal cell sub c) (\<lambda>(cell', sub', s). Inr (s, cell', sub')))"

text \<open>The timeout is checked before the deal shape is looked up.\<close>

definition resolve_dispute_timeout ::
    "token_contract \<Rightarrow> nat \<Rightarrow> protocol_consts \<Rightarrow> mock_state \<Rightarrow> mock_settlement step" where
  "resolve_dispute_timeout tc now c st =
     and_then (ok_or (hm_get (ms_streams st) tc) (Refused (NoStream tc))) (\<lambda>cell.
     and_then (dispute_timeout_reached cell now c) (\<lambda>_.
     update_deal DoResolveTimeout tc st (\<lambda>cell sub.
       and_then (resolve_timeout_deal cell sub c) (\<lambda>(cell', sub', s). Inr (s, cell', sub')))))"

definition seller_stop :: "token_contract \<Rightarrow> nat \<Rightarrow> nat \<Rightarrow> protocol_consts \<Rightarrow> mock_state \<Rightarrow> mock_settlement step" where
  "seller_stop tc now1 now2 c st =
     update_deal DoSellerStop tc st (\<lambda>cell sub.
       and_then (seller_stop_deal cell sub now1 now2 c) (\<lambda>(cell', sub', s). Inr (s, cell', sub')))"

definition cleanup_unopened :: "token_contract \<Rightarrow> nat \<Rightarrow> protocol_consts \<Rightarrow> mock_state \<Rightarrow> mock_settlement step" where
  "cleanup_unopened tc now c st =
     (if hm_contains (ms_streams st) tc then Inl (chain_err (Claims AlreadyOpened))
      else if \<not> hm_contains (ms_matches st) tc then Inl (Refused (NoMatch tc))
      else
        and_then (mock_deal_state st tc c) (\<lambda>state_opt.
        and_then (ok_or state_opt (Refused (NoMatch tc))) (\<lambda>state.
        and_then (ok_or (dc_funded_time state) (invalid_persisted_state (State NoFundedTime))) (\<lambda>funded_time.
        and_then (ok_or (checked_add u64_max funded_time MATCH_OPEN_TIMEOUT_SECS)
                   (chain_err (Overflows2 CleanupDeadline))) (\<lambda>cleanup_at.
        if now < cleanup_at then Inl (chain_err (Claims MatchTimeoutOpen))
        else
          and_then (ok_or (hm_get (ms_deal_subscriptions st) tc)
                     (invalid_persisted_state (State NoDealShape))) (\<lambda>sub.
          and_then (ok_or (hm_get (ms_matches st) tc)
                     (invalid_persisted_state (Binding NoPersistedMatch))) (\<lambda>m.
          and_then (ok_or (checked_mul u128_max (mt_price_per_tick m) 2)
                     (chain_err (Overflows2 BondSize))) (\<lambda>seller_bond.
          let buyer_bond = (if is_subscription sub then seller_bond else 0) in
          and_then (add_u128 (dc_deposit state) buyer_bond (Overflows2 BuyerDeposit)) (\<lambda>buyer_refund.
          Inr (SellerNoShow buyer_refund seller_bond, Some (st\<lparr>
            ms_matches := hm_remove tc (ms_matches st),
            ms_match_created_at := hm_remove tc (ms_match_created_at st),
            ms_matched_offers := hm_remove tc (ms_matched_offers st),
            ms_matched_ticks := hm_remove tc (ms_matched_ticks st),
            ms_deal_subscriptions := hm_remove tc (ms_deal_subscriptions st)\<rparr>)))))))))))"

definition buyer_stop_settlement :: "token_contract \<Rightarrow> mock_state \<Rightarrow> (nat \<times> nat) option" where
  "buyer_stop_settlement tc st =
     Option.bind (hm_get (ms_streams st) tc) sc_buyer_stop_settlement"


section \<open>Snapshots\<close>

definition checked_snapshot :: "token_contract \<Rightarrow> mock_state \<Rightarrow> stream_snapshot option outcome" where
  "checked_snapshot tc st =
     (case hm_get (ms_streams st) tc of
        None \<Rightarrow> Inr None
      | Some cell \<Rightarrow>
          and_then (add_u128 (sc_buyer_locked cell) (sc_probe_locked cell) (Overflows2 BuyerLock)) (\<lambda>amount.
          and_then (add_u128 amount (sc_buyer_bond cell) (Overflows2 BuyerLock)) (\<lambda>buyer_locked.
          and_then (ok_or (checked_sub (sc_tokens_pending cell) (sc_tokens_final cell))
                     (chain_err (Claims PendingBelowFinal))) (\<lambda>contested.
          and_then (checked_mul_div_floor contested (sc_price cell) TICK_SIZE (Overflows2 BuyerExposure)) (\<lambda>v.
          and_then (add_u128 (sc_probe_locked cell) v (Overflows2 BuyerExposure)) (\<lambda>buyer_lead.
          Inr (Some \<lparr>ss_seller_locked = sc_seller_locked cell, ss_buyer_locked = buyer_locked,
                     ss_buyer_lead = buyer_lead, ss_tokens_final = sc_tokens_final cell,
                     ss_seller_received = sc_seller_received cell,
                     ss_buyer_refunded = sc_buyer_refunded cell, ss_burned = sc_burned cell,
                     ss_closed = sc_closed cell\<rparr>)))))))"

definition deal_snapshot ::
    "token_contract \<Rightarrow> protocol_consts \<Rightarrow> mock_state \<Rightarrow> deal_chain_snapshot option outcome" where
  "deal_snapshot tc c st =
     and_then (mock_deal_state st tc c) (\<lambda>state_opt.
     case state_opt of
       None \<Rightarrow> Inr None
     | Some state \<Rightarrow>
         and_then (mock_deal_subscription st tc) (\<lambda>sub_opt.
         and_then (ok_or sub_opt (chain_err (Claims NoDealTerms))) (\<lambda>sub.
         and_then (ok_or (hm_get (ms_matched_offers st) tc) (chain_err (Claims NoConsumedOffer))) (\<lambda>offer.
         and_then (ok_or (checked_mul u128_max (so_price_per_tick offer) 2)
                    (chain_err (Overflows2 BondSize))) (\<lambda>bond_required.
         let seller_bond_held = (case hm_get (ms_streams st) tc of
                                   Some cell \<Rightarrow> sc_seller_locked cell | None \<Rightarrow> bond_required);
             sub_bond_required = (if is_subscription sub then bond_required else 0);
             sub_bond_held = (case hm_get (ms_streams st) tc of
                                Some cell \<Rightarrow> sc_buyer_bond cell | None \<Rightarrow> sub_bond_required);
             snapshot = \<lparr>cs_account_code_hash = ''mock-token-contract'',
                         cs_account_boc_hash = ''mock:'' @ tc, cs_state = state,
                         cs_subscription = sub,
                         cs_seller_bond = \<lparr>sb_bond_funded = True, sb_bond_held = seller_bond_held,
                                           sb_bond_required = bond_required\<rparr>,
                         cs_buyer_bond = \<lparr>bb_bond_held = sub_bond_held,
                                          bb_bond_required = sub_bond_required\<rparr>\<rparr>
         in and_then (map_err (\<lambda>e. invalid_persisted_state (State (SnapshotInvalid e)))
                        (validate_cross_getter_invariants snapshot)) (\<lambda>_.
            Inr (Some snapshot)))))))"


section \<open>Resting subscription orders\<close>

definition remove_subscription_order_from_book ::
    "nat \<Rightarrow> mock_subscription_exit \<Rightarrow> nat \<Rightarrow> mock_state \<Rightarrow> mock_state" where
  "remove_subscription_order_from_book order_id reason refunded st =
     (case hm_get (ms_subscription_orders st) order_id of
        None \<Rightarrow> st
      | Some order \<Rightarrow>
          st\<lparr>ms_subscription_orders := hm_remove order_id (ms_subscription_orders st),
             ms_subscription_order_books := hm_remove order_id (ms_subscription_order_books st),
             ms_subscription_terminal_orders := hm_insert order_id
               \<lparr>st_order = order,
                st_order_book = (case hm_get (ms_subscription_order_books st) order_id of
                                   Some b \<Rightarrow> b | None \<Rightarrow> []),
                st_reason = reason, st_refunded = refunded\<rparr>
               (ms_subscription_terminal_orders st)\<rparr>)"

text \<open>The checks that run before the lock is taken.\<close>

definition check_subscription_order :: "nat \<Rightarrow> nat \<Rightarrow> nat \<Rightarrow> u8 \<Rightarrow> unit outcome" where
  "check_subscription_order max_price_per_tick ticks escrow fl =
     (if fl \<noteq> AON OR SUBSCRIPTION \<or> has_flag fl MARKET then Inl (chain_err (Book SubscriptionFlags))
      else and_then (map_err (\<lambda>_. chain_err (Book ReserveRefused))
                       (check_subscription_buy_reserve escrow ticks max_price_per_tick)) (\<lambda>_. Inr ()))"

definition place_subscription_order ::
    "string \<Rightarrow> note_pubkey \<Rightarrow> nat \<Rightarrow> nat \<Rightarrow> nat \<Rightarrow> u8 \<Rightarrow> nat \<Rightarrow> nat \<Rightarrow> mock_state \<Rightarrow> order_book_order step" where
  "place_subscription_order order_book note max_price_per_tick ticks escrow fl deadline now st =
     (let order_id = max (ms_next_subscription_order_id st) 1 in
      and_then (ok_or (checked_add u128_max order_id 1) (chain_err (Overflows2 SubscriptionOrderId))) (\<lambda>next_id.
      let order = \<lparr>ob_order_id = order_id, ob_owner_note = ''0:'' @ note_id_hex note,
                   ob_token_contract = None, ob_is_buy = True,
                   ob_price_per_tick = max_price_per_tick, ob_ticks = ticks, ob_escrow = escrow,
                   ob_deadline = deadline, ob_flags = fl, ob_timestamp = now\<rparr> in
      if hm_contains (ms_subscription_orders st) order_id
      then Inl (chain_err (Book SubscriptionOrderExists))
      else Inr (order, Some (st\<lparr>
             ms_next_subscription_order_id := next_id,
             ms_subscription_orders := hm_insert order_id order (ms_subscription_orders st),
             ms_subscription_order_books := hm_insert order_id order_book (ms_subscription_order_books st)\<rparr>))))"

text \<open>The sweep of one order id: an expired row leaves the book with its escrow refunded.\<close>

definition swept_state :: "nat \<Rightarrow> nat \<Rightarrow> mock_state \<Rightarrow> mock_state option" where
  "swept_state order_id now st =
     (case hm_get (ms_subscription_orders st) order_id of
        None \<Rightarrow> None
      | Some order \<Rightarrow>
          if ob_deadline order \<noteq> 0 \<and> ob_deadline order \<le> now
          then Some (remove_subscription_order_from_book order_id ExitExpired (ob_escrow order) st)
          else None)"

definition owned_subscription_order ::
    "string \<Rightarrow> nat \<Rightarrow> note_pubkey \<Rightarrow> mock_state \<Rightarrow> order_book_order option" where
  "owned_subscription_order order_book order_id note st =
     (case hm_get (ms_subscription_orders st) order_id of
        None \<Rightarrow> None
      | Some order \<Rightarrow>
          if ob_owner_note order = ''0:'' @ note_id_hex note
             \<and> hm_get (ms_subscription_order_books st) order_id = Some order_book
          then Some order else None)"

definition owned_subscription_terminal ::
    "string \<Rightarrow> nat \<Rightarrow> note_pubkey \<Rightarrow> mock_state \<Rightarrow> mock_subscription_terminal option" where
  "owned_subscription_terminal order_book order_id note st =
     (case hm_get (ms_subscription_terminal_orders st) order_id of
        None \<Rightarrow> None
      | Some terminal \<Rightarrow>
          if ob_owner_note (st_order terminal) = ''0:'' @ note_id_hex note
             \<and> st_order_book terminal = order_book
          then Some terminal else None)"

definition cancel_subscription_order ::
    "string \<Rightarrow> nat \<Rightarrow> note_pubkey \<Rightarrow> mock_state \<Rightarrow> order_book_order step" where
  "cancel_subscription_order order_book order_id note st =
     and_then (ok_or (owned_subscription_order order_book order_id note st)
                (chain_err (Book SubscriptionOrderAbsent))) (\<lambda>order.
     Inr (order, Some (remove_subscription_order_from_book order_id ExitCancelled (ob_escrow order) st)))"

end
