(* ===== verification/MockState.thy ===== *)
theory MockState
  imports MockBook
begin

text \<open>
  The invariant of the whole mock state.  \<open>state_inv c now st\<close> ties the maps of \<open>MockState\<close>
  together: every match has the offer it consumed, its ticks, its shape, its seller and its time;
  every stream belongs to a match and satisfies the deal invariant; a resting offer is valid and
  unmatched.  Every operation of the backend keeps it, and it implies the validation that every
  load of the state file runs: the backend never refuses a file it wrote.
\<close>

section \<open>The invariant\<close>

definition offer_inv :: "protocol_consts \<Rightarrow> token_contract \<Rightarrow> sell_offer \<Rightarrow> bool" where
  "offer_inv c tc offer \<longleftrightarrow>
     so_token_contract offer = tc \<and> validate_mock_sell_offer offer c = Inr ()
     \<and> so_price_per_tick offer \<le> u64_max \<and> so_max_ticks offer \<le> u64_max"

definition seller_bound :: "mock_state \<Rightarrow> token_contract \<Rightarrow> bool" where
  "seller_bound st tc \<longleftrightarrow> (\<exists>s. hm_get (ms_offer_sellers st) tc = Some s \<and> canonical_actor s)"

definition stream_bound ::
    "protocol_consts \<Rightarrow> nat \<Rightarrow> match_t \<Rightarrow> nat \<Rightarrow> deal_subscription \<Rightarrow> stream_cell option \<Rightarrow> bool" where
  "stream_bound c now m k sub stream \<longleftrightarrow>
     (case stream of
        None \<Rightarrow> fresh_shape sub
      | Some cell \<Rightarrow> deal_inv c now cell sub \<and> sc_buyer_pubkey cell = mt_buyer_pubkey m
                     \<and> sc_price cell = mt_price_per_tick m \<and> sc_max_ticks cell = k)"

definition fill_bound ::
    "protocol_consts \<Rightarrow> nat \<Rightarrow> token_contract \<Rightarrow> match_t \<Rightarrow> sell_offer \<Rightarrow> nat \<Rightarrow> deal_subscription \<Rightarrow> int \<Rightarrow> bool" where
  "fill_bound c now tc m offer k sub at \<longleftrightarrow>
     mt_token_contract m = tc \<and> offer_inv c tc offer
     \<and> mt_price_per_tick m = so_price_per_tick offer
     \<and> MIN_STREAM_BUY_TICKS \<le> k \<and> k \<le> so_max_ticks offer
     \<and> ds_funded_tokens sub = k * TICK_SIZE \<and> ds_deal_flags sub = so_flags offer AND DEAL_MASK
     \<and> shape_inv sub \<and> ds_period_start sub \<le> now \<and> 0 < at \<and> at \<le> int now"

definition match_inv :: "protocol_consts \<Rightarrow> nat \<Rightarrow> mock_state \<Rightarrow> token_contract \<Rightarrow> match_t \<Rightarrow> bool" where
  "match_inv c now st tc m \<longleftrightarrow>
     seller_bound st tc
     \<and> (\<exists>offer k sub at.
          hm_get (ms_matched_offers st) tc = Some offer \<and> hm_get (ms_matched_ticks st) tc = Some k
          \<and> hm_get (ms_deal_subscriptions st) tc = Some sub \<and> hm_get (ms_match_created_at st) tc = Some at
          \<and> fill_bound c now tc m offer k sub at
          \<and> stream_bound c now m k sub (hm_get (ms_streams st) tc))"

text \<open>A contract without a match has none of a match's rows.\<close>

definition unmatched :: "mock_state \<Rightarrow> token_contract \<Rightarrow> bool" where
  "unmatched st tc \<longleftrightarrow>
     hm_get (ms_matched_offers st) tc = None \<and> hm_get (ms_matched_ticks st) tc = None
     \<and> hm_get (ms_deal_subscriptions st) tc = None \<and> hm_get (ms_match_created_at st) tc = None
     \<and> hm_get (ms_streams st) tc = None"

definition contract_inv :: "protocol_consts \<Rightarrow> nat \<Rightarrow> mock_state \<Rightarrow> token_contract \<Rightarrow> bool" where
  "contract_inv c now st tc \<longleftrightarrow>
     (case hm_get (ms_matches st) tc of
        Some m \<Rightarrow> match_inv c now st tc m \<and> hm_get (ms_offers st) tc = None
      | None \<Rightarrow> unmatched st tc)
     \<and> (\<forall>offer. hm_get (ms_offers st) tc = Some offer \<longrightarrow>
          offer_inv c tc offer \<and> seller_bound st tc)"

definition maps_wf :: "mock_state \<Rightarrow> bool" where
  "maps_wf st \<longleftrightarrow>
     hm_wf (ms_offers st) \<and> hm_wf (ms_deal_subscriptions st) \<and> hm_wf (ms_streams st)
     \<and> hm_wf (ms_matches st) \<and> hm_wf (ms_match_created_at st)"

definition state_inv :: "protocol_consts \<Rightarrow> nat \<Rightarrow> mock_state \<Rightarrow> bool" where
  "state_inv c now st \<longleftrightarrow> maps_wf st \<and> (\<forall>tc. contract_inv c now st tc)"

lemma state_inv_default: "state_inv c now mock_state_default"
  by (simp add: state_inv_def maps_wf_def contract_inv_def unmatched_def mock_state_default_def
      hm.wf_empty hm.get_empty)

lemma stream_bound_later:
  "stream_bound c now m k sub x \<Longrightarrow> now \<le> t \<Longrightarrow> stream_bound c t m k sub x"
  using deal_inv_later by (auto simp: stream_bound_def split: option.splits)

lemma match_inv_later: "match_inv c now st tc m \<Longrightarrow> now \<le> t \<Longrightarrow> match_inv c t st tc m"
  using stream_bound_later unfolding match_inv_def fill_bound_def by fastforce

lemma contract_inv_later: "contract_inv c now st tc \<Longrightarrow> now \<le> t \<Longrightarrow> contract_inv c t st tc"
  using match_inv_later by (cases "hm_get (ms_matches st) tc") (auto simp: contract_inv_def)

lemma state_inv_later: "state_inv c now st \<Longrightarrow> now \<le> t \<Longrightarrow> state_inv c t st"
  using contract_inv_later by (simp add: state_inv_def) blast


section \<open>Validation\<close>

lemma shape_valid:
  assumes "shape_inv sub" and "ds_period_start sub \<le> now" and "ds_funded_tokens sub \<le> u128_max"
  shows "validate_persisted_subscription sub now = Inr ()"
  using assms
  by (auto simp: validate_persisted_subscription_def shape_inv_def is_subscription_def Let_def
      checked_mul_def ok_or_def)

lemma ceil_ticks_fit:
  assumes "terms_inv c cell sub" and "n \<le> ds_funded_tokens sub"
  shows "div_ceil n TICK_SIZE \<le> u64_max"
proof -
  have "div_ceil n TICK_SIZE \<le> sc_max_ticks cell"
    using assms by (simp add: div_ceil_le_iff terms_inv_def)
  then show ?thesis using assms(1) by (simp add: terms_inv_def)
qed

lemma stream_valid:
  assumes inv: "deal_inv c now cell sub"
  shows "validate_persisted_stream cell now = Inr ()"
proof -
  have terms: "terms_inv c cell sub" and times: "times_inv now cell sub" and pipe: "pipe_inv cell sub"
    and mach: "machine_inv cell" and probe: "sc_probe_accepted cell \<longrightarrow> sc_probe_locked cell = 0"
    using inv by (auto simp: deal_inv_def)
  have final: "sc_tokens_final cell \<le> ds_funded_tokens sub" "sc_tokens_pending cell \<le> ds_funded_tokens sub"
    using pipe by (auto simp: pipe_inv_def)
  have ticks: "raw_ticks (sc_tokens_final cell) = Inr (div_ceil (sc_tokens_final cell) TICK_SIZE)"
    "raw_ticks (sc_tokens_pending cell) = Inr (div_ceil (sc_tokens_pending cell) TICK_SIZE)"
    using ceil_ticks_fit [OF terms] final by (simp_all add: raw_ticks_def try_from_def)
  have le: "div_ceil (sc_tokens_final cell) TICK_SIZE \<le> div_ceil (sc_tokens_pending cell) TICK_SIZE"
    using pipe div_ceil_mono by (simp add: pipe_inv_def)
  have "div_ceil (sc_tokens_pending cell) TICK_SIZE \<le> u64_max" using ceil_ticks_fit [OF terms] final by simp
  then have "lifecycle_coherent cell" "validate_tick_mirror cell = Inr ()"
    using mach inv le ticks
    by (auto simp: machine_inv_def deal_inv_def lifecycle_coherent_def validate_tick_mirror_def Let_def
        checked_add_def split: if_splits)
  then show ?thesis
    using times pipe probe by (auto simp: validate_persisted_stream_def times_inv_def pipe_inv_def
        split: if_splits)
qed

lemma binding_valid:
  assumes m: "hm_get (ms_matches st) tc = Some m" and inv: "match_inv c now st tc m"
    and sub: "hm_get (ms_deal_subscriptions st) tc = Some sub"
  shows "validate_persisted_deal_binding st tc sub (hm_get (ms_streams st) tc) = Inr ()"
proof -
  obtain offer k at s where o: "hm_get (ms_matched_offers st) tc = Some offer"
    "hm_get (ms_matched_ticks st) tc = Some k" "fill_bound c now tc m offer k sub at"
    "stream_bound c now m k sub (hm_get (ms_streams st) tc)"
    and s: "hm_get (ms_offer_sellers st) tc = Some s" "canonical_actor s"
    using inv sub by (auto simp: match_inv_def seller_bound_def)
  have "k * TICK_SIZE \<le> u64_max * TICK_SIZE"
    using o(3) by (intro mult_le_mono1) (auto simp: fill_bound_def offer_inv_def)
  also have "\<dots> \<le> u128_max" by (simp add: u64_max_def TICK_SIZE_def u128_max_def)
  finally have fits: "k * TICK_SIZE \<le> u128_max" .
  have "(case hm_get (ms_streams st) tc of None \<Rightarrow> Inr ()
      | Some cell \<Rightarrow> validate_cell_binding m k (k * TICK_SIZE) cell) = Inr ()"
    using o(3,4)
    by (auto simp: stream_bound_def validate_cell_binding_def fill_bound_def deal_inv_def pipe_inv_def
        split: option.splits)
  then show ?thesis
    unfolding validate_persisted_deal_binding_def
    using m o(1-3) s fits
    by (simp add: filled_offer_def filled_ticks_def fill_bound_def offer_inv_def checked_mul_def Let_def)
qed

lemma match_entry_valid:
  assumes m: "hm_get (ms_matches st) tc = Some m" and inv: "match_inv c now st tc m"
  shows "validate_match st now tc = Inr ()"
  using inv by (auto simp: match_inv_def fill_bound_def validate_match_def mock_funded_time_def hm_contains_iff)

lemma shape_entry_valid:
  assumes m: "hm_get (ms_matches st) tc = Some m" and inv: "match_inv c now st tc m"
    and sub: "hm_get (ms_deal_subscriptions st) tc = Some sub"
  shows "validate_shape_entry st now (tc, sub) = Inr ()"
proof -
  obtain offer k at where "fill_bound c now tc m offer k sub at"
    using inv sub by (auto simp: match_inv_def)
  then have f: "shape_inv sub" "ds_period_start sub \<le> now" "ds_funded_tokens sub = k * TICK_SIZE" "k \<le> u64_max"
    by (auto simp: fill_bound_def offer_inv_def)
  then have "ds_funded_tokens sub \<le> u64_max * TICK_SIZE" by simp
  also have "\<dots> \<le> u128_max" by (simp add: u64_max_def TICK_SIZE_def u128_max_def)
  finally have "validate_persisted_subscription sub now = Inr ()" using shape_valid f by blast
  then show ?thesis using binding_valid [OF m inv sub] by (simp add: validate_shape_entry_def)
qed

lemma stream_entry_valid:
  assumes inv: "match_inv c now st tc m" and cell: "hm_get (ms_streams st) tc = Some cell"
  shows "validate_stream_entry st now (tc, cell) = Inr ()"
proof -
  obtain sub where sub: "hm_get (ms_deal_subscriptions st) tc = Some sub" and d: "deal_inv c now cell sub"
    using inv cell by (auto simp: match_inv_def stream_bound_def)
  then have "sc_schema_version cell = STREAM_CELL_SCHEMA_VERSION" by (simp add: deal_inv_def terms_inv_def)
  then show ?thesis using stream_valid [OF d] sub by (simp add: validate_stream_entry_def hm_contains_iff)
qed

lemma state_inv_matched:
  assumes "state_inv c now st"
    and "hm_get (ms_deal_subscriptions st) tc \<noteq> None \<or> hm_get (ms_streams st) tc \<noteq> None
       \<or> hm_get (ms_match_created_at st) tc \<noteq> None \<or> hm_get (ms_matched_offers st) tc \<noteq> None"
  obtains m where "hm_get (ms_matches st) tc = Some m" "match_inv c now st tc m"
  using assms by (cases "hm_get (ms_matches st) tc")
    (auto simp: state_inv_def contract_inv_def unmatched_def dest: spec [of _ tc])

lemma state_inv_match:
  "state_inv c now st \<Longrightarrow> hm_get (ms_matches st) tc = Some m \<Longrightarrow> match_inv c now st tc m"
  by (auto simp: state_inv_def contract_inv_def dest: spec [of _ tc])

lemma state_inv_valid:
  assumes inv: "state_inv c now st"
  shows "validate_persisted_state st now = Inr ()"
proof -
  have wf: "maps_wf st" using inv by (simp add: state_inv_def)
  have "validate_match st now tc = Inr ()" if "tc \<in> set (hm_keys (ms_matches st))" for tc
  proof -
    obtain m where "hm_get (ms_matches st) tc = Some m"
      using \<open>tc \<in> set (hm_keys (ms_matches st))\<close> by (auto simp: hm_keys_contains hm_contains_iff)
    then show ?thesis using match_entry_valid state_inv_match [OF inv] by blast
  qed
  moreover have "validate_match_time st tc = Inr ()" if "tc \<in> set (hm_keys (ms_match_created_at st))" for tc
    using that state_inv_matched [OF inv, of tc]
    by (auto simp: hm_keys_contains hm_contains_iff validate_match_time_def)
  moreover have "validate_shape_entry st now e = Inr ()" if mem: "e \<in> set (ms_deal_subscriptions st)" for e
  proof -
    obtain tc sub where e: "e = (tc, sub)" by (cases e)
    then have g: "hm_get (ms_deal_subscriptions st) tc = Some sub" using mem wf by (simp add: maps_wf_def hm_in_set_get)
    show ?thesis using e g state_inv_matched [OF inv, of tc] shape_entry_valid [OF _ _ g] by auto
  qed
  moreover have "validate_stream_entry st now e = Inr ()" if mem: "e \<in> set (ms_streams st)" for e
  proof -
    obtain tc cell where e: "e = (tc, cell)" by (cases e)
    then have g: "hm_get (ms_streams st) tc = Some cell" using mem wf by (simp add: maps_wf_def hm_in_set_get)
    show ?thesis using e g state_inv_matched [OF inv, of tc] stream_entry_valid [OF _ g] by auto
  qed
  ultimately show ?thesis by (simp add: validate_persisted_state_def result_simps)
qed


section \<open>Offers and matches\<close>

text \<open>Only the rows of one contract change: the others keep their invariant.\<close>

definition same_elsewhere :: "token_contract \<Rightarrow> mock_state \<Rightarrow> mock_state \<Rightarrow> bool" where
  "same_elsewhere tc st st' \<longleftrightarrow>
     (\<forall>x. x \<noteq> tc \<longrightarrow>
        hm_get (ms_offers st') x = hm_get (ms_offers st) x
        \<and> hm_get (ms_offer_sellers st') x = hm_get (ms_offer_sellers st) x
        \<and> hm_get (ms_matches st') x = hm_get (ms_matches st) x
        \<and> hm_get (ms_matched_offers st') x = hm_get (ms_matched_offers st) x
        \<and> hm_get (ms_matched_ticks st') x = hm_get (ms_matched_ticks st) x
        \<and> hm_get (ms_deal_subscriptions st') x = hm_get (ms_deal_subscriptions st) x
        \<and> hm_get (ms_match_created_at st') x = hm_get (ms_match_created_at st) x
        \<and> hm_get (ms_streams st') x = hm_get (ms_streams st) x)"

lemma same_elsewhere_contract:
  assumes "same_elsewhere tc st st'" and "x \<noteq> tc"
  shows "contract_inv c now st' x = contract_inv c now st x"
  using assms by (cases "hm_get (ms_matches st) x")
    (simp_all add: same_elsewhere_def contract_inv_def match_inv_def unmatched_def seller_bound_def)

lemma state_inv_local:
  assumes inv: "state_inv c now st" and t: "now \<le> t" and wf: "maps_wf st'"
    and same: "same_elsewhere tc st st'" and at: "contract_inv c t st' tc"
  shows "state_inv c t st'"
proof -
  have "contract_inv c t st' x" for x
    using at same_elsewhere_contract [OF same] state_inv_later [OF inv t]
    by (cases "x = tc") (auto simp: state_inv_def)
  then show ?thesis using wf by (simp add: state_inv_def)
qed

lemmas state_maps = maps_wf_def same_elsewhere_def hm_simps hm_wf_intros

lemma note_canonical: "pubkey_typed note \<Longrightarrow> canonical_actor (note_id_hex note)"
  using note_id_hex_canonical by (simp add: canonical_actor_def)

lemma post_offer_inv:
  assumes inv: "state_inv c now st" and t: "now \<le> t"
    and ok: "post_offer offer note t1 st = Inr ((), Some st')"
    and valid: "offer_inv c (so_token_contract offer) offer" and key: "pubkey_typed note"
  shows "state_inv c t st'"
proof (rule state_inv_local [OF inv t])
  define tc where "tc = so_token_contract offer"
  have st': "st' = st\<lparr>
             ms_offer_sellers := hm_or_insert tc (note_id_hex note) (ms_offer_sellers st),
             ms_offer_deadlines := hm_insert tc (wrapping_add u64_max t1 MAX_SELL_TTL) (ms_offer_deadlines st),
             ms_deal_terms := hm_or_insert tc (so_price_per_tick offer, so_max_ticks offer) (ms_deal_terms st),
             ms_offers := hm_insert tc offer (ms_offers st)\<rparr>"
    and free: "hm_get (ms_matches st) tc = None"
    and seller: "hm_get (ms_offer_sellers st) tc = None \<or> hm_get (ms_offer_sellers st) tc = Some (note_id_hex note)"
    using ok by (auto simp: post_offer_def tc_def Let_def hm_contains_iff split: if_splits option.splits)
  have "maps_wf st" and "unmatched st tc"
    using inv free by (auto simp: state_inv_def contract_inv_def dest: spec [of _ tc])
  then show "maps_wf st'" "contract_inv c t st' tc"
    using valid free seller note_canonical [OF key]
    by (auto simp: st' contract_inv_def unmatched_def seller_bound_def state_maps tc_def)
  show "same_elsewhere tc st st'" by (simp add: st' state_maps)
qed

lemma state_inv_offer:
  assumes "state_inv c now st" and "hm_get (ms_offers st) tc = Some offer"
  shows "offer_inv c tc offer" "seller_bound st tc" "unmatched st tc" "hm_get (ms_matches st) tc = None"
  using assms by (auto simp: state_inv_def contract_inv_def dest!: spec [of _ tc] split: option.splits)

text \<open>Taking a resting offer off the book: expiry and cancellation.\<close>

lemma offer_removed_inv:
  assumes inv: "state_inv c now st" and t: "now \<le> t"
    and frame: "maps_wf st'" "same_elsewhere tc st st'"
    and rows: "ms_offers st' = hm_remove tc (ms_offers st)" "ms_offer_sellers st' = ms_offer_sellers st"
      "ms_matches st' = ms_matches st" "ms_matched_offers st' = ms_matched_offers st"
      "ms_matched_ticks st' = ms_matched_ticks st" "ms_deal_subscriptions st' = ms_deal_subscriptions st"
      "ms_match_created_at st' = ms_match_created_at st" "ms_streams st' = ms_streams st"
  shows "state_inv c t st'"
proof (rule state_inv_local [OF inv t frame])
  have "contract_inv c t st tc" using state_inv_later [OF inv t] by (simp add: state_inv_def)
  then show "contract_inv c t st' tc"
    by (cases "hm_get (ms_matches st) tc")
      (auto simp: contract_inv_def match_inv_def unmatched_def seller_bound_def rows hm_simps)
qed

lemma expire_inv:
  assumes inv: "state_inv c now st" and t: "now \<le> t"
    and ok: "expire_resting_sell_order h tc i t1 st = Inr ((), Some st')"
  shows "state_inv c t st'"
proof (rule offer_removed_inv [OF inv t])
  have wf: "maps_wf st" using inv by (simp add: state_inv_def)
  obtain g where st': "st' = st\<lparr>ms_offers := hm_remove tc (ms_offers st), ms_expired_generations := g\<rparr>"
    using ok by (auto simp: expire_resting_sell_order_def split: if_splits)
  show "maps_wf st'" "same_elsewhere tc st st'" using wf by (simp_all add: st' state_maps)
qed (use ok in \<open>auto simp: expire_resting_sell_order_def split: if_splits\<close>)

lemma cancel_inv:
  assumes inv: "state_inv c now st" and t: "now \<le> t"
    and ok: "cancel_resting_sell_order h tc i st = Inr ((), Some st')"
  shows "state_inv c t st'"
proof (rule offer_removed_inv [OF inv t])
  have wf: "maps_wf st" using inv by (simp add: state_inv_def)
  have "st' = st\<lparr>ms_offers := hm_remove tc (ms_offers st)\<rparr>"
    using ok by (auto simp: cancel_resting_sell_order_def split: if_splits)
  then show "maps_wf st'" "same_elsewhere tc st st'" using wf by (simp_all add: state_maps)
qed (use ok in \<open>auto simp: cancel_resting_sell_order_def split: if_splits\<close>)

lemma mask_subscription: "has_flag (fl AND DEAL_MASK) SUBSCRIPTION = has_flag fl SUBSCRIPTION"
  by (simp add: has_flag_def DEAL_MASK_def flag_defs and.assoc)

lemma deal_shape_fresh:
  assumes ok: "mock_deal_shape offer k t = Inr sub" and k: "2 \<le> k"
  shows "fresh_shape sub" "ds_funded_tokens sub = k * TICK_SIZE" "ds_period_start sub = t"
    "ds_deal_flags sub = so_flags offer AND DEAL_MASK"
proof -
  have "(so_flags offer AND DEAL_MASK) AND NOT DEAL_MASK = 0" by (simp add: and.assoc)
  then show "fresh_shape sub"
    using ok k
    by (auto simp: mock_deal_shape_def fresh_shape_def shape_inv_def result_simps checked_simps Let_def
        is_subscription_def SUBSCRIPTION_WEEKS_def mask_subscription TICK_SIZE_def split: if_splits)
qed (use ok in \<open>auto simp: mock_deal_shape_def result_simps checked_simps Let_def split: if_splits\<close>)

lemma place_buy_inv:
  assumes inv: "state_inv c now st" and t: "now \<le> t1" "t1 \<le> t2" "0 < t2" "t2 < 2 ^ 63"
    and ok: "place_buy_ticks_inner tc note ticks t1 t2 st = Inr ((), Some st')"
  shows "state_inv c t2 st'"
proof -
  obtain offer k sub where offer: "hm_get (ms_offers st) tc = Some offer"
    and k: "MIN_STREAM_BUY_TICKS \<le> k" "k \<le> so_max_ticks offer"
    and sub: "mock_deal_shape offer k t1 = Inr sub"
    and st': "st' = st\<lparr>ms_offers := hm_remove tc (ms_offers st),
            ms_matched_offers := hm_insert tc offer (ms_matched_offers st),
            ms_matched_ticks := hm_insert tc k (ms_matched_ticks st),
            ms_deal_subscriptions := hm_insert tc sub (ms_deal_subscriptions st),
            ms_matches := hm_insert tc \<lparr>mt_token_contract = tc, mt_buyer_pubkey = note,
               mt_price_per_tick = so_price_per_tick offer\<rparr> (ms_matches st),
            ms_match_created_at := hm_insert tc (mock_now_unix t2) (ms_match_created_at st)\<rparr>"
    using ok by (auto simp: place_buy_ticks_inner_def result_simps Let_def not_less split: if_splits)
  have wf: "maps_wf st" using inv by (simp add: state_inv_def)
  note o = state_inv_offer [OF inv offer]
  have fresh: "fresh_shape sub" "ds_funded_tokens sub = k * TICK_SIZE" "ds_period_start sub = t1"
    "ds_deal_flags sub = so_flags offer AND DEAL_MASK"
    using deal_shape_fresh [OF sub] k(1) by (simp_all add: MIN_STREAM_BUY_TICKS_def)
  show ?thesis
  proof (rule state_inv_local [OF inv])
    show "now \<le> t2" using t by simp
    show "maps_wf st'" "same_elsewhere tc st st'" using wf by (simp_all add: st' state_maps)
    show "contract_inv c t2 st' tc"
      using o k fresh t
      by (simp add: contract_inv_def match_inv_def st' hm_simps seller_bound_def fill_bound_def
          stream_bound_def unmatched_def mock_now_unix_def fresh_shape_def)
  qed
qed

lemma cleanup_inv:
  assumes inv: "state_inv c now st" and t: "now \<le> t"
    and ok: "cleanup_unopened tc t1 c st = Inr (s, Some st')"
  shows "state_inv c t st'"
proof (rule state_inv_local [OF inv t])
  have st': "st' = st\<lparr>ms_matches := hm_remove tc (ms_matches st),
            ms_match_created_at := hm_remove tc (ms_match_created_at st),
            ms_matched_offers := hm_remove tc (ms_matched_offers st),
            ms_matched_ticks := hm_remove tc (ms_matched_ticks st),
            ms_deal_subscriptions := hm_remove tc (ms_deal_subscriptions st)\<rparr>"
    and none: "hm_get (ms_streams st) tc = None" "hm_get (ms_matches st) tc \<noteq> None"
    using ok by (auto simp: cleanup_unopened_def result_simps Let_def hm_contains_def split: if_splits)
  have wf: "maps_wf st" using inv by (simp add: state_inv_def)
  have "hm_get (ms_offers st) tc = None"
    using inv none(2) by (auto simp: state_inv_def contract_inv_def dest!: spec [of _ tc])
  then show "contract_inv c t st' tc" using none by (simp add: contract_inv_def unmatched_def st' hm_simps)
  show "maps_wf st'" "same_elsewhere tc st st'" using wf by (simp_all add: st' state_maps)
qed


section \<open>Streams\<close>

lemma open_stream_inv:
  assumes inv: "state_inv c now st" and t: "now \<le> t" "0 < t" and typed: "consts_typed c"
    and ok: "open_stream tc note t c st = Inr ((), Some st')"
  shows "state_inv c t st'"
proof -
  have none: "hm_get (ms_streams st) tc = None"
    using ok by (auto simp: open_stream_def result_simps hm_contains_def split: if_splits)
  obtain m where m: "hm_get (ms_matches st) tc = Some m"
    using ok by (auto simp: open_stream_def read_match_def result_simps split: if_splits)
  then obtain offer k sub at where rows: "hm_get (ms_matched_offers st) tc = Some offer"
     "hm_get (ms_matched_ticks st) tc = Some k" "hm_get (ms_deal_subscriptions st) tc = Some sub"
     "hm_get (ms_match_created_at st) tc = Some at" "fill_bound c now tc m offer k sub at"
     "fresh_shape sub" and seller: "seller_bound st tc"
    using state_inv_match [OF inv m] none by (auto simp: match_inv_def stream_bound_def)
  obtain cell where cell: "open_cell m k sub t c = Inr cell"
    and st': "st' = st\<lparr>ms_streams := hm_insert tc cell (ms_streams st)\<rparr>"
    using ok m rows(2,3) by (auto simp: open_stream_def read_match_def result_simps split: if_splits)
  have p: "0 < mt_price_per_tick m" "mt_price_per_tick m \<le> u64_max" "k \<le> u64_max"
    "k * TICK_SIZE = ds_funded_tokens sub" "ds_period_start sub \<le> t"
    using rows(5) t by (auto simp: fill_bound_def offer_inv_def validate_mock_sell_offer_def Let_def split: if_splits)
  note d = open_cell_inv [OF cell rows(6) p(1,2) typed p(4,3) t(2) p(5)]
  have wf: "maps_wf st" "contract_inv c t st tc" using state_inv_later [OF inv t(1)] by (simp_all add: state_inv_def)
  show ?thesis
  proof (rule state_inv_local [OF inv t(1)])
    show "maps_wf st'" "same_elsewhere tc st st'" using wf by (simp_all add: st' state_maps)
    show "contract_inv c t st' tc"
      using wf(2) m rows d
      by (auto simp: contract_inv_def match_inv_def st' hm_simps seller_bound_def stream_bound_def)
  qed
qed

text \<open>A deal operation on the stored deal keeps the whole state.\<close>

lemma put_deal_inv:
  assumes inv: "state_inv c now st" and typed: "consts_typed c" and ord: "event_ordered now e"
    and cell: "hm_get (ms_streams st) tc = Some cell" and sub: "hm_get (ms_deal_subscriptions st) tc = Some sub"
    and ok: "deal_step c (cell, sub) e = Inr (cell', sub')"
  shows "state_inv c (event_time now e) (put_deal tc cell' sub' st)"
proof -
  have t: "now \<le> event_time now e" using ord by (rule event_time_ge)
  obtain m where m: "hm_get (ms_matches st) tc = Some m" "match_inv c now st tc m"
    using state_inv_matched [OF inv, of tc] cell by auto
  then obtain offer k at where rows: "hm_get (ms_matched_offers st) tc = Some offer"
     "hm_get (ms_matched_ticks st) tc = Some k" "hm_get (ms_match_created_at st) tc = Some at"
     "fill_bound c now tc m offer k sub at" "stream_bound c now m k sub (Some cell)"
     and seller: "seller_bound st tc" "hm_get (ms_offers st) tc = None"
    using sub cell inv by (auto simp: match_inv_def state_inv_def contract_inv_def dest!: spec [of _ tc])
  have d: "deal_inv c now cell sub" using rows(5) by (simp add: stream_bound_def)
  note d' = deal_step_inv [OF ok d typed ord]
  have "shape_inv sub'" "ds_period_start sub' \<le> event_time now e"
    using d'(1) by (auto simp: deal_inv_def terms_inv_def times_inv_def)
  then have "fill_bound c (event_time now e) tc m offer k sub' at"
    using rows(4) d'(2) t by (auto simp: fill_bound_def same_terms_def)
  moreover have "stream_bound c (event_time now e) m k sub' (Some cell')"
    using rows(5) d' by (auto simp: stream_bound_def same_terms_def)
  ultimately have "contract_inv c (event_time now e) (put_deal tc cell' sub' st) tc"
    using m rows seller by (auto simp: contract_inv_def match_inv_def put_deal_def hm_simps seller_bound_def)
  moreover have "maps_wf (put_deal tc cell' sub' st)" "same_elsewhere tc st (put_deal tc cell' sub' st)"
    using inv by (auto simp: state_inv_def put_deal_def state_maps)
  ultimately show ?thesis using state_inv_local [OF inv t] by blast
qed

text \<open>Every stream operation is one step of the deal stored under the contract.\<close>

definition deal_op :: "protocol_consts \<Rightarrow> token_contract \<Rightarrow> mock_state \<Rightarrow> deal_event \<Rightarrow> mock_state \<Rightarrow> bool" where
  "deal_op c tc st e st' \<longleftrightarrow>
     (\<exists>cell sub cell' sub'.
        hm_get (ms_streams st) tc = Some cell \<and> hm_get (ms_deal_subscriptions st) tc = Some sub
        \<and> deal_step c (cell, sub) e = Inr (cell', sub') \<and> st' = put_deal tc cell' sub' st)"

lemma deal_op_inv:
  "deal_op c tc st e st' \<Longrightarrow> state_inv c now st \<Longrightarrow> consts_typed c \<Longrightarrow> event_ordered now e \<Longrightarrow>
     state_inv c (event_time now e) st'"
  using put_deal_inv by (auto simp: deal_op_def)

lemma deal_of_Inr:
  "deal_of a st tc = Inr (cell, sub) \<longleftrightarrow>
     hm_get (ms_streams st) tc = Some cell \<and> hm_get (ms_deal_subscriptions st) tc = Some sub"
  by (auto simp: deal_of_def result_simps)

lemma update_deal_Inr:
  "update_deal a tc st f = Inr (x, st') \<longleftrightarrow>
     (\<exists>cell sub cell' sub'. hm_get (ms_streams st) tc = Some cell \<and> hm_get (ms_deal_subscriptions st) tc = Some sub
        \<and> f cell sub = Inr (x, cell', sub') \<and> st' = Some (put_deal tc cell' sub' st))"
  by (auto simp: update_deal_def result_simps deal_of_Inr)

lemma dispute_deal_any_tc:
  "dispute_deal tc cell b t = Inr (cell', s) \<Longrightarrow> \<exists>s'. dispute_deal tc' cell b t = Inr (cell', s')"
  by (auto simp: dispute_deal_def result_simps Let_def split: if_splits)

lemma stream_ops:
  "accept_probe tc t1 c st = Inr (u, Some st') \<Longrightarrow> deal_op c tc st (AcceptProbe t1) st'"
  "finalize tc t1 c st = Inr (u, Some st') \<Longrightarrow> deal_op c tc st (Finalize t1) st'"
  "settle_week tc t1 c st = Inr (u, Some st') \<Longrightarrow> deal_op c tc st (SettleWeek t1) st'"
  "stop_stream tc t1 t2 c st = Inr (s, Some st') \<Longrightarrow> deal_op c tc st (Stop t1 t2) st'"
  "seller_stop tc t1 t2 c st = Inr (s, Some st') \<Longrightarrow> deal_op c tc st (SellerStops t1 t2) st'"
  "release_dispute tc c st = Inr (s, Some st') \<Longrightarrow> deal_op c tc st ReleasesDispute st'"
  by (fastforce simp: deal_op_def accept_probe_def finalize_def settle_week_def stop_stream_def
      seller_stop_def release_dispute_def update_deal_Inr result_simps)+

lemma claim_op:
  "claim_tokens tc key n t1 t2 c st = Inr (u, Some st') \<Longrightarrow> deal_op c tc st (ClaimTokens n t1 t2) st'"
  by (fastforce simp: deal_op_def claim_tokens_def result_simps deal_of_Inr split: if_splits)

lemma stop_ops:
  "stop tc key t1 t2 c st = Inr (s, Some st') \<Longrightarrow> deal_op c tc st (Stop t1 t2) st'"
  "stop_by_buyer_note_addr tc addr t1 t2 c st = Inr (s, Some st') \<Longrightarrow> deal_op c tc st (Stop t1 t2) st'"
  using stream_ops(4) by (auto simp: stop_def stop_by_buyer_note_addr_def result_simps)

lemma timeout_op:
  "resolve_dispute_timeout tc t c st = Inr (s, Some st') \<Longrightarrow> deal_op c tc st (DisputeTimesOut t) st'"
  by (fastforce simp: deal_op_def resolve_dispute_timeout_def update_deal_Inr result_simps)

lemma dispute_op:
  assumes "dispute tc key t st = Inr (s, Some st')"
  shows "deal_op c tc st (OpenDispute t) st'"
proof -
  obtain cell sub cell' where rows: "hm_get (ms_streams st) tc = Some cell"
      "hm_get (ms_deal_subscriptions st) tc = Some sub" "st' = put_deal tc cell' sub st"
    and "dispute_deal tc cell (is_subscription sub) t = Inr (cell', s)"
    using assms by (auto simp: dispute_def update_deal_Inr result_simps)
  then obtain s' where "dispute_deal [] cell (is_subscription sub) t = Inr (cell', s')"
    using dispute_deal_any_tc by blast
  then show ?thesis using rows by (auto simp: deal_op_def)
qed

text \<open>The subscription book touches none of the maps of the deals.\<close>

definition same_deals :: "mock_state \<Rightarrow> mock_state \<Rightarrow> bool" where
  "same_deals st st' \<longleftrightarrow>
     ms_offers st' = ms_offers st \<and> ms_offer_sellers st' = ms_offer_sellers st
     \<and> ms_matches st' = ms_matches st \<and> ms_matched_offers st' = ms_matched_offers st
     \<and> ms_matched_ticks st' = ms_matched_ticks st \<and> ms_deal_subscriptions st' = ms_deal_subscriptions st
     \<and> ms_match_created_at st' = ms_match_created_at st \<and> ms_streams st' = ms_streams st"

lemma same_deals_contract: "same_deals st st' \<Longrightarrow> contract_inv c now st' tc = contract_inv c now st tc"
  by (cases "hm_get (ms_matches st) tc")
    (simp_all add: same_deals_def contract_inv_def match_inv_def unmatched_def seller_bound_def)

lemma same_deals_inv: "same_deals st st' \<Longrightarrow> state_inv c now st \<Longrightarrow> state_inv c now st'"
proof -
  assume same: "same_deals st st'" and inv: "state_inv c now st"
  have "contract_inv c now st' tc" for tc
    unfolding same_deals_contract [OF same] using inv by (simp add: state_inv_def)
  moreover have "maps_wf st'" using same inv by (simp add: state_inv_def maps_wf_def same_deals_def)
  ultimately show "state_inv c now st'" by (simp add: state_inv_def)
qed

lemma remove_sub_order_same: "same_deals st (remove_subscription_order_from_book i r n st)"
  by (simp add: same_deals_def remove_subscription_order_from_book_def split: option.splits)

lemma place_sub_order_same:
  "place_subscription_order ob key p k e fl d t st = Inr (x, Some st') \<Longrightarrow> same_deals st st'"
  by (auto simp: place_subscription_order_def result_simps Let_def same_deals_def split: if_splits)

lemma cancel_sub_order_same:
  "cancel_subscription_order ob i key st = Inr (x, Some st') \<Longrightarrow> same_deals st st'"
  using remove_sub_order_same by (auto simp: cancel_subscription_order_def result_simps)

lemma swept_same: "swept_state i t st = Some st' \<Longrightarrow> same_deals st st'"
  using remove_sub_order_same by (auto simp: swept_state_def split: option.splits if_splits)


section \<open>Runs of the backend\<close>

text \<open>
  One stored call on the state, with the clock readings of the call in order.  \<open>h\<close> is the order
  hash.  An offer reaches the book through \<open>backend_post_offer\<close>, which validates it first.
\<close>

inductive state_step ::
    "protocol_consts \<Rightarrow> (token_contract \<Rightarrow> nat) \<Rightarrow> nat \<Rightarrow> mock_state \<Rightarrow> nat \<Rightarrow> mock_state \<Rightarrow> bool"
  for c :: protocol_consts and h :: "token_contract \<Rightarrow> nat" where
  post: "offer_inv c (so_token_contract offer) offer \<Longrightarrow> pubkey_typed key \<Longrightarrow> now \<le> t \<Longrightarrow>
     post_offer offer key t st = Inr (u, Some st') \<Longrightarrow> state_step c h now st t st'"
| expire: "now \<le> t \<Longrightarrow> expire_resting_sell_order h tc i t st = Inr (u, Some st') \<Longrightarrow>
     state_step c h now st t st'"
| cancel: "cancel_resting_sell_order h tc i st = Inr (u, Some st') \<Longrightarrow> state_step c h now st now st'"
| buy: "now \<le> t1 \<Longrightarrow> t1 \<le> t2 \<Longrightarrow> 0 < t2 \<Longrightarrow> t2 < 2 ^ 63 \<Longrightarrow>
     place_buy_ticks_inner tc key ticks t1 t2 st = Inr (u, Some st') \<Longrightarrow> state_step c h now st t2 st'"
| open_deal: "now \<le> t \<Longrightarrow> 0 < t \<Longrightarrow> open_stream tc key t c st = Inr (u, Some st') \<Longrightarrow>
     state_step c h now st t st'"
| cleanup: "now \<le> t \<Longrightarrow> cleanup_unopened tc t c st = Inr (s, Some st') \<Longrightarrow> state_step c h now st t st'"
| accept: "now \<le> t \<Longrightarrow> accept_probe tc t c st = Inr (u, Some st') \<Longrightarrow> state_step c h now st t st'"
| claim: "now \<le> t1 \<Longrightarrow> t1 \<le> t2 \<Longrightarrow> claim_tokens tc key n t1 t2 c st = Inr (u, Some st') \<Longrightarrow>
     state_step c h now st t2 st'"
| promote: "now \<le> t \<Longrightarrow> finalize tc t c st = Inr (u, Some st') \<Longrightarrow> state_step c h now st t st'"
| week: "now \<le> t \<Longrightarrow> settle_week tc t c st = Inr (u, Some st') \<Longrightarrow> state_step c h now st t st'"
| buyer_stops: "now \<le> t1 \<Longrightarrow> t1 \<le> t2 \<Longrightarrow> stop tc key t1 t2 c st = Inr (s, Some st') \<Longrightarrow>
     state_step c h now st t2 st'"
| addr_stops: "now \<le> t1 \<Longrightarrow> t1 \<le> t2 \<Longrightarrow> stop_by_buyer_note_addr tc addr t1 t2 c st = Inr (s, Some st') \<Longrightarrow>
     state_step c h now st t2 st'"
| seller_stops: "now \<le> t1 \<Longrightarrow> t1 \<le> t2 \<Longrightarrow> seller_stop tc t1 t2 c st = Inr (s, Some st') \<Longrightarrow>
     state_step c h now st t2 st'"
| disputes: "now \<le> t \<Longrightarrow> dispute tc key t st = Inr (s, Some st') \<Longrightarrow> state_step c h now st t st'"
| releases: "release_dispute tc c st = Inr (s, Some st') \<Longrightarrow> state_step c h now st now st'"
| times_out: "now \<le> t \<Longrightarrow> resolve_dispute_timeout tc t c st = Inr (s, Some st') \<Longrightarrow> state_step c h now st t st'"
| subscribe: "now \<le> t \<Longrightarrow> place_subscription_order ob key p k e fl d t st = Inr (x, Some st') \<Longrightarrow>
     state_step c h now st t st'"
| unsubscribe: "cancel_subscription_order ob i key st = Inr (x, Some st') \<Longrightarrow> state_step c h now st now st'"
| sweep: "now \<le> t \<Longrightarrow> swept_state i t st = Some st' \<Longrightarrow> state_step c h now st t st'"

lemma state_step_inv:
  assumes "state_step c h now st t st'" and inv: "state_inv c now st" and typed: "consts_typed c"
  shows "state_inv c t st'"
proof -
  have op: "state_inv c (event_time now e) st'" if "deal_op c tc st e st'" "event_ordered now e" for tc e
    using deal_op_inv that inv typed by blast
  have sub: "state_inv c t1 st'" if "now \<le> t1" "same_deals st st'" for t1
    using that same_deals_inv state_inv_later inv by blast
  from assms(1) show ?thesis
  proof cases
    case post
    then show ?thesis using post_offer_inv [OF inv] by auto
  next
    case buy
    then show ?thesis using place_buy_inv [OF inv] by auto
  next
    case open_deal
    then show ?thesis using open_stream_inv [OF inv _ _ typed] by auto
  next
    case accept
    then show ?thesis using op [OF stream_ops(1)] by (simp add: event_ordered_def event_time_def)
  next
    case claim
    then show ?thesis using op [OF claim_op] by (simp add: event_ordered_def event_time_def)
  next
    case promote
    then show ?thesis using op [OF stream_ops(2)] by (simp add: event_ordered_def event_time_def)
  next
    case week
    then show ?thesis using op [OF stream_ops(3)] by (simp add: event_ordered_def event_time_def)
  next
    case buyer_stops
    then show ?thesis using op [OF stop_ops(1)] by (simp add: event_ordered_def event_time_def)
  next
    case addr_stops
    then show ?thesis using op [OF stop_ops(2)] by (simp add: event_ordered_def event_time_def)
  next
    case seller_stops
    then show ?thesis using op [OF stream_ops(5)] by (simp add: event_ordered_def event_time_def)
  next
    case disputes
    then show ?thesis using op [OF dispute_op] by (simp add: event_ordered_def event_time_def)
  next
    case releases
    then show ?thesis using op [OF stream_ops(6)] by (simp add: event_ordered_def event_time_def)
  next
    case times_out
    then show ?thesis using op [OF timeout_op] by (simp add: event_ordered_def event_time_def)
  next
    case expire
    then show ?thesis using expire_inv [OF inv] by simp
  next
    case cancel
    then show ?thesis using cancel_inv [OF inv] by simp
  next
    case cleanup
    then show ?thesis using cleanup_inv [OF inv] by simp
  next
    case subscribe
    then show ?thesis using sub place_sub_order_same by blast
  next
    case unsubscribe
    then show ?thesis using sub cancel_sub_order_same by blast
  next
    case sweep
    then show ?thesis using sub swept_same by blast
  qed
qed

text \<open>The states a backend can reach from an absent or empty state file.\<close>

inductive state_reach :: "protocol_consts \<Rightarrow> (token_contract \<Rightarrow> nat) \<Rightarrow> nat \<Rightarrow> mock_state \<Rightarrow> bool"
  for c :: protocol_consts and h :: "token_contract \<Rightarrow> nat" where
  start: "state_reach c h now mock_state_default"
| stored: "state_reach c h now st \<Longrightarrow> state_step c h now st t st' \<Longrightarrow> state_reach c h t st'"

lemma state_reach_inv: "state_reach c h now st \<Longrightarrow> consts_typed c \<Longrightarrow> state_inv c now st"
  by (induction rule: state_reach.induct) (simp_all add: state_inv_default state_step_inv)

text \<open>From one state of the backend to a later one.\<close>

inductive state_run ::
    "protocol_consts \<Rightarrow> (token_contract \<Rightarrow> nat) \<Rightarrow> nat \<Rightarrow> mock_state \<Rightarrow> nat \<Rightarrow> mock_state \<Rightarrow> bool"
  for c :: protocol_consts and h :: "token_contract \<Rightarrow> nat" and now :: nat and st :: mock_state where
  here: "state_run c h now st now st"
| later: "state_run c h now st t1 st1 \<Longrightarrow> state_step c h t1 st1 t2 st2 \<Longrightarrow> state_run c h now st t2 st2"

lemma state_run_reach: "state_run c h now st t st' \<Longrightarrow> state_reach c h now st \<Longrightarrow> state_reach c h t st'"
  by (induction rule: state_run.induct) (auto intro: state_reach.stored)

end
