(* ===== verification/HexText.thy ===== *)
theory HexText
  imports MarketTypes Decimal
begin

text \<open>
  Hexadecimal text as the client reads it: hex digits of either case, the number they stand for,
  and \<open>str::trim_start_matches\<close>.  Shared by the key checks and the addresses.
\<close>

section \<open>Prefixes\<close>

text \<open>\<open>str::trim_start_matches\<close> with a string pattern: every leading occurrence goes.\<close>

function trim_start_matches :: "string \<Rightarrow> string \<Rightarrow> string" where
  "trim_start_matches p s =
     (if p \<noteq> [] \<and> s \<noteq> [] \<and> take (length p) s = p then trim_start_matches p (drop (length p) s) else s)"
  by auto
termination by (relation "measure (\<lambda>(p, s). length s)") auto

declare trim_start_matches.simps [simp del]

section \<open>Hex digits\<close>

definition lower_hex :: "char \<Rightarrow> bool" where
  "lower_hex c \<longleftrightarrow> (let n = of_char c :: nat in 48 \<le> n \<and> n \<le> 57 \<or> 97 \<le> n \<and> n \<le> 102)"

definition is_hex_char :: "char \<Rightarrow> bool" where
  "is_hex_char c \<longleftrightarrow> lower_hex c \<or> (let n = of_char c :: nat in 65 \<le> n \<and> n \<le> 70)"

definition hex_val :: "char \<Rightarrow> nat" where
  "hex_val c =
     (let n = of_char (to_ascii_lowercase_char c) :: nat in if n < 58 then n - 48 else n - 87)"

text \<open>The number a string of hex digits stands for.\<close>

definition hex_value :: "string \<Rightarrow> nat" where
  "hex_value s = foldl (\<lambda>acc c. acc * 16 + hex_val c) 0 s"

lemma hex_value_snoc [simp]: "hex_value (s @ [c]) = hex_value s * 16 + hex_val c"
  by (simp add: hex_value_def)

lemma hex_value_Nil [simp]: "hex_value [] = 0"
  by (simp add: hex_value_def)

lemma char_eq_code: "c = d \<longleftrightarrow> (of_char c :: nat) = of_char d"
  by simp

lemma of_char_lowercase:
  "(of_char (to_ascii_lowercase_char c) :: nat) =
     (if 65 \<le> (of_char c :: nat) \<and> (of_char c :: nat) \<le> 90 then of_char c + 32 else of_char c)"
  by (simp add: to_ascii_lowercase_char_def)

lemma hex_val_bounds: "lower_hex c \<Longrightarrow> hex_val c < 16" "lower_hex c \<Longrightarrow> hex_val c = 0 \<longleftrightarrow> c = CHR ''0''"
  by (auto simp: lower_hex_def hex_val_def of_char_lowercase char_eq_code Let_def simp del: of_char_eq_iff)

lemma hex_val_inj: "lower_hex c \<Longrightarrow> lower_hex d \<Longrightarrow> hex_val c = hex_val d \<Longrightarrow> c = d"
  unfolding char_eq_code
  by (auto simp: lower_hex_def hex_val_def of_char_lowercase Let_def simp del: of_char_eq_iff split: if_splits)

lemma hex_lower:
  assumes "is_hex_char c"
  shows "lower_hex (to_ascii_lowercase_char c)" "hex_val (to_ascii_lowercase_char c) = hex_val c"
    "\<not> is_ascii_whitespace c" "c \<noteq> CHR ''x''" "c \<noteq> CHR ''X''"
  using assms
  by (auto simp: is_hex_char_def lower_hex_def hex_val_def of_char_lowercase is_ascii_whitespace_def char_eq_code Let_def
      simp del: of_char_eq_iff)

lemma hex_value_single: "hex_value [c] = hex_val c"
  by (simp add: hex_value_def)

lemma base_16: "a * 16 + x = b * 16 + y \<Longrightarrow> x < 16 \<Longrightarrow> y < 16 \<Longrightarrow> a = b \<and> x = (y :: nat)"
  by presburger

lemma hex_value_zeros: "hex_value (dropWhile (\<lambda>c. c = CHR ''0'') s) = hex_value s"
proof (induction s)
  case (Cons c s)
  have "hex_val (CHR ''0'') = 0" by (simp add: hex_val_bounds(2) lower_hex_def)
  then have "hex_value (CHR ''0'' # s) = hex_value s" by (simp add: hex_value_def)
  then show ?case using Cons by auto
qed simp

lemma hex_value_lower: "list_all is_hex_char s \<Longrightarrow> hex_value (to_ascii_lowercase s) = hex_value s"
proof (induction s rule: rev_induct)
  case (snoc c s)
  then show ?case by (simp add: to_ascii_lowercase_def hex_lower(2))
qed (simp add: to_ascii_lowercase_def)

lemma hex_value_pos:
  "list_all lower_hex s \<Longrightarrow> s \<noteq> [] \<Longrightarrow> hd s \<noteq> CHR ''0'' \<Longrightarrow> 0 < hex_value s"
proof (induction s rule: rev_induct)
  case (snoc c s)
  then show ?case using hex_val_bounds(2) [of c] by (cases "s = []") (auto simp: hex_value_single)
qed simp

text \<open>Without leading zeros the digits are determined by the number.\<close>

lemma hex_value_inj:
  assumes "list_all lower_hex s" "list_all lower_hex t" "s = [] \<or> hd s \<noteq> CHR ''0''" "t = [] \<or> hd t \<noteq> CHR ''0''"
    and "hex_value s = hex_value t"
  shows "s = t"
  using assms
proof (induction s arbitrary: t rule: rev_induct)
  case Nil
  then show ?case using hex_value_pos [of t] by auto
next
  case (snoc c s)
  have "0 < hex_value (s @ [c])" using snoc.prems(1,3) by (intro hex_value_pos) simp_all
  then have "t \<noteq> []" using snoc.prems(5) by (metis hex_value_Nil less_irrefl)
  then obtain d t' where t: "t = t' @ [d]" by (metis append_butlast_last_id)
  have lt: "hex_val c < 16" "hex_val d < 16" using snoc.prems(1,2) t by (auto intro: hex_val_bounds(1))
  have eq: "hex_value s * 16 + hex_val c = hex_value t' * 16 + hex_val d" using snoc.prems(5) t by simp
  have "hex_value s = hex_value t'" "hex_val c = hex_val d" using base_16 [OF eq lt] by simp_all
  moreover have "s = [] \<or> hd s \<noteq> CHR ''0''" "t' = [] \<or> hd t' \<noteq> CHR ''0''"
    using snoc.prems(3,4) t by (cases s; simp) (use snoc.prems(4) t in \<open>cases t'; simp\<close>)
  moreover have "list_all lower_hex s" "list_all lower_hex t'" "lower_hex c" "lower_hex d"
    using snoc.prems(1,2) t by simp_all
  ultimately have "s = t'" "c = d" using snoc.IH [of t'] hex_val_inj [of c d] by blast+
  then show ?case using t by simp
qed

lemma trim_start_matches_other:
  "take (length p) s \<noteq> p \<Longrightarrow> trim_start_matches p s = s"
  by (subst trim_start_matches.simps) auto

lemma hex_no_prefix:
  assumes "list_all is_hex_char s" and "x = CHR ''x'' \<or> x = CHR ''X''"
  shows "take 2 s \<noteq> [CHR ''0'', x]"
proof
  assume eq: "take 2 s = [CHR ''0'', x]"
  have "x \<in> set (take 2 s)" unfolding eq by simp
  then have "x \<in> set s" by (rule in_set_takeD)
  then show False using assms hex_lower(4,5) by (auto simp: list_all_iff)
qed

lemma hex_trim: "list_all is_hex_char s \<Longrightarrow> str_trim s = s"
proof -
  assume s: "list_all is_hex_char s"
  have "dropWhile is_ascii_whitespace t = t" if "list_all is_hex_char t" for t
    using that hex_lower(3) by (cases t) auto
  then show ?thesis using s by (simp add: str_trim_def list_all_rev)
qed

lemma trim_0x_hex:
  assumes "list_all is_hex_char s"
  shows "str_trim (''0x'' @ s) = ''0x'' @ s"
proof -
  have lead: "\<not> is_ascii_whitespace (CHR ''0'')" "\<not> is_ascii_whitespace (CHR ''x'')"
    by (simp_all add: is_ascii_whitespace_def)
  have "dropWhile is_ascii_whitespace (u @ [CHR ''x'', CHR ''0'']) = u @ [CHR ''x'', CHR ''0'']"
    if "list_all is_hex_char u" for u
    using that hex_lower(3) lead by (cases u) auto
  moreover have "list_all is_hex_char (rev s)" using assms by (simp add: list_all_rev)
  ultimately show ?thesis using lead by (simp add: str_trim_def)
qed

end
