(* ===== verification/Address.thy ===== *)
theory Address
  imports HexText
begin

text \<open>
  Addresses, \<open>crates/core/src/address.rs\<close>: the canonical form of a DApp id and an account id
  joined by two colons, the legacy workchain form, the renderers, the command-line boundary and the
  serde boundaries.  The address type of the chain SDK (\<open>parse_chain_address\<close>) is not modelled.
  The texts of refusals are constructors.
\<close>

section \<open>Parsing and rendering\<close>

definition DEXDO_DAPP_ID :: string where
  "DEXDO_DAPP_ID = replicate 63 (CHR ''0'') @ ''4''"

record canonical_address =
  ca_dapp_id :: string
  ca_account_id :: string

datatype address_error =
    BadCanonicalHalves
  | BadLegacyAccount
  | NoKnownForm
  | DappWithBadAccount string string
  | OneColonForTwo string string

definition is_hex64 :: "string \<Rightarrow> bool" where
  "is_hex64 s \<longleftrightarrow> length s = 64 \<and> list_all is_hex_char s"

text \<open>\<open>str::split_once\<close> at the first double colon, and \<open>str::contains\<close> of one.\<close>

fun split_colons :: "string \<Rightarrow> (string \<times> string) option" where
  "split_colons (a # b # xs) =
     (if a = CHR '':'' \<and> b = CHR '':'' then Some ([], xs)
      else map_option (\<lambda>(l, r). (a # l, r)) (split_colons (b # xs)))"
| "split_colons _ = None"

definition has_colons :: "string \<Rightarrow> bool" where
  "has_colons s \<longleftrightarrow> split_colons s \<noteq> None"

definition strip_prefix :: "string \<Rightarrow> string \<Rightarrow> string option" where
  "strip_prefix p s = (if take (length p) s = p then Some (drop (length p) s) else None)"

definition parse_address :: "string \<Rightarrow> (canonical_address, address_error) result" where
  "parse_address s0 =
     (let s = str_trim s0 in
      case split_colons s of
        Some (d0, a0) \<Rightarrow>
          (let d = str_trim d0; a = str_trim a0 in
           if \<not> is_hex64 d \<or> \<not> is_hex64 a then Inl BadCanonicalHalves
           else Inr \<lparr>ca_dapp_id = to_ascii_lowercase d, ca_account_id = to_ascii_lowercase a\<rparr>)
      | None \<Rightarrow>
          (case strip_prefix ''0:'' s of
             Some a \<Rightarrow>
               if \<not> is_hex64 a then Inl BadLegacyAccount
               else Inr \<lparr>ca_dapp_id = DEXDO_DAPP_ID, ca_account_id = to_ascii_lowercase a\<rparr>
           | None \<Rightarrow> Inl NoKnownForm))"

definition legacy :: "canonical_address \<Rightarrow> string" where
  "legacy a = ''0:'' @ ca_account_id a"

definition address_to_string :: "canonical_address \<Rightarrow> string" where
  "address_to_string a = ca_dapp_id a @ ''::'' @ ca_account_id a"

definition to_canonical :: "string \<Rightarrow> (string, address_error) result" where
  "to_canonical s = and_then (parse_address s) (\<lambda>a. Inr (address_to_string a))"

definition to_chain_param :: "string \<Rightarrow> (string, address_error) result" where
  "to_chain_param s = and_then (parse_address s) (\<lambda>a. Inr (legacy a))"

definition arg_to_chain_param :: "string \<Rightarrow> (string, address_error) result" where
  "arg_to_chain_param raw0 =
     (let raw = str_trim raw0 in
      if has_colons raw then to_chain_param raw
      else case split_once (CHR '':'') raw of
             Some (f0, r0) \<Rightarrow>
               (let first = str_trim f0; rest = str_trim r0 in
                if is_hex64 first
                then (if \<not> is_hex64 rest then Inl (DappWithBadAccount first rest)
                      else Inl (OneColonForTwo first rest))
                else Inr raw)
           | None \<Rightarrow> Inr raw)"

definition to_dapp_id_param :: "string \<Rightarrow> string" where
  "to_dapp_id_param dapp_id = ''0x'' @ trim_start_matches ''0x'' dapp_id"

definition display_address :: "string \<Rightarrow> string" where
  "display_address s =
     (case parse_address s of Inr a \<Rightarrow> address_to_string a | Inl _ \<Rightarrow> str_trim s)"

definition display_self_dapp :: "string \<Rightarrow> string" where
  "display_self_dapp s =
     (let raw = str_trim s in
      case parse_address raw of
        Inr a \<Rightarrow> if has_colons raw then address_to_string a
                 else ca_account_id a @ ''::'' @ ca_account_id a
      | Inl _ \<Rightarrow> raw)"

definition display_opt :: "string option \<Rightarrow> string \<Rightarrow> string" where
  "display_opt s placeholder = (case s of None \<Rightarrow> placeholder | Some a \<Rightarrow> display_address a)"

definition display_self_dapp_opt :: "string option \<Rightarrow> string \<Rightarrow> string" where
  "display_self_dapp_opt s placeholder = (case s of None \<Rightarrow> placeholder | Some a \<Rightarrow> display_self_dapp a)"

text \<open>
  The serde boundaries: what is written into a file is \<open>display_address\<close> or \<open>display_self_dapp\<close>
  of the field; what is read is the workchain form of anything that parses.
\<close>

definition read_address_field :: "string \<Rightarrow> string" where
  "read_address_field raw = (case parse_address raw of Inr a \<Rightarrow> legacy a | Inl _ \<Rightarrow> raw)"


section \<open>What is printed reads back\<close>

text \<open>A parsed address: two halves of 64 lower-case hex digits.\<close>

definition hex_half :: "string \<Rightarrow> bool" where
  "hex_half s \<longleftrightarrow> length s = 64 \<and> list_all lower_hex s"

lemma str_trim_no_space: "\<forall>c\<in>set s. \<not> is_ascii_whitespace c \<Longrightarrow> str_trim s = s"
proof -
  assume s: "\<forall>c\<in>set s. \<not> is_ascii_whitespace c"
  have "dropWhile is_ascii_whitespace t = t" if "\<forall>c\<in>set t. \<not> is_ascii_whitespace c" for t
    using that by (cases t) auto
  from this [of s] this [of "rev s"] show ?thesis using s by (simp add: str_trim_def)
qed

lemma str_trim_idem: "str_trim (str_trim s) = str_trim s"
proof (cases "str_trim s = []")
  case True
  then show ?thesis unfolding True by (simp add: str_trim_def)
next
  case False
  let ?t = "dropWhile is_ascii_whitespace s"
  let ?r = "dropWhile is_ascii_whitespace (rev ?t)"
  have r: "?r \<noteq> []" "str_trim s = rev ?r" using False by (simp_all add: str_trim_def)
  have "rev (takeWhile is_ascii_whitespace (rev ?t) @ ?r) = ?t" by simp
  then have "?t = rev ?r @ rev (takeWhile is_ascii_whitespace (rev ?t))" by (metis rev_append)
  then have "hd (rev ?r) = hd ?t" using r(1) by (metis hd_append2 rev_is_Nil_conv)
  moreover have "?t \<noteq> []" using r(1) by (metis dropWhile.simps(1) rev.simps(1))
  ultimately have "\<not> is_ascii_whitespace (hd (rev ?r))" using hd_dropWhile by metis
  moreover have "\<not> is_ascii_whitespace (last (rev ?r))" using hd_dropWhile [OF r(1)] by (simp add: last_rev)
  ultimately show ?thesis using r by (simp add: str_trim_id)
qed

lemma lower_hex_char:
  assumes "lower_hex c"
  shows "is_hex_char c" "to_ascii_lowercase_char c = c" "\<not> is_ascii_whitespace c" "c \<noteq> CHR '':''"
  using assms
  by (auto simp: is_hex_char_def lower_hex_def to_ascii_lowercase_char_def is_ascii_whitespace_def char_eq_code Let_def
      simp del: of_char_eq_iff)

lemma colon_char: "\<not> is_ascii_whitespace (CHR '':'')" "\<not> is_ascii_whitespace (CHR ''0'')"
  by (simp_all add: is_ascii_whitespace_def)

lemma hex_half_chars:
  assumes "hex_half s"
  shows "is_hex64 s" "to_ascii_lowercase s = s" "\<forall>c\<in>set s. \<not> is_ascii_whitespace c" "CHR '':'' \<notin> set s"
    "s \<noteq> []"
proof -
  have c: "lower_hex c" if "c \<in> set s" for c using assms that by (simp add: hex_half_def list_all_iff)
  show "is_hex64 s" "to_ascii_lowercase s = s" "\<forall>c\<in>set s. \<not> is_ascii_whitespace c" "s \<noteq> []"
    using assms c lower_hex_char(1-3)
    by (auto simp: hex_half_def is_hex64_def list_all_iff to_ascii_lowercase_def map_idI)
  show "CHR '':'' \<notin> set s" using c lower_hex_char(4) by blast
qed

lemma lowercase_hex_half: "is_hex64 s \<Longrightarrow> hex_half (to_ascii_lowercase s)"
  using hex_lower(1) by (auto simp: is_hex64_def hex_half_def list_all_iff to_ascii_lowercase_def)

lemma hex_half_dapp: "hex_half DEXDO_DAPP_ID"
  by (simp add: hex_half_def DEXDO_DAPP_ID_def lower_hex_def list_all_iff)

lemma split_colons_first:
  "CHR '':'' \<notin> set d \<Longrightarrow> split_colons (d @ CHR '':'' # CHR '':'' # a) = Some (d, a)"
proof (induction d)
  case (Cons x d)
  then show ?case by (cases d) auto
qed simp

lemma split_colons_none: "CHR '':'' \<notin> set s \<Longrightarrow> split_colons s = None"
  by (induction s rule: split_colons.induct) auto

lemma split_colons_one: "CHR '':'' \<notin> set s \<Longrightarrow> split_colons (CHR ''0'' # CHR '':'' # s) = None"
  by (cases s) (auto simp: split_colons_none)

lemma parse_canonical:
  assumes "hex_half d" "hex_half a"
  shows "parse_address (d @ ''::'' @ a) = Inr \<lparr>ca_dapp_id = d, ca_account_id = a\<rparr>"
    and "str_trim (d @ ''::'' @ a) = d @ ''::'' @ a" and "has_colons (d @ ''::'' @ a)"
proof -
  note d = hex_half_chars [OF assms(1)] and a = hex_half_chars [OF assms(2)]
  show t: "str_trim (d @ ''::'' @ a) = d @ ''::'' @ a"
    using d(3) a(3) colon_char by (intro str_trim_no_space) auto
  show "has_colons (d @ ''::'' @ a)" using split_colons_first [OF d(4)] by (simp add: has_colons_def)
  show "parse_address (d @ ''::'' @ a) = Inr \<lparr>ca_dapp_id = d, ca_account_id = a\<rparr>"
    unfolding parse_address_def t
    using split_colons_first [OF d(4)] d a by (simp add: str_trim_no_space)
qed

lemma parse_legacy:
  assumes "hex_half a"
  shows "parse_address (''0:'' @ a) = Inr \<lparr>ca_dapp_id = DEXDO_DAPP_ID, ca_account_id = a\<rparr>"
    and "str_trim (''0:'' @ a) = ''0:'' @ a" and "\<not> has_colons (''0:'' @ a)"
proof -
  note a = hex_half_chars [OF assms]
  show t: "str_trim (''0:'' @ a) = ''0:'' @ a"
    using a(3) colon_char by (intro str_trim_no_space) auto
  show "\<not> has_colons (''0:'' @ a)" using split_colons_one [OF a(4)] by (simp add: has_colons_def)
  show "parse_address (''0:'' @ a) = Inr \<lparr>ca_dapp_id = DEXDO_DAPP_ID, ca_account_id = a\<rparr>"
    unfolding parse_address_def t
    using split_colons_one [OF a(4)] a(1,2) by (simp add: strip_prefix_def)
qed

lemma parse_address_halves:
  "parse_address s = Inr a \<Longrightarrow> hex_half (ca_dapp_id a) \<and> hex_half (ca_account_id a)"
  by (auto simp: parse_address_def Let_def lowercase_hex_half hex_half_dapp split: option.splits if_splits)

text \<open>Both boundaries take either canonical rendering of an address to its workchain form.\<close>

lemma canonical_boundaries:
  assumes "hex_half x" and "hex_half (ca_account_id a)"
  shows "arg_to_chain_param (x @ ''::'' @ ca_account_id a) = Inr (legacy a)"
    "read_address_field (x @ ''::'' @ ca_account_id a) = legacy a"
  using parse_canonical [OF assms]
  by (simp_all add: arg_to_chain_param_def to_chain_param_def read_address_field_def legacy_def)

lemma parse_address_trim: "parse_address (str_trim s) = parse_address s"
  by (simp add: parse_address_def str_trim_idem)

lemma displayed_forms:
  assumes "parse_address s = Inr a"
  shows "display_address s = address_to_string a"
    "display_self_dapp s \<in> {address_to_string a, ca_account_id a @ ''::'' @ ca_account_id a}"
  using assms parse_address_trim [of s] by (simp_all add: display_address_def display_self_dapp_def)

lemma read_displayed:
  assumes "parse_address s = Inr a"
  shows "read_address_field (display_address s) = legacy a" "read_address_field (display_self_dapp s) = legacy a"
  using displayed_forms [OF assms] parse_address_halves [OF assms] canonical_boundaries(2) [of _ a]
  by (auto simp: address_to_string_def)

lemma read_displayed_text:
  assumes "parse_address s = Inl e"
  shows "read_address_field (display_address s) = str_trim s" "read_address_field (display_self_dapp s) = str_trim s"
  using assms parse_address_trim [of s]
  by (simp_all add: display_address_def display_self_dapp_def read_address_field_def)

text \<open>An address in capitals, for the examples.\<close>

lemma parse_upper:
  "parse_address (''0:'' @ replicate 64 (CHR ''A'')) =
     Inr \<lparr>ca_dapp_id = DEXDO_DAPP_ID, ca_account_id = replicate 64 (CHR ''a'')\<rparr>"
proof -
  have t: "str_trim (''0:'' @ replicate 64 (CHR ''A'')) = ''0:'' @ replicate 64 (CHR ''A'')"
    by (simp add: str_trim_def is_ascii_whitespace_def)
  have "split_colons (''0:'' @ replicate 64 (CHR ''A'')) = None"
    using split_colons_one [of "replicate 64 (CHR ''A'')"] by (simp del: split_colons.simps)
  moreover have "char_of (97 :: nat) = CHR ''a''" by code_simp
  then have "to_ascii_lowercase (replicate 64 (CHR ''A'')) = replicate 64 (CHR ''a'')"
    by (simp add: to_ascii_lowercase_def to_ascii_lowercase_char_def)
  ultimately show ?thesis
    unfolding parse_address_def t
    by (simp add: strip_prefix_def is_hex64_def is_hex_char_def list_all_iff)
qed

text \<open>
  Claim C34: an address survives every spelling the client prints.  Whatever text parses as an address
  has two halves of 64 lower-case hex digits; its canonical rendering parses back to the same
  address; and from every rendering, the shared one and the self-DApp one, both boundaries, the
  command line and a file, give back its one workchain form.
\<close>

theorem printed_address_reads_back:
  assumes "parse_address s = Inr a"
  shows "hex_half (ca_dapp_id a) \<and> hex_half (ca_account_id a)
     \<and> parse_address (address_to_string a) = Inr a
     \<and> arg_to_chain_param (display_address s) = Inr (legacy a)
     \<and> arg_to_chain_param (display_self_dapp s) = Inr (legacy a)
     \<and> read_address_field (display_address s) = legacy a
     \<and> read_address_field (display_self_dapp s) = legacy a
     \<and> read_address_field (legacy a) = legacy a \<and> arg_to_chain_param (legacy a) = Inr (legacy a)"
proof -
  note h = parse_address_halves [OF assms] and d = displayed_forms [OF assms]
  have "arg_to_chain_param (legacy a) = Inr (legacy a)" "read_address_field (legacy a) = legacy a"
    using h parse_legacy [of "ca_account_id a"]
    by (simp_all add: read_address_field_def legacy_def arg_to_chain_param_def is_hex64_def Let_def str_trim_def colon_char)
  moreover have "parse_address (address_to_string a) = Inr a"
    using parse_canonical(1) h by (simp add: address_to_string_def)
  ultimately show ?thesis
    using h d(1) canonical_boundaries [of "ca_dapp_id a" a] canonical_boundaries [of "ca_account_id a" a] d(2)
    by (auto simp: address_to_string_def)
qed

theorem printed_address_reads_back_witness:
  "\<exists>a. parse_address ('' 0:'' @ replicate 64 (CHR ''A'')) = Inr a \<and> hex_half (ca_account_id a)
     \<and> arg_to_chain_param (display_self_dapp ('' 0:'' @ replicate 64 (CHR ''A''))) = Inr (''0:'' @ replicate 64 (CHR ''a''))"
proof -
  have "str_trim ('' 0:'' @ replicate 64 (CHR ''A'')) = ''0:'' @ replicate 64 (CHR ''A'')"
    by (simp add: str_trim_def is_ascii_whitespace_def)
  then have "parse_address ('' 0:'' @ replicate 64 (CHR ''A'')) =
      Inr \<lparr>ca_dapp_id = DEXDO_DAPP_ID, ca_account_id = replicate 64 (CHR ''a'')\<rparr>"
    using parse_address_trim [of "'' 0:'' @ replicate 64 (CHR ''A'')"] parse_upper by simp
  then show ?thesis using printed_address_reads_back by (fastforce simp: legacy_def)
qed

end
