(* ===== verification/MockBackend.thy ===== *)
theory MockBackend
  imports MockBook Monitor Address
begin

text \<open>
  The mock backend as a process sees it: \<open>MockChainBackend\<close> of
  \<open>crates/core/src/market/mock.rs\<close> with its two files.  The state file holds the whole
  \<open>MockState\<close>; the endpoints file holds the handover ciphertexts.  Every call loads and validates
  the state file, works on the copy and stores it; the lock makes a call one step.  Address fields are
  respelled on the way to the file and back, by the serde attributes of the market types; the keys of the maps
  are not.  What remains, JSON text, is a parameter: a record of the four functions \<open>serde_json\<close>
  provides.  A file is absent (\<open>None\<close>) or holds bytes; failures of the disk itself are not modelled.
\<close>

section \<open>The address fields of a stored state\<close>

text \<open>
  \<open>SellOffer\<close> and \<open>Match\<close> carry \<open>serde_self_dapp\<close> on their contract, \<open>OrderBookOrder\<close> carries \<open>serde_canonical\<close> on
  its owner and \<open>serde_self_dapp_opt\<close> on its contract.
\<close>

definition ser_offer :: "sell_offer \<Rightarrow> sell_offer" where
  "ser_offer offer = offer\<lparr>so_token_contract := display_self_dapp (so_token_contract offer)\<rparr>"

definition de_offer :: "sell_offer \<Rightarrow> sell_offer" where
  "de_offer offer = offer\<lparr>so_token_contract := read_address_field (so_token_contract offer)\<rparr>"

definition ser_match :: "match_t \<Rightarrow> match_t" where
  "ser_match m = m\<lparr>mt_token_contract := display_self_dapp (mt_token_contract m)\<rparr>"

definition de_match :: "match_t \<Rightarrow> match_t" where
  "de_match m = m\<lparr>mt_token_contract := read_address_field (mt_token_contract m)\<rparr>"

definition ser_order :: "order_book_order \<Rightarrow> order_book_order" where
  "ser_order order = order\<lparr>ob_owner_note := display_address (ob_owner_note order),
     ob_token_contract := map_option display_self_dapp (ob_token_contract order)\<rparr>"

definition de_order :: "order_book_order \<Rightarrow> order_book_order" where
  "de_order order = order\<lparr>ob_owner_note := read_address_field (ob_owner_note order),
     ob_token_contract := map_option read_address_field (ob_token_contract order)\<rparr>"

definition map_rows :: "('v \<Rightarrow> 'w) \<Rightarrow> ('k, 'v) hmap \<Rightarrow> ('k, 'w) hmap" where
  "map_rows f = map (\<lambda>(k, v). (k, f v))"

definition respell_state ::
    "(sell_offer \<Rightarrow> sell_offer) \<Rightarrow> (match_t \<Rightarrow> match_t) \<Rightarrow> (order_book_order \<Rightarrow> order_book_order)
     \<Rightarrow> mock_state \<Rightarrow> mock_state" where
  "respell_state fo fm fb st = st\<lparr>
     ms_offers := map_rows fo (ms_offers st), ms_matched_offers := map_rows fo (ms_matched_offers st),
     ms_matches := map_rows fm (ms_matches st),
     ms_subscription_orders := map_rows fb (ms_subscription_orders st),
     ms_subscription_terminal_orders :=
       map_rows (\<lambda>row. row\<lparr>st_order := fb (st_order row)\<rparr>) (ms_subscription_terminal_orders st)\<rparr>"

definition ser_state :: "mock_state \<Rightarrow> mock_state" where
  "ser_state = respell_state ser_offer ser_match ser_order"

definition de_state :: "mock_state \<Rightarrow> mock_state" where
  "de_state = respell_state de_offer de_match de_order"


section \<open>The files\<close>

record 'b codec =
  cd_encode_state :: "mock_state \<Rightarrow> 'b list"
  cd_decode_state :: "'b list \<Rightarrow> mock_state option"
  cd_encode_endpoints :: "(token_contract, u8 list) hmap \<Rightarrow> 'b list"
  cd_decode_endpoints :: "'b list \<Rightarrow> (token_contract, u8 list) hmap option"

text \<open>
  What the backend relies on: JSON text reads back to the value it was written from, with the address fields already in
  the spelling of the file, and is not empty.
\<close>

definition codec_ok :: "'b codec \<Rightarrow> bool" where
  "codec_ok cd \<longleftrightarrow>
     (\<forall>st. cd_decode_state cd (cd_encode_state cd st) = Some st \<and> cd_encode_state cd st \<noteq> [])
     \<and> (\<forall>ef. cd_decode_endpoints cd (cd_encode_endpoints cd ef) = Some ef \<and> cd_encode_endpoints cd ef \<noteq> [])"

record 'b backend =
  be_state_file :: "'b list option"
  be_endpoints_file :: "'b list option"

definition load_state :: "'b codec \<Rightarrow> nat \<Rightarrow> 'b backend \<Rightarrow> mock_state outcome" where
  "load_state cd now be =
     (case be_state_file be of
        None \<Rightarrow> Inr mock_state_default
      | Some bytes \<Rightarrow>
          if bytes = [] then Inr mock_state_default
          else and_then (ok_or (cd_decode_state cd bytes) (invalid_persisted_state (State Undecodable))) (\<lambda>wire.
               let st = de_state wire in
               and_then (validate_persisted_state st now) (\<lambda>_. Inr st)))"

definition store_state :: "'b codec \<Rightarrow> mock_state \<Rightarrow> 'b backend \<Rightarrow> 'b backend" where
  "store_state cd st be = be\<lparr>be_state_file := Some (cd_encode_state cd (ser_state st))\<rparr>"

definition read_endpoints :: "'b codec \<Rightarrow> 'b backend \<Rightarrow> (token_contract, u8 list) hmap outcome" where
  "read_endpoints cd be =
     (case be_endpoints_file be of
        None \<Rightarrow> Inr []
      | Some bytes \<Rightarrow>
          if bytes = [] then Inr []
          else ok_or (cd_decode_endpoints cd bytes) (invalid_persisted_state (State Undecodable)))"

definition write_endpoints :: "'b codec \<Rightarrow> (token_contract, u8 list) hmap \<Rightarrow> 'b backend \<Rightarrow> 'b backend" where
  "write_endpoints cd ef be = be\<lparr>be_endpoints_file := Some (cd_encode_endpoints cd ef)\<rparr>"

text \<open>One locked call: load at \<open>now\<close>, run, store when there is something to store.\<close>

definition with_state ::
    "'b codec \<Rightarrow> nat \<Rightarrow> (mock_state \<Rightarrow> 'a step) \<Rightarrow> 'b backend \<Rightarrow> 'b backend \<times> 'a outcome" where
  "with_state cd now f be =
     (case load_state cd now be of
        Inl e \<Rightarrow> (be, Inl e)
      | Inr st \<Rightarrow>
          (case f st of
             Inl e \<Rightarrow> (be, Inl e)
           | Inr (a, None) \<Rightarrow> (be, Inr a)
           | Inr (a, Some st') \<Rightarrow> (store_state cd st' be, Inr a)))"

definition backend_post_offer ::
    "'b codec \<Rightarrow> protocol_consts \<Rightarrow> sell_offer \<Rightarrow> note_pubkey \<Rightarrow> nat \<Rightarrow> nat \<Rightarrow> 'b backend
     \<Rightarrow> 'b backend \<times> unit outcome" where
  "backend_post_offer cd c offer note now0 now1 be =
     (case validate_mock_sell_offer offer c of
        Inl e \<Rightarrow> (be, Inl e)
      | Inr _ \<Rightarrow> with_state cd now0 (post_offer offer note now1) be)"

text \<open>The state is stored first, then the handover is added to the endpoints file.\<close>

definition backend_open_stream ::
    "'b codec \<Rightarrow> protocol_consts \<Rightarrow> token_contract \<Rightarrow> u8 list \<Rightarrow> note_pubkey \<Rightarrow> nat \<Rightarrow> nat \<Rightarrow> 'b backend
     \<Rightarrow> 'b backend \<times> unit outcome" where
  "backend_open_stream cd c tc enc_endpoint note now0 now1 be =
     (case with_state cd now0 (open_stream tc note now1 c) be of
        (be1, Inl e) \<Rightarrow> (be1, Inl e)
      | (be1, Inr _) \<Rightarrow>
          (case read_endpoints cd be1 of
             Inl e \<Rightarrow> (be1, Inl e)
           | Inr ef \<Rightarrow> (write_endpoints cd (hm_insert tc enc_endpoint ef) be1, Inr ())))"

definition read_handover :: "'b codec \<Rightarrow> token_contract \<Rightarrow> 'b backend \<Rightarrow> u8 list option outcome" where
  "read_handover cd tc be = and_then (read_endpoints cd be) (\<lambda>ef. Inr (hm_get ef tc))"

text \<open>The sweep a subscription command starts with: load, and store if an expired row left.\<close>

definition sweep_load ::
    "'b codec \<Rightarrow> nat \<Rightarrow> nat \<Rightarrow> nat \<Rightarrow> 'b backend \<Rightarrow> 'b backend \<times> mock_state outcome" where
  "sweep_load cd order_id now0 now1 be =
     (case load_state cd now0 be of
        Inl e \<Rightarrow> (be, Inl e)
      | Inr st \<Rightarrow>
          (case swept_state order_id now1 st of
             None \<Rightarrow> (be, Inr st)
           | Some st' \<Rightarrow> (store_state cd st' be, Inr st')))"

definition backend_subscription_order ::
    "'b codec \<Rightarrow> string \<Rightarrow> nat \<Rightarrow> note_pubkey \<Rightarrow> nat \<Rightarrow> nat \<Rightarrow> 'b backend
     \<Rightarrow> 'b backend \<times> order_book_order option outcome" where
  "backend_subscription_order cd order_book order_id note now0 now1 be =
     (case sweep_load cd order_id now0 now1 be of
        (be1, Inl e) \<Rightarrow> (be1, Inl e)
      | (be1, Inr st) \<Rightarrow> (be1, Inr (owned_subscription_order order_book order_id note st)))"

definition backend_subscription_terminal_order ::
    "'b codec \<Rightarrow> string \<Rightarrow> nat \<Rightarrow> note_pubkey \<Rightarrow> nat \<Rightarrow> nat \<Rightarrow> 'b backend
     \<Rightarrow> 'b backend \<times> mock_subscription_terminal option outcome" where
  "backend_subscription_terminal_order cd order_book order_id note now0 now1 be =
     (case sweep_load cd order_id now0 now1 be of
        (be1, Inl e) \<Rightarrow> (be1, Inl e)
      | (be1, Inr st) \<Rightarrow> (be1, Inr (owned_subscription_terminal order_book order_id note st)))"

definition backend_cancel_subscription_order ::
    "'b codec \<Rightarrow> string \<Rightarrow> nat \<Rightarrow> note_pubkey \<Rightarrow> nat \<Rightarrow> nat \<Rightarrow> 'b backend
     \<Rightarrow> 'b backend \<times> order_book_order outcome" where
  "backend_cancel_subscription_order cd order_book order_id note now0 now1 be =
     (case sweep_load cd order_id now0 now1 be of
        (be1, Inl e) \<Rightarrow> (be1, Inl e)
      | (be1, Inr st) \<Rightarrow>
          (case cancel_subscription_order order_book order_id note st of
             Inl e \<Rightarrow> (be1, Inl e)
           | Inr (order, None) \<Rightarrow> (be1, Inr order)
           | Inr (order, Some st') \<Rightarrow> (store_state cd st' be1, Inr order)))"

definition backend_place_subscription_order ::
    "'b codec \<Rightarrow> string \<Rightarrow> note_pubkey \<Rightarrow> nat \<Rightarrow> nat \<Rightarrow> nat \<Rightarrow> u8 \<Rightarrow> nat \<Rightarrow> nat \<Rightarrow> nat \<Rightarrow> 'b backend
     \<Rightarrow> 'b backend \<times> order_book_order outcome" where
  "backend_place_subscription_order cd order_book note max_price ticks escrow fl deadline now0 now1 be =
     (case check_subscription_order max_price ticks escrow fl of
        Inl e \<Rightarrow> (be, Inl e)
      | Inr _ \<Rightarrow>
          with_state cd now0
            (place_subscription_order order_book note max_price ticks escrow fl deadline now1) be)"


section \<open>The note's own view\<close>

definition own_offers :: "string \<Rightarrow> mock_state \<Rightarrow> offer_listing list" where
  "own_offers note_id st =
     map (\<lambda>(tc, o1). \<lparr>ol_seller_id = note_id, ol_token_contract = tc,
                      ol_price_per_tick = so_price_per_tick o1, ol_max_ticks = so_max_ticks o1\<rparr>)
       (filter (\<lambda>(tc, _). hm_get (ms_offer_sellers st) tc = Some note_id) (ms_offers st))"

definition selling_price :: "mock_state \<Rightarrow> token_contract \<Rightarrow> nat" where
  "selling_price st tc =
     (case hm_get (ms_matches st) tc of
        Some m \<Rightarrow> mt_price_per_tick m
      | None \<Rightarrow>
          (case hm_get (ms_matched_offers st) tc of
             Some o1 \<Rightarrow> so_price_per_tick o1
           | None \<Rightarrow> (case hm_get (ms_offers st) tc of Some o1 \<Rightarrow> so_price_per_tick o1 | None \<Rightarrow> 0)))"

type_synonym deal_key = "token_contract \<times> deal_role \<times> string option \<times> nat"

definition seller_keys :: "string \<Rightarrow> mock_state \<Rightarrow> deal_key list" where
  "seller_keys note_id st =
     map (\<lambda>(tc, _). (tc, SellerRole,
              map_option (\<lambda>m. note_id_hex (mt_buyer_pubkey m)) (hm_get (ms_matches st) tc),
              selling_price st tc))
       (filter (\<lambda>(tc, seller). seller = note_id
                  \<and> (hm_contains (ms_offers st) tc \<or> hm_contains (ms_matches st) tc
                     \<or> hm_contains (ms_matched_offers st) tc \<or> hm_contains (ms_streams st) tc))
         (ms_offer_sellers st))"

text \<open>The keys of a \<open>HashMap\<close> are distinct, so \<open>seen.insert\<close> only excludes the seller's own deals.\<close>

definition buyer_keys :: "string \<Rightarrow> mock_state \<Rightarrow> deal_key list" where
  "buyer_keys note_id st =
     map (\<lambda>(tc, m). (tc, BuyerRole, hm_get (ms_offer_sellers st) tc, mt_price_per_tick m))
       (filter (\<lambda>(tc, m). note_id_hex (mt_buyer_pubkey m) = note_id
                  \<and> tc \<notin> set (map fst (seller_keys note_id st)))
         (ms_matches st))"

text \<open>\<open>snapshot\<close>: an error reads as no snapshot.\<close>

definition snapshot_of :: "mock_state \<Rightarrow> token_contract \<Rightarrow> stream_snapshot option" where
  "snapshot_of st tc = (case checked_snapshot tc st of Inl _ \<Rightarrow> None | Inr s \<Rightarrow> s)"

definition deal_exposure :: "mock_state \<Rightarrow> deal_key \<Rightarrow> nat" where
  "deal_exposure st = (\<lambda>(tc, role, _, _).
     case snapshot_of st tc of
       None \<Rightarrow> 0
     | Some s \<Rightarrow>
         if ss_closed s then 0
         else summary_shell (case role of BuyerRole \<Rightarrow> ss_buyer_locked s | SellerRole \<Rightarrow> ss_seller_locked s))"

text \<open>
  \<open>note_snapshot\<close> on a state nobody changes meanwhile: the source reads the state once for the
  keys and once more per deal.
\<close>

definition note_snapshot :: "note_pubkey \<Rightarrow> mock_state \<Rightarrow> note_snapshot_t" where
  "note_snapshot note st =
     (let note_id = note_id_hex note; keys = seller_keys note_id st @ buyer_keys note_id st in
      \<lparr>ns_note_id = note_id, ns_offers = own_offers note_id st,
       ns_deals = map (\<lambda>(tc, role, counterparty, price).
          \<lparr>dv_token_contract = tc, dv_role = role, dv_counterparty = counterparty,
           dv_price_per_tick = price, dv_model = None, dv_snapshot = snapshot_of st tc\<rparr>) keys,
       ns_exposure = foldl (\<lambda>acc k. saturating_add u64_max acc (deal_exposure st k)) 0 keys\<rparr>)"

end
