(* ===== verification/MockFile.thy ===== *)
theory MockFile
  imports MockState MockBackend
begin

text \<open>
  The state file of the mock backend and the spelling of addresses.  The contract of an offer or a match is respelled
  when it is written and when it is read, the map key beside it is not.  The theory says for which contracts the
  two stay equal, that a reachable state over such contracts is read back as it was written, and
  that a deal under any other contract makes the file unreadable.
\<close>

section \<open>Spellings\<close>

text \<open>A contract that is read back the way it was written.\<close>

definition file_spelling :: "token_contract \<Rightarrow> bool" where
  "file_spelling tc \<longleftrightarrow> read_address_field (display_self_dapp tc) = tc"

lemma file_spelling_iff:
  "file_spelling tc \<longleftrightarrow>
     (case parse_address tc of Inr a \<Rightarrow> tc = legacy a | Inl _ \<Rightarrow> str_trim tc = tc)"
  using read_displayed(2) read_displayed_text(2)
  by (cases "parse_address tc") (auto simp: file_spelling_def)

text \<open>Every argument given in the canonical form is in it; an address in capitals is not.\<close>

lemma canonical_argument_spelling:
  assumes "has_colons (str_trim raw)" and "arg_to_chain_param raw = Inr tc"
  shows "file_spelling tc"
proof -
  obtain a where a: "parse_address (str_trim raw) = Inr a" "tc = legacy a"
    using assms by (auto simp: arg_to_chain_param_def to_chain_param_def Let_def result_simps)
  then show ?thesis
    using parse_legacy(1) parse_address_halves [OF a(1)] by (simp add: file_spelling_iff legacy_def)
qed

lemma upper_not_in_file_spelling: "\<not> file_spelling (''0:'' @ replicate 64 (CHR ''A''))"
  unfolding file_spelling_iff parse_upper by (simp add: legacy_def)

text \<open>The owner of a subscription order is spelled from a key, in lower case.\<close>

lemma note_id_lower: "list_all lower_hex (note_id_hex key)"
proof -
  have "lower_hex (hex_digit n)" if "n < 16" for n
    using of_char_hex_digit [OF that] that by (auto simp: lower_hex_def)
  then have "list_all lower_hex (byte_hex b)" for b
    using unat_u8 [of b] by (simp add: byte_hex_def less_mult_imp_div_less)
  then show ?thesis by (auto simp: note_id_hex_def list_all_iff)
qed

lemma owner_reads_back:
  assumes "list_all lower_hex s"
  shows "read_address_field (display_address (''0:'' @ s)) = ''0:'' @ s"
proof -
  have c: "\<not> is_ascii_whitespace x" "x \<noteq> CHR '':''" if "x \<in> set s" for x
    using assms lower_hex_char(3,4) that by (auto simp: list_all_iff)
  have t: "str_trim (''0:'' @ s) = ''0:'' @ s" using c colon_char by (intro str_trim_no_space) auto
  show ?thesis
  proof (cases "length s = 64")
    case True
    then have "hex_half s" using assms by (simp add: hex_half_def)
    from read_displayed(1) [OF parse_legacy(1) [OF this]] show ?thesis by (simp add: legacy_def)
  next
    case False
    have "split_colons (''0:'' @ s) = None" using split_colons_one c by force
    then have "\<exists>e. parse_address (''0:'' @ s) = Inl e"
      using False unfolding parse_address_def t by (simp add: strip_prefix_def is_hex64_def Let_def del: split_colons.simps)
    then show ?thesis using read_displayed_text(1) t by metis
  qed
qed


section \<open>What the rows of a reachable state look like\<close>

definition order_row :: "order_book_order \<Rightarrow> bool" where
  "order_row order \<longleftrightarrow> (\<exists>key. ob_owner_note order = ''0:'' @ note_id_hex key) \<and> ob_token_contract order = None"

text \<open>A property of every row of a map.\<close>

definition rows :: "('k \<Rightarrow> 'v \<Rightarrow> bool) \<Rightarrow> ('k, 'v) hmap \<Rightarrow> bool" where
  "rows P m \<longleftrightarrow> list_all (\<lambda>(k, v). P k v) m"

lemma rows_insert [intro]: "rows P m \<Longrightarrow> P k v \<Longrightarrow> rows P (hm_insert k v m)"
  by (induction m) (auto simp: rows_def hm_insert_def)

lemma rows_remove [intro]: "rows P m \<Longrightarrow> rows P (hm_remove k m)"
  by (auto simp: rows_def hm_remove_def AList.delete_eq list_all_iff)

lemma rows_get: "rows P m \<Longrightarrow> hm_get m k = Some v \<Longrightarrow> P k v"
  by (auto simp: rows_def list_all_iff dest: hm_get_in_set)

lemma rows_mono: "rows P m \<Longrightarrow> (\<And>k v. P k v \<Longrightarrow> Q k v) \<Longrightarrow> rows Q m"
  by (auto simp: rows_def list_all_iff)

lemma rows_empty [simp]: "rows P []"
  by (simp add: rows_def)

definition offer_row :: "(token_contract, string) hmap \<Rightarrow> token_contract \<Rightarrow> sell_offer \<Rightarrow> bool" where
  "offer_row sellers tc offer \<longleftrightarrow> so_token_contract offer = tc \<and> hm_contains sellers tc"

definition match_row :: "(token_contract, string) hmap \<Rightarrow> token_contract \<Rightarrow> match_t \<Rightarrow> bool" where
  "match_row sellers tc m \<longleftrightarrow> mt_token_contract m = tc \<and> hm_contains sellers tc"

definition rows_inv :: "mock_state \<Rightarrow> bool" where
  "rows_inv st \<longleftrightarrow>
     rows (offer_row (ms_offer_sellers st)) (ms_offers st)
     \<and> rows (offer_row (ms_offer_sellers st)) (ms_matched_offers st)
     \<and> rows (match_row (ms_offer_sellers st)) (ms_matches st)
     \<and> rows (\<lambda>_. order_row) (ms_subscription_orders st)
     \<and> rows (\<lambda>_ row. order_row (st_order row)) (ms_subscription_terminal_orders st)"

lemma rows_inv_deal: "deal_op c tc st e st' \<Longrightarrow> rows_inv st \<Longrightarrow> rows_inv st'"
  by (auto simp: deal_op_def put_deal_def rows_inv_def)

lemma rows_inv_sub: "rows_inv st \<Longrightarrow> rows_inv (remove_subscription_order_from_book i r n st)"
  using rows_get [of "\<lambda>_. order_row" "ms_subscription_orders st" i]
  by (auto simp: rows_inv_def remove_subscription_order_from_book_def split: option.splits)

lemma rows_inv_post:
  assumes post: "post_offer offer key t st = Inr (u, Some st')" and "rows_inv st"
  shows "rows_inv st'"
proof -
  let ?tc = "so_token_contract offer" and ?s = "ms_offer_sellers st" and ?s' = "ms_offer_sellers st'"
  have st': "?s' = hm_or_insert ?tc (note_id_hex key) ?s" "ms_offers st' = hm_insert ?tc offer (ms_offers st)"
    "ms_matched_offers st' = ms_matched_offers st" "ms_matches st' = ms_matches st"
    "ms_subscription_orders st' = ms_subscription_orders st"
    "ms_subscription_terminal_orders st' = ms_subscription_terminal_orders st"
    using post by (auto simp: post_offer_def Let_def split: if_splits)
  have "offer_row ?s' tc x" if "offer_row ?s tc x" for tc x
    using that by (auto simp: offer_row_def st' hm_contains_def hm_get_or_insert)
  moreover have "match_row ?s' tc x" if "match_row ?s tc x" for tc x
    using that by (auto simp: match_row_def st' hm_contains_def hm_get_or_insert)
  moreover have "offer_row ?s' ?tc offer" by (simp add: offer_row_def st' hm_contains_def hm_get_or_insert)
  ultimately show ?thesis
    using assms(2) rows_mono [of "offer_row ?s" _ "offer_row ?s'"] rows_mono [of "match_row ?s" _ "match_row ?s'"]
    unfolding rows_inv_def st'(2-) by (intro conjI rows_insert) blast+
qed

lemma rows_inv_buy:
  assumes buy: "place_buy_ticks_inner tc key ticks t1 t2 st = Inr (u, Some st')" and inv: "rows_inv st"
  shows "rows_inv st'"
proof -
  obtain offer where offer: "hm_get (ms_offers st) tc = Some offer"
    and st': "ms_offers st' = hm_remove tc (ms_offers st)" "ms_matched_offers st' = hm_insert tc offer (ms_matched_offers st)"
      "ms_matches st' = hm_insert tc \<lparr>mt_token_contract = tc, mt_buyer_pubkey = key,
               mt_price_per_tick = so_price_per_tick offer\<rparr> (ms_matches st)"
      "ms_offer_sellers st' = ms_offer_sellers st" "ms_subscription_orders st' = ms_subscription_orders st"
      "ms_subscription_terminal_orders st' = ms_subscription_terminal_orders st"
    using buy by (auto simp: place_buy_ticks_inner_def Let_def result_simps split: if_splits)
  have "offer_row (ms_offer_sellers st) tc offer"
    using rows_get [OF _ offer, of "offer_row (ms_offer_sellers st)"] inv by (simp add: rows_inv_def)
  then show ?thesis
    using inv unfolding rows_inv_def st' by (intro conjI rows_insert rows_remove) (simp_all add: match_row_def offer_row_def)
qed

lemma rows_inv_subscribe:
  assumes "place_subscription_order ob key p k e fl d t st = Inr (x, Some st')" and "rows_inv st"
  shows "rows_inv st'"
proof -
  have "order_row x" using assms(1)
    by (auto simp: place_subscription_order_def order_row_def Let_def result_simps split: if_splits)
  then show ?thesis
    using assms
    by (auto simp: place_subscription_order_def rows_inv_def Let_def result_simps split: if_splits)
qed

lemma rows_inv_step:
  assumes "state_step c h now st t st'" and inv: "rows_inv st"
  shows "rows_inv st'"
  using assms(1)
proof cases
  case post
  then show ?thesis using rows_inv_post inv by blast
next
  case buy
  then show ?thesis using rows_inv_buy inv by blast
next
  case subscribe
  then show ?thesis using rows_inv_subscribe inv by blast
next
  case unsubscribe
  then show ?thesis using rows_inv_sub inv by (auto simp: cancel_subscription_order_def result_simps)
next
  case sweep
  then show ?thesis using rows_inv_sub inv by (auto simp: swept_state_def split: option.splits if_splits)
next
  case accept
  then show ?thesis using rows_inv_deal [OF stream_ops(1)] inv by blast
next
  case claim
  then show ?thesis using rows_inv_deal [OF claim_op] inv by blast
next
  case promote
  then show ?thesis using rows_inv_deal [OF stream_ops(2)] inv by blast
next
  case week
  then show ?thesis using rows_inv_deal [OF stream_ops(3)] inv by blast
next
  case buyer_stops
  then show ?thesis using rows_inv_deal [OF stop_ops(1)] inv by blast
next
  case addr_stops
  then show ?thesis using rows_inv_deal [OF stop_ops(2)] inv by blast
next
  case seller_stops
  then show ?thesis using rows_inv_deal [OF stream_ops(5)] inv by blast
next
  case disputes
  then show ?thesis using rows_inv_deal [OF dispute_op] inv by blast
next
  case releases
  then show ?thesis using rows_inv_deal [OF stream_ops(6)] inv by blast
next
  case times_out
  then show ?thesis using rows_inv_deal [OF timeout_op] inv by blast
qed (use inv in
    \<open>auto simp: rows_inv_def expire_resting_sell_order_def cancel_resting_sell_order_def open_stream_def
       cleanup_unopened_def result_simps Let_def split: if_splits\<close>)

lemma state_reach_rows: "state_reach c h now st \<Longrightarrow> rows_inv st"
proof (induction rule: state_reach.induct)
  case (start now)
  then show ?case by (simp add: rows_inv_def mock_state_default_def)
qed (rule rows_inv_step)


section \<open>Writing and reading back\<close>

definition reread :: "mock_state \<Rightarrow> mock_state" where
  "reread st = de_state (ser_state st)"

lemma map_rows_id: "rows P m \<Longrightarrow> (\<And>k v. P k v \<Longrightarrow> f v = v) \<Longrightarrow> map_rows f m = m"
  by (induction m) (auto simp: map_rows_def rows_def)

lemma map_rows_map_rows: "map_rows f (map_rows g m) = map_rows (\<lambda>v. f (g v)) m"
  by (simp add: map_rows_def case_prod_beta comp_def)

lemma hm_get_map_rows: "hm_get (map_rows f m) k = map_option f (hm_get m k)"
  by (simp add: hm_get_def map_rows_def map_of_map)

lemma reread_eq:
  "reread st = respell_state (\<lambda>x. de_offer (ser_offer x)) (\<lambda>x. de_match (ser_match x)) (\<lambda>x. de_order (ser_order x)) st"
  by (simp add: reread_def de_state_def ser_state_def respell_state_def map_rows_map_rows)

lemma respell_rows:
  "file_spelling (so_token_contract offer) \<Longrightarrow> de_offer (ser_offer offer) = offer"
  "file_spelling (mt_token_contract m) \<Longrightarrow> de_match (ser_match m) = m"
  "order_row order \<Longrightarrow> de_order (ser_order order) = order"
  using owner_reads_back [OF note_id_lower]
  by (auto simp: de_offer_def ser_offer_def de_match_def ser_match_def file_spelling_def de_order_def ser_order_def
      order_row_def)

text \<open>A state whose contracts are all in the spelling of the file is read back unchanged.\<close>

definition in_file_spelling :: "mock_state \<Rightarrow> bool" where
  "in_file_spelling st \<longleftrightarrow> list_all file_spelling (hm_keys (ms_offer_sellers st))"

lemma in_file_spelling_iff:
  "in_file_spelling st \<longleftrightarrow> (\<forall>tc. hm_contains (ms_offer_sellers st) tc \<longrightarrow> file_spelling tc)"
  by (auto simp: in_file_spelling_def list_all_iff hm_keys_contains)

lemma reread_id:
  assumes rows: "rows_inv st" and "in_file_spelling st"
  shows "reread st = st"
proof -
  have f: "file_spelling tc" if "hm_contains (ms_offer_sellers st) tc" for tc
    using assms(2) that by (simp add: in_file_spelling_iff)
  have o: "de_offer (ser_offer x) = x" if "offer_row (ms_offer_sellers st) tc x" for tc x
    using that f respell_rows(1) by (simp add: offer_row_def)
  have m: "de_match (ser_match x) = x" if "match_row (ms_offer_sellers st) tc x" for tc x
    using that f respell_rows(2) by (simp add: match_row_def)
  have "map_rows (\<lambda>x. de_offer (ser_offer x)) (ms_offers st) = ms_offers st"
    "map_rows (\<lambda>x. de_offer (ser_offer x)) (ms_matched_offers st) = ms_matched_offers st"
    "map_rows (\<lambda>x. de_match (ser_match x)) (ms_matches st) = ms_matches st"
    "map_rows (\<lambda>x. de_order (ser_order x)) (ms_subscription_orders st) = ms_subscription_orders st"
    "map_rows (\<lambda>row. row\<lparr>st_order := de_order (ser_order (st_order row))\<rparr>) (ms_subscription_terminal_orders st)
       = ms_subscription_terminal_orders st"
    using rows o m respell_rows(3) unfolding rows_inv_def by (auto intro: map_rows_id)
  then show ?thesis by (simp add: reread_eq respell_state_def)
qed

lemma load_stored:
  assumes "codec_ok cd"
  shows "load_state cd now (store_state cd st be) =
     and_then (validate_persisted_state (reread st) now) (\<lambda>_. Inr (reread st))"
  using assms by (simp add: load_state_def store_state_def codec_ok_def reread_def Let_def)

text \<open>A deal under any other contract: the match no longer carries its key.\<close>

lemma unsettled_deal_refused:
  assumes "hm_get (ms_deal_subscriptions st) tc = Some sub" and "hm_get (ms_matches st) tc = Some m"
    and "mt_token_contract m = tc" and "\<not> file_spelling tc"
  shows "\<exists>e. validate_persisted_state (reread st) now = Inl e"
proof -
  have "hm_get (ms_matches (reread st)) tc = Some (de_match (ser_match m))"
    using assms(2) by (simp add: reread_eq respell_state_def hm_get_map_rows)
  moreover have "mt_token_contract (de_match (ser_match m)) \<noteq> tc"
    using assms(3,4) by (simp add: de_match_def ser_match_def file_spelling_def)
  moreover have "(tc, sub) \<in> set (ms_deal_subscriptions (reread st))"
    using hm_get_in_set [OF assms(1)] by (simp add: reread_eq respell_state_def)
  moreover from calculation have "validate_persisted_deal_binding (reread st) tc sub x = invalid (Binding MatchKeyDisagrees)" for x
    by (simp add: validate_persisted_deal_binding_def)
  then have "validate_shape_entry (reread st) now (tc, sub) \<noteq> Inr ()"
    by (auto simp: validate_shape_entry_def result_simps)
  ultimately have "validate_persisted_state (reread st) now \<noteq> Inr ()"
    by (auto simp: validate_persisted_state_def result_simps)
  then show ?thesis by (cases "validate_persisted_state (reread st) now") auto
qed

end
