(* ===== verification/BackendProps.thy ===== *)
theory BackendProps
  imports MockFile DealProps MatchCursor
begin

text \<open>
  What the mock backend guarantees across its operations: it accepts every state file it wrote over contracts in the
  spelling of the file and none with a deal under another one, it refuses foreign keys, a matched deal can be opened or cleaned up, a snapshot of
  a reachable deal passes the cross-checks of the read path and shows no anomaly, the watcher
  reports a fill once, and a resting subscription order gives its escrow back exactly once.
\<close>

section \<open>A concrete state\<close>

text \<open>An offer of three ticks at one SHELL, posted, bought in full and opened by \<open>sample_key\<close>.\<close>

definition sample_offer :: sell_offer where
  "sample_offer = \<lparr>so_price_per_tick = 1000000000, so_max_ticks = 3, so_token_contract = ''0:ab'', so_flags = 0\<rparr>"

definition posted_state :: mock_state where
  "posted_state = mock_state_default\<lparr>
     ms_offer_sellers := [(''0:ab'', note_id_hex sample_key)],
     ms_offer_deadlines := [(''0:ab'', 800 + MAX_SELL_TTL)],
     ms_deal_terms := [(''0:ab'', (1000000000, 3))],
     ms_offers := [(''0:ab'', sample_offer)]\<rparr>"

definition matched_state :: mock_state where
  "matched_state = posted_state\<lparr>
     ms_offers := [], ms_matched_offers := [(''0:ab'', sample_offer)], ms_matched_ticks := [(''0:ab'', 3)],
     ms_deal_subscriptions := [(''0:ab'', plain_shape)], ms_matches := [(''0:ab'', sample_match)],
     ms_match_created_at := [(''0:ab'', 900)]\<rparr>"

definition opened_state :: mock_state where
  "opened_state = matched_state\<lparr>ms_streams := [(''0:ab'', plain_cell)]\<rparr>"

lemma sample_key_typed: "pubkey_typed sample_key"
  by (simp add: pubkey_typed_def sample_key_def)

lemma sample_offer_valid: "offer_inv canonical_consts ''0:ab'' sample_offer"
  by (simp add: offer_inv_def sample_offer_def validate_mock_sell_offer_def Let_def has_flag_def
      MIN_STREAM_BUY_TICKS_def PRICE_STEP_def checked_mul_def TICK_SIZE_def u64_max_def u128_max_def
      token_pay_and_fee_eq canonical_consts_typed sample_cost add_u128_def checked_add_def
      pay_for_def fee_on_def)

lemmas map_eval = hm_get_def hm_insert_def hm_remove_def hm_contains_def hm_or_insert_def

lemma sample_posts: "post_offer sample_offer sample_key 800 mock_state_default = Inr ((), Some posted_state)"
  by (simp add: post_offer_def posted_state_def mock_state_default_def sample_offer_def Let_def map_eval
      wrapping_add_def u64_max_def MAX_SELL_TTL_def)

lemma sample_buys:
  "place_buy_ticks_inner ''0:ab'' sample_key None 900 900 posted_state = Inr ((), Some matched_state)"
  by (simp add: place_buy_ticks_inner_def matched_state_def posted_state_def mock_state_default_def Let_def
      map_eval sample_offer_def mock_deal_shape_def has_flag_def MIN_STREAM_BUY_TICKS_def checked_mul_def
      TICK_SIZE_def u128_max_def plain_shape_def sample_match_def mock_now_unix_def)

lemma sample_opens:
  "open_stream ''0:ab'' sample_key 1000 canonical_consts matched_state = Inr ((), Some opened_state)"
  by (simp add: open_stream_def require_mock_seller_actor_def read_match_def opened_state_def matched_state_def
      posted_state_def mock_state_default_def map_eval plain_opens)

lemma sample_state_reach:
  "state_reach canonical_consts h 800 posted_state" "state_reach canonical_consts h 900 matched_state"
  "state_reach canonical_consts h 1000 opened_state"
proof -
  show p: "state_reach canonical_consts h 800 posted_state"
  proof (rule state_reach.stored [OF state_reach.start])
    have tc: "so_token_contract sample_offer = ''0:ab''" by (simp add: sample_offer_def)
    show "state_step canonical_consts h 0 mock_state_default 800 posted_state"
      by (rule state_step.post [OF _ sample_key_typed _ sample_posts]) (simp_all add: tc sample_offer_valid)
  qed
  show m: "state_reach canonical_consts h 900 matched_state"
    by (rule state_reach.stored [OF p]) (rule state_step.buy [OF _ _ _ _ sample_buys]; simp)
  show "state_reach canonical_consts h 1000 opened_state"
    by (rule state_reach.stored [OF m]) (rule state_step.open_deal [OF _ _ sample_opens]; simp)
qed

text \<open>A codec: bytes that are whole values.\<close>

definition raw_codec :: "(mock_state + (token_contract, u8 list) hmap) codec" where
  "raw_codec =
     \<lparr>cd_encode_state = (\<lambda>st. [Inl st]),
      cd_decode_state = (\<lambda>bs. case bs of [Inl st] \<Rightarrow> Some st | _ \<Rightarrow> None),
      cd_encode_endpoints = (\<lambda>ef. [Inr ef]),
      cd_decode_endpoints = (\<lambda>bs. case bs of [Inr ef] \<Rightarrow> Some ef | _ \<Rightarrow> None)\<rparr>"

lemma raw_codec_ok: "codec_ok raw_codec"
  by (simp add: codec_ok_def raw_codec_def)


section \<open>The state file\<close>

lemma load_reachable:
  assumes reach: "state_reach c h now st" and "consts_typed c" and "codec_ok cd" and "now \<le> later"
    and "in_file_spelling st"
  shows "load_state cd later (store_state cd st be) = Inr st"
  using state_inv_valid [OF state_inv_later [OF state_reach_inv [OF assms(1,2)] assms(4)]]
    reread_id [OF state_reach_rows [OF reach] assms(5)]
  by (simp add: load_stored [OF assms(3)])

text \<open>
  Claim C6: the backend never refuses its own file, over contracts in the spelling of the file.  Whatever sequence of
  operations produced a state, if every contract that was ever posted is spelled the way the file codec reads it back (the
  lower-case workchain form, or trimmed text that is no address), then storing the state, with the respelling of its
  address fields, and loading it at any later time gives the state back: it passes the whole validation of
  persisted states, for every contract, match, shape and stream in it.  All that is assumed of the JSON library is its
  own round trip.
\<close>

theorem own_file_always_loads:
  assumes "state_reach c h now st" and "consts_typed c" and "codec_ok cd" and "now \<le> later"
    and "in_file_spelling st"
  shows "load_state cd later (store_state cd st be) = Inr st"
  using assms by (rule load_reachable)

lemma sample_spelling: "in_file_spelling posted_state" "in_file_spelling matched_state" "in_file_spelling opened_state"
proof -
  have "file_spelling ''0:ab''"
    by (simp add: file_spelling_iff parse_address_def str_trim_def is_ascii_whitespace_def strip_prefix_def is_hex64_def)
  then show "in_file_spelling posted_state" "in_file_spelling matched_state" "in_file_spelling opened_state"
    by (simp_all add: in_file_spelling_def hm_keys_def opened_state_def matched_state_def posted_state_def)
qed

theorem own_file_always_loads_witness:
  "load_state raw_codec 5000 (store_state raw_codec opened_state \<lparr>be_state_file = None, be_endpoints_file = None\<rparr>)
     = Inr opened_state"
  using own_file_always_loads [OF sample_state_reach(3) canonical_consts_typed raw_codec_ok _ sample_spelling(3)] by simp

lemma buy_stores: "place_buy_ticks_inner tc key ticks t1 t2 st \<noteq> Inr (u, None)"
  by (auto simp: place_buy_ticks_inner_def Let_def result_simps split: if_splits)

text \<open>
  Claim C39: a deal under a contract in any other spelling locks the backend.  The key of the deal keeps the spelling it
  was given, the contract in the match is respelled by the file codec, and validation compares the two.  So a buy that succeeds under
  such a contract leaves a file that every later call refuses, whatever it asks for, and that no
  call changes any more.
\<close>

theorem respelled_contract_locks_backend:
  assumes "codec_ok cd" and "\<not> file_spelling tc"
    and buy: "with_state cd now (place_buy_ticks_inner tc key ticks t1 t2) be = (be', Inr ())"
  shows "\<exists>e. load_state cd later be' = Inl e \<and> with_state cd later f be' = (be', Inl e)"
proof -
  obtain st st' where st': "place_buy_ticks_inner tc key ticks t1 t2 st = Inr ((), Some st')" "be' = store_state cd st' be"
    using buy buy_stores by (fastforce simp: with_state_def split: sum.splits option.splits prod.splits)
  obtain sub m where "hm_get (ms_deal_subscriptions st') tc = Some sub" "hm_get (ms_matches st') tc = Some m"
      "mt_token_contract m = tc"
    using st'(1) by (auto simp: place_buy_ticks_inner_def Let_def result_simps hm_simps split: if_splits)
  then obtain e where "load_state cd later be' = Inl e"
    using unsettled_deal_refused [OF _ _ _ assms(2), of st' sub m later] st'(2) by (auto simp: load_stored [OF assms(1)])
  then show ?thesis by (auto simp: with_state_def)
qed

theorem respelled_contract_locks_backend_witness:
  "let tc = ''0:'' @ replicate 64 (CHR ''A''); be = \<lparr>be_state_file = None, be_endpoints_file = None\<rparr> in
   \<exists>be1 be2 e. backend_post_offer raw_codec canonical_consts (sample_offer\<lparr>so_token_contract := tc\<rparr>) sample_key 800 800 be
         = (be1, Inr ())
     \<and> with_state raw_codec 900 (place_buy_ticks_inner tc sample_key None 900 900) be1 = (be2, Inr ())
     \<and> load_state raw_codec 1000 be2 = Inl e"
proof -
  define tc where "tc = ''0:'' @ replicate 64 (CHR ''A'')"
  define offer where "offer = sample_offer\<lparr>so_token_contract := tc\<rparr>"
  define st where "st = mock_state_default\<lparr>ms_offer_sellers := [(tc, note_id_hex sample_key)],
     ms_offer_deadlines := [(tc, 800 + MAX_SELL_TTL)], ms_deal_terms := [(tc, (1000000000, 3))], ms_offers := [(tc, offer)]\<rparr>"
  define be where "be = \<lparr>be_state_file = None :: (mock_state + (token_contract, u8 list) hmap) list option, be_endpoints_file = None\<rparr>"
  have "validate_mock_sell_offer sample_offer canonical_consts = Inr ()"
    using sample_offer_valid by (simp add: offer_inv_def)
  then have valid: "validate_mock_sell_offer offer canonical_consts = Inr ()"
    by (simp add: offer_def validate_mock_sell_offer_def)
  have "post_offer offer sample_key 800 mock_state_default = Inr ((), Some st)"
    by (simp add: post_offer_def st_def mock_state_default_def offer_def sample_offer_def Let_def map_eval
        wrapping_add_def u64_max_def MAX_SELL_TTL_def)
  then have post: "backend_post_offer raw_codec canonical_consts offer sample_key 800 800 be = (store_state raw_codec st be, Inr ())"
    by (simp add: backend_post_offer_def valid with_state_def load_state_def be_def)
  have reread: "reread st = st\<lparr>ms_offers := [(tc, de_offer (ser_offer offer))]\<rparr>"
    by (simp add: reread_eq respell_state_def map_rows_def st_def mock_state_default_def)
  have load: "load_state raw_codec 900 (store_state raw_codec st be) = Inr (reread st)"
    by (simp add: load_stored [OF raw_codec_ok] validate_persisted_state_def reread)
      (simp add: st_def mock_state_default_def hm_keys_def)
  have "\<exists>st'. place_buy_ticks_inner tc sample_key None 900 900 (reread st) = Inr ((), Some st')"
    unfolding reread
    by (simp add: place_buy_ticks_inner_def st_def mock_state_default_def Let_def de_offer_def ser_offer_def offer_def
        map_eval sample_offer_def mock_deal_shape_def has_flag_def MIN_STREAM_BUY_TICKS_def checked_mul_def
        TICK_SIZE_def u128_max_def)
  then obtain be2 where buy: "with_state raw_codec 900 (place_buy_ticks_inner tc sample_key None 900 900)
      (store_state raw_codec st be) = (be2, Inr ())"
    by (auto simp: with_state_def load)
  have "\<not> file_spelling tc" unfolding tc_def by (rule upper_not_in_file_spelling)
  from respelled_contract_locks_backend [OF raw_codec_ok this buy, of 1000] post buy
  show ?thesis unfolding Let_def tc_def [symmetric] offer_def [symmetric] be_def [symmetric] by blast
qed

text \<open>
  Claim C38: opening a stream is not atomic.  When the endpoints file cannot be decoded,
  \<open>open_stream\<close> reports an error although the stream is already stored as open; the handover is
  never written, and every retry is refused because the stream exists.  The contracts of the state are in the spelling of the file.
\<close>

theorem open_stream_half_done:
  assumes reach: "state_reach c h now st" and "consts_typed c" and "codec_ok cd" and spelling: "in_file_spelling st"
    and stored: "be_state_file be = Some (cd_encode_state cd (ser_state st))"
    and bad: "be_endpoints_file be = Some bytes" "bytes \<noteq> []" "cd_decode_endpoints cd bytes = None"
    and ok: "open_stream tc key t c st = Inr ((), Some st')" and t: "now \<le> t" "0 < t" "t \<le> t'"
  shows "\<exists>be'. backend_open_stream cd c tc ep key now t be = (be', Inl (invalid_persisted_state (State Undecodable)))
     \<and> load_state cd t' be' = Inr st' \<and> hm_contains (ms_streams st') tc
     \<and> be_endpoints_file be' = Some bytes
     \<and> backend_open_stream cd c tc ep' key t' t'' be' = (be', Inl (chain_err (Deal StreamExists)))"
proof -
  define be' where "be' = store_state cd st' be"
  have step: "state_reach c h t st'" using state_reach.stored [OF reach state_step.open_deal [OF t(1,2) ok]] .
  have "be = store_state cd st be" using stored by (simp add: store_state_def)
  then have load: "load_state cd now be = Inr st"
    using load_reachable [OF reach assms(2,3) _ spelling, of now be] by simp
  have rows: "hm_contains (ms_streams st') tc" "ms_offer_sellers st' = ms_offer_sellers st"
    and seller: "require_mock_seller_actor st tc key DoOpen = Inr ()"
    using ok by (auto simp: open_stream_def result_simps hm_contains_iff hm_simps split: if_splits)
  have "in_file_spelling st'" using spelling rows(2) by (simp add: in_file_spelling_def)
  then have load': "load_state cd t' be' = Inr st'"
    unfolding be'_def by (rule load_reachable [OF step assms(2,3) t(3)])
  have "open_stream tc key t'' c st' = Inl (chain_err (Deal StreamExists))"
    using rows seller by (simp add: open_stream_def require_mock_seller_actor_def)
  then have "backend_open_stream cd c tc ep' key t' t'' be' = (be', Inl (chain_err (Deal StreamExists)))"
    using load' by (simp add: backend_open_stream_def with_state_def)
  moreover have "backend_open_stream cd c tc ep key now t be = (be', Inl (invalid_persisted_state (State Undecodable)))"
    using load ok bad by (simp add: backend_open_stream_def with_state_def read_endpoints_def be'_def store_state_def)
  ultimately show ?thesis using load' rows bad by (auto simp: be'_def store_state_def)
qed

theorem open_stream_half_done_witness:
  "let be = \<lparr>be_state_file = Some [Inl (ser_state matched_state)], be_endpoints_file = Some [Inl mock_state_default]\<rparr> in
   \<exists>be'. backend_open_stream raw_codec canonical_consts ''0:ab'' [] sample_key 900 1000 be
          = (be', Inl (invalid_persisted_state (State Undecodable)))
        \<and> load_state raw_codec 1100 be' = Inr opened_state"
  using open_stream_half_done [OF sample_state_reach(2) canonical_consts_typed raw_codec_ok sample_spelling(2) _ _ _ _ sample_opens,
      of "\<lparr>be_state_file = Some [Inl (ser_state matched_state)], be_endpoints_file = Some [Inl mock_state_default]\<rparr>"
      "[Inl mock_state_default]" 1100 "[]" "[]" 1100]
  by (auto simp: raw_codec_def Let_def)


section \<open>Who may act\<close>

lemma seller_actor_Inr:
  "require_mock_seller_actor st tc key a = Inr u \<longleftrightarrow> hm_get (ms_offer_sellers st) tc = Some (note_id_hex key)"
  by (auto simp: require_mock_seller_actor_def result_simps)

lemma buyer_actor_Inr:
  "require_mock_buyer_actor st tc key a = Inr u \<longleftrightarrow>
     (\<exists>cell. hm_get (ms_streams st) tc = Some cell \<and> pk_ed key = pk_ed (sc_buyer_pubkey cell))"
  by (auto simp: require_mock_buyer_actor_def result_simps note_id_hex_inj)

lemma stream_of_match:
  assumes "state_inv c now st" and "hm_get (ms_streams st) tc = Some cell"
  shows "\<exists>m sub. hm_get (ms_matches st) tc = Some m \<and> hm_get (ms_deal_subscriptions st) tc = Some sub
     \<and> deal_inv c now cell sub \<and> sc_buyer_pubkey cell = mt_buyer_pubkey m \<and> sc_price cell = mt_price_per_tick m"
proof -
  obtain m where m: "hm_get (ms_matches st) tc = Some m" "match_inv c now st tc m"
    using state_inv_matched [OF assms(1), of tc] assms(2) by auto
  then show ?thesis using assms(2) by (auto simp: match_inv_def stream_bound_def)
qed

text \<open>
  A contract keeps its seller.  Once an offer was posted under a contract, no later
  operation of anybody rebinds the contract or rewrites the terms it was posted with: cleaning
  up, cancelling and expiring included.
\<close>

theorem seller_never_rebound:
  assumes "state_step c h now st t st'" and "hm_get (ms_offer_sellers st) tc = Some seller"
    and "hm_get (ms_deal_terms st) tc = Some terms"
  shows "hm_get (ms_offer_sellers st') tc = Some seller \<and> hm_get (ms_deal_terms st') tc = Some terms"
proof -
  have op: "hm_get (ms_offer_sellers st') tc = Some seller \<and> hm_get (ms_deal_terms st') tc = Some terms"
    if "deal_op c x st e st'" for x e
    using that assms(2,3) by (auto simp: deal_op_def put_deal_def)
  have sub: "hm_get (ms_offer_sellers st') tc = Some seller \<and> hm_get (ms_deal_terms st') tc = Some terms"
    if "st' = remove_subscription_order_from_book i r n st" for i r n
    using that assms(2,3) by (auto simp: remove_subscription_order_from_book_def split: option.splits)
  from assms(1) show ?thesis
  proof cases
    case (unsubscribe ob i key x)
    then show ?thesis using sub by (auto simp: cancel_subscription_order_def result_simps)
  next
    case (sweep i)
    then show ?thesis using sub by (auto simp: swept_state_def split: option.splits if_splits)
  next
    case (post offer key u)
    then show ?thesis
      using assms(2,3) by (auto simp: post_offer_def Let_def hm_simps split: if_splits option.splits)
  next
    case accept
    then show ?thesis using op [OF stream_ops(1)] by blast
  next
    case claim
    then show ?thesis using op [OF claim_op] by blast
  next
    case promote
    then show ?thesis using op [OF stream_ops(2)] by blast
  next
    case week
    then show ?thesis using op [OF stream_ops(3)] by blast
  next
    case buyer_stops
    then show ?thesis using op [OF stop_ops(1)] by blast
  next
    case addr_stops
    then show ?thesis using op [OF stop_ops(2)] by blast
  next
    case seller_stops
    then show ?thesis using op [OF stream_ops(5)] by blast
  next
    case disputes
    then show ?thesis using op [OF dispute_op] by blast
  next
    case releases
    then show ?thesis using op [OF stream_ops(6)] by blast
  next
    case times_out
    then show ?thesis using op [OF timeout_op] by blast
  qed (use assms(2,3) in
      \<open>auto simp: expire_resting_sell_order_def cancel_resting_sell_order_def place_buy_ticks_inner_def
         open_stream_def cleanup_unopened_def place_subscription_order_def result_simps Let_def
         split: if_splits\<close>)
qed

theorem seller_never_rebound_witness:
  "hm_get (ms_offer_sellers opened_state) ''0:ab'' = Some (note_id_hex sample_key)
   \<and> hm_get (ms_deal_terms opened_state) ''0:ab'' = Some (1000000000, 3)"
  using seller_never_rebound [OF state_step.open_deal [OF _ _ sample_opens, of 900], of "''0:ab''" "note_id_hex sample_key"]
  by (simp add: matched_state_def posted_state_def hm_get_def)


lemma seller_kept:
  assumes "state_run c h now st t st'" and "hm_get (ms_offer_sellers st) tc = Some seller"
    and "hm_get (ms_deal_terms st) tc = Some terms"
  shows "hm_get (ms_offer_sellers st') tc = Some seller \<and> hm_get (ms_deal_terms st') tc = Some terms"
  using assms by (induction rule: state_run.induct) (use seller_never_rebound in blast)+

lemma posted_rows:
  assumes "post_offer offer poster t st = Inr (u, Some st')"
  shows "hm_get (ms_offer_sellers st') (so_token_contract offer) = Some (note_id_hex poster)"
    and "\<exists>terms. hm_get (ms_deal_terms st') (so_token_contract offer) = Some terms"
  using assms by (auto simp: post_offer_def Let_def hm_simps split: if_splits option.splits)

text \<open>
  Claim C9: four operations check who asks, and let nobody else through.  Whatever happened since the offer was posted,
  opening the stream and claiming tokens are refused, as the wrong actor, to every key other than the one
  that posted the offer of the contract; stopping the stream and disputing it are refused, as the wrong actor, to
  every key other than the buyer's in the match.  The other operations of the backend (accepting the probe, promoting,
  settling a week, the seller's stop, the release of a dispute, its timeout, the clean-up) take no key: anybody may call
  them.
\<close>

theorem foreign_keys_refused:
  assumes reach: "state_reach c h t1 st1" and typed: "consts_typed c"
    and posted: "post_offer offer poster t0 st0 = Inr (u, Some st1)" and run: "state_run c h t1 st1 now st"
    and tc: "tc = so_token_contract offer"
  shows "(pk_ed key \<noteq> pk_ed poster \<longrightarrow>
            open_stream tc key t c st = Inl (chain_err (WrongActor DoOpen))
            \<and> claim_tokens tc key n t t' c st = Inl (chain_err (WrongActor DoClaim)))
     \<and> (hm_contains (ms_streams st) tc \<longrightarrow>
          (\<exists>m. hm_get (ms_matches st) tc = Some m
             \<and> (pk_ed key \<noteq> pk_ed (mt_buyer_pubkey m) \<longrightarrow>
                  stop tc key t t' c st = Inl (chain_err (WrongActor DoStop))
                  \<and> dispute tc key t st = Inl (chain_err (WrongActor DoDispute)))))"
proof -
  have seller: "hm_get (ms_offer_sellers st) tc = Some (note_id_hex poster)"
    using posted_rows [OF posted] seller_kept [OF run] tc by blast
  have "\<exists>m. hm_get (ms_matches st) tc = Some m
      \<and> (pk_ed key \<noteq> pk_ed (mt_buyer_pubkey m) \<longrightarrow>
           stop tc key t t' c st = Inl (chain_err (WrongActor DoStop))
           \<and> dispute tc key t st = Inl (chain_err (WrongActor DoDispute)))"
    if strm: "hm_contains (ms_streams st) tc"
  proof -
    obtain cell where cell: "hm_get (ms_streams st) tc = Some cell" using strm by (auto simp: hm_contains_iff)
    then obtain m where "hm_get (ms_matches st) tc = Some m" "sc_buyer_pubkey cell = mt_buyer_pubkey m"
      using stream_of_match [OF state_reach_inv [OF state_run_reach [OF run reach] typed]] by blast
    then show ?thesis
      using cell by (auto simp: stop_def dispute_def require_mock_buyer_actor_def note_id_hex_inj ensure_def)
  qed
  then show ?thesis
    using seller by (auto simp: open_stream_def claim_tokens_def require_mock_seller_actor_def note_id_hex_inj ensure_def)
qed

theorem foreign_keys_refused_witness:
  "let key = \<lparr>pk_x = replicate 32 9, pk_ed = replicate 32 8\<rparr> in
   open_stream ''0:ab'' key 1000 canonical_consts matched_state = Inl (chain_err (WrongActor DoOpen))
   \<and> claim_tokens ''0:ab'' key 1 1100 1100 canonical_consts opened_state = Inl (chain_err (WrongActor DoClaim))
   \<and> stop ''0:ab'' key 1100 1100 canonical_consts opened_state = Inl (chain_err (WrongActor DoStop))
   \<and> dispute ''0:ab'' key 1100 opened_state = Inl (chain_err (WrongActor DoDispute))"
proof -
  let ?key = "\<lparr>pk_x = replicate 32 9, pk_ed = replicate 32 8\<rparr> :: note_pubkey" and ?h = "\<lambda>_. 0 :: nat"
  have matched: "state_run canonical_consts ?h 800 posted_state 900 matched_state"
    by (rule state_run.later [OF state_run.here]) (rule state_step.buy [OF _ _ _ _ sample_buys]; simp)
  then have opened: "state_run canonical_consts ?h 800 posted_state 1000 opened_state"
    by (rule state_run.later) (rule state_step.open_deal [OF _ _ sample_opens]; simp)
  have key: "pk_ed ?key \<noteq> pk_ed sample_key" by (simp add: sample_key_def)
  have rows: "hm_contains (ms_streams opened_state) ''0:ab''" "hm_get (ms_matches opened_state) ''0:ab'' = Some sample_match"
    "mt_buyer_pubkey sample_match = sample_key" "so_token_contract sample_offer = ''0:ab''"
    by (simp_all add: opened_state_def matched_state_def map_eval sample_match_def sample_offer_def)
  note refused = foreign_keys_refused [OF sample_state_reach(1) canonical_consts_typed sample_posts _ rows(4) [symmetric]]
  show ?thesis
    using refused [OF matched, of ?key 1000 0 0] refused [OF opened, of ?key 1100 1 1100] key rows by (simp add: Let_def)
qed


section \<open>No matched deal is stuck\<close>

lemma offer_cost_fits:
  assumes "offer_inv c tc offer" and "consts_typed c" and "k \<le> so_max_ticks offer"
  shows "cost_of c (so_price_per_tick offer) (k * TICK_SIZE) \<le> u128_max"
proof -
  let ?p = "so_price_per_tick offer" and ?n = "so_max_ticks offer * TICK_SIZE"
  obtain pay fee where "token_pay_and_fee ?n ?p c = Inr (pay, fee)" and "pay + fee \<le> u128_max"
    using assms(1)
    by (auto simp: offer_inv_def validate_mock_sell_offer_def Let_def result_simps checked_simps add_u128_Inr
        split: if_splits)
  moreover have "?p \<le> u64_max" using assms(1) by (simp add: offer_inv_def)
  ultimately have "cost_of c ?p ?n \<le> u128_max"
    using token_pay_and_fee_Inr [OF _ assms(2)] by (simp add: cost_of_def)
  moreover have "cost_of c ?p (k * TICK_SIZE) \<le> cost_of c ?p ?n"
    using assms(3) by (intro cost_of_mono mult_le_mono1)
  ultimately show ?thesis by simp
qed

text \<open>The rows of a match whose stream has not been opened.\<close>

lemma unopened_rows:
  assumes inv: "state_inv c now st" and m: "hm_get (ms_matches st) tc = Some m"
    and none: "hm_get (ms_streams st) tc = None"
  obtains offer k sub at where "hm_get (ms_matched_offers st) tc = Some offer"
    "hm_get (ms_matched_ticks st) tc = Some k" "hm_get (ms_deal_subscriptions st) tc = Some sub"
    "hm_get (ms_match_created_at st) tc = Some at" "fill_bound c now tc m offer k sub at" "fresh_shape sub"
  using state_inv_match [OF inv m] none by (auto simp: match_inv_def stream_bound_def)

lemma unopened_cost_fits:
  assumes "fill_bound c now tc m offer k sub at" and "consts_typed c"
  shows "cost_of c (mt_price_per_tick m) (ds_funded_tokens sub) \<le> u128_max" and "mt_price_per_tick m \<le> u64_max"
  using assms offer_cost_fits [of c tc offer k] by (auto simp: fill_bound_def offer_inv_def)

text \<open>
  Claim C29: a matched deal can always be opened by its seller, exactly until it is opened: the
  escrow of the offer was checked when the offer was posted, so no price and no volume of an
  accepted match makes the opening fail.
\<close>

theorem matched_deal_opens:
  assumes reach: "state_reach c h now st" and typed: "consts_typed c"
    and m: "hm_get (ms_matches st) tc = Some m"
    and seller: "hm_get (ms_offer_sellers st) tc = Some (note_id_hex key)"
  shows "is_ok (open_stream tc key t c st) \<longleftrightarrow> hm_get (ms_streams st) tc = None"
proof (cases "hm_get (ms_streams st) tc")
  case None
  have inv: "state_inv c now st" using state_reach_inv [OF reach typed] .
  obtain offer k sub at where "hm_get (ms_matched_offers st) tc = Some offer"
    and rows: "hm_get (ms_matched_ticks st) tc = Some k" "hm_get (ms_deal_subscriptions st) tc = Some sub"
    and "hm_get (ms_match_created_at st) tc = Some at"
    and f: "fill_bound c now tc m offer k sub at" "fresh_shape sub"
    by (rule unopened_rows [OF inv m None])
  have "is_ok (open_cell m k sub t c)"
    using unopened_cost_fits [OF f(1) typed] f(2) by (intro open_cell_eq typed) (simp_all add: fresh_shape_def)
  then obtain cell where "open_cell m k sub t c = Inr cell" by (auto simp: is_ok_def split: sum.splits)
  then show ?thesis
    using None m seller rows(1,2)
    by (simp add: open_stream_def require_mock_seller_actor_def read_match_def hm_contains_def)
next
  case (Some cell)
  then show ?thesis using seller by (simp add: open_stream_def require_mock_seller_actor_def hm_contains_def)
qed

theorem matched_deal_opens_witness:
  "is_ok (open_stream ''0:ab'' sample_key 1000 canonical_consts matched_state)"
  using matched_deal_opens [OF sample_state_reach(2) canonical_consts_typed, of "''0:ab''" sample_match sample_key 1000]
  by (simp add: matched_state_def posted_state_def mock_state_default_def hm_get_def)

lemma unopened_state_eq:
  assumes inv: "state_inv c now st" and typed: "consts_typed c" and m: "hm_get (ms_matches st) tc = Some m"
    and none: "hm_get (ms_streams st) tc = None" and f: "fill_bound c now tc m offer k sub at"
    and at: "hm_get (ms_match_created_at st) tc = Some at" and sub: "hm_get (ms_deal_subscriptions st) tc = Some sub"
  shows "mock_deal_state st tc c = Inr (Some \<lparr>dc_funded = True, dc_opened = False, dc_probe_accepted = False,
     dc_disputed = False, dc_deposit = cost_of c (mt_price_per_tick m) (ds_funded_tokens sub), dc_finalized_owed = 0,
     dc_tokens_final = 0, dc_tokens_pending = 0, dc_probe_tick = 0, dc_funded_time = Some (nat at), dc_probe_time = 0,
     dc_last_claim_time = nat at, dc_dispute_time = 0\<rparr>)"
proof -
  note cf = unopened_cost_fits [OF f typed]
  let ?pay = "pay_for (mt_price_per_tick m) (ds_funded_tokens sub)"
  have "token_pay_and_fee (ds_funded_tokens sub) (mt_price_per_tick m) c = Inr (?pay, fee_on c ?pay)"
    using token_pay_and_fee_eq [OF cf(2) typed cf(1)] .
  moreover have "add_u128 ?pay (fee_on c ?pay) e = Inr (cost_of c (mt_price_per_tick m) (ds_funded_tokens sub))" for e
    using cf(1) by (simp add: add_u128_def checked_add_def cost_of_def)
  moreover have "mock_funded_time st tc = Inr (nat at)"
    using f at by (simp add: mock_funded_time_def fill_bound_def)
  ultimately show ?thesis
    using m none sub by (simp add: mock_deal_state_def hm_contains_def)
qed

lemma unopened_state:
  assumes "state_inv c now st" and "consts_typed c" and "hm_get (ms_matches st) tc = Some m"
    and "hm_get (ms_streams st) tc = None" and "fill_bound c now tc m offer k sub at"
    and "hm_get (ms_match_created_at st) tc = Some at" and "hm_get (ms_deal_subscriptions st) tc = Some sub"
  shows "\<exists>state. mock_deal_state st tc c = Inr (Some state) \<and> dc_funded state \<and> \<not> dc_opened state
     \<and> dc_deposit state = cost_of c (mt_price_per_tick m) (ds_funded_tokens sub)
     \<and> dc_funded_time state = Some (nat at) \<and> dc_probe_tick state = 0"
  using unopened_state_eq [OF assms] by simp

text \<open>
  Claim C30: a match that is never opened never holds the money for good.  Once the opening
  timeout after the match has passed, cleaning up succeeds: the buyer gets back the whole deposit
  with its fee and, on a subscription, the bond; the seller gets back the bond of two ticks; and
  afterwards the contract is free, so its own seller, and no other, can post an offer under it again.  The deposit and the
  bond together, and the time, are to fit their integer types.
\<close>

theorem unopened_match_cleans_up:
  assumes reach: "state_reach c h now st" and typed: "consts_typed c"
    and m: "hm_get (ms_matches st) tc = Some m" and none: "hm_get (ms_streams st) tc = None"
    and at: "hm_get (ms_match_created_at st) tc = Some at" and t: "nat at + MATCH_OPEN_TIMEOUT_SECS \<le> t" "t \<le> u64_max"
    and sub: "hm_get (ms_deal_subscriptions st) tc = Some sub"
    and fits: "cost_of c (mt_price_per_tick m) (ds_funded_tokens sub) + 2 * mt_price_per_tick m \<le> u128_max"
  shows "\<exists>st'. cleanup_unopened tc t c st =
       Inr (SellerNoShow (cost_of c (mt_price_per_tick m) (ds_funded_tokens sub)
              + (if is_subscription sub then 2 * mt_price_per_tick m else 0)) (2 * mt_price_per_tick m), Some st')
     \<and> unmatched st' tc \<and> hm_get (ms_matches st') tc = None
     \<and> (\<forall>offer key. so_token_contract offer = tc \<longrightarrow>
          (is_ok (post_offer offer key t st') \<longleftrightarrow> hm_get (ms_offer_sellers st) tc = Some (note_id_hex key)))"
proof -
  have inv: "state_inv c now st" using state_reach_inv [OF reach typed] .
  obtain offer k where f: "fill_bound c now tc m offer k sub at"
    using state_inv_match [OF inv m] at sub by (auto simp: match_inv_def)
  have bound: "seller_bound st tc" "hm_get (ms_offers st) tc = None"
    using inv m by (auto simp: state_inv_def contract_inv_def match_inv_def dest!: spec [of _ tc])
  let ?cost = "cost_of c (mt_price_per_tick m) (ds_funded_tokens sub)"
  define st' where "st' = st\<lparr>
            ms_matches := hm_remove tc (ms_matches st),
            ms_match_created_at := hm_remove tc (ms_match_created_at st),
            ms_matched_offers := hm_remove tc (ms_matched_offers st),
            ms_matched_ticks := hm_remove tc (ms_matched_ticks st),
            ms_deal_subscriptions := hm_remove tc (ms_deal_subscriptions st)\<rparr>"
  obtain state where state: "mock_deal_state st tc c = Inr (Some state)" "dc_deposit state = ?cost"
      "dc_funded_time state = Some (nat at)"
    using unopened_state [OF inv typed m none f at sub] by blast
  have "checked_mul u128_max (mt_price_per_tick m) 2 = Some (2 * mt_price_per_tick m)"
    using fits by (simp add: checked_mul_def)
  moreover have "checked_add u64_max (nat at) MATCH_OPEN_TIMEOUT_SECS = Some (nat at + MATCH_OPEN_TIMEOUT_SECS)"
    using t by (simp add: checked_add_def)
  ultimately have "cleanup_unopened tc t c st =
      Inr (SellerNoShow (?cost + (if is_subscription sub then 2 * mt_price_per_tick m else 0))
             (2 * mt_price_per_tick m), Some st')"
    unfolding cleanup_unopened_def
    using m none sub state t fits by (simp add: hm_contains_def Let_def add_u128_ok st'_def)
  moreover have "unmatched st' tc" "hm_get (ms_matches st') tc = None"
    using none by (simp_all add: unmatched_def st'_def hm_simps)
  moreover have "is_ok (post_offer offer key t st') \<longleftrightarrow> hm_get (ms_offer_sellers st) tc = Some (note_id_hex key)"
    if "so_token_contract offer = tc" for offer key
    using that bound none
    by (auto simp: post_offer_def seller_bound_def st'_def hm_simps hm_contains_def Let_def)
  ultimately show ?thesis by blast
qed

theorem unopened_match_cleans_up_witness:
  "\<exists>st'. cleanup_unopened ''0:ab'' 10000 canonical_consts matched_state
       = Inr (SellerNoShow 3075000000 2000000000, Some st') \<and> unmatched st' ''0:ab''"
  using unopened_match_cleans_up [OF sample_state_reach(2) canonical_consts_typed,
      of "''0:ab''" sample_match 900 10000 plain_shape]
  by (force simp: matched_state_def posted_state_def mock_state_default_def hm_get_def sample_match_def
      plain_shape_def MATCH_OPEN_TIMEOUT_SECS_def u64_max_def u128_max_def sample_cost is_subscription_def)


section \<open>Reading a deal\<close>

definition snapshot_of_deal :: "token_contract \<Rightarrow> deal_chain_state \<Rightarrow> deal_subscription \<Rightarrow> nat \<Rightarrow> nat \<Rightarrow> nat \<Rightarrow> deal_chain_snapshot" where
  "snapshot_of_deal tc state sub required held buyer_held =
     \<lparr>cs_account_code_hash = ''mock-token-contract'', cs_account_boc_hash = ''mock:'' @ tc, cs_state = state,
      cs_subscription = sub,
      cs_seller_bond = \<lparr>sb_bond_funded = True, sb_bond_held = held, sb_bond_required = required\<rparr>,
      cs_buyer_bond = \<lparr>bb_bond_held = buyer_held, bb_bond_required = (if is_subscription sub then required else 0)\<rparr>\<rparr>"

lemma snapshot_valid:
  assumes "shape_inv sub" and "0 < required" and "held \<le> required" "buyer_held \<le> required"
    and "dc_opened state \<longrightarrow> dc_funded state \<and> held = required"
    and "dc_funded state \<and> \<not> is_stopped state \<and> is_subscription sub \<longrightarrow> buyer_held = required"
  shows "validate_cross_getter_invariants (snapshot_of_deal tc state sub required held buyer_held) = Inr ()"
  using assms
  by (auto simp: validate_cross_getter_invariants_def snapshot_of_deal_def Let_def shape_inv_def ensure_def)

text \<open>What the getters say of a stored stream.\<close>

definition cell_state :: "nat \<Rightarrow> stream_cell \<Rightarrow> deal_chain_state" where
  "cell_state t cell =
     \<lparr>dc_funded = True, dc_opened = (\<not> sc_closed cell), dc_probe_accepted = sc_probe_accepted cell,
      dc_disputed = sc_disputed cell, dc_deposit = (if sc_closed cell then 0 else sc_buyer_locked cell),
      dc_finalized_owed = sc_seller_received cell, dc_tokens_final = sc_tokens_final cell,
      dc_tokens_pending = sc_tokens_pending cell, dc_probe_tick = sc_probe_locked cell, dc_funded_time = Some t,
      dc_probe_time = sc_probe_time cell, dc_last_claim_time = sc_last_claim_time cell, dc_dispute_time = sc_dispute_time cell\<rparr>"

lemma match_terms:
  assumes inv: "state_inv c now st" and m: "hm_get (ms_matches st) tc = Some m"
  obtains offer k sub at where "hm_get (ms_matched_offers st) tc = Some offer" "hm_get (ms_deal_subscriptions st) tc = Some sub"
    "hm_get (ms_match_created_at st) tc = Some at" "fill_bound c now tc m offer k sub at"
    "stream_bound c now m k sub (hm_get (ms_streams st) tc)" "0 < mt_price_per_tick m" "shape_inv sub"
    "checked_mul u128_max (so_price_per_tick offer) 2 = Some (2 * mt_price_per_tick m)" "mock_funded_time st tc = Inr (nat at)"
proof -
  obtain offer k sub at where rows: "hm_get (ms_matched_offers st) tc = Some offer"
      "hm_get (ms_deal_subscriptions st) tc = Some sub" "hm_get (ms_match_created_at st) tc = Some at"
    and f: "fill_bound c now tc m offer k sub at" and sb: "stream_bound c now m k sub (hm_get (ms_streams st) tc)"
    using state_inv_match [OF inv m] by (auto simp: match_inv_def)
  have price: "so_price_per_tick offer = mt_price_per_tick m" "mt_price_per_tick m \<le> u64_max"
      "0 < mt_price_per_tick m" and shape: "shape_inv sub"
    using f by (auto simp: fill_bound_def offer_inv_def validate_mock_sell_offer_def Let_def split: if_splits)
  have bond: "checked_mul u128_max (so_price_per_tick offer) 2 = Some (2 * mt_price_per_tick m)"
    using price by (simp add: checked_mul_def u64_max_def u128_max_def)
  have time: "mock_funded_time st tc = Inr (nat at)" using f rows(3) by (simp add: mock_funded_time_def fill_bound_def)
  show ?thesis by (rule that [OF rows f sb price(3) shape bond time])
qed

lemma stream_snapshot:
  assumes inv: "state_inv c now st" and m: "hm_get (ms_matches st) tc = Some m"
    and cell: "hm_get (ms_streams st) tc = Some cell" and sub: "hm_get (ms_deal_subscriptions st) tc = Some sub"
  obtains t where "deal_snapshot tc c st = Inr (Some (snapshot_of_deal tc (cell_state t cell) sub
       (2 * mt_price_per_tick m) (sc_seller_locked cell) (sc_buyer_bond cell)))"
    "validate_cross_getter_invariants (snapshot_of_deal tc (cell_state t cell) sub
       (2 * mt_price_per_tick m) (sc_seller_locked cell) (sc_buyer_bond cell)) = Inr ()"
    "deal_inv c now cell sub"
proof -
  obtain offer k sub' at where rows: "hm_get (ms_matched_offers st) tc = Some offer" "hm_get (ms_deal_subscriptions st) tc = Some sub'"
    and sb': "stream_bound c now m k sub' (hm_get (ms_streams st) tc)" and price: "0 < mt_price_per_tick m" and shape': "shape_inv sub'"
    and bond: "checked_mul u128_max (so_price_per_tick offer) 2 = Some (2 * mt_price_per_tick m)"
    and time: "mock_funded_time st tc = Inr (nat at)"
    by (rule match_terms [OF inv m])
  have sb: "stream_bound c now m k sub (Some cell)" and shape: "shape_inv sub" using rows(2) sb' shape' sub cell by simp_all
  have d: "deal_inv c now cell sub" "sc_price cell = mt_price_per_tick m" using sb by (auto simp: stream_bound_def)
  let ?sn = "snapshot_of_deal tc (cell_state (nat at) cell) sub (2 * mt_price_per_tick m) (sc_seller_locked cell) (sc_buyer_bond cell)"
  have valid: "validate_cross_getter_invariants ?sn = Inr ()"
    using price shape d
    by (intro snapshot_valid) (auto simp: cell_state_def deal_inv_def books_inv_def cell_empty_def is_stopped_def split: if_splits)
  have state: "mock_deal_state st tc c = Inr (Some (cell_state (nat at) cell))"
    using m cell time by (simp add: mock_deal_state_def hm_contains_def cell_state_def)
  have "deal_snapshot tc c st = Inr (Some ?sn)"
    unfolding deal_snapshot_def using state rows sub bond cell valid
    by (simp add: mock_deal_subscription_def Let_def snapshot_of_deal_def)
  then show ?thesis using that valid d(1) by blast
qed

text \<open>
  Every matched deal can be read.  The combined snapshot of a reachable deal is always
  produced, before the stream is opened, while it runs, in dispute and after it closed, and it
  passes the cross-checks between the getters that the read path applies: a live deal holds the
  full seller bond, a live subscription the full buyer bond, and no bond exceeds its size.
\<close>

theorem matched_deal_has_snapshot:
  assumes reach: "state_reach c h now st" and typed: "consts_typed c"
    and m: "hm_get (ms_matches st) tc = Some m"
  shows "\<exists>sn. deal_snapshot tc c st = Inr (Some sn) \<and> validate_cross_getter_invariants sn = Inr ()
     \<and> dc_funded (cs_state sn) \<and> sb_bond_required (cs_seller_bond sn) = 2 * mt_price_per_tick m
     \<and> (dc_opened (cs_state sn) \<longleftrightarrow> (\<exists>cell. hm_get (ms_streams st) tc = Some cell \<and> \<not> sc_closed cell))"
proof -
  have inv: "state_inv c now st" using state_reach_inv [OF reach typed] .
  obtain offer k sub at where rows: "hm_get (ms_matched_offers st) tc = Some offer"
      "hm_get (ms_deal_subscriptions st) tc = Some sub" "hm_get (ms_match_created_at st) tc = Some at"
    and f: "fill_bound c now tc m offer k sub at" and price: "0 < mt_price_per_tick m" and shape: "shape_inv sub"
    and bond: "checked_mul u128_max (so_price_per_tick offer) 2 = Some (2 * mt_price_per_tick m)"
    by (rule match_terms [OF inv m])
  show ?thesis
  proof (cases "hm_get (ms_streams st) tc")
    case None
    obtain state where state: "mock_deal_state st tc c = Inr (Some state)" "dc_funded state" "\<not> dc_opened state"
      using unopened_state [OF inv typed m None f rows(3,2)] by blast
    let ?req = "2 * mt_price_per_tick m"
    let ?sn = "snapshot_of_deal tc state sub ?req ?req (if is_subscription sub then ?req else 0)"
    have "validate_cross_getter_invariants ?sn = Inr ()"
      using state price shape by (intro snapshot_valid) auto
    then have "deal_snapshot tc c st = Inr (Some ?sn)"
      unfolding deal_snapshot_def
      using state(1) rows bond None
      by (simp add: mock_deal_subscription_def Let_def snapshot_of_deal_def)
    then show ?thesis
      using \<open>validate_cross_getter_invariants ?sn = Inr ()\<close> state None by (simp add: snapshot_of_deal_def)
  next
    case (Some cell)
    obtain t where "deal_snapshot tc c st = Inr (Some (snapshot_of_deal tc (cell_state t cell) sub
         (2 * mt_price_per_tick m) (sc_seller_locked cell) (sc_buyer_bond cell)))"
      "validate_cross_getter_invariants (snapshot_of_deal tc (cell_state t cell) sub
         (2 * mt_price_per_tick m) (sc_seller_locked cell) (sc_buyer_bond cell)) = Inr ()"
      by (rule stream_snapshot [OF inv m Some rows(2)])
    then show ?thesis using Some by (simp add: snapshot_of_deal_def cell_state_def)
  qed
qed

theorem matched_deal_has_snapshot_witness:
  "\<exists>sn. deal_snapshot ''0:ab'' canonical_consts opened_state = Inr (Some sn) \<and> dc_opened (cs_state sn)"
  using matched_deal_has_snapshot [OF sample_state_reach(3) canonical_consts_typed, of "''0:ab''" sample_match]
  by (auto simp: opened_state_def matched_state_def hm_get_def sample_cell_def)

text \<open>The exposure the monitor reads from a reachable stream.\<close>

lemma stream_lead:
  assumes d: "deal_inv c now cell sub" and s: "checked_snapshot tc st = Inr (Some s)"
    and cell: "hm_get (ms_streams st) tc = Some cell"
  shows "ss_buyer_lead s \<le> sc_price cell"
    and "ss_closed s \<Longrightarrow> ss_seller_locked s = 0 \<and> ss_buyer_locked s = 0"
proof -
  let ?gap = "sc_tokens_pending cell - sc_tokens_final cell"
  obtain v where v: "checked_mul_div_floor ?gap (sc_price cell) TICK_SIZE (Overflows2 BuyerExposure) = Inr v"
    and lead: "ss_buyer_lead s = sc_probe_locked cell + v"
    using s cell by (auto simp: checked_snapshot_def result_simps checked_simps add_u128_Inr)
  have "sc_price cell \<le> u64_max" using d by (simp add: deal_inv_def terms_inv_def)
  then have "v = ?gap * sc_price cell div TICK_SIZE"
    using v checked_mul_div_floor_eq [OF TICK_SIZE_pos u64_tick_fits] by (simp split: if_splits)
  moreover have "?gap * sc_price cell div TICK_SIZE \<le> TICK_SIZE * sc_price cell div TICK_SIZE"
    using d by (intro div_le_mono mult_le_mono1) (auto simp: deal_inv_def pipe_inv_def MAX_CLAIM_DELTA_def)
  ultimately have v_le: "v \<le> sc_price cell" by simp
  have "\<not> sc_probe_accepted cell \<Longrightarrow> ?gap = 0" using d by (simp add: deal_inv_def pipe_inv_def)
  then have "\<not> sc_probe_accepted cell \<Longrightarrow> v = 0" using \<open>v = _\<close> by simp
  moreover have "sc_probe_accepted cell \<Longrightarrow> sc_probe_locked cell = 0" using d by (simp add: deal_inv_def)
  moreover have "sc_probe_locked cell \<le> sc_price cell"
    using d by (auto simp: deal_inv_def books_inv_def cell_empty_def split: if_splits)
  ultimately show "ss_buyer_lead s \<le> sc_price cell" using lead v_le by (cases "sc_probe_accepted cell") auto
  show "ss_closed s \<Longrightarrow> ss_seller_locked s = 0 \<and> ss_buyer_locked s = 0"
    using s cell d
    by (auto simp: checked_snapshot_def result_simps checked_simps add_u128_Inr deal_inv_def cell_empty_def)
qed

lemma two_ticks_cover: "p \<le> u128_max \<Longrightarrow> p \<le> required_escrow_for_buy 2 p"
  by (auto simp: required_escrow_for_buy_def checked_required_escrow_for_buy_def bind_eq_Some_conv
      checked_simps Let_def split: option.splits)

lemma summary_shell_min: "summary_shell n = min n u64_max"
  by (simp add: summary_shell_def try_from_def)

lemma lead_within_two_ticks:
  assumes "l \<le> p" and "p \<le> u64_max"
  shows "\<not> summary_shell l > as_width u64_max (min (required_escrow_for_buy 2 p) u64_max)"
proof -
  have "p \<le> required_escrow_for_buy 2 p"
    using assms(2) by (intro two_ticks_cover) (simp add: u64_max_def u128_max_def)
  then show ?thesis using assms by (simp add: summary_shell_min as_width_def min_def)
qed

text \<open>A deal row of the note's view with a snapshot: its stream, its counterparty and its price.\<close>

lemma view_row:
  assumes inv: "state_inv c now st" and wf: "hm_wf (ms_matches st)"
    and row: "(tc, role, cp, price) \<in> set (seller_keys who st @ buyer_keys who st)"
    and cell: "hm_get (ms_streams st) tc = Some cell"
  shows "cp \<noteq> None" and "price = sc_price cell"
proof -
  obtain m sub where m: "hm_get (ms_matches st) tc = Some m" "sc_price cell = mt_price_per_tick m"
    using stream_of_match [OF inv cell] by blast
  have "seller_bound st tc" using state_inv_match [OF inv m(1)] by (simp add: match_inv_def)
  then have "cp \<noteq> None \<and> price = mt_price_per_tick m"
    using row m(1) wf
    by (auto simp: seller_keys_def buyer_keys_def selling_price_def seller_bound_def dest: hm_in_set_get)
  then show "cp \<noteq> None" "price = sc_price cell" using m(2) by auto
qed

text \<open>
  The monitor raises no alarm on a healthy backend.  In no reachable state does the
  view of any note contain a deal with an anomaly: money locked without a counterparty, money
  locked after the close, or a buyer exposed by more than two ticks.
\<close>

theorem monitor_sees_no_anomaly:
  assumes reach: "state_reach c h now st" and typed: "consts_typed c"
    and d: "d \<in> set (ns_deals (note_snapshot key st))"
  shows "deal_anomalies d = []"
proof (cases "dv_snapshot d")
  case None
  then show ?thesis by (simp add: deal_anomalies_def)
next
  case (Some s)
  have inv: "state_inv c now st" using state_reach_inv [OF reach typed] .
  then have wf: "hm_wf (ms_matches st)" by (simp add: state_inv_def maps_wf_def)
  obtain tc role cp price where row: "(tc, role, cp, price) \<in> set (seller_keys (note_id_hex key) st @ buyer_keys (note_id_hex key) st)"
    and view: "dv_counterparty d = cp" "dv_price_per_tick d = price" "snapshot_of st tc = Some s"
    using d Some by (force simp: note_snapshot_def Let_def)
  have snap: "checked_snapshot tc st = Inr (Some s)" using view(3) by (auto simp: snapshot_of_def split: sum.splits)
  then obtain cell where cell: "hm_get (ms_streams st) tc = Some cell"
    by (auto simp: checked_snapshot_def split: option.splits)
  obtain sub where inv_d: "deal_inv c now cell sub" using stream_of_match [OF inv cell] by blast
  have p: "price = sc_price cell" "cp \<noteq> None" using view_row [OF inv wf row cell] by auto
  have "sc_price cell \<le> u64_max" using inv_d by (simp add: deal_inv_def terms_inv_def)
  then have "\<not> summary_shell (ss_buyer_lead s) > as_width u64_max (min (required_escrow_for_buy 2 price) u64_max)"
    using lead_within_two_ticks stream_lead(1) [OF inv_d snap cell] p by simp
  moreover have "ss_closed s \<Longrightarrow> summary_shell (saturating_add u128_max (ss_seller_locked s) (ss_buyer_locked s)) = 0"
    using stream_lead(2) [OF inv_d snap cell] by (simp add: summary_shell_min saturating_add_def)
  ultimately show ?thesis using Some view p by (auto simp: deal_anomalies_def Let_def)
qed

theorem monitor_sees_no_anomaly_witness:
  "\<exists>d \<in> set (ns_deals (note_snapshot sample_key opened_state)). dv_snapshot d \<noteq> None \<and> deal_anomalies d = []"
proof -
  define d where "d = \<lparr>dv_token_contract = ''0:ab'', dv_role = SellerRole, dv_counterparty = Some (note_id_hex sample_key),
      dv_price_per_tick = 1000000000, dv_model = None, dv_snapshot = snapshot_of opened_state ''0:ab''\<rparr>"
  have mem: "d \<in> set (ns_deals (note_snapshot sample_key opened_state))"
    by (simp add: d_def note_snapshot_def Let_def seller_keys_def buyer_keys_def selling_price_def opened_state_def
        matched_state_def posted_state_def mock_state_default_def map_eval sample_match_def)
  have "dv_snapshot d \<noteq> None"
    by (simp add: d_def snapshot_of_def checked_snapshot_def opened_state_def map_eval sample_cell_def machine_open_def
        add_u128_def checked_add_def checked_sub_def checked_mul_div_floor_eq TICK_SIZE_def u128_max_def)
  then show ?thesis using monitor_sees_no_anomaly [OF sample_state_reach(3) canonical_consts_typed mem] mem by blast
qed


section \<open>The watcher\<close>

lemma seen_mono: "has_seen cur t tc \<Longrightarrow> has_seen (record_seen_batch cur es) t tc"
  unfolding has_seen_batch by (rule record_mono) (auto simp: has_seen_pair seen_pair_def)

lemma batch_seen: "(t, tc) \<in> set es \<Longrightarrow> has_seen (record_seen_batch cur es) t tc"
  by (simp add: has_seen_batch record_all_seen)

text \<open>
  The seller's watcher reports every fill exactly once.  A poll returns the fills of
  the note's own contracts that the cursor has not seen, and a second poll with the cursor the
  first one returned reports none of them again.
\<close>

theorem poll_reports_once:
  assumes reach: "state_reach c h now st" and typed: "consts_typed c"
    and first: "poll_seller_fills h key cursor st = (fills, cursor')"
  shows "poll_seller_fills h key cursor' st = ([], record_seen_batch cursor' [])
     \<and> (\<forall>tc m. hm_get (ms_matches st) tc = Some m
          \<and> hm_get (ms_offer_sellers st) tc = Some (note_id_hex key)
          \<and> \<not> has_seen cursor (the (hm_get (ms_match_created_at st) tc)) tc \<longrightarrow>
          (\<exists>f\<in>set fills. mf_token_contract f = tc \<and> mf_price_per_tick f = mt_price_per_tick m
             \<and> Some (mf_ticks f) = hm_get (ms_matched_ticks st) tc))"
proof -
  let ?id = "note_id_hex key"
  define batch where "batch = List.map_filter (seller_fill h st ?id cursor) (hm_keys (ms_matches st))"
  define srt where "srt = sort_key fst (sort_key (\<lambda>e. mf_token_contract (snd e)) batch)"
  have out: "fills = map snd srt" "cursor' = record_seen_batch cursor (map (\<lambda>(t, f). (t, mf_token_contract f)) srt)"
    using first by (simp_all add: poll_seller_fills_def Let_def srt_def batch_def)
  have set_srt: "set srt = set batch" by (simp add: srt_def)
  have inv: "state_inv c now st" using state_reach_inv [OF reach typed] .
  have rows: "\<exists>offer k at. hm_get (ms_matched_offers st) tc = Some offer \<and> hm_get (ms_matched_ticks st) tc = Some k
      \<and> hm_get (ms_match_created_at st) tc = Some at \<and> so_price_per_tick offer = mt_price_per_tick m"
    if "hm_get (ms_matches st) tc = Some m" for tc m
    using state_inv_match [OF inv that] by (auto simp: match_inv_def fill_bound_def)
  have reported: "(at, \<lparr>mf_order_id = mock_current_order_id h st tc, mf_token_contract = tc, mf_ticks = k,
        mf_price_per_tick = so_price_per_tick offer\<rparr>) \<in> set srt"
    if "hm_get (ms_matches st) tc = Some m" "hm_get (ms_offer_sellers st) tc = Some ?id"
      "hm_get (ms_matched_offers st) tc = Some offer" "hm_get (ms_matched_ticks st) tc = Some k"
      "hm_get (ms_match_created_at st) tc = Some at" "\<not> has_seen cursor at tc" for tc m offer k at
  proof -
    have "tc \<in> set (hm_keys (ms_matches st))" using that(1) by (simp add: hm_keys_contains hm_contains_def)
    then show ?thesis
      using that(2-) unfolding set_srt batch_def
      by (force simp: List.map_filter_def seller_fill_def filled_ticks_def)
  qed
  have again: "seller_fill h st ?id cursor' tc = None" if mem: "tc \<in> set (hm_keys (ms_matches st))" for tc
  proof (cases "hm_get (ms_offer_sellers st) tc = Some ?id")
    case True
    obtain m where m: "hm_get (ms_matches st) tc = Some m"
      using mem by (auto simp: hm_keys_contains hm_contains_def)
    obtain offer k at where r: "hm_get (ms_matched_offers st) tc = Some offer"
        "hm_get (ms_matched_ticks st) tc = Some k" "hm_get (ms_match_created_at st) tc = Some at"
      using rows [OF m] by blast
    have "has_seen cursor' at tc"
    proof (cases "has_seen cursor at tc")
      case False
      then show ?thesis
        using reported [OF m True r] unfolding out(2) by (intro batch_seen) force
    qed (simp add: out(2) seen_mono)
    then show ?thesis using r by (simp add: seller_fill_def)
  qed (simp add: seller_fill_def)
  then have "List.map_filter (seller_fill h st ?id cursor') (hm_keys (ms_matches st)) = []"
    by (simp add: List.map_filter_def filter_empty_conv)
  then have "poll_seller_fills h key cursor' st = ([], record_seen_batch cursor' [])"
    by (simp add: poll_seller_fills_def Let_def)
  moreover have "\<exists>f\<in>set fills. mf_token_contract f = tc \<and> mf_price_per_tick f = mt_price_per_tick m
             \<and> Some (mf_ticks f) = hm_get (ms_matched_ticks st) tc"
    if "hm_get (ms_matches st) tc = Some m" "hm_get (ms_offer_sellers st) tc = Some ?id"
      "\<not> has_seen cursor (the (hm_get (ms_match_created_at st) tc)) tc" for tc m
    using rows [OF that(1)] reported [OF that(1,2)] that(3) unfolding out(1) by force
  ultimately show ?thesis by blast
qed

theorem poll_reports_once_witness:
  "let cursor = \<lparr>mc_since_unix = 0, mc_last_seen_created_at = None, mc_seen_at_last = []\<rparr>;
       (fills, cursor') = poll_seller_fills (\<lambda>_. 0) sample_key cursor matched_state
   in map mf_ticks fills = [3] \<and> fst (poll_seller_fills (\<lambda>_. 0) sample_key cursor' matched_state) = []"
proof -
  define cursor :: match_watch_cursor where
    "cursor = \<lparr>mc_since_unix = 0, mc_last_seen_created_at = None, mc_seen_at_last = []\<rparr>"
  obtain fills cursor' where first: "poll_seller_fills (\<lambda>_. 0) sample_key cursor matched_state = (fills, cursor')"
    by (cases "poll_seller_fills (\<lambda>_. 0) sample_key cursor matched_state")
  then have "map mf_ticks fills = [3]"
    by (auto simp: poll_seller_fills_def Let_def matched_state_def posted_state_def mock_state_default_def
        map_eval hm_keys_def List.map_filter_def seller_fill_def has_seen_def cursor_def filled_ticks_def sample_offer_def)
  then show ?thesis
    using poll_reports_once [OF sample_state_reach(2) canonical_consts_typed first] first
    by (simp add: Let_def flip: cursor_def)
qed

end
