(* ===== verification/SubscriptionBook.thy ===== *)
theory SubscriptionBook
  imports MockState BackendProps
begin

text \<open>
  The book of resting subscription orders of the mock backend.  An order rests with its escrow
  until it is cancelled by its owner or swept after its deadline; either way it becomes a
  terminal row that carries the refund.  The theory shows that the escrow comes back exactly
  once, in full, and that the row it leaves never changes.
\<close>

section \<open>What a step does to the book\<close>

definition same_subs :: "mock_state \<Rightarrow> mock_state \<Rightarrow> bool" where
  "same_subs st st' \<longleftrightarrow>
     ms_subscription_orders st' = ms_subscription_orders st
     \<and> ms_subscription_terminal_orders st' = ms_subscription_terminal_orders st
     \<and> ms_next_subscription_order_id st' = ms_next_subscription_order_id st"

definition sub_placed :: "mock_state \<Rightarrow> order_book_order \<Rightarrow> mock_state \<Rightarrow> bool" where
  "sub_placed st order st' \<longleftrightarrow>
     (let i = max (ms_next_subscription_order_id st) 1 in
        ob_order_id order = i
        \<and> ms_subscription_orders st' = hm_insert i order (ms_subscription_orders st)
        \<and> ms_subscription_terminal_orders st' = ms_subscription_terminal_orders st
        \<and> ms_next_subscription_order_id st' = i + 1)"

definition sub_left :: "mock_state \<Rightarrow> nat \<Rightarrow> order_book_order \<Rightarrow> mock_state \<Rightarrow> bool" where
  "sub_left st i order st' \<longleftrightarrow>
     hm_get (ms_subscription_orders st) i = Some order
     \<and> ms_subscription_orders st' = hm_remove i (ms_subscription_orders st)
     \<and> ms_next_subscription_order_id st' = ms_next_subscription_order_id st
     \<and> (\<exists>row. ms_subscription_terminal_orders st' = hm_insert i row (ms_subscription_terminal_orders st)
          \<and> st_order row = order \<and> st_refunded row = ob_escrow order)"

lemma removed_left:
  "hm_get (ms_subscription_orders st) i = Some order \<Longrightarrow>
     sub_left st i order (remove_subscription_order_from_book i r (ob_escrow order) st)"
  by (simp add: sub_left_def remove_subscription_order_from_book_def) (rule exI, rule conjI, rule refl, simp)

lemma placed_sub:
  "place_subscription_order ob key p k e fl d t st = Inr (x, Some st') \<Longrightarrow> sub_placed st x st'"
  by (auto simp: place_subscription_order_def sub_placed_def result_simps checked_simps Let_def split: if_splits)

lemma cancelled_left:
  "cancel_subscription_order ob i key st = Inr (x, Some st') \<Longrightarrow> sub_left st i x st'"
  using removed_left
  by (auto simp: cancel_subscription_order_def result_simps owned_subscription_order_def split: option.splits if_splits)

lemma swept_left: "swept_state i t st = Some st' \<Longrightarrow> \<exists>order. sub_left st i order st'"
  by (auto simp: swept_state_def intro: removed_left split: option.splits if_splits)

lemma deal_op_same_subs: "deal_op c tc st e st' \<Longrightarrow> same_subs st st'"
  by (auto simp: deal_op_def put_deal_def same_subs_def)

text \<open>Every step leaves the subscription book alone, places one order, or ends one.\<close>

lemma state_step_subs:
  assumes "state_step c h now st t st'"
  shows "same_subs st st' \<or> (\<exists>order. sub_placed st order st') \<or> (\<exists>i order. sub_left st i order st')"
  using assms
proof cases
  case subscribe
  then show ?thesis using placed_sub by blast
next
  case unsubscribe
  then show ?thesis using cancelled_left by blast
next
  case sweep
  then show ?thesis using swept_left by blast
next
  case accept
  then show ?thesis using deal_op_same_subs [OF stream_ops(1)] by blast
next
  case claim
  then show ?thesis using deal_op_same_subs [OF claim_op] by blast
next
  case promote
  then show ?thesis using deal_op_same_subs [OF stream_ops(2)] by blast
next
  case week
  then show ?thesis using deal_op_same_subs [OF stream_ops(3)] by blast
next
  case buyer_stops
  then show ?thesis using deal_op_same_subs [OF stop_ops(1)] by blast
next
  case addr_stops
  then show ?thesis using deal_op_same_subs [OF stop_ops(2)] by blast
next
  case seller_stops
  then show ?thesis using deal_op_same_subs [OF stream_ops(5)] by blast
next
  case disputes
  then show ?thesis using deal_op_same_subs [OF dispute_op] by blast
next
  case releases
  then show ?thesis using deal_op_same_subs [OF stream_ops(6)] by blast
next
  case times_out
  then show ?thesis using deal_op_same_subs [OF timeout_op] by blast
qed (auto simp: post_offer_def expire_resting_sell_order_def cancel_resting_sell_order_def place_buy_ticks_inner_def
    open_stream_def cleanup_unopened_def same_subs_def result_simps Let_def split: if_splits)


section \<open>The invariant of the book\<close>

definition id_inv :: "nat \<Rightarrow> nat \<Rightarrow> order_book_order option \<Rightarrow> mock_subscription_terminal option \<Rightarrow> bool" where
  "id_inv next_id i resting ended \<longleftrightarrow>
     (resting = None \<or> ended = None)
     \<and> (case resting of None \<Rightarrow> True | Some order \<Rightarrow> ob_order_id order = i \<and> i < next_id)
     \<and> (case ended of None \<Rightarrow> True
         | Some row \<Rightarrow> i < next_id \<and> ob_order_id (st_order row) = i \<and> st_refunded row = ob_escrow (st_order row))"

definition sub_inv :: "mock_state \<Rightarrow> bool" where
  "sub_inv st \<longleftrightarrow>
     (\<forall>i. id_inv (ms_next_subscription_order_id st) i (hm_get (ms_subscription_orders st) i)
            (hm_get (ms_subscription_terminal_orders st) i))"

lemma sub_invD:
  "sub_inv st \<Longrightarrow> id_inv (ms_next_subscription_order_id st) i (hm_get (ms_subscription_orders st) i)
     (hm_get (ms_subscription_terminal_orders st) i)"
  by (simp add: sub_inv_def)

lemma sub_inv_placed:
  assumes inv: "sub_inv st" and placed: "sub_placed st order st'"
  shows "sub_inv st'"
  unfolding sub_inv_def
proof
  fix i
  show "id_inv (ms_next_subscription_order_id st') i (hm_get (ms_subscription_orders st') i)
      (hm_get (ms_subscription_terminal_orders st') i)"
    using sub_invD [OF inv, of i] placed
    by (cases "i = max (ms_next_subscription_order_id st) 1")
      (auto simp: id_inv_def sub_placed_def hm_simps Let_def split: option.splits)
qed

lemma sub_inv_left:
  assumes inv: "sub_inv st" and left: "sub_left st k order st'"
  shows "sub_inv st'"
  unfolding sub_inv_def
proof
  fix i
  show "id_inv (ms_next_subscription_order_id st') i (hm_get (ms_subscription_orders st') i)
      (hm_get (ms_subscription_terminal_orders st') i)"
    using sub_invD [OF inv, of i] left
    by (cases "i = k") (auto simp: id_inv_def sub_left_def hm_simps split: option.splits)
qed

lemma sub_inv_step:
  assumes "state_step c h now st t st'" and "sub_inv st"
  shows "sub_inv st'"
  using state_step_subs [OF assms(1)] sub_inv_placed [OF assms(2)] sub_inv_left [OF assms(2)] assms(2)
  by (auto simp: same_subs_def sub_inv_def)

lemma state_reach_sub_inv: "state_reach c h now st \<Longrightarrow> sub_inv st"
proof (induction rule: state_reach.induct)
  case start
  show ?case by (simp add: sub_inv_def id_inv_def mock_state_default_def hm.get_empty)
qed (rule sub_inv_step)

definition settled_with :: "mock_state \<Rightarrow> nat \<Rightarrow> order_book_order \<Rightarrow> bool" where
  "settled_with st i order \<longleftrightarrow>
     hm_get (ms_subscription_orders st) i = None
     \<and> (\<exists>row. hm_get (ms_subscription_terminal_orders st) i = Some row \<and> st_order row = order
          \<and> st_refunded row = ob_escrow order)"

definition resting_with :: "mock_state \<Rightarrow> nat \<Rightarrow> order_book_order \<Rightarrow> bool" where
  "resting_with st i order \<longleftrightarrow>
     hm_get (ms_subscription_orders st) i = Some order \<and> hm_get (ms_subscription_terminal_orders st) i = None"

lemma order_step:
  assumes step: "state_step c h now st t st'" and inv: "sub_inv st"
  shows "resting_with st i order \<Longrightarrow> resting_with st' i order \<or> settled_with st' i order"
    and "settled_with st i order \<Longrightarrow> settled_with st' i order"
proof -
  have "i < ms_next_subscription_order_id st" if "resting_with st i order \<or> settled_with st i order"
    using that sub_invD [OF inv, of i] by (auto simp: id_inv_def resting_with_def settled_with_def)
  then have fresh: "i \<noteq> max (ms_next_subscription_order_id st) 1" if "resting_with st i order \<or> settled_with st i order"
    using that by (auto simp: max_def)
  show "resting_with st' i order \<or> settled_with st' i order" if "resting_with st i order"
    using state_step_subs [OF step] that fresh
    by (auto simp: same_subs_def sub_placed_def sub_left_def resting_with_def settled_with_def hm_simps Let_def
        split: if_splits)
  show "settled_with st' i order" if "settled_with st i order"
    using state_step_subs [OF step] that fresh
    by (auto simp: same_subs_def sub_placed_def sub_left_def resting_with_def settled_with_def hm_simps Let_def
        split: if_splits)
qed

lemma order_run:
  "state_run c h now st t st' \<Longrightarrow> state_reach c h now st \<Longrightarrow> resting_with st i order \<Longrightarrow>
     resting_with st' i order \<or> settled_with st' i order"
proof (induction rule: state_run.induct)
  case (later t1 st1 t2 st2)
  have "sub_inv st1" using state_reach_sub_inv [OF state_run_reach [OF later.hyps(1) later.prems(1)]] .
  then show ?case using later order_step [OF later.hyps(2)] by blast
qed simp

text \<open>
  Claim C31: the escrow of a resting subscription order is given back exactly once.  At every
  later time the order either still rests unchanged, or it has become a terminal row that carries
  the same order and a refund of exactly its escrow, and then no row of the book carries it any
  more; whatever else happens on the backend meanwhile, no other order takes its id.
\<close>

theorem subscription_escrow_returned_once:
  assumes "state_reach c h now st" and "hm_get (ms_subscription_orders st) i = Some order"
    and "state_run c h now st t st'"
  shows "(hm_get (ms_subscription_orders st') i = Some order
            \<and> hm_get (ms_subscription_terminal_orders st') i = None)
     \<or> (hm_get (ms_subscription_orders st') i = None
        \<and> (\<exists>row. hm_get (ms_subscription_terminal_orders st') i = Some row
             \<and> st_order row = order \<and> st_refunded row = ob_escrow order))"
proof -
  have "resting_with st i order"
    using sub_invD [OF state_reach_sub_inv [OF assms(1)], of i] assms(2) by (simp add: resting_with_def id_inv_def)
  then show ?thesis
    using order_run [OF assms(3,1)] by (auto simp: resting_with_def settled_with_def)
qed

definition sample_order :: order_book_order where
  "sample_order = \<lparr>ob_order_id = 1, ob_owner_note = ''0:'' @ note_id_hex sample_key, ob_token_contract = None,
     ob_is_buy = True, ob_price_per_tick = 1000000000, ob_ticks = 4, ob_escrow = 6100000000, ob_deadline = 0,
     ob_flags = AON OR SUBSCRIPTION, ob_timestamp = 100\<rparr>"

definition subscribed_state :: mock_state where
  "subscribed_state = mock_state_default\<lparr>ms_next_subscription_order_id := 2,
     ms_subscription_orders := [(1, sample_order)], ms_subscription_order_books := [(1, ''0:cd'')]\<rparr>"

lemma sample_subscribes:
  "place_subscription_order ''0:cd'' sample_key 1000000000 4 6100000000 (AON OR SUBSCRIPTION) 0 100 mock_state_default
     = Inr (sample_order, Some subscribed_state)"
  by (simp add: place_subscription_order_def mock_state_default_def subscribed_state_def sample_order_def Let_def
      map_eval checked_add_def u128_max_def)

lemma subscribed_reach: "state_reach c h 100 subscribed_state"
  using state_reach.stored [OF state_reach.start state_step.subscribe [OF _ sample_subscribes]] by blast

theorem subscription_escrow_returned_once_witness:
  "\<exists>st' row. cancel_subscription_order ''0:cd'' 1 sample_key subscribed_state = Inr (sample_order, Some st')
     \<and> hm_get (ms_subscription_orders st') 1 = None
     \<and> hm_get (ms_subscription_terminal_orders st') 1 = Some row \<and> st_refunded row = 6100000000"
proof -
  have resting: "hm_get (ms_subscription_orders subscribed_state) 1 = Some sample_order"
    by (simp add: subscribed_state_def hm_get_def)
  obtain st' where c: "cancel_subscription_order ''0:cd'' 1 sample_key subscribed_state = Inr (sample_order, Some st')"
    by (simp add: cancel_subscription_order_def owned_subscription_order_def subscribed_state_def sample_order_def map_eval)
  have "state_run canonical_consts (\<lambda>_. 0) 100 subscribed_state 100 st'"
    using state_run.later [OF state_run.here state_step.unsubscribe [OF c]] .
  moreover have "hm_get (ms_subscription_orders st') 1 \<noteq> Some sample_order"
    using cancelled_left [OF c] by (auto simp: sub_left_def hm_simps)
  ultimately show ?thesis
    using subscription_escrow_returned_once [OF subscribed_reach resting] c by (fastforce simp: sample_order_def)
qed

end
