(* ===== verification/Conservation.thy ===== *)
theory Conservation
  imports Prelude
begin

text \<open>
  The money ledger of one deal, \<open>crates/core/src/market/deal_conservation.rs\<close>: the movements
  across a deal's balance in the contract's own primitives, their replay, and the identity a
  settled deal must satisfy.  The theorems say what the replay computes: the sums of the
  movements themselves, so that no saturation is ever reached, and that a replay which goes
  through always settles.
\<close>

section \<open>The ledger\<close>

datatype deal_money_flow =
    EscrowFunded nat
  | SellerBondFunded nat
  | BuyerBondFunded nat
  | CreditedToNote string nat
  | WrittenOff nat

fun flow_amount :: "deal_money_flow \<Rightarrow> nat" where
  "flow_amount (EscrowFunded a) = a"
| "flow_amount (SellerBondFunded a) = a"
| "flow_amount (BuyerBondFunded a) = a"
| "flow_amount (CreditedToNote _ a) = a"
| "flow_amount (WrittenOff a) = a"

fun is_inflow :: "deal_money_flow \<Rightarrow> bool" where
  "is_inflow (EscrowFunded _) = True"
| "is_inflow (SellerBondFunded _) = True"
| "is_inflow (BuyerBondFunded _) = True"
| "is_inflow (CreditedToNote _ _) = False"
| "is_inflow (WrittenOff _) = False"

fun flow_label :: "deal_money_flow \<Rightarrow> string" where
  "flow_label (EscrowFunded _) = ''escrow_funded''"
| "flow_label (SellerBondFunded _) = ''seller_bond_funded''"
| "flow_label (BuyerBondFunded _) = ''buyer_bond_funded''"
| "flow_label (CreditedToNote _ _) = ''credited_to_note''"
| "flow_label (WrittenOff _) = ''written_off''"

datatype conservation_breach =
    Overdraft string nat nat
  | BalanceOverflow string nat nat
  | ResidualAtDestruction nat
  | NotConserved nat nat nat nat
  | DeclaredPayoutDisagreesWithCredits nat nat
  | PayoutExceedsFunding nat nat

record deal_ledger_step =
  ls_flow :: deal_money_flow
  ls_balance_before :: nat
  ls_balance_after :: nat

record deal_settlement =
  se_funded_in :: nat
  se_credited_out :: nat
  se_written_off :: nat
  se_balance :: nat
  se_credited_by_note :: "(string, nat) hmap"

record deal_ledger =
  dl_balance :: nat
  dl_funded_in :: nat
  dl_credited_out :: nat
  dl_written_off :: nat
  dl_credited_by_note :: "(string, nat) hmap"
  dl_steps :: "deal_ledger_step list"

definition ledger_new :: deal_ledger where
  "ledger_new = \<lparr>dl_balance = 0, dl_funded_in = 0, dl_credited_out = 0, dl_written_off = 0,
     dl_credited_by_note = [], dl_steps = []\<rparr>"

definition credited_in :: "(string, nat) hmap \<Rightarrow> string \<Rightarrow> nat" where
  "credited_in m who = (case hm_get m who of Some n \<Rightarrow> n | None \<Rightarrow> 0)"

definition ledger_credited_to :: "deal_ledger \<Rightarrow> string \<Rightarrow> nat" where
  "ledger_credited_to l who = credited_in (dl_credited_by_note l) who"

definition settlement_credited_to :: "deal_settlement \<Rightarrow> string \<Rightarrow> nat" where
  "settlement_credited_to s who = credited_in (se_credited_by_note s) who"

text \<open>The books of an outflow that the balance covers.\<close>

definition book_outflow :: "deal_money_flow \<Rightarrow> deal_ledger \<Rightarrow> deal_ledger" where
  "book_outflow flow l =
     (case flow of
        CreditedToNote who a \<Rightarrow>
          l\<lparr>dl_credited_out := saturating_add u128_max (dl_credited_out l) a,
            dl_credited_by_note := hm_insert who
              (saturating_add u128_max (credited_in (dl_credited_by_note l) who) a)
              (dl_credited_by_note l)\<rparr>
      | _ \<Rightarrow> l\<lparr>dl_written_off := saturating_add u128_max (dl_written_off l) (flow_amount flow)\<rparr>)"

text \<open>The method also returns the step it pushed, which is the last one of the new ledger.\<close>

definition apply_flow :: "deal_ledger \<Rightarrow> deal_money_flow \<Rightarrow> (deal_ledger, conservation_breach) result" where
  "apply_flow l flow =
     (let amount = flow_amount flow; before = dl_balance l in
      and_then
        (if is_inflow flow then
           and_then (ok_or (checked_add u128_max before amount)
                      (BalanceOverflow (flow_label flow) before amount)) (\<lambda>after.
           and_then (ok_or (checked_add u128_max (dl_funded_in l) amount)
                      (BalanceOverflow (flow_label flow) before amount)) (\<lambda>funded.
           Inr (after, l\<lparr>dl_funded_in := funded\<rparr>)))
         else
           and_then (ok_or (checked_sub before amount) (Overdraft (flow_label flow) before amount)) (\<lambda>after.
           Inr (after, book_outflow flow l)))
        (\<lambda>(after, l').
           Inr (l'\<lparr>dl_balance := after,
                   dl_steps := dl_steps l' @ [\<lparr>ls_flow = flow, ls_balance_before = before,
                                               ls_balance_after = after\<rparr>]\<rparr>)))"

definition replay :: "deal_money_flow list \<Rightarrow> (deal_ledger, conservation_breach) result" where
  "replay flows = try_fold apply_flow ledger_new flows"

definition settle :: "deal_ledger \<Rightarrow> (deal_settlement, conservation_breach) result" where
  "settle l =
     (let breach = NotConserved (dl_funded_in l) (dl_credited_out l) (dl_written_off l) (dl_balance l) in
      and_then (ok_or (Option.bind (checked_add u128_max (dl_credited_out l) (dl_written_off l)) (\<lambda>out.
                         checked_add u128_max out (dl_balance l))) breach) (\<lambda>out.
      if out \<noteq> dl_funded_in l then Inl breach
      else Inr \<lparr>se_funded_in = dl_funded_in l, se_credited_out = dl_credited_out l,
                se_written_off = dl_written_off l, se_balance = dl_balance l,
                se_credited_by_note = dl_credited_by_note l\<rparr>))"

definition settle_destroyed :: "deal_ledger \<Rightarrow> (deal_settlement, conservation_breach) result" where
  "settle_destroyed l =
     and_then (settle l) (\<lambda>s.
     if se_balance s \<noteq> 0 then Inl (ResidualAtDestruction (se_balance s)) else Inr s)"

definition buyer_total_debit :: "nat \<Rightarrow> nat \<Rightarrow> nat option" where
  "buyer_total_debit deposit buyer_bond = checked_add u128_max deposit buyer_bond"

definition i128_max :: int where "i128_max = 2 ^ 127 - 1"

definition clamp_i128 :: "nat \<Rightarrow> int" where
  "clamp_i128 n = (if int n \<le> i128_max then int n else i128_max)"

definition buyer_net_result :: "nat \<Rightarrow> nat \<Rightarrow> int" where
  "buyer_net_result credited_to_buyer total_debit =
     max (- i128_max - 1) (min i128_max (clamp_i128 credited_to_buyer - clamp_i128 total_debit))"

definition implied_write_off :: "nat \<Rightarrow> nat \<Rightarrow> (nat, conservation_breach) result" where
  "implied_write_off funded_in declared_payout =
     ok_or (checked_sub funded_in declared_payout) (PayoutExceedsFunding funded_in declared_payout)"

definition check_declared_payout_against_credits :: "nat \<Rightarrow> nat \<Rightarrow> (unit, conservation_breach) result" where
  "check_declared_payout_against_credits declared_payout credited =
     ensure (declared_payout = credited) (DeclaredPayoutDisagreesWithCredits declared_payout credited)"


section \<open>What the replay computes\<close>

text \<open>The totals of a list of movements, as plain sums.\<close>

definition funded :: "deal_money_flow list \<Rightarrow> nat" where
  "funded flows = sum_list (map flow_amount (filter is_inflow flows))"

definition paid_out :: "deal_money_flow list \<Rightarrow> nat" where
  "paid_out flows = sum_list (map flow_amount (filter (\<lambda>f. \<not> is_inflow f) flows))"

fun credit_to :: "string \<Rightarrow> deal_money_flow \<Rightarrow> nat" where
  "credit_to who (CreditedToNote n a) = (if n = who then a else 0)"
| "credit_to who _ = 0"

fun credit :: "deal_money_flow \<Rightarrow> nat" where
  "credit (CreditedToNote _ a) = a"
| "credit _ = 0"

fun burn :: "deal_money_flow \<Rightarrow> nat" where
  "burn (WrittenOff a) = a"
| "burn _ = 0"

definition credits :: "deal_money_flow list \<Rightarrow> nat" where
  "credits flows = sum_list (map credit flows)"

definition burns :: "deal_money_flow list \<Rightarrow> nat" where
  "burns flows = sum_list (map burn flows)"

definition credits_to :: "string \<Rightarrow> deal_money_flow list \<Rightarrow> nat" where
  "credits_to who flows = sum_list (map (credit_to who) flows)"

lemma credits_to_le: "credits_to who flows \<le> credits flows"
proof -
  have "credit_to who f \<le> credit f" for f by (cases f) simp_all
  then show ?thesis unfolding credits_to_def credits_def by (intro sum_list_mono)
qed

lemma paid_out_split: "paid_out flows = credits flows + burns flows"
proof (induction flows)
  case (Cons f fs)
  then show ?case by (cases f) (simp_all add: paid_out_def credits_def burns_def)
qed (simp add: paid_out_def credits_def burns_def)

lemma totals_snoc [simp]:
  "funded (fs @ [f]) = funded fs + (if is_inflow f then flow_amount f else 0)"
  "paid_out (fs @ [f]) = paid_out fs + (if is_inflow f then 0 else flow_amount f)"
  "credits (fs @ [f]) = credits fs + credit f" "burns (fs @ [f]) = burns fs + burn f"
  "credits_to who (fs @ [f]) = credits_to who fs + credit_to who f"
  by (simp_all add: funded_def paid_out_def credits_def burns_def credits_to_def)

lemma totals_Nil [simp]: "funded [] = 0" "paid_out [] = 0" "credits [] = 0" "burns [] = 0"
  "credits_to who [] = 0"
  by (simp_all add: funded_def paid_out_def credits_def burns_def credits_to_def)

definition ledger_inv :: "deal_money_flow list \<Rightarrow> deal_ledger \<Rightarrow> bool" where
  "ledger_inv flows l \<longleftrightarrow>
     dl_funded_in l = funded flows \<and> dl_credited_out l = credits flows \<and> dl_written_off l = burns flows
     \<and> dl_balance l + paid_out flows = funded flows \<and> funded flows \<le> u128_max
     \<and> (\<forall>who. ledger_credited_to l who = credits_to who flows)
     \<and> map ls_flow (dl_steps l) = flows"

lemma apply_inflow:
  "is_inflow flow \<Longrightarrow> apply_flow l flow = Inr l' \<longleftrightarrow>
     dl_balance l + flow_amount flow \<le> u128_max \<and> dl_funded_in l + flow_amount flow \<le> u128_max
     \<and> l' = l\<lparr>dl_funded_in := dl_funded_in l + flow_amount flow, dl_balance := dl_balance l + flow_amount flow,
              dl_steps := dl_steps l @ [\<lparr>ls_flow = flow, ls_balance_before = dl_balance l,
                                          ls_balance_after = dl_balance l + flow_amount flow\<rparr>]\<rparr>"
  by (auto simp: apply_flow_def result_simps checked_simps Let_def)

lemma book_outflow_frame:
  "dl_balance (book_outflow f l) = dl_balance l" "dl_funded_in (book_outflow f l) = dl_funded_in l"
  "dl_steps (book_outflow f l) = dl_steps l"
  by (simp_all add: book_outflow_def split: deal_money_flow.splits)

lemma apply_outflow:
  "\<not> is_inflow flow \<Longrightarrow> apply_flow l flow = Inr l' \<longleftrightarrow>
     flow_amount flow \<le> dl_balance l
     \<and> l' = (book_outflow flow l)\<lparr>dl_balance := dl_balance l - flow_amount flow,
              dl_steps := dl_steps l @ [\<lparr>ls_flow = flow, ls_balance_before = dl_balance l,
                                          ls_balance_after = dl_balance l - flow_amount flow\<rparr>]\<rparr>"
  by (auto simp: apply_flow_def result_simps checked_simps Let_def book_outflow_frame)

lemma apply_flow_inv:
  assumes inv: "ledger_inv fs l" and ok: "apply_flow l f = Inr l'"
  shows "ledger_inv (fs @ [f]) l'"
proof (cases "is_inflow f")
  case True
  then have "credit f = 0" "burn f = 0" "\<And>who. credit_to who f = 0" by (cases f; simp)+
  then show ?thesis
    using inv ok True
    by (auto simp: ledger_inv_def apply_inflow ledger_credited_to_def)
next
  case False
  have le: "flow_amount f \<le> dl_balance l" using ok False by (simp add: apply_outflow)
  have room: "credits fs + burns fs + flow_amount f \<le> u128_max" "dl_credited_out l = credits fs"
      "dl_written_off l = burns fs" "credited_in (dl_credited_by_note l) who \<le> credits fs" for who
    using inv le credits_to_le [of who fs] by (auto simp: ledger_inv_def paid_out_split ledger_credited_to_def)
  have sat: "saturating_add u128_max (dl_credited_out l) (flow_amount f) = credits fs + flow_amount f"
    "saturating_add u128_max (dl_written_off l) (flow_amount f) = burns fs + flow_amount f"
    "saturating_add u128_max (credited_in (dl_credited_by_note l) who) (flow_amount f)
       = credited_in (dl_credited_by_note l) who + flow_amount f" for who
    using room(1-3) room(4) [of who] by (simp_all add: saturating_add_exact)
  show ?thesis
  proof (cases f)
    case (CreditedToNote n a)
    then show ?thesis
      using inv ok False sat le room
      by (auto simp: ledger_inv_def apply_outflow book_outflow_def ledger_credited_to_def credited_in_def
          hm_simps add_mono split: option.splits)
  next
    case (WrittenOff a)
    then show ?thesis
      using inv ok False sat le
      by (auto simp: ledger_inv_def apply_outflow book_outflow_def ledger_credited_to_def)
  qed (use False in auto)
qed

interpretation ledger: fold_invariant apply_flow ledger_inv
  by unfold_locales (rule apply_flow_inv)

lemma ledger_inv_new: "ledger_inv [] ledger_new"
  by (simp add: ledger_inv_def ledger_new_def ledger_credited_to_def credited_in_def hm.get_empty)

lemma replay_inv: "replay flows = Inr l \<Longrightarrow> ledger_inv flows l"
  using ledger.fold_inv_Nil [OF ledger_inv_new] by (simp add: replay_def)

lemma settle_inv:
  assumes "ledger_inv flows l"
  shows "settle l = Inr \<lparr>se_funded_in = funded flows, se_credited_out = credits flows, se_written_off = burns flows,
      se_balance = dl_balance l, se_credited_by_note = dl_credited_by_note l\<rparr>"
  using assms by (auto simp: settle_def ledger_inv_def paid_out_split checked_add_def Let_def)

text \<open>
  Claim C32: a replay that goes through accounts for the last unit.  Its totals are the plain sums
  of the movements, per note too, although the code adds them up with saturating arithmetic; what
  came in is what was credited, written off and still held; settling it never reports a breach;
  and it settles as destroyed exactly if everything that came in went out.
\<close>

theorem replay_accounts_exactly:
  assumes "replay flows = Inr l"
  shows "dl_funded_in l = funded flows \<and> dl_credited_out l = credits flows \<and> dl_written_off l = burns flows
     \<and> credits flows + burns flows + dl_balance l = funded flows
     \<and> (\<forall>who. ledger_credited_to l who = credits_to who flows)
     \<and> (\<exists>s. settle l = Inr s \<and> se_funded_in s = se_credited_out s + se_written_off s + se_balance s)
     \<and> (is_ok (settle_destroyed l) \<longleftrightarrow> credits flows + burns flows = funded flows)"
proof -
  have inv: "ledger_inv flows l" using replay_inv [OF assms] .
  then have "credits flows + burns flows + dl_balance l = funded flows" by (simp add: ledger_inv_def paid_out_split)
  then show ?thesis using inv settle_inv [OF inv] by (auto simp: ledger_inv_def settle_destroyed_def)
qed

definition sample_flows :: "deal_money_flow list" where
  "sample_flows = [EscrowFunded 2050000000, SellerBondFunded 2000000000, BuyerBondFunded 2000000000,
     CreditedToNote ''seller'' 3015121275, CreditedToNote ''buyer'' 2000000000,
     WrittenOff 1000000000, WrittenOff 34878725]"

lemma sample_replays: "is_ok (replay sample_flows)"
  by (simp add: replay_def sample_flows_def ledger_new_def apply_flow_def book_outflow_def Let_def
      checked_add_def checked_sub_def u128_max_def)

theorem replay_accounts_exactly_witness:
  "\<exists>l. replay sample_flows = Inr l \<and> dl_written_off l = 1034878725 \<and> is_ok (settle_destroyed l)"
proof -
  obtain l where l: "replay sample_flows = Inr l" using sample_replays by (auto simp: is_ok_iff)
  then show ?thesis
    using replay_accounts_exactly [OF l]
    by (simp add: sample_flows_def funded_def credits_def burns_def)
qed

lemma apply_flow_ok_iff:
  assumes "ledger_inv fs l"
  shows "is_ok (apply_flow l f) \<longleftrightarrow> funded (fs @ [f]) \<le> u128_max \<and> paid_out (fs @ [f]) \<le> funded (fs @ [f])"
  using assms
  by (cases "is_inflow f") (auto simp: is_ok_iff apply_inflow apply_outflow ledger_inv_def)

lemma replay_snoc_ok:
  "is_ok (replay (fs @ [f])) \<longleftrightarrow>
     is_ok (replay fs) \<and> funded (fs @ [f]) \<le> u128_max \<and> paid_out (fs @ [f]) \<le> funded (fs @ [f])"
proof -
  have "replay (fs @ [f]) = and_then (replay fs) (\<lambda>l. apply_flow l f)"
    by (cases "replay fs") (auto simp: replay_def try_fold_append and_then_def split: sum.splits)
  then show ?thesis using apply_flow_ok_iff [OF replay_inv] by (cases "replay fs") auto
qed

text \<open>A history that pays in first and then pays out no more than that goes through.\<close>

lemma replay_inflows_ok:
  "\<forall>f\<in>set ins. is_inflow f \<Longrightarrow> funded ins \<le> u128_max \<Longrightarrow> is_ok (replay ins) \<and> paid_out ins = 0"
proof (induction ins rule: rev_induct)
  case Nil
  show ?case by (simp add: replay_def)
qed (simp add: replay_snoc_ok)

lemma replay_in_out_ok:
  assumes "\<forall>f\<in>set ins. is_inflow f" and "funded ins \<le> u128_max"
  shows "\<forall>f\<in>set outs. \<not> is_inflow f \<Longrightarrow> paid_out outs \<le> funded ins \<Longrightarrow>
    is_ok (replay (ins @ outs)) \<and> funded (ins @ outs) = funded ins \<and> paid_out (ins @ outs) = paid_out outs"
proof (induction outs rule: rev_induct)
  case Nil
  show ?case using replay_inflows_ok [OF assms] by simp
next
  case (snoc f outs)
  then have "is_ok (replay (ins @ outs)) \<and> funded (ins @ outs) = funded ins \<and> paid_out (ins @ outs) = paid_out outs"
    by simp
  then show ?case
    using snoc.prems assms(2) replay_snoc_ok [of "ins @ outs" f] totals_snoc(1,2) [of "ins @ outs" f] by simp
qed

text \<open>
  The replay rejects exactly the impossible histories.  It goes through if and only if
  everything funded fits \<open>u128\<close> and at no point had more left the deal than had come in.
\<close>

theorem replay_succeeds_iff:
  "is_ok (replay flows) \<longleftrightarrow>
     funded flows \<le> u128_max \<and> (\<forall>n\<le>length flows. paid_out (take n flows) \<le> funded (take n flows))"
proof (induction flows rule: rev_induct)
  case Nil
  show ?case by (simp add: replay_def)
next
  case (snoc f fs)
  have mono: "funded fs \<le> funded (fs @ [f])" by simp
  have prefixes: "(\<forall>n\<le>length (fs @ [f]). paid_out (take n (fs @ [f])) \<le> funded (take n (fs @ [f]))) \<longleftrightarrow>
      (\<forall>n\<le>length fs. paid_out (take n fs) \<le> funded (take n fs)) \<and> paid_out (fs @ [f]) \<le> funded (fs @ [f])"
    by (auto simp: le_Suc_eq simp del: totals_snoc)
  note replay_snoc_ok [of fs f]
  then show ?case unfolding prefixes snoc.IH using mono order_trans by blast
qed

theorem replay_succeeds_iff_witness:
  "is_ok (replay sample_flows) \<and> \<not> is_ok (replay [EscrowFunded 5, WrittenOff 6])"
  using replay_succeeds_iff [of "[EscrowFunded 5, WrittenOff 6]"] sample_replays
  by (auto simp: funded_def paid_out_def dest: spec [of _ 2])

text \<open>
  The write-off derived from a deal's own declared figures is the money really burned.
  On a deal that settles as destroyed, what was funded less what the notes were credited is the
  exact sum of its write-offs, and declaring that payout agrees with the credits.
\<close>

theorem implied_write_off_is_burned:
  assumes "replay flows = Inr l" and "settle_destroyed l = Inr s"
  shows "implied_write_off (se_funded_in s) (se_credited_out s) = Inr (burns flows)
     \<and> check_declared_payout_against_credits (se_credited_out s) (credits flows) = Inr ()"
proof -
  have inv: "ledger_inv flows l" using replay_inv [OF assms(1)] .
  then show ?thesis
    using assms(2) settle_inv [OF inv]
    by (auto simp: settle_destroyed_def implied_write_off_def check_declared_payout_against_credits_def
        checked_sub_def ledger_inv_def paid_out_split split: if_splits)
qed

theorem implied_write_off_is_burned_witness:
  "\<exists>l s. replay sample_flows = Inr l \<and> settle_destroyed l = Inr s
     \<and> implied_write_off (se_funded_in s) (se_credited_out s) = Inr 1034878725"
proof -
  obtain l where l: "replay sample_flows = Inr l" using sample_replays by (auto simp: is_ok_iff)
  have inv: "ledger_inv sample_flows l" using replay_inv [OF l] .
  have "dl_balance l = 0"
    using inv by (simp add: ledger_inv_def sample_flows_def funded_def paid_out_def)
  then obtain s where s: "settle_destroyed l = Inr s" using settle_inv [OF inv] by (simp add: settle_destroyed_def)
  show ?thesis using implied_write_off_is_burned [OF l s] l s by (auto simp: sample_flows_def burns_def)
qed

end
