(* ===== verification/Recovery.thy ===== *)
theory Recovery
  imports HexText
begin

text \<open>
  The client's pure pre-flight checks of \<open>crates/core/src/market/accounting.rs\<close> and
  \<open>crates/core/src/market/mod.rs\<close>: what a command verifies on the state it read before it submits
  a recovery, dispute, reclaim, release or withdrawal, the classification of a reported match, the
  seller's resume check, the claim bounds and the heartbeat guard.  Each refusal of the source is
  one constructor; the wording of the message is not modelled.
\<close>

section \<open>Refusals\<close>

datatype preflight_error =
    PfNotOpen
  | PfDisputed
  | PfNoBuyerNote
  | PfNotBuyerNote
  | PfNoBuyerKey
  | PfNotBuyerKey
  | PfNotFunded
  | PfStillOpen
  | PfTerminal
  | PfNotNeverOpened
  | PfTooEarly
  | PfNotDisputed
  | PfNoSellerKey
  | PfNotSellerKey
  | PfNothingWithdrawable
  | PfAboveFinalized

type_synonym ed_key = "u8 list"


section \<open>Never-opened matches\<close>

definition exact_never_opened_funded_time :: "deal_chain_state \<Rightarrow> nat option" where
  "exact_never_opened_funded_time state =
     (case dc_funded_time state of
        None \<Rightarrow> None
      | Some funded_time \<Rightarrow>
          if \<not> funded_time > 0 then None
          else if dc_funded state \<and> \<not> dc_opened state \<and> \<not> dc_probe_accepted state \<and> \<not> dc_disputed state
                  \<and> dc_deposit state > 0 \<and> dc_probe_tick state = 0 \<and> dc_finalized_owed state = 0
                  \<and> dc_tokens_final state = 0 \<and> dc_tokens_pending state = 0 \<and> dc_probe_time state = 0
                  \<and> dc_last_claim_time state = funded_time \<and> dc_dispute_time state = 0
          then Some funded_time else None)"

datatype matched_token_contract_status =
    MatchOpened
  | FundedNeverOpened (fno_funded_time: "nat option") (fno_cleanup_after: "nat option")
      (fno_cleanup_ready: bool) (fno_remaining: "nat option")

definition check_matched_token_contract_state ::
    "deal_chain_state \<Rightarrow> nat \<Rightarrow> nat \<Rightarrow> (matched_token_contract_status, preflight_error) result" where
  "check_matched_token_contract_state state now_secs match_open_timeout_secs =
     (if dc_disputed state then Inl PfDisputed
      else if \<not> dc_funded state then Inl PfNotFunded
      else if dc_opened state then Inr MatchOpened
      else
        and_then (ok_or (exact_never_opened_funded_time state) PfNotNeverOpened) (\<lambda>funded_time.
        let cleanup_after_unix = saturating_add u64_max funded_time match_open_timeout_secs in
        Inr (FundedNeverOpened (Some funded_time) (Some cleanup_after_unix)
               (now_secs \<ge> cleanup_after_unix) (Some (saturating_sub cleanup_after_unix now_secs)))))"


section \<open>The buyer's commands\<close>

definition check_recoverable ::
    "bool \<Rightarrow> bool \<Rightarrow> string option \<Rightarrow> string \<Rightarrow> ed_key option \<Rightarrow> ed_key \<Rightarrow> (unit, preflight_error) result" where
  "check_recoverable opened disputed buyer_note note_addr buyer_pubkey note_ed_pubkey =
     (if \<not> opened then Inl PfNotOpen
      else if disputed then Inl PfDisputed
      else
        and_then (case buyer_note of
                    None \<Rightarrow> Inl PfNoBuyerNote
                  | Some buyer \<Rightarrow> if buyer \<noteq> note_addr then Inl PfNotBuyerNote else Inr ()) (\<lambda>_.
        case buyer_pubkey of
          None \<Rightarrow> Inl PfNoBuyerKey
        | Some bpk \<Rightarrow> if bpk \<noteq> note_ed_pubkey then Inl PfNotBuyerKey else Inr ()))"

definition check_buyer_owns ::
    "string option \<Rightarrow> string \<Rightarrow> ed_key option \<Rightarrow> ed_key \<Rightarrow> (unit, preflight_error) result" where
  "check_buyer_owns buyer_note note_addr buyer_pubkey note_ed_pubkey =
     and_then (case buyer_note of
                 None \<Rightarrow> Inl PfNoBuyerNote
               | Some buyer \<Rightarrow> if buyer \<noteq> note_addr then Inl PfNotBuyerNote else Inr ()) (\<lambda>_.
     case buyer_pubkey of
       None \<Rightarrow> Inl PfNoBuyerKey
     | Some bpk \<Rightarrow> if bpk \<noteq> note_ed_pubkey then Inl PfNotBuyerKey else Inr ())"

definition check_disputable ::
    "bool \<Rightarrow> bool \<Rightarrow> string option \<Rightarrow> string \<Rightarrow> ed_key option \<Rightarrow> ed_key \<Rightarrow> (unit, preflight_error) result" where
  "check_disputable opened disputed buyer_note note_addr buyer_pubkey note_ed_pubkey =
     (if \<not> opened then Inl PfNotOpen
      else if disputed then Inl PfDisputed
      else check_buyer_owns buyer_note note_addr buyer_pubkey note_ed_pubkey)"

definition check_reclaimable ::
    "deal_chain_state \<Rightarrow> string option \<Rightarrow> string \<Rightarrow> ed_key option \<Rightarrow> ed_key \<Rightarrow> nat \<Rightarrow> nat
     \<Rightarrow> (unit, preflight_error) result" where
  "check_reclaimable state buyer_note note_addr buyer_pubkey note_ed_pubkey now match_open_timeout =
     (if dc_disputed state then Inl PfDisputed
      else
        and_then (check_buyer_owns buyer_note note_addr buyer_pubkey note_ed_pubkey) (\<lambda>_.
        if \<not> dc_funded state then Inl PfNotFunded
        else if dc_opened state then Inl PfStillOpen
        else if is_stopped state then Inl PfTerminal
        else
          and_then (ok_or (exact_never_opened_funded_time state) PfNotNeverOpened) (\<lambda>funded_time.
          let deadline = saturating_add u64_max funded_time match_open_timeout in
          if now < deadline then Inl PfTooEarly else Inr ())))"


section \<open>The seller's commands\<close>

definition check_release_disputable :: "bool \<Rightarrow> (unit, preflight_error) result" where
  "check_release_disputable disputed = (if disputed then Inr () else Inl PfNotDisputed)"

definition norm_pubkey :: "string \<Rightarrow> string" where
  "norm_pubkey s =
     dropWhile (\<lambda>c. c = CHR ''0'')
       (to_ascii_lowercase (trim_start_matches ''0X'' (trim_start_matches ''0x'' (str_trim s))))"

definition check_seller_pubkey :: "string option \<Rightarrow> string \<Rightarrow> (unit, preflight_error) result" where
  "check_seller_pubkey seller_pubkey signing_pubkey_hex =
     and_then (ok_or (case seller_pubkey of
                        Some s \<Rightarrow> if str_trim s \<noteq> [] then Some s else None
                      | None \<Rightarrow> None) PfNoSellerKey) (\<lambda>seller.
     if norm_pubkey seller = norm_pubkey signing_pubkey_hex then Inr () else Inl PfNotSellerKey)"

text \<open>The two checks of the command \<open>release-dispute\<close> (\<open>cli/recover.rs\<close>), in its order.\<close>

definition run_release_checks :: "bool \<Rightarrow> string option \<Rightarrow> string \<Rightarrow> (unit, preflight_error) result" where
  "run_release_checks disputed seller_pubkey signing_pubkey_hex =
     and_then (check_release_disputable disputed) (\<lambda>_. check_seller_pubkey seller_pubkey signing_pubkey_hex)"

definition check_withdrawable_shell :: "nat \<Rightarrow> nat option \<Rightarrow> (nat, preflight_error) result" where
  "check_withdrawable_shell finalized_owed amount_opt =
     (let amount = (case amount_opt of Some a \<Rightarrow> a | None \<Rightarrow> finalized_owed) in
      if amount = 0 then Inl PfNothingWithdrawable
      else if amount > finalized_owed then Inl PfAboveFinalized
      else Inr amount)"

text \<open>The seller's resume check collects every blocker it finds.\<close>

datatype resume_blocker =
    NotFundedYet
  | InDispute
  | ProbeWithoutOpen
  | DepositBelowPrice nat nat
  | NonZeroField string nat

definition resume_blockers :: "deal_chain_state \<Rightarrow> nat \<Rightarrow> resume_blocker list" where
  "resume_blockers state price_per_tick =
     (if \<not> dc_funded state then [NotFundedYet] else [])
     @ (if dc_disputed state then [InDispute] else [])
     @ (if dc_probe_accepted state \<and> \<not> dc_opened state then [ProbeWithoutOpen] else [])
     @ (if \<not> dc_opened state
        then (if dc_deposit state < price_per_tick then [DepositBelowPrice (dc_deposit state) price_per_tick] else [])
             @ map (\<lambda>(key, v). NonZeroField key v)
                 (filter (\<lambda>(key, v). v > 0)
                   [(''probeTick'', dc_probe_tick state), (''finalizedOwed'', dc_finalized_owed state),
                    (''tokensFinal'', dc_tokens_final state), (''tokensPending'', dc_tokens_pending state)])
        else [])"

definition validate_seller_resume_state ::
    "deal_chain_state \<Rightarrow> nat \<Rightarrow> (unit, resume_blocker list) result" where
  "validate_seller_resume_state state price_per_tick =
     (let blockers = resume_blockers state price_per_tick in
      if blockers = [] then Inr () else Inl blockers)"


section \<open>Claim bounds and heartbeat\<close>

record claim_bounds =
  cb_min_claim_interval :: nat
  cb_min_seconds_per_tick :: nat
  cb_promote_window :: nat
  cb_probe_window :: nat
  cb_dispute_window :: nat

definition claim_bounds_canonical :: claim_bounds where
  "claim_bounds_canonical =
     (let c = canonical_consts in
      \<lparr>cb_min_claim_interval = min_claim_interval c, cb_min_seconds_per_tick = min_seconds_per_tick c,
       cb_promote_window = claim_promote_window c, cb_probe_window = probe_window c,
       cb_dispute_window = dispute_window c\<rparr>)"

definition claim_bounds_from_config :: "nat \<Rightarrow> nat \<Rightarrow> nat \<Rightarrow> claim_bounds" where
  "claim_bounds_from_config interval seconds_per_tick window =
     \<lparr>cb_min_claim_interval = interval, cb_min_seconds_per_tick = seconds_per_tick,
      cb_promote_window = seconds_per_tick, cb_probe_window = PROBE_WINDOW, cb_dispute_window = window\<rparr>"

definition bounds_max_claim_delta :: "claim_bounds \<Rightarrow> nat \<Rightarrow> nat" where
  "bounds_max_claim_delta b elapsed = claim_delta_limit elapsed (cb_min_seconds_per_tick b)"

text \<open>
  The guard shares two atomics with other tasks: the current generation and the veto, when there
  is one.  They are arguments here, read at the moment of the call.
\<close>

record heartbeat_guard =
  hg_expected :: nat
  hg_has_veto :: bool

definition heartbeat_new :: "nat \<Rightarrow> heartbeat_guard" where
  "heartbeat_new generation = \<lparr>hg_expected = generation, hg_has_veto = False\<rparr>"

definition with_stop_veto :: "heartbeat_guard \<Rightarrow> heartbeat_guard" where
  "with_stop_veto g = g\<lparr>hg_has_veto := True\<rparr>"

definition heartbeat_unchanged :: "heartbeat_guard \<Rightarrow> nat \<Rightarrow> bool \<Rightarrow> bool" where
  "heartbeat_unchanged g generation veto \<longleftrightarrow> generation = hg_expected g \<and> \<not> (hg_has_veto g \<and> veto)"

text \<open>The bounds derived from a deal that runs on the canonical constants are the canonical ones.\<close>

lemma canonical_bounds_derived:
  "claim_bounds_from_config (min_claim_interval canonical_consts) (min_seconds_per_tick canonical_consts)
     (dispute_window canonical_consts) = claim_bounds_canonical"
  by (simp add: claim_bounds_from_config_def claim_bounds_canonical_def canonical_consts_def Let_def)


section \<open>Which checks agree\<close>

lemma buyer_owns_iff:
  "check_buyer_owns bn addr bk key = Inr () \<longleftrightarrow> bn = Some addr \<and> bk = Some key"
  by (auto simp: check_buyer_owns_def result_simps split: option.splits if_splits)

lemma recoverable_iff:
  "check_recoverable opened disputed bn addr bk key = Inr () \<longleftrightarrow>
     opened \<and> \<not> disputed \<and> bn = Some addr \<and> bk = Some key"
  by (auto simp: check_recoverable_def result_simps split: option.splits if_splits)

lemma disputable_iff:
  "check_disputable opened disputed bn addr bk key = Inr () \<longleftrightarrow>
     opened \<and> \<not> disputed \<and> bn = Some addr \<and> bk = Some key"
  by (auto simp: check_disputable_def buyer_owns_iff)

lemma never_opened_not_stopped:
  "exact_never_opened_funded_time state = Some t \<Longrightarrow> \<not> is_stopped state \<and> dc_funded state \<and> \<not> dc_opened state \<and> \<not> dc_disputed state"
  by (auto simp: exact_never_opened_funded_time_def is_stopped_def split: option.splits if_splits)

lemma reclaimable_iff:
  "check_reclaimable state bn addr bk key now timeout = Inr () \<longleftrightarrow>
     bn = Some addr \<and> bk = Some key
     \<and> (\<exists>t. exact_never_opened_funded_time state = Some t \<and> saturating_add u64_max t timeout \<le> now)"
  using never_opened_not_stopped [of state]
  by (auto simp: check_reclaimable_def result_simps buyer_owns_iff Let_def not_less split: if_splits)

text \<open>
  The two ways the client looks at a never-opened match agree.  For the buyer that owns
  the deal, \<open>reclaim\<close> is admissible exactly when the classification of the reported match says
  that its clean-up is ready, and the seconds the classification reports as remaining are zero
  exactly then.
\<close>

theorem reclaim_agrees_with_classification:
  "check_reclaimable state (Some addr) addr (Some key) key now timeout = Inr () \<longleftrightarrow>
     (\<exists>t deadline. check_matched_token_contract_state state now timeout
        = Inr (FundedNeverOpened (Some t) (Some deadline) True (Some 0)))"
  using never_opened_not_stopped [of state]
  by (auto simp: reclaimable_iff check_matched_token_contract_state_def result_simps Let_def
      saturating_sub_def)


section \<open>The seller's key\<close>

lemma norm_hex:
  assumes "list_all is_hex_char s"
  shows "norm_pubkey s = dropWhile (\<lambda>c. c = CHR ''0'') (to_ascii_lowercase s)"
proof -
  have "trim_start_matches ''0x'' s = s" "trim_start_matches ''0X'' s = s"
    using hex_no_prefix [OF assms, of "CHR ''x''"] hex_no_prefix [OF assms, of "CHR ''X''"]
    by (simp_all add: trim_start_matches_other numeral_2_eq_2)
  then show ?thesis using hex_trim [OF assms] by (simp add: norm_pubkey_def)
qed

lemma norm_0x_hex:
  assumes "list_all is_hex_char s"
  shows "norm_pubkey (''0x'' @ s) = norm_pubkey s"
proof -
  have "trim_start_matches ''0x'' (''0x'' @ s) = trim_start_matches ''0x'' s"
    by (subst trim_start_matches.simps) simp
  then show ?thesis
    unfolding norm_pubkey_def trim_0x_hex [OF assms] hex_trim [OF assms] by simp
qed

lemma norm_eq_iff:
  assumes "list_all is_hex_char s" "list_all is_hex_char t"
  shows "norm_pubkey s = norm_pubkey t \<longleftrightarrow> hex_value s = hex_value t"
proof -
  let ?z = "\<lambda>c. c = CHR ''0''"
  let ?n = "\<lambda>u. dropWhile ?z (to_ascii_lowercase u)"
  have val: "hex_value (?n u) = hex_value u" if "list_all is_hex_char u" for u
    using hex_value_zeros hex_value_lower [OF that] by simp
  have hex: "list_all lower_hex (?n u)" if "list_all is_hex_char u" for u
    using that hex_lower(1) by (auto simp: list_all_iff to_ascii_lowercase_def dest!: set_dropWhileD)
  have lead: "?n u = [] \<or> hd (?n u) \<noteq> CHR ''0''" for u
    using hd_dropWhile [of ?z "to_ascii_lowercase u"] by (cases "?n u = []") auto
  have "?n s = ?n t" if "hex_value s = hex_value t"
    using hex_value_inj [OF hex [OF assms(1)] hex [OF assms(2)] lead lead] val [OF assms(1)] val [OF assms(2)] that
    by simp
  moreover have "?n s = ?n t \<Longrightarrow> hex_value s = hex_value t" using val assms by metis
  ultimately show ?thesis using norm_hex assms by auto
qed

text \<open>
  The seller-key check compares numbers, not spellings.  For a key that the contract
  renders as \<open>0x\<close> and hex digits, and a signing key given as bare hex digits, the check passes
  exactly if both denote the same number, whatever the letter case and the leading zeros.
\<close>

theorem seller_key_compared_as_number:
  assumes "list_all is_hex_char s" and "list_all is_hex_char t"
  shows "check_seller_pubkey (Some (''0x'' @ s)) t = Inr () \<longleftrightarrow> hex_value s = hex_value t"
proof -
  have "str_trim (''0x'' @ s) \<noteq> []" using trim_0x_hex [OF assms(1)] by simp
  then show ?thesis
    using norm_eq_iff [OF assms] norm_0x_hex [OF assms(1)] by (simp add: check_seller_pubkey_def)
qed

theorem seller_key_compared_as_number_witness:
  "check_seller_pubkey (Some ''0x00Ab'') ''aB'' = Inr ()"
  using seller_key_compared_as_number [of "''00Ab''" "''aB''"]
  by (simp add: is_hex_char_def lower_hex_def hex_value_def hex_val_def of_char_lowercase)

end
