(* ===== verification/Preflight.thy ===== *)
theory Preflight
  imports Recovery BackendProps
begin

text \<open>
  The checks the client makes before it submits (theory \<open>Recovery\<close>) against the backend that
  executes (theory \<open>MockBook\<close>): on every reachable state a check admits a command exactly when
  the backend carries the command out, up to the two things the client alone looks at, the note's address and the seller's key.
\<close>

section \<open>When the operations of one deal succeed\<close>

lemma stop_succeeds_iff:
  assumes inv: "deal_inv c now cell sub" and ok: "consts_ok c" and rng: "in_range c now cell sub"
    and t: "now \<le> t1" "t1 \<le> t2"
  shows "is_ok (stop_mock_stream cell sub t1 t2 c) \<longleftrightarrow> \<not> sc_closed cell \<and> \<not> sc_disputed cell"
proof (cases "\<not> sc_closed cell \<and> \<not> sc_disputed cell")
  case op: True
  have "is_ok (stop_accepted cell sub t1 t2 c)" if "sc_probe_accepted cell"
    using stop_accepted_settles [OF _ _ _ ok rng t] running_iff [of c now cell sub] inv op that
    by (auto simp: is_ok_iff)
  moreover have "is_ok (stop_on_probe cell)" if "\<not> sc_probe_accepted cell"
  proof -
    have "cell_money cell \<le> u128_max" "sc_probe_locked cell = sc_price cell" "sc_seller_locked cell = 2 * sc_price cell"
      "sm_state (sc_machine cell) = Probe \<lparr>tk_index = 0, tk_price = sc_price cell\<rparr>"
      using inv rng op that by (auto simp: deal_inv_def books_inv_def machine_inv_def in_range_def)
    then show ?thesis
      by (simp add: stop_on_probe_def machine_buyer_stop_def Let_def add_u128_ok cell_money_def drained_def)
  qed
  ultimately show ?thesis using op by (auto simp: stop_mock_stream_def is_ok_iff result_simps)
qed (auto simp: stop_mock_stream_def)

lemma dispute_succeeds_iff:
  assumes "sc_price cell * 2 \<le> u128_max"
  shows "is_ok (dispute_deal tc cell b t) \<longleftrightarrow> \<not> sc_closed cell \<and> \<not> sc_disputed cell"
  using assms by (auto simp: dispute_deal_def checked_mul_def Let_def)

lemma release_succeeds_iff:
  assumes inv: "deal_inv c now cell sub" and ok: "consts_ok c" and rng: "in_range c now cell sub"
  shows "is_ok (release_dispute_deal cell sub c) \<longleftrightarrow> sc_disputed cell"
proof (cases "sc_disputed cell")
  case True
  then have "\<not> sc_closed cell" using inv by (auto simp: deal_inv_def)
  then show ?thesis
    using resolve_mock_dispute_ok [OF inv _ True ok rng, of False] True
    by (auto simp: release_dispute_deal_def)
qed (auto simp: release_dispute_deal_def resolve_mock_dispute_def chain_err_def)

lemma update_deal_ok:
  assumes "hm_get (ms_streams st) tc = Some cell" and "hm_get (ms_deal_subscriptions st) tc = Some sub"
  shows "is_ok (update_deal a tc st f) \<longleftrightarrow> is_ok (f cell sub)"
  using assms by (cases "f cell sub") (auto simp: update_deal_def deal_of_def)

lemma is_ok_and_then: "is_ok (and_then m f) \<longleftrightarrow> (\<exists>x. m = Inr x \<and> is_ok (f x))"
  by (cases m) simp_all

lemma is_ok_swap:
  "is_ok (and_then m (\<lambda>(a, b, s). Inr (s, a, b))) \<longleftrightarrow> is_ok m"
  "is_ok (and_then m' (\<lambda>(a, s). Inr (s, a, b))) \<longleftrightarrow> is_ok m'"
  by (cases m; auto) (cases m'; auto)


section \<open>Checks and commands\<close>

lemma deal_price_fits:
  assumes "deal_inv c now cell sub" and "in_range c now cell sub"
  shows "sc_price cell * 2 \<le> u128_max"
  using assms by (auto simp: in_range_def deal_funding_def)

lemma state_of_stream:
  assumes inv: "state_inv c now st" and cell: "hm_get (ms_streams st) tc = Some cell"
    and state: "mock_deal_state st tc c = Inr (Some state)"
  shows "dc_funded state \<and> dc_opened state = (\<not> sc_closed cell) \<and> dc_disputed state = sc_disputed cell
     \<and> dc_probe_accepted state = sc_probe_accepted cell
     \<and> dc_deposit state = (if sc_closed cell then 0 else sc_buyer_locked cell)"
  using state cell by (auto simp: mock_deal_state_def result_simps split: if_splits)

text \<open>
  Claim C28: the client submits nothing the chain would refuse, and refuses for its own reasons only a wrong note or
  a wrong seller key.  On every reachable state with an opened deal whose amounts fit, with the state the backend
  reports: the check before a recovery passes exactly when the buyer note on chain is the caller's note and the backend's stop
  succeeds, and likewise the check before a dispute and the backend's dispute; the two checks before the release of a dispute pass exactly
  when the backend's release succeeds and the signing key is the seller's.  The note and the seller key are checked by the
  client alone: the backend has no note addresses, and releases whoever asks.
\<close>

theorem preflight_agrees_with_backend:
  assumes reach: "state_reach c h now st" and ok: "consts_ok c"
    and cell: "hm_get (ms_streams st) tc = Some cell" and sub: "hm_get (ms_deal_subscriptions st) tc = Some sub"
    and rng: "in_range c now cell sub" and state: "mock_deal_state st tc c = Inr (Some state)"
    and t: "now \<le> t1" "t1 \<le> t2"
  shows "(check_recoverable (dc_opened state) (dc_disputed state) buyer_note addr
            (Some (pk_ed (sc_buyer_pubkey cell))) (pk_ed key) = Inr ()
            \<longleftrightarrow> buyer_note = Some addr \<and> is_ok (stop tc key t1 t2 c st))
     \<and> (check_disputable (dc_opened state) (dc_disputed state) buyer_note addr
            (Some (pk_ed (sc_buyer_pubkey cell))) (pk_ed key) = Inr ()
            \<longleftrightarrow> buyer_note = Some addr \<and> is_ok (dispute tc key t1 st))
     \<and> (run_release_checks (dc_disputed state) seller_key signing_key = Inr ()
            \<longleftrightarrow> is_ok (release_dispute tc c st) \<and> check_seller_pubkey seller_key signing_key = Inr ())"
proof -
  have typed: "consts_typed c" using ok by (simp add: consts_ok_def)
  have sinv: "state_inv c now st" using state_reach_inv [OF reach typed] .
  then have inv: "deal_inv c now cell sub" using stream_of_match [OF sinv cell] sub by auto
  note st = state_of_stream [OF sinv cell state]
  note upd = update_deal_ok [OF cell sub]
  have actor: "is_ok (and_then (require_mock_buyer_actor st tc key a) (\<lambda>_. m)) \<longleftrightarrow>
      pk_ed key = pk_ed (sc_buyer_pubkey cell) \<and> is_ok m" for a m
    using cell by (auto simp: is_ok_and_then buyer_actor_Inr)
  have "is_ok (stop tc key t1 t2 c st) \<longleftrightarrow>
      pk_ed key = pk_ed (sc_buyer_pubkey cell) \<and> \<not> sc_closed cell \<and> \<not> sc_disputed cell"
    using stop_succeeds_iff [OF inv ok rng t]
    by (simp add: stop_def actor stop_stream_def upd is_ok_swap)
  moreover have "is_ok (dispute tc key t1 st) \<longleftrightarrow>
      pk_ed key = pk_ed (sc_buyer_pubkey cell) \<and> \<not> sc_closed cell \<and> \<not> sc_disputed cell"
    using dispute_succeeds_iff [OF deal_price_fits [OF inv rng]]
    by (simp add: dispute_def actor upd is_ok_swap)
  moreover have "is_ok (release_dispute tc c st) \<longleftrightarrow> sc_disputed cell"
    using release_succeeds_iff [OF inv ok rng]
    by (simp add: release_dispute_def upd is_ok_swap)
  ultimately show ?thesis
    using st by (auto simp: recoverable_iff disputable_iff run_release_checks_def check_release_disputable_def)
qed

theorem preflight_agrees_with_backend_witness:
  "is_ok (stop ''0:ab'' sample_key 1000 1000 canonical_consts opened_state)
   \<and> is_ok (dispute ''0:ab'' sample_key 1000 opened_state)
   \<and> \<not> is_ok (release_dispute ''0:ab'' canonical_consts opened_state)"
proof -
  obtain state where state: "mock_deal_state opened_state ''0:ab'' canonical_consts = Inr (Some state)"
      "dc_opened state" "\<not> dc_disputed state"
    by (simp add: mock_deal_state_def opened_state_def matched_state_def posted_state_def mock_state_default_def
        mock_funded_time_def map_eval sample_defs)
  have rows: "hm_get (ms_streams opened_state) ''0:ab'' = Some plain_cell"
    "hm_get (ms_deal_subscriptions opened_state) ''0:ab'' = Some plain_shape"
    by (simp_all add: opened_state_def matched_state_def map_eval)
  have "pk_ed (sc_buyer_pubkey plain_cell) = pk_ed sample_key" by (simp add: sample_defs)
  then show ?thesis
    using preflight_agrees_with_backend [OF sample_state_reach(3) canonical_consts_ok rows sample_in_range(4) state(1),
        of 1000 1000 "Some []" "[]" sample_key "Some ''0x1''" "''1''"] state(2,3)
      seller_key_compared_as_number [of "''1''" "''1''"]
    by (simp add: recoverable_iff disputable_iff run_release_checks_def check_release_disputable_def is_hex_char_def lower_hex_def)
qed

text \<open>
  The checks on a match that has not been opened are right as well.  On every reachable
  state the seller may resume a matched deal exactly while it is unopened or open and undisputed;
  and for an unopened match whose amounts and deadline fit, the buyer's reclaim is admitted
  exactly when the backend's clean-up succeeds.
\<close>

theorem resume_and_reclaim_agree:
  assumes reach: "state_reach c h now st" and typed: "consts_typed c"
    and m: "hm_get (ms_matches st) tc = Some m"
    and sub: "hm_get (ms_deal_subscriptions st) tc = Some sub"
    and at: "hm_get (ms_match_created_at st) tc = Some at"
    and fits: "cost_of c (mt_price_per_tick m) (ds_funded_tokens sub) + 2 * mt_price_per_tick m \<le> u128_max"
      "nat at + MATCH_OPEN_TIMEOUT_SECS \<le> u64_max"
    and state: "mock_deal_state st tc c = Inr (Some state)"
  shows "(validate_seller_resume_state state (mt_price_per_tick m) = Inr () \<longleftrightarrow>
            (case hm_get (ms_streams st) tc of
               None \<Rightarrow> True | Some cell \<Rightarrow> \<not> sc_closed cell \<and> \<not> sc_disputed cell))
     \<and> (hm_get (ms_streams st) tc = None \<longrightarrow>
          (check_reclaimable state (Some addr) addr (Some key) key t MATCH_OPEN_TIMEOUT_SECS = Inr () \<longleftrightarrow>
             is_ok (cleanup_unopened tc t c st)))"
proof -
  have inv: "state_inv c now st" using state_reach_inv [OF reach typed] .
  obtain offer k where f: "fill_bound c now tc m offer k sub at"
    using state_inv_match [OF inv m] at sub by (auto simp: match_inv_def)
  have price: "0 < mt_price_per_tick m"
    using f by (auto simp: fill_bound_def offer_inv_def validate_mock_sell_offer_def Let_def split: if_splits)
  have cost: "mt_price_per_tick m \<le> cost_of c (mt_price_per_tick m) (ds_funded_tokens sub)"
    using f price_le_cost [of sub "mt_price_per_tick m" c] by (simp add: fill_bound_def)
  show ?thesis
  proof (cases "hm_get (ms_streams st) tc")
    case None
    note eq = unopened_state_eq [OF inv typed m None f at sub]
    have "is_ok (cleanup_unopened tc t c st) \<longleftrightarrow> nat at + MATCH_OPEN_TIMEOUT_SECS \<le> t"
      using None m sub fits eq
      by (auto simp: cleanup_unopened_def hm_contains_def checked_add_def checked_mul_def add_u128_ok Let_def)
    moreover have "check_reclaimable state (Some addr) addr (Some key) key t MATCH_OPEN_TIMEOUT_SECS = Inr () \<longleftrightarrow>
        nat at + MATCH_OPEN_TIMEOUT_SECS \<le> t"
      using state f fits price cost unfolding eq
      by (auto simp: reclaimable_iff exact_never_opened_funded_time_def fill_bound_def saturating_add_def)
    moreover have "validate_seller_resume_state state (mt_price_per_tick m) = Inr ()"
      using state cost unfolding eq by (auto simp: validate_seller_resume_state_def resume_blockers_def)
    ultimately show ?thesis using None by simp
  next
    case (Some cell)
    show ?thesis
      using state_of_stream [OF inv Some state] price Some
      by (auto simp: validate_seller_resume_state_def resume_blockers_def Let_def)
  qed
qed

theorem resume_and_reclaim_agree_witness:
  "\<exists>state. mock_deal_state matched_state ''0:ab'' canonical_consts = Inr (Some state)
     \<and> validate_seller_resume_state state 1000000000 = Inr ()
     \<and> check_reclaimable state (Some ''a'') ''a'' (Some []) [] 1499 MATCH_OPEN_TIMEOUT_SECS \<noteq> Inr ()
     \<and> check_reclaimable state (Some ''a'') ''a'' (Some []) [] 1500 MATCH_OPEN_TIMEOUT_SECS = Inr ()"
proof -
  have rows: "hm_get (ms_matches matched_state) ''0:ab'' = Some sample_match"
    "hm_get (ms_deal_subscriptions matched_state) ''0:ab'' = Some plain_shape"
    "hm_get (ms_match_created_at matched_state) ''0:ab'' = Some 900"
    "hm_get (ms_streams matched_state) ''0:ab'' = None"
    by (simp_all add: matched_state_def posted_state_def mock_state_default_def map_eval)
  have fits: "cost_of canonical_consts (mt_price_per_tick sample_match) (ds_funded_tokens plain_shape)
      + 2 * mt_price_per_tick sample_match \<le> u128_max" "nat 900 + MATCH_OPEN_TIMEOUT_SECS \<le> u64_max"
    by (simp_all add: sample_defs sample_match_def sample_cost u128_max_def u64_max_def MATCH_OPEN_TIMEOUT_SECS_def)
  have inv: "state_inv canonical_consts 900 matched_state"
    using state_reach_inv [OF sample_state_reach(2) canonical_consts_typed] .
  obtain offer k where f: "fill_bound canonical_consts 900 ''0:ab'' sample_match offer k plain_shape 900"
    using unopened_rows [OF inv rows(1,4)] rows(2,3) by (metis option.inject)
  note eq = unopened_state_eq [OF inv canonical_consts_typed rows(1,4) f rows(3,2)]
  note agree = resume_and_reclaim_agree [OF sample_state_reach(2) canonical_consts_typed rows(1-3) fits eq]
  have "is_ok (cleanup_unopened ''0:ab'' t canonical_consts matched_state) \<longleftrightarrow> 1500 \<le> t" for t
    using rows fits
    by (auto simp: cleanup_unopened_def eq hm_contains_def checked_add_def checked_mul_def add_u128_ok
        MATCH_OPEN_TIMEOUT_SECS_def Let_def)
  then show ?thesis
    using agree [of "''a''" "[]" 1500] agree [of "''a''" "[]" 1499] rows(4) eq by (simp add: sample_match_def)
qed

end
