(* ===== verification/Advance.thy ===== *)
theory Advance
  imports Recovery Address
begin

text \<open>
  The claim driver of the seller, \<open>crates/dexdo/src/seller/advance.rs\<close>: it waits out the probe window,
  accepts the probe once something was delivered, and then claims the delivered usage step by step
  until the deal closes, its budget is claimed, or the delivery is done.

  Everything the driver calls is a parameter: the chain backend, the observer that keeps the
  capacity ledger, the clock and the counters that the gateway publishes.  Each is a function on a
  world of any type, so that other parties may act between any two calls.  Every call is noted in a
  log, newest first, with its answer.  Durations are nanoseconds.  Loops carry fuel; running out of it
  is an outcome of its own.  Trace messages are left out.
\<close>

section \<open>Calls\<close>

datatype advance_msg =
    ChainText string
  | NoStateData
  | HighWaterNotActionable
  | HighWaterBelowTick
  | FinalAbovePending
  | HighWaterAboveBudget
  | MalformedPreProbe
  | InvalidProbePrefix
  | ProbeStayedUnaccepted
  | InvalidResync
  | InvalidReconciliation

type_synonym advance_error = "advance_msg chain_error"

record measurement =
  me_deal_delivery_count :: nat
  me_delivery_at_probe :: "nat option"
  me_cumulative_tokens :: "nat option"

datatype drive_call =
    Snapshot "stream_snapshot option"
  | TerminalReceipt bool
  | BuyerStopReceipt bool
  | TimerFired bool
  | DealState "(deal_chain_state option, advance_error) result"
  | AcceptProbe "(unit, advance_error) result"
  | ClaimTokens nat "(unit, advance_error) result"
  | Finalize "(unit, advance_error) result"
  | Clock nat
  | Sleep nat
  | LoadDelivered nat
  | LoadDone bool
  | Observe deal_chain_state "(unit, advance_error) result"
  | PrepareProbe nat "(nat, advance_error) result"
  | ActiveRequests nat
  | ObserveTerminal "(unit, advance_error) result"
  | ChainUnavailable
  | RetryAfter nat
  | ProbeDecision measurement
  | ClaimSubmitted measurement

record 'w drive =
  dw_world :: 'w
  dw_log :: "drive_call list"

datatype drive_stop = Fault advance_error | TickSizeZero | OutOfFuel

type_synonym ('a, 'w) drive_run = "('a, drive_stop, 'w drive) run"

definition call :: "('w \<Rightarrow> 'a \<times> 'w) \<Rightarrow> ('a \<Rightarrow> drive_call) \<Rightarrow> ('a, 'w) drive_run" where
  "call op note d = (case op (dw_world d) of (a, w) \<Rightarrow> (Inr a, \<lparr>dw_world = w, dw_log = note a # dw_log d\<rparr>))"

text \<open>A call whose error the driver propagates.\<close>

definition try_call ::
    "('w \<Rightarrow> ('a, advance_error) result \<times> 'w) \<Rightarrow> (('a, advance_error) result \<Rightarrow> drive_call) \<Rightarrow> ('a, 'w) drive_run" where
  "try_call op note = run_then (call op note) (\<lambda>r. run_pure (map_err Fault r))"

text \<open>A match on the outcome of a call: one continuation for success, one for failure.\<close>

definition attempt :: "('a, 'e, 'w) run \<Rightarrow> ('a \<Rightarrow> ('b, 'e, 'w) run) \<Rightarrow> ('e \<Rightarrow> ('b, 'e, 'w) run) \<Rightarrow> ('b, 'e, 'w) run" where
  "attempt m f g w = (case m w of (Inr x, w') \<Rightarrow> f x w' | (Inl e, w') \<Rightarrow> g e w')"

text \<open>The backend, the observer, the clock and the counters of one deal.\<close>

record 'w seller_env =
  se_snapshot :: "'w \<Rightarrow> stream_snapshot option \<times> 'w"
  se_terminal_receipt :: "'w \<Rightarrow> bool \<times> 'w"
  se_buyer_stop_receipt :: "'w \<Rightarrow> bool \<times> 'w"
  se_timer_fired :: "'w \<Rightarrow> bool \<times> 'w"
  se_deal_state :: "'w \<Rightarrow> (deal_chain_state option, advance_error) result \<times> 'w"
  se_accept_probe :: "'w \<Rightarrow> (unit, advance_error) result \<times> 'w"
  se_claim_tokens :: "nat \<Rightarrow> 'w \<Rightarrow> (unit, advance_error) result \<times> 'w"
  se_finalize :: "'w \<Rightarrow> (unit, advance_error) result \<times> 'w"
  se_clock :: "'w \<Rightarrow> nat \<times> 'w"
  se_sleep :: "nat \<Rightarrow> 'w \<Rightarrow> 'w"
  se_load_delivered :: "'w \<Rightarrow> nat \<times> 'w"
  se_load_done :: "'w \<Rightarrow> bool \<times> 'w"
  se_observe :: "deal_chain_state \<Rightarrow> 'w \<Rightarrow> (unit, advance_error) result \<times> 'w"
  se_prepare_probe :: "nat \<Rightarrow> 'w \<Rightarrow> (nat, advance_error) result \<times> 'w"
  se_active_requests :: "'w \<Rightarrow> nat \<times> 'w"
  se_observe_terminal :: "'w \<Rightarrow> (unit, advance_error) result \<times> 'w"
  se_chain_unavailable :: "'w \<Rightarrow> 'w"
  se_retry_after :: "nat \<Rightarrow> 'w \<Rightarrow> 'w"
  se_probe_decision :: "measurement \<Rightarrow> 'w \<Rightarrow> 'w"
  se_claim_submitted :: "measurement \<Rightarrow> 'w \<Rightarrow> 'w"

text \<open>A call without an answer.\<close>

definition tell :: "('w \<Rightarrow> 'w) \<Rightarrow> drive_call \<Rightarrow> (unit, 'w) drive_run" where
  "tell op note = call (\<lambda>w. ((), op w)) (\<lambda>_. note)"

definition load_delivered :: "'w seller_env \<Rightarrow> (nat, 'w) drive_run" where
  "load_delivered env = call (se_load_delivered env) LoadDelivered"

definition load_done :: "'w seller_env \<Rightarrow> (bool, 'w) drive_run" where
  "load_done env = call (se_load_done env) LoadDone"

definition sleep :: "'w seller_env \<Rightarrow> nat \<Rightarrow> (unit, 'w) drive_run" where
  "sleep env d = tell (se_sleep env d) (Sleep d)"

definition observe_retry_after :: "'w seller_env \<Rightarrow> nat \<Rightarrow> (unit, 'w) drive_run" where
  "observe_retry_after env d = tell (se_retry_after env d) (RetryAfter d)"


section \<open>Windows and targets\<close>

definition SECOND :: nat where "SECOND = 1000000000"
definition DURATION_MAX :: nat where "DURATION_MAX = u64_max * SECOND + 999999999"
definition SELLER_TERMINAL_RECEIPT_POLL_INTERVAL :: nat where "SELLER_TERMINAL_RECEIPT_POLL_INTERVAL = 3 * SECOND"

record advance_windows =
  aw_claim_interval :: nat
  aw_seconds_per_tick :: nat
  aw_promote :: nat
  aw_probe :: nat

definition from_bounds :: "claim_bounds \<Rightarrow> advance_windows" where
  "from_bounds b =
     \<lparr>aw_claim_interval = cb_min_claim_interval b * SECOND, aw_seconds_per_tick = cb_min_seconds_per_tick b * SECOND,
      aw_promote = cb_promote_window b * SECOND, aw_probe = cb_probe_window b * SECOND\<rparr>"

definition windows_max_claim_delta :: "advance_windows \<Rightarrow> nat \<Rightarrow> nat" where
  "windows_max_claim_delta ws elapsed = claim_delta_limit (elapsed div SECOND) (aw_seconds_per_tick ws div SECOND)"

fun text_contains :: "string \<Rightarrow> string \<Rightarrow> bool" where
  "text_contains pat [] = (pat = [])"
| "text_contains pat (c # s) = (take (length pat) (c # s) = pat \<or> text_contains pat s)"

definition exhausted_transient_read :: "advance_error \<Rightarrow> bool" where
  "exhausted_transient_read e =
     (case e of
        Chain (ChainText m) \<Rightarrow> text_contains ''chain read got no answer after '' m
      | Transport (ChainText m) \<Rightarrow> text_contains ''chain read got no answer after '' m
      | _ \<Rightarrow> False)"

definition validated_claim_high_water :: "deal_chain_state \<Rightarrow> nat \<Rightarrow> (nat, advance_error) result" where
  "validated_claim_high_water state token_budget =
     (if \<not> dc_opened state \<or> dc_disputed state \<or> \<not> dc_probe_accepted state then Inl (Chain HighWaterNotActionable)
      else if dc_tokens_pending state < TICK_SIZE then Inl (Chain HighWaterBelowTick)
      else if dc_tokens_final state > dc_tokens_pending state then Inl (Chain FinalAbovePending)
      else if dc_tokens_pending state > token_budget then Inl (Chain HighWaterAboveBudget)
      else Inr (dc_tokens_pending state))"

definition claim_target :: "nat \<Rightarrow> nat \<Rightarrow> nat" where
  "claim_target delivered token_budget = min (max delivered PROBE_SEED_TOKENS) token_budget"


section \<open>Reads\<close>

definition required_claim_state :: "'w seller_env \<Rightarrow> (deal_chain_state, 'w) drive_run" where
  "required_claim_state env =
     run_then (call (se_deal_state env) DealState) (\<lambda>r.
     case r of
       Inl e \<Rightarrow>
         run_then (if exhausted_transient_read e then tell (se_chain_unavailable env) ChainUnavailable
                   else run_pure (Inr ())) (\<lambda>_.
         run_pure (Inl (Fault e)))
     | Inr None \<Rightarrow> run_pure (Inl (Fault (Chain NoStateData)))
     | Inr (Some state) \<Rightarrow>
         run_then (try_call (se_observe env state) (Observe state)) (\<lambda>_.
         run_pure (Inr state)))"

definition deal_closed :: "'w seller_env \<Rightarrow> (bool, 'w) drive_run" where
  "deal_closed env =
     run_then (call (se_snapshot env) Snapshot) (\<lambda>s.
     case s of
       Some snapshot \<Rightarrow> run_pure (Inr (ss_closed snapshot))
     | None \<Rightarrow> call (se_terminal_receipt env) TerminalReceipt)"

definition observe_terminal_if :: "'w seller_env \<Rightarrow> bool \<Rightarrow> (bool, 'w) drive_run" where
  "observe_terminal_if env b =
     run_then (if b then try_call (se_observe_terminal env) ObserveTerminal else run_pure (Inr ())) (\<lambda>_.
     run_pure (Inr b))"

definition deal_closed_observed :: "'w seller_env \<Rightarrow> (bool, 'w) drive_run" where
  "deal_closed_observed env = run_then (deal_closed env) (observe_terminal_if env)"

text \<open>The timer of the receipt wait may fire while the driver awaits the read or the sleep.\<close>

primrec receipt_loop :: "'w seller_env \<Rightarrow> nat \<Rightarrow> (bool, 'w) drive_run" where
  "receipt_loop env 0 = run_pure (Inl OutOfFuel)"
| "receipt_loop env (Suc n) =
     run_then (call (se_buyer_stop_receipt env) BuyerStopReceipt) (\<lambda>seen.
     run_then (call (se_timer_fired env) TimerFired) (\<lambda>fired.
     if fired then run_pure (Inr False)
     else if seen then run_pure (Inr True)
     else
       run_then (sleep env SELLER_TERMINAL_RECEIPT_POLL_INTERVAL) (\<lambda>_.
       run_then (call (se_timer_fired env) TimerFired) (\<lambda>fired.
       if fired then run_pure (Inr False) else receipt_loop env n))))"

definition buyer_stop_receipt_observed :: "'w seller_env \<Rightarrow> nat \<Rightarrow> (bool, 'w) drive_run" where
  "buyer_stop_receipt_observed env fuel = run_then (receipt_loop env fuel) (observe_terminal_if env)"

primrec wait_until :: "'w seller_env \<Rightarrow> nat \<Rightarrow> nat \<Rightarrow> (bool, 'w) drive_run" where
  "wait_until env deadline 0 = run_pure (Inl OutOfFuel)"
| "wait_until env deadline (Suc n) =
     run_then (call (se_clock env) Clock) (\<lambda>now.
     if now \<ge> deadline then run_pure (Inr False)
     else
       run_then (sleep env (min SELLER_TERMINAL_RECEIPT_POLL_INTERVAL (deadline - now))) (\<lambda>_.
       run_then (deal_closed env) (\<lambda>closed.
       if closed then run_pure (Inr True) else wait_until env deadline n)))"

definition wait_claim_or_closed :: "'w seller_env \<Rightarrow> nat \<Rightarrow> nat \<Rightarrow> (bool, 'w) drive_run" where
  "wait_claim_or_closed env fuel window =
     run_then (call (se_clock env) Clock) (\<lambda>now. wait_until env (now + window) fuel)"


section \<open>The driver\<close>

text \<open>The wait for the first delivered token; false ends the drive with nothing claimed.\<close>

primrec first_usage :: "'w seller_env \<Rightarrow> advance_windows \<Rightarrow> nat \<Rightarrow> nat \<Rightarrow> (bool, 'w) drive_run" where
  "first_usage env ws fuel 0 = run_pure (Inl OutOfFuel)"
| "first_usage env ws fuel (Suc n) =
     run_then (load_delivered env) (\<lambda>delivered_tokens.
     if delivered_tokens > 0 then run_pure (Inr True)
     else
       run_then (load_done env) (\<lambda>done.
       if done then run_then (load_delivered env) (\<lambda>again. run_pure (Inr (again > 0)))
       else
         run_then (observe_retry_after env (aw_claim_interval ws)) (\<lambda>_.
         run_then (wait_claim_or_closed env fuel (aw_claim_interval ws)) (\<lambda>closed.
         if closed then run_pure (Inr False) else first_usage env ws fuel n))))"

text \<open>The probe decision and its submission; \<open>None\<close> ends the drive with nothing claimed.\<close>

definition decide_probe :: "'w seller_env \<Rightarrow> (nat option, 'w) drive_run" where
  "decide_probe env =
     run_then (load_delivered env) (\<lambda>count.
     run_then (try_call (se_prepare_probe env (min count TICK_SIZE)) (PrepareProbe (min count TICK_SIZE))) (\<lambda>at_probe.
     if at_probe = 0 \<or> at_probe > min count TICK_SIZE then run_pure (Inl (Fault (Chain InvalidProbePrefix)))
     else
       let m = \<lparr>me_deal_delivery_count = count, me_delivery_at_probe = Some at_probe, me_cumulative_tokens = None\<rparr> in
       run_then (tell (se_probe_decision env m) (ProbeDecision m)) (\<lambda>_.
       run_then (call (se_accept_probe env) AcceptProbe) (\<lambda>accept.
       run_then (required_claim_state env) (\<lambda>after_accept.
       if dc_probe_accepted after_accept then run_pure (Inr (Some at_probe))
       else
         run_then (deal_closed_observed env) (\<lambda>closed.
         if closed then run_pure (Inr None)
         else run_pure (Inl (Fault (case accept of Inl e \<Rightarrow> e | Inr _ \<Rightarrow> Chain ProbeStayedUnaccepted)))))))))"

definition probe_phase ::
    "'w seller_env \<Rightarrow> advance_windows \<Rightarrow> nat \<Rightarrow> deal_chain_state \<Rightarrow> (nat option, 'w) drive_run" where
  "probe_phase env ws fuel before_probe =
     (if \<not> dc_opened before_probe \<or> dc_disputed before_probe \<or> dc_tokens_pending before_probe \<noteq> 0
      then run_pure (Inl (Fault (Chain MalformedPreProbe)))
      else
        run_then (observe_retry_after env (aw_probe ws)) (\<lambda>_.
        run_then (sleep env (aw_probe ws)) (\<lambda>_.
        run_then (deal_closed_observed env) (\<lambda>closed.
        if closed then run_pure (Inr None)
        else
          run_then (first_usage env ws fuel fuel) (\<lambda>used.
          if \<not> used then run_pure (Inr None) else decide_probe env)))))"

datatype round = Again nat bool | Break nat bool | Return nat

text \<open>What a claim call leaves: the cumulative claim it stands for, or how the loop ends.\<close>

definition settle_claim ::
    "'w seller_env \<Rightarrow> nat \<Rightarrow> nat \<Rightarrow> nat \<Rightarrow> (unit, advance_error) result \<Rightarrow> (nat option, 'w) drive_run" where
  "settle_claim env token_budget target next r =
     (case r of
        Inr _ \<Rightarrow> run_pure (Inr (Some next))
      | Inl (ClaimHighWaterResync tried found) \<Rightarrow>
          if tried \<noteq> next \<or> found \<le> next \<or> found > target \<or> found > token_budget
          then run_pure (Inl (Fault (Chain InvalidResync)))
          else run_pure (Inr (Some found))
      | Inl (Limit _) \<Rightarrow> run_pure (Inr None)
      | Inl e \<Rightarrow>
          run_then (deal_closed_observed env) (\<lambda>closed.
          if closed then run_pure (Inr None) else run_pure (Inl (Fault e))))"

text \<open>The read after a claim.  A failing read is forgiven when the deal has meanwhile ended.\<close>

definition reconcile_claim ::
    "'w seller_env \<Rightarrow> nat \<Rightarrow> nat \<Rightarrow> nat \<Rightarrow> nat \<Rightarrow> (round, 'w) drive_run" where
  "reconcile_claim env fuel token_budget target submitted =
     attempt (required_claim_state env)
       (\<lambda>state.
          run_then (run_pure (map_err Fault (validated_claim_high_water state token_budget))) (\<lambda>reconciled.
          if reconciled < submitted \<or> reconciled > target then run_pure (Inl (Fault (Chain InvalidReconciliation)))
          else run_pure (Inr (Again reconciled True))))
       (\<lambda>error.
          run_then (deal_closed_observed env) (\<lambda>closed.
          run_then (if closed then run_pure (Inr True) else buyer_stop_receipt_observed env fuel) (\<lambda>over.
          if over then run_pure (Inr (Return submitted)) else run_pure (Inl error))))"

text \<open>The submission of a claim and its reconciliation.\<close>

definition submit_claim ::
    "'w seller_env \<Rightarrow> nat \<Rightarrow> nat \<Rightarrow> nat option \<Rightarrow> nat \<Rightarrow> bool \<Rightarrow> nat \<Rightarrow> nat \<Rightarrow> nat \<Rightarrow> (round, 'w) drive_run" where
  "submit_claim env fuel token_budget at_probe claimed needs count target next =
     run_then (call (se_claim_tokens env next) (ClaimTokens next)) (\<lambda>r.
     let m = \<lparr>me_deal_delivery_count = count, me_delivery_at_probe = at_probe, me_cumulative_tokens = Some next\<rparr> in
     run_then (tell (se_claim_submitted env m) (ClaimSubmitted m)) (\<lambda>_.
     run_then (settle_claim env token_budget target next r) (\<lambda>s.
     case s of
       None \<Rightarrow> run_pure (Inr (Break claimed needs))
     | Some submitted \<Rightarrow> reconcile_claim env fuel token_budget target submitted)))"

text \<open>After the claim interval: the next claim, unless there is nothing to claim or it must wait.\<close>

definition claim_step ::
    "'w seller_env \<Rightarrow> advance_windows \<Rightarrow> nat \<Rightarrow> nat \<Rightarrow> nat option \<Rightarrow> nat \<Rightarrow> bool \<Rightarrow> (round, 'w) drive_run" where
  "claim_step env ws fuel token_budget at_probe claimed needs =
     run_then (observe_retry_after env (aw_claim_interval ws)) (\<lambda>_.
     run_then (sleep env (aw_claim_interval ws)) (\<lambda>_.
     run_then (load_delivered env) (\<lambda>count.
     let target = claim_target count token_budget;
         allowance = (if aw_claim_interval ws = 0 then MAX_CLAIM_DELTA
                      else windows_max_claim_delta ws (aw_claim_interval ws));
         next = min target (saturating_add u128_max claimed allowance) in
     if next \<le> claimed then run_pure (Inr (Again claimed needs))
     else
       run_then (if next = token_budget then call (se_active_requests env) ActiveRequests else run_pure (Inr 0)) (\<lambda>active.
       if active > 0 then run_pure (Inr (Again claimed needs))
       else submit_claim env fuel token_budget at_probe claimed needs count target next))))"

definition claim_round ::
    "'w seller_env \<Rightarrow> advance_windows \<Rightarrow> nat \<Rightarrow> nat \<Rightarrow> nat option \<Rightarrow> nat \<Rightarrow> bool \<Rightarrow> (round, 'w) drive_run" where
  "claim_round env ws fuel token_budget at_probe claimed needs =
     (if claimed \<ge> token_budget then run_pure (Inr (Break claimed needs))
      else
        run_then (deal_closed_observed env) (\<lambda>closed.
        if closed then run_pure (Inr (Break claimed needs))
        else
          run_then (load_delivered env) (\<lambda>count.
          if claimed < claim_target count token_budget then claim_step env ws fuel token_budget at_probe claimed needs
          else
            run_then (load_done env) (\<lambda>done.
            if done then
              run_then (load_delivered env) (\<lambda>refreshed.
              if claimed \<ge> claim_target refreshed token_budget then run_pure (Inr (Break claimed needs))
              else claim_step env ws fuel token_budget at_probe claimed needs)
            else
              run_then (observe_retry_after env (min DURATION_MAX (aw_claim_interval ws * 2))) (\<lambda>_.
              run_then (wait_claim_or_closed env fuel (aw_claim_interval ws)) (\<lambda>closed.
              run_pure (Inr (if closed then Break claimed needs else Again claimed needs))))))))"

text \<open>The rest of the drive: the promotion of the last claim, then the result.\<close>

definition finish_drive :: "'w seller_env \<Rightarrow> advance_windows \<Rightarrow> bool \<Rightarrow> nat \<Rightarrow> bool \<Rightarrow> (nat, 'w) drive_run" where
  "finish_drive env ws finalize_last_claim claimed needs =
     (if needs \<and> finalize_last_claim then
        run_then (sleep env (aw_promote ws)) (\<lambda>_.
        run_then (call (se_finalize env) Finalize) (\<lambda>r.
        case r of
          Inr _ \<Rightarrow> run_pure (Inr claimed)
        | Inl e \<Rightarrow>
            run_then (deal_closed_observed env) (\<lambda>closed.
            if closed then run_pure (Inr claimed) else run_pure (Inl (Fault e)))))
      else run_pure (Inr claimed))"

primrec claim_loop ::
    "'w seller_env \<Rightarrow> advance_windows \<Rightarrow> nat \<Rightarrow> nat \<Rightarrow> bool \<Rightarrow> nat option \<Rightarrow> nat \<Rightarrow> nat \<Rightarrow> bool \<Rightarrow> (nat, 'w) drive_run" where
  "claim_loop env ws fuel token_budget finalize_last_claim at_probe 0 = (\<lambda>claimed needs. run_pure (Inl OutOfFuel))"
| "claim_loop env ws fuel token_budget finalize_last_claim at_probe (Suc n) = (\<lambda>claimed needs.
     run_then (claim_round env ws fuel token_budget at_probe claimed needs) (\<lambda>r.
     case r of
       Again claimed' needs' \<Rightarrow> claim_loop env ws fuel token_budget finalize_last_claim at_probe n claimed' needs'
     | Break claimed' needs' \<Rightarrow> finish_drive env ws finalize_last_claim claimed' needs'
     | Return submitted \<Rightarrow> run_pure (Inr submitted)))"

definition drive_claims ::
    "'w seller_env \<Rightarrow> advance_windows \<Rightarrow> nat \<Rightarrow> nat \<Rightarrow> bool \<Rightarrow> nat option \<Rightarrow> (nat, 'w) drive_run" where
  "drive_claims env ws fuel token_budget finalize_last_claim at_probe =
     run_then (required_claim_state env) (\<lambda>state.
     run_then (run_pure (map_err Fault (validated_claim_high_water state token_budget))) (\<lambda>claimed.
     claim_loop env ws fuel token_budget finalize_last_claim at_probe fuel claimed
       (dc_tokens_pending state > dc_tokens_final state)))"

definition drive_advance ::
    "'w seller_env \<Rightarrow> advance_windows \<Rightarrow> nat \<Rightarrow> nat \<Rightarrow> nat \<Rightarrow> bool \<Rightarrow> (nat, 'w) drive_run" where
  "drive_advance env ws fuel tick_budget tick_size finalize_last_claim =
     (if tick_size = 0 then run_pure (Inl TickSizeZero)
      else
        let token_budget = saturating_mul u128_max tick_budget tick_size in
        run_then (deal_closed_observed env) (\<lambda>closed.
        if closed then run_pure (Inr 0)
        else
          run_then (required_claim_state env) (\<lambda>before_probe.
          if dc_probe_accepted before_probe
          then drive_claims env ws fuel token_budget finalize_last_claim None
          else
            run_then (probe_phase env ws fuel before_probe) (\<lambda>probe.
            case probe of
              None \<Rightarrow> run_pure (Inr 0)
            | Some at_probe \<Rightarrow> drive_claims env ws fuel token_budget finalize_last_claim (Some at_probe)))))"

end
