(* ===== verification/AdvanceProps.thy ===== *)
theory AdvanceProps
  imports Advance
begin

text \<open>
  What the claim driver does to the chain, whatever the chain, the observer and the counters answer.
  Statements are about the log of a drive; they are proved with triples on logs, which the world
  does not enter.
\<close>

section \<open>Triples on logs\<close>

lemma run_pure_then: "run_then (run_pure (Inr x)) f = f x" "run_then (run_pure (Inl e)) f = run_pure (Inl e)"
  by (simp_all add: run_then_def run_pure_def fun_eq_iff)

definition log_triple ::
    "(drive_call list \<Rightarrow> bool) \<Rightarrow> ('a, 'w) drive_run \<Rightarrow> (('a, drive_stop) result \<Rightarrow> drive_call list \<Rightarrow> bool) \<Rightarrow> bool" where
  "log_triple p m q \<longleftrightarrow> (\<forall>d. p (dw_log d) \<longrightarrow> wp m (\<lambda>r d'. q r (dw_log d')) d)"

lemma log_tripleI: "(\<And>d. p (dw_log d) \<Longrightarrow> wp m (\<lambda>r d'. q r (dw_log d')) d) \<Longrightarrow> log_triple p m q"
  by (simp add: log_triple_def)

lemma log_tripleD: "log_triple p m q \<Longrightarrow> p (dw_log d) \<Longrightarrow> m d = (r, d') \<Longrightarrow> q r (dw_log d')"
  by (auto simp: log_triple_def wp_def split: prod.splits)

lemma triple_weaken:
  fixes m :: "('a, 'w) drive_run"
  assumes "log_triple p m q" and "\<And>l. p' l \<Longrightarrow> p l" and "\<And>r l. q r l \<Longrightarrow> q' r l"
  shows "log_triple p' m q'"
proof (rule log_tripleI)
  fix d :: "'w drive"
  assume "p' (dw_log d)"
  then have "wp m (\<lambda>r d'. q r (dw_log d')) d" using assms(1,2) by (simp add: log_triple_def)
  then show "wp m (\<lambda>r d'. q' r (dw_log d')) d" by (rule wp_mono) (rule assms(3))
qed

lemma triple_pure: "(\<And>l. p l \<Longrightarrow> q r l) \<Longrightarrow> log_triple p (run_pure r) q"
  by (simp add: log_triple_def wp_simps)

lemma triple_then:
  fixes m :: "('a, 'w) drive_run"
  assumes "log_triple p m q" and "\<And>x. log_triple (q (Inr x)) (f x) r" and "\<And>e l. q (Inl e) l \<Longrightarrow> r (Inl e) l"
  shows "log_triple p (run_then m f) r"
proof (rule log_tripleI)
  fix d :: "'w drive"
  assume "p (dw_log d)"
  then have "wp m (\<lambda>r d'. q r (dw_log d')) d" using assms(1) by (simp add: log_triple_def)
  then show "wp (run_then m f) (\<lambda>s d'. r s (dw_log d')) d"
    unfolding wp_then by (rule wp_mono) (use assms(2,3) in \<open>auto simp: log_triple_def split: sum.splits\<close>)
qed

lemma triple_attempt:
  assumes "log_triple p m q" and "\<And>x. log_triple (q (Inr x)) (f x) r" and "\<And>e. log_triple (q (Inl e)) (g e) r"
  shows "log_triple p (attempt m f g) r"
  using assms unfolding log_triple_def wp_def attempt_def by (force split: prod.splits sum.splits)

lemma triple_call: "(\<And>a l. p l \<Longrightarrow> q (Inr a) (note a # l)) \<Longrightarrow> log_triple p (call op note) q"
  by (auto simp: log_triple_def wp_def call_def split: prod.splits)

lemma triple_tell: "(\<And>l. p l \<Longrightarrow> q (Inr ()) (note # l)) \<Longrightarrow> log_triple p (tell op note) q"
  unfolding tell_def by (rule triple_call) simp

lemma triple_try_call:
  assumes "\<And>r l. p l \<Longrightarrow> q (map_err Fault r) (note r # l)"
  shows "log_triple p (try_call op note) q"
  unfolding try_call_def
  by (rule triple_then [OF triple_call [where q = "\<lambda>s l. case s of Inl _ \<Rightarrow> False | Inr r \<Rightarrow> q (map_err Fault r) l"]])
    (auto simp: assms intro: triple_pure)

lemma triple_if: "(b \<Longrightarrow> log_triple p m q) \<Longrightarrow> (\<not> b \<Longrightarrow> log_triple p m' q) \<Longrightarrow> log_triple p (if b then m else m') q"
  by simp

lemma triple_pre: "(\<And>l. p l \<Longrightarrow> b) \<Longrightarrow> (b \<Longrightarrow> log_triple p m q) \<Longrightarrow> log_triple p m q"
  by (auto simp: log_triple_def)

lemma triple_ex: "(\<And>x. log_triple (p x) m q) \<Longrightarrow> log_triple (\<lambda>l. \<exists>x. p x l) m q"
  by (auto simp: log_triple_def)


section \<open>What a log says\<close>

fun latest_state :: "drive_call list \<Rightarrow> deal_chain_state option" where
  "latest_state [] = None"
| "latest_state (c # l) = (case c of DealState (Inr (Some st)) \<Rightarrow> Some st | _ \<Rightarrow> latest_state l)"

fun latest_delivered :: "drive_call list \<Rightarrow> nat option" where
  "latest_delivered [] = None"
| "latest_delivered (c # l) = (case c of LoadDelivered n \<Rightarrow> Some n | _ \<Rightarrow> latest_delivered l)"

fun latest_active :: "drive_call list \<Rightarrow> nat option" where
  "latest_active [] = None"
| "latest_active (c # l) = (case c of ActiveRequests n \<Rightarrow> Some n | _ \<Rightarrow> latest_active l)"

fun latest_prefix :: "drive_call list \<Rightarrow> nat option" where
  "latest_prefix [] = None"
| "latest_prefix (c # l) = (case c of PrepareProbe _ (Inr n) \<Rightarrow> Some n | _ \<Rightarrow> latest_prefix l)"

definition ended :: "drive_call list \<Rightarrow> bool" where
  "ended l \<longleftrightarrow> (\<exists>c\<in>set l. case c of ObserveTerminal _ \<Rightarrow> True | _ \<Rightarrow> False)"

definition probed :: "drive_call list \<Rightarrow> bool" where
  "probed l \<longleftrightarrow> (\<exists>c\<in>set l. case c of AcceptProbe _ \<Rightarrow> True | _ \<Rightarrow> False)"

definition finalized :: "drive_call list \<Rightarrow> bool" where
  "finalized l \<longleftrightarrow> (\<exists>c\<in>set l. case c of Finalize _ \<Rightarrow> True | _ \<Rightarrow> False)"

definition claims :: "drive_call list \<Rightarrow> bool" where
  "claims l \<longleftrightarrow> (\<exists>c\<in>set l. case c of ClaimTokens _ _ \<Rightarrow> True | _ \<Rightarrow> False)"

text \<open>When the driver may submit a cumulative claim, given the calls before it.\<close>

definition claim_permitted :: "nat \<Rightarrow> nat \<Rightarrow> drive_call list \<Rightarrow> bool" where
  "claim_permitted budget n l \<longleftrightarrow>
     \<not> ended l \<and> \<not> finalized l
     \<and> (\<exists>st. latest_state l = Some st \<and> dc_opened st \<and> \<not> dc_disputed st \<and> dc_probe_accepted st
          \<and> dc_tokens_pending st < n \<and> n \<le> dc_tokens_pending st + MAX_CLAIM_DELTA)
     \<and> (\<exists>d. latest_delivered l = Some d \<and> n \<le> max d PROBE_SEED_TOKENS)
     \<and> n \<le> budget \<and> (n = budget \<longrightarrow> latest_active l = Some 0)"

definition probe_permitted :: "drive_call list \<Rightarrow> bool" where
  "probe_permitted l \<longleftrightarrow>
     \<not> ended l \<and> \<not> probed l \<and> \<not> claims l \<and> \<not> finalized l
     \<and> (\<exists>st. latest_state l = Some st \<and> dc_opened st \<and> \<not> dc_disputed st \<and> \<not> dc_probe_accepted st
          \<and> dc_tokens_pending st = 0)
     \<and> (\<exists>d p. latest_delivered l = Some d \<and> latest_prefix l = Some p \<and> 0 < p \<and> p \<le> d \<and> p \<le> TICK_SIZE)"

definition finalize_permitted :: "advance_windows \<Rightarrow> bool \<Rightarrow> drive_call list \<Rightarrow> bool" where
  "finalize_permitted ws finalize_last l \<longleftrightarrow>
     finalize_last \<and> \<not> finalized l \<and> (\<exists>l'. l = Sleep (aw_promote ws) # l')
     \<and> (claims l \<or> (\<exists>st. latest_state l = Some st \<and> dc_tokens_final st < dc_tokens_pending st))"

definition permitted :: "advance_windows \<Rightarrow> nat \<Rightarrow> bool \<Rightarrow> drive_call \<Rightarrow> drive_call list \<Rightarrow> bool" where
  "permitted ws budget finalize_last c l =
     (case c of
        ClaimTokens n _ \<Rightarrow> claim_permitted budget n l
      | AcceptProbe _ \<Rightarrow> probe_permitted l
      | Finalize _ \<Rightarrow> finalize_permitted ws finalize_last l
      | _ \<Rightarrow> True)"

fun safe :: "advance_windows \<Rightarrow> nat \<Rightarrow> bool \<Rightarrow> drive_call list \<Rightarrow> bool" where
  "safe ws b f [] = True"
| "safe ws b f (c # l) = (permitted ws b f c l \<and> safe ws b f l)"

lemma safe_split: "safe ws b f (l1 @ c # l2) \<Longrightarrow> permitted ws b f c l2"
  by (induction l1) auto

lemmas log_simps = ended_def probed_def finalized_def claims_def permitted_def

text \<open>Calls that none of the notions above look at.\<close>

definition quiet :: "drive_call \<Rightarrow> bool" where
  "quiet c = (case c of
     Snapshot _ \<Rightarrow> True | TerminalReceipt _ \<Rightarrow> True | BuyerStopReceipt _ \<Rightarrow> True | TimerFired _ \<Rightarrow> True
   | Clock _ \<Rightarrow> True | Sleep _ \<Rightarrow> True | LoadDone _ \<Rightarrow> True | Observe _ _ \<Rightarrow> True | ChainUnavailable \<Rightarrow> True
   | RetryAfter _ \<Rightarrow> True | ProbeDecision _ \<Rightarrow> True | ClaimSubmitted _ \<Rightarrow> True | _ \<Rightarrow> False)"

lemma quiet_simps [simp]:
  "quiet (Snapshot s)" "quiet (TerminalReceipt b)" "quiet (BuyerStopReceipt b)" "quiet (TimerFired b)"
  "quiet (Clock n)" "quiet (Sleep n)" "quiet (LoadDone b)" "quiet (Observe st r)" "quiet ChainUnavailable"
  "quiet (RetryAfter n)" "quiet (ProbeDecision m)" "quiet (ClaimSubmitted m)"
  by (simp_all add: quiet_def)

definition stable :: "(drive_call list \<Rightarrow> bool) \<Rightarrow> bool" where
  "stable p \<longleftrightarrow> (\<forall>c l. quiet c \<longrightarrow> p l \<longrightarrow> p (c # l))"

lemma stableD: "stable p \<Longrightarrow> quiet c \<Longrightarrow> p l \<Longrightarrow> p (c # l)"
  by (simp add: stable_def)

lemma quiet_latest [simp]:
  assumes "quiet c"
  shows "latest_state (c # l) = latest_state l" "latest_delivered (c # l) = latest_delivered l"
    "latest_active (c # l) = latest_active l" "latest_prefix (c # l) = latest_prefix l"
    "ended (c # l) = ended l" "probed (c # l) = probed l" "finalized (c # l) = finalized l" "claims (c # l) = claims l"
    "permitted ws b f c l"
  using assms by (auto simp: quiet_def log_simps split: drive_call.splits)

declare latest_state.simps(2) [simp del] latest_delivered.simps(2) [simp del] latest_active.simps(2) [simp del]
  latest_prefix.simps(2) [simp del]


section \<open>Reads and waits\<close>

lemma triple_quiet: "stable p \<Longrightarrow> (\<And>a. quiet (note a)) \<Longrightarrow> log_triple p (call op note) (\<lambda>_. p)"
  by (rule triple_call) (simp add: stableD)

lemma triple_quiet_tell: "stable p \<Longrightarrow> quiet note \<Longrightarrow> log_triple p (tell op note) (\<lambda>_. p)"
  by (rule triple_tell) (simp add: stableD)

lemma triple_sleep: "stable p \<Longrightarrow> log_triple p (sleep env t) (\<lambda>_. p)"
  unfolding sleep_def by (rule triple_quiet_tell) simp_all

lemma triple_retry_after: "stable p \<Longrightarrow> log_triple p (observe_retry_after env t) (\<lambda>_. p)"
  unfolding observe_retry_after_def by (rule triple_quiet_tell) simp_all

lemma triple_load_done: "stable p \<Longrightarrow> log_triple p (load_done env) (\<lambda>_. p)"
  unfolding load_done_def by (rule triple_quiet) simp_all

text \<open>Sequences that keep one assertion.\<close>

lemma triple_seq: "log_triple p m (\<lambda>_. p) \<Longrightarrow> (\<And>x. log_triple p (f x) q) \<Longrightarrow> (\<And>e l. p l \<Longrightarrow> q (Inl e) l)
   \<Longrightarrow> log_triple p (run_then m f) q"
  by (rule triple_then)

lemma triple_keep_seq: "log_triple p m (\<lambda>_. p) \<Longrightarrow> (\<And>x. log_triple p (f x) (\<lambda>_. p)) \<Longrightarrow> log_triple p (run_then m f) (\<lambda>_. p)"
  by (rule triple_seq)

lemma triple_keep_pure: "log_triple p (run_pure r) (\<lambda>_. p)"
  by (rule triple_pure)

lemmas triple_keep = triple_keep_seq triple_keep_pure triple_quiet triple_quiet_tell triple_sleep triple_retry_after
  triple_load_done triple_if

lemma triple_deal_closed: "stable p \<Longrightarrow> log_triple p (deal_closed env) (\<lambda>_. p)"
  unfolding deal_closed_def by (intro triple_keep) (auto split: option.splits intro!: triple_keep)

lemma triple_wait_until: "stable p \<Longrightarrow> log_triple p (wait_until env deadline n) (\<lambda>_. p)"
  by (induction n) (auto intro!: triple_keep triple_deal_closed)

lemma triple_wait: "stable p \<Longrightarrow> log_triple p (wait_claim_or_closed env fuel window) (\<lambda>_. p)"
  unfolding wait_claim_or_closed_def by (intro triple_keep triple_wait_until) simp_all

lemma triple_receipt_loop: "stable p \<Longrightarrow> log_triple p (receipt_loop env n) (\<lambda>_. p)"
  by (induction n) (auto intro!: triple_keep)

text \<open>An answer that the deal is over is first told to the observer.\<close>

lemma observe_terminal_if_False: "observe_terminal_if env False = run_pure (Inr False)"
  by (simp add: observe_terminal_if_def run_then_def run_pure_def fun_eq_iff)

lemma triple_observe_terminal:
  assumes "\<And>r l. p l \<Longrightarrow> q (ObserveTerminal r # l)"
  shows "log_triple p (observe_terminal_if env True) (\<lambda>r l. r \<noteq> Inr False \<and> q l)"
proof -
  have "log_triple p (try_call (se_observe_terminal env) ObserveTerminal) (\<lambda>_. q)"
    using assms by (rule triple_try_call)
  then show ?thesis unfolding observe_terminal_if_def
    by simp (rule triple_then, assumption, simp_all add: triple_pure)
qed

lemma triple_observe_terminal_if:
  assumes "\<And>r l. p l \<Longrightarrow> q (ObserveTerminal r # l)"
  shows "log_triple p (observe_terminal_if env b) (\<lambda>r l. if r = Inr False then p l else q l)"
proof (cases b)
  case True
  then have b: "b = True" by simp
  show ?thesis unfolding b
    by (rule triple_weaken [OF triple_observe_terminal [where p = p and q = q]]) (auto simp: assms)
next
  case False
  then show ?thesis by (simp add: observe_terminal_if_False triple_pure)
qed

lemma triple_closed_observed:
  assumes "stable p" and "\<And>r l. p l \<Longrightarrow> q (ObserveTerminal r # l)" and "\<And>l. p l \<Longrightarrow> q l"
  shows "log_triple p (deal_closed_observed env) (\<lambda>r l. if r = Inr False then p l else q l)"
  unfolding deal_closed_observed_def
  by (rule triple_seq [OF triple_deal_closed [OF assms(1)] triple_observe_terminal_if]) (simp_all add: assms)


section \<open>The phases of a drive\<close>

definition needed :: "drive_call list \<Rightarrow> bool" where
  "needed l \<longleftrightarrow> claims l \<or> (\<exists>st. latest_state l = Some st \<and> dc_tokens_final st < dc_tokens_pending st)"

text \<open>A figure the driver may report: nothing, a high-water mark it read, or a claim the chain took.\<close>

definition reported_claim :: "nat \<Rightarrow> nat \<Rightarrow> drive_call list \<Rightarrow> bool" where
  "reported_claim b c l \<longleftrightarrow> c \<le> b \<and>
     (c = 0 \<or> (\<exists>st. DealState (Inr (Some st)) \<in> set l \<and> dc_tokens_pending st = c)
      \<or> ClaimTokens c (Inr ()) \<in> set l \<or> (\<exists>n. ClaimTokens n (Inl (ClaimHighWaterResync n c)) \<in> set l))"

text \<open>Before the probe: nothing was written and the deal was last read as open and untouched.\<close>

definition unprobed :: "advance_windows \<Rightarrow> nat \<Rightarrow> bool \<Rightarrow> drive_call list \<Rightarrow> bool" where
  "unprobed ws b f l \<longleftrightarrow> safe ws b f l \<and> \<not> ended l \<and> \<not> probed l \<and> \<not> claims l \<and> \<not> finalized l
     \<and> (\<exists>st. latest_state l = Some st \<and> dc_opened st \<and> \<not> dc_disputed st \<and> \<not> dc_probe_accepted st
          \<and> dc_tokens_pending st = 0)"

text \<open>Ready for the first read of the claim phase.\<close>

definition fresh_log :: "advance_windows \<Rightarrow> nat \<Rightarrow> bool \<Rightarrow> drive_call list \<Rightarrow> bool" where
  "fresh_log ws b f l \<longleftrightarrow> safe ws b f l \<and> \<not> ended l \<and> \<not> claims l \<and> \<not> finalized l"

text \<open>In the claim loop, and on the way out of it.\<close>

definition claiming :: "advance_windows \<Rightarrow> nat \<Rightarrow> bool \<Rightarrow> nat \<Rightarrow> bool \<Rightarrow> drive_call list \<Rightarrow> bool" where
  "claiming ws b f c needs l \<longleftrightarrow> safe ws b f l \<and> \<not> ended l \<and> \<not> finalized l \<and> (needs \<longrightarrow> needed l)
     \<and> (\<exists>st. latest_state l = Some st \<and> validated_claim_high_water st b = Inr c)"

definition leaving :: "advance_windows \<Rightarrow> nat \<Rightarrow> bool \<Rightarrow> nat \<Rightarrow> bool \<Rightarrow> drive_call list \<Rightarrow> bool" where
  "leaving ws b f c needs l \<longleftrightarrow> safe ws b f l \<and> \<not> finalized l \<and> (needs \<longrightarrow> needed l) \<and> reported_claim b c l"

lemma latest_state_in: "latest_state l = Some st \<Longrightarrow> DealState (Inr (Some st)) \<in> set l"
  by (induction l) (auto simp: latest_state.simps split: drive_call.splits sum.splits option.splits)

lemma validated_iff:
  "validated_claim_high_water st b = Inr c \<longleftrightarrow>
     c = dc_tokens_pending st \<and> dc_opened st \<and> \<not> dc_disputed st \<and> dc_probe_accepted st \<and> TICK_SIZE \<le> c
     \<and> dc_tokens_final st \<le> c \<and> c \<le> b"
  by (auto simp: validated_claim_high_water_def)

lemma reported_claim_mono [simp]: "reported_claim b c l \<Longrightarrow> reported_claim b c (x # l)"
  by (auto simp: reported_claim_def)

lemma claiming_leaving: "claiming ws b f c needs l \<Longrightarrow> leaving ws b f c needs l"
  by (auto simp: claiming_def leaving_def reported_claim_def validated_iff dest: latest_state_in)

lemma stable_phases [simp]:
  "stable (unprobed ws b f)" "stable (fresh_log ws b f)" "stable (claiming ws b f c needs)" "stable (leaving ws b f c needs)"
  "stable (safe ws b f)"
  by (auto simp: stable_def unprobed_def fresh_log_def claiming_def leaving_def needed_def)

text \<open>What the other calls do to the notions of a log.\<close>

lemma call_latest [simp]:
  "latest_delivered (LoadDelivered n # l) = Some n" "latest_state (LoadDelivered n # l) = latest_state l"
  "latest_active (ActiveRequests n # l) = Some n" "latest_state (ActiveRequests n # l) = latest_state l"
  "latest_delivered (ActiveRequests n # l) = latest_delivered l"
  "latest_state (PrepareProbe n r # l) = latest_state l" "latest_delivered (PrepareProbe n r # l) = latest_delivered l"
  "latest_prefix (PrepareProbe n (Inr p) # l) = Some p"
  "latest_state (DealState (Inr (Some st)) # l) = Some st"
  "latest_state (ObserveTerminal t # l) = latest_state l"
  "latest_state (ClaimTokens n c # l) = latest_state l"
  by (simp_all add: latest_state.simps latest_delivered.simps latest_active.simps latest_prefix.simps)

lemma call_marks [simp]:
  "ended (LoadDelivered n # l) = ended l" "ended (ActiveRequests n # l) = ended l" "ended (PrepareProbe n r # l) = ended l"
  "ended (DealState s # l) = ended l" "ended (ClaimTokens n c # l) = ended l" "ended (AcceptProbe a # l) = ended l"
  "probed (LoadDelivered n # l) = probed l" "probed (PrepareProbe n r # l) = probed l" "probed (DealState s # l) = probed l"
  "finalized (LoadDelivered n # l) = finalized l" "finalized (ActiveRequests n # l) = finalized l"
  "finalized (PrepareProbe n r # l) = finalized l" "finalized (DealState s # l) = finalized l"
  "finalized (ClaimTokens n c # l) = finalized l" "finalized (ObserveTerminal t # l) = finalized l"
  "finalized (AcceptProbe a # l) = finalized l"
  "claims (LoadDelivered n # l) = claims l" "claims (ActiveRequests n # l) = claims l" "claims (PrepareProbe n r # l) = claims l"
  "claims (DealState s # l) = claims l" "claims (ObserveTerminal t # l) = claims l" "claims (AcceptProbe a # l) = claims l"
  "claims (ClaimTokens n c # l)" "\<not> ended []" "\<not> probed []" "\<not> claims []" "\<not> finalized []"
  by (simp_all add: log_simps)

lemma call_permitted [simp]:
  "permitted ws b f (LoadDelivered n) l" "permitted ws b f (ActiveRequests n) l" "permitted ws b f (PrepareProbe n r) l"
  "permitted ws b f (DealState s) l" "permitted ws b f (ObserveTerminal t) l"
  "permitted ws b f (ClaimTokens n c) l = claim_permitted b n l"
  "permitted ws b f (AcceptProbe a) l = probe_permitted l"
  "permitted ws b f (Finalize a) l = finalize_permitted ws f l"
  by (simp_all add: permitted_def)


lemma phase_safe:
  "unprobed ws b f l \<Longrightarrow> safe ws b f l" "fresh_log ws b f l \<Longrightarrow> safe ws b f l"
  "claiming ws b f c needs l \<Longrightarrow> safe ws b f l" "leaving ws b f c needs l \<Longrightarrow> safe ws b f l"
  by (simp_all add: unprobed_def fresh_log_def claiming_def leaving_def)

lemma phase_calls [simp]:
  "unprobed ws b f l \<Longrightarrow> unprobed ws b f (LoadDelivered n # l)"
  "unprobed ws b f l \<Longrightarrow> unprobed ws b f (PrepareProbe n r # l)"
  "fresh_log ws b f l \<Longrightarrow> fresh_log ws b f (DealState s # l)"
  "claiming ws b f c needs l \<Longrightarrow> claiming ws b f c needs (LoadDelivered n # l)"
  "claiming ws b f c needs l \<Longrightarrow> claiming ws b f c needs (ActiveRequests n # l)"
  "leaving ws b f c needs l \<Longrightarrow> leaving ws b f c needs (ObserveTerminal t # l)"
  by (simp_all add: unprobed_def fresh_log_def claiming_def leaving_def needed_def)

lemma stable_conj_latest:
  "stable p \<Longrightarrow> stable (\<lambda>l. p l \<and> latest_delivered l = x)"
  "stable p \<Longrightarrow> stable (\<lambda>l. p l \<and> latest_delivered l = x \<and> latest_prefix l = y)"
  "stable p \<Longrightarrow> stable (\<lambda>l. p l \<and> latest_delivered l = x \<and> latest_active l = y)"
  by (auto simp: stable_def)

lemma triple_load_delivered: "(\<And>n l. p l \<Longrightarrow> q (Inr n) (LoadDelivered n # l)) \<Longrightarrow> log_triple p (load_delivered env) q"
  unfolding load_delivered_def by (rule triple_call)

lemma triple_required:
  assumes fail: "\<And>r l. p l \<Longrightarrow> fail_post (DealState r # l)" and read: "\<And>st l. p l \<Longrightarrow> q st (DealState (Inr (Some st)) # l)"
    and st: "stable fail_post" "\<And>st. stable (q st)" and weak: "\<And>st l. q st l \<Longrightarrow> fail_post l"
  shows "log_triple p (required_claim_state env) (\<lambda>r l. case r of Inr st \<Rightarrow> q st l | Inl _ \<Rightarrow> fail_post l)"
  unfolding required_claim_state_def
proof (rule triple_then [OF triple_call [where q = "\<lambda>r l. case r of Inr (Inr (Some st)) \<Rightarrow> q st l | _ \<Rightarrow> fail_post l"]], goal_cases)
  case (1 a l)
  then show ?case using fail read by (auto split: sum.splits option.splits)
next
  case (2 x)
  have some: "log_triple (q st) (run_then (try_call (se_observe env st) (Observe st)) (\<lambda>_. run_pure (Inr st)))
      (\<lambda>r l. case r of Inr st \<Rightarrow> q st l | Inl _ \<Rightarrow> fail_post l)" for st
    by (rule triple_seq [OF triple_try_call triple_pure]) (simp_all add: weak stableD [OF st(2)])
  have none: "log_triple fail_post (run_then (if e then tell (se_chain_unavailable env) ChainUnavailable else run_pure (Inr ()))
      (\<lambda>_. run_pure (Inl x))) (\<lambda>r l. case r of Inr st \<Rightarrow> q st l | Inl _ \<Rightarrow> fail_post l)" for e x
    by (rule triple_seq [OF _ triple_pure]) (auto intro: triple_keep st(1))
  show ?case
  proof (cases x)
    case (Inl e)
    then show ?thesis using none by simp
  next
    case (Inr s)
    then show ?thesis by (cases s) (simp_all add: some triple_pure)
  qed
next
  case (3 e l)
  then show ?case by simp
qed

lemma triple_first_usage: "log_triple (unprobed ws b f) (first_usage env ws' fuel n) (\<lambda>_. unprobed ws b f)"
proof (induction n)
  case (Suc n)
  have "log_triple (unprobed ws b f) (load_delivered env) (\<lambda>_. unprobed ws b f)"
    by (rule triple_load_delivered) simp
  then show ?case by (auto intro!: triple_keep triple_wait Suc)
qed (simp add: triple_pure)


text \<open>The probe is submitted at most once, out of an unprobed deal, with a backed prefix.\<close>

lemma accept_permitted:
  "unprobed ws b f l \<Longrightarrow> latest_delivered l = Some n \<Longrightarrow> latest_prefix l = Some p \<Longrightarrow> 0 < p \<Longrightarrow> p \<le> min n TICK_SIZE
   \<Longrightarrow> fresh_log ws b f (AcceptProbe a # l)"
  by (auto simp: unprobed_def fresh_log_def probe_permitted_def)

definition probe_post :: "advance_windows \<Rightarrow> nat \<Rightarrow> bool \<Rightarrow> (nat option, drive_stop) result \<Rightarrow> drive_call list \<Rightarrow> bool" where
  "probe_post ws b f r l \<longleftrightarrow> safe ws b f l \<and> (case r of Inr (Some _) \<Rightarrow> fresh_log ws b f l | _ \<Rightarrow> True)"

lemma probe_post_simps [simp]:
  "probe_post ws b f (Inl e) l = safe ws b f l" "probe_post ws b f (Inr None) l = safe ws b f l"
  "probe_post ws b f (Inr (Some n)) l = fresh_log ws b f l"
  by (auto simp: probe_post_def phase_safe)

lemma triple_closed_probe:
  "log_triple (fresh_log ws b f) (run_then (deal_closed_observed env) (\<lambda>closed.
     if closed then run_pure (Inr None) else run_pure (Inl e))) (probe_post ws b f)"
  by (rule triple_then [OF triple_closed_observed [where q = "safe ws b f"]])
    (auto simp: phase_safe intro!: triple_pure split: if_splits)

lemma triple_accept_probe:
  "log_triple (fresh_log ws b f) (run_then (required_claim_state env) (\<lambda>st.
     if dc_probe_accepted st then run_pure (Inr (Some p))
     else run_then (deal_closed_observed env) (\<lambda>closed.
       if closed then run_pure (Inr None) else run_pure (Inl e)))) (probe_post ws b f)"
proof (rule triple_then [OF triple_required [where q = "\<lambda>_. fresh_log ws b f" and fail_post = "fresh_log ws b f"]], goal_cases)
  case (6 x)
  show ?case using triple_closed_probe by (auto intro!: triple_pure)
qed (simp_all add: phase_safe)

lemma triple_decide_probe: "log_triple (unprobed ws b f) (decide_probe env) (probe_post ws b f)"
  unfolding decide_probe_def
proof (rule triple_then [OF triple_load_delivered [where q = "\<lambda>r l. unprobed ws b f l \<and> (\<forall>n. r = Inr n \<longrightarrow> latest_delivered l = Some n)"]],
    goal_cases)
  case (2 count)
  let ?p = "\<lambda>v l. unprobed ws b f l \<and> latest_delivered l = Some count \<and> latest_prefix l = Some v"
  show ?case
  proof (rule triple_then [OF triple_try_call [where q = "\<lambda>r l. unprobed ws b f l \<and> (\<forall>v. r = Inr v \<longrightarrow> ?p v l)"]], goal_cases)
    case (2 v)
    have step: "log_triple (?p v) (run_then (tell op n) (\<lambda>_. run_then (call (se_accept_probe env) AcceptProbe) k)) (probe_post ws b f)"
      if "quiet n" "0 < v" "v \<le> min count TICK_SIZE" "\<And>a. log_triple (fresh_log ws b f) (k a) (probe_post ws b f)" for op n k
      by (rule triple_seq [OF triple_quiet_tell triple_then [OF triple_call [where q = "\<lambda>_. fresh_log ws b f"]]])
        (use that accept_permitted in \<open>auto simp: phase_safe stable_conj_latest\<close>)
    show ?case
      by (auto simp: Let_def phase_safe intro!: triple_pure triple_if triple_weaken [OF step] triple_accept_probe)
  qed (auto simp: map_err_def phase_safe split: sum.splits)
qed (auto simp: phase_safe)

lemma triple_probe_phase:
  assumes "\<not> dc_probe_accepted st"
  shows "log_triple (\<lambda>l. fresh_log ws b f l \<and> \<not> probed l \<and> latest_state l = Some st) (probe_phase env ws fuel st) (probe_post ws b f)"
proof (cases "\<not> dc_opened st \<or> dc_disputed st \<or> dc_tokens_pending st \<noteq> 0")
  case True
  then show ?thesis by (auto simp: probe_phase_def phase_safe intro!: triple_pure)
next
  case False
  have pre: "unprobed ws b f l" if "fresh_log ws b f l \<and> \<not> probed l \<and> latest_state l = Some st" for l
    using that False assms by (auto simp: fresh_log_def unprobed_def)
  have closed: "log_triple (unprobed ws b f) (deal_closed_observed env) (\<lambda>r l. if r = Inr False then unprobed ws b f l else safe ws b f l)"
    by (rule triple_closed_observed) (simp_all add: phase_safe)
  have "log_triple (unprobed ws b f) (probe_phase env ws fuel st) (probe_post ws b f)"
    unfolding probe_phase_def using False
    by (auto intro!: triple_seq [OF triple_retry_after] triple_seq [OF triple_sleep] triple_then [OF closed] triple_if
        triple_pure triple_seq [OF triple_first_usage] triple_decide_probe simp: phase_safe split: if_splits)
  then show ?thesis by (rule triple_weaken) (auto intro: pre)
qed


text \<open>One round of the claim loop.\<close>

definition round_post :: "advance_windows \<Rightarrow> nat \<Rightarrow> bool \<Rightarrow> (round, drive_stop) result \<Rightarrow> drive_call list \<Rightarrow> bool" where
  "round_post ws b f r l \<longleftrightarrow> safe ws b f l \<and>
     (case r of Inr (Again c needs) \<Rightarrow> claiming ws b f c needs l | Inr (Break c needs) \<Rightarrow> leaving ws b f c needs l
      | Inr (Return s) \<Rightarrow> reported_claim b s l | Inl _ \<Rightarrow> True)"

lemma round_post_simps [simp]:
  "round_post ws b f (Inl e) l = safe ws b f l" "round_post ws b f (Inr (Again c needs)) l = claiming ws b f c needs l"
  "round_post ws b f (Inr (Break c needs)) l = leaving ws b f c needs l"
  "round_post ws b f (Inr (Return s)) l = (safe ws b f l \<and> reported_claim b s l)"
  by (auto simp: round_post_def phase_safe)

lemma round_post_fun:
  "round_post ws b f (Inr (Again c needs)) = claiming ws b f c needs"
  "round_post ws b f (Inr (Break c needs)) = leaving ws b f c needs"
  by (simp_all add: fun_eq_iff)

definition submitted_log :: "advance_windows \<Rightarrow> nat \<Rightarrow> bool \<Rightarrow> nat \<Rightarrow> drive_call list \<Rightarrow> bool" where
  "submitted_log ws b f s l \<longleftrightarrow> safe ws b f l \<and> \<not> ended l \<and> \<not> finalized l \<and> claims l \<and> reported_claim b s l"

definition over_log :: "advance_windows \<Rightarrow> nat \<Rightarrow> bool \<Rightarrow> nat \<Rightarrow> drive_call list \<Rightarrow> bool" where
  "over_log ws b f s l \<longleftrightarrow> safe ws b f l \<and> reported_claim b s l"

lemma stable_submitted [simp]: "stable (submitted_log ws b f s)" "stable (over_log ws b f s)"
  by (auto simp: stable_def submitted_log_def over_log_def)

lemma submitted_over: "submitted_log ws b f s l \<Longrightarrow> over_log ws b f s l"
  by (simp add: submitted_log_def over_log_def)

lemma triple_over: "log_triple (over_log ws b f s) (run_then (deal_closed_observed env) (\<lambda>closed.
     run_then (if closed then run_pure (Inr True) else buyer_stop_receipt_observed env fuel) (\<lambda>over.
     if over then run_pure (Inr (Return s)) else run_pure (Inl error)))) (round_post ws b f)"
proof -
  have closed: "log_triple (over_log ws b f s) (deal_closed_observed env) (\<lambda>_. over_log ws b f s)"
    by (rule triple_weaken [OF triple_closed_observed [where p = "over_log ws b f s" and q = "over_log ws b f s"]]) (auto simp: over_log_def split: if_splits)
  have receipt: "log_triple (over_log ws b f s) (buyer_stop_receipt_observed env fuel) (\<lambda>_. over_log ws b f s)"
    unfolding buyer_stop_receipt_observed_def
    by (rule triple_seq [OF triple_receipt_loop triple_weaken [OF triple_observe_terminal_if [where p = "over_log ws b f s" and q = "over_log ws b f s"]]])
      (auto simp: over_log_def split: if_splits)
  have out: "log_triple (over_log ws b f s) (if over then run_pure (Inr (Return s)) else run_pure (Inl error)) (round_post ws b f)" for over
    by (auto intro!: triple_pure simp: over_log_def)
  have safe: "over_log ws b f s l \<Longrightarrow> round_post ws b f (Inl e) l" for e l
    by (simp add: over_log_def)
  have "log_triple (over_log ws b f s) (if c then run_pure (Inr True) else buyer_stop_receipt_observed env fuel) (\<lambda>_. over_log ws b f s)" for c
    using receipt by (simp add: triple_pure)
  from triple_seq [OF this out safe] show ?thesis using safe by (rule triple_seq [OF closed])
qed

lemma triple_reconcile: "log_triple (submitted_log ws b f s) (reconcile_claim env fuel b target s) (round_post ws b f)"
  unfolding reconcile_claim_def
proof (rule triple_attempt [OF triple_required [where q = "\<lambda>st l. submitted_log ws b f s l \<and> latest_state l = Some st"
      and fail_post = "submitted_log ws b f s"]], goal_cases)
  case (6 st)
  have "claiming ws b f c True l" if "submitted_log ws b f s l" "latest_state l = Some st" "validated_claim_high_water st b = Inr c" for c l
    using that by (simp add: submitted_log_def claiming_def needed_def)
  then show ?case
    by (cases "validated_claim_high_water st b")
      (auto intro!: triple_pure simp: submitted_log_def run_pure_then)
next
  case (7 e)
  show ?case using triple_over by (rule triple_weaken) (auto intro: submitted_over)
qed (auto simp: submitted_log_def stable_def)


text \<open>What the outcome of the claim call leaves.\<close>

definition settle_post ::
    "advance_windows \<Rightarrow> nat \<Rightarrow> bool \<Rightarrow> nat \<Rightarrow> bool \<Rightarrow> (nat option, drive_stop) result \<Rightarrow> drive_call list \<Rightarrow> bool" where
  "settle_post ws b f c needs r l \<longleftrightarrow>
     (case r of Inr (Some s) \<Rightarrow> submitted_log ws b f s l | Inr None \<Rightarrow> leaving ws b f c needs l | Inl _ \<Rightarrow> safe ws b f l)"

definition tried_log :: "advance_windows \<Rightarrow> nat \<Rightarrow> bool \<Rightarrow> nat \<Rightarrow> nat \<Rightarrow> (unit, advance_error) result \<Rightarrow> drive_call list \<Rightarrow> bool" where
  "tried_log ws b f c next r l \<longleftrightarrow> safe ws b f l \<and> \<not> ended l \<and> \<not> finalized l \<and> claims l \<and> reported_claim b c l
     \<and> ClaimTokens next r \<in> set l"

lemma stable_tried [simp]: "stable (tried_log ws b f c next r)"
  by (auto simp: stable_def tried_log_def)

lemma tried_leaving: "tried_log ws b f c next r l \<Longrightarrow> leaving ws b f c needs l"
  by (simp add: tried_log_def leaving_def needed_def)

lemma triple_settle_fault:
  "log_triple (tried_log ws b f c next r) (run_then (deal_closed_observed env) (\<lambda>closed.
     if closed then run_pure (Inr None) else run_pure (Inl (Fault e)))) (settle_post ws b f c needs)"
  by (rule triple_then [OF triple_closed_observed [where p = "tried_log ws b f c next r" and q = "leaving ws b f c needs"]])
    (auto simp: settle_post_def tried_leaving [THEN phase_safe(4)] intro: tried_leaving phase_safe(4) phase_calls(6)
      intro!: triple_pure split: if_splits)

lemma triple_settle:
  assumes "next \<le> target" "target \<le> b"
  shows "log_triple (tried_log ws b f c next r) (settle_claim env b target next r) (settle_post ws b f c needs)"
proof (cases r)
  case (Inr u)
  have "submitted_log ws b f next l" if "tried_log ws b f c next r l" for l
    using that assms Inr by (simp add: tried_log_def submitted_log_def reported_claim_def)
  then show ?thesis using Inr by (auto simp: settle_claim_def settle_post_def intro!: triple_pure)
next
  case (Inl e)
  have resync: "submitted_log ws b f found l"
    if "tried_log ws b f c next r l" "e = ClaimHighWaterResync next found" "found \<le> b" for found l
    using that Inl by (auto simp: tried_log_def submitted_log_def reported_claim_def)
  show ?thesis
    using triple_settle_fault [of ws b f c "next" r env e needs] resync Inl
    by (cases e) (auto simp: settle_claim_def settle_post_def intro!: triple_pure tried_leaving tried_leaving [THEN phase_safe(4)])
qed

lemma triple_submit:
  assumes "next \<le> target" "target \<le> b"
  shows "log_triple (\<lambda>l. claiming ws b f c needs l \<and> claim_permitted b next l)
     (submit_claim env fuel b at_probe c needs count target next) (round_post ws b f)"
  unfolding submit_claim_def Let_def
proof (rule triple_then [OF triple_call [where q = "\<lambda>x l. case x of Inr r \<Rightarrow> tried_log ws b f c next r l | Inl _ \<Rightarrow> False"]], goal_cases)
  case (1 r l)
  then have "leaving ws b f c needs l" by (simp add: claiming_leaving)
  then show ?case using 1 by (simp add: tried_log_def claiming_def leaving_def)
next
  case (2 r)
  have rest: "log_triple (settle_post ws b f c needs (Inr s)) (case s of None \<Rightarrow> run_pure (Inr (Break c needs))
      | Some submitted \<Rightarrow> reconcile_claim env fuel b target submitted) (round_post ws b f)" for s
    using triple_reconcile [of ws b f "the s" env fuel target]
    by (cases s) (auto simp: settle_post_def intro: triple_pure elim: triple_weaken)
  have "log_triple (tried_log ws b f c next r) (tell op (ClaimSubmitted m)) (\<lambda>_. tried_log ws b f c next r)" for op :: "'a \<Rightarrow> 'a" and m
    by (rule triple_quiet_tell) simp_all
  then have told: "log_triple (tried_log ws b f c next r)
      (tell (se_claim_submitted env m) (ClaimSubmitted m)) (\<lambda>_. tried_log ws b f c next r)" for m .
  have settled: "log_triple (tried_log ws b f c next r) (run_then (settle_claim env b target next r) (\<lambda>s. case s of
      None \<Rightarrow> run_pure (Inr (Break c needs)) | Some submitted \<Rightarrow> reconcile_claim env fuel b target submitted)) (round_post ws b f)"
    by (rule triple_then [OF triple_settle [OF assms] rest]) (simp add: settle_post_def)
  show ?case by (simp, rule triple_seq [OF told settled]) (simp add: tried_log_def)
qed simp


lemma claim_permitted_next:
  assumes "claiming ws b f c needs l" "latest_delivered l = Some n" "c < m" "m \<le> claim_target n b"
    and "m \<le> c + MAX_CLAIM_DELTA" "m = b \<longrightarrow> latest_active l = Some 0"
  shows "claim_permitted b m l"
  using assms by (auto simp: claiming_def claim_permitted_def claim_target_def validated_iff)

lemma allowance_le: "(if i = 0 then MAX_CLAIM_DELTA else windows_max_claim_delta ws i) \<le> MAX_CLAIM_DELTA"
  by (simp add: windows_max_claim_delta_def claim_delta_limit_def Let_def)

text \<open>The step once the next claim is known: skip, hold back, or submit.\<close>

lemma triple_claim_next:
  assumes "next \<le> claim_target n b" "next \<le> c + MAX_CLAIM_DELTA"
  shows "log_triple (\<lambda>l. claiming ws b f c needs l \<and> latest_delivered l = Some n)
     (if next \<le> c then run_pure (Inr (Again c needs)) else
      run_then (if next = b then call (se_active_requests env) ActiveRequests else run_pure (Inr 0)) (\<lambda>active.
      if active > 0 then run_pure (Inr (Again c needs))
      else submit_claim env fuel b at_probe c needs n (claim_target n b) next)) (round_post ws b f)"
proof (cases "next \<le> c")
  case False
  let ?p = "\<lambda>l. claiming ws b f c needs l \<and> latest_delivered l = Some n"
  let ?q = "\<lambda>r l. ?p l \<and> (\<forall>a. r = Inr a \<longrightarrow> next = b \<longrightarrow> latest_active l = Some a)"
  have active: "log_triple ?p (if next = b then call (se_active_requests env) ActiveRequests else run_pure (Inr 0)) ?q"
    by (auto intro!: triple_call triple_pure)
  have submit: "log_triple (?q (Inr 0)) (submit_claim env fuel b at_probe c needs n (claim_target n b) next) (round_post ws b f)"
    by (rule triple_weaken [OF triple_submit [where ws = ws and f = f and needs = needs]])
      (use assms False claim_permitted_next [of ws b f c needs _ n "next"] in \<open>auto simp: claim_target_def\<close>)
  have "log_triple (?q (Inr a)) (if a > 0 then run_pure (Inr (Again c needs))
      else submit_claim env fuel b at_probe c needs n (claim_target n b) next) (round_post ws b f)" for a
    using submit by (cases "a = 0") (auto intro!: triple_pure)
  then show ?thesis unfolding if_not_P [OF False] by (rule triple_then [OF active]) (auto dest: phase_safe(3))
qed (auto intro: triple_pure)

lemma triple_claim_step: "log_triple (claiming ws b f c needs) (claim_step env ws' fuel b at_probe c needs) (round_post ws b f)"
proof -
  let ?p = "\<lambda>n l. claiming ws b f c needs l \<and> latest_delivered l = Some n"
  have bound: "min t (saturating_add u128_max c (if i = 0 then MAX_CLAIM_DELTA else windows_max_claim_delta ws' i)) \<le> c + MAX_CLAIM_DELTA"
    for t i using allowance_le [of i ws'] by (simp add: saturating_add_def)
  have load: "log_triple (claiming ws b f c needs) (load_delivered env) (\<lambda>r l. case r of Inr n \<Rightarrow> ?p n l | Inl _ \<Rightarrow> safe ws b f l)"
    by (rule triple_load_delivered) simp
  show ?thesis unfolding claim_step_def Let_def
  proof (rule triple_seq [OF triple_retry_after triple_seq [OF triple_sleep triple_then [OF load]]], goal_cases)
    case (3 x y n)
    show ?case unfolding sum.case by (rule triple_claim_next [OF _ bound]) simp
  qed (simp_all add: phase_safe)
qed


lemma triple_claim_round: "log_triple (claiming ws b f c needs) (claim_round env ws' fuel b at_probe c needs) (round_post ws b f)"
proof (cases "c \<ge> b")
  case True
  then show ?thesis by (auto simp: claim_round_def intro!: triple_pure claiming_leaving)
next
  case False
  let ?k = "claiming ws b f c needs"
  have load: "log_triple ?k (load_delivered env) (\<lambda>_. ?k)" by (rule triple_load_delivered) simp
  have break: "log_triple ?k (run_pure (Inr (Break c needs))) (round_post ws b f)"
    by (rule triple_pure) (simp add: claiming_leaving)
  have wait: "log_triple ?k (run_pure (Inr (if closed then Break c needs else Again c needs))) (round_post ws b f)" for closed
    by (rule triple_pure) (simp add: claiming_leaving)
  have closed: "log_triple ?k (deal_closed_observed env) (\<lambda>r l. if r = Inr False then ?k l else leaving ws b f c needs l)"
    by (rule triple_closed_observed) (auto intro: claiming_leaving phase_calls(6))
  note step = triple_claim_step [of ws b f c needs env ws' fuel at_probe]
  have safe: "?k l \<Longrightarrow> round_post ws b f (Inl e) l" for e l by (simp add: phase_safe)
  have idle: "log_triple ?k (run_then (observe_retry_after env t) (\<lambda>_. run_then (wait_claim_or_closed env fuel t') (\<lambda>closed.
      run_pure (Inr (if closed then Break c needs else Again c needs))))) (round_post ws b f)" for t t'
    by (rule triple_seq [OF triple_retry_after triple_seq [OF triple_wait wait safe] safe]) simp_all
  have finish: "log_triple ?k (run_then (load_delivered env) (\<lambda>n. if c \<ge> claim_target n b then run_pure (Inr (Break c needs))
      else claim_step env ws' fuel b at_probe c needs)) (round_post ws b f)"
    by (rule triple_seq [OF load triple_if [OF break step] safe])
  have open_: "log_triple ?k (run_then (load_delivered env) (\<lambda>n. if c < claim_target n b then claim_step env ws' fuel b at_probe c needs
      else run_then (load_done env) (\<lambda>d. if d then run_then (load_delivered env) (\<lambda>n.
          if c \<ge> claim_target n b then run_pure (Inr (Break c needs)) else claim_step env ws' fuel b at_probe c needs)
        else run_then (observe_retry_after env t) (\<lambda>_. run_then (wait_claim_or_closed env fuel t') (\<lambda>closed.
          run_pure (Inr (if closed then Break c needs else Again c needs))))))) (round_post ws b f)" for t t'
    by (rule triple_seq [OF load triple_if [OF step triple_seq [OF triple_load_done triple_if [OF finish idle] safe]] safe]) simp
  show ?thesis unfolding claim_round_def if_not_P [OF False]
  proof (rule triple_then [OF closed], goal_cases)
    case (1 x)
    then show ?case using open_ by (cases x) (auto intro!: triple_pure)
  next
    case (2 e l)
    then show ?case by (simp add: phase_safe)
  qed
qed

definition drive_post :: "advance_windows \<Rightarrow> nat \<Rightarrow> bool \<Rightarrow> (nat, drive_stop) result \<Rightarrow> drive_call list \<Rightarrow> bool" where
  "drive_post ws b f r l \<longleftrightarrow> safe ws b f l \<and> (\<forall>c. r = Inr c \<longrightarrow> reported_claim b c l)"

lemma triple_finish: "log_triple (leaving ws b f c needs) (finish_drive env ws f c needs) (drive_post ws b f)"
proof (cases "needs \<and> f")
  case True
  let ?q = "\<lambda>l. safe ws b f l \<and> reported_claim b c l"
  have sleep: "log_triple (leaving ws b f c needs) (sleep env (aw_promote ws))
      (\<lambda>_ l. leaving ws b f c needs l \<and> (\<exists>l'. l = Sleep (aw_promote ws) # l'))"
    unfolding sleep_def by (rule triple_tell) (auto intro: stableD)
  have final: "log_triple (\<lambda>l. leaving ws b f c needs l \<and> (\<exists>l'. l = Sleep (aw_promote ws) # l'))
      (call (se_finalize env) Finalize) (\<lambda>_. ?q)"
    by (rule triple_call) (use True in \<open>auto simp: leaving_def finalize_permitted_def needed_def\<close>)
  have closed: "log_triple ?q (deal_closed_observed env) (\<lambda>_. ?q)"
    by (rule triple_weaken [OF triple_closed_observed [where p = ?q and q = ?q]]) (auto simp: stable_def)
  have "log_triple ?q (run_then (deal_closed_observed env) (\<lambda>closed. if closed then run_pure (Inr c) else run_pure (Inl e)))
      (drive_post ws b f)" for e
    by (rule triple_seq [OF closed triple_if [OF triple_pure triple_pure]]) (auto simp: drive_post_def)
  then have rest: "log_triple ?q (case r of Inr u \<Rightarrow> run_pure (Inr c) | Inl e \<Rightarrow>
      run_then (deal_closed_observed env) (\<lambda>closed. if closed then run_pure (Inr c) else run_pure (Inl (Fault e)))) (drive_post ws b f)" for r
    by (cases r) (auto intro!: triple_pure simp: drive_post_def)
  show ?thesis unfolding finish_drive_def if_P [OF True]
    by (rule triple_then [OF sleep triple_then [OF final rest]]) (auto simp: drive_post_def leaving_def)
next
  case False
  then show ?thesis by (auto simp: finish_drive_def drive_post_def leaving_def intro!: triple_pure)
qed

lemma triple_claim_loop: "log_triple (claiming ws b f c needs) (claim_loop env ws fuel b f at_probe n c needs) (drive_post ws b f)"
proof (induction n arbitrary: c needs)
  case 0
  then show ?case by (auto simp: drive_post_def phase_safe intro: triple_pure)
next
  case (Suc n)
  show ?case unfolding claim_loop.simps
  proof (rule triple_then [OF triple_claim_round], goal_cases)
    case (1 r)
    have "log_triple (round_post ws b f (Inr (Return s))) (run_pure (Inr s)) (drive_post ws b f)" for s
      by (rule triple_pure) (auto simp: drive_post_def)
    then show ?case by (cases r) (simp_all add: round_post_fun Suc triple_finish)
  qed (simp add: drive_post_def)
qed


lemma triple_drive_claims: "log_triple (fresh_log ws b f) (drive_claims env ws fuel b f at_probe) (drive_post ws b f)"
  unfolding drive_claims_def
proof (rule triple_then [OF triple_required [where q = "\<lambda>st l. fresh_log ws b f l \<and> latest_state l = Some st"
      and fail_post = "fresh_log ws b f"]], goal_cases)
  case (6 st)
  show ?case
  proof (cases "validated_claim_high_water st b")
    case (Inl e)
    then show ?thesis by (auto simp: run_pure_then drive_post_def phase_safe intro!: triple_pure)
  next
    case (Inr c)
    have "log_triple (\<lambda>l. fresh_log ws b f l \<and> latest_state l = Some st)
       (claim_loop env ws fuel b f at_probe fuel c (dc_tokens_pending st > dc_tokens_final st)) (drive_post ws b f)"
      by (rule triple_weaken [OF triple_claim_loop]) (use Inr in \<open>auto simp: fresh_log_def claiming_def needed_def\<close>)
    then show ?thesis using Inr by (simp add: run_pure_then)
  qed
qed (auto simp: drive_post_def phase_safe stable_def fresh_log_def)

lemma triple_drive_advance:
  assumes "b = saturating_mul u128_max tick_budget tick_size"
  shows "log_triple (\<lambda>l. l = []) (drive_advance env ws fuel tick_budget tick_size f) (drive_post ws b f)"
proof (cases "tick_size = 0")
  case True
  then show ?thesis by (auto simp: drive_advance_def drive_post_def intro: triple_pure)
next
  case False
  let ?start = "\<lambda>l. fresh_log ws b f l \<and> \<not> probed l"
  have stable: "stable ?start" "stable (\<lambda>l. ?start l \<and> latest_state l = Some st)" for st
    by (auto simp: stable_def fresh_log_def)
  have zero: "safe ws b f l \<Longrightarrow> drive_post ws b f (Inr 0) l" "safe ws b f l \<Longrightarrow> drive_post ws b f (Inl e) l" for e l
    by (simp_all add: drive_post_def reported_claim_def)
  have closed: "log_triple ?start (deal_closed_observed env) (\<lambda>r l. if r = Inr False then ?start l else safe ws b f l)"
    by (rule triple_closed_observed [OF stable(1)]) (auto simp: fresh_log_def)
  have required: "log_triple ?start (required_claim_state env)
      (\<lambda>r l. case r of Inr st \<Rightarrow> ?start l \<and> latest_state l = Some st | Inl _ \<Rightarrow> ?start l)"
    by (rule triple_required) (auto intro: stable simp: stable_def fresh_log_def)
  have probe: "log_triple (\<lambda>l. fresh_log ws b f l \<and> \<not> probed l \<and> latest_state l = Some st) (run_then (probe_phase env ws fuel st) (\<lambda>probe. case probe of
      None \<Rightarrow> run_pure (Inr 0) | Some at_probe \<Rightarrow> drive_claims env ws fuel b f (Some at_probe))) (drive_post ws b f)"
    if "\<not> dc_probe_accepted st" for st
  proof (rule triple_then [OF triple_probe_phase [OF that, of ws b f env fuel]], goal_cases)
    case (1 probe)
    have "log_triple (probe_post ws b f (Inr (Some p))) (drive_claims env ws fuel b f (Some p)) (drive_post ws b f)" for p
      using triple_drive_claims by (rule triple_weaken) simp_all
    then show ?case by (cases probe) (auto intro!: triple_pure zero)
  qed (auto simp: zero)
  have main: "log_triple ?start (run_then (required_claim_state env) (\<lambda>st.
      if dc_probe_accepted st then drive_claims env ws fuel b f None
      else run_then (probe_phase env ws fuel st) (\<lambda>probe. case probe of
        None \<Rightarrow> run_pure (Inr 0) | Some at_probe \<Rightarrow> drive_claims env ws fuel b f (Some at_probe)))) (drive_post ws b f)"
    by (rule triple_then [OF required]) (auto simp: probe zero phase_safe intro: triple_weaken [OF triple_drive_claims])
  have "log_triple ?start (drive_advance env ws fuel tick_budget tick_size f) (drive_post ws b f)"
    unfolding drive_advance_def if_not_P [OF False] Let_def assms [symmetric]
    by (rule triple_then [OF closed]) (use main in \<open>auto intro!: triple_pure zero split: if_splits\<close>)
  then show ?thesis by (rule triple_weaken) (simp_all add: fresh_log_def)
qed

lemma drive_facts:
  assumes "drive_advance env ws fuel tick_budget tick_size f \<lparr>dw_world = w, dw_log = []\<rparr> = (r, d)"
    and "b = saturating_mul u128_max tick_budget tick_size"
  shows "safe ws b f (dw_log d)" "r = Inr c \<Longrightarrow> reported_claim b c (dw_log d)"
  using log_tripleD [OF triple_drive_advance [OF assms(2)] _ assms(1)] by (simp_all add: drive_post_def)


section \<open>What the driver may do\<close>

text \<open>
  Claim C11: the driver claims only what was delivered and what the chain can accept.  Whatever the
  chain, the observer and the counters answer, each claim it submits is above the high-water mark it
  last read from an open, undisputed deal with an accepted probe, by at most one tick; it stays
  within the paid probe tick or the delivered usage it last loaded, and within the deal's budget; the
  claim that exhausts the budget is held back while requests are active; and no claim follows the
  observation that the deal is over.  What it returns is a mark it read or a claim that the chain took.
\<close>

theorem driver_claims_backed:
  assumes "drive_advance env ws fuel tick_budget tick_size finalize_last \<lparr>dw_world = w, dw_log = []\<rparr> = (r, d)"
    and "b = saturating_mul u128_max tick_budget tick_size"
  shows "(\<forall>later n a earlier. dw_log d = later @ ClaimTokens n a # earlier \<longrightarrow>
       (\<exists>st. latest_state earlier = Some st \<and> dc_opened st \<and> \<not> dc_disputed st \<and> dc_probe_accepted st
          \<and> dc_tokens_pending st < n \<and> n \<le> dc_tokens_pending st + MAX_CLAIM_DELTA)
       \<and> (\<exists>delivered. latest_delivered earlier = Some delivered \<and> n \<le> max delivered PROBE_SEED_TOKENS)
       \<and> n \<le> b \<and> (n = b \<longrightarrow> latest_active earlier = Some 0)
       \<and> \<not> ended earlier)
     \<and> (\<forall>c. r = Inr c \<longrightarrow> c \<le> b \<and>
       (c = 0 \<or> (\<exists>st. DealState (Inr (Some st)) \<in> set (dw_log d) \<and> dc_tokens_pending st = c)
        \<or> ClaimTokens c (Inr ()) \<in> set (dw_log d)
        \<or> (\<exists>n. ClaimTokens n (Inl (ClaimHighWaterResync n c)) \<in> set (dw_log d))))"
proof -
  have "claim_permitted b n earlier" if "dw_log d = later @ ClaimTokens n a # earlier" for later n a earlier
    using safe_split [of ws b finalize_last later "ClaimTokens n a" earlier] drive_facts(1) [OF assms] that by simp
  moreover have "reported_claim b c (dw_log d)" if "r = Inr c" for c
    using drive_facts(2) [OF assms that] .
  ultimately show ?thesis unfolding claim_permitted_def reported_claim_def by blast
qed

text \<open>
  The probe is taken at most once and the last claim is promoted at most once, each at its
  time.  The driver accepts the probe only while the deal was last read as open, undisputed and
  untouched, after some usage was delivered, with a durable prefix of that usage within one tick,
  and before any claim; it promotes only when that is its task, right after the promotion
  window, and when a claim is contestable: one it submitted or one it found on the chain.
\<close>

theorem driver_writes_in_order:
  assumes "drive_advance env ws fuel tick_budget tick_size finalize_last \<lparr>dw_world = w, dw_log = []\<rparr> = (r, d)"
  shows "(\<forall>later a earlier. dw_log d = later @ AcceptProbe a # earlier \<longrightarrow>
       \<not> probed earlier \<and> \<not> claims earlier \<and> \<not> finalized earlier \<and> \<not> ended earlier
       \<and> (\<exists>st. latest_state earlier = Some st \<and> dc_opened st \<and> \<not> dc_disputed st \<and> \<not> dc_probe_accepted st
            \<and> dc_tokens_pending st = 0)
       \<and> (\<exists>n p. latest_delivered earlier = Some n \<and> latest_prefix earlier = Some p \<and> 0 < p \<and> p \<le> n \<and> p \<le> TICK_SIZE))
     \<and> (\<forall>later a earlier. dw_log d = later @ Finalize a # earlier \<longrightarrow>
       finalize_last \<and> \<not> finalized earlier \<and> (\<exists>rest. earlier = Sleep (aw_promote ws) # rest)
       \<and> (claims earlier \<or> (\<exists>st. latest_state earlier = Some st \<and> dc_tokens_final st < dc_tokens_pending st)))"
proof -
  let ?b = "saturating_mul u128_max tick_budget tick_size"
  note safe = drive_facts(1) [OF assms refl]
  have "probe_permitted earlier" if "dw_log d = later @ AcceptProbe a # earlier" for later a earlier
    using safe_split [of ws ?b finalize_last later "AcceptProbe a" earlier] safe that by simp
  moreover have "finalize_permitted ws finalize_last earlier" if "dw_log d = later @ Finalize a # earlier" for later a earlier
    using safe_split [of ws ?b finalize_last later "Finalize a" earlier] safe that by simp
  ultimately show ?thesis unfolding probe_permitted_def finalize_permitted_def by blast
qed

text \<open>A chain for the witnesses: it takes every claim, and two and a half million tokens were delivered.\<close>

record sample_chain =
  sm_accepted :: bool
  sm_pending :: nat
  sm_final :: nat
  sm_now :: nat

definition sample_read :: "sample_chain \<Rightarrow> deal_chain_state" where
  "sample_read w = \<lparr>dc_funded = True, dc_opened = True, dc_probe_accepted = sm_accepted w, dc_disputed = False,
     dc_deposit = 2000, dc_finalized_owed = 0, dc_tokens_final = sm_final w, dc_tokens_pending = sm_pending w,
     dc_probe_tick = 0, dc_funded_time = Some 900, dc_probe_time = 1000, dc_last_claim_time = 0, dc_dispute_time = 0\<rparr>"

definition sample_env :: "sample_chain seller_env" where
  "sample_env =
     \<lparr>se_snapshot = (\<lambda>w. (Some \<lparr>ss_seller_locked = 0, ss_buyer_locked = 0, ss_buyer_lead = 0, ss_tokens_final = 0,
         ss_seller_received = 0, ss_buyer_refunded = 0, ss_burned = 0, ss_closed = False\<rparr>, w)),
      se_terminal_receipt = (\<lambda>w. (False, w)), se_buyer_stop_receipt = (\<lambda>w. (False, w)), se_timer_fired = (\<lambda>w. (False, w)),
      se_deal_state = (\<lambda>w. (Inr (Some (sample_read w)), w)),
      se_accept_probe = (\<lambda>w. (Inr (), w\<lparr>sm_accepted := True, sm_pending := TICK_SIZE, sm_final := TICK_SIZE\<rparr>)),
      se_claim_tokens = (\<lambda>n w. (Inr (), w\<lparr>sm_final := sm_pending w, sm_pending := n\<rparr>)),
      se_finalize = (\<lambda>w. (Inr (), w\<lparr>sm_final := sm_pending w\<rparr>)),
      se_clock = (\<lambda>w. (sm_now w, w)), se_sleep = (\<lambda>t w. w\<lparr>sm_now := sm_now w + t\<rparr>),
      se_load_delivered = (\<lambda>w. (2500000, w)), se_load_done = (\<lambda>w. (True, w)),
      se_observe = (\<lambda>st w. (Inr (), w)), se_prepare_probe = (\<lambda>n w. (Inr n, w)), se_active_requests = (\<lambda>w. (0, w)),
      se_observe_terminal = (\<lambda>w. (Inr (), w)), se_chain_unavailable = (\<lambda>w. w), se_retry_after = (\<lambda>t w. w),
      se_probe_decision = (\<lambda>m w. w), se_claim_submitted = (\<lambda>m w. w)\<rparr>"

lemmas drive_eval = tell_def try_call_def call_def run_then_def run_pure_def Let_def

lemma sample_calls:
  "deal_closed_observed sample_env d = (Inr False, d\<lparr>dw_log := Snapshot (fst (se_snapshot sample_env (dw_world d))) # dw_log d\<rparr>)"
  "required_claim_state sample_env d = (Inr (sample_read (dw_world d)),
     d\<lparr>dw_log := [Observe (sample_read (dw_world d)) (Inr ()), DealState (Inr (Some (sample_read (dw_world d))))] @ dw_log d\<rparr>)"
  "load_delivered sample_env d = (Inr 2500000, d\<lparr>dw_log := LoadDelivered 2500000 # dw_log d\<rparr>)"
  "load_done sample_env d = (Inr True, d\<lparr>dw_log := LoadDone True # dw_log d\<rparr>)"
  "sleep sample_env t d = (Inr (), \<lparr>dw_world = (dw_world d)\<lparr>sm_now := sm_now (dw_world d) + t\<rparr>, dw_log = Sleep t # dw_log d\<rparr>)"
  "observe_retry_after sample_env t d = (Inr (), d\<lparr>dw_log := RetryAfter t # dw_log d\<rparr>)"
  by (simp_all add: deal_closed_observed_def deal_closed_def observe_terminal_if_False required_claim_state_def load_delivered_def
      load_done_def sleep_def observe_retry_after_def sample_env_def drive_eval)

definition sample_start :: "sample_chain drive" where
  "sample_start = \<lparr>dw_world = \<lparr>sm_accepted = True, sm_pending = 2000000, sm_final = 1000000, sm_now = 0\<rparr>, dw_log = []\<rparr>"

lemma sample_allowance: "windows_max_claim_delta (from_bounds claim_bounds_canonical) (aw_claim_interval (from_bounds claim_bounds_canonical)) = 1000000
   \<and> aw_claim_interval (from_bounds claim_bounds_canonical) \<noteq> 0"
  by (simp add: windows_max_claim_delta_def from_bounds_def claim_bounds_canonical_def canonical_consts_def claim_delta_limit_def
      SECOND_def TICK_SIZE_def MAX_CLAIM_DELTA_def wrapping_mul_def u128_max_def)

lemma sample_writes:
  "call (se_claim_tokens sample_env n) nt d =
     (Inr (Inr ()), \<lparr>dw_world = (dw_world d)\<lparr>sm_final := sm_pending (dw_world d), sm_pending := n\<rparr>, dw_log = nt (Inr ()) # dw_log d\<rparr>)"
  "tell (se_claim_submitted sample_env m) c d = (Inr (), d\<lparr>dw_log := c # dw_log d\<rparr>)"
  "call (se_finalize sample_env) nt d =
     (Inr (Inr ()), \<lparr>dw_world = (dw_world d)\<lparr>sm_final := sm_pending (dw_world d)\<rparr>, dw_log = nt (Inr ()) # dw_log d\<rparr>)"
  by (simp_all add: sample_env_def drive_eval)

lemma sample_claims:
  assumes "sm_accepted (dw_world d)" "sm_pending (dw_world d) = 2000000" "sm_final (dw_world d) \<le> 2000000"
  shows "\<exists>d'. claim_round sample_env (from_bounds claim_bounds_canonical) fuel 3000000 None 2000000 needs d = (Inr (Again 2500000 True), d')
     \<and> sm_accepted (dw_world d') \<and> sm_pending (dw_world d') = 2500000 \<and> sm_final (dw_world d') = 2000000
     \<and> ClaimTokens 2500000 (Inr ()) \<in> set (dw_log d')"
  using assms
  by (simp add: claim_round_def run_then_def sample_calls sample_writes claim_target_def PROBE_SEED_TOKENS_def TICK_SIZE_def
      claim_step_def Let_def sample_allowance saturating_add_def u128_max_def run_pure_def submit_claim_def settle_claim_def
      reconcile_claim_def attempt_def validated_claim_high_water_def sample_read_def map_err_def)

lemma sample_finishes:
  "\<exists>d'. claim_round sample_env ws fuel 3000000 None 2500000 True d = (Inr (Break 2500000 True), d') \<and> set (dw_log d) \<subseteq> set (dw_log d')"
  "\<exists>d'. finish_drive sample_env ws True 2500000 True d = (Inr 2500000, d')
     \<and> insert (Finalize (Inr ())) (set (dw_log d)) \<subseteq> set (dw_log d')"
  by (auto simp: claim_round_def run_then_def sample_calls claim_target_def PROBE_SEED_TOKENS_def TICK_SIZE_def run_pure_def
      finish_drive_def sample_writes)

lemma sample_drive:
  "\<exists>d. drive_advance sample_env (from_bounds claim_bounds_canonical) 2 3 1000000 True sample_start = (Inr 2500000, d)
     \<and> ClaimTokens 2500000 (Inr ()) \<in> set (dw_log d) \<and> Finalize (Inr ()) \<in> set (dw_log d)"
proof -
  let ?ws = "from_bounds claim_bounds_canonical"
  have loop: "\<exists>d'. claim_loop sample_env ?ws fuel 3000000 True None 2 2000000 needs d = (Inr 2500000, d')
      \<and> ClaimTokens 2500000 (Inr ()) \<in> set (dw_log d') \<and> Finalize (Inr ()) \<in> set (dw_log d')"
    if w: "sm_accepted (dw_world d)" "sm_pending (dw_world d) = 2000000" "sm_final (dw_world d) \<le> 2000000" for fuel needs d
  proof -
    obtain d1 where 1: "claim_round sample_env ?ws fuel 3000000 None 2000000 needs d = (Inr (Again 2500000 True), d1)"
      "ClaimTokens 2500000 (Inr ()) \<in> set (dw_log d1)" using sample_claims [OF w] by blast
    obtain d2 where 2: "claim_round sample_env ?ws fuel 3000000 None 2500000 True d1 = (Inr (Break 2500000 True), d2)"
      "set (dw_log d1) \<subseteq> set (dw_log d2)" using sample_finishes(1) by blast
    obtain d3 where 3: "finish_drive sample_env ?ws True 2500000 True d2 = (Inr 2500000, d3)"
      "insert (Finalize (Inr ())) (set (dw_log d2)) \<subseteq> set (dw_log d3)"
      using sample_finishes(2) by blast
    show ?thesis using 1 2 3 by (auto simp: numeral_2_eq_2 run_then_def)
  qed
  have budget: "saturating_mul u128_max 3 1000000 = 3000000" by (simp add: saturating_mul_def u128_max_def)
  have "\<exists>d. drive_advance sample_env ?ws 2 3 1000000 True sample_start = claim_loop sample_env ?ws 2 3000000 True None 2 2000000 True d
      \<and> dw_world d = dw_world sample_start"
    by (simp add: drive_advance_def drive_claims_def run_then_def sample_calls run_pure_def sample_start_def sample_read_def
        validated_claim_high_water_def TICK_SIZE_def map_err_def budget Let_def del: claim_loop.simps)
      (metis drive.select_convs(1))
  then obtain d where "drive_advance sample_env ?ws 2 3 1000000 True sample_start = claim_loop sample_env ?ws 2 3000000 True None 2 2000000 True d"
    "dw_world d = dw_world sample_start" by blast
  then show ?thesis using loop [of d 2 True] by (simp add: sample_start_def)
qed

theorem driver_claims_backed_witness:
  "\<exists>d later earlier. drive_advance sample_env (from_bounds claim_bounds_canonical) 2 3 1000000 True sample_start = (Inr 2500000, d)
     \<and> dw_log d = later @ ClaimTokens 2500000 (Inr ()) # earlier
     \<and> (\<exists>delivered. latest_delivered earlier = Some delivered \<and> 2500000 \<le> max delivered PROBE_SEED_TOKENS) \<and> \<not> ended earlier"
proof -
  obtain d where d: "drive_advance sample_env (from_bounds claim_bounds_canonical) 2 3 1000000 True sample_start = (Inr 2500000, d)"
    "ClaimTokens 2500000 (Inr ()) \<in> set (dw_log d)" using sample_drive by blast
  then obtain later earlier where "dw_log d = later @ ClaimTokens 2500000 (Inr ()) # earlier" by (auto simp: in_set_conv_decomp)
  then show ?thesis
    using driver_claims_backed [OF d(1) [unfolded sample_start_def] refl] d(1) by blast
qed

theorem driver_writes_in_order_witness:
  "\<exists>d later earlier. drive_advance sample_env (from_bounds claim_bounds_canonical) 2 3 1000000 True sample_start = (Inr 2500000, d)
     \<and> dw_log d = later @ Finalize (Inr ()) # earlier \<and> \<not> finalized earlier
     \<and> (\<exists>rest. earlier = Sleep (aw_promote (from_bounds claim_bounds_canonical)) # rest)"
proof -
  obtain d where d: "drive_advance sample_env (from_bounds claim_bounds_canonical) 2 3 1000000 True sample_start = (Inr 2500000, d)"
    "Finalize (Inr ()) \<in> set (dw_log d)" using sample_drive by blast
  then obtain later earlier where "dw_log d = later @ Finalize (Inr ()) # earlier" by (auto simp: in_set_conv_decomp)
  then show ?thesis
    using driver_writes_in_order [OF d(1) [unfolded sample_start_def]] d(1) by blast
qed

end
