(* ===== verification/AdvanceLive.thy ===== *)
theory AdvanceLive
  imports AdvanceProps
begin

text \<open>
  When the claim driver gets its work done.  The locale \<open>cooperative_chain\<close> says what a chain on which
  nobody interferes promises to a seller whose delivery is complete; inside it the driver is
  shown to return, with everything claimed and the last claim promoted.
\<close>

section \<open>What a program yields\<close>

text \<open>From a world, whatever the log, the program returns a value and leaves a world.\<close>

definition yields :: "('a, 'w) drive_run \<Rightarrow> 'w \<Rightarrow> 'a \<Rightarrow> 'w \<Rightarrow> bool" where
  "yields m w x w' \<longleftrightarrow> (\<forall>d. dw_world d = w \<longrightarrow> (\<exists>d'. m d = (Inr x, d') \<and> dw_world d' = w'))"

lemma yieldsD: "yields m (dw_world d) x w' \<Longrightarrow> \<exists>d'. m d = (Inr x, d') \<and> dw_world d' = w'"
  by (simp add: yields_def)

lemma yields_pure: "yields (run_pure (Inr x)) w x w"
  by (simp add: yields_def run_pure_def)

lemma yields_then: "yields m w x w1 \<Longrightarrow> yields (f x) w1 y w2 \<Longrightarrow> yields (run_then m f) w y w2"
  unfolding yields_def run_then_def by fastforce

lemma yields_attempt: "yields m w x w1 \<Longrightarrow> yields (f x) w1 y w2 \<Longrightarrow> yields (attempt m f g) w y w2"
  unfolding yields_def attempt_def by fastforce

lemma yields_call: "op w = (a, w') \<Longrightarrow> yields (call op note) w a w'"
  by (simp add: yields_def call_def)

lemma yields_tell: "yields (tell op note) w () (op w)"
  unfolding tell_def by (rule yields_call) simp

lemma yields_try_call: "op w = (Inr a, w') \<Longrightarrow> yields (try_call op note) w a w'"
  unfolding try_call_def by (rule yields_then [OF yields_call [where a = "Inr a" and w' = w']]) (simp_all add: map_err_def yields_pure)

lemma yields_sleep: "yields (sleep env t) w () (se_sleep env t w)"
  unfolding sleep_def by (rule yields_tell)

lemma yields_retry: "se_retry_after env t w = w \<Longrightarrow> yields (observe_retry_after env t) w () w"
  unfolding observe_retry_after_def using yields_tell [of "se_retry_after env t" "RetryAfter t" w] by simp


section \<open>A chain on which nobody interferes\<close>

definition claim_allowance :: "advance_windows \<Rightarrow> nat" where
  "claim_allowance ws = (if aw_claim_interval ws = 0 then MAX_CLAIM_DELTA else windows_max_claim_delta ws (aw_claim_interval ws))"

text \<open>
  \<open>good k w\<close>: the deal is in good standing and the clock can take \<open>k\<close> more claim intervals.
  \<open>pend\<close> is the high-water mark, \<open>level\<close> says that no claim is contestable, \<open>rested\<close> that a claim
  interval has passed since the last claim, and \<open>settled n\<close> that the chain counts \<open>n\<close> tokens as final.
\<close>

locale cooperative_chain =
  fixes env :: "'w seller_env" and ws :: advance_windows and budget delivered :: nat
    and good :: "nat \<Rightarrow> 'w \<Rightarrow> bool" and pend :: "'w \<Rightarrow> nat" and level rested :: "'w \<Rightarrow> bool" and settled :: "nat \<Rightarrow> 'w \<Rightarrow> bool"
  assumes alive: "good k w \<Longrightarrow> \<exists>s. se_snapshot env w = (Some s, w) \<and> \<not> ss_closed s"
    and reads: "good k w \<Longrightarrow> \<exists>st. se_deal_state env w = (Inr (Some st), w)
        \<and> validated_claim_high_water st budget = Inr (pend w) \<and> (dc_tokens_final st < dc_tokens_pending st \<longleftrightarrow> \<not> level w)"
    and observes: "se_observe env st w = (Inr (), w)"
    and counts: "se_load_delivered env w = (delivered, w)"
    and stopped: "se_load_done env w = (True, w)"
    and idle: "se_active_requests env w = (0, w)"
    and hints: "se_retry_after env t w = w" "se_claim_submitted env m w = w"
    and rests: "good (Suc k) w \<Longrightarrow> good k (se_sleep env (aw_claim_interval ws) w)
        \<and> pend (se_sleep env (aw_claim_interval ws) w) = pend w \<and> rested (se_sleep env (aw_claim_interval ws) w)"
    and accepts: "good k w \<Longrightarrow> rested w \<Longrightarrow> pend w < n \<Longrightarrow> n \<le> budget \<Longrightarrow> n \<le> pend w + claim_allowance ws \<Longrightarrow>
        \<exists>w'. se_claim_tokens env n w = (Inr (), w') \<and> good k w' \<and> pend w' = n \<and> \<not> level w'"
    and promotes: "good k w \<Longrightarrow> \<not> level w \<Longrightarrow>
        \<exists>w'. se_finalize env (se_sleep env (aw_promote ws) w) = (Inr (), w') \<and> settled (pend w) w'"
    and levelled: "good k w \<Longrightarrow> level w \<Longrightarrow> settled (pend w) w"
    and budget_fits: "budget \<le> u128_max"
begin

lemma pend_le: "good k w \<Longrightarrow> pend w \<le> budget"
  using reads [of k w] by (auto simp: validated_iff)

lemma closed_no: "good k w \<Longrightarrow> yields (deal_closed_observed env) w False w"
  unfolding deal_closed_observed_def deal_closed_def
  using alive [of k w] by (auto simp: observe_terminal_if_False intro!: yields_then [OF yields_then [OF yields_call]] yields_pure)

lemma required_ok:
  assumes "good k w"
  obtains st where "yields (required_claim_state env) w st w" "validated_claim_high_water st budget = Inr (pend w)"
    "dc_tokens_final st < dc_tokens_pending st \<longleftrightarrow> \<not> level w"
proof -
  obtain st where st: "se_deal_state env w = (Inr (Some st), w)" "validated_claim_high_water st budget = Inr (pend w)"
    "dc_tokens_final st < dc_tokens_pending st \<longleftrightarrow> \<not> level w"
    using reads [OF assms] by auto
  have "yields (required_claim_state env) w st w"
    unfolding required_claim_state_def
    by (rule yields_then [OF yields_call [where op = "se_deal_state env", OF st(1)]])
      (simp, rule yields_then [OF yields_try_call [where op = "se_observe env st", OF observes] yields_pure])
  then show ?thesis using st that by blast
qed

lemma load_ok: "yields (load_delivered env) w delivered w" "yields (load_done env) w True w"
  unfolding load_delivered_def load_done_def by (rule yields_call, rule counts, rule yields_call, rule stopped)

text \<open>A claim that is taken is read back.\<close>

lemma submit_ok:
  assumes "good k w" "rested w" "pend w < n" "n \<le> target" "target \<le> budget" "n \<le> pend w + claim_allowance ws"
  shows "\<exists>w'. good k w' \<and> pend w' = n \<and> \<not> level w'
     \<and> yields (submit_claim env fuel budget p c needs count target n) w (Again n True) w'"
proof -
  obtain w' where w': "se_claim_tokens env n w = (Inr (), w')" "good k w'" "pend w' = n" "\<not> level w'"
    using accepts [of k w n] assms by auto
  obtain st where st: "yields (required_claim_state env) w' st w'" "validated_claim_high_water st budget = Inr n"
    using required_ok [OF w'(2)] w'(3) by metis
  have rec: "yields (reconcile_claim env fuel budget target n) w' (Again n True) w'"
    unfolding reconcile_claim_def by (rule yields_attempt [OF st(1)]) (simp add: st(2) run_pure_then assms(4) yields_pure leD)
  have told: "yields (tell (se_claim_submitted env m) nt) w' () w'" for m nt
    using yields_tell [of "se_claim_submitted env m" nt w'] by (simp add: hints)
  have "yields (submit_claim env fuel budget p c needs count target n) w (Again n True) w'"
    unfolding submit_claim_def Let_def
    by (rule yields_then [OF yields_call [where op = "se_claim_tokens env n", OF w'(1)] yields_then [OF told]]) (simp add: settle_claim_def run_pure_then rec)
  then show ?thesis using w' by blast
qed

text \<open>One round: done, or one step nearer to the target.\<close>

lemma round_done:
  assumes "good k w" "claim_target delivered budget \<le> pend w"
  shows "yields (claim_round env ws fuel budget p (pend w) needs) w (Break (pend w) needs) w"
proof (cases "pend w \<ge> budget")
  case False
  have "\<not> pend w < claim_target delivered budget" using assms(2) by simp
  then show ?thesis unfolding claim_round_def using False assms(2)
    by (auto intro!: yields_then [OF closed_no [OF assms(1)]] yields_then [OF load_ok(1)] yields_then [OF load_ok(2)] yields_pure)
qed (simp add: claim_round_def yields_pure)

lemma round_step:
  assumes "good (Suc k) w" "pend w < claim_target delivered budget" "0 < claim_allowance ws"
  shows "\<exists>w'. good k w' \<and> pend w' = min (claim_target delivered budget) (pend w + claim_allowance ws) \<and> \<not> level w'
     \<and> yields (claim_round env ws fuel budget p (pend w) needs) w (Again (pend w') True) w'"
proof -
  let ?t = "claim_target delivered budget" and ?w = "se_sleep env (aw_claim_interval ws) w"
  define n where "n = min ?t (pend w + claim_allowance ws)"
  have t: "?t \<le> budget" by (simp add: claim_target_def)
  have slept: "good k ?w" "pend ?w = pend w" "rested ?w" using rests [OF assms(1)] by auto
  have n: "pend w < n" "n \<le> ?t" "n \<le> pend w + claim_allowance ws" using assms(2,3) by (auto simp: n_def)
  obtain w' where w': "good k w'" "pend w' = n" "\<not> level w'"
    and sub: "yields (submit_claim env fuel budget p (pend w) needs delivered ?t n) ?w (Again n True) w'"
    using submit_ok [of k ?w n ?t fuel p "pend w" needs delivered] slept n t by auto
  have next_eq: "min ?t (saturating_add u128_max (pend w) (claim_allowance ws)) = n"
    using t budget_fits by (auto simp: n_def saturating_add_def)
  have active: "yields (if n = budget then call (se_active_requests env) ActiveRequests else run_pure (Inr 0)) ?w 0 ?w"
    using yields_call [where op = "se_active_requests env", OF idle] by (simp add: yields_pure)
  have step: "yields (claim_step env ws fuel budget p (pend w) needs) w (Again n True) w'"
    unfolding claim_step_def Let_def claim_allowance_def [symmetric]
    by (rule yields_then [OF yields_retry [OF hints(1)] yields_then [OF yields_sleep yields_then [OF load_ok(1)]]])
      (use n(1) sub in \<open>simp add: next_eq yields_then [OF active] del: min_less_iff_conj\<close>)
  have "\<not> budget \<le> pend w" using assms(2) t by simp
  then have "yields (claim_round env ws fuel budget p (pend w) needs) w (Again n True) w'"
    unfolding claim_round_def using assms(2) step
    by (auto intro!: yields_then [OF closed_no [OF assms(1)]] yields_then [OF load_ok(1)])
  then show ?thesis using w' by (auto simp: n_def)
qed

text \<open>The whole loop, with its promotion.\<close>

lemma finish_ok:
  assumes "good k w" "needs \<longleftrightarrow> \<not> level w"
  shows "\<exists>w'. yields (finish_drive env ws f (pend w) needs) w (pend w) w' \<and> (f \<longrightarrow> settled (pend w) w')"
proof (cases "needs \<and> f")
  case True
  then obtain w' where w': "se_finalize env (se_sleep env (aw_promote ws) w) = (Inr (), w')" "settled (pend w) w'"
    using promotes [OF assms(1)] assms(2) by auto
  have "yields (finish_drive env ws f (pend w) needs) w (pend w) w'"
    unfolding finish_drive_def if_P [OF True]
    by (rule yields_then [OF yields_sleep yields_then [OF yields_call [where op = "se_finalize env", OF w'(1)]]])
      (simp add: yields_pure)
  then show ?thesis using w'(2) by blast
next
  case False
  then show ?thesis using levelled [OF assms(1)] assms(2) unfolding finish_drive_def by (auto intro: yields_pure)
qed

lemma loop_ok:
  assumes "good k w" "m \<le> k" "m < n" "claim_target delivered budget \<le> pend w + m * claim_allowance ws"
    and "0 < claim_allowance ws" "needs \<longleftrightarrow> \<not> level w"
  shows "\<exists>w'. yields (claim_loop env ws fuel budget f p n (pend w) needs) w (max (pend w) (claim_target delivered budget)) w'
     \<and> (f \<longrightarrow> settled (max (pend w) (claim_target delivered budget)) w')"
  using assms
proof (induction m arbitrary: k w n needs)
  case 0
  then obtain n' where n: "n = Suc n'" by (cases n) auto
  have max: "max (pend w) (claim_target delivered budget) = pend w" using 0 by simp
  obtain w' where "yields (finish_drive env ws f (pend w) needs) w (pend w) w'" "f \<longrightarrow> settled (pend w) w'"
    using finish_ok [OF 0(1,6)] by blast
  moreover have "yields (claim_round env ws fuel budget p (pend w) needs) w (Break (pend w) needs) w"
    using round_done 0(1,4) by simp
  ultimately show ?case unfolding n max by (auto intro!: exI [of _ w'] yields_then)
next
  case (Suc m)
  then obtain n' k' where n: "n = Suc n'" "k = Suc k'" by (cases n; cases k) auto
  let ?t = "claim_target delivered budget"
  show ?case
  proof (cases "pend w < ?t")
    case True
    obtain w1 where w1: "good k' w1" "pend w1 = min ?t (pend w + claim_allowance ws)" "\<not> level w1"
      and round: "yields (claim_round env ws fuel budget p (pend w) needs) w (Again (pend w1) True) w1"
      using round_step [of k' w fuel p needs] Suc.prems(1,5) True n by blast
    have "?t \<le> pend w1 + m * claim_allowance ws" using Suc.prems(4) w1(2) by auto
    moreover have "max (pend w1) ?t = max (pend w) ?t" using True w1(2) by simp
    ultimately obtain w' where "yields (claim_loop env ws fuel budget f p n' (pend w1) True) w1 (max (pend w) ?t) w'"
      "f \<longrightarrow> settled (max (pend w) ?t) w'"
      using Suc.IH [OF w1(1), of n' True] Suc.prems(2,3,5) w1(3) n by auto
    then show ?thesis unfolding n(1) by (auto intro!: exI [of _ w'] yields_then [OF round])
  next
    case False
    then show ?thesis using Suc.IH [of k w n needs] Suc.prems by simp
  qed
qed

text \<open>The drive of a deal whose probe was accepted.\<close>

lemma drive_ok:
  assumes "good k w" "m \<le> k" "m < fuel" "claim_target delivered budget \<le> pend w + m * claim_allowance ws"
    and "0 < claim_allowance ws" "tick_size \<noteq> 0" "budget = saturating_mul u128_max tick_budget tick_size"
  shows "\<exists>w'. yields (drive_advance env ws fuel tick_budget tick_size f) w (max (pend w) (claim_target delivered budget)) w'
     \<and> (f \<longrightarrow> settled (max (pend w) (claim_target delivered budget)) w')"
proof -
  obtain st where st: "yields (required_claim_state env) w st w" "validated_claim_high_water st budget = Inr (pend w)"
    "dc_tokens_final st < dc_tokens_pending st \<longleftrightarrow> \<not> level w"
    using required_ok [OF assms(1)] by blast
  obtain w' where w': "yields (claim_loop env ws fuel budget f None fuel (pend w) (dc_tokens_pending st > dc_tokens_final st)) w
      (max (pend w) (claim_target delivered budget)) w'" "f \<longrightarrow> settled (max (pend w) (claim_target delivered budget)) w'"
    using loop_ok [OF assms(1-5) st(3)] by blast
  have "yields (drive_claims env ws fuel budget f None) w (max (pend w) (claim_target delivered budget)) w'"
    unfolding drive_claims_def by (rule yields_then [OF st(1)]) (simp add: st(2) run_pure_then w'(1))
  moreover have "dc_probe_accepted st" using st(2) by (simp add: validated_iff)
  ultimately have "yields (drive_advance env ws fuel tick_budget tick_size f) w (max (pend w) (claim_target delivered budget)) w'"
    unfolding drive_advance_def assms(7) [symmetric] Let_def using assms(6)
    by (auto intro!: yields_then [OF closed_no [OF assms(1)]] yields_then [OF st(1)])
  then show ?thesis using w'(2) by blast
qed

end

end
