(* ===== verification/AdvanceMock.thy ===== *)
theory AdvanceMock
  imports AdvanceLive Preflight
begin

text \<open>
  The claim driver on the mock chain.  First, two facts about the backend: an ordinary deal in good
  standing takes every claim within the driver's allowance once the claim interval has passed, and
  promotes a due claim.  Then the backend is made an environment of the driver, with the
  observer that ignores everything, and shown to be a \<open>cooperative_chain\<close>.
\<close>

section \<open>The backend accepts what the driver offers\<close>

lemma rate_within_allowance:
  assumes "delta \<le> claim_delta_limit interval secs" "interval \<le> elapsed" "elapsed \<le> u64_max"
  shows "delta \<le> MAX_CLAIM_DELTA" "delta * secs \<le> elapsed * TICK_SIZE"
proof -
  show "delta \<le> MAX_CLAIM_DELTA" using assms(1) by (simp add: claim_delta_limit_def Let_def split: if_splits)
  show "delta * secs \<le> elapsed * TICK_SIZE"
  proof (cases "secs = 0")
    case False
    then have "delta * secs \<le> interval * TICK_SIZE" using claim_delta_limit_iff [of interval secs delta] assms by simp
    also have "\<dots> \<le> elapsed * TICK_SIZE" using assms(2) by (rule mult_le_mono1)
    finally show ?thesis .
  qed simp
qed

lemma land_claim_ok:
  assumes run: "running c now cell sub" and mach: "machine_inv cell" and nd: "\<not> sc_disputed cell" and rng: "in_range c now cell sub"
    and n: "sc_tokens_pending cell < n" "n \<le> ds_funded_tokens sub"
    and rate: "n - sc_tokens_pending cell \<le> claim_delta_limit (min_claim_interval c) (min_seconds_per_tick c)"
    and t: "sc_last_claim_time cell + min_claim_interval c \<le> t" "t \<le> u64_max"
    and w: "claim_promote_window c \<le> min_claim_interval c" and typed: "consts_typed c"
  shows "\<exists>m. land_claim cell n t c = Inr (cell\<lparr>sc_tokens_final := sc_tokens_pending cell, sc_machine := m,
     sc_tokens_pending := n, sc_last_claim_time := t\<rparr>)"
proof -
  let ?d = "n - sc_tokens_pending cell" and ?e = "t - sc_last_claim_time cell"
  have e: "min_claim_interval c \<le> ?e" "?e \<le> u64_max" using t by auto
  note limits = rate_within_allowance [OF rate e]
  have fits: "?e * TICK_SIZE \<le> u128_max" using elapsed_ticks_fit [OF e(2)] .
  have "?d * min_seconds_per_tick c \<le> u128_max" using limits(2) fits by linarith
  moreover have "promote_due cell t c = Inr (cell\<lparr>sc_tokens_final := sc_tokens_pending cell\<rparr>)"
    using promoted_trusted(1) [OF run rng, of t] t(1) w by (simp add: trusted_at_def)
  moreover have "n \<le> sc_max_ticks cell * TICK_SIZE" "sc_max_ticks cell \<le> u64_max"
    using run n(2) by (auto simp: running_def terms_inv_def)
  then have "div_ceil n TICK_SIZE \<le> u64_max"
    by (auto simp: div_ceil_le_iff TICK_SIZE_pos elim!: order_trans)
  moreover have "\<exists>m. on_claim (sc_machine cell) (div_ceil n TICK_SIZE) = Inr m"
    using mach run nd n(1) div_ceil_mono [OF TICK_SIZE_pos, of "sc_tokens_pending cell" n]
    by (auto simp: on_claim_Inr machine_inv_def running_def Let_def)
  ultimately show ?thesis
    using limits fits t(1) e(1)
    by (auto simp: land_claim_def checked_simps checked_sub_def checked_mul_def Let_def try_from_def lift_machine_def map_err_def)
qed


lemma claim_accepted:
  assumes inv: "deal_inv c now cell sub" and op: "\<not> sc_closed cell" "\<not> sc_disputed cell" "sc_probe_accepted cell"
    and ord: "\<not> is_subscription sub" and rng: "in_range c now cell sub"
    and n: "sc_tokens_pending cell < n" "n \<le> ds_funded_tokens sub"
    and rate: "n - sc_tokens_pending cell \<le> claim_delta_limit (min_claim_interval c) (min_seconds_per_tick c)"
    and t: "sc_last_claim_time cell + min_claim_interval c \<le> t" "t \<le> u64_max"
    and w: "claim_promote_window c \<le> min_claim_interval c" and typed: "consts_typed c"
  shows "\<exists>m. claim_tokens_deal cell sub n t1 t c = Inr (cell\<lparr>sc_tokens_final := sc_tokens_pending cell, sc_machine := m,
     sc_tokens_pending := n, sc_last_claim_time := t\<rparr>, sub)"
proof -
  have run: "running c now cell sub" and mach: "machine_inv cell" using inv op running_iff by auto
  have "\<not> on_probe (sc_machine cell)"
    using mach op by (simp add: on_probe_def machine_inv_def Let_def)
  moreover have "sc_max_ticks cell * TICK_SIZE \<le> u128_max" "n \<le> sc_max_ticks cell * TICK_SIZE"
    using run n(2) elapsed_ticks_fit [of "sc_max_ticks cell"] by (auto simp: running_def terms_inv_def)
  ultimately show ?thesis
    using land_claim_ok [OF run mach op(2) rng n rate t w typed] op ord n
    by (auto simp: claim_tokens_deal_def checked_mul_def)
qed

text \<open>Promotion of a due claim, with its mirror in the state machine.\<close>

lemma due_promotion:
  assumes run: "running c now cell sub" and mach: "machine_inv cell" and nd: "\<not> sc_disputed cell"
    and rng: "in_range c now cell sub" and t: "sc_last_claim_time cell + claim_promote_window c \<le> t"
  obtains m where "promote_due cell t c = Inr (cell\<lparr>sc_tokens_final := sc_tokens_pending cell\<rparr>)"
    "mirror_promotion (cell\<lparr>sc_tokens_final := sc_tokens_pending cell\<rparr>) = Inr (cell\<lparr>sc_tokens_final := sc_tokens_pending cell, sc_machine := m\<rparr>)"
    "sm_price m = sc_price cell" "running c now (cell\<lparr>sc_tokens_final := sc_tokens_pending cell, sc_machine := m\<rparr>) sub"
    "in_range c now (cell\<lparr>sc_tokens_final := sc_tokens_pending cell, sc_machine := m\<rparr>) sub"
proof -
  let ?cell1 = "cell\<lparr>sc_tokens_final := sc_tokens_pending cell\<rparr>"
  have op: "\<not> sc_closed cell" "sc_probe_accepted cell" using run by (simp_all add: running_def)
  have pr: "promote_due cell t c = Inr ?cell1"
    using promoted_trusted [OF run rng, of t] t by (simp add: trusted_at_def)
  obtain m where m: "on_promote (sc_machine cell) = Inr m"
    using mach op nd by (auto simp: on_promote_Inr machine_inv_def Let_def)
  then have price: "sm_price m = sm_price (sc_machine cell)" by (auto simp: on_promote_Inr)
  have mp: "mirror_promotion ?cell1 = Inr (?cell1\<lparr>sc_machine := m\<rparr>)" using m by (simp add: mirror_promotion_def lift_machine_def map_err_def)
  have run2: "running c now (?cell1\<lparr>sc_machine := m\<rparr>) sub" using mirror_promotion_inv(1) [OF run mach nd pr mp] .
  moreover have "in_range c now (?cell1\<lparr>sc_machine := m\<rparr>) sub" using rng price by (auto simp: in_range_def deal_funding_def)
  ultimately show ?thesis using that [OF pr, of m] mp price by simp
qed

lemma finalize_succeeds:
  assumes inv: "deal_inv c now cell sub" and op: "\<not> sc_closed cell" "\<not> sc_disputed cell" "sc_probe_accepted cell"
    and ord: "\<not> is_subscription sub" and rng: "in_range c now cell sub" and ok: "consts_ok c"
    and p: "sc_tokens_final cell < sc_tokens_pending cell" and t: "sc_last_claim_time cell + claim_promote_window c \<le> t"
  shows "\<exists>cell' sub'. finalize_deal cell sub t c = Inr (cell', sub') \<and> sc_tokens_final cell' = sc_tokens_pending cell
     \<and> (sc_closed cell' \<longleftrightarrow> sc_tokens_pending cell = ds_funded_tokens sub)"
proof -
  have run: "running c now cell sub" and mach: "machine_inv cell" using inv op running_iff by auto
  have typed: "consts_typed c" using ok by (simp add: consts_ok_def)
  obtain m where p1: "promote_due cell t c = Inr (cell\<lparr>sc_tokens_final := sc_tokens_pending cell\<rparr>)"
    "mirror_promotion (cell\<lparr>sc_tokens_final := sc_tokens_pending cell\<rparr>) = Inr (cell\<lparr>sc_tokens_final := sc_tokens_pending cell, sc_machine := m\<rparr>)"
    "running c now (cell\<lparr>sc_tokens_final := sc_tokens_pending cell, sc_machine := m\<rparr>) sub"
    "in_range c now (cell\<lparr>sc_tokens_final := sc_tokens_pending cell, sc_machine := m\<rparr>) sub"
    by (rule due_promotion [OF run mach op(2) rng t])
  define cell1 where "cell1 = cell\<lparr>sc_tokens_final := sc_tokens_pending cell\<rparr>"
  define cell2 where "cell2 = cell1\<lparr>sc_machine := m\<rparr>"
  have pr: "promote_due cell t c = Inr cell1" and mp: "mirror_promotion cell1 = Inr cell2"
    and run2: "running c now cell2 sub" and rng2: "in_range c now cell2 sub" using p1 by (simp_all add: cell1_def cell2_def)
  have due: "has_due_claim cell t c = Inr True"
    using p t running_widths(4) [OF run rng] by (simp add: has_due_claim_def claim_deadline_ok)
  have le: "sc_tokens_pending cell \<le> ds_funded_tokens sub" using running_widths(6) [OF run rng] .
  show ?thesis
  proof (cases "sc_tokens_pending cell = ds_funded_tokens sub")
    case False
    then show ?thesis using due pr mp op ord le
      by (simp add: finalize_deal_def cell2_def cell1_def)
  next
    case True
    then have "ds_tokens_paid sub \<le> sc_tokens_final cell2"
      using run2 by (auto simp: running_def terms_inv_def shape_inv_def cell2_def cell1_def)
    then have credit: "credit_tokens_through cell2 sub (sc_tokens_final cell2) c = Inr (pay_through c (Some (sc_tokens_final cell2)) (cell2, sub))"
      using credit_running [OF run2 typed] le by (simp add: cell2_def cell1_def)
    obtain cell3 sub3 where p3: "pay_through c (Some (sc_tokens_final cell2)) (cell2, sub) = (cell3, sub3)" by fastforce
    have c3: "paid_up c (ds_funded_tokens sub) cell3 (sc_tokens_final cell2)" "sc_price cell3 = sc_price cell2"
      "sc_seller_locked cell3 = sc_seller_locked cell2" "sc_probe_locked cell3 = 0" "sc_buyer_bond cell3 = sc_buyer_bond cell2"
      "sc_buyer_refunded cell3 = 0" "sc_burned cell3 = 0" "sc_tokens_final cell3 = sc_tokens_final cell2"
      using p3 pay_cell_paid_up [of "sc_tokens_final cell2" "ds_funded_tokens sub"] running_books(5,6) [OF run2] run2 le
      by (auto simp: pay_through_def running_def cell2_def cell1_def)
    have "sc_tokens_final cell3 \<le> ds_funded_tokens sub" using le c3(8) by (simp add: cell2_def cell1_def)
    then obtain d where d: "delivered_ticks cell3 = Inr d" "d \<le> u64_max"
      using finalized_ticks_ok [of c cell2 sub "sc_tokens_final cell3"] run2
      by (auto simp: delivered_ticks_def running_def mock_finalized_ticks_def try_from_def u64_max_def split: if_splits)
    obtain cell4 refund where c4: "close_mock_clean cell3 d c = Inr (cell4, refund)"
      using close_paid_ok [OF run2 ok rng2 _ c3(1-7) d(2)] le by (auto simp: cell2_def cell1_def)
    then have "close_delivered cell2 sub c = Inr (cell4, sub3)"
      using credit p3 d by (simp add: close_delivered_def)
    moreover have "sc_closed cell4 \<and> sc_tokens_final cell4 = sc_tokens_final cell3"
      using c4 by (auto simp: close_mock_clean_def drained_def settle_mock_fees_def result_simps split: if_splits)
    ultimately show ?thesis using due pr mp op ord True c3(8)
      by (simp add: finalize_deal_def cell2_def cell1_def)
  qed
qed


section \<open>The backend as an environment\<close>

text \<open>The stored state of the mock chain and a clock in nanoseconds since the epoch.\<close>

record mock_world =
  mw_state :: mock_state
  mw_clock :: nat

definition unix_now :: "mock_world \<Rightarrow> nat" where
  "unix_now w = mw_clock w div SECOND"

definition chain_answer :: "'a outcome \<Rightarrow> ('a, advance_error) result" where
  "chain_answer r = (case r of
      Inr x \<Rightarrow> Inr x
    | Inl (Refused e) \<Rightarrow> Inl (map_chain_error (\<lambda>_. ChainText []) e)
    | Inl Panicked \<Rightarrow> Inl (Chain (ChainText ''panicked'')))"

definition stored_step :: "(mock_state \<Rightarrow> 'a step) \<Rightarrow> mock_world \<Rightarrow> ('a, advance_error) result \<times> mock_world" where
  "stored_step f w = (case f (mw_state w) of
      Inl e \<Rightarrow> (chain_answer (Inl e), w)
    | Inr (a, None) \<Rightarrow> (Inr a, w)
    | Inr (a, Some st) \<Rightarrow> (Inr a, w\<lparr>mw_state := st\<rparr>))"

definition mock_env :: "protocol_consts \<Rightarrow> token_contract \<Rightarrow> note_pubkey \<Rightarrow> nat \<Rightarrow> mock_world seller_env" where
  "mock_env c tc note delivered =
     \<lparr>se_snapshot = (\<lambda>w. (snapshot_of (mw_state w) tc, w)),
      se_terminal_receipt = (\<lambda>w. (buyer_stop_settlement tc (mw_state w) \<noteq> None, w)),
      se_buyer_stop_receipt = (\<lambda>w. (buyer_stop_settlement tc (mw_state w) \<noteq> None, w)),
      se_timer_fired = (\<lambda>w. (True, w)),
      se_deal_state = (\<lambda>w. (chain_answer (mock_deal_state (mw_state w) tc c), w)),
      se_accept_probe = (\<lambda>w. stored_step (accept_probe tc (unix_now w) c) w),
      se_claim_tokens = (\<lambda>n w. stored_step (claim_tokens tc note n (unix_now w) (unix_now w) c) w),
      se_finalize = (\<lambda>w. stored_step (finalize tc (unix_now w) c) w),
      se_clock = (\<lambda>w. (mw_clock w, w)), se_sleep = (\<lambda>t w. w\<lparr>mw_clock := mw_clock w + t\<rparr>),
      se_load_delivered = (\<lambda>w. (delivered, w)), se_load_done = (\<lambda>w. (True, w)),
      se_observe = (\<lambda>st w. (Inr (), w)), se_prepare_probe = (\<lambda>n w. (Inr n, w)), se_active_requests = (\<lambda>w. (0, w)),
      se_observe_terminal = (\<lambda>w. (Inr (), w)), se_chain_unavailable = (\<lambda>w. w), se_retry_after = (\<lambda>t w. w),
      se_probe_decision = (\<lambda>m w. w), se_claim_submitted = (\<lambda>m w. w)\<rparr>"

text \<open>The deal of the world, when it is open, ordinary, accepted and undisputed.\<close>

definition mock_deal :: "protocol_consts \<Rightarrow> token_contract \<Rightarrow> mock_world \<Rightarrow> stream_cell \<Rightarrow> deal_subscription \<Rightarrow> bool" where
  "mock_deal c tc w cell sub \<longleftrightarrow>
     state_inv c (unix_now w) (mw_state w)
     \<and> hm_get (ms_streams (mw_state w)) tc = Some cell \<and> hm_get (ms_deal_subscriptions (mw_state w)) tc = Some sub
     \<and> \<not> sc_closed cell \<and> \<not> sc_disputed cell \<and> sc_probe_accepted cell \<and> \<not> is_subscription sub"

definition mock_good :: "protocol_consts \<Rightarrow> token_contract \<Rightarrow> note_pubkey \<Rightarrow> nat \<Rightarrow> nat \<Rightarrow> mock_world \<Rightarrow> bool" where
  "mock_good c tc note budget k w \<longleftrightarrow>
     (\<exists>cell sub. mock_deal c tc w cell sub \<and> ds_funded_tokens sub = budget \<and> deal_funding c cell sub \<le> u128_max)
     \<and> hm_get (ms_offer_sellers (mw_state w)) tc = Some (note_id_hex note)
     \<and> unix_now w + k * min_claim_interval c + claim_promote_window c \<le> u64_max"

definition mock_cell :: "token_contract \<Rightarrow> mock_world \<Rightarrow> stream_cell" where
  "mock_cell tc w = the (hm_get (ms_streams (mw_state w)) tc)"

definition mock_pend :: "token_contract \<Rightarrow> mock_world \<Rightarrow> nat" where
  "mock_pend tc w = sc_tokens_pending (mock_cell tc w)"

definition mock_level :: "token_contract \<Rightarrow> mock_world \<Rightarrow> bool" where
  "mock_level tc w \<longleftrightarrow> sc_tokens_final (mock_cell tc w) = sc_tokens_pending (mock_cell tc w)"

definition mock_rested :: "protocol_consts \<Rightarrow> token_contract \<Rightarrow> mock_world \<Rightarrow> bool" where
  "mock_rested c tc w \<longleftrightarrow> sc_last_claim_time (mock_cell tc w) + min_claim_interval c \<le> unix_now w"

text \<open>So many tokens are final, and the deal has closed if that is all of them.\<close>

definition mock_settled :: "token_contract \<Rightarrow> nat \<Rightarrow> mock_world \<Rightarrow> bool" where
  "mock_settled tc n w \<longleftrightarrow> hm_contains (ms_streams (mw_state w)) tc \<and> sc_tokens_final (mock_cell tc w) = n"

lemma mock_goodE:
  assumes "mock_good c tc note b k w"
  obtains cell sub where "mock_deal c tc w cell sub" "ds_funded_tokens sub = b" "mock_cell tc w = cell"
    "deal_inv c (unix_now w) cell sub" "in_range c (unix_now w) cell sub" "running c (unix_now w) cell sub" "machine_inv cell"
proof -
  obtain cell sub where d: "mock_deal c tc w cell sub" "ds_funded_tokens sub = b" "deal_funding c cell sub \<le> u128_max"
    and "unix_now w + k * min_claim_interval c + claim_promote_window c \<le> u64_max"
    using assms by (auto simp: mock_good_def)
  moreover from d have inv: "deal_inv c (unix_now w) cell sub"
    using stream_of_match [of c "unix_now w" "mw_state w" tc cell] by (auto simp: mock_deal_def)
  ultimately show ?thesis
    using that [of cell sub] running_iff [of c "unix_now w" cell sub] by (auto simp: mock_deal_def mock_cell_def in_range_def)
qed


section \<open>The laws\<close>

lemma mock_alive:
  assumes "mock_good c tc note b k w"
  shows "\<exists>s. snapshot_of (mw_state w) tc = Some s \<and> \<not> ss_closed s"
proof -
  obtain cell sub where d: "mock_deal c tc w cell sub" and rng: "in_range c (unix_now w) cell sub"
    and run: "running c (unix_now w) cell sub" using mock_goodE [OF assms] by metis
  have cell: "hm_get (ms_streams (mw_state w)) tc = Some cell" "\<not> sc_closed cell" using d by (auto simp: mock_deal_def)
  have money: "cell_money cell \<le> u128_max" using running_widths(2) [OF run rng] .
  let ?d = "sc_tokens_pending cell - sc_tokens_final cell"
  have "?d \<le> MAX_CLAIM_DELTA" using run by (auto simp: running_def pipe_inv_def)
  then have "?d * sc_price cell \<le> MAX_CLAIM_DELTA * u64_max"
    using running_widths(1) [OF run rng] by (rule mult_le_mono)
  also have "\<dots> \<le> u128_max" by (simp add: MAX_CLAIM_DELTA_def TICK_SIZE_def u64_max_def u128_max_def)
  finally have "?d * sc_price cell \<le> u128_max" .
  moreover have "sc_tokens_final cell \<le> sc_tokens_pending cell" using running_widths(5) [OF run rng] .
  moreover have "sc_probe_locked cell = 0" using run by (simp add: running_def)
  moreover have "?d * sc_price cell div TICK_SIZE \<le> u128_max" using calculation(1) div_le_dividend order_trans by blast
  moreover have "sc_buyer_locked cell + sc_buyer_bond cell \<le> u128_max" "sc_buyer_locked cell \<le> u128_max"
    using money by (simp_all add: cell_money_def)
  ultimately show ?thesis
    using cell checked_mul_div_floor_eq [OF TICK_SIZE_pos u64_tick_fits [OF running_widths(1) [OF run rng]], of ?d]
    by (simp add: snapshot_of_def checked_snapshot_def add_u128_ok checked_sub_def)
qed

lemma mock_reads:
  assumes "mock_good c tc note b k w"
  shows "\<exists>st. mock_deal_state (mw_state w) tc c = Inr (Some st) \<and> validated_claim_high_water st b = Inr (mock_pend tc w)
     \<and> (dc_tokens_final st < dc_tokens_pending st \<longleftrightarrow> \<not> mock_level tc w)"
proof -
  obtain cell sub where d: "mock_deal c tc w cell sub" "ds_funded_tokens sub = b" "mock_cell tc w = cell"
    and run: "running c (unix_now w) cell sub" using mock_goodE [OF assms] by metis
  then have cell: "hm_get (ms_streams (mw_state w)) tc = Some cell" and inv: "state_inv c (unix_now w) (mw_state w)"
    by (auto simp: mock_deal_def)
  obtain m where m: "hm_get (ms_matches (mw_state w)) tc = Some m" "match_inv c (unix_now w) (mw_state w) tc m"
    using state_inv_matched [OF inv, of tc] cell by auto
  then obtain t where "mock_funded_time (mw_state w) tc = Inr t"
    by (auto simp: match_inv_def fill_bound_def mock_funded_time_def)
  then show ?thesis
    using m cell d run
    by (auto simp: mock_deal_state_def hm_contains_def validated_iff mock_pend_def mock_level_def mock_deal_def running_def pipe_inv_def)
qed


lemma mock_later: "k' * min_claim_interval c + t \<le> k * min_claim_interval c \<Longrightarrow> mock_good c tc note b k w
   \<Longrightarrow> mock_good c tc note b k' (w\<lparr>mw_clock := mw_clock w + t * SECOND\<rparr>)"
  by (auto simp: mock_good_def mock_deal_def unix_now_def SECOND_def intro: state_inv_later)

lemma mock_accepts:
  assumes good: "mock_good c tc note b k w" and rested: "mock_rested c tc w" and n: "mock_pend tc w < n" "n \<le> b"
    and rate: "n \<le> mock_pend tc w + claim_delta_limit (min_claim_interval c) (min_seconds_per_tick c)"
    and w: "claim_promote_window c \<le> min_claim_interval c" and ok: "consts_ok c"
  shows "\<exists>w'. stored_step (claim_tokens tc note n (unix_now w) (unix_now w) c) w = (Inr (), w')
     \<and> mock_good c tc note b k w' \<and> mock_pend tc w' = n \<and> \<not> mock_level tc w'"
proof -
  obtain cell sub where d: "mock_deal c tc w cell sub" "ds_funded_tokens sub = b" "mock_cell tc w = cell"
    and inv: "deal_inv c (unix_now w) cell sub" and rng: "in_range c (unix_now w) cell sub" using mock_goodE [OF good] by metis
  let ?st = "mw_state w" and ?t = "unix_now w"
  have st: "state_inv c ?t ?st" "hm_get (ms_streams ?st) tc = Some cell" "hm_get (ms_deal_subscriptions ?st) tc = Some sub"
    and op: "\<not> sc_closed cell" "\<not> sc_disputed cell" "sc_probe_accepted cell" "\<not> is_subscription sub"
    using d(1) by (auto simp: mock_deal_def)
  have typed: "consts_typed c" using ok by (simp add: consts_ok_def)
  have seller: "hm_get (ms_offer_sellers ?st) tc = Some (note_id_hex note)" and clock: "?t \<le> u64_max"
    using good by (auto simp: mock_good_def)
  have diff: "n - sc_tokens_pending cell \<le> claim_delta_limit (min_claim_interval c) (min_seconds_per_tick c)"
    using rate d(3) by (simp add: mock_pend_def)
  obtain m where cl: "claim_tokens_deal cell sub n ?t ?t c = Inr (cell\<lparr>sc_tokens_final := sc_tokens_pending cell,
      sc_machine := m, sc_tokens_pending := n, sc_last_claim_time := ?t\<rparr>, sub)" (is "_ = Inr (?cell, sub)")
    using claim_accepted [OF inv op rng, of n ?t ?t] n diff rested d(2,3) clock w typed
    by (auto simp: mock_pend_def mock_rested_def)
  define st' where "st' = put_deal tc ?cell sub ?st"
  have step: "claim_tokens tc note n ?t ?t c ?st = Inr ((), Some st')"
    using seller st cl n(1) d(3) by (simp add: claim_tokens_def require_mock_seller_actor_def deal_of_def mock_pend_def st'_def)
  have "state_inv c ?t st'"
    using state_step_inv [OF state_step.claim [OF _ _ step] st(1) typed] by simp
  moreover have "deal_funding c ?cell sub = deal_funding c cell sub"
    using claim_tokens_inv(2) [OF cl inv typed] by (simp add: deal_funding_def same_terms_def)
  ultimately have "mock_good c tc note b k (w\<lparr>mw_state := st'\<rparr>)"
    using good op d(2) st rng
    by (auto simp: mock_good_def mock_deal_def unix_now_def st'_def put_deal_def hm_simps in_range_def)
  moreover have "mock_cell tc (w\<lparr>mw_state := st'\<rparr>) = ?cell" by (simp add: mock_cell_def st'_def put_deal_def hm_simps)
  ultimately show ?thesis
    using step n(1) d(3) by (auto simp: stored_step_def mock_pend_def mock_level_def)
qed


lemma mock_promotes:
  assumes good: "mock_good c tc note b k w" and open_claim: "\<not> mock_level tc w" and ok: "consts_ok c"
    and later: "w1 = w\<lparr>mw_clock := mw_clock w + claim_promote_window c * SECOND\<rparr>"
  shows "\<exists>w'. stored_step (finalize tc (unix_now w1) c) w1 = (Inr (), w') \<and> mock_settled tc (mock_pend tc w) w'"
proof -
  obtain cell sub where d: "mock_deal c tc w cell sub" "mock_cell tc w = cell" and inv: "deal_inv c (unix_now w) cell sub"
    and rng: "in_range c (unix_now w) cell sub" and run: "running c (unix_now w) cell sub" using mock_goodE [OF good] by metis
  have t: "unix_now w1 = unix_now w + claim_promote_window c" by (simp add: later unix_now_def SECOND_def)
  have "sc_last_claim_time cell + claim_promote_window c \<le> unix_now w1"
    using run by (simp add: t running_def times_inv_def)
  moreover have "sc_tokens_final cell < sc_tokens_pending cell"
    using open_claim d(2) running_widths(5) [OF run rng] by (simp add: mock_level_def)
  ultimately obtain cell' sub' where f: "finalize_deal cell sub (unix_now w1) c = Inr (cell', sub')"
      "sc_tokens_final cell' = sc_tokens_pending cell"
    using finalize_succeeds [where t = "unix_now w1", OF inv _ _ _ _ rng ok] d(1) by (auto simp: mock_deal_def)
  have "finalize tc (unix_now w1) c (mw_state w1) = Inr ((), Some (put_deal tc cell' sub' (mw_state w)))"
    using d(1) f(1) by (simp add: finalize_def update_deal_def deal_of_def mock_deal_def later)
  then show ?thesis
    using f(2) d(2) by (simp add: stored_step_def mock_settled_def mock_pend_def mock_cell_def put_deal_def hm_simps hm_contains_def)
qed

text \<open>The canonical windows, as the driver derives them from the deal's bounds.\<close>

definition mock_windows :: advance_windows where
  "mock_windows = from_bounds claim_bounds_canonical"

lemma mock_windows_simps:
  "aw_claim_interval mock_windows = min_claim_interval canonical_consts * SECOND"
  "aw_promote mock_windows = claim_promote_window canonical_consts * SECOND"
  "claim_allowance mock_windows = claim_delta_limit (min_claim_interval canonical_consts) (min_seconds_per_tick canonical_consts)"
  "claim_allowance mock_windows = 1000000"
  by (simp_all add: mock_windows_def from_bounds_def claim_bounds_canonical_def canonical_consts_def claim_allowance_def
      windows_max_claim_delta_def SECOND_def claim_delta_limit_def TICK_SIZE_def MAX_CLAIM_DELTA_def wrapping_mul_def u128_max_def)

interpretation mock_chain: cooperative_chain "mock_env canonical_consts tc key delivered" mock_windows "min b u128_max" delivered
    "\<lambda>k w. b \<le> u128_max \<and> mock_good canonical_consts tc key b k w" "mock_pend tc" "mock_level tc" "mock_rested canonical_consts tc" "mock_settled tc"
  for tc key delivered b
proof (unfold_locales, goal_cases)
  case (1 k w)
  then show ?case using mock_alive by (fastforce simp: mock_env_def)
next
  case (2 k w)
  then obtain st where "mock_deal_state (mw_state w) tc canonical_consts = Inr (Some st)"
    "validated_claim_high_water st b = Inr (mock_pend tc w)" "(dc_tokens_final st < dc_tokens_pending st \<longleftrightarrow> \<not> mock_level tc w)"
    using mock_reads by blast
  then show ?case using 2 by (auto simp: mock_env_def chain_answer_def min_def)
next
  case (9 k w)
  let ?w = "se_sleep (mock_env canonical_consts tc key delivered) (aw_claim_interval mock_windows) w"
  have w: "?w = w\<lparr>mw_clock := mw_clock w + min_claim_interval canonical_consts * SECOND\<rparr>"
    by (simp add: mock_env_def mock_windows_simps)
  have "mock_good canonical_consts tc key b k ?w" unfolding w using 9 by (intro mock_later) auto
  moreover have "sc_last_claim_time (mock_cell tc w) \<le> unix_now w"
    using 9 by (auto elim!: mock_goodE simp: running_def times_inv_def)
  ultimately show ?case using 9 unfolding w
    by (auto simp: mock_pend_def mock_cell_def mock_rested_def unix_now_def SECOND_def)
next
  case (10 k w n)
  then show ?case using mock_accepts [of canonical_consts tc key b k w n] canonical_consts_ok
    by (auto simp: mock_env_def mock_windows_simps(3) canonical_consts_def)
next
  case (11 k w)
  then show ?case
    using mock_promotes [OF _ _ canonical_consts_ok, of tc key b k w] by (auto simp: mock_env_def mock_windows_simps(2))
next
  case (12 k w)
  then show ?case by (auto simp: mock_settled_def mock_level_def mock_pend_def mock_good_def mock_deal_def hm_contains_def)
qed (simp_all add: mock_env_def)


text \<open>
  Claim C12: on a chain where nobody interferes, the driver gets the seller everything it may claim.
  For every open, ordinary, undisputed deal with an accepted probe that the mock chain can reach,
  whose funding with the bonds fits \<open>u128\<close>, and for a
  seller whose delivery is complete and whose clock has room for the claim intervals: the driver
  returns, whatever usage was delivered, with the larger of what was already claimed and what was
  delivered within the deal's volume, and with the last claim promoted, that many tokens are final.
\<close>

theorem driver_claims_everything:
  assumes reach: "state_reach canonical_consts h now st" and w: "mw_state w = st" "now \<le> unix_now w"
    and deal: "hm_get (ms_streams st) tc = Some cell" "hm_get (ms_deal_subscriptions st) tc = Some sub"
      "\<not> sc_closed cell" "\<not> sc_disputed cell" "sc_probe_accepted cell" "\<not> is_subscription sub"
    and seller: "hm_get (ms_offer_sellers st) tc = Some (note_id_hex key)"
    and fits: "deal_funding canonical_consts cell sub \<le> u128_max" "unix_now w + 60 * rounds + 60 \<le> u64_max"
    and rounds: "min (max delivered TICK_SIZE) (ds_funded_tokens sub) \<le> sc_tokens_pending cell + rounds * TICK_SIZE" "rounds < fuel"
  shows "\<exists>d cell'. drive_advance (mock_env canonical_consts tc key delivered) (from_bounds claim_bounds_canonical) fuel
       (sc_max_ticks cell) TICK_SIZE True \<lparr>dw_world = w, dw_log = []\<rparr>
       = (Inr (max (sc_tokens_pending cell) (min (max delivered TICK_SIZE) (ds_funded_tokens sub))), d)
     \<and> hm_get (ms_streams (mw_state (dw_world d))) tc = Some cell'
     \<and> sc_tokens_final cell' = max (sc_tokens_pending cell) (min (max delivered TICK_SIZE) (ds_funded_tokens sub))"
proof -
  let ?c = canonical_consts and ?b = "ds_funded_tokens sub"
  have inv: "state_inv ?c (unix_now w) st"
    using state_inv_later [OF state_reach_inv [OF reach canonical_consts_typed] w(2)] .
  have "terms_inv ?c cell sub" using stream_of_match [OF inv deal(1)] deal(2) by (auto simp: deal_inv_def)
  then have b: "sc_max_ticks cell * TICK_SIZE = ?b" "?b \<le> u128_max"
    using elapsed_ticks_fit [of "sc_max_ticks cell"] by (auto simp: terms_inv_def)
  have good: "?b \<le> u128_max \<and> mock_good ?c tc key ?b rounds w"
    using inv deal seller fits w(1) b(2) by (auto simp: mock_good_def mock_deal_def canonical_consts_def mult.commute)
  have target: "claim_target delivered ?b = min (max delivered TICK_SIZE) ?b" by (simp add: claim_target_def PROBE_SEED_TOKENS_def)
  have pend: "mock_pend tc w = sc_tokens_pending cell" using deal(1) w(1) by (simp add: mock_pend_def mock_cell_def)
  have minb: "min ?b u128_max = ?b" using b(2) by simp
  have allow: "claim_allowance mock_windows = TICK_SIZE" by (simp add: mock_windows_simps(4) TICK_SIZE_def)
  have A: "claim_target delivered (min ?b u128_max) \<le> mock_pend tc w + rounds * claim_allowance mock_windows"
    using rounds(1) by (simp add: minb allow target pend)
  have B: "min ?b u128_max = saturating_mul u128_max (sc_max_ticks cell) TICK_SIZE"
    using b by (simp add: minb saturating_mul_def)
  have pos: "0 < claim_allowance mock_windows" "TICK_SIZE \<noteq> 0" using TICK_SIZE_pos by (simp_all add: allow)
  obtain w' where y: "yields (drive_advance (mock_env ?c tc key delivered) mock_windows fuel (sc_max_ticks cell) TICK_SIZE True) w
      (max (sc_tokens_pending cell) (min (max delivered TICK_SIZE) ?b)) w'"
    "mock_settled tc (max (sc_tokens_pending cell) (min (max delivered TICK_SIZE) ?b)) w'"
    using mock_chain.drive_ok [OF good order_refl rounds(2) A pos B, of True] unfolding minb target pend by auto
  obtain d where "drive_advance (mock_env ?c tc key delivered) mock_windows fuel (sc_max_ticks cell) TICK_SIZE True \<lparr>dw_world = w, dw_log = []\<rparr>
      = (Inr (max (sc_tokens_pending cell) (min (max delivered TICK_SIZE) ?b)), d)" "dw_world d = w'"
    using yieldsD [of _ "\<lparr>dw_world = w, dw_log = []\<rparr>"] y(1) by fastforce
  then show ?thesis
    using y(2) by (auto simp: mock_windows_def mock_settled_def mock_cell_def hm_contains_def)
qed

text \<open>The sample deal of the backend after its probe was accepted.\<close>

definition accepted_cell :: stream_cell where
  "accepted_cell = (claimed_cell plain_cell)\<lparr>
     sc_machine := \<lparr>sm_state = Streaming 1 1, sm_price = 1000000000, sm_seller_bond = 2000000000\<rparr>,
     sc_tokens_pending := 1000000, sc_last_claim_time := 2000\<rparr>"

definition accepted_state :: mock_state where
  "accepted_state = put_deal ''0:ab'' accepted_cell (claimed_shape plain_shape) opened_state"

lemma sample_accepts: "accept_probe ''0:ab'' 2000 canonical_consts opened_state = Inr ((), Some accepted_state)"
proof -
  have "accept_probe_deal plain_cell plain_shape 2000 canonical_consts = Inr (accepted_cell, claimed_shape plain_shape)"
    by (simp add: deal_eval sample_defs sample_states accepted_cell_def Let_def token_pay_and_fee_eq canonical_consts_typed
        sample_cost pay_for_def fee_on_def)
  then show ?thesis
    by (simp add: accept_probe_def update_deal_def deal_of_def accepted_state_def opened_state_def matched_state_def map_eval)
qed

lemma accepted_reach: "state_reach canonical_consts h 2000 accepted_state"
  by (rule state_reach.stored [OF sample_state_reach(3) state_step.accept [OF _ sample_accepts]]) simp

theorem driver_claims_everything_witness:
  "\<exists>d cell'. drive_advance (mock_env canonical_consts ''0:ab'' sample_key 2500000) (from_bounds claim_bounds_canonical) 3 3 TICK_SIZE True
       \<lparr>dw_world = \<lparr>mw_state = accepted_state, mw_clock = 2000 * SECOND\<rparr>, dw_log = []\<rparr> = (Inr 2500000, d)
     \<and> hm_get (ms_streams (mw_state (dw_world d))) ''0:ab'' = Some cell' \<and> sc_tokens_final cell' = 2500000"
proof -
  have rows: "hm_get (ms_streams accepted_state) ''0:ab'' = Some accepted_cell"
    "hm_get (ms_deal_subscriptions accepted_state) ''0:ab'' = Some (claimed_shape plain_shape)"
    by (simp_all add: accepted_state_def put_deal_def hm_simps)
  have seller: "hm_get (ms_offer_sellers accepted_state) ''0:ab'' = Some (note_id_hex sample_key)"
    by (simp add: accepted_state_def put_deal_def opened_state_def matched_state_def posted_state_def map_eval)
  have fits: "deal_funding canonical_consts accepted_cell (claimed_shape plain_shape) \<le> u128_max"
    using sample_in_range(4) by (simp add: in_range_def deal_funding_def accepted_cell_def sample_states sample_defs)
  show ?thesis
    using driver_claims_everything [OF accepted_reach _ _ rows, where w = "\<lparr>mw_state = accepted_state, mw_clock = 2000 * SECOND\<rparr>"
        and key = sample_key and delivered = 2500000 and rounds = 2 and fuel = 3] seller fits
    by (simp add: unix_now_def SECOND_def accepted_cell_def sample_states sample_defs)
qed

end
