(* ===== verification/AdvanceWait.thy ===== *)
theory AdvanceWait
  imports AdvanceMock
begin

text \<open>
  The waits of the claim driver end.  All that is asked of the surroundings is what a monotone clock
  and a sleep promise: reading never turns time back, and a sleep lasts at least as long as asked for.
\<close>

section \<open>A clock that advances\<close>

locale advancing_clock =
  fixes env :: "'w seller_env" and time :: "'w \<Rightarrow> nat"
  assumes clock_reads: "fst (se_clock env w) = time w"
    and clock_keeps: "time w \<le> time (snd (se_clock env w))"
    and sleep_lasts: "time w + t \<le> time (se_sleep env t w)"
    and snapshot_keeps: "time w \<le> time (snd (se_snapshot env w))"
    and terminal_keeps: "time w \<le> time (snd (se_terminal_receipt env w))"
begin

lemma wp_call: "wp (call op e) q d = q (Inr (fst (op (dw_world d)))) \<lparr>dw_world = snd (op (dw_world d)), dw_log = e (fst (op (dw_world d))) # dw_log d\<rparr>"
  by (simp add: wp_def call_def split: prod.split)

lemma wp_sleep: "wp (sleep env t) q d = q (Inr ()) \<lparr>dw_world = se_sleep env t (dw_world d), dw_log = Sleep t # dw_log d\<rparr>"
  by (simp add: wp_call sleep_def tell_def)

lemma closed_returns: "wp (deal_closed env) (\<lambda>r d'. (\<exists>b. r = Inr b) \<and> time (dw_world d) \<le> time (dw_world d')) d"
proof -
  let ?w = "snd (se_snapshot env (dw_world d))"
  have "time (dw_world d) \<le> time (snd (se_terminal_receipt env ?w))"
    using snapshot_keeps [of "dw_world d"] terminal_keeps [of ?w] by simp
  then show ?thesis using snapshot_keeps [of "dw_world d"]
    by (simp add: deal_closed_def wp_then wp_call wp_pure split: option.split)
qed

text \<open>One round of the wait, for what remains to be done afterwards.\<close>

lemma wait_until_returns:
  "deadline \<le> time (dw_world d) + n * SELLER_TERMINAL_RECEIPT_POLL_INTERVAL \<Longrightarrow>
     wp (wait_until env deadline (Suc n)) (\<lambda>r d'. \<exists>b. r = Inr b \<and> (b \<or> deadline \<le> time (dw_world d'))) d"
proof (induction n arbitrary: d)
  case 0
  then show ?case
    using clock_keeps [of "dw_world d"] by (auto simp: wp_then wp_call wp_pure clock_reads intro: exI [of _ False])
next
  case (Suc n)
  let ?P = SELLER_TERMINAL_RECEIPT_POLL_INTERVAL and ?t = "time (dw_world d)"
  let ?w = "se_sleep env (min ?P (deadline - ?t)) (snd (se_clock env (dw_world d)))"
  have later: "?t + min ?P (deadline - ?t) \<le> time ?w"
    using clock_keeps [of "dw_world d"] sleep_lasts [of "snd (se_clock env (dw_world d))" "min ?P (deadline - ?t)"] by linarith
  have round: "wp (run_then (deal_closed env) (\<lambda>closed. if closed then run_pure (Inr True) else wait_until env deadline (Suc n)))
      (\<lambda>r d'. \<exists>b. r = Inr b \<and> (b \<or> deadline \<le> time (dw_world d'))) d1" if "dw_world d1 = ?w" "?t < deadline" for d1
    unfolding wp_then
  proof (rule wp_mono [OF closed_returns])
    fix r :: "(bool, drive_stop) result" and d2 :: "'w drive"
    assume r: "(\<exists>b. r = Inr b) \<and> time (dw_world d1) \<le> time (dw_world d2)"
    then have "deadline \<le> time (dw_world d2) + n * ?P" using later that Suc.prems by (auto simp: min_def split: if_splits)
    then show "case r of Inl e \<Rightarrow> \<exists>b. Inl e = Inr b \<and> (b \<or> deadline \<le> time (dw_world d2))
        | Inr closed \<Rightarrow> wp (if closed then run_pure (Inr True) else wait_until env deadline (Suc n))
            (\<lambda>r d'. \<exists>b. r = Inr b \<and> (b \<or> deadline \<le> time (dw_world d'))) d2"
      using r Suc.IH by (auto simp: wp_pure simp del: wait_until.simps)
  qed
  show ?case
    using round clock_keeps [of "dw_world d"]
    unfolding wait_until.simps(2) [of env deadline "Suc n"] wp_then [of "call (se_clock env) Clock"] wp_call
    by (auto simp: clock_reads wp_pure wp_then [of "sleep env _"] wp_sleep simp del: wait_until.simps)
qed

lemma wait_returns:
  assumes "0 < fuel" and "window \<le> (fuel - 1) * SELLER_TERMINAL_RECEIPT_POLL_INTERVAL"
  shows "wp (wait_claim_or_closed env fuel window)
    (\<lambda>r d'. \<exists>closed. r = Inr closed \<and> (closed \<or> time (dw_world d) + window \<le> time (dw_world d'))) d"
proof -
  let ?d = "\<lparr>dw_world = snd (se_clock env (dw_world d)), dw_log = Clock (time (dw_world d)) # dw_log d\<rparr>"
  have "time (dw_world d) + window \<le> time (dw_world ?d) + (fuel - 1) * SELLER_TERMINAL_RECEIPT_POLL_INTERVAL"
    using clock_keeps [of "dw_world d"] assms(2) by simp
  from wait_until_returns [OF this] show ?thesis
    using assms(1) by (simp add: wait_claim_or_closed_def wp_then wp_call clock_reads del: wait_until.simps)
qed

end

section \<open>A timer on that clock\<close>

text \<open>The wait for the receipt of a buyer's stop is cut off by a timer that fires at a fixed time.\<close>

locale timed_receipt = advancing_clock +
  fixes expiry :: nat
  assumes timer_fires: "expiry \<le> time w \<Longrightarrow> fst (se_timer_fired env w)"
    and timer_keeps: "time w \<le> time (snd (se_timer_fired env w))"
    and stop_keeps: "time w \<le> time (snd (se_buyer_stop_receipt env w))"
begin

lemma receipt_returns:
  "expiry \<le> time (dw_world d) + n * SELLER_TERMINAL_RECEIPT_POLL_INTERVAL \<Longrightarrow> wp (receipt_loop env (Suc n)) (\<lambda>r d'. \<exists>b. r = Inr b) d"
proof (induction n arbitrary: d)
  case 0
  then have "fst (se_timer_fired env (snd (se_buyer_stop_receipt env (dw_world d))))"
    using stop_keeps [of "dw_world d"] by (intro timer_fires) simp
  then show ?case by (auto simp: wp_then wp_call wp_pure intro: exI [of _ False])
next
  case (Suc n)
  let ?P = SELLER_TERMINAL_RECEIPT_POLL_INTERVAL
  let ?w1 = "snd (se_timer_fired env (snd (se_buyer_stop_receipt env (dw_world d))))"
  let ?w = "snd (se_timer_fired env (se_sleep env ?P ?w1))"
  have "time (dw_world d) + ?P \<le> time ?w"
    using stop_keeps [of "dw_world d"] timer_keeps [of "snd (se_buyer_stop_receipt env (dw_world d))"]
      sleep_lasts [of ?w1 ?P] timer_keeps [of "se_sleep env ?P ?w1"] by linarith
  then have "expiry \<le> time ?w + n * ?P" using Suc.prems by simp
  then have "wp (receipt_loop env (Suc n)) (\<lambda>r d'. \<exists>b. r = Inr b) d1" if "dw_world d1 = ?w" for d1
    using Suc.IH [of d1] that by simp
  then show ?case unfolding receipt_loop.simps(2) [of env "Suc n"]
    by (auto simp: wp_then wp_call wp_pure wp_sleep simp del: receipt_loop.simps)
qed

end

section \<open>The waits of the model\<close>

text \<open>The mock chain has such a clock, and a timer that has always fired.\<close>

interpretation mock_clock: timed_receipt "mock_env c tc key delivered" mw_clock 0 for c tc key delivered
  by unfold_locales (simp_all add: mock_env_def)

text \<open>
  Claim C27: the wait between claims ends.  With any clock that advances, \<open>window / 3 s\<close> rounds are enough: the
  wait answers that the deal has closed, or else the whole window has passed.
\<close>

theorem claim_wait_terminates:
  assumes "advancing_clock env time"
    and "0 < fuel" and "window \<le> (fuel - 1) * SELLER_TERMINAL_RECEIPT_POLL_INTERVAL"
  shows "\<exists>closed d'. wait_claim_or_closed env fuel window d = (Inr closed, d') \<and>
     (closed \<or> time (dw_world d) + window \<le> time (dw_world d'))"
  using advancing_clock.wait_returns [OF assms, of d] by (auto simp: wp_def split: prod.splits)

theorem claim_wait_terminates_witness:
  "\<exists>closed d'. wait_claim_or_closed (mock_env canonical_consts ''0:ab'' sample_key 0) 3 (5 * SECOND)
       \<lparr>dw_world = \<lparr>mw_state = accepted_state, mw_clock = 7\<rparr>, dw_log = []\<rparr> = (Inr closed, d') \<and>
     (closed \<or> 7 + 5 * SECOND \<le> mw_clock (dw_world d'))"
  using claim_wait_terminates [OF mock_clock.advancing_clock_axioms, of 3 "5 * SECOND" canonical_consts "''0:ab''" sample_key 0
      "\<lparr>dw_world = \<lparr>mw_state = accepted_state, mw_clock = 7\<rparr>, dw_log = []\<rparr>"]
  by (simp add: SELLER_TERMINAL_RECEIPT_POLL_INTERVAL_def)

end
