(* ===== verification/Capacity.thy ===== *)
theory Capacity
  imports Address
begin

text \<open>
  The seller's delivery capacity, \<open>crates/dexdo/src/seller/capacity.rs\<close>: one durable record per
  funded deal, the manager that reconciles it with the chain, and the request reservations that
  draw on it.  Entries are shared objects (\<open>Arc\<close>): they live in a heap, the manager maps a token
  contract to an index of it, and a reservation keeps the index of its entry, which may meanwhile
  have become terminal and left the map.  Every method holds its locks for its whole body, so it is
  one step; lock poisoning is not modelled.  A write to the store succeeds, fails before the
  atomic replace, or fails after it (the directory could not be synced); which one it is, is an
  argument.  The JSON codec is a parameter; the spelling of the contract address in the file is the
  one of \<open>serde_self_dapp\<close>.
\<close>

section \<open>Records\<close>

definition CAPACITY_RECORD_VERSION :: nat where "CAPACITY_RECORD_VERSION = 1"
definition SELLER_UNCLAIMED_BILLABLE_RISK_LIMIT :: nat where "SELLER_UNCLAIMED_BILLABLE_RISK_LIMIT = TICK_SIZE"
definition CAPACITY_PERSIST_TOKEN_INTERVAL :: nat where "CAPACITY_PERSIST_TOKEN_INTERVAL = 1000"

record capacity_record =
  cr_version :: nat
  cr_token_contract :: token_contract
  cr_funded_tokens :: nat
  cr_authoritative_cap :: nat
  cr_tokens_pending_anchor :: nat
  cr_local_delivered :: nat
  cr_outstanding :: nat
  cr_shared_requests :: nat
  cr_probe_decision :: "nat option"

record capacity_snapshot =
  sn_funded_tokens :: nat
  sn_authoritative_cap :: nat
  sn_tokens_pending_anchor :: nat
  sn_local_delivered :: nat
  sn_outstanding :: nat

definition snapshot_of_record :: "capacity_record \<Rightarrow> capacity_snapshot" where
  "snapshot_of_record r =
     \<lparr>sn_funded_tokens = cr_funded_tokens r, sn_authoritative_cap = cr_authoritative_cap r,
      sn_tokens_pending_anchor = cr_tokens_pending_anchor r, sn_local_delivered = cr_local_delivered r,
      sn_outstanding = cr_outstanding r\<rparr>"

datatype record_error =
    CommittedOverflow | InvariantExceeded | UnsupportedVersion | EmptyTokenContract | BadProbeDecision
  | CommittedAboveCap | CapAboveFunded | FileIsEmpty | FileUnparsable | StoreUnavailable

datatype live_shape_error =
    ContradictorySubscription | ContradictoryOrdinary | DealNotFunded | DealIsDisputed
  | ProbeWhileNotOpen | FundedIsZero | PendingAboveFunding | PendingBelowTick | PendingBeforeProbe
  | PendingAboveCap | WeekCapOverflow

datatype reconcile_error =
    ForeignCapacityFile | CapacityTerminal | FundedChanged | PendingRegressed | CapRegressed
  | DeliveryOverflow | PendingUnbacked | PostTermOverflow | NotRegistered | NotPreProbe | ProbePrefixUnbacked

datatype request_error =
    ReservationOverflow | ReservationUnderflow | LocalCounterOverflow | DeltaTooWide | NonPositiveTotal | AlreadyFinished
  | TotalAboveReservation | BecameTerminal | PartialAccounting | DeltaAboveReservation | SharedUnderflow

datatype capacity_error =
    RecordError record_error
  | ShapeError live_shape_error
  | ReconcileError reconcile_error
  | RequestError request_error

datatype reserve_error =
    UnknownDeal | TerminalDeal | Exhausted | OnchainLimit | Concurrency | InvalidState capacity_error

definition committed :: "capacity_snapshot \<Rightarrow> (nat, capacity_error) result" where
  "committed s =
     ok_or (Option.bind (checked_add u128_max (sn_tokens_pending_anchor s) (sn_local_delivered s)) (\<lambda>v.
            checked_add u128_max v (sn_outstanding s))) (RecordError CommittedOverflow)"

definition available :: "capacity_snapshot \<Rightarrow> (nat, capacity_error) result" where
  "available s =
     and_then (committed s) (\<lambda>c. ok_or (checked_sub (sn_authoritative_cap s) c) (RecordError InvariantExceeded))"

definition validate_record :: "capacity_record \<Rightarrow> (unit, capacity_error) result" where
  "validate_record r =
     (if cr_version r \<noteq> CAPACITY_RECORD_VERSION then Inl (RecordError UnsupportedVersion)
      else if str_trim (cr_token_contract r) = [] then Inl (RecordError EmptyTokenContract)
      else if (case cr_probe_decision r of
                 None \<Rightarrow> False
               | Some d \<Rightarrow> cr_tokens_pending_anchor r \<noteq> 0 \<or> d = 0 \<or> d > TICK_SIZE \<or> d > cr_local_delivered r)
      then Inl (RecordError BadProbeDecision)
      else
        and_then (committed (snapshot_of_record r)) (\<lambda>c.
        if c > cr_authoritative_cap r then Inl (RecordError CommittedAboveCap)
        else if cr_authoritative_cap r > cr_funded_tokens r then Inl (RecordError CapAboveFunded)
        else Inr ()))"

text \<open>The capacity the chain grants right now.\<close>

definition authoritative_cap :: "deal_chain_state \<Rightarrow> deal_subscription \<Rightarrow> (nat, capacity_error) result" where
  "authoritative_cap state deal =
     (if is_subscription deal \<and> ds_week_index deal \<ge> ds_sub_weeks deal then Inr (dc_tokens_pending state)
      else if \<not> dc_probe_accepted state then Inr (min TICK_SIZE (ds_funded_tokens deal))
      else if \<not> is_subscription deal then Inr (ds_funded_tokens deal)
      else ok_or (map_option (\<lambda>cap. min cap (ds_funded_tokens deal))
                    (checked_add u128_max (ds_week_base_tokens deal) (ds_tokens_per_week deal)))
             (ShapeError WeekCapOverflow))"

definition validate_live_deal_shape ::
    "deal_chain_state \<Rightarrow> deal_subscription \<Rightarrow> (unit, capacity_error) result" where
  "validate_live_deal_shape state deal =
     (if is_subscription deal \<noteq> has_flag (ds_deal_flags deal) SUBSCRIPTION
      then Inl (ShapeError ContradictorySubscription)
      else if \<not> is_subscription deal
              \<and> (ds_week_index deal \<noteq> 0 \<or> ds_tokens_per_week deal \<noteq> ds_funded_tokens deal
                 \<or> ds_week_base_tokens deal \<noteq> 0)
      then Inl (ShapeError ContradictoryOrdinary)
      else if \<not> dc_funded state then Inl (ShapeError DealNotFunded)
      else if dc_disputed state then Inl (ShapeError DealIsDisputed)
      else if \<not> dc_opened state \<and> dc_probe_accepted state then Inl (ShapeError ProbeWhileNotOpen)
      else if ds_funded_tokens deal = 0 then Inl (ShapeError FundedIsZero)
      else if dc_tokens_pending state > ds_funded_tokens deal then Inl (ShapeError PendingAboveFunding)
      else if dc_probe_accepted state \<and> dc_tokens_pending state < TICK_SIZE then Inl (ShapeError PendingBelowTick)
      else if \<not> dc_probe_accepted state \<and> dc_tokens_pending state \<noteq> 0 then Inl (ShapeError PendingBeforeProbe)
      else
        and_then (authoritative_cap state deal) (\<lambda>cap.
        if dc_tokens_pending state > cap then Inl (ShapeError PendingAboveCap) else Inr ()))"


section \<open>The store\<close>

record 'b capacity_codec =
  cc_encode :: "capacity_record \<Rightarrow> 'b list"
  cc_decode :: "'b list \<Rightarrow> capacity_record option"

datatype io = IoOk | IoNotReplaced | IoNotSynced

type_synonym 'b files = "(string, 'b list) hmap"

definition is_ascii_alphanumeric :: "char \<Rightarrow> bool" where
  "is_ascii_alphanumeric c \<longleftrightarrow>
     (let n = of_char c :: nat in 48 \<le> n \<and> n \<le> 57 \<or> 65 \<le> n \<and> n \<le> 90 \<or> 97 \<le> n \<and> n \<le> 122)"

definition capacity_path :: "string \<Rightarrow> token_contract \<Rightarrow> string" where
  "capacity_path directory tc =
     directory @ ''/deal-''
     @ map (\<lambda>c. if is_ascii_alphanumeric c then to_ascii_lowercase_char c else CHR ''-'') (str_trim tc)
     @ ''-seller-capacity.json''"

text \<open>The bytes of a record: the address field is written and read through \<open>serde_self_dapp\<close>.\<close>

definition record_bytes :: "'b capacity_codec \<Rightarrow> capacity_record \<Rightarrow> 'b list" where
  "record_bytes cd r = cc_encode cd (r\<lparr>cr_token_contract := display_self_dapp (cr_token_contract r)\<rparr>)"

definition load_record ::
    "'b capacity_codec \<Rightarrow> bool \<Rightarrow> 'b files \<Rightarrow> string \<Rightarrow> (capacity_record option, capacity_error) result" where
  "load_record cd readable fs path =
     (case hm_get fs path of
        None \<Rightarrow> Inr None
      | Some bytes \<Rightarrow>
          if \<not> readable then Inl (RecordError StoreUnavailable)
          else if bytes = [] then Inl (RecordError FileIsEmpty)
          else case cc_decode cd bytes of
                 None \<Rightarrow> Inl (RecordError FileUnparsable)
               | Some r \<Rightarrow> Inr (Some (r\<lparr>cr_token_contract := read_address_field (cr_token_contract r)\<rparr>)))"

definition persist_candidate ::
    "'b capacity_codec \<Rightarrow> io \<Rightarrow> string option \<Rightarrow> capacity_record \<Rightarrow> (unit, capacity_error, 'b files) run" where
  "persist_candidate cd io path r fs =
     (case path of
        None \<Rightarrow> (Inr (), fs)
      | Some p \<Rightarrow>
          (case io of
             IoOk \<Rightarrow> (Inr (), hm_insert p (record_bytes cd r) fs)
           | IoNotReplaced \<Rightarrow> (Inl (RecordError StoreUnavailable), fs)
           | IoNotSynced \<Rightarrow> (Inl (RecordError StoreUnavailable), hm_insert p (record_bytes cd r) fs)))"

definition remove_if_present :: "io \<Rightarrow> string \<Rightarrow> (unit, capacity_error, 'b files) run" where
  "remove_if_present io p fs =
     (if \<not> hm_contains fs p then (Inr (), fs)
      else case io of
             IoOk \<Rightarrow> (Inr (), hm_remove p fs)
           | IoNotReplaced \<Rightarrow> (Inl (RecordError StoreUnavailable), fs)
           | IoNotSynced \<Rightarrow> (Inl (RecordError StoreUnavailable), hm_remove p fs))"


section \<open>Entries, reservations, the manager\<close>

record capacity_entry =
  en_path :: "string option"
  en_record :: capacity_record
  en_terminal :: bool
  en_probe_accepted :: bool
  en_unpersisted :: nat
  en_active_shared :: nat

text \<open>A reservation whose handle was dropped can no longer be called.\<close>

record request_reservation =
  rq_entry :: nat
  rq_initial :: nat
  rq_remaining :: nat
  rq_finished :: bool
  rq_shared :: bool
  rq_dropped :: bool

record 'b capacity_world =
  cw_store_dir :: "string option"
  cw_entries :: "(token_contract, nat) hmap"
  cw_heap :: "capacity_entry list"
  cw_requests :: "request_reservation list"
  cw_files :: "'b files"

type_synonym ('a, 'b) capacity_run = "('a, capacity_error, 'b capacity_world) run"

definition in_files :: "(unit, capacity_error, 'b files) run \<Rightarrow> (unit, 'b) capacity_run" where
  "in_files m w = (case m (cw_files w) of (r, fs) \<Rightarrow> (r, w\<lparr>cw_files := fs\<rparr>))"

definition put_entry :: "nat \<Rightarrow> capacity_entry \<Rightarrow> 'b capacity_world \<Rightarrow> 'b capacity_world" where
  "put_entry i e w = w\<lparr>cw_heap := (cw_heap w)[i := e]\<rparr>"

definition put_request :: "nat \<Rightarrow> request_reservation \<Rightarrow> 'b capacity_world \<Rightarrow> 'b capacity_world" where
  "put_request q r w = w\<lparr>cw_requests := (cw_requests w)[q := r]\<rparr>"

text \<open>\<open>persist_candidate(entry.path, &candidate)?; locked.record = candidate;\<close>\<close>

definition commit_record :: "'b capacity_codec \<Rightarrow> io \<Rightarrow> nat \<Rightarrow> capacity_record \<Rightarrow> (unit, 'b) capacity_run" where
  "commit_record cd io i candidate =
     run_get (\<lambda>w. let e = cw_heap w ! i in
       run_then (in_files (persist_candidate cd io (en_path e) candidate)) (\<lambda>_.
       run_modify (put_entry i (e\<lparr>en_record := candidate\<rparr>))))"

text \<open>\<open>validate_record(&candidate)?\<close> and then the commit.\<close>

definition commit_valid :: "'b capacity_codec \<Rightarrow> io \<Rightarrow> nat \<Rightarrow> capacity_record \<Rightarrow> (unit, 'b) capacity_run" where
  "commit_valid cd io i candidate =
     run_then (run_pure (validate_record candidate)) (\<lambda>_. commit_record cd io i candidate)"

definition mark_terminal :: "io \<Rightarrow> token_contract \<Rightarrow> (unit, 'b) capacity_run" where
  "mark_terminal io tc = run_get (\<lambda>w.
     case hm_get (cw_entries w) tc of
       Some i \<Rightarrow>
         (let e = cw_heap w ! i in
          run_then (run_modify (\<lambda>w. put_entry i (e\<lparr>en_terminal := True\<rparr>)
                                     (w\<lparr>cw_entries := hm_remove tc (cw_entries w)\<rparr>))) (\<lambda>_.
          case en_path e of
            None \<Rightarrow> run_pure (Inr ())
          | Some p \<Rightarrow> in_files (remove_if_present io p)))
     | None \<Rightarrow>
         (case cw_store_dir w of
            None \<Rightarrow> run_pure (Inr ())
          | Some d \<Rightarrow> in_files (remove_if_present io (capacity_path d tc))))"


text \<open>The entry of a deal: the registered one, or a new one out of the store or off the chain.\<close>

definition fresh_record :: "token_contract \<Rightarrow> deal_chain_state \<Rightarrow> deal_subscription \<Rightarrow> nat \<Rightarrow> capacity_record" where
  "fresh_record tc state deal cap =
     \<lparr>cr_version = CAPACITY_RECORD_VERSION, cr_token_contract = tc, cr_funded_tokens = ds_funded_tokens deal,
      cr_authoritative_cap = cap, cr_tokens_pending_anchor = dc_tokens_pending state, cr_local_delivered = 0,
      cr_outstanding = 0, cr_shared_requests = 0, cr_probe_decision = None\<rparr>"

definition stored_or_fresh ::
    "'b capacity_codec \<Rightarrow> bool \<Rightarrow> string option \<Rightarrow> 'b files \<Rightarrow> token_contract \<Rightarrow> capacity_record
     \<Rightarrow> (capacity_record, capacity_error) result" where
  "stored_or_fresh cd readable path fs tc fresh =
     and_then (case path of None \<Rightarrow> Inr None | Some p \<Rightarrow> load_record cd readable fs p) (\<lambda>stored.
     case stored of
       None \<Rightarrow> Inr fresh
     | Some r \<Rightarrow>
         and_then (validate_record r) (\<lambda>_.
         if cr_token_contract r \<noteq> tc then Inl (ReconcileError ForeignCapacityFile) else Inr r))"

definition register_entry ::
    "'b capacity_codec \<Rightarrow> bool \<Rightarrow> token_contract \<Rightarrow> deal_chain_state \<Rightarrow> deal_subscription \<Rightarrow> nat
     \<Rightarrow> (nat, 'b) capacity_run" where
  "register_entry cd readable tc state deal cap = run_get (\<lambda>w.
     case hm_get (cw_entries w) tc of
       Some i \<Rightarrow> run_pure (Inr i)
     | None \<Rightarrow>
         (let path = map_option (\<lambda>d. capacity_path d tc) (cw_store_dir w); i = length (cw_heap w) in
          run_then (run_pure (stored_or_fresh cd readable path (cw_files w) tc (fresh_record tc state deal cap))) (\<lambda>r.
          run_then (run_modify (\<lambda>w. w\<lparr>
            cw_heap := cw_heap w @ [\<lparr>en_path = path, en_record = r, en_terminal = False,
              en_probe_accepted = dc_probe_accepted state, en_unpersisted = 0, en_active_shared = 0\<rparr>],
            cw_entries := hm_insert tc i (cw_entries w)\<rparr>)) (\<lambda>_.
          run_pure (Inr i)))))"

text \<open>The record a chain read leaves, or why the read is refused.\<close>

definition reconciled_record ::
    "token_contract \<Rightarrow> deal_chain_state \<Rightarrow> deal_subscription \<Rightarrow> nat \<Rightarrow> capacity_record
     \<Rightarrow> (capacity_record, capacity_error) result" where
  "reconciled_record tc state deal cap0 old =
     (let term_ended = is_subscription deal \<and> ds_week_index deal \<ge> ds_sub_weeks deal in
      if cr_funded_tokens old \<noteq> ds_funded_tokens deal then Inl (ReconcileError FundedChanged)
      else if dc_tokens_pending state < cr_tokens_pending_anchor old then Inl (ReconcileError PendingRegressed)
      else if cap0 < cr_authoritative_cap old \<and> \<not> term_ended then Inl (ReconcileError CapRegressed)
      else
        and_then (ok_or (checked_add u128_max (cr_tokens_pending_anchor old) (cr_local_delivered old))
                   (ReconcileError DeliveryOverflow)) (\<lambda>delivered.
        let backed = (if dc_probe_accepted state then max delivered PROBE_SEED_TOKENS else delivered) in
        if dc_tokens_pending state > backed \<and> \<not> term_ended then Inl (ReconcileError PendingUnbacked)
        else
          let anchor = min (dc_tokens_pending state) delivered in
          and_then (if term_ended
                    then ok_or (checked_add u128_max delivered (cr_outstanding old)) (ReconcileError PostTermOverflow)
                    else Inr cap0) (\<lambda>cap.
          Inr \<lparr>cr_version = CAPACITY_RECORD_VERSION, cr_token_contract = tc,
               cr_funded_tokens = ds_funded_tokens deal, cr_authoritative_cap = cap,
               cr_tokens_pending_anchor = anchor, cr_local_delivered = delivered - anchor,
               cr_outstanding = cr_outstanding old, cr_shared_requests = 0,
               cr_probe_decision = (if dc_probe_accepted state then None else cr_probe_decision old)\<rparr>)))"

definition refresh_entry ::
    "'b capacity_codec \<Rightarrow> io \<Rightarrow> token_contract \<Rightarrow> deal_chain_state \<Rightarrow> deal_subscription \<Rightarrow> nat \<Rightarrow> nat
     \<Rightarrow> (capacity_snapshot option, 'b) capacity_run" where
  "refresh_entry cd io tc state deal cap i = run_get (\<lambda>w. let e = cw_heap w ! i in
     if en_terminal e then run_pure (Inl (ReconcileError CapacityTerminal))
     else
       run_then (run_pure (reconciled_record tc state deal cap (en_record e))) (\<lambda>candidate.
       run_then (run_pure (validate_record candidate)) (\<lambda>_.
       run_then (if candidate \<noteq> en_record e then commit_record cd io i candidate else run_pure (Inr ())) (\<lambda>_.
       run_get (\<lambda>w'.
       let e' = (cw_heap w' ! i)\<lparr>en_probe_accepted := dc_probe_accepted state\<rparr> in
       run_then (run_modify (put_entry i e')) (\<lambda>_.
       run_pure (Inr (Some (snapshot_of_record (en_record e')))))))))) "

definition reconcile_deal ::
    "'b capacity_codec \<Rightarrow> bool \<Rightarrow> io \<Rightarrow> token_contract \<Rightarrow> deal_chain_state \<Rightarrow> deal_subscription
     \<Rightarrow> (capacity_snapshot option, 'b) capacity_run" where
  "reconcile_deal cd readable io tc state deal =
     (if is_stopped state then run_then (mark_terminal io tc) (\<lambda>_. run_pure (Inr None))
      else
        run_then (run_pure (validate_live_deal_shape state deal)) (\<lambda>_.
        run_then (run_pure (authoritative_cap state deal)) (\<lambda>cap.
        run_then (register_entry cd readable tc state deal cap) (\<lambda>i.
        refresh_entry cd io tc state deal cap i))))"

definition prepare_probe ::
    "'b capacity_codec \<Rightarrow> io \<Rightarrow> token_contract \<Rightarrow> nat \<Rightarrow> (nat, 'b) capacity_run" where
  "prepare_probe cd io tc delivered = run_get (\<lambda>w.
     case hm_get (cw_entries w) tc of
       None \<Rightarrow> run_pure (Inl (ReconcileError NotRegistered))
     | Some i \<Rightarrow>
         (let e = cw_heap w ! i; r = en_record e in
          if en_terminal e \<or> cr_tokens_pending_anchor r \<noteq> 0 then run_pure (Inl (ReconcileError NotPreProbe))
          else if delivered = 0 \<or> delivered > TICK_SIZE \<or> delivered > cr_local_delivered r
          then run_pure (Inl (ReconcileError ProbePrefixUnbacked))
          else case cr_probe_decision r of
                 Some saved \<Rightarrow> run_pure (Inr saved)
               | None \<Rightarrow>
                   run_then (commit_valid cd io i (r\<lparr>cr_probe_decision := Some delivered\<rparr>)) (\<lambda>_.
                   run_pure (Inr delivered))))"

definition new_request :: "nat \<Rightarrow> nat \<Rightarrow> bool \<Rightarrow> request_reservation" where
  "new_request i amount shared =
     \<lparr>rq_entry = i, rq_initial = amount, rq_remaining = amount, rq_finished = False, rq_shared = shared,
      rq_dropped = False\<rparr>"

definition backlog_error :: "capacity_entry \<Rightarrow> reserve_error" where
  "backlog_error e = (if en_probe_accepted e then OnchainLimit else Exhausted)"

text \<open>Both return the index of the new reservation.\<close>

definition admit_shared ::
    "token_contract \<Rightarrow> nat \<Rightarrow> nat \<Rightarrow> (nat, reserve_error, 'b capacity_world) run" where
  "admit_shared tc requested limit = run_get (\<lambda>w.
     case hm_get (cw_entries w) tc of
       None \<Rightarrow> run_pure (Inl UnknownDeal)
     | Some i \<Rightarrow>
         (let e = cw_heap w ! i; r = en_record e in
          if en_terminal e then run_pure (Inl TerminalDeal)
          else
            run_then (run_pure (map_err InvalidState (validate_record r))) (\<lambda>_.
            if cr_local_delivered r \<ge> SELLER_UNCLAIMED_BILLABLE_RISK_LIMIT then run_pure (Inl (backlog_error e))
            else if cr_outstanding r \<noteq> 0 then run_pure (Inl Exhausted)
            else if en_active_shared e \<ge> limit then run_pure (Inl Concurrency)
            else
              run_then (run_pure (map_err InvalidState (available (snapshot_of_record r)))) (\<lambda>free.
              let amount = min free requested in
              if amount = 0 then run_pure (Inl Exhausted)
              else
                run_then (run_modify (\<lambda>w.
                  (put_entry i (e\<lparr>en_active_shared := wrapping_add u32_max (en_active_shared e) 1\<rparr>) w)
                  \<lparr>cw_requests := cw_requests w @ [new_request i amount True]\<rparr>)) (\<lambda>_.
                run_pure (Inr (length (cw_requests w))))))))"

definition reserve_inner ::
    "'b capacity_codec \<Rightarrow> io \<Rightarrow> token_contract \<Rightarrow> nat \<Rightarrow> bool \<Rightarrow> (nat, reserve_error, 'b capacity_world) run" where
  "reserve_inner cd io tc requested exclusive = run_get (\<lambda>w.
     if requested = 0 then run_pure (Inl Exhausted)
     else case hm_get (cw_entries w) tc of
       None \<Rightarrow> run_pure (Inl UnknownDeal)
     | Some i \<Rightarrow>
         (let e = cw_heap w ! i; r = en_record e in
          if en_terminal e then run_pure (Inl TerminalDeal)
          else if en_active_shared e \<noteq> 0 \<or> exclusive \<and> cr_outstanding r \<noteq> 0 then run_pure (Inl Concurrency)
          else
            run_then (run_pure (map_err InvalidState (validate_record r))) (\<lambda>_.
            if cr_local_delivered r \<ge> SELLER_UNCLAIMED_BILLABLE_RISK_LIMIT then run_pure (Inl (backlog_error e))
            else
              run_then (run_pure (map_err InvalidState (available (snapshot_of_record r)))) (\<lambda>free.
              let amount = min free requested in
              if amount = 0 then run_pure (Inl Exhausted)
              else
                run_then (run_pure (ok_or (checked_add u128_max (cr_outstanding r) amount)
                                      (InvalidState (RequestError ReservationOverflow)))) (\<lambda>outstanding.
                let candidate = r\<lparr>cr_outstanding := outstanding\<rparr> in
                run_then (\<lambda>w. map_prod (map_err InvalidState) id (commit_valid cd io i candidate w)) (\<lambda>_.
                run_then (run_modify (\<lambda>w.
                  (put_entry i ((cw_heap w ! i)\<lparr>en_unpersisted := 0\<rparr>) w)
                  \<lparr>cw_requests := cw_requests w @ [new_request i amount False]\<rparr>)) (\<lambda>_.
                run_pure (Inr (length (cw_requests w))))))))))"

definition capacity_snapshot_of :: "token_contract \<Rightarrow> 'b capacity_world \<Rightarrow> (capacity_snapshot option, capacity_error) result" where
  "capacity_snapshot_of tc w =
     (case hm_get (cw_entries w) tc of
        None \<Rightarrow> Inr None
      | Some i \<Rightarrow>
          (let e = cw_heap w ! i in
           if en_terminal e then Inr None
           else and_then (validate_record (en_record e)) (\<lambda>_. Inr (Some (snapshot_of_record (en_record e))))))"

definition active_shared_requests :: "token_contract \<Rightarrow> 'b capacity_world \<Rightarrow> nat" where
  "active_shared_requests tc w =
     (case hm_get (cw_entries w) tc of None \<Rightarrow> 0 | Some i \<Rightarrow> en_active_shared (cw_heap w ! i))"



section \<open>Requests\<close>

definition request_amount :: "request_reservation \<Rightarrow> nat option" where
  "request_amount r = try_from u64_max (rq_initial r)"

definition request_remaining :: "request_reservation \<Rightarrow> nat option" where
  "request_remaining r = try_from u64_max (rq_remaining r)"

definition finished_request :: "request_reservation \<Rightarrow> request_reservation" where
  "finished_request r = r\<lparr>rq_remaining := 0, rq_finished := True\<rparr>"

definition flush_delivered :: "'b capacity_codec \<Rightarrow> io \<Rightarrow> nat \<Rightarrow> (nat, 'b) capacity_run" where
  "flush_delivered cd io i = run_get (\<lambda>w.
     let e = cw_heap w ! i; pending = en_unpersisted e; r = en_record e in
     if pending = 0 then run_pure (Inr 0)
     else
       run_then (run_pure (ok_or (checked_sub (cr_outstanding r) pending) (RequestError ReservationUnderflow))) (\<lambda>out.
       run_then (run_pure (ok_or (checked_add u128_max (cr_local_delivered r) pending)
                             (RequestError LocalCounterOverflow))) (\<lambda>loc.
       run_then (commit_valid cd io i (r\<lparr>cr_outstanding := out, cr_local_delivered := loc\<rparr>)) (\<lambda>_.
       run_then (run_modify (\<lambda>w. put_entry i ((cw_heap w ! i)\<lparr>en_unpersisted := 0\<rparr>) w)) (\<lambda>_.
       run_pure (ok_or (try_from u64_max pending) (RequestError DeltaTooWide)))))))"

definition finish_shared ::
    "'b capacity_codec \<Rightarrow> io \<Rightarrow> nat \<Rightarrow> nat \<Rightarrow> bool \<Rightarrow> (nat, 'b) capacity_run" where
  "finish_shared cd io q tokens ambiguous = run_get (\<lambda>w.
     let r = cw_requests w ! q; i = rq_entry r; e = cw_heap w ! i; c0 = en_record e in
     if rq_finished r then run_pure (Inl (RequestError AlreadyFinished))
     else if en_terminal e then run_pure (Inl (RequestError BecameTerminal))
     else
       run_then (run_pure (available (snapshot_of_record c0))) (\<lambda>free.
       let charged = (if ambiguous then 0 else min (min tokens (rq_remaining r)) free) in
       run_then (run_pure (ok_or (checked_add u128_max (cr_local_delivered c0) charged)
                             (RequestError LocalCounterOverflow))) (\<lambda>loc.
       run_then (commit_valid cd io i (c0\<lparr>cr_local_delivered := loc\<rparr>)) (\<lambda>_.
       run_then (run_pure (ok_or (checked_sub (en_active_shared e) 1) (RequestError SharedUnderflow))) (\<lambda>active.
       run_then (run_modify (\<lambda>w. put_request q (finished_request r)
                   (put_entry i ((cw_heap w ! i)\<lparr>en_active_shared := active\<rparr>) w))) (\<lambda>_.
       run_pure (Inr (as_width u64_max charged))))))))"

definition finish_with_delivery :: "'b capacity_codec \<Rightarrow> io \<Rightarrow> nat \<Rightarrow> nat \<Rightarrow> (nat, 'b) capacity_run" where
  "finish_with_delivery cd io q tokens = run_get (\<lambda>w.
     let r = cw_requests w ! q; i = rq_entry r; e = cw_heap w ! i; c0 = en_record e in
     if tokens = 0 then run_pure (Inl (RequestError NonPositiveTotal))
     else if rq_shared r then finish_shared cd io q tokens False
     else if rq_finished r then run_pure (Inl (RequestError AlreadyFinished))
     else if tokens > rq_remaining r then run_pure (Inl (RequestError TotalAboveReservation))
     else if en_terminal e then run_pure (Inl (RequestError BecameTerminal))
     else if en_unpersisted e \<noteq> 0 then run_pure (Inl (RequestError PartialAccounting))
     else
       run_then (run_pure (ok_or (checked_sub (cr_outstanding c0) (rq_remaining r))
                             (RequestError ReservationUnderflow))) (\<lambda>out.
       run_then (run_pure (ok_or (checked_add u128_max (cr_local_delivered c0) tokens)
                             (RequestError LocalCounterOverflow))) (\<lambda>loc.
       run_then (commit_valid cd io i (c0\<lparr>cr_outstanding := out, cr_local_delivered := loc\<rparr>)) (\<lambda>_.
       run_then (run_modify (put_request q (finished_request r))) (\<lambda>_.
       run_pure (Inr tokens))))))"

definition authorize_exposure :: "request_reservation \<Rightarrow> nat \<Rightarrow> (unit, reserve_error) result" where
  "authorize_exposure r min_billable =
     (if rq_finished r \<or> rq_remaining r < max min_billable 1 then Inl Exhausted else Inr ())"

definition record_delivered :: "'b capacity_codec \<Rightarrow> io \<Rightarrow> nat \<Rightarrow> nat \<Rightarrow> (nat, 'b) capacity_run" where
  "record_delivered cd io q tokens = run_get (\<lambda>w.
     let r = cw_requests w ! q; i = rq_entry r; e = cw_heap w ! i in
     if tokens = 0 then run_pure (Inl (RequestError NonPositiveTotal))
     else if rq_finished r then run_pure (Inl (RequestError AlreadyFinished))
     else if tokens > rq_remaining r then run_pure (Inl (RequestError DeltaAboveReservation))
     else if en_terminal e then run_pure (Inl (RequestError BecameTerminal))
     else
       run_then (run_pure (ok_or (checked_add u128_max (en_unpersisted e) tokens)
                             (RequestError LocalCounterOverflow))) (\<lambda>unpersisted.
       if unpersisted > cr_outstanding (en_record e) then run_pure (Inl (RequestError ReservationUnderflow))
       else
         run_then (run_modify (put_entry i (e\<lparr>en_unpersisted := unpersisted\<rparr>))) (\<lambda>_.
         run_then (if unpersisted \<ge> CAPACITY_PERSIST_TOKEN_INTERVAL \<or> en_path e = None
                   then flush_delivered cd io i else run_pure (Inr 0)) (\<lambda>durable.
         run_then (run_modify (put_request q (r\<lparr>rq_remaining := rq_remaining r - tokens\<rparr>))) (\<lambda>_.
         run_pure (Inr durable))))))"

text \<open>Two writes: the coalesced split first, then the release of the remainder.\<close>

definition finish_exact :: "'b capacity_codec \<Rightarrow> io \<Rightarrow> io \<Rightarrow> nat \<Rightarrow> (nat, 'b) capacity_run" where
  "finish_exact cd io io2 q = run_get (\<lambda>w.
     let r = cw_requests w ! q; i = rq_entry r in
     if rq_shared r then finish_shared cd io q 0 False
     else if rq_finished r then run_pure (Inl (RequestError AlreadyFinished))
     else if en_terminal (cw_heap w ! i)
     then run_then (run_modify (put_request q (finished_request r))) (\<lambda>_. run_pure (Inr 0))
     else
       run_then (flush_delivered cd io i) (\<lambda>durable.
       run_get (\<lambda>w'. let c0 = en_record (cw_heap w' ! i) in
       run_then (run_pure (ok_or (checked_sub (cr_outstanding c0) (rq_remaining r))
                             (RequestError ReservationUnderflow))) (\<lambda>out.
       run_then (commit_valid cd io2 i (c0\<lparr>cr_outstanding := out\<rparr>)) (\<lambda>_.
       run_then (run_modify (put_request q (finished_request r))) (\<lambda>_.
       run_pure (Inr durable)))))))"

definition finish_ambiguous :: "'b capacity_codec \<Rightarrow> io \<Rightarrow> nat \<Rightarrow> (nat, 'b) capacity_run" where
  "finish_ambiguous cd io q = run_get (\<lambda>w.
     let r = cw_requests w ! q; i = rq_entry r in
     if rq_shared r then finish_shared cd io q 0 True
     else if rq_finished r then run_pure (Inl (RequestError AlreadyFinished))
     else
       run_then (if en_terminal (cw_heap w ! i) then run_pure (Inr 0) else flush_delivered cd io i) (\<lambda>durable.
       run_then (run_modify (put_request q (finished_request r))) (\<lambda>_.
       run_pure (Inr durable))))"

definition drop_request :: "nat \<Rightarrow> 'b capacity_world \<Rightarrow> 'b capacity_world" where
  "drop_request q w =
     (let r = cw_requests w ! q; i = rq_entry r; e = cw_heap w ! i;
          w1 = put_request q (r\<lparr>rq_dropped := True\<rparr>) w in
      if rq_shared r \<and> \<not> rq_finished r
      then put_entry i (e\<lparr>en_active_shared := saturating_sub (en_active_shared e) 1\<rparr>) w1
      else w1)"

end
