(* ===== verification/Relay.thy ===== *)
theory Relay
  imports Prelude
begin

text \<open>
  The relay of one request through the seller's gateway, \<open>crates/dexdo/src/seller/gateway.rs\<close>, and the
  billing record it holds, \<open>crates/dexdo-proto/src/lib.rs\<close>.  The relay reads the events of the
  provider, forwards head and content at once, holds the usage record until the provider's
  stream ends, commits the bill through the recorder, and only then releases the record to the
  buyer.  The recorder is a parameter that works on a world of any type.  The events arrive as a
  list, whose end is the end of the provider's stream; each says whether the buyer was still
  there to be sent to.  Metrics and traces are left out.
\<close>

section \<open>The billing record\<close>

record billing_usage =
  bu_input_tokens :: nat
  bu_output_tokens :: nat
  bu_total_tokens :: nat
  bu_charged_tokens :: "nat option"
  bu_cache_read_tokens :: nat
  bu_cache_write_tokens :: nat

datatype usage_error = TotalOverflow | TotalMismatch | CacheOverflow | CacheAboveInput | ChargedAboveUsage

definition billing_usage_new :: "nat \<Rightarrow> nat \<Rightarrow> nat option \<Rightarrow> (billing_usage, usage_error) result" where
  "billing_usage_new inp outp declared_total =
     and_then (ok_or (checked_add u64_max inp outp) TotalOverflow) (\<lambda>total.
     if declared_total \<noteq> None \<and> declared_total \<noteq> Some total then Inl TotalMismatch
     else Inr \<lparr>bu_input_tokens = inp, bu_output_tokens = outp, bu_total_tokens = total, bu_charged_tokens = None,
               bu_cache_read_tokens = 0, bu_cache_write_tokens = 0\<rparr>)"

definition non_cached_tokens :: "billing_usage \<Rightarrow> nat" where
  "non_cached_tokens u = saturating_sub (saturating_sub (bu_total_tokens u) (bu_cache_read_tokens u)) (bu_cache_write_tokens u)"

definition validate_usage :: "billing_usage \<Rightarrow> (unit, usage_error) result" where
  "validate_usage u =
     and_then (billing_usage_new (bu_input_tokens u) (bu_output_tokens u) (Some (bu_total_tokens u))) (\<lambda>_.
     and_then (ok_or (checked_add u64_max (bu_cache_read_tokens u) (bu_cache_write_tokens u)) CacheOverflow) (\<lambda>cached.
     if cached > bu_input_tokens u then Inl CacheAboveInput
     else if (case bu_charged_tokens u of None \<Rightarrow> False | Some charged \<Rightarrow> charged > non_cached_tokens u) then Inl ChargedAboveUsage
     else Inr ()))"

definition billable_tokens :: "billing_usage \<Rightarrow> nat" where
  "billable_tokens u = (case bu_charged_tokens u of Some charged \<Rightarrow> charged | None \<Rightarrow> non_cached_tokens u)"


section \<open>Events and frames\<close>

record response_head =
  rh_status :: nat
  rh_headers :: "(string \<times> string) list"

datatype 'u upstream_event = Head response_head | Data string bool | Usage billing_usage | Failed 'u

datatype 'u relay_input = ChainDown | Event "'u upstream_event" bool

datatype ('u, 'e) relay_status =
    ChainUnavailableStatus
  | NoTerminalUsage bool
  | ZeroTotal
  | RecorderStatus 'e
  | SecondHead
  | ContentBeforeHead
  | ContentAfterUsage
  | DuplicateUsage
  | InvalidUsage usage_error
  | UsageWithoutSuccess
  | UsageWithoutOutput
  | UpstreamFailed 'u bool

datatype ('u, 'e) relay_output =
    HeadFrame response_head
  | DataFrame string
  | UsageFrame billing_usage
  | ErrorFrame "('u, 'e) relay_status"
  | HttpFailure nat
  | StatusFailure 'u bool

datatype delivery_finish = Interrupted | AmbiguousUsage

definition unfinished_delivery_finish :: "bool \<Rightarrow> delivery_finish" where
  "unfinished_delivery_finish saw_output = (if saw_output then AmbiguousUsage else Interrupted)"

record ('e, 'w) recorder =
  rc_shared_budget :: bool
  rc_complete_billing :: "nat \<Rightarrow> bool \<Rightarrow> (nat, 'e, 'w) run"
  rc_finished :: "delivery_finish \<Rightarrow> (unit, 'e, 'w) run"

record relay_state =
  rs_saw_output :: bool
  rs_head_status :: "nat option"
  rs_terminal_usage :: "billing_usage option"
  rs_billing_exhausted :: bool

definition relay_start :: relay_state where
  "relay_start = \<lparr>rs_saw_output = False, rs_head_status = None, rs_terminal_usage = None, rs_billing_exhausted = False\<rparr>"

definition success :: "nat \<Rightarrow> bool" where
  "success status \<longleftrightarrow> 200 \<le> status \<and> status < 300"

text \<open>How the loop ends: billed, with the record for the buyer, or broken off with a terminal error.\<close>

datatype ('u, 'e) relay_end = Billed billing_usage | Broken delivery_finish "('u, 'e) relay_status option"


section \<open>The relay\<close>

text \<open>One event: the next state and what is sent, or the end of the loop with what is sent on the way.\<close>

definition relay_event ::
    "nat \<Rightarrow> 'u upstream_event \<Rightarrow> bool \<Rightarrow> relay_state
     \<Rightarrow> (relay_state, ('u, 'e) relay_end) result \<times> ('u, 'e) relay_output list" where
  "relay_event grant ev buyer s =
     (let unfinished = unfinished_delivery_finish (rs_saw_output s) in
      case ev of
        Head h \<Rightarrow>
          if rs_head_status s \<noteq> None then (Inl (Broken unfinished (Some SecondHead)), [])
          else if \<not> buyer then (Inl (Broken unfinished None), [])
          else (Inr (s\<lparr>rs_head_status := Some (rh_status h)\<rparr>), [HeadFrame h])
      | Data bytes out \<Rightarrow>
          if rs_head_status s = None then (Inl (Broken unfinished (Some ContentBeforeHead)), [])
          else if rs_terminal_usage s \<noteq> None then (Inl (Broken unfinished (Some ContentAfterUsage)), [])
          else if \<not> buyer then (Inl (Broken unfinished None), [])
          else (Inr (s\<lparr>rs_saw_output := rs_saw_output s \<or> out\<rparr>), [DataFrame bytes])
      | Usage u \<Rightarrow>
          if rs_terminal_usage s \<noteq> None then (Inl (Broken unfinished (Some DuplicateUsage)), [])
          else (case validate_usage u of
              Inl e \<Rightarrow> (Inl (Broken unfinished (Some (InvalidUsage e))), [])
            | Inr _ \<Rightarrow>
                if \<not> (case rs_head_status s of None \<Rightarrow> False | Some status \<Rightarrow> success status)
                then (Inl (Broken unfinished (Some UsageWithoutSuccess)), [])
                else if \<not> rs_saw_output s \<or> bu_output_tokens u = 0
                then (Inl (Broken Interrupted (Some UsageWithoutOutput)), [])
                else (Inr (s\<lparr>rs_billing_exhausted := (non_cached_tokens u > grant), rs_terminal_usage := Some u\<rparr>), []))
      | Failed status \<Rightarrow>
          (Inl (Broken unfinished (Some (UpstreamFailed status (rs_saw_output s)))), [StatusFailure status (rs_saw_output s)]))"

text \<open>The end of the provider's stream: an error answer, no bill, or the commit of the bill.\<close>

definition relay_eof ::
    "('e, 'w) recorder \<Rightarrow> nat \<Rightarrow> bool \<Rightarrow> relay_state \<Rightarrow> 'w \<Rightarrow> (('u, 'e) relay_end \<times> ('u, 'e) relay_output list) \<times> 'w" where
  "relay_eof rc grant buyer s w =
     (let unfinished = unfinished_delivery_finish (rs_saw_output s) in
      case rs_head_status s of
        Some status \<Rightarrow>
          if \<not> success status then ((Broken Interrupted None, [HttpFailure status]), w)
          else (case rs_terminal_usage s of
              None \<Rightarrow> ((Broken unfinished (Some (NoTerminalUsage (rs_saw_output s))), []), w)
            | Some u \<Rightarrow>
                let tokens = min (non_cached_tokens u) grant in
                if tokens = 0 then ((Broken unfinished (Some ZeroTotal), []), w)
                else if \<not> buyer then ((Broken unfinished None, []), w)
                else (case rc_complete_billing rc tokens (rs_billing_exhausted s) w of
                    (Inl e, w') \<Rightarrow> ((Broken unfinished (Some (RecorderStatus e)), []), w')
                  | (Inr charged, w') \<Rightarrow>
                      let u' = (if rc_shared_budget rc \<or> charged \<noteq> non_cached_tokens u
                                then u\<lparr>bu_charged_tokens := Some charged\<rparr> else u) in
                      ((Billed u', [UsageFrame u']), w')))
      | None \<Rightarrow> ((Broken unfinished (Some (NoTerminalUsage (rs_saw_output s))), []), w))"

primrec relay_loop ::
    "('e, 'w) recorder \<Rightarrow> nat \<Rightarrow> bool \<Rightarrow> 'u relay_input list \<Rightarrow> relay_state \<Rightarrow> 'w
     \<Rightarrow> (('u, 'e) relay_end \<times> ('u, 'e) relay_output list) \<times> 'w" where
  "relay_loop rc grant buyer [] = relay_eof rc grant buyer"
| "relay_loop rc grant buyer (i # is) = (\<lambda>s w.
     case i of
       ChainDown \<Rightarrow> ((Broken (unfinished_delivery_finish (rs_saw_output s)) (Some ChainUnavailableStatus), []), w)
     | Event ev present \<Rightarrow>
         (case relay_event grant ev present s of
            (Inl fin, out) \<Rightarrow> ((fin, out), w)
          | (Inr s', out) \<Rightarrow> (case relay_loop rc grant buyer is s' w of ((fin, out'), w') \<Rightarrow> ((fin, out @ out'), w'))))"

definition error_frame :: "('u, 'e) relay_status option \<Rightarrow> ('u, 'e) relay_output list" where
  "error_frame e = (case e of None \<Rightarrow> [] | Some status \<Rightarrow> [ErrorFrame status])"

text \<open>The whole relay: a broken request is finished with the recorder, whose failure a shared request hides.\<close>

definition relay_counting ::
    "('e, 'w) recorder \<Rightarrow> nat \<Rightarrow> bool \<Rightarrow> 'u relay_input list \<Rightarrow> 'w \<Rightarrow> ('u, 'e) relay_output list \<times> 'w" where
  "relay_counting rc grant buyer is w =
     (case relay_loop rc grant buyer is relay_start w of ((fin, out), w1) \<Rightarrow>
        case fin of
          Billed _ \<Rightarrow> (out, w1)
        | Broken finish err \<Rightarrow>
            (case rc_finished rc finish w1 of (r, w2) \<Rightarrow>
               if rc_shared_budget rc then (out @ error_frame err, w2)
               else (out @ error_frame (case err of
                        Some status \<Rightarrow> Some status
                      | None \<Rightarrow> (case r of Inl e \<Rightarrow> Some (RecorderStatus e) | Inr _ \<Rightarrow> None)), w2)))"


section \<open>What is billed\<close>

text \<open>The record as the buyer gets it: with the charge, when that is not what the record says already.\<close>

definition stated_usage :: "('e, 'w) recorder \<Rightarrow> nat \<Rightarrow> billing_usage \<Rightarrow> billing_usage" where
  "stated_usage rc charged u =
     (if rc_shared_budget rc \<or> charged \<noteq> non_cached_tokens u then u\<lparr>bu_charged_tokens := Some charged\<rparr> else u)"

lemma relay_eof_billed:
  assumes "rs_terminal_usage s = Some u" and "rs_head_status s = Some status"
  shows "fst (fst (relay_eof rc grant buyer s w)) = Billed u' \<longleftrightarrow>
     success status \<and> buyer \<and> 0 < min (non_cached_tokens u) grant
     \<and> (\<exists>charged. fst (rc_complete_billing rc (min (non_cached_tokens u) grant) (rs_billing_exhausted s) w) = Inr charged
          \<and> u' = stated_usage rc charged u)"
  using assms
  by (cases "rc_complete_billing rc (min (non_cached_tokens u) grant) (rs_billing_exhausted s) w")
    (auto simp: relay_eof_def Let_def stated_usage_def split: sum.splits)

lemma relay_eof_unbilled:
  "rs_terminal_usage s = None \<Longrightarrow> fst (fst (relay_eof rc grant buyer s w)) \<noteq> Billed u'"
  by (auto simp: relay_eof_def Let_def split: option.splits)

text \<open>Nothing may follow the usage record.\<close>

lemma relay_after_usage:
  assumes "rs_terminal_usage s \<noteq> None" and "rs_head_status s \<noteq> None" and "fst (fst (relay_loop rc grant buyer is s w)) = Billed u'"
  shows "is = []"
proof (cases "is")
  case (Cons i rest)
  then show ?thesis
    using assms by (auto simp: relay_event_def Let_def split: relay_input.splits upstream_event.splits)
qed simp

abbreviation content :: "(string \<times> bool) list \<Rightarrow> 'u relay_input list" where
  "content ds \<equiv> map (\<lambda>d. Event (Data (fst d) (snd d)) True) ds"

text \<open>A usage record for which the recorder commits a bill, with the record the buyer then gets.\<close>

definition commits_bill :: "('e, 'w) recorder \<Rightarrow> nat \<Rightarrow> billing_usage \<Rightarrow> billing_usage \<Rightarrow> 'w \<Rightarrow> bool" where
  "commits_bill rc grant u u' w \<longleftrightarrow>
     0 < min (non_cached_tokens u) grant
     \<and> (case fst (rc_complete_billing rc (min (non_cached_tokens u) grant) (non_cached_tokens u > grant) w) of
          Inl e \<Rightarrow> False
        | Inr charged \<Rightarrow> u' = stated_usage rc charged u)"

definition valid_usage :: "billing_usage \<Rightarrow> bool" where
  "valid_usage u \<longleftrightarrow> validate_usage u = Inr () \<and> 0 < bu_output_tokens u"

lemma relay_usage:
  assumes "rs_head_status s = Some status" and "rs_terminal_usage s = None"
  shows "fst (fst (relay_loop rc grant buyer (Event (Usage u) present # rest) s w)) = Billed u' \<longleftrightarrow>
     rest = [] \<and> success status \<and> buyer \<and> rs_saw_output s \<and> valid_usage u \<and> commits_bill rc grant u u' w"
proof -
  let ?s = "s\<lparr>rs_billing_exhausted := (non_cached_tokens u > grant), rs_terminal_usage := Some u\<rparr>"
  let ?L = "\<lambda>is s. fst (fst (relay_loop rc grant buyer is s w)) = Billed u'"
  have "?L (Event (Usage u) present # rest) s \<longleftrightarrow> success status \<and> rs_saw_output s \<and> valid_usage u \<and> ?L rest ?s"
    using assms by (auto simp: relay_event_def valid_usage_def Let_def split: sum.splits prod.splits)
  moreover have "?L rest ?s \<Longrightarrow> rest = []"
    using relay_after_usage [of ?s rc grant buyer rest w u'] assms by simp
  moreover have "?L [] ?s \<longleftrightarrow> success status \<and> buyer \<and> commits_bill rc grant u u' w"
    using relay_eof_billed [of ?s u status rc grant buyer w u'] assms by (auto simp: commits_bill_def split: sum.splits)
  ultimately show ?thesis by blast
qed

lemma relay_content:
  assumes "rs_head_status s = Some status" and "rs_terminal_usage s = None"
  shows "fst (fst (relay_loop rc grant buyer is s w)) = Billed u' \<longleftrightarrow>
     (\<exists>ds u present. is = content ds @ [Event (Usage u) present] \<and> success status \<and> buyer
        \<and> (rs_saw_output s \<or> (\<exists>d\<in>set ds. snd d)) \<and> valid_usage u \<and> commits_bill rc grant u u' w)"
    (is "?L is s \<longleftrightarrow> ?R is s")
  using assms
proof (induction "is" arbitrary: s)
  case Nil
  then show ?case using relay_eof_unbilled [OF Nil(2)] by simp
next
  case (Cons i rest)
  consider (content) bytes out where "i = Event (Data bytes out) True" | (usage) u present where "i = Event (Usage u) present"
    | (other) "\<And>bytes out. i \<noteq> Event (Data bytes out) True" "\<And>u present. i \<noteq> Event (Usage u) present" by blast
  then show ?case
  proof cases
    case (content bytes out)
    let ?s = "s\<lparr>rs_saw_output := rs_saw_output s \<or> out\<rparr>"
    have "?L (i # rest) s \<longleftrightarrow> ?L rest ?s"
      using Cons.prems by (simp add: content relay_event_def split: prod.splits)
    also have "\<dots> \<longleftrightarrow> ?R rest ?s" using Cons.IH [of ?s] Cons.prems by simp
    also have "\<dots> \<longleftrightarrow> ?R (i # rest) s"
    proof
      assume "?R rest ?s"
      then obtain ds u present where "rest = content ds @ [Event (Usage u) present] \<and> success status \<and> buyer
        \<and> (rs_saw_output ?s \<or> (\<exists>d\<in>set ds. snd d)) \<and> valid_usage u \<and> commits_bill rc grant u u' w" by blast
      then show "?R (i # rest) s"
        by (intro exI [of _ "(bytes, out) # ds"] exI [of _ u] exI [of _ present]) (auto simp: content)
    next
      assume "?R (i # rest) s"
      then obtain ds u present where r: "i # rest = content ds @ [Event (Usage u) present]"
        "success status \<and> buyer \<and> (rs_saw_output s \<or> (\<exists>d\<in>set ds. snd d)) \<and> valid_usage u \<and> commits_bill rc grant u u' w" by blast
      then obtain ds' where "ds = (bytes, out) # ds'" by (cases ds) (auto simp: content)
      then show "?R rest ?s" using r by (intro exI [of _ ds'] exI [of _ u] exI [of _ present]) auto
    qed
    finally show ?thesis .
  next
    case (usage u present)
    have "?R (i # rest) s \<longleftrightarrow> rest = [] \<and> success status \<and> buyer \<and> rs_saw_output s \<and> valid_usage u \<and> commits_bill rc grant u u' w"
      by (auto simp: usage Cons_eq_append_conv Cons_eq_map_conv)
    then show ?thesis using relay_usage [of s status rc grant buyer u present rest w u'] Cons.prems by (simp add: usage)
  next
    case other
    have "\<not> ?R (i # rest) s" using other by (auto simp: Cons_eq_append_conv Cons_eq_map_conv)
    moreover have "\<not> ?L (i # rest) s"
      using other Cons.prems by (auto simp: relay_event_def Let_def split: relay_input.splits upstream_event.splits)
    ultimately show ?thesis by blast
  qed
qed


lemma relay_billed_loop:
  "fst (fst (relay_loop rc grant buyer is relay_start w)) = Billed u' \<longleftrightarrow>
     (\<exists>h ds u present. is = Event (Head h) True # content ds @ [Event (Usage u) present] \<and> success (rh_status h) \<and> buyer
        \<and> (\<exists>d\<in>set ds. snd d) \<and> valid_usage u \<and> commits_bill rc grant u u' w)"
proof (cases "is")
  case Nil
  then show ?thesis using relay_eof_unbilled [of relay_start] by (simp add: relay_start_def)
next
  case (Cons i rest)
  show ?thesis
  proof (cases "\<exists>h. i = Event (Head h) True")
    case True
    then obtain h where i: "i = Event (Head h) True" by blast
    let ?s = "relay_start\<lparr>rs_head_status := Some (rh_status h)\<rparr>"
    have "fst (fst (relay_loop rc grant buyer is relay_start w)) = Billed u' \<longleftrightarrow> fst (fst (relay_loop rc grant buyer rest ?s w)) = Billed u'"
      by (simp add: Cons i relay_event_def relay_start_def split: prod.splits)
    then show ?thesis
      using relay_content [of ?s "rh_status h" rc grant buyer rest w u'] by (auto simp: Cons i relay_start_def)
  next
    case False
    then show ?thesis
      by (auto simp: Cons relay_event_def relay_start_def Let_def split: relay_input.splits upstream_event.splits sum.splits)
  qed
qed

lemma relay_event_frames:
  "relay_event grant ev buyer s = (r, out) \<Longrightarrow> UsageFrame u \<notin> set out \<and> r \<noteq> Inl (Billed u)"
  by (auto simp: relay_event_def Let_def split: upstream_event.splits if_splits sum.splits)

text \<open>The usage frame goes out exactly when the loop ends billed.\<close>

lemma relay_loop_frames:
  fixes out :: "('u, 'e) relay_output list"
  assumes "relay_loop rc grant buyer is s w = ((fin, out), w')"
  shows "UsageFrame u \<in> set out \<longleftrightarrow> fin = Billed u"
  using assms
proof (induction "is" arbitrary: s out)
  case Nil
  then show ?case
    by (cases "rc_complete_billing rc (min (non_cached_tokens (the (rs_terminal_usage s))) grant) (rs_billing_exhausted s) w")
      (auto simp: relay_eof_def Let_def split: option.splits sum.splits if_splits)
next
  case (Cons i rest)
  show ?case
  proof (cases i)
    case ChainDown
    then show ?thesis using Cons.prems by auto
  next
    case (Event ev present)
    obtain r and o1 :: "('u, 'e) relay_output list" where e: "relay_event grant ev present s = (r, o1)" by fastforce
    note frames = relay_event_frames [OF e]
    show ?thesis
    proof (cases r)
      case (Inl f)
      then show ?thesis using Cons.prems frames [of u] by (auto simp: Event e)
    next
      case (Inr s')
      obtain f o2 w2 where l: "relay_loop rc grant buyer rest s' w = ((f, o2), w2)" by (metis prod.exhaust)
      then have "fin = f" "out = o1 @ o2" "w' = w2" using Cons.prems by (auto simp: Event e Inr)
      then show ?thesis using Cons.IH [of s' o2] l frames [of u] by auto
    qed
  qed
qed

lemma relay_counting_frames:
  "UsageFrame u \<in> set (fst (relay_counting rc grant buyer is w)) \<longleftrightarrow> fst (fst (relay_loop rc grant buyer is relay_start w)) = Billed u"
proof -
  obtain fin out w1 where l: "relay_loop rc grant buyer is relay_start w = ((fin, out), w1)" by (metis prod.exhaust)
  show ?thesis
    using relay_loop_frames [OF l, of u]
    by (auto simp: relay_counting_def l error_frame_def split: relay_end.splits prod.splits option.splits if_splits sum.splits)
qed


text \<open>
  What a recorder owes its relay: both calls keep what must hold of the world, for bills within the grant.  Then
  the relay as a whole keeps it, whatever the provider sends and whenever the buyer leaves.
\<close>

locale delivery_recorder =
  fixes rc :: "('e, 'w) recorder" and inv :: "'w \<Rightarrow> bool" and grant :: nat
  assumes complete_keeps: "inv w \<Longrightarrow> tokens \<le> grant \<Longrightarrow> inv (snd (rc_complete_billing rc tokens exhausted w))"
    and finished_keeps: "inv w \<Longrightarrow> inv (snd (rc_finished rc finish w))"
begin

lemma eof_keeps: "inv w \<Longrightarrow> inv (snd (relay_eof rc grant buyer s w))"
  using complete_keeps [of w "min (non_cached_tokens (the (rs_terminal_usage s))) grant" "rs_billing_exhausted s"]
  by (auto simp: relay_eof_def Let_def split: option.splits prod.splits sum.splits)

lemma loop_keeps: "inv w \<Longrightarrow> inv (snd (relay_loop rc grant buyer is s w))"
proof (induction "is" arbitrary: s)
  case (Cons i rest)
  then show ?case by (auto split: relay_input.splits prod.splits sum.splits) (metis snd_conv)
qed (simp add: eof_keeps)

lemma relay_keeps: "inv w \<Longrightarrow> inv (snd (relay_counting rc grant buyer is w))"
proof -
  assume "inv w"
  then have loop: "inv (snd (relay_loop rc grant buyer is relay_start w))" by (rule loop_keeps)
  obtain fin out w1 where l: "relay_loop rc grant buyer is relay_start w = ((fin, out), w1)" by (metis prod.exhaust)
  show ?thesis
    using loop finished_keeps [of w1] by (auto simp: relay_counting_def l split: relay_end.splits prod.splits) (metis snd_conv)
qed

end

text \<open>A billed relay has touched the world only through the one commit of its bill.\<close>

lemma relay_eof_commits:
  assumes "relay_eof rc grant buyer s w = ((Billed u', out), w')"
  shows "\<exists>u charged. rs_terminal_usage s = Some u
     \<and> rc_complete_billing rc (min (non_cached_tokens u) grant) (rs_billing_exhausted s) w = (Inr charged, w') \<and> u' = stated_usage rc charged u"
  using assms by (auto simp: relay_eof_def Let_def stated_usage_def split: option.splits if_splits prod.splits sum.splits)

lemma relay_loop_commits:
  fixes out :: "('u, 'e) relay_output list"
  assumes "relay_loop rc grant buyer is s w = ((Billed u', out), w')"
  shows "\<exists>u charged exhausted. (rs_terminal_usage s = Some u \<or> (\<exists>present. Event (Usage u) present \<in> set is))
     \<and> rc_complete_billing rc (min (non_cached_tokens u) grant) exhausted w = (Inr charged, w') \<and> u' = stated_usage rc charged u"
  using assms
proof (induction "is" arbitrary: s out)
  case Nil
  then show ?case using relay_eof_commits [of rc grant buyer s w u' out w'] by auto
next
  case (Cons i rest)
  then obtain ev present where i: "i = Event ev present" by (cases i) auto
  obtain r and o1 :: "('u, 'e) relay_output list" where e: "relay_event grant ev present s = (r, o1)" by fastforce
  then obtain s' where r: "r = Inr s'"
    using Cons.prems relay_event_frames [OF e, of u'] by (cases r) (auto simp: i)
  obtain o2 where "relay_loop rc grant buyer rest s' w = ((Billed u', o2), w')"
    using Cons.prems by (auto simp: i e r split: prod.splits)
  from Cons.IH [OF this] obtain u charged exhausted where
    u: "rs_terminal_usage s' = Some u \<or> (\<exists>present. Event (Usage u) present \<in> set rest)"
    and bill: "rc_complete_billing rc (min (non_cached_tokens u) grant) exhausted w = (Inr charged, w')" "u' = stated_usage rc charged u" by blast
  have "rs_terminal_usage s' = Some u \<Longrightarrow> rs_terminal_usage s = Some u \<or> ev = Usage u"
    using e by (auto simp: r relay_event_def Let_def split: upstream_event.splits if_splits sum.splits)
  with u have "rs_terminal_usage s = Some u \<or> (\<exists>present. Event (Usage u) present \<in> set (i # rest))" using i by auto
  then show ?case using bill by blast
qed


section \<open>Properties\<close>

text \<open>
  Claim C15: the relay releases a usage record to the buyer for exactly one shape of provider stream. The
  stream is one successful head, then only content with at least one chunk of output, then one
  usage record that passes validation and counts output tokens, then the end; the buyer is
  there for every frame; the chargeable tokens, capped by the grant, are not zero; and the recorder
  has committed that bill in the world the relay started from.  The record carries the committed
  charge when the budget is shared or the charge is not what the record adds up to.
\<close>

theorem relay_bills_clean_streams:
  "UsageFrame u' \<in> set (fst (relay_counting rc grant buyer is w)) \<longleftrightarrow>
     buyer \<and> (\<exists>h ds u present.
       is = Event (Head h) True # map (\<lambda>d. Event (Data (fst d) (snd d)) True) ds @ [Event (Usage u) present]
       \<and> success (rh_status h) \<and> (\<exists>d\<in>set ds. snd d)
       \<and> validate_usage u = Inr () \<and> 0 < bu_output_tokens u \<and> 0 < min (non_cached_tokens u) grant
       \<and> (\<exists>charged. fst (rc_complete_billing rc (min (non_cached_tokens u) grant) (non_cached_tokens u > grant) w) = Inr charged
            \<and> u' = (if rc_shared_budget rc \<or> charged \<noteq> non_cached_tokens u then u\<lparr>bu_charged_tokens := Some charged\<rparr> else u)))"
proof -
  have "commits_bill rc grant u u' w \<longleftrightarrow>
     0 < min (non_cached_tokens u) grant
     \<and> (\<exists>charged. fst (rc_complete_billing rc (min (non_cached_tokens u) grant) (non_cached_tokens u > grant) w) = Inr charged
          \<and> u' = stated_usage rc charged u)" for u
    by (auto simp: commits_bill_def split: sum.splits)
  then show ?thesis
    unfolding relay_counting_frames relay_billed_loop valid_usage_def stated_usage_def by (simp add: conj_ac cong: conj_cong)
qed


definition sample_usage :: billing_usage where
  "sample_usage = \<lparr>bu_input_tokens = 12, bu_output_tokens = 30, bu_total_tokens = 42, bu_charged_tokens = None,
     bu_cache_read_tokens = 2, bu_cache_write_tokens = 0\<rparr>"

text \<open>A recorder that counts the billed tokens and refuses to exceed a hundred of them.\<close>

definition sample_recorder :: "(unit, nat) recorder" where
  "sample_recorder = \<lparr>rc_shared_budget = False,
     rc_complete_billing = (\<lambda>tokens exhausted n. if n + tokens \<le> 100 then (Inr tokens, n + tokens) else (Inl (), n)),
     rc_finished = (\<lambda>finish n. (Inr (), n))\<rparr>"

theorem relay_bills_clean_streams_witness:
  "UsageFrame (sample_usage\<lparr>bu_charged_tokens := Some 35\<rparr>) \<in> set (fst (relay_counting sample_recorder 35 True
     [Event (Head \<lparr>rh_status = 200, rh_headers = []\<rparr>) True, Event (Data ''hello'' True) True, Event (Usage sample_usage) True] 60))"
  unfolding relay_bills_clean_streams
  by (rule conjI, simp, rule exI [of _ "\<lparr>rh_status = 200, rh_headers = []\<rparr>"], rule exI [of _ "[(''hello'', True)]"],
      rule exI [of _ sample_usage], rule exI [of _ True])
    (simp add: sample_usage_def sample_recorder_def success_def validate_usage_def billing_usage_new_def non_cached_tokens_def
      checked_add_def u64_max_def)

end
