(* ===== verification/Auth.thy ===== *)
theory Auth
  imports Prelude
begin

text \<open>
  Authorization of stream sessions, \<open>crates/dexdo/src/seller/auth.rs\<close>: the gateway issues nonces per token
  contract, and a buyer opens a stream with a signature over one of them.  Signature verification is
  a parameter (the Ed25519 library).  Bytes are characters.  The lock of the issued nonces is
  held only inside a call, so the last step of a verification, which consumes the nonce, is also an
  event of its own: it may run after other calls have come in between.
\<close>

section \<open>The registry\<close>

type_synonym nonce = string

definition challenge_bytes :: "string \<Rightarrow> nonce \<Rightarrow> string" where
  "challenge_bytes token_contract nonce = token_contract @ ''|'' @ nonce"

record 'key auth_registry =
  ar_buyer_pubkeys :: "(string, 'key) hmap"
  ar_issued :: "(string, nonce set) hmap"

definition auth_new :: "'key auth_registry" where
  "auth_new = \<lparr>ar_buyer_pubkeys = [], ar_issued = []\<rparr>"

definition auth_register :: "string \<Rightarrow> 'key \<Rightarrow> 'key auth_registry \<Rightarrow> 'key auth_registry" where
  "auth_register tc key a = a\<lparr>ar_buyer_pubkeys := hm_insert tc key (ar_buyer_pubkeys a)\<rparr>"

definition auth_unregister :: "string \<Rightarrow> 'key auth_registry \<Rightarrow> 'key auth_registry" where
  "auth_unregister tc a =
     a\<lparr>ar_buyer_pubkeys := hm_remove tc (ar_buyer_pubkeys a), ar_issued := hm_remove tc (ar_issued a)\<rparr>"

definition issue_challenge :: "string \<Rightarrow> nonce \<Rightarrow> 'key auth_registry \<Rightarrow> 'key auth_registry" where
  "issue_challenge tc nonce a =
     (let outstanding = (case hm_get (ar_issued a) tc of None \<Rightarrow> {} | Some s \<Rightarrow> s) in
      a\<lparr>ar_issued := hm_insert tc (insert nonce outstanding) (ar_issued a)\<rparr>)"

definition discard_challenge :: "string \<Rightarrow> nonce \<Rightarrow> 'key auth_registry \<Rightarrow> bool \<times> 'key auth_registry" where
  "discard_challenge tc nonce a =
     (case hm_get (ar_issued a) tc of
        None \<Rightarrow> (False, a)
      | Some outstanding \<Rightarrow>
          if nonce \<notin> outstanding then (False, a)
          else
            let rest = outstanding - {nonce} in
            (True, a\<lparr>ar_issued := (if rest = {} then hm_remove tc (ar_issued a) else hm_insert tc rest (ar_issued a))\<rparr>))"

definition verify_response ::
    "('key \<Rightarrow> string \<Rightarrow> 'sig \<Rightarrow> bool) \<Rightarrow> string \<Rightarrow> nonce \<Rightarrow> 'sig \<Rightarrow> 'key auth_registry \<Rightarrow> bool \<times> 'key auth_registry" where
  "verify_response verify tc nonce signature a =
     (case hm_get (ar_buyer_pubkeys a) tc of
        None \<Rightarrow> (False, a)
      | Some pubkey \<Rightarrow>
          (case hm_get (ar_issued a) tc of
             None \<Rightarrow> (False, a)
           | Some outstanding \<Rightarrow>
               if nonce \<notin> outstanding then (False, a)
               else if \<not> verify pubkey (challenge_bytes tc nonce) signature then (False, a)
               else discard_challenge tc nonce a))"


section \<open>Outstanding nonces\<close>

definition is_outstanding :: "string \<Rightarrow> nonce \<Rightarrow> 'key auth_registry \<Rightarrow> bool" where
  "is_outstanding tc nonce a = (case hm_get (ar_issued a) tc of None \<Rightarrow> False | Some s \<Rightarrow> nonce \<in> s)"

lemma outstanding_register [simp]: "is_outstanding tc n (auth_register tc' key a) = is_outstanding tc n a"
  by (simp add: is_outstanding_def auth_register_def)

lemma outstanding_unregister [simp]: "is_outstanding tc n (auth_unregister tc' a) \<longleftrightarrow> tc \<noteq> tc' \<and> is_outstanding tc n a"
  by (simp add: is_outstanding_def auth_unregister_def hm_simps)

lemma outstanding_issue [simp]:
  "is_outstanding tc n (issue_challenge tc' n' a) \<longleftrightarrow> (tc, n) = (tc', n') \<or> is_outstanding tc n a"
  by (auto simp: is_outstanding_def issue_challenge_def hm_simps Let_def split: option.splits)

lemma fst_discard [simp]: "fst (discard_challenge tc n a) = is_outstanding tc n a"
  by (auto simp: is_outstanding_def discard_challenge_def Let_def split: option.splits)

lemma outstanding_discard [simp]:
  "is_outstanding tc n (snd (discard_challenge tc' n' a)) \<longleftrightarrow> (tc, n) \<noteq> (tc', n') \<and> is_outstanding tc n a"
  by (auto simp: is_outstanding_def discard_challenge_def hm_simps Let_def split: option.splits)

text \<open>A verification is a check followed by the consumption of the nonce.\<close>

lemma verify_response_split:
  "verify_response verify tc n signature a =
     (if is_outstanding tc n a \<and> (\<exists>key. hm_get (ar_buyer_pubkeys a) tc = Some key \<and> verify key (challenge_bytes tc n) signature)
      then discard_challenge tc n a else (False, a))"
  by (auto simp: verify_response_def is_outstanding_def split: option.splits)


section \<open>Sessions\<close>

datatype ('key, 'sig) auth_event =
    Register string 'key
  | Unregister string
  | Issue string nonce
  | Verify string nonce 'sig
  | Consume string nonce

text \<open>Whether the event reports success, and the registry it leaves.\<close>

fun auth_step ::
    "('key \<Rightarrow> string \<Rightarrow> 'sig \<Rightarrow> bool) \<Rightarrow> ('key, 'sig) auth_event \<Rightarrow> 'key auth_registry \<Rightarrow> bool \<times> 'key auth_registry" where
  "auth_step verify (Register tc key) a = (False, auth_register tc key a)"
| "auth_step verify (Unregister tc) a = (False, auth_unregister tc a)"
| "auth_step verify (Issue tc n) a = (False, issue_challenge tc n a)"
| "auth_step verify (Verify tc n signature) a = verify_response verify tc n signature a"
| "auth_step verify (Consume tc n) a = discard_challenge tc n a"

fun event_nonce :: "('key, 'sig) auth_event \<Rightarrow> (string \<times> nonce) option" where
  "event_nonce (Verify tc n signature) = Some (tc, n)"
| "event_nonce (Consume tc n) = Some (tc, n)"
| "event_nonce e = None"

text \<open>How often the nonce is issued, and how often it opens a session.\<close>

definition issues :: "string \<Rightarrow> nonce \<Rightarrow> ('key, 'sig) auth_event list \<Rightarrow> nat" where
  "issues tc n es = length (filter (\<lambda>e. e = Issue tc n) es)"

primrec openings ::
    "('key \<Rightarrow> string \<Rightarrow> 'sig \<Rightarrow> bool) \<Rightarrow> string \<Rightarrow> nonce \<Rightarrow> ('key, 'sig) auth_event list \<Rightarrow> 'key auth_registry \<Rightarrow> nat" where
  "openings verify tc n [] a = 0"
| "openings verify tc n (e # es) a =
     (case auth_step verify e a of (opened, a') \<Rightarrow>
        (if opened \<and> event_nonce e = Some (tc, n) then 1 else 0) + openings verify tc n es a')"

lemma step_opens:
  assumes "auth_step verify e a = (opened, a')"
  shows "(if opened \<and> event_nonce e = Some (tc, n) then 1 else 0) + (if is_outstanding tc n a' then 1 else 0)
     \<le> (if is_outstanding tc n a then 1 else 0) + (if e = Issue tc n then 1 else (0::nat))"
proof -
  have *: "is_outstanding tc n a'' \<longleftrightarrow> (tc, n) \<noteq> (tc', n') \<and> is_outstanding tc n a" "b = is_outstanding tc' n' a"
    if "discard_challenge tc' n' a = (b, a'')" for tc' n' b a''
    using outstanding_discard [of tc n tc' n' a] fst_discard [of tc' n' a] that by simp_all
  show ?thesis
    using assms by (cases e) (auto simp: verify_response_split dest: * split: if_splits)
qed

lemma openings_bound:
  "openings verify tc n es a \<le> (if is_outstanding tc n a then 1 else 0) + issues tc n es"
proof (induction es arbitrary: a)
  case (Cons e es)
  obtain opened a' where s: "auth_step verify e a = (opened, a')" by fastforce
  show ?case
    using Cons.IH [of a'] step_opens [OF s, of tc n] by (auto simp: s issues_def split: if_splits)
qed (simp add: issues_def)

text \<open>
  Claim C16: no replay.  Over every sequence of registrations, withdrawals, challenges, verifications and
  separately interleaved last steps of verifications, a nonce opens at most as many
  sessions of its contract as it was issued times for that contract; a nonce issued for another
  contract only opens none.
\<close>

theorem auth_no_replay:
  "openings verify tc n es auth_new \<le> issues tc n es"
  using openings_bound [of verify tc n es auth_new] by (simp add: is_outstanding_def auth_new_def hm_simps)

text \<open>
  A failed verification changes nothing, so a wrong signature cannot burn the challenge of the
  honest buyer: whatever wrong attempts come first, his answer to an outstanding nonce still succeeds.
\<close>

theorem auth_not_burned:
  assumes "hm_get (ar_buyer_pubkeys a) tc = Some key" and "is_outstanding tc n a"
    and "\<forall>(tc', n', s')\<in>set attempts. \<forall>key'. hm_get (ar_buyer_pubkeys a) tc' = Some key' \<longrightarrow> \<not> verify key' (challenge_bytes tc' n') s'"
    and "verify key (challenge_bytes tc n) s"
  shows "fst (verify_response verify tc n s (foldl (\<lambda>a (tc', n', s'). snd (verify_response verify tc' n' s' a)) a attempts))"
proof -
  have "foldl (\<lambda>a (tc', n', s'). snd (verify_response verify tc' n' s' a)) a attempts = a"
    using assms(3) by (induction attempts) (auto simp: verify_response_split)
  then show ?thesis using assms by (auto simp: verify_response_split)
qed

theorem auth_not_burned_witness:
  "fst (verify_response (\<lambda>key m s. s = key + length m) ''0:ab'' ''n'' 12
     (foldl (\<lambda>a (tc', n', s'). snd (verify_response (\<lambda>key m s. s = key + length m) tc' n' s' a))
        (issue_challenge ''0:ab'' ''n'' (auth_register ''0:ab'' (6::nat) auth_new)) [(''0:ab'', ''n'', 5)]))"
  by (rule auth_not_burned [where key = 6])
    (simp_all add: auth_new_def auth_register_def issue_challenge_def is_outstanding_def challenge_bytes_def hm_simps)

text \<open>
  The signed bytes bind the contract: nonces of one length, as the gateway issues
  them, give the same challenge bytes only for the same contract and the same nonce.
\<close>

lemma challenge_bytes_bind:
  assumes "length n = length n'" and "challenge_bytes tc n = challenge_bytes tc' n'"
  shows "tc = tc' \<and> n = n'"
  using assms by (auto simp: challenge_bytes_def)

end
