(* ===== verification/Gateway.thy ===== *)
theory Gateway
  imports Advance Capacity Relay Auth
begin

text \<open>
  The state of the seller's gateway and its calls, \<open>crates/dexdo/src/seller/gateway.rs\<close>: registration of a
  deal, the billable counter that the claim driver reads, admission of a stream, and the recorder
  through which a relay commits its bill.  The counters of a deal are a shared object (\<open>Arc\<close>): they live
  in a heap and survive in the hands of running relays when the deal is unregistered.  The relay
  tasks that were spawned are listed, each with its reservation and its counters.

  The upstream configuration and the translation of the request for its provider are
  parameters.  Time is an argument, in nanoseconds.  Lock poisoning, metrics, traces and the
  transport are not modelled; neither are the sequence numbers of trace events.
\<close>

section \<open>State\<close>

record deal_delivery =
  dd_count :: nat
  dd_done :: bool
  dd_billing_exhausted :: bool

definition deal_delivery_default :: deal_delivery where
  "deal_delivery_default = \<lparr>dd_count = 0, dd_done = False, dd_billing_exhausted = False\<rparr>"

record capacity_retry =
  cy_bounds :: claim_bounds
  cy_state :: deal_chain_state
  cy_next_attempt :: nat

record stream_limits =
  sl_mock_token_count :: nat
  sl_deal :: deal_subscription
  sl_retry :: capacity_retry

text \<open>A spawned relay: its contract, its reservation, the counters it adds to and its grant.\<close>

record relay_task =
  rt_token_contract :: token_contract
  rt_request :: nat
  rt_delivery :: nat
  rt_grant :: nat

record ('b, 'key, 'up) gateway_state =
  gs_auth :: "'key auth_registry"
  gs_limits :: "(token_contract, stream_limits) hmap"
  gs_delivered :: "(token_contract, nat) hmap"
  gs_deliveries :: "deal_delivery list"
  gs_capacity :: "'b capacity_world"
  gs_upstream :: 'up
  gs_upstreams :: "(token_contract, 'up) hmap"
  gs_chain_unavailable :: bool
  gs_keep_serving :: bool
  gs_max_concurrent :: nat
  gs_tasks :: "relay_task list"

definition SELLER_MAX_CONCURRENT_REQUESTS_PER_DEAL :: nat where "SELLER_MAX_CONCURRENT_REQUESTS_PER_DEAL = 2"
definition CAPACITY_RETRY_DEFAULT :: nat where "CAPACITY_RETRY_DEFAULT = SECOND"
definition CLAIM_CONFIRMATION_POLL_INTERVAL :: nat where "CLAIM_CONFIRMATION_POLL_INTERVAL = 3 * SECOND"

definition with_capacity :: "'up \<Rightarrow> 'b capacity_world \<Rightarrow> ('b, 'key, 'up) gateway_state" where
  "with_capacity up cap =
     \<lparr>gs_auth = auth_new, gs_limits = [], gs_delivered = [], gs_deliveries = [], gs_capacity = cap, gs_upstream = up,
      gs_upstreams = [], gs_chain_unavailable = False, gs_keep_serving = False,
      gs_max_concurrent = SELLER_MAX_CONCURRENT_REQUESTS_PER_DEAL, gs_tasks = []\<rparr>"

datatype gateway_error =
    CapacityFailed capacity_error
  | HighWaterOverflow
  | ContractTerminal
  | DurableDeliveryTooWide
  | OrdinaryInKeeper
  | DealNotRegistered
  | SubscriptionInDriver

type_synonym ('a, 'b, 'key, 'up) gateway_run = "('a, gateway_error, ('b, 'key, 'up) gateway_state) run"

definition in_capacity ::
    "('e \<Rightarrow> 'f) \<Rightarrow> ('a, 'e, 'b capacity_world) run \<Rightarrow> ('a, 'f, ('b, 'key, 'up) gateway_state) run" where
  "in_capacity f m g = (case m (gs_capacity g) of (r, c) \<Rightarrow> (map_err f r, g\<lparr>gs_capacity := c\<rparr>))"

definition put_delivery :: "nat \<Rightarrow> deal_delivery \<Rightarrow> ('b, 'key, 'up) gateway_state \<Rightarrow> ('b, 'key, 'up) gateway_state" where
  "put_delivery d dd g = g\<lparr>gs_deliveries := (gs_deliveries g)[d := dd]\<rparr>"

text \<open>The counters of a deal, created on first access.\<close>

definition delivery :: "token_contract \<Rightarrow> (nat, 'e, ('b, 'key, 'up) gateway_state) run" where
  "delivery tc g =
     (case hm_get (gs_delivered g) tc of
        Some d \<Rightarrow> (Inr d, g)
      | None \<Rightarrow>
          (let d = length (gs_deliveries g) in
           (Inr d, g\<lparr>gs_delivered := hm_insert tc d (gs_delivered g),
                     gs_deliveries := gs_deliveries g @ [deal_delivery_default]\<rparr>)))"

definition gateway_upstream :: "('b, 'key, 'up) gateway_state \<Rightarrow> token_contract \<Rightarrow> 'up" where
  "gateway_upstream g tc = (case hm_get (gs_upstreams g) tc of Some up \<Rightarrow> up | None \<Rightarrow> gs_upstream g)"

definition route_stream :: "token_contract \<Rightarrow> 'up \<Rightarrow> ('b, 'key, 'up) gateway_state \<Rightarrow> ('b, 'key, 'up) gateway_state" where
  "route_stream tc up g = g\<lparr>gs_upstreams := hm_insert tc up (gs_upstreams g)\<rparr>"

definition set_max_concurrent_requests_per_deal ::
    "nat \<Rightarrow> ('b, 'key, 'up) gateway_state \<Rightarrow> ('b, 'key, 'up) gateway_state" where
  "set_max_concurrent_requests_per_deal limit g = g\<lparr>gs_max_concurrent := limit\<rparr>"

definition set_chain_unavailable_action :: "bool \<Rightarrow> ('b, 'key, 'up) gateway_state \<Rightarrow> ('b, 'key, 'up) gateway_state" where
  "set_chain_unavailable_action keep_serving g = g\<lparr>gs_keep_serving := keep_serving\<rparr>"

definition report_chain_unavailable :: "('b, 'key, 'up) gateway_state \<Rightarrow> ('b, 'key, 'up) gateway_state" where
  "report_chain_unavailable g = (if gs_keep_serving g then g else g\<lparr>gs_chain_unavailable := True\<rparr>)"


section \<open>Registration and chain reads\<close>

definition register_stream_with_claim_bounds ::
    "'b capacity_codec \<Rightarrow> bool \<Rightarrow> io \<Rightarrow> nat \<Rightarrow> token_contract \<Rightarrow> 'key \<Rightarrow> nat \<Rightarrow> deal_chain_state \<Rightarrow> deal_subscription
     \<Rightarrow> claim_bounds \<Rightarrow> (unit, 'b, 'key, 'up) gateway_run" where
  "register_stream_with_claim_bounds cd readable io now tc key mock_token_count state deal bounds =
     run_then (in_capacity CapacityFailed (reconcile_deal cd readable io tc state deal)) (\<lambda>found.
     run_then (run_pure (ok_or found ContractTerminal)) (\<lambda>snapshot.
     run_then (run_pure (ok_or
         (Option.bind (checked_add u128_max (sn_tokens_pending_anchor snapshot) (sn_local_delivered snapshot)) (try_from u64_max))
         DurableDeliveryTooWide)) (\<lambda>durable_delivered.
     let retry = \<lparr>cy_bounds = bounds, cy_state = state,
                  cy_next_attempt = now + (if dc_probe_accepted state then cb_min_claim_interval bounds else cb_probe_window bounds) * SECOND\<rparr> in
     run_then (run_modify (\<lambda>g. g\<lparr>
        gs_limits := hm_insert tc \<lparr>sl_mock_token_count = mock_token_count, sl_deal = deal, sl_retry = retry\<rparr> (gs_limits g),
        gs_auth := auth_register tc key (gs_auth g)\<rparr>)) (\<lambda>_.
     run_then (delivery tc) (\<lambda>d.
     run_modify (\<lambda>g. put_delivery d ((gs_deliveries g ! d)\<lparr>dd_count := durable_delivered\<rparr>) g))))))"

definition unregister_stream :: "token_contract \<Rightarrow> ('b, 'key, 'up) gateway_state \<Rightarrow> ('b, 'key, 'up) gateway_state" where
  "unregister_stream tc g =
     g\<lparr>gs_auth := (if gs_chain_unavailable g then gs_auth g else auth_unregister tc (gs_auth g)),
       gs_limits := hm_remove tc (gs_limits g), gs_delivered := hm_remove tc (gs_delivered g),
       gs_upstreams := hm_remove tc (gs_upstreams g)\<rparr>"

definition update_retry ::
    "token_contract \<Rightarrow> (capacity_retry \<Rightarrow> capacity_retry) \<Rightarrow> ('b, 'key, 'up) gateway_state \<Rightarrow> ('b, 'key, 'up) gateway_state" where
  "update_retry tc f g =
     (case hm_get (gs_limits g) tc of
        None \<Rightarrow> g
      | Some l \<Rightarrow> g\<lparr>gs_limits := hm_insert tc (l\<lparr>sl_retry := f (sl_retry l)\<rparr>) (gs_limits g)\<rparr>)"

definition reconcile_deal_capacity ::
    "'b capacity_codec \<Rightarrow> bool \<Rightarrow> io \<Rightarrow> token_contract \<Rightarrow> deal_chain_state \<Rightarrow> deal_subscription
     \<Rightarrow> (capacity_snapshot option, 'b, 'key, 'up) gateway_run" where
  "reconcile_deal_capacity cd readable io tc state deal =
     run_then (in_capacity CapacityFailed (reconcile_deal cd readable io tc state deal)) (\<lambda>snapshot.
     run_then (run_modify (update_retry tc (\<lambda>r. r\<lparr>cy_state := state\<rparr>))) (\<lambda>_.
     run_pure (Inr snapshot)))"

definition reconcile_subscription_capacity ::
    "'b capacity_codec \<Rightarrow> bool \<Rightarrow> io \<Rightarrow> token_contract \<Rightarrow> deal_chain_state \<Rightarrow> deal_subscription
     \<Rightarrow> (capacity_snapshot option, 'b, 'key, 'up) gateway_run" where
  "reconcile_subscription_capacity cd readable io tc state deal =
     (if \<not> is_subscription deal then run_pure (Inl OrdinaryInKeeper)
      else reconcile_deal_capacity cd readable io tc state deal)"

definition reconcile_ordinary_capacity ::
    "'b capacity_codec \<Rightarrow> bool \<Rightarrow> io \<Rightarrow> token_contract \<Rightarrow> deal_chain_state
     \<Rightarrow> (capacity_snapshot option, 'b, 'key, 'up) gateway_run" where
  "reconcile_ordinary_capacity cd readable io tc state = run_get (\<lambda>g.
     case hm_get (gs_limits g) tc of
       None \<Rightarrow> run_pure (Inl DealNotRegistered)
     | Some l \<Rightarrow>
         if is_subscription (sl_deal l) then run_pure (Inl SubscriptionInDriver)
         else reconcile_deal_capacity cd readable io tc state (sl_deal l))"

definition schedule_capacity_retry ::
    "nat \<Rightarrow> token_contract \<Rightarrow> nat \<Rightarrow> ('b, 'key, 'up) gateway_state \<Rightarrow> ('b, 'key, 'up) gateway_state" where
  "schedule_capacity_retry now tc delay = update_retry tc (\<lambda>r. r\<lparr>cy_next_attempt := now + delay\<rparr>)"

definition prepare_probe_capacity :: "'b capacity_codec \<Rightarrow> io \<Rightarrow> token_contract \<Rightarrow> nat \<Rightarrow> (nat, 'b, 'key, 'up) gateway_run" where
  "prepare_probe_capacity cd io tc delivered = in_capacity CapacityFailed (prepare_probe cd io tc delivered)"

definition mark_deal_terminal :: "io \<Rightarrow> token_contract \<Rightarrow> (unit, 'b, 'key, 'up) gateway_run" where
  "mark_deal_terminal io tc = in_capacity CapacityFailed (mark_terminal io tc)"


section \<open>When a refused buyer may come back\<close>

definition retry_delay :: "capacity_retry \<Rightarrow> nat \<Rightarrow> nat \<Rightarrow> nat" where
  "retry_delay r unix_now now =
     (let st = cy_state r; b = cy_bounds r;
          allowed =
            (if dc_probe_accepted st
             then saturating_add DURATION_MAX (dc_last_claim_time st * SECOND)
                    (max (cb_min_claim_interval b) (cb_min_seconds_per_tick b) * SECOND)
             else saturating_add DURATION_MAX
                    (if dc_probe_time st = 0 then unix_now else dc_probe_time st * SECOND) (cb_probe_window b * SECOND)) in
      max (saturating_add DURATION_MAX
             (max (saturating_sub allowed unix_now) (saturating_sub (cy_next_attempt r) now))
             CLAIM_CONFIRMATION_POLL_INTERVAL)
          CAPACITY_RETRY_DEFAULT)"

datatype grpc_code = InvalidArgument | ResourceExhausted | Unauthenticated | FailedPrecondition | DataLoss

record refusal_status =
  rf_code :: grpc_code
  rf_limit :: "string option"
  rf_error_code :: "string option"
  rf_retry_after_ms :: "nat option"

definition reserve_status :: "reserve_error \<Rightarrow> nat \<Rightarrow> refusal_status" where
  "reserve_status e delay =
     (let code = (case e of
                    Exhausted \<Rightarrow> ResourceExhausted | OnchainLimit \<Rightarrow> ResourceExhausted | Concurrency \<Rightarrow> ResourceExhausted
                  | UnknownDeal \<Rightarrow> FailedPrecondition | TerminalDeal \<Rightarrow> FailedPrecondition
                  | InvalidState _ \<Rightarrow> DataLoss) in
      \<lparr>rf_code = code,
       rf_limit = (if e = OnchainLimit then Some ''onchain_deal_limit'' else None),
       rf_error_code = (if e = Concurrency then Some ''deal_busy'' else None),
       rf_retry_after_ms =
         (if code = ResourceExhausted
          then Some (max (case try_from u64_max (div_ceil delay 1000000) of Some ms \<Rightarrow> ms | None \<Rightarrow> u64_max) 1)
          else None)\<rparr>)"

definition gateway_reserve_status ::
    "('b, 'key, 'up) gateway_state \<Rightarrow> nat \<Rightarrow> nat \<Rightarrow> token_contract \<Rightarrow> reserve_error \<Rightarrow> refusal_status" where
  "gateway_reserve_status g unix_now now tc e =
     reserve_status e
       (if e = Exhausted \<or> e = OnchainLimit
        then (case hm_get (gs_limits g) tc of None \<Rightarrow> CAPACITY_RETRY_DEFAULT | Some l \<Rightarrow> retry_delay (sl_retry l) unix_now now)
        else CAPACITY_RETRY_DEFAULT)"


section \<open>Opening a stream\<close>

definition HEALTH_CHALLENGE_TC :: string where "HEALTH_CHALLENGE_TC = ''seller-readiness''"

text \<open>The nonce, 32 random bytes, is an argument; a readiness probe leaves none behind.\<close>

definition get_challenge ::
    "nonce \<Rightarrow> token_contract \<Rightarrow> bool \<Rightarrow> ('b, 'key, 'up) gateway_state \<Rightarrow> nonce \<times> ('b, 'key, 'up) gateway_state" where
  "get_challenge random tc capabilities_only g =
     (if capabilities_only then ([], g)
      else
        let a = issue_challenge tc random (gs_auth g);
            a' = (if tc = HEALTH_CHALLENGE_TC then snd (discard_challenge tc random a) else a) in
        (random, g\<lparr>gs_auth := a'\<rparr>))"

record stream_request =
  sr_token_contract :: token_contract
  sr_nonce :: nonce
  sr_signature :: string
  sr_billing_grant_tokens :: nat
  sr_shared_budget :: bool
  sr_path :: string
  sr_body :: string
  sr_headers :: "(string \<times> string) list"

datatype 'p stream_refusal =
    ZeroGrant
  | NoPath
  | BadSignatureLength
  | ChallengeFailed
  | ChainIsUnavailable
  | NotOnThisGateway
  | ProviderRefused 'p
  | MockDeliversNothing
  | NotReserved refusal_status

record ('up, 'req, 'p) upstream_ops =
  up_is_mock :: "'up \<Rightarrow> bool"
  up_provider_request :: "'up \<Rightarrow> string \<Rightarrow> string \<Rightarrow> (string \<times> string) list \<Rightarrow> ('req, 'p) result"

text \<open>Admission under the update lock of the deal's counters: a reservation, or a refusal.\<close>

definition admit_stream ::
    "'b capacity_codec \<Rightarrow> io \<Rightarrow> nat \<Rightarrow> nat \<Rightarrow> stream_request \<Rightarrow> nat
     \<Rightarrow> (nat, 'p stream_refusal, ('b, 'key, 'up) gateway_state) run" where
  "admit_stream cd io unix_now now req d = run_get (\<lambda>g.
     let tc = sr_token_contract req; refuse = (\<lambda>e. NotReserved (gateway_reserve_status g unix_now now tc e)) in
     if dd_billing_exhausted (gs_deliveries g ! d) then run_pure (Inl (refuse Exhausted))
     else if sr_shared_budget req
     then in_capacity refuse (admit_shared tc (sr_billing_grant_tokens req) (gs_max_concurrent g))
     else in_capacity refuse (reserve_inner cd io tc (sr_billing_grant_tokens req) True))"

text \<open>The call returns the index of the relay task it spawns.\<close>

definition open_stream ::
    "('key \<Rightarrow> string \<Rightarrow> string \<Rightarrow> bool) \<Rightarrow> ('up, 'req, 'p) upstream_ops \<Rightarrow> 'b capacity_codec \<Rightarrow> io \<Rightarrow> nat \<Rightarrow> nat \<Rightarrow> stream_request
     \<Rightarrow> (nat, 'p stream_refusal, ('b, 'key, 'up) gateway_state) run" where
  "open_stream verify ops cd io unix_now now req =
     (let tc = sr_token_contract req in
      if sr_billing_grant_tokens req = 0 then run_pure (Inl ZeroGrant)
      else if sr_path req = [] then run_pure (Inl NoPath)
      else if length (sr_signature req) \<noteq> 64 then run_pure (Inl BadSignatureLength)
      else run_get (\<lambda>g. case verify_response verify tc (sr_nonce req) (sr_signature req) (gs_auth g) of (ok, a) \<Rightarrow>
        run_then (run_modify (\<lambda>g. g\<lparr>gs_auth := a\<rparr>)) (\<lambda>_.
        if \<not> ok then run_pure (Inl ChallengeFailed)
        else if gs_chain_unavailable g then run_pure (Inl ChainIsUnavailable)
        else case hm_get (gs_limits g) tc of
          None \<Rightarrow> run_pure (Inl NotOnThisGateway)
        | Some l \<Rightarrow>
            let up = gateway_upstream g tc in
            run_then (run_pure (map_err ProviderRefused (up_provider_request ops up (sr_path req) (sr_body req) (sr_headers req)))) (\<lambda>_.
            if up_is_mock ops up \<and> sl_mock_token_count l = 0 then run_pure (Inl MockDeliversNothing)
            else
              run_then (delivery tc) (\<lambda>d.
              run_then (admit_stream cd io unix_now now req d) (\<lambda>q.
              run_get (\<lambda>g'.
              let task = \<lparr>rt_token_contract = tc, rt_request = q, rt_delivery = d,
                          rt_grant = rq_initial (cw_requests (gs_capacity g') ! q)\<rparr> in
              run_then (run_modify (\<lambda>g. g\<lparr>gs_tasks := gs_tasks g @ [task]\<rparr>)) (\<lambda>_.
              run_pure (Inr (length (gs_tasks g')))))))))))"


section \<open>The recorder of a relay\<close>

definition checked_authoritative_tokens :: "nat \<Rightarrow> nat \<Rightarrow> (nat, gateway_error) result" where
  "checked_authoritative_tokens count tokens = ok_or (checked_add u64_max count tokens) HighWaterOverflow"

text \<open>The slots the entry of a reservation still has in use.\<close>

definition request_active :: "nat \<Rightarrow> 'b capacity_world \<Rightarrow> nat" where
  "request_active q c = en_active_shared (cw_heap c ! rq_entry (cw_requests c ! q))"

definition complete_billing ::
    "'b capacity_codec \<Rightarrow> io \<Rightarrow> nat \<Rightarrow> nat \<Rightarrow> nat \<Rightarrow> bool \<Rightarrow> (nat, 'b, 'key, 'up) gateway_run" where
  "complete_billing cd io q d tokens billing_exhausted = run_get (\<lambda>g.
     let before = dd_count (gs_deliveries g ! d) in
     run_then (run_pure (checked_authoritative_tokens before tokens)) (\<lambda>_.
     run_then (in_capacity CapacityFailed (finish_with_delivery cd io q tokens)) (\<lambda>charged.
     run_then (run_modify (\<lambda>g.
       let dd = gs_deliveries g ! d;
           exhausted = (dd_billing_exhausted dd \<or> billing_exhausted \<or> charged < tokens) in
       put_delivery d (dd\<lparr>dd_count := wrapping_add u64_max before charged, dd_billing_exhausted := exhausted,
                          dd_done := (dd_done dd \<or> exhausted \<and> request_active q (gs_capacity g) = 0)\<rparr>) g)) (\<lambda>_.
     run_pure (Inr charged)))))"

definition record_finished ::
    "'b capacity_codec \<Rightarrow> io \<Rightarrow> io \<Rightarrow> nat \<Rightarrow> nat \<Rightarrow> delivery_finish \<Rightarrow> (unit, 'b, 'key, 'up) gateway_run" where
  "record_finished cd io io2 q d fin =
     run_then (in_capacity CapacityFailed
       (case fin of Interrupted \<Rightarrow> finish_exact cd io io2 q | AmbiguousUsage \<Rightarrow> finish_ambiguous cd io q)) (\<lambda>durable.
     run_get (\<lambda>g. let dd = gs_deliveries g ! d in
     run_then (run_pure (if durable > 0 then checked_authoritative_tokens (dd_count dd) durable else Inr (dd_count dd))) (\<lambda>next.
     run_modify (\<lambda>g. put_delivery d
       (dd\<lparr>dd_count := next, dd_done := (dd_done dd \<or> dd_billing_exhausted dd \<and> request_active q (gs_capacity g) = 0)\<rparr>) g))))"

definition capacity_recorder ::
    "'b capacity_codec \<Rightarrow> io \<Rightarrow> io \<Rightarrow> io \<Rightarrow> bool \<Rightarrow> nat \<Rightarrow> nat \<Rightarrow> (gateway_error, ('b, 'key, 'up) gateway_state) recorder" where
  "capacity_recorder cd io io2 io3 shared q d =
     \<lparr>rc_shared_budget = shared, rc_complete_billing = complete_billing cd io q d, rc_finished = record_finished cd io2 io3 q d\<rparr>"

text \<open>The task of a relay: the relay with the recorder of its reservation, which is dropped at the end.\<close>

definition close_task :: "nat \<Rightarrow> ('b, 'key, 'up) gateway_state \<Rightarrow> ('b, 'key, 'up) gateway_state" where
  "close_task q g = g\<lparr>gs_capacity := drop_request q (gs_capacity g)\<rparr>"

definition relay_task_run ::
    "'b capacity_codec \<Rightarrow> io \<Rightarrow> io \<Rightarrow> io \<Rightarrow> relay_task \<Rightarrow> bool \<Rightarrow> 'u relay_input list \<Rightarrow> ('b, 'key, 'up) gateway_state
     \<Rightarrow> ('u, gateway_error) relay_output list \<times> ('b, 'key, 'up) gateway_state" where
  "relay_task_run cd io io2 io3 t buyer is g =
     (let q = rt_request t; shared = rq_shared (cw_requests (gs_capacity g) ! q) in
      case relay_counting (capacity_recorder cd io io2 io3 shared q (rt_delivery t)) (rt_grant t) buyer is g of
        (out, g') \<Rightarrow> (out, close_task q g'))"

end
