(* ===== verification/CapacityProps.thy ===== *)
theory CapacityProps
  imports Capacity
begin

text \<open>
  What the seller's capacity ledger guarantees, over every sequence of its operations, with
  arbitrary failures of the store and with restarts.
\<close>

section \<open>The ledger as a transition system\<close>

datatype capacity_event =
    Reconcile token_contract deal_chain_state deal_subscription bool io
  | PrepareProbe token_contract nat io
  | AdmitShared token_contract nat nat
  | Reserve token_contract nat bool io
  | MarkTerminal token_contract io
  | RecordDelivered nat nat io
  | FinishWith nat nat io
  | FinishExact nat io io
  | FinishAmbiguous nat io
  | DropRequest nat
  | Restart

definition usable :: "'b capacity_world \<Rightarrow> nat \<Rightarrow> bool" where
  "usable w q \<longleftrightarrow> q < length (cw_requests w) \<and> \<not> rq_dropped (cw_requests w ! q)"

text \<open>The tokens a call reports as durable; none when it fails.\<close>

definition reported :: "(nat, 'e) result \<times> 'w \<Rightarrow> nat \<times> 'w" where
  "reported p = (case p of (Inl _, w) \<Rightarrow> (0, w) | (Inr n, w) \<Rightarrow> (n, w))"

text \<open>One event: the tokens it reports as durable and the world it leaves.  A restart keeps the files.\<close>

fun capacity_step ::
    "'b capacity_codec \<Rightarrow> capacity_event \<Rightarrow> 'b capacity_world \<Rightarrow> nat \<times> 'b capacity_world" where
  "capacity_step cd (Reconcile tc state deal readable io) w = (0, snd (reconcile_deal cd readable io tc state deal w))"
| "capacity_step cd (PrepareProbe tc n io) w = (0, snd (prepare_probe cd io tc n w))"
| "capacity_step cd (AdmitShared tc n limit) w = (0, snd (admit_shared tc n limit w))"
| "capacity_step cd (Reserve tc n exclusive io) w = (0, snd (reserve_inner cd io tc n exclusive w))"
| "capacity_step cd (MarkTerminal tc io) w = (0, snd (mark_terminal io tc w))"
| "capacity_step cd (RecordDelivered q n io) w =
     (if usable w q then reported (record_delivered cd io q n w) else (0, w))"
| "capacity_step cd (FinishWith q n io) w =
     (if usable w q then reported (finish_with_delivery cd io q n w) else (0, w))"
| "capacity_step cd (FinishExact q io io2) w =
     (if usable w q then reported (finish_exact cd io io2 q w) else (0, w))"
| "capacity_step cd (FinishAmbiguous q io) w =
     (if usable w q then reported (finish_ambiguous cd io q w) else (0, w))"
| "capacity_step cd (DropRequest q) w = (0, if usable w q then drop_request q w else w)"
| "capacity_step cd Restart w = (0, w\<lparr>cw_entries := [], cw_heap := [], cw_requests := []\<rparr>)"

definition capacity_run :: "'b capacity_codec \<Rightarrow> capacity_event list \<Rightarrow> 'b capacity_world \<Rightarrow> 'b capacity_world" where
  "capacity_run cd es w = foldl (\<lambda>w e. snd (capacity_step cd e w)) w es"

definition manager_new :: "string option \<Rightarrow> 'b files \<Rightarrow> 'b capacity_world" where
  "manager_new dir fs = \<lparr>cw_store_dir = dir, cw_entries = [], cw_heap = [], cw_requests = [], cw_files = fs\<rparr>"


section \<open>The invariant\<close>

definition record_ok :: "capacity_record \<Rightarrow> bool" where
  "record_ok r \<longleftrightarrow>
     cr_tokens_pending_anchor r + cr_local_delivered r + cr_outstanding r \<le> cr_authoritative_cap r
     \<and> cr_authoritative_cap r \<le> cr_funded_tokens r"

definition entry_ok :: "capacity_entry \<Rightarrow> bool" where
  "entry_ok e \<longleftrightarrow> record_ok (en_record e) \<and> en_unpersisted e \<le> cr_outstanding (en_record e)"

definition live_shared :: "nat \<Rightarrow> request_reservation \<Rightarrow> bool" where
  "live_shared i r \<longleftrightarrow> rq_entry r = i \<and> rq_shared r \<and> \<not> rq_finished r \<and> \<not> rq_dropped r"

definition shared_count :: "request_reservation list \<Rightarrow> nat \<Rightarrow> nat" where
  "shared_count rs i = length (filter (live_shared i) rs)"

definition capacity_inv :: "'b capacity_world \<Rightarrow> bool" where
  "capacity_inv w \<longleftrightarrow>
     (\<forall>e\<in>set (cw_heap w). entry_ok e)
     \<and> (\<forall>tc i. hm_get (cw_entries w) tc = Some i \<longrightarrow>
          i < length (cw_heap w) \<and> \<not> en_terminal (cw_heap w ! i)
          \<and> cr_token_contract (en_record (cw_heap w ! i)) = tc
          \<and> en_path (cw_heap w ! i) = map_option (\<lambda>d. capacity_path d tc) (cw_store_dir w))
     \<and> (\<forall>r\<in>set (cw_requests w). rq_entry r < length (cw_heap w) \<and> rq_remaining r \<le> rq_initial r)
     \<and> (\<forall>i<length (cw_heap w). en_active_shared (cw_heap w ! i) = shared_count (cw_requests w) i
          \<and> en_active_shared (cw_heap w ! i) \<le> u32_max)"

lemma capacity_inv_new: "capacity_inv (manager_new dir fs)"
  by (simp add: capacity_inv_def manager_new_def hm_get_def)

lemma capacity_inv_files [simp]: "capacity_inv (w\<lparr>cw_files := fs\<rparr>) = capacity_inv w"
  by (simp add: capacity_inv_def)

lemma validate_record_ok: "validate_record r = Inr () \<Longrightarrow> record_ok r"
  by (auto simp: validate_record_def record_ok_def committed_def snapshot_of_record_def result_simps checked_simps
      bind_eq_Some_conv split: if_splits option.splits)

lemma inv_entry: "capacity_inv w \<Longrightarrow> i < length (cw_heap w) \<Longrightarrow> entry_ok (cw_heap w ! i)"
  by (simp add: capacity_inv_def)

lemma inv_lookup:
  "capacity_inv w \<Longrightarrow> hm_get (cw_entries w) tc = Some i \<Longrightarrow>
     i < length (cw_heap w) \<and> \<not> en_terminal (cw_heap w ! i) \<and> cr_token_contract (en_record (cw_heap w ! i)) = tc
     \<and> en_path (cw_heap w ! i) = map_option (\<lambda>d. capacity_path d tc) (cw_store_dir w)"
  by (simp add: capacity_inv_def)

lemma inv_active:
  "capacity_inv w \<Longrightarrow> i < length (cw_heap w) \<Longrightarrow> en_active_shared (cw_heap w ! i) \<le> u32_max"
  unfolding capacity_inv_def by blast

lemma inv_request:
  "capacity_inv w \<Longrightarrow> q < length (cw_requests w) \<Longrightarrow>
     rq_entry (cw_requests w ! q) < length (cw_heap w) \<and> rq_remaining (cw_requests w ! q) \<le> rq_initial (cw_requests w ! q)"
  by (simp add: capacity_inv_def)

text \<open>An entry may change its record, its split and its probe flag.\<close>

lemma put_entry_inv:
  assumes "capacity_inv w" and "i < length (cw_heap w)" and "entry_ok e'"
    and "en_terminal e' = en_terminal (cw_heap w ! i)" and "en_path e' = en_path (cw_heap w ! i)"
    and "en_active_shared e' = en_active_shared (cw_heap w ! i)"
    and "cr_token_contract (en_record e') = cr_token_contract (en_record (cw_heap w ! i))"
  shows "capacity_inv (put_entry i e' w)"
  using assms
  by (auto simp: capacity_inv_def put_entry_def nth_list_update dest!: set_update_subset_insert [THEN subsetD])

lemma shared_count_update:
  assumes "q < length rs"
  shows "shared_count (rs[q := r]) i + (if live_shared i (rs ! q) then 1 else 0) =
         shared_count rs i + (if live_shared i r then 1 else 0)"
proof -
  have "shared_count rs i = length (filter (live_shared i) (take q rs @ rs ! q # drop (Suc q) rs))"
    using assms by (simp add: shared_count_def flip: id_take_nth_drop)
  moreover have "shared_count (rs[q := r]) i = length (filter (live_shared i) (take q rs @ r # drop (Suc q) rs))"
    using assms by (simp add: shared_count_def upd_conv_take_nth_drop)
  ultimately show ?thesis by simp
qed

text \<open>A request may change as long as it stays what it counts for.\<close>

lemma put_request_inv:
  assumes "capacity_inv w" and "q < length (cw_requests w)"
    and "rq_entry r' = rq_entry (cw_requests w ! q)" and "rq_remaining r' \<le> rq_initial r'"
    and "\<And>i. live_shared i r' = live_shared i (cw_requests w ! q)"
  shows "capacity_inv (put_request q r' w)"
proof -
  have "shared_count ((cw_requests w)[q := r']) i = shared_count (cw_requests w) i" for i
    using shared_count_update [OF assms(2), of r' i] assms(5) by auto
  then show ?thesis
    using assms(1-4)
    by (auto simp: capacity_inv_def put_request_def dest!: set_update_subset_insert [THEN subsetD])
qed

text \<open>A shared request that ends gives its slot back.\<close>

lemma release_slot_inv:
  assumes "capacity_inv w" and "q < length (cw_requests w)" and "live_shared i (cw_requests w ! q)"
    and "rq_entry r' = i" and "rq_remaining r' \<le> rq_initial r'" and "\<not> live_shared i r'"
    and "e' = (cw_heap w ! i)\<lparr>en_active_shared := en_active_shared (cw_heap w ! i) - 1\<rparr>"
  shows "capacity_inv (put_request q r' (put_entry i e' w))" and "0 < en_active_shared (cw_heap w ! i)"
proof -
  have i: "i < length (cw_heap w)"
    using inv_request [OF assms(1,2)] assms(3) by (simp add: live_shared_def)
  have count: "shared_count ((cw_requests w)[q := r']) j + (if j = i then 1 else 0) = shared_count (cw_requests w) j" for j
    using shared_count_update [OF assms(2), of r' j] assms(3,4,6) by (auto simp: live_shared_def split: if_splits)
  have active: "en_active_shared (cw_heap w ! j) = shared_count (cw_requests w) j" "en_active_shared (cw_heap w ! j) \<le> u32_max"
    if "j < length (cw_heap w)" for j
    using assms(1) that unfolding capacity_inv_def by blast+
  show "0 < en_active_shared (cw_heap w ! i)" using count [of i] active(1) [OF i] by simp
  have e: "entry_ok e'" using inv_entry [OF assms(1) i] assms(7) by (simp add: entry_ok_def)
  have slots: "en_active_shared (((cw_heap w)[i := e']) ! j) = shared_count ((cw_requests w)[q := r']) j
      \<and> en_active_shared (((cw_heap w)[i := e']) ! j) \<le> u32_max" if "j < length (cw_heap w)" for j
    using that count [of j] active [of j] i assms(7) by (auto simp: nth_list_update)
  show "capacity_inv (put_request q r' (put_entry i e' w))"
    unfolding capacity_inv_def put_request_def put_entry_def
  proof (intro conjI, goal_cases)
    case 1
    then show ?case using assms(1) e by (auto simp: capacity_inv_def dest!: set_update_subset_insert [THEN subsetD])
  next
    case 2
    then show ?case using assms(1,7) i by (auto simp: capacity_inv_def nth_list_update)
  next
    case 3
    then show ?case
      using assms(1,4,5) i by (auto simp: capacity_inv_def dest!: set_update_subset_insert [THEN subsetD])
  next
    case 4
    show ?case by simp (use slots in blast)
  qed
qed


section \<open>Every operation keeps it\<close>

text \<open>Weakest preconditions branch on results, so simplification goes under the branches.\<close>

declare sum.case_cong [cong]

lemma wp_in_files: "(\<And>r fs. q r (w\<lparr>cw_files := fs\<rparr>)) \<Longrightarrow> wp (in_files m) q w"
  by (auto simp: wp_def in_files_def split: prod.splits)

lemma wp_commit_record:
  assumes "\<And>e fs. q (Inl e) (w\<lparr>cw_files := fs\<rparr>)"
    and "\<And>fs. q (Inr ()) (put_entry i ((cw_heap w ! i)\<lparr>en_record := candidate\<rparr>) (w\<lparr>cw_files := fs\<rparr>))"
  shows "wp (commit_record cd io i candidate) q w"
  unfolding commit_record_def Let_def wp_simps
  by (rule wp_in_files) (use assms in \<open>auto simp: wp_simps split: sum.splits\<close>)

lemma wp_commit_valid:
  assumes "\<And>e fs. q (Inl e) (w\<lparr>cw_files := fs\<rparr>)"
    and "\<And>fs. validate_record candidate = Inr () \<Longrightarrow>
      q (Inr ()) (put_entry i ((cw_heap w ! i)\<lparr>en_record := candidate\<rparr>) (w\<lparr>cw_files := fs\<rparr>))"
  shows "wp (commit_valid cd io i candidate) q w"
proof (cases "validate_record candidate")
  case (Inl e)
  then show ?thesis using assms(1) [of e "cw_files w"] by (simp add: commit_valid_def wp_simps)
next
  case (Inr u)
  then show ?thesis using assms by (auto simp: commit_valid_def wp_simps intro: wp_commit_record)
qed

text \<open>What a write to entry \<open>i\<close> leaves alone.\<close>

definition only_entry :: "nat \<Rightarrow> 'b capacity_world \<Rightarrow> 'b capacity_world \<Rightarrow> bool" where
  "only_entry i w w' \<longleftrightarrow>
     cw_store_dir w' = cw_store_dir w \<and> cw_entries w' = cw_entries w \<and> cw_requests w' = cw_requests w
     \<and> length (cw_heap w') = length (cw_heap w)
     \<and> (\<forall>j<length (cw_heap w). j \<noteq> i \<longrightarrow> cw_heap w' ! j = cw_heap w ! j)
     \<and> (i < length (cw_heap w) \<longrightarrow> en_active_shared (cw_heap w' ! i) = en_active_shared (cw_heap w ! i)
          \<and> en_terminal (cw_heap w' ! i) = en_terminal (cw_heap w ! i) \<and> en_path (cw_heap w' ! i) = en_path (cw_heap w ! i))"

lemma only_entry_put [simp]:
  "only_entry i w (put_entry i e (w\<lparr>cw_files := fs\<rparr>)) \<longleftrightarrow>
     (i < length (cw_heap w) \<longrightarrow> en_active_shared e = en_active_shared (cw_heap w ! i)
        \<and> en_terminal e = en_terminal (cw_heap w ! i) \<and> en_path e = en_path (cw_heap w ! i))"
  by (auto simp: only_entry_def put_entry_def)

lemma only_entry_files [simp]: "only_entry i w (w\<lparr>cw_files := fs\<rparr>)"
  by (simp add: only_entry_def)

lemma commit_valid_keeps:
  assumes "capacity_inv w" and "i < length (cw_heap w)"
    and "cr_token_contract candidate = cr_token_contract (en_record (cw_heap w ! i))"
    and "en_unpersisted (cw_heap w ! i) \<le> cr_outstanding candidate"
  shows "wp (commit_valid cd io i candidate)
     (\<lambda>r w'. capacity_inv w' \<and> only_entry i w w' \<and>
        cw_heap w' ! i = (case r of Inl _ \<Rightarrow> cw_heap w ! i | Inr _ \<Rightarrow> (cw_heap w ! i)\<lparr>en_record := candidate\<rparr>)) w"
proof (rule wp_commit_valid, goal_cases)
  case (1 e fs)
  then show ?case using assms by simp
next
  case (2 fs)
  then have "capacity_inv (put_entry i ((cw_heap w ! i)\<lparr>en_record := candidate\<rparr>) (w\<lparr>cw_files := fs\<rparr>))"
    using assms validate_record_ok by (intro put_entry_inv) (simp_all add: entry_ok_def)
  then show ?case using assms(2) by (simp add: put_entry_def only_entry_def)
qed

text \<open>A flush moves the coalesced split from reserved to delivered, all of it or nothing.\<close>

lemma flush_keeps:
  assumes "capacity_inv w" and "i < length (cw_heap w)"
  shows "wp (flush_delivered cd io i) (\<lambda>r w'. capacity_inv w' \<and> only_entry i w w'
     \<and> (is_ok r \<longrightarrow> en_unpersisted (cw_heap w' ! i) = 0
          \<and> cr_outstanding (en_record (cw_heap w' ! i)) + en_unpersisted (cw_heap w ! i)
              = cr_outstanding (en_record (cw_heap w ! i)))) w"
proof -
  let ?e = "cw_heap w ! i"
  let ?r = "en_record ?e"
  have ok: "en_unpersisted ?e \<le> cr_outstanding ?r" using inv_entry [OF assms] by (simp add: entry_ok_def)
  show ?thesis
  proof (cases "en_unpersisted ?e = 0 \<or> checked_add u128_max (cr_local_delivered ?r) (en_unpersisted ?e) = None")
    case True
    then show ?thesis
      using assms ok by (auto simp: flush_delivered_def wp_simps Let_def checked_sub_def only_entry_def)
  next
    case False
    then obtain loc where loc: "checked_add u128_max (cr_local_delivered ?r) (en_unpersisted ?e) = Some loc" by auto
    let ?c = "?r\<lparr>cr_outstanding := cr_outstanding ?r - en_unpersisted ?e, cr_local_delivered := loc\<rparr>"
    have inv: "capacity_inv (put_entry i (?e\<lparr>en_record := ?c, en_unpersisted := 0\<rparr>) (w\<lparr>cw_files := fs\<rparr>))"
      if "validate_record ?c = Inr ()" for fs
      using assms that validate_record_ok by (intro put_entry_inv) (simp_all add: entry_ok_def)
    show ?thesis
      unfolding flush_delivered_def Let_def wp_simps using False loc ok
      apply (simp add: checked_sub_def wp_simps)
      apply (rule wp_commit_valid)
       apply (use assms inv in \<open>simp_all add: only_entry_def put_entry_def\<close>)
      done
  qed
qed


text \<open>The calls on a request.\<close>

lemma finished_request_fields [simp]:
  "rq_entry (finished_request r) = rq_entry r" "rq_shared (finished_request r) = rq_shared r"
  "rq_finished (finished_request r)" "rq_remaining (finished_request r) = 0" "\<not> live_shared i (finished_request r)"
  by (simp_all add: finished_request_def live_shared_def)

lemma finish_shared_keeps:
  assumes inv: "capacity_inv w" and u: "usable w q" and sh: "rq_shared (cw_requests w ! q)"
  shows "wp (finish_shared cd io q tokens ambiguous) (\<lambda>_. capacity_inv) w"
proof -
  let ?r = "cw_requests w ! q"
  let ?i = "rq_entry ?r"
  let ?e = "cw_heap w ! ?i"
  have q: "q < length (cw_requests w)" using u by (simp add: usable_def)
  have i: "?i < length (cw_heap w)" using inv_request [OF inv q] by simp
  have un: "en_unpersisted ?e \<le> cr_outstanding (en_record ?e)" using inv_entry [OF inv i] by (simp add: entry_ok_def)
  have "wp (commit_valid cd io ?i ((en_record ?e)\<lparr>cr_local_delivered := loc\<rparr>))
     (\<lambda>r w'. case r of Inl e \<Rightarrow> capacity_inv w'
        | Inr _ \<Rightarrow> wp (run_then (run_pure (ok_or (checked_sub (en_active_shared ?e) 1) (RequestError SharedUnderflow))) (\<lambda>active.
            run_then (run_modify (\<lambda>w. put_request q (finished_request ?r)
                   (put_entry ?i ((cw_heap w ! ?i)\<lparr>en_active_shared := active\<rparr>) w))) (\<lambda>_.
            run_pure (Inr n)))) (\<lambda>_. capacity_inv) w') w"
    if nf: "\<not> rq_finished ?r" for loc n
    using commit_valid_keeps [OF inv i, of "(en_record ?e)\<lparr>cr_local_delivered := loc\<rparr>" cd io]
  proof (rule wp_mono, goal_cases)
    case (3 r w')
    show ?case
    proof (cases r)
      case (Inr x)
      with 3 have w': "capacity_inv w'" "only_entry ?i w w'" "en_active_shared (cw_heap w' ! ?i) = en_active_shared ?e"
        by (simp_all)
      have live: "live_shared ?i (cw_requests w' ! q)" "q < length (cw_requests w')" "cw_requests w' = cw_requests w"
        using w'(2) nf u sh by (simp_all add: only_entry_def live_shared_def usable_def)
      show ?thesis
        using release_slot_inv [OF w'(1) live(2,1), of "finished_request ?r"] live(3) Inr w'(3)
        by (simp add: wp_simps checked_sub_def)
    qed (use 3 in simp)
  qed (use un in simp_all)
  then show ?thesis
    unfolding finish_shared_def Let_def wp_simps
    using inv by (auto simp: wp_simps ok_or_def split: sum.splits option.splits)
qed


lemma put_request_after:
  assumes "capacity_inv w'" and "only_entry i w w'" and "q < length (cw_requests w)"
    and "rq_entry r' = rq_entry (cw_requests w ! q)" and "rq_remaining r' \<le> rq_initial r'"
    and "\<not> rq_shared (cw_requests w ! q) \<and> \<not> rq_shared r'
         \<or> rq_finished r' = rq_finished (cw_requests w ! q) \<and> rq_dropped r' = rq_dropped (cw_requests w ! q)
           \<and> rq_shared r' = rq_shared (cw_requests w ! q)"
  shows "capacity_inv (put_request q r' w')"
  using assms by (intro put_request_inv) (auto simp: only_entry_def live_shared_def)

lemma finish_with_keeps:
  assumes inv: "capacity_inv w" and u: "usable w q"
  shows "wp (finish_with_delivery cd io q tokens) (\<lambda>_. capacity_inv) w"
proof -
  let ?r = "cw_requests w ! q"
  let ?i = "rq_entry ?r"
  let ?e = "cw_heap w ! ?i"
  have q: "q < length (cw_requests w)" using u by (simp add: usable_def)
  have i: "?i < length (cw_heap w)" using inv_request [OF inv q] by simp
  have "wp (commit_valid cd io ?i ((en_record ?e)\<lparr>cr_outstanding := out, cr_local_delivered := loc\<rparr>))
     (\<lambda>r w'. case r of Inl e \<Rightarrow> capacity_inv w'
        | Inr _ \<Rightarrow> capacity_inv (put_request q (finished_request ?r) w')) w"
    if ns: "\<not> rq_shared ?r" and un: "en_unpersisted ?e = 0" for out loc
    using commit_valid_keeps [OF inv i]
    by (rule wp_mono) (use un ns q in \<open>auto intro!: put_request_after split: sum.splits\<close>)
  then show ?thesis
    unfolding finish_with_delivery_def Let_def wp_simps
    using inv finish_shared_keeps [OF inv u]
    by (auto simp: wp_simps ok_or_def split: option.splits)
qed

lemma record_keeps:
  assumes inv: "capacity_inv w" and u: "usable w q"
  shows "wp (record_delivered cd io q tokens) (\<lambda>_. capacity_inv) w"
proof -
  let ?r = "cw_requests w ! q"
  let ?i = "rq_entry ?r"
  let ?e = "cw_heap w ! ?i"
  have q: "q < length (cw_requests w)" using u by (simp add: usable_def)
  have i: "?i < length (cw_heap w)" and rem: "rq_remaining ?r \<le> rq_initial ?r" using inv_request [OF inv q] by simp_all
  have ok: "record_ok (en_record ?e)" using inv_entry [OF inv i] by (simp add: entry_ok_def)
  have split: "capacity_inv (put_entry ?i (?e\<lparr>en_unpersisted := n\<rparr>) w)" if "n \<le> cr_outstanding (en_record ?e)" for n
    using inv i ok that by (intro put_entry_inv) (simp_all add: entry_ok_def)
  have done_: "capacity_inv (put_request q (?r\<lparr>rq_remaining := rq_remaining ?r - tokens\<rparr>) w')"
    if "capacity_inv w'" "only_entry ?i (put_entry ?i (?e\<lparr>en_unpersisted := n\<rparr>) w) w'" for w' n
    using that q rem by (intro put_request_after [OF that]) (auto simp: put_entry_def)
  have "wp (flush_delivered cd io ?i)
     (\<lambda>r w'. case r of Inl e \<Rightarrow> capacity_inv w'
        | Inr _ \<Rightarrow> capacity_inv (put_request q (?r\<lparr>rq_remaining := rq_remaining ?r - tokens\<rparr>) w'))
     (put_entry ?i (?e\<lparr>en_unpersisted := n\<rparr>) w)" if "n \<le> cr_outstanding (en_record ?e)" for n
  proof -
    have "?i < length (cw_heap (put_entry ?i (?e\<lparr>en_unpersisted := n\<rparr>) w))" using i by (simp add: put_entry_def)
    from flush_keeps [OF split [OF that] this] show ?thesis
      by (rule wp_mono) (auto intro: done_ split: sum.splits)
  qed
  moreover have "capacity_inv (put_request q (?r\<lparr>rq_remaining := rq_remaining ?r - tokens\<rparr>)
      (put_entry ?i (?e\<lparr>en_unpersisted := n\<rparr>) w))" if "n \<le> cr_outstanding (en_record ?e)" for n
    using done_ [OF split [OF that], of n] by (simp add: only_entry_def)
  ultimately show ?thesis
    unfolding record_delivered_def Let_def wp_simps
    using inv by (auto simp: wp_simps ok_or_def not_less split: option.splits)
qed

lemma exact_keeps:
  assumes inv: "capacity_inv w" and u: "usable w q"
  shows "wp (finish_exact cd io io2 q) (\<lambda>_. capacity_inv) w"
proof -
  let ?r = "cw_requests w ! q"
  let ?i = "rq_entry ?r"
  have q: "q < length (cw_requests w)" using u by (simp add: usable_def)
  have i: "?i < length (cw_heap w)" using inv_request [OF inv q] by simp
  have release: "wp (commit_valid cd io2 ?i ((en_record (cw_heap w' ! ?i))\<lparr>cr_outstanding := out\<rparr>))
     (\<lambda>r w''. case r of Inl e \<Rightarrow> capacity_inv w'' | Inr _ \<Rightarrow> capacity_inv (put_request q (finished_request ?r) w'')) w'"
    if w': "capacity_inv w'" "only_entry ?i w w'" "en_unpersisted (cw_heap w' ! ?i) = 0" and ns: "\<not> rq_shared ?r" for w' out
  proof -
    have i': "?i < length (cw_heap w')" "q < length (cw_requests w')" "cw_requests w' = cw_requests w"
      using w'(2) i q by (simp_all add: only_entry_def)
    show ?thesis
      using commit_valid_keeps [OF w'(1) i'(1)]
      by (rule wp_mono) (use w' ns i' in \<open>auto intro!: put_request_after split: sum.splits\<close>)
  qed
  have "capacity_inv (put_request q (finished_request ?r) w)" if "\<not> rq_shared ?r"
    using put_request_after [OF inv, of ?i w q] that q by (auto simp: only_entry_def)
  moreover have "wp (flush_delivered cd io ?i)
     (\<lambda>r w'. case r of Inl e \<Rightarrow> capacity_inv w'
        | Inr durable \<Rightarrow> wp (run_get (\<lambda>w'. let c0 = en_record (cw_heap w' ! ?i) in
            run_then (run_pure (ok_or (checked_sub (cr_outstanding c0) (rq_remaining ?r))
                                  (RequestError ReservationUnderflow))) (\<lambda>out.
            run_then (commit_valid cd io2 ?i (c0\<lparr>cr_outstanding := out\<rparr>)) (\<lambda>_.
            run_then (run_modify (put_request q (finished_request ?r))) (\<lambda>_.
            run_pure (Inr durable)))))) (\<lambda>_. capacity_inv) w') w" if ns: "\<not> rq_shared ?r"
    using flush_keeps [OF inv i]
    by (rule wp_mono) (use release ns in \<open>auto simp: wp_simps Let_def ok_or_def split: sum.splits option.splits\<close>)
  ultimately show ?thesis
    unfolding finish_exact_def Let_def wp_simps
    using inv finish_shared_keeps [OF inv u] by (auto simp: wp_simps)
qed

lemma ambiguous_keeps:
  assumes inv: "capacity_inv w" and u: "usable w q"
  shows "wp (finish_ambiguous cd io q) (\<lambda>_. capacity_inv) w"
proof -
  let ?r = "cw_requests w ! q"
  let ?i = "rq_entry ?r"
  have q: "q < length (cw_requests w)" using u by (simp add: usable_def)
  have i: "?i < length (cw_heap w)" using inv_request [OF inv q] by simp
  have fin: "capacity_inv (put_request q (finished_request ?r) w')"
    if "capacity_inv w'" "only_entry ?i w w'" "\<not> rq_shared ?r" for w'
    using put_request_after [OF that(1,2) q] that(3) by auto
  have "wp (flush_delivered cd io ?i)
     (\<lambda>r w'. case r of Inl e \<Rightarrow> capacity_inv w' | Inr _ \<Rightarrow> capacity_inv (put_request q (finished_request ?r) w')) w"
    if "\<not> rq_shared ?r"
    using flush_keeps [OF inv i] by (rule wp_mono) (use that fin in \<open>auto split: sum.splits\<close>)
  then show ?thesis
    unfolding finish_ambiguous_def Let_def wp_simps
    using inv fin [OF inv] finish_shared_keeps [OF inv u] by (auto simp: wp_simps only_entry_def)
qed

lemma put_commute: "put_entry i e (put_request q r w) = put_request q r (put_entry i e w)"
  by (cases w) (simp add: put_entry_def put_request_def)

lemma drop_keeps:
  assumes inv: "capacity_inv w" and u: "usable w q"
  shows "capacity_inv (drop_request q w)"
proof -
  let ?r = "cw_requests w ! q"
  let ?i = "rq_entry ?r"
  let ?d = "?r\<lparr>rq_dropped := True\<rparr>"
  have q: "q < length (cw_requests w)" using u by (simp add: usable_def)
  have rem: "rq_remaining ?d \<le> rq_initial ?d" using inv_request [OF inv q] by simp
  show ?thesis
  proof (cases "rq_shared ?r \<and> \<not> rq_finished ?r")
    case True
    then have "live_shared ?i ?r" "\<not> live_shared ?i ?d" using u by (auto simp: live_shared_def usable_def)
    from release_slot_inv(1) [OF inv q this(1) _ rem this(2) refl] show ?thesis
      using True by (simp add: drop_request_def Let_def put_commute)
  next
    case False
    then have "capacity_inv (put_request q ?d w)"
      using rem by (intro put_request_inv [OF inv q]) (auto simp: live_shared_def)
    then show ?thesis using False by (auto simp: drop_request_def Let_def)
  qed
qed


text \<open>The calls on the manager.\<close>

lemma mark_terminal_keeps:
  assumes inv: "capacity_inv w"
  shows "wp (mark_terminal io tc) (\<lambda>_. capacity_inv) w"
proof (cases "hm_get (cw_entries w) tc")
  case None
  then show ?thesis
    using inv by (auto simp: mark_terminal_def wp_simps intro!: wp_in_files split: option.splits)
next
  case (Some i)
  let ?e = "cw_heap w ! i"
  let ?w = "put_entry i (?e\<lparr>en_terminal := True\<rparr>) (w\<lparr>cw_entries := hm_remove tc (cw_entries w)\<rparr>)"
  note i = inv_lookup [OF inv Some]
  have other: "j \<noteq> i" if "hm_get (cw_entries w) tc' = Some j" "tc' \<noteq> tc" for tc' j
    using inv_lookup [OF inv that(1)] i that(2) by auto
  have "capacity_inv ?w"
    unfolding capacity_inv_def
  proof (intro conjI, goal_cases)
    case 1
    then show ?case
      using inv inv_entry [OF inv] i
      by (auto simp: capacity_inv_def put_entry_def entry_ok_def dest!: set_update_subset_insert [THEN subsetD])
  next
    case 2
    have "j < length (cw_heap ?w) \<and> \<not> en_terminal (cw_heap ?w ! j) \<and> cr_token_contract (en_record (cw_heap ?w ! j)) = tc'
        \<and> en_path (cw_heap ?w ! j) = map_option (\<lambda>d. capacity_path d tc') (cw_store_dir ?w)"
      if "hm_get (cw_entries ?w) tc' = Some j" for tc' j
    proof -
      have g: "hm_get (cw_entries w) tc' = Some j" "tc' \<noteq> tc"
        using that by (auto simp: put_entry_def hm_get_remove split: if_splits)
      show ?thesis using inv_lookup [OF inv g(1)] other [OF g] by (simp add: put_entry_def)
    qed
    then show ?case by blast
  next
    case 3
    then show ?case using inv by (auto simp: capacity_inv_def put_entry_def)
  next
    case 4
    show ?case using inv i by (auto simp: capacity_inv_def put_entry_def nth_list_update)
  qed
  then show ?thesis
    using Some by (auto simp: mark_terminal_def wp_simps Let_def intro!: wp_in_files split: option.splits)
qed

lemma stored_or_fresh_ok:
  assumes "stored_or_fresh cd readable path fs tc fresh = Inr r" and "record_ok fresh" and "cr_token_contract fresh = tc"
  shows "record_ok r \<and> cr_token_contract r = tc"
  using assms validate_record_ok
  by (auto simp: stored_or_fresh_def result_simps split: option.splits if_splits)

lemma register_keeps:
  assumes inv: "capacity_inv w" and fresh: "record_ok (fresh_record tc state deal cap)"
  shows "wp (register_entry cd readable tc state deal cap)
     (\<lambda>r w'. capacity_inv w' \<and> (\<forall>i. r = Inr i \<longrightarrow> hm_get (cw_entries w') tc = Some i)) w"
proof (cases "hm_get (cw_entries w) tc")
  case (Some i)
  then show ?thesis using inv by (simp add: register_entry_def wp_simps)
next
  case None
  let ?path = "map_option (\<lambda>d. capacity_path d tc) (cw_store_dir w)"
  let ?n = "length (cw_heap w)"
  define fr where "fr = stored_or_fresh cd readable ?path (cw_files w) tc (fresh_record tc state deal cap)"
  define new where "new r = \<lparr>en_path = ?path, en_record = r, en_terminal = False,
    en_probe_accepted = dc_probe_accepted state, en_unpersisted = 0, en_active_shared = 0\<rparr>" for r
  have none: "shared_count (cw_requests w) ?n = 0"
    using inv by (auto simp: capacity_inv_def shared_count_def live_shared_def filter_empty_conv)
  have "capacity_inv (w\<lparr>cw_heap := cw_heap w @ [new r], cw_entries := hm_insert tc ?n (cw_entries w)\<rparr>)"
    if r: "fr = Inr r" for r
  proof -
    have "record_ok r" "cr_token_contract r = tc"
      using stored_or_fresh_ok [OF r [unfolded fr_def] fresh] by (simp_all add: fresh_record_def)
    then show ?thesis
      unfolding capacity_inv_def
      using inv none
      by (intro conjI) (auto simp: capacity_inv_def hm_simps nth_append new_def entry_ok_def less_Suc_eq)
  qed
  then show ?thesis
    using None inv
    by (auto simp: register_entry_def wp_simps Let_def hm_simps simp flip: fr_def new_def split: sum.splits)
qed

lemma fresh_record_ok:
  "validate_live_deal_shape state deal = Inr () \<Longrightarrow> authoritative_cap state deal = Inr cap \<Longrightarrow>
   record_ok (fresh_record tc state deal cap)"
  by (auto simp: validate_live_deal_shape_def record_ok_def fresh_record_def authoritative_cap_def result_simps
      split: if_splits)

lemma reconciled_fields:
  "reconciled_record tc state deal cap old = Inr c \<Longrightarrow>
     cr_token_contract c = tc \<and> cr_outstanding c = cr_outstanding old
     \<and> cr_tokens_pending_anchor c + cr_local_delivered c = cr_tokens_pending_anchor old + cr_local_delivered old"
  by (auto simp: reconciled_record_def result_simps checked_simps Let_def split: if_splits)

lemma commit_record_keeps:
  assumes "capacity_inv w" and "i < length (cw_heap w)" and "validate_record candidate = Inr ()"
    and "cr_token_contract candidate = cr_token_contract (en_record (cw_heap w ! i))"
    and "en_unpersisted (cw_heap w ! i) \<le> cr_outstanding candidate"
  shows "wp (commit_record cd io i candidate)
     (\<lambda>r w'. capacity_inv w' \<and> only_entry i w w' \<and>
        cw_heap w' ! i = (case r of Inl _ \<Rightarrow> cw_heap w ! i | Inr _ \<Rightarrow> (cw_heap w ! i)\<lparr>en_record := candidate\<rparr>)) w"
  using commit_valid_keeps [OF assms(1,2,4,5), of cd io] assms(3) by (simp add: commit_valid_def wp_simps)

lemma probe_flag_inv:
  assumes "capacity_inv w" and "i < length (cw_heap w)"
  shows "capacity_inv (put_entry i ((cw_heap w ! i)\<lparr>en_probe_accepted := b\<rparr>) w)"
  using inv_entry [OF assms] assms by (intro put_entry_inv) (simp_all add: entry_ok_def)

lemma refresh_keeps:
  assumes inv: "capacity_inv w" and i: "hm_get (cw_entries w) tc = Some i"
  shows "wp (refresh_entry cd io tc state deal cap i) (\<lambda>_. capacity_inv) w"
proof -
  let ?e = "cw_heap w ! i"
  note l = inv_lookup [OF inv i]
  have "wp (commit_record cd io i c) (\<lambda>r w'. case r of Inl e \<Rightarrow> capacity_inv w'
        | Inr _ \<Rightarrow> capacity_inv (put_entry i ((cw_heap w' ! i)\<lparr>en_probe_accepted := dc_probe_accepted state\<rparr>) w')) w"
    if c: "reconciled_record tc state deal cap (en_record ?e) = Inr c" "validate_record c = Inr ()" for c
  proof -
    have un: "en_unpersisted ?e \<le> cr_outstanding c" and tc: "cr_token_contract c = cr_token_contract (en_record ?e)"
      using reconciled_fields [OF c(1)] inv_entry [OF inv, of i] l by (simp_all add: entry_ok_def)
    have "i < length (cw_heap w)" using l by simp
    from commit_record_keeps [OF inv this c(2) tc un] show ?thesis
    proof (rule wp_mono, goal_cases)
      case (1 r w')
      then have "capacity_inv (put_entry i ((cw_heap w' ! i)\<lparr>en_probe_accepted := dc_probe_accepted state\<rparr>) w')"
        using probe_flag_inv [of w' i] l by (simp add: only_entry_def)
      then show ?case using 1 by (simp split: sum.splits)
    qed
  qed
  note commit = this
  have nt: "\<not> en_terminal ?e" "i < length (cw_heap w)" using l by simp_all
  note same = probe_flag_inv [OF inv nt(2), of "dc_probe_accepted state"]
  show ?thesis
  proof (cases "and_then (reconciled_record tc state deal cap (en_record ?e)) (\<lambda>c. and_then (validate_record c) (\<lambda>_. Inr c))")
    case (Inl e)
    then show ?thesis using inv by (auto simp: refresh_entry_def wp_simps Let_def result_simps)
  next
    case (Inr c)
    then have c: "reconciled_record tc state deal cap (en_record ?e) = Inr c" "validate_record c = Inr ()"
      by (auto simp: result_simps)
    have "wp (if c \<noteq> en_record ?e then commit_record cd io i c else run_pure (Inr ()))
      (\<lambda>r w'. case r of Inl e \<Rightarrow> capacity_inv w'
        | Inr _ \<Rightarrow> capacity_inv (put_entry i ((cw_heap w' ! i)\<lparr>en_probe_accepted := dc_probe_accepted state\<rparr>) w')) w"
      using commit [OF c] same by (simp add: wp_simps)
    then show ?thesis
      unfolding refresh_entry_def Let_def wp_get wp_then wp_pure wp_modify wp_if
      using nt(1) c by (simp only: if_False sum.case)
  qed
qed

lemma reconcile_keeps:
  assumes inv: "capacity_inv w"
  shows "wp (reconcile_deal cd readable io tc state deal) (\<lambda>_. capacity_inv) w"
proof -
  have "wp (register_entry cd readable tc state deal cap)
     (\<lambda>r w'. case r of Inl e \<Rightarrow> capacity_inv w' | Inr i \<Rightarrow> wp (refresh_entry cd io tc state deal cap i) (\<lambda>_. capacity_inv) w') w"
    if "validate_live_deal_shape state deal = Inr ()" "authoritative_cap state deal = Inr cap" for cap
    using register_keeps [OF inv fresh_record_ok [OF that]]
    by (rule wp_mono) (auto intro: refresh_keeps split: sum.splits)
  moreover have "wp (mark_terminal io tc) (\<lambda>r w'. case r of Inl e \<Rightarrow> capacity_inv w' | Inr _ \<Rightarrow> capacity_inv w') w"
    using mark_terminal_keeps [OF inv] by (rule wp_mono) (simp split: sum.splits)
  ultimately show ?thesis
    using inv by (auto simp: reconcile_deal_def wp_simps split: sum.splits)
qed


lemma prepare_keeps:
  assumes inv: "capacity_inv w"
  shows "wp (prepare_probe cd io tc n) (\<lambda>_. capacity_inv) w"
proof (cases "hm_get (cw_entries w) tc")
  case None
  then show ?thesis using inv by (simp add: prepare_probe_def wp_simps)
next
  case (Some i)
  let ?e = "cw_heap w ! i"
  note l = inv_lookup [OF inv Some]
  have "wp (commit_valid cd io i ((en_record ?e)\<lparr>cr_probe_decision := Some n\<rparr>))
     (\<lambda>r w'. case r of Inl e \<Rightarrow> capacity_inv w' | Inr _ \<Rightarrow> capacity_inv w') w"
    by (rule wp_mono [OF commit_valid_keeps [OF inv]])
      (use inv_entry [OF inv, of i] l in \<open>auto simp: entry_ok_def split: sum.splits\<close>)
  then show ?thesis
    using inv Some by (auto simp: prepare_probe_def wp_simps Let_def split: option.splits)
qed

lemma new_request_inv:
  assumes inv: "capacity_inv w" and "i < length (cw_heap w)"
    and "en_active_shared e = en_active_shared (cw_heap w ! i) + (if shared then 1 else 0)"
    and "en_active_shared e \<le> u32_max" and "entry_ok e"
    and "en_terminal e = en_terminal (cw_heap w ! i)" and "en_path e = en_path (cw_heap w ! i)"
    and "cr_token_contract (en_record e) = cr_token_contract (en_record (cw_heap w ! i))"
  shows "capacity_inv ((put_entry i e w)\<lparr>cw_requests := cw_requests w @ [new_request i amount shared]\<rparr>)"
proof -
  have count: "shared_count (cw_requests w @ [new_request i amount shared]) j =
      shared_count (cw_requests w) j + (if shared \<and> j = i then 1 else 0)" for j
    by (simp add: shared_count_def live_shared_def new_request_def)
  have slots: "en_active_shared (((cw_heap w)[i := e]) ! j) = shared_count (cw_requests w @ [new_request i amount shared]) j
      \<and> en_active_shared (((cw_heap w)[i := e]) ! j) \<le> u32_max" if "j < length (cw_heap w)" for j
  proof -
    have "en_active_shared (cw_heap w ! j) = shared_count (cw_requests w) j \<and> en_active_shared (cw_heap w ! j) \<le> u32_max"
      using inv that unfolding capacity_inv_def by blast
    then show ?thesis using that assms(2-4) count [of j] by (cases "j = i") auto
  qed
  show ?thesis
    unfolding capacity_inv_def
  proof (intro conjI, goal_cases)
    case 1
    then show ?case
      using inv assms(5) by (auto simp: capacity_inv_def put_entry_def dest!: set_update_subset_insert [THEN subsetD])
  next
    case 2
    then show ?case using inv assms(2,6-8) by (auto simp: capacity_inv_def put_entry_def nth_list_update)
  next
    case 3
    then show ?case using inv assms(2) by (auto simp: capacity_inv_def put_entry_def new_request_def)
  next
    case 4
    show ?case by (simp add: put_entry_def) (use slots in blast)
  qed
qed

lemma admit_keeps:
  assumes inv: "capacity_inv w" and "limit \<le> u32_max"
  shows "wp (admit_shared tc n limit) (\<lambda>_. capacity_inv) w"
proof (cases "hm_get (cw_entries w) tc")
  case None
  then show ?thesis using inv by (simp add: admit_shared_def wp_simps)
next
  case (Some i)
  let ?e = "cw_heap w ! i"
  note l = inv_lookup [OF inv Some]
  have "capacity_inv ((put_entry i (?e\<lparr>en_active_shared := wrapping_add u32_max (en_active_shared ?e) 1\<rparr>) w)
      \<lparr>cw_requests := cw_requests w @ [new_request i amount True]\<rparr>)" if "en_active_shared ?e < limit" for amount
    using new_request_inv [OF inv, of i "?e\<lparr>en_active_shared := en_active_shared ?e + 1\<rparr>" True amount]
      l inv_entry [OF inv, of i] assms(2) that
    by (simp add: wrapping_add_exact entry_ok_def)
  then show ?thesis
    using inv Some by (auto simp: admit_shared_def wp_simps Let_def map_err_def split: sum.splits)
qed

lemma wp_map_err:
  "wp (\<lambda>w. map_prod (map_err f) id (m w)) q w = wp m (\<lambda>r w'. q (map_err f r) w') w"
  by (simp add: wp_def split: prod.splits)

lemma reserve_keeps:
  assumes inv: "capacity_inv w"
  shows "wp (reserve_inner cd io tc n exclusive) (\<lambda>_. capacity_inv) w"
proof (cases "hm_get (cw_entries w) tc")
  case None
  then show ?thesis using inv by (simp add: reserve_inner_def wp_simps)
next
  case (Some i)
  let ?e = "cw_heap w ! i"
  let ?r = "en_record ?e"
  note l = inv_lookup [OF inv Some]
  have un: "en_unpersisted ?e \<le> cr_outstanding ?r" using inv_entry [OF inv, of i] l by (simp add: entry_ok_def)
  have "wp (commit_valid cd io i (?r\<lparr>cr_outstanding := cr_outstanding ?r + amount\<rparr>))
     (\<lambda>r w'. case map_err InvalidState r of Inl e \<Rightarrow> capacity_inv w'
        | Inr _ \<Rightarrow> capacity_inv ((put_entry i ((cw_heap w' ! i)\<lparr>en_unpersisted := 0\<rparr>) w')
             \<lparr>cw_requests := cw_requests w' @ [new_request i amount False]\<rparr>)) w" for amount
  proof -
    have i: "i < length (cw_heap w)" using l by simp
    have new: "capacity_inv ((put_entry i ((cw_heap w' ! i)\<lparr>en_unpersisted := 0\<rparr>) w')
        \<lparr>cw_requests := cw_requests w' @ [new_request i amount False]\<rparr>)"
      if "capacity_inv w'" "only_entry i w w'" for w'
      using new_request_inv [OF that(1), of i "(cw_heap w' ! i)\<lparr>en_unpersisted := 0\<rparr>" False amount]
        inv_entry [OF that(1), of i] inv_active [OF that(1), of i] that i
      by (simp add: only_entry_def entry_ok_def)
    have "wp (commit_valid cd io i (?r\<lparr>cr_outstanding := cr_outstanding ?r + amount\<rparr>))
        (\<lambda>r w'. capacity_inv w' \<and> only_entry i w w') w"
      by (rule wp_mono [OF commit_valid_keeps [OF inv i]]) (use un in simp, use un in simp, blast)
    then show ?thesis by (rule wp_mono) (use new in \<open>simp add: map_err_def split: sum.splits\<close>)
  qed
  note commit = this
  show ?thesis
  proof (cases "validate_record ?r")
    case (Inl e)
    then show ?thesis
      using inv Some by (simp add: reserve_inner_def wp_get wp_then wp_pure Let_def)
  next
    case v: (Inr u)
    show ?thesis
    proof (cases "available (snapshot_of_record ?r)")
      case (Inl e)
      then show ?thesis
        using inv Some v by (simp add: reserve_inner_def wp_get wp_then wp_pure Let_def)
    next
      case (Inr free)
      then show ?thesis
        using inv Some v commit [of "min free n"]
        by (simp add: reserve_inner_def wp_get wp_then wp_pure wp_modify wp_map_err Let_def checked_add_def)
    qed
  qed
qed


section \<open>Nothing is sold twice\<close>

definition event_typed :: "capacity_event \<Rightarrow> bool" where
  "event_typed e = (case e of AdmitShared tc n limit \<Rightarrow> limit \<le> u32_max | _ \<Rightarrow> True)"

lemma snd_wp: "wp m (\<lambda>_. p) w \<Longrightarrow> p (snd (m w))"
  by (auto simp: wp_def split: prod.splits)

lemma snd_reported_wp: "wp m (\<lambda>_. p) w \<Longrightarrow> p (snd (reported (m w)))"
  by (auto simp: wp_def reported_def split: prod.splits sum.splits)

lemma capacity_step_inv:
  assumes inv: "capacity_inv w" and "event_typed e"
  shows "capacity_inv (snd (capacity_step cd e w))"
proof (cases e)
  case Restart
  then show ?thesis by (simp add: capacity_inv_def hm_get_def)
qed (use assms in \<open>auto simp: event_typed_def intro: snd_wp snd_reported_wp reconcile_keeps prepare_keeps admit_keeps reserve_keeps
      mark_terminal_keeps record_keeps finish_with_keeps exact_keeps ambiguous_keeps drop_keeps\<close>)

interpretation capacity: fold_invariant
  "\<lambda>w e. if event_typed e then Inr (snd (capacity_step cd e w)) else Inl ()" "\<lambda>_. capacity_inv" for cd
  by unfold_locales (auto intro: capacity_step_inv split: if_splits)

lemma capacity_run_fold:
  "\<forall>e\<in>set es. event_typed e \<Longrightarrow>
   try_fold (\<lambda>w e. if event_typed e then Inr (snd (capacity_step cd e w)) else Inl ()) w es = Inr (capacity_run cd es w)"
  by (induction es arbitrary: w) (auto simp: capacity_run_def)

lemma capacity_run_inv:
  "\<forall>e\<in>set es. event_typed e \<Longrightarrow> capacity_inv (capacity_run cd es (manager_new dir fs))"
  using capacity.fold_inv_Nil [OF capacity_inv_new capacity_run_fold] .

text \<open>
  Claim C10: the seller never sells more than the buyer funded.  Whatever requests are admitted,
  finished, interrupted or dropped, whatever the files hold at the start, whichever writes to them
  fail and whenever the gateway restarts: in every ledger entry the tokens claimed, delivered and
  reserved together stay within the capacity the chain grants, and that within the funded tokens;
  delivered tokens still to be written stay within the reserved ones; and the number of shared
  slots in use is exactly the number of shared requests that are neither finished nor dropped.
\<close>

theorem capacity_never_oversold:
  assumes "\<forall>e\<in>set es. event_typed e" and "w = capacity_run cd es (manager_new dir fs)"
    and "i < length (cw_heap w)"
  shows "let e = cw_heap w ! i; r = en_record e in
     cr_tokens_pending_anchor r + cr_local_delivered r + cr_outstanding r \<le> cr_authoritative_cap r
     \<and> cr_authoritative_cap r \<le> cr_funded_tokens r
     \<and> en_unpersisted e \<le> cr_outstanding r
     \<and> en_active_shared e = shared_count (cw_requests w) i"
proof -
  have inv: "capacity_inv w" unfolding assms(2) using capacity_run_inv [OF assms(1)] .
  then have "en_active_shared (cw_heap w ! i) = shared_count (cw_requests w) i"
    using assms(3) unfolding capacity_inv_def by blast
  then show ?thesis using inv_entry [OF inv assms(3)] by (simp add: entry_ok_def record_ok_def Let_def)
qed

text \<open>A deal on the chain, for the witnesses: accepted probe, three funded ticks, one claimed.\<close>

definition sample_chain_state :: deal_chain_state where
  "sample_chain_state = \<lparr>dc_funded = True, dc_opened = True, dc_probe_accepted = True, dc_disputed = False,
     dc_deposit = 2000, dc_finalized_owed = 1000, dc_tokens_final = TICK_SIZE, dc_tokens_pending = TICK_SIZE,
     dc_probe_tick = 0, dc_funded_time = Some 900, dc_probe_time = 1000, dc_last_claim_time = 1200, dc_dispute_time = 0\<rparr>"

definition sample_deal :: deal_subscription where
  "sample_deal = \<lparr>ds_deal_flags = 0, ds_sub_weeks = 0, ds_week_index = 0, ds_tokens_per_week = 3 * TICK_SIZE,
     ds_funded_tokens = 3 * TICK_SIZE, ds_tokens_paid = TICK_SIZE, ds_period_start = 1200, ds_week_base_tokens = 0\<rparr>"

text \<open>The codec of the witnesses stores records as they are.\<close>

definition plain_capacity_codec :: "capacity_record capacity_codec" where
  "plain_capacity_codec = \<lparr>cc_encode = (\<lambda>r. [r]), cc_decode = (\<lambda>b. case b of [r] \<Rightarrow> Some r | _ \<Rightarrow> None)\<rparr>"

definition sample_world :: "capacity_record capacity_world" where
  "sample_world = capacity_run plain_capacity_codec
     [Reconcile ''0:ab'' sample_chain_state sample_deal True IoOk, Reserve ''0:ab'' 2000 False IoOk,
      RecordDelivered 0 500 IoOk] (manager_new (Some ''d'') [])"

lemmas capacity_eval =
  capacity_run_def reconcile_deal_def register_entry_def refresh_entry_def stored_or_fresh_def load_record_def
  reconciled_record_def fresh_record_def authoritative_cap_def validate_live_deal_shape_def validate_record_def
  committed_def available_def snapshot_of_record_def reserve_inner_def record_delivered_def finish_exact_def
  flush_delivered_def commit_valid_def commit_record_def persist_candidate_def in_files_def put_entry_def
  put_request_def finished_request_def new_request_def run_then_def run_get_def run_pure_def run_modify_def
  usable_def reported_def manager_new_def sample_chain_state_def sample_deal_def

lemmas capacity_consts =
  CAPACITY_RECORD_VERSION_def SELLER_UNCLAIMED_BILLABLE_RISK_LIMIT_def CAPACITY_PERSIST_TOKEN_INTERVAL_def
  TICK_SIZE_def PROBE_SEED_TOKENS_def checked_add_def checked_sub_def u128_max_def is_stopped_def is_subscription_def

lemma sample_world_entry:
  "length (cw_heap sample_world) = 1 \<and> en_unpersisted (cw_heap sample_world ! 0) = 500
   \<and> cr_local_delivered (en_record (cw_heap sample_world ! 0)) = 0
   \<and> cr_outstanding (en_record (cw_heap sample_world ! 0)) = 2000
   \<and> hm_get (cw_entries sample_world) ''0:ab'' = Some 0"
  by (simp add: sample_world_def capacity_eval capacity_consts Let_def hm_get_def hm_insert_def has_flag_def
      str_trim_def is_ascii_whitespace_def cong del: sum.case_cong)

theorem capacity_never_oversold_witness:
  "en_unpersisted (cw_heap sample_world ! 0) = 500 \<and> en_unpersisted (cw_heap sample_world ! 0)
     \<le> cr_outstanding (en_record (cw_heap sample_world ! 0))
   \<and> cr_authoritative_cap (en_record (cw_heap sample_world ! 0)) \<le> cr_funded_tokens (en_record (cw_heap sample_world ! 0))"
  using capacity_never_oversold [OF _ sample_world_def, of 0] sample_world_entry
  by (simp add: event_typed_def Let_def)


section \<open>A second reservation forgets the split\<close>

text \<open>
  Claim C35: a reservation on a deal whose split is still waiting in memory forgets the split.  When
  \<open>reserve\<close> succeeds, the delivered tokens that an earlier request recorded but that were not yet
  written are dropped from the books: the split is zero afterwards, the delivered total has not
  grown, and they stay inside the reserved total, where no request owns them any more.
\<close>

theorem reserve_forgets_split:
  assumes "hm_get (cw_entries w) tc = Some i" and "i < length (cw_heap w)"
    and "reserve_inner cd io tc n exclusive w = (Inr q, w')"
  shows "let e = cw_heap w ! i; e' = cw_heap w' ! i in
     en_unpersisted e' = 0
     \<and> cr_local_delivered (en_record e') = cr_local_delivered (en_record e)
     \<and> cr_tokens_pending_anchor (en_record e') = cr_tokens_pending_anchor (en_record e)
     \<and> cr_outstanding (en_record e') = cr_outstanding (en_record e) + rq_initial (cw_requests w' ! q)
     \<and> (\<forall>p<length (cw_requests w). cw_requests w' ! p = cw_requests w ! p)"
proof -
  let ?Q = "\<lambda>r w'. \<forall>q. r = Inr q \<longrightarrow> (let e = cw_heap w ! i; e' = cw_heap w' ! i in
     en_unpersisted e' = 0
     \<and> cr_local_delivered (en_record e') = cr_local_delivered (en_record e)
     \<and> cr_tokens_pending_anchor (en_record e') = cr_tokens_pending_anchor (en_record e)
     \<and> cr_outstanding (en_record e') = cr_outstanding (en_record e) + rq_initial (cw_requests w' ! q)
     \<and> (\<forall>p<length (cw_requests w). cw_requests w' ! p = cw_requests w ! p))"
  have "wp (reserve_inner cd io tc n exclusive) ?Q w"
  proof (cases "validate_record (en_record (cw_heap w ! i))")
    case (Inl e)
    then show ?thesis using assms(1) by (simp add: reserve_inner_def wp_get wp_then wp_pure Let_def)
  next
    case v: (Inr u)
    show ?thesis
    proof (cases "available (snapshot_of_record (en_record (cw_heap w ! i)))")
      case (Inl e)
      then show ?thesis using assms(1) v by (simp add: reserve_inner_def wp_get wp_then wp_pure Let_def)
    next
      case (Inr free)
      have "wp (commit_valid cd io i c) (\<lambda>r w'. case map_err InvalidState r of Inl e \<Rightarrow> ?Q (Inl e) w'
          | Inr _ \<Rightarrow> ?Q (Inr (length (cw_requests w))) ((put_entry i ((cw_heap w' ! i)\<lparr>en_unpersisted := 0\<rparr>) w')
              \<lparr>cw_requests := cw_requests w' @ [new_request i amount False]\<rparr>)) w"
        if "c = (en_record (cw_heap w ! i))\<lparr>cr_outstanding := cr_outstanding (en_record (cw_heap w ! i)) + amount\<rparr>" for c amount
        using assms(2) that
        by (intro wp_commit_valid) (auto simp: put_entry_def new_request_def Let_def nth_append)
      from this [OF refl, of "min free n"] show ?thesis
        using assms(1) v Inr
        by (simp add: reserve_inner_def wp_get wp_then wp_pure wp_modify wp_map_err checked_add_def Let_def)
    qed
  qed
  from wpD [OF this assms(3)] show ?thesis by blast
qed

text \<open>The sample world after one more reservation.\<close>

definition sample_reserved :: "capacity_record capacity_world" where
  "sample_reserved = snd (reserve_inner plain_capacity_codec IoOk ''0:ab'' 100 False sample_world)"

lemma sample_reserve_result:
  "fst (reserve_inner plain_capacity_codec IoOk ''0:ab'' 100 False sample_world) = Inr 1"
  by (simp add: sample_world_def capacity_eval capacity_consts Let_def hm_get_def hm_insert_def has_flag_def
      str_trim_def is_ascii_whitespace_def cong del: sum.case_cong)

theorem reserve_forgets_split_witness:
  "en_unpersisted (cw_heap sample_world ! 0) = 500
   \<and> en_unpersisted (cw_heap sample_reserved ! 0) = 0
   \<and> cr_local_delivered (en_record (cw_heap sample_reserved ! 0)) = 0"
proof -
  have "reserve_inner plain_capacity_codec IoOk ''0:ab'' 100 False sample_world = (Inr 1, sample_reserved)"
    using sample_reserve_result by (simp add: sample_reserved_def prod_eq_iff)
  from reserve_forgets_split [OF _ _ this, of 0] sample_world_entry show ?thesis
    by (simp add: Let_def)
qed

end
