(* ===== verification/CapacityTrace.thy ===== *)
theory CapacityTrace
  imports CapacityProps
begin

text \<open>
  How one call changes the capacity ledger: what an entry covers, that is the anchored and the locally
  delivered tokens, never shrinks; a finished request adds exactly what it reports; entries leave
  the map only as terminal ones; and only a chain read of a live deal can add an entry.
\<close>

section \<open>The order on ledgers\<close>

definition covered :: "capacity_entry \<Rightarrow> nat" where
  "covered e = cr_tokens_pending_anchor (en_record e) + cr_local_delivered (en_record e)"

definition grows :: "token_contract set \<Rightarrow> 'b capacity_world \<Rightarrow> 'b capacity_world \<Rightarrow> bool" where
  "grows S w w' \<longleftrightarrow>
     length (cw_heap w) \<le> length (cw_heap w') \<and> length (cw_requests w) \<le> length (cw_requests w')
     \<and> (\<forall>i<length (cw_heap w). (en_terminal (cw_heap w ! i) \<longrightarrow> en_terminal (cw_heap w' ! i))
          \<and> covered (cw_heap w ! i) \<le> covered (cw_heap w' ! i))
     \<and> (\<forall>q<length (cw_requests w). rq_entry (cw_requests w' ! q) = rq_entry (cw_requests w ! q)
          \<and> rq_shared (cw_requests w' ! q) = rq_shared (cw_requests w ! q))
     \<and> (\<forall>tc i. hm_get (cw_entries w) tc = Some i \<longrightarrow>
          hm_get (cw_entries w') tc = Some i \<or> hm_get (cw_entries w') tc = None \<and> en_terminal (cw_heap w' ! i))
     \<and> (\<forall>tc. tc \<notin> S \<longrightarrow> hm_get (cw_entries w) tc = None \<longrightarrow> hm_get (cw_entries w') tc = None)"

lemma grows_refl [simp]: "grows S w w"
  by (simp add: grows_def)

lemma grows_files [simp]: "grows S w (w'\<lparr>cw_files := fs\<rparr>) = grows S w w'"
  by (simp add: grows_def)

lemma grows_entries:
  "grows S w w' \<Longrightarrow> hm_get (cw_entries w) tc = Some i \<Longrightarrow>
     hm_get (cw_entries w') tc = Some i \<or> hm_get (cw_entries w') tc = None \<and> en_terminal (cw_heap w' ! i)"
  by (simp add: grows_def)

lemma grows_absent: "grows S w w' \<Longrightarrow> tc \<notin> S \<Longrightarrow> hm_get (cw_entries w) tc = None \<Longrightarrow> hm_get (cw_entries w') tc = None"
  by (simp add: grows_def)

lemma grows_entry:
  "grows S w w' \<Longrightarrow> i < length (cw_heap w) \<Longrightarrow>
     i < length (cw_heap w') \<and> (en_terminal (cw_heap w ! i) \<longrightarrow> en_terminal (cw_heap w' ! i))
     \<and> covered (cw_heap w ! i) \<le> covered (cw_heap w' ! i)"
  by (auto simp: grows_def)

lemma grows_request:
  "grows S w w' \<Longrightarrow> q < length (cw_requests w) \<Longrightarrow>
     q < length (cw_requests w') \<and> rq_entry (cw_requests w' ! q) = rq_entry (cw_requests w ! q)
     \<and> rq_shared (cw_requests w' ! q) = rq_shared (cw_requests w ! q)"
  by (auto simp: grows_def)

text \<open>The map of a sound ledger points into its heap.\<close>

lemma grows_trans:
  assumes "grows S w w'" and "grows {} w' w''" and inv: "capacity_inv w"
  shows "grows S w w''"
  unfolding grows_def
proof (intro conjI allI impI, goal_cases)
  case (7 tc i)
  have i: "i < length (cw_heap w')" using inv_lookup [OF inv 7] grows_entry [OF assms(1), of i] by simp
  show ?case
    using grows_entries [OF assms(1) 7] grows_entries [OF assms(2), of tc i] grows_absent [OF assms(2), of tc]
      grows_entry [OF assms(2) i] by auto
next
  case (3 i)
  then show ?case using grows_entry [OF assms(1)] grows_entry [OF assms(2)] by auto
next
  case (4 i)
  then show ?case using grows_entry [OF assms(1), of i] grows_entry [OF assms(2), of i] by auto
next
  case (8 tc)
  then show ?case using grows_absent [OF assms(1)] grows_absent [OF assms(2)] by simp
qed (use assms(1,2) grows_request [OF assms(1)] grows_request [OF assms(2)] in \<open>auto simp: grows_def\<close>)

lemma only_entry_grows:
  assumes "only_entry i w w'" and "i < length (cw_heap w) \<Longrightarrow> covered (cw_heap w ! i) \<le> covered (cw_heap w' ! i)"
  shows "grows {} w w'"
proof -
  have "(en_terminal (cw_heap w ! j) \<longrightarrow> en_terminal (cw_heap w' ! j)) \<and> covered (cw_heap w ! j) \<le> covered (cw_heap w' ! j)"
    if "j < length (cw_heap w)" for j
    using assms that by (cases "j = i") (auto simp: only_entry_def)
  then show ?thesis using assms(1) by (auto simp: grows_def only_entry_def)
qed

lemma put_request_grows [simp]:
  assumes "rq_entry r = rq_entry (cw_requests w ! q)" and "rq_shared r = rq_shared (cw_requests w ! q)"
  shows "grows {} w (put_request q r w)"
proof (cases "q < length (cw_requests w)")
  case True
  then show ?thesis using assms by (auto simp: grows_def put_request_def nth_list_update)
qed (simp add: grows_def put_request_def)

lemma put_entry_grows:
  assumes "en_terminal (cw_heap w ! i) \<longrightarrow> en_terminal e" and "covered (cw_heap w ! i) \<le> covered e"
  shows "grows {} w (put_entry i e w)"
  using assms by (cases "i < length (cw_heap w)") (auto simp: grows_def put_entry_def nth_list_update)

lemma grows_put_request:
  assumes "grows S w w'" and "q < length (cw_requests w)"
    and "rq_entry r = rq_entry (cw_requests w ! q)" and "rq_shared r = rq_shared (cw_requests w ! q)"
  shows "grows S w (put_request q r w')"
  using assms grows_request [OF assms(1,2)] by (auto simp: grows_def put_request_def nth_list_update)

text \<open>A call of a request on entry \<open>i\<close>: it adds to what the entry covers exactly what it reports.\<close>

definition settles :: "nat \<Rightarrow> (nat, 'e) result \<Rightarrow> 'b capacity_world \<Rightarrow> 'b capacity_world \<Rightarrow> bool" where
  "settles i r w w' \<longleftrightarrow> grows {} w w' \<and> (\<forall>c. r = Inr c \<longrightarrow> covered (cw_heap w' ! i) = covered (cw_heap w ! i) + c)"

lemma commit_settles:
  assumes "capacity_inv w" and "i < length (cw_heap w)"
    and "cr_token_contract candidate = cr_token_contract (en_record (cw_heap w ! i))"
    and "en_unpersisted (cw_heap w ! i) \<le> cr_outstanding candidate"
    and "cr_tokens_pending_anchor candidate + cr_local_delivered candidate = covered (cw_heap w ! i) + c"
  shows "wp (commit_valid cd io i candidate) (\<lambda>r w'. capacity_inv w' \<and> only_entry i w w'
     \<and> grows {} w w' \<and> (is_ok r \<longrightarrow> cw_heap w' ! i = (cw_heap w ! i)\<lparr>en_record := candidate\<rparr>
          \<and> covered (cw_heap w' ! i) = covered (cw_heap w ! i) + c)) w"
  using commit_valid_keeps [OF assms(1-4)]
proof (rule wp_mono, goal_cases)
  case (1 r w')
  then have "covered (cw_heap w ! i) \<le> covered (cw_heap w' ! i) \<and> (is_ok r \<longrightarrow> covered (cw_heap w' ! i) = covered (cw_heap w ! i) + c)"
    using assms(5) by (cases r) (auto simp: covered_def)
  then show ?case using 1 only_entry_grows [of i w w'] by (auto simp: is_ok_iff)
qed

lemma flush_settles:
  assumes "capacity_inv w" and "i < length (cw_heap w)"
  shows "wp (flush_delivered cd io i) (\<lambda>r w'. capacity_inv w' \<and> only_entry i w w' \<and> settles i r w w'
     \<and> (is_ok r \<longrightarrow> en_unpersisted (cw_heap w' ! i) = 0)) w"
proof -
  let ?e = "cw_heap w ! i"
  let ?r = "en_record ?e"
  have "wp (flush_delivered cd io i) (\<lambda>r w'. settles i r w w') w"
  proof (cases "en_unpersisted ?e = 0 \<or> checked_add u128_max (cr_local_delivered ?r) (en_unpersisted ?e) = None
      \<or> cr_outstanding ?r < en_unpersisted ?e")
    case True
    then show ?thesis by (auto simp: flush_delivered_def wp_simps Let_def settles_def ok_or_def checked_sub_def split: option.splits)
  next
    case False
    then obtain loc where loc: "checked_add u128_max (cr_local_delivered ?r) (en_unpersisted ?e) = Some loc"
        "loc = cr_local_delivered ?r + en_unpersisted ?e" by (auto simp: checked_simps)
    show ?thesis
      unfolding flush_delivered_def Let_def wp_simps using False loc assms(2)
      apply (simp add: checked_sub_def wp_simps)
      apply (rule wp_commit_valid)
       apply (simp add: settles_def)
      apply (auto simp: settles_def put_entry_def covered_def checked_simps result_simps grows_def nth_list_update)
      done
  qed
  then show ?thesis using flush_keeps [OF assms, of cd io] by (auto simp: wp_def split: prod.splits)
qed


section \<open>Calls of a request\<close>

lemma settlesI_put_request:
  assumes "settles i r w w'" and "q < length (cw_requests w)"
    and "rq_entry x = rq_entry (cw_requests w ! q)" and "rq_shared x = rq_shared (cw_requests w ! q)"
  shows "settles i r w (put_request q x w')"
  using assms grows_put_request [of "{}" w w' q x] by (simp add: settles_def put_request_def)

lemma settles_finished:
  "settles i r w w' \<Longrightarrow> q < length (cw_requests w) \<Longrightarrow> settles i r w (put_request q (finished_request (cw_requests w ! q)) w')"
  by (rule settlesI_put_request) simp_all

lemma settles_put_entry:
  assumes "settles i r w w'" and "i < length (cw_heap w)" and "en_terminal e = en_terminal (cw_heap w' ! i)" and "en_record e = en_record (cw_heap w' ! i)"
  shows "settles i r w (put_entry i e w')"
proof -
  have "covered e = covered (cw_heap w' ! i)" using assms(4) by (simp add: covered_def)
  moreover have "i < length (cw_heap w')" using assms grows_entry [of "{}" w w' i] by (simp add: settles_def)
  ultimately show ?thesis
    using assms(1-3) by (auto simp: settles_def grows_def put_entry_def nth_list_update)
qed

lemma settles_error [simp]: "settles i (Inl e) w w' = grows {} w w'"
  by (simp add: settles_def)

lemma settles_ok: "settles i (Inr c) w w' \<longleftrightarrow> grows {} w w' \<and> covered (cw_heap w' ! i) = covered (cw_heap w ! i) + c"
  by (simp add: settles_def)

lemma finish_shared_settles:
  assumes inv: "capacity_inv w" and u: "usable w q" and "tokens \<le> u64_max"
  shows "wp (finish_shared cd io q tokens ambiguous) (\<lambda>r w'. settles (rq_entry (cw_requests w ! q)) r w w' \<and> (\<forall>c. r = Inr c \<longrightarrow> c \<le> tokens)) w"
proof -
  let ?r = "cw_requests w ! q"
  let ?i = "rq_entry ?r"
  let ?e = "cw_heap w ! ?i"
  have q: "q < length (cw_requests w)" using u by (simp add: usable_def)
  have i: "?i < length (cw_heap w)" using inv_request [OF inv q] by simp
  have un: "en_unpersisted ?e \<le> cr_outstanding (en_record ?e)" using inv_entry [OF inv i] by (simp add: entry_ok_def)
  have "wp (commit_valid cd io ?i ((en_record ?e)\<lparr>cr_local_delivered := cr_local_delivered (en_record ?e) + c\<rparr>))
     (\<lambda>r w'. case r of Inl e \<Rightarrow> grows {} w w'
        | Inr _ \<Rightarrow> grows {} w w' \<and> (\<forall>active. settles ?i (Inr c :: (nat, capacity_error) result) w (put_request q (finished_request ?r)
                   (put_entry ?i ((cw_heap w' ! ?i)\<lparr>en_active_shared := active\<rparr>) w')))) w" for c
  proof (rule wp_mono [OF commit_settles [OF inv i, where c = c]], goal_cases)
    case (4 r w')
    show ?case
    proof (cases r)
      case (Inr x)
      then have "settles ?i (Inr c :: (nat, capacity_error) result) w w'" using 4 by (simp add: settles_ok covered_def)
      then have "\<forall>active. settles ?i (Inr c :: (nat, capacity_error) result) w (put_request q (finished_request ?r) (put_entry ?i ((cw_heap w' ! ?i)\<lparr>en_active_shared := active\<rparr>) w'))"
        using q i by (intro allI settles_finished settles_put_entry) simp_all
      then show ?thesis using 4 Inr by simp
    qed (use 4 in simp)
  qed (use un in \<open>simp_all add: covered_def\<close>)
  note commit = this
  show ?thesis
  proof (cases "rq_finished ?r \<or> en_terminal ?e \<or> \<not> is_ok (available (snapshot_of_record (en_record ?e)))")
    case True
    then show ?thesis by (auto simp: finish_shared_def wp_simps Let_def split: sum.splits)
  next
    case False
    then obtain free where free: "available (snapshot_of_record (en_record ?e)) = Inr free" by (auto simp: is_ok_iff)
    define c where "c = (if ambiguous then 0 else min (min tokens (rq_remaining ?r)) free)"
    have c: "c \<le> tokens" "as_width u64_max c = c" using assms(3) by (auto simp: c_def intro!: as_width_id)
    have "wp (commit_valid cd io ?i ((en_record ?e)\<lparr>cr_local_delivered := cr_local_delivered (en_record ?e) + c\<rparr>))
       (\<lambda>r w'. case r of Inl e \<Rightarrow> grows {} w w'
          | Inr _ \<Rightarrow> (case ok_or (checked_sub (en_active_shared ?e) 1) (RequestError SharedUnderflow) of
               Inl e \<Rightarrow> grows {} w w'
             | Inr active \<Rightarrow> settles ?i (Inr c :: (nat, capacity_error) result) w (put_request q (finished_request ?r)
                   (put_entry ?i ((cw_heap w' ! ?i)\<lparr>en_active_shared := active\<rparr>) w')))) w"
      by (rule wp_mono [OF commit [of c]]) (auto split: sum.splits)
    then show ?thesis
      using False free c
      by (simp add: finish_shared_def wp_get wp_then wp_pure wp_modify wp_if Let_def checked_add_def flip: c_def)
  qed
qed


lemma finish_with_settles:
  assumes inv: "capacity_inv w" and u: "usable w q" and "tokens \<le> u64_max"
  shows "wp (finish_with_delivery cd io q tokens)
     (\<lambda>r w'. settles (rq_entry (cw_requests w ! q)) r w w' \<and> (\<forall>c. r = Inr c \<longrightarrow> c \<le> tokens)) w"
proof -
  let ?r = "cw_requests w ! q"
  let ?i = "rq_entry ?r"
  let ?e = "cw_heap w ! ?i"
  have q: "q < length (cw_requests w)" using u by (simp add: usable_def)
  have i: "?i < length (cw_heap w)" using inv_request [OF inv q] by simp
  have "wp (commit_valid cd io ?i ((en_record ?e)\<lparr>cr_outstanding := out, cr_local_delivered := cr_local_delivered (en_record ?e) + tokens\<rparr>))
     (\<lambda>r w'. case r of Inl e \<Rightarrow> grows {} w w'
        | Inr _ \<Rightarrow> settles ?i (Inr tokens :: (nat, capacity_error) result) w (put_request q (finished_request ?r) w')) w"
    if un: "en_unpersisted ?e = 0" for out
  proof (rule wp_mono [OF commit_settles [OF inv i, where c = tokens]], goal_cases)
    case (4 r w')
    then have "is_ok r \<Longrightarrow> settles ?i (Inr tokens :: (nat, capacity_error) result) w w'" by (auto simp: settles_ok)
    then show ?case using 4 q by (cases r) (auto intro!: settles_finished)
  qed (use un in \<open>simp_all add: covered_def\<close>)
  then show ?thesis
    unfolding finish_with_delivery_def Let_def wp_simps
    using finish_shared_settles [OF inv u assms(3)]
    by (auto simp: wp_simps ok_or_def checked_add_def split: option.splits)
qed

lemma exact_settles:
  assumes inv: "capacity_inv w" and u: "usable w q"
  shows "wp (finish_exact cd io io2 q) (\<lambda>r w'. settles (rq_entry (cw_requests w ! q)) r w w') w"
proof -
  let ?r = "cw_requests w ! q"
  let ?i = "rq_entry ?r"
  have q: "q < length (cw_requests w)" using u by (simp add: usable_def)
  have i: "?i < length (cw_heap w)" using inv_request [OF inv q] by simp
  have release: "wp (commit_valid cd io2 ?i ((en_record (cw_heap w1 ! ?i))\<lparr>cr_outstanding := out\<rparr>))
     (\<lambda>r w2. case r of Inl e \<Rightarrow> grows {} w w2
        | Inr _ \<Rightarrow> settles ?i (Inr d :: (nat, capacity_error) result) w (put_request q (finished_request ?r) w2)) w1"
    if w1: "capacity_inv w1" "only_entry ?i w w1" "en_unpersisted (cw_heap w1 ! ?i) = 0" "settles ?i (Inr d :: (nat, capacity_error) result) w w1"
    for w1 out d
  proof -
    have i1: "?i < length (cw_heap w1)" using w1(2) i by (simp add: only_entry_def)
    show ?thesis
    proof (rule wp_mono [OF commit_settles [OF w1(1) i1, where c = 0]], goal_cases)
      case (4 r w2)
      have ev: "grows {} w w2" using grows_trans [of "{}" w w1 w2] 4 w1(4) inv by (simp add: settles_ok)
      then have "is_ok r \<Longrightarrow> settles ?i (Inr d :: (nat, capacity_error) result) w w2"
        using 4 w1(4) unfolding settles_ok by (metis add.right_neutral)
      then show ?case using ev q by (cases r) (auto intro!: settles_finished)
    qed (use w1 in \<open>simp_all add: covered_def\<close>)
  qed
  have "wp (flush_delivered cd io ?i)
     (\<lambda>r w'. case r of Inl e \<Rightarrow> grows {} w w'
        | Inr durable \<Rightarrow> wp (run_get (\<lambda>w'. let c0 = en_record (cw_heap w' ! ?i) in
            run_then (run_pure (ok_or (checked_sub (cr_outstanding c0) (rq_remaining ?r))
                                  (RequestError ReservationUnderflow))) (\<lambda>out.
            run_then (commit_valid cd io2 ?i (c0\<lparr>cr_outstanding := out\<rparr>)) (\<lambda>_.
            run_then (run_modify (put_request q (finished_request ?r))) (\<lambda>_.
            run_pure (Inr durable)))))) (\<lambda>r w'. settles ?i r w w') w') w"
  proof (rule wp_mono [OF flush_settles [OF inv i]], goal_cases)
    case (1 r w1)
    show ?case
    proof (cases r)
      case (Inr d)
      have ev: "grows {} w w1" using 1 by (simp add: settles_def)
      show ?thesis
      proof (cases "checked_sub (cr_outstanding (en_record (cw_heap w1 ! ?i))) (rq_remaining ?r)")
        case None
        then show ?thesis using Inr ev by (simp add: wp_simps Let_def)
      next
        case (Some out)
        then show ?thesis using Inr 1 release [of w1 d out] by (simp add: wp_get wp_then wp_pure wp_modify Let_def)
      qed
    qed (use 1 in simp)
  qed
  moreover have "settles ?i (Inr 0 :: (nat, capacity_error) result) w (put_request q (finished_request ?r) w)"
    using q by (intro settles_finished) (simp_all add: settles_ok)
  moreover have "wp (finish_shared cd io q 0 False) (\<lambda>r w'. settles ?i r w w') w"
    by (rule wp_mono [OF finish_shared_settles [OF inv u]]) auto
  ultimately show ?thesis
    unfolding finish_exact_def Let_def wp_simps by (simp add: wp_simps)
qed

lemma ambiguous_settles:
  assumes inv: "capacity_inv w" and u: "usable w q"
  shows "wp (finish_ambiguous cd io q) (\<lambda>r w'. settles (rq_entry (cw_requests w ! q)) r w w') w"
proof -
  let ?r = "cw_requests w ! q"
  let ?i = "rq_entry ?r"
  have q: "q < length (cw_requests w)" using u by (simp add: usable_def)
  have i: "?i < length (cw_heap w)" using inv_request [OF inv q] by simp
  have fin: "settles ?i (Inr d :: (nat, capacity_error) result) w (put_request q (finished_request ?r) w')"
    if "settles ?i (Inr d :: (nat, capacity_error) result) w w'" for w' d
    using that q by (rule settles_finished)
  have "wp (flush_delivered cd io ?i)
     (\<lambda>r w'. case r of Inl e \<Rightarrow> grows {} w w'
        | Inr d \<Rightarrow> settles ?i (Inr d :: (nat, capacity_error) result) w (put_request q (finished_request ?r) w')) w"
    using flush_settles [OF inv i] by (rule wp_mono) (use fin in \<open>auto split: sum.splits\<close>)
  moreover have "wp (finish_shared cd io q 0 True) (\<lambda>r w'. settles ?i r w w') w"
    by (rule wp_mono [OF finish_shared_settles [OF inv u]]) auto
  ultimately show ?thesis
    unfolding finish_ambiguous_def Let_def wp_simps
    using fin [of 0 w] by (auto simp: wp_simps settles_ok)
qed

lemma drop_grows: "q < length (cw_requests w) \<Longrightarrow> grows {} w (drop_request q w)"
  by (auto simp: drop_request_def Let_def put_commute covered_def intro!: put_entry_grows grows_put_request)


text \<open>No call of a request drops a handle.\<close>

definition handles :: "'b capacity_world \<Rightarrow> bool list" where
  "handles w = map rq_dropped (cw_requests w)"

lemma handles_put [simp]: "handles (put_entry i e w) = handles w" "handles (w\<lparr>cw_files := fs\<rparr>) = handles w"
  "rq_dropped r = rq_dropped (cw_requests w ! q) \<Longrightarrow> handles (put_request q r w) = handles w"
  by (simp_all add: handles_def put_entry_def put_request_def map_update list_update_same_conv)
    (metis list_update_id map_update)

lemma usable_handles: "handles w' = handles w \<Longrightarrow> usable w' q = usable w q"
  by (auto simp: usable_def handles_def map_equality_iff)

lemma commit_handles: "wp (commit_valid cd io i c) (\<lambda>_ w'. handles w' = handles w \<and> cw_requests w' = cw_requests w) w"
  by (rule wp_commit_valid) (simp_all add: put_entry_def handles_def)

lemma flush_handles: "wp (flush_delivered cd io i) (\<lambda>_ w'. handles w' = handles w \<and> cw_requests w' = cw_requests w) w"
  unfolding flush_delivered_def Let_def wp_simps
  by (auto simp: wp_simps put_entry_def handles_def intro!: wp_mono [OF commit_handles] split: sum.splits)

lemma finished_handles [simp]:
  "cw_requests w' = cw_requests w \<Longrightarrow> handles (put_request q (finished_request (cw_requests w ! q)) w') = handles w'"
  by (rule handles_put) (simp add: finished_request_def)

lemma put_entry_requests [simp]: "cw_requests (put_entry i e w) = cw_requests w"
  by (simp add: put_entry_def)

lemma finish_shared_handles: "wp (finish_shared cd io q tokens b) (\<lambda>_ w'. handles w' = handles w) w"
  unfolding finish_shared_def Let_def wp_simps
  by (auto simp: wp_simps intro!: wp_mono [OF commit_handles] split: sum.splits)

lemma finish_with_handles: "wp (finish_with_delivery cd io q tokens) (\<lambda>_ w'. handles w' = handles w) w"
  unfolding finish_with_delivery_def Let_def wp_simps
  by (auto simp: wp_simps finish_shared_handles intro!: wp_mono [OF commit_handles] split: sum.splits)

lemma exact_handles: "wp (finish_exact cd io io2 q) (\<lambda>_ w'. handles w' = handles w) w"
proof -
  have release: "wp (commit_valid cd io2 i c) p w1"
    if "handles w1 = handles w" "cw_requests w1 = cw_requests w"
      "\<And>r w2. handles w2 = handles w \<Longrightarrow> cw_requests w2 = cw_requests w \<Longrightarrow> p r w2" for w1 i c p
    by (rule wp_mono [OF commit_handles]) (use that in auto)
  show ?thesis
    unfolding finish_exact_def Let_def wp_simps
    by (auto simp: wp_simps Let_def finish_shared_handles intro!: wp_mono [OF flush_handles] release split: sum.splits)
qed

lemma ambiguous_handles: "wp (finish_ambiguous cd io q) (\<lambda>_ w'. handles w' = handles w) w"
  unfolding finish_ambiguous_def Let_def wp_simps
  by (auto simp: wp_simps finish_shared_handles intro!: wp_mono [OF flush_handles] split: sum.splits)


section \<open>Calls of the manager\<close>

lemma mark_terminal_grows:
  assumes inv: "capacity_inv w"
  shows "wp (mark_terminal io tc) (\<lambda>_ w'. grows {} w w') w"
proof (cases "hm_get (cw_entries w) tc")
  case None
  then show ?thesis by (auto simp: mark_terminal_def wp_simps intro!: wp_in_files split: option.splits)
next
  case (Some i)
  let ?e = "cw_heap w ! i"
  let ?w = "put_entry i (?e\<lparr>en_terminal := True\<rparr>) (w\<lparr>cw_entries := hm_remove tc (cw_entries w)\<rparr>)"
  have "grows {} w ?w"
    using inv_lookup [OF inv Some] Some by (auto simp: grows_def put_entry_def hm_simps nth_list_update covered_def)
  then show ?thesis
    using Some by (auto simp: mark_terminal_def wp_simps Let_def intro!: wp_in_files split: option.splits)
qed

lemma prepare_grows:
  assumes inv: "capacity_inv w"
  shows "wp (prepare_probe cd io tc n) (\<lambda>_ w'. grows {} w w') w"
proof (cases "hm_get (cw_entries w) tc")
  case None
  then show ?thesis by (simp add: prepare_probe_def wp_simps)
next
  case (Some i)
  let ?e = "cw_heap w ! i"
  have i: "i < length (cw_heap w)" using inv_lookup [OF inv Some] by simp
  have "wp (commit_valid cd io i ((en_record ?e)\<lparr>cr_probe_decision := Some n\<rparr>)) (\<lambda>_ w'. grows {} w w') w"
    by (rule wp_mono [OF commit_settles [OF inv i, where c = 0]])
      (use inv_entry [OF inv i] in \<open>auto simp: entry_ok_def covered_def\<close>)
  then have "wp (commit_valid cd io i ((en_record ?e)\<lparr>cr_probe_decision := Some n\<rparr>))
     (\<lambda>r w'. case r of Inl e \<Rightarrow> grows {} w w' | Inr _ \<Rightarrow> grows {} w w') w"
    by (rule wp_mono) (simp split: sum.splits)
  then show ?thesis
    using Some by (auto simp: prepare_probe_def wp_simps Let_def split: option.splits)
qed


text \<open>An admission answers with a new request on the current entry of the contract.\<close>

definition admits :: "token_contract \<Rightarrow> (nat, 'e) result \<Rightarrow> 'b capacity_world \<Rightarrow> 'b capacity_world \<Rightarrow> bool" where
  "admits tc r w w' \<longleftrightarrow> grows {} w w' \<and> (\<forall>q. r = Inr q \<longrightarrow>
     q = length (cw_requests w) \<and> usable w' q \<and> hm_get (cw_entries w') tc = Some (rq_entry (cw_requests w' ! q)))"

lemma grows_like:
  assumes "grows S w w1" and "cw_entries w2 = cw_entries w1" and "length (cw_heap w2) = length (cw_heap w1)"
    and "\<And>j. en_terminal (cw_heap w2 ! j) = en_terminal (cw_heap w1 ! j)" and "\<And>j. covered (cw_heap w2 ! j) = covered (cw_heap w1 ! j)"
    and "cw_requests w2 = cw_requests w1 @ new"
  shows "grows S w w2"
  using assms(1) by (simp add: grows_def assms(2-6) nth_append)

lemma admitsI:
  assumes "grows {} w w1" and "hm_get (cw_entries w1) tc = Some i" and "cw_requests w1 = cw_requests w"
    and "en_terminal e = en_terminal (cw_heap w1 ! i)" and "en_record e = en_record (cw_heap w1 ! i)"
  shows "admits tc (Inr (length (cw_requests w))) w
     ((put_entry i e w1)\<lparr>cw_requests := cw_requests w1 @ [new_request i amount shared]\<rparr>)"
proof -
  have same: "en_terminal ((cw_heap w1)[i := e] ! j) = en_terminal (cw_heap w1 ! j)
    \<and> covered ((cw_heap w1)[i := e] ! j) = covered (cw_heap w1 ! j)" for j
    using assms(4,5) by (cases "i < length (cw_heap w1)"; cases "j = i") (simp_all add: covered_def list_update_beyond)
  let ?w = "(put_entry i e w1)\<lparr>cw_requests := cw_requests w1 @ [new_request i amount shared]\<rparr>"
  have "grows {} w ?w" by (rule grows_like [OF assms(1)]) (simp_all add: put_entry_def same)
  then show ?thesis using assms(2,3) by (simp add: admits_def put_entry_def usable_def new_request_def)
qed

lemma admit_admits: "wp (admit_shared tc n limit) (\<lambda>r w'. admits tc r w w') w"
proof (cases "hm_get (cw_entries w) tc")
  case None
  then show ?thesis by (simp add: admit_shared_def wp_simps admits_def)
next
  case (Some i)
  let ?e = "cw_heap w ! i"
  have "admits tc (Inr (length (cw_requests w)) :: (nat, reserve_error) result) w ((put_entry i (?e\<lparr>en_active_shared := a\<rparr>) w)
      \<lparr>cw_requests := cw_requests w @ [new_request i amount True]\<rparr>)" for amount a
    by (rule admitsI) (use Some in simp_all)
  moreover have "admits tc (Inl x :: (nat, reserve_error) result) w w" for x by (simp add: admits_def)
  ultimately show ?thesis
    using Some by (auto simp: admit_shared_def wp_simps Let_def map_err_def split: sum.splits)
qed

lemma reserve_admits:
  assumes inv: "capacity_inv w"
  shows "wp (reserve_inner cd io tc n exclusive) (\<lambda>r w'. admits tc r w w') w"
proof (cases "hm_get (cw_entries w) tc")
  case None
  then show ?thesis by (simp add: reserve_inner_def wp_simps admits_def)
next
  case (Some i)
  let ?e = "cw_heap w ! i"
  let ?r = "en_record ?e"
  have i: "i < length (cw_heap w)" using inv_lookup [OF inv Some] by simp
  have un: "en_unpersisted ?e \<le> cr_outstanding ?r" using inv_entry [OF inv i] by (simp add: entry_ok_def)
  have refused: "admits tc (Inl x :: (nat, reserve_error) result) w w" for x by (simp add: admits_def)
  have commit: "wp (commit_valid cd io i (?r\<lparr>cr_outstanding := cr_outstanding ?r + amount\<rparr>))
     (\<lambda>r w'. case map_err InvalidState r of Inl x \<Rightarrow> admits tc (Inl x :: (nat, reserve_error) result) w w'
        | Inr _ \<Rightarrow> admits tc (Inr (length (cw_requests w)) :: (nat, reserve_error) result) w
            ((put_entry i ((cw_heap w' ! i)\<lparr>en_unpersisted := 0\<rparr>) w')
             \<lparr>cw_requests := cw_requests w' @ [new_request i amount False]\<rparr>)) w" for amount
  proof (rule wp_mono [OF commit_settles [OF inv i, where c = 0]], goal_cases)
    case (4 r w')
    then have "admits tc (Inr (length (cw_requests w)) :: (nat, reserve_error) result) w
        ((put_entry i ((cw_heap w' ! i)\<lparr>en_unpersisted := 0\<rparr>) w')\<lparr>cw_requests := cw_requests w' @ [new_request i amount False]\<rparr>)"
      by (intro admitsI) (use Some in \<open>simp_all add: only_entry_def\<close>)
    then show ?case using 4 by (simp add: map_err_def admits_def split: sum.splits)
  qed (use un in \<open>simp_all add: covered_def\<close>)
  show ?thesis
  proof (cases "validate_record ?r")
    case (Inl x)
    then show ?thesis using Some refused by (simp add: reserve_inner_def wp_get wp_then wp_pure Let_def)
  next
    case v: (Inr y)
    show ?thesis
    proof (cases "available (snapshot_of_record ?r)")
      case (Inl x)
      then show ?thesis using Some v refused by (simp add: reserve_inner_def wp_get wp_then wp_pure Let_def)
    next
      case (Inr free)
      then show ?thesis
        using Some v commit [of "min free n"] refused
        by (simp add: reserve_inner_def wp_get wp_then wp_pure wp_modify wp_map_err Let_def checked_add_def)
    qed
  qed
qed

text \<open>A chain read adds at most the entry of its own contract, and answers with what that entry covers.\<close>

lemma register_grows:
  "wp (register_entry cd readable tc state deal cap) (\<lambda>r w'. grows {tc} w w') w"
proof (cases "hm_get (cw_entries w) tc")
  case (Some i)
  then show ?thesis by (simp add: register_entry_def wp_simps)
next
  case None
  have "grows {tc} w (w\<lparr>cw_heap := cw_heap w @ [e], cw_entries := hm_insert tc (length (cw_heap w)) (cw_entries w)\<rparr>)" for e
    using None by (auto simp: grows_def hm_simps nth_append)
  then show ?thesis
    using None by (auto simp: register_entry_def wp_simps Let_def split: sum.splits)
qed

definition reads :: "token_contract \<Rightarrow> (capacity_snapshot option, 'e) result \<Rightarrow> 'b capacity_world \<Rightarrow> bool" where
  "reads tc r w' \<longleftrightarrow> (\<forall>s. r = Inr (Some s) \<longrightarrow>
     (\<exists>i. hm_get (cw_entries w') tc = Some i \<and> covered (cw_heap w' ! i) = sn_tokens_pending_anchor s + sn_local_delivered s))"

lemma refresh_grows:
  assumes inv: "capacity_inv w" and i: "hm_get (cw_entries w) tc = Some i"
  shows "wp (refresh_entry cd io tc state deal cap i) (\<lambda>r w'. grows {} w w' \<and> reads tc r w') w"
proof -
  let ?e = "cw_heap w ! i"
  let ?flag = "\<lambda>w'. (cw_heap w' ! i)\<lparr>en_probe_accepted := dc_probe_accepted state\<rparr>"
  let ?post = "\<lambda>r w'. case r of Inl x \<Rightarrow> grows {} w w'
     | Inr _ \<Rightarrow> grows {} w (put_entry i (?flag w') w')
         \<and> reads tc (Inr (Some (snapshot_of_record (en_record (?flag w')))) :: (capacity_snapshot option, capacity_error) result) (put_entry i (?flag w') w')"
  note l = inv_lookup [OF inv i]
  have flagged: "?post (Inr ()) w'" if "grows {} w w'" "cw_entries w' = cw_entries w" for w'
    using that l i
    by (auto simp: grows_def put_entry_def nth_list_update covered_def reads_def snapshot_of_record_def)
  have commit: "wp (commit_record cd io i c) ?post w"
    if c: "reconciled_record tc state deal cap (en_record ?e) = Inr c" "validate_record c = Inr ()" for c
  proof -
    have un: "en_unpersisted ?e \<le> cr_outstanding c" and tc: "cr_token_contract c = cr_token_contract (en_record ?e)"
      and cov: "cr_tokens_pending_anchor c + cr_local_delivered c = covered ?e + 0"
      using reconciled_fields [OF c(1)] inv_entry [OF inv, of i] l by (simp_all add: entry_ok_def covered_def)
    have "i < length (cw_heap w)" using l by simp
    from commit_settles [OF inv this tc un cov, of cd io] have "wp (commit_valid cd io i c) ?post w"
    proof (rule wp_mono, goal_cases)
      case (1 r w')
      then show ?case using flagged [of w'] by (cases r) (simp_all add: only_entry_def)
    qed
    then show ?thesis using c(2) by (simp add: commit_valid_def wp_simps)
  qed
  have nt: "\<not> en_terminal ?e" using l by simp
  show ?thesis
  proof (cases "and_then (reconciled_record tc state deal cap (en_record ?e)) (\<lambda>c. and_then (validate_record c) (\<lambda>_. Inr c))")
    case (Inl x)
    then show ?thesis by (auto simp: refresh_entry_def wp_simps Let_def result_simps reads_def)
  next
    case (Inr c)
    then have c: "reconciled_record tc state deal cap (en_record ?e) = Inr c" "validate_record c = Inr ()"
      by (auto simp: result_simps)
    have "wp (if c \<noteq> en_record ?e then commit_record cd io i c else run_pure (Inr ())) ?post w"
      using commit [OF c] flagged [of w] by (simp add: wp_simps)
    then have "wp (if c \<noteq> en_record ?e then commit_record cd io i c else run_pure (Inr ()))
      (\<lambda>r w'. case r of Inl x \<Rightarrow> grows {} w w' \<and> reads tc (Inl x :: (capacity_snapshot option, capacity_error) result) w'
        | Inr _ \<Rightarrow> grows {} w (put_entry i (?flag w') w')
           \<and> reads tc (Inr (Some (snapshot_of_record (en_record (?flag w')))) :: (capacity_snapshot option, capacity_error) result) (put_entry i (?flag w') w')) w"
      by (rule wp_mono) (simp add: reads_def split: sum.splits)
    then show ?thesis
      unfolding refresh_entry_def Let_def wp_get wp_then wp_pure wp_modify wp_if
      using nt c by (simp only: if_False sum.case)
  qed
qed

lemma reconcile_grows:
  assumes inv: "capacity_inv w"
  shows "wp (reconcile_deal cd readable io tc state deal)
     (\<lambda>r w'. grows (if is_stopped state then {} else {tc}) w w' \<and> reads tc r w') w"
proof -
  have "wp (register_entry cd readable tc state deal cap)
     (\<lambda>r w'. case r of Inl e \<Rightarrow> grows {tc} w w'
        | Inr i \<Rightarrow> wp (refresh_entry cd io tc state deal cap i) (\<lambda>r w'. grows {tc} w w' \<and> reads tc r w') w') w"
    if live: "validate_live_deal_shape state deal = Inr ()" "authoritative_cap state deal = Inr cap" for cap
  proof -
    have "wp (register_entry cd readable tc state deal cap) (\<lambda>r w'. (capacity_inv w' \<and> (\<forall>i. r = Inr i \<longrightarrow> hm_get (cw_entries w') tc = Some i))
        \<and> grows {tc} w w') w"
      using register_keeps [OF inv fresh_record_ok [OF live, of tc], of cd readable] register_grows [of cd readable tc state deal cap w]
      by (auto simp: wp_def split: prod.splits)
    then show ?thesis
    proof (rule wp_mono, goal_cases)
      case (1 r w')
      show ?case
      proof (cases r)
        case (Inr i)
        then have "wp (refresh_entry cd io tc state deal cap i) (\<lambda>r w''. grows {} w' w'' \<and> reads tc r w'') w'"
          using 1 by (intro refresh_grows) auto
        then show ?thesis using 1 Inr grows_trans [OF _ _ inv] by (auto elim!: wp_mono)
      qed (use 1 in simp)
    qed
  qed
  moreover have "wp (mark_terminal io tc) (\<lambda>r w'. case r of Inl e \<Rightarrow> grows {} w w' | Inr _ \<Rightarrow> grows {} w w') w"
    using mark_terminal_grows [OF inv] by (rule wp_mono) (simp split: sum.splits)
  ultimately show ?thesis
    by (auto simp: reconcile_deal_def wp_simps reads_def split: sum.splits)
qed

end
