(* ===== verification/GatewayProps.thy ===== *)
theory GatewayProps
  imports Gateway CapacityTrace
begin

text \<open>
  The gateway over the capacity ledger: the counter that the claim driver reads never runs ahead of
  what the ledger has durably recorded, over every interleaving of registrations, chain reads,
  admissions, bills, failures and withdrawals.
\<close>

section \<open>The gateway as a transition system\<close>

datatype 'key gateway_event =
    GwRegister token_contract 'key nat deal_chain_state deal_subscription claim_bounds bool io nat
  | GwUnregister token_contract
  | GwReconcile token_contract deal_chain_state deal_subscription bool io
  | GwReconcileOrdinary token_contract deal_chain_state bool io
  | GwTerminal token_contract io
  | GwProbe token_contract nat io
  | GwCounters token_contract
  | GwChallenge nonce token_contract bool
  | GwOpen stream_request io nat nat
  | GwBill nat nat bool io
  | GwFinish nat delivery_finish io io
  | GwClose nat
  | GwRetry nat token_contract nat
  | GwChainDown

text \<open>A task can act while its reservation has not been dropped.\<close>

definition task_live :: "('b, 'key, 'up) gateway_state \<Rightarrow> nat \<Rightarrow> bool" where
  "task_live g k \<longleftrightarrow> k < length (gs_tasks g) \<and> usable (gs_capacity g) (rt_request (gs_tasks g ! k))"

fun gateway_step ::
    "('key \<Rightarrow> string \<Rightarrow> string \<Rightarrow> bool) \<Rightarrow> ('up, 'req, 'p) upstream_ops \<Rightarrow> 'b capacity_codec \<Rightarrow> 'key gateway_event
     \<Rightarrow> ('b, 'key, 'up) gateway_state \<Rightarrow> ('b, 'key, 'up) gateway_state" where
  "gateway_step verify ops cd (GwRegister tc key n state deal bounds readable io now) g =
     snd (register_stream_with_claim_bounds cd readable io now tc key n state deal bounds g)"
| "gateway_step verify ops cd (GwUnregister tc) g = unregister_stream tc g"
| "gateway_step verify ops cd (GwReconcile tc state deal readable io) g = snd (reconcile_deal_capacity cd readable io tc state deal g)"
| "gateway_step verify ops cd (GwReconcileOrdinary tc state readable io) g = snd (reconcile_ordinary_capacity cd readable io tc state g)"
| "gateway_step verify ops cd (GwTerminal tc io) g = snd (mark_deal_terminal io tc g)"
| "gateway_step verify ops cd (GwProbe tc n io) g = snd (prepare_probe_capacity cd io tc n g)"
| "gateway_step verify ops cd (GwCounters tc) g = snd (delivery tc g :: (nat, unit) result \<times> _)"
| "gateway_step verify ops cd (GwChallenge nonce tc only) g = snd (get_challenge nonce tc only g)"
| "gateway_step verify ops cd (GwOpen req io unix_now now) g = snd (open_stream verify ops cd io unix_now now req g)"
| "gateway_step verify ops cd (GwBill k tokens exhausted io) g =
     (if task_live g k then let t = gs_tasks g ! k in snd (complete_billing cd io (rt_request t) (rt_delivery t) tokens exhausted g) else g)"
| "gateway_step verify ops cd (GwFinish k fin io io2) g =
     (if task_live g k then let t = gs_tasks g ! k in snd (record_finished cd io io2 (rt_request t) (rt_delivery t) fin g) else g)"
| "gateway_step verify ops cd (GwClose k) g = (if task_live g k then close_task (rt_request (gs_tasks g ! k)) g else g)"
| "gateway_step verify ops cd (GwRetry now tc d) g = schedule_capacity_retry now tc d g"
| "gateway_step verify ops cd GwChainDown g = report_chain_unavailable g"

text \<open>
  What the seller keeps to: a deal that it has marked terminal is not brought back by a live chain
  read before it has been unregistered.  Token counts of a bill are \<open>u64\<close>.
\<close>

definition may_read :: "token_contract \<Rightarrow> deal_chain_state \<Rightarrow> ('b, 'key, 'up) gateway_state \<Rightarrow> bool" where
  "may_read tc state g \<longleftrightarrow>
     is_stopped state \<or> hm_contains (cw_entries (gs_capacity g)) tc \<or> \<not> hm_contains (gs_delivered g) tc"

fun orderly :: "'key gateway_event \<Rightarrow> ('b, 'key, 'up) gateway_state \<Rightarrow> bool" where
  "orderly (GwRegister tc key n state deal bounds readable io now) g = may_read tc state g"
| "orderly (GwReconcile tc state deal readable io) g = may_read tc state g"
| "orderly (GwReconcileOrdinary tc state readable io) g = may_read tc state g"
| "orderly (GwBill k tokens exhausted io) g = (tokens \<le> u64_max)"
| "orderly _ g = True"

primrec orderly_run ::
    "('key \<Rightarrow> string \<Rightarrow> string \<Rightarrow> bool) \<Rightarrow> ('up, 'req, 'p) upstream_ops \<Rightarrow> 'b capacity_codec \<Rightarrow> 'key gateway_event list
     \<Rightarrow> ('b, 'key, 'up) gateway_state \<Rightarrow> bool" where
  "orderly_run verify ops cd [] g = True"
| "orderly_run verify ops cd (e # es) g = (orderly e g \<and> orderly_run verify ops cd es (gateway_step verify ops cd e g))"

definition gateway_run ::
    "('key \<Rightarrow> string \<Rightarrow> string \<Rightarrow> bool) \<Rightarrow> ('up, 'req, 'p) upstream_ops \<Rightarrow> 'b capacity_codec \<Rightarrow> 'key gateway_event list
     \<Rightarrow> ('b, 'key, 'up) gateway_state \<Rightarrow> ('b, 'key, 'up) gateway_state" where
  "gateway_run verify ops cd es g = foldl (\<lambda>g e. gateway_step verify ops cd e g) g es"


section \<open>The invariant\<close>

text \<open>A task acts on the entry that its contract has now, or on one that is terminal.\<close>

definition task_ok :: "('b, 'key, 'up) gateway_state \<Rightarrow> relay_task \<Rightarrow> bool" where
  "task_ok g t \<longleftrightarrow>
     rt_request t < length (cw_requests (gs_capacity g)) \<and> rt_delivery t < length (gs_deliveries g)
     \<and> (\<forall>tc. hm_get (gs_delivered g) tc = Some (rt_delivery t) \<longrightarrow> tc = rt_token_contract t)
     \<and> (let i = rq_entry (cw_requests (gs_capacity g) ! rt_request t) in
        en_terminal (cw_heap (gs_capacity g) ! i) \<or> hm_get (cw_entries (gs_capacity g)) (rt_token_contract t) = Some i)"

definition counters_ok :: "('b, 'key, 'up) gateway_state \<Rightarrow> bool" where
  "counters_ok g \<longleftrightarrow>
     (\<forall>tc d. hm_get (gs_delivered g) tc = Some d \<longrightarrow> d < length (gs_deliveries g)
        \<and> (\<forall>tc'. hm_get (gs_delivered g) tc' = Some d \<longrightarrow> tc' = tc)
        \<and> (\<forall>i. hm_get (cw_entries (gs_capacity g)) tc = Some i \<longrightarrow>
              dd_count (gs_deliveries g ! d) \<le> covered (cw_heap (gs_capacity g) ! i)))"

lemma counters_okI:
  assumes "\<And>tc d. hm_get (gs_delivered g) tc = Some d \<Longrightarrow> d < length (gs_deliveries g)"
    and "\<And>tc tc' d. hm_get (gs_delivered g) tc = Some d \<Longrightarrow> hm_get (gs_delivered g) tc' = Some d \<Longrightarrow> tc' = tc"
    and "\<And>tc d i. hm_get (gs_delivered g) tc = Some d \<Longrightarrow> hm_get (cw_entries (gs_capacity g)) tc = Some i \<Longrightarrow>
           dd_count (gs_deliveries g ! d) \<le> covered (cw_heap (gs_capacity g) ! i)"
  shows "counters_ok g"
  using assms by (simp add: counters_ok_def)

lemma counters_okD:
  assumes "counters_ok g" and "hm_get (gs_delivered g) tc = Some d"
  shows "d < length (gs_deliveries g)" and "hm_get (gs_delivered g) tc' = Some d \<Longrightarrow> tc' = tc"
    and "hm_get (cw_entries (gs_capacity g)) tc = Some i \<Longrightarrow> dd_count (gs_deliveries g ! d) \<le> covered (cw_heap (gs_capacity g) ! i)"
  using assms by (simp_all add: counters_ok_def)

definition gateway_inv :: "('b, 'key, 'up) gateway_state \<Rightarrow> bool" where
  "gateway_inv g \<longleftrightarrow>
     capacity_inv (gs_capacity g) \<and> gs_max_concurrent g \<le> u32_max \<and> counters_ok g \<and> (\<forall>t\<in>set (gs_tasks g). task_ok g t)"

lemmas gateway_inv_defs = gateway_inv_def counters_ok_def task_ok_def Let_def

lemma gateway_inv_new: "gateway_inv (with_capacity up (manager_new dir fs))"
  using capacity_inv_new [of dir fs]
  by (simp add: gateway_inv_defs with_capacity_def hm_simps SELLER_MAX_CONCURRENT_REQUESTS_PER_DEAL_def u32_max_def)

lemma gateway_inv_frame [simp]:
  "gateway_inv (g\<lparr>gs_auth := a\<rparr>) = gateway_inv g" "gateway_inv (g\<lparr>gs_limits := l\<rparr>) = gateway_inv g"
  "gateway_inv (g\<lparr>gs_upstreams := u\<rparr>) = gateway_inv g" "gateway_inv (g\<lparr>gs_chain_unavailable := b\<rparr>) = gateway_inv g"
  by (simp_all add: gateway_inv_defs)

lemma gateway_inv_retry [simp]: "gateway_inv (update_retry tc f g) = gateway_inv g"
  by (simp add: update_retry_def split: option.splits)

text \<open>Counters of a contract that is withdrawn stay with the tasks that hold them.\<close>

lemma unregister_inv: "gateway_inv g \<Longrightarrow> gateway_inv (unregister_stream tc g)"
  by (auto simp: gateway_inv_defs unregister_stream_def hm_simps)

text \<open>The ledger may move on under the gateway, if it adds no entry below existing counters.\<close>

lemma capacity_step_gateway:
  assumes inv: "gateway_inv g" and c: "capacity_inv c" "grows S (gs_capacity g) c"
    and new: "\<And>tc. tc \<in> S \<Longrightarrow> hm_get (cw_entries (gs_capacity g)) tc = None \<Longrightarrow> hm_get (gs_delivered g) tc = None"
  shows "gateway_inv (g\<lparr>gs_capacity := c\<rparr>)"
proof -
  let ?c = "gs_capacity g"
  have cap: "capacity_inv ?c" and ok: "counters_ok g" using inv by (simp_all add: gateway_inv_def)
  have "dd_count (gs_deliveries g ! d) \<le> covered (cw_heap c ! i)"
    if d: "hm_get (gs_delivered g) tc = Some d" and i: "hm_get (cw_entries c) tc = Some i" for tc d i
  proof (cases "hm_get (cw_entries ?c) tc")
    case None
    then show ?thesis using grows_absent [OF c(2), of tc] new [of tc] d i by fastforce
  next
    case (Some j)
    then have "j = i" using grows_entries [OF c(2) Some] i by simp
    then show ?thesis
      using ok counters_okD(3) [OF ok d Some] grows_entry [OF c(2), of j] inv_lookup [OF cap Some] by simp
  qed
  moreover have "task_ok (g\<lparr>gs_capacity := c\<rparr>) t" if t: "task_ok g t" for t
  proof -
    let ?i = "rq_entry (cw_requests ?c ! rt_request t)"
    have q: "rt_request t < length (cw_requests ?c)" using t by (simp add: task_ok_def)
    have i: "?i < length (cw_heap ?c)" using inv_request [OF cap q] by simp
    show ?thesis
      using t grows_request [OF c(2) q] grows_entry [OF c(2) i] grows_entries [OF c(2), of "rt_token_contract t" ?i]
      by (auto simp: task_ok_def Let_def)
  qed
  moreover from calculation have "counters_ok (g\<lparr>gs_capacity := c\<rparr>)"
    using counters_okD(1,2) [OF ok] by (intro counters_okI) simp_all
  ultimately show ?thesis using inv c(1) by (simp add: gateway_inv_def)
qed

lemma wp_in_capacity [wp_simps]:
  "wp (in_capacity f m) q g = wp m (\<lambda>r c. q (map_err f r) (g\<lparr>gs_capacity := c\<rparr>)) (gs_capacity g)"
  by (simp add: wp_def in_capacity_def split: prod.splits)

lemma wp_conj: "wp m p w \<Longrightarrow> wp m q w \<Longrightarrow> wp m (\<lambda>r w'. p r w' \<and> q r w') w"
  by (simp add: wp_def split: prod.splits)

text \<open>Fetching the counters of a contract.\<close>

lemma delivery_ok:
  assumes inv: "gateway_inv g"
  shows "wp (delivery tc) (\<lambda>r g'. gateway_inv g' \<and> gs_capacity g' = gs_capacity g \<and> gs_tasks g' = gs_tasks g
     \<and> (\<forall>d. r = Inr d \<longrightarrow> hm_get (gs_delivered g') tc = Some d)) g"
proof (cases "hm_get (gs_delivered g) tc")
  case (Some d)
  then show ?thesis using inv by (simp add: wp_def delivery_def)
next
  case None
  let ?n = "length (gs_deliveries g)"
  let ?g = "g\<lparr>gs_delivered := hm_insert tc ?n (gs_delivered g), gs_deliveries := gs_deliveries g @ [deal_delivery_default]\<rparr>"
  have ok: "counters_ok g" using inv by (simp add: gateway_inv_def)
  have "counters_ok ?g"
    by (rule counters_okI)
      (auto simp: hm_simps nth_append deal_delivery_default_def dest: counters_okD [OF ok] less_SucI split: if_splits)
  moreover have "task_ok ?g t" if "task_ok g t" for t
    using that by (auto simp: task_ok_def Let_def hm_simps)
  ultimately have "gateway_inv ?g" using inv by (simp add: gateway_inv_def)
  then show ?thesis using None by (simp add: wp_def delivery_def Let_def hm_simps)
qed

text \<open>New values for the counters of a task, or of a contract.\<close>

lemma put_delivery_inv:
  assumes inv: "gateway_inv g"
    and le: "\<And>tc i. hm_get (gs_delivered g) tc = Some d \<Longrightarrow> hm_get (cw_entries (gs_capacity g)) tc = Some i \<Longrightarrow>
        dd_count dd \<le> covered (cw_heap (gs_capacity g) ! i)"
  shows "gateway_inv (put_delivery d dd g)"
proof -
  have ok: "counters_ok g" using inv by (simp add: gateway_inv_def)
  have count: "dd_count ((gs_deliveries g)[d := dd] ! d') \<le> covered (cw_heap (gs_capacity g) ! i)"
    if "hm_get (gs_delivered g) tc = Some d'" "hm_get (cw_entries (gs_capacity g)) tc = Some i" for tc d' i
    using that le [of tc i] counters_okD(1) [OF ok that(1)] counters_okD(3) [OF ok that(1,2)] by (cases "d' = d") simp_all
  have "counters_ok (put_delivery d dd g)"
    by (rule counters_okI) (use counters_okD(1,2) [OF ok] count in \<open>simp_all add: put_delivery_def\<close>)
  moreover have "task_ok (put_delivery d dd g) t" if "task_ok g t" for t
    using that by (simp add: task_ok_def put_delivery_def)
  ultimately show ?thesis using inv by (simp add: gateway_inv_def put_delivery_def)
qed


section \<open>Every call keeps it\<close>

lemma inv_capacity: "gateway_inv g \<Longrightarrow> capacity_inv (gs_capacity g)"
  by (simp add: gateway_inv_def)

lemma may_read_new:
  assumes "may_read tc state g" and "tc' \<in> (if is_stopped state then {} else {tc})"
    and "hm_get (cw_entries (gs_capacity g)) tc' = None"
  shows "hm_get (gs_delivered g) tc' = None"
  using assms by (cases "hm_get (gs_delivered g) tc'") (auto simp: may_read_def hm_contains_iff split: if_splits)

lemma reconcile_gateway:
  assumes inv: "gateway_inv g" and "may_read tc state g"
  shows "wp (in_capacity CapacityFailed (reconcile_deal cd readable io tc state deal))
     (\<lambda>r g'. gateway_inv g' \<and> reads tc r (gs_capacity g')) g"
  unfolding wp_in_capacity
  by (rule wp_mono [OF wp_conj [OF reconcile_keeps [OF inv_capacity [OF inv]] reconcile_grows [OF inv_capacity [OF inv]]]])
    (use capacity_step_gateway [OF inv] may_read_new [OF assms(2)] in \<open>auto simp: reads_def map_err_eq_Inr\<close>)

lemma reconcile_deal_capacity_inv:
  assumes inv: "gateway_inv g" and read: "may_read tc state g"
  shows "wp (reconcile_deal_capacity cd readable io tc state deal) (\<lambda>_. gateway_inv) g"
proof -
  have "wp (in_capacity CapacityFailed (reconcile_deal cd readable io tc state deal)) (\<lambda>_. gateway_inv) g"
    by (rule wp_mono [OF reconcile_gateway [OF inv read]]) simp
  then show ?thesis
    by (auto simp: reconcile_deal_capacity_def wp_then wp_modify wp_pure elim!: wp_mono split: sum.splits)
qed

lemma mark_terminal_gateway:
  assumes inv: "gateway_inv g"
  shows "wp (mark_deal_terminal io tc) (\<lambda>_. gateway_inv) g"
  unfolding mark_deal_terminal_def wp_in_capacity
  by (rule wp_mono [OF wp_conj [OF mark_terminal_keeps [OF inv_capacity [OF inv]] mark_terminal_grows [OF inv_capacity [OF inv]]]])
    (use capacity_step_gateway [OF inv] in auto)

lemma prepare_gateway:
  assumes inv: "gateway_inv g"
  shows "wp (prepare_probe_capacity cd io tc n) (\<lambda>_. gateway_inv) g"
  unfolding prepare_probe_capacity_def wp_in_capacity
  by (rule wp_mono [OF wp_conj [OF prepare_keeps [OF inv_capacity [OF inv]] prepare_grows [OF inv_capacity [OF inv]]]])
    (use capacity_step_gateway [OF inv] in auto)

lemma register_inv:
  assumes inv: "gateway_inv g" and read: "may_read tc state g"
  shows "wp (register_stream_with_claim_bounds cd readable io now tc key n state deal bounds) (\<lambda>_. gateway_inv) g"
  unfolding register_stream_with_claim_bounds_def wp_then
proof (rule wp_mono [OF reconcile_gateway [OF inv read]], goal_cases)
  case (1 r g1)
  show ?case
  proof (cases r)
    case (Inr found)
    show ?thesis
    proof (cases "Option.bind found (\<lambda>s. Option.bind (checked_add u128_max (sn_tokens_pending_anchor s) (sn_local_delivered s)) (try_from u64_max))")
      case None
      then show ?thesis using 1 Inr by (cases found) (simp_all add: wp_simps)
    next
      case (Some durable)
      then obtain s where s: "found = Some s" "durable = sn_tokens_pending_anchor s + sn_local_delivered s"
        by (auto simp: bind_eq_Some_conv checked_simps)
      then obtain i where i: "hm_get (cw_entries (gs_capacity g1)) tc = Some i" "covered (cw_heap (gs_capacity g1) ! i) = durable"
        using 1 Inr by (auto simp: reads_def)
      let ?g = "\<lambda>l. g1\<lparr>gs_limits := l, gs_auth := auth_register tc key (gs_auth g1)\<rparr>"
      have "wp (delivery tc) (\<lambda>r g'. case r of Inl (e :: gateway_error) \<Rightarrow> gateway_inv g'
          | Inr d \<Rightarrow> wp (run_modify (\<lambda>g. put_delivery d ((gs_deliveries g ! d)\<lparr>dd_count := durable\<rparr>) g) :: (unit, gateway_error, _) run)
               (\<lambda>_. gateway_inv) g') (?g l)" for l
      proof (rule wp_mono [OF delivery_ok], goal_cases)
        case (2 r g')
        have "gateway_inv (put_delivery d ((gs_deliveries g' ! d)\<lparr>dd_count := durable\<rparr>) g')" if d: "r = Inr d" for d
        proof (rule put_delivery_inv)
          fix tc' j
          assume *: "hm_get (gs_delivered g') tc' = Some d" "hm_get (cw_entries (gs_capacity g')) tc' = Some j"
          have "tc' = tc" using 2 d counters_okD(2) [of g' tc d tc'] * by (auto simp: gateway_inv_def)
          then show "dd_count ((gs_deliveries g' ! d)\<lparr>dd_count := durable\<rparr>) \<le> covered (cw_heap (gs_capacity g') ! j)"
            using i * 2 by simp
        qed (use 2 in simp)
        then show ?case using 2 by (simp add: wp_modify split: sum.splits)
      qed (use 1 in simp)
      then show ?thesis
        using Inr s(1) Some by (simp add: wp_simps Let_def)
    qed
  qed (use 1 in simp)
qed


text \<open>Admission gives a request on the entry that the contract has now.\<close>

lemma admission_inv:
  fixes g :: "('b, 'key, 'up) gateway_state"
  assumes inv: "gateway_inv g"
  shows "wp (admit_stream cd io unix_now now req d :: (nat, 'p stream_refusal, ('b, 'key, 'up) gateway_state) run) (\<lambda>r g'. gateway_inv g' \<and> gs_delivered g' = gs_delivered g
     \<and> (\<forall>q. r = Inr q \<longrightarrow> usable (gs_capacity g') q
          \<and> hm_get (cw_entries (gs_capacity g')) (sr_token_contract req) = Some (rq_entry (cw_requests (gs_capacity g') ! q)))) g"
proof -
  let ?tc = "sr_token_contract req"
  have step: "gateway_inv (g\<lparr>gs_capacity := c\<rparr>)" if "capacity_inv c" "admits ?tc r (gs_capacity g) c" for r :: "(nat, reserve_error) result" and c
    using capacity_step_gateway [OF inv that(1), of "{}"] that(2) by (simp add: admits_def)
  have "gs_max_concurrent g \<le> u32_max" using inv by (simp add: gateway_inv_def)
  note adm = wp_conj [OF admit_keeps [OF inv_capacity [OF inv] this, of ?tc "sr_billing_grant_tokens req"] admit_admits]
  note res = wp_conj [OF reserve_keeps [OF inv_capacity [OF inv], of cd io ?tc "sr_billing_grant_tokens req" True] reserve_admits [OF inv_capacity [OF inv]]]
  have "wp (in_capacity f (admit_shared ?tc (sr_billing_grant_tokens req) (gs_max_concurrent g))) (\<lambda>r g'. gateway_inv g'
     \<and> gs_delivered g' = gs_delivered g \<and> (\<forall>q. r = Inr q \<longrightarrow> usable (gs_capacity g') q
          \<and> hm_get (cw_entries (gs_capacity g')) ?tc = Some (rq_entry (cw_requests (gs_capacity g') ! q)))) g" for f :: "reserve_error \<Rightarrow> 'p stream_refusal"
    unfolding wp_in_capacity by (rule wp_mono [OF adm]) (auto simp: map_err_eq_Inr admits_def intro!: step [unfolded admits_def])
  moreover have "wp (in_capacity f (reserve_inner cd io ?tc (sr_billing_grant_tokens req) True)) (\<lambda>r g'. gateway_inv g'
     \<and> gs_delivered g' = gs_delivered g \<and> (\<forall>q. r = Inr q \<longrightarrow> usable (gs_capacity g') q
          \<and> hm_get (cw_entries (gs_capacity g')) ?tc = Some (rq_entry (cw_requests (gs_capacity g') ! q)))) g" for f :: "reserve_error \<Rightarrow> 'p stream_refusal"
    unfolding wp_in_capacity by (rule wp_mono [OF res]) (auto simp: map_err_eq_Inr admits_def intro!: step [unfolded admits_def])
  ultimately show ?thesis
    using inv by (simp add: admit_stream_def wp_get wp_if wp_pure Let_def)
qed

text \<open>The tail of \<open>open_stream\<close>: counters, admission, the new task.\<close>

lemma spawn_inv:
  assumes inv: "gateway_inv g"
  shows "wp (run_then (delivery (sr_token_contract req)) (\<lambda>d.
     run_then (admit_stream cd io unix_now now req d) (\<lambda>q.
     run_get (\<lambda>g'.
       run_then (run_modify (\<lambda>g. g\<lparr>gs_tasks := gs_tasks g @ [\<lparr>rt_token_contract = sr_token_contract req, rt_request = q, rt_delivery = d, rt_grant = n g' q\<rparr>]\<rparr>)) (\<lambda>_.
       run_pure (Inr (length (gs_tasks g')))))))) (\<lambda>_. gateway_inv) g"
  unfolding wp_then
proof (rule wp_mono [OF delivery_ok [OF inv]], goal_cases)
  case (1 r g1)
  show ?case
  proof (cases r)
    case (Inr d)
    have d: "gateway_inv g1" "hm_get (gs_delivered g1) (sr_token_contract req) = Some d" using 1 Inr by simp_all
    have "gateway_inv (g2\<lparr>gs_tasks := gs_tasks g2 @ [\<lparr>rt_token_contract = sr_token_contract req, rt_request = q, rt_delivery = d, rt_grant = m\<rparr>]\<rparr>)"
      if g2: "gateway_inv g2" "gs_delivered g2 = gs_delivered g1" "usable (gs_capacity g2) q"
        "hm_get (cw_entries (gs_capacity g2)) (sr_token_contract req) = Some (rq_entry (cw_requests (gs_capacity g2) ! q))" for g2 q m
    proof -
      have ok: "counters_ok g2" "hm_get (gs_delivered g2) (sr_token_contract req) = Some d" using g2 d by (simp_all add: gateway_inv_def)
      have "task_ok g2 \<lparr>rt_token_contract = sr_token_contract req, rt_request = q, rt_delivery = d, rt_grant = m\<rparr>"
        using counters_okD(1) [OF ok] counters_okD(2) [OF ok] g2(3,4) by (simp add: task_ok_def usable_def)
      then show ?thesis using g2(1) by (simp add: gateway_inv_def counters_ok_def task_ok_def)
    qed
    then show ?thesis
      using Inr by (auto simp: wp_simps intro!: wp_mono [OF admission_inv [OF d(1)]] split: sum.splits)
  qed (use 1 in simp)
qed

lemma gateway_open_inv:
  assumes inv: "gateway_inv g"
  shows "wp (open_stream verify ops cd io unix_now now req) (\<lambda>_. gateway_inv) g"
proof -
  obtain ok a where v: "verify_response verify (sr_token_contract req) (sr_nonce req) (sr_signature req) (gs_auth g) = (ok, a)" by fastforce
  have "gateway_inv (g\<lparr>gs_auth := a\<rparr>)" using inv by simp
  note spawn = spawn_inv [OF this, of req cd io unix_now now "\<lambda>g' q. rq_initial (cw_requests (gs_capacity g') ! q)"]
  show ?thesis
    using inv
    by (simp add: spawn open_stream_def v Let_def wp_if wp_pure wp_get wp_modify_then wp_pure_then map_err_def split: option.splits sum.splits)
qed


text \<open>A terminal entry takes no more charge.\<close>

lemma finish_with_terminal:
  "en_terminal (cw_heap w ! rq_entry (cw_requests w ! q)) \<Longrightarrow> wp (finish_with_delivery cd io q tokens) (\<lambda>r w'. \<not> is_ok r) w"
  by (simp add: finish_with_delivery_def finish_shared_def wp_simps Let_def)

lemma exact_terminal:
  "en_terminal (cw_heap w ! rq_entry (cw_requests w ! q)) \<Longrightarrow> wp (finish_exact cd io io2 q) (\<lambda>r w'. \<forall>c. r = Inr c \<longrightarrow> c = 0) w"
  by (simp add: finish_exact_def finish_shared_def wp_simps Let_def)

lemma ambiguous_terminal:
  "en_terminal (cw_heap w ! rq_entry (cw_requests w ! q)) \<Longrightarrow> wp (finish_ambiguous cd io q) (\<lambda>r w'. \<forall>c. r = Inr c \<longrightarrow> c = 0) w"
  by (simp add: finish_ambiguous_def finish_shared_def wp_simps Let_def)

text \<open>What a call of a task reports may be added to its counters.\<close>

definition may_add :: "relay_task \<Rightarrow> ('b, 'key, 'up) gateway_state \<Rightarrow> (nat, 'e) result \<Rightarrow> ('b, 'key, 'up) gateway_state \<Rightarrow> bool" where
  "may_add t g r g' \<longleftrightarrow> gateway_inv g' \<and> gs_deliveries g' = gs_deliveries g \<and> gs_tasks g' = gs_tasks g
     \<and> (\<forall>c dd. r = Inr c \<longrightarrow> dd_count dd \<le> dd_count (gs_deliveries g ! rt_delivery t) + c \<longrightarrow> gateway_inv (put_delivery (rt_delivery t) dd g'))"

lemma settle_may_add:
  assumes inv: "gateway_inv g" and t: "t \<in> set (gs_tasks g)" and c: "capacity_inv c"
    and s: "settles (rq_entry (cw_requests (gs_capacity g) ! rt_request t)) r (gs_capacity g) c"
    and zero: "en_terminal (cw_heap (gs_capacity g) ! rq_entry (cw_requests (gs_capacity g) ! rt_request t)) \<Longrightarrow> \<forall>n. r = Inr n \<longrightarrow> n = 0"
  shows "may_add t g (map_err f r) (g\<lparr>gs_capacity := c\<rparr>)"
proof -
  let ?i = "rq_entry (cw_requests (gs_capacity g) ! rt_request t)"
  let ?g = "g\<lparr>gs_capacity := c\<rparr>"
  have ev: "grows {} (gs_capacity g) c" using s by (simp add: settles_def)
  have inv': "gateway_inv ?g" using capacity_step_gateway [OF inv c ev] by simp
  have ok: "counters_ok g" and cap: "capacity_inv (gs_capacity g)" and tok: "task_ok g t" using inv t by (simp_all add: gateway_inv_def)
  have "gateway_inv (put_delivery (rt_delivery t) dd ?g)"
    if r: "r = Inr n" and le: "dd_count dd \<le> dd_count (gs_deliveries g ! rt_delivery t) + n" for n dd
  proof (rule put_delivery_inv [OF inv'])
    fix tc j
    assume d: "hm_get (gs_delivered ?g) tc = Some (rt_delivery t)" and j: "hm_get (cw_entries (gs_capacity ?g)) tc = Some j"
    have tc: "tc = rt_token_contract t" using tok d by (simp add: task_ok_def)
    have old: "hm_get (cw_entries (gs_capacity g)) tc = Some j"
    proof (cases "hm_get (cw_entries (gs_capacity g)) tc")
      case None
      then show ?thesis using grows_absent [OF ev _ None] j by simp
    next
      case (Some k)
      then show ?thesis using grows_entries [OF ev Some] j by auto
    qed
    have count: "dd_count (gs_deliveries g ! rt_delivery t) \<le> covered (cw_heap (gs_capacity g) ! j)"
      using counters_okD(3) [OF ok _ old] d by simp
    show "dd_count dd \<le> covered (cw_heap (gs_capacity ?g) ! j)"
    proof (cases "j = ?i")
      case True
      then show ?thesis using s r le count by (simp add: settles_ok)
    next
      case False
      then have "en_terminal (cw_heap (gs_capacity g) ! ?i)" using tok old tc by (auto simp: task_ok_def Let_def)
      then have "n = 0" using zero r by simp
      then show ?thesis using le count grows_entry [OF ev, of j] inv_lookup [OF cap old] by simp
    qed
  qed
  then show ?thesis using inv' by (auto simp: may_add_def map_err_eq_Inr)
qed

lemma wrapping_add_le: "wrapping_add m a b \<le> a + b"
  by (simp add: wrapping_add_def)

lemma complete_billing_inv:
  assumes inv: "gateway_inv g" and live: "task_live g k" and "tokens \<le> u64_max"
  shows "wp (complete_billing cd io (rt_request (gs_tasks g ! k)) (rt_delivery (gs_tasks g ! k)) tokens exhausted) (\<lambda>_. gateway_inv) g"
proof -
  let ?t = "gs_tasks g ! k"
  let ?q = "rt_request ?t"
  have t: "?t \<in> set (gs_tasks g)" and u: "usable (gs_capacity g) ?q" using live by (simp_all add: task_live_def)
  have "wp (finish_with_delivery cd io ?q tokens) (\<lambda>r c. \<forall>n. en_terminal (cw_heap (gs_capacity g) ! rq_entry (cw_requests (gs_capacity g) ! ?q)) \<longrightarrow> r = Inr n \<longrightarrow> n = 0) (gs_capacity g)"
    using finish_with_terminal [of "gs_capacity g" ?q cd io tokens] by (auto simp: wp_def is_ok_iff split: prod.splits)
  note all = wp_conj [OF this wp_conj [OF finish_with_keeps [OF inv_capacity [OF inv] u] finish_with_settles [OF inv_capacity [OF inv] u assms(3)]]]
  have "wp (in_capacity CapacityFailed (finish_with_delivery cd io ?q tokens)) (may_add ?t g) g"
    unfolding wp_in_capacity by (rule wp_mono [OF all]) (auto intro!: settle_may_add [OF inv t])
  then show ?thesis
    using inv
    by (auto simp: complete_billing_def wp_get wp_pure_then wp_then wp_modify wp_pure Let_def may_add_def wrapping_add_le elim!: wp_mono split: sum.splits)
qed

lemma record_finished_inv:
  assumes inv: "gateway_inv g" and live: "task_live g k"
  shows "wp (record_finished cd io io2 (rt_request (gs_tasks g ! k)) (rt_delivery (gs_tasks g ! k)) fin) (\<lambda>_. gateway_inv) g"
proof -
  let ?t = "gs_tasks g ! k"
  let ?q = "rt_request ?t"
  let ?op = "case fin of Interrupted \<Rightarrow> finish_exact cd io io2 ?q | AmbiguousUsage \<Rightarrow> finish_ambiguous cd io ?q"
  have t: "?t \<in> set (gs_tasks g)" and u: "usable (gs_capacity g) ?q" using live by (simp_all add: task_live_def)
  note cap = inv_capacity [OF inv]
  have "wp ?op (\<lambda>r c. \<forall>n. en_terminal (cw_heap (gs_capacity g) ! rq_entry (cw_requests (gs_capacity g) ! ?q)) \<longrightarrow> r = Inr n \<longrightarrow> n = 0) (gs_capacity g)"
    using exact_terminal [of "gs_capacity g" ?q cd io io2] ambiguous_terminal [of "gs_capacity g" ?q cd io]
    by (cases fin) (auto simp: wp_def split: prod.splits)
  moreover have "wp ?op (\<lambda>r c. capacity_inv c) (gs_capacity g)"
    by (cases fin) (simp_all add: exact_keeps [OF cap u] ambiguous_keeps [OF cap u])
  moreover have "wp ?op (\<lambda>r c. settles (rq_entry (cw_requests (gs_capacity g) ! ?q)) r (gs_capacity g) c) (gs_capacity g)"
    by (cases fin) (simp_all add: exact_settles [OF cap u] ambiguous_settles [OF cap u])
  ultimately have all: "wp ?op (\<lambda>r c. (\<forall>n. en_terminal (cw_heap (gs_capacity g) ! rq_entry (cw_requests (gs_capacity g) ! ?q)) \<longrightarrow> r = Inr n \<longrightarrow> n = 0)
     \<and> capacity_inv c \<and> settles (rq_entry (cw_requests (gs_capacity g) ! ?q)) r (gs_capacity g) c) (gs_capacity g)"
    by (intro wp_conj)
  have "wp (in_capacity CapacityFailed ?op) (may_add ?t g) g"
    unfolding wp_in_capacity by (rule wp_mono [OF all]) (auto intro!: settle_may_add [OF inv t])
  then show ?thesis
    by (auto simp: record_finished_def wp_get wp_then wp_modify wp_pure Let_def may_add_def checked_authoritative_tokens_def ok_or_def checked_simps
        elim!: wp_mono split: sum.splits option.splits if_splits)
qed


lemma close_task_inv:
  assumes inv: "gateway_inv g" and live: "task_live g k"
  shows "gateway_inv (close_task (rt_request (gs_tasks g ! k)) g)"
proof -
  have u: "usable (gs_capacity g) (rt_request (gs_tasks g ! k))" using live by (simp add: task_live_def)
  show ?thesis
    unfolding close_task_def
    by (rule capacity_step_gateway [OF inv drop_keeps [OF inv_capacity [OF inv] u] drop_grows]) (use u in \<open>simp_all add: usable_def\<close>)
qed

lemma reconcile_ordinary_inv:
  assumes inv: "gateway_inv g" and "may_read tc state g"
  shows "wp (reconcile_ordinary_capacity cd readable io tc state) (\<lambda>_. gateway_inv) g"
  using assms by (auto simp: reconcile_ordinary_capacity_def wp_get wp_pure intro!: reconcile_deal_capacity_inv split: option.splits)

lemma counters_inv: "gateway_inv g \<Longrightarrow> wp (delivery tc :: (nat, unit, _) run) (\<lambda>_. gateway_inv) g"
  by (rule wp_mono [OF delivery_ok]) simp_all

lemmas snd_calls = snd_wp [OF register_inv] snd_wp [OF reconcile_deal_capacity_inv] snd_wp [OF reconcile_ordinary_inv]
  snd_wp [OF mark_terminal_gateway] snd_wp [OF prepare_gateway] snd_wp [OF counters_inv] snd_wp [OF gateway_open_inv]
  snd_wp [OF complete_billing_inv] snd_wp [OF record_finished_inv]

lemma gateway_step_inv:
  assumes "gateway_inv g" and "orderly e g"
  shows "gateway_inv (gateway_step verify ops cd e g)"
  using assms
  by (cases e) (simp_all add: snd_calls unregister_inv close_task_inv Let_def get_challenge_def
      schedule_capacity_retry_def report_chain_unavailable_def)

lemma gateway_run_inv:
  "gateway_inv g \<Longrightarrow> orderly_run verify ops cd es g \<Longrightarrow> gateway_inv (gateway_run verify ops cd es g)"
proof (induction es arbitrary: g)
  case (Cons e es)
  then have "gateway_inv (gateway_step verify ops cd e g)" by (simp add: gateway_step_inv)
  then show ?case using Cons.IH [of "gateway_step verify ops cd e g"] Cons.prems by (simp add: gateway_run_def)
qed (simp add: gateway_run_def)


section \<open>Properties\<close>

text \<open>
  Claim C17: the counter from which the seller claims never runs ahead of the durable record.  Whatever
  the gateway does, in any interleaving of registrations, chain reads, challenges, admissions,
  bills, failed and abandoned requests, withdrawn deals and failing writes, as long as a deal marked
  terminal is not revived by a live read before it is unregistered and no bill is above \<open>u64\<close> (\<open>orderly_run\<close>): the counter of a registered contract is at
  most what the ledger entry of that contract covers, the tokens anchored on the chain and those
  delivered since, and so at most the tokens that the buyer funded.
\<close>

theorem counter_never_outruns_ledger:
  assumes "orderly_run verify ops cd es (with_capacity up (manager_new dir fs))"
    and "g = gateway_run verify ops cd es (with_capacity up (manager_new dir fs))"
    and "hm_get (gs_delivered g) tc = Some d" and "hm_get (cw_entries (gs_capacity g)) tc = Some i"
  shows "let r = en_record (cw_heap (gs_capacity g) ! i) in
     dd_count (gs_deliveries g ! d) \<le> cr_tokens_pending_anchor r + cr_local_delivered r
     \<and> cr_tokens_pending_anchor r + cr_local_delivered r \<le> cr_funded_tokens r"
proof -
  have inv: "gateway_inv g" unfolding assms(2) by (rule gateway_run_inv [OF gateway_inv_new assms(1)])
  then have ok: "counters_ok g" and cap: "capacity_inv (gs_capacity g)" by (simp_all add: gateway_inv_def)
  have "i < length (cw_heap (gs_capacity g))" using inv_lookup [OF cap assms(4)] by simp
  from inv_entry [OF cap this] show ?thesis
    using counters_okD(3) [OF ok assms(3,4)] by (simp add: covered_def entry_ok_def record_ok_def Let_def)
qed


text \<open>A registered deal, an opened stream and its bill, with a signature check that accepts one key.\<close>

definition sample_request :: stream_request where
  "sample_request = \<lparr>sr_token_contract = ''0:ab'', sr_nonce = ''n'', sr_signature = replicate 64 CHR ''s'', sr_billing_grant_tokens = 2000,
     sr_shared_budget = False, sr_path = ''/v1/chat/completions'', sr_body = ''q'', sr_headers = []\<rparr>"

definition sample_ops :: "(unit, unit, unit) upstream_ops" where
  "sample_ops = \<lparr>up_is_mock = (\<lambda>_. False), up_provider_request = (\<lambda>_ _ _ _. Inr ())\<rparr>"

definition sample_verify :: "nat \<Rightarrow> string \<Rightarrow> string \<Rightarrow> bool" where
  "sample_verify key m s \<longleftrightarrow> key = length m"

definition sample_events :: "nat gateway_event list" where
  "sample_events = [GwRegister ''0:ab'' 6 0 sample_chain_state sample_deal claim_bounds_canonical True IoOk 0,
     GwChallenge ''n'' ''0:ab'' False, GwOpen sample_request IoOk 0 0, GwBill 0 1500 False IoOk, GwClose 0]"

lemma sample_reconcile:
  "reconcile_deal plain_capacity_codec True IoOk ''0:ab'' sample_chain_state sample_deal (manager_new None []) =
    (Inr (Some (snapshot_of_record (fresh_record ''0:ab'' sample_chain_state sample_deal (3 * TICK_SIZE)))),
     \<lparr>cw_store_dir = None, cw_entries = [(''0:ab'', 0)],
      cw_heap = [\<lparr>en_path = None, en_record = fresh_record ''0:ab'' sample_chain_state sample_deal (3 * TICK_SIZE), en_terminal = False,
                  en_probe_accepted = True, en_unpersisted = 0, en_active_shared = 0\<rparr>],
      cw_requests = [], cw_files = []\<rparr>)"
  by (simp add: capacity_eval capacity_consts Let_def hm_get_def hm_insert_def has_flag_def
      str_trim_def is_ascii_whitespace_def cong del: sum.case_cong)


definition sample_gateway :: "(capacity_record, nat, unit) gateway_state" where
  "sample_gateway = gateway_run sample_verify sample_ops plain_capacity_codec sample_events (with_capacity () (manager_new None []))"

lemmas gateway_eval =
  register_stream_with_claim_bounds_def in_capacity_def delivery_def put_delivery_def get_challenge_def open_stream_def admit_stream_def
  complete_billing_def close_task_def checked_authoritative_tokens_def request_active_def gateway_upstream_def
  drop_request_def finish_with_delivery_def with_capacity_def deal_delivery_default_def
  auth_new_def auth_register_def issue_challenge_def discard_challenge_def verify_response_def challenge_bytes_def
  HEALTH_CHALLENGE_TC_def task_live_def may_read_def sample_request_def sample_ops_def sample_verify_def

lemma sample_gateway_runs:
  "orderly_run sample_verify sample_ops plain_capacity_codec sample_events (with_capacity () (manager_new None []))
   \<and> hm_get (gs_delivered sample_gateway) ''0:ab'' = Some 0 \<and> hm_get (cw_entries (gs_capacity sample_gateway)) ''0:ab'' = Some 0
   \<and> dd_count (gs_deliveries sample_gateway ! 0) = 1001500"
  by (simp add: sample_gateway_def gateway_run_def sample_events_def gateway_eval sample_reconcile
      capacity_eval capacity_consts u64_max_def try_from_def wrapping_add_def Let_def hm_get_def hm_insert_def hm_contains_def has_flag_def
      str_trim_def is_ascii_whitespace_def cong del: sum.case_cong)

theorem counter_never_outruns_ledger_witness:
  "1001500 \<le> cr_funded_tokens (en_record (cw_heap (gs_capacity sample_gateway) ! 0))
   \<and> dd_count (gs_deliveries sample_gateway ! 0) = 1001500"
  using counter_never_outruns_ledger [OF _ sample_gateway_def, of "''0:ab''" 0 0] sample_gateway_runs
  by (simp add: Let_def)



section \<open>What the buyer is told is what was recorded\<close>

text \<open>The recorder of a task keeps the invariant of the gateway, its task and its reservation; so its relay does.\<close>

lemma put_delivery_frame [simp]: "gs_tasks (put_delivery d dd g) = gs_tasks g" "gs_capacity (put_delivery d dd g) = gs_capacity g"
  by (simp_all add: put_delivery_def)

lemma complete_billing_frame:
  "wp (complete_billing cd io q d tokens exhausted) (\<lambda>_ g'. gs_tasks g' = gs_tasks g \<and> handles (gs_capacity g') = handles (gs_capacity g)) g"
  unfolding complete_billing_def wp_get Let_def wp_pure_then wp_then wp_in_capacity
  by (auto simp: wp_modify wp_pure intro!: wp_mono [OF finish_with_handles] split: sum.splits)

lemma record_finished_frame:
  "wp (record_finished cd io io2 q d fin) (\<lambda>_ g'. gs_tasks g' = gs_tasks g \<and> handles (gs_capacity g') = handles (gs_capacity g)) g"
proof -
  have "wp (case fin of Interrupted \<Rightarrow> finish_exact cd io io2 q | AmbiguousUsage \<Rightarrow> finish_ambiguous cd io q)
      (\<lambda>_ c. handles c = handles (gs_capacity g)) (gs_capacity g)"
    by (cases fin) (simp_all add: exact_handles ambiguous_handles)
  then show ?thesis
    unfolding record_finished_def wp_then wp_in_capacity
    by (auto simp: wp_simps Let_def elim!: wp_mono split: sum.splits)
qed

definition task_served :: "relay_task \<Rightarrow> ('b, 'key, 'up) gateway_state \<Rightarrow> bool" where
  "task_served t g \<longleftrightarrow> gateway_inv g \<and> t \<in> set (gs_tasks g) \<and> usable (gs_capacity g) (rt_request t)"

lemma task_served_live: "task_served t g \<Longrightarrow> \<exists>k. task_live g k \<and> gs_tasks g ! k = t"
  by (auto simp: task_served_def task_live_def in_set_conv_nth)

lemma task_servedI:
  assumes "task_served t g" and "wp m (\<lambda>_. gateway_inv) g"
    and "wp m (\<lambda>_ g'. gs_tasks g' = gs_tasks g \<and> handles (gs_capacity g') = handles (gs_capacity g)) g"
  shows "task_served t (snd (m g))"
  using assms usable_handles by (auto simp: task_served_def wp_def split: prod.splits)

lemma complete_billing_served:
  assumes "task_served t g" and "tokens \<le> u64_max"
  shows "task_served t (snd (complete_billing cd io (rt_request t) (rt_delivery t) tokens exhausted g))"
proof -
  obtain k where k: "task_live g k" "gs_tasks g ! k = t" using task_served_live [OF assms(1)] by blast
  have "gateway_inv g" using assms(1) by (simp add: task_served_def)
  from complete_billing_inv [OF this k(1) assms(2)] show ?thesis
    unfolding k(2) by (rule task_servedI [OF assms(1) _ complete_billing_frame])
qed

lemma record_finished_served:
  assumes "task_served t g"
  shows "task_served t (snd (record_finished cd io io2 (rt_request t) (rt_delivery t) fin g))"
proof -
  obtain k where k: "task_live g k" "gs_tasks g ! k = t" using task_served_live [OF assms] by blast
  have "gateway_inv g" using assms by (simp add: task_served_def)
  from record_finished_inv [OF this k(1)] show ?thesis
    unfolding k(2) by (rule task_servedI [OF assms _ record_finished_frame])
qed

interpretation capacity_relay: delivery_recorder
  "capacity_recorder cd io io2 io3 shared (rt_request t) (rt_delivery t)" "\<lambda>g. task_served t g \<and> rt_grant t \<le> u64_max" "rt_grant t"
  for cd io io2 io3 shared t
  by unfold_locales (simp_all add: capacity_recorder_def complete_billing_served record_finished_served)

text \<open>A relay run in one piece, from admission to the drop of its reservation, keeps the invariant.\<close>

lemma relay_task_run_inv:
  assumes "gateway_inv g" and "t \<in> set (gs_tasks g)" and "usable (gs_capacity g) (rt_request t)" and "rt_grant t \<le> u64_max"
  shows "gateway_inv (snd (relay_task_run cd io io2 io3 t buyer is g))"
proof -
  let ?rc = "capacity_recorder cd io io2 io3 (rq_shared (cw_requests (gs_capacity g) ! rt_request t)) (rt_request t) (rt_delivery t)"
  obtain out g1 where c: "relay_counting ?rc (rt_grant t) buyer is g = (out, g1)" by fastforce
  have s: "task_served t g1"
    using capacity_relay.relay_keeps [of t g cd io io2 io3 "rq_shared (cw_requests (gs_capacity g) ! rt_request t)" buyer "is"] assms by (simp add: task_served_def c)
  then obtain k where "task_live g1 k" "gs_tasks g1 ! k = t" using task_served_live by blast
  then have "gateway_inv (close_task (rt_request t) g1)"
    using close_task_inv [of g1 k] s by (simp add: task_served_def)
  then show ?thesis by (simp add: relay_task_run_def Let_def c)
qed

text \<open>A successful bill moves the ledger and the counter by the same amount.\<close>

lemma complete_billing_exact:
  assumes cap: "capacity_inv (gs_capacity g)" and u: "usable (gs_capacity g) q" and d: "d < length (gs_deliveries g)"
    and run: "complete_billing cd io q d tokens exhausted g = (Inr charged, g')"
  shows "charged \<le> tokens \<and> dd_count (gs_deliveries g' ! d) = dd_count (gs_deliveries g ! d) + charged
     \<and> rq_entry (cw_requests (gs_capacity g') ! q) = rq_entry (cw_requests (gs_capacity g) ! q)
     \<and> covered (cw_heap (gs_capacity g') ! rq_entry (cw_requests (gs_capacity g) ! q))
       = covered (cw_heap (gs_capacity g) ! rq_entry (cw_requests (gs_capacity g) ! q)) + charged"
proof -
  let ?i = "rq_entry (cw_requests (gs_capacity g) ! q)"
  let ?before = "dd_count (gs_deliveries g ! d)"
  obtain r c where f: "finish_with_delivery cd io q tokens (gs_capacity g) = (r, c)" by fastforce
  note calls = complete_billing_def run_get_def run_then_def run_pure_def run_modify_def in_capacity_def put_delivery_def
    checked_authoritative_tokens_def checked_add_def Let_def
  have fit: "?before + tokens \<le> u64_max"
  proof (rule ccontr)
    assume "\<not> ?before + tokens \<le> u64_max"
    then show False using run by (simp add: calls)
  qed
  have "r = Inr charged \<and> gs_capacity g' = c \<and> dd_count (gs_deliveries g' ! d) = wrapping_add u64_max ?before charged"
  proof (cases r)
    case (Inl e)
    then show ?thesis using run fit f by (simp add: calls)
  next
    case (Inr n)
    then have "complete_billing cd io q d tokens exhausted g = (Inr n, put_delivery d ((gs_deliveries g ! d)\<lparr>dd_count := wrapping_add u64_max ?before n,
        dd_billing_exhausted := dd_billing_exhausted (gs_deliveries g ! d) \<or> exhausted \<or> n < tokens,
        dd_done := dd_done (gs_deliveries g ! d) \<or> (dd_billing_exhausted (gs_deliveries g ! d) \<or> exhausted \<or> n < tokens) \<and> request_active q c = 0\<rparr>)
        (g\<lparr>gs_capacity := c\<rparr>))"
      using fit f by (simp add: calls)
    then show ?thesis using run Inr d by (auto simp: put_delivery_def)
  qed
  then have r: "r = Inr charged" and g': "gs_capacity g' = c" "dd_count (gs_deliveries g' ! d) = wrapping_add u64_max ?before charged" by simp_all
  have "tokens \<le> u64_max" using fit by simp
  from wpD [OF finish_with_settles [OF cap u this] f] have s: "settles ?i (Inr charged :: (nat, capacity_error) result) (gs_capacity g) c" "charged \<le> tokens"
    using r by simp_all
  have "q < length (cw_requests (gs_capacity g))" using u by (simp add: usable_def)
  then have "rq_entry (cw_requests c ! q) = ?i"
    using grows_request [of "{}" "gs_capacity g" c q] s(1) by (simp add: settles_ok)
  then show ?thesis using s fit g' by (simp add: settles_ok wrapping_add_exact)
qed

lemma drop_covered [simp]: "covered (cw_heap (drop_request q w) ! j) = covered (cw_heap w ! j)"
proof -
  have "covered ((cw_heap w)[i := (cw_heap w ! i)\<lparr>en_active_shared := a\<rparr>] ! j) = covered (cw_heap w ! j)" for i a
    by (cases "i < length (cw_heap w)"; cases "j = i") (simp_all add: covered_def list_update_beyond)
  then show ?thesis by (simp add: drop_request_def Let_def put_entry_def put_request_def)
qed

lemma stated_billable:
  "bu_charged_tokens u = None \<Longrightarrow> billable_tokens (stated_usage rc charged u) = charged"
  by (auto simp: billable_tokens_def stated_usage_def)

text \<open>
  Claim C18: what the buyer is told is what was recorded.  After any run in which no deal marked terminal is revived
  by a live read and no bill is above \<open>u64\<close> (\<open>orderly_run\<close>): when the relay of an admitted stream releases a usage
  record, for provider records that state no charge of their own, the charge it shows is within the grant,
  and by exactly that charge both the ledger entry of the request and the counter that the claim driver
  reads have grown.
\<close>

theorem usage_frame_is_durable_charge:
  fixes g :: "('b, 'key, 'up) gateway_state"
  assumes "orderly_run verify ops cd es (with_capacity up (manager_new dir fs))"
    and "g = gateway_run verify ops cd es (with_capacity up (manager_new dir fs))"
    and "task_live g k" and "t = gs_tasks g ! k" and "i = rq_entry (cw_requests (gs_capacity g) ! rt_request t)"
    and "\<forall>u present. Event (Usage u) present \<in> set is \<longrightarrow> bu_charged_tokens u = None"
    and "relay_task_run cd io io2 io3 t buyer is g = (out, g')" and "UsageFrame u' \<in> set out"
  shows "billable_tokens u' \<le> rt_grant t
     \<and> cr_tokens_pending_anchor (en_record (cw_heap (gs_capacity g') ! i)) + cr_local_delivered (en_record (cw_heap (gs_capacity g') ! i))
       = cr_tokens_pending_anchor (en_record (cw_heap (gs_capacity g) ! i)) + cr_local_delivered (en_record (cw_heap (gs_capacity g) ! i))
         + billable_tokens u'
     \<and> dd_count (gs_deliveries g' ! rt_delivery t) = dd_count (gs_deliveries g ! rt_delivery t) + billable_tokens u'"
proof -
  have inv: "gateway_inv g" unfolding assms(2) by (rule gateway_run_inv [OF gateway_inv_new assms(1)])
  have u: "usable (gs_capacity g) (rt_request t)" and t: "t \<in> set (gs_tasks g)" using assms(3,4) by (simp_all add: task_live_def)
  have d: "rt_delivery t < length (gs_deliveries g)" using inv t by (simp add: gateway_inv_def task_ok_def)
  define rc :: "(gateway_error, ('b, 'key, 'up) gateway_state) recorder" where "rc = capacity_recorder cd io io2 io3 (rq_shared (cw_requests (gs_capacity g) ! rt_request t)) (rt_request t) (rt_delivery t)"
  obtain fin o1 w1 where l: "relay_loop rc (rt_grant t) buyer is relay_start g = ((fin, o1), w1)" by (metis prod.exhaust)
  obtain g1 where c: "relay_counting rc (rt_grant t) buyer is g = (out, g1)" "g' = close_task (rt_request t) g1"
    using assms(7) by (auto simp: relay_task_run_def Let_def rc_def split: prod.splits)
  have "fin = Billed u'"
    using relay_counting_frames [of u' rc "rt_grant t" buyer "is" g] assms(8) by (simp add: c l)
  then have b: "relay_loop rc (rt_grant t) buyer is relay_start g = ((Billed u', o1), g1)"
    using l c(1) by (simp add: relay_counting_def)
  obtain x charged exhausted where x: "bu_charged_tokens x = None"
    and run: "complete_billing cd io (rt_request t) (rt_delivery t) (min (non_cached_tokens x) (rt_grant t)) exhausted g = (Inr charged, g1)"
    and u': "u' = stated_usage rc charged x"
    using relay_loop_commits [OF b] assms(6) by (auto simp: relay_start_def rc_def capacity_recorder_def)
  have "billable_tokens u' = charged" unfolding u' by (rule stated_billable [OF x])
  then show ?thesis
    using complete_billing_exact [OF inv_capacity [OF inv] u d run] drop_covered [of "rt_request t" "gs_capacity g1" i]
    by (simp add: c(2) close_task_def assms(5) covered_def)
qed


definition sample_open :: "(capacity_record, nat, unit) gateway_state" where
  "sample_open = gateway_run sample_verify sample_ops plain_capacity_codec (take 3 sample_events) (with_capacity () (manager_new None []))"

definition sample_stream :: "unit relay_input list" where
  "sample_stream = [Event (Head \<lparr>rh_status = 200, rh_headers = []\<rparr>) True, Event (Data ''hello'' True) True, Event (Usage sample_usage) True]"

lemma sample_open_runs:
  "orderly_run sample_verify sample_ops plain_capacity_codec (take 3 sample_events) (with_capacity () (manager_new None []))
   \<and> task_live sample_open 0
   \<and> fst (relay_task_run plain_capacity_codec IoOk IoOk IoOk (gs_tasks sample_open ! 0) True sample_stream sample_open)
     = [HeadFrame \<lparr>rh_status = 200, rh_headers = []\<rparr>, DataFrame ''hello'', UsageFrame sample_usage]"
  by (simp add: sample_open_def gateway_run_def sample_events_def gateway_eval sample_reconcile sample_stream_def sample_usage_def
      relay_task_run_def relay_counting_def relay_event_def relay_eof_def relay_start_def capacity_recorder_def success_def
      validate_usage_def billing_usage_new_def non_cached_tokens_def
      capacity_eval capacity_consts u64_max_def try_from_def wrapping_add_def Let_def hm_get_def hm_insert_def hm_contains_def has_flag_def
      str_trim_def is_ascii_whitespace_def cong del: sum.case_cong)

theorem usage_frame_is_durable_charge_witness:
  "dd_count (gs_deliveries (snd (relay_task_run plain_capacity_codec IoOk IoOk IoOk (gs_tasks sample_open ! 0) True sample_stream sample_open))
       ! rt_delivery (gs_tasks sample_open ! 0))
     = dd_count (gs_deliveries sample_open ! rt_delivery (gs_tasks sample_open ! 0)) + 40"
proof -
  have none: "\<forall>u present. Event (Usage u) present \<in> set sample_stream \<longrightarrow> bu_charged_tokens u = None"
    by (simp add: sample_stream_def sample_usage_def)
  show ?thesis
    using usage_frame_is_durable_charge [of sample_verify sample_ops plain_capacity_codec "take 3 sample_events" "()" None "[]" sample_open 0
        _ _ sample_stream IoOk IoOk IoOk True _ _ sample_usage, OF _ sample_open_def _ refl refl none prod.collapse [symmetric]] sample_open_runs
    by (simp add: billable_tokens_def sample_usage_def non_cached_tokens_def)
qed

end
