(* ===== verification/Json.thy ===== *)
theory Json
  imports Address
begin

text \<open>
  Values of a JSON library, which is not part of the repository: the type of values is a
  parameter, and so is \<open>view\<close>, which says what a value is (the match on its constructors that the
  source writes).  The fields of an object come in the order in which the library iterates them.
\<close>

section \<open>Looking at a value\<close>

datatype 'j json_node =
    JNull
  | JBool bool
  | JUnsigned nat
  | JNumber
  | JString string
  | JArray "'j list"
  | JObject "(string \<times> 'j) list"

definition json_get :: "('j \<Rightarrow> 'j json_node) \<Rightarrow> 'j \<Rightarrow> string \<Rightarrow> 'j option" where
  "json_get view v name = (case view v of JObject es \<Rightarrow> map_of es name | _ \<Rightarrow> None)"

definition as_u64 :: "'j json_node \<Rightarrow> nat option" where
  "as_u64 n = (case n of JUnsigned k \<Rightarrow> Some k | _ \<Rightarrow> None)"

definition as_str :: "'j json_node \<Rightarrow> string option" where
  "as_str n = (case n of JString s \<Rightarrow> Some s | _ \<Rightarrow> None)"

definition as_bool :: "'j json_node \<Rightarrow> bool option" where
  "as_bool n = (case n of JBool b \<Rightarrow> Some b | _ \<Rightarrow> None)"

lemma as_node_simps [simp]:
  "as_u64 (JUnsigned k) = Some k" "as_u64 (JString s) = None" "as_str (JString s) = Some s" "as_str (JUnsigned k) = None"
  "as_bool (JBool b) = Some b"
  by (simp_all add: as_u64_def as_str_def as_bool_def)

text \<open>A concrete library for the witnesses.\<close>

datatype json = Json (json_node: "json json_node")


section \<open>Numbers in text\<close>

text \<open>\<open>from_str_radix(_, 16)\<close> into an unsigned type with largest value \<open>m\<close>.\<close>

definition parse_hex :: "nat \<Rightarrow> string \<Rightarrow> nat option" where
  "parse_hex m s =
     (let ds = (case s of c # cs \<Rightarrow> if c = CHR ''+'' then cs else s | [] \<Rightarrow> s)
      in if ds = [] \<or> \<not> list_all is_hex_char ds then None
         else if hex_value ds \<le> m then Some (hex_value ds) else None)"

text \<open>Decimal, or hexadecimal after a prefix.\<close>

definition parse_dec_or_hex :: "nat \<Rightarrow> string \<Rightarrow> nat option" where
  "parse_dec_or_hex m s =
     (case strip_prefix ''0x'' s of
        Some hex \<Rightarrow> parse_hex m hex
      | None \<Rightarrow> (case strip_prefix ''0X'' s of Some hex \<Rightarrow> parse_hex m hex | None \<Rightarrow> parse_uint m s))"

text \<open>The text of a number, in either rendering.\<close>

definition number_text :: "nat \<Rightarrow> string \<Rightarrow> bool" where
  "number_text n t \<longleftrightarrow>
     t = show_nat n \<or> (\<exists>h. t = ''0x'' @ h \<and> h \<noteq> [] \<and> list_all is_hex_char h \<and> hex_value h = n)"

lemma hex_not_plus: "is_hex_char c \<Longrightarrow> c \<noteq> CHR ''+''"
  by (auto simp: is_hex_char_def lower_hex_def Let_def)

lemma parse_hex_digits:
  assumes "h \<noteq> []" and "list_all is_hex_char h" and "hex_value h \<le> m"
  shows "parse_hex m h = Some (hex_value h)"
proof (cases h)
  case (Cons c cs)
  then have "c \<noteq> CHR ''+''" using assms(2) hex_not_plus by simp
  then show ?thesis using assms Cons by (simp add: parse_hex_def)
qed (use assms in simp)


lemma digit_prefix: "list_all is_ascii_digit s \<Longrightarrow> strip_prefix ''0x'' s = None \<and> strip_prefix ''0X'' s = None"
proof -
  assume d: "list_all is_ascii_digit s"
  have "\<not> is_ascii_digit (CHR ''x'')" "\<not> is_ascii_digit (CHR ''X'')" by (simp_all add: is_ascii_digit_def)
  then have "take 2 s \<noteq> ''0x''" "take 2 s \<noteq> ''0X''" using d by (auto dest!: arg_cong [where f = "\<lambda>t. set t"] in_set_takeD simp: list_all_iff)
  then show ?thesis by (simp add: strip_prefix_def numeral_2_eq_2)
qed

lemma number_text_parses:
  assumes "number_text n t" and "n \<le> m"
  shows "parse_dec_or_hex m t = Some n" and "str_trim t = t"
proof -
  show "parse_dec_or_hex m t = Some n"
    using assms digit_prefix [OF show_nat_digits, of n] parse_hex_digits
    by (auto simp: number_text_def parse_dec_or_hex_def parse_show) (simp add: strip_prefix_def)
  show "str_trim t = t"
    using assms(1) str_trim_digits [OF show_nat_digits, of n] trim_0x_hex by (auto simp: number_text_def)
qed

end
