(* ===== verification/WithdrawGate.thy ===== *)
theory WithdrawGate
  imports Json
begin

text \<open>
  What holds the money of a note, \<open>note_withdraw_gate.rs\<close>: the client reads the storage of a note and names
  the first of the eleven conditions of \<open>withdrawTokens\<close> that fails.  The contract function itself is
  modelled next to it, from \<open>contracts/dex/PrivateNote.sol\<close>, so that the two can be compared.
\<close>

section \<open>Gates\<close>

datatype withdraw_gate =
    HasWithdrawn
  | Busy string
  | Stakes nat
  | Debt nat
  | LockedInOrders nat nat
  | PendingPlaceBuyLock nat
  | PendingBatchBuyLock nat
  | OpenOrders nat
  | RestingInference nat
  | PendingInference nat
  | LiveDeals nat

definition gate_field :: "withdraw_gate \<Rightarrow> string" where
  "gate_field g =
     (case g of
        HasWithdrawn \<Rightarrow> ''_hasWithdrawn'' | Busy _ \<Rightarrow> ''_busy'' | Stakes _ \<Rightarrow> ''_stakes'' | Debt _ \<Rightarrow> ''_debt''
      | LockedInOrders _ _ \<Rightarrow> ''_lockedInOrders'' | PendingPlaceBuyLock _ \<Rightarrow> ''_pendingPlaceBuyLock''
      | PendingBatchBuyLock _ \<Rightarrow> ''_pendingBatchBuyLock'' | OpenOrders _ \<Rightarrow> ''_openOrderCount''
      | RestingInference _ \<Rightarrow> ''_restingInf'' | PendingInference _ \<Rightarrow> ''_pendingInf'' | LiveDeals _ \<Rightarrow> ''_liveDeals'')"

definition contract_line :: "withdraw_gate \<Rightarrow> nat" where
  "contract_line g =
     (case g of
        HasWithdrawn \<Rightarrow> 2649 | Busy _ \<Rightarrow> 2650 | Stakes _ \<Rightarrow> 2651 | Debt _ \<Rightarrow> 2652 | LockedInOrders _ _ \<Rightarrow> 2659
      | PendingPlaceBuyLock _ \<Rightarrow> 2661 | PendingBatchBuyLock _ \<Rightarrow> 2662 | OpenOrders _ \<Rightarrow> 2663
      | RestingInference _ \<Rightarrow> 2677 | PendingInference _ \<Rightarrow> 2682 | LiveDeals _ \<Rightarrow> 2683)"

definition exit_code :: "withdraw_gate \<Rightarrow> nat" where
  "exit_code g =
     (case g of
        HasWithdrawn \<Rightarrow> 151 | Busy _ \<Rightarrow> 121 | Stakes _ \<Rightarrow> 121 | Debt _ \<Rightarrow> 150
      | LockedInOrders _ _ \<Rightarrow> 144 | PendingPlaceBuyLock _ \<Rightarrow> 144 | PendingBatchBuyLock _ \<Rightarrow> 144
      | OpenOrders _ \<Rightarrow> 167 | RestingInference _ \<Rightarrow> 167 | PendingInference _ \<Rightarrow> 167 | LiveDeals _ \<Rightarrow> 167)"

datatype read_fault =
    FieldAbsent | NotABool | BusyEmpty | BusyNotAddress | NotANumber | NotAnInteger | NotAMap
  | KeyNotTokenType | ValueNotAmount | RowWithoutKey | RowWithoutValue

datatype gate_reading = Clear | Held withdraw_gate | Unreadable string read_fault

definition WITHDRAW_GATE_FIELDS :: "string list" where
  "WITHDRAW_GATE_FIELDS =
     [''_hasWithdrawn'', ''_busy'', ''_stakes'', ''_debt'', ''_lockedInOrders'', ''_pendingPlaceBuyLock'',
      ''_pendingBatchBuyLock'', ''_openOrderCount'', ''_restingInf'', ''_pendingInf'', ''_liveDeals'']"

definition WITHDRAW_GATE_EXIT_CODES :: "nat list" where
  "WITHDRAW_GATE_EXIT_CODES = [121, 144, 150, 151, 167]"


section \<open>Reading the storage\<close>

definition storage_u128 :: "('j \<Rightarrow> 'j json_node) \<Rightarrow> 'j \<Rightarrow> string \<Rightarrow> (nat, read_fault) result" where
  "storage_u128 view v name =
     and_then (ok_or (json_get view v name) FieldAbsent) (\<lambda>raw.
     case as_u64 (view raw) of
       Some n \<Rightarrow> Inr n
     | None \<Rightarrow>
         and_then (ok_or (as_str (view raw)) NotANumber) (\<lambda>text.
         ok_or (parse_dec_or_hex u128_max (str_trim text)) NotAnInteger))"

definition storage_map_len :: "('j \<Rightarrow> 'j json_node) \<Rightarrow> 'j \<Rightarrow> string \<Rightarrow> (nat, read_fault) result" where
  "storage_map_len view v name =
     (case json_get view v name of
        None \<Rightarrow> Inl FieldAbsent
      | Some raw \<Rightarrow>
          (case view raw of
             JNull \<Rightarrow> Inl FieldAbsent
           | JObject es \<Rightarrow> Inr (length es)
           | JArray es \<Rightarrow> Inr (length es)
           | _ \<Rightarrow> Inl NotAMap))"

definition parse_u :: "'j json_node \<Rightarrow> nat option" where
  "parse_u n =
     (case as_u64 n of
        Some k \<Rightarrow> Some k
      | None \<Rightarrow> Option.bind (as_str n) (\<lambda>s. parse_dec_or_hex u128_max (str_trim s)))"

definition locked_row :: "('j \<Rightarrow> 'j json_node) \<Rightarrow> 'j \<Rightarrow> (nat \<times> nat, read_fault) result" where
  "locked_row view row =
     (let either = (\<lambda>es a b. case map_of es a of Some x \<Rightarrow> Some x | None \<Rightarrow> map_of es b);
          kv = (case view row of
                  JObject es \<Rightarrow> (either es ''key'' ''0'', either es ''value'' ''1'')
                | JArray [k, x] \<Rightarrow> (Some k, Some x)
                | _ \<Rightarrow> (None, None)) in
      and_then (ok_or (fst kv) RowWithoutKey) (\<lambda>key.
      and_then (ok_or (snd kv) RowWithoutValue) (\<lambda>value.
      and_then (ok_or (Option.bind (parse_u (view key)) (try_from u32_max)) KeyNotTokenType) (\<lambda>token_type.
      and_then (ok_or (parse_u (view value)) ValueNotAmount) (\<lambda>locked.
      Inr (token_type, locked))))))"

definition locked_field :: "('j \<Rightarrow> 'j json_node) \<Rightarrow> string \<times> 'j \<Rightarrow> (nat \<times> nat, read_fault) result" where
  "locked_field view kv =
     and_then (ok_or (Option.bind (parse_u (JString (fst kv) :: 'j json_node)) (try_from u32_max)) KeyNotTokenType) (\<lambda>token_type.
     and_then (ok_or (parse_u (view (snd kv))) ValueNotAmount) (\<lambda>locked.
     Inr (token_type, locked)))"

text \<open>\<open>iter().map(f).collect::<Result<Vec<_>, _>>()\<close>\<close>

fun try_collect :: "('x \<Rightarrow> ('y, 'e) result) \<Rightarrow> 'x list \<Rightarrow> ('y list, 'e) result" where
  "try_collect f [] = Inr []"
| "try_collect f (x # xs) = and_then (f x) (\<lambda>y. and_then (try_collect f xs) (\<lambda>ys. Inr (y # ys)))"

definition locked_in_orders :: "('j \<Rightarrow> 'j json_node) \<Rightarrow> 'j \<Rightarrow> ((nat \<times> nat) list, read_fault) result" where
  "locked_in_orders view v =
     (case json_get view v ''_lockedInOrders'' of
        None \<Rightarrow> Inl FieldAbsent
      | Some raw \<Rightarrow>
          (case view raw of
             JNull \<Rightarrow> Inl FieldAbsent
           | JObject es \<Rightarrow> try_collect (locked_field view) es
           | JArray rows \<Rightarrow> try_collect (locked_row view) rows
           | _ \<Rightarrow> Inl NotAMap))"

definition read_has_withdrawn :: "('j \<Rightarrow> 'j json_node) \<Rightarrow> 'j \<Rightarrow> (bool, read_fault) result" where
  "read_has_withdrawn view v =
     (case json_get view v ''_hasWithdrawn'' of
        None \<Rightarrow> Inl FieldAbsent
      | Some raw \<Rightarrow>
          (case view raw of
             JBool b \<Rightarrow> Inr b
           | JString text \<Rightarrow>
               (let t = to_ascii_lowercase (str_trim text) in
                if t = ''true'' \<or> t = ''1'' then Inr True
                else if t = ''false'' \<or> t = ''0'' then Inr False
                else Inl NotABool)
           | _ \<Rightarrow> Inl NotABool))"

definition read_busy :: "('j \<Rightarrow> 'j json_node) \<Rightarrow> 'j \<Rightarrow> (string option, read_fault) result" where
  "read_busy view v =
     (case json_get view v ''_busy'' of
        None \<Rightarrow> Inl FieldAbsent
      | Some raw \<Rightarrow>
          (case view raw of
             JNull \<Rightarrow> Inr None
           | JString address \<Rightarrow> if str_trim address = [] then Inl BusyEmpty else Inr (Some (str_trim address))
           | JObject es \<Rightarrow>
               (case Option.bind (case map_of es ''value'' of Some x \<Rightarrow> Some x | None \<Rightarrow> map_of es ''0'') (\<lambda>x. as_str (view x)) of
                  Some address \<Rightarrow> Inr (if str_trim address \<noteq> [] then Some (str_trim address) else None)
                | None \<Rightarrow> Inr None)
           | _ \<Rightarrow> Inl BusyNotAddress))"

text \<open>The macro \<open>read!\<close>: a fault ends the reading, naming its field.\<close>

definition read_gate :: "string \<Rightarrow> ('a, read_fault) result \<Rightarrow> ('a \<Rightarrow> gate_reading) \<Rightarrow> gate_reading" where
  "read_gate field r k = (case r of Inl fault \<Rightarrow> Unreadable field fault | Inr x \<Rightarrow> k x)"

definition note_withdraw_gate_from_storage :: "('j \<Rightarrow> 'j json_node) \<Rightarrow> 'j \<Rightarrow> gate_reading" where
  "note_withdraw_gate_from_storage view v =
     read_gate ''_hasWithdrawn'' (read_has_withdrawn view v) (\<lambda>has_withdrawn.
     if has_withdrawn then Held HasWithdrawn else
     read_gate ''_busy'' (read_busy view v) (\<lambda>busy.
     case busy of Some address \<Rightarrow> Held (Busy address) | None \<Rightarrow>
     read_gate ''_stakes'' (storage_map_len view v ''_stakes'') (\<lambda>stakes.
     if stakes > 0 then Held (Stakes stakes) else
     read_gate ''_debt'' (storage_u128 view v ''_debt'') (\<lambda>debt.
     if debt \<noteq> 0 then Held (Debt debt) else
     read_gate ''_lockedInOrders'' (locked_in_orders view v) (\<lambda>locked.
     case find (\<lambda>(_, amount). amount \<noteq> 0) locked of Some (token_type, amount) \<Rightarrow> Held (LockedInOrders token_type amount) | None \<Rightarrow>
     read_gate ''_pendingPlaceBuyLock'' (storage_u128 view v ''_pendingPlaceBuyLock'') (\<lambda>place.
     if place \<noteq> 0 then Held (PendingPlaceBuyLock place) else
     read_gate ''_pendingBatchBuyLock'' (storage_u128 view v ''_pendingBatchBuyLock'') (\<lambda>batch.
     if batch \<noteq> 0 then Held (PendingBatchBuyLock batch) else
     read_gate ''_openOrderCount'' (storage_u128 view v ''_openOrderCount'') (\<lambda>opened.
     if opened \<noteq> 0 then Held (OpenOrders (case try_from u32_max opened of Some n \<Rightarrow> n | None \<Rightarrow> u32_max)) else
     read_gate ''_restingInf'' (storage_map_len view v ''_restingInf'') (\<lambda>resting.
     if resting > 0 then Held (RestingInference resting) else
     read_gate ''_pendingInf'' (storage_map_len view v ''_pendingInf'') (\<lambda>pending.
     if pending > 0 then Held (PendingInference pending) else
     read_gate ''_liveDeals'' (storage_map_len view v ''_liveDeals'') (\<lambda>live.
     if live > 0 then Held (LiveDeals live) else Clear)))))))))))"


section \<open>Arrival of the money\<close>

record withdrawal_arrival =
  wa_note_trading_record :: nat
  wa_note_ecc_pocket :: nat
  wa_destination_before :: nat
  wa_destination_after :: nat

datatype arrival_error = ArrivalOverflow | DestinationFell | NotArrived

definition arrival_expected :: "withdrawal_arrival \<Rightarrow> nat option" where
  "arrival_expected a = checked_add u128_max (wa_note_trading_record a) (wa_note_ecc_pocket a)"

definition arrival_observed :: "withdrawal_arrival \<Rightarrow> nat option" where
  "arrival_observed a = checked_sub (wa_destination_after a) (wa_destination_before a)"

definition check_withdrawal_arrival :: "withdrawal_arrival \<Rightarrow> (nat, arrival_error) result" where
  "check_withdrawal_arrival a =
     and_then (ok_or (arrival_expected a) ArrivalOverflow) (\<lambda>expected.
     and_then (ok_or (arrival_observed a) DestinationFell) (\<lambda>observed.
     if observed \<noteq> expected then Inl NotArrived else Inr observed))"


section \<open>The contract\<close>

datatype note_error = ERR_INVALID_STATE | ERR_NOTE_BUSY | ERR_DEBT_NON_ZERO | ERR_NON_ZERO_BALANCE | ERR_OPEN_ORDERS_EXIST

text \<open>The codes, as \<open>onchain_diagnostics.rs\<close> lists them.\<close>

definition note_error_code :: "note_error \<Rightarrow> nat" where
  "note_error_code e =
     (case e of ERR_INVALID_STATE \<Rightarrow> 151 | ERR_NOTE_BUSY \<Rightarrow> 121 | ERR_DEBT_NON_ZERO \<Rightarrow> 150
      | ERR_NON_ZERO_BALANCE \<Rightarrow> 144 | ERR_OPEN_ORDERS_EXIST \<Rightarrow> 167)"

text \<open>The state of a note as far as \<open>withdrawTokens\<close> asks for it; maps by their sizes, the locks in map order.\<close>

record note_storage =
  ns_has_withdrawn :: bool
  ns_busy :: "string option"
  ns_stakes :: nat
  ns_debt :: nat
  ns_locked_in_orders :: "(nat \<times> nat) list"
  ns_pending_place_buy_lock :: nat
  ns_pending_batch_buy_lock :: nat
  ns_open_order_count :: nat
  ns_resting_inf :: nat
  ns_pending_inf :: nat
  ns_live_deals :: nat

text \<open>A \<open>require\<close> with its line.\<close>

definition require :: "nat \<Rightarrow> bool \<Rightarrow> note_error \<Rightarrow> (unit, nat \<times> note_error) result" where
  "require line b e = ensure b (line, e)"

definition withdraw_tokens_requires :: "note_storage \<Rightarrow> (unit, nat \<times> note_error) result" where
  "withdraw_tokens_requires s =
     and_then (require 2649 (\<not> ns_has_withdrawn s) ERR_INVALID_STATE) (\<lambda>_.
     and_then (require 2650 (ns_busy s = None) ERR_NOTE_BUSY) (\<lambda>_.
     and_then (require 2651 (ns_stakes s = 0) ERR_NOTE_BUSY) (\<lambda>_.
     and_then (require 2652 (ns_debt s = 0) ERR_DEBT_NON_ZERO) (\<lambda>_.
     and_then (for_all (\<lambda>(tt, locked). require 2659 (locked = 0) ERR_NON_ZERO_BALANCE) (ns_locked_in_orders s)) (\<lambda>_.
     and_then (require 2661 (ns_pending_place_buy_lock s = 0) ERR_NON_ZERO_BALANCE) (\<lambda>_.
     and_then (require 2662 (ns_pending_batch_buy_lock s = 0) ERR_NON_ZERO_BALANCE) (\<lambda>_.
     and_then (require 2663 (ns_open_order_count s = 0) ERR_OPEN_ORDERS_EXIST) (\<lambda>_.
     and_then (require 2677 (ns_resting_inf s = 0) ERR_OPEN_ORDERS_EXIST) (\<lambda>_.
     and_then (require 2682 (ns_pending_inf s = 0) ERR_OPEN_ORDERS_EXIST) (\<lambda>_.
     require 2683 (ns_live_deals s = 0) ERR_OPEN_ORDERS_EXIST))))))))))"


section \<open>Storage as the decoder renders it\<close>

text \<open>
  What the decoder of a contract's storage does with a note: an integer becomes a number or its text, an
  optional address the null value or its text, a mapping an object or a list of rows.
\<close>

definition renders_uint :: "('j \<Rightarrow> 'j json_node) \<Rightarrow> nat \<Rightarrow> 'j \<Rightarrow> bool" where
  "renders_uint view n raw \<longleftrightarrow> n \<le> u128_max \<and>
     (view raw = JUnsigned n \<or> (\<exists>t. view raw = JString t \<and> number_text n t))"

definition renders_map :: "('j \<Rightarrow> 'j json_node) \<Rightarrow> nat \<Rightarrow> 'j \<Rightarrow> bool" where
  "renders_map view n raw \<longleftrightarrow>
     (case view raw of JObject es \<Rightarrow> length es = n | JArray es \<Rightarrow> length es = n | _ \<Rightarrow> False)"

definition renders_address :: "('j \<Rightarrow> 'j json_node) \<Rightarrow> string option \<Rightarrow> 'j \<Rightarrow> bool" where
  "renders_address view a raw \<longleftrightarrow>
     (case a of None \<Rightarrow> view raw = JNull | Some t \<Rightarrow> view raw = JString t \<and> str_trim t \<noteq> [])"

definition renders_lock :: "('j \<Rightarrow> 'j json_node) \<Rightarrow> nat \<times> nat \<Rightarrow> 'j \<Rightarrow> bool" where
  "renders_lock view lock row \<longleftrightarrow> fst lock \<le> u32_max \<and>
     (\<exists>k x. renders_uint view (fst lock) k \<and> renders_uint view (snd lock) x \<and>
        (view row = JArray [k, x] \<or> view row = JObject [(''key'', k), (''value'', x)]))"

definition renders_locks :: "('j \<Rightarrow> 'j json_node) \<Rightarrow> (nat \<times> nat) list \<Rightarrow> 'j \<Rightarrow> bool" where
  "renders_locks view locks raw \<longleftrightarrow>
     (\<exists>es. view raw = JObject es \<and>
        list_all2 (\<lambda>lock kv. fst lock \<le> u32_max \<and> number_text (fst lock) (fst kv) \<and> renders_uint view (snd lock) (snd kv)) locks es) \<or>
     (\<exists>rows. view raw = JArray rows \<and> list_all2 (renders_lock view) locks rows)"

definition has_field :: "('j \<Rightarrow> 'j json_node) \<Rightarrow> 'j \<Rightarrow> string \<Rightarrow> ('j \<Rightarrow> bool) \<Rightarrow> bool" where
  "has_field view v name P \<longleftrightarrow> (case json_get view v name of None \<Rightarrow> False | Some raw \<Rightarrow> P raw)"

text \<open>All fields but the latch \<open>_busy\<close>, and with it.\<close>

definition renders_rest :: "('j \<Rightarrow> 'j json_node) \<Rightarrow> note_storage \<Rightarrow> 'j \<Rightarrow> bool" where
  "renders_rest view s v \<longleftrightarrow>
     has_field view v ''_hasWithdrawn'' (\<lambda>raw. view raw = JBool (ns_has_withdrawn s)) \<and>
     has_field view v ''_stakes'' (renders_map view (ns_stakes s)) \<and>
     has_field view v ''_debt'' (renders_uint view (ns_debt s)) \<and>
     has_field view v ''_lockedInOrders'' (renders_locks view (ns_locked_in_orders s)) \<and>
     has_field view v ''_pendingPlaceBuyLock'' (renders_uint view (ns_pending_place_buy_lock s)) \<and>
     has_field view v ''_pendingBatchBuyLock'' (renders_uint view (ns_pending_batch_buy_lock s)) \<and>
     has_field view v ''_openOrderCount'' (renders_uint view (ns_open_order_count s)) \<and>
     has_field view v ''_restingInf'' (renders_map view (ns_resting_inf s)) \<and>
     has_field view v ''_pendingInf'' (renders_map view (ns_pending_inf s)) \<and>
     has_field view v ''_liveDeals'' (renders_map view (ns_live_deals s))"

definition renders_note :: "('j \<Rightarrow> 'j json_node) \<Rightarrow> note_storage \<Rightarrow> 'j \<Rightarrow> bool" where
  "renders_note view s v \<longleftrightarrow> renders_rest view s v \<and> has_field view v ''_busy'' (renders_address view (ns_busy s))"


section \<open>Every reader recovers what was rendered\<close>

lemma has_fieldE:
  assumes "has_field view v name P"
  obtains raw where "json_get view v name = Some raw" "P raw"
  using assms by (auto simp: has_field_def split: option.splits)

lemma storage_u128_reads:
  "has_field view v name (renders_uint view n) \<Longrightarrow> storage_u128 view v name = Inr n"
  by (auto elim!: has_fieldE simp: storage_u128_def renders_uint_def number_text_parses ok_or_def)

lemma storage_map_len_reads:
  "has_field view v name (renders_map view n) \<Longrightarrow> storage_map_len view v name = Inr n"
  by (auto elim!: has_fieldE simp: storage_map_len_def renders_map_def split: json_node.splits)

lemma read_busy_reads:
  "has_field view v ''_busy'' (renders_address view a) \<Longrightarrow> read_busy view v = Inr (map_option str_trim a)"
  by (auto elim!: has_fieldE simp: read_busy_def renders_address_def split: option.splits)

lemma read_has_withdrawn_reads:
  "has_field view v ''_hasWithdrawn'' (\<lambda>raw. view raw = JBool b) \<Longrightarrow> read_has_withdrawn view v = Inr b"
  by (auto elim!: has_fieldE simp: read_has_withdrawn_def)

lemma parse_u_reads: "renders_uint view n raw \<Longrightarrow> parse_u (view raw) = Some n"
  by (auto simp: parse_u_def renders_uint_def number_text_parses)

lemma parse_u_key: "number_text n t \<Longrightarrow> n \<le> u128_max \<Longrightarrow> parse_u (JString t) = Some n"
  by (simp add: parse_u_def number_text_parses)

lemma u32_in_u128: "n \<le> u32_max \<Longrightarrow> n \<le> u128_max"
  by (simp add: u32_max_def u128_max_def)

lemma try_collect_reads:
  "list_all2 (\<lambda>y x. f x = Inr y) ys xs \<Longrightarrow> try_collect f xs = Inr ys"
  by (induction rule: list_all2_induct) simp_all

lemma locked_in_orders_reads:
  assumes "has_field view v ''_lockedInOrders'' (renders_locks view locks)"
  shows "locked_in_orders view v = Inr locks"
proof -
  have row: "locked_row view row = Inr lock" if "renders_lock view lock row" for lock row
    using that by (auto simp: renders_lock_def locked_row_def parse_u_reads ok_or_def try_from_def Let_def)
  have field: "locked_field view kv = Inr lock"
    if "fst lock \<le> u32_max \<and> number_text (fst lock) (fst kv) \<and> renders_uint view (snd lock) (snd kv)" for lock kv
    using that by (auto simp: locked_field_def parse_u_reads parse_u_key u32_in_u128 ok_or_def try_from_def)
  obtain raw where raw: "json_get view v ''_lockedInOrders'' = Some raw" "renders_locks view locks raw"
    using assms by (rule has_fieldE)
  then show ?thesis
    by (auto simp: renders_locks_def locked_in_orders_def intro!: try_collect_reads
        elim!: list_all2_mono intro: row field)
qed

lemmas storage_reads =
  storage_u128_reads storage_map_len_reads read_busy_reads read_has_withdrawn_reads locked_in_orders_reads

lemma first_lock_held:
  "for_all (\<lambda>(tt, locked). require line (locked = 0) e) locks =
     (case find (\<lambda>(_, amount). amount \<noteq> 0) locks of None \<Rightarrow> Inr () | Some _ \<Rightarrow> Inl (line, e))"
  by (induction locks) (auto simp: require_def ensure_def split: prod.splits)


text \<open>Line and code of every gate.\<close>

lemma named_gate_simps [simp]:
  "contract_line HasWithdrawn = 2649" "contract_line (Busy a) = 2650" "contract_line (Stakes n) = 2651"
  "contract_line (Debt n) = 2652" "contract_line (LockedInOrders t n) = 2659" "contract_line (PendingPlaceBuyLock n) = 2661"
  "contract_line (PendingBatchBuyLock n) = 2662" "contract_line (OpenOrders n) = 2663" "contract_line (RestingInference n) = 2677"
  "contract_line (PendingInference n) = 2682" "contract_line (LiveDeals n) = 2683"
  "exit_code HasWithdrawn = 151" "exit_code (Busy a) = 121" "exit_code (Stakes n) = 121" "exit_code (Debt n) = 150"
  "exit_code (LockedInOrders t n) = 144" "exit_code (PendingPlaceBuyLock n) = 144" "exit_code (PendingBatchBuyLock n) = 144"
  "exit_code (OpenOrders n) = 167" "exit_code (RestingInference n) = 167" "exit_code (PendingInference n) = 167"
  "exit_code (LiveDeals n) = 167"
  by (simp_all add: contract_line_def exit_code_def)


section \<open>Agreement with the contract\<close>

lemma renders_rest_busy [simp]: "renders_rest view (s\<lparr>ns_busy := b\<rparr>) v = renders_rest view s v"
  by (simp add: renders_rest_def)

text \<open>The reading of a note, given what its latch is read as.\<close>

lemma gate_of_rest:
  assumes "renders_rest view s v" and busy: "read_busy view v = Inr (ns_busy s)"
  shows "case withdraw_tokens_requires s of
           Inr _ \<Rightarrow> note_withdraw_gate_from_storage view v = Clear
         | Inl (line, err) \<Rightarrow> (\<exists>g. note_withdraw_gate_from_storage view v = Held g \<and>
                               contract_line g = line \<and> exit_code g = note_error_code err)"
proof -
  note reads = assms(1) [unfolded renders_rest_def]
  have w: "read_has_withdrawn view v = Inr (ns_has_withdrawn s)" "locked_in_orders view v = Inr (ns_locked_in_orders s)"
    using reads by (simp_all add: storage_reads)
  have m: "storage_map_len view v ''_stakes'' = Inr (ns_stakes s)" "storage_map_len view v ''_restingInf'' = Inr (ns_resting_inf s)"
    "storage_map_len view v ''_pendingInf'' = Inr (ns_pending_inf s)" "storage_map_len view v ''_liveDeals'' = Inr (ns_live_deals s)"
    using reads by (simp_all add: storage_reads)
  have u: "storage_u128 view v ''_debt'' = Inr (ns_debt s)"
    "storage_u128 view v ''_pendingPlaceBuyLock'' = Inr (ns_pending_place_buy_lock s)"
    "storage_u128 view v ''_pendingBatchBuyLock'' = Inr (ns_pending_batch_buy_lock s)"
    "storage_u128 view v ''_openOrderCount'' = Inr (ns_open_order_count s)"
    using reads by (simp_all add: storage_reads)
  define lock where "lock = find (\<lambda>(_, amount). amount \<noteq> 0) (ns_locked_in_orders s)"
  show ?thesis
    unfolding note_withdraw_gate_from_storage_def withdraw_tokens_requires_def read_gate_def w busy m u first_lock_held sum.case
      lock_def [symmetric]
    by (cases lock; cases "ns_busy s") (auto simp: require_def ensure_def note_error_code_def)
qed

text \<open>
  Claim C24: on any note whose storage the decoder rendered in one of the accepted shapes, the client's
  reading is the contract's own verdict: clear exactly when every \<open>require\<close> of \<open>withdrawTokens\<close> passes, and
  otherwise held by the very \<open>require\<close> that fires, with its source line and its exit code.
\<close>

theorem withdraw_gate_agrees:
  assumes "renders_note view s v"
  shows "case withdraw_tokens_requires s of
           Inr _ \<Rightarrow> note_withdraw_gate_from_storage view v = Clear
         | Inl (line, err) \<Rightarrow> (\<exists>g. note_withdraw_gate_from_storage view v = Held g \<and>
                               contract_line g = line \<and> exit_code g = note_error_code err)"
proof -
  have rest: "renders_rest view s v" and "read_busy view v = Inr (map_option str_trim (ns_busy s))"
    using assms by (simp_all add: renders_note_def storage_reads)
  moreover have "withdraw_tokens_requires (s\<lparr>ns_busy := map_option str_trim (ns_busy s)\<rparr>) = withdraw_tokens_requires s"
    by (simp add: withdraw_tokens_requires_def)
  ultimately show ?thesis using gate_of_rest [of view "s\<lparr>ns_busy := map_option str_trim (ns_busy s)\<rparr>" v] by simp
qed

definition sample_note :: note_storage where
  "sample_note =
     \<lparr>ns_has_withdrawn = False, ns_busy = None, ns_stakes = 0, ns_debt = 0, ns_locked_in_orders = [(1, 0), (2, 500)],
      ns_pending_place_buy_lock = 0, ns_pending_batch_buy_lock = 7, ns_open_order_count = 3, ns_resting_inf = 1,
      ns_pending_inf = 0, ns_live_deals = 2\<rparr>"

definition sample_fields :: json where
  "sample_fields =
     (let uint = (\<lambda>n. Json (JUnsigned n)); lock = (\<lambda>k n. Json (JArray [uint k, uint n])) in
      Json (JObject
        [(''_hasWithdrawn'', Json (JBool False)), (''_busy'', Json JNull), (''_stakes'', Json (JObject [])),
         (''_debt'', uint 0), (''_lockedInOrders'', Json (JArray [lock 1 0, lock 2 500])),
         (''_pendingPlaceBuyLock'', uint 0), (''_pendingBatchBuyLock'', uint 7), (''_openOrderCount'', uint 3),
         (''_restingInf'', Json (JArray [Json JNull])), (''_pendingInf'', Json (JArray [])),
         (''_liveDeals'', Json (JArray [Json JNull, Json JNull]))]))"

theorem withdraw_gate_agrees_witness:
  "renders_note json_node sample_note sample_fields \<and> withdraw_tokens_requires sample_note = Inl (2659, ERR_NON_ZERO_BALANCE) \<and>
   (\<exists>g. note_withdraw_gate_from_storage json_node sample_fields = Held g \<and> contract_line g = 2659 \<and> exit_code g = 144)"
proof -
  have r: "renders_note json_node sample_note sample_fields"
    by (simp add: renders_note_def renders_rest_def sample_note_def sample_fields_def has_field_def json_get_def renders_map_def renders_address_def
        renders_uint_def renders_locks_def renders_lock_def Let_def u128_max_def u32_max_def)
  have w: "withdraw_tokens_requires sample_note = Inl (2659, ERR_NON_ZERO_BALANCE)"
    by (simp add: withdraw_tokens_requires_def sample_note_def require_def ensure_def)
  show ?thesis using withdraw_gate_agrees [OF r] r w by (simp add: note_error_code_def)
qed

text \<open>The list of fields and the list of exit codes are those of the gates.\<close>

lemma gate_lists_complete:
  "gate_field g \<in> set WITHDRAW_GATE_FIELDS \<and> exit_code g \<in> set WITHDRAW_GATE_EXIT_CODES"
  by (cases g) (simp_all add: gate_field_def exit_code_def WITHDRAW_GATE_FIELDS_def WITHDRAW_GATE_EXIT_CODES_def)

text \<open>A field that cannot be read is named, as long as the earlier ones are read and closed.\<close>

lemma unreadable_names_its_field:
  "note_withdraw_gate_from_storage view v = Unreadable field fault \<Longrightarrow> field \<in> set WITHDRAW_GATE_FIELDS"
  by (auto simp: note_withdraw_gate_from_storage_def read_gate_def WITHDRAW_GATE_FIELDS_def
      split: sum.splits if_splits option.splits)


section \<open>A latch that is not read\<close>

text \<open>The text the code looks for in an object: under \<open>value\<close> when that key is there, else under \<open>0\<close>.\<close>

definition object_address :: "('j \<Rightarrow> 'j json_node) \<Rightarrow> (string \<times> 'j) list \<Rightarrow> string option" where
  "object_address view es =
     Option.bind (case map_of es ''value'' of Some x \<Rightarrow> Some x | None \<Rightarrow> map_of es ''0'') (\<lambda>x. as_str (view x))"

lemma read_busy_object:
  assumes "json_get view v ''_busy'' = Some raw" and "view raw = JObject es"
  shows "read_busy view v = Inr (case object_address view es of
     None \<Rightarrow> None | Some t \<Rightarrow> if str_trim t = [] then None else Some (str_trim t))"
  using assms by (auto simp: read_busy_def object_address_def split: option.splits)

text \<open>
  Claim C37: the header of the module promises that a field which could not be read is never reported as
  closed.  For \<open>_busy\<close> the code does not keep it.  The latch is read as unreadable exactly when it is absent, a blank text, or
  neither null, a text nor an object; it is read as open exactly when it is null or an object in which no text that is not
  blank is found under \<open>value\<close>, or under \<open>0\<close> without that key.  So for a note that is busy, with nothing else
  against the withdrawal, and whose latch is such an object, the contract refuses (line 2650, busy), and the client reports all gates clear.
\<close>

theorem busy_object_reads_closed:
  assumes rest: "renders_rest view s v" and busy: "ns_busy s = Some holder"
    and clear: "withdraw_tokens_requires (s\<lparr>ns_busy := None\<rparr>) = Inr ()"
    and raw: "json_get view v ''_busy'' = Some raw" "view raw = JObject es"
    and no_text: "\<And>t. object_address view es = Some t \<Longrightarrow> str_trim t = []"
  shows "withdraw_tokens_requires s = Inl (2650, ERR_NOTE_BUSY) \<and> note_withdraw_gate_from_storage view v = Clear
     \<and> (\<forall>w. read_busy view w = Inr None \<longleftrightarrow>
          (\<exists>x. json_get view w ''_busy'' = Some x
             \<and> (view x = JNull \<or> (\<exists>es. view x = JObject es \<and> (\<forall>t. object_address view es = Some t \<longrightarrow> str_trim t = [])))))
     \<and> (\<forall>w. (\<exists>fault. read_busy view w = Inl fault) \<longleftrightarrow>
          (case json_get view w ''_busy'' of
             None \<Rightarrow> True
           | Some x \<Rightarrow> (case view x of JNull \<Rightarrow> False | JObject _ \<Rightarrow> False | JString t \<Rightarrow> str_trim t = [] | _ \<Rightarrow> True)))"
proof (intro conjI allI)
  show "withdraw_tokens_requires s = Inl (2650, ERR_NOTE_BUSY)"
    using clear busy by (auto simp: withdraw_tokens_requires_def require_def ensure_def split: if_splits)
  have "read_busy view v = Inr None"
    using read_busy_object [OF raw] no_text by (auto split: option.splits)
  then show "note_withdraw_gate_from_storage view v = Clear"
    using gate_of_rest [of view "s\<lparr>ns_busy := None\<rparr>" v] rest by (simp add: clear)
next
  fix w
  show "read_busy view w = Inr None \<longleftrightarrow>
      (\<exists>x. json_get view w ''_busy'' = Some x
         \<and> (view x = JNull \<or> (\<exists>es. view x = JObject es \<and> (\<forall>t. object_address view es = Some t \<longrightarrow> str_trim t = []))))"
    by (cases "json_get view w ''_busy''")
      (auto simp: read_busy_def object_address_def split: json_node.splits option.splits)
  show "(\<exists>fault. read_busy view w = Inl fault) \<longleftrightarrow>
      (case json_get view w ''_busy'' of
         None \<Rightarrow> True
       | Some x \<Rightarrow> (case view x of JNull \<Rightarrow> False | JObject _ \<Rightarrow> False | JString t \<Rightarrow> str_trim t = [] | _ \<Rightarrow> True))"
    by (cases "json_get view w ''_busy''")
      (auto simp: read_busy_def split: json_node.splits option.splits)
qed

definition busy_note :: note_storage where
  "busy_note =
     \<lparr>ns_has_withdrawn = False, ns_busy = Some ''0:ab'', ns_stakes = 0, ns_debt = 0, ns_locked_in_orders = [],
      ns_pending_place_buy_lock = 0, ns_pending_batch_buy_lock = 0, ns_open_order_count = 0, ns_resting_inf = 0,
      ns_pending_inf = 0, ns_live_deals = 0\<rparr>"

definition busy_fields :: json where
  "busy_fields =
     (let uint = (\<lambda>n. Json (JUnsigned n)); none = Json (JArray []) in
      Json (JObject
        [(''_hasWithdrawn'', Json (JBool False)),
         (''_busy'', Json (JObject [(''value'', Json (JObject [(''address'', Json (JString ''0:ab''))]))])),
         (''_stakes'', none), (''_debt'', uint 0), (''_lockedInOrders'', none), (''_pendingPlaceBuyLock'', uint 0),
         (''_pendingBatchBuyLock'', uint 0), (''_openOrderCount'', uint 0), (''_restingInf'', none), (''_pendingInf'', none),
         (''_liveDeals'', none)]))"

theorem busy_object_reads_closed_witness:
  "withdraw_tokens_requires busy_note = Inl (2650, ERR_NOTE_BUSY) \<and> note_withdraw_gate_from_storage json_node busy_fields = Clear"
proof -
  have rest: "renders_rest json_node busy_note busy_fields"
    by (simp add: renders_rest_def busy_note_def busy_fields_def has_field_def json_get_def renders_map_def
        renders_uint_def renders_locks_def Let_def)
  have clear: "withdraw_tokens_requires (busy_note\<lparr>ns_busy := None\<rparr>) = Inr ()"
    by (simp add: withdraw_tokens_requires_def busy_note_def require_def ensure_def)
  have raw: "json_get json_node busy_fields ''_busy''
      = Some (Json (JObject [(''value'', Json (JObject [(''address'', Json (JString ''0:ab''))]))]))"
    by (simp add: json_get_def busy_fields_def Let_def)
  have "ns_busy busy_note = Some ''0:ab''" by (simp add: busy_note_def)
  from busy_object_reads_closed [OF rest this clear raw]
  show ?thesis by (simp add: object_address_def as_str_def)
qed


section \<open>Arrival\<close>

text \<open>
  A withdrawal is confirmed only for the exact amount that both pockets of the note held: the
  destination grew by precisely that amount, with no overflow on the way, and every other reading is an error.
\<close>

theorem arrival_confirmed_iff:
  "check_withdrawal_arrival a = Inr n \<longleftrightarrow>
     n = wa_note_trading_record a + wa_note_ecc_pocket a \<and> n \<le> u128_max \<and>
     wa_destination_after a = wa_destination_before a + n"
  by (auto simp: check_withdrawal_arrival_def arrival_expected_def arrival_observed_def ok_or_def checked_add_def checked_sub_def
      split: option.splits if_splits)

end
