(* ===== verification/Accumulator.thy ===== *)
theory Accumulator
  imports Json Params
begin

text \<open>
  The exchange of SHELL and eccUSDC, \<open>accumulator.rs\<close>: the plans that decide what a sell or a buy moves, and the
  decoding of what the getters of the accumulator's contracts return.  The contract takes a lot of exactly one of
  four sizes per message and never gives change, so a plan has to be exact before anything is sent.
\<close>

section \<open>Constants\<close>

definition USDC_UNIT :: nat where "USDC_UNIT = 1000000"

definition ACCUMULATOR_SHELL_PER_USDC_RAW :: nat where "ACCUMULATOR_SHELL_PER_USDC_RAW = 100 * SHELL_UNIT"

definition ACCUMULATOR_DENOMS :: "nat list" where "ACCUMULATOR_DENOMS = [1000, 100, 10, 1]"

definition u16_max :: nat where "u16_max = 2 ^ 16 - 1"

definition usize_max :: nat where "usize_max = u64_max"

section \<open>Selling\<close>

record sell_lot =
  sl_denom :: nat
  sl_shell_raw :: nat

record sell_plan =
  sp_lots :: "sell_lot list"
  sp_usdc_whole :: nat
  sp_shell_committed_raw :: nat
  sp_usdc_expected_raw :: nat

datatype sell_plan_error = SellZeroAmount | SellOverflow | InsufficientShell nat nat

text \<open>The \<open>try_fold\<close> over the denominations that counts the lots before any is built.\<close>

fun count_lots :: "nat list \<Rightarrow> nat \<Rightarrow> nat \<Rightarrow> nat option" where
  "count_lots [] sofar left = Some sofar"
| "count_lots (denom # denoms) sofar left =
     Option.bind (checked_add u128_max sofar (left div denom)) (\<lambda>next_total. count_lots denoms next_total (left mod denom))"

text \<open>The loop that pushes them: \<open>count\<close> lots of a size, then \<open>left -= count * denom\<close>.\<close>

fun push_lots :: "nat list \<Rightarrow> nat \<Rightarrow> sell_lot list" where
  "push_lots [] left = []"
| "push_lots (denom # denoms) left =
     (let count = left div denom in
      replicate count \<lparr>sl_denom = denom, sl_shell_raw = denom * ACCUMULATOR_SHELL_PER_USDC_RAW\<rparr> @
      push_lots denoms (left - count * denom))"

text \<open>\<open>can_reserve n\<close> is the allocator's answer to \<open>try_reserve_exact(n)\<close>.\<close>

definition sell_for_whole_usdc :: "(nat \<Rightarrow> bool) \<Rightarrow> nat \<Rightarrow> (sell_plan, sell_plan_error) result" where
  "sell_for_whole_usdc can_reserve usdc_whole =
     (if usdc_whole = 0 then Inl SellZeroAmount else
      and_then (ok_or (checked_mul u128_max usdc_whole ACCUMULATOR_SHELL_PER_USDC_RAW) SellOverflow) (\<lambda>shell_committed_raw.
      and_then (ok_or (checked_mul u128_max usdc_whole USDC_UNIT) SellOverflow) (\<lambda>usdc_expected_raw.
      and_then (ok_or (count_lots ACCUMULATOR_DENOMS 0 usdc_whole) SellOverflow) (\<lambda>lot_count.
      and_then (ok_or (try_from usize_max lot_count) SellOverflow) (\<lambda>lot_count.
      and_then (ensure (can_reserve lot_count) SellOverflow) (\<lambda>_.
      Inr \<lparr>sp_lots = push_lots ACCUMULATOR_DENOMS usdc_whole, sp_usdc_whole = usdc_whole,
           sp_shell_committed_raw = shell_committed_raw, sp_usdc_expected_raw = usdc_expected_raw\<rparr>))))))"

definition max_whole_usdc_from_shell :: "nat \<Rightarrow> nat" where
  "max_whole_usdc_from_shell shell_raw = shell_raw div ACCUMULATOR_SHELL_PER_USDC_RAW"

definition shell_remainder_raw :: "nat \<Rightarrow> nat" where
  "shell_remainder_raw shell_raw = shell_raw mod ACCUMULATOR_SHELL_PER_USDC_RAW"

definition sell_for_available_shell :: "(nat \<Rightarrow> bool) \<Rightarrow> nat \<Rightarrow> (sell_plan, sell_plan_error) result" where
  "sell_for_available_shell can_reserve shell_available_raw =
     sell_for_whole_usdc can_reserve (max_whole_usdc_from_shell shell_available_raw)"

definition sell_require_funded :: "sell_plan \<Rightarrow> nat \<Rightarrow> (unit, sell_plan_error) result" where
  "sell_require_funded p available_raw =
     (if sp_shell_committed_raw p > available_raw
      then Inl (InsufficientShell (sp_shell_committed_raw p) available_raw) else Inr ())"

definition lot_count :: "sell_plan \<Rightarrow> nat" where
  "lot_count p = length (sp_lots p)"

definition shell_left_raw :: "sell_plan \<Rightarrow> nat \<Rightarrow> nat" where
  "shell_left_raw p available_raw = available_raw - sp_shell_committed_raw p"

definition denomination_counts :: "sell_plan \<Rightarrow> (nat \<times> nat) list" where
  "denomination_counts p =
     List.map_filter (\<lambda>denom.
       let count = length (filter (\<lambda>lot. sl_denom lot = denom) (sp_lots p))
       in if count > 0 then Some (denom, count) else None) ACCUMULATOR_DENOMS"

section \<open>Buying\<close>

record buy_plan =
  bp_usdc_whole :: nat
  bp_usdc_raw :: nat
  bp_shell_expected_raw :: nat

datatype buy_plan_error = BuyZeroAmount | BuyOverflow | InsufficientUsdc nat nat

definition buy_for_whole_usdc :: "nat \<Rightarrow> (buy_plan, buy_plan_error) result" where
  "buy_for_whole_usdc usdc_whole =
     (if usdc_whole = 0 then Inl BuyZeroAmount else
      and_then (ok_or (checked_mul u128_max usdc_whole USDC_UNIT) BuyOverflow) (\<lambda>usdc_raw.
      and_then (ok_or (checked_mul u128_max usdc_whole ACCUMULATOR_SHELL_PER_USDC_RAW) BuyOverflow) (\<lambda>shell_expected_raw.
      Inr \<lparr>bp_usdc_whole = usdc_whole, bp_usdc_raw = usdc_raw, bp_shell_expected_raw = shell_expected_raw\<rparr>)))"

definition buy_require_funded :: "buy_plan \<Rightarrow> nat \<Rightarrow> (unit, buy_plan_error) result" where
  "buy_require_funded p available_raw =
     (if bp_usdc_raw p > available_raw then Inl (InsufficientUsdc (bp_usdc_raw p) available_raw) else Inr ())"

section \<open>Amounts as text\<close>

definition decimal_units :: "nat \<Rightarrow> nat \<Rightarrow> nat \<Rightarrow> string" where
  "decimal_units raw unit decimals = show_nat (raw div unit) @ CHR ''.'' # pad_zeros decimals (show_nat (raw mod unit))"

definition whole_shell_from_raw :: "nat \<Rightarrow> string" where
  "whole_shell_from_raw raw = decimal_units raw SHELL_UNIT 9"

definition whole_usdc_from_raw :: "nat \<Rightarrow> string" where
  "whole_usdc_from_raw raw = decimal_units raw USDC_UNIT 6"

section \<open>Getters\<close>

datatype getter_error = GetterMissing string | GetterType string | GetterNumber string | DenomNotU16

definition getter_field :: "('j \<Rightarrow> 'j json_node) \<Rightarrow> 'j \<Rightarrow> string \<Rightarrow> ('j, getter_error) result" where
  "getter_field view v field = ok_or (json_get view v field) (GetterMissing field)"

definition getter_uint :: "nat \<Rightarrow> ('j \<Rightarrow> 'j json_node) \<Rightarrow> 'j \<Rightarrow> string \<Rightarrow> (nat, getter_error) result" where
  "getter_uint m view v field =
     and_then (getter_field view v field) (\<lambda>raw.
     case as_u64 (view raw) of
       Some n \<Rightarrow> Inr n
     | None \<Rightarrow>
         and_then (ok_or (as_str (view raw)) (GetterType field)) (\<lambda>text.
         ok_or (parse_uint m text) (GetterNumber field)))"

definition getter_u64 :: "('j \<Rightarrow> 'j json_node) \<Rightarrow> 'j \<Rightarrow> string \<Rightarrow> (nat, getter_error) result" where
  "getter_u64 = getter_uint u64_max"

definition getter_u128 :: "('j \<Rightarrow> 'j json_node) \<Rightarrow> 'j \<Rightarrow> string \<Rightarrow> (nat, getter_error) result" where
  "getter_u128 = getter_uint u128_max"

definition getter_string :: "('j \<Rightarrow> 'j json_node) \<Rightarrow> 'j \<Rightarrow> string \<Rightarrow> (string, getter_error) result" where
  "getter_string view v field =
     and_then (getter_field view v field) (\<lambda>raw. ok_or (as_str (view raw)) (GetterType field))"

record lot_id =
  li_denom :: nat
  li_order_id :: nat

record queue_state =
  qs_next_id :: nat
  qs_available :: nat
  qs_sold_prefix :: nat
  qs_owed_count :: nat

definition queue_decode_getter :: "('j \<Rightarrow> 'j json_node) \<Rightarrow> 'j \<Rightarrow> (queue_state, getter_error) result" where
  "queue_decode_getter view v =
     and_then (getter_u64 view v ''nextId'') (\<lambda>next_id.
     and_then (getter_u64 view v ''available'') (\<lambda>available.
     and_then (getter_u64 view v ''soldPrefix'') (\<lambda>sold_prefix.
     and_then (getter_u64 view v ''owedCount'') (\<lambda>owed_count.
     Inr \<lparr>qs_next_id = next_id, qs_available = available, qs_sold_prefix = sold_prefix, qs_owed_count = owed_count\<rparr>))))"

definition is_sold :: "queue_state \<Rightarrow> nat \<Rightarrow> bool" where
  "is_sold q order_id \<longleftrightarrow> order_id \<noteq> 0 \<and> order_id \<le> qs_sold_prefix q"

definition issued_order_ids :: "queue_state \<Rightarrow> nat list" where
  "issued_order_ids q = [1 ..< qs_next_id q]"

record lot_details =
  ld_root :: string
  ld_owner :: string
  ld_denom :: nat
  ld_order_id :: nat
  ld_claimed :: bool

definition lot_decode_getter :: "('j \<Rightarrow> 'j json_node) \<Rightarrow> 'j \<Rightarrow> (lot_details, getter_error) result" where
  "lot_decode_getter view v =
     and_then (getter_string view v ''root'') (\<lambda>root.
     and_then (getter_string view v ''owner'') (\<lambda>owner.
     and_then (getter_u64 view v ''denom'') (\<lambda>raw_denom.
     and_then (ok_or (try_from u16_max raw_denom) DenomNotU16) (\<lambda>denom.
     and_then (getter_u64 view v ''orderId'') (\<lambda>order_id.
     and_then (ok_or (Option.bind (json_get view v ''claimed'') (\<lambda>raw. as_bool (view raw))) (GetterType ''claimed'')) (\<lambda>claimed.
     Inr \<lparr>ld_root = root, ld_owner = owner, ld_denom = denom, ld_order_id = order_id, ld_claimed = claimed\<rparr>))))))"

definition lot_details_id :: "lot_details \<Rightarrow> lot_id" where
  "lot_details_id d = \<lparr>li_denom = ld_denom d, li_order_id = ld_order_id d\<rparr>"

record root_details =
  rd_seller_shell_pool_raw :: nat
  rd_usdc_balance_raw :: nat
  rd_owed_total_raw :: nat

definition root_decode_getter :: "('j \<Rightarrow> 'j json_node) \<Rightarrow> 'j \<Rightarrow> (root_details, getter_error) result" where
  "root_decode_getter view v =
     and_then (getter_u128 view v ''sellerShellPool'') (\<lambda>seller_shell_pool_raw.
     and_then (getter_u128 view v ''usdcBalance'') (\<lambda>usdc_balance_raw.
     and_then (getter_u128 view v ''owedTotal'') (\<lambda>owed_total_raw.
     Inr \<lparr>rd_seller_shell_pool_raw = seller_shell_pool_raw, rd_usdc_balance_raw = usdc_balance_raw,
          rd_owed_total_raw = owed_total_raw\<rparr>)))"

definition free_reserve_raw :: "root_details \<Rightarrow> nat" where
  "free_reserve_raw d = rd_usdc_balance_raw d - rd_owed_total_raw d"


section \<open>Plans are exact\<close>

text \<open>How many lots the greedy decomposition takes: the digits of the amount, thousands in one.\<close>

definition lots_needed :: "nat \<Rightarrow> nat" where
  "lots_needed n = n mod 10 + (n div 10 mod 10 + (n div 10 div 10 mod 10 + n div 10 div 10 div 10))"

lemma rate_pos: "0 < ACCUMULATOR_SHELL_PER_USDC_RAW"
  by (simp add: ACCUMULATOR_SHELL_PER_USDC_RAW_def SHELL_UNIT_def)

text \<open>The loop of the source, one denomination after the other.\<close>

lemma push_lots_step:
  "push_lots (denom # denoms) left =
     replicate (left div denom) \<lparr>sl_denom = denom, sl_shell_raw = denom * ACCUMULATOR_SHELL_PER_USDC_RAW\<rparr> @
     push_lots denoms (left mod denom)"
  by (simp add: Let_def minus_div_mult_eq_mod)

declare push_lots.simps(2) [simp del]

lemma push_lots_sound:
  "lot \<in> set (push_lots denoms left) \<Longrightarrow>
     sl_denom lot \<in> set denoms \<and> sl_shell_raw lot = sl_denom lot * ACCUMULATOR_SHELL_PER_USDC_RAW"
  by (induction denoms arbitrary: left) (auto simp: push_lots_step)

lemma push_lots_sum:
  "sum_list (map sl_denom (push_lots denoms left)) + foldl (mod) left denoms = left"
proof (induction denoms arbitrary: left)
  case (Cons denom denoms)
  have "sum_list (map sl_denom (push_lots (denom # denoms) left)) + foldl (mod) left (denom # denoms) =
      left div denom * denom + (sum_list (map sl_denom (push_lots denoms (left mod denom))) + foldl (mod) (left mod denom) denoms)"
    by (simp add: push_lots_step sum_list_replicate)
  then show ?case by (simp add: Cons [of "left mod denom"])
qed simp

lemma push_lots_desc:
  "sorted_wrt (\<ge>) denoms \<Longrightarrow> sorted_wrt (\<lambda>a b. sl_denom a \<ge> sl_denom b) (push_lots denoms left)"
proof (induction denoms arbitrary: left)
  case (Cons denom denoms)
  have "sorted_wrt (\<lambda>a b. sl_denom a \<ge> sl_denom b) (replicate k l)" for k and l :: sell_lot
    by (simp add: sorted_wrt_iff_nth_less)
  then show ?case using Cons by (auto simp: push_lots_step sorted_wrt_append dest!: push_lots_sound)
qed simp

lemma count_lots_exact:
  "\<forall>d\<in>set denoms. 0 < d \<Longrightarrow> sofar + left \<le> u128_max \<Longrightarrow>
     count_lots denoms sofar left = Some (sofar + length (push_lots denoms left))"
proof (induction denoms sofar left rule: count_lots.induct)
  case (2 denom denoms sofar left)
  have "left div denom + left mod denom \<le> left div denom * denom + left mod denom"
    using 2(2) by (intro add_right_mono) (cases denom; simp)
  then have "left div denom + left mod denom \<le> left" by simp
  then show ?case using 2 by (simp add: push_lots_step checked_add_def)
qed simp

lemma lots_of_amount:
  "length (push_lots ACCUMULATOR_DENOMS n) = lots_needed n"
  "foldl (mod) n ACCUMULATOR_DENOMS = 0"
proof -
  have "n mod 1000 div 100 = n div 100 mod 10" using mod_mult2_eq [of n 100 10] by simp
  moreover have "n mod 1000 mod 100 = n mod 100" "n mod 100 mod 10 = n mod 10" by (simp_all add: mod_mod_cancel)
  moreover have "n mod 100 div 10 = n div 10 mod 10" using mod_mult2_eq [of n 10 10] by simp
  ultimately show "length (push_lots ACCUMULATOR_DENOMS n) = lots_needed n"
    by (simp add: ACCUMULATOR_DENOMS_def push_lots_step lots_needed_def div_mult2_eq [symmetric])
  show "foldl (mod) n ACCUMULATOR_DENOMS = 0" by (simp add: ACCUMULATOR_DENOMS_def)
qed

lemma length_le_sum_list: "(\<And>x. x \<in> set xs \<Longrightarrow> 1 \<le> f x) \<Longrightarrow> length xs \<le> sum_list (map f xs)" for f :: "'a \<Rightarrow> nat"
  by (induction xs) fastforce+

lemma amount_of_shell_raw:
  assumes "\<forall>lot\<in>set lots. sl_shell_raw lot = sl_denom lot * k"
  shows "sum_list (map sl_shell_raw lots) = sum_list (map sl_denom lots) * k"
  using assms by (induction lots) (simp_all add: add_mult_distrib)

lemma sell_plan_cases:
  "sell_for_whole_usdc can_reserve u = Inr p \<longleftrightarrow>
     0 < u \<and> u * ACCUMULATOR_SHELL_PER_USDC_RAW \<le> u128_max \<and> lots_needed u \<le> usize_max \<and> can_reserve (lots_needed u) \<and>
     p = \<lparr>sp_lots = push_lots ACCUMULATOR_DENOMS u, sp_usdc_whole = u,
          sp_shell_committed_raw = u * ACCUMULATOR_SHELL_PER_USDC_RAW, sp_usdc_expected_raw = u * USDC_UNIT\<rparr>"
proof -
  have "lots_needed u \<le> u"
  proof -
    have "length (push_lots ACCUMULATOR_DENOMS u) \<le> sum_list (map sl_denom (push_lots ACCUMULATOR_DENOMS u))"
      by (rule length_le_sum_list) (drule push_lots_sound, auto simp: ACCUMULATOR_DENOMS_def)
    then show ?thesis using push_lots_sum [of ACCUMULATOR_DENOMS u] by (simp add: lots_of_amount)
  qed
  have "u \<le> u * ACCUMULATOR_SHELL_PER_USDC_RAW" "u * USDC_UNIT \<le> u * ACCUMULATOR_SHELL_PER_USDC_RAW"
    by (simp_all add: ACCUMULATOR_SHELL_PER_USDC_RAW_def SHELL_UNIT_def USDC_UNIT_def)
  then have u: "u \<le> u128_max" "u * USDC_UNIT \<le> u128_max" if "u * ACCUMULATOR_SHELL_PER_USDC_RAW \<le> u128_max"
    using that by linarith+
  have c: "count_lots ACCUMULATOR_DENOMS 0 u = Some (lots_needed u)" if "u \<le> u128_max"
    using count_lots_exact [of ACCUMULATOR_DENOMS 0 u] that by (simp add: lots_of_amount) (simp add: ACCUMULATOR_DENOMS_def)
  show ?thesis
  proof (cases "u * ACCUMULATOR_SHELL_PER_USDC_RAW \<le> u128_max")
    case True
    show ?thesis using True u [OF True] c [OF u(1) [OF True]]
      by (auto simp: sell_for_whole_usdc_def checked_mul_def ok_or_def try_from_def ensure_def split: if_splits)
  qed (auto simp: sell_for_whole_usdc_def checked_mul_def ok_or_def)
qed

text \<open>Adding a lot of any allowed size raises the number of digits' units by at most one.\<close>

lemma carry_step:
  fixes f :: "nat \<Rightarrow> nat"
  assumes "\<And>v. f (Suc v) \<le> Suc (f v)"
  shows "Suc u mod 10 + f (Suc u div 10) \<le> Suc (u mod 10 + f (u div 10))"
  using assms [of "u div 10"] by (simp add: mod_Suc div_Suc)

lemma lots_needed_step:
  assumes "d \<in> set ACCUMULATOR_DENOMS"
  shows "lots_needed (d + n) \<le> Suc (lots_needed n)"
proof -
  define h where "h = (\<lambda>v::nat. v mod 10 + v div 10)"
  define g where "g = (\<lambda>v. v mod 10 + h (v div 10))"
  have h: "h (Suc v) \<le> Suc (h v)" for v unfolding h_def using carry_step [of "\<lambda>x. x" v] by simp
  have g: "g (Suc v) \<le> Suc (g v)" for v unfolding g_def using carry_step [of h v] h by simp
  have f: "lots_needed m = m mod 10 + g (m div 10)" for m by (simp add: lots_needed_def g_def h_def)
  have "lots_needed (1 + n) \<le> Suc (lots_needed n)" unfolding f using carry_step [of g n] g by simp
  moreover have "lots_needed (10 + n) \<le> Suc (lots_needed n)" unfolding f using g [of "n div 10"] by (simp add: div_add_self1)
  moreover have "(100 + n) div 10 = 10 + n div 10" "(100 + n) mod 10 = n mod 10"
    using mod_mult_self2 [of n 10 10] div_mult_self2 [of 10 n 10] by (simp_all add: add.commute)
  then have "lots_needed (100 + n) \<le> Suc (lots_needed n)" unfolding f g_def using h [of "n div 10 div 10"] by (simp add: div_add_self1)
  moreover have "(1000 + n) div 10 = 100 + n div 10" "(1000 + n) mod 10 = n mod 10"
      "(100 + n div 10) div 10 = 10 + n div 10 div 10" "(100 + n div 10) mod 10 = n div 10 mod 10"
    using mod_mult_self2 [of n 10 100] div_mult_self2 [of 10 n 100] mod_mult_self2 [of "n div 10" 10 10]
      div_mult_self2 [of 10 "n div 10" 10] by (simp_all add: add.commute)
  then have "lots_needed (1000 + n) \<le> Suc (lots_needed n)" unfolding f g_def h_def by (simp add: div_add_self1)
  ultimately show ?thesis using assms by (auto simp: ACCUMULATOR_DENOMS_def)
qed

lemma lots_needed_least: "set ds \<subseteq> set ACCUMULATOR_DENOMS \<Longrightarrow> lots_needed (sum_list ds) \<le> length ds"
proof (induction ds)
  case (Cons d ds)
  then show ?case using lots_needed_step [of d "sum_list ds"] by simp
qed (simp add: lots_needed_def)

text \<open>
  A sell plan is exact.  Its lots, largest first, are all of an allowed size and priced at the fixed
  rate; together they make precisely the requested amount and cost precisely the SHELL that the plan commits; and a
  plan exists exactly for the nonzero amounts whose SHELL fits the contract's integers and whose lots the
  allocator can hold.
\<close>

theorem sell_plan_exact:
  "(\<exists>p. sell_for_whole_usdc can_reserve u = Inr p) =
     (0 < u \<and> u * ACCUMULATOR_SHELL_PER_USDC_RAW \<le> u128_max \<and> lots_needed u \<le> usize_max \<and> can_reserve (lots_needed u)) \<and>
   (sell_for_whole_usdc can_reserve u = Inr p \<longrightarrow>
      sum_list (map sl_denom (sp_lots p)) = u \<and>
      sum_list (map sl_shell_raw (sp_lots p)) = sp_shell_committed_raw p \<and>
      sp_usdc_expected_raw p = u * USDC_UNIT \<and>
      sorted_wrt (\<lambda>a b. sl_denom a \<ge> sl_denom b) (sp_lots p) \<and>
      list_all (\<lambda>lot. sl_denom lot \<in> set ACCUMULATOR_DENOMS \<and>
                      sl_shell_raw lot = sl_denom lot * ACCUMULATOR_SHELL_PER_USDC_RAW) (sp_lots p))"
proof -
  let ?lots = "push_lots ACCUMULATOR_DENOMS u"
  have "sum_list (map sl_denom ?lots) = u" using push_lots_sum [of ACCUMULATOR_DENOMS u] by (simp add: lots_of_amount)
  moreover have "sum_list (map sl_shell_raw ?lots) = sum_list (map sl_denom ?lots) * ACCUMULATOR_SHELL_PER_USDC_RAW"
    by (rule amount_of_shell_raw) (auto dest: push_lots_sound)
  moreover have "sorted_wrt (\<lambda>a b. sl_denom a \<ge> sl_denom b) ?lots"
    by (rule push_lots_desc) (simp add: ACCUMULATOR_DENOMS_def)
  ultimately show ?thesis by (auto simp: sell_plan_cases list_all_iff dest: push_lots_sound)
qed

theorem sell_plan_exact_witness:
  "\<exists>p. sell_for_whole_usdc (\<lambda>_. True) 1234 = Inr p \<and> map sl_denom (sp_lots p) = [1000, 100, 100, 10, 10, 10, 1, 1, 1, 1] \<and>
     sum_list (map sl_shell_raw (sp_lots p)) = sp_shell_committed_raw p"
proof -
  obtain p where p: "sell_for_whole_usdc (\<lambda>_. True) 1234 = Inr p"
    using sell_plan_exact [of "\<lambda>_. True" 1234]
    by (auto simp: ACCUMULATOR_SHELL_PER_USDC_RAW_def SHELL_UNIT_def u128_max_def usize_max_def u64_max_def lots_needed_def)
  have "map sl_denom (push_lots ACCUMULATOR_DENOMS 1234) = [1000, 100, 100, 10, 10, 10, 1, 1, 1, 1]"
    by (simp add: ACCUMULATOR_DENOMS_def push_lots_step) (simp add: eval_nat_numeral)
  then show ?thesis using p sell_plan_exact [of "\<lambda>_. True" 1234 p] by (auto simp: sell_plan_cases)
qed

text \<open>
  No way of putting the amount together from allowed lots takes fewer lots, that is, fewer irreversible
  messages, than the plan.
\<close>

theorem sell_plan_fewest_lots:
  assumes "sell_for_whole_usdc can_reserve u = Inr p"
    and "set ds \<subseteq> set ACCUMULATOR_DENOMS" and "sum_list ds = u"
  shows "lot_count p \<le> length ds"
  using assms lots_needed_least [of ds] by (auto simp: sell_plan_cases lot_count_def lots_of_amount)

theorem sell_plan_fewest_lots_witness:
  "\<exists>p. sell_for_whole_usdc (\<lambda>_. True) 110 = Inr p \<and> lot_count p \<le> length [10, 100 :: nat]"
proof -
  obtain p where p: "sell_for_whole_usdc (\<lambda>_. True) 110 = Inr p"
    by (auto simp: sell_plan_cases ACCUMULATOR_SHELL_PER_USDC_RAW_def SHELL_UNIT_def u128_max_def usize_max_def u64_max_def lots_needed_def)
  show ?thesis using sell_plan_fewest_lots [OF p, of "[10, 100]"] p by (simp add: ACCUMULATOR_DENOMS_def)
qed

text \<open>Selling all that is there commits no more than the balance and leaves less than one lot.\<close>

lemma sell_all_leaves_dust:
  "sell_for_available_shell can_reserve a = Inr p \<Longrightarrow>
     sell_require_funded p a = Inr () \<and> shell_left_raw p a = shell_remainder_raw a \<and>
     max_whole_usdc_from_shell (shell_left_raw p a) = 0"
  using rate_pos
  by (auto simp: sell_for_available_shell_def sell_plan_cases not_less [symmetric] sell_require_funded_def shell_left_raw_def
      shell_remainder_raw_def max_whole_usdc_from_shell_def minus_div_mult_eq_mod dest: less_le_trans [OF _ div_times_less_eq_dividend])

text \<open>A buy spends and expects at the same rate as a sell.\<close>

lemma buy_plan_cases:
  "buy_for_whole_usdc u = Inr b \<longleftrightarrow> 0 < u \<and> u * ACCUMULATOR_SHELL_PER_USDC_RAW \<le> u128_max \<and>
     b = \<lparr>bp_usdc_whole = u, bp_usdc_raw = u * USDC_UNIT, bp_shell_expected_raw = u * ACCUMULATOR_SHELL_PER_USDC_RAW\<rparr>"
proof -
  have "u * USDC_UNIT \<le> u * ACCUMULATOR_SHELL_PER_USDC_RAW"
    by (simp add: ACCUMULATOR_SHELL_PER_USDC_RAW_def SHELL_UNIT_def USDC_UNIT_def)
  then have "u * ACCUMULATOR_SHELL_PER_USDC_RAW \<le> u128_max \<Longrightarrow> u * USDC_UNIT \<le> u128_max" by linarith
  then show ?thesis by (auto simp: buy_for_whole_usdc_def checked_mul_def ok_or_def split: if_splits)
qed

end
