(* ===== verification/AccumulatorRun.thy ===== *)
theory AccumulatorRun
  imports Accumulator "HOL-Library.Sublist"
begin

text \<open>
  The commands of \<open>dexdo accumulator\<close>, \<open>crates/dexdo/src/cli/accumulator.rs\<close>: each one states its plan, writes the
  operation to a file, sends one wallet message after the other and waits until the chain shows the outcome; only
  then is the file removed.  A later command first settles what the file says.

  The chain, the wallet, the clock and the disk are functions on a world of any type.  What a command leaves behind
  is kept beside the world: the file, and the messages handed to the network, in order.  A command that dies at some
  call leaves what it would leave if that call failed, since an error only ever propagates.  The lock on the
  wallet makes commands run one after the other.  Printed lines are left out.
\<close>

section \<open>Chain, wallet and disk\<close>

definition SHELL_CURRENCY_ID :: nat where "SHELL_CURRENCY_ID = 2"
definition USDC_CURRENCY_ID :: nat where "USDC_CURRENCY_ID = 3"
definition GAS_BALANCE_CONFIRM_MAX_READS :: nat where "GAS_BALANCE_CONFIRM_MAX_READS = 20"
definition NOTE_DEPLOY_SUBMIT_NATIVE_VALUE :: nat where "NOTE_DEPLOY_SUBMIT_NATIVE_VALUE = 100000000"
definition NOTE_DEPLOY_WALLET_SUBMITS :: nat where "NOTE_DEPLOY_WALLET_SUBMITS = 2"
definition WALLET_SUBMIT_NATIVE_FEE_BOUND_RAW :: nat where "WALLET_SUBMIT_NATIVE_FEE_BOUND_RAW = 153501000"
definition ACCUMULATOR_WALLET_MESSAGE_GAS_RAW :: nat where "ACCUMULATOR_WALLET_MESSAGE_GAS_RAW = 16888658"
definition FUNDING_WALLET_NATIVE_FLOOR_RAW :: nat where
  "FUNDING_WALLET_NATIVE_FLOOR_RAW =
     NOTE_DEPLOY_WALLET_SUBMITS * (NOTE_DEPLOY_SUBMIT_NATIVE_VALUE + WALLET_SUBMIT_NATIVE_FEE_BOUND_RAW)"
definition ACCUMULATOR_ROOT_ADDRESS :: string where
  "ACCUMULATOR_ROOT_ADDRESS =
     ''0:3535353535353535353535353535353535353535353535353535353535353535''"
definition ACCUMULATOR_ROOT_VERSION :: "string \<times> string" where
  "ACCUMULATOR_ROOT_VERSION = (''1.0.2'', ''ShellAccumulatorRootUSDC'')"
definition ACCUMULATOR_LOT_VERSION :: "string \<times> string" where
  "ACCUMULATOR_LOT_VERSION = (''1.0.2'', ''ShellSellOrderLot'')"

definition funding_wallet_native_shortfall_raw :: "nat \<Rightarrow> nat option" where
  "funding_wallet_native_shortfall_raw native_raw =
     Option.bind (checked_sub FUNDING_WALLET_NATIVE_FLOOR_RAW native_raw) (\<lambda>short. if short > 0 then Some short else None)"

datatype pending_operation =
    PendingBuy string string string string
  | PendingSell "(nat, nat) hmap" "nat list"
  | PendingClaim "(nat \<times> nat) list"

text \<open>What a wallet message does: deposit a currency with the root, or call \<open>claim\<close> on a lot.\<close>

datatype money_move = Deposit nat nat | ClaimLot nat nat

datatype acc_error =
    Chain string
  | RootNotActive | NotARoot | NoAnswer
  | Decode getter_error
  | BadAddress string
  | LotNotActive | NotALot
  | SellRefused sell_plan_error
  | BuyRefused buy_plan_error
  | CreditOverflow
  | GasOverflow | GasShort nat nat
  | WalletMissing
  | BelowNativeFloor nat
  | PersistFailed | LoadFailed | ClearFailed
  | PendingNotANumber
  | StillPending
  | WalletRefused
  | LotsUnaccounted nat nat
  | LotNotMatched
  | CreditNotObserved

datatype getter_call = GetVersion | GetQueueState nat | GetDetails | GetSellOrderAddress nat nat

record wallet_account =
  wc_balance :: nat
  wc_ecc_balance :: "nat \<Rightarrow> nat"

record wallet_receipt =
  wr_aborted :: bool
  wr_action_result_code :: nat

text \<open>A file operation succeeds, fails without effect, or takes effect and then reports a failure.\<close>

datatype file_io = FileOk | FileFailed | FileDoneButFailed

record ('j, 'w) acc_env =
  ae_view :: "'j \<Rightarrow> 'j json_node"
  ae_connect :: "'w \<Rightarrow> (unit, string) result \<times> 'w"
  ae_open :: "'w \<Rightarrow> (string, string) result \<times> 'w"
  ae_owner :: "'w \<Rightarrow> (string, string) result \<times> 'w"
  ae_getter :: "string \<Rightarrow> getter_call \<Rightarrow> 'w \<Rightarrow> ('j option, string) result \<times> 'w"
  ae_parse_address :: "string \<Rightarrow> string option"
  ae_lot_active :: "string \<Rightarrow> 'w \<Rightarrow> (bool, string) result \<times> 'w"
  ae_wallet :: "'w \<Rightarrow> (wallet_account option, string) result \<times> 'w"
  ae_prepare :: "string \<Rightarrow> money_move \<Rightarrow> 'w \<Rightarrow> (unit, string) result \<times> 'w"
  ae_send_message_routed :: "string \<Rightarrow> money_move \<Rightarrow> 'w \<Rightarrow> (unit, string) result \<times> 'w"
  ae_observe :: "'w \<Rightarrow> (wallet_receipt option, string) result \<times> 'w"
  ae_sleep :: "'w \<Rightarrow> 'w"
  ae_file :: "'w \<Rightarrow> file_io \<times> 'w"
  ae_can_reserve :: "nat \<Rightarrow> bool"
  ae_readable :: "pending_operation \<Rightarrow> bool"

text \<open>A message handed to the network, with the file as it stood at that moment.\<close>

record sent_message =
  sg_file :: "pending_operation option"
  sg_dest :: string
  sg_move :: money_move

record 'w spend =
  sw_world :: 'w
  sw_pending :: "pending_operation option"
  sw_sent :: "sent_message list"

type_synonym ('a, 'w) spend_run = "('a, acc_error, 'w spend) run"

definition ask :: "('w \<Rightarrow> 'a \<times> 'w) \<Rightarrow> ('a, 'w) spend_run" where
  "ask op s = (case op (sw_world s) of (a, w) \<Rightarrow> (Inr a, s\<lparr>sw_world := w\<rparr>))"

text \<open>A chain call whose error propagates.\<close>

definition ask_chain :: "('w \<Rightarrow> ('a, string) result \<times> 'w) \<Rightarrow> ('a, 'w) spend_run" where
  "ask_chain op = run_then (ask op) (\<lambda>r. run_pure (map_err Chain r))"

fun run_concat :: "('x \<Rightarrow> ('y list, 'e, 'w) run) \<Rightarrow> 'x list \<Rightarrow> ('y list, 'e, 'w) run" where
  "run_concat f [] = run_pure (Inr [])"
| "run_concat f (x # xs) = run_then (f x) (\<lambda>ys. run_then (run_concat f xs) (\<lambda>zs. run_pure (Inr (ys @ zs))))"

fun run_for :: "('x \<Rightarrow> (unit, 'e, 'w) run) \<Rightarrow> 'x list \<Rightarrow> (unit, 'e, 'w) run" where
  "run_for f [] = run_pure (Inr ())"
| "run_for f (x # xs) = run_then (f x) (\<lambda>_. run_for f xs)"

section \<open>The reader\<close>

record live_lot =
  ll_id :: lot_id
  ll_address :: string
  ll_details :: lot_details
  ll_sold :: bool

definition acc_root :: "('j, 'w) acc_env \<Rightarrow> (string, 'w) spend_run" where
  "acc_root env = run_pure (ok_or (ae_parse_address env ACCUMULATOR_ROOT_ADDRESS) (BadAddress ACCUMULATOR_ROOT_ADDRESS))"

text \<open>\<open>version["value0"].as_str().unwrap_or_default()\<close>\<close>

definition text_or_default :: "('j \<Rightarrow> 'j json_node) \<Rightarrow> 'j \<Rightarrow> string \<Rightarrow> string" where
  "text_or_default view v field =
     (case Option.bind (json_get view v field) (\<lambda>raw. as_str (view raw)) of Some t \<Rightarrow> t | None \<Rightarrow> [])"

definition version_is :: "('j \<Rightarrow> 'j json_node) \<Rightarrow> 'j \<Rightarrow> string \<times> string \<Rightarrow> bool" where
  "version_is view v want \<longleftrightarrow> (text_or_default view v ''value0'', text_or_default view v ''value1'') = want"

definition assert_root_identity :: "('j, 'w) acc_env \<Rightarrow> string \<Rightarrow> (unit, 'w) spend_run" where
  "assert_root_identity env root =
     run_then (ask_chain (ae_getter env root GetVersion)) (\<lambda>answer.
     run_then (run_pure (ok_or answer RootNotActive)) (\<lambda>version.
     run_pure (ensure (version_is (ae_view env) version ACCUMULATOR_ROOT_VERSION) NotARoot)))"

definition read_queue :: "('j, 'w) acc_env \<Rightarrow> string \<Rightarrow> nat \<Rightarrow> (queue_state, 'w) spend_run" where
  "read_queue env root denom =
     run_then (ask_chain (ae_getter env root (GetQueueState denom))) (\<lambda>answer.
     run_then (run_pure (ok_or answer NoAnswer)) (\<lambda>raw.
     run_pure (map_err Decode (queue_decode_getter (ae_view env) raw))))"

definition read_root_details :: "('j, 'w) acc_env \<Rightarrow> string \<Rightarrow> (root_details, 'w) spend_run" where
  "read_root_details env root =
     run_then (ask_chain (ae_getter env root GetDetails)) (\<lambda>answer.
     run_then (run_pure (ok_or answer NoAnswer)) (\<lambda>raw.
     run_pure (map_err Decode (root_decode_getter (ae_view env) raw))))"

definition lot_address :: "('j, 'w) acc_env \<Rightarrow> string \<Rightarrow> lot_id \<Rightarrow> (string, 'w) spend_run" where
  "lot_address env root lot =
     run_then (ask_chain (ae_getter env root (GetSellOrderAddress (li_denom lot) (li_order_id lot)))) (\<lambda>answer.
     run_then (run_pure (ok_or answer NoAnswer)) (\<lambda>raw.
     run_then (run_pure (ok_or (Option.bind (json_get (ae_view env) raw ''sellOrderAddr'') (\<lambda>x. as_str (ae_view env x))) NoAnswer)) (\<lambda>addr.
     run_pure (ok_or (ae_parse_address env addr) (BadAddress addr)))))"

definition read_lot_details :: "('j, 'w) acc_env \<Rightarrow> string \<Rightarrow> (lot_details option, 'w) spend_run" where
  "read_lot_details env address =
     run_then (ask_chain (ae_lot_active env address)) (\<lambda>active.
     if \<not> active then run_pure (Inr None) else
     run_then (ask_chain (ae_getter env address GetDetails)) (\<lambda>answer.
     case answer of
       None \<Rightarrow> run_pure (Inr None)
     | Some raw \<Rightarrow> run_pure (map_err Decode (map_sum id Some (lot_decode_getter (ae_view env) raw)))))"

definition assert_lot_identity :: "('j, 'w) acc_env \<Rightarrow> string \<Rightarrow> (unit, 'w) spend_run" where
  "assert_lot_identity env address =
     run_then (ask_chain (ae_getter env address GetVersion)) (\<lambda>answer.
     run_then (run_pure (ok_or answer LotNotActive)) (\<lambda>version.
     run_pure (ensure (version_is (ae_view env) version ACCUMULATOR_LOT_VERSION) NotALot)))"

definition scan_floor :: "(nat, nat) hmap \<Rightarrow> nat \<Rightarrow> nat" where
  "scan_floor floors denom = (case hm_get floors denom of Some n \<Rightarrow> n | None \<Rightarrow> 1)"

definition scan_lot :: "('j, 'w) acc_env \<Rightarrow> string \<Rightarrow> string \<Rightarrow> queue_state \<Rightarrow> nat \<Rightarrow> nat \<Rightarrow> (live_lot list, 'w) spend_run" where
  "scan_lot env root owner queue denom order_id =
     (let lot = \<lparr>li_denom = denom, li_order_id = order_id\<rparr> in
      run_then (lot_address env root lot) (\<lambda>address.
      run_then (read_lot_details env address) (\<lambda>found.
      case found of
        None \<Rightarrow> run_pure (Inr [])
      | Some details \<Rightarrow>
          run_pure (Inr (if ae_parse_address env (ld_owner details) = Some owner
                         then [\<lparr>ll_id = lot, ll_address = address, ll_details = details, ll_sold = is_sold queue order_id\<rparr>]
                         else [])))))"

definition lots_owned_by_from :: "('j, 'w) acc_env \<Rightarrow> string \<Rightarrow> string \<Rightarrow> (nat, nat) hmap \<Rightarrow> (live_lot list, 'w) spend_run" where
  "lots_owned_by_from env root owner floors =
     run_concat (\<lambda>denom.
       run_then (read_queue env root denom) (\<lambda>queue.
       run_concat (scan_lot env root owner queue denom)
         (dropWhile (\<lambda>n. n < scan_floor floors denom) (issued_order_ids queue)))) ACCUMULATOR_DENOMS"

definition lots_owned_by :: "('j, 'w) acc_env \<Rightarrow> string \<Rightarrow> string \<Rightarrow> nat \<Rightarrow> (live_lot list, 'w) spend_run" where
  "lots_owned_by env root owner from_order_id =
     lots_owned_by_from env root owner (map (\<lambda>denom. (denom, from_order_id)) ACCUMULATOR_DENOMS)"

definition confirmation_complete :: "nat \<Rightarrow> nat \<Rightarrow> bool" where
  "confirmation_complete found expected \<longleftrightarrow> found \<ge> expected"

fun await_owned_lots :: "nat \<Rightarrow> ('j, 'w) acc_env \<Rightarrow> string \<Rightarrow> string \<Rightarrow> (nat, nat) hmap \<Rightarrow> nat \<Rightarrow> live_lot list \<Rightarrow> (live_lot list, 'w) spend_run" where
  "await_owned_lots 0 env root owner floors expected latest = run_pure (Inr latest)"
| "await_owned_lots (Suc reads) env root owner floors expected latest =
     run_then (ask (\<lambda>w. ((), ae_sleep env w))) (\<lambda>_.
     run_then (lots_owned_by_from env root owner floors) (\<lambda>latest.
     if confirmation_complete (length latest) expected then run_pure (Inr latest)
     else await_owned_lots reads env root owner floors expected latest))"

section \<open>The spender\<close>

definition expected_credit_landed :: "nat \<Rightarrow> nat \<Rightarrow> nat \<Rightarrow> (bool, acc_error) result" where
  "expected_credit_landed before_raw expected_raw now_raw =
     and_then (ok_or (checked_add u128_max before_raw expected_raw) CreditOverflow) (\<lambda>target_raw. Inr (now_raw \<ge> target_raw))"

definition is_claim_candidate :: "bool \<Rightarrow> bool \<Rightarrow> bool" where
  "is_claim_candidate sold claimed \<longleftrightarrow> sold \<and> \<not> claimed"

definition required_native_gas :: "nat \<Rightarrow> (nat, acc_error) result" where
  "required_native_gas message_count = ok_or (checked_mul u128_max ACCUMULATOR_WALLET_MESSAGE_GAS_RAW message_count) GasOverflow"

definition require_native_gas :: "nat \<Rightarrow> nat \<Rightarrow> (unit, acc_error) result" where
  "require_native_gas available_raw message_count =
     and_then (required_native_gas message_count) (\<lambda>required_raw.
     ensure (\<not> available_raw < required_raw) (GasShort available_raw required_raw))"

definition persist_pending :: "('j, 'w) acc_env \<Rightarrow> pending_operation \<Rightarrow> (unit, 'w) spend_run" where
  "persist_pending env operation =
     run_then (ask (ae_file env)) (\<lambda>io.
     case io of
       FileOk \<Rightarrow> run_modify (\<lambda>s. s\<lparr>sw_pending := Some operation\<rparr>)
     | FileFailed \<Rightarrow> run_pure (Inl PersistFailed)
     | FileDoneButFailed \<Rightarrow>
         run_then (run_modify (\<lambda>s. s\<lparr>sw_pending := Some operation\<rparr>)) (\<lambda>_. run_pure (Inl PersistFailed)))"

text \<open>
  Whether what was written can be decoded again is up to the JSON library: \<open>PendingOperation\<close> is an internally tagged enum, one of whose
  variants holds a map with integer keys, so \<open>ae_readable\<close> is left open.
\<close>

definition load_pending :: "('j, 'w) acc_env \<Rightarrow> (pending_operation option, 'w) spend_run" where
  "load_pending env =
     run_then (ask (ae_file env)) (\<lambda>io.
     if io \<noteq> FileOk then run_pure (Inl LoadFailed)
     else run_get (\<lambda>s. run_pure (case sw_pending s of
            None \<Rightarrow> Inr None
          | Some operation \<Rightarrow> if ae_readable env operation then Inr (Some operation) else Inl LoadFailed)))"

definition clear_pending :: "('j, 'w) acc_env \<Rightarrow> (unit, 'w) spend_run" where
  "clear_pending env =
     run_then (ask (ae_file env)) (\<lambda>io.
     case io of
       FileOk \<Rightarrow> run_modify (\<lambda>s. s\<lparr>sw_pending := None\<rparr>)
     | FileFailed \<Rightarrow> run_pure (Inl ClearFailed)
     | FileDoneButFailed \<Rightarrow>
         run_then (run_modify (\<lambda>s. s\<lparr>sw_pending := None\<rparr>)) (\<lambda>_. run_pure (Inl ClearFailed)))"

definition native_balance :: "('j, 'w) acc_env \<Rightarrow> (nat, 'w) spend_run" where
  "native_balance env =
     run_then (ask_chain (ae_wallet env)) (\<lambda>account.
     run_pure (map_sum id wc_balance (ok_or account WalletMissing)))"

definition ecc_balance :: "('j, 'w) acc_env \<Rightarrow> nat \<Rightarrow> (nat, 'w) spend_run" where
  "ecc_balance env currency =
     run_then (ask_chain (ae_wallet env)) (\<lambda>account.
     run_pure (Inr (case account of Some a \<Rightarrow> wc_ecc_balance a currency | None \<Rightarrow> 0)))"

fun await_ecc_credit :: "nat \<Rightarrow> ('j, 'w) acc_env \<Rightarrow> nat \<Rightarrow> nat \<Rightarrow> nat \<Rightarrow> (nat option, 'w) spend_run" where
  "await_ecc_credit 0 env currency before_raw expected_raw = run_pure (Inr None)"
| "await_ecc_credit (Suc reads) env currency before_raw expected_raw =
     run_then (ask (\<lambda>w. ((), ae_sleep env w))) (\<lambda>_.
     run_then (ecc_balance env currency) (\<lambda>now_raw.
     run_then (run_pure (expected_credit_landed before_raw expected_raw now_raw)) (\<lambda>landed.
     if landed then run_pure (Inr (Some now_raw))
     else await_ecc_credit reads env currency before_raw expected_raw)))"

text \<open>
  \<open>send_ecc\<close> and \<open>call_method\<close> encode the message, \<open>submit\<close> hands it to the network and looks for its receipt.
  From the moment of the hand-over the message may be under way, whatever the call returns.
\<close>

definition submit :: "('j, 'w) acc_env \<Rightarrow> string \<Rightarrow> money_move \<Rightarrow> (unit, 'w) spend_run" where
  "submit env dest m =
     run_then (ask_chain (ae_prepare env dest m)) (\<lambda>_.
     run_then (run_modify (\<lambda>s. s\<lparr>sw_sent := sw_sent s @ [\<lparr>sg_file = sw_pending s, sg_dest = dest, sg_move = m\<rparr>]\<rparr>)) (\<lambda>_.
     run_then (ask_chain (ae_send_message_routed env dest m)) (\<lambda>_.
     run_then (ask (ae_observe env)) (\<lambda>receipt.
     case receipt of
       Inr (Some r) \<Rightarrow> if wr_aborted r \<or> wr_action_result_code r \<noteq> 0 then run_pure (Inl WalletRefused) else run_pure (Inr ())
     | _ \<Rightarrow> run_pure (Inr ())))))"

definition send_ecc :: "('j, 'w) acc_env \<Rightarrow> string \<Rightarrow> nat \<Rightarrow> nat \<Rightarrow> (unit, 'w) spend_run" where
  "send_ecc env dest currency raw = submit env dest (Deposit currency raw)"

definition call_claim :: "('j, 'w) acc_env \<Rightarrow> live_lot \<Rightarrow> (unit, 'w) spend_run" where
  "call_claim env lot = submit env (ll_address lot) (ClaimLot (li_denom (ll_id lot)) (li_order_id (ll_id lot)))"

section \<open>Settling what an earlier command left\<close>

definition parse_pending :: "string \<Rightarrow> (nat, 'w) spend_run" where
  "parse_pending text = run_pure (ok_or (parse_uint u128_max text) PendingNotANumber)"

definition buy_complete :: "('j, 'w) acc_env \<Rightarrow> string \<Rightarrow> string \<Rightarrow> string \<Rightarrow> string \<Rightarrow> (bool, 'w) spend_run" where
  "buy_complete env shell_before shell_expected usdc_before_text usdc_spent_text =
     run_then (parse_pending shell_before) (\<lambda>before_raw.
     run_then (parse_pending shell_expected) (\<lambda>expected_raw.
     run_then (parse_pending usdc_before_text) (\<lambda>usdc_before.
     run_then (parse_pending usdc_spent_text) (\<lambda>usdc_spent.
     run_then (ecc_balance env USDC_CURRENCY_ID) (\<lambda>usdc_after.
     run_then (ecc_balance env SHELL_CURRENCY_ID) (\<lambda>shell_now.
     run_then (run_pure (expected_credit_landed before_raw expected_raw shell_now)) (\<lambda>landed.
     run_pure (Inr (landed \<and>
       (case checked_sub usdc_before usdc_spent of Some target \<Rightarrow> usdc_after \<le> target | None \<Rightarrow> False))))))))))"

definition sell_complete :: "live_lot list \<Rightarrow> nat list \<Rightarrow> bool" where
  "sell_complete found denoms \<longleftrightarrow>
     list_all (\<lambda>denom. length (filter (\<lambda>lot. li_denom (ll_id lot) = denom) found) \<ge>
                       length (filter (\<lambda>item. item = denom) denoms)) ACCUMULATOR_DENOMS"

definition claim_outstanding :: "('j, 'w) acc_env \<Rightarrow> string \<Rightarrow> nat \<times> nat \<Rightarrow> (bool list, 'w) spend_run" where
  "claim_outstanding env root lot =
     run_then (lot_address env root \<lparr>li_denom = fst lot, li_order_id = snd lot\<rparr>) (\<lambda>address.
     run_then (read_lot_details env address) (\<lambda>details.
     run_pure (Inr [case details of Some d \<Rightarrow> \<not> ld_claimed d | None \<Rightarrow> False])))"

definition pending_complete :: "('j, 'w) acc_env \<Rightarrow> string \<Rightarrow> string \<Rightarrow> pending_operation \<Rightarrow> (bool, 'w) spend_run" where
  "pending_complete env root wallet unsettled =
     (case unsettled of
        PendingBuy a b c d \<Rightarrow> buy_complete env a b c d
      | PendingSell floors denoms \<Rightarrow>
          run_then (lots_owned_by_from env root wallet floors) (\<lambda>found. run_pure (Inr (sell_complete found denoms)))
      | PendingClaim lots \<Rightarrow>
          run_then (run_concat (claim_outstanding env root) lots) (\<lambda>outstanding. run_pure (Inr (True \<notin> set outstanding))))"

definition reconcile_pending :: "('j, 'w) acc_env \<Rightarrow> string \<Rightarrow> string \<Rightarrow> (bool, 'w) spend_run" where
  "reconcile_pending env root wallet =
     run_then (load_pending env) (\<lambda>found.
     case found of
       None \<Rightarrow> run_pure (Inr False)
     | Some unsettled \<Rightarrow>
         run_then (pending_complete env root wallet unsettled) (\<lambda>complete.
         if complete then run_then (clear_pending env) (\<lambda>_. run_pure (Inr True))
         else run_pure (Inl StillPending)))"

section \<open>Commands\<close>

text \<open>What all three start with; the answer is the root, the wallet, and whether there is nothing more to do.\<close>

definition open_command :: "('j, 'w) acc_env \<Rightarrow> (string \<times> string \<times> bool, 'w) spend_run" where
  "open_command env =
     run_then (ask_chain (ae_connect env)) (\<lambda>_.
     run_then (acc_root env) (\<lambda>root.
     run_then (assert_root_identity env root) (\<lambda>_.
     run_then (ask_chain (ae_open env)) (\<lambda>wallet.
     run_then (reconcile_pending env root wallet) (\<lambda>finished.
     run_pure (Inr (root, wallet, finished)))))))"

definition run_sell :: "('j, 'w) acc_env \<Rightarrow> nat option \<Rightarrow> (unit, 'w) spend_run" where
  "run_sell env args_usdc =
     run_then (open_command env) (\<lambda>(root, wallet, finished).
     if finished then run_pure (Inr ()) else
     run_then (ecc_balance env SHELL_CURRENCY_ID) (\<lambda>available_raw.
     run_then (run_pure (map_err SellRefused
       (case args_usdc of
          Some usdc \<Rightarrow> sell_for_whole_usdc (ae_can_reserve env) usdc
        | None \<Rightarrow> sell_for_available_shell (ae_can_reserve env) available_raw))) (\<lambda>plan.
     run_then (run_pure (map_err SellRefused (sell_require_funded plan available_raw))) (\<lambda>_.
     run_then (run_concat (\<lambda>denom. run_then (read_queue env root denom) (\<lambda>q. run_pure (Inr [(denom, qs_next_id q)])))
       ACCUMULATOR_DENOMS) (\<lambda>first_unseen.
     run_then (native_balance env) (\<lambda>native_raw.
     run_then (run_pure (require_native_gas native_raw (lot_count plan))) (\<lambda>_.
     case funding_wallet_native_shortfall_raw native_raw of
       Some short \<Rightarrow> run_pure (Inl (BelowNativeFloor short))
     | None \<Rightarrow>
         run_then (persist_pending env (PendingSell first_unseen (map sl_denom (sp_lots plan)))) (\<lambda>_.
         run_then (run_for (\<lambda>lot. send_ecc env root SHELL_CURRENCY_ID (sl_shell_raw lot)) (sp_lots plan)) (\<lambda>_.
         run_then (await_owned_lots GAS_BALANCE_CONFIRM_MAX_READS env root wallet first_unseen (lot_count plan) []) (\<lambda>created.
         let landed = length (filter (\<lambda>lot. case hm_get first_unseen (li_denom (ll_id lot)) of
                                Some first \<Rightarrow> li_order_id (ll_id lot) \<ge> first | None \<Rightarrow> False) created) in
         if landed < lot_count plan then run_pure (Inl (LotsUnaccounted landed (lot_count plan)))
         else clear_pending env))))))))))"

definition run_buy :: "('j, 'w) acc_env \<Rightarrow> nat \<Rightarrow> (unit, 'w) spend_run" where
  "run_buy env args_usdc =
     run_then (open_command env) (\<lambda>(root, wallet, finished).
     if finished then run_pure (Inr ()) else
     run_then (run_pure (map_err BuyRefused (buy_for_whole_usdc args_usdc))) (\<lambda>plan.
     run_then (ecc_balance env USDC_CURRENCY_ID) (\<lambda>available_raw.
     run_then (run_pure (map_err BuyRefused (buy_require_funded plan available_raw))) (\<lambda>_.
     run_then (ecc_balance env SHELL_CURRENCY_ID) (\<lambda>before_raw.
     run_then (native_balance env) (\<lambda>native_raw.
     run_then (run_pure (require_native_gas native_raw 1)) (\<lambda>_.
     run_then (persist_pending env (PendingBuy (show_nat before_raw) (show_nat (bp_shell_expected_raw plan))
       (show_nat available_raw) (show_nat (bp_usdc_raw plan)))) (\<lambda>_.
     run_then (send_ecc env root USDC_CURRENCY_ID (bp_usdc_raw plan)) (\<lambda>_.
     run_then (await_ecc_credit GAS_BALANCE_CONFIRM_MAX_READS env SHELL_CURRENCY_ID before_raw (bp_shell_expected_raw plan)) (\<lambda>after_raw.
     case after_raw of
       None \<Rightarrow> run_pure (Inl CreditNotObserved)
     | Some _ \<Rightarrow> clear_pending env))))))))))"

definition claim_targets :: "nat option \<Rightarrow> nat option \<Rightarrow> live_lot list \<Rightarrow> live_lot list" where
  "claim_targets args_denom args_order_id owned =
     (let candidate = (\<lambda>lot. is_claim_candidate (ll_sold lot) (ld_claimed (ll_details lot))) in
      case (args_denom, args_order_id) of
        (Some denom, Some order_id) \<Rightarrow>
          filter (\<lambda>lot. li_denom (ll_id lot) = denom \<and> li_order_id (ll_id lot) = order_id \<and> candidate lot) owned
      | _ \<Rightarrow> filter candidate owned)"

definition run_claim :: "('j, 'w) acc_env \<Rightarrow> nat option \<Rightarrow> nat option \<Rightarrow> nat \<Rightarrow> (unit, 'w) spend_run" where
  "run_claim env args_denom args_order_id from_order_id =
     run_then (open_command env) (\<lambda>(root, wallet, finished).
     if finished then run_pure (Inr ()) else
     run_then (lots_owned_by env root wallet from_order_id) (\<lambda>owned.
     let targets = claim_targets args_denom args_order_id owned in
     if targets = [] then run_pure (Inr ()) else
     let payout_raw = sum_list (map (\<lambda>lot. li_denom (ll_id lot) * USDC_UNIT) targets) in
     run_then (ecc_balance env USDC_CURRENCY_ID) (\<lambda>before_raw.
     run_then (native_balance env) (\<lambda>native_raw.
     run_then (run_pure (require_native_gas native_raw (length targets))) (\<lambda>_.
     run_then (run_for (\<lambda>lot. assert_lot_identity env (ll_address lot)) targets) (\<lambda>_.
     run_then (persist_pending env (PendingClaim (map (\<lambda>lot. (li_denom (ll_id lot), li_order_id (ll_id lot))) targets))) (\<lambda>_.
     run_then (run_for (\<lambda>lot. if \<not> ll_sold lot then run_pure (Inl LotNotMatched) else call_claim env lot) targets) (\<lambda>_.
     run_then (await_ecc_credit GAS_BALANCE_CONFIRM_MAX_READS env USDC_CURRENCY_ID before_raw payout_raw) (\<lambda>after_raw.
     case after_raw of
       None \<Rightarrow> run_pure (Inl CreditNotObserved)
     | Some _ \<Rightarrow> clear_pending env)))))))))"

definition run_status :: "('j, 'w) acc_env \<Rightarrow> (unit, 'w) spend_run" where
  "run_status env =
     run_then (ask_chain (ae_connect env)) (\<lambda>_.
     run_then (acc_root env) (\<lambda>root.
     run_then (assert_root_identity env root) (\<lambda>_.
     run_then (read_root_details env root) (\<lambda>_.
     run_for (\<lambda>denom. run_then (read_queue env root denom) (\<lambda>_. run_pure (Inr ()))) ACCUMULATOR_DENOMS))))"

text \<open>\<open>run_lots\<close>, with the number of lots it reports as claimable; \<open>ae_owner\<close> resolves whose lots are asked for.\<close>

definition run_lots :: "('j, 'w) acc_env \<Rightarrow> nat \<Rightarrow> (nat, 'w) spend_run" where
  "run_lots env from_order_id =
     run_then (ask_chain (ae_connect env)) (\<lambda>_.
     run_then (acc_root env) (\<lambda>root.
     run_then (assert_root_identity env root) (\<lambda>_.
     run_then (ask_chain (ae_owner env)) (\<lambda>owner.
     run_then (lots_owned_by env root owner from_order_id) (\<lambda>lots.
     run_pure (Inr (length (filter (\<lambda>lot. \<not> ld_claimed (ll_details lot) \<and> ll_sold lot) lots))))))))"

datatype acc_command =
    AccStatus
  | AccSell "nat option"
  | AccBuy nat
  | AccLots nat
  | AccClaim "nat option" "nat option" nat

definition run_accumulator :: "('j, 'w) acc_env \<Rightarrow> acc_command \<Rightarrow> (unit, 'w) spend_run" where
  "run_accumulator env c =
     (case c of
        AccStatus \<Rightarrow> run_status env
      | AccSell usdc \<Rightarrow> run_sell env usdc
      | AccBuy usdc \<Rightarrow> run_buy env usdc
      | AccLots from_order_id \<Rightarrow> run_then (run_lots env from_order_id) (\<lambda>_. run_pure (Inr ()))
      | AccClaim denom order_id from_order_id \<Rightarrow> run_claim env denom order_id from_order_id)"

section \<open>Calls that leave file and messages alone\<close>

definition quiet :: "('a, 'w) spend_run \<Rightarrow> bool" where
  "quiet m \<longleftrightarrow> (\<forall>s. wp m (\<lambda>_ s'. sw_pending s' = sw_pending s \<and> sw_sent s' = sw_sent s) s)"

named_theorems quiet_calls \<open>calls that neither write the file nor send\<close>

lemma quietD: "quiet m \<Longrightarrow> wp m (\<lambda>_ s'. sw_pending s' = sw_pending s \<and> sw_sent s' = sw_sent s) s"
  by (simp add: quiet_def)

lemma quiet_then:
  fixes m :: "('a, 'b) spend_run"
  assumes "quiet m" and "\<And>x. quiet (f x)"
  shows "quiet (run_then m f)"
  unfolding quiet_def wp_then
proof
  fix s
  show "wp m (\<lambda>r s'. case r of Inl e \<Rightarrow> sw_pending s' = sw_pending s \<and> sw_sent s' = sw_sent s
      | Inr x \<Rightarrow> wp (f x) (\<lambda>_ s2. sw_pending s2 = sw_pending s \<and> sw_sent s2 = sw_sent s) s') s"
    using quietD [OF assms(1)]
  proof (rule wp_mono)
    fix r and s' :: "'b spend"
    assume "sw_pending s' = sw_pending s \<and> sw_sent s' = sw_sent s"
    then show "case r of Inl e \<Rightarrow> sw_pending s' = sw_pending s \<and> sw_sent s' = sw_sent s
      | Inr x \<Rightarrow> wp (f x) (\<lambda>_ s2. sw_pending s2 = sw_pending s \<and> sw_sent s2 = sw_sent s) s'"
      using quietD [OF assms(2), of _ s'] by (auto split: sum.split)
  qed
qed

lemma quiet_pure [quiet_calls]: "quiet (run_pure r)"
  by (simp add: quiet_def wp_simps)

lemma quiet_ask [quiet_calls]: "quiet (ask op)"
  by (simp add: quiet_def wp_def ask_def split: prod.splits)

lemma quiet_ask_chain [quiet_calls]: "quiet (ask_chain op)"
  unfolding ask_chain_def by (intro quiet_then quiet_calls)

lemma quiet_concat: "(\<And>x. quiet (f x)) \<Longrightarrow> quiet (run_concat f xs)"
  by (induction xs) (auto intro!: quiet_then quiet_calls)

lemma quiet_for: "(\<And>x. quiet (f x)) \<Longrightarrow> quiet (run_for f xs)"
  by (induction xs) (auto intro!: quiet_then quiet_calls)

lemma quiet_root [quiet_calls]: "quiet (acc_root env)" "quiet (assert_root_identity env root)"
  unfolding acc_root_def assert_root_identity_def by (intro quiet_then quiet_calls)+

lemma quiet_queue [quiet_calls]: "quiet (read_queue env root denom)"
  unfolding read_queue_def by (intro quiet_then quiet_calls)

lemma quiet_root_details [quiet_calls]: "quiet (read_root_details env root)"
  unfolding read_root_details_def by (intro quiet_then quiet_calls)

lemma quiet_lot_address [quiet_calls]: "quiet (lot_address env root lot)"
  unfolding lot_address_def by (intro quiet_then quiet_calls)

lemma quiet_lot_details [quiet_calls]: "quiet (read_lot_details env a)"
  unfolding read_lot_details_def by (auto intro!: quiet_then quiet_calls split: option.splits)

lemma quiet_lot_identity [quiet_calls]: "quiet (assert_lot_identity env a)"
  unfolding assert_lot_identity_def by (intro quiet_then quiet_calls)

lemma quiet_lots [quiet_calls]: "quiet (lots_owned_by_from env root owner floors)"
  unfolding lots_owned_by_from_def scan_lot_def Let_def
  by (auto intro!: quiet_concat quiet_then quiet_calls split: option.splits)

lemma quiet_lots_owned [quiet_calls]: "quiet (lots_owned_by env root owner n)"
  unfolding lots_owned_by_def by (rule quiet_calls)

lemma quiet_await_lots [quiet_calls]: "quiet (await_owned_lots reads env root owner floors expected latest)"
  by (induction reads arbitrary: latest) (auto intro!: quiet_then quiet_calls)

lemma quiet_balances [quiet_calls]: "quiet (native_balance env)" "quiet (ecc_balance env c)"
  unfolding native_balance_def ecc_balance_def by (intro quiet_then quiet_calls)+

lemma quiet_await_credit [quiet_calls]: "quiet (await_ecc_credit reads env c b e)"
  by (induction reads) (auto intro!: quiet_then quiet_calls)

lemma quiet_complete [quiet_calls]: "quiet (pending_complete env root wallet op)"
  unfolding pending_complete_def buy_complete_def parse_pending_def claim_outstanding_def
  by (cases op) (auto intro!: quiet_then quiet_concat quiet_calls)

section \<open>Money only moves under a written operation\<close>

text \<open>What the messages of an operation are to be.\<close>

definition intent :: "pending_operation \<Rightarrow> money_move list" where
  "intent op =
     (case op of
        PendingBuy _ _ _ spent \<Rightarrow> [Deposit USDC_CURRENCY_ID (digits_value spent)]
      | PendingSell _ denoms \<Rightarrow> map (\<lambda>d. Deposit SHELL_CURRENCY_ID (d * ACCUMULATOR_SHELL_PER_USDC_RAW)) denoms
      | PendingClaim lots \<Rightarrow> map (\<lambda>(d, n). ClaimLot d n) lots)"

text \<open>
  From state \<open>s\<close>: with a file present, nothing is sent and the file stays or goes; with none, whatever is sent
  is the beginning of what the file, by then, announces, and the file only goes again after all of it was sent.
  A successful end leaves no file.  \<open>A\<close> says which operations may be announced, and whether there may be nothing to do.
\<close>

text \<open>
  Where a message is to go: a deposit to the root of the accumulator, a claim to the address at which the root says the lot is.
\<close>

definition lot_at :: "('j, 'w) acc_env \<Rightarrow> string \<Rightarrow> nat \<Rightarrow> nat \<Rightarrow> string \<Rightarrow> bool" where
  "lot_at env root denom order_id dest \<longleftrightarrow>
     (\<exists>w raw x t. fst (ae_getter env root (GetSellOrderAddress denom order_id) w) = Inr (Some raw)
        \<and> json_get (ae_view env) raw ''sellOrderAddr'' = Some x \<and> as_str (ae_view env x) = Some t
        \<and> ae_parse_address env t = Some dest)"

definition root_is :: "('j, 'w) acc_env \<Rightarrow> string \<Rightarrow> bool" where
  "root_is env root \<longleftrightarrow> ae_parse_address env ACCUMULATOR_ROOT_ADDRESS = Some root"

definition destined :: "('j, 'w) acc_env \<Rightarrow> string \<Rightarrow> money_move \<Rightarrow> bool" where
  "destined env dest m \<longleftrightarrow>
     (case m of
        Deposit _ _ \<Rightarrow> root_is env dest
      | ClaimLot denom order_id \<Rightarrow> (\<exists>root. root_is env root \<and> lot_at env root denom order_id dest))"

text \<open>Sent while the operation was on file, and to the right place.\<close>

definition sent_under :: "('j, 'w) acc_env \<Rightarrow> pending_operation \<Rightarrow> sent_message \<Rightarrow> bool" where
  "sent_under env op msg \<longleftrightarrow> sg_file msg = Some op \<and> destined env (sg_dest msg) (sg_move msg)"

definition journaled :: "('j, 'w) acc_env \<Rightarrow> (pending_operation option \<Rightarrow> bool) \<Rightarrow> 'w spend \<Rightarrow> (unit, acc_error) result \<Rightarrow> 'w spend \<Rightarrow> bool" where
  "journaled env A s r s' \<longleftrightarrow>
     (r = Inr () \<longrightarrow> sw_pending s' = None) \<and>
     (if sw_pending s \<noteq> None then sw_sent s' = sw_sent s \<and> (sw_pending s' = sw_pending s \<or> sw_pending s' = None)
      else \<exists>moves. sw_sent s' = sw_sent s @ moves \<and>
             (moves = [] \<and> sw_pending s' = None \<and> (r = Inr () \<longrightarrow> A None) \<or>
              (\<exists>op. A (Some op) \<and> prefix (map sg_move moves) (intent op) \<and> (\<forall>msg\<in>set moves. sent_under env op msg) \<and>
                 (sw_pending s' = Some op \<or> sw_pending s' = None \<and> map sg_move moves = intent op))))"

text \<open>The state while the messages of an operation go out.\<close>

definition underway :: "('j, 'w) acc_env \<Rightarrow> 'w spend \<Rightarrow> pending_operation \<Rightarrow> money_move list \<Rightarrow> 'w spend \<Rightarrow> bool" where
  "underway env s op ms s' \<longleftrightarrow> sw_pending s' = Some op \<and> (\<exists>moves. sw_sent s' = sw_sent s @ moves
     \<and> map sg_move moves = ms \<and> (\<forall>msg\<in>set moves. sent_under env op msg))"

lemma wp_quiet_then:
  assumes "quiet m"
    and "\<And>e s'. sw_pending s' = sw_pending s \<Longrightarrow> sw_sent s' = sw_sent s \<Longrightarrow> q (Inl e) s'"
    and "\<And>x s'. sw_pending s' = sw_pending s \<Longrightarrow> sw_sent s' = sw_sent s \<Longrightarrow> wp (f x) q s'"
  shows "wp (run_then m f) q s"
  unfolding wp_then using quietD [OF assms(1), of s] by (rule wp_mono) (auto split: sum.split intro: assms)

lemma submit_sends:
  fixes s :: "'w spend"
  assumes "underway env s op ms s1" and dest: "destined env dest m"
  shows "wp (submit env dest m) (\<lambda>r s2. (underway env s op (ms @ [m]) s2) \<or> (\<exists>e. r = Inl e) \<and> underway env s op ms s2) s1"
proof -
  have adv: "underway env s op (ms @ [m]) (s2\<lparr>sw_sent := sw_sent s2 @ [\<lparr>sg_file = sw_pending s2, sg_dest = dest, sg_move = m\<rparr>]\<rparr>)"
    if "sw_pending s2 = sw_pending s1" "sw_sent s2 = sw_sent s1" for s2
    using assms that by (auto simp: underway_def sent_under_def)
  have keep: "underway env s op ms' s3" if "underway env s op ms' s2" "sw_pending s3 = sw_pending s2" "sw_sent s3 = sw_sent s2" for ms' s2 s3
    using that by (simp add: underway_def)
  have rest: "quiet (run_then (ask_chain (ae_send_message_routed env dest m)) (\<lambda>_.
     run_then (ask (ae_observe env)) (\<lambda>receipt. case receipt of
       Inr (Some r) \<Rightarrow> if wr_aborted r \<or> wr_action_result_code r \<noteq> 0 then run_pure (Inl WalletRefused) else run_pure (Inr ())
     | _ \<Rightarrow> run_pure (Inr ()))))" (is "quiet ?rest")
    by (auto intro!: quiet_then quiet_calls split: sum.split option.split)
  show ?thesis unfolding submit_def
  proof (rule wp_quiet_then [OF quiet_ask_chain])
    fix s2 :: "'w spend"
    assume s2: "sw_pending s2 = sw_pending s1" "sw_sent s2 = sw_sent s1"
    show "underway env s op (ms @ [m]) s2 \<or> (\<exists>e'. Inl e = Inl e') \<and> underway env s op ms s2" for e :: acc_error
      using keep [OF assms(1) s2] by simp
    show "wp (run_then (run_modify (\<lambda>s. s\<lparr>sw_sent := sw_sent s @ [\<lparr>sg_file = sw_pending s, sg_dest = dest, sg_move = m\<rparr>]\<rparr>)) (\<lambda>_. ?rest))
        (\<lambda>r s2. underway env s op (ms @ [m]) s2 \<or> (\<exists>e. r = Inl e) \<and> underway env s op ms s2) s2"
      unfolding wp_modify_then by (rule wp_mono [OF quietD [OF rest]]) (use keep [OF adv [OF s2]] in blast)
  qed
qed


lemma sends_under_operation:
  assumes "underway env s op ms s1" and "\<And>x s1 ms. x \<in> set xs \<Longrightarrow> underway env s op ms s1 \<Longrightarrow>
      wp (f x) (\<lambda>r s2. underway env s op (ms @ [g x]) s2 \<or> (\<exists>e. r = Inl e) \<and> underway env s op ms s2) s1"
  shows "wp (run_for f xs) (\<lambda>r s2. \<exists>ys. prefix ys xs \<and> underway env s op (ms @ map g ys) s2 \<and> (r = Inr () \<longrightarrow> ys = xs)) s1"
  using assms
proof (induction xs arbitrary: ms s1)
  case Nil
  then show ?case by (simp add: wp_simps)
next
  case (Cons x xs)
  show ?case unfolding run_for.simps wp_then
  proof (rule wp_mono [OF Cons.prems(2) [OF _ Cons.prems(1)]])
    fix r s2
    assume r: "underway env s op (ms @ [g x]) s2 \<or> (\<exists>e. r = Inl e) \<and> underway env s op ms s2"
    show "case r of Inl e \<Rightarrow> \<exists>ys. prefix ys (x # xs) \<and> underway env s op (ms @ map g ys) s2 \<and> (Inl e = Inr () \<longrightarrow> ys = x # xs)
       | Inr _ \<Rightarrow> wp (run_for f xs) (\<lambda>r s2. \<exists>ys. prefix ys (x # xs) \<and> underway env s op (ms @ map g ys) s2 \<and> (r = Inr () \<longrightarrow> ys = x # xs)) s2"
    proof (cases r)
      case (Inl e)
      then show ?thesis using r by (auto intro: exI [of _ "[x]"] exI [of _ "[]"])
    next
      case (Inr u)
      then have "underway env s op (ms @ [g x]) s2" using r by simp
      then have "wp (run_for f xs) (\<lambda>r s2. \<exists>ys. prefix ys xs \<and> underway env s op ((ms @ [g x]) @ map g ys) s2 \<and> (r = Inr () \<longrightarrow> ys = xs)) s2"
        by (rule Cons.IH) (use Cons.prems(2) in simp)
      then show ?thesis using Inr by (auto elim!: wp_mono intro: exI [of _ "x # _"])
    qed
  qed simp
qed

lemma clear_pending_ends:
  assumes "underway env s op (intent op) s1" and "sw_pending s = None" and "A (Some op)"
  shows "wp (clear_pending env) (journaled env A s) s1"
  unfolding clear_pending_def
  by (rule wp_quiet_then [OF quiet_ask])
    (use assms in \<open>auto simp: journaled_def underway_def wp_simps split: file_io.split\<close>)

lemma underway_journaled:
  "underway env s op ms s1 \<Longrightarrow> prefix ms (intent op) \<Longrightarrow> sw_pending s = None \<Longrightarrow> A (Some op) \<Longrightarrow> journaled env A s (Inl e) s1"
  by (auto simp: journaled_def underway_def)

text \<open>Once the operation is on file: send all of it, wait for the evidence, then remove the file.\<close>

lemma persist_starts:
  assumes "sw_pending s1 = None" and "sw_sent s1 = sw_sent s"
  shows "wp (persist_pending env op) (\<lambda>r s2. case r of
     Inr _ \<Rightarrow> underway env s op [] s2 | Inl _ \<Rightarrow> sw_sent s2 = sw_sent s \<and> (sw_pending s2 = None \<or> sw_pending s2 = Some op)) s1"
  unfolding persist_pending_def
  by (rule wp_quiet_then [OF quiet_ask])
    (use assms in \<open>auto simp: underway_def wp_simps split: file_io.split\<close>)

lemma unsent_journaled:
  "sw_pending s = None \<Longrightarrow> sw_sent s1 = sw_sent s \<Longrightarrow> sw_pending s1 = None \<or> sw_pending s1 = Some op \<Longrightarrow> A (Some op) \<Longrightarrow> journaled env A s (Inl e) s1"
  by (auto simp: journaled_def)

lemma operation_journaled:
  assumes s: "sw_pending s = None" "sw_pending s1 = None" "sw_sent s1 = sw_sent s" and A: "A (Some op)"
    and ms: "map g xs = intent op"
    and f: "\<And>x s1 ms. x \<in> set xs \<Longrightarrow> underway env s op ms s1 \<Longrightarrow>
      wp (f x) (\<lambda>r s2. underway env s op (ms @ [g x]) s2 \<or> (\<exists>e. r = Inl e) \<and> underway env s op ms s2) s1"
    and k: "\<And>s2. underway env s op (intent op) s2 \<Longrightarrow> wp k (journaled env A s) s2"
  shows "wp (run_then (persist_pending env op) (\<lambda>_. run_then (run_for f xs) (\<lambda>_. k))) (journaled env A s) s1"
proof -
  have sends: "wp (run_then (run_for f xs) (\<lambda>_. k)) (journaled env A s) s2" if "underway env s op [] s2" for s2
    unfolding wp_then
  proof (rule wp_mono [OF sends_under_operation [OF that f]])
    fix r :: "(unit, acc_error) result" and s3
    assume "\<exists>ys. prefix ys xs \<and> underway env s op ([] @ map g ys) s3 \<and> (r = Inr () \<longrightarrow> ys = xs)"
    then obtain ys where ys: "prefix ys xs" "underway env s op (map g ys) s3" "r = Inr () \<longrightarrow> ys = xs" by auto
    then have "prefix (map g ys) (intent op)" using map_mono_prefix [of ys xs g] ms by simp
    then show "case r of Inl e \<Rightarrow> journaled env A s (Inl e) s3 | Inr _ \<Rightarrow> wp k (journaled env A s) s3"
      using ys k ms s(1) A underway_journaled [OF ys(2)] by (cases r) auto
  qed
  show ?thesis unfolding wp_then [of "persist_pending env op"]
    by (rule wp_mono [OF persist_starts [OF s(2,3)]]) (auto split: sum.splits intro: sends unsent_journaled A s(1))
qed

section \<open>Every command\<close>

definition settled :: "'w spend \<Rightarrow> (bool, acc_error) result \<Rightarrow> 'w spend \<Rightarrow> bool" where
  "settled s r s1 \<longleftrightarrow> sw_sent s1 = sw_sent s \<and>
     (case r of Inl _ \<Rightarrow> sw_pending s1 = sw_pending s \<or> sw_pending s \<noteq> None \<and> sw_pending s1 = None
      | Inr finished \<Rightarrow> sw_pending s1 = None \<and> finished = (sw_pending s \<noteq> None))"

lemma settled_stay: "sw_pending s1 = sw_pending s \<Longrightarrow> sw_sent s1 = sw_sent s \<Longrightarrow> settled s (Inl e) s1"
  by (simp add: settled_def)

lemma clear_settles:
  assumes "sw_pending s = Some op" "sw_pending s1 = sw_pending s" "sw_sent s1 = sw_sent s"
  shows "wp (run_then (clear_pending env) (\<lambda>_. run_pure (Inr True))) (settled s) s1"
  unfolding clear_pending_def wp_then [of _ "\<lambda>_. run_pure (Inr True)"]
  by (rule wp_quiet_then [OF quiet_ask]) (use assms in \<open>auto simp: settled_def wp_simps split: file_io.split\<close>)

lemma reconcile_settles:
  assumes "sw_pending s1 = sw_pending s" "sw_sent s1 = sw_sent s"
  shows "wp (reconcile_pending env root wallet) (settled s) s1"
proof -
  define k where "k = (\<lambda>found. case found of None \<Rightarrow> run_pure (Inr False)
     | Some unsettled \<Rightarrow> run_then (pending_complete env root wallet unsettled) (\<lambda>complete.
         if complete then run_then (clear_pending env) (\<lambda>_. run_pure (Inr True)) else run_pure (Inl StillPending)))"
  have k: "wp (k (sw_pending s)) (settled s) s2" if "sw_pending s2 = sw_pending s" "sw_sent s2 = sw_sent s" for s2
  proof (cases "sw_pending s")
    case None
    then show ?thesis using that by (simp add: k_def wp_pure settled_def)
  next
    case (Some op)
    then show ?thesis unfolding k_def
      by (auto intro!: wp_quiet_then [OF quiet_complete] clear_settles [OF Some] settled_stay simp: wp_pure that)
  qed
  have load: "wp (load_pending env) (\<lambda>r s2. sw_pending s2 = sw_pending s \<and> sw_sent s2 = sw_sent s \<and>
      (\<forall>x. r = Inr x \<longrightarrow> x = sw_pending s)) s1"
    unfolding load_pending_def
    by (rule wp_quiet_then [OF quiet_ask]) (auto simp: wp_get wp_pure assms split: option.splits)
  show ?thesis unfolding reconcile_pending_def k_def [symmetric] wp_then
    by (rule wp_mono [OF load]) (auto split: sum.split intro: k settled_stay)
qed

text \<open>The common start: with a file, the command ends here, whatever it finds; without one, it goes on.\<close>

lemma open_command_settles:
  fixes env :: "('j, 'w) acc_env" and s :: "'w spend"
  assumes "\<And>s1 root wallet. root_is env root \<Longrightarrow> sw_pending s = None \<Longrightarrow> sw_pending s1 = None \<Longrightarrow> sw_sent s1 = sw_sent s \<Longrightarrow>
      wp (f (root, wallet, False)) (journaled env A s) s1"
    and "\<And>root wallet. f (root, wallet, True) = run_pure (Inr ())"
  shows "wp (run_then (open_command env) f) (journaled env A s) s"
proof -
  have stay: "journaled env A s (Inl e) s1" if "settled s (Inl e) s1" for e s1
    using that by (auto simp: journaled_def settled_def)
  have go: "wp (f (root, wallet, finished)) (journaled env A s) s1" if "settled s (Inr finished) s1" "root_is env root" for root wallet finished s1
    using that assms by (cases finished) (auto simp: wp_pure journaled_def settled_def)
  define opened where "opened = (\<lambda>(r :: (string \<times> string \<times> bool, acc_error) result) (s1 :: 'w spend). settled s (map_sum id (\<lambda>(_, _, finished). finished) r) s1
      \<and> (\<forall>root wallet finished. r = Inr (root, wallet, finished) \<longrightarrow> root_is env root))"
  have fail: "opened (Inl e) s1" if "sw_pending s1 = sw_pending s" "sw_sent s1 = sw_sent s" for e s1
    using settled_stay [OF that] by (simp add: opened_def)
  have last: "wp (run_then (reconcile_pending env root wallet) (\<lambda>finished. run_pure (Inr (root, wallet, finished)))) opened s1"
    if "sw_pending s1 = sw_pending s" "sw_sent s1 = sw_sent s" "root_is env root" for root wallet s1
    unfolding wp_then by (rule wp_mono [OF reconcile_settles [OF that(1,2)]]) (auto simp: wp_pure opened_def that(3) split: sum.split)
  have root: "wp (run_then (acc_root env) g) opened s1"
    if "sw_pending s1 = sw_pending s" "sw_sent s1 = sw_sent s" "\<And>root. root_is env root \<Longrightarrow> wp (g root) opened s1" for g s1
    using that fail by (cases "ae_parse_address env ACCUMULATOR_ROOT_ADDRESS")
      (auto simp: acc_root_def wp_then wp_pure ok_or_def root_is_def)
  have "wp (open_command env) opened s"
    unfolding open_command_def
    by (intro wp_quiet_then [OF quiet_ask_chain] root wp_quiet_then [OF quiet_root(2)]) (auto intro: last fail)
  then show ?thesis unfolding wp_then by (rule wp_mono) (auto simp: opened_def split: sum.split intro: stay go)
qed

text \<open>Steps before anything is on file, and steps after everything was sent.\<close>

definition untouched :: "'w spend \<Rightarrow> 'w spend \<Rightarrow> bool" where
  "untouched s s1 \<longleftrightarrow> sw_pending s = None \<and> sw_pending s1 = None \<and> sw_sent s1 = sw_sent s"

lemma untouched_then:
  assumes "untouched s s1" and "quiet m" and "\<And>x s2. untouched s s2 \<Longrightarrow> wp (f x) (journaled env A s) s2"
  shows "wp (run_then m f) (journaled env A s) s1"
  using assms by (auto intro!: wp_quiet_then simp: untouched_def journaled_def)

lemma untouched_fails: "untouched s s1 \<Longrightarrow> wp (run_pure (Inl e)) (journaled env A s) s1"
  by (simp add: wp_pure untouched_def journaled_def)

lemma untouched_idle: "untouched s s1 \<Longrightarrow> A None \<Longrightarrow> wp (run_pure (Inr ())) (journaled env A s) s1"
  by (simp add: wp_pure untouched_def journaled_def)

lemma all_sent_then:
  assumes "underway env s op (intent op) s1" and "sw_pending s = None" and "A (Some op)" and "quiet m"
    and "\<And>x s2. underway env s op (intent op) s2 \<Longrightarrow> wp (f x) (journaled env A s) s2"
  shows "wp (run_then m f) (journaled env A s) s1"
  using assms by (auto intro!: wp_quiet_then underway_journaled simp: underway_def)

lemma all_sent_fails:
  "underway env s op (intent op) s1 \<Longrightarrow> sw_pending s = None \<Longrightarrow> A (Some op) \<Longrightarrow> wp (run_pure (Inl e)) (journaled env A s) s1"
  by (auto simp: wp_pure intro: underway_journaled)

lemma send_deposit:
  "root_is env dest \<Longrightarrow> underway env s op ms s1 \<Longrightarrow> wp (send_ecc env dest c (raw x)) (\<lambda>r s2. underway env s op (ms @ [Deposit c (raw x)]) s2 \<or> (\<exists>e. r = Inl e) \<and> underway env s op ms s2) s1"
  unfolding send_ecc_def by (rule submit_sends) (simp_all add: destined_def)

lemma untouched_check:
  assumes "untouched s s1" and "\<And>x. r = Inr x \<Longrightarrow> wp (f x) (journaled env A s) s1"
  shows "wp (run_then (run_pure r) f) (journaled env A s) s1"
  using assms by (cases r) (auto simp: wp_then wp_pure untouched_def journaled_def)

lemmas before_file =
  untouched_then [OF _ quiet_balances(1)] untouched_then [OF _ quiet_balances(2)]
  untouched_then [OF _ quiet_for [OF quiet_lot_identity]]

lemma plan_prices: "sell_for_whole_usdc can_reserve u = Inr p \<Longrightarrow> lot \<in> set (sp_lots p) \<Longrightarrow>
    sl_shell_raw lot = sl_denom lot * ACCUMULATOR_SHELL_PER_USDC_RAW"
  by (auto simp: sell_plan_cases dest: push_lots_sound)

lemma planned:
  "map_err SellRefused (case usdc of Some u \<Rightarrow> sell_for_whole_usdc a u | None \<Rightarrow> sell_for_available_shell a v) = Inr p \<Longrightarrow>
     \<exists>u. sell_for_whole_usdc a u = Inr p \<and> (\<forall>n. usdc = Some n \<longrightarrow> u = n)"
  by (auto simp: map_err_def sell_for_available_shell_def split: option.splits sum.splits)

text \<open>The operation of each command.\<close>

fun sell_operation :: "('j, 'w) acc_env \<Rightarrow> nat option \<Rightarrow> pending_operation option \<Rightarrow> bool" where
  "sell_operation env usdc (Some (PendingSell floors denoms)) \<longleftrightarrow>
     (\<exists>u p. sell_for_whole_usdc (ae_can_reserve env) u = Inr p \<and> denoms = map sl_denom (sp_lots p) \<and> (\<forall>n. usdc = Some n \<longrightarrow> u = n))"
| "sell_operation env usdc _ \<longleftrightarrow> False"

fun buy_operation :: "nat \<Rightarrow> pending_operation option \<Rightarrow> bool" where
  "buy_operation usdc (Some (PendingBuy _ expected _ spent)) \<longleftrightarrow>
     expected = show_nat (usdc * ACCUMULATOR_SHELL_PER_USDC_RAW) \<and> spent = show_nat (usdc * USDC_UNIT)"
| "buy_operation usdc _ \<longleftrightarrow> False"

fun claim_operation :: "pending_operation option \<Rightarrow> bool" where
  "claim_operation (Some (PendingClaim lots)) \<longleftrightarrow> lots \<noteq> []"
| "claim_operation None \<longleftrightarrow> True"
| "claim_operation _ \<longleftrightarrow> False"

lemma run_sell_journaled: "wp (run_sell env usdc) (journaled env (sell_operation env usdc) s) s"
  unfolding run_sell_def
proof (rule open_command_settles, goal_cases)
  case (1 s1 root wallet)
  then have s1: "untouched s s1" and root: "root_is env root" by (simp_all add: untouched_def)
  show ?case unfolding prod.case if_False
  proof (rule untouched_then [OF s1 quiet_balances(2)], rule untouched_check, assumption, goal_cases)
    case (1 available s2 plan)
    then obtain u where plan: "sell_for_whole_usdc (ae_can_reserve env) u = Inr plan" "\<forall>n. usdc = Some n \<longrightarrow> u = n" using planned by blast
    have op: "sell_operation env usdc (Some (PendingSell floors (map sl_denom (sp_lots plan))))" for floors using plan by auto
    have sells: "wp (run_then (persist_pending env (PendingSell floors (map sl_denom (sp_lots plan)))) (\<lambda>_.
         run_then (run_for (\<lambda>lot. send_ecc env root SHELL_CURRENCY_ID (sl_shell_raw lot)) (sp_lots plan)) (\<lambda>_. k)))
         (journaled env (sell_operation env usdc) s) s3"
      if "untouched s s3" "\<And>op s4. underway env s op (intent op) s4 \<Longrightarrow> sell_operation env usdc (Some op) \<Longrightarrow> wp k (journaled env (sell_operation env usdc) s) s4" for floors k s3
    proof (rule operation_journaled [where g = "\<lambda>lot. Deposit SHELL_CURRENCY_ID (sl_shell_raw lot)"])
      show "map (\<lambda>lot. Deposit SHELL_CURRENCY_ID (sl_shell_raw lot)) (sp_lots plan)
          = intent (PendingSell floors (map sl_denom (sp_lots plan)))"
        by (simp add: intent_def plan_prices [OF plan(1)])
    qed (use that(1) op in \<open>auto simp: untouched_def simp del: sell_operation.simps intro: send_deposit root that(2)\<close>)
    have none: "sw_pending s = None" using s1 by (simp add: untouched_def)
    show ?case
      using 1(1)
      by (intro untouched_check untouched_then quiet_concat quiet_then quiet_calls)
        (auto simp: Let_def none intro!: sells all_sent_then quiet_calls clear_pending_ends
          intro: untouched_fails all_sent_fails [OF _ none] split: option.split)
  qed
qed simp

lemma run_for_single: "run_then (run_for f [x]) k = run_then (f x) k"
  by (rule ext) (auto simp: run_then_def run_pure_def split: prod.splits sum.splits)

lemma run_buy_journaled: "wp (run_buy env usdc) (journaled env (buy_operation usdc) s) s"
  unfolding run_buy_def
proof (rule open_command_settles, goal_cases)
  case (1 s1 root wallet)
  then have s1: "untouched s s1" and none: "sw_pending s = None" and root: "root_is env root" by (simp_all add: untouched_def)
  have buys: "wp (run_then (persist_pending env (PendingBuy a b c (show_nat spent))) (\<lambda>_.
         run_then (send_ecc env root USDC_CURRENCY_ID spent) (\<lambda>_. k))) (journaled env (buy_operation usdc) s) s3"
    if "untouched s s3" "\<And>op s4. underway env s op (intent op) s4 \<Longrightarrow> buy_operation usdc (Some op) \<Longrightarrow> wp k (journaled env (buy_operation usdc) s) s4"
      "b = show_nat (usdc * ACCUMULATOR_SHELL_PER_USDC_RAW)" "spent = usdc * USDC_UNIT" for a b c spent k s3
    unfolding run_for_single [of "\<lambda>raw. send_ecc env root USDC_CURRENCY_ID raw" spent, symmetric]
  proof (rule operation_journaled [where g = "\<lambda>raw. Deposit USDC_CURRENCY_ID raw"])
    show "map (Deposit USDC_CURRENCY_ID) [spent] = intent (PendingBuy a b c (show_nat spent))"
      by (simp add: intent_def digits_value_show)
  qed (use that in \<open>auto simp: untouched_def intro: send_deposit root\<close>)
  have plan: "bp_usdc_raw p = usdc * USDC_UNIT" "bp_shell_expected_raw p = usdc * ACCUMULATOR_SHELL_PER_USDC_RAW"
    if "map_err BuyRefused (buy_for_whole_usdc usdc) = Inr p" for p
    using that by (auto simp: map_err_def buy_plan_cases split: sum.splits)
  show ?case unfolding prod.case if_False
    using s1
    by (intro untouched_check before_file)
      (auto simp: none plan intro!: buys all_sent_then quiet_calls clear_pending_ends intro: all_sent_fails [OF _ none] split: option.split)
qed simp

text \<open>What a call answers, whatever the state.\<close>

definition responds :: "('a, 'w) spend_run \<Rightarrow> ('a \<Rightarrow> bool) \<Rightarrow> bool" where
  "responds m P \<longleftrightarrow> (\<forall>s. wp m (\<lambda>r _. \<forall>x. r = Inr x \<longrightarrow> P x) s)"

lemma respondsD: "responds m P \<Longrightarrow> wp m (\<lambda>r _. \<forall>x. r = Inr x \<longrightarrow> P x) s"
  by (simp add: responds_def)

lemma responds_then:
  assumes "responds m Q" and "\<And>x. Q x \<Longrightarrow> responds (f x) P"
  shows "responds (run_then m f) P"
  unfolding responds_def wp_then
  by (intro allI wp_mono [OF respondsD [OF assms(1)]]) (auto split: sum.split intro: respondsD assms(2))

lemma responds_any: "responds m (\<lambda>_. True)"
  by (simp add: responds_def wp_def split: prod.split)

lemma responds_pure: "(\<And>x. r = Inr x \<Longrightarrow> P x) \<Longrightarrow> responds (run_pure r) P"
  by (simp add: responds_def wp_pure)

lemma responds_concat:
  "(\<And>x. responds (f x) (\<lambda>ys. \<forall>y\<in>set ys. P y)) \<Longrightarrow> responds (run_concat f xs) (\<lambda>ys. \<forall>y\<in>set ys. P y)"
  by (induction xs) (auto intro!: responds_pure responds_then)

lemma responds_chain: "(\<And>w x w'. op w = (Inr x, w') \<Longrightarrow> P x) \<Longrightarrow> responds (ask_chain op) P"
  by (auto simp: responds_def ask_chain_def ask_def wp_then wp_pure map_err_def wp_def run_then_def run_pure_def split: prod.split sum.splits)

lemma lot_address_responds: "responds (lot_address env root lot) (lot_at env root (li_denom lot) (li_order_id lot))"
proof -
  define answers where "answers = (\<lambda>answer. \<exists>w. fst (ae_getter env root (GetSellOrderAddress (li_denom lot) (li_order_id lot)) w) = Inr answer)"
  define texts where "texts = (\<lambda>t. \<exists>raw x. answers (Some raw) \<and> json_get (ae_view env) raw ''sellOrderAddr'' = Some x
      \<and> as_str (ae_view env x) = Some t)"
  have answer: "responds (ask_chain (ae_getter env root (GetSellOrderAddress (li_denom lot) (li_order_id lot)))) answers"
    by (rule responds_chain) (metis answers_def fst_conv)
  have raw: "responds (run_pure (ok_or a NoAnswer)) (\<lambda>raw. answers (Some raw))" if "answers a" for a
    using that by (auto intro!: responds_pure simp: ok_or_def split: option.splits)
  have shown: "responds (run_pure (ok_or (Option.bind (json_get (ae_view env) raw ''sellOrderAddr'') (\<lambda>x. as_str (ae_view env x))) NoAnswer)) texts"
    if "answers (Some raw)" for raw
    using that by (intro responds_pure) (auto simp: ok_or_def texts_def bind_eq_Some_conv split: option.splits)
  have addr: "responds (run_pure (ok_or (ae_parse_address env t) (BadAddress t))) (lot_at env root (li_denom lot) (li_order_id lot))"
    if "texts t" for t
    using that by (intro responds_pure) (auto simp: ok_or_def texts_def answers_def lot_at_def split: option.splits)
  show ?thesis unfolding lot_address_def
    by (rule responds_then [OF answer responds_then [OF raw responds_then [OF shown addr]]])
qed

definition placed :: "('j, 'w) acc_env \<Rightarrow> string \<Rightarrow> live_lot \<Rightarrow> bool" where
  "placed env root lot \<longleftrightarrow> lot_at env root (li_denom (ll_id lot)) (li_order_id (ll_id lot)) (ll_address lot)"

lemma lots_yield: "responds (lots_owned_by env root owner n) (\<lambda>lots. \<forall>lot\<in>set lots. placed env root lot)"
proof -
  have scan: "responds (scan_lot env root owner queue denom k) (\<lambda>lots. \<forall>lot\<in>set lots. placed env root lot)" for queue denom k
    unfolding scan_lot_def Let_def
    by (rule responds_then [OF lot_address_responds], rule responds_then [OF responds_any])
      (auto intro!: responds_pure simp: placed_def split: option.splits)
  show ?thesis
    unfolding lots_owned_by_def lots_owned_by_from_def
    by (intro responds_concat responds_then [OF responds_any] scan)
qed

lemma untouched_responds:
  assumes "untouched s s1" and "quiet m" and "responds m P" and "\<And>x s2. untouched s s2 \<Longrightarrow> P x \<Longrightarrow> wp (f x) (journaled env A s) s2"
  shows "wp (run_then m f) (journaled env A s) s1"
proof -
  have "wp m (\<lambda>r s2. (sw_pending s2 = sw_pending s1 \<and> sw_sent s2 = sw_sent s1) \<and> (\<forall>x. r = Inr x \<longrightarrow> P x)) s1"
    using quietD [OF assms(2), of s1] respondsD [OF assms(3), of s1] by (simp add: wp_def split: prod.splits)
  then show ?thesis unfolding wp_then
    by (rule wp_mono) (use assms(1,4) in \<open>auto simp: untouched_def journaled_def split: sum.split\<close>)
qed

lemma claim_sends:
  assumes "ll_sold lot" and "root_is env root" and "placed env root lot" and "underway env s op ms s1"
  shows "wp (if \<not> ll_sold lot then run_pure (Inl LotNotMatched) else call_claim env lot)
    (\<lambda>r s2. underway env s op (ms @ [ClaimLot (li_denom (ll_id lot)) (li_order_id (ll_id lot))]) s2 \<or> (\<exists>e. r = Inl e) \<and> underway env s op ms s2) s1"
proof -
  have "destined env (ll_address lot) (ClaimLot (li_denom (ll_id lot)) (li_order_id (ll_id lot)))"
    using assms(2,3) by (auto simp: destined_def placed_def)
  from submit_sends [OF assms(4) this] show ?thesis using assms(1) by (simp add: call_claim_def)
qed

lemma claim_targets_sold: "lot \<in> set (claim_targets d n owned) \<Longrightarrow> ll_sold lot \<and> lot \<in> set owned"
  by (auto simp: claim_targets_def is_claim_candidate_def Let_def split: option.splits)

lemma run_claim_journaled: "wp (run_claim env denom order_id from_order_id) (journaled env claim_operation s) s"
  unfolding run_claim_def
proof (rule open_command_settles, goal_cases)
  case (1 s1 root wallet)
  then have s1: "untouched s s1" and none: "sw_pending s = None" and root: "root_is env root" by (simp_all add: untouched_def)
  have claims: "wp (run_then (persist_pending env (PendingClaim (map (\<lambda>lot. (li_denom (ll_id lot), li_order_id (ll_id lot))) lots))) (\<lambda>_.
         run_then (run_for (\<lambda>lot. if \<not> ll_sold lot then run_pure (Inl LotNotMatched) else call_claim env lot) lots) (\<lambda>_. k))) (journaled env claim_operation s) s3"
    if "untouched s s3" "\<And>op s4. underway env s op (intent op) s4 \<Longrightarrow> claim_operation (Some op) \<Longrightarrow> wp k (journaled env claim_operation s) s4" "\<forall>lot\<in>set lots. ll_sold lot \<and> placed env root lot" "lots \<noteq> []" for lots k s3
  proof (rule operation_journaled [where g = "\<lambda>lot. ClaimLot (li_denom (ll_id lot)) (li_order_id (ll_id lot))"])
    show "map (\<lambda>lot. ClaimLot (li_denom (ll_id lot)) (li_order_id (ll_id lot))) lots =
        intent (PendingClaim (map (\<lambda>lot. (li_denom (ll_id lot), li_order_id (ll_id lot))) lots))" by (simp add: intent_def)
    fix lot s1 ms
    assume "lot \<in> set lots" "underway env s (PendingClaim (map (\<lambda>lot. (li_denom (ll_id lot), li_order_id (ll_id lot))) lots)) ms s1"
    then show "wp (if \<not> ll_sold lot then run_pure (Inl LotNotMatched) else call_claim env lot)
      (\<lambda>r s2. underway env s (PendingClaim (map (\<lambda>lot. (li_denom (ll_id lot), li_order_id (ll_id lot))) lots))
          (ms @ [ClaimLot (li_denom (ll_id lot)) (li_order_id (ll_id lot))]) s2 \<or> (\<exists>e. r = Inl e) \<and>
         underway env s (PendingClaim (map (\<lambda>lot. (li_denom (ll_id lot), li_order_id (ll_id lot))) lots)) ms s2) s1"
      using claim_sends [OF _ root] that(3) by blast
  qed (use that in \<open>auto simp: untouched_def\<close>)
  show ?case unfolding prod.case if_False Let_def
  proof (rule untouched_responds [OF s1 quiet_lots_owned lots_yield], goal_cases)
    case (1 owned s2)
    show ?case
    proof (cases "claim_targets denom order_id owned = []")
      case False
      show ?thesis unfolding if_not_P [OF False] using 1 False
        by (intro untouched_check before_file)
          (auto simp: none intro!: claims all_sent_then quiet_calls clear_pending_ends dest!: claim_targets_sold intro: all_sent_fails [OF _ none] split: option.split)
    qed (use 1 in \<open>simp add: untouched_idle\<close>)
  qed
qed simp


lemma quiet_reports [quiet_calls]: "quiet (run_status env)" "quiet (run_lots env n)"
  unfolding run_status_def run_lots_def by (intro quiet_then quiet_for quiet_calls)+

text \<open>
  Claim C25: on any chain, wallet and disk, however calls fail, no message leaves a command unless the operation it
  belongs to is on file at that moment, and none goes anywhere but to its place: a deposit to the root of the accumulator, a claim to the
  address the root answered for that lot.  While a file from an earlier command is there, nothing is sent at all; what is sent
  otherwise is the beginning of what the file announces, in order, for the amounts asked for; the file goes only once
  everything was sent (or the chain shows an earlier operation complete); and a successful command leaves none.
  The reporting commands change nothing.
\<close>

theorem accumulator_journaled:
  "case run_accumulator env c s of (r, s') \<Rightarrow>
     (case c of
        AccSell usdc \<Rightarrow> journaled env (sell_operation env usdc) s r s'
      | AccBuy usdc \<Rightarrow> journaled env (buy_operation usdc) s r s'
      | AccClaim _ _ _ \<Rightarrow> journaled env claim_operation s r s'
      | _ \<Rightarrow> sw_pending s' = sw_pending s \<and> sw_sent s' = sw_sent s)"
  using run_sell_journaled [of env _ s] run_buy_journaled [of env _ s] run_claim_journaled [of env _ _ _ s]
    quietD [OF quiet_reports(1) [of env]] quietD [OF quiet_then [OF quiet_reports(2) quiet_pure], of env _ "\<lambda>_. Inr ()" s]
  by (cases c) (simp_all add: run_accumulator_def wp_def)

text \<open>
  Claim C26: a sell that succeeds, started with no file, has sent exactly the lots of the plan for the amount asked
  for, largest first, each as a deposit with the root of the accumulator and each while the plan was on file: together the SHELL of
  that amount at the fixed rate, no more and no less.
\<close>

theorem sell_sends_plan:
  assumes "run_accumulator env (AccSell (Some u)) s = (Inr (), s')" and "sw_pending s = None"
  shows "\<exists>p root floors. sell_for_whole_usdc (ae_can_reserve env) u = Inr p
     \<and> ae_parse_address env ACCUMULATOR_ROOT_ADDRESS = Some root
     \<and> sw_sent s' = sw_sent s @ map (\<lambda>lot. \<lparr>sg_file = Some (PendingSell floors (map sl_denom (sp_lots p))), sg_dest = root,
            sg_move = Deposit SHELL_CURRENCY_ID (sl_shell_raw lot)\<rparr>) (sp_lots p)
     \<and> sorted_wrt (\<ge>) (map sl_denom (sp_lots p)) \<and> list_all (\<lambda>lot. sl_denom lot \<in> set ACCUMULATOR_DENOMS) (sp_lots p)
     \<and> sum_list (map sl_shell_raw (sp_lots p)) = u * ACCUMULATOR_SHELL_PER_USDC_RAW \<and> sw_pending s' = None"
proof -
  have "journaled env (sell_operation env (Some u)) s (Inr ()) s'"
    using run_sell_journaled [of env "Some u" s] assms(1) by (simp add: run_accumulator_def wp_def)
  then obtain moves op where m: "sw_sent s' = sw_sent s @ moves" "sell_operation env (Some u) (Some op)"
      "map sg_move moves = intent op" "sw_pending s' = None" and under: "\<forall>msg\<in>set moves. sent_under env op msg"
    using assms(2) by (auto simp: journaled_def)
  then obtain floors p where p: "op = PendingSell floors (map sl_denom (sp_lots p))" "sell_for_whole_usdc (ae_can_reserve env) u = Inr p"
    by (cases op) auto
  let ?move = "\<lambda>lot. Deposit SHELL_CURRENCY_ID (sl_shell_raw lot)"
  have moves: "map sg_move moves = map ?move (sp_lots p)"
    using m(3) p plan_prices [OF p(2)] by (simp add: intent_def)
  have lots: "sp_lots p = push_lots ACCUMULATOR_DENOMS u" "0 < u" using p(2) by (simp_all add: sell_plan_cases)
  have sum: "sum_list (map sl_denom (sp_lots p)) = u"
    using push_lots_sum [of ACCUMULATOR_DENOMS u] by (simp add: lots lots_of_amount)
  have "sorted_wrt (\<lambda>a b. sl_denom a \<ge> sl_denom b) (sp_lots p)"
    unfolding lots by (rule push_lots_desc) (simp add: ACCUMULATOR_DENOMS_def)
  then have desc: "sorted_wrt (\<ge>) (map sl_denom (sp_lots p))" by (simp add: sorted_wrt_map)
  have denoms: "list_all (\<lambda>lot. sl_denom lot \<in> set ACCUMULATOR_DENOMS) (sp_lots p)"
    by (auto simp: lots list_all_iff dest: push_lots_sound)
  have "sp_lots p \<noteq> []" using sum lots(2) by auto
  then obtain msg where msg: "msg \<in> set moves" using moves by (cases moves) auto
  then have "sg_move msg \<in> set (map ?move (sp_lots p))" unfolding moves [symmetric] by simp
  then obtain root where root: "root_is env root" using under msg by (auto simp: sent_under_def destined_def)
  have "msg = \<lparr>sg_file = Some op, sg_dest = root, sg_move = sg_move msg\<rparr>" if msg: "msg \<in> set moves" for msg
  proof -
    have "sg_move msg \<in> set (map ?move (sp_lots p))" using msg unfolding moves [symmetric] by simp
    then show ?thesis using under msg root by (cases msg) (auto simp: sent_under_def destined_def root_is_def)
  qed
  then have "moves = map (\<lambda>v. \<lparr>sg_file = Some op, sg_dest = root, sg_move = v\<rparr>) (map sg_move moves)"
    by (intro nth_equalityI) (auto dest: nth_mem)
  then have "sw_sent s' = sw_sent s @ map (\<lambda>lot. \<lparr>sg_file = Some op, sg_dest = root, sg_move = ?move lot\<rparr>) (sp_lots p)"
    unfolding moves using m(1) by (simp add: comp_def)
  then show ?thesis
    using m(4) p sum desc denoms root amount_of_shell_raw [of "sp_lots p"] plan_prices [OF p(2)] by (auto simp: root_is_def)
qed

text \<open>A chain whose queue of the smallest lots counts the deposits.\<close>

definition demo_getter :: "string \<Rightarrow> getter_call \<Rightarrow> nat \<Rightarrow> (json option, string) result \<times> nat" where
  "demo_getter a q w =
     (let text = (\<lambda>t. Json (JString t)); num = (\<lambda>n. Json (JUnsigned n)) in
      (Inr (Some (Json (JObject
        (case q of
           GetVersion \<Rightarrow> [(''value0'', text ''1.0.2''), (''value1'', text ''ShellAccumulatorRootUSDC'')]
         | GetQueueState d \<Rightarrow> [(''nextId'', num (if d = 1 then Suc w else 1)), (''available'', num 0), (''soldPrefix'', num 0), (''owedCount'', num 0)]
         | GetDetails \<Rightarrow> [(''root'', text ''r''), (''owner'', text ''me''), (''denom'', num 1), (''orderId'', num 1), (''claimed'', Json (JBool False))]
         | GetSellOrderAddress d n \<Rightarrow> [(''sellOrderAddr'', text ''lot'')])))), w))"

definition demo_env :: "(json, nat) acc_env" where
  "demo_env =
     \<lparr>ae_view = json_node, ae_connect = (\<lambda>w. (Inr (), w)), ae_open = (\<lambda>w. (Inr ''me'', w)), ae_owner = (\<lambda>w. (Inr ''me'', w)),
      ae_getter = demo_getter, ae_parse_address = Some, ae_lot_active = (\<lambda>_ w. (Inr True, w)),
      ae_wallet = (\<lambda>w. (Inr (Some \<lparr>wc_balance = 10 ^ 12, wc_ecc_balance = (\<lambda>_. 10 ^ 12)\<rparr>), w)),
      ae_prepare = (\<lambda>_ _ w. (Inr (), w)), ae_send_message_routed = (\<lambda>_ _ w. (Inr (), Suc w)),
      ae_observe = (\<lambda>w. (Inr None, w)), ae_sleep = (\<lambda>w. w), ae_file = (\<lambda>w. (FileOk, w)), ae_can_reserve = (\<lambda>_. True), ae_readable = (\<lambda>_. True)\<rparr>"

lemmas demo_runs =
  run_then_def run_pure_def run_modify_def run_get_def ask_def ask_chain_def map_err_def ok_or_def ensure_def
  demo_env_def demo_getter_def Let_def json_get_def

lemma demo_open:
  "open_command demo_env \<lparr>sw_world = w, sw_pending = None, sw_sent = ms\<rparr> =
     (Inr (ACCUMULATOR_ROOT_ADDRESS, ''me'', False), \<lparr>sw_world = w, sw_pending = None, sw_sent = ms\<rparr>)"
  by (simp add: open_command_def acc_root_def assert_root_identity_def version_is_def text_or_default_def ACCUMULATOR_ROOT_VERSION_def
      reconcile_pending_def load_pending_def demo_runs)

lemma demo_queue:
  "read_queue demo_env root d s =
     (Inr \<lparr>qs_next_id = if d = 1 then Suc (sw_world s) else 1, qs_available = 0, qs_sold_prefix = 0, qs_owed_count = 0\<rparr>, s)"
  by (simp add: read_queue_def queue_decode_getter_def getter_u64_def getter_uint_def getter_field_def demo_runs)

lemma demo_scan:
  "scan_lot demo_env root ''me'' q d n s =
     (Inr [\<lparr>ll_id = \<lparr>li_denom = d, li_order_id = n\<rparr>, ll_address = ''lot'',
           ll_details = \<lparr>ld_root = ''r'', ld_owner = ''me'', ld_denom = 1, ld_order_id = 1, ld_claimed = False\<rparr>, ll_sold = is_sold q n\<rparr>], s)"
  by (simp add: scan_lot_def lot_address_def read_lot_details_def lot_decode_getter_def getter_string_def getter_u64_def getter_uint_def
      getter_field_def try_from_def u16_max_def demo_runs)

lemma demo_send:
  "send_ecc demo_env root c raw s = (Inr (), s\<lparr>sw_world := Suc (sw_world s), sw_sent := sw_sent s @ [\<lparr>sg_file = sw_pending s, sg_dest = root, sg_move = Deposit c raw\<rparr>]\<rparr>)"
  by (simp add: send_ecc_def submit_def demo_runs)

lemma demo_balances:
  "native_balance demo_env s = (Inr (10 ^ 12), s)" "ecc_balance demo_env c s = (Inr (10 ^ 12), s)"
  by (simp_all add: native_balance_def ecc_balance_def demo_runs)

lemma demo_file:
  "persist_pending demo_env op s = (Inr (), s\<lparr>sw_pending := Some op\<rparr>)" "clear_pending demo_env s = (Inr (), s\<lparr>sw_pending := None\<rparr>)"
  by (simp_all add: persist_pending_def clear_pending_def demo_runs)

lemma demo_plan:
  "sell_for_whole_usdc a 1 = (if a 1 then Inr \<lparr>sp_lots = [\<lparr>sl_denom = 1, sl_shell_raw = ACCUMULATOR_SHELL_PER_USDC_RAW\<rparr>], sp_usdc_whole = 1,
     sp_shell_committed_raw = ACCUMULATOR_SHELL_PER_USDC_RAW, sp_usdc_expected_raw = USDC_UNIT\<rparr> else Inl SellOverflow)"
  by (simp add: sell_for_whole_usdc_def checked_mul_def checked_add_def try_from_def ok_or_def ensure_def ACCUMULATOR_DENOMS_def push_lots_step
      ACCUMULATOR_SHELL_PER_USDC_RAW_def SHELL_UNIT_def USDC_UNIT_def u128_max_def usize_max_def u64_max_def)

lemma demo_lots:
  assumes "sw_world s = 1" and "scan_floor floors 1 = 1"
  shows "\<exists>lot. lots_owned_by_from demo_env root ''me'' floors s = (Inr [lot], s) \<and> ll_id lot = \<lparr>li_denom = 1, li_order_id = 1\<rparr>"
  using assms by (simp add: lots_owned_by_from_def ACCUMULATOR_DENOMS_def demo_queue demo_scan issued_order_ids_def run_then_def run_pure_def)

lemma demo_await:
  assumes "sw_world s = 1" and "scan_floor floors 1 = 1"
  shows "\<exists>lot. await_owned_lots (Suc n) demo_env root ''me'' floors 1 [] s = (Inr [lot], s) \<and> ll_id lot = \<lparr>li_denom = 1, li_order_id = 1\<rparr>"
  using demo_lots [OF assms, of root]
  by (auto simp: run_then_def run_pure_def ask_def demo_env_def [THEN arg_cong, of ae_sleep] confirmation_complete_def)

lemma demo_sell:
  "\<exists>s'. run_accumulator demo_env (AccSell (Some 1)) \<lparr>sw_world = 0, sw_pending = None, sw_sent = []\<rparr> = (Inr (), s')"
proof -
  let ?floors = "[(1000, 1), (100, 1), (10, 1), (1, 1)] :: (nat \<times> nat) list"
  let ?s = "\<lparr>sw_world = 1, sw_pending = Some (PendingSell ?floors [1]),
     sw_sent = [\<lparr>sg_file = Some (PendingSell ?floors [1]), sg_dest = ACCUMULATOR_ROOT_ADDRESS,
       sg_move = Deposit SHELL_CURRENCY_ID ACCUMULATOR_SHELL_PER_USDC_RAW\<rparr>]\<rparr>"
  obtain lot where "await_owned_lots (Suc 19) demo_env ACCUMULATOR_ROOT_ADDRESS ''me'' ?floors 1 [] ?s = (Inr [lot], ?s)"
      "ll_id lot = \<lparr>li_denom = 1, li_order_id = 1\<rparr>"
    using demo_await [of ?s ?floors 19 ACCUMULATOR_ROOT_ADDRESS] by (auto simp: scan_floor_def hm_get_def)
  moreover have "Suc 19 = GAS_BALANCE_CONFIRM_MAX_READS" by (simp add: GAS_BALANCE_CONFIRM_MAX_READS_def)
  ultimately have "await_owned_lots GAS_BALANCE_CONFIRM_MAX_READS demo_env ACCUMULATOR_ROOT_ADDRESS ''me'' ?floors (Suc 0) [] ?s = (Inr [lot], ?s)"
      "ll_id lot = \<lparr>li_denom = 1, li_order_id = 1\<rparr>" by simp_all
  then show ?thesis
    by (simp add: run_accumulator_def run_sell_def demo_open demo_queue demo_send demo_balances demo_file demo_plan [unfolded One_nat_def]
        demo_env_def [THEN arg_cong, of ae_can_reserve] run_then_def run_pure_def map_err_def ACCUMULATOR_DENOMS_def lot_count_def
        sell_require_funded_def require_native_gas_def required_native_gas_def funding_wallet_native_shortfall_raw_def checked_mul_def checked_sub_def
        ok_or_def ensure_def FUNDING_WALLET_NATIVE_FLOOR_RAW_def NOTE_DEPLOY_WALLET_SUBMITS_def NOTE_DEPLOY_SUBMIT_NATIVE_VALUE_def
        WALLET_SUBMIT_NATIVE_FEE_BOUND_RAW_def ACCUMULATOR_WALLET_MESSAGE_GAS_RAW_def u128_max_def ACCUMULATOR_SHELL_PER_USDC_RAW_def SHELL_UNIT_def
        hm_get_def Let_def)
qed

theorem sell_sends_plan_witness:
  "\<exists>s' floors. run_accumulator demo_env (AccSell (Some 1)) \<lparr>sw_world = 0, sw_pending = None, sw_sent = []\<rparr> = (Inr (), s') \<and>
     sw_sent s' = [\<lparr>sg_file = Some (PendingSell floors [1]), sg_dest = ACCUMULATOR_ROOT_ADDRESS,
       sg_move = Deposit SHELL_CURRENCY_ID ACCUMULATOR_SHELL_PER_USDC_RAW\<rparr>]"
proof -
  obtain s' where s': "run_accumulator demo_env (AccSell (Some 1)) \<lparr>sw_world = 0, sw_pending = None, sw_sent = []\<rparr> = (Inr (), s')"
    using demo_sell by blast
  then show ?thesis using sell_sends_plan [OF s'] demo_plan [of "\<lambda>_. True"] by (auto simp: demo_env_def)
qed

end
