(* ===== verification/Keeper.thy ===== *)
theory Keeper
  imports Recovery
begin

text \<open>
  The subscription keeper of the seller, \<open>crates/dexdo/src/seller/keeper.rs\<close>: a loop that promotes
  mature claims and settles elapsed weeks until the deal is over.  Every decision comes from a
  snapshot of the contract, every write is followed by another one, and the snapshots it has
  accepted may never go back.

  Chain, observer and clock are functions on a world of any type.  Beside it stand the cursor, that is the last
  accepted snapshot, and a log of what happened, newest first.  Times and durations are seconds.
\<close>

section \<open>Snapshots, plans and steps\<close>

record keeper_snapshot =
  ks_deal :: deal_chain_state
  ks_subscription :: deal_subscription

definition keeper_snapshot_of :: "deal_chain_snapshot \<Rightarrow> keeper_snapshot" where
  "keeper_snapshot_of s = \<lparr>ks_deal = cs_state s, ks_subscription = cs_subscription s\<rparr>"

datatype keeper_plan =
    NotSubscription
  | Terminal
  | Wait nat
  | Finalize
  | SettleWeek nat

datatype keeper_step_t =
    StepNotSubscription
  | StepTerminal nat
  | StepWait nat
  | StepProgress

datatype keeper_msg =
    KeeperChain string
  | OrdinaryDealKept
  | NoDataYet
  | ClaimIntervalZero
  | PromoteWindowZero
  | PipelineRegressed
  | OpenedUnfunded
  | WeekAboveTerm
  | PendingAboveFunded
  | WeekBaseAbovePending
  | BelowProbeHighWater
  | PeriodStartZero
  | LastClaimZero
  | DeadlineOverflow
  | WeekOverflow
  | BeforePeriodStart
  | TargetNotU8
  | TargetNotAhead
  | RegressingState
  | FieldChanged string
  | WeekMissed nat nat
  | WriteFailed
  | WriteWithoutEffect

type_synonym keeper_error = "keeper_msg chain_error"

definition malformed :: "keeper_msg \<Rightarrow> (unit, keeper_error) result" where
  "malformed m = Inl (Chain m)"

section \<open>Checks\<close>

definition validate_snapshot :: "keeper_snapshot \<Rightarrow> (unit, keeper_error) result" where
  "validate_snapshot s =
     (let deal = ks_deal s; sub = ks_subscription s in
      if dc_tokens_final deal > dc_tokens_pending deal then malformed PipelineRegressed
      else if dc_opened deal \<and> \<not> dc_funded deal then malformed OpenedUnfunded
      else if is_subscription sub then
        (if ds_week_index sub > ds_sub_weeks sub then malformed WeekAboveTerm
         else if dc_tokens_pending deal > ds_funded_tokens sub then malformed PendingAboveFunded
         else if \<not> is_stopped deal \<and> ds_week_base_tokens sub > dc_tokens_pending deal then malformed WeekBaseAbovePending
         else if dc_opened deal \<and> dc_probe_accepted deal then
           (if dc_tokens_final deal < TICK_SIZE \<or> ds_tokens_paid sub < TICK_SIZE then malformed BelowProbeHighWater
            else if ds_period_start sub = 0 then malformed PeriodStartZero
            else if dc_last_claim_time deal = 0 then malformed LastClaimZero
            else Inr ())
         else Inr ())
      else Inr ())"

definition ensure_non_regressing_transition :: "keeper_snapshot \<Rightarrow> keeper_snapshot \<Rightarrow> (unit, keeper_error) result" where
  "ensure_non_regressing_transition old new =
     (let bd = ks_deal old; ad = ks_deal new; bs = ks_subscription old; as = ks_subscription new;
          terminal_transition = (\<not> is_stopped bd \<and> is_stopped ad);
          accepted_probe_now = (\<not> dc_probe_accepted bd \<and> dc_probe_accepted ad) in
      if dc_tokens_final ad < dc_tokens_final bd
         \<or> \<not> terminal_transition \<and> dc_tokens_pending ad < dc_tokens_pending bd
         \<or> dc_last_claim_time ad < dc_last_claim_time bd
         \<or> dc_probe_accepted bd \<and> \<not> dc_probe_accepted ad
         \<or> ds_week_index as < ds_week_index bs
         \<or> ds_tokens_paid as < ds_tokens_paid bs
         \<or> ds_week_base_tokens as < ds_week_base_tokens bs
         \<or> ds_period_start as < ds_period_start bs
      then Inl (Chain RegressingState)
      else if ds_deal_flags as \<noteq> ds_deal_flags bs then Inl (Chain (FieldChanged ''dealFlags''))
      else if ds_sub_weeks as \<noteq> ds_sub_weeks bs then Inl (Chain (FieldChanged ''subWeeks''))
      else if ds_tokens_per_week as \<noteq> ds_tokens_per_week bs then Inl (Chain (FieldChanged ''tokensPerWeek''))
      else if ds_funded_tokens as \<noteq> ds_funded_tokens bs then Inl (Chain (FieldChanged ''fundedTokens''))
      else if ds_period_start as \<noteq> ds_period_start bs \<and> \<not> accepted_probe_now then Inl (Chain (FieldChanged ''periodStart''))
      else Inr ())"

definition cursor_accept :: "keeper_snapshot option \<Rightarrow> keeper_snapshot \<Rightarrow> (keeper_snapshot option, keeper_error) result" where
  "cursor_accept last_accepted snapshot =
     and_then (validate_snapshot snapshot) (\<lambda>_.
     and_then (case last_accepted of Some previous \<Rightarrow> ensure_non_regressing_transition previous snapshot | None \<Rightarrow> Inr ()) (\<lambda>_.
     Inr (Some snapshot)))"

definition terminal_tokens_final :: "keeper_snapshot option \<Rightarrow> nat option" where
  "terminal_tokens_final last_accepted = map_option (\<lambda>s. dc_tokens_final (ks_deal s)) last_accepted"

section \<open>The plan\<close>

definition checked_deadline :: "nat \<Rightarrow> nat \<Rightarrow> (nat, keeper_error) result" where
  "checked_deadline anchor duration = ok_or (checked_add u64_max anchor duration) (Chain DeadlineOverflow)"

definition next_week_boundary :: "deal_subscription \<Rightarrow> (nat, keeper_error) result" where
  "next_week_boundary sub =
     and_then (ok_or (checked_add u64_max (ds_week_index sub) 1) (Chain WeekOverflow)) (\<lambda>next_week.
     and_then (ok_or (checked_mul u64_max SUB_WEEK_LEN next_week) (Chain WeekOverflow)) (\<lambda>offset.
     ok_or (checked_add u64_max (ds_period_start sub) offset) (Chain WeekOverflow)))"

definition scheduled_week_target :: "deal_subscription \<Rightarrow> nat \<Rightarrow> (nat, keeper_error) result" where
  "scheduled_week_target sub now =
     and_then (ok_or (checked_sub now (ds_period_start sub)) (Chain BeforePeriodStart)) (\<lambda>elapsed.
     and_then (ok_or (try_from u8_max (min (elapsed div SUB_WEEK_LEN) (ds_sub_weeks sub))) (Chain TargetNotU8)) (\<lambda>target.
     if target \<le> ds_week_index sub then Inl (Chain TargetNotAhead) else Inr target))"

text \<open>\<open>then(|| ...).transpose()?\<close>\<close>

definition when_due :: "bool \<Rightarrow> (nat, keeper_error) result \<Rightarrow> (nat option, keeper_error) result" where
  "when_due b r = (if b then and_then r (\<lambda>x. Inr (Some x)) else Inr None)"

definition reached :: "nat option \<Rightarrow> nat \<Rightarrow> bool" where
  "reached deadline now = (case deadline of Some d \<Rightarrow> now \<ge> d | None \<Rightarrow> False)"

definition earliest :: "nat \<Rightarrow> nat \<Rightarrow> nat option list \<Rightarrow> nat" where
  "earliest idle now deadlines =
     foldl (\<lambda>delay deadline. case deadline of Some d \<Rightarrow> if d > now then min delay (d - now) else delay | None \<Rightarrow> delay) idle deadlines"

definition plan :: "keeper_snapshot \<Rightarrow> claim_bounds \<Rightarrow> nat \<Rightarrow> (keeper_plan, keeper_error) result" where
  "plan s bounds now =
     and_then (validate_snapshot s) (\<lambda>_.
     let deal = ks_deal s; sub = ks_subscription s in
     if \<not> is_subscription sub then Inr NotSubscription
     else if is_stopped deal then Inr Terminal
     else
       let idle = cb_min_claim_interval bounds in
       if idle = 0 then Inl (Chain ClaimIntervalZero)
       else if \<not> dc_opened deal \<or> \<not> dc_probe_accepted deal \<or> dc_disputed deal then Inr (Wait idle)
       else
         let promote = cb_promote_window bounds in
         if promote = 0 then Inl (Chain PromoteWindowZero)
         else
           and_then (when_due (dc_tokens_pending deal > dc_tokens_final deal)
                       (checked_deadline (dc_last_claim_time deal) promote)) (\<lambda>last_deadline.
           if reached last_deadline now then Inr Finalize
           else
             and_then (when_due (ds_week_index sub < ds_sub_weeks sub) (next_week_boundary sub)) (\<lambda>next_boundary.
             if reached next_boundary now
             then and_then (scheduled_week_target sub now) (\<lambda>target. Inr (SettleWeek target))
             else
               and_then (when_due (ds_week_index sub = ds_sub_weeks sub)
                           (checked_deadline (dc_last_claim_time deal) promote)) (\<lambda>final_close_deadline.
               if reached final_close_deadline now \<and> dc_tokens_final deal = dc_tokens_pending deal
               then Inr (SettleWeek (ds_sub_weeks sub))
               else Inr (Wait (earliest idle now [last_deadline, next_boundary, final_close_deadline]))))))"

section \<open>Reconciliation of a write\<close>

definition write_applied :: "keeper_plan \<Rightarrow> keeper_snapshot \<Rightarrow> keeper_snapshot \<Rightarrow> bool" where
  "write_applied action old new =
     (case action of
        Finalize \<Rightarrow> dc_tokens_final (ks_deal new) > dc_tokens_final (ks_deal old)
      | SettleWeek target \<Rightarrow>
          ds_week_index (ks_subscription old) < ds_sub_weeks (ks_subscription old)
          \<and> ds_week_index (ks_subscription new) = target
      | _ \<Rightarrow> False)"

definition reconcile_write ::
    "claim_bounds \<Rightarrow> keeper_plan \<Rightarrow> keeper_snapshot \<Rightarrow> keeper_snapshot option \<Rightarrow> (unit, keeper_error) result
     \<Rightarrow> (keeper_step_t, keeper_error) result" where
  "reconcile_write bounds action old new_opt submit =
     (case new_opt of
        None \<Rightarrow> Inr (StepTerminal (dc_tokens_final (ks_deal old)))
      | Some new \<Rightarrow>
          and_then (validate_snapshot new) (\<lambda>_.
          if is_stopped (ks_deal new) then Inr (StepTerminal (dc_tokens_final (ks_deal new)))
          else if dc_disputed (ks_deal new) then Inr (StepWait (cb_min_claim_interval bounds))
          else
            and_then (ensure_non_regressing_transition old new) (\<lambda>_.
            if write_applied action old new then Inr StepProgress
            else
              (case action of
                 SettleWeek target \<Rightarrow> Inl (Chain (WeekMissed target (ds_week_index (ks_subscription new))))
               | _ \<Rightarrow> (case submit of Inl _ \<Rightarrow> Inl (Chain WriteFailed) | Inr _ \<Rightarrow> Inl (Chain WriteWithoutEffect))))))"

section \<open>The loop\<close>

record 'w keeper_env =
  ke_deal_snapshot :: "'w \<Rightarrow> (deal_chain_snapshot option, keeper_error) result \<times> 'w"
  ke_finalize :: "'w \<Rightarrow> (unit, keeper_error) result \<times> 'w"
  ke_settle_week :: "'w \<Rightarrow> (unit, keeper_error) result \<times> 'w"
  ke_observe :: "deal_chain_snapshot option \<Rightarrow> 'w \<Rightarrow> (unit, keeper_error) result \<times> 'w"
  ke_now_unix :: "'w \<Rightarrow> (nat, keeper_error) result \<times> 'w"
  ke_sleep :: "nat \<Rightarrow> 'w \<Rightarrow> 'w"

datatype keeper_event =
    Accepted keeper_snapshot
  | Observed "keeper_snapshot option"
  | ReadClock nat
  | WroteFinalize
  | WroteSettleWeek
  | Slept nat

record 'w keeping =
  kp_world :: 'w
  kp_last_accepted :: "keeper_snapshot option"
  kp_log :: "keeper_event list"

datatype keeper_stop = KeeperFault keeper_error | KeeperOutOfFuel

type_synonym ('a, 'w) keeper_run = "('a, keeper_stop, 'w keeping) run"

definition keeper_call :: "('w \<Rightarrow> 'a \<times> 'w) \<Rightarrow> ('a, 'w) keeper_run" where
  "keeper_call op k = (case op (kp_world k) of (a, w) \<Rightarrow> (Inr a, k\<lparr>kp_world := w\<rparr>))"

definition keeper_check :: "('a, keeper_error) result \<Rightarrow> ('a, 'w) keeper_run" where
  "keeper_check r = run_pure (map_err KeeperFault r)"

definition keeper_note :: "keeper_event \<Rightarrow> (unit, 'w) keeper_run" where
  "keeper_note e = run_modify (\<lambda>k. k\<lparr>kp_log := e # kp_log k\<rparr>)"

text \<open>A reading of the clock is logged as the clock gave it.\<close>

definition keeper_clock :: "'w keeper_env \<Rightarrow> (nat, 'w) keeper_run" where
  "keeper_clock env k =
     (case ke_now_unix env (kp_world k) of
        (Inl e, w) \<Rightarrow> (Inl (KeeperFault e), k\<lparr>kp_world := w\<rparr>)
      | (Inr now, w) \<Rightarrow> (Inr now, k\<lparr>kp_world := w, kp_log := ReadClock now # kp_log k\<rparr>))"

definition keeper_observe :: "'w keeper_env \<Rightarrow> deal_chain_snapshot option \<Rightarrow> (unit, 'w) keeper_run" where
  "keeper_observe env s =
     run_then (keeper_note (Observed (map_option keeper_snapshot_of s))) (\<lambda>_.
     run_then (keeper_call (ke_observe env s)) keeper_check)"

definition read_accepted_snapshot :: "'w keeper_env \<Rightarrow> (keeper_snapshot option, 'w) keeper_run" where
  "read_accepted_snapshot env =
     run_then (run_then (keeper_call (ke_deal_snapshot env)) keeper_check) (\<lambda>snapshot.
     case snapshot of
       None \<Rightarrow> run_pure (Inr None)
     | Some s \<Rightarrow>
         run_get (\<lambda>k.
         run_then (keeper_check (cursor_accept (kp_last_accepted k) (keeper_snapshot_of s))) (\<lambda>cursor.
         run_then (run_modify (\<lambda>k. k\<lparr>kp_last_accepted := cursor\<rparr>)) (\<lambda>_.
         run_then (keeper_note (Accepted (keeper_snapshot_of s))) (\<lambda>_.
         run_then (keeper_observe env (Some s)) (\<lambda>_.
         run_pure (Inr (Some (keeper_snapshot_of s)))))))))"

definition submit_write :: "'w keeper_env \<Rightarrow> keeper_plan \<Rightarrow> ((unit, keeper_error) result, 'w) keeper_run" where
  "submit_write env action =
     (case action of
        Finalize \<Rightarrow> run_then (keeper_note WroteFinalize) (\<lambda>_. keeper_call (ke_finalize env))
      | _ \<Rightarrow> run_then (keeper_note WroteSettleWeek) (\<lambda>_. keeper_call (ke_settle_week env)))"

text \<open>The write and what follows it, once the second plan has asked for it.\<close>

definition write_step :: "'w keeper_env \<Rightarrow> claim_bounds \<Rightarrow> keeper_plan \<Rightarrow> keeper_snapshot \<Rightarrow> (keeper_step_t, 'w) keeper_run" where
  "write_step env bounds action pre_write =
     run_then (submit_write env action) (\<lambda>submit.
     run_then (read_accepted_snapshot env) (\<lambda>post_write.
     run_then (if post_write = None then keeper_observe env None else run_pure (Inr ())) (\<lambda>_.
     keeper_check (reconcile_write bounds action pre_write post_write submit))))"

definition plan_step :: "keeper_snapshot \<Rightarrow> keeper_plan \<Rightarrow> keeper_step_t option" where
  "plan_step s p =
     (case p of
        NotSubscription \<Rightarrow> Some StepNotSubscription
      | Terminal \<Rightarrow> Some (StepTerminal (dc_tokens_final (ks_deal s)))
      | Wait d \<Rightarrow> Some (StepWait d)
      | _ \<Rightarrow> None)"

definition keeper_step :: "'w keeper_env \<Rightarrow> claim_bounds \<Rightarrow> nat \<Rightarrow> (keeper_step_t, 'w) keeper_run" where
  "keeper_step env bounds now =
     run_then (read_accepted_snapshot env) (\<lambda>first.
     case first of
       None \<Rightarrow>
         run_get (\<lambda>k.
         case terminal_tokens_final (kp_last_accepted k) of
           Some tokens_final \<Rightarrow> run_then (keeper_observe env None) (\<lambda>_. run_pure (Inr (StepTerminal tokens_final)))
         | None \<Rightarrow> run_pure (Inl (KeeperFault (Chain NoDataYet))))
     | Some observed \<Rightarrow>
         run_then (keeper_check (plan observed bounds now)) (\<lambda>scheduled.
         case plan_step observed scheduled of
           Some r \<Rightarrow> run_pure (Inr r)
         | None \<Rightarrow>
             run_then (read_accepted_snapshot env) (\<lambda>second.
             case second of
               None \<Rightarrow>
                 run_then (keeper_observe env None) (\<lambda>_.
                 run_pure (Inr (StepTerminal (dc_tokens_final (ks_deal observed)))))
             | Some pre_write \<Rightarrow>
                 run_then (keeper_check (plan pre_write bounds now)) (\<lambda>action.
                 case plan_step pre_write action of
                   Some r \<Rightarrow> run_pure (Inr r)
                 | None \<Rightarrow> write_step env bounds action pre_write))))"

primrec drive_keeper :: "'w keeper_env \<Rightarrow> claim_bounds \<Rightarrow> nat \<Rightarrow> (nat, 'w) keeper_run" where
  "drive_keeper env bounds 0 = run_pure (Inl KeeperOutOfFuel)"
| "drive_keeper env bounds (Suc n) =
     run_then (keeper_clock env) (\<lambda>now.
     run_then (keeper_step env bounds now) (\<lambda>r.
     case r of
       StepNotSubscription \<Rightarrow> run_pure (Inl (KeeperFault (Chain OrdinaryDealKept)))
     | StepTerminal tokens_final \<Rightarrow> run_pure (Inr tokens_final)
     | StepProgress \<Rightarrow> drive_keeper env bounds n
     | StepWait delay \<Rightarrow>
         run_then (keeper_call (\<lambda>w. ((), ke_sleep env delay w))) (\<lambda>_.
         run_then (keeper_note (Slept delay)) (\<lambda>_.
         drive_keeper env bounds n))))"

definition drive_subscription_keeper_with_observer :: "'w keeper_env \<Rightarrow> claim_bounds \<Rightarrow> nat \<Rightarrow> 'w \<Rightarrow> (nat, keeper_stop) result \<times> 'w keeping" where
  "drive_subscription_keeper_with_observer env bounds fuel w =
     drive_keeper env bounds fuel \<lparr>kp_world = w, kp_last_accepted = None, kp_log = []\<rparr>"

end
