(* ===== verification/KeeperProps.thy ===== *)
theory KeeperProps
  imports Keeper
begin

text \<open>
  What the subscription keeper does on any chain, and what it achieves on a chain that keeps its
  word.  The first is an invariant of the log: every write follows a snapshot whose plan asked for
  it.  The second is a locale of the laws of such a chain, with a
  measure of the work that is left; the loop ends within that many rounds, with the deal over.
\<close>

section \<open>The log on any chain\<close>

fun last_accepted_in :: "keeper_event list \<Rightarrow> keeper_snapshot option" where
  "last_accepted_in [] = None"
| "last_accepted_in (Accepted s # log) = Some s"
| "last_accepted_in (e # log) = last_accepted_in log"

fun last_clock_in :: "keeper_event list \<Rightarrow> nat option" where
  "last_clock_in [] = None"
| "last_clock_in (ReadClock t # log) = Some t"
| "last_clock_in (e # log) = last_clock_in log"

text \<open>A snapshot the chain answered with.\<close>

definition answered :: "'w keeper_env \<Rightarrow> keeper_snapshot \<Rightarrow> bool" where
  "answered env s \<longleftrightarrow> (\<exists>w d. fst (ke_deal_snapshot env w) = Inr (Some d) \<and> s = keeper_snapshot_of d)"

lemma answeredI: "ke_deal_snapshot env w = (Inr (Some d), w') \<Longrightarrow> answered env (keeper_snapshot_of d)"
  by (auto simp: answered_def intro!: exI [of _ w])

text \<open>What each event presupposes of the events before it, the last one first.\<close>

definition justified :: "'w keeper_env \<Rightarrow> claim_bounds \<Rightarrow> keeper_event \<Rightarrow> keeper_event list \<Rightarrow> bool" where
  "justified env bounds e log =
     (case e of
        Accepted s \<Rightarrow> validate_snapshot s = Inr ()
          \<and> answered env s
          \<and> (\<forall>old. last_accepted_in log = Some old \<longrightarrow> ensure_non_regressing_transition old s = Inr ())
      | Observed _ \<Rightarrow> True
      | ReadClock t \<Rightarrow> \<exists>w. fst (ke_now_unix env w) = Inr t
      | WroteFinalize \<Rightarrow> (\<exists>s rest now. log = Observed (Some s) # Accepted s # rest \<and> last_clock_in rest = Some now
          \<and> plan s bounds now = Inr Finalize)
      | WroteSettleWeek \<Rightarrow> (\<exists>s rest now target. log = Observed (Some s) # Accepted s # rest \<and> last_clock_in rest = Some now
          \<and> plan s bounds now = Inr (SettleWeek target))
      | Slept d \<Rightarrow> 0 < d \<and> d \<le> cb_min_claim_interval bounds)"

primrec log_ok :: "'w keeper_env \<Rightarrow> claim_bounds \<Rightarrow> keeper_event list \<Rightarrow> bool" where
  "log_ok env bounds [] = True"
| "log_ok env bounds (e # log) = (justified env bounds e log \<and> log_ok env bounds log)"

definition keeper_inv :: "'w keeper_env \<Rightarrow> claim_bounds \<Rightarrow> nat option \<Rightarrow> 'w keeping \<Rightarrow> bool" where
  "keeper_inv env bounds c k \<longleftrightarrow> log_ok env bounds (kp_log k) \<and> kp_last_accepted k = last_accepted_in (kp_log k)
     \<and> last_clock_in (kp_log k) = c"

lemma log_ok_split: "log_ok env bounds (later @ e # earlier) \<Longrightarrow> justified env bounds e earlier"
  by (induction later) auto

lemma wp_keeper_call [wp_simps]:
  "wp (keeper_call op) q k = (case op (kp_world k) of (a, w) \<Rightarrow> q (Inr a) (k\<lparr>kp_world := w\<rparr>))"
  by (simp add: wp_def keeper_call_def split: prod.split)

lemma wp_keeper_check [wp_simps]: "wp (keeper_check r) q k = q (map_err KeeperFault r) k"
  by (simp add: keeper_check_def wp_simps)

lemma wp_keeper_note [wp_simps]: "wp (keeper_note e) q k = q (Inr ()) (k\<lparr>kp_log := e # kp_log k\<rparr>)"
  by (simp add: keeper_note_def wp_simps)

lemma wp_keeper_clock [wp_simps]:
  "wp (keeper_clock env) q k =
     (case ke_now_unix env (kp_world k) of
        (Inl e, w) \<Rightarrow> q (Inl (KeeperFault e)) (k\<lparr>kp_world := w\<rparr>)
      | (Inr now, w) \<Rightarrow> q (Inr now) (k\<lparr>kp_world := w, kp_log := ReadClock now # kp_log k\<rparr>))"
  by (simp add: wp_def keeper_clock_def split: prod.split sum.split)

text \<open>A successful read leaves its snapshot on top of the log, accepted and observed.\<close>

definition just_read :: "nat option \<Rightarrow> 'w keeping \<Rightarrow> keeper_snapshot \<Rightarrow> bool" where
  "just_read c k s \<longleftrightarrow> (\<exists>rest. kp_log k = Observed (Some s) # Accepted s # rest \<and> last_clock_in rest = c)"

lemma cursor_accept_Inr:
  "cursor_accept seen s = Inr x \<longleftrightarrow> x = Some s \<and> validate_snapshot s = Inr ()
     \<and> (\<forall>old. seen = Some old \<longrightarrow> ensure_non_regressing_transition old s = Inr ())"
  by (auto simp: cursor_accept_def result_simps split: option.splits)

lemma observe_inv:
  "keeper_inv env bounds c k \<Longrightarrow> wp (keeper_observe env s) (\<lambda>r k'. keeper_inv env bounds c k'
     \<and> kp_log k' = Observed (map_option keeper_snapshot_of s) # kp_log k) k"
  by (auto simp: keeper_observe_def wp_simps keeper_inv_def justified_def split: prod.split sum.split)

lemma read_inv:
  assumes "keeper_inv env bounds c k"
  shows "wp (read_accepted_snapshot env) (\<lambda>r k'. keeper_inv env bounds c k' \<and> (\<forall>s. r = Inr (Some s) \<longrightarrow> just_read c k' s)) k"
  using assms
  by (auto simp: read_accepted_snapshot_def keeper_observe_def wp_simps keeper_inv_def justified_def just_read_def
      map_err_def cursor_accept_Inr intro: answeredI split: prod.splits sum.splits option.splits)

text \<open>A plan never asks for an empty wait, and never for one longer than a claim interval.\<close>

lemma earliest_bounds: "0 < idle \<Longrightarrow> 0 < earliest idle now ds \<and> earliest idle now ds \<le> idle"
proof -
  have "0 < idle \<Longrightarrow> 0 < foldl (\<lambda>delay deadline. case deadline of Some d \<Rightarrow> if d > now then min delay (d - now) else delay | None \<Rightarrow> delay) idle ds
      \<and> foldl (\<lambda>delay deadline. case deadline of Some d \<Rightarrow> if d > now then min delay (d - now) else delay | None \<Rightarrow> delay) idle ds \<le> idle"
  proof (induction ds arbitrary: idle)
    case (Cons d ds)
    show ?case
      using Cons.IH [of "case d of Some d \<Rightarrow> if d > now then min idle (d - now) else idle | None \<Rightarrow> idle"] Cons.prems
      by (auto split: option.splits if_splits)
  qed simp
  then show "0 < idle \<Longrightarrow> 0 < earliest idle now ds \<and> earliest idle now ds \<le> idle" by (simp add: earliest_def)
qed

lemma plan_wait: "plan s bounds now = Inr (Wait d) \<Longrightarrow> 0 < d \<and> d \<le> cb_min_claim_interval bounds"
  using earliest_bounds [of "cb_min_claim_interval bounds"]
  by (auto simp: plan_def Let_def result_simps when_due_def split: if_splits)

lemma plan_write_interval:
  "plan s bounds now = Inr Finalize \<or> plan s bounds now = Inr (SettleWeek t) \<Longrightarrow> 0 < cb_min_claim_interval bounds"
  by (auto simp: plan_def Let_def result_simps when_due_def split: if_splits)

lemma plan_step_None: "plan_step s p = None \<longleftrightarrow> p = Finalize \<or> (\<exists>t. p = SettleWeek t)"
  by (cases p) (simp_all add: plan_step_def)

text \<open>Every wait a step returns is one that a plan asked for, or the interval after a dispute.\<close>

definition step_inv :: "'w keeper_env \<Rightarrow> claim_bounds \<Rightarrow> nat option \<Rightarrow> (keeper_step_t, keeper_stop) result \<Rightarrow> 'w keeping \<Rightarrow> bool" where
  "step_inv env bounds c r k \<longleftrightarrow> keeper_inv env bounds c k \<and> (\<forall>d. r = Inr (StepWait d) \<longrightarrow> 0 < d \<and> d \<le> cb_min_claim_interval bounds)"

lemma reconcile_wait: "reconcile_write bounds action old new submit = Inr (StepWait d) \<Longrightarrow> d = cb_min_claim_interval bounds"
  by (auto simp: reconcile_write_def result_simps split: option.splits if_splits keeper_plan.splits sum.splits)

lemma submit_inv:
  assumes inv: "keeper_inv env bounds (Some now) k" and rd: "just_read (Some now) k s" and p: "plan s bounds now = Inr action" "plan_step s action = None"
  shows "wp (submit_write env action) (\<lambda>r k'. keeper_inv env bounds (Some now) k') k"
proof -
  have just: "justified env bounds (if action = Finalize then WroteFinalize else WroteSettleWeek) (kp_log k)"
    using rd p by (fastforce simp: just_read_def justified_def plan_step_None)
  show ?thesis
    using inv just p(2) unfolding plan_step_None
    by (auto simp: submit_write_def wp_simps keeper_inv_def split: prod.split)
qed

lemma write_inv:
  assumes inv: "keeper_inv env bounds (Some now) k" and rd: "just_read (Some now) k s" and p: "plan s bounds now = Inr action" "plan_step s action = None"
  shows "wp (write_step env bounds action s) (step_inv env bounds (Some now)) k"
proof -
  have iv: "0 < cb_min_claim_interval bounds" using p plan_write_interval by (auto simp: plan_step_None)
  have fin: "wp (keeper_check (reconcile_write bounds action s new submit)) (step_inv env bounds (Some now)) k'"
    if "keeper_inv env bounds (Some now) k'" for new submit and k' :: "'a keeping"
    using that iv by (auto simp: wp_simps step_inv_def map_err_def dest: reconcile_wait split: sum.splits)
  have tail: "wp (run_then (if new = None then keeper_observe env None else run_pure (Inr ())) (\<lambda>_.
       keeper_check (reconcile_write bounds action s new submit))) (step_inv env bounds (Some now)) k'"
    if "keeper_inv env bounds (Some now) k'" for new submit and k' :: "'a keeping"
    by (rule wp_thenI [where p = "\<lambda>_. keeper_inv env bounds (Some now)"])
      (use that in \<open>auto intro: wp_mono [OF observe_inv] fin simp: step_inv_def wp_pure\<close>)
  show ?thesis unfolding write_step_def
    by (rule wp_thenI [OF submit_inv [OF assms]], simp add: step_inv_def, rule wp_thenI [OF read_inv], assumption,
        simp add: step_inv_def, rule tail, simp)
qed

lemma plan_step_inv:
  assumes "keeper_inv env bounds c k" and "plan s bounds now = Inr p" and "plan_step s p = Some r"
  shows "step_inv env bounds c (Inr r) k"
  using assms plan_wait [of s bounds now] by (cases p) (auto simp: plan_step_def step_inv_def)

lemma step_keeps_inv:
  assumes "keeper_inv env bounds (Some now) k"
  shows "wp (keeper_step env bounds now) (step_inv env bounds (Some now)) k"
proof -
  have terminal: "wp (run_then (keeper_observe env None) (\<lambda>_. run_pure (Inr (StepTerminal n)))) (step_inv env bounds (Some now)) k'"
    if "keeper_inv env bounds (Some now) k'" for n and k' :: "'a keeping"
    unfolding wp_then wp_pure by (rule wp_mono [OF observe_inv [OF that]]) (auto simp: step_inv_def split: sum.split)
  have planned: "wp (run_then (keeper_check (plan s bounds now)) (\<lambda>p.
       case plan_step s p of Some r \<Rightarrow> run_pure (Inr r) | None \<Rightarrow> f p)) (step_inv env bounds (Some now)) k'"
    if "keeper_inv env bounds (Some now) k'" "\<And>p. plan s bounds now = Inr p \<Longrightarrow> plan_step s p = None \<Longrightarrow> wp (f p) (step_inv env bounds (Some now)) k'"
    for s f and k' :: "'a keeping"
  proof (cases "plan s bounds now")
    case (Inl e)
    then show ?thesis using that(1) by (simp add: wp_simps map_err_def step_inv_def)
  next
    case (Inr p)
    then show ?thesis using that plan_step_inv by (cases "plan_step s p") (auto simp: wp_simps map_err_def)
  qed
  have second: "wp (run_then (read_accepted_snapshot env) (\<lambda>second.
       case second of
         None \<Rightarrow> run_then (keeper_observe env None) (\<lambda>_. run_pure (Inr (StepTerminal n)))
       | Some pre_write \<Rightarrow> run_then (keeper_check (plan pre_write bounds now)) (\<lambda>action.
           case plan_step pre_write action of Some r \<Rightarrow> run_pure (Inr r) | None \<Rightarrow> write_step env bounds action pre_write)))
     (step_inv env bounds (Some now)) k'" if "keeper_inv env bounds (Some now) k'" for n and k' :: "'a keeping"
    unfolding wp_then [of "read_accepted_snapshot env"]
    by (rule wp_mono [OF read_inv [OF that]])
      (auto split: sum.split option.split intro!: planned terminal write_inv simp: step_inv_def)
  show ?thesis unfolding keeper_step_def wp_then [of "read_accepted_snapshot env"]
    by (rule wp_mono [OF read_inv [OF assms]])
      (auto split: sum.split option.split intro!: planned terminal second simp: step_inv_def wp_get wp_pure)
qed

lemma drive_keeps_log:
  "keeper_inv env bounds c k \<Longrightarrow> wp (drive_keeper env bounds fuel) (\<lambda>_ k'. log_ok env bounds (kp_log k')) k"
proof (induction fuel arbitrary: k c)
  case (Suc n)
  have more: "wp (case s of
       StepNotSubscription \<Rightarrow> run_pure (Inl (KeeperFault (Chain OrdinaryDealKept)))
     | StepTerminal tokens_final \<Rightarrow> run_pure (Inr tokens_final)
     | StepWait delay \<Rightarrow>
         run_then (keeper_call (\<lambda>w. ((), ke_sleep env delay w))) (\<lambda>_.
         run_then (keeper_note (Slept delay)) (\<lambda>_. drive_keeper env bounds n))
     | StepProgress \<Rightarrow> drive_keeper env bounds n) (\<lambda>_ k'. log_ok env bounds (kp_log k')) k'"
    if "step_inv env bounds c' (Inr s) k'" for s c' and k' :: "'a keeping"
    using that
    by (auto simp: step_inv_def wp_simps keeper_inv_def justified_def intro!: Suc.IH [where c = c'] split: keeper_step_t.split)
  have clock: "wp (keeper_clock env) (\<lambda>r k'. log_ok env bounds (kp_log k')
      \<and> (\<forall>now. r = Inr now \<longrightarrow> keeper_inv env bounds (Some now) k')) k"
    using Suc.prems by (auto simp: wp_simps keeper_inv_def justified_def split: prod.split sum.split intro: exI [of _ "kp_world k"])
  show ?case unfolding drive_keeper.simps
  proof (rule wp_thenI [OF clock], simp, rule wp_thenI [OF step_keeps_inv], blast)
    fix now e and k' k'' :: "'a keeping"
    show "step_inv env bounds (Some now) (Inl e) k'' \<Longrightarrow> log_ok env bounds (kp_log k'')"
      by (simp add: step_inv_def keeper_inv_def)
  qed (rule more)
qed (simp add: wp_simps keeper_inv_def)

text \<open>What it means that a write is due.\<close>

definition finalize_due :: "claim_bounds \<Rightarrow> keeper_snapshot \<Rightarrow> nat \<Rightarrow> bool" where
  "finalize_due bounds s now \<longleftrightarrow>
     dc_tokens_final (ks_deal s) < dc_tokens_pending (ks_deal s)
     \<and> dc_last_claim_time (ks_deal s) + cb_promote_window bounds \<le> now"

definition settlement_due :: "claim_bounds \<Rightarrow> keeper_snapshot \<Rightarrow> nat \<Rightarrow> bool" where
  "settlement_due bounds s now \<longleftrightarrow>
     (let sub = ks_subscription s in
      if ds_week_index sub < ds_sub_weeks sub
      then ds_period_start sub + SUB_WEEK_LEN * (ds_week_index sub + 1) \<le> now
      else ds_week_index sub = ds_sub_weeks sub \<and> dc_tokens_final (ks_deal s) = dc_tokens_pending (ks_deal s)
           \<and> dc_last_claim_time (ks_deal s) + cb_promote_window bounds \<le> now)"

lemma plan_finalize_due: "plan s bounds now = Inr Finalize \<Longrightarrow> finalize_due bounds s now"
  by (auto simp: plan_def finalize_due_def Let_def result_simps checked_simps when_due_def checked_deadline_def reached_def
      split: if_splits option.splits)

lemma plan_settle_due: "plan s bounds now = Inr (SettleWeek t) \<Longrightarrow> settlement_due bounds s now"
  by (auto simp: plan_def settlement_due_def Let_def result_simps checked_simps when_due_def checked_deadline_def reached_def
      next_week_boundary_def split: if_splits option.splits)

text \<open>
  Claim C14: the keeper writes only what it has just seen to be due.  Whatever the chain, the observer
  and the clock answer, and however the run ends: right before every finalization stands a read
  whose snapshot, an answer of the chain, passed all checks, and whose plan, at the last reading the clock gave before it, was to
  finalize: tokens were pending and the promotion window of the last claim was over at that reading.  Right before every weekly settlement stands
  one whose plan at the last reading was to settle: the current week was over, or all weeks were settled, nothing was
  pending and the window of the last claim was over.  No accepted snapshot goes back behind the one accepted before it, and
  every sleep is positive and at most a claim interval.
\<close>

theorem keeper_writes_what_is_due:
  assumes "kp_log (snd (drive_subscription_keeper_with_observer env bounds fuel w)) = later @ e # earlier"
  shows "(e = WroteFinalize \<longrightarrow>
            (\<exists>s rest now. earlier = Observed (Some s) # Accepted s # rest \<and> last_clock_in rest = Some now
               \<and> plan s bounds now = Inr Finalize \<and> finalize_due bounds s now))
     \<and> (e = WroteSettleWeek \<longrightarrow>
            (\<exists>s rest now target. earlier = Observed (Some s) # Accepted s # rest \<and> last_clock_in rest = Some now
               \<and> plan s bounds now = Inr (SettleWeek target) \<and> settlement_due bounds s now))
     \<and> (\<forall>now. e = ReadClock now \<longrightarrow> (\<exists>w'. fst (ke_now_unix env w') = Inr now))
     \<and> (\<forall>s. e = Accepted s \<longrightarrow> answered env s
          \<and> (\<forall>old. last_accepted_in earlier = Some old \<longrightarrow> ensure_non_regressing_transition old s = Inr ()))
     \<and> (\<forall>d. e = Slept d \<longrightarrow> 0 < d \<and> d \<le> cb_min_claim_interval bounds)"
proof -
  have "wp (drive_keeper env bounds fuel) (\<lambda>_ k. log_ok env bounds (kp_log k)) \<lparr>kp_world = w, kp_last_accepted = None, kp_log = []\<rparr>"
    by (rule drive_keeps_log [where c = None]) (simp add: keeper_inv_def)
  then have "log_ok env bounds (kp_log (snd (drive_subscription_keeper_with_observer env bounds fuel w)))"
    by (simp add: wp_def drive_subscription_keeper_with_observer_def split: prod.splits)
  then have "justified env bounds e earlier" unfolding assms by (rule log_ok_split)
  then show ?thesis using plan_finalize_due plan_settle_due by (fastforce simp: justified_def)
qed

lemma non_regressing_refl: "ensure_non_regressing_transition s s = Inr ()"
  by (simp add: ensure_non_regressing_transition_def Let_def)

text \<open>A chain that always shows the same subscription with a claim past its window, and ignores every write.\<close>

definition due_snapshot :: deal_chain_snapshot where
  "due_snapshot =
     \<lparr>cs_account_code_hash = [], cs_account_boc_hash = [],
      cs_state = \<lparr>dc_funded = True, dc_opened = True, dc_probe_accepted = True, dc_disputed = False, dc_deposit = 5, dc_finalized_owed = 0,
        dc_tokens_final = 1000000, dc_tokens_pending = 2000000, dc_probe_tick = 0, dc_funded_time = Some 900,
        dc_probe_time = 1000, dc_last_claim_time = 2100, dc_dispute_time = 0\<rparr>,
      cs_subscription = \<lparr>ds_deal_flags = SUBSCRIPTION, ds_sub_weeks = 4, ds_week_index = 0, ds_tokens_per_week = 2000000,
        ds_funded_tokens = 8000000, ds_tokens_paid = 1000000, ds_period_start = 2000, ds_week_base_tokens = 0\<rparr>,
      cs_seller_bond = \<lparr>sb_bond_funded = True, sb_bond_held = 2, sb_bond_required = 2\<rparr>,
      cs_buyer_bond = \<lparr>bb_bond_held = 2, bb_bond_required = 2\<rparr>\<rparr>"

definition deaf_env :: "unit keeper_env" where
  "deaf_env =
     \<lparr>ke_deal_snapshot = (\<lambda>w. (Inr (Some due_snapshot), w)), ke_finalize = (\<lambda>w. (Inr (), w)), ke_settle_week = (\<lambda>w. (Inr (), w)),
      ke_observe = (\<lambda>s w. (Inr (), w)), ke_now_unix = (\<lambda>w. (Inr 2160, w)), ke_sleep = (\<lambda>d w. w)\<rparr>"

lemma due_planned:
  "validate_snapshot (keeper_snapshot_of due_snapshot) = Inr ()"
  "plan (keeper_snapshot_of due_snapshot) claim_bounds_canonical 2160 = Inr Finalize"
  by (simp_all add: plan_def validate_snapshot_def keeper_snapshot_of_def due_snapshot_def is_subscription_def is_stopped_def Let_def
      claim_bounds_canonical_def canonical_consts_def when_due_def checked_deadline_def checked_add_def reached_def u64_max_def TICK_SIZE_def)

lemma deaf_run:
  "let s = keeper_snapshot_of due_snapshot in
   drive_subscription_keeper_with_observer deaf_env claim_bounds_canonical 1 ()
     = (Inl (KeeperFault (Chain WriteWithoutEffect)), \<lparr>kp_world = (), kp_last_accepted = Some s,
        kp_log = [Observed (Some s), Accepted s, WroteFinalize, Observed (Some s), Accepted s, Observed (Some s), Accepted s,
          ReadClock 2160]\<rparr>)"
  using due_planned
  by (simp add: drive_subscription_keeper_with_observer_def keeper_clock_def keeper_step_def read_accepted_snapshot_def
      cursor_accept_def non_regressing_refl
      keeper_observe_def write_step_def submit_write_def plan_step_def reconcile_write_def is_stopped_def write_applied_def keeper_call_def
      keeper_check_def keeper_note_def run_then_def run_pure_def run_get_def run_modify_def map_err_def deaf_env_def Let_def)
    (simp add: keeper_snapshot_of_def due_snapshot_def)

theorem keeper_writes_what_is_due_witness:
  "let s = keeper_snapshot_of due_snapshot in
   \<exists>earlier. kp_log (snd (drive_subscription_keeper_with_observer deaf_env claim_bounds_canonical 1 ()))
       = [Observed (Some s), Accepted s] @ WroteFinalize # earlier
     \<and> hd earlier = Observed (Some s) \<and> last_clock_in earlier = Some 2160 \<and> finalize_due claim_bounds_canonical s 2160"
  using deaf_run keeper_writes_what_is_due [of deaf_env claim_bounds_canonical 1 "()"
      "[Observed (Some (keeper_snapshot_of due_snapshot)), Accepted (keeper_snapshot_of due_snapshot)]" WroteFinalize]
  by (fastforce simp: Let_def)

section \<open>A chain that keeps its word\<close>

text \<open>
  The chain seen by the keeper of one subscription.  \<open>good\<close> is what always holds of the world, \<open>snap\<close> is what
  the chain answers, \<open>left\<close> bounds the rounds to go.  The plan never fails; a planned wait brings the end nearer, a planned
  finalization succeeds and makes more tokens final, a planned settlement succeeds and ends the
  deal or moves it to the planned week.
\<close>

locale settling_chain =
  fixes env :: "'w keeper_env" and bounds :: claim_bounds and snap :: "'w \<Rightarrow> deal_chain_snapshot"
    and now :: "'w \<Rightarrow> nat" and left :: "'w \<Rightarrow> nat" and good :: "'w \<Rightarrow> bool" and seen :: "'w \<Rightarrow> keeper_snapshot"
  assumes seen: "seen w = keeper_snapshot_of (snap w)"
    and reads: "good w \<Longrightarrow> ke_deal_snapshot env w = (Inr (Some (snap w)), w)"
    and clock: "good w \<Longrightarrow> ke_now_unix env w = (Inr (now w), w)"
    and observes: "good w \<Longrightarrow> ke_observe env s w = (Inr (), w)"
    and valid: "good w \<Longrightarrow> validate_snapshot (seen w) = Inr ()"
    and plans: "good w \<Longrightarrow> \<exists>p. plan (seen w) bounds (now w) = Inr p"
    and subscribed: "good w \<Longrightarrow> is_subscription (ks_subscription (seen w))"
    and waits: "good w \<Longrightarrow> plan (seen w) bounds (now w) = Inr (Wait d) \<Longrightarrow>
      good (ke_sleep env d w) \<and> left (ke_sleep env d w) < left w \<and> seen (ke_sleep env d w) = seen w"
    and finalizes: "good w \<Longrightarrow> plan (seen w) bounds (now w) = Inr Finalize \<Longrightarrow>
      \<exists>w'. ke_finalize env w = (Inr (), w') \<and> good w' \<and> left w' < left w
        \<and> ensure_non_regressing_transition (seen w) (seen w') = Inr ()
        \<and> dc_tokens_final (ks_deal (seen w)) < dc_tokens_final (ks_deal (seen w')) \<and> \<not> dc_disputed (ks_deal (seen w'))"
    and settles: "good w \<Longrightarrow> plan (seen w) bounds (now w) = Inr (SettleWeek t) \<Longrightarrow>
      \<exists>w'. ke_settle_week env w = (Inr (), w') \<and> good w'
        \<and> ensure_non_regressing_transition (seen w) (seen w') = Inr ()
        \<and> (is_stopped (ks_deal (seen w')) \<or>
            left w' < left w \<and> write_applied (SettleWeek t) (seen w) (seen w') \<and> \<not> dc_disputed (ks_deal (seen w')))"
begin

text \<open>The keeper in a good world, its cursor no further than the chain.\<close>

definition ready :: "'w keeping \<Rightarrow> 'w \<Rightarrow> bool" where
  "ready k w \<longleftrightarrow> kp_world k = w \<and> good w
     \<and> (\<forall>old. kp_last_accepted k = Some old \<longrightarrow> ensure_non_regressing_transition old (seen w) = Inr ())"

lemma read_good:
  assumes "ready k w"
  shows "wp (read_accepted_snapshot env) (\<lambda>r k'. r = Inr (Some (seen w)) \<and> ready k' w \<and> kp_last_accepted k' = Some (seen w)) k"
proof -
  have w: "kp_world k = w" "good w" using assms by (simp_all add: ready_def)
  have "cursor_accept (kp_last_accepted k) (seen w) = Inr (Some (seen w))"
    using assms valid by (auto simp: cursor_accept_Inr ready_def)
  then show ?thesis
    using w reads observes by (simp add: read_accepted_snapshot_def keeper_observe_def wp_simps map_err_def
        ready_def non_regressing_refl flip: seen)
qed

text \<open>One round: it ends the run with the deal over, or it leaves less to do.\<close>

definition round_ok :: "'w \<Rightarrow> (keeper_step_t, keeper_stop) result \<Rightarrow> 'w keeping \<Rightarrow> bool" where
  "round_ok w r k' \<longleftrightarrow> (\<exists>w'. ready k' w' \<and>
     (r = Inr (StepTerminal (dc_tokens_final (ks_deal (seen w')))) \<and> is_stopped (ks_deal (seen w'))
      \<or> r = Inr StepProgress \<and> left w' < left w
      \<or> (\<exists>d. r = Inr (StepWait d) \<and> plan (seen w') bounds (now w') = Inr (Wait d) \<and> w' = w \<and> kp_last_accepted k' = Some (seen w))))"

lemma plan_terminal: "plan s b t = Inr Terminal \<Longrightarrow> is_stopped (ks_deal s)"
  by (auto simp: plan_def Let_def result_simps when_due_def split: if_splits)

lemma plan_ordinary: "plan s b t = Inr NotSubscription \<Longrightarrow> \<not> is_subscription (ks_subscription s)"
  by (auto simp: plan_def Let_def result_simps when_due_def split: if_splits)

lemma planned_step:
  assumes "ready k w" and "kp_last_accepted k = Some (seen w)"
    and "plan (seen w) bounds (now w) = Inr p" and "plan_step (seen w) p = Some r"
  shows "round_ok w (Inr r) k"
  using assms plan_terminal [of "seen w" bounds "now w"] plan_ordinary [of "seen w" bounds "now w"] subscribed
  by (cases p) (auto simp: plan_step_def round_ok_def ready_def)

lemma write_good:
  assumes rdy: "ready k w" and last: "kp_last_accepted k = Some (seen w)"
    and p: "plan (seen w) bounds (now w) = Inr action" "plan_step (seen w) action = None"
  shows "wp (write_step env bounds action (seen w)) (round_ok w) k"
proof -
  have w: "kp_world k = w" "good w" using rdy by (simp_all add: ready_def)
  obtain w' where w': "wp (submit_write env action) (\<lambda>r k'. r = Inr (Inr ()) \<and> ready k' w') k"
      "good w'" "is_stopped (ks_deal (seen w')) \<or> left w' < left w \<and> write_applied action (seen w) (seen w') \<and> \<not> dc_disputed (ks_deal (seen w'))"
      "ensure_non_regressing_transition (seen w) (seen w') = Inr ()"
  proof (cases "action = Finalize")
    case True
    then obtain w' where "ke_finalize env w = (Inr (), w')" "good w'" "left w' < left w"
        "ensure_non_regressing_transition (seen w) (seen w') = Inr ()"
        "dc_tokens_final (ks_deal (seen w)) < dc_tokens_final (ks_deal (seen w'))" "\<not> dc_disputed (ks_deal (seen w'))"
      using finalizes [OF w(2)] p by auto
    then show ?thesis
      using that [of w'] True w last by (auto simp: submit_write_def wp_simps ready_def write_applied_def)
  next
    case False
    then obtain t where t: "action = SettleWeek t" using p(2) by (auto simp: plan_step_None)
    then obtain w' where "ke_settle_week env w = (Inr (), w')" "good w'"
        "ensure_non_regressing_transition (seen w) (seen w') = Inr ()"
        "is_stopped (ks_deal (seen w')) \<or>
           left w' < left w \<and> write_applied (SettleWeek t) (seen w) (seen w') \<and> \<not> dc_disputed (ks_deal (seen w'))"
      using settles [OF w(2), of t] p by auto
    then show ?thesis
      using that [of w'] t w last by (auto simp: submit_write_def wp_simps ready_def)
  qed
  have fin: "wp (keeper_check (reconcile_write bounds action (seen w) (Some (seen w')) (Inr ()))) (round_ok w) k'" if "ready k' w'" for k'
    using that w'(2-4) valid [OF w'(2)]
    by (cases "is_stopped (ks_deal (seen w'))") (auto simp: wp_simps reconcile_write_def map_err_def round_ok_def)
  show ?thesis unfolding write_step_def
    by (rule wp_thenI [OF w'(1)], simp, rule wp_thenI [OF read_good [of _ w']], simp, simp) (auto simp: wp_pure_then intro: fin)
qed

lemma step_good:
  assumes "ready k w"
  shows "wp (keeper_step env bounds (now w)) (round_ok w) k"
proof -
  have "good w" using assms by (simp add: ready_def)
  then obtain p where p: "plan (seen w) bounds (now w) = Inr p" using plans by blast
  have planned: "wp (run_then (keeper_check (plan (seen w) bounds (now w))) (\<lambda>p.
       case plan_step (seen w) p of Some r \<Rightarrow> run_pure (Inr r) | None \<Rightarrow> f p)) (round_ok w) k'"
    if "ready k' w" "kp_last_accepted k' = Some (seen w)" "plan_step (seen w) p = None \<Longrightarrow> wp (f p) (round_ok w) k'" for f k'
    using that planned_step [OF that(1,2) p] by (cases "plan_step (seen w) p") (auto simp: p wp_simps map_err_def)
  show ?thesis unfolding keeper_step_def
    by (rule wp_thenI [OF read_good [OF assms]], simp, clarsimp, intro planned, assumption, assumption,
        rule wp_thenI [OF read_good [of _ w]], simp, simp)
      (auto intro: planned write_good [OF _ _ p])
qed

theorem keeper_ends:
  assumes "ready k w" and "left w < fuel"
  shows "wp (drive_keeper env bounds fuel) (\<lambda>r k'. good (kp_world k') \<and> is_stopped (ks_deal (seen (kp_world k')))
     \<and> r = Inr (dc_tokens_final (ks_deal (seen (kp_world k'))))) k"
  using assms
proof (induction fuel arbitrary: k w)
  case (Suc n)
  have w: "kp_world k = w" "good w" using Suc.prems(1) by (simp_all add: ready_def)
  define k0 where "k0 = k\<lparr>kp_log := ReadClock (now w) # kp_log k\<rparr>"
  have clk: "wp (keeper_clock env) (\<lambda>r k'. r = Inr (now w) \<and> k' = k0) k"
    using w clock by (cases k) (simp add: wp_simps k0_def)
  have rdy: "ready k0 w" using Suc.prems(1) by (simp add: ready_def k0_def)
  show ?case unfolding drive_keeper.simps
  proof (rule wp_thenI [OF clk], simp, clarify, rule wp_thenI [OF step_good [OF rdy]], simp add: round_ok_def)
    fix r k' assume "round_ok w (Inr r) k'"
    then obtain w' where r: "ready k' w'" "r = StepTerminal (dc_tokens_final (ks_deal (seen w'))) \<and> is_stopped (ks_deal (seen w'))
       \<or> r = StepProgress \<and> left w' < left w
       \<or> (\<exists>d. r = StepWait d \<and> plan (seen w') bounds (now w') = Inr (Wait d) \<and> w' = w \<and> kp_last_accepted k' = Some (seen w))"
      by (auto simp: round_ok_def)
    show "wp (case r of
       StepNotSubscription \<Rightarrow> run_pure (Inl (KeeperFault (Chain OrdinaryDealKept)))
     | StepTerminal tokens_final \<Rightarrow> run_pure (Inr tokens_final)
     | StepWait delay \<Rightarrow>
         run_then (keeper_call (\<lambda>w. ((), ke_sleep env delay w))) (\<lambda>_.
         run_then (keeper_note (Slept delay)) (\<lambda>_. drive_keeper env bounds n))
     | StepProgress \<Rightarrow> drive_keeper env bounds n) (\<lambda>r k'. good (kp_world k') \<and> is_stopped (ks_deal (seen (kp_world k')))
     \<and> r = Inr (dc_tokens_final (ks_deal (seen (kp_world k'))))) k'"
      using r(2)
    proof (elim disjE conjE exE)
      fix d assume d: "r = StepWait d" "plan (seen w') bounds (now w') = Inr (Wait d)" "w' = w" "kp_last_accepted k' = Some (seen w)"
      then have "good (ke_sleep env d w)" "left (ke_sleep env d w) < left w" "seen (ke_sleep env d w) = seen w"
        using waits [OF w(2)] by auto
      then show ?thesis
        using r(1) d Suc.prems(2)
        by (auto simp: wp_simps ready_def non_regressing_refl intro!: Suc.IH [of _ "ke_sleep env d w"])
    qed (use r(1) Suc in \<open>auto simp: wp_pure ready_def\<close>)
  qed
qed simp

end

end
