(* ===== verification/KeeperMock.thy ===== *)
theory KeeperMock
  imports AdvanceMock KeeperProps
begin

text \<open>
  The subscription keeper on the mock chain.  First the two writes of the keeper on one deal:
  what they do, and when.  Then the plan of the keeper as an equation over the deal, and
  the mock chain as a chain that keeps its word.
\<close>

section \<open>The weekly settlement of a deal\<close>

lemma close_final_week_ok:
  assumes run: "running c now cell sub" and mach: "machine_inv cell" and nd: "\<not> sc_disputed cell" and sub: "is_subscription sub"
    and ok: "consts_ok c" and rng: "in_range c now cell sub" and over: "ds_week_index sub = ds_sub_weeks sub"
    and t: "sc_last_claim_time cell + claim_promote_window c \<le> t"
  defines "p \<equiv> sc_price cell" and "n \<equiv> ds_funded_tokens sub"
  defines "rebate \<equiv> min (rebate_of c p (max (sc_tokens_pending cell div TICK_SIZE) 1)) (fee_on c (pay_for p n))"
  shows "\<exists>cell'. close_final_week cell sub t c = Inr (cell', sub) \<and> sc_closed cell'
     \<and> sc_tokens_final cell' = sc_tokens_pending cell
     \<and> sc_seller_received cell' = pay_for p n + rebate + 2 * p
     \<and> sc_buyer_refunded cell' = sc_buyer_bond cell \<and> sc_burned cell' = fee_on c (pay_for p n) - rebate"
proof -
  obtain m where p1: "promote_due cell t c = Inr (cell\<lparr>sc_tokens_final := sc_tokens_pending cell\<rparr>)"
    "mirror_promotion (cell\<lparr>sc_tokens_final := sc_tokens_pending cell\<rparr>) = Inr (cell\<lparr>sc_tokens_final := sc_tokens_pending cell, sc_machine := m\<rparr>)"
    "sm_price m = sc_price cell" "running c now (cell\<lparr>sc_tokens_final := sc_tokens_pending cell, sc_machine := m\<rparr>) sub"
    "in_range c now (cell\<lparr>sc_tokens_final := sc_tokens_pending cell, sc_machine := m\<rparr>) sub"
    by (rule due_promotion [OF run mach nd rng t])
  define cell2 where "cell2 = cell\<lparr>sc_tokens_final := sc_tokens_pending cell, sc_machine := m\<rparr>"
  have run2: "running c now cell2 sub" and rng2: "in_range c now cell2 sub" using p1 by (simp_all add: cell2_def)
  have shape: "shape_inv sub" using run by (simp add: running_def terms_inv_def)
  then have paid: "ds_tokens_paid sub = n"
    using running_books(1) [OF run] over sub
    by (auto simp: paid_target_def n_def shape_inv_def SUBSCRIPTION_WEEKS_def mult.commute)
  have le: "sc_tokens_pending cell \<le> n" using running_widths(6) [OF run rng] by (simp add: n_def)
  define d where "d = max (sc_tokens_pending cell div TICK_SIZE) 1"
  have ft: "mock_finalized_ticks (sc_tokens_pending cell) = Inr (sc_tokens_pending cell div TICK_SIZE)"
    using finalized_ticks_ok [of c cell sub] run le by (simp add: running_def n_def)
  then have d: "delivered_ticks cell2 = Inr d" "d \<le> u64_max"
    using run2 by (auto simp: delivered_ticks_def running_def cell2_def d_def mock_finalized_ticks_def try_from_def u64_max_def split: if_splits)
  have same: "sc_price cell2 = p" using p1(3) by (simp add: cell2_def p_def)
  obtain cell' refund where c': "close_mock_clean cell2 d c = Inr (cell', refund)"
     "refund + cost_of c p n = cost_of c p n + sc_buyer_bond cell2"
     "sc_seller_received cell' = pay_for p n + rebate + 2 * p"
     "sc_buyer_refunded cell' = refund" "sc_burned cell' = fee_on c (pay_for p n) - rebate"
    using close_paid_ok [OF run2 ok rng2 _ running_books(3) [OF run2] _ _ _ _ _ _ d(2)] run2 running_books(5,6) [OF run2] paid same
    by (auto simp: n_def running_def rebate_def d_def)
  have "close_final_week cell sub t c = Inr (cell', sub)"
    using p1(1,2) d(1) c'(1) le paid by (simp add: close_final_week_def flip: cell2_def) (simp add: cell2_def)
  then show ?thesis
    using c' close_mock_clean_frame(1) [OF c'(1)] close_mock_clean_money(3) [OF c'(1)] by (simp add: cell2_def)
qed

text \<open>What the two writes may do to a deal: nothing goes back, the claim and the terms stay.\<close>

definition advances :: "stream_cell \<times> deal_subscription \<Rightarrow> stream_cell \<times> deal_subscription \<Rightarrow> bool" where
  "advances x y \<longleftrightarrow> same_terms x y \<and> (case (x, y) of ((cell, sub), (cell', sub')) \<Rightarrow>
     sc_tokens_pending cell' = sc_tokens_pending cell \<and> sc_last_claim_time cell' = sc_last_claim_time cell
     \<and> sc_probe_accepted cell' = sc_probe_accepted cell \<and> sc_disputed cell' = sc_disputed cell
     \<and> ds_period_start sub' = ds_period_start sub \<and> sc_tokens_final cell \<le> sc_tokens_final cell'
     \<and> ds_week_index sub \<le> ds_week_index sub' \<and> ds_tokens_paid sub \<le> ds_tokens_paid sub'
     \<and> ds_week_base_tokens sub \<le> ds_week_base_tokens sub')"

lemma advances_trans: "advances x y \<Longrightarrow> advances y z \<Longrightarrow> advances x z"
  by (cases x; cases y; cases z) (auto simp: advances_def same_terms_def)

lemma charged_advances:
  assumes run: "running c now cell sub" and sub: "is_subscription sub"
  shows "advances (cell, sub) (charged c w cell sub)"
proof -
  have "shape_inv sub" "weekly_room cell sub" "ds_tokens_paid sub = paid_target sub"
    using run running_books [OF run] by (simp_all add: running_def terms_inv_def)
  then show ?thesis
    using paid_target_mono [of sub w] sub charged_same_terms [of cell sub c w]
    by (auto simp: advances_def charged_def weekly_room_def)
qed

lemma charged_fixed:
  "sc_price (fst (charged c w cell sub)) = sc_price cell" "sc_tokens_pending (fst (charged c w cell sub)) = sc_tokens_pending cell"
  "sc_tokens_final (fst (charged c w cell sub)) = sc_tokens_final cell" "sc_machine (fst (charged c w cell sub)) = sc_machine cell"
  "sc_closed (fst (charged c w cell sub)) = sc_closed cell" "sc_disputed (fst (charged c w cell sub)) = sc_disputed cell"
  "sc_probe_accepted (fst (charged c w cell sub)) = sc_probe_accepted cell" "sc_buyer_bond (fst (charged c w cell sub)) = sc_buyer_bond cell"
  "sc_last_claim_time (fst (charged c w cell sub)) = sc_last_claim_time cell"
  "ds_week_index (snd (charged c w cell sub)) = max (ds_week_index sub) w" "ds_sub_weeks (snd (charged c w cell sub)) = ds_sub_weeks sub"
  "ds_funded_tokens (snd (charged c w cell sub)) = ds_funded_tokens sub" "is_subscription (snd (charged c w cell sub)) = is_subscription sub"
  by (auto simp: charged_def is_subscription_def)

text \<open>The money of a subscription that ran its term: every week paid, both bonds back.\<close>

definition term_settled :: "protocol_consts \<Rightarrow> nat \<Rightarrow> nat \<Rightarrow> nat \<Rightarrow> stream_cell \<Rightarrow> bool" where
  "term_settled c p n k cell \<longleftrightarrow>
     (let fee = fee_on c (pay_for p n); rebate = min (rebate_of c p (max (k div TICK_SIZE) 1)) fee in
      sc_tokens_final cell = k \<and> sc_seller_received cell = pay_for p n + rebate + 2 * p
      \<and> sc_buyer_refunded cell = 2 * p \<and> sc_burned cell = fee - rebate)"

lemma settle_week_ok:
  assumes run: "running c now cell sub" and mach: "machine_inv cell" and nd: "\<not> sc_disputed cell" and sub: "is_subscription sub"
    and ok: "consts_ok c" and rng: "in_range c now cell sub" and t: "now \<le> t"
  defines "w \<equiv> weeks_at sub t False" and "due \<equiv> sc_last_claim_time cell + claim_promote_window c \<le> t"
  assumes ahead: "ds_week_index sub < w \<or> ds_week_index sub = ds_sub_weeks sub"
  shows "\<exists>cell' sub'. settle_week_deal cell sub t c = Inr (cell', sub') \<and> advances (cell, sub) (cell', sub')
     \<and> ds_week_index sub' = max (ds_week_index sub) w
     \<and> (if ds_week_index sub' = ds_sub_weeks sub \<and> due
        then sc_closed cell' \<and> ds_tokens_paid sub' = ds_funded_tokens sub
          \<and> term_settled c (sc_price cell) (ds_funded_tokens sub) (sc_tokens_pending cell) cell'
        else \<not> sc_closed cell' \<and> sc_tokens_final cell' = sc_tokens_final cell)"
proof -
  have typed: "consts_typed c" using ok by (simp add: consts_ok_def)
  have op: "\<not> sc_closed cell" "sc_probe_accepted cell" using run by (simp_all add: running_def)
  have shape: "shape_inv sub" "ds_period_start sub \<le> t" using run t running_widths(7) [OF run rng] by (simp_all add: running_def terms_inv_def)
  have w: "w \<le> ds_sub_weeks sub" by (simp add: w_def weeks_at_le)
  define cell1 sub1 where "cell1 = fst (charged c w cell sub)" and "sub1 = snd (charged c w cell sub)"
  have ch: "charge_elapsed_subscription_weeks cell sub t c = Inr (cell1, sub1, ds_week_index sub < w)"
    using op nd sub subscription_weeks_at_eq [OF shape] charge_through_eq [OF run typed sub w]
    by (simp add: charge_elapsed_subscription_weeks_def w_def cell1_def sub1_def)
  note fixed = charged_fixed [of c w cell sub, folded cell1_def sub1_def]
  have run1: "running c now cell1 sub1" using charged_running [OF run sub w] by (simp add: cell1_def sub1_def)
  have adv: "advances (cell, sub) (cell1, sub1)" using charged_advances [OF run sub, of w] by (simp add: cell1_def sub1_def)
  have rng1: "in_range c now cell1 sub1" using rng fixed by (auto simp: in_range_def deal_funding_def)
  have mach1: "machine_inv cell1" using mach fixed op nd by (simp add: machine_inv_def Let_def)
  have idx: "ds_week_index sub \<le> ds_sub_weeks sub" using shape(1) by (simp add: shape_inv_def)
  have late: "claim_deadline_reached (sc_last_claim_time cell1) (claim_promote_window c) t = Inr due"
    using running_widths(4) [OF run rng] fixed by (simp add: claim_deadline_ok due_def)
  have eq: "settle_week_deal cell sub t c =
      (if ds_week_index sub1 = ds_sub_weeks sub \<and> due then close_final_week cell1 sub1 t c else Inr (cell1, sub1))"
    using sub ch ahead late fixed idx w by (auto simp: settle_week_deal_def)
  show ?thesis
  proof (cases "ds_week_index sub1 = ds_sub_weeks sub \<and> due")
    case True
    then obtain cell' where c': "close_final_week cell1 sub1 t c = Inr (cell', sub1)" "sc_closed cell'"
        "term_settled c (sc_price cell) (ds_funded_tokens sub) (sc_tokens_pending cell) cell'"
      using close_final_week_ok [OF run1 mach1 _ _ ok rng1, of t] nd sub fixed running_books(7) [OF run1]
      by (auto simp: due_def term_settled_def Let_def)
    have "closes (cell1, sub1) (cell', sub1)"
      using close_final_week_closes [OF run1 typed _ mach1 c'(1)] nd fixed by simp
    moreover have "sc_tokens_final cell' = sc_tokens_pending cell1" using c'(3) fixed by (simp add: term_settled_def Let_def)
    ultimately have "advances (cell1, sub1) (cell', sub1)" using nd fixed by (auto simp: closes_def evolves_def advances_def)
    moreover have "ds_tokens_paid sub1 = ds_funded_tokens sub"
      using running_books(1) [OF run1] True run1 fixed sub
      by (auto simp: paid_target_def running_def terms_inv_def shape_inv_def SUBSCRIPTION_WEEKS_def mult.commute)
    ultimately show ?thesis using eq c' True fixed(10) advances_trans [OF adv] by auto
  next
    case False
    then show ?thesis using eq adv fixed op by auto
  qed
qed

lemma finalize_subscription:
  assumes run: "running c now cell sub" and mach: "machine_inv cell" and nd: "\<not> sc_disputed cell" and sub: "is_subscription sub"
    and rng: "in_range c now cell sub" and p: "sc_tokens_final cell < sc_tokens_pending cell"
    and t: "sc_last_claim_time cell + claim_promote_window c \<le> t"
  shows "\<exists>cell'. finalize_deal cell sub t c = Inr (cell', sub) \<and> advances (cell, sub) (cell', sub)
     \<and> \<not> sc_closed cell' \<and> sc_tokens_final cell' = sc_tokens_pending cell"
proof -
  have op: "\<not> sc_closed cell" "sc_probe_accepted cell" using run by (simp_all add: running_def)
  have due: "has_due_claim cell t c = Inr True"
    using p t running_widths(4) [OF run rng] by (simp add: has_due_claim_def claim_deadline_ok)
  obtain m where "promote_due cell t c = Inr (cell\<lparr>sc_tokens_final := sc_tokens_pending cell\<rparr>)"
    "mirror_promotion (cell\<lparr>sc_tokens_final := sc_tokens_pending cell\<rparr>) = Inr (cell\<lparr>sc_tokens_final := sc_tokens_pending cell, sc_machine := m\<rparr>)"
    "sm_price m = sc_price cell"
    by (rule due_promotion [OF run mach nd rng t])
  then show ?thesis
    using op nd due sub p by (auto simp: finalize_deal_def advances_def same_terms_def)
qed


section \<open>The plan over a deal\<close>

definition seen_deal :: "nat \<Rightarrow> stream_cell \<Rightarrow> deal_subscription \<Rightarrow> keeper_snapshot" where
  "seen_deal t cell sub = \<lparr>ks_deal = cell_state t cell, ks_subscription = sub\<rparr>"

lemma seen_simps [simp]:
  "dc_tokens_final (ks_deal (seen_deal t cell sub)) = sc_tokens_final cell"
  "dc_tokens_pending (ks_deal (seen_deal t cell sub)) = sc_tokens_pending cell"
  "dc_last_claim_time (ks_deal (seen_deal t cell sub)) = sc_last_claim_time cell"
  "dc_probe_accepted (ks_deal (seen_deal t cell sub)) = sc_probe_accepted cell"
  "dc_disputed (ks_deal (seen_deal t cell sub)) = sc_disputed cell"
  "dc_opened (ks_deal (seen_deal t cell sub)) = (\<not> sc_closed cell)"
  "dc_funded (ks_deal (seen_deal t cell sub))" "ks_subscription (seen_deal t cell sub) = sub"
  by (simp_all add: seen_deal_def cell_state_def)

lemma seen_stopped:
  assumes "deal_inv c now cell sub"
  shows "is_stopped (ks_deal (seen_deal t cell sub)) \<longleftrightarrow> sc_closed cell"
  using assms by (auto simp: is_stopped_def seen_deal_def cell_state_def deal_inv_def cell_empty_def)

lemma advances_seen:
  assumes "advances (cell, sub) (cell', sub')"
  shows "ensure_non_regressing_transition (seen_deal t cell sub) (seen_deal t' cell' sub') = Inr ()"
  using assms by (simp add: advances_def same_terms_def ensure_non_regressing_transition_def Let_def)

lemma paid_at_least_probe:
  assumes "shape_inv sub" and "is_subscription sub"
  shows "TICK_SIZE \<le> paid_target sub"
proof (cases "ds_week_index sub")
  case (Suc n)
  have "TICK_SIZE \<le> ds_tokens_per_week sub" using assms by (simp add: shape_inv_def)
  then show ?thesis using Suc by (simp add: paid_target_def)
qed (simp add: paid_target_def)

lemma seen_valid:
  assumes inv: "deal_inv c now cell sub" and sub: "is_subscription sub" and ps: "0 < ds_period_start sub"
  shows "validate_snapshot (seen_deal t cell sub) = Inr ()"
proof -
  have shape: "shape_inv sub" and pipe: "pipe_inv cell sub" and times: "times_inv now cell sub"
    using inv by (simp_all add: deal_inv_def terms_inv_def)
  have books: "books_inv c cell sub" if "\<not> sc_closed cell" using inv that by (simp add: deal_inv_def)
  then have "ds_week_base_tokens sub \<le> sc_tokens_pending cell" if "\<not> sc_closed cell"
    using that by (auto simp: books_inv_def weekly_room_def split: if_splits)
  moreover have "TICK_SIZE \<le> sc_tokens_final cell \<and> TICK_SIZE \<le> ds_tokens_paid sub" if "\<not> sc_closed cell" "sc_probe_accepted cell"
    using that books pipe paid_at_least_probe [OF shape sub] by (simp add: books_inv_def pipe_inv_def)
  ultimately show ?thesis
    using seen_stopped [OF inv, of t] shape pipe times ps sub
    by (auto simp: validate_snapshot_def Let_def shape_inv_def pipe_inv_def times_inv_def malformed_def not_less)
qed

definition keeper_end :: "nat \<Rightarrow> stream_cell \<Rightarrow> deal_subscription \<Rightarrow> nat" where
  "keeper_end win cell sub = max (ds_period_start sub + ds_sub_weeks sub * SUB_WEEK_LEN) (sc_last_claim_time cell + win)"

lemma boundary_ok:
  assumes shape: "shape_inv sub" and idx: "ds_week_index sub < ds_sub_weeks sub" and fits: "keeper_end win cell sub \<le> u64_max"
  defines "boundary \<equiv> ds_period_start sub + (ds_week_index sub + 1) * SUB_WEEK_LEN"
  shows "next_week_boundary sub = Inr boundary" "boundary \<le> keeper_end win cell sub"
    and "boundary \<le> now \<Longrightarrow> scheduled_week_target sub now = Inr (weeks_at sub now False) \<and> ds_week_index sub < weeks_at sub now False"
proof -
  have "(ds_week_index sub + 1) * SUB_WEEK_LEN \<le> ds_sub_weeks sub * SUB_WEEK_LEN" using idx by (intro mult_le_mono1) simp
  then show le: "boundary \<le> keeper_end win cell sub" by (simp add: boundary_def keeper_end_def)
  have w4: "ds_sub_weeks sub = 4" using sub_weeks_4 [OF shape] idx by auto
  then show "next_week_boundary sub = Inr boundary"
    using le fits idx by (simp add: next_week_boundary_def checked_add_def checked_mul_def boundary_def u64_max_def mult.commute)
  assume now: "boundary \<le> now"
  have pos: "0 < SUB_WEEK_LEN" by (simp add: SUB_WEEK_LEN_def)
  have "ds_week_index sub + 1 \<le> (now - ds_period_start sub) div SUB_WEEK_LEN"
    using now by (simp add: less_eq_div_iff_mult_less_eq [OF pos] boundary_def)
  then show "scheduled_week_target sub now = Inr (weeks_at sub now False) \<and> ds_week_index sub < weeks_at sub now False"
    using now idx w4
    by (auto simp: scheduled_week_target_def weeks_at_def checked_sub_def boundary_def try_from_def u8_max_def min_def)
qed

text \<open>The four cases of the plan of an open, accepted, undisputed subscription.\<close>

lemma plan_of_deal:
  assumes inv: "deal_inv c now cell sub" and sub: "is_subscription sub" and ps: "0 < ds_period_start sub"
    and op: "\<not> sc_closed cell" "sc_probe_accepted cell" "\<not> sc_disputed cell"
    and b: "0 < cb_min_claim_interval b" "0 < cb_promote_window b" and fits: "keeper_end (cb_promote_window b) cell sub \<le> u64_max"
  defines "due \<equiv> sc_last_claim_time cell + cb_promote_window b"
    and "boundary \<equiv> ds_period_start sub + (ds_week_index sub + 1) * SUB_WEEK_LEN"
  shows "plan (seen_deal t cell sub) b now = Inr (
     if sc_tokens_final cell < sc_tokens_pending cell \<and> due \<le> now then Finalize
     else if ds_week_index sub < ds_sub_weeks sub \<and> boundary \<le> now then SettleWeek (weeks_at sub now False)
     else if ds_week_index sub = ds_sub_weeks sub \<and> due \<le> now then SettleWeek (ds_sub_weeks sub)
     else Wait (earliest (cb_min_claim_interval b) now
       [if sc_tokens_final cell < sc_tokens_pending cell then Some due else None,
        if ds_week_index sub < ds_sub_weeks sub then Some boundary else None,
        if ds_week_index sub = ds_sub_weeks sub then Some due else None]))"
proof -
  have shape: "shape_inv sub" using inv by (simp add: deal_inv_def terms_inv_def)
  then have idx: "ds_week_index sub \<le> ds_sub_weeks sub" by (simp add: shape_inv_def)
  have dl: "checked_deadline (sc_last_claim_time cell) (cb_promote_window b) = Inr due"
    using fits by (simp add: checked_deadline_def checked_add_def keeper_end_def due_def)
  have lvl: "sc_tokens_final cell \<le> sc_tokens_pending cell" using inv by (simp add: deal_inv_def pipe_inv_def)
  have open_plan: "plan (seen_deal t cell sub) b now =
     and_then (when_due (sc_tokens_pending cell > sc_tokens_final cell) (Inr due)) (\<lambda>last_deadline.
     if reached last_deadline now then Inr Finalize
     else
       and_then (when_due (ds_week_index sub < ds_sub_weeks sub) (next_week_boundary sub)) (\<lambda>next_boundary.
       if reached next_boundary now then and_then (scheduled_week_target sub now) (\<lambda>target. Inr (SettleWeek target))
       else
         and_then (when_due (ds_week_index sub = ds_sub_weeks sub) (Inr due)) (\<lambda>final_close_deadline.
         if reached final_close_deadline now \<and> sc_tokens_final cell = sc_tokens_pending cell
         then Inr (SettleWeek (ds_sub_weeks sub))
         else Inr (Wait (earliest (cb_min_claim_interval b) now [last_deadline, next_boundary, final_close_deadline])))))"
    using seen_valid [OF inv sub ps, of t] seen_stopped [OF inv, of t] sub op b dl by (simp add: plan_def Let_def cong: if_cong)
  show ?thesis
  proof (cases "ds_week_index sub < ds_sub_weeks sub")
    case True
    then show ?thesis
      using boundary_ok [OF shape True fits, folded boundary_def] by (simp add: open_plan when_due_def reached_def)
  next
    case False
    then show ?thesis using idx lvl by (auto simp: open_plan when_due_def reached_def)
  qed
qed

lemma earliest_le: "Some x \<in> set ds \<Longrightarrow> now < x \<Longrightarrow> now + earliest idle now ds \<le> x"
proof -
  let ?f = "\<lambda>delay deadline. case deadline of Some d \<Rightarrow> if d > now then min delay (d - now) else delay | None \<Rightarrow> delay"
  have mono: "foldl ?f idle ds \<le> idle" for idle ds
  proof (induction ds arbitrary: idle)
    case (Cons d ds)
    show ?case using Cons.IH [of "?f idle d"] by (auto split: option.splits if_splits)
  qed simp
  have "Some x \<in> set ds \<Longrightarrow> now < x \<Longrightarrow> foldl ?f idle ds \<le> x - now"
  proof (induction ds arbitrary: idle)
    case (Cons d ds)
    then show ?case using mono [of "?f idle d" ds] by (auto split: option.splits if_splits)
  qed simp
  then show "Some x \<in> set ds \<Longrightarrow> now < x \<Longrightarrow> now + earliest idle now ds \<le> x" by (fastforce simp: earliest_def)
qed


section \<open>The mock chain keeps its word\<close>

definition keeper_answer :: "('a, advance_error) result \<Rightarrow> ('a, keeper_error) result" where
  "keeper_answer r = map_err (map_chain_error (\<lambda>_. KeeperChain [])) r"

definition mock_keeper_env :: "protocol_consts \<Rightarrow> token_contract \<Rightarrow> mock_world keeper_env" where
  "mock_keeper_env c tc =
     \<lparr>ke_deal_snapshot = (\<lambda>w. (keeper_answer (chain_answer (deal_snapshot tc c (mw_state w))), w)),
      ke_finalize = (\<lambda>w. apfst keeper_answer (stored_step (finalize tc (unix_now w) c) w)),
      ke_settle_week = (\<lambda>w. apfst keeper_answer (stored_step (settle_week tc (unix_now w) c) w)),
      ke_observe = (\<lambda>s w. (Inr (), w)),
      ke_now_unix = (\<lambda>w. (Inr (unix_now w), w)),
      ke_sleep = (\<lambda>d w. w\<lparr>mw_clock := mw_clock w + d * SECOND\<rparr>)\<rparr>"

definition mock_snap :: "protocol_consts \<Rightarrow> token_contract \<Rightarrow> mock_world \<Rightarrow> deal_chain_snapshot" where
  "mock_snap c tc w = the (projr (deal_snapshot tc c (mw_state w)))"

text \<open>A subscription the keeper can bring to its end by time \<open>e\<close>.\<close>

definition keepable :: "protocol_consts \<Rightarrow> stream_cell \<Rightarrow> deal_subscription \<Rightarrow> nat \<Rightarrow> bool" where
  "keepable c cell sub e \<longleftrightarrow>
     is_subscription sub \<and> 0 < ds_period_start sub \<and> sc_probe_accepted cell \<and> \<not> sc_disputed cell
     \<and> deal_funding c cell sub \<le> u128_max \<and> keeper_end (claim_promote_window c) cell sub \<le> e
     \<and> e + claim_promote_window c \<le> u64_max"

text \<open>The world in which the deal has come from \<open>(cell0, sub0)\<close>, and was settled in full if it has closed.\<close>

definition mock_row :: "token_contract \<Rightarrow> mock_world \<Rightarrow> stream_cell \<Rightarrow> deal_subscription \<Rightarrow> bool" where
  "mock_row tc w cell sub \<longleftrightarrow>
     hm_get (ms_streams (mw_state w)) tc = Some cell \<and> hm_get (ms_deal_subscriptions (mw_state w)) tc = Some sub"

definition mock_kept ::
    "protocol_consts \<Rightarrow> token_contract \<Rightarrow> stream_cell \<Rightarrow> deal_subscription \<Rightarrow> nat \<Rightarrow> mock_world \<Rightarrow> bool" where
  "mock_kept c tc cell0 sub0 e w \<longleftrightarrow>
     keepable c cell0 sub0 e \<and> state_inv c (unix_now w) (mw_state w) \<and> unix_now w \<le> e
     \<and> (\<exists>cell sub. mock_row tc w cell sub \<and> advances (cell0, sub0) (cell, sub)
          \<and> (sc_closed cell \<longrightarrow> ds_tokens_paid sub = ds_funded_tokens sub0
               \<and> term_settled c (sc_price cell0) (ds_funded_tokens sub0) (sc_tokens_pending cell0) cell))"

definition mock_left :: "protocol_consts \<Rightarrow> token_contract \<Rightarrow> mock_world \<Rightarrow> nat" where
  "mock_left c tc w =
     (let cell = mock_cell tc w; sub = the (hm_get (ms_deal_subscriptions (mw_state w)) tc) in
      (keeper_end (claim_promote_window c) cell sub - unix_now w) + (ds_sub_weeks sub - ds_week_index sub)
      + (if sc_tokens_final cell < sc_tokens_pending cell then 1 else 0))"

lemma advances_end: "advances (cell0, sub0) (cell, sub) \<Longrightarrow> keeper_end win cell sub = keeper_end win cell0 sub0"
  by (simp add: advances_def same_terms_def keeper_end_def)

lemma mock_keptE:
  assumes "mock_kept c tc cell0 sub0 e w"
  obtains cell sub t where "mock_row tc w cell sub" "advances (cell0, sub0) (cell, sub)" "deal_inv c (unix_now w) cell sub"
    "is_subscription sub" "0 < ds_period_start sub" "sc_probe_accepted cell" "\<not> sc_disputed cell" "in_range c (unix_now w) cell sub"
    "keeper_end (claim_promote_window c) cell sub \<le> e" "deal_snapshot tc c (mw_state w) = Inr (Some (mock_snap c tc w))"
    "keeper_snapshot_of (mock_snap c tc w) = seen_deal t cell sub"
proof -
  obtain cell sub where k: "keepable c cell0 sub0 e" "state_inv c (unix_now w) (mw_state w)" "unix_now w \<le> e"
      "mock_row tc w cell sub" "advances (cell0, sub0) (cell, sub)"
    using assms by (auto simp: mock_kept_def)
  obtain m where m: "hm_get (ms_matches (mw_state w)) tc = Some m"
    using stream_of_match [OF k(2)] k(4) by (auto simp: mock_row_def)
  obtain t where sn: "deal_snapshot tc c (mw_state w) = Inr (Some (snapshot_of_deal tc (cell_state t cell) sub
       (2 * mt_price_per_tick m) (sc_seller_locked cell) (sc_buyer_bond cell)))" and inv: "deal_inv c (unix_now w) cell sub"
    by (rule stream_snapshot [OF k(2) m]) (use k(4) in \<open>auto simp: mock_row_def\<close>)
  have snap: "keeper_snapshot_of (mock_snap c tc w) = seen_deal t cell sub"
    by (simp add: mock_snap_def sn keeper_snapshot_of_def snapshot_of_deal_def seen_deal_def)
  have "deal_funding c cell sub = deal_funding c cell0 sub0"
    using k(5) same_terms_funding by (simp add: advances_def)
  then have "in_range c (unix_now w) cell sub" using k(1,3) by (simp add: keepable_def in_range_def)
  then show ?thesis
    using that [OF k(4,5) inv] snap k(1,5) sn advances_end [OF k(5)]
    by (auto simp: advances_def same_terms_def keepable_def is_subscription_def mock_snap_def)
qed

definition mock_seen :: "protocol_consts \<Rightarrow> token_contract \<Rightarrow> mock_world \<Rightarrow> keeper_snapshot" where
  "mock_seen c tc w = keeper_snapshot_of (mock_snap c tc w)"

lemma mock_seen_row:
  assumes "mock_kept c tc cell0 sub0 e w" and "mock_row tc w cell sub"
  shows "\<exists>t. mock_seen c tc w = seen_deal t cell sub"
proof -
  obtain cell' sub' t where "mock_row tc w cell' sub'" "keeper_snapshot_of (mock_snap c tc w) = seen_deal t cell' sub'"
    by (rule mock_keptE [OF assms(1)])
  moreover from this(1) assms(2) have "cell' = cell" "sub' = sub" by (simp_all add: mock_row_def)
  ultimately show ?thesis by (auto simp: mock_seen_def)
qed

text \<open>The effect of a write on the world.\<close>

lemma mock_write:
  assumes k: "mock_kept c tc cell0 sub0 e w" and row: "mock_row tc w cell sub" and adv: "advances (cell, sub) (cell', sub')"
    and step: "state_step c h (unix_now w) (mw_state w) (unix_now w) (put_deal tc cell' sub' (mw_state w))" and typed: "consts_typed c"
    and close: "sc_closed cell' \<Longrightarrow> ds_tokens_paid sub' = ds_funded_tokens sub0
               \<and> term_settled c (sc_price cell0) (ds_funded_tokens sub0) (sc_tokens_pending cell0) cell'"
  defines "w' \<equiv> w\<lparr>mw_state := put_deal tc cell' sub' (mw_state w)\<rparr>"
  shows "mock_kept c tc cell0 sub0 e w'" "mock_row tc w' cell' sub'"
    "ensure_non_regressing_transition (mock_seen c tc w) (mock_seen c tc w') = Inr ()"
proof -
  show row': "mock_row tc w' cell' sub'" by (simp add: mock_row_def w'_def put_deal_def hm_simps)
  have t: "unix_now w' = unix_now w" by (simp add: w'_def unix_now_def)
  have inv: "keepable c cell0 sub0 e" "state_inv c (unix_now w) (mw_state w)" "unix_now w \<le> e" using k by (simp_all add: mock_kept_def)
  have "advances (cell0, sub0) (cell, sub)"
    using k row by (auto simp: mock_kept_def mock_row_def)
  then have "advances (cell0, sub0) (cell', sub')" using adv advances_trans by blast
  then show k': "mock_kept c tc cell0 sub0 e w'"
    using row' close inv t state_step_inv [OF step inv(2) typed] unfolding mock_kept_def by (auto simp: w'_def)
  obtain t1 t2 where "mock_seen c tc w = seen_deal t1 cell sub" "mock_seen c tc w' = seen_deal t2 cell' sub'"
    using mock_seen_row [OF k row] mock_seen_row [OF k' row'] by blast
  then show "ensure_non_regressing_transition (mock_seen c tc w) (mock_seen c tc w') = Inr ()"
    using advances_seen [OF adv] by simp
qed

lemma plan_closed:
  assumes "deal_inv c now cell sub" and "is_subscription sub" and "0 < ds_period_start sub" and "sc_closed cell"
  shows "plan (seen_deal t cell sub) b now = Inr Terminal"
  using assms seen_valid [OF assms(1-3), of t] seen_stopped [OF assms(1), of t] by (simp add: plan_def)

text \<open>The canonical bounds are those of the canonical constants.\<close>

lemma canonical_bounds:
  "cb_promote_window claim_bounds_canonical = claim_promote_window canonical_consts"
  "0 < cb_min_claim_interval claim_bounds_canonical" "0 < cb_promote_window claim_bounds_canonical"
  by (simp_all add: claim_bounds_canonical_def canonical_consts_def)

text \<open>Every plan of the keeper, with the deal it was made for.\<close>

lemma mock_plan:
  assumes k: "mock_kept canonical_consts tc cell0 sub0 e w" and row: "mock_row tc w cell sub"
  defines "c \<equiv> canonical_consts" and "due \<equiv> sc_last_claim_time cell + claim_promote_window canonical_consts"
    and "boundary \<equiv> ds_period_start sub + (ds_week_index sub + 1) * SUB_WEEK_LEN"
  shows "plan (mock_seen c tc w) claim_bounds_canonical (unix_now w) = Inr (
     if sc_closed cell then Terminal
     else if sc_tokens_final cell < sc_tokens_pending cell \<and> due \<le> unix_now w then Finalize
     else if ds_week_index sub < ds_sub_weeks sub \<and> boundary \<le> unix_now w then SettleWeek (weeks_at sub (unix_now w) False)
     else if ds_week_index sub = ds_sub_weeks sub \<and> due \<le> unix_now w then SettleWeek (ds_sub_weeks sub)
     else Wait (earliest (min_claim_interval c) (unix_now w)
       [if sc_tokens_final cell < sc_tokens_pending cell then Some due else None,
        if ds_week_index sub < ds_sub_weeks sub then Some boundary else None,
        if ds_week_index sub = ds_sub_weeks sub then Some due else None]))"
proof -
  obtain cell' sub' t where row': "mock_row tc w cell' sub'" "deal_inv c (unix_now w) cell' sub'" "is_subscription sub'"
      "0 < ds_period_start sub'" "sc_probe_accepted cell'" "\<not> sc_disputed cell'" "in_range c (unix_now w) cell' sub'"
      "keeper_end (claim_promote_window c) cell' sub' \<le> e" "keeper_snapshot_of (mock_snap c tc w) = seen_deal t cell' sub'"
    unfolding c_def by (rule mock_keptE [OF k])
  have same: "cell' = cell" "sub' = sub" using row row'(1) by (auto simp: mock_row_def)
  note r = row'(2-) [unfolded same]
  have seen: "mock_seen c tc w = seen_deal t cell sub" using r(8) by (simp add: mock_seen_def)
  have end64: "keeper_end (cb_promote_window claim_bounds_canonical) cell sub \<le> u64_max"
    using r(7) k by (simp add: mock_kept_def keepable_def canonical_bounds c_def)
  have iv: "cb_min_claim_interval claim_bounds_canonical = min_claim_interval c" by (simp add: claim_bounds_canonical_def c_def)
  show ?thesis
  proof (cases "sc_closed cell")
    case True
    then show ?thesis using plan_closed [OF r(1-3) True] seen by simp
  next
    case False
    then show ?thesis
      unfolding seen using plan_of_deal [OF r(1-3) False r(4,5) canonical_bounds(2,3) end64, of t]
      unfolding canonical_bounds(1) iv c_def [symmetric] due_def [symmetric, folded c_def] boundary_def [symmetric] by simp
  qed
qed

lemma mock_kept_open:
  assumes k: "mock_kept c tc cell0 sub0 e w" and row: "mock_row tc w cell sub" and op: "\<not> sc_closed cell"
  shows "running c (unix_now w) cell sub" "machine_inv cell" "\<not> sc_disputed cell" "is_subscription sub" "in_range c (unix_now w) cell sub"
    "advances (cell0, sub0) (cell, sub)"
proof -
  obtain cell' sub' where row': "mock_row tc w cell' sub'" "advances (cell0, sub0) (cell', sub')" "deal_inv c (unix_now w) cell' sub'"
      "is_subscription sub'" "sc_probe_accepted cell'" "\<not> sc_disputed cell'" "in_range c (unix_now w) cell' sub'"
    by (rule mock_keptE [OF k])
  moreover have "cell' = cell" "sub' = sub" using row row'(1) by (auto simp: mock_row_def)
  ultimately show "running c (unix_now w) cell sub" "machine_inv cell" "\<not> sc_disputed cell" "is_subscription sub"
      "in_range c (unix_now w) cell sub" "advances (cell0, sub0) (cell, sub)"
    using op running_iff by auto
qed

lemma mock_left_row:
  "mock_row tc w cell sub \<Longrightarrow> mock_left c tc w = (keeper_end (claim_promote_window c) cell sub - unix_now w)
     + (ds_sub_weeks sub - ds_week_index sub) + (if sc_tokens_final cell < sc_tokens_pending cell then 1 else 0)"
  by (simp add: mock_left_def mock_row_def mock_cell_def)

lemma mock_row_ex: "mock_kept c tc cell0 sub0 e w \<Longrightarrow> \<exists>cell sub. mock_row tc w cell sub"
  by (auto simp: mock_kept_def)

lemma keeper_answer_Inr [simp]: "keeper_answer (Inr x) = Inr x"
  by (simp add: keeper_answer_def map_err_def)

lemma mock_finalizes:
  assumes k: "mock_kept canonical_consts tc cell0 sub0 e w"
    and p: "plan (mock_seen canonical_consts tc w) claim_bounds_canonical (unix_now w) = Inr Finalize"
  shows "\<exists>w'. ke_finalize (mock_keeper_env canonical_consts tc) w = (Inr (), w') \<and> mock_kept canonical_consts tc cell0 sub0 e w'
     \<and> mock_left canonical_consts tc w' < mock_left canonical_consts tc w
     \<and> ensure_non_regressing_transition (mock_seen canonical_consts tc w) (mock_seen canonical_consts tc w') = Inr ()
     \<and> dc_tokens_final (ks_deal (mock_seen canonical_consts tc w)) < dc_tokens_final (ks_deal (mock_seen canonical_consts tc w'))
     \<and> \<not> dc_disputed (ks_deal (mock_seen canonical_consts tc w'))"
proof -
  let ?c = canonical_consts and ?t = "unix_now w"
  obtain cell sub where row: "mock_row tc w cell sub" using mock_row_ex [OF k] by blast
  have c: "\<not> sc_closed cell" "sc_tokens_final cell < sc_tokens_pending cell" "sc_last_claim_time cell + claim_promote_window ?c \<le> ?t"
    using p mock_plan [OF k row] by (auto split: if_splits)
  note o = mock_kept_open [OF k row c(1)]
  obtain cell' where f: "finalize_deal cell sub ?t ?c = Inr (cell', sub)" "advances (cell, sub) (cell', sub)"
      "\<not> sc_closed cell'" "sc_tokens_final cell' = sc_tokens_pending cell"
    using finalize_subscription [OF o(1-5) c(2,3)] by blast
  define w' where "w' = w\<lparr>mw_state := put_deal tc cell' sub (mw_state w)\<rparr>"
  have op: "finalize tc ?t ?c (mw_state w) = Inr ((), Some (put_deal tc cell' sub (mw_state w)))"
    using row f(1) by (simp add: finalize_def update_deal_def deal_of_def mock_row_def)
  have k': "mock_kept ?c tc cell0 sub0 e w'" "mock_row tc w' cell' sub"
      "ensure_non_regressing_transition (mock_seen ?c tc w) (mock_seen ?c tc w') = Inr ()"
    unfolding w'_def using f(3) by (intro mock_write [OF k row f(2) state_step.promote [OF order_refl op] canonical_consts_typed]; simp)+
  have "unix_now w' = ?t" by (simp add: w'_def unix_now_def)
  then have "mock_left ?c tc w' < mock_left ?c tc w"
    using c(2) f(2,4) advances_end [OF f(2)] unfolding mock_left_row [OF row] mock_left_row [OF k'(2)] by (simp add: advances_def)
  moreover have "dc_tokens_final (ks_deal (mock_seen ?c tc w)) < dc_tokens_final (ks_deal (mock_seen ?c tc w'))"
      "\<not> dc_disputed (ks_deal (mock_seen ?c tc w'))"
    using mock_seen_row [OF k row] mock_seen_row [OF k'(1,2)] c(2) f(2,4) o(3) by (auto simp: advances_def)
  ultimately show ?thesis
    using op k'(1,3) by (auto simp: mock_keeper_env_def stored_step_def w'_def)
qed

lemma mock_settles:
  assumes k: "mock_kept canonical_consts tc cell0 sub0 e w"
    and p: "plan (mock_seen canonical_consts tc w) claim_bounds_canonical (unix_now w) = Inr (SettleWeek t)"
  shows "\<exists>w'. ke_settle_week (mock_keeper_env canonical_consts tc) w = (Inr (), w') \<and> mock_kept canonical_consts tc cell0 sub0 e w'
     \<and> ensure_non_regressing_transition (mock_seen canonical_consts tc w) (mock_seen canonical_consts tc w') = Inr ()
     \<and> (is_stopped (ks_deal (mock_seen canonical_consts tc w'))
        \<or> mock_left canonical_consts tc w' < mock_left canonical_consts tc w
          \<and> write_applied (SettleWeek t) (mock_seen canonical_consts tc w) (mock_seen canonical_consts tc w')
          \<and> \<not> dc_disputed (ks_deal (mock_seen canonical_consts tc w')))"
proof -
  let ?c = canonical_consts and ?t = "unix_now w"
  obtain cell sub where row: "mock_row tc w cell sub" using mock_row_ex [OF k] by blast
  let ?due = "sc_last_claim_time cell + claim_promote_window ?c \<le> ?t" and ?w = "weeks_at sub ?t False"
  have c: "\<not> sc_closed cell" "ds_week_index sub < ds_sub_weeks sub \<and> ds_period_start sub + (ds_week_index sub + 1) * SUB_WEEK_LEN \<le> ?t \<and> t = ?w
      \<or> ds_week_index sub = ds_sub_weeks sub \<and> ?due \<and> t = ds_sub_weeks sub"
    using p mock_plan [OF k row] by (auto split: if_splits)
  note o = mock_kept_open [OF k row c(1)]
  have shape: "shape_inv sub" using o(1) by (simp add: running_def terms_inv_def)
  have fits: "keeper_end (claim_promote_window ?c) cell sub \<le> u64_max"
    using k advances_end [OF o(6)] by (simp add: mock_kept_def keepable_def)
  have ahead: "ds_week_index sub < ?w \<or> ds_week_index sub = ds_sub_weeks sub"
    using c(2) boundary_ok(3) [OF shape _ fits] by blast
  obtain cell' sub' where s: "settle_week_deal cell sub ?t ?c = Inr (cell', sub')" "advances (cell, sub) (cell', sub')"
      "ds_week_index sub' = max (ds_week_index sub) ?w"
    and closed: "if ds_week_index sub' = ds_sub_weeks sub \<and> ?due
        then sc_closed cell' \<and> ds_tokens_paid sub' = ds_funded_tokens sub
          \<and> term_settled ?c (sc_price cell) (ds_funded_tokens sub) (sc_tokens_pending cell) cell'
        else \<not> sc_closed cell' \<and> sc_tokens_final cell' = sc_tokens_final cell"
    using settle_week_ok [OF o(1-4) canonical_consts_ok o(5) order_refl ahead] by blast
  define w' where "w' = w\<lparr>mw_state := put_deal tc cell' sub' (mw_state w)\<rparr>"
  have op: "settle_week tc ?t ?c (mw_state w) = Inr ((), Some (put_deal tc cell' sub' (mw_state w)))"
    using row s(1) by (simp add: settle_week_def update_deal_def deal_of_def mock_row_def)
  have close: "ds_tokens_paid sub' = ds_funded_tokens sub0
               \<and> term_settled ?c (sc_price cell0) (ds_funded_tokens sub0) (sc_tokens_pending cell0) cell'" if "sc_closed cell'"
    using that closed o(6) by (auto simp: advances_def same_terms_def split: if_splits)
  have k': "mock_kept ?c tc cell0 sub0 e w'" "mock_row tc w' cell' sub'"
      "ensure_non_regressing_transition (mock_seen ?c tc w) (mock_seen ?c tc w') = Inr ()"
    unfolding w'_def using close by (intro mock_write [OF k row s(2) state_step.week [OF order_refl op] canonical_consts_typed]; simp)+
  have now: "unix_now w' = ?t" by (simp add: w'_def unix_now_def)
  obtain t1 t2 where seen: "mock_seen ?c tc w = seen_deal t1 cell sub" "mock_seen ?c tc w' = seen_deal t2 cell' sub'"
    using mock_seen_row [OF k row] mock_seen_row [OF k'(1,2)] by blast
  have stop: "is_stopped (ks_deal (mock_seen ?c tc w'))" if "sc_closed cell'"
  proof -
    obtain cell2 sub2 where r2: "mock_row tc w' cell2 sub2" "deal_inv ?c (unix_now w') cell2 sub2" by (rule mock_keptE [OF k'(1)])
    then have "deal_inv ?c (unix_now w') cell' sub'" using k'(2) by (auto simp: mock_row_def)
    then show ?thesis using seen_stopped that seen(2) by simp
  qed
  have go: "mock_left ?c tc w' < mock_left ?c tc w \<and> write_applied (SettleWeek t) (mock_seen ?c tc w) (mock_seen ?c tc w')
      \<and> \<not> dc_disputed (ks_deal (mock_seen ?c tc w'))" if "\<not> sc_closed cell'"
  proof -
    have w4: "?w \<le> ds_sub_weeks sub" by (rule weeks_at_le)
    have idx: "ds_week_index sub < ?w" "t = ?w" using that closed c(2) ahead s(3) w4 by (auto simp: max_def split: if_splits)
    then have "mock_left ?c tc w' < mock_left ?c tc w"
      using that closed s(2,3) w4 now advances_end [OF s(2)] unfolding mock_left_row [OF row] mock_left_row [OF k'(2)]
      by (auto simp: advances_def same_terms_def split: if_splits)
    then show ?thesis using idx s(2,3) w4 o(3) by (simp add: seen write_applied_def advances_def)
  qed
  show ?thesis
    using op k'(1,3) stop go by (auto simp: mock_keeper_env_def stored_step_def w'_def)
qed

lemma mock_waits:
  assumes k: "mock_kept canonical_consts tc cell0 sub0 e w"
    and p: "plan (mock_seen canonical_consts tc w) claim_bounds_canonical (unix_now w) = Inr (Wait d)"
  defines "w' \<equiv> ke_sleep (mock_keeper_env canonical_consts tc) d w"
  shows "mock_kept canonical_consts tc cell0 sub0 e w' \<and> mock_left canonical_consts tc w' < mock_left canonical_consts tc w
     \<and> mock_seen canonical_consts tc w' = mock_seen canonical_consts tc w"
proof -
  let ?c = canonical_consts and ?t = "unix_now w"
  obtain cell sub where row: "mock_row tc w cell sub" using mock_row_ex [OF k] by blast
  define due where "due = sc_last_claim_time cell + claim_promote_window ?c"
  define boundary where "boundary = ds_period_start sub + (ds_week_index sub + 1) * SUB_WEEK_LEN"
  note plan = mock_plan [OF k row, folded due_def boundary_def]
  have c: "\<not> sc_closed cell" using p plan by (auto split: if_splits)
  note o = mock_kept_open [OF k row c]
  have shape: "shape_inv sub" using o(1) by (simp add: running_def terms_inv_def)
  have fits: "keeper_end (claim_promote_window ?c) cell sub \<le> u64_max" "keeper_end (claim_promote_window ?c) cell sub \<le> e"
    using k advances_end [OF o(6)] by (simp_all add: mock_kept_def keepable_def)
  have "ds_week_index sub \<le> ds_sub_weeks sub" using shape by (simp add: shape_inv_def)
  then consider (inside) "ds_week_index sub < ds_sub_weeks sub" | (over) "ds_week_index sub = ds_sub_weeks sub" by linarith
  then have ends: "?t + d \<le> keeper_end (claim_promote_window ?c) cell sub"
  proof cases
    case inside
    have "?t < boundary" using p plan inside c by (auto split: if_splits)
    then have "?t + d \<le> boundary" using p plan inside c by (auto split: if_splits intro!: earliest_le)
    then show ?thesis using boundary_ok(2) [OF shape inside fits(1)] by (simp add: boundary_def)
  next
    case over
    have "?t < due" using p plan over c by (auto split: if_splits)
    then have "?t + d \<le> due" using p plan over c by (auto split: if_splits intro!: earliest_le)
    then show ?thesis by (simp add: due_def keeper_end_def)
  qed
  have d: "0 < d" using plan_wait [OF p] by simp
  have w': "w' = w\<lparr>mw_clock := mw_clock w + d * SECOND\<rparr>" by (simp add: w'_def mock_keeper_env_def)
  have now: "unix_now w' = ?t + d" by (simp add: w' unix_now_def SECOND_def)
  have row': "mock_row tc w' cell sub" using row by (simp add: mock_row_def w')
  have "mock_kept ?c tc cell0 sub0 e w'"
    using k ends fits(2) unfolding mock_kept_def now by (auto simp: w' mock_row_def intro: state_inv_later)
  moreover have "mock_left ?c tc w' < mock_left ?c tc w"
    unfolding mock_left_row [OF row] mock_left_row [OF row'] now using ends d by simp
  moreover have "mock_seen ?c tc w' = mock_seen ?c tc w" by (simp add: mock_seen_def mock_snap_def w')
  ultimately show ?thesis by blast
qed

interpretation mock_keeper: settling_chain "mock_keeper_env canonical_consts tc" claim_bounds_canonical "mock_snap canonical_consts tc"
    unix_now "mock_left canonical_consts tc" "mock_kept canonical_consts tc cell0 sub0 e" "mock_seen canonical_consts tc"
  for tc cell0 sub0 e
proof (unfold_locales, goal_cases)
  case (1 w)
  then show ?case by (simp add: mock_seen_def)
next
  case (2 w)
  then have "deal_snapshot tc canonical_consts (mw_state w) = Inr (Some (mock_snap canonical_consts tc w))" by (rule mock_keptE)
  then show ?case by (simp add: mock_keeper_env_def chain_answer_def)
next
  case (5 w)
  then obtain cell sub t where "deal_inv canonical_consts (unix_now w) cell sub" "is_subscription sub" "0 < ds_period_start sub"
      "keeper_snapshot_of (mock_snap canonical_consts tc w) = seen_deal t cell sub" by (rule mock_keptE)
  then show ?case using seen_valid by (simp add: mock_seen_def)
next
  case (6 w)
  then show ?case using mock_row_ex [OF 6] mock_plan [OF 6] by blast
next
  case (7 w)
  then obtain cell sub t where "is_subscription sub" "keeper_snapshot_of (mock_snap canonical_consts tc w) = seen_deal t cell sub" by (rule mock_keptE)
  then show ?case by (simp add: mock_seen_def)
next
  case (8 w d)
  then show ?case by (rule mock_waits)
next
  case (9 w)
  then show ?case by (rule mock_finalizes)
next
  case (10 w t)
  then show ?case by (rule mock_settles)
qed (simp_all add: mock_keeper_env_def)

text \<open>
  Claim C13: the keeper brings every subscription to its end.  For every open, undisputed
  subscription with an accepted probe that the mock chain can reach, when nobody else acts on it:
  the keeper returns, within as many rounds as there are seconds to the end of the last week or of
  the last claim's window and a few more, with the number of tokens claimed so far.  By then the
  deal has closed, no later than that end, every week of the term is paid to the seller
  together with the rebate and the bond, and the buyer has the bond back.
\<close>

theorem keeper_settles_subscription:
  assumes reach: "state_reach canonical_consts h now st" and w: "mw_state w = st" "now \<le> unix_now w"
    and deal: "hm_get (ms_streams st) tc = Some cell" "hm_get (ms_deal_subscriptions st) tc = Some sub"
      "\<not> sc_closed cell" "\<not> sc_disputed cell" "sc_probe_accepted cell" "is_subscription sub" "0 < ds_period_start sub"
    and fits: "deal_funding canonical_consts cell sub \<le> u128_max" "max (unix_now w) (keeper_end 60 cell sub) + 60 \<le> u64_max"
    and fuel: "keeper_end 60 cell sub - unix_now w + 5 < fuel"
  shows "\<exists>k cell' sub'. drive_subscription_keeper_with_observer (mock_keeper_env canonical_consts tc) claim_bounds_canonical fuel w
       = (Inr (sc_tokens_pending cell), k)
     \<and> hm_get (ms_streams (mw_state (kp_world k))) tc = Some cell' \<and> hm_get (ms_deal_subscriptions (mw_state (kp_world k))) tc = Some sub'
     \<and> sc_closed cell' \<and> unix_now (kp_world k) \<le> max (unix_now w) (keeper_end 60 cell sub)
     \<and> ds_tokens_paid sub' = ds_funded_tokens sub
     \<and> term_settled canonical_consts (sc_price cell) (ds_funded_tokens sub) (sc_tokens_pending cell) cell'"
proof -
  let ?c = canonical_consts and ?e = "max (unix_now w) (keeper_end 60 cell sub)"
  let ?k = "\<lparr>kp_world = w, kp_last_accepted = None, kp_log = []\<rparr>"
  have win: "claim_promote_window ?c = 60" by (simp add: canonical_consts_def)
  have inv: "state_inv ?c (unix_now w) (mw_state w)"
    using state_inv_later [OF state_reach_inv [OF reach canonical_consts_typed] w(2)] w(1) by simp
  have row: "mock_row tc w cell sub" using deal w(1) by (simp add: mock_row_def)
  have kept: "mock_kept ?c tc cell sub ?e w"
    using inv row deal fits by (auto simp: mock_kept_def keepable_def win advances_def same_terms_def)
  have "ds_sub_weeks sub \<le> 4"
    using sub_weeks_4 [of sub] mock_kept_open(1) [OF kept row deal(3)] by (auto simp: running_def terms_inv_def)
  then have left: "mock_left ?c tc w < fuel" using fuel unfolding mock_left_row [OF row] win by (auto split: if_split)
  have "mock_keeper.ready tc cell sub ?e ?k w" using kept by (simp add: mock_keeper.ready_def)
  from mock_keeper.keeper_ends [OF this left]
  obtain k where k: "drive_keeper (mock_keeper_env ?c tc) claim_bounds_canonical fuel ?k
       = (Inr (dc_tokens_final (ks_deal (mock_seen ?c tc (kp_world k)))), k)"
      "mock_kept ?c tc cell sub ?e (kp_world k)" "is_stopped (ks_deal (mock_seen ?c tc (kp_world k)))"
    unfolding wp_def by (cases "drive_keeper (mock_keeper_env ?c tc) claim_bounds_canonical fuel ?k") auto
  obtain cell' sub' where r: "mock_row tc (kp_world k) cell' sub'"
      "sc_closed cell' \<longrightarrow> ds_tokens_paid sub' = ds_funded_tokens sub
         \<and> term_settled ?c (sc_price cell) (ds_funded_tokens sub) (sc_tokens_pending cell) cell'"
    using k(2) by (auto simp: mock_kept_def)
  obtain t where seen: "mock_seen ?c tc (kp_world k) = seen_deal t cell' sub'" using mock_seen_row [OF k(2) r(1)] by blast
  have closed: "sc_closed cell'" using k(3) by (simp add: seen is_stopped_def)
  have "unix_now (kp_world k) \<le> ?e" using k(2) by (simp add: mock_kept_def)
  then show ?thesis
    using k(1) r closed seen by (auto simp: drive_subscription_keeper_with_observer_def mock_row_def term_settled_def Let_def)
qed

text \<open>A subscription of eight ticks: posted, bought, opened, accepted, and a second tick claimed.\<close>

definition weekly_offer :: sell_offer where
  "weekly_offer = \<lparr>so_price_per_tick = 1000000000, so_max_ticks = 8, so_token_contract = ''0:ab'', so_flags = SUBSCRIPTION OR AON\<rparr>"

definition weekly_posted :: mock_state where
  "weekly_posted = posted_state\<lparr>ms_deal_terms := [(''0:ab'', (1000000000, 8))], ms_offers := [(''0:ab'', weekly_offer)]\<rparr>"

definition weekly_matched :: mock_state where
  "weekly_matched = weekly_posted\<lparr>
     ms_offers := [], ms_matched_offers := [(''0:ab'', weekly_offer)], ms_matched_ticks := [(''0:ab'', 8)],
     ms_deal_subscriptions := [(''0:ab'', weekly_shape)], ms_matches := [(''0:ab'', sample_match)],
     ms_match_created_at := [(''0:ab'', 900)]\<rparr>"

definition weekly_opened :: mock_state where
  "weekly_opened = weekly_matched\<lparr>ms_streams := [(''0:ab'', weekly_cell)]\<rparr>"

definition weekly_accepted_cell :: stream_cell where
  "weekly_accepted_cell = (claimed_cell weekly_cell)\<lparr>
     sc_machine := \<lparr>sm_state = Streaming 1 1, sm_price = 1000000000, sm_seller_bond = 2000000000\<rparr>,
     sc_tokens_pending := 1000000, sc_last_claim_time := 2000\<rparr>"

definition weekly_state :: mock_state where
  "weekly_state = put_deal ''0:ab'' (claimed_cell weekly_cell) (claimed_shape weekly_shape)
     (put_deal ''0:ab'' weekly_accepted_cell (claimed_shape weekly_shape) weekly_opened)"

lemmas flag_eval = has_flag_def SUBSCRIPTION_def AON_def IOC_def FOK_def MARKET_def POST_ONLY_def TAKER_FLAGS_def DEAL_MASK_def TEE_def SUPPORTED_FLAGS_def

lemma weekly_posts: "post_offer weekly_offer sample_key 800 mock_state_default = Inr ((), Some weekly_posted)"
  by (simp add: post_offer_def weekly_posted_def posted_state_def mock_state_default_def weekly_offer_def Let_def map_eval
      wrapping_add_def u64_max_def MAX_SELL_TTL_def)

lemma weekly_offer_valid: "offer_inv canonical_consts ''0:ab'' weekly_offer"
  by (simp add: offer_inv_def weekly_offer_def validate_mock_sell_offer_def Let_def flag_eval
      MIN_STREAM_BUY_TICKS_def PRICE_STEP_def checked_mul_def TICK_SIZE_def u64_max_def u128_max_def
      SUBSCRIPTION_WEEKS_def SUBSCRIPTION_MAX_TICKS_def SUB_TICKS_PER_WEEK_def
      token_pay_and_fee_eq canonical_consts_typed sample_cost add_u128_def checked_add_def pay_for_def fee_on_def)

lemma weekly_buys:
  "place_buy_ticks_inner ''0:ab'' sample_key None 900 900 weekly_posted = Inr ((), Some weekly_matched)"
  by (simp add: place_buy_ticks_inner_def weekly_matched_def weekly_posted_def posted_state_def mock_state_default_def Let_def
      map_eval weekly_offer_def mock_deal_shape_def flag_eval MIN_STREAM_BUY_TICKS_def checked_mul_def
      TICK_SIZE_def u128_max_def weekly_shape_def sample_match_def mock_now_unix_def SUBSCRIPTION_WEEKS_def)

lemma weekly_opens_state:
  "open_stream ''0:ab'' sample_key 1000 canonical_consts weekly_matched = Inr ((), Some weekly_opened)"
  by (simp add: open_stream_def require_mock_seller_actor_def read_match_def weekly_opened_def weekly_matched_def
      weekly_posted_def posted_state_def mock_state_default_def map_eval weekly_opens)

lemma weekly_accepts:
  "accept_probe ''0:ab'' 2000 canonical_consts weekly_opened
     = Inr ((), Some (put_deal ''0:ab'' weekly_accepted_cell (claimed_shape weekly_shape) weekly_opened))"
proof -
  have "accept_probe_deal weekly_cell weekly_shape 2000 canonical_consts = Inr (weekly_accepted_cell, claimed_shape weekly_shape)"
    by (simp add: deal_eval sample_defs sample_states weekly_accepted_cell_def Let_def token_pay_and_fee_eq canonical_consts_typed
        sample_cost pay_for_def fee_on_def)
  then show ?thesis
    by (simp add: accept_probe_def update_deal_def deal_of_def weekly_opened_def weekly_matched_def map_eval)
qed

lemma weekly_claims_state:
  "claim_tokens ''0:ab'' sample_key 2000000 2100 2100 canonical_consts
     (put_deal ''0:ab'' weekly_accepted_cell (claimed_shape weekly_shape) weekly_opened) = Inr ((), Some weekly_state)"
proof -
  have "claim_tokens_deal weekly_accepted_cell (claimed_shape weekly_shape) 2000000 2100 2100 canonical_consts
      = Inr (claimed_cell weekly_cell, claimed_shape weekly_shape)"
    by (simp add: deal_eval sample_defs sample_states weekly_accepted_cell_def Let_def)
  moreover have "sc_tokens_pending weekly_accepted_cell = 1000000" by (simp add: weekly_accepted_cell_def)
  ultimately show ?thesis
    by (simp add: claim_tokens_def deal_of_def weekly_state_def require_mock_seller_actor_def put_deal_def hm_simps)
      (simp add: weekly_opened_def weekly_matched_def weekly_posted_def posted_state_def map_eval)
qed

lemma weekly_state_reach: "state_reach canonical_consts h 2100 weekly_state"
proof -
  have tc: "so_token_contract weekly_offer = ''0:ab''" by (simp add: weekly_offer_def)
  have "state_step canonical_consts h 0 mock_state_default 800 weekly_posted"
    by (rule state_step.post [OF _ sample_key_typed _ weekly_posts]) (simp_all add: tc weekly_offer_valid)
  note p = state_reach.stored [OF state_reach.start this]
  have m: "state_reach canonical_consts h 900 weekly_matched"
    by (rule state_reach.stored [OF p]) (rule state_step.buy [OF _ _ _ _ weekly_buys]; simp)
  have o: "state_reach canonical_consts h 1000 weekly_opened"
    by (rule state_reach.stored [OF m]) (rule state_step.open_deal [OF _ _ weekly_opens_state]; simp)
  have a: "state_reach canonical_consts h 2000 (put_deal ''0:ab'' weekly_accepted_cell (claimed_shape weekly_shape) weekly_opened)"
    by (rule state_reach.stored [OF o]) (rule state_step.accept [OF _ weekly_accepts]; simp)
  show ?thesis by (rule state_reach.stored [OF a]) (rule state_step.claim [OF _ _ weekly_claims_state]; simp)
qed

theorem keeper_settles_subscription_witness:
  "\<exists>k cell'. drive_subscription_keeper_with_observer (mock_keeper_env canonical_consts ''0:ab'') claim_bounds_canonical 2420000
       \<lparr>mw_state = weekly_state, mw_clock = 2100 * SECOND\<rparr> = (Inr 2000000, k)
     \<and> hm_get (ms_streams (mw_state (kp_world k))) ''0:ab'' = Some cell' \<and> sc_closed cell'
     \<and> sc_buyer_refunded cell' = 2000000000"
proof -
  have rows: "hm_get (ms_streams weekly_state) ''0:ab'' = Some (claimed_cell weekly_cell)"
    "hm_get (ms_deal_subscriptions weekly_state) ''0:ab'' = Some (claimed_shape weekly_shape)"
    by (simp_all add: weekly_state_def put_deal_def hm_simps)
  have fits: "deal_funding canonical_consts (claimed_cell weekly_cell) (claimed_shape weekly_shape) \<le> u128_max"
    using sample_in_range(2) by (simp add: in_range_def)
  have eval: "keeper_end 60 (claimed_cell weekly_cell) (claimed_shape weekly_shape) = 2421200"
    "sc_tokens_pending (claimed_cell weekly_cell) = 2000000" "sc_price (claimed_cell weekly_cell) = 1000000000"
    by (simp_all add: keeper_end_def sample_states sample_defs)
  show ?thesis
    using keeper_settles_subscription [OF weekly_state_reach _ _ rows, where w = "\<lparr>mw_state = weekly_state, mw_clock = 2100 * SECOND\<rparr>"
        and fuel = 2420000] fits eval
    by (auto simp: unix_now_def SECOND_def sample_states sample_defs term_settled_def Let_def)
qed

end
