(* ===== verification/UsageStore.thy ===== *)
theory UsageStore
  imports Relay Params
begin

text \<open>
  The buyer's usage store, \<open>crates/dexdo/src/buyer/usage.rs\<close> with its parts \<open>usage_consumption.rs\<close> and
  \<open>usage_snapshot.rs\<close>: the history of requests, the usage of each upstream call, and the running totals by
  model and by deal that admission reads instead of the history.

  A store works on one network of a database.  Each table is the map of that network's rows, under the rest of its primary key; counters
  and amounts, stored as decimal text, are numbers.  A method whose writes stand in one transaction is a function
  to a result: an error rolls everything back.  The wall clock is an argument, in
  milliseconds, and \<open>cal\<close> tells which instants the calendar library represents.
\<close>

section \<open>Prices\<close>

datatype usage_msg =
    ConsumptionOverflow
  | CounterOverflow
  | CounterUnderflow
  | RequestIdEmpty
  | TimestampRange
  | ConflictingStart
  | RequestNotFound
  | DealChanged
  | UnknownPhase
  | CallIdEmpty
  | InvalidUsageRecord usage_error
  | ConflictingCall
  | FinishedBeforeStart
  | ConflictingCompletion
  | EmptyPrice
  | PriceChanged
  | EmptyQuota
  | QuotaOverflow
  | QuotaTermsChanged
  | JournalUnreadable
  | JournalWrite
  | DatabaseWrite
  | PurchaseStateUnavailable
  | PurchaseTermsUnavailable
  | DealModelChanged
  | ReasonMissing
  | DealNotFound
  | IdentityMissing
  | DealNotRegistered
  | NeedsAtomicPartition
  | SourceIdEmpty
  | ZeroAccrual
  | ChainTimestampOverflow
  | ConflictingFact
  | AccrualAfterTerminal
  | SettlementOfOtherDeal
  | ContributionsOverflow
  | CreditAboveContributions
  | AccrualOverflow
  | AccrualsAboveContributions
  | AccrualsAboveExpense
  | ConflictingResidual
  | SecondSettlement
  | FactNotFound
  | BreakdownOverflow
  | BreakdownAboveExpense
  | InvalidProbeProof
  | ProbeProofShrinks
  | InvalidExpense

definition tokens_cost :: "nat \<Rightarrow> nat \<Rightarrow> (nat, usage_msg) result" where
  "tokens_cost price tokens =
     ok_or (case checked_mul u128_max (tokens div TICK_SIZE) price of
              None \<Rightarrow> None
            | Some whole \<Rightarrow>
                let tail = tokens mod TICK_SIZE in
                (case checked_mul u128_max (price div TICK_SIZE) tail of
                   None \<Rightarrow> None
                 | Some part \<Rightarrow>
                     (case checked_add u128_max part ((price mod TICK_SIZE) * tail div TICK_SIZE) of
                        None \<Rightarrow> None
                      | Some part' \<Rightarrow> checked_add u128_max whole part')))
       ConsumptionOverflow"

definition paid_probe_cost :: "nat \<Rightarrow> nat \<Rightarrow> nat" where
  "paid_probe_cost amount tokens =
     (let t = min tokens TICK_SIZE in amount div TICK_SIZE * t + (amount mod TICK_SIZE) * t div TICK_SIZE)"

text \<open>The price by parts is the price by whole product, rounded down once.\<close>

lemma price_by_parts: "0 < (d :: nat) \<Longrightarrow> p div d * t + (p mod d) * t div d = p * t div d"
proof -
  assume "0 < d"
  moreover have "p * t = d * (p div d * t) + (p mod d) * t"
    by (metis add_mult_distrib mult.assoc mult_div_mod_eq)
  ultimately show ?thesis by simp
qed

lemma tokens_cost_eq:
  "tokens_cost price tokens =
     (if price * tokens div TICK_SIZE \<le> u128_max then Inr (price * tokens div TICK_SIZE) else Inl ConsumptionOverflow)"
proof -
  let ?q = "tokens div TICK_SIZE" and ?r = "tokens mod TICK_SIZE"
  have part: "price div TICK_SIZE * ?r + (price mod TICK_SIZE) * ?r div TICK_SIZE = price * ?r div TICK_SIZE"
    using TICK_SIZE_pos by (rule price_by_parts)
  have "price * tokens = TICK_SIZE * (?q * price) + price * ?r"
    by (metis add_mult_distrib2 mult.assoc mult.commute mult_div_mod_eq)
  then have "price * tokens div TICK_SIZE = ?q * price + price * ?r div TICK_SIZE" using TICK_SIZE_pos by simp
  then show ?thesis using part by (auto simp: tokens_cost_def checked_mul_def checked_add_def Let_def)
qed

lemma paid_probe_cost_eq: "paid_probe_cost amount tokens = amount * min tokens TICK_SIZE div TICK_SIZE"
  using price_by_parts [OF TICK_SIZE_pos] by (simp add: paid_probe_cost_def Let_def)

section \<open>Tables\<close>

record request_row =
  rr_runtime :: string
  rr_model :: string
  rr_protocol :: string
  rr_streamed :: bool
  rr_deal :: "string option"
  rr_started_at :: int
  rr_finished_at :: "int option"
  rr_outcome :: string
  rr_http_status :: "nat option"
  rr_finish_reason :: "string option"
  rr_failure_stage :: "string option"
  rr_history_complete :: bool

record call_row =
  cl_input :: nat
  cl_output :: nat
  cl_total :: nat
  cl_charged :: nat
  cl_accepted :: bool
  cl_cache_read :: nat
  cl_cache_write :: nat
  cl_accepted_at :: "int option"
  cl_deal :: "string option"

text \<open>A call is known by its request, its phase and its identifier.\<close>

type_synonym call_key = "string \<times> string \<times> string"

record model_totals =
  mo_input :: nat
  mo_output :: nat
  mo_cache_read :: nat
  mo_cache_write :: nat
  mo_incomplete :: nat

record request_tables =
  ut_requests :: "(string, request_row) hmap"
  ut_calls :: "(call_key, call_row) hmap"
  ut_admission_models :: "(string, model_totals) hmap"
  ut_admission_deals :: "(string, nat) hmap"

definition zero_totals :: model_totals where
  "zero_totals = \<lparr>mo_input = 0, mo_output = 0, mo_cache_read = 0, mo_cache_write = 0, mo_incomplete = 0\<rparr>"

section \<open>Running totals\<close>

record request_totals =
  rt_model :: string
  rt_deal :: "string option"
  rt_totals :: model_totals
  rt_charged :: nat

definition add_counter :: "nat \<Rightarrow> nat \<Rightarrow> (nat, usage_msg) result" where
  "add_counter l r = ok_or (checked_add u128_max l r) CounterOverflow"

definition read_model :: "string \<Rightarrow> request_tables \<Rightarrow> model_totals" where
  "read_model model s = (case hm_get (ut_admission_models s) model of Some t \<Rightarrow> t | None \<Rightarrow> zero_totals)"

definition read_deal :: "string \<Rightarrow> request_tables \<Rightarrow> nat" where
  "read_deal deal s = (case hm_get (ut_admission_deals s) deal of Some n \<Rightarrow> n | None \<Rightarrow> 0)"

definition calls_of :: "string \<Rightarrow> request_tables \<Rightarrow> (call_key \<times> call_row) list" where
  "calls_of request s = filter (\<lambda>((r, _, _), _). r = request) (ut_calls s)"

text \<open>The usage record of a row, as it is rebuilt and checked when the row is read.\<close>

definition row_usage :: "call_row \<Rightarrow> (billing_usage, usage_msg) result" where
  "row_usage cl =
     and_then (map_err InvalidUsageRecord (billing_usage_new (cl_input cl) (cl_output cl) (Some (cl_total cl)))) (\<lambda>u.
     let usage = u\<lparr>bu_cache_read_tokens := cl_cache_read cl, bu_cache_write_tokens := cl_cache_write cl\<rparr> in
     and_then (map_err InvalidUsageRecord (validate_usage usage)) (\<lambda>_. Inr usage))"

record tally =
  ty_complete :: bool
  ty_answer :: bool
  ty_totals :: model_totals
  ty_charged :: nat

definition tally_call :: "tally \<Rightarrow> call_key \<times> call_row \<Rightarrow> (tally, usage_msg) result" where
  "tally_call t = (\<lambda>((_, phase, call_id), cl).
     let t1 = t\<lparr>ty_answer := ty_answer t \<or> phase = ''answer'', ty_complete := ty_complete t \<and> cl_accepted cl\<rparr> in
     if \<not> cl_accepted cl \<or> call_id = ''in_progress'' then Inr t1
     else
       and_then (row_usage cl) (\<lambda>u.
       let m = ty_totals t1 in
       and_then (add_counter (mo_input m) (bu_input_tokens u - bu_cache_read_tokens u - bu_cache_write_tokens u)) (\<lambda>i.
       and_then (add_counter (mo_output m) (bu_output_tokens u)) (\<lambda>outp.
       and_then (add_counter (mo_cache_read m) (bu_cache_read_tokens u)) (\<lambda>cr.
       and_then (add_counter (mo_cache_write m) (bu_cache_write_tokens u)) (\<lambda>cw.
       and_then (add_counter (ty_charged t1) (cl_charged cl)) (\<lambda>charged.
       Inr (t1\<lparr>ty_totals := m\<lparr>mo_input := i, mo_output := outp, mo_cache_read := cr, mo_cache_write := cw\<rparr>,
               ty_charged := charged\<rparr>))))))))"

definition request_totals_in :: "string \<Rightarrow> request_tables \<Rightarrow> (request_totals, usage_msg) result" where
  "request_totals_in request s =
     and_then (ok_or (hm_get (ut_requests s) request) RequestNotFound) (\<lambda>row.
     and_then (try_fold tally_call
         \<lparr>ty_complete = (rr_finished_at row \<noteq> None \<and> rr_history_complete row), ty_answer = False,
          ty_totals = zero_totals, ty_charged = 0\<rparr> (calls_of request s)) (\<lambda>t.
     let complete = (ty_complete t \<and> (ty_answer t \<or> rr_outcome row = ''rejected'' \<and> rr_deal row = None)) in
     Inr \<lparr>rt_model = rr_model row, rt_deal = rr_deal row,
          rt_totals = (ty_totals t)\<lparr>mo_incomplete := if complete then 0 else 1\<rparr>, rt_charged = ty_charged t\<rparr>))"

text \<open>One counter: take out what the request contributed before, put in what it contributes now.\<close>

definition swap_counter :: "nat \<Rightarrow> nat \<Rightarrow> nat \<Rightarrow> (nat, usage_msg) result" where
  "swap_counter stored old new =
     and_then (ok_or (checked_sub stored old) CounterUnderflow) (\<lambda>x. add_counter x new)"

definition swap_totals :: "model_totals \<Rightarrow> model_totals \<Rightarrow> model_totals \<Rightarrow> (model_totals, usage_msg) result" where
  "swap_totals stored old new =
     and_then (swap_counter (mo_input stored) (mo_input old) (mo_input new)) (\<lambda>i.
     and_then (swap_counter (mo_output stored) (mo_output old) (mo_output new)) (\<lambda>outp.
     and_then (swap_counter (mo_cache_read stored) (mo_cache_read old) (mo_cache_read new)) (\<lambda>cr.
     and_then (swap_counter (mo_cache_write stored) (mo_cache_write old) (mo_cache_write new)) (\<lambda>cw.
     and_then (swap_counter (mo_incomplete stored) (mo_incomplete old) (mo_incomplete new)) (\<lambda>inc.
     Inr \<lparr>mo_input = i, mo_output = outp, mo_cache_read = cr, mo_cache_write = cw, mo_incomplete = inc\<rparr>)))))"

definition update_totals_in :: "string \<Rightarrow> request_totals option \<Rightarrow> request_tables \<Rightarrow> (request_tables, usage_msg) result" where
  "update_totals_in request old s =
     and_then (request_totals_in request s) (\<lambda>new.
     if old = Some new then Inr s
     else
       and_then (swap_totals (read_model (rt_model new) s)
           (case old of Some o' \<Rightarrow> rt_totals o' | None \<Rightarrow> zero_totals) (rt_totals new)) (\<lambda>totals.
       let s1 = s\<lparr>ut_admission_models := hm_insert (rt_model new) totals (ut_admission_models s)\<rparr> in
       case rt_deal new of
         None \<Rightarrow> Inr s1
       | Some deal \<Rightarrow>
           let old_charged = (case old of Some o' \<Rightarrow> if rt_deal o' = rt_deal new then rt_charged o' else 0 | None \<Rightarrow> 0) in
           and_then (swap_counter (read_deal deal s1) old_charged (rt_charged new)) (\<lambda>charged.
           Inr (s1\<lparr>ut_admission_deals := hm_insert deal charged (ut_admission_deals s1)\<rparr>))))"

section \<open>Requests\<close>

text \<open>The argument \<open>runtime\<close> names the running process.\<close>

definition start_request_at ::
    "(int \<Rightarrow> bool) \<Rightarrow> string \<Rightarrow> string \<Rightarrow> string \<Rightarrow> string \<Rightarrow> bool \<Rightarrow> int \<Rightarrow> request_tables \<Rightarrow> (request_tables, usage_msg) result" where
  "start_request_at cal runtime request model protocol streamed at_ms s =
     (if request = [] then Inl RequestIdEmpty
      else if \<not> cal at_ms then Inl TimestampRange
      else
        case hm_get (ut_requests s) request of
          Some row \<Rightarrow>
            if rr_model row = model \<and> rr_protocol row = protocol \<and> rr_streamed row = streamed then Inr s
            else Inl ConflictingStart
        | None \<Rightarrow>
            update_totals_in request None (s\<lparr>ut_requests := hm_insert request
              \<lparr>rr_runtime = runtime, rr_model = model, rr_protocol = protocol, rr_streamed = streamed, rr_deal = None,
               rr_started_at = at_ms, rr_finished_at = None, rr_outcome = ''in_progress'', rr_http_status = None,
               rr_finish_reason = None, rr_failure_stage = None, rr_history_complete = True\<rparr> (ut_requests s)\<rparr>))"

definition bind_calls :: "string \<Rightarrow> string \<Rightarrow> (call_key, call_row) hmap \<Rightarrow> (call_key, call_row) hmap" where
  "bind_calls request deal calls = map (\<lambda>((r, p, i), cl). ((r, p, i), if r = request then cl\<lparr>cl_deal := Some deal\<rparr> else cl)) calls"

definition link_deal :: "string \<Rightarrow> string \<Rightarrow> request_tables \<Rightarrow> (request_tables, usage_msg) result" where
  "link_deal request deal s =
     and_then (request_totals_in request s) (\<lambda>old.
     and_then (ok_or (hm_get (ut_requests s) request) RequestNotFound) (\<lambda>row.
     if rr_deal row \<noteq> None \<and> rr_deal row \<noteq> Some deal then Inl DealChanged
     else
       update_totals_in request (Some old)
         (s\<lparr>ut_requests := hm_insert request (row\<lparr>rr_deal := Some deal\<rparr>) (ut_requests s),
            ut_calls := bind_calls request deal (ut_calls s)\<rparr>)))"

definition set_request_streamed :: "string \<Rightarrow> bool \<Rightarrow> request_tables \<Rightarrow> (request_tables, usage_msg) result" where
  "set_request_streamed request streamed s =
     and_then (ok_or (hm_get (ut_requests s) request) RequestNotFound) (\<lambda>row.
     Inr (s\<lparr>ut_requests := hm_insert request (row\<lparr>rr_streamed := streamed\<rparr>) (ut_requests s)\<rparr>))"

text \<open>The row of a call: inserted, found again, or accepted now.\<close>

definition store_call ::
    "string \<Rightarrow> string \<Rightarrow> string \<Rightarrow> billing_usage \<Rightarrow> bool \<Rightarrow> int \<Rightarrow> request_row \<Rightarrow> (call_key, call_row) hmap \<Rightarrow> ((call_key, call_row) hmap, usage_msg) result" where
  "store_call request phase call_id u accepted now row calls =
     (case hm_get calls (request, phase, call_id) of
        Some old \<Rightarrow>
          if cl_input old = bu_input_tokens u \<and> cl_output old = bu_output_tokens u \<and> cl_total old = bu_total_tokens u
             \<and> cl_charged old = billable_tokens u \<and> cl_cache_read old = bu_cache_read_tokens u \<and> cl_cache_write old = bu_cache_write_tokens u
          then Inr (if accepted \<and> \<not> cl_accepted old
                    then hm_insert (request, phase, call_id) (old\<lparr>cl_accepted := True, cl_accepted_at := Some now\<rparr>) calls
                    else calls)
          else Inl ConflictingCall
      | None \<Rightarrow>
          Inr (hm_insert (request, phase, call_id)
            \<lparr>cl_input = bu_input_tokens u, cl_output = bu_output_tokens u, cl_total = bu_total_tokens u, cl_charged = billable_tokens u,
             cl_accepted = accepted, cl_cache_read = bu_cache_read_tokens u, cl_cache_write = bu_cache_write_tokens u,
             cl_accepted_at = (if accepted then Some now else None), cl_deal = rr_deal row\<rparr> calls))"

definition resolve_marker :: "string \<Rightarrow> string \<Rightarrow> (call_key, call_row) hmap \<Rightarrow> (call_key, call_row) hmap" where
  "resolve_marker request phase calls =
     (case hm_get calls (request, phase, ''in_progress'') of
        None \<Rightarrow> calls
      | Some m \<Rightarrow> hm_insert (request, phase, ''in_progress'') (m\<lparr>cl_accepted := True\<rparr>) calls)"

definition record_call_usage ::
    "string \<Rightarrow> string \<Rightarrow> string \<Rightarrow> billing_usage \<Rightarrow> bool \<Rightarrow> int \<Rightarrow> request_tables \<Rightarrow> (request_tables, usage_msg) result" where
  "record_call_usage request phase call_id u accepted now s =
     (if phase \<notin> {''answer'', ''verification_b8'', ''verification_b7''} then Inl UnknownPhase
      else if call_id = [] then Inl CallIdEmpty
      else
        and_then (map_err InvalidUsageRecord (validate_usage u)) (\<lambda>_.
        and_then (request_totals_in request s) (\<lambda>old.
        and_then (ok_or (hm_get (ut_requests s) request) RequestNotFound) (\<lambda>row.
        and_then (store_call request phase call_id u accepted now row (ut_calls s)) (\<lambda>calls.
        update_totals_in request (Some old)
          (s\<lparr>ut_calls := if accepted \<and> phase = call_id then resolve_marker request phase calls else calls\<rparr>))))))"

definition mark_request_history_incomplete :: "string \<Rightarrow> request_tables \<Rightarrow> (request_tables, usage_msg) result" where
  "mark_request_history_incomplete request s =
     and_then (request_totals_in request s) (\<lambda>old.
     and_then (ok_or (hm_get (ut_requests s) request) RequestNotFound) (\<lambda>row.
     update_totals_in request (Some old)
       (s\<lparr>ut_requests := hm_insert request (row\<lparr>rr_history_complete := False\<rparr>) (ut_requests s)\<rparr>)))"

definition request_outcome :: "nat \<Rightarrow> string option \<Rightarrow> string option \<Rightarrow> string" where
  "request_outcome http_status finish_reason failure_stage =
     (if http_status = 499 \<or> finish_reason = Some ''cancelled'' then ''cancelled''
      else if http_status \<ge> 500 then ''failed''
      else if http_status \<ge> 400 then ''rejected''
      else if failure_stage \<noteq> None \<or> finish_reason \<in> {Some ''error'', Some ''empty_output''} then ''failed''
      else ''succeeded'')"

definition finish_request_at ::
    "(int \<Rightarrow> bool) \<Rightarrow> string \<Rightarrow> nat \<Rightarrow> string option \<Rightarrow> string option \<Rightarrow> int \<Rightarrow> request_tables \<Rightarrow> (request_tables, usage_msg) result" where
  "finish_request_at cal request http_status finish_reason failure_stage at_ms s =
     (if \<not> cal at_ms then Inl TimestampRange
      else
        and_then (request_totals_in request s) (\<lambda>old.
        and_then (ok_or (hm_get (ut_requests s) request) RequestNotFound) (\<lambda>row.
        if \<not> at_ms \<ge> rr_started_at row then Inl FinishedBeforeStart
        else if rr_finished_at row \<noteq> None then
          (if rr_http_status row = Some http_status \<and> rr_finish_reason row = finish_reason \<and> rr_failure_stage row = failure_stage
           then Inr s else Inl ConflictingCompletion)
        else
          update_totals_in request (Some old)
            (s\<lparr>ut_requests := hm_insert request
               (row\<lparr>rr_finished_at := Some at_ms, rr_outcome := request_outcome http_status finish_reason failure_stage,
                   rr_http_status := Some http_status, rr_finish_reason := finish_reason, rr_failure_stage := failure_stage\<rparr>)
               (ut_requests s)\<rparr>))))"

definition recover_interrupted_requests :: "string \<Rightarrow> request_tables \<Rightarrow> request_tables" where
  "recover_interrupted_requests runtime s =
     s\<lparr>ut_requests := map (\<lambda>(r, row).
         (r, if rr_outcome row = ''in_progress'' \<and> rr_runtime row \<noteq> runtime
             then row\<lparr>rr_outcome := ''interrupted'', rr_failure_stage := Some ''process_interrupted''\<rparr> else row)) (ut_requests s)\<rparr>"

section \<open>Reads\<close>

text \<open>A sum over rows; partial sums are checked.\<close>

definition sum_checked :: "usage_msg \<Rightarrow> nat list \<Rightarrow> (nat, usage_msg) result" where
  "sum_checked e = try_fold (\<lambda>t n. ok_or (checked_add u128_max t n) e) 0"

definition call_deal :: "request_tables \<Rightarrow> call_key \<Rightarrow> string option" where
  "call_deal s = (\<lambda>(r, _, _). case hm_get (ut_requests s) r of Some row \<Rightarrow> rr_deal row | None \<Rightarrow> None)"

definition accepted_tokens :: "string \<Rightarrow> request_tables \<Rightarrow> (nat, usage_msg) result" where
  "accepted_tokens deal s =
     sum_checked ConsumptionOverflow (map (\<lambda>(_, cl). cl_charged cl) (filter (\<lambda>((r, p, i), cl).
       (case hm_get (ut_requests s) r of Some row \<Rightarrow> rr_deal row = Some deal \<and> rr_finished_at row \<noteq> None | None \<Rightarrow> False)
       \<and> cl_accepted cl) (ut_calls s)))"

definition consumed_cost_in :: "string \<Rightarrow> nat \<Rightarrow> request_tables \<Rightarrow> (nat, usage_msg) result" where
  "consumed_cost_in deal price s =
     and_then (sum_checked ConsumptionOverflow (map (\<lambda>(_, cl). cl_charged cl) (filter (\<lambda>((r, p, i), cl).
       call_deal s (r, p, i) = Some deal \<and> cl_accepted cl \<and> i \<noteq> ''in_progress'') (ut_calls s)))) (\<lambda>tokens.
     tokens_cost price tokens)"

definition has_unresolved_output_usage :: "string \<Rightarrow> string \<Rightarrow> request_tables \<Rightarrow> bool" where
  "has_unresolved_output_usage runtime deal s \<longleftrightarrow>
     list_ex (\<lambda>(_, row). rr_deal row = Some deal \<and> \<not> rr_history_complete row) (ut_requests s)
     \<or> list_ex (\<lambda>(_, row). rr_deal row = Some deal \<and> rr_finished_at row = None \<and> rr_runtime row \<noteq> runtime) (ut_requests s)
     \<or> list_ex (\<lambda>((r, phase, i), cl). cl_deal cl = Some deal \<and> i = ''in_progress'' \<and> \<not> cl_accepted cl
          \<and> (case hm_get (ut_requests s) r of
               Some row \<Rightarrow> rr_deal row = Some deal \<and> (phase = ''answer'' \<or> rr_finished_at row \<noteq> None \<or> rr_runtime row \<noteq> runtime)
             | None \<Rightarrow> False)) (ut_calls s)"

end
