(* ===== verification/UsageMoney.thy ===== *)
theory UsageMoney
  imports UsageStore
begin

text \<open>
  The financial half of the buyer's usage store: deals, confirmed expenses and their classification
  (\<open>buyer/usage.rs\<close>), execution prices (\<open>usage_consumption.rs\<close>) and the current purchase with its journal file
  (\<open>usage_quota_journal.rs\<close>).  The conventions are those of \<open>UsageStore\<close>.
\<close>

section \<open>Tables\<close>

record deal_row =
  de_model :: string
  de_registered_at :: int
  de_closed_at :: "int option"
  de_status :: string
  de_incomplete_reason :: "string option"
  de_operations_complete :: bool
  de_operations_reason :: "string option"

datatype fact_kind = SettlementKind | AccrualKind | OperationalKind

record money_fact =
  mf_kind :: fact_kind
  mf_deal :: "string option"
  mf_model :: "string option"
  mf_occurred_at :: int
  mf_recorded_at :: int
  mf_escrow :: "nat option"
  mf_buyer_bond :: "nat option"
  mf_buyer_credit :: "nat option"
  mf_spent :: "nat option"
  mf_consumption :: nat
  mf_commission :: nat
  mf_burns :: nat
  mf_unused_capacity :: nat
  mf_probe_tokens :: "nat option"

record quota_row_t =
  qr_deal :: string
  qr_ticks :: nat
  qr_price :: nat
  qr_closed :: bool

record note_operations_row =
  no_complete :: bool
  no_reason :: "string option"
  no_registered_at :: int

text \<open>The revision counts the changes of rows of \<open>money_facts\<close>; triggers of the database advance it.\<close>

record money_tables =
  mn_deals :: "(string, deal_row) hmap"
  mn_facts :: "(string, money_fact) hmap"
  mn_quota :: "quota_row_t option"
  mn_prices :: "(string, nat) hmap"
  mn_note_operations :: "(string, note_operations_row) hmap"
  mn_revision :: int

definition put_fact :: "string \<Rightarrow> money_fact \<Rightarrow> money_tables \<Rightarrow> money_tables" where
  "put_fact source f s = s\<lparr>mn_facts := hm_insert source f (mn_facts s), mn_revision := mn_revision s + 1\<rparr>"

definition new_fact :: "fact_kind \<Rightarrow> string option \<Rightarrow> string option \<Rightarrow> int \<Rightarrow> int \<Rightarrow> money_fact" where
  "new_fact kind deal model occurred recorded =
     \<lparr>mf_kind = kind, mf_deal = deal, mf_model = model, mf_occurred_at = occurred, mf_recorded_at = recorded,
      mf_escrow = None, mf_buyer_bond = None, mf_buyer_credit = None, mf_spent = None,
      mf_consumption = 0, mf_commission = 0, mf_burns = 0, mf_unused_capacity = 0, mf_probe_tokens = None\<rparr>"

section \<open>Facts and their amounts\<close>

record settlement_fact =
  sf_source_id :: string
  sf_deal_id :: string
  sf_occurred_at :: int
  sf_escrow :: nat
  sf_buyer_bond :: nat
  sf_buyer_credit :: "nat option"

record operational_fact =
  of_source_id :: string
  of_deal_id :: "string option"
  of_model :: "string option"
  of_occurred_at :: int
  of_spent :: nat

record accrual_fact =
  af_source_id :: string
  af_occurred_at :: int
  af_spent :: nat

record expense_breakdown =
  eb_consumption :: nat
  eb_commission :: nat
  eb_burns :: nat
  eb_unused_capacity :: nat
  eb_probe_tokens :: "nat option"

definition breakdown_total :: "expense_breakdown \<Rightarrow> (nat, usage_msg) result" where
  "breakdown_total b =
     and_then (ok_or (checked_add u128_max (eb_consumption b) (eb_commission b)) BreakdownOverflow) (\<lambda>x.
     and_then (ok_or (checked_add u128_max x (eb_burns b)) BreakdownOverflow) (\<lambda>y.
     ok_or (checked_add u128_max y (eb_unused_capacity b)) BreakdownOverflow))"

definition i64_ok :: "int \<Rightarrow> bool" where
  "i64_ok x \<longleftrightarrow> - (2 ^ 63) \<le> x \<and> x < 2 ^ 63"

definition chain_millis :: "(int \<Rightarrow> bool) \<Rightarrow> int \<Rightarrow> (int, usage_msg) result" where
  "chain_millis cal seconds =
     (if \<not> i64_ok (seconds * 1000) then Inl ChainTimestampOverflow
      else if \<not> cal (seconds * 1000) then Inl TimestampRange
      else Inr (seconds * 1000))"

definition fact_amount :: "money_fact \<Rightarrow> (nat option, usage_msg) result" where
  "fact_amount f =
     (if mf_kind f = SettlementKind then
        (case (mf_buyer_credit f, mf_spent f) of
           (Some _, Some residual) \<Rightarrow> Inr (Some residual)
         | (None, _) \<Rightarrow> Inr None
         | (Some credit, None) \<Rightarrow>
             and_then (ok_or (mf_escrow f) InvalidExpense) (\<lambda>escrow.
             and_then (ok_or (mf_buyer_bond f) InvalidExpense) (\<lambda>bond.
             and_then (ok_or (checked_add u128_max escrow bond) InvalidExpense) (\<lambda>paid.
             and_then (ok_or (checked_sub paid credit) InvalidExpense) (\<lambda>net. Inr (Some net))))))
      else and_then (ok_or (mf_spent f) InvalidExpense) (\<lambda>spent. Inr (Some spent)))"

section \<open>Deals\<close>

definition register_deal :: "string \<Rightarrow> string \<Rightarrow> int \<Rightarrow> money_tables \<Rightarrow> (money_tables, usage_msg) result" where
  "register_deal deal model now s =
     (case hm_get (mn_deals s) deal of
        Some row \<Rightarrow> if de_model row = model then Inr s else Inl DealModelChanged
      | None \<Rightarrow> Inr (s\<lparr>mn_deals := hm_insert deal
          \<lparr>de_model = model, de_registered_at = now, de_closed_at = None, de_status = ''pending'', de_incomplete_reason = None,
           de_operations_complete = False, de_operations_reason = None\<rparr> (mn_deals s)\<rparr>))"

definition update_deal_row :: "string \<Rightarrow> (deal_row \<Rightarrow> deal_row) \<Rightarrow> money_tables \<Rightarrow> (money_tables, usage_msg) result" where
  "update_deal_row deal f s =
     and_then (ok_or (hm_get (mn_deals s) deal) DealNotFound) (\<lambda>row.
     Inr (s\<lparr>mn_deals := hm_insert deal (f row) (mn_deals s)\<rparr>))"

definition mark_deal_incomplete :: "string \<Rightarrow> string \<Rightarrow> money_tables \<Rightarrow> (money_tables, usage_msg) result" where
  "mark_deal_incomplete deal reason s =
     (if reason = [] then Inl ReasonMissing
      else update_deal_row deal (\<lambda>row. row\<lparr>de_status := ''incomplete'', de_closed_at := None, de_incomplete_reason := Some reason\<rparr>) s)"

definition mark_operations_incomplete :: "string \<Rightarrow> string \<Rightarrow> money_tables \<Rightarrow> (money_tables, usage_msg) result" where
  "mark_operations_incomplete deal reason s =
     (if reason = [] then Inl ReasonMissing
      else update_deal_row deal (\<lambda>row. row\<lparr>de_operations_complete := False, de_operations_reason := Some reason\<rparr>) s)"

definition mark_operations_complete :: "string \<Rightarrow> money_tables \<Rightarrow> (money_tables, usage_msg) result" where
  "mark_operations_complete deal s = update_deal_row deal (\<lambda>row. row\<lparr>de_operations_complete := True, de_operations_reason := None\<rparr>) s"

definition put_note_operations :: "string \<Rightarrow> bool \<Rightarrow> string option \<Rightarrow> int \<Rightarrow> money_tables \<Rightarrow> money_tables" where
  "put_note_operations note complete reason now s =
     s\<lparr>mn_note_operations := hm_insert note
         (case hm_get (mn_note_operations s) note of
            Some row \<Rightarrow> row\<lparr>no_complete := complete, no_reason := reason\<rparr>
          | None \<Rightarrow> \<lparr>no_complete = complete, no_reason = reason, no_registered_at = now\<rparr>) (mn_note_operations s)\<rparr>"

definition mark_note_operations_incomplete :: "string \<Rightarrow> string \<Rightarrow> int \<Rightarrow> money_tables \<Rightarrow> (money_tables, usage_msg) result" where
  "mark_note_operations_incomplete note reason now s =
     (if note = [] \<or> reason = [] then Inl IdentityMissing else Inr (put_note_operations note False (Some reason) now s))"

definition mark_note_operations_complete :: "string \<Rightarrow> int \<Rightarrow> money_tables \<Rightarrow> (money_tables, usage_msg) result" where
  "mark_note_operations_complete note now s =
     (if note = [] then Inl IdentityMissing else Inr (put_note_operations note True None now s))"

section \<open>Expenses\<close>

definition facts_of :: "fact_kind \<Rightarrow> string \<Rightarrow> money_tables \<Rightarrow> money_fact list" where
  "facts_of kind deal s = map snd (filter (\<lambda>(_, f). mf_kind f = kind \<and> mf_deal f = Some deal) (mn_facts s))"

text \<open>What a settlement already on file says of its residual: nothing on file, or its \<open>spent_raw\<close>, once the credit is known.\<close>

definition prior_terminal :: "string \<Rightarrow> money_tables \<Rightarrow> nat option option" where
  "prior_terminal deal s =
     (case filter (\<lambda>f. mf_buyer_credit f \<noteq> None) (facts_of SettlementKind deal s) of [] \<Rightarrow> None | f # _ \<Rightarrow> Some (mf_spent f))"

definition apply_accrual ::
    "(int \<Rightarrow> bool) \<Rightarrow> string \<Rightarrow> string \<Rightarrow> nat option option \<Rightarrow> int \<Rightarrow> money_tables \<Rightarrow> accrual_fact \<Rightarrow> (money_tables, usage_msg) result" where
  "apply_accrual cal deal model prior now s fc =
     (if af_source_id fc = [] then Inl SourceIdEmpty
      else if \<not> af_spent fc > 0 then Inl ZeroAccrual
      else
        and_then (chain_millis cal (af_occurred_at fc)) (\<lambda>at.
        case hm_get (mn_facts s) (af_source_id fc) of
          Some old \<Rightarrow>
            if mf_kind old = AccrualKind \<and> mf_deal old = Some deal \<and> mf_occurred_at old = at \<and> mf_spent old = Some (af_spent fc)
            then Inr s else Inl ConflictingFact
        | None \<Rightarrow>
            if (case prior of Some (Some _) \<Rightarrow> True | _ \<Rightarrow> False) then Inl AccrualAfterTerminal
            else Inr (put_fact (af_source_id fc)
                   ((new_fact AccrualKind (Some deal) (Some model) at now)\<lparr>mf_spent := Some (af_spent fc)\<rparr>) s)))"

definition close_quota_row :: "string \<Rightarrow> money_tables \<Rightarrow> money_tables" where
  "close_quota_row deal s =
     s\<lparr>mn_quota := map_option (\<lambda>q. if qr_deal q = deal then q\<lparr>qr_closed := True\<rparr> else q) (mn_quota s)\<rparr>"

text \<open>What the buyer is left to pay once the accruals are taken out, when the credit is known.\<close>

definition settlement_residual :: "settlement_fact \<Rightarrow> money_tables \<Rightarrow> (nat option, usage_msg) result" where
  "settlement_residual fc s =
     and_then (ok_or (checked_add u128_max (sf_escrow fc) (sf_buyer_bond fc)) ContributionsOverflow) (\<lambda>contributions.
     and_then (case sf_buyer_credit fc of Some credit \<Rightarrow> ensure (credit \<le> contributions) CreditAboveContributions | None \<Rightarrow> Inr ()) (\<lambda>_.
     and_then (sum_checked AccrualOverflow (map (\<lambda>f. the (mf_spent f)) (facts_of AccrualKind (sf_deal_id fc) s))) (\<lambda>accrued.
     and_then (ensure (accrued \<le> contributions) AccrualsAboveContributions) (\<lambda>_.
     case sf_buyer_credit fc of
       None \<Rightarrow> Inr None
     | Some credit \<Rightarrow>
         and_then (ok_or (checked_sub contributions credit) AccrualsAboveExpense) (\<lambda>net.
         and_then (ok_or (checked_sub net accrued) AccrualsAboveExpense) (\<lambda>residual. Inr (Some residual)))))))"

text \<open>The row of the settlement; a second settlement of one deal violates a unique index.\<close>

definition store_settlement ::
    "string \<Rightarrow> settlement_fact \<Rightarrow> int \<Rightarrow> nat option \<Rightarrow> int \<Rightarrow> money_tables \<Rightarrow> (money_tables, usage_msg) result" where
  "store_settlement model fc at residual now s =
     (case hm_get (mn_facts s) (sf_source_id fc) of
        Some old \<Rightarrow>
          if \<not> (mf_kind old = SettlementKind \<and> mf_deal old = Some (sf_deal_id fc) \<and> mf_occurred_at old = at
                \<and> mf_escrow old = Some (sf_escrow fc) \<and> mf_buyer_bond old = Some (sf_buyer_bond fc)
                \<and> (mf_buyer_credit old = None \<or> mf_buyer_credit old = sf_buyer_credit fc))
          then Inl ConflictingFact
          else if \<not> (mf_spent old = None \<or> mf_spent old = residual) then Inl ConflictingResidual
          else if mf_spent old = None \<and> sf_buyer_credit fc \<noteq> None
          then Inr (put_fact (sf_source_id fc)
                 (old\<lparr>mf_buyer_credit := sf_buyer_credit fc, mf_spent := residual, mf_recorded_at := now\<rparr>) s)
          else Inr s
      | None \<Rightarrow>
          if facts_of SettlementKind (sf_deal_id fc) s \<noteq> [] then Inl SecondSettlement
          else Inr (put_fact (sf_source_id fc)
                 ((new_fact SettlementKind (Some (sf_deal_id fc)) (Some model) at now)
                    \<lparr>mf_escrow := Some (sf_escrow fc), mf_buyer_bond := Some (sf_buyer_bond fc),
                     mf_buyer_credit := sf_buyer_credit fc, mf_spent := residual\<rparr>) s))"

definition apply_settlement_in ::
    "(int \<Rightarrow> bool) \<Rightarrow> string \<Rightarrow> settlement_fact \<Rightarrow> int \<Rightarrow> money_tables \<Rightarrow> (money_tables, usage_msg) result" where
  "apply_settlement_in cal model fc now s =
     (if sf_source_id fc = [] then Inl SourceIdEmpty
      else
        and_then (chain_millis cal (sf_occurred_at fc)) (\<lambda>at.
        and_then (settlement_residual fc s) (\<lambda>residual.
        and_then (store_settlement model fc at residual now s) (\<lambda>s1.
        Inr (close_quota_row (sf_deal_id fc)
          (s1\<lparr>mn_deals := (case hm_get (mn_deals s1) (sf_deal_id fc) of
               Some row \<Rightarrow> hm_insert (sf_deal_id fc)
                 (row\<lparr>de_status := if sf_buyer_credit fc \<noteq> None then ''settled'' else ''incomplete'', de_closed_at := Some at,
                     de_incomplete_reason := if sf_buyer_credit fc \<noteq> None then None else Some ''buyer credits not reconciled''\<rparr>) (mn_deals s1)
             | None \<Rightarrow> mn_deals s1)\<rparr>))))))"

text \<open>The transaction of \<open>apply_deal_expenses\<close>.\<close>

definition deal_expenses_in ::
    "(int \<Rightarrow> bool) \<Rightarrow> string \<Rightarrow> accrual_fact list \<Rightarrow> settlement_fact option \<Rightarrow> int \<Rightarrow> money_tables \<Rightarrow> (money_tables, usage_msg) result" where
  "deal_expenses_in cal deal accruals settlement now s =
     and_then (ok_or (hm_get (mn_deals s) deal) DealNotRegistered) (\<lambda>row.
     let prior = prior_terminal deal s in
     and_then (ensure (prior \<noteq> Some None \<or> accruals = []
         \<or> (case settlement of Some fc \<Rightarrow> sf_buyer_credit fc \<noteq> None | None \<Rightarrow> False)) NeedsAtomicPartition) (\<lambda>_.
     and_then (try_fold (apply_accrual cal deal (de_model row) prior now) s accruals) (\<lambda>s1.
     case settlement of
       None \<Rightarrow> Inr s1
     | Some fc \<Rightarrow>
         and_then (ensure (sf_deal_id fc = deal) SettlementOfOtherDeal) (\<lambda>_.
         apply_settlement_in cal (de_model row) fc now s1))))"

definition apply_operational_expense ::
    "(int \<Rightarrow> bool) \<Rightarrow> operational_fact \<Rightarrow> int \<Rightarrow> money_tables \<Rightarrow> (money_tables, usage_msg) result" where
  "apply_operational_expense cal fc now s =
     (if of_source_id fc = [] then Inl SourceIdEmpty
      else
        and_then (chain_millis cal (of_occurred_at fc)) (\<lambda>at.
        case hm_get (mn_facts s) (of_source_id fc) of
          Some old \<Rightarrow>
            if \<not> (mf_kind old = OperationalKind \<and> mf_deal old = of_deal_id fc
                  \<and> (mf_model old = None \<or> of_model fc = None \<or> mf_model old = of_model fc)
                  \<and> mf_occurred_at old = at \<and> mf_spent old = Some (of_spent fc))
            then Inl ConflictingFact
            else if mf_model old = None \<and> of_model fc \<noteq> None
            then Inr (put_fact (of_source_id fc) (old\<lparr>mf_model := of_model fc, mf_recorded_at := now\<rparr>) s)
            else Inr s
        | None \<Rightarrow>
            Inr (put_fact (of_source_id fc)
              ((new_fact OperationalKind (of_deal_id fc) (of_model fc) at now)\<lparr>mf_spent := Some (of_spent fc)\<rparr>) s)))"

definition classify_expense :: "string \<Rightarrow> expense_breakdown \<Rightarrow> money_tables \<Rightarrow> (money_tables, usage_msg) result" where
  "classify_expense source parts s =
     and_then (ok_or (case hm_get (mn_facts s) source of
                        Some f \<Rightarrow> if mf_kind f \<noteq> OperationalKind then Some f else None | None \<Rightarrow> None) FactNotFound) (\<lambda>f.
     and_then (fact_amount f) (\<lambda>amount_opt.
     case amount_opt of
       None \<Rightarrow> Inr s
     | Some amount \<Rightarrow>
         and_then (breakdown_total parts) (\<lambda>total.
         and_then (ensure (total \<le> amount) BreakdownAboveExpense) (\<lambda>_.
         and_then (case eb_probe_tokens parts of
             Some tokens \<Rightarrow> ensure (mf_kind f = AccrualKind \<and> amount > 0 \<and> tokens \<le> TICK_SIZE
                 \<and> eb_consumption parts = paid_probe_cost amount tokens
                 \<and> eb_commission parts = 0 \<and> eb_burns parts = 0 \<and> eb_unused_capacity parts = 0) InvalidProbeProof
           | None \<Rightarrow> Inr ()) (\<lambda>_.
         and_then (case mf_probe_tokens f of
             Some previous \<Rightarrow> ensure (case eb_probe_tokens parts of Some tokens \<Rightarrow> tokens \<ge> previous | None \<Rightarrow> False) ProbeProofShrinks
           | None \<Rightarrow> Inr ()) (\<lambda>_.
         let f' = f\<lparr>mf_consumption := eb_consumption parts, mf_commission := eb_commission parts, mf_burns := eb_burns parts,
                    mf_unused_capacity := eb_unused_capacity parts, mf_probe_tokens := eb_probe_tokens parts\<rparr> in
         Inr (if f' = f then s else put_fact source f' s)))))))"

section \<open>Prices\<close>

definition record_deal_price_in :: "string \<Rightarrow> nat \<Rightarrow> money_tables \<Rightarrow> (money_tables, usage_msg) result" where
  "record_deal_price_in deal price s =
     (if \<not> price > 0 then Inl EmptyPrice
      else
        case hm_get (mn_prices s) deal of
          Some previous \<Rightarrow> if previous = price then Inr s else Inl PriceChanged
        | None \<Rightarrow> Inr (s\<lparr>mn_prices := hm_insert deal price (mn_prices s)\<rparr>))"

section \<open>The current purchase and its journal\<close>

record quota_journal =
  qj_deal :: string
  qj_ticks :: "nat option"
  qj_price :: "nat option"
  qj_closed :: bool
  qj_pending_deals :: "string list"

datatype journal_file = JournalAbsent | JournalBroken | JournalStored quota_journal

text \<open>A replacement of the journal takes effect, does not, or takes effect and then reports a failure.\<close>

datatype journal_io = JournalOk | JournalFailed | JournalUnsynced

record usage_ledger =
  ul_tables :: money_tables
  ul_journal :: journal_file

text \<open>What a call meets: how its write of the journal ends, and whether the database takes its writes.\<close>

record quota_io =
  qi_write :: journal_io
  qi_db :: bool

type_synonym 'a ledger_run = "('a, usage_msg, usage_ledger) run"

definition read_quota_journal :: "quota_journal option ledger_run" where
  "read_quota_journal = run_get (\<lambda>l. run_pure
     (case ul_journal l of
        JournalAbsent \<Rightarrow> Inr None
      | JournalBroken \<Rightarrow> Inl JournalUnreadable
      | JournalStored r \<Rightarrow> Inr (Some
          (if qj_ticks r = None \<and> qj_price r = None \<and> qj_pending_deals r = [] then r\<lparr>qj_pending_deals := [qj_deal r]\<rparr> else r))))"

definition replace_journal :: "quota_io \<Rightarrow> journal_file \<Rightarrow> unit ledger_run" where
  "replace_journal io file =
     (case qi_write io of
        JournalOk \<Rightarrow> run_modify (\<lambda>l. l\<lparr>ul_journal := file\<rparr>)
      | JournalFailed \<Rightarrow> run_pure (Inl JournalWrite)
      | JournalUnsynced \<Rightarrow> run_then (run_modify (\<lambda>l. l\<lparr>ul_journal := file\<rparr>)) (\<lambda>_. run_pure (Inl JournalWrite)))"

definition write_quota_journal :: "quota_io \<Rightarrow> quota_journal \<Rightarrow> unit ledger_run" where
  "write_quota_journal io r = replace_journal io (JournalStored r)"

definition quota_row :: "money_tables \<Rightarrow> quota_journal option" where
  "quota_row s = map_option (\<lambda>q. \<lparr>qj_deal = qr_deal q, qj_ticks = Some (qr_ticks q), qj_price = Some (qr_price q),
     qj_closed = qr_closed q, qj_pending_deals = []\<rparr>) (mn_quota s)"

text \<open>A statement on its own: it takes effect at once, or the database refuses it.\<close>

definition db_write :: "quota_io \<Rightarrow> (money_tables \<Rightarrow> (money_tables, usage_msg) result) \<Rightarrow> unit ledger_run" where
  "db_write io f = run_get (\<lambda>l.
     case f (ul_tables l) of
       Inl e \<Rightarrow> run_pure (Inl e)
     | Inr s \<Rightarrow> if s = ul_tables l then run_pure (Inr ())
         else if qi_db io then run_modify (\<lambda>l. l\<lparr>ul_tables := s\<rparr>) else run_pure (Inl DatabaseWrite))"

definition put_quota_row :: "quota_journal \<Rightarrow> nat \<Rightarrow> nat \<Rightarrow> money_tables \<Rightarrow> money_tables" where
  "put_quota_row r ticks price s =
     s\<lparr>mn_quota := Some \<lparr>qr_deal = qj_deal r, qr_ticks = ticks, qr_price = price,
        qr_closed = (qj_closed r \<or> facts_of SettlementKind (qj_deal r) s \<noteq> [])\<rparr>\<rparr>"

text \<open>The row the journal asks for; the row of another deal gives way.\<close>

definition restore_row :: "quota_io \<Rightarrow> quota_journal \<Rightarrow> nat \<Rightarrow> nat \<Rightarrow> unit ledger_run" where
  "restore_row io r ticks price = run_get (\<lambda>l.
     case quota_row (ul_tables l) of
       Some old \<Rightarrow>
         if qj_deal old = qj_deal r then
           (if \<not> (qj_ticks old = qj_ticks r \<and> qj_price old = qj_price r) then run_pure (Inl QuotaTermsChanged)
            else if qj_closed old \<or> \<not> qj_closed r then run_pure (Inr ())
            else db_write io (\<lambda>s. Inr (put_quota_row r ticks price s)))
         else db_write io (\<lambda>s. Inr (put_quota_row r ticks price s))
     | None \<Rightarrow> db_write io (\<lambda>s. Inr (put_quota_row r ticks price s)))"

definition restore_quota :: "quota_io \<Rightarrow> bool \<Rightarrow> unit ledger_run" where
  "restore_quota io require_terms =
     run_then read_quota_journal (\<lambda>record_opt.
     case record_opt of
       None \<Rightarrow> run_pure (Inr ())
     | Some r \<Rightarrow>
         if qj_pending_deals r \<noteq> [] then run_pure (ensure (\<not> require_terms) PurchaseStateUnavailable)
         else
           case (qj_ticks r, qj_price r) of
             (Some ticks, Some price) \<Rightarrow>
               if \<not> (ticks > 0 \<and> price > 0) then run_pure (Inl EmptyQuota)
               else if checked_mul u128_max ticks price = None then run_pure (Inl QuotaOverflow)
               else
                 run_then (db_write io (record_deal_price_in (qj_deal r) price)) (\<lambda>_.
                 restore_row io r ticks price)
           | _ \<Rightarrow> run_pure (ensure (\<not> require_terms) PurchaseTermsUnavailable))"

definition begin_deal_quota :: "quota_io \<Rightarrow> string \<Rightarrow> unit ledger_run" where
  "begin_deal_quota io deal =
     run_then read_quota_journal (\<lambda>record_opt.
     let r = (case record_opt of Some r \<Rightarrow> r
              | None \<Rightarrow> \<lparr>qj_deal = deal, qj_ticks = None, qj_price = None, qj_closed = False, qj_pending_deals = []\<rparr>) in
     if deal \<in> set (qj_pending_deals r) then run_pure (Inr ())
     else write_quota_journal io (r\<lparr>qj_pending_deals := qj_pending_deals r @ [deal]\<rparr>))"

definition discard_unopened_deal_quota :: "quota_io \<Rightarrow> string \<Rightarrow> unit ledger_run" where
  "discard_unopened_deal_quota io deal =
     run_then read_quota_journal (\<lambda>record_opt.
     case record_opt of
       None \<Rightarrow> run_pure (Inr ())
     | Some r \<Rightarrow>
         if deal \<notin> set (qj_pending_deals r) then run_pure (Inr ())
         else
           let r' = r\<lparr>qj_pending_deals := filter (\<lambda>d. d \<noteq> deal) (qj_pending_deals r)\<rparr> in
           if qj_ticks r' \<noteq> None \<or> qj_price r' \<noteq> None \<or> qj_pending_deals r' \<noteq> [] then write_quota_journal io r'
           else replace_journal io JournalAbsent)"

text \<open>The purchase on record: the journal's, or else the database's.\<close>

definition recorded_purchase :: "quota_journal option ledger_run" where
  "recorded_purchase =
     run_then read_quota_journal (\<lambda>record_opt.
     case record_opt of Some r \<Rightarrow> run_pure (Inr (Some r)) | None \<Rightarrow> run_get (\<lambda>l. run_pure (Inr (quota_row (ul_tables l)))))"

definition open_deal_quota :: "quota_io \<Rightarrow> string \<Rightarrow> nat \<Rightarrow> nat \<Rightarrow> unit ledger_run" where
  "open_deal_quota io deal ticks price =
     (if \<not> (ticks > 0 \<and> price > 0) then run_pure (Inl EmptyQuota)
      else if checked_mul u128_max ticks price = None then run_pure (Inl QuotaOverflow)
      else
        run_then recorded_purchase (\<lambda>previous.
        let fresh = \<lparr>qj_deal = deal, qj_ticks = Some ticks, qj_price = Some price, qj_closed = False, qj_pending_deals = []\<rparr> in
        run_then (run_pure
          (case previous of
             Some p \<Rightarrow>
               if qj_deal p = deal then
                 (if (qj_ticks p = None \<or> qj_ticks p = Some ticks) \<and> (qj_price p = None \<or> qj_price p = Some price)
                  then Inr (fresh\<lparr>qj_closed := qj_closed p\<rparr>) else Inl QuotaTermsChanged)
               else Inr fresh
           | None \<Rightarrow> Inr fresh)) (\<lambda>r.
        run_then (write_quota_journal io r) (\<lambda>_.
        restore_quota io True))))"

definition has_deal_quota :: "string \<Rightarrow> bool ledger_run" where
  "has_deal_quota deal =
     run_then read_quota_journal (\<lambda>record_opt.
     case record_opt of
       Some r \<Rightarrow> run_pure (Inr (qj_pending_deals r = [] \<and> qj_deal r = deal \<and> qj_ticks r \<noteq> None \<and> qj_price r \<noteq> None))
     | None \<Rightarrow> run_get (\<lambda>l. run_pure (Inr (case mn_quota (ul_tables l) of Some q \<Rightarrow> qr_deal q = deal | None \<Rightarrow> False))))"

definition close_deal_quota :: "quota_io \<Rightarrow> string \<Rightarrow> unit ledger_run" where
  "close_deal_quota io deal =
     run_then recorded_purchase (\<lambda>previous.
     run_then (case previous of
         Some r \<Rightarrow> if qj_deal r = deal \<and> \<not> qj_closed r then write_quota_journal io (r\<lparr>qj_closed := True\<rparr>) else run_pure (Inr ())
       | None \<Rightarrow> run_pure (Inr ())) (\<lambda>_.
     db_write io (\<lambda>s. Inr (close_quota_row deal s))))"

definition apply_deal_expenses ::
    "(int \<Rightarrow> bool) \<Rightarrow> quota_io \<Rightarrow> string \<Rightarrow> accrual_fact list \<Rightarrow> settlement_fact option \<Rightarrow> int \<Rightarrow> unit ledger_run" where
  "apply_deal_expenses cal io deal accruals settlement now =
     run_then (db_write io (deal_expenses_in cal deal accruals settlement now)) (\<lambda>_.
     if settlement \<noteq> None then close_deal_quota io deal else run_pure (Inr ()))"

definition apply_settlement :: "(int \<Rightarrow> bool) \<Rightarrow> quota_io \<Rightarrow> settlement_fact \<Rightarrow> int \<Rightarrow> unit ledger_run" where
  "apply_settlement cal io fc now = apply_deal_expenses cal io (sf_deal_id fc) [] (Some fc) now"

text \<open>The purchase as it is shown: limit, used and what remains, in raw SHELL.\<close>

definition quota_with_cost_in :: "(string \<Rightarrow> nat \<Rightarrow> (nat, usage_msg) result) \<Rightarrow> money_tables \<Rightarrow> (nat \<times> nat \<times> nat, usage_msg) result" where
  "quota_with_cost_in consumed s =
     (case mn_quota s of
        None \<Rightarrow> Inr (0, 0, 0)
      | Some q \<Rightarrow>
          and_then (ok_or (checked_mul u128_max (qr_ticks q) (qr_price q)) QuotaOverflow) (\<lambda>limit.
          and_then (consumed (qr_deal q) (qr_price q)) (\<lambda>used.
          Inr (limit, used, if qr_closed q then 0 else saturating_sub limit used))))"

definition quota_in :: "request_tables \<Rightarrow> money_tables \<Rightarrow> (nat \<times> nat \<times> nat, usage_msg) result" where
  "quota_in h s = quota_with_cost_in (\<lambda>deal price. consumed_cost_in deal price h) s"

text \<open>The admission snapshot of a model: whether its history is complete, its accepted totals, and the purchase priced from the stored charge.\<close>

definition admission_snapshot ::
    "quota_io \<Rightarrow> request_tables \<Rightarrow> string \<Rightarrow> (bool \<times> model_totals \<times> nat \<times> nat \<times> nat) ledger_run" where
  "admission_snapshot io h model =
     run_then (restore_quota io True) (\<lambda>_.
     run_get (\<lambda>l.
     let totals = read_model model h in
     run_pure (and_then (quota_with_cost_in (\<lambda>deal price. tokens_cost price (read_deal deal h)) (ul_tables l)) (\<lambda>quota.
       Inr (mo_incomplete totals = 0, totals, quota)))))"

end
