(* ===== verification/UsageAdmission.thy ===== *)
theory UsageAdmission
  imports UsageStore
begin

text \<open>
  The running totals of the usage store against its history.  Every operation moves the totals by what
  the request it touches contributed before and contributes now; the theory shows that the totals
  are at all times what a walk over the whole history would give.
\<close>

section \<open>The reference: a walk over the history\<close>

text \<open>The calls that count: accepted, not the marker of a running call, of a request that \<open>P\<close> selects.\<close>

definition counts :: "call_key \<times> call_row \<Rightarrow> bool" where
  "counts = (\<lambda>((_, _, i), cl). cl_accepted cl \<and> i \<noteq> ''in_progress'')"

definition accepted_calls :: "(request_row \<Rightarrow> bool) \<Rightarrow> request_tables \<Rightarrow> call_row list" where
  "accepted_calls P s = map snd (filter (\<lambda>((r, p, i), cl).
     counts ((r, p, i), cl) \<and> (case hm_get (ut_requests s) r of Some row \<Rightarrow> P row | None \<Rightarrow> False)) (ut_calls s))"

definition plain_input :: "call_row \<Rightarrow> nat" where
  "plain_input cl = cl_input cl - cl_cache_read cl - cl_cache_write cl"

text \<open>A request is complete when it has finished, its history is whole, every call of it was accepted, and it has an answer or was rejected before it got a deal.\<close>

definition request_complete :: "request_tables \<Rightarrow> string \<Rightarrow> request_row \<Rightarrow> bool" where
  "request_complete s r row \<longleftrightarrow>
     rr_finished_at row \<noteq> None \<and> rr_history_complete row \<and> (\<forall>(k, cl) \<in> set (calls_of r s). cl_accepted cl)
     \<and> ((\<exists>i cl. ((r, ''answer'', i), cl) \<in> set (calls_of r s)) \<or> rr_outcome row = ''rejected'' \<and> rr_deal row = None)"

definition recount_model :: "string \<Rightarrow> request_tables \<Rightarrow> model_totals" where
  "recount_model m s =
     (let cs = accepted_calls (\<lambda>row. rr_model row = m) s in
      \<lparr>mo_input = sum_list (map plain_input cs), mo_output = sum_list (map cl_output cs),
       mo_cache_read = sum_list (map cl_cache_read cs), mo_cache_write = sum_list (map cl_cache_write cs),
       mo_incomplete = length (filter (\<lambda>(r, row). rr_model row = m \<and> \<not> request_complete s r row) (ut_requests s))\<rparr>)"

definition recount_deal :: "string \<Rightarrow> request_tables \<Rightarrow> nat" where
  "recount_deal d s = sum_list (map cl_charged (accepted_calls (\<lambda>row. rr_deal row = Some d) s))"

section \<open>What one request contributes\<close>

definition weight :: "(call_row \<Rightarrow> nat) \<Rightarrow> (call_key \<times> call_row) list \<Rightarrow> nat" where
  "weight h cs = sum_list (map (h \<circ> snd) (filter counts cs))"

lemma weight_simps [simp]:
  "weight h [] = 0" "weight h (x # cs) = (if counts x then h (snd x) else 0) + weight h cs"
  by (simp_all add: weight_def)

lemma row_usage_Inr:
  "row_usage cl = Inr u \<Longrightarrow> u = \<lparr>bu_input_tokens = cl_input cl, bu_output_tokens = cl_output cl, bu_total_tokens = cl_input cl + cl_output cl,
     bu_charged_tokens = None, bu_cache_read_tokens = cl_cache_read cl, bu_cache_write_tokens = cl_cache_write cl\<rparr>"
  by (auto simp: row_usage_def billing_usage_new_def result_simps checked_simps Let_def split: if_splits)

text \<open>A step of the tally.\<close>

definition tallied :: "tally \<Rightarrow> (call_key \<times> call_row) list \<Rightarrow> tally \<Rightarrow> bool" where
  "tallied t cs t' \<longleftrightarrow>
     mo_input (ty_totals t') = mo_input (ty_totals t) + weight plain_input cs
     \<and> mo_output (ty_totals t') = mo_output (ty_totals t) + weight cl_output cs
     \<and> mo_cache_read (ty_totals t') = mo_cache_read (ty_totals t) + weight cl_cache_read cs
     \<and> mo_cache_write (ty_totals t') = mo_cache_write (ty_totals t) + weight cl_cache_write cs
     \<and> ty_charged t' = ty_charged t + weight cl_charged cs
     \<and> (ty_complete t' \<longleftrightarrow> ty_complete t \<and> (\<forall>(k, cl) \<in> set cs. cl_accepted cl))
     \<and> (ty_answer t' \<longleftrightarrow> ty_answer t \<or> (\<exists>r i cl. ((r, ''answer'', i), cl) \<in> set cs))"

lemma tally_call_step: "tally_call t x = Inr t' \<Longrightarrow> tallied t [x] t'"
  by (auto simp: tally_call_def tallied_def counts_def Let_def result_simps add_counter_def checked_simps plain_input_def
      dest!: row_usage_Inr split: if_splits prod.splits)

lemma tallied_trans: "tallied t xs t1 \<Longrightarrow> tallied t1 ys t2 \<Longrightarrow> tallied t (xs @ ys) t2"
  by (auto simp: tallied_def weight_def)

lemma tally_calls: "try_fold tally_call t cs = Inr t' \<Longrightarrow> tallied t cs t'"
proof (induction cs arbitrary: t)
  case Nil
  then show ?case by (auto simp: tallied_def)
next
  case (Cons x cs)
  then obtain t1 where "tally_call t x = Inr t1" "try_fold tally_call t1 cs = Inr t'" by (auto simp: result_simps)
  then show ?case using tallied_trans [of t "[x]" t1 cs t'] tally_call_step Cons.IH by fastforce
qed

lemma request_totals_Inr:
  assumes "request_totals_in r s = Inr t"
  shows "\<exists>row. hm_get (ut_requests s) r = Some row \<and> rt_model t = rr_model row \<and> rt_deal t = rr_deal row
     \<and> rt_charged t = weight cl_charged (calls_of r s)
     \<and> mo_input (rt_totals t) = weight plain_input (calls_of r s) \<and> mo_output (rt_totals t) = weight cl_output (calls_of r s)
     \<and> mo_cache_read (rt_totals t) = weight cl_cache_read (calls_of r s) \<and> mo_cache_write (rt_totals t) = weight cl_cache_write (calls_of r s)
     \<and> mo_incomplete (rt_totals t) = (if request_complete s r row then 0 else 1)"
proof -
  obtain row tl where row: "hm_get (ut_requests s) r = Some row"
    and tl: "try_fold tally_call \<lparr>ty_complete = (rr_finished_at row \<noteq> None \<and> rr_history_complete row), ty_answer = False,
        ty_totals = zero_totals, ty_charged = 0\<rparr> (calls_of r s) = Inr tl"
    and t: "t = \<lparr>rt_model = rr_model row, rt_deal = rr_deal row,
       rt_totals = (ty_totals tl)\<lparr>mo_incomplete := if ty_complete tl \<and> (ty_answer tl \<or> rr_outcome row = ''rejected'' \<and> rr_deal row = None) then 0 else 1\<rparr>,
       rt_charged = ty_charged tl\<rparr>"
    using assms by (auto simp: request_totals_in_def result_simps Let_def)
  have own: "k = r" if "((k, p, i), cl) \<in> set (calls_of r s)" for k p i cl using that by (auto simp: calls_of_def)
  then have "(\<exists>k i cl. ((k, ''answer'', i), cl) \<in> set (calls_of r s)) \<longleftrightarrow> (\<exists>i cl. ((r, ''answer'', i), cl) \<in> set (calls_of r s))" by blast
  then have "request_complete s r row \<longleftrightarrow> ty_complete tl \<and> (ty_answer tl \<or> rr_outcome row = ''rejected'' \<and> rr_deal row = None)"
    using tally_calls [OF tl] by (auto simp: tallied_def request_complete_def)
  then show ?thesis
    using row tally_calls [OF tl] by (simp add: t tallied_def zero_totals_def)
qed

section \<open>The invariant\<close>

definition contribution :: "request_tables \<Rightarrow> string \<Rightarrow> request_totals" where
  "contribution s r = (case request_totals_in r s of Inr t \<Rightarrow> t
     | Inl _ \<Rightarrow> \<lparr>rt_model = [], rt_deal = None, rt_totals = zero_totals, rt_charged = 0\<rparr>)"

abbreviation requests_of :: "request_tables \<Rightarrow> string set" where
  "requests_of s \<equiv> set (hm_keys (ut_requests s))"

definition model_share :: "(model_totals \<Rightarrow> nat) \<Rightarrow> string \<Rightarrow> request_totals \<Rightarrow> nat" where
  "model_share f m t = (if rt_model t = m then f (rt_totals t) else 0)"

definition deal_share :: "string \<Rightarrow> request_totals \<Rightarrow> nat" where
  "deal_share d t = (if rt_deal t = Some d then rt_charged t else 0)"

abbreviation counters :: "(model_totals \<Rightarrow> nat) set" where
  "counters \<equiv> {mo_input, mo_output, mo_cache_read, mo_cache_write, mo_incomplete}"

definition admission_inv :: "request_tables \<Rightarrow> bool" where
  "admission_inv s \<longleftrightarrow>
     hm_wf (ut_requests s) \<and> hm_wf (ut_calls s)
     \<and> (\<forall>r \<in> requests_of s. is_ok (request_totals_in r s))
     \<and> (\<forall>m. \<forall>f \<in> counters. f (read_model m s) = (\<Sum>r \<in> requests_of s. model_share f m (contribution s r)))
     \<and> (\<forall>d. read_deal d s = (\<Sum>r \<in> requests_of s. deal_share d (contribution s r)) \<and> read_deal d s \<le> u128_max)"

lemma swap_counter_Inr: "swap_counter a b c = Inr x \<longleftrightarrow> b \<le> a \<and> x = a - b + c \<and> x \<le> u128_max"
  by (auto simp: swap_counter_def add_counter_def result_simps checked_simps)

lemma swap_totals_Inr:
  "swap_totals a b c = Inr x \<longleftrightarrow> (\<forall>f \<in> counters. f b \<le> f a \<and> f x = f a - f b + f c \<and> f x \<le> u128_max)"
  by (cases x) (auto simp: swap_totals_def result_simps swap_counter_Inr)

text \<open>Replacing one summand.\<close>

lemma sum_swap:
  fixes g g' :: "string \<Rightarrow> nat"
  assumes "finite A" and "A' = insert r A" and "\<And>x. x \<in> A \<Longrightarrow> x \<noteq> r \<Longrightarrow> g' x = g x" and "b = (if r \<in> A then g r else 0)"
  shows "sum g' A' = sum g A - b + g' r" "b \<le> sum g A"
proof -
  have eq: "sum g' (A - {r}) = sum g (A - {r})" using assms(3) by (intro sum.cong) auto
  have new: "sum g' A' = g' r + sum g' (A - {r})"
    using assms(1,2) by (simp add: sum.insert_remove)
  have old: "sum g A = b + sum g (A - {r})" using assms(1,4) by (simp add: sum.remove)
  show "b \<le> sum g A" using old by simp
  show "sum g' A' = sum g A - b + g' r" using new old eq by simp
qed

lemma request_totals_local:
  "hm_get (ut_requests s) r = hm_get (ut_requests s') r \<Longrightarrow> calls_of r s = calls_of r s' \<Longrightarrow> request_totals_in r s = request_totals_in r s'"
  by (simp add: request_totals_in_def)

lemma update_totals_frame:
  assumes "update_totals_in r old s1 = Inr s2"
  shows "ut_requests s2 = ut_requests s1" "ut_calls s2 = ut_calls s1"
  using assms by (auto simp: update_totals_in_def result_simps Let_def split: if_splits option.splits)

lemma update_totals_cases:
  assumes "update_totals_in r old s1 = Inr s2"
  obtains new where "request_totals_in r s1 = Inr new"
    "old = Some new \<and> s2 = s1 \<or>
     swap_totals (read_model (rt_model new) s1) (case old of Some t \<Rightarrow> rt_totals t | None \<Rightarrow> zero_totals) (rt_totals new) = Inr (read_model (rt_model new) s2)
     \<and> (\<forall>m. m \<noteq> rt_model new \<longrightarrow> read_model m s2 = read_model m s1)
     \<and> (\<forall>d. rt_deal new = Some d \<longrightarrow>
           swap_counter (read_deal d s1) (case old of Some t \<Rightarrow> if rt_deal t = rt_deal new then rt_charged t else 0 | None \<Rightarrow> 0) (rt_charged new)
             = Inr (read_deal d s2))
     \<and> (\<forall>d. rt_deal new \<noteq> Some d \<longrightarrow> read_deal d s2 = read_deal d s1)"
proof -
  obtain new where new: "request_totals_in r s1 = Inr new" using assms by (auto simp: update_totals_in_def result_simps)
  show ?thesis
  proof (cases "old = Some new")
    case True
    then show ?thesis using assms new that by (simp add: update_totals_in_def)
  next
    case False
    then obtain totals where t: "swap_totals (read_model (rt_model new) s1) (case old of Some t \<Rightarrow> rt_totals t | None \<Rightarrow> zero_totals) (rt_totals new) = Inr totals"
      using assms new by (auto simp: update_totals_in_def result_simps)
    define s3 where "s3 = s1\<lparr>ut_admission_models := hm_insert (rt_model new) totals (ut_admission_models s1)\<rparr>"
    have m: "read_model (rt_model new) s3 = totals" "\<And>m. m \<noteq> rt_model new \<Longrightarrow> read_model m s3 = read_model m s1" "\<And>d. read_deal d s3 = read_deal d s1"
      by (simp_all add: s3_def read_model_def read_deal_def hm_simps)
    show ?thesis
    proof (cases "rt_deal new")
      case None
      then have "s2 = s3" using assms new t False by (simp add: update_totals_in_def s3_def Let_def)
      then show ?thesis using that [OF new] None t m by auto
    next
      case (Some d)
      then obtain n where n: "swap_counter (read_deal d s1) (case old of Some t \<Rightarrow> if rt_deal t = rt_deal new then rt_charged t else 0 | None \<Rightarrow> 0) (rt_charged new) = Inr n"
          "s2 = s3\<lparr>ut_admission_deals := hm_insert d n (ut_admission_deals s1)\<rparr>"
        using assms new t False by (auto simp: update_totals_in_def s3_def [symmetric] Let_def result_simps m(3))
      then have "read_model m s2 = read_model m s3" "read_deal d s2 = n" "e \<noteq> d \<Longrightarrow> read_deal e s2 = read_deal e s3" for m e
        by (simp_all add: read_model_def read_deal_def hm_simps s3_def)
      then show ?thesis using that [OF new] Some t m n(1) by auto
    qed
  qed
qed

lemma update_keeps:
  assumes inv: "admission_inv s" and wf: "hm_wf (ut_requests s1)" "hm_wf (ut_calls s1)"
    and tabs: "ut_admission_models s1 = ut_admission_models s" "ut_admission_deals s1 = ut_admission_deals s"
    and keys: "requests_of s1 = insert r (requests_of s)"
    and others: "\<And>x. x \<noteq> r \<Longrightarrow> request_totals_in x s1 = request_totals_in x s"
    and old: "old = (if r \<in> requests_of s then Some (contribution s r) else None)"
    and bound: "\<And>t. r \<in> requests_of s \<Longrightarrow> request_totals_in r s1 = Inr t \<Longrightarrow>
        rt_model t = rt_model (contribution s r) \<and> (rt_deal (contribution s r) = None \<or> rt_deal (contribution s r) = rt_deal t)"
    and ok: "update_totals_in r old s1 = Inr s2"
  shows "admission_inv s2"
proof -
  let ?A = "requests_of s" and ?A' = "requests_of s2"
  have frame: "ut_requests s2 = ut_requests s1" "ut_calls s2 = ut_calls s1" using update_totals_frame [OF ok] .
  have tot: "request_totals_in x s2 = request_totals_in x s1" for x
    using frame by (intro request_totals_local) (simp_all add: calls_of_def)
  have A': "?A' = insert r ?A" using keys frame(1) by simp
  obtain new where new: "request_totals_in r s1 = Inr new"
    and upd: "old = Some new \<and> s2 = s1 \<or>
     swap_totals (read_model (rt_model new) s1) (case old of Some t \<Rightarrow> rt_totals t | None \<Rightarrow> zero_totals) (rt_totals new) = Inr (read_model (rt_model new) s2)
     \<and> (\<forall>m. m \<noteq> rt_model new \<longrightarrow> read_model m s2 = read_model m s1)
     \<and> (\<forall>d. rt_deal new = Some d \<longrightarrow>
           swap_counter (read_deal d s1) (case old of Some t \<Rightarrow> if rt_deal t = rt_deal new then rt_charged t else 0 | None \<Rightarrow> 0) (rt_charged new)
             = Inr (read_deal d s2))
     \<and> (\<forall>d. rt_deal new \<noteq> Some d \<longrightarrow> read_deal d s2 = read_deal d s1)"
    by (rule update_totals_cases [OF ok])
  have con: "contribution s2 r = new" "\<And>x. x \<noteq> r \<Longrightarrow> contribution s2 x = contribution s x"
    using new others tot by (simp_all add: contribution_def)
  have read: "read_model m s1 = read_model m s" "read_deal d s1 = read_deal d s" for m d
    using tabs by (simp_all add: read_model_def read_deal_def)
  have sums: "f (read_model m s) = (\<Sum>x\<in>?A. model_share f m (contribution s x))" if "f \<in> counters" for f m
    using inv that unfolding admission_inv_def by blast
  have dsums: "read_deal d s = (\<Sum>x\<in>?A. deal_share d (contribution s x))" "read_deal d s \<le> u128_max" for d
    using inv unfolding admission_inv_def by blast+
  have fin: "finite ?A" by simp
  have oldr: "(case old of Some t \<Rightarrow> P t | None \<Rightarrow> d) = (if r \<in> ?A then P (contribution s r) else d)" for P :: "request_totals \<Rightarrow> 'b" and d
    by (simp add: old)
  have same: "rt_model new = rt_model (contribution s r)" "rt_deal (contribution s r) = None \<or> rt_deal (contribution s r) = rt_deal new"
    if "r \<in> ?A" using bound [OF that new] by auto
  have M: "f (read_model m s2) = (\<Sum>x\<in>?A'. model_share f m (contribution s2 x))" if f: "f \<in> counters" for f m
  proof -
    define b where "b = (if r \<in> ?A then model_share f m (contribution s r) else 0)"
    note sw = sum_swap [of ?A ?A' r "\<lambda>x. model_share f m (contribution s2 x)" "\<lambda>x. model_share f m (contribution s x)" b]
    have *: "(\<Sum>x\<in>?A'. model_share f m (contribution s2 x)) = f (read_model m s) - b + model_share f m new" "b \<le> f (read_model m s)"
      using sw fin A' con b_def sums [OF f] by auto
    show ?thesis
    proof (cases "old = Some new \<and> s2 = s1")
      case True
      then have "r \<in> ?A" "contribution s r = new" using old by (auto split: if_splits)
      then show ?thesis using * True read by (simp add: b_def)
    next
      case False
      note u = upd [simplified False simp_thms]
      show ?thesis
      proof (cases "m = rt_model new")
        case True
        have "f (case old of Some t \<Rightarrow> rt_totals t | None \<Rightarrow> zero_totals) = b"
          using f same True by (auto simp: oldr b_def model_share_def zero_totals_def)
        then show ?thesis using u f * True unfolding swap_totals_Inr read by (auto simp: model_share_def)
      next
        case m: False
        then have "b = 0" "model_share f m new = 0" using same by (auto simp: b_def model_share_def)
        then show ?thesis using u m * read by simp
      qed
    qed
  qed
  have D: "read_deal d s2 = (\<Sum>x\<in>?A'. deal_share d (contribution s2 x)) \<and> read_deal d s2 \<le> u128_max" for d
  proof -
    define b where "b = (if r \<in> ?A then deal_share d (contribution s r) else 0)"
    note sw = sum_swap [of ?A ?A' r "\<lambda>x. deal_share d (contribution s2 x)" "\<lambda>x. deal_share d (contribution s x)" b]
    have *: "(\<Sum>x\<in>?A'. deal_share d (contribution s2 x)) = read_deal d s - b + deal_share d new" "b \<le> read_deal d s"
      using sw fin A' con b_def dsums by auto
    show ?thesis
    proof (cases "old = Some new \<and> s2 = s1")
      case True
      then have "r \<in> ?A" "contribution s r = new" using old by (auto split: if_splits)
      then show ?thesis using * True read dsums(2) by (simp add: b_def)
    next
      case False
      note u = upd [simplified False simp_thms]
      show ?thesis
      proof (cases "rt_deal new = Some d")
        case True
        have "(case old of Some t \<Rightarrow> if rt_deal t = rt_deal new then rt_charged t else 0 | None \<Rightarrow> 0) = b"
          using True by (auto simp: oldr b_def deal_share_def)
        then have "swap_counter (read_deal d s1) b (rt_charged new) = Inr (read_deal d s2)" using u True by simp
        then show ?thesis using * True unfolding swap_counter_Inr read by (auto simp: deal_share_def)
      next
        case d: False
        then have "b = 0" "deal_share d new = 0" using same by (auto simp: b_def deal_share_def)
        then show ?thesis using u d * read dsums(2) by simp
      qed
    qed
  qed
  have "is_ok (request_totals_in x s2)" if "x \<in> ?A'" for x
    using that inv A' new others tot unfolding admission_inv_def by (cases "x = r") auto
  then have oks: "\<forall>x \<in> ?A'. is_ok (request_totals_in x s2)" by blast
  have wfs: "hm_wf (ut_requests s2)" "hm_wf (ut_calls s2)" using wf frame by simp_all
  have Ms: "\<forall>m. \<forall>f \<in> counters. f (read_model m s2) = (\<Sum>x\<in>?A'. model_share f m (contribution s2 x))" using M by blast
  have "\<forall>d. read_deal d s2 = (\<Sum>x\<in>?A'. deal_share d (contribution s2 x)) \<and> read_deal d s2 \<le> u128_max" using D by blast
  then show ?thesis unfolding admission_inv_def by (intro conjI wfs oks Ms)
qed

section \<open>Every operation keeps it\<close>

lemma filter_update_other:
  assumes "\<not> Q k"
  shows "filter (\<lambda>(x, _). Q x) (AList.update k v m) = filter (\<lambda>(x, _). Q x) m"
  by (induction m) (use assms in auto)

lemma calls_insert_other: "x \<noteq> r \<Longrightarrow> filter (\<lambda>((y, _, _), _). y = x) (hm_insert (r, p, i) cl calls) = filter (\<lambda>((y, _, _), _). y = x) calls"
  using filter_update_other [of "\<lambda>(y, _, _). y = x" "(r, p, i)" cl calls] by (simp add: hm_insert_def case_prod_unfold)

lemma bind_calls_other: "x \<noteq> r \<Longrightarrow> filter (\<lambda>((y, _, _), _). y = x) (bind_calls r d calls) = filter (\<lambda>((y, _, _), _). y = x) calls"
  by (induction calls) (auto simp: bind_calls_def)

lemma bind_calls_wf: "hm_wf calls \<Longrightarrow> hm_wf (bind_calls r d calls)"
  by (simp add: hm_wf_def hm_keys_def bind_calls_def comp_def case_prod_unfold)

lemma known_request:
  assumes "admission_inv s" and "hm_get (ut_requests s) r = Some row"
  shows "r \<in> requests_of s" "request_totals_in r s = Inr (contribution s r)"
    "rt_model (contribution s r) = rr_model row" "rt_deal (contribution s r) = rr_deal row"
proof -
  show r: "r \<in> requests_of s" using assms(2) by (simp add: hm.keys_get)
  then obtain t where t: "request_totals_in r s = Inr t"
    using assms(1) by (auto simp: admission_inv_def is_ok_iff)
  then show "request_totals_in r s = Inr (contribution s r)" by (simp add: contribution_def)
  show "rt_model (contribution s r) = rr_model row" "rt_deal (contribution s r) = rr_deal row"
    using request_totals_Inr [OF t] assms(2) t by (auto simp: contribution_def)
qed

text \<open>An operation on the row and the calls of one known request.\<close>

lemma request_op_keeps:
  assumes inv: "admission_inv s" and row: "hm_get (ut_requests s) r = Some row" and old: "request_totals_in r s = Inr old"
    and s1: "ut_requests s1 = hm_insert r row' (ut_requests s) \<or> ut_requests s1 = ut_requests s \<and> row' = row"
    and tabs: "ut_admission_models s1 = ut_admission_models s" "ut_admission_deals s1 = ut_admission_deals s"
    and calls: "hm_wf (ut_calls s1)" "\<And>x. x \<noteq> r \<Longrightarrow> calls_of x s1 = calls_of x s"
    and row': "rr_model row' = rr_model row" "rr_deal row = None \<or> rr_deal row' = rr_deal row"
    and ok: "update_totals_in r (Some old) s1 = Inr s2"
  shows "admission_inv s2"
proof -
  note known = known_request [OF inv row]
  have wf: "hm_wf (ut_requests s)" using inv by (simp add: admission_inv_def)
  have get: "hm_get (ut_requests s1) x = (if x = r then Some row' else hm_get (ut_requests s) x)" for x
    using s1 row by (auto simp: hm_simps)
  have keys: "requests_of s1 = insert r (requests_of s)" by (auto simp: hm.keys_get get split: if_splits)
  have wf1: "hm_wf (ut_requests s1)" using s1 wf by (auto intro: hm.wf_insert)
  have others: "request_totals_in x s1 = request_totals_in x s" if "x \<noteq> r" for x
    using get calls(2) that by (intro request_totals_local) auto
  have bound: "rt_model t = rt_model (contribution s r) \<and> (rt_deal (contribution s r) = None \<or> rt_deal (contribution s r) = rt_deal t)"
    if "r \<in> requests_of s" "request_totals_in r s1 = Inr t" for t
    using request_totals_Inr [OF that(2)] get known row' by auto
  have old': "Some old = (if r \<in> requests_of s then Some (contribution s r) else None)" using known old by simp
  show ?thesis by (rule update_keeps [OF inv wf1 calls(1) tabs(1,2) keys others old' bound ok])
qed

lemma start_keeps:
  assumes inv: "admission_inv s" and ok: "start_request_at cal runtime r model protocol streamed at_ms s = Inr s'"
  shows "admission_inv s'"
proof (cases "hm_get (ut_requests s) r")
  case None
  obtain row where u: "update_totals_in r None (s\<lparr>ut_requests := hm_insert r row (ut_requests s)\<rparr>) = Inr s'"
    using ok None by (auto simp: start_request_at_def split: if_splits)
  let ?s1 = "s\<lparr>ut_requests := hm_insert r row (ut_requests s)\<rparr>"
  have new: "r \<notin> requests_of s" using None by (simp add: hm.keys_get)
  have wf: "hm_wf (ut_requests s)" "hm_wf (ut_calls s)" using inv by (simp_all add: admission_inv_def)
  have others: "request_totals_in x ?s1 = request_totals_in x s" if "x \<noteq> r" for x
    using that by (intro request_totals_local) (simp_all add: hm_simps calls_of_def)
  show ?thesis
    by (rule update_keeps [OF inv _ _ _ _ _ others _ _ u]) (use wf new in \<open>simp_all add: hm.wf_insert hm.keys_insert\<close>)
next
  case (Some row)
  then show ?thesis using ok inv by (auto simp: start_request_at_def split: if_splits)
qed

lemma link_keeps:
  assumes inv: "admission_inv s" and ok: "link_deal r deal s = Inr s'"
  shows "admission_inv s'"
proof -
  obtain old row where o: "request_totals_in r s = Inr old" "hm_get (ut_requests s) r = Some row" "rr_deal row = None \<or> rr_deal row = Some deal"
    "update_totals_in r (Some old) (s\<lparr>ut_requests := hm_insert r (row\<lparr>rr_deal := Some deal\<rparr>) (ut_requests s), ut_calls := bind_calls r deal (ut_calls s)\<rparr>) = Inr s'"
    using ok by (auto simp: link_deal_def result_simps split: if_splits)
  have "hm_wf (ut_calls s)" using inv by (simp add: admission_inv_def)
  then show ?thesis
    by (intro request_op_keeps [OF inv o(2,1) _ _ _ _ _ _ _ o(4), where row' = "row\<lparr>rr_deal := Some deal\<rparr>"])
      (use o(3) in \<open>auto simp: bind_calls_wf calls_of_def bind_calls_other\<close>)
qed

lemma store_call_frame:
  assumes "store_call r p i u a now row calls = Inr calls'" and "hm_wf calls"
  shows "hm_wf calls'" "x \<noteq> r \<Longrightarrow> filter (\<lambda>((y, _, _), _). y = x) calls' = filter (\<lambda>((y, _, _), _). y = x) calls"
  using assms by (auto simp: store_call_def hm.wf_insert calls_insert_other split: option.splits if_splits)

lemma resolve_marker_frame:
  assumes "hm_wf calls"
  shows "hm_wf (resolve_marker r p calls)" "x \<noteq> r \<Longrightarrow> filter (\<lambda>((y, _, _), _). y = x) (resolve_marker r p calls) = filter (\<lambda>((y, _, _), _). y = x) calls"
  using assms by (auto simp: resolve_marker_def hm.wf_insert calls_insert_other split: option.splits)

lemma call_keeps:
  assumes inv: "admission_inv s" and ok: "record_call_usage r p i u a now s = Inr s'"
  shows "admission_inv s'"
proof -
  obtain old row calls where o: "request_totals_in r s = Inr old" "hm_get (ut_requests s) r = Some row"
    "store_call r p i u a now row (ut_calls s) = Inr calls"
    "update_totals_in r (Some old) (s\<lparr>ut_calls := if a \<and> p = i then resolve_marker r p calls else calls\<rparr>) = Inr s'"
    using ok by (auto simp: record_call_usage_def result_simps split: if_splits)
  have wf: "hm_wf (ut_calls s)" using inv by (simp add: admission_inv_def)
  note f = store_call_frame [OF o(3) wf]
  show ?thesis
    by (rule request_op_keeps [OF inv o(2,1) _ _ _ _ _ _ _ o(4), where row' = row])
      (use f resolve_marker_frame [OF f(1)] in \<open>auto simp: calls_of_def\<close>)
qed

lemma incomplete_keeps:
  assumes inv: "admission_inv s" and ok: "mark_request_history_incomplete r s = Inr s'"
  shows "admission_inv s'"
proof -
  obtain old row where o: "request_totals_in r s = Inr old" "hm_get (ut_requests s) r = Some row"
    "update_totals_in r (Some old) (s\<lparr>ut_requests := hm_insert r (row\<lparr>rr_history_complete := False\<rparr>) (ut_requests s)\<rparr>) = Inr s'"
    using ok by (auto simp: mark_request_history_incomplete_def result_simps)
  have "hm_wf (ut_calls s)" using inv by (simp add: admission_inv_def)
  then show ?thesis
    by (intro request_op_keeps [OF inv o(2,1) _ _ _ _ _ _ _ o(3), where row' = "row\<lparr>rr_history_complete := False\<rparr>"]) (auto simp: calls_of_def)
qed

lemma finish_keeps:
  assumes inv: "admission_inv s" and ok: "finish_request_at cal r st fr fs at_ms s = Inr s'"
  shows "admission_inv s'"
proof -
  obtain old row where o: "request_totals_in r s = Inr old" "hm_get (ut_requests s) r = Some row"
    using ok by (auto simp: finish_request_at_def result_simps split: if_splits)
  let ?row = "row\<lparr>rr_finished_at := Some at_ms, rr_outcome := request_outcome st fr fs,
                   rr_http_status := Some st, rr_finish_reason := fr, rr_failure_stage := fs\<rparr>"
  have "s' = s \<or> update_totals_in r (Some old) (s\<lparr>ut_requests := hm_insert r ?row (ut_requests s)\<rparr>) = Inr s'"
    using ok o by (auto simp: finish_request_at_def split: if_splits)
  moreover have "hm_wf (ut_calls s)" using inv by (simp add: admission_inv_def)
  moreover have "admission_inv s'" if "update_totals_in r (Some old) (s\<lparr>ut_requests := hm_insert r ?row (ut_requests s)\<rparr>) = Inr s'" "hm_wf (ut_calls s)"
    using that by (intro request_op_keeps [OF inv o(2,1) _ _ _ _ _ _ _ that(1), where row' = ?row]) (auto simp: calls_of_def)
  ultimately show ?thesis using inv by blast
qed

text \<open>Two operations change rows without touching the totals; what a request contributes does not depend on the change.\<close>

lemma same_contributions_keep:
  assumes inv: "admission_inv s" and tabs: "ut_admission_models s' = ut_admission_models s" "ut_admission_deals s' = ut_admission_deals s"
    and wf: "hm_wf (ut_requests s')" "ut_calls s' = ut_calls s" and keys: "requests_of s' = requests_of s"
    and same: "\<And>r. request_totals_in r s' = request_totals_in r s"
  shows "admission_inv s'"
proof -
  have c: "contribution s' = contribution s" "\<And>m. read_model m s' = read_model m s" "\<And>d. read_deal d s' = read_deal d s"
    using same tabs by (auto simp: contribution_def read_model_def read_deal_def fun_eq_iff)
  show ?thesis using inv wf(1) unfolding admission_inv_def wf(2) keys same c by blast
qed

lemma streamed_keeps:
  assumes inv: "admission_inv s" and ok: "set_request_streamed r b s = Inr s'"
  shows "admission_inv s'"
proof -
  obtain row where o: "hm_get (ut_requests s) r = Some row" "s' = s\<lparr>ut_requests := hm_insert r (row\<lparr>rr_streamed := b\<rparr>) (ut_requests s)\<rparr>"
    using ok by (auto simp: set_request_streamed_def result_simps)
  have "request_totals_in x s' = request_totals_in x s" for x
    using o by (simp add: request_totals_in_def calls_of_def hm_simps)
  then show ?thesis
    using inv o by (intro same_contributions_keep [OF inv]) (auto simp: admission_inv_def hm.wf_insert hm.keys_get hm_simps split: if_splits)
qed

lemma recover_keeps: "admission_inv s \<Longrightarrow> admission_inv (recover_interrupted_requests runtime s)"
proof -
  assume inv: "admission_inv s"
  let ?f = "\<lambda>row. if rr_outcome row = ''in_progress'' \<and> rr_runtime row \<noteq> runtime
      then row\<lparr>rr_outcome := ''interrupted'', rr_failure_stage := Some ''process_interrupted''\<rparr> else row"
  let ?s = "recover_interrupted_requests runtime s"
  have get: "hm_get (ut_requests ?s) x = map_option ?f (hm_get (ut_requests s) x)" for x
    by (simp add: recover_interrupted_requests_def hm_get_def map_of_map [of ?f])
  have keys: "hm_keys (ut_requests ?s) = hm_keys (ut_requests s)"
    by (simp add: recover_interrupted_requests_def hm_keys_def comp_def case_prod_unfold)
  have "request_totals_in x ?s = request_totals_in x s" for x
  proof (cases "hm_get (ut_requests s) x")
    case (Some row)
    have "calls_of x ?s = calls_of x s" by (simp add: recover_interrupted_requests_def calls_of_def)
    then show ?thesis using Some get [of x] by (simp add: request_totals_in_def)
  qed (simp add: request_totals_in_def get)
  then show ?thesis
    using inv keys by (intro same_contributions_keep [OF inv])
      (auto simp: admission_inv_def hm_wf_def, simp_all add: recover_interrupted_requests_def)
qed

section \<open>Reachable histories\<close>

definition empty_history :: request_tables where
  "empty_history = \<lparr>ut_requests = [], ut_calls = [], ut_admission_models = [], ut_admission_deals = []\<rparr>"

inductive usage_reach :: "(int \<Rightarrow> bool) \<Rightarrow> request_tables \<Rightarrow> bool" for cal :: "int \<Rightarrow> bool" where
  new: "usage_reach cal empty_history"
| started: "usage_reach cal s \<Longrightarrow> start_request_at cal runtime r m p b t s = Inr s' \<Longrightarrow> usage_reach cal s'"
| linked: "usage_reach cal s \<Longrightarrow> link_deal r d s = Inr s' \<Longrightarrow> usage_reach cal s'"
| streamed: "usage_reach cal s \<Longrightarrow> set_request_streamed r b s = Inr s' \<Longrightarrow> usage_reach cal s'"
| called: "usage_reach cal s \<Longrightarrow> record_call_usage r ph i u a t s = Inr s' \<Longrightarrow> usage_reach cal s'"
| marked: "usage_reach cal s \<Longrightarrow> mark_request_history_incomplete r s = Inr s' \<Longrightarrow> usage_reach cal s'"
| finished: "usage_reach cal s \<Longrightarrow> finish_request_at cal r st fr fs t s = Inr s' \<Longrightarrow> usage_reach cal s'"
| recovered: "usage_reach cal s \<Longrightarrow> usage_reach cal (recover_interrupted_requests runtime s)"

lemma usage_reach_inv: "usage_reach cal s \<Longrightarrow> admission_inv s"
proof (induction rule: usage_reach.induct)
  case new
  show ?case by (simp add: empty_history_def admission_inv_def hm_wf_def hm_keys_def read_model_def read_deal_def zero_totals_def hm_get_def)
qed (blast intro: start_keeps link_keeps streamed_keeps call_keeps incomplete_keeps finish_keeps recover_keeps)+

section \<open>The totals are those of the history\<close>

lemma sum_calls_by_request:
  assumes "finite A"
  shows "sum_list (map (h \<circ> snd) (filter (\<lambda>((r, p, i), cl). counts ((r, p, i), cl) \<and> r \<in> A) cs))
     = (\<Sum>r\<in>A. weight h (filter (\<lambda>((y, _, _), _). y = r) cs))"
proof (induction cs)
  case (Cons x cs)
  obtain r p i cl where x: "x = ((r, p, i), cl)" by (cases x) auto
  have left: "sum_list (map (h \<circ> snd) (filter (\<lambda>((r, p, i), cl). counts ((r, p, i), cl) \<and> r \<in> A) (x # cs)))
      = (if r \<in> A then (if counts x then h cl else 0) else 0)
        + sum_list (map (h \<circ> snd) (filter (\<lambda>((r, p, i), cl). counts ((r, p, i), cl) \<and> r \<in> A) cs))"
    by (simp add: x)
  have "(\<Sum>y\<in>A. weight h (filter (\<lambda>((y', _, _), _). y' = y) (x # cs)))
      = (\<Sum>y\<in>A. (if r = y then (if counts x then h cl else 0) else 0) + weight h (filter (\<lambda>((y', _, _), _). y' = y) cs))"
    by (intro sum.cong) (auto simp: x)
  also have "\<dots> = (if r \<in> A then (if counts x then h cl else 0) else 0) + (\<Sum>y\<in>A. weight h (filter (\<lambda>((y', _, _), _). y' = y) cs))"
    using assms by (simp add: sum.distrib sum.delta')
  finally show ?case unfolding left Cons.IH by (rule sym)
qed simp

lemma weigh_history:
  "sum_list (map h (accepted_calls P s)) =
     (\<Sum>r\<in>requests_of s. case hm_get (ut_requests s) r of Some row \<Rightarrow> if P row then weight h (calls_of r s) else 0 | None \<Rightarrow> 0)"
proof -
  let ?A = "{r \<in> requests_of s. \<exists>row. hm_get (ut_requests s) r = Some row \<and> P row}"
  have sel: "(case hm_get (ut_requests s) r of Some row \<Rightarrow> P row | None \<Rightarrow> False) \<longleftrightarrow> r \<in> ?A" for r
    by (auto simp: hm.keys_get split: option.splits)
  have "sum_list (map h (accepted_calls P s)) = (\<Sum>r\<in>?A. weight h (calls_of r s))"
    using sum_calls_by_request [of ?A h "ut_calls s"] by (simp add: accepted_calls_def sel calls_of_def comp_def)
  also have "\<dots> = (\<Sum>r\<in>requests_of s. if r \<in> ?A then weight h (calls_of r s) else 0)"
    by (intro sum.mono_neutral_cong_left) auto
  also have "\<dots> = (\<Sum>r\<in>requests_of s. case hm_get (ut_requests s) r of Some row \<Rightarrow> if P row then weight h (calls_of r s) else 0 | None \<Rightarrow> 0)"
    by (intro sum.cong) (auto split: option.splits)
  finally show ?thesis .
qed

lemma count_rows:
  "hm_wf m \<Longrightarrow> length (filter (\<lambda>(k, v). Q k v) m) = (\<Sum>k\<in>set (hm_keys m). case hm_get m k of Some v \<Rightarrow> if Q k v then 1 else 0 | None \<Rightarrow> 0)"
proof (induction m)
  case (Cons x m)
  obtain k v where x: "x = (k, v)" by (cases x)
  have "k \<notin> set (hm_keys m)" "hm_wf m" using Cons.prems by (auto simp: hm_wf_def hm_keys_def x)
  moreover have "(\<Sum>y\<in>set (hm_keys m). case hm_get (x # m) y of Some v \<Rightarrow> if Q y v then 1 else 0 | None \<Rightarrow> 0)
      = (\<Sum>y\<in>set (hm_keys m). case hm_get m y of Some v \<Rightarrow> if Q y v then 1 else (0 :: nat) | None \<Rightarrow> 0)"
    using calculation(1) by (intro sum.cong) (auto simp: x hm_get_def)
  ultimately show ?case using Cons.IH by (simp add: x hm_keys_def) (simp add: hm_get_def)
qed (simp add: hm_keys_def)

lemma share_of_history:
  assumes inv: "admission_inv s" and h: "\<And>r t. request_totals_in r s = Inr t \<Longrightarrow> g t = weight h (calls_of r s)"
    and P: "\<And>r row t. hm_get (ut_requests s) r = Some row \<Longrightarrow> request_totals_in r s = Inr t \<Longrightarrow> Q t \<longleftrightarrow> P row"
  shows "(\<Sum>r\<in>requests_of s. if Q (contribution s r) then g (contribution s r) else 0) = sum_list (map h (accepted_calls P s))"
  unfolding weigh_history
proof (intro sum.cong refl)
  fix r assume "r \<in> requests_of s"
  then obtain row where row: "hm_get (ut_requests s) r = Some row" by (auto simp: hm.keys_get)
  note t = known_request(2) [OF inv row]
  show "(if Q (contribution s r) then g (contribution s r) else 0) =
      (case hm_get (ut_requests s) r of Some row \<Rightarrow> if P row then weight h (calls_of r s) else 0 | None \<Rightarrow> 0)"
    using row h [OF t] P [OF row t] by simp
qed

lemma model_is_recounted:
  assumes inv: "admission_inv s"
  shows "read_model m s = recount_model m s"
proof -
  have shares: "f (read_model m s) = (\<Sum>r\<in>requests_of s. if rt_model (contribution s r) = m then f (rt_totals (contribution s r)) else 0)"
    if "f \<in> counters" for f using inv that unfolding admission_inv_def model_share_def by blast
  have P: "rt_model t = m \<longleftrightarrow> rr_model row = m" if "hm_get (ut_requests s) r = Some row" "request_totals_in r s = Inr t" for r row t
    using request_totals_Inr [OF that(2)] that(1) by auto
  have one: "f (read_model m s) = sum_list (map h (accepted_calls (\<lambda>row. rr_model row = m) s))"
    if "f \<in> counters" "\<And>r t. request_totals_in r s = Inr t \<Longrightarrow> f (rt_totals t) = weight h (calls_of r s)" for f h
    unfolding shares [OF that(1)] by (rule share_of_history [OF inv]) (use that(2) P in auto)
  have "mo_input (read_model m s) = mo_input (recount_model m s)"
    by (simp add: recount_model_def Let_def, rule one) (use request_totals_Inr in fastforce)+
  moreover have "mo_output (read_model m s) = mo_output (recount_model m s)"
    by (simp add: recount_model_def Let_def, rule one) (use request_totals_Inr in fastforce)+
  moreover have "mo_cache_read (read_model m s) = mo_cache_read (recount_model m s)"
    by (simp add: recount_model_def Let_def, rule one) (use request_totals_Inr in fastforce)+
  moreover have "mo_cache_write (read_model m s) = mo_cache_write (recount_model m s)"
    by (simp add: recount_model_def Let_def, rule one) (use request_totals_Inr in fastforce)+
  moreover have "mo_incomplete (read_model m s) = mo_incomplete (recount_model m s)"
  proof -
    have wf: "hm_wf (ut_requests s)" using inv by (simp add: admission_inv_def)
    have "(if rt_model (contribution s r) = m then mo_incomplete (rt_totals (contribution s r)) else 0)
        = (case hm_get (ut_requests s) r of Some row \<Rightarrow> if rr_model row = m \<and> \<not> request_complete s r row then 1 else 0 | None \<Rightarrow> 0)"
      if r: "r \<in> requests_of s" for r
    proof -
      obtain row where row: "hm_get (ut_requests s) r = Some row" using r by (auto simp: hm.keys_get)
      then show ?thesis using request_totals_Inr [OF known_request(2) [OF inv row]] by auto
    qed
    then show ?thesis using shares [of mo_incomplete] by (simp add: recount_model_def Let_def count_rows [OF wf])
  qed
  ultimately show ?thesis by simp
qed

lemma deal_is_recounted:
  assumes inv: "admission_inv s"
  shows "read_deal d s = recount_deal d s" "read_deal d s \<le> u128_max"
proof -
  let ?sum = "\<Sum>r\<in>requests_of s. if rt_deal (contribution s r) = Some d then rt_charged (contribution s r) else 0"
  have "read_deal d s = ?sum" and le: "read_deal d s \<le> u128_max"
    using inv unfolding admission_inv_def deal_share_def by blast+
  moreover have "?sum = recount_deal d s" unfolding recount_deal_def
    by (rule share_of_history [OF inv]) (use request_totals_Inr in fastforce)+
  ultimately show "read_deal d s = recount_deal d s" "read_deal d s \<le> u128_max" by simp_all
qed

lemma sum_checked_ok: "sum_list ns \<le> u128_max \<Longrightarrow> sum_checked e ns = Inr (sum_list ns)"
proof -
  have "a + sum_list ns \<le> u128_max \<Longrightarrow> try_fold (\<lambda>t n. ok_or (checked_add u128_max t n) e) a ns = Inr (a + sum_list ns)" for a
    by (induction ns arbitrary: a) (auto simp: checked_add_def add.assoc)
  then show "sum_list ns \<le> u128_max \<Longrightarrow> sum_checked e ns = Inr (sum_list ns)" by (simp add: sum_checked_def)
qed

lemma consumed_tokens:
  "consumed_cost_in d price s = and_then (sum_checked ConsumptionOverflow (map cl_charged (accepted_calls (\<lambda>row. rr_deal row = Some d) s)))
     (\<lambda>tokens. tokens_cost price tokens)"
proof -
  have "map (\<lambda>(_, cl). cl_charged cl) (filter (\<lambda>((r, p, i), cl). call_deal s (r, p, i) = Some d \<and> cl_accepted cl \<and> i \<noteq> ''in_progress'') (ut_calls s))
      = map cl_charged (accepted_calls (\<lambda>row. rr_deal row = Some d) s)"
    unfolding accepted_calls_def map_map
    by (intro map_cong filter_cong) (auto simp: counts_def call_deal_def split: option.splits)
  then show ?thesis by (simp add: consumed_cost_in_def)
qed

lemma stored_cost: "admission_inv s \<Longrightarrow> tokens_cost price (read_deal d s) = consumed_cost_in d price s"
  using deal_is_recounted [of s d] by (simp add: consumed_tokens recount_deal_def sum_checked_ok)

text \<open>
  Claim C21: the totals that admission reads are those of the history.  After any sequence of operations
  on requests, across restarts, the stored totals of a model are the sums over its accepted calls and the
  number of its incomplete requests, and the stored charge of a deal is the sum over the
  accepted calls of its requests; so the cost that admission derives from the stored charge is the one that a walk
  over the history gives.
\<close>

theorem admission_totals_exact:
  assumes "usage_reach cal s"
  shows "read_model m s = recount_model m s \<and> read_deal d s = recount_deal d s
     \<and> tokens_cost price (read_deal d s) = consumed_cost_in d price s"
proof -
  note inv = usage_reach_inv [OF assms]
  show ?thesis
    using model_is_recounted [OF inv] deal_is_recounted(1) [OF inv] stored_cost [OF inv] by simp
qed

text \<open>One request with an answer: started, bound to a deal, billed and finished.\<close>

definition sample_call :: billing_usage where
  "sample_call = \<lparr>bu_input_tokens = 5, bu_output_tokens = 2, bu_total_tokens = 7, bu_charged_tokens = None,
     bu_cache_read_tokens = 1, bu_cache_write_tokens = 0\<rparr>"

definition sample_run :: "(request_tables, usage_msg) result" where
  "sample_run =
     and_then (start_request_at (\<lambda>_. True) ''p'' ''r'' ''m'' ''openai'' True 10 empty_history) (\<lambda>s1.
     and_then (link_deal ''r'' ''d'' s1) (\<lambda>s2.
     and_then (record_call_usage ''r'' ''answer'' ''answer'' sample_call True 20 s2) (\<lambda>s3.
     finish_request_at (\<lambda>_. True) ''r'' 200 None None 30 s3)))"

lemma sample_run_reach: "sample_run = Inr s \<Longrightarrow> usage_reach (\<lambda>_. True) s"
  unfolding sample_run_def and_then_eq_Inr
  by (elim exE conjE) (rule usage_reach.finished [OF usage_reach.called [OF usage_reach.linked [OF usage_reach.started [OF usage_reach.new]]]])

lemma sample_run_ok: "\<exists>s. sample_run = Inr s \<and> read_deal ''d'' s = 6 \<and> mo_incomplete (read_model ''m'' s) = 0"
  by (simp add: sample_run_def start_request_at_def link_deal_def record_call_usage_def finish_request_at_def update_totals_in_def
      request_totals_in_def swap_totals_def swap_counter_def add_counter_def checked_add_def checked_sub_def read_model_def read_deal_def
      zero_totals_def calls_of_def store_call_def resolve_marker_def bind_calls_def tally_call_def row_usage_def billing_usage_new_def
      validate_usage_def billable_tokens_def non_cached_tokens_def sample_call_def empty_history_def hm_get_def hm_insert_def
      u64_max_def u128_max_def Let_def)

theorem admission_totals_exact_witness:
  "\<exists>s. sample_run = Inr s \<and> recount_deal ''d'' s = 6 \<and> mo_incomplete (recount_model ''m'' s) = 0 \<and> consumed_cost_in ''d'' 1000000 s = Inr 6"
proof -
  obtain s where s: "sample_run = Inr s" "read_deal ''d'' s = 6" "mo_incomplete (read_model ''m'' s) = 0" using sample_run_ok by blast
  have "tokens_cost 1000000 6 = Inr 6" by (simp add: tokens_cost_eq TICK_SIZE_def u128_max_def)
  then show ?thesis
    using admission_totals_exact [OF sample_run_reach [OF s(1)], of "''m''" "''d''" 1000000] s by auto
qed

end
