(* ===== verification/UsageMoneyProps.thy ===== *)
theory UsageMoneyProps
  imports UsageMoney UsageAdmission
begin

text \<open>
  The expenses of the usage store.  What is exported for a deal, its accruals and its settlement, adds
  up to what the buyer put in less what came back, in whatever order facts arrive and however often
  they are replayed; no part of an expense is classified twice; and the purchase that is shown
  at admission is the one the journal names, priced from the history.
\<close>

section \<open>The invariant of the facts\<close>

definition classified :: "money_fact \<Rightarrow> nat" where
  "classified f = mf_consumption f + mf_commission f + mf_burns f + mf_unused_capacity f"

definition fact_ok :: "money_fact \<Rightarrow> bool" where
  "fact_ok f \<longleftrightarrow>
     (case mf_kind f of
        AccrualKind \<Rightarrow> mf_deal f \<noteq> None
          \<and> (\<exists>n > 0. mf_spent f = Some n \<and> classified f \<le> n
               \<and> (\<forall>t. mf_probe_tokens f = Some t \<longrightarrow> t \<le> TICK_SIZE \<and> mf_consumption f = paid_probe_cost n t \<and> classified f = mf_consumption f))
      | OperationalKind \<Rightarrow> mf_spent f \<noteq> None \<and> classified f = 0 \<and> mf_probe_tokens f = None
      | SettlementKind \<Rightarrow> mf_deal f \<noteq> None \<and> mf_probe_tokens f = None
          \<and> (\<exists>e b. mf_escrow f = Some e \<and> mf_buyer_bond f = Some b \<and> e + b \<le> u128_max)
          \<and> (case (mf_buyer_credit f, mf_spent f) of
               (Some _, Some r) \<Rightarrow> classified f \<le> r
             | (None, None) \<Rightarrow> classified f = 0
             | _ \<Rightarrow> False))"

definition accrual_share :: "string \<Rightarrow> money_fact \<Rightarrow> nat" where
  "accrual_share d f = (if mf_kind f = AccrualKind \<and> mf_deal f = Some d then the (mf_spent f) else 0)"

definition accrued :: "string \<Rightarrow> money_tables \<Rightarrow> nat" where
  "accrued d s = sum_list (map (accrual_share d \<circ> snd) (mn_facts s))"

abbreviation settles :: "string \<Rightarrow> money_fact \<Rightarrow> bool" where
  "settles d f \<equiv> mf_kind f = SettlementKind \<and> mf_deal f = Some d"

text \<open>No settlement of the deal has a known credit yet.\<close>

definition unsettled :: "string \<Rightarrow> money_tables \<Rightarrow> bool" where
  "unsettled d s \<longleftrightarrow> (\<forall>k f. hm_get (mn_facts s) k = Some f \<longrightarrow> settles d f \<longrightarrow> mf_buyer_credit f = None)"

definition partitioned :: "nat \<Rightarrow> money_fact \<Rightarrow> bool" where
  "partitioned a f \<longleftrightarrow> (\<forall>c. mf_buyer_credit f = Some c \<longrightarrow>
     a + the (mf_spent f) + c = the (mf_escrow f) + the (mf_buyer_bond f))"

definition money_inv :: "money_tables \<Rightarrow> bool" where
  "money_inv s \<longleftrightarrow> hm_wf (mn_facts s)
     \<and> (\<forall>k f. hm_get (mn_facts s) k = Some f \<longrightarrow> fact_ok f)
     \<and> (\<forall>d k f k' f'. hm_get (mn_facts s) k = Some f \<longrightarrow> hm_get (mn_facts s) k' = Some f' \<longrightarrow> settles d f \<longrightarrow> settles d f' \<longrightarrow> k = k')
     \<and> (\<forall>d k f. hm_get (mn_facts s) k = Some f \<longrightarrow> settles d f \<longrightarrow> partitioned (accrued d s) f)"

lemma money_inv_cong: "mn_facts s' = mn_facts s \<Longrightarrow> money_inv s' \<longleftrightarrow> money_inv s"
  by (simp add: money_inv_def accrued_def)

lemma sum_hm_insert:
  fixes g :: "'v \<Rightarrow> nat"
  shows "sum_list (map (g \<circ> snd) (hm_insert k v m)) + (case hm_get m k of Some u \<Rightarrow> g u | None \<Rightarrow> 0)
     = sum_list (map (g \<circ> snd) m) + g v"
  unfolding hm_insert_def hm_get_def by (induction m) auto

lemma facts_of_accrued: "sum_list (map (\<lambda>f. the (mf_spent f)) (facts_of AccrualKind d s)) = accrued d s"
proof -
  have "sum_list (map (\<lambda>f. the (mf_spent f)) (map snd (filter (\<lambda>(_, f). mf_kind f = AccrualKind \<and> mf_deal f = Some d) m)))
      = sum_list (map (accrual_share d \<circ> snd) m)" for m :: "(string \<times> money_fact) list"
    by (induction m) (auto simp: accrual_share_def)
  then show ?thesis by (simp add: facts_of_def accrued_def)
qed

text \<open>Storing a fact that leaves the accruals of settled deals as they are.\<close>

lemma put_keeps:
  assumes inv: "money_inv s" and ok: "fact_ok f"
    and share: "\<And>d. accrual_share d f = (case hm_get (mn_facts s) k of Some u \<Rightarrow> accrual_share d u | None \<Rightarrow> 0) \<or> unsettled d s"
    and one: "\<And>d k' f'. settles d f \<Longrightarrow> hm_get (mn_facts s) k' = Some f' \<Longrightarrow> settles d f' \<Longrightarrow> k' = k"
    and part: "\<And>d. settles d f \<Longrightarrow> partitioned (accrued d s) f"
    and same: "\<And>d. settles d f \<Longrightarrow> (case hm_get (mn_facts s) k of Some u \<Rightarrow> settles d u | None \<Rightarrow> True)"
  shows "money_inv (put_fact k f s)"
proof -
  let ?s = "put_fact k f s"
  have get: "hm_get (mn_facts ?s) k' = (if k' = k then Some f else hm_get (mn_facts s) k')" for k'
    by (simp add: put_fact_def hm_simps)
  have acc: "accrued d ?s + (case hm_get (mn_facts s) k of Some u \<Rightarrow> accrual_share d u | None \<Rightarrow> 0) = accrued d s + accrual_share d f" for d
    using sum_hm_insert [of "accrual_share d" k f "mn_facts s"] by (simp add: accrued_def put_fact_def)
  have parts: "partitioned (accrued d ?s) f'" if "hm_get (mn_facts ?s) k' = Some f'" "settles d f'" for d k' f'
  proof (cases "k' = k")
    case True
    then have f': "f' = f" using that by (simp add: get)
    then have "accrued d ?s = accrued d s"
      using acc [of d] that same [of d] by (auto simp: accrual_share_def split: option.splits)
    then show ?thesis using f' part that by simp
  next
    case False
    then have old: "hm_get (mn_facts s) k' = Some f'" using that by (simp add: get)
    then have p: "partitioned (accrued d s) f'" using inv that by (auto simp: money_inv_def)
    show ?thesis
    proof (cases "unsettled d s")
      case True
      then show ?thesis using old that by (auto simp: unsettled_def partitioned_def)
    next
      case False
      then have "accrued d ?s = accrued d s" using acc [of d] share [of d] by simp
      then show ?thesis using p by simp
    qed
  qed
  have wf: "hm_wf (mn_facts ?s)" using inv by (simp add: money_inv_def put_fact_def hm.wf_insert)
  have oks: "fact_ok f'" if "hm_get (mn_facts ?s) k' = Some f'" for k' f'
    using that ok inv by (auto simp: get money_inv_def split: if_splits)
  have ones: "k1 = k2"
    if g: "hm_get (mn_facts ?s) k1 = Some f1" "hm_get (mn_facts ?s) k2 = Some f2" and d: "settles d f1" "settles d f2" for d k1 f1 k2 f2
  proof -
    have a: "k1 = k" if "k2 = k"
    proof (rule ccontr)
      assume n: "k1 \<noteq> k"
      show False using one [of d k1 f1] g [unfolded get] d n that by simp
    qed
    have b: "k2 = k" if "k1 = k"
    proof (rule ccontr)
      assume n: "k2 \<noteq> k"
      show False using one [of d k2 f2] g [unfolded get] d n that by simp
    qed
    show ?thesis
    proof (cases "k1 = k")
      case False
      then have "hm_get (mn_facts s) k1 = Some f1" "hm_get (mn_facts s) k2 = Some f2" using a g by (auto simp: get split: if_splits)
      then show ?thesis using inv d unfolding money_inv_def by blast
    qed (use b in simp)
  qed
  show ?thesis unfolding money_inv_def
    by (intro conjI allI impI wf; (erule oks | erule (3) ones | erule (1) parts))
qed

text \<open>A fact of the same shape in place of an old one.\<close>

lemma put_same_shape:
  assumes "money_inv s" "fact_ok f" "hm_get (mn_facts s) k = Some u"
    and "mf_kind f = mf_kind u" "mf_deal f = mf_deal u" "mf_spent f = mf_spent u" "mf_buyer_credit f = mf_buyer_credit u"
      "mf_escrow f = mf_escrow u" "mf_buyer_bond f = mf_buyer_bond u"
  shows "money_inv (put_fact k f s)"
proof (rule put_keeps [OF assms(1,2)])
  fix d assume "settles d f"
  then have d: "settles d u" using assms by simp
  then have "partitioned (accrued d s) u" using assms by (auto simp: money_inv_def)
  then show "partitioned (accrued d s) f" using assms by (simp add: partitioned_def)
  show "case hm_get (mn_facts s) k of Some u \<Rightarrow> settles d u | None \<Rightarrow> True" using d assms by simp
  fix k' f' assume "hm_get (mn_facts s) k' = Some f'" "settles d f'"
  then show "k' = k" using d assms by (auto simp: money_inv_def)
qed (use assms in \<open>simp add: accrual_share_def\<close>)

section \<open>Every operation keeps it\<close>

lemma fact_okD: "money_inv s \<Longrightarrow> hm_get (mn_facts s) k = Some f \<Longrightarrow> fact_ok f"
  by (simp add: money_inv_def)

lemma facts_of_iff:
  "money_inv s \<Longrightarrow> f \<in> set (facts_of kind d s) \<longleftrightarrow> mf_kind f = kind \<and> mf_deal f = Some d \<and> (\<exists>k. hm_get (mn_facts s) k = Some f)"
  by (force simp: facts_of_def money_inv_def image_iff dest: hm_get_in_set hm_in_set_get)

lemma prior_known: "money_inv s \<Longrightarrow> prior_terminal d s = None \<and> unsettled d s \<or> (\<exists>r. prior_terminal d s = Some (Some r))"
proof -
  assume inv: "money_inv s"
  show ?thesis
  proof (cases "filter (\<lambda>f. mf_buyer_credit f \<noteq> None) (facts_of SettlementKind d s)")
    case Nil
    then have "mf_buyer_credit f = None" if "f \<in> set (facts_of SettlementKind d s)" for f using that by (auto simp: filter_empty_conv)
    then have "unsettled d s" using facts_of_iff [OF inv] unfolding unsettled_def by blast
    then show ?thesis using Nil by (simp add: prior_terminal_def)
  next
    case (Cons f fs)
    then have "f \<in> set (facts_of SettlementKind d s)" "mf_buyer_credit f \<noteq> None" using Cons_eq_filterD [OF Cons [symmetric]] by auto
    then have "mf_spent f \<noteq> None"
      using fact_okD [OF inv] facts_of_iff [OF inv] by (fastforce simp: fact_ok_def split: option.splits)
    then show ?thesis using Cons by (auto simp: prior_terminal_def)
  qed
qed

lemma accrual_fact_ok: "n > 0 \<Longrightarrow> fact_ok ((new_fact AccrualKind (Some d) m a now)\<lparr>mf_spent := Some n\<rparr>)"
  by (simp add: fact_ok_def new_fact_def classified_def)

lemma accrual_keeps:
  assumes inv: "money_inv s" and prior: "prior = None \<longrightarrow> unsettled d s" "prior \<noteq> Some None"
    and step: "apply_accrual cal d m prior now s fc = Inr s'"
  shows "money_inv s' \<and> (prior = None \<longrightarrow> unsettled d s')"
proof -
  consider "s' = s" | at where "prior = None" "af_spent fc > 0" "hm_get (mn_facts s) (af_source_id fc) = None"
      "s' = put_fact (af_source_id fc) ((new_fact AccrualKind (Some d) (Some m) at now)\<lparr>mf_spent := Some (af_spent fc)\<rparr>) s"
    using step prior(2) by (auto simp: apply_accrual_def result_simps split: if_splits option.splits)
  then show ?thesis
  proof cases
    case 2
    then have un: "unsettled d s" using prior by simp
    then have "unsettled d s'" using 2 by (simp add: unsettled_def put_fact_def hm_simps new_fact_def)
    moreover have "money_inv s'"
      unfolding 2(4) by (rule put_keeps [OF inv accrual_fact_ok]) (use 2 un in \<open>auto simp: accrual_share_def new_fact_def\<close>)
    ultimately show ?thesis by simp
  qed (use assms in simp)
qed

lemma accruals_keep:
  assumes "money_inv s" "prior = None \<longrightarrow> unsettled d s" "prior \<noteq> Some None"
    and "try_fold (apply_accrual cal d m prior now) s fcs = Inr s'"
  shows "money_inv s' \<and> (prior = None \<longrightarrow> unsettled d s')"
  using assms(1,2,4)
proof (induction fcs arbitrary: s)
  case (Cons fc fcs)
  then obtain s1 where s1: "apply_accrual cal d m prior now s fc = Inr s1" "try_fold (apply_accrual cal d m prior now) s1 fcs = Inr s'"
    by (auto simp: result_simps)
  then show ?case using accrual_keeps [OF Cons.prems(1,2) assms(3) s1(1)] Cons.IH by blast
qed simp

lemma sum_checked_Inr: "sum_checked e ns = Inr t \<Longrightarrow> t = sum_list ns"
proof -
  have "try_fold (\<lambda>t n. ok_or (checked_add u128_max t n) e) a ns = Inr t \<Longrightarrow> t = a + sum_list ns" for a
    by (induction ns arbitrary: a) (fastforce simp: result_simps checked_simps)+
  then show "sum_checked e ns = Inr t \<Longrightarrow> t = sum_list ns" by (force simp: sum_checked_def)
qed

lemma residual_Inr:
  assumes "settlement_residual fc s = Inr r"
  shows "sf_escrow fc + sf_buyer_bond fc \<le> u128_max"
    and "case sf_buyer_credit fc of None \<Rightarrow> r = None
       | Some c \<Rightarrow> \<exists>n. r = Some n \<and> accrued (sf_deal_id fc) s + n + c = sf_escrow fc + sf_buyer_bond fc"
  using assms
  by (auto simp: settlement_residual_def result_simps checked_simps facts_of_accrued dest!: sum_checked_Inr split: option.splits)

lemma store_keeps:
  assumes inv: "money_inv s" and residual: "settlement_residual fc s = Inr r"
    and step: "store_settlement m fc at r now s = Inr s'"
  shows "money_inv s'"
proof (cases "hm_get (mn_facts s) (sf_source_id fc)")
  case None
  let ?f = "(new_fact SettlementKind (Some (sf_deal_id fc)) (Some m) at now)
      \<lparr>mf_escrow := Some (sf_escrow fc), mf_buyer_bond := Some (sf_buyer_bond fc), mf_buyer_credit := sf_buyer_credit fc, mf_spent := r\<rparr>"
  have s': "s' = put_fact (sf_source_id fc) ?f s" and no: "facts_of SettlementKind (sf_deal_id fc) s = []"
    using step None by (auto simp: store_settlement_def split: if_splits)
  have "fact_ok ?f" using residual_Inr [OF residual] by (auto simp: fact_ok_def new_fact_def classified_def split: option.splits)
  moreover have "\<not> settles (sf_deal_id fc) f" if "hm_get (mn_facts s) k = Some f" for k f
    using no facts_of_iff [OF inv, of f SettlementKind "sf_deal_id fc"] that by auto
  moreover have "partitioned (accrued (sf_deal_id fc) s) ?f"
    using residual_Inr(2) [OF residual] by (auto simp: partitioned_def)
  ultimately show ?thesis unfolding s' using None by (intro put_keeps [OF inv]) (auto simp: accrual_share_def new_fact_def)
next
  case (Some old)
  have match: "settles (sf_deal_id fc) old" "mf_escrow old = Some (sf_escrow fc)" "mf_buyer_bond old = Some (sf_buyer_bond fc)"
    using step Some by (auto simp: store_settlement_def split: if_splits)
  let ?f = "old\<lparr>mf_buyer_credit := sf_buyer_credit fc, mf_spent := r, mf_recorded_at := now\<rparr>"
  consider "s' = s" | "mf_spent old = None" "sf_buyer_credit fc \<noteq> None" "s' = put_fact (sf_source_id fc) ?f s"
    using step Some by (auto simp: store_settlement_def split: if_splits)
  then show ?thesis
  proof cases
    case 2
    have ok: "fact_ok ?f"
      using residual_Inr [OF residual] match 2 fact_okD [OF inv Some] by (auto simp: fact_ok_def classified_def split: option.splits)
    have part: "partitioned (accrued (sf_deal_id fc) s) ?f"
      using residual_Inr(2) [OF residual] match by (auto simp: partitioned_def)
    have one: "k = sf_source_id fc" if "hm_get (mn_facts s) k = Some f" "settles (sf_deal_id fc) f" for k f
      using inv that match Some unfolding money_inv_def by blast
    have mine: "d = sf_deal_id fc" if "settles d ?f" for d using that match by simp
    show ?thesis unfolding 2(3)
    proof (rule put_keeps [OF inv ok])
      fix d assume "settles d ?f"
      note mine [OF this, simp]
      show "partitioned (accrued d s) ?f" using part by simp
      show "case hm_get (mn_facts s) (sf_source_id fc) of Some u \<Rightarrow> settles d u | None \<Rightarrow> True" using match Some by simp
      fix k f assume "hm_get (mn_facts s) k = Some f" "settles d f"
      then show "k = sf_source_id fc" using one by simp
    qed (use match Some in \<open>simp add: accrual_share_def\<close>)
  qed (use inv in simp)
qed

lemma settlement_keeps:
  assumes inv: "money_inv s" and step: "apply_settlement_in cal m fc now s = Inr s'"
  shows "money_inv s'"
proof -
  obtain at r s1 where "settlement_residual fc s = Inr r" "store_settlement m fc at r now s = Inr s1" "mn_facts s' = mn_facts s1"
    using step by (auto simp: apply_settlement_in_def close_quota_row_def result_simps split: if_splits)
  then show ?thesis using store_keeps [OF inv] money_inv_cong by blast
qed

lemma expenses_keep:
  assumes inv: "money_inv s" and step: "deal_expenses_in cal d fcs st now s = Inr s'"
  shows "money_inv s'"
proof -
  obtain row :: deal_row and s1 where s1: "try_fold (apply_accrual cal d (de_model row) (prior_terminal d s) now) s fcs = Inr s1"
      and rest: "case st of None \<Rightarrow> s' = s1 | Some fc \<Rightarrow> apply_settlement_in cal (de_model row) fc now s1 = Inr s'"
  proof -
    obtain row where "hm_get (mn_deals s) d = Some row" using step by (auto simp: deal_expenses_in_def result_simps)
    then show thesis using step that [of row]
      by (cases "try_fold (apply_accrual cal d (de_model row) (prior_terminal d s) now) s fcs")
        (auto simp: deal_expenses_in_def Let_def result_simps split: option.splits)
  qed
  have "money_inv s1" using accruals_keep [OF inv _ _ s1] prior_known [OF inv, of d] by auto
  then show ?thesis using rest settlement_keeps by (auto split: option.splits)
qed

lemma operational_keeps:
  assumes inv: "money_inv s" and step: "apply_operational_expense cal fc now s = Inr s'"
  shows "money_inv s'"
proof (cases "hm_get (mn_facts s) (of_source_id fc)")
  case None
  then obtain at where s': "s' = put_fact (of_source_id fc)
      ((new_fact OperationalKind (of_deal_id fc) (of_model fc) at now)\<lparr>mf_spent := Some (of_spent fc)\<rparr>) s"
    using step by (auto simp: apply_operational_expense_def result_simps split: if_splits)
  show ?thesis unfolding s'
    by (rule put_keeps [OF inv]) (use None in \<open>auto simp: fact_ok_def classified_def accrual_share_def new_fact_def\<close>)
next
  case (Some old)
  let ?f = "old\<lparr>mf_model := of_model fc, mf_recorded_at := now\<rparr>"
  have kind: "mf_kind old = OperationalKind" and s': "s' = s \<or> s' = put_fact (of_source_id fc) ?f s"
    using step Some by (auto simp: apply_operational_expense_def result_simps split: if_splits)
  have "fact_ok ?f" using fact_okD [OF inv Some] kind by (simp add: fact_ok_def classified_def)
  then have "money_inv (put_fact (of_source_id fc) ?f s)" by (rule put_same_shape [OF inv _ Some]) simp_all
  then show ?thesis using inv s' by blast
qed

lemma breakdown_total_Inr:
  "breakdown_total b = Inr t \<Longrightarrow> t = eb_consumption b + eb_commission b + eb_burns b + eb_unused_capacity b"
  by (auto simp: breakdown_total_def result_simps checked_simps)

lemma classify_Inr:
  assumes "classify_expense source parts s = Inr s'"
  obtains (same) "s' = s"
  | (put) f amount where "hm_get (mn_facts s) source = Some f" "mf_kind f \<noteq> OperationalKind" "fact_amount f = Inr (Some amount)"
      "eb_consumption parts + eb_commission parts + eb_burns parts + eb_unused_capacity parts \<le> amount"
      "\<And>t. eb_probe_tokens parts = Some t \<Longrightarrow> mf_kind f = AccrualKind \<and> t \<le> TICK_SIZE \<and> eb_consumption parts = paid_probe_cost amount t
         \<and> eb_commission parts = 0 \<and> eb_burns parts = 0 \<and> eb_unused_capacity parts = 0"
      "s' = put_fact source (f\<lparr>mf_consumption := eb_consumption parts, mf_commission := eb_commission parts, mf_burns := eb_burns parts,
         mf_unused_capacity := eb_unused_capacity parts, mf_probe_tokens := eb_probe_tokens parts\<rparr>) s"
proof (cases "s' = s")
  case False
  obtain f where f: "hm_get (mn_facts s) source = Some f" "mf_kind f \<noteq> OperationalKind"
  proof (cases "hm_get (mn_facts s) source")
    case None
    then show thesis using assms by (simp add: classify_expense_def result_simps)
  next
    case (Some f)
    then show thesis using assms that [of f] by (cases "mf_kind f = OperationalKind") (simp_all add: classify_expense_def result_simps)
  qed
  obtain amount where amount: "fact_amount f = Inr (Some amount)"
    using assms f False by (cases "fact_amount f") (auto simp: classify_expense_def result_simps split: option.splits)
  obtain t where t: "breakdown_total parts = Inr t"
    using assms f amount by (cases "breakdown_total parts") (simp_all add: classify_expense_def result_simps)
  show thesis
  proof (rule put [OF f amount])
    show "eb_consumption parts + eb_commission parts + eb_burns parts + eb_unused_capacity parts \<le> amount"
      using assms f amount t breakdown_total_Inr [OF t] by (simp add: classify_expense_def result_simps)
    show "mf_kind f = AccrualKind \<and> n \<le> TICK_SIZE \<and> eb_consumption parts = paid_probe_cost amount n
        \<and> eb_commission parts = 0 \<and> eb_burns parts = 0 \<and> eb_unused_capacity parts = 0" if "eb_probe_tokens parts = Some n" for n
      using assms f amount t that by (simp add: classify_expense_def result_simps)
    show "s' = put_fact source (f\<lparr>mf_consumption := eb_consumption parts, mf_commission := eb_commission parts, mf_burns := eb_burns parts,
         mf_unused_capacity := eb_unused_capacity parts, mf_probe_tokens := eb_probe_tokens parts\<rparr>) s"
      using assms f amount t False by (simp add: classify_expense_def result_simps Let_def split: if_splits)
  qed
qed

lemma classify_keeps:
  assumes inv: "money_inv s" and step: "classify_expense source parts s = Inr s'"
  shows "money_inv s'"
  using step
proof (rule classify_Inr)
  fix f :: money_fact and amount
  let ?f = "f\<lparr>mf_consumption := eb_consumption parts, mf_commission := eb_commission parts, mf_burns := eb_burns parts,
      mf_unused_capacity := eb_unused_capacity parts, mf_probe_tokens := eb_probe_tokens parts\<rparr>"
  assume f: "hm_get (mn_facts s) source = Some f" and kind: "mf_kind f \<noteq> OperationalKind" and amount: "fact_amount f = Inr (Some amount)"
    and fits: "eb_consumption parts + eb_commission parts + eb_burns parts + eb_unused_capacity parts \<le> amount"
    and probe: "\<And>t. eb_probe_tokens parts = Some t \<Longrightarrow> mf_kind f = AccrualKind \<and> t \<le> TICK_SIZE \<and> eb_consumption parts = paid_probe_cost amount t
         \<and> eb_commission parts = 0 \<and> eb_burns parts = 0 \<and> eb_unused_capacity parts = 0"
    and s': "s' = put_fact source ?f s"
  have "fact_ok ?f"
  proof (cases "mf_kind f")
    case SettlementKind
    then have "eb_probe_tokens parts = None" using probe by (cases "eb_probe_tokens parts") auto
    then show ?thesis using SettlementKind fact_okD [OF inv f] amount fits
      by (simp add: fact_ok_def fact_amount_def classified_def result_simps split: option.splits)
  next
    case AccrualKind
    then show ?thesis using fact_okD [OF inv f] amount fits probe by (auto simp: fact_ok_def fact_amount_def classified_def result_simps)
  qed (use kind in simp)
  then show ?thesis unfolding s' by (rule put_same_shape [OF inv _ f]) simp_all
qed (use inv in simp)

lemma deal_row_facts:
  "update_deal_row d g s = Inr s' \<Longrightarrow> mn_facts s' = mn_facts s"
  by (auto simp: update_deal_row_def result_simps)

section \<open>Every store\<close>

definition empty_money :: money_tables where
  "empty_money = \<lparr>mn_deals = [], mn_facts = [], mn_quota = None, mn_prices = [], mn_note_operations = [], mn_revision = 0\<rparr>"

text \<open>The writes of deals, facts and prices, in any order and at any times of the clock.\<close>

inductive money_step :: "(int \<Rightarrow> bool) \<Rightarrow> money_tables \<Rightarrow> money_tables \<Rightarrow> bool" for cal :: "int \<Rightarrow> bool" where
  registered: "register_deal d m now s = Inr s' \<Longrightarrow> money_step cal s s'"
| deal_incomplete: "mark_deal_incomplete d reason s = Inr s' \<Longrightarrow> money_step cal s s'"
| operations_incomplete: "mark_operations_incomplete d reason s = Inr s' \<Longrightarrow> money_step cal s s'"
| operations_complete: "mark_operations_complete d s = Inr s' \<Longrightarrow> money_step cal s s'"
| note_incomplete: "mark_note_operations_incomplete n reason now s = Inr s' \<Longrightarrow> money_step cal s s'"
| note_complete: "mark_note_operations_complete n now s = Inr s' \<Longrightarrow> money_step cal s s'"
| expenses: "deal_expenses_in cal d fcs st now s = Inr s' \<Longrightarrow> money_step cal s s'"
| operational: "apply_operational_expense cal oc now s = Inr s' \<Longrightarrow> money_step cal s s'"
| classification: "classify_expense source parts s = Inr s' \<Longrightarrow> money_step cal s s'"
| price: "record_deal_price_in d p s = Inr s' \<Longrightarrow> money_step cal s s'"

text \<open>Every store: these writes, and those of the row of the current purchase.\<close>

inductive money_reach :: "(int \<Rightarrow> bool) \<Rightarrow> money_tables \<Rightarrow> bool" for cal :: "int \<Rightarrow> bool" where
  created: "money_reach cal empty_money"
| written: "money_reach cal s \<Longrightarrow> money_step cal s s' \<Longrightarrow> money_reach cal s'"
| purchase: "money_reach cal s \<Longrightarrow> money_reach cal (put_quota_row r ticks p s)"
| closing: "money_reach cal s \<Longrightarrow> money_reach cal (close_quota_row d s)"

lemma facts_untouched:
  "register_deal d m now s = Inr s' \<Longrightarrow> mn_facts s' = mn_facts s"
  "mark_deal_incomplete d reason s = Inr s' \<Longrightarrow> mn_facts s' = mn_facts s"
  "mark_operations_incomplete d reason s = Inr s' \<Longrightarrow> mn_facts s' = mn_facts s"
  "mark_operations_complete d s = Inr s' \<Longrightarrow> mn_facts s' = mn_facts s"
  "mark_note_operations_incomplete n reason now s = Inr s' \<Longrightarrow> mn_facts s' = mn_facts s"
  "mark_note_operations_complete n now s = Inr s' \<Longrightarrow> mn_facts s' = mn_facts s"
  "record_deal_price_in d p s = Inr s' \<Longrightarrow> mn_facts s' = mn_facts s"
  "mn_facts (put_quota_row r ticks p s) = mn_facts s" "mn_facts (close_quota_row d s) = mn_facts s"
  by (auto simp: register_deal_def mark_deal_incomplete_def mark_operations_incomplete_def mark_operations_complete_def
      mark_note_operations_incomplete_def mark_note_operations_complete_def put_note_operations_def record_deal_price_in_def
      put_quota_row_def close_quota_row_def dest!: deal_row_facts split: option.splits if_splits)

lemma money_step_keeps: "money_step cal s s' \<Longrightarrow> money_inv s \<Longrightarrow> money_inv s'"
proof (induction rule: money_step.induct)
  case (expenses d fcs st now s s')
  then show ?case by (blast intro: expenses_keep)
next
  case (operational oc now s s')
  then show ?case by (blast intro: operational_keeps)
next
  case (classification source parts s s')
  then show ?case by (blast intro: classify_keeps)
qed (auto dest!: facts_untouched(1-7) intro: iffD2 [OF money_inv_cong])

lemma money_reach_inv: "money_reach cal s \<Longrightarrow> money_inv s"
proof (induction rule: money_reach.induct)
  case created
  show ?case by (simp add: money_inv_def empty_money_def hm_simps hm.wf_empty)
qed (auto intro: money_step_keeps simp: money_inv_cong [OF facts_untouched(8)] money_inv_cong [OF facts_untouched(9)])

text \<open>The row of the current purchase is open only while its deal has no settlement on file.\<close>

definition quota_inv :: "money_tables \<Rightarrow> bool" where
  "quota_inv s \<longleftrightarrow> (\<forall>q. mn_quota s = Some q \<longrightarrow> \<not> qr_closed q \<longrightarrow> facts_of SettlementKind (qr_deal q) s = [])"

definition quota_kept :: "money_tables \<Rightarrow> money_tables \<Rightarrow> bool" where
  "quota_kept s s' \<longleftrightarrow> mn_quota s' = mn_quota s \<and> (\<forall>d. facts_of SettlementKind d s' = [] \<longleftrightarrow> facts_of SettlementKind d s = [])"

lemma facts_of_empty: "facts_of kind d s = [] \<longleftrightarrow> (\<forall>(k, f) \<in> set (mn_facts s). \<not> (mf_kind f = kind \<and> mf_deal f = Some d))"
  by (auto simp: facts_of_def filter_empty_conv)

lemma settlements_put:
  assumes "case hm_get (mn_facts s) k of Some u \<Rightarrow> mf_kind f = mf_kind u \<and> mf_deal f = mf_deal u | None \<Rightarrow> mf_kind f \<noteq> SettlementKind"
  shows "facts_of SettlementKind d (put_fact k f s) = [] \<longleftrightarrow> facts_of SettlementKind d s = []"
proof -
  have "(\<forall>(k, f) \<in> set (hm_insert k f m). \<not> settles d f) \<longleftrightarrow> (\<forall>(k, f) \<in> set m. \<not> settles d f)"
    if "case hm_get m k of Some u \<Rightarrow> mf_kind f = mf_kind u \<and> mf_deal f = mf_deal u | None \<Rightarrow> mf_kind f \<noteq> SettlementKind" for m
    using that unfolding hm_insert_def hm_get_def by (induction m) (auto split: if_splits)
  then show ?thesis using assms by (simp add: facts_of_empty put_fact_def)
qed

section \<open>What is exported\<close>

text \<open>The confirmed expense of a fact, as the reports and the fact pages show it.\<close>

definition shown_amount :: "money_fact \<Rightarrow> nat" where
  "shown_amount f = (case fact_amount f of Inr (Some n) \<Rightarrow> n | _ \<Rightarrow> 0)"

definition deal_exports :: "string \<Rightarrow> money_tables \<Rightarrow> nat" where
  "deal_exports d s = sum_list (map shown_amount (facts_of AccrualKind d s @ facts_of SettlementKind d s))"

lemma shown_accruals: "money_inv s \<Longrightarrow> sum_list (map shown_amount (facts_of AccrualKind d s)) = accrued d s"
proof -
  assume inv: "money_inv s"
  have "shown_amount f = the (mf_spent f)" if "f \<in> set (facts_of AccrualKind d s)" for f
    using that fact_okD [OF inv] facts_of_iff [OF inv] by (force simp: shown_amount_def fact_amount_def fact_ok_def result_simps)
  then have "map shown_amount (facts_of AccrualKind d s) = map (\<lambda>f. the (mf_spent f)) (facts_of AccrualKind d s)" by simp
  then show ?thesis by (simp only: facts_of_accrued)
qed

lemma one_settlement:
  assumes inv: "money_inv s" and f: "f \<in> set (facts_of SettlementKind d s)"
  shows "facts_of SettlementKind d s = [f]"
proof -
  define rows where "rows = filter (\<lambda>(_, f). mf_kind f = SettlementKind \<and> mf_deal f = Some d) (mn_facts s)"
  obtain k where k: "(k, f) \<in> set rows" using f by (auto simp: facts_of_def rows_def)
  have wf: "hm_wf (mn_facts s)" using inv by (simp add: money_inv_def)
  have "x = (k, f)" if x: "x \<in> set rows" for x
  proof -
    obtain k' f' where "x = (k', f')" by fastforce
    then have "hm_get (mn_facts s) k' = Some f'" "settles d f'" "hm_get (mn_facts s) k = Some f" "settles d f"
      using x k hm_in_set_get [OF wf] by (auto simp: rows_def)
    then have "k' = k" using inv unfolding money_inv_def by blast
    then show ?thesis using \<open>x = (k', f')\<close> \<open>hm_get (mn_facts s) k' = Some f'\<close> \<open>hm_get (mn_facts s) k = Some f\<close> by simp
  qed
  then have all: "set rows = {(k, f)}" using k by blast
  have "distinct rows" using wf by (simp add: rows_def hm_wf_def hm_keys_def distinct_map)
  then have "length rows = Suc 0" using distinct_card [of rows] all by simp
  then obtain y where "rows = [y]" by (cases rows) simp_all
  then have "rows = [(k, f)]" using all by simp
  then show ?thesis by (simp add: facts_of_def flip: rows_def)
qed

text \<open>
  Claim C19: whatever was recorded, in whatever order and however often, a deal has at most one settlement on file, and once its
  credit is known the exported expenses of the deal, its accruals and the residual of the settlement, are exactly
  what the buyer put in less what came back; until then the settlement exports nothing.  Every fact
  has an amount that can be read, and its classified parts never exceed that amount.
\<close>

theorem expenses_partition:
  assumes "money_reach cal s"
  shows "(\<forall>f \<in> set (facts_of SettlementKind d s).
        facts_of SettlementKind d s = [f]
        \<and> (mf_buyer_credit f = None \<longrightarrow> fact_amount f = Inr None)
        \<and> (\<forall>c. mf_buyer_credit f = Some c \<longrightarrow>
            (\<exists>e b. mf_escrow f = Some e \<and> mf_buyer_bond f = Some b \<and> deal_exports d s + c = e + b)))
     \<and> (\<forall>(k, f) \<in> set (mn_facts s). is_ok (fact_amount f)
          \<and> mf_consumption f + mf_commission f + mf_burns f + mf_unused_capacity f \<le> shown_amount f)"
proof (intro conjI ballI impI allI)
  note inv = money_reach_inv [OF assms]
  fix f assume f: "f \<in> set (facts_of SettlementKind d s)"
  then have d: "settles d f" and "\<exists>k. hm_get (mn_facts s) k = Some f" using facts_of_iff [OF inv] by auto
  then have ok: "fact_ok f" and part: "partitioned (accrued d s) f" using inv by (auto simp: money_inv_def)
  show one: "facts_of SettlementKind d s = [f]" by (rule one_settlement [OF inv f])
  show "fact_amount f = Inr None" if "mf_buyer_credit f = None" using that d by (simp add: fact_amount_def)
  show "\<exists>e b. mf_escrow f = Some e \<and> mf_buyer_bond f = Some b \<and> deal_exports d s + c = e + b" if "mf_buyer_credit f = Some c" for c
    using that ok part d one shown_accruals [OF inv, of d]
    by (auto simp: fact_ok_def deal_exports_def shown_amount_def fact_amount_def partitioned_def split: option.splits)
next
  note inv = money_reach_inv [OF assms]
  fix x assume "x \<in> set (mn_facts s)"
  moreover obtain k f where x: "x = (k, f)" by fastforce
  moreover have "hm_wf (mn_facts s)" using inv by (simp add: money_inv_def)
  ultimately have "fact_ok f" by (blast intro: fact_okD [OF inv] hm_in_set_get)
  then have "is_ok (fact_amount f) \<and> classified f \<le> shown_amount f"
    by (cases "mf_kind f") (auto simp: fact_ok_def fact_amount_def shown_amount_def result_simps split: option.splits)
  then show "case x of (k, f) \<Rightarrow> is_ok (fact_amount f)
      \<and> mf_consumption f + mf_commission f + mf_burns f + mf_unused_capacity f \<le> shown_amount f"
    by (simp add: x classified_def)
qed

definition sample_settlement :: "nat option \<Rightarrow> settlement_fact" where
  "sample_settlement credit = \<lparr>sf_source_id = ''s'', sf_deal_id = ''d'', sf_occurred_at = 2, sf_escrow = 10, sf_buyer_bond = 2, sf_buyer_credit = credit\<rparr>"

definition sample_money :: "(money_tables, usage_msg) result" where
  "sample_money =
     and_then (register_deal ''d'' ''m'' 0 empty_money) (\<lambda>s1.
     and_then (deal_expenses_in (\<lambda>_. True) ''d'' [\<lparr>af_source_id = ''a'', af_occurred_at = 1, af_spent = 5\<rparr>] (Some (sample_settlement None)) 3000 s1) (\<lambda>s2.
     and_then (classify_expense ''a'' \<lparr>eb_consumption = 4, eb_commission = 1, eb_burns = 0, eb_unused_capacity = 0, eb_probe_tokens = None\<rparr> s2) (\<lambda>s3.
     deal_expenses_in (\<lambda>_. True) ''d'' [] (Some (sample_settlement (Some 4))) 4000 s3)))"

lemma sample_money_reach: "sample_money = Inr s \<Longrightarrow> money_reach (\<lambda>_. True) s"
  unfolding sample_money_def and_then_eq_Inr
  by (elim exE conjE) (rule written [OF written [OF written [OF written [OF created registered] expenses] classification] expenses])

lemma sample_money_ok:
  "\<exists>s. sample_money = Inr s \<and> map (\<lambda>f. (mf_buyer_credit f, mf_spent f)) (facts_of SettlementKind ''d'' s) = [(Some 4, Some 3)]"
  by (simp add: sample_money_def sample_settlement_def register_deal_def empty_money_def deal_expenses_in_def Let_def
      apply_accrual_def apply_settlement_in_def settlement_residual_def store_settlement_def classify_expense_def breakdown_total_def
      fact_amount_def put_fact_def new_fact_def facts_of_def prior_terminal_def close_quota_row_def sum_checked_def chain_millis_def i64_ok_def
      checked_add_def checked_sub_def hm_get_def hm_insert_def u128_max_def)

theorem expenses_partition_witness:
  "\<exists>s f. sample_money = Inr s \<and> facts_of SettlementKind ''d'' s = [f] \<and> deal_exports ''d'' s + 4 = the (mf_escrow f) + the (mf_buyer_bond f)"
proof -
  obtain s f where s: "sample_money = Inr s" "facts_of SettlementKind ''d'' s = [f]" "mf_buyer_credit f = Some 4"
    using sample_money_ok by (auto simp: map_eq_Cons_conv)
  then show ?thesis
    using expenses_partition [OF sample_money_reach [OF s(1)], of "''d''"] by auto
qed

section \<open>Replays\<close>

lemma hm_insert_same: "hm_get m k = Some v \<Longrightarrow> hm_insert k v m = m"
  unfolding hm_get_def hm_insert_def by (induction m) (auto split: if_splits)

lemma facts_of_put:
  assumes "\<not> (mf_kind f = kind \<and> mf_deal f = Some d)"
    and "\<And>u. hm_get (mn_facts s) k = Some u \<Longrightarrow> \<not> (mf_kind u = kind \<and> mf_deal u = Some d)"
  shows "facts_of kind d (put_fact k f s) = facts_of kind d s"
proof -
  have "filter (\<lambda>(_, f). mf_kind f = kind \<and> mf_deal f = Some d) (hm_insert k f m) = filter (\<lambda>(_, f). mf_kind f = kind \<and> mf_deal f = Some d) m"
    if "\<And>u. hm_get m k = Some u \<Longrightarrow> \<not> (mf_kind u = kind \<and> mf_deal u = Some d)" for m :: "(string, money_fact) hmap"
    using that assms(1) unfolding hm_insert_def hm_get_def by (induction m) (auto split: if_splits)
  then show ?thesis using assms(2) by (simp add: facts_of_def put_fact_def)
qed

text \<open>The accrual is on file as it was reported.\<close>

definition accrual_on_file :: "(int \<Rightarrow> bool) \<Rightarrow> string \<Rightarrow> money_tables \<Rightarrow> accrual_fact \<Rightarrow> bool" where
  "accrual_on_file cal d s fc \<longleftrightarrow> af_source_id fc \<noteq> [] \<and> af_spent fc > 0
     \<and> (\<exists>at old. chain_millis cal (af_occurred_at fc) = Inr at \<and> hm_get (mn_facts s) (af_source_id fc) = Some old
          \<and> mf_kind old = AccrualKind \<and> mf_deal old = Some d \<and> mf_occurred_at old = at \<and> mf_spent old = Some (af_spent fc))"

lemma accrual_replays: "accrual_on_file cal d s fc \<Longrightarrow> apply_accrual cal d m prior now s fc = Inr s"
  by (auto simp: accrual_on_file_def apply_accrual_def)

lemma accruals_replay: "(\<And>fc. fc \<in> set fcs \<Longrightarrow> accrual_on_file cal d s fc) \<Longrightarrow> try_fold (apply_accrual cal d m prior now) s fcs = Inr s"
  by (induction fcs) (simp_all add: accrual_replays)

text \<open>Accruals on file stay as they are when more facts are recorded.\<close>

definition keeps_accruals :: "money_tables \<Rightarrow> money_tables \<Rightarrow> bool" where
  "keeps_accruals s s' \<longleftrightarrow> (\<forall>k f. hm_get (mn_facts s) k = Some f \<longrightarrow> mf_kind f = AccrualKind \<longrightarrow> hm_get (mn_facts s') k = Some f)"

lemma on_file_kept: "accrual_on_file cal d s fc \<Longrightarrow> keeps_accruals s s' \<Longrightarrow> accrual_on_file cal d s' fc"
  by (auto simp: accrual_on_file_def keeps_accruals_def)

lemma accrual_recorded:
  "apply_accrual cal d m prior now s fc = Inr s' \<Longrightarrow> accrual_on_file cal d s' fc \<and> keeps_accruals s s' \<and> mn_deals s' = mn_deals s"
  by (auto simp: apply_accrual_def accrual_on_file_def keeps_accruals_def put_fact_def hm_simps new_fact_def result_simps
      split: if_splits option.splits)

lemma keeps_accruals_trans: "keeps_accruals s1 s2 \<Longrightarrow> keeps_accruals s2 s3 \<Longrightarrow> keeps_accruals s1 s3"
  by (simp add: keeps_accruals_def)

lemma accruals_recorded:
  "try_fold (apply_accrual cal d m prior now) s fcs = Inr s' \<Longrightarrow>
     (\<forall>fc \<in> set fcs. accrual_on_file cal d s' fc) \<and> keeps_accruals s s' \<and> mn_deals s' = mn_deals s"
proof (induction fcs arbitrary: s)
  case Nil
  then show ?case by (simp add: keeps_accruals_def)
next
  case (Cons fc fcs)
  then obtain s1 where s1: "apply_accrual cal d m prior now s fc = Inr s1" "try_fold (apply_accrual cal d m prior now) s1 fcs = Inr s'"
    by (auto simp: result_simps)
  then show ?case
    using accrual_recorded [OF s1(1)] Cons.IH [OF s1(2)] by (auto intro: on_file_kept keeps_accruals_trans)
qed

lemma store_effect:
  assumes residual: "settlement_residual fc s = Inr r" and step: "store_settlement m fc at r now s = Inr s1"
  shows "mn_facts s' = mn_facts s1 \<Longrightarrow> store_settlement m fc at r now' s' = Inr s'"
    and "facts_of AccrualKind d s1 = facts_of AccrualKind d s" and "keeps_accruals s s1" and "mn_deals s1 = mn_deals s"
proof -
  have known: "sf_buyer_credit fc \<noteq> None \<longrightarrow> r \<noteq> None" using residual_Inr(2) [OF residual] by (auto split: option.splits)
  show "store_settlement m fc at r now' s' = Inr s'" if same: "mn_facts s' = mn_facts s1"
  proof (cases "hm_get (mn_facts s) (sf_source_id fc)")
    case None
    then show ?thesis using step known by (auto simp: store_settlement_def same put_fact_def hm_simps new_fact_def split: if_splits)
  next
    case (Some old)
    then show ?thesis using step known by (auto simp: store_settlement_def same put_fact_def hm_simps split: if_splits)
  qed
  show "facts_of AccrualKind d s1 = facts_of AccrualKind d s"
    using step by (auto simp: store_settlement_def new_fact_def intro!: facts_of_put split: option.splits if_splits)
  show "keeps_accruals s s1" "mn_deals s1 = mn_deals s"
    using step by (auto simp: store_settlement_def keeps_accruals_def put_fact_def hm_simps new_fact_def split: option.splits if_splits)
qed

lemma close_quota_twice: "close_quota_row d (close_quota_row d s) = close_quota_row d s"
  by (cases "mn_quota s") (simp_all add: close_quota_row_def)

lemma settlement_replays:
  assumes row: "hm_get (mn_deals s) (sf_deal_id fc) = Some row" and step: "apply_settlement_in cal m fc now s = Inr s'"
  shows "apply_settlement_in cal m fc now' s' = Inr s'" and "keeps_accruals s s'"
    and "\<exists>row'. hm_get (mn_deals s') (sf_deal_id fc) = Some row' \<and> de_model row' = de_model row"
proof -
  obtain at r s1 where chain: "sf_source_id fc \<noteq> []" "chain_millis cal (sf_occurred_at fc) = Inr at"
    and r: "settlement_residual fc s = Inr r" and s1: "store_settlement m fc at r now s = Inr s1"
    and s': "s' = close_quota_row (sf_deal_id fc) (s1\<lparr>mn_deals := hm_insert (sf_deal_id fc)
         (row\<lparr>de_status := if sf_buyer_credit fc \<noteq> None then ''settled'' else ''incomplete'', de_closed_at := Some at,
              de_incomplete_reason := if sf_buyer_credit fc \<noteq> None then None else Some ''buyer credits not reconciled''\<rparr>) (mn_deals s1)\<rparr>)"
  proof -
    obtain at r s1 where "sf_source_id fc \<noteq> []" "chain_millis cal (sf_occurred_at fc) = Inr at"
        "settlement_residual fc s = Inr r" "store_settlement m fc at r now s = Inr s1"
      using step by (auto simp: apply_settlement_in_def result_simps split: if_splits)
    then show thesis using that [of at r s1] step row store_effect(4) [of fc s r m at now s1] by (simp add: apply_settlement_in_def)
  qed
  note effect = store_effect [OF r s1]
  have facts: "mn_facts s' = mn_facts s1" by (simp add: s' close_quota_row_def)
  have get: "hm_get (mn_deals s') (sf_deal_id fc) = Some (row\<lparr>de_status := if sf_buyer_credit fc \<noteq> None then ''settled'' else ''incomplete'',
      de_closed_at := Some at, de_incomplete_reason := if sf_buyer_credit fc \<noteq> None then None else Some ''buyer credits not reconciled''\<rparr>)"
    by (simp add: s' close_quota_row_def hm_simps)
  have closed: "close_quota_row (sf_deal_id fc) s' = s'" by (simp add: s' close_quota_twice)
  have "settlement_residual fc s' = Inr r" using facts r effect(2) by (simp add: settlement_residual_def facts_of_def)
  then show "apply_settlement_in cal m fc now' s' = Inr s'"
    using chain effect(1) [OF facts] get hm_insert_same [OF get] closed by (cases "sf_buyer_credit fc") (simp_all add: apply_settlement_in_def)
  show "keeps_accruals s s'" using effect(3) facts by (simp add: keeps_accruals_def)
  show "\<exists>row'. hm_get (mn_deals s') (sf_deal_id fc) = Some row' \<and> de_model row' = de_model row"
    by (simp add: s' close_quota_row_def hm_simps)
qed

text \<open>
  Claim C23: reporting the same expenses of a deal to the store again, at any other time of the clock, succeeds and changes none of its
  tables (the transaction of the expense report; the journal of the purchase is not part of it): the
  accruals and the settlement are recognised, also within one report and when the first report closed the deal.
\<close>

theorem expenses_replay:
  assumes "money_reach cal s" and "deal_expenses_in cal d fcs st now s = Inr s'"
  shows "deal_expenses_in cal d fcs st now' s' = Inr s'"
proof -
  note inv = money_reach_inv [OF assms(1)]
  obtain row where row: "hm_get (mn_deals s) d = Some row" using assms(2) by (auto simp: deal_expenses_in_def result_simps)
  obtain s1 where s1: "try_fold (apply_accrual cal d (de_model row) (prior_terminal d s) now) s fcs = Inr s1"
      and rest: "case st of None \<Rightarrow> s' = s1 | Some fc \<Rightarrow> sf_deal_id fc = d \<and> apply_settlement_in cal (de_model row) fc now s1 = Inr s'"
    using assms(2) row by (cases "try_fold (apply_accrual cal d (de_model row) (prior_terminal d s) now) s fcs")
      (auto simp: deal_expenses_in_def Let_def result_simps split: option.splits)
  note first = accruals_recorded [OF s1]
  have prior: "prior_terminal d s' \<noteq> Some None" using prior_known [OF expenses_keep [OF inv assms(2)], of d] by auto
  show ?thesis
  proof (cases st)
    case None
    then have "s' = s1" using rest by simp
    moreover have "try_fold (apply_accrual cal d (de_model row) (prior_terminal d s1) now') s1 fcs = Inr s1"
      using first by (intro accruals_replay) simp
    ultimately show ?thesis using first row prior None by (simp add: deal_expenses_in_def Let_def)
  next
    case (Some fc)
    then have d: "sf_deal_id fc = d" and step: "apply_settlement_in cal (de_model row) fc now s1 = Inr s'" using rest by auto
    have "hm_get (mn_deals s1) (sf_deal_id fc) = Some row" using first row d by simp
    note second = settlement_replays [OF this step]
    obtain row' where row': "hm_get (mn_deals s') d = Some row'" "de_model row' = de_model row" using second(3) d by auto
    have "try_fold (apply_accrual cal d (de_model row') (prior_terminal d s') now') s' fcs = Inr s'"
      using first second(2) by (intro accruals_replay) (blast intro: on_file_kept)
    then show ?thesis using second(1) [of now'] row' d prior Some by (simp add: deal_expenses_in_def Let_def)
  qed
qed

theorem expenses_replay_witness:
  "\<exists>s s'. register_deal ''d'' ''m'' 0 empty_money = Inr s
     \<and> deal_expenses_in (\<lambda>_. True) ''d'' [] (Some (sample_settlement (Some 4))) 3000 s = Inr s'
     \<and> deal_expenses_in (\<lambda>_. True) ''d'' [] (Some (sample_settlement (Some 4))) 9000 s' = Inr s'"
proof -
  obtain s s' where s: "register_deal ''d'' ''m'' 0 empty_money = Inr s"
      "deal_expenses_in (\<lambda>_. True) ''d'' [] (Some (sample_settlement (Some 4))) 3000 s = Inr s'"
    by (simp add: sample_settlement_def register_deal_def empty_money_def deal_expenses_in_def Let_def
      apply_settlement_in_def settlement_residual_def store_settlement_def put_fact_def new_fact_def facts_of_def prior_terminal_def
      close_quota_row_def sum_checked_def chain_millis_def i64_ok_def checked_add_def checked_sub_def hm_get_def hm_insert_def u128_max_def)
  have "money_reach (\<lambda>_. True) s" by (rule written [OF created registered [OF s(1)]])
  then show ?thesis using s expenses_replay [of "\<lambda>_. True" s _ _ _ _ s' 9000] by blast
qed

end
