(* ===== verification/UsagePurchase.thy ===== *)
theory UsagePurchase
  imports UsageMoneyProps
begin

text \<open>
  The current purchase of the buyer: the row of the database and the journal file beside it.  A stop that was recorded
  survives every failure of either write, and what admission is shown follows the journal and the history.
\<close>

section \<open>The row and the settlements\<close>

lemma quota_kept_inv: "quota_kept s s' \<Longrightarrow> quota_inv s \<Longrightarrow> quota_inv s'"
  by (simp add: quota_kept_def quota_inv_def)

lemma quota_kept_refl: "quota_kept s s"
  by (simp add: quota_kept_def)

lemma quota_kept_trans: "quota_kept s s1 \<Longrightarrow> quota_kept s1 s2 \<Longrightarrow> quota_kept s s2"
  by (simp add: quota_kept_def)

lemma quota_kept_put:
  "case hm_get (mn_facts s) k of Some u \<Rightarrow> mf_kind f = mf_kind u \<and> mf_deal f = mf_deal u | None \<Rightarrow> mf_kind f \<noteq> SettlementKind
     \<Longrightarrow> quota_kept s (put_fact k f s)"
  by (simp only: quota_kept_def settlements_put) (simp add: put_fact_def)

lemma quota_kept_same: "mn_quota s' = mn_quota s \<Longrightarrow> mn_facts s' = mn_facts s \<Longrightarrow> quota_kept s s'"
  by (simp add: quota_kept_def facts_of_def)

lemma accrual_quota: "apply_accrual cal d m prior now s fc = Inr s' \<Longrightarrow> quota_kept s s'"
  by (auto simp: apply_accrual_def result_simps new_fact_def intro!: quota_kept_put quota_kept_refl split: if_splits option.splits)

lemma accruals_quota: "try_fold (apply_accrual cal d m prior now) s fcs = Inr s' \<Longrightarrow> quota_kept s s'"
  by (induction fcs arbitrary: s) (auto simp: result_simps quota_kept_refl intro: quota_kept_trans accrual_quota)

lemma operational_quota: "apply_operational_expense cal fc now s = Inr s' \<Longrightarrow> quota_kept s s'"
  by (cases "hm_get (mn_facts s) (of_source_id fc)")
    (auto simp: apply_operational_expense_def result_simps new_fact_def intro!: quota_kept_put quota_kept_refl split: if_splits)

lemma classify_quota:
  assumes "classify_expense source parts s = Inr s'"
  shows "quota_kept s s'"
  using assms
proof (rule classify_Inr)
  fix f :: money_fact
  assume f: "hm_get (mn_facts s) source = Some f" and s': "s' = put_fact source (f\<lparr>mf_consumption := eb_consumption parts,
      mf_commission := eb_commission parts, mf_burns := eb_burns parts, mf_unused_capacity := eb_unused_capacity parts,
      mf_probe_tokens := eb_probe_tokens parts\<rparr>) s"
  show ?thesis unfolding s' by (rule quota_kept_put) (simp add: f)
qed (simp add: quota_kept_refl)

text \<open>A settlement closes the row of its deal and leaves the others.\<close>

lemma store_other_deals:
  assumes "store_settlement m fc at r now s = Inr s'" and "d \<noteq> sf_deal_id fc"
  shows "facts_of SettlementKind d s' = facts_of SettlementKind d s"
  using assms by (auto simp: store_settlement_def new_fact_def intro!: facts_of_put split: option.splits if_splits)

definition closes :: "money_tables \<Rightarrow> money_tables \<Rightarrow> bool" where
  "closes s s' \<longleftrightarrow> mn_quota s' = mn_quota s \<or> (\<exists>d. mn_quota s' = mn_quota (close_quota_row d s))"

lemma settlement_quota:
  assumes "apply_settlement_in cal m fc now s = Inr s'"
  shows "quota_inv s \<Longrightarrow> quota_inv s'" "mn_quota s' = mn_quota (close_quota_row (sf_deal_id fc) s)"
proof -
  obtain at r s1 where s1: "store_settlement m fc at r now s = Inr s1" and s': "mn_facts s' = mn_facts s1"
      "mn_quota s' = mn_quota (close_quota_row (sf_deal_id fc) s1)"
    using assms by (auto simp: apply_settlement_in_def close_quota_row_def result_simps split: if_splits)
  have "mn_quota s1 = mn_quota s" using s1 by (auto simp: store_settlement_def put_fact_def split: option.splits if_splits)
  then show q: "mn_quota s' = mn_quota (close_quota_row (sf_deal_id fc) s)" using s'(2) by (simp add: close_quota_row_def)
  have same: "facts_of SettlementKind d s' = facts_of SettlementKind d s1" for d using s'(1) by (simp add: facts_of_def)
  show "quota_inv s'" if inv: "quota_inv s" unfolding quota_inv_def
  proof (intro allI impI)
    fix q' assume q': "mn_quota s' = Some q'" "\<not> qr_closed q'"
    then obtain q0 where q0: "mn_quota s = Some q0" "q' = (if qr_deal q0 = sf_deal_id fc then q0\<lparr>qr_closed := True\<rparr> else q0)"
      using q by (auto simp: close_quota_row_def)
    then have "qr_deal q0 \<noteq> sf_deal_id fc" "q' = q0" using q'(2) by (auto split: if_splits)
    then show "facts_of SettlementKind (qr_deal q') s' = []"
      using store_other_deals [OF s1] inv q0 q' by (simp add: same quota_inv_def)
  qed
qed

lemma expenses_quota:
  assumes "deal_expenses_in cal d fcs st now s = Inr s'"
  shows "quota_inv s \<Longrightarrow> quota_inv s'" "closes s s'" "st \<noteq> None \<Longrightarrow> mn_quota s' = mn_quota (close_quota_row d s)"
proof -
  obtain row where row: "hm_get (mn_deals s) d = Some row" using assms(1) by (auto simp: deal_expenses_in_def result_simps)
  obtain s1 where s1: "try_fold (apply_accrual cal d (de_model row) (prior_terminal d s) now) s fcs = Inr s1"
      and rest: "case st of None \<Rightarrow> s' = s1 | Some fc \<Rightarrow> sf_deal_id fc = d \<and> apply_settlement_in cal (de_model row) fc now s1 = Inr s'"
    using assms(1) row by (cases "try_fold (apply_accrual cal d (de_model row) (prior_terminal d s) now) s fcs")
      (auto simp: deal_expenses_in_def Let_def result_simps split: option.splits)
  have kept: "quota_kept s s1" by (rule accruals_quota [OF s1])
  have "(quota_inv s \<longrightarrow> quota_inv s') \<and> closes s s' \<and> (st \<noteq> None \<longrightarrow> mn_quota s' = mn_quota (close_quota_row d s))"
  proof (cases st)
    case None
    then show ?thesis using rest kept quota_kept_inv [OF kept] by (simp add: closes_def quota_kept_def)
  next
    case (Some fc)
    then have step: "apply_settlement_in cal (de_model row) fc now s1 = Inr s'" "sf_deal_id fc = d" using rest by auto
    have "mn_quota s1 = mn_quota s" using kept by (simp add: quota_kept_def)
    then have "mn_quota s' = mn_quota (close_quota_row d s)" using settlement_quota(2) [OF step(1)] step(2) by (simp add: close_quota_row_def)
    then show ?thesis using settlement_quota(1) [OF step(1)] quota_kept_inv [OF kept] by (auto simp: closes_def)
  qed
  then show "quota_inv s \<Longrightarrow> quota_inv s'" "closes s s'" "st \<noteq> None \<Longrightarrow> mn_quota s' = mn_quota (close_quota_row d s)" by auto
qed

lemma update_deal_quota: "update_deal_row d g s = Inr s' \<Longrightarrow> quota_kept s s'"
  by (auto simp: update_deal_row_def result_simps intro: quota_kept_same)

lemma row_writes_quota:
  "register_deal d m now s = Inr s' \<Longrightarrow> quota_kept s s'"
  "mark_deal_incomplete d reason s = Inr s' \<Longrightarrow> quota_kept s s'"
  "mark_operations_incomplete d reason s = Inr s' \<Longrightarrow> quota_kept s s'"
  "mark_operations_complete d s = Inr s' \<Longrightarrow> quota_kept s s'"
  "mark_note_operations_incomplete n reason now s = Inr s' \<Longrightarrow> quota_kept s s'"
  "mark_note_operations_complete n now s = Inr s' \<Longrightarrow> quota_kept s s'"
  "record_deal_price_in d p s = Inr s' \<Longrightarrow> quota_kept s s'"
  by (auto simp: register_deal_def mark_deal_incomplete_def mark_operations_incomplete_def mark_operations_complete_def
      mark_note_operations_incomplete_def mark_note_operations_complete_def put_note_operations_def record_deal_price_in_def
      intro: update_deal_quota quota_kept_same quota_kept_refl split: option.splits if_splits)

lemma money_step_quota: "money_step cal s s' \<Longrightarrow> (quota_inv s \<longrightarrow> quota_inv s') \<and> closes s s'"
proof (induction rule: money_step.induct)
  case (expenses d fcs st now s s')
  then show ?case using expenses_quota by blast
qed (auto dest!: row_writes_quota operational_quota classify_quota intro: quota_kept_inv simp: closes_def, auto simp: quota_kept_def)

lemma reach_quota: "money_reach cal s \<Longrightarrow> quota_inv s"
proof (induction rule: money_reach.induct)
  case (purchase s r ticks p)
  then show ?case by (simp add: quota_inv_def put_quota_row_def facts_of_def)
next
  case (closing s d)
  then show ?case by (auto simp: quota_inv_def close_quota_row_def facts_of_def)
qed (use money_step_quota in \<open>auto simp: quota_inv_def empty_money_def\<close>)

section \<open>A recorded stop\<close>

definition has_terms :: "quota_journal \<Rightarrow> bool" where
  "has_terms r \<longleftrightarrow> qj_ticks r \<noteq> None \<and> qj_price r \<noteq> None"

text \<open>The stop of the deal is in the journal; or it is in the database, and no other purchase is in the journal.\<close>

definition row_stopped :: "string \<Rightarrow> money_tables \<Rightarrow> bool" where
  "row_stopped d s \<longleftrightarrow> (\<exists>q. mn_quota s = Some q \<and> qr_deal q = d \<and> qr_closed q)"

definition journal_stopped :: "string \<Rightarrow> journal_file \<Rightarrow> bool" where
  "journal_stopped d j \<longleftrightarrow> (\<exists>r. j = JournalStored r \<and> qj_deal r = d \<and> qj_closed r \<and> has_terms r)"

definition stopped :: "string \<Rightarrow> usage_ledger \<Rightarrow> bool" where
  "stopped d l \<longleftrightarrow> journal_stopped d (ul_journal l)
     \<or> row_stopped d (ul_tables l) \<and> (\<forall>r. ul_journal l = JournalStored r \<longrightarrow> has_terms r \<longrightarrow> qj_deal r = d)"

text \<open>What a read of the journal gives.\<close>

definition journal_read :: "journal_file \<Rightarrow> (quota_journal option, usage_msg) result" where
  "journal_read j =
     (case j of JournalAbsent \<Rightarrow> Inr None | JournalBroken \<Rightarrow> Inl JournalUnreadable
      | JournalStored r \<Rightarrow> Inr (Some
          (if qj_ticks r = None \<and> qj_price r = None \<and> qj_pending_deals r = [] then r\<lparr>qj_pending_deals := [qj_deal r]\<rparr> else r)))"

lemma wp_read [wp_simps]: "wp read_quota_journal q l = q (journal_read (ul_journal l)) l"
  by (simp add: read_quota_journal_def journal_read_def wp_simps)

lemma journal_read_Some:
  "journal_read j = Inr (Some r) \<Longrightarrow> \<exists>r0. j = JournalStored r0 \<and> qj_deal r = qj_deal r0 \<and> qj_ticks r = qj_ticks r0 \<and> qj_price r = qj_price r0
     \<and> qj_closed r = qj_closed r0 \<and> (has_terms r0 \<longrightarrow> r = r0)"
  by (cases j) (auto simp: journal_read_def has_terms_def split: if_splits)

lemma journal_read_None: "journal_read j = Inr None \<longleftrightarrow> j = JournalAbsent"
  by (cases j) (simp_all add: journal_read_def)

text \<open>Calls that keep a property whatever they return.\<close>

definition maintains :: "(usage_ledger \<Rightarrow> bool) \<Rightarrow> 'a ledger_run \<Rightarrow> bool" where
  "maintains P m \<longleftrightarrow> (\<forall>l. P l \<longrightarrow> wp m (\<lambda>_. P) l)"

lemma maintainsI: "(\<And>l. P l \<Longrightarrow> wp m (\<lambda>_. P) l) \<Longrightarrow> maintains P m"
  by (simp add: maintains_def)

lemma maintains_then: "maintains P m \<Longrightarrow> (\<And>x. maintains P (f x)) \<Longrightarrow> maintains P (run_then m f)"
  unfolding maintains_def by (intro allI impI wp_thenI [where p = "\<lambda>_. P"]) auto

lemma maintains_pure [simp]: "maintains P (run_pure r)"
  by (simp add: maintains_def wp_simps)

lemma wp_replace_journal:
  "(\<And>x. q x l) \<Longrightarrow> (\<And>x. q x (l\<lparr>ul_journal := file\<rparr>)) \<Longrightarrow> wp (replace_journal io file) q l"
  by (cases "qi_write io") (simp_all add: replace_journal_def wp_simps)

lemma wp_db_write:
  "(\<And>x. q x l) \<Longrightarrow> (\<And>x s. f (ul_tables l) = Inr s \<Longrightarrow> q x (l\<lparr>ul_tables := s\<rparr>)) \<Longrightarrow> wp (db_write io f) q l"
  by (cases "f (ul_tables l)") (auto simp: db_write_def wp_simps)

lemma closes_keeps_stop: "closes s s' \<Longrightarrow> row_stopped d s \<Longrightarrow> row_stopped d s'"
  by (auto simp: closes_def row_stopped_def close_quota_row_def)

lemma stopped_tables: "stopped d l \<Longrightarrow> (row_stopped d (ul_tables l) \<Longrightarrow> row_stopped d s) \<Longrightarrow> stopped d (l\<lparr>ul_tables := s\<rparr>)"
  by (auto simp: stopped_def)

lemma db_write_keeps_stop:
  "(\<And>s s'. f s = Inr s' \<Longrightarrow> row_stopped d s \<Longrightarrow> row_stopped d s') \<Longrightarrow> maintains (stopped d) (db_write io f)"
  by (rule maintainsI, rule wp_db_write) (auto intro: stopped_tables)

lemma price_keeps_row: "record_deal_price_in x p s = Inr s' \<Longrightarrow> mn_quota s' = mn_quota s"
  by (auto simp: record_deal_price_in_def split: if_splits option.splits)

text \<open>The row that the restored journal leaves, for the deal of the stop.\<close>

lemma stop_of_record:
  assumes "stopped d l" and "journal_read (ul_journal l) = Inr (Some r)" and "has_terms r"
  shows "qj_deal r = d \<and> (qj_closed r \<or> row_stopped d (ul_tables l))"
  using assms journal_read_Some [OF assms(2)] by (auto simp: stopped_def journal_stopped_def has_terms_def)

lemma put_row_stops: "qj_deal r = d \<Longrightarrow> qj_closed r \<Longrightarrow> row_stopped d (put_quota_row r ticks price s)"
  by (simp add: row_stopped_def put_quota_row_def)

lemma wp_db_put:
  "(\<And>e. q (Inl e) l) \<Longrightarrow> q (Inr ()) (l\<lparr>ul_tables := g (ul_tables l)\<rparr>) \<Longrightarrow> wp (db_write io (\<lambda>s. Inr (g s))) q l"
  by (auto simp: db_write_def wp_simps)

lemma restore_row_stops:
  assumes l: "stopped d l" and r: "qj_deal r = d" "qj_closed r \<or> row_stopped d (ul_tables l)"
  shows "wp (restore_row io r ticks price) (\<lambda>x l'. stopped d l' \<and> (x = Inr () \<longrightarrow> row_stopped d (ul_tables l'))) l"
proof (cases "mn_quota (ul_tables l)")
  case None
  then have "qj_closed r" using r(2) by (simp add: row_stopped_def)
  then have put: "row_stopped d (put_quota_row r ticks price (ul_tables l))" using r(1) put_row_stops by blast
  show ?thesis unfolding restore_row_def wp_get
    by (simp add: quota_row_def None) (rule wp_db_put, use l put stopped_tables in auto)
next
  case (Some q)
  show ?thesis
  proof (cases "qr_deal q = d \<and> qr_closed q")
    case True
    then have "row_stopped d (ul_tables l)" using Some by (simp add: row_stopped_def)
    then show ?thesis using True l r(1) Some by (simp add: restore_row_def wp_simps quota_row_def)
  next
    case False
    then have "qj_closed r" using r(2) Some by (auto simp: row_stopped_def)
    then have put: "row_stopped d (put_quota_row r ticks price (ul_tables l))" using r(1) put_row_stops by blast
    have "wp (db_write io (\<lambda>s. Inr (put_quota_row r ticks price s))) (\<lambda>x l'. stopped d l' \<and> (x = Inr () \<longrightarrow> row_stopped d (ul_tables l'))) l"
      by (rule wp_db_put) (use l put stopped_tables in auto)
    then show ?thesis using False l r(1) Some \<open>qj_closed r\<close> by (simp add: restore_row_def wp_simps quota_row_def)
  qed
qed

lemma restore_keeps_stop:
  assumes l: "stopped d l"
  shows "wp (restore_quota io b) (\<lambda>x l'. stopped d l' \<and> (b \<and> x = Inr () \<longrightarrow> row_stopped d (ul_tables l'))) l"
proof (cases "journal_read (ul_journal l)")
  case (Inl e)
  then show ?thesis using l by (simp add: restore_quota_def wp_simps)
next
  case (Inr ro)
  show ?thesis
  proof (cases ro)
    case None
    then have "row_stopped d (ul_tables l)"
      using l Inr by (simp add: journal_read_None stopped_def journal_stopped_def)
    then show ?thesis using l Inr None by (simp add: restore_quota_def wp_simps)
  next
    case (Some r)
    show ?thesis
    proof (cases "qj_pending_deals r = [] \<and> has_terms r")
      case False
      then show ?thesis using l Inr Some
        by (auto simp: restore_quota_def wp_simps has_terms_def ensure_def split: option.splits)
    next
      case True
      then obtain ticks price where terms: "qj_ticks r = Some ticks" "qj_price r = Some price" by (auto simp: has_terms_def)
      have r: "qj_deal r = d" "qj_closed r \<or> row_stopped d (ul_tables l)" using stop_of_record [OF l] Inr Some True by auto
      have "wp (run_then (db_write io (record_deal_price_in (qj_deal r) price)) (\<lambda>_. restore_row io r ticks price))
          (\<lambda>x l'. stopped d l' \<and> (b \<and> x = Inr () \<longrightarrow> row_stopped d (ul_tables l'))) l"
      proof (rule wp_thenI)
        show "wp (db_write io (record_deal_price_in (qj_deal r) price))
            (\<lambda>x l'. stopped d l' \<and> (row_stopped d (ul_tables l) \<longrightarrow> row_stopped d (ul_tables l'))) l"
          by (rule wp_db_write) (use l price_keeps_row stopped_tables in \<open>auto simp: row_stopped_def\<close>)
      next
        fix x l' assume "stopped d l' \<and> (row_stopped d (ul_tables l) \<longrightarrow> row_stopped d (ul_tables l'))"
        then show "wp (restore_row io r ticks price) (\<lambda>x l'. stopped d l' \<and> (b \<and> x = Inr () \<longrightarrow> row_stopped d (ul_tables l'))) l'"
          using r by (intro wp_mono [OF restore_row_stops]) auto
      qed simp
      then show ?thesis using l Inr Some True terms by (simp add: restore_quota_def wp_simps)
    qed
  qed
qed

lemma restore_maintains: "maintains (stopped d) (restore_quota io b)"
  by (rule maintainsI, rule wp_mono, erule restore_keeps_stop) simp

text \<open>A write of the journal that keeps the deal, its terms and the stop, or that names no purchase.\<close>

lemma journal_write_keeps_stop:
  assumes "stopped d l" and "journal_read (ul_journal l) = Inr (Some r)"
    and "qj_deal r' = qj_deal r" "qj_ticks r' = qj_ticks r" "qj_price r' = qj_price r" "qj_closed r \<longrightarrow> qj_closed r'"
  shows "wp (write_quota_journal io r') (\<lambda>_. stopped d) l"
proof -
  have "stopped d (l\<lparr>ul_journal := JournalStored r'\<rparr>)"
    using assms journal_read_Some [OF assms(2)] by (auto simp: stopped_def journal_stopped_def has_terms_def)
  then show ?thesis unfolding write_quota_journal_def using assms(1) by (intro wp_replace_journal)
qed

lemma begin_maintains: "maintains (stopped d) (begin_deal_quota io x)"
proof (rule maintainsI)
  fix l assume l: "stopped d l"
  show "wp (begin_deal_quota io x) (\<lambda>_. stopped d) l"
  proof (cases "journal_read (ul_journal l)")
    case (Inl e)
    then show ?thesis using l by (simp add: begin_deal_quota_def wp_simps)
  next
    case (Inr ro)
    show ?thesis
    proof (cases ro)
      case None
      let ?r = "\<lparr>qj_deal = x, qj_ticks = None, qj_price = None, qj_closed = False, qj_pending_deals = [x]\<rparr>"
      have "stopped d (l\<lparr>ul_journal := JournalStored ?r\<rparr>)"
        using l Inr None by (auto simp: journal_read_None stopped_def journal_stopped_def has_terms_def)
      then have "wp (write_quota_journal io ?r) (\<lambda>_. stopped d) l"
        unfolding write_quota_journal_def using l by (intro wp_replace_journal)
      then show ?thesis using Inr None by (simp add: begin_deal_quota_def wp_simps)
    next
      case (Some r)
      then show ?thesis
        using l Inr journal_write_keeps_stop [OF l, of r "r\<lparr>qj_pending_deals := qj_pending_deals r @ [x]\<rparr>" io]
        by (simp add: begin_deal_quota_def wp_simps Let_def)
    qed
  qed
qed

lemma discard_maintains: "maintains (stopped d) (discard_unopened_deal_quota io x)"
proof (rule maintainsI)
  fix l assume l: "stopped d l"
  show "wp (discard_unopened_deal_quota io x) (\<lambda>_. stopped d) l"
  proof (cases "\<exists>r. journal_read (ul_journal l) = Inr (Some r)")
    case False
    then show ?thesis using l by (auto simp: discard_unopened_deal_quota_def wp_simps split: sum.splits option.splits)
  next
    case True
    then obtain r where r: "journal_read (ul_journal l) = Inr (Some r)" by blast
    have "stopped d (l\<lparr>ul_journal := JournalAbsent\<rparr>)" if "qj_ticks r = None"
      using l that journal_read_Some [OF r] by (auto simp: stopped_def journal_stopped_def has_terms_def)
    then have "wp (replace_journal io JournalAbsent) (\<lambda>_. stopped d) l" if "qj_ticks r = None"
      using l that by (intro wp_replace_journal) auto
    then show ?thesis
      using l r journal_write_keeps_stop [OF l r, of "r\<lparr>qj_pending_deals := filter (\<lambda>d. d \<noteq> x) (qj_pending_deals r)\<rparr>" io]
      by (simp add: discard_unopened_deal_quota_def wp_simps Let_def)
  qed
qed

lemma wp_recorded: "wp recorded_purchase q l =
    (case journal_read (ul_journal l) of Inl e \<Rightarrow> q (Inl e) l | Inr None \<Rightarrow> q (Inr (quota_row (ul_tables l))) l | Inr (Some r) \<Rightarrow> q (Inr (Some r)) l)"
  by (simp add: recorded_purchase_def wp_simps split: sum.splits option.splits)

lemma close_row_keeps: "row_stopped d s \<Longrightarrow> row_stopped d (close_quota_row x s)"
  by (rule closes_keeps_stop) (auto simp: closes_def)

lemma close_maintains: "maintains (stopped d) (close_deal_quota io x)"
  unfolding close_deal_quota_def
proof (rule maintainsI, rule wp_thenI)
  fix l assume l: "stopped d l"
  show "wp recorded_purchase (\<lambda>p l'. l' = l \<and> (case p of Inr (Some r) \<Rightarrow> \<not> qj_closed r \<longrightarrow> journal_read (ul_journal l) = Inr (Some r) | _ \<Rightarrow> True)) l"
    using l by (auto simp: wp_recorded journal_read_None stopped_def journal_stopped_def row_stopped_def quota_row_def split: sum.splits option.splits)
  fix p l'
  assume p: "l' = l \<and> (case (Inr p :: (quota_journal option, usage_msg) result) of
      Inr (Some r) \<Rightarrow> \<not> qj_closed r \<longrightarrow> journal_read (ul_journal l) = Inr (Some r) | _ \<Rightarrow> True)"
  show "wp (run_then (case p of Some r \<Rightarrow> if qj_deal r = x \<and> \<not> qj_closed r then write_quota_journal io (r\<lparr>qj_closed := True\<rparr>) else run_pure (Inr ())
      | None \<Rightarrow> run_pure (Inr ())) (\<lambda>_. db_write io (\<lambda>s. Inr (close_quota_row x s)))) (\<lambda>_. stopped d) l'"
  proof (rule wp_thenI)
    show "wp (case p of Some r \<Rightarrow> if qj_deal r = x \<and> \<not> qj_closed r then write_quota_journal io (r\<lparr>qj_closed := True\<rparr>) else run_pure (Inr ())
        | None \<Rightarrow> run_pure (Inr ())) (\<lambda>_. stopped d) l'"
      using p l by (auto simp: wp_simps intro!: journal_write_keeps_stop split: option.splits)
    show "wp (db_write io (\<lambda>s. Inr (close_quota_row x s))) (\<lambda>_. stopped d) w" if "stopped d w" for w
      by (rule wp_db_write) (use that in \<open>auto intro: stopped_tables close_row_keeps\<close>)
  qed simp
qed auto

lemma expenses_maintain: "maintains (stopped d) (apply_deal_expenses cal io x fcs st now)"
  unfolding apply_deal_expenses_def
proof (rule maintains_then)
  show "maintains (stopped d) (db_write io (deal_expenses_in cal x fcs st now))"
    by (rule db_write_keeps_stop) (blast intro: closes_keeps_stop expenses_quota(2))
qed (simp add: close_maintains)

lemma snapshot_maintains: "maintains (stopped d) (admission_snapshot io h m)"
  unfolding admission_snapshot_def by (rule maintains_then, rule restore_maintains) (simp add: maintains_def wp_simps Let_def)

text \<open>Rebinding the stopped deal keeps its stop.\<close>

lemma reopen_maintains: "maintains (stopped d) (open_deal_quota io d ticks price)"
proof (rule maintainsI)
  fix l assume l: "stopped d l"
  have wr: "wp (run_then (write_quota_journal io r) (\<lambda>_. restore_quota io True)) (\<lambda>_. stopped d) l"
    if r: "qj_deal r = d" "has_terms r" "qj_closed r \<or> row_stopped d (ul_tables l)" for r
  proof (rule wp_thenI)
    have "stopped d (l\<lparr>ul_journal := JournalStored r\<rparr>)" using r by (auto simp: stopped_def journal_stopped_def)
    then show "wp (write_quota_journal io r) (\<lambda>_. stopped d) l"
      unfolding write_quota_journal_def using l by (intro wp_replace_journal)
    show "wp (restore_quota io True) (\<lambda>_. stopped d) w" if "stopped d w" for w
      using restore_maintains that by (simp add: maintains_def)
  qed simp
  show "wp (open_deal_quota io d ticks price) (\<lambda>_. stopped d) l"
  proof (cases "journal_read (ul_journal l)")
    case (Inl e)
    then show ?thesis using l by (simp add: open_deal_quota_def wp_simps wp_recorded)
  next
    case (Inr ro)
    define p where "p = (case ro of Some r \<Rightarrow> Some r | None \<Rightarrow> quota_row (ul_tables l))"
    have stop: "(\<exists>r. p = Some r \<and> qj_deal r = d \<and> qj_closed r) \<or> row_stopped d (ul_tables l)"
      using l Inr by (cases ro) (auto dest!: journal_read_Some simp: p_def stopped_def journal_stopped_def journal_read_None)
    have "recorded_purchase l = (Inr p, l)"
      using Inr wp_recorded [of "\<lambda>r w. (r, w) = (Inr p, l)" l] by (auto simp: wp_def p_def split: option.splits)
    then have read: "wp recorded_purchase q l = q (Inr p) l" for q by (simp add: wp_def)
    show ?thesis
    proof (cases p)
      case None
      then show ?thesis using l stop by (simp add: open_deal_quota_def wp_then [of recorded_purchase] read wp_pure_then wp_simps(2) wr has_terms_def)
    next
      case (Some r)
      then show ?thesis using l stop
        by (cases "qj_deal r = d") (simp_all add: open_deal_quota_def wp_then [of recorded_purchase] read wp_pure_then wp_pure wr has_terms_def)
    qed
  qed
qed

text \<open>Everything the process does with the store, whatever fails, short of opening the purchase of another deal.\<close>

inductive ledger_step :: "(int \<Rightarrow> bool) \<Rightarrow> string \<Rightarrow> usage_ledger \<Rightarrow> usage_ledger \<Rightarrow> bool" for cal :: "int \<Rightarrow> bool" and d :: string where
  restored: "restore_quota io b l = (x, l') \<Longrightarrow> ledger_step cal d l l'"
| begun: "begin_deal_quota io y l = (x, l') \<Longrightarrow> ledger_step cal d l l'"
| discarded: "discard_unopened_deal_quota io y l = (x, l') \<Longrightarrow> ledger_step cal d l l'"
| rebound: "open_deal_quota io d ticks price l = (x, l') \<Longrightarrow> ledger_step cal d l l'"
| closed: "close_deal_quota io y l = (x, l') \<Longrightarrow> ledger_step cal d l l'"
| reported: "apply_deal_expenses cal io y fcs st now l = (x, l') \<Longrightarrow> ledger_step cal d l l'"
| shown: "admission_snapshot io h m l = (z, l') \<Longrightarrow> ledger_step cal d l l'"
| stored: "money_step cal (ul_tables l) s \<Longrightarrow> ledger_step cal d l (l\<lparr>ul_tables := s\<rparr>)"

lemma maintainsD: "maintains P m \<Longrightarrow> P l \<Longrightarrow> m l = (x, l') \<Longrightarrow> P l'"
  by (auto simp: maintains_def wp_def split: prod.splits)

lemma ledger_step_keeps_stop: "ledger_step cal d l l' \<Longrightarrow> stopped d l \<Longrightarrow> stopped d l'"
proof (induction rule: ledger_step.induct)
  case (stored l s)
  then show ?case by (intro stopped_tables) (auto intro: closes_keeps_stop dest: money_step_quota)
qed (blast intro: maintainsD restore_maintains begin_maintains discard_maintains reopen_maintains close_maintains expenses_maintain snapshot_maintains)+

lemma close_stops:
  assumes p: "recorded_purchase l = (Inr (Some p), l0)" "qj_deal p = d" "has_terms p" and close: "close_deal_quota io d l = (Inr (), l')"
  shows "stopped d l'"
proof (cases "qj_closed p")
  case True
  have "stopped d l"
    using p True wp_recorded [of "\<lambda>r w. r = Inr (Some p)" l] journal_read_Some
    by (fastforce simp: wp_def stopped_def journal_stopped_def row_stopped_def journal_read_None quota_row_def has_terms_def split: sum.splits option.splits)
  then show ?thesis using maintainsD [OF close_maintains _ close] by blast
next
  case False
  have same: "wp recorded_purchase q l = q (Inr (Some p)) l" for q
    using p(1) wp_recorded [of "\<lambda>r w. w = l" l] by (auto simp: wp_def split: sum.splits option.splits)
  have "wp (close_deal_quota io d) (\<lambda>x l'. x = Inr () \<longrightarrow> stopped d l') l"
    unfolding close_deal_quota_def wp_then [of recorded_purchase] same sum.case option.case
  proof (rule wp_thenI)
    have "stopped d (l\<lparr>ul_journal := JournalStored (p\<lparr>qj_closed := True\<rparr>)\<rparr>)" using p by (simp add: stopped_def journal_stopped_def has_terms_def)
    then show "wp (if qj_deal p = d \<and> \<not> qj_closed p then write_quota_journal io (p\<lparr>qj_closed := True\<rparr>) else run_pure (Inr ()))
        (\<lambda>x l'. x = Inr () \<longrightarrow> stopped d l') l"
      using p False by (cases "qi_write io") (simp_all add: write_quota_journal_def replace_journal_def wp_simps)
    fix x w assume "Inr x = Inr () \<longrightarrow> stopped d w"
    then show "wp (db_write io (\<lambda>s. Inr (close_quota_row d s))) (\<lambda>x l'. x = Inr () \<longrightarrow> stopped d l') w"
      by (intro wp_db_write) (auto intro: stopped_tables close_row_keeps)
  qed simp
  then show ?thesis using close by (simp add: wp_def)
qed

lemma ledger_steps_keep_stop: "(ledger_step cal d)\<^sup>*\<^sup>* l l' \<Longrightarrow> stopped d l \<Longrightarrow> stopped d l'"
  by (induction rule: rtranclp_induct) (auto intro: ledger_step_keeps_stop)

text \<open>
  Claim C20: a recorded stop is never lost.  Once the current purchase has been closed, whatever the process does next with the
  store, in any order and whichever writes of the journal or the database fail, also rebinding the same deal, every
  admission snapshot that is given at all shows nothing left to spend, until the purchase of another deal is opened.
\<close>

theorem stop_survives:
  assumes "recorded_purchase l = (Inr (Some p), l0)" "qj_deal p = d" "has_terms p" and "close_deal_quota io d l = (Inr (), l1)"
    and "(ledger_step cal d)\<^sup>*\<^sup>* l1 l2"
    and "admission_snapshot io' h m l2 = (Inr (complete, totals, limit, used, left), l3)"
  shows "left = 0"
proof -
  have "stopped d l2" using close_stops [OF assms(1-4)] ledger_steps_keep_stop [OF assms(5)] by blast
  then have "wp (restore_quota io' True) (\<lambda>x l'. x = Inr () \<longrightarrow> row_stopped d (ul_tables l')) l2"
    by (intro wp_mono [OF restore_keeps_stop]) auto
  then have "wp (admission_snapshot io' h m) (\<lambda>x l'. \<forall>c t li u le. x = Inr (c, t, li, u, le) \<longrightarrow> le = 0) l2"
    unfolding admission_snapshot_def
    by (rule wp_thenI) (auto simp: wp_simps Let_def row_stopped_def quota_with_cost_in_def result_simps)
  then show ?thesis using assms(6) by (simp add: wp_def)
qed

section \<open>What admission is shown\<close>

text \<open>The row after the journal was restored, for a purchase in the journal.\<close>

definition restored_row :: "usage_ledger \<Rightarrow> quota_journal \<Rightarrow> money_tables \<Rightarrow> bool" where
  "restored_row l r s \<longleftrightarrow> qj_pending_deals r = []
     \<and> (\<exists>q. mn_quota s = Some q \<and> qr_deal q = qj_deal r \<and> qj_ticks r = Some (qr_ticks q) \<and> qj_price r = Some (qr_price q)
          \<and> (qr_closed q \<longleftrightarrow> qj_closed r \<or> row_stopped (qj_deal r) (ul_tables l) \<or> facts_of SettlementKind (qj_deal r) (ul_tables l) \<noteq> []))"

lemma restore_row_shows:
  assumes inv: "quota_inv (ul_tables w)" and same: "mn_quota (ul_tables w) = mn_quota (ul_tables l)" "mn_facts (ul_tables w) = mn_facts (ul_tables l)"
    and r: "qj_pending_deals r = []" "qj_ticks r = Some ticks" "qj_price r = Some price"
  shows "wp (restore_row io r ticks price) (\<lambda>x l'. x = Inr () \<longrightarrow> restored_row l r (ul_tables l')) w"
proof -
  have facts: "facts_of SettlementKind x (ul_tables w) = facts_of SettlementKind x (ul_tables l)" for x using same(2) by (simp add: facts_of_def)
  have put: "wp (db_write io (\<lambda>s. Inr (put_quota_row r ticks price s))) (\<lambda>x l'. x = Inr () \<longrightarrow> restored_row l r (ul_tables l')) w"
    if "row_stopped (qj_deal r) (ul_tables l) \<longrightarrow> qj_closed r"
    by (rule wp_db_put) (use that r facts in \<open>auto simp: restored_row_def put_quota_row_def\<close>)
  show ?thesis
  proof (cases "mn_quota (ul_tables w)")
    case None
    then show ?thesis using put same(1) by (simp add: restore_row_def wp_simps quota_row_def row_stopped_def)
  next
    case (Some q)
    then show ?thesis
      using put same(1) r inv facts
      by (auto simp: restore_row_def wp_simps quota_row_def row_stopped_def restored_row_def quota_inv_def)
  qed
qed

lemma restore_shows_row:
  assumes inv: "quota_inv (ul_tables l)" and r: "ul_journal l = JournalStored r"
  shows "wp (restore_quota io True) (\<lambda>x l'. x = Inr () \<longrightarrow> restored_row l r (ul_tables l')) l"
proof (cases "qj_pending_deals r = [] \<and> has_terms r")
  case False
  then show ?thesis using r
    by (auto simp: restore_quota_def wp_simps journal_read_def has_terms_def ensure_def split: option.splits)
next
  case True
  then obtain ticks price where terms: "qj_ticks r = Some ticks" "qj_price r = Some price" by (auto simp: has_terms_def)
  have "wp (run_then (db_write io (record_deal_price_in (qj_deal r) price)) (\<lambda>_. restore_row io r ticks price))
      (\<lambda>x l'. x = Inr () \<longrightarrow> restored_row l r (ul_tables l')) l"
  proof (rule wp_thenI)
    show "wp (db_write io (record_deal_price_in (qj_deal r) price))
        (\<lambda>x w. mn_quota (ul_tables w) = mn_quota (ul_tables l) \<and> mn_facts (ul_tables w) = mn_facts (ul_tables l)) l"
      by (rule wp_db_write) (auto simp: price_keeps_row facts_untouched(7))
    fix x and w :: usage_ledger assume w: "mn_quota (ul_tables w) = mn_quota (ul_tables l) \<and> mn_facts (ul_tables w) = mn_facts (ul_tables l)"
    then have "quota_inv (ul_tables w)" using inv by (simp add: quota_inv_def facts_of_def)
    then show "wp (restore_row io r ticks price) (\<lambda>x l'. x = Inr () \<longrightarrow> restored_row l r (ul_tables l')) w"
      using restore_row_shows w True terms by blast
  qed simp
  then show ?thesis using r True terms by (simp add: restore_quota_def wp_simps journal_read_def)
qed

text \<open>
  Claim C22: the admission snapshot follows the journal and the history.  When it is given while a purchase is in the journal, that
  purchase is decided and its terms are known; the limit is its ticks at its price, what is used is the exact
  cost of all accepted tokens of its deal, priced from the history, and what is left is the difference,
  or nothing once the purchase is stopped or its settlement is on file; the totals are those of the history.
\<close>

theorem snapshot_shows_purchase:
  assumes "usage_reach cal h" and "money_reach cal (ul_tables l)" and "ul_journal l = JournalStored r"
    and "admission_snapshot io h m l = (Inr (complete, totals, limit, used, left), l')"
  shows "qj_pending_deals r = [] \<and> totals = recount_model m h \<and> (complete \<longleftrightarrow> mo_incomplete (recount_model m h) = 0)
     \<and> (\<exists>ticks price. qj_ticks r = Some ticks \<and> qj_price r = Some price \<and> limit = ticks * price
          \<and> consumed_cost_in (qj_deal r) price h = Inr used
          \<and> left = (if qj_closed r \<or> row_stopped (qj_deal r) (ul_tables l) \<or> facts_of SettlementKind (qj_deal r) (ul_tables l) \<noteq> []
                     then 0 else limit - used))"
proof -
  note inv = usage_reach_inv [OF assms(1)]
  let ?stop = "qj_closed r \<or> row_stopped (qj_deal r) (ul_tables l) \<or> facts_of SettlementKind (qj_deal r) (ul_tables l) \<noteq> []"
  have "wp (restore_quota io True) (\<lambda>x l'. x = Inr () \<longrightarrow> restored_row l r (ul_tables l')) l"
    by (rule restore_shows_row [OF reach_quota [OF assms(2)] assms(3)])
  then have "wp (admission_snapshot io h m) (\<lambda>x l'. \<forall>c t li u le. x = Inr (c, t, li, u, le) \<longrightarrow>
      qj_pending_deals r = [] \<and> t = read_model m h \<and> (c \<longleftrightarrow> mo_incomplete (read_model m h) = 0)
      \<and> (\<exists>ticks price. qj_ticks r = Some ticks \<and> qj_price r = Some price \<and> li = ticks * price
          \<and> tokens_cost price (read_deal (qj_deal r) h) = Inr u \<and> le = (if ?stop then 0 else li - u))) l"
    unfolding admission_snapshot_def
    by (rule wp_thenI) (auto simp: wp_simps Let_def restored_row_def quota_with_cost_in_def result_simps checked_simps saturating_sub_def)
  then have "qj_pending_deals r = [] \<and> totals = read_model m h \<and> (complete \<longleftrightarrow> mo_incomplete (read_model m h) = 0)
      \<and> (\<exists>ticks price. qj_ticks r = Some ticks \<and> qj_price r = Some price \<and> limit = ticks * price
          \<and> tokens_cost price (read_deal (qj_deal r) h) = Inr used \<and> left = (if ?stop then 0 else limit - used))"
    using assms(4) by (simp add: wp_def)
  then show ?thesis by (simp only: model_is_recounted [OF inv] stored_cost [OF inv])
qed

text \<open>A purchase of three ticks at a price of seven, opened on an empty store.\<close>

definition good_io :: quota_io where
  "good_io = \<lparr>qi_write = JournalOk, qi_db = True\<rparr>"

definition sample_record :: "bool \<Rightarrow> quota_journal" where
  "sample_record stop = \<lparr>qj_deal = ''d'', qj_ticks = Some 3, qj_price = Some 7, qj_closed = stop, qj_pending_deals = []\<rparr>"

definition sample_ledger :: "bool \<Rightarrow> usage_ledger" where
  "sample_ledger stop = \<lparr>ul_tables = empty_money\<lparr>mn_prices := [(''d'', 7)],
     mn_quota := Some \<lparr>qr_deal = ''d'', qr_ticks = 3, qr_price = 7, qr_closed = stop\<rparr>\<rparr>, ul_journal = JournalStored (sample_record stop)\<rparr>"

lemmas ledger_ops = run_then_def run_get_def run_pure_def run_modify_def read_quota_journal_def replace_journal_def write_quota_journal_def
  db_write_def record_deal_price_in_def restore_row_def restore_quota_def recorded_purchase_def open_deal_quota_def close_deal_quota_def
  quota_row_def put_quota_row_def close_quota_row_def facts_of_def checked_mul_def good_io_def sample_record_def sample_ledger_def
  empty_money_def hm_get_def hm_insert_def u128_max_def

lemma sample_open: "open_deal_quota good_io ''d'' 3 7 \<lparr>ul_tables = empty_money, ul_journal = JournalAbsent\<rparr> = (Inr (), sample_ledger False)"
  by (simp add: ledger_ops)

lemma sample_close: "close_deal_quota good_io ''d'' (sample_ledger False) = (Inr (), sample_ledger True)"
  by (simp add: ledger_ops)

lemma sample_rebind: "open_deal_quota good_io ''d'' 3 7 (sample_ledger True) = (Inr (), sample_ledger True)"
  by (simp add: ledger_ops)

lemma sample_snapshot:
  "\<exists>c t left. admission_snapshot good_io empty_history ''m'' (sample_ledger stop) = (Inr (c, t, 21, 0, left), sample_ledger stop)"
  by (simp add: admission_snapshot_def quota_with_cost_in_def tokens_cost_eq read_deal_def empty_history_def TICK_SIZE_def Let_def ledger_ops)

theorem stop_survives_witness:
  "\<exists>c t. close_deal_quota good_io ''d'' (sample_ledger False) = (Inr (), sample_ledger True)
     \<and> open_deal_quota good_io ''d'' 3 7 (sample_ledger True) = (Inr (), sample_ledger True)
     \<and> admission_snapshot good_io empty_history ''m'' (sample_ledger True) = (Inr (c, t, 21, 0, 0), sample_ledger True)"
proof -
  obtain c t left where shown: "admission_snapshot good_io empty_history ''m'' (sample_ledger True) = (Inr (c, t, 21, 0, left), sample_ledger True)"
    using sample_snapshot by blast
  have "recorded_purchase (sample_ledger False) = (Inr (Some (sample_record False)), sample_ledger False)" by (simp add: ledger_ops)
  moreover have "(ledger_step (\<lambda>_. True) ''d'')\<^sup>*\<^sup>* (sample_ledger True) (sample_ledger True)"
    using rebound [OF sample_rebind] by blast
  ultimately have "left = 0"
    using stop_survives [of "sample_ledger False" "sample_record False" "sample_ledger False" "''d''" good_io "sample_ledger True" "\<lambda>_. True" "sample_ledger True"]
      sample_close shown by (simp add: sample_record_def has_terms_def)
  then show ?thesis using sample_close sample_rebind shown by auto
qed

lemma sample_reach: "money_reach (\<lambda>_. True) (ul_tables (sample_ledger False))"
proof -
  have "record_deal_price_in ''d'' 7 empty_money = Inr (empty_money\<lparr>mn_prices := [(''d'', 7)]\<rparr>)" by (simp add: ledger_ops)
  then have "money_reach (\<lambda>_. True) (put_quota_row (sample_record False) 3 7 (empty_money\<lparr>mn_prices := [(''d'', 7)]\<rparr>))"
    by (intro purchase written [OF created price])
  then show ?thesis by (simp add: put_quota_row_def sample_ledger_def sample_record_def facts_of_def empty_money_def)
qed

theorem snapshot_shows_purchase_witness:
  "\<exists>c t. admission_snapshot good_io empty_history ''m'' (sample_ledger False) = (Inr (c, t, 21, 0, 21), sample_ledger False)"
proof -
  obtain c t left where shown: "admission_snapshot good_io empty_history ''m'' (sample_ledger False) = (Inr (c, t, 21, 0, left), sample_ledger False)"
    using sample_snapshot by blast
  have "left = 21"
    using snapshot_shows_purchase [OF usage_reach.new sample_reach _ shown, of "sample_record False"]
    by (simp add: sample_ledger_def sample_record_def row_stopped_def facts_of_def empty_money_def)
  then show ?thesis using shown by auto
qed

text \<open>Opening the purchase of another deal in between takes the stop away: the stopped deal can then be bound as if it were open.\<close>

lemma stop_lost_after_other_purchase:
  "\<exists>l1 l2 c t. open_deal_quota good_io ''e'' 1 1 (sample_ledger True) = (Inr (), l1) \<and> open_deal_quota good_io ''d'' 3 7 l1 = (Inr (), l2)
     \<and> admission_snapshot good_io empty_history ''m'' l2 = (Inr (c, t, 21, 0, 21), l2)"
  by (simp add: admission_snapshot_def quota_with_cost_in_def tokens_cost_eq read_deal_def empty_history_def TICK_SIZE_def Let_def
      saturating_sub_def ledger_ops)

end
