(* ===== verification/Spec2Isabelle.thy ===== *)
theory Spec2Isabelle
  imports MatchCursor Decimal Settle Machine Escrow Monitor DealProps BackendProps SubscriptionBook
    Conservation Recovery Preflight Address AdvanceWait GatewayProps WithdrawGate AccumulatorRun KeeperMock UsagePurchase
begin

text \<open>
  Verification of the core of \<^bold>\<open>dexdo\<close>, the command-line client of a private inference market.
  A seller posts an offer for a number of ticks (one tick is a million model tokens) at a price per
  tick; a buyer fills it and locks an escrow; the seller opens the deal with a bond of two ticks, one
  probe tick is tried first, then the seller claims delivered tokens, claims become final after a
  window, and the deal ends by full delivery, a stop of either party, a dispute, or the expiry of
  a subscription.  The client holds a complete implementation of this protocol in Rust (the mock
  chain backend), the formulas and checks it applies before it signs anything against the real
  chain, the ledgers it uses to audit what the chain did, the gateway and the claim driver of the
  seller, the store in which the buyer keeps what it consumed and paid, and the commands that exchange SHELL for a stablecoin.  All of these are modelled here.  Paths below are
  relative to \<open>src/crates/core/src\<close>; those that start with \<open>seller\<close>, \<open>buyer\<close> or \<open>cli\<close> to \<open>src/crates/dexdo/src\<close>.

  \<^bold>\<open>Conventions.\<close>  \<open>Result\<close> is the sum type \<open>result\<close> of \<open>Prelude\<close>, with \<open>and_then\<close> for the
  question mark operator; each component has a datatype of its own for its errors, one constructor
  for each message of the source.  Unsigned integers are naturals with their width written out:
  \<open>checked_\<close>, \<open>saturating_\<close> and \<open>wrapping_\<close> operations take the largest value of the type, and
  every checked operation of the source is one in the model, with its error.  Hash maps are
  association lists behind the locale \<open>hash_map\<close>.  Loops that stop at the first error are
  \<open>try_fold\<close>, with the locale \<open>fold_invariant\<close>.  A method on shared state that may fail is a \<open>run\<close>: what it did
  before it failed stays done; \<open>wp\<close> is its weakest precondition, and component proofs rewrite with it.  Objects
  shared by several handles (ledger entries, delivery counters) live in a heap of the state.  A write to disk
  succeeds, fails, or takes effect and then reports a failure.  In the mock chain the clock is an argument: an
  operation that reads it twice takes two times.  A database is a record of tables, each a map from its primary key, for one network; a
  transaction is an operation that returns the new tables or an error and then keeps the old ones.  Code that talks to the chain, to a clock or to the disk gets them as a
  record of functions on a world of any type (\<open>seller_env\<close>, \<open>keeper_env\<close>, \<open>acc_env\<close>), so that other parties may act between any two
  calls; the calls are logged.  Values of the JSON library are seen through a parameter (\<open>Json\<close>).

  \<^bold>\<open>Fuel.\<close>  Only the loops of the claim driver and of the keeper carry fuel, as they wait on the outside; running out of it is
  an outcome of its own (\<open>OutOfFuel\<close>, \<open>KeeperOutOfFuel\<close>).  \<open>AdvanceWait\<close> shows that a wait of length \<open>d\<close> needs \<open>d / 3 s + 1\<close> rounds on any clock that advances, and
  \<open>AdvanceMock\<close> that the whole driver, on the mock chain, needs one round for each tick left to claim and one more;
  \<open>KeeperMock\<close> that the keeper needs at most one for each second to the end of the term, and six more.  All other
  loops run over a list or a fixed number of reads.

  \<^bold>\<open>The theories.\<close>
  \<^item> \<open>Params\<close>, \<open>Decimal\<close>, \<open>HexText\<close>: \<open>params.rs\<close>, the protocol constants, the claim allowance, prices, deadlines,
    and the one renderer and parser of SHELL amounts (round trip, least ceiling); text helpers of the standard library.
  \<^item> \<open>Address\<close>: \<open>address.rs\<close>, the canonical address, its parser and printers.
  \<^item> \<open>Settle\<close>: \<open>settle.rs\<close>, fee, rebate and burn formulas, with their truncation.
  \<^item> \<open>Machine\<close>: \<open>machine.rs\<close>, the stream state machine; a panic is \<open>None\<close>.  Its events and runs are
    notions of the proofs.
  \<^item> \<open>MarketTypes\<close>, \<open>MatchCursor\<close>: \<open>market/types.rs\<close>, orders, deals, lifecycle predicates, the
    validation across getters, and the cursor of the match watcher.
  \<^item> \<open>Escrow\<close>, \<open>Monitor\<close>, \<open>Recovery\<close>: \<open>market/accounting.rs\<close> and \<open>market/mod.rs\<close>, escrow
    formulas, reserves, the quote over the resting book, the accounting view, anomalies, and the
    checks made before a stop, a dispute, a reclaim or a resume.
  \<^item> \<open>Conservation\<close>: \<open>market/deal_conservation.rs\<close>, the ledger replayed from chain events.
  \<^item> \<open>MockTypes\<close>, \<open>MockEngine\<close>, \<open>MockDeal\<close>, \<open>MockPersist\<close>, \<open>MockBook\<close>, \<open>MockBackend\<close>:
    \<open>market/mock.rs\<close>, from the stored cell of a deal and the settlement engine, through the
    operations on one deal and on the whole book, to the backend that keeps the state in a file.
    The respelling of address fields when the file is written and read is part of \<open>store_state\<close> and \<open>load_state\<close>;
    JSON text below it is a parameter, the record \<open>codec\<close>, of which a round trip is assumed (\<open>codec_ok\<close>).
  \<^item> \<open>MockMoney\<close>, \<open>MockPay\<close>, \<open>MockInvariant\<close>, \<open>MockSteps\<close>: the invariant of one deal and its
    preservation by every operation; \<open>deal_reach\<close> is the set of reachable deals.
  \<^item> \<open>MockLiveness\<close>, \<open>MockResolve\<close>, \<open>MockNoPanic\<close>: that stops and dispute resolutions succeed on
    reachable deals, and that no operation panics.
  \<^item> \<open>MockState\<close>: the invariant of the whole stored state and the step relation \<open>state_step\<close>.
  \<^item> \<open>MockFile\<close>: the state file and the spelling of addresses in it: which contracts read back as they were written, and what
    becomes of a file under any other.
  \<^item> \<open>DealProps\<close>, \<open>BackendProps\<close>, \<open>SubscriptionBook\<close>: the properties of deals, of the backend and of
    subscription orders.
  \<^item> \<open>Preflight\<close>: the checks of a command against the backend: they pass exactly when the operation they guard succeeds, but for
    the note and the seller key, which only the client checks.
  \<^item> \<open>Capacity\<close>, \<open>CapacityProps\<close>, \<open>CapacityTrace\<close>: \<open>seller/capacity.rs\<close>, the durable ledger of what a seller may still
    deliver, its reservations and their ends; the invariant; and what each call does to delivered totals.
  \<^item> \<open>Advance\<close>, \<open>AdvanceProps\<close>, \<open>AdvanceLive\<close>, \<open>AdvanceMock\<close>, \<open>AdvanceWait\<close>: \<open>seller/advance.rs\<close>, the claim driver; what its
    log never shows; progress on a \<open>cooperative_chain\<close>, which the mock chain is; and the end of its waits on an
    \<open>advancing_clock\<close>.
  \<^item> \<open>Keeper\<close>, \<open>KeeperProps\<close>, \<open>KeeperMock\<close>: \<open>seller/keeper.rs\<close>, the loop that promotes claims and settles the weeks of a
    subscription; what its log never shows; and its progress on a \<open>settling_chain\<close>, which the mock chain is.
  \<^item> \<open>Relay\<close>, \<open>Auth\<close>, \<open>Gateway\<close>, \<open>GatewayProps\<close>: \<open>seller/gateway.rs\<close>, \<open>seller/auth.rs\<close> and the billing record of
    \<open>dexdo-proto\<close>: the relay of one request against the interface \<open>delivery_recorder\<close>, one-time challenges, and the gateway
    that connects requests, counters and the ledger, with its step relation.
  \<^item> \<open>Json\<close>, \<open>WithdrawGate\<close>: \<open>note_withdraw_gate.rs\<close> and, for comparison, the requires of \<open>withdrawTokens\<close> in
    \<open>src/contracts/dex/PrivateNote.sol\<close>.
  \<^item> \<open>Accumulator\<close>, \<open>AccumulatorRun\<close>: \<open>accumulator.rs\<close> and \<open>cli/accumulator.rs\<close>, the plans of an exchange and the
    commands that carry them out under a file that records the operation.
  \<^item> \<open>UsageStore\<close>, \<open>UsageAdmission\<close>: \<open>buyer/usage.rs\<close> and \<open>buyer/usage_snapshot.rs\<close>, requests, their calls and the running totals that
    admission reads; \<open>usage_reach\<close> is every history, and the totals are those of a walk over it.
  \<^item> \<open>UsageMoney\<close>, \<open>UsageMoneyProps\<close>, \<open>UsagePurchase\<close>: the expenses of \<open>buyer/usage.rs\<close>, the prices of
    \<open>buyer/usage_consumption.rs\<close> and the journal of the current purchase, \<open>buyer/usage_quota_journal.rs\<close>; the partition of expenses and
    replays of them; recorded stops and the admission snapshot under failing writes.

  \<^bold>\<open>What is shown.\<close>  Money of a deal is conserved on every run and a closed deal is final; a stop
  pays the seller exactly the trusted consumption; claims obey interval, rate and quota; every
  reachable dispute can be resolved by either way, with exact books; no reachable operation panics; the file the
  backend writes is accepted on the next load if its contracts are in the spelling of the file, and refused for good after a
  fill under any other; the operations that take a key refuse every key but the right one; a
  matched deal can be opened, and cleaned up when it is not; the subscription escrow is returned
  exactly once; the audit ledger accounts for every unit; quotes are within budget and priced by the formula of
  the escrow; amounts and addresses round trip; the preflight checks agree with the backend.  On the seller's side:
  capacity is never oversold; the driver claims only what was delivered and reported, and, on the mock chain, claims all of it;
  its waits end; the keeper writes only what was due by the last clock reading in the last snapshot it accepted, and, on the mock chain, brings every subscription to its
  end with all its weeks paid; only cleanly finished streams are billed; a challenge opens at most one stream; the counter that the
  driver reads never outruns the durable ledger, and the usage frame a buyer receives is the charge in
  that ledger.  For notes and wallets: the client names exactly the \<open>require\<close> of the contract that holds a withdrawal; a sell plan is
  exact and takes the fewest messages; and no wallet message leaves unless its operation is on file at that moment, nor to any place but its own, and never while an
  earlier one is unsettled.  For the buyer: the totals that admission reads are those of the history; the exported expenses of a settled
  deal add up to what was paid less what came back, and reporting them again changes nothing; a recorded stop survives every
  failing write until another purchase is opened; and the snapshot shows the purchase in the journal at its exact cost.

  \<^bold>\<open>Not modelled.\<close>  The chain client and its backends (network calls through an SDK that is not in
  the repository), the HTTP proxy of the buyer, its routing and the reports over its store, migrations of the database, the translation of a request for a provider and the
  provider proxies of the seller, the remaining commands and their prompts, the generated wire protocol and the deal logic of
  the Solidity contracts.  The poisoning of locks and the texts, traces and metrics that change no state are left out; message texts
  are represented by constructors.
\<close>

end
